(* ===== verification/Prelude.thy ===== *)
theory Prelude
  imports Main "HOL-Library.Word" "HOL-Library.List_Lexorder" "HOL-Library.Char_ord"
    "HOL-Library.Product_Lexorder"
begin

text \<open>
  Shared vocabulary of the Pod Fabric development: the machine types, the collections of
  rewrite rules that the component theories extend, the canonical ordering
  operations of the C++ standard library (\<open>std::sort\<close> followed by \<open>std::unique\<close>),
  decimal rendering (\<open>std::to_string\<close>), and the generic list and word lemmas the
  components share.
\<close>

section \<open>Machine types and rewrite collections\<close>

type_synonym byte = "8 word"
type_synonym u8 = "8 word"
type_synonym u16 = "16 word"
type_synonym u32 = "32 word"
type_synonym u64 = "64 word"

named_theorems result_simps \<open>rewriting of the error monad\<close>
named_theorems enum_defs \<open>definitions of enumeration tables\<close>
named_theorems omap_simps \<open>facts about ordered maps and sets\<close>

lemma unat_bound: "unat (w :: 'a::len word) < 2 ^ LENGTH('a)"
  by (rule unsigned_less)

lemma unat_u64_bound: "unat (w :: u64) < 18446744073709551616"
  using unat_bound[of w] by simp

section \<open>Canonical ordering\<close>

text \<open>
  \<open>canonicalise\<close> on a vector is \<open>std::sort\<close> followed by erasing what \<open>std::unique\<close>
  moves to the end, i.e. removal of adjacent duplicates.
\<close>

definition canonicalise :: "'a::linorder list \<Rightarrow> 'a list" where
  "canonicalise xs = remdups_adj (sort xs)"

lemma set_canonicalise [simp]: "set (canonicalise xs) = set xs"
  by (simp add: canonicalise_def)

lemma sorted_remdups_adj_strict:
  "sorted xs \<Longrightarrow> sorted_wrt (<) (remdups_adj xs)"
proof (induction xs rule: remdups_adj.induct)
  case (3 x y xs)
  then show ?case by (auto simp: less_le)
qed auto

lemma canonicalise_strict: "sorted_wrt (<) (canonicalise xs)"
  by (simp add: canonicalise_def sorted_remdups_adj_strict)

lemma canonicalise_sorted: "sorted (canonicalise xs)"
  using canonicalise_strict[of xs] by (metis sorted_wrt_mono_rel less_imp_le)

lemma canonicalise_distinct: "distinct (canonicalise xs)"
  using canonicalise_strict[of xs] strict_sorted_iff by blast

lemma canonicalise_unique: "set xs = set ys \<Longrightarrow> canonicalise xs = canonicalise ys"
  by (metis canonicalise_strict set_canonicalise strict_sorted_equal)

lemma canonicalise_idem [simp]: "canonicalise (canonicalise xs) = canonicalise xs"
  by (rule canonicalise_unique) simp

lemma canonicalise_Nil_iff [simp]: "canonicalise xs = [] \<longleftrightarrow> xs = []"
  by (metis set_canonicalise set_empty)

lemma canonicalise_Nil [simp]: "canonicalise [] = []"
  by (simp add: canonicalise_def)

lemma canonicalise_strict_id: "sorted_wrt (<) xs \<Longrightarrow> canonicalise xs = xs"
  by (metis canonicalise_strict set_canonicalise strict_sorted_equal)

section \<open>Decimal rendering\<close>

text \<open>\<open>std::to_string\<close> on an unsigned value.\<close>

function dec_string :: "nat \<Rightarrow> string" where
  "dec_string n =
     (if n < 10 then [char_of (48 + n)] else dec_string (n div 10) @ [char_of (48 + n mod 10)])"
  by pat_completeness auto
termination by (relation "measure id") auto

declare dec_string.simps [simp del]

text \<open>\<open>std::to_string\<close> on a signed value.\<close>

definition dec_string_int :: "int \<Rightarrow> string" where
  "dec_string_int i =
     (if i < 0 then CHR ''-'' # dec_string (nat (- i)) else dec_string (nat i))"

fun dec_value :: "string \<Rightarrow> nat \<Rightarrow> nat" where
  "dec_value [] acc = acc"
| "dec_value (c # cs) acc = dec_value cs (10 * acc + (of_char c - 48))"

lemma dec_value_append: "dec_value (xs @ ys) acc = dec_value ys (dec_value xs acc)"
  by (induction xs arbitrary: acc) auto

lemma of_char_digit: "n < 10 \<Longrightarrow> (of_char (char_of (48 + n) :: char) :: nat) = 48 + n"
  by simp

lemma dec_value_dec_string: "dec_value (dec_string n) 0 = n"
proof (induction n rule: dec_string.induct)
  case (1 n)
  show ?case
  proof (cases "n < 10")
    case True
    then show ?thesis by (subst dec_string.simps) (simp add: of_char_digit)
  next
    case False
    with 1 have "dec_value (dec_string (n div 10)) 0 = n div 10" by simp
    with False show ?thesis
      by (subst dec_string.simps) (simp add: dec_value_append of_char_digit)
  qed
qed

lemma dec_string_inject [simp]: "dec_string m = dec_string n \<longleftrightarrow> m = n"
  by (metis dec_value_dec_string)

lemma dec_string_nonempty [simp]: "dec_string n \<noteq> []"
  by (subst dec_string.simps) simp

end
