(* ===== verification/OrdMap.thy ===== *)
theory OrdMap
  imports Prelude
begin

text \<open>
  The ordered containers of the C++ standard library the program uses. \<open>std::map\<close> is an
  association list kept strictly sorted by key, so iteration order is the list order;
  \<open>std::set\<close> is a strictly sorted list. The locale \<open>ordered_map\<close> is the contract the
  program's clients rely on (what a lookup returns after an assignment, that iteration is in
  key order); its client lemmas describe the loops that index a vector by a key and that
  group a vector by a key. The locale is interpreted on the association lists.
\<close>

section \<open>The containers\<close>

type_synonym ('k, 'v) smap = "('k \<times> 'v) list"

fun smap_put :: "'k::linorder \<Rightarrow> 'v \<Rightarrow> ('k, 'v) smap \<Rightarrow> ('k, 'v) smap" where
  "smap_put k v [] = [(k, v)]"
| "smap_put k v ((k', v') # m) =
     (if k < k' then (k, v) # (k', v') # m
      else if k = k' then (k, v) # m
      else (k', v') # smap_put k v m)"

definition smap_get :: "('k::linorder, 'v) smap \<Rightarrow> 'k \<Rightarrow> 'v option" where
  "smap_get m k = map_of m k"

definition smap_erase :: "'k::linorder \<Rightarrow> ('k, 'v) smap \<Rightarrow> ('k, 'v) smap" where
  "smap_erase k m = filter (\<lambda>e. fst e \<noteq> k) m"

definition smap_ok :: "('k::linorder, 'v) smap \<Rightarrow> bool" where
  "smap_ok m \<longleftrightarrow> sorted_wrt (<) (map fst m)"

text \<open>\<open>m[k]\<close> on a missing key inserts the default value before it is updated.\<close>

definition smap_update :: "'v \<Rightarrow> ('v \<Rightarrow> 'v) \<Rightarrow> 'k::linorder \<Rightarrow> ('k, 'v) smap \<Rightarrow> ('k, 'v) smap"
  where
  "smap_update d f k m = smap_put k (f (case smap_get m k of None \<Rightarrow> d | Some v \<Rightarrow> v)) m"

text \<open>A loop that stores every item of a vector under its key; a later item wins.\<close>

definition smap_index :: "('a \<Rightarrow> 'k::linorder) \<Rightarrow> ('a \<Rightarrow> 'v) \<Rightarrow> 'a list \<Rightarrow> ('k, 'v) smap" where
  "smap_index key val xs = fold (\<lambda>x. smap_put (key x) (val x)) xs []"

text \<open>A loop that appends every item of a vector to the bucket of its key.\<close>

definition smap_group :: "('a \<Rightarrow> 'k::linorder) \<Rightarrow> 'a list \<Rightarrow> ('k, 'a list) smap" where
  "smap_group key xs = fold (\<lambda>x. smap_update [] (\<lambda>b. b @ [x]) (key x)) xs []"

fun sset_insert :: "'a::linorder \<Rightarrow> 'a list \<Rightarrow> 'a list" where
  "sset_insert x [] = [x]"
| "sset_insert x (y # ys) =
     (if x < y then x # y # ys else if x = y then y # ys else y # sset_insert x ys)"

definition sset_of :: "'a::linorder list \<Rightarrow> 'a list" where
  "sset_of xs = fold sset_insert xs []"

section \<open>The contract of an ordered map\<close>

locale ordered_map =
  fixes empty :: "'m"
    and lookup :: "'m \<Rightarrow> 'k::linorder \<Rightarrow> 'v option"
    and put :: "'k \<Rightarrow> 'v \<Rightarrow> 'm \<Rightarrow> 'm"
    and entries :: "'m \<Rightarrow> ('k \<times> 'v) list"
    and ok :: "'m \<Rightarrow> bool"
  assumes ok_empty: "ok empty"
    and ok_put: "ok m \<Longrightarrow> ok (put k v m)"
    and lookup_empty: "lookup empty k = None"
    and lookup_put: "ok m \<Longrightarrow> lookup (put k v m) k' = (if k' = k then Some v else lookup m k')"
    and entries_sorted: "ok m \<Longrightarrow> sorted_wrt (<) (map fst (entries m))"
    and entries_lookup: "ok m \<Longrightarrow> (k, v) \<in> set (entries m) \<longleftrightarrow> lookup m k = Some v"
begin

lemma ok_fold: "ok m \<Longrightarrow> ok (fold (\<lambda>x. put (key x) (val x)) xs m)"
  by (induction xs arbitrary: m) (auto simp: ok_put)

lemma lookup_fold:
  "ok m \<Longrightarrow> lookup (fold (\<lambda>x. put (key x) (val x)) xs m) k =
     (case find (\<lambda>x. key x = k) (rev xs) of None \<Rightarrow> lookup m k | Some x \<Rightarrow> Some (val x))"
proof (induction xs arbitrary: m rule: rev_induct)
  case Nil
  then show ?case by simp
next
  case (snoc x xs)
  then show ?case by (simp add: lookup_put ok_fold)
qed

lemma lookup_index_None:
  "lookup (fold (\<lambda>x. put (key x) (val x)) xs empty) k = None \<longleftrightarrow> k \<notin> key ` set xs"
proof -
  have "find (\<lambda>x. key x = k) (rev xs) = None \<longleftrightarrow> k \<notin> key ` set xs"
    by (auto simp: find_None_iff)
  then show ?thesis
    by (auto simp: lookup_fold ok_empty lookup_empty split: option.splits)
qed

lemma lookup_index_SomeD:
  "lookup (fold (\<lambda>x. put (key x) (val x)) xs empty) k = Some v \<Longrightarrow>
    \<exists>x \<in> set xs. key x = k \<and> val x = v"
proof -
  assume a: "lookup (fold (\<lambda>x. put (key x) (val x)) xs empty) k = Some v"
  then obtain x where "find (\<lambda>x. key x = k) (rev xs) = Some x" "val x = v"
    by (auto simp: lookup_fold ok_empty lookup_empty split: option.splits)
  moreover from this have "x \<in> set xs \<and> key x = k"
    by (auto simp: find_Some_iff) (metis length_rev nth_mem set_rev)
  ultimately show ?thesis by blast
qed

lemma lookup_index_distinct:
  assumes "distinct (map key xs)" "x \<in> set xs"
  shows "lookup (fold (\<lambda>x. put (key x) (val x)) xs empty) (key x) = Some (val x)"
proof -
  have "lookup (fold (\<lambda>x. put (key x) (val x)) xs empty) (key x) \<noteq> None"
    using assms(2) by (auto simp: lookup_index_None)
  then obtain v where v: "lookup (fold (\<lambda>x. put (key x) (val x)) xs empty) (key x) = Some v"
    by blast
  then obtain y where "y \<in> set xs" "key y = key x" "val y = v"
    using lookup_index_SomeD by blast
  moreover have "inj_on key (set xs)" using assms(1) by (simp add: distinct_map)
  ultimately have "y = x" using assms(2) by (auto dest: inj_onD)
  with v \<open>val y = v\<close> show ?thesis by simp
qed

lemma entries_keys_distinct: "ok m \<Longrightarrow> distinct (map fst (entries m))"
  using entries_sorted strict_sorted_iff by blast

lemma set_keys: "ok m \<Longrightarrow> set (map fst (entries m)) = {k. lookup m k \<noteq> None}"
proof (intro set_eqI iffI)
  fix k assume o: "ok m"
  show "k \<in> {k. lookup m k \<noteq> None}" if "k \<in> set (map fst (entries m))"
    using that entries_lookup[OF o] by force
  show "k \<in> set (map fst (entries m))" if "k \<in> {k. lookup m k \<noteq> None}"
    using that entries_lookup[OF o] by force
qed

end

section \<open>The association lists satisfy the contract\<close>

lemma smap_ok_Nil [simp]: "smap_ok []"
  by (simp add: smap_ok_def)

lemma smap_ok_Cons: "smap_ok ((k, v) # m) \<longleftrightarrow> (\<forall>e \<in> set m. k < fst e) \<and> smap_ok m"
  by (auto simp: smap_ok_def)

lemma fst_smap_put: "fst ` set (smap_put k v m) = insert k (fst ` set m)"
  by (induction k v m rule: smap_put.induct) auto

lemma smap_ok_put [simp]: "smap_ok m \<Longrightarrow> smap_ok (smap_put k v m)"
proof (induction k v m rule: smap_put.induct)
  case (2 k v k' v' m)
  have "\<And>e. e \<in> set (smap_put k v m) \<Longrightarrow> fst e = k \<or> fst e \<in> fst ` set m"
    using fst_smap_put by (metis image_eqI insertE)
  with 2 show ?case by (fastforce simp: smap_ok_Cons)
qed (simp add: smap_ok_Cons)

lemma smap_get_put:
  "smap_ok m \<Longrightarrow> smap_get (smap_put k v m) j = (if j = k then Some v else smap_get m j)"
  by (induction k v m rule: smap_put.induct) (auto simp: smap_get_def smap_ok_Cons)

lemma smap_ok_distinct: "smap_ok m \<Longrightarrow> distinct (map fst m)"
  by (simp add: smap_ok_def strict_sorted_iff)

lemma smap_get_in: "smap_ok m \<Longrightarrow> (k, v) \<in> set m \<longleftrightarrow> smap_get m k = Some v"
  by (simp add: smap_get_def smap_ok_distinct)

interpretation sm: ordered_map "[] :: ('k::linorder, 'v) smap" smap_get smap_put "\<lambda>m. m" smap_ok
proof unfold_locales
  fix m :: "('k, 'v) smap" and k :: 'k and v :: 'v and k' :: 'k
  show "smap_ok ([] :: ('k, 'v) smap)" by simp
  show "smap_ok m \<Longrightarrow> smap_ok (smap_put k v m)" by simp
  show "smap_get [] k = (None :: 'v option)" by (simp add: smap_get_def)
  show "smap_ok m \<Longrightarrow>
      smap_get (smap_put k v m) k' = (if k' = k then Some v else smap_get m k')"
    by (rule smap_get_put)
  show "smap_ok m \<Longrightarrow> sorted_wrt (<) (map fst m)" by (simp add: smap_ok_def)
  show "smap_ok m \<Longrightarrow> (k, v) \<in> set m \<longleftrightarrow> smap_get m k = Some v" by (rule smap_get_in)
qed

section \<open>Indexing and grouping\<close>

lemma smap_ok_index [simp]: "smap_ok (smap_index key val xs)"
  unfolding smap_index_def by (rule sm.ok_fold) simp

lemma smap_index_None [omap_simps]:
  "smap_get (smap_index key val xs) k = None \<longleftrightarrow> k \<notin> key ` set xs"
  unfolding smap_index_def by (rule sm.lookup_index_None)

lemma smap_index_SomeD:
  "smap_get (smap_index key val xs) k = Some v \<Longrightarrow> \<exists>x \<in> set xs. key x = k \<and> val x = v"
  unfolding smap_index_def by (rule sm.lookup_index_SomeD)

lemma smap_index_distinct:
  "distinct (map key xs) \<Longrightarrow> x \<in> set xs \<Longrightarrow> smap_get (smap_index key val xs) (key x) = Some (val x)"
  unfolding smap_index_def by (rule sm.lookup_index_distinct)

lemma smap_index_keys [omap_simps]: "set (map fst (smap_index key val xs)) = key ` set xs"
  using sm.set_keys[OF smap_ok_index, of key val xs] by (auto simp: omap_simps)

lemma smap_index_keys_sorted: "sorted_wrt (<) (map fst (smap_index key val xs))"
  using smap_ok_index by (simp add: smap_ok_def)

lemma smap_get_update:
  "smap_ok m \<Longrightarrow> smap_get (smap_update d f k m) k' =
     (if k' = k then Some (f (case smap_get m k of None \<Rightarrow> d | Some v \<Rightarrow> v)) else smap_get m k')"
  by (simp add: smap_update_def smap_get_put)

lemma smap_ok_update [simp]: "smap_ok m \<Longrightarrow> smap_ok (smap_update d f k m)"
  by (simp add: smap_update_def)

lemma smap_ok_group_fold:
  "smap_ok m \<Longrightarrow> smap_ok (fold (\<lambda>x. smap_update d (f x) (key x)) xs m)"
  by (induction xs arbitrary: m) auto

lemma smap_ok_group [simp]: "smap_ok (smap_group key xs)"
  unfolding smap_group_def by (rule smap_ok_group_fold) simp

lemma smap_get_group [omap_simps]:
  "smap_get (smap_group key xs) k =
     (if k \<in> key ` set xs then Some (filter (\<lambda>x. key x = k) xs) else None)"
proof (induction xs rule: rev_induct)
  case Nil
  then show ?case by (simp add: smap_group_def smap_get_def)
next
  case (snoc x xs)
  have ok: "smap_ok (fold (\<lambda>x. smap_update [] (\<lambda>b. b @ [x]) (key x)) xs [])"
    by (rule smap_ok_group_fold) simp
  have e: "filter (\<lambda>y. key y = key x) xs = []" if "key x \<notin> key ` set xs"
    using that by (auto simp: filter_empty_conv) (metis image_eqI)
  show ?case
  proof (cases "k = key x")
    case False
    with snoc ok show ?thesis by (auto simp: smap_group_def smap_get_update)
  next
    case True
    with snoc ok e show ?thesis
      by (cases "key x \<in> key ` set xs") (simp_all add: smap_group_def smap_get_update)
  qed
qed

lemma smap_group_keys [omap_simps]: "set (map fst (smap_group key xs)) = key ` set xs"
  using sm.set_keys[OF smap_ok_group, of key xs] by (auto simp: omap_simps split: if_splits)

section \<open>Sets\<close>

lemma set_sset_insert [simp]: "set (sset_insert x ys) = insert x (set ys)"
  by (induction x ys rule: sset_insert.induct) auto

lemma sset_insert_strict: "sorted_wrt (<) ys \<Longrightarrow> sorted_wrt (<) (sset_insert x ys)"
  by (induction x ys rule: sset_insert.induct) auto

lemma sset_fold_strict: "sorted_wrt (<) ys \<Longrightarrow> sorted_wrt (<) (fold sset_insert xs ys)"
  by (induction xs arbitrary: ys) (auto simp: sset_insert_strict)

lemma set_sset_fold: "set (fold sset_insert xs ys) = set xs \<union> set ys"
  by (induction xs arbitrary: ys) auto

lemma set_sset_of [simp]: "set (sset_of xs) = set xs"
  by (simp add: sset_of_def set_sset_fold)

lemma sset_of_strict: "sorted_wrt (<) (sset_of xs)"
  by (simp add: sset_of_def sset_fold_strict)

lemma sset_of_distinct [simp]: "distinct (sset_of xs)"
  using sset_of_strict[of xs] strict_sorted_iff by blast

lemma sset_of_canonicalise: "sset_of xs = canonicalise xs"
  by (metis canonicalise_strict set_canonicalise set_sset_of sset_of_strict strict_sorted_equal)

end
