(* ===== verification/Status.thy ===== *)
theory Status
  imports OrdMap
begin

text \<open>
  Typed outcomes: \<open>core/status.hpp\<close>, \<open>core/status.cpp\<close>. The outcome codes, their total
  severity order and its combiner \<open>worst\<close>, and \<open>Result<T>\<close> as a sum whose left side is
  a failing \<open>Status\<close>. A left value \<open>Undefined\<close> marks an execution whose behaviour C++ does
  not define (signed overflow, dereferencing the end of a container), so that every theorem
  about a returned value also says that no such operation was executed. The locale
  \<open>severity_order\<close> is the contract every severity table of the program satisfies; the
  engine's tables interpret it again.
\<close>

section \<open>Outcome codes\<close>

datatype code =
    Code_Ok | Code_Unknown | Code_Unsupported | Code_Stale | Code_Conflicting | Code_Incomplete
  | Code_Indeterminate | Code_Refused | Code_Cancelled | Code_Invalid | Code_NotFound
  | Code_AlreadyExists | Code_Exhausted | Code_Corrupt | Code_Unavailable | Code_Internal

primrec code_to_string :: "code \<Rightarrow> string" where
  "code_to_string Code_Ok = ''OK''"
| "code_to_string Code_Unknown = ''UNKNOWN''"
| "code_to_string Code_Unsupported = ''UNSUPPORTED''"
| "code_to_string Code_Stale = ''STALE''"
| "code_to_string Code_Conflicting = ''CONFLICTING''"
| "code_to_string Code_Incomplete = ''INCOMPLETE''"
| "code_to_string Code_Indeterminate = ''INDETERMINATE''"
| "code_to_string Code_Refused = ''REFUSED''"
| "code_to_string Code_Cancelled = ''CANCELLED''"
| "code_to_string Code_Invalid = ''INVALID''"
| "code_to_string Code_NotFound = ''NOT_FOUND''"
| "code_to_string Code_AlreadyExists = ''ALREADY_EXISTS''"
| "code_to_string Code_Exhausted = ''EXHAUSTED''"
| "code_to_string Code_Corrupt = ''CORRUPT''"
| "code_to_string Code_Unavailable = ''UNAVAILABLE''"
| "code_to_string Code_Internal = ''INTERNAL''"

primrec severity :: "code \<Rightarrow> nat" where
  "severity Code_Ok = 0"
| "severity Code_Unknown = 1"
| "severity Code_NotFound = 2"
| "severity Code_AlreadyExists = 3"
| "severity Code_Cancelled = 4"
| "severity Code_Incomplete = 5"
| "severity Code_Stale = 6"
| "severity Code_Unsupported = 7"
| "severity Code_Indeterminate = 8"
| "severity Code_Conflicting = 9"
| "severity Code_Unavailable = 10"
| "severity Code_Exhausted = 11"
| "severity Code_Refused = 12"
| "severity Code_Corrupt = 13"
| "severity Code_Invalid = 14"
| "severity Code_Internal = 15"

definition worst :: "code \<Rightarrow> code \<Rightarrow> code" where
  "worst a b = (if severity a \<ge> severity b then a else b)"

section \<open>The contract of a severity table\<close>

locale severity_order =
  fixes sev :: "'a \<Rightarrow> nat" and wst :: "'a \<Rightarrow> 'a \<Rightarrow> 'a"
  assumes sev_inject: "sev a = sev b \<Longrightarrow> a = b"
    and wst_eq: "wst a b = (if sev a \<ge> sev b then a else b)"
begin

lemma sev_wst: "sev (wst a b) = max (sev a) (sev b)"
  by (simp add: wst_eq)

lemma wst_cases: "wst a b = a \<or> wst a b = b"
  by (simp add: wst_eq)

lemma raise_eq_wst: "(if sev b > sev a then b else a) = wst a b"
  by (auto simp: wst_eq)

lemma sev_fold_ge_start: "sev a \<le> sev (fold (\<lambda>x s. wst s (f x)) xs a)"
proof (induction xs arbitrary: a)
  case (Cons x xs)
  have "sev a \<le> sev (wst a (f x))" by (simp add: sev_wst)
  also have "\<dots> \<le> sev (fold (\<lambda>x s. wst s (f x)) xs (wst a (f x)))" by (rule Cons.IH)
  finally show ?case by simp
qed simp

lemma sev_fold_ge: "x \<in> set xs \<Longrightarrow> sev (f x) \<le> sev (fold (\<lambda>x s. wst s (f x)) xs a)"
proof (induction xs arbitrary: a)
  case (Cons y ys)
  show ?case
  proof (cases "x = y")
    case True
    have "sev (f y) \<le> sev (wst a (f y))" by (simp add: sev_wst)
    also have "\<dots> \<le> sev (fold (\<lambda>x s. wst s (f x)) ys (wst a (f y)))" by (rule sev_fold_ge_start)
    finally show ?thesis using True by simp
  next
    case False
    with Cons show ?thesis by simp
  qed
qed simp

lemma fold_cases:
  "fold (\<lambda>x s. wst s (f x)) xs a = a \<or> (\<exists>x \<in> set xs. fold (\<lambda>x s. wst s (f x)) xs a = f x)"
proof (induction xs arbitrary: a)
  case (Cons x xs)
  then show ?case using wst_cases[of a "f x"] by fastforce
qed simp

end

sublocale severity_order \<subseteq> join: semilattice wst
proof
  show "wst (wst a b) c = wst a (wst b c)" for a b c
    by (rule sev_inject) (simp add: sev_wst max.assoc)
  show "wst a b = wst b a" for a b
    by (rule sev_inject) (simp add: sev_wst max.commute)
  show "wst a a = a" for a
    by (simp add: wst_eq)
qed

interpretation code: severity_order severity worst
proof
  show "severity a = severity b \<Longrightarrow> a = b" for a b
    by (cases a; cases b) simp_all
  show "worst a b = (if severity a \<ge> severity b then a else b)" for a b
    by (rule worst_def)
qed

lemma severity_eq_0 [simp]: "severity c = 0 \<longleftrightarrow> c = Code_Ok"
  by (cases c) simp_all

section \<open>Results\<close>

datatype fault = Fail code string | Undefined string

type_synonym 'a result = "fault + 'a"

abbreviation fail :: "code \<Rightarrow> string \<Rightarrow> 'a result" where
  "fail c m \<equiv> Inl (Fail c m)"

abbreviation success :: "unit result" where
  "success \<equiv> Inr ()"

text \<open>\<open>PODFABRIC_TRY_ASSIGN\<close> and \<open>PODFABRIC_TRY\<close>: return the status of a failing
  expression, otherwise continue with its value.\<close>

definition try_bind :: "'a result \<Rightarrow> ('a \<Rightarrow> 'b result) \<Rightarrow> 'b result" where
  "try_bind m f = (case m of Inl e \<Rightarrow> Inl e | Inr x \<Rightarrow> f x)"

abbreviation try_then :: "unit result \<Rightarrow> 'b result \<Rightarrow> 'b result" where
  "try_then m k \<equiv> try_bind m (\<lambda>_. k)"

text \<open>\<open>if (c) return Status(code, message);\<close>\<close>

definition reject_if :: "bool \<Rightarrow> code \<Rightarrow> string \<Rightarrow> unit result" where
  "reject_if c k m = (if c then fail k m else success)"

fun try_fold :: "('a \<Rightarrow> 's \<Rightarrow> 's result) \<Rightarrow> 'a list \<Rightarrow> 's \<Rightarrow> 's result" where
  "try_fold f [] s = Inr s"
| "try_fold f (x # xs) s = try_bind (f x s) (try_fold f xs)"

fun try_map :: "('a \<Rightarrow> 'b result) \<Rightarrow> 'a list \<Rightarrow> 'b list result" where
  "try_map f [] = Inr []"
| "try_map f (x # xs) = try_bind (f x) (\<lambda>y. try_bind (try_map f xs) (\<lambda>ys. Inr (y # ys)))"

definition try_each :: "('a \<Rightarrow> unit result) \<Rightarrow> 'a list \<Rightarrow> unit result" where
  "try_each f xs = try_fold (\<lambda>x _. f x) xs ()"

definition status_to_string :: "fault \<Rightarrow> string" where
  "status_to_string s =
     (case s of Fail c m \<Rightarrow> code_to_string c @ (if m \<noteq> [] then '': '' @ m else [])
      | Undefined m \<Rightarrow> m)"

section \<open>Reasoning about results\<close>

lemma try_bind_simps [simp]:
  "try_bind (Inl e) f = Inl e"
  "try_bind (Inr x) f = f x"
  by (simp_all add: try_bind_def)

lemma try_bind_Inr_iff [result_simps]:
  "try_bind m f = Inr y \<longleftrightarrow> (\<exists>x. m = Inr x \<and> f x = Inr y)"
  by (cases m) auto

lemma try_bind_Inl_iff:
  "try_bind m f = Inl e \<longleftrightarrow> m = Inl e \<or> (\<exists>x. m = Inr x \<and> f x = Inl e)"
  by (cases m) auto

lemma reject_if_Inr [result_simps]: "reject_if c k m = Inr u \<longleftrightarrow> \<not> c"
  by (simp add: reject_if_def)

lemma reject_if_simps [simp]:
  "reject_if True k m = fail k m"
  "reject_if False k m = success"
  by (simp_all add: reject_if_def)

lemma try_each_simps [simp]:
  "try_each f [] = success"
  "try_each f (x # xs) = try_then (f x) (try_each f xs)"
  by (simp_all add: try_each_def)

lemma try_each_Inr [result_simps]: "try_each f xs = Inr u \<longleftrightarrow> (\<forall>x \<in> set xs. f x = success)"
  by (induction xs) (auto simp: result_simps)

lemma try_map_Inr: "try_map f xs = Inr ys \<longleftrightarrow> list_all2 (\<lambda>x y. f x = Inr y) xs ys"
  by (induction xs arbitrary: ys) (auto simp: result_simps list_all2_Cons1)

lemma try_fold_append: "try_fold f (xs @ ys) s = try_bind (try_fold f xs s) (try_fold f ys)"
  by (induction xs arbitrary: s) (auto simp: try_bind_def split: sum.splits)

lemma try_fold_invariant:
  assumes "try_fold f xs s = Inr t" "P s"
    and "\<And>x s t. x \<in> set xs \<Longrightarrow> P s \<Longrightarrow> f x s = Inr t \<Longrightarrow> P t"
  shows "P t"
  using assms
proof (induction xs arbitrary: s)
  case (Cons x xs)
  then obtain u where u: "f x s = Inr u" "try_fold f xs u = Inr t"
    by (auto simp: result_simps)
  with Cons.prems have "P u" by auto
  with u Cons show ?case by auto
qed simp

lemma try_fold_total:
  assumes "\<And>x s. x \<in> set xs \<Longrightarrow> P s \<Longrightarrow> \<exists>t. f x s = Inr t \<and> P t" "P s"
  shows "\<exists>t. try_fold f xs s = Inr t \<and> P t"
  using assms
proof (induction xs arbitrary: s)
  case (Cons x xs)
  then obtain u where "f x s = Inr u" "P u" by force
  with Cons show ?case by auto
qed simp

end
