(* ===== verification/Checked.thy ===== *)
theory Checked
  imports Status
begin

text \<open>
  Checked arithmetic: \<open>core/checked.hpp\<close>. The unsigned instances work on words of any
  width; the signed instances work on the integers a \<open>w\<close>-bit two's complement type
  represents, with the intermediate expressions of the code written out. \<open>i64_sub\<close> and its
  siblings are the unchecked signed operations of C++: outside the range of the type the
  behaviour is undefined.
\<close>

section \<open>Unsigned instances\<close>

definition checked_add :: "'a::len word \<Rightarrow> 'a word \<Rightarrow> 'a word result" where
  "checked_add a b =
     (if b > - 1 - a then fail Code_Invalid ''checked_add: unsigned overflow'' else Inr (a + b))"

definition checked_sub :: "'a::len word \<Rightarrow> 'a word \<Rightarrow> 'a word result" where
  "checked_sub a b =
     (if b > a then fail Code_Invalid ''checked_sub: unsigned underflow'' else Inr (a - b))"

definition checked_mul :: "'a::len word \<Rightarrow> 'a word \<Rightarrow> 'a word result" where
  "checked_mul a b =
     (if a = 0 \<or> b = 0 then Inr 0
      else if a > - 1 div b then fail Code_Invalid ''checked_mul: unsigned overflow''
      else Inr (a * b))"

section \<open>Signed instances\<close>

definition smin :: "nat \<Rightarrow> int" where "smin w = - (2 ^ (w - 1))"
definition smax :: "nat \<Rightarrow> int" where "smax w = 2 ^ (w - 1) - 1"

definition in_signed :: "nat \<Rightarrow> int \<Rightarrow> bool" where
  "in_signed w v \<longleftrightarrow> smin w \<le> v \<and> v \<le> smax w"

text \<open>C++ integer division truncates towards zero.\<close>

definition cdiv :: "int \<Rightarrow> int \<Rightarrow> int" where
  "cdiv a b = sgn a * sgn b * (\<bar>a\<bar> div \<bar>b\<bar>)"

definition checked_add_signed :: "nat \<Rightarrow> int \<Rightarrow> int \<Rightarrow> int result" where
  "checked_add_signed w a b =
     (if b > 0 \<and> a > smax w - b then fail Code_Invalid ''checked_add: signed overflow''
      else if b < 0 \<and> a < smin w - b then fail Code_Invalid ''checked_add: signed underflow''
      else Inr (a + b))"

definition checked_sub_signed :: "nat \<Rightarrow> int \<Rightarrow> int \<Rightarrow> int result" where
  "checked_sub_signed w a b =
     (if b < 0 \<and> a > smax w + b then fail Code_Invalid ''checked_sub: signed overflow''
      else if b > 0 \<and> a < smin w + b then fail Code_Invalid ''checked_sub: signed underflow''
      else Inr (a - b))"

definition checked_mul_signed :: "nat \<Rightarrow> int \<Rightarrow> int \<Rightarrow> int result" where
  "checked_mul_signed w a b =
     (let overflow = fail Code_Invalid ''checked_mul: signed overflow'' in
      if a = 0 \<or> b = 0 then Inr 0
      else if a > 0 then
        (if b > 0 then (if a > cdiv (smax w) b then overflow else Inr (a * b))
         else if b < cdiv (smin w) a then overflow else Inr (a * b))
      else
        (if b > 0 then (if a < cdiv (smin w) b then overflow else Inr (a * b))
         else if a \<noteq> 0 \<and> b < cdiv (smax w) a then overflow else Inr (a * b)))"

section \<open>Narrowing\<close>

record int_type =
  it_signed :: bool
  it_width :: nat

definition it_min :: "int_type \<Rightarrow> int" where
  "it_min t = (if it_signed t then smin (it_width t) else 0)"

definition it_max :: "int_type \<Rightarrow> int" where
  "it_max t = (if it_signed t then smax (it_width t) else 2 ^ it_width t - 1)"

text \<open>\<open>static_cast\<close> between integer types reduces modulo \<open>2 ^ w\<close>.\<close>

definition static_cast :: "int_type \<Rightarrow> int \<Rightarrow> int" where
  "static_cast t v =
     (let r = v mod 2 ^ it_width t
      in if it_signed t \<and> r > smax (it_width t) then r - 2 ^ it_width t else r)"

definition make_unsigned :: "int_type \<Rightarrow> int_type" where
  "make_unsigned t = t\<lparr>it_signed := False\<rparr>"

definition checked_narrow :: "int_type \<Rightarrow> int_type \<Rightarrow> int \<Rightarrow> int result" where
  "checked_narrow to from v =
     (let out = fail Code_Invalid ''checked_narrow: value out of range'' in
      if it_signed from = it_signed to then
        (if v < static_cast from (it_min to) \<or> v > static_cast from (it_max to) then out
         else Inr (static_cast to v))
      else if it_signed from then
        (if v < 0 \<or> static_cast (make_unsigned from) v >
                     static_cast (make_unsigned from) (it_max to) then out
         else Inr (static_cast to v))
      else
        (if v > static_cast from (it_max to) then out else Inr (static_cast to v)))"

section \<open>Unchecked signed operations\<close>

definition i64_result :: "int \<Rightarrow> int result" where
  "i64_result v = (if in_signed 64 v then Inr v else Inl (Undefined ''signed overflow''))"

definition i64_sub :: "int \<Rightarrow> int \<Rightarrow> int result" where
  "i64_sub a b = i64_result (a - b)"

definition i64_neg :: "int \<Rightarrow> int result" where
  "i64_neg a = i64_result (- a)"

section \<open>The unsigned helpers report exactly the overflows\<close>

lemma unat_minus_1: "unat (- 1 :: 'a::len word) = 2 ^ LENGTH('a) - 1"
  by (simp add: unsigned_minus_1_eq_mask mask_eq_exp_minus_1)

lemma unat_max_minus: "unat (- 1 - a :: 'a::len word) = 2 ^ LENGTH('a) - 1 - unat a"
  by (simp add: unat_sub word_order.extremum unat_minus_1)

lemma checked_add_Inr [result_simps]:
  "checked_add a b = Inr c \<longleftrightarrow> unat a + unat b < 2 ^ LENGTH('a) \<and> c = a + (b :: 'a::len word)"
proof -
  have "b > - 1 - a \<longleftrightarrow> unat a + unat b \<ge> 2 ^ LENGTH('a)"
    using unat_bound[of a] unat_bound[of b] unfolding word_less_nat_alt unat_max_minus by linarith
  then show ?thesis by (auto simp: checked_add_def)
qed

lemma checked_add_unat:
  "checked_add a b = Inr c \<Longrightarrow> unat c = unat a + unat (b :: 'a::len word)"
  by (auto simp: result_simps unat_word_ariths)

lemma checked_add_Inl:
  "checked_add a b = Inl e \<Longrightarrow>
     unat a + unat (b :: 'a::len word) \<ge> 2 ^ LENGTH('a) \<and>
     e = Fail Code_Invalid ''checked_add: unsigned overflow''"
  using checked_add_Inr[of a b "a + b"] by (auto simp: checked_add_def split: if_splits)

lemma checked_sub_Inr [result_simps]:
  "checked_sub a b = Inr c \<longleftrightarrow> unat b \<le> unat a \<and> c = a - (b :: 'a::len word)"
  by (auto simp: checked_sub_def word_less_nat_alt)

lemma div_word_le_iff: "0 < unat b \<Longrightarrow> (a \<le> - 1 div b) = (unat a * unat b < 2 ^ LENGTH('a))"
  for a b :: "'a::len word"
proof -
  assume b: "0 < unat b"
  have "unat (- 1 div b :: 'a word) = (2 ^ LENGTH('a) - 1) div unat b"
    by (simp add: unat_div unat_minus_1)
  then have "(a \<le> - 1 div b) = (unat a \<le> (2 ^ LENGTH('a) - 1) div unat b)"
    by (simp add: word_le_nat_alt)
  also have "\<dots> = (unat a * unat b \<le> 2 ^ LENGTH('a) - 1)"
    using b by (simp add: less_eq_div_iff_mult_less_eq)
  also have "\<dots> = (unat a * unat b < 2 ^ LENGTH('a))"
  proof -
    have "x \<le> n - 1 \<longleftrightarrow> x < n" if "0 < n" for x n :: nat
      using that by linarith
    then show ?thesis by simp
  qed
  finally show ?thesis .
qed

lemma checked_mul_Inr [result_simps]:
  "checked_mul a b = Inr c \<longleftrightarrow> unat a * unat b < 2 ^ LENGTH('a) \<and> c = a * (b :: 'a::len word)"
proof (cases "a = 0 \<or> b = 0")
  case True
  then show ?thesis by (auto simp: checked_mul_def)
next
  case False
  then have "0 < unat b" by (simp add: unat_gt_0)
  with False show ?thesis
    by (auto simp: checked_mul_def div_word_le_iff[symmetric] not_less)
qed

lemma checked_mul_unat:
  "checked_mul a b = Inr c \<Longrightarrow> unat c = unat a * unat (b :: 'a::len word)"
  by (auto simp: result_simps unat_word_ariths)

section \<open>The signed helpers report exactly the overflows\<close>

lemma int_le_div: "0 < (b::int) \<Longrightarrow> a \<le> c div b \<longleftrightarrow> a * b \<le> c"
proof
  assume b: "0 < b"
  show "a * b \<le> c" if "a \<le> c div b"
  proof -
    have "a * b \<le> (c div b) * b" using that b by (simp add: mult_right_mono)
    also have "\<dots> \<le> c" using b by (metis div_mult_mod_eq pos_mod_sign le_add_same_cancel1)
    finally show ?thesis .
  qed
  show "a \<le> c div b" if "a * b \<le> c"
    using zdiv_mono1[OF that b] b by simp
qed

lemma cdiv_pos_pos: "0 \<le> m \<Longrightarrow> 0 < b \<Longrightarrow> a > cdiv m b \<longleftrightarrow> a * b > m"
  using int_le_div[of b a m] by (auto simp: cdiv_def sgn_if)

lemma cdiv_neg_pos: "m < 0 \<Longrightarrow> 0 < a \<Longrightarrow> b < cdiv m a \<longleftrightarrow> a * b < m"
  using int_le_div[of a "- b" "- m"] by (auto simp: cdiv_def sgn_if algebra_simps)

lemma cdiv_pos_neg: "0 < m \<Longrightarrow> a < 0 \<Longrightarrow> b < cdiv m a \<longleftrightarrow> a * b > m"
  using int_le_div[of "- a" "- b" m] by (auto simp: cdiv_def sgn_if algebra_simps)

lemma smin_neg: "smin w < 0" by (simp add: smin_def)
lemma smax_pos: "2 \<le> w \<Longrightarrow> 0 < smax w"
  using one_less_power[of "2::int" "w - 1"] by (simp add: smax_def)

lemma checked_mul_signed_exact:
  assumes w: "2 \<le> w"
  shows "checked_mul_signed w a b =
    (if in_signed w (a * b) then Inr (a * b) else fail Code_Invalid ''checked_mul: signed overflow'')"
proof -
  note m = smin_neg[of w] smax_pos[OF w]
  consider "a = 0 \<or> b = 0" | "0 < a" "0 < b" | "0 < a" "b < 0" | "a < 0" "0 < b" | "a < 0" "b < 0"
    by linarith
  then show ?thesis
  proof cases
    case 1
    then show ?thesis using m by (auto simp: checked_mul_signed_def in_signed_def)
  next
    case 2
    then have "0 < a * b" by simp
    with m have "smin w \<le> a * b" by linarith
    with 2 m show ?thesis
      by (auto simp: checked_mul_signed_def in_signed_def Let_def cdiv_pos_pos less_imp_le)
  next
    case 3
    then have "a * b < 0" by (simp add: mult_pos_neg)
    with 3 m show ?thesis
      by (auto simp: checked_mul_signed_def in_signed_def Let_def cdiv_neg_pos)
  next
    case 4
    then have "a * b < 0" by (simp add: mult_neg_pos)
    with 4 m cdiv_neg_pos[of "smin w" b a] show ?thesis
      by (auto simp: checked_mul_signed_def in_signed_def Let_def mult.commute)
  next
    case 5
    then have "0 < a * b" by (simp add: mult_neg_neg)
    with 5 m show ?thesis
      by (auto simp: checked_mul_signed_def in_signed_def Let_def cdiv_pos_neg)
  qed
qed

lemma checked_add_signed_exact:
  assumes "in_signed w a" "in_signed w b"
  shows "checked_add_signed w a b = Inr c \<longleftrightarrow> in_signed w (a + b) \<and> c = a + b"
  using assms by (auto simp: checked_add_signed_def in_signed_def)

lemma checked_sub_signed_exact:
  assumes "in_signed w a" "in_signed w b"
  shows "checked_sub_signed w a b = Inr c \<longleftrightarrow> in_signed w (a - b) \<and> c = a - b"
  using assms by (auto simp: checked_sub_signed_def in_signed_def)

text \<open>
  On operands of a \<open>w\<close>-bit signed type the three checked helpers return the exact
  integer result when the type can represent it and an INVALID status otherwise, although the
  code decides it by comparisons that cannot themselves overflow.
\<close>

theorem checked_signed_exact:
  assumes "2 \<le> w" "in_signed w a" "in_signed w b"
  shows "checked_mul_signed w a b =
      (if in_signed w (a * b) then Inr (a * b)
       else fail Code_Invalid ''checked_mul: signed overflow'') \<and>
    (checked_add_signed w a b = Inr c \<longleftrightarrow> in_signed w (a + b) \<and> c = a + b) \<and>
    (checked_sub_signed w a b = Inr c \<longleftrightarrow> in_signed w (a - b) \<and> c = a - b)"
  using assms checked_mul_signed_exact checked_add_signed_exact checked_sub_signed_exact by blast

theorem checked_signed_exact_witness:
  "checked_mul_signed 64 (- (2 ^ 63)) (- 1) = fail Code_Invalid ''checked_mul: signed overflow''"
proof -
  have "in_signed 64 (- (2 ^ 63))" "in_signed 64 (- 1)" "\<not> in_signed 64 (- (2 ^ 63) * - 1)"
    by (simp_all add: in_signed_def smin_def smax_def)
  then show ?thesis using checked_signed_exact[of 64 "- (2 ^ 63)" "- 1" 0] by simp
qed

end
