(* ===== verification/Token.thy ===== *)
theory Token
  imports Checked
begin

text \<open>
  Canonical identities and 128-bit values: \<open>core/token.hpp\<close>, \<open>core/token.cpp\<close>. The
  strongly typed \<open>BasicId<Tag>\<close> is a string; the nil identifier is the empty string. A
  \<open>Uuid\<close> is a list of 16 bytes.
\<close>

section \<open>Canonical identifiers\<close>

type_synonym ident = string

definition max_id_length :: nat where "max_id_length = 64"

definition is_lower_alnum :: "char \<Rightarrow> bool" where
  "is_lower_alnum c \<longleftrightarrow> (CHR ''a'' \<le> c \<and> c \<le> CHR ''z'') \<or> (CHR ''0'' \<le> c \<and> c \<le> CHR ''9'')"

definition is_separator :: "char \<Rightarrow> bool" where
  "is_separator c \<longleftrightarrow> c = CHR ''.'' \<or> c = CHR ''-'' \<or> c = CHR ''_'' \<or> c = CHR '':''"

definition is_canonical_id :: "string \<Rightarrow> bool" where
  "is_canonical_id token \<longleftrightarrow>
     (if token = [] \<or> length token > max_id_length then False
      else if \<not> is_lower_alnum (hd token) then False
      else if is_separator (last token) then False
      else list_all (\<lambda>c. is_lower_alnum c \<or> is_separator c) token)"

definition id_parse :: "string \<Rightarrow> ident result" where
  "id_parse token =
     (if \<not> is_canonical_id token
      then fail Code_Invalid (''identifier is not a canonical token (1..64 bytes of '' @
             ''[a-z0-9._-:], starting with a letter or digit)'')
      else Inr token)"

definition is_nil :: "ident \<Rightarrow> bool" where
  "is_nil i \<longleftrightarrow> i = []"

definition id_to_string :: "ident \<Rightarrow> string" where
  "id_to_string i = (if is_nil i then ''-'' else i)"

section \<open>Hexadecimal digits\<close>

definition hex_digit :: "u8 \<Rightarrow> char" where
  "hex_digit v = (if unat v < 10 then char_of (48 + unat v) else char_of (97 + (unat v - 10)))"

text \<open>\<open>hex_value\<close> returns -1 for a character that is not a hexadecimal digit.\<close>

definition hex_value :: "char \<Rightarrow> int" where
  "hex_value c =
     (let n = of_char c :: nat in
      if 48 \<le> n \<and> n \<le> 57 then int (n - 48)
      else if 97 \<le> n \<and> n \<le> 102 then int (10 + (n - 97))
      else if 65 \<le> n \<and> n \<le> 70 then int (10 + (n - 65))
      else - 1)"

definition hex_high :: "u8 \<Rightarrow> char" where
  "hex_high b = hex_digit (drop_bit 4 b)"

definition hex_low :: "u8 \<Rightarrow> char" where
  "hex_low b = hex_digit (and b 15)"

definition hex_byte :: "char \<Rightarrow> char \<Rightarrow> u8 option" where
  "hex_byte hi lo =
     (let h = hex_value hi; l = hex_value lo in
      if h < 0 \<or> l < 0 then None
      else Some (or (push_bit 4 (word_of_int h)) (word_of_int l)))"

lemma hex_value_digit: "unat v < 16 \<Longrightarrow> hex_value (hex_digit v) = int (unat v)"
  by (auto simp: hex_value_def hex_digit_def Let_def)

lemma hex_byte_hex [simp]: "hex_byte (hex_high b) (hex_low b) = Some b"
proof -
  have h: "unat (drop_bit 4 b) < 16"
    using unat_bound[of b] by (simp add: unat_drop_bit_eq drop_bit_eq_div less_mult_imp_div_less unat_div)
  have l: "unat (and b 15) < 16"
    using word_and_le1[of b 15] by (simp add: word_le_nat_alt)
  have "or (push_bit 4 (drop_bit 4 b)) (and b 15) = b"
  proof (rule bit_word_eqI)
    fix n
    have "bit (15 :: u8) n \<longleftrightarrow> n < 4"
      using bit_mask_iff[of 4 n, where 'a = "8 word"] by (auto simp: mask_numeral)
    then show "bit (or (push_bit 4 (drop_bit 4 b)) (and b 15)) n = bit b n"
      by (auto simp: bit_or_iff bit_and_iff bit_push_bit_iff bit_drop_bit_eq dest: bit_imp_le_length)
  qed
  with h l show ?thesis
    by (simp add: hex_byte_def hex_high_def hex_low_def hex_value_digit)
qed

section \<open>Uuid\<close>

type_synonym uuid = "byte list"

definition uuid_ok :: "uuid \<Rightarrow> bool" where
  "uuid_ok u \<longleftrightarrow> length u = 16"

definition uuid_nil :: uuid where
  "uuid_nil = replicate 16 0"

definition uuid_is_nil :: "uuid \<Rightarrow> bool" where
  "uuid_is_nil u \<longleftrightarrow> list_all (\<lambda>b. b = 0) u"

fun uuid_render :: "nat \<Rightarrow> uuid \<Rightarrow> string" where
  "uuid_render i [] = []"
| "uuid_render i (b # bs) =
     (if i = 4 \<or> i = 6 \<or> i = 8 \<or> i = 10 then ''-'' else []) @
     [hex_high b, hex_low b] @ uuid_render (Suc i) bs"

definition uuid_to_string :: "uuid \<Rightarrow> string" where
  "uuid_to_string u = uuid_render 0 u"

definition uuid_text_length :: nat where "uuid_text_length = 36"

text \<open>The parse loop: \<open>i\<close> is the position of the head of the remaining text and \<open>out\<close>
  holds the octets stored so far.\<close>

fun uuid_scan :: "nat \<Rightarrow> string \<Rightarrow> byte list \<Rightarrow> byte list result" where
  "uuid_scan i [] out = Inr out"
| "uuid_scan i (c # cs) out =
     (if i = 8 \<or> i = 13 \<or> i = 18 \<or> i = 23 then
        (if c \<noteq> CHR ''-'' then fail Code_Invalid ''uuid: misplaced separator''
         else uuid_scan (Suc i) cs out)
      else
        (case cs of
           [] \<Rightarrow> fail Code_Invalid ''uuid: truncated hex pair''
         | d # ds \<Rightarrow>
             (case hex_byte c d of
                None \<Rightarrow> fail Code_Invalid ''uuid: non-hexadecimal character''
              | Some b \<Rightarrow>
                  if length out \<ge> 16 then fail Code_Invalid ''uuid: too many octets''
                  else uuid_scan (Suc (Suc i)) ds (out @ [b]))))"

definition uuid_parse :: "string \<Rightarrow> uuid result" where
  "uuid_parse text =
     (if length text \<noteq> uuid_text_length then fail Code_Invalid ''uuid: expected 36 characters''
      else try_bind (uuid_scan 0 text []) (\<lambda>bytes.
        if length bytes \<noteq> 16 then fail Code_Invalid ''uuid: wrong number of octets''
        else Inr bytes))"

text \<open>\<open>Uuid::random\<close> stamps the RFC 4122 version and variant bits on 16 entropy bytes.\<close>

definition uuid_stamp :: "byte list \<Rightarrow> uuid" where
  "uuid_stamp bytes =
     (let b = bytes[6 := or (and (bytes ! 6) 0x0F) 0x40]
      in b[8 := or (and (b ! 8) 0x3F) 0x80])"

definition uuid_random :: "byte list option \<Rightarrow> uuid result" where
  "uuid_random entropy =
     (case entropy of
        None \<Rightarrow> fail Code_Unsupported ''uuid: entropy read failed''
      | Some bytes \<Rightarrow> Inr (uuid_stamp bytes))"

section \<open>Identity lemmas\<close>

lemma canonical_id_nonempty: "is_canonical_id t \<Longrightarrow> t \<noteq> []"
  by (auto simp: is_canonical_id_def split: if_splits)

lemma id_parse_Inr [result_simps]: "id_parse t = Inr i \<longleftrightarrow> is_canonical_id t \<and> i = t"
  by (auto simp: id_parse_def)

lemma uuid_stamp_nonnil: "length bytes = 16 \<Longrightarrow> \<not> uuid_is_nil (uuid_stamp bytes)"
proof -
  assume l: "length bytes = 16"
  have "or (and x 0x0F) 0x40 \<noteq> (0 :: u8)" for x
  proof
    assume "or (and x 0x0F) 0x40 = (0 :: u8)"
    then have "bit (or (and x 0x0F) 0x40 :: u8) 6 = bit (0 :: u8) 6" by simp
    then show False by (simp add: bit_simps)
  qed
  moreover have "uuid_stamp bytes ! 6 = or (and (bytes ! 6) 0x0F) 0x40"
    using l by (simp add: uuid_stamp_def Let_def)
  ultimately show ?thesis
    using l by (auto simp: uuid_is_nil_def list_all_length uuid_stamp_def Let_def intro!: exI[of _ 6])
qed

text \<open>
  Rendering a 16-byte \<open>Uuid\<close> and parsing the text gives the value back; the position
  tests of the parse loop agree with the separators the renderer writes.
\<close>

theorem uuid_roundtrip:
  assumes "uuid_ok u"
  shows "uuid_parse (uuid_to_string u) = Inr u"
proof -
  obtain b0 b1 b2 b3 b4 b5 b6 b7 b8 b9 b10 b11 b12 b13 b14 b15 where
    u: "u = [b0, b1, b2, b3, b4, b5, b6, b7, b8, b9, b10, b11, b12, b13, b14, b15]"
    using assms by (auto simp: uuid_ok_def length_Suc_conv numeral_eq_Suc)
  show ?thesis
    by (simp add: u uuid_parse_def uuid_to_string_def uuid_text_length_def)
qed

theorem uuid_roundtrip_witness:
  "uuid_ok (map word_of_nat [0..<16]) \<and>
   uuid_parse (uuid_to_string (map word_of_nat [0..<16])) = Inr (map word_of_nat [0..<16])"
proof -
  have "uuid_ok (map word_of_nat [0..<16])" by (simp add: uuid_ok_def)
  then show ?thesis using uuid_roundtrip by blast
qed

end
