(* ===== verification/Digest.thy ===== *)
theory Digest
  imports Token "HOL-Library.While_Combinator"
begin

text \<open>
  Content digests and checksums: \<open>core/digest.hpp\<close>, \<open>core/digest.cpp\<close>. The streaming
  SHA-256 object with its 64-byte buffer, the 32-byte \<open>Digest\<close> with its hexadecimal form,
  and the table-driven CRC-32C. The streaming code is related to the standard in \<open>Hashing\<close> and
  \<open>Secure_Hash\<close>, and the table-driven checksum to the bitwise shift register in \<open>Checksum\<close>.
\<close>

section \<open>The compression function\<close>

text \<open>The round constants of the source, in decimal.\<close>

definition sha256_K :: "u32 list" where
  "sha256_K = [
     1116352408, 1899447441, 3049323471, 3921009573, 961987163, 1508970993, 2453635748, 2870763221,
     3624381080, 310598401, 607225278, 1426881987, 1925078388, 2162078206, 2614888103, 3248222580,
     3835390401, 4022224774, 264347078, 604807628, 770255983, 1249150122, 1555081692, 1996064986,
     2554220882, 2821834349, 2952996808, 3210313671, 3336571891, 3584528711, 113926993, 338241895,
     666307205, 773529912, 1294757372, 1396182291, 1695183700, 1986661051, 2177026350, 2456956037,
     2730485921, 2820302411, 3259730800, 3345764771, 3516065817, 3600352804, 4094571909, 275423344,
     430227734, 506948616, 659060556, 883997877, 958139571, 1322822218, 1537002063, 1747873779,
     1955562222, 2024104815, 2227730452, 2361852424, 2428436474, 2756734187, 3204031479, 3329325298]"

definition sha256_H :: "u32 list" where
  "sha256_H = [
   0x6a09e667, 0xbb67ae85, 0x3c6ef372, 0xa54ff53a, 0x510e527f, 0x9b05688c, 0x1f83d9ab, 0x5be0cd19]"

definition rotr :: "u32 \<Rightarrow> nat \<Rightarrow> u32" where
  "rotr v n = or (drop_bit n v) (push_bit (32 - n) v)"

definition sha_load :: "byte list \<Rightarrow> nat \<Rightarrow> u32" where
  "sha_load block i =
     or (or (or (push_bit 24 (ucast (block ! (i * 4)))) (push_bit 16 (ucast (block ! (i * 4 + 1)))))
            (push_bit 8 (ucast (block ! (i * 4 + 2)))))
        (ucast (block ! (i * 4 + 3)))"

definition sha_extend :: "u32 list \<Rightarrow> u32 list" where
  "sha_extend w =
     (let i = length w;
          s0 = xor (xor (rotr (w ! (i - 15)) 7) (rotr (w ! (i - 15)) 18)) (drop_bit 3 (w ! (i - 15)));
          s1 = xor (xor (rotr (w ! (i - 2)) 17) (rotr (w ! (i - 2)) 19)) (drop_bit 10 (w ! (i - 2)))
      in w @ [w ! (i - 16) + s0 + w ! (i - 7) + s1])"

definition sha_schedule :: "byte list \<Rightarrow> u32 list" where
  "sha_schedule block = (sha_extend ^^ 48) (map (sha_load block) [0..<16])"

text \<open>One round on the working variables \<open>[a, b, c, d, e, f, g, h]\<close>.\<close>

definition sha_round :: "u32 \<Rightarrow> u32 \<Rightarrow> u32 list \<Rightarrow> u32 list" where
  "sha_round k w r =
     (let a = r ! 0; b = r ! 1; c = r ! 2; d = r ! 3; e = r ! 4; f = r ! 5; g = r ! 6; h = r ! 7;
          s1 = xor (xor (rotr e 6) (rotr e 11)) (rotr e 25);
          ch = xor (and e f) (and (not e) g);
          temp1 = h + s1 + ch + k + w;
          s0 = xor (xor (rotr a 2) (rotr a 13)) (rotr a 22);
          maj = xor (xor (and a b) (and a c)) (and b c);
          temp2 = s0 + maj
      in [temp1 + temp2, a, b, c, d + temp1, e, f, g])"

definition sha_compress :: "u32 list \<Rightarrow> byte list \<Rightarrow> u32 list" where
  "sha_compress state block =
     (let w = sha_schedule block;
          r = fold (\<lambda>i. sha_round (sha256_K ! i) (w ! i)) [0..<64] state
      in map2 (+) state r)"

section \<open>The streaming object\<close>

record sha256 =
  sh_state :: "u32 list"
  sh_buffer :: "byte list"
  sh_buffered :: nat
  sh_total :: u64

definition sha_init :: sha256 where
  "sha_init = \<lparr>sh_state = sha256_H, sh_buffer = replicate 64 0, sh_buffered = 0, sh_total = 0\<rparr>"

definition sha_store :: "byte \<Rightarrow> sha256 \<Rightarrow> sha256" where
  "sha_store b h =
     h\<lparr>sh_buffer := (sh_buffer h)[sh_buffered h := b], sh_buffered := Suc (sh_buffered h)\<rparr>"

text \<open>\<open>while (remaining > 0 && buffered_ < block_size)\<close>: the object and the bytes left.\<close>

fun sha_fill :: "byte list \<Rightarrow> sha256 \<Rightarrow> sha256 \<times> byte list" where
  "sha_fill [] h = (h, [])"
| "sha_fill (b # bs) h = (if sh_buffered h < 64 then sha_fill bs (sha_store b h) else (h, b # bs))"

function sha_blocks :: "byte list \<Rightarrow> sha256 \<Rightarrow> sha256 \<times> byte list" where
  "sha_blocks p h =
     (if length p \<ge> 64
      then sha_blocks (drop 64 p) (h\<lparr>sh_state := sha_compress (sh_state h) (take 64 p)\<rparr>)
      else (h, p))"
  by pat_completeness auto
termination by (relation "measure (length \<circ> fst)") auto

declare sha_blocks.simps [simp del]

definition sha_flush :: "sha256 \<Rightarrow> sha256" where
  "sha_flush h =
     (if sh_buffered h = 64
      then h\<lparr>sh_state := sha_compress (sh_state h) (sh_buffer h), sh_buffered := 0\<rparr> else h)"

definition sha_update :: "sha256 \<Rightarrow> byte list \<Rightarrow> sha256" where
  "sha_update h data =
     (let h1 = h\<lparr>sh_total := sh_total h + of_nat (length data)\<rparr>;
          (h2, p2) = (if sh_buffered h1 > 0
                      then (let (g, p) = sha_fill data h1 in (sha_flush g, p)) else (h1, data));
          (h3, p3) = sha_blocks p2 h2
      in fold sha_store p3 h3)"

definition be64 :: "u64 \<Rightarrow> byte list" where
  "be64 v = map (\<lambda>i. ucast (drop_bit (56 - 8 * i) v)) [0..<8]"

definition sha_output :: "u32 list \<Rightarrow> byte list" where
  "sha_output st = concat (map (\<lambda>s. [ucast (drop_bit 24 s), ucast (drop_bit 16 s),
                                      ucast (drop_bit 8 s), ucast s]) st)"

text \<open>
  \<open>finish\<close>: the zero padding is a loop that feeds one byte until 56 bytes are buffered;
  \<open>None\<close> would mean that it never stops.
\<close>

definition sha_finish :: "sha256 \<Rightarrow> byte list option" where
  "sha_finish h =
     (let bit_length = sh_total h * 8 in
      case while_option (\<lambda>g. sh_buffered g \<noteq> 56) (\<lambda>g. sha_update g [0]) (sha_update h [0x80]) of
        None \<Rightarrow> None
      | Some g \<Rightarrow>
          let g' = fold sha_store (be64 bit_length) g
          in Some (sha_output (sha_compress (sh_state g') (sh_buffer g'))))"

section \<open>Digest\<close>

type_synonym digest = "byte list"

definition digest_zero :: digest where
  "digest_zero = replicate 32 0"

definition digest_ok :: "digest \<Rightarrow> bool" where
  "digest_ok d \<longleftrightarrow> length d = 32"

definition bytes_of_string :: "string \<Rightarrow> byte list" where
  "bytes_of_string s = map of_char s"

definition digest_of_bytes :: "byte list \<Rightarrow> digest" where
  "digest_of_bytes data =
     (case sha_finish (sha_update sha_init data) of Some d \<Rightarrow> d | None \<Rightarrow> digest_zero)"

definition digest_of_string :: "string \<Rightarrow> digest" where
  "digest_of_string s = digest_of_bytes (bytes_of_string s)"

definition digest_is_zero :: "digest \<Rightarrow> bool" where
  "digest_is_zero d \<longleftrightarrow> list_all (\<lambda>b. b = 0) d"

definition digest_to_hex :: "digest \<Rightarrow> string" where
  "digest_to_hex d = concat (map (\<lambda>b. [hex_high b, hex_low b]) d)"

fun hex_pairs :: "string \<Rightarrow> byte list option" where
  "hex_pairs (c # d # cs) =
     (case hex_byte c d of None \<Rightarrow> None | Some b \<Rightarrow> map_option ((#) b) (hex_pairs cs))"
| "hex_pairs [] = Some []"
| "hex_pairs [c] = None"

definition digest_parse :: "string \<Rightarrow> digest result" where
  "digest_parse hex =
     (if length hex \<noteq> 64 then fail Code_Invalid ''digest: expected 64 hexadecimal characters''
      else case hex_pairs hex of
             None \<Rightarrow> fail Code_Invalid ''digest: non-hexadecimal character''
           | Some bytes \<Rightarrow> Inr bytes)"

section \<open>CRC-32C\<close>

definition crc_bit :: "u32 \<Rightarrow> u32" where
  "crc_bit crc = (if and crc 1 \<noteq> 0 then xor (drop_bit 1 crc) 0x82F63B78 else drop_bit 1 crc)"

definition crc32c_table :: "u32 list" where
  "crc32c_table = map (\<lambda>i. (crc_bit ^^ 8) (of_nat i)) [0..<256]"

definition crc_update_byte :: "byte \<Rightarrow> u32 \<Rightarrow> u32" where
  "crc_update_byte b state =
     xor (crc32c_table ! unat (and (xor state (ucast b)) 0xFF)) (drop_bit 8 state)"

definition crc_init :: u32 where "crc_init = 0xFFFFFFFF"

definition crc_update :: "byte list \<Rightarrow> u32 \<Rightarrow> u32" where
  "crc_update data state = fold crc_update_byte data state"

definition crc_value :: "u32 \<Rightarrow> u32" where
  "crc_value state = xor state 0xFFFFFFFF"

definition crc32c :: "byte list \<Rightarrow> u32" where
  "crc32c data = crc_value (crc_update data crc_init)"

end
