(* ===== verification/Hashing.thy ===== *)
theory Hashing
  imports Digest
begin

text \<open>
  The streaming SHA-256 object of \<open>core/digest.cpp\<close> against a hash that pads the whole message and
  compresses it block by block. Feeding the object in any number of pieces, and its padding loop, compute
  exactly that. \<open>Secure_Hash\<close> relates the result to the standard.
\<close>

section \<open>Hashing a padded message\<close>

function hash_blocks :: "u32 list \<Rightarrow> byte list \<Rightarrow> u32 list \<times> byte list" where
  "hash_blocks st p =
     (if length p \<ge> 64 then hash_blocks (sha_compress st (take 64 p)) (drop 64 p) else (st, p))"
  by pat_completeness auto
termination by (relation "measure (length \<circ> snd)") auto

declare hash_blocks.simps [simp del]

definition sha_padding :: "nat \<Rightarrow> byte list" where
  "sha_padding n =
     [0x80] @ replicate ((119 - n mod 64) mod 64) 0 @ be64 (of_nat n * 8)"

definition padded_hash :: "byte list \<Rightarrow> byte list" where
  "padded_hash m = sha_output (fst (hash_blocks sha256_H (m @ sha_padding (length m))))"

lemma hash_blocks_short: "length p < 64 \<Longrightarrow> hash_blocks st p = (st, p)"
  by (subst hash_blocks.simps) simp

lemma hash_blocks_long:
  "64 \<le> length p \<Longrightarrow> hash_blocks st p = hash_blocks (sha_compress st (take 64 p)) (drop 64 p)"
  by (subst hash_blocks.simps) simp

lemma hash_blocks_append: "hash_blocks st m = (st', r) \<Longrightarrow> hash_blocks st (m @ p) = hash_blocks st' (r @ p)"
proof (induction st m rule: hash_blocks.induct)
  case (1 st m)
  show ?case
  proof (cases "64 \<le> length m")
    case True
    then show ?thesis using 1 by (simp add: hash_blocks_long[of m] hash_blocks_long[of "m @ p"])
  next
    case False
    then show ?thesis using 1(2) by (simp add: hash_blocks_short)
  qed
qed

lemma hash_blocks_rest: "length (snd (hash_blocks st m)) = length m mod 64"
proof (induction st m rule: hash_blocks.induct)
  case (1 st m)
  show ?case
  proof (cases "64 \<le> length m")
    case True
    then show ?thesis using 1 by (simp add: hash_blocks_long[of m] le_mod_geq)
  next
    case False
    then show ?thesis by (simp add: hash_blocks_short)
  qed
qed

lemma sha_compress_length: "length st = 8 \<Longrightarrow> length (sha_compress st b) = 8"
proof -
  assume st: "length st = 8"
  have "length (fold (\<lambda>i. sha_round (k i) (w i)) is st) = 8" for k w and "is" :: "nat list"
    using st by (induction "is" arbitrary: st) (simp_all add: sha_round_def Let_def)
  with st show ?thesis by (simp add: sha_compress_def Let_def)
qed

lemma hash_blocks_length: "length st = 8 \<Longrightarrow> length (fst (hash_blocks st m)) = 8"
proof (induction st m rule: hash_blocks.induct)
  case (1 st m)
  show ?case
  proof (cases "64 \<le> length m")
    case True
    then show ?thesis using 1 by (simp add: hash_blocks_long[of m] sha_compress_length)
  next
    case False
    then show ?thesis using 1(2) by (simp add: hash_blocks_short)
  qed
qed

section \<open>The object\<close>

text \<open>The object has absorbed \<open>m\<close>: its state is the one after the complete blocks, and the front of
  its buffer is what is left.\<close>

definition absorbed :: "sha256 \<Rightarrow> byte list \<Rightarrow> bool" where
  "absorbed h m \<longleftrightarrow> length (sh_buffer h) = 64 \<and> sh_buffered h = length m mod 64 \<and>
     sh_total h = of_nat (length m) \<and>
     hash_blocks sha256_H m = (sh_state h, take (sh_buffered h) (sh_buffer h))"

lemma absorbed_init: "absorbed sha_init []"
  by (simp add: absorbed_def sha_init_def hash_blocks_short)

lemma stored:
  assumes "sh_buffered h + length p \<le> 64" "length (sh_buffer h) = 64"
  shows "fold sha_store p h = h\<lparr>sh_buffer := take (sh_buffered h) (sh_buffer h) @ p @
    drop (sh_buffered h + length p) (sh_buffer h), sh_buffered := sh_buffered h + length p\<rparr>"
  using assms
proof (induction p arbitrary: h)
  case (Cons b p)
  let ?h = "sha_store b h"
  have l: "sh_buffered h < 64" using Cons.prems by simp
  have "fold sha_store p ?h = ?h\<lparr>sh_buffer := take (sh_buffered ?h) (sh_buffer ?h) @ p @
    drop (sh_buffered ?h + length p) (sh_buffer ?h), sh_buffered := sh_buffered ?h + length p\<rparr>"
    using Cons.prems by (intro Cons.IH) (simp_all add: sha_store_def)
  moreover have "take (Suc (sh_buffered h)) ((sh_buffer h)[sh_buffered h := b]) = take (sh_buffered h) (sh_buffer h) @ [b]"
    using l Cons.prems(2) by (simp add: take_Suc_conv_app_nth)
  moreover have "drop (Suc (sh_buffered h + length p)) ((sh_buffer h)[sh_buffered h := b]) =
      drop (Suc (sh_buffered h + length p)) (sh_buffer h)"
    by simp
  moreover have "sh_buffered ?h = Suc (sh_buffered h)" "sh_buffer ?h = (sh_buffer h)[sh_buffered h := b]"
    by (simp_all add: sha_store_def)
  ultimately have "fold sha_store p ?h = ?h\<lparr>sh_buffer := take (sh_buffered h) (sh_buffer h) @ b # p @
    drop (Suc (sh_buffered h + length p)) (sh_buffer h), sh_buffered := Suc (sh_buffered h + length p)\<rparr>"
    by simp
  then show ?case by (simp add: sha_store_def[of b h])
qed simp

lemma filled:
  assumes "length (sh_buffer h) = 64" "sh_buffered h \<le> 64" "n = min (length p) (64 - sh_buffered h)"
  shows "sha_fill p h = (fold sha_store (take n p) h, drop n p)"
  using assms
proof (induction p arbitrary: h n)
  case (Cons b p)
  show ?case
  proof (cases "sh_buffered h < 64")
    case True
    let ?h = "sha_store b h"
    have "sha_fill p ?h = (fold sha_store (take (n - 1) p) ?h, drop (n - 1) p)"
      using Cons.prems True by (intro Cons.IH) (simp_all add: sha_store_def min_def, arith)
    moreover have "n = Suc (n - 1)" using Cons.prems(3) True by simp
    ultimately show ?thesis using True by (metis drop_Suc_Cons fold_simps(2) sha_fill.simps(2) take_Suc_Cons)
  next
    case False
    then show ?thesis using Cons.prems by simp
  qed
qed simp

lemma blocked: "sha_blocks p h = (let (st, r) = hash_blocks (sh_state h) p in (h\<lparr>sh_state := st\<rparr>, r))"
proof (induction p h rule: sha_blocks.induct)
  case (1 p h)
  show ?case
  proof (cases "64 \<le> length p")
    case True
    then show ?thesis using 1 by (subst sha_blocks.simps) (simp add: hash_blocks_long[of p] split_beta Let_def)
  next
    case False
    then show ?thesis by (subst sha_blocks.simps) (simp add: hash_blocks_short)
  qed
qed

lemma absorbed_blocks:
  assumes "length (sh_buffer h) = 64" "sh_buffered h = 0" "sh_total h = of_nat (length m)"
    "hash_blocks sha256_H m = hash_blocks (sh_state h) p"
  shows "let (g, r) = sha_blocks p h in absorbed (fold sha_store r g) m"
proof -
  obtain st r where b: "hash_blocks (sh_state h) p = (st, r)" by fastforce
  have r: "length r = length m mod 64" using hash_blocks_rest[of sha256_H m] assms(4) b by simp
  then have "length r \<le> 64" using mod_less_divisor[of 64 "length m"] by simp
  then have "fold sha_store r (h\<lparr>sh_state := st\<rparr>) = h\<lparr>sh_state := st, sh_buffer := r @ drop (length r) (sh_buffer h),
      sh_buffered := length r\<rparr>"
    using assms(1,2) by (subst stored) simp_all
  then show ?thesis
    using assms b r by (simp add: blocked absorbed_def)
qed

lemma absorbed_update:
  assumes "absorbed h m"
  shows "absorbed (sha_update h data) (m @ data)"
proof -
  let ?h = "h\<lparr>sh_total := sh_total h + of_nat (length data)\<rparr>"
  let ?b = "sh_buffered h" and ?r = "take (sh_buffered h) (sh_buffer h)"
  have a: "length (sh_buffer h) = 64" "?b < 64" "sh_total ?h = of_nat (length (m @ data))"
    "hash_blocks sha256_H (m @ data) = hash_blocks (sh_state h) (?r @ data)" "?b = length m mod 64"
    using assms hash_blocks_append[of sha256_H m "sh_state h" ?r data] by (auto simp: absorbed_def)
  consider (none) "?b = 0" | (short) "?b \<noteq> 0" "?b + length data < 64" | (long) "?b \<noteq> 0" "64 \<le> ?b + length data"
    by linarith
  then show ?thesis
  proof cases
    case none
    then show ?thesis
      using absorbed_blocks[of ?h "m @ data" data] a by (simp add: sha_update_def Let_def split_beta)
  next
    case short
    have "sha_fill data ?h = (fold sha_store data ?h, [])"
      using short a by (subst filled[OF _ _ refl]) simp_all
    moreover have f: "fold sha_store data ?h = ?h\<lparr>sh_buffer := ?r @ data @ drop (?b + length data) (sh_buffer h),
        sh_buffered := ?b + length data\<rparr>"
      using short a by (subst stored) simp_all
    ultimately have "sha_update h data = fold sha_store data ?h"
      using short by (simp add: sha_update_def Let_def sha_flush_def blocked hash_blocks_short)
    moreover have "hash_blocks sha256_H (m @ data) = (sh_state h, ?r @ data)"
      using short a by (simp add: hash_blocks_short)
    moreover have "?b + length data = length (m @ data) mod 64"
      using short a(5) by (metis length_append mod_add_left_eq mod_less)
    ultimately show ?thesis
      using short a by (simp add: absorbed_def f)
  next
    case long
    let ?n = "64 - ?b"
    have "sha_fill data ?h = (fold sha_store (take ?n data) ?h, drop ?n data)"
      using long a by (subst filled[OF _ _ refl]) (simp_all add: min_absorb2)
    moreover have "fold sha_store (take ?n data) ?h = ?h\<lparr>sh_buffer := ?r @ take ?n data, sh_buffered := 64\<rparr>"
      using long a by (subst stored) (simp_all add: min_absorb2)
    ultimately have u: "sha_update h data = (let (g, r) = sha_blocks (drop ?n data)
        (?h\<lparr>sh_buffer := ?r @ take ?n data, sh_state := sha_compress (sh_state h) (?r @ take ?n data), sh_buffered := 0\<rparr>)
        in fold sha_store r g)"
      using long by (simp add: sha_update_def Let_def sha_flush_def split_beta)
    have "hash_blocks sha256_H (m @ data) =
        hash_blocks (sha_compress (sh_state h) (?r @ take ?n data)) (drop ?n data)"
      using long a by (simp add: hash_blocks_long min_absorb1 min_absorb2)
    with absorbed_blocks[of "?h\<lparr>sh_buffer := ?r @ take ?n data,
        sh_state := sha_compress (sh_state h) (?r @ take ?n data), sh_buffered := 0\<rparr>" "m @ data" "drop ?n data"] a long
    show ?thesis unfolding u by (simp add: Let_def split_beta min_absorb2)
  qed
qed

text \<open>How many zero bytes follow \<open>n\<close> bytes.\<close>

definition zeros :: "nat \<Rightarrow> nat" where
  "zeros n = (let a = n mod 64 in if a \<le> 56 then 56 - a else 120 - a)"

lemma zeros_Suc: "Suc k = zeros n \<Longrightarrow> k = zeros (Suc n)"
  using mod_less_divisor[of 64 n] by (auto simp: zeros_def Let_def mod_Suc split: if_splits)

lemma zeros_0: "zeros n = 0 \<longleftrightarrow> n mod 64 = 56"
  using mod_less_divisor[of 64 n] by (auto simp: zeros_def Let_def split: if_splits)

lemma zeros_mod: "(n + zeros n) mod 64 = 56"
proof -
  have "(n + zeros n) mod 64 = (n mod 64 + zeros n) mod 64" by (simp add: mod_add_left_eq)
  also have "\<dots> = 56" using mod_less_divisor[of 64 n] by (auto simp: zeros_def Let_def)
  finally show ?thesis .
qed

lemma zeros_padding: "(119 - n mod 64) mod 64 = zeros (Suc n)"
proof -
  have "n mod 64 < 64" by simp
  then have "(119 - n mod 64) mod 64 = (if n mod 64 \<le> 55 then 55 - n mod 64 else 119 - n mod 64)"
    by (auto simp: le_mod_geq)
  then show ?thesis using mod_less_divisor[of 64 n] by (auto simp: zeros_def Let_def mod_Suc)
qed

lemma padding_loop:
  assumes "absorbed h m" "k = zeros (length m)"
  shows "\<exists>g. while_option (\<lambda>g. sh_buffered g \<noteq> 56) (\<lambda>g. sha_update g [0]) h = Some g \<and>
    absorbed g (m @ replicate k 0)"
  using assms
proof (induction k arbitrary: h m)
  case 0
  then show ?case using zeros_0[of "length m"] by (subst while_option_unfold) (simp add: absorbed_def)
next
  case (Suc k)
  have b: "length m mod 64 \<noteq> 56" using Suc.prems(2) zeros_0[of "length m"] by simp
  have "k = zeros (length (m @ [0]))" using zeros_Suc[OF Suc.prems(2)] by simp
  from Suc.IH[OF absorbed_update[OF Suc.prems(1)] this] obtain g where
    g: "while_option (\<lambda>g. sh_buffered g \<noteq> 56) (\<lambda>g. sha_update g [0]) (sha_update h [0]) = Some g"
    "absorbed g ((m @ [0]) @ replicate k 0)" by blast
  have "sh_buffered h \<noteq> 56" using b Suc.prems(1) by (simp add: absorbed_def)
  with g show ?case by (subst while_option_unfold) (auto simp: replicate_append_same[symmetric])
qed

lemma finished:
  assumes "absorbed h m"
  shows "sha_finish h = Some (padded_hash m)"
proof -
  let ?k = "zeros (length (m @ [0x80]))"
  let ?z = "(m @ [0x80]) @ replicate ?k 0"
  obtain g where g: "while_option (\<lambda>g. sh_buffered g \<noteq> 56) (\<lambda>g. sha_update g [0]) (sha_update h [0x80]) = Some g"
    "absorbed g ?z"
    using padding_loop[OF absorbed_update[OF assms] refl] by blast
  have "length ?z mod 64 = 56" using zeros_mod[of "length (m @ [0x80])"] by simp
  then have b: "sh_buffered g = 56" using g(2) by (simp add: absorbed_def)
  have a: "length (sh_buffer g) = 64" "hash_blocks sha256_H ?z = (sh_state g, take 56 (sh_buffer g))"
    using g(2) b by (simp_all add: absorbed_def)
  let ?bits = "be64 (of_nat (length m) * 8)"
  have bits: "length ?bits = 8" by (simp add: be64_def)
  have s: "fold sha_store ?bits g = g\<lparr>sh_buffer := take 56 (sh_buffer g) @ ?bits, sh_buffered := 64\<rparr>"
    using a b bits by (subst stored) simp_all
  have "hash_blocks sha256_H (?z @ ?bits) = hash_blocks (sh_state g) (take 56 (sh_buffer g) @ ?bits)"
    by (rule hash_blocks_append[OF a(2)])
  also have "\<dots> = (sha_compress (sh_state g) (take 56 (sh_buffer g) @ ?bits), [])"
    using a bits by (simp add: hash_blocks_long hash_blocks_short)
  finally have "padded_hash m = sha_output (sha_compress (sh_state g) (take 56 (sh_buffer g) @ ?bits))"
    by (simp add: padded_hash_def sha_padding_def zeros_padding)
  moreover have "sh_total h = of_nat (length m)" using assms by (simp add: absorbed_def)
  ultimately show ?thesis using g(1) by (simp add: sha_finish_def Let_def s)
qed

lemma absorbed_pieces: "absorbed h m \<Longrightarrow> absorbed (foldl sha_update h ds) (m @ concat ds)"
  by (induction ds arbitrary: h m) (use absorbed_update in force)+

lemma digest_reference: "digest_of_bytes data = padded_hash data"
  using finished[OF absorbed_update[OF absorbed_init]] by (simp add: digest_of_bytes_def)

lemma length_digest [simp]: "length (digest_of_bytes data) = 32"
proof -
  have "length sha256_H = 8" by (simp add: sha256_H_def)
  then have "length (fst (hash_blocks sha256_H p)) = 8" for p by (rule hash_blocks_length)
  moreover have "length (sha_output st) = 4 * length st" for st
    by (induction st) (simp_all add: sha_output_def)
  ultimately show ?thesis by (simp add: digest_reference padded_hash_def)
qed

end
