(* ===== verification/Secure_Hash.thy ===== *)
theory Secure_Hash
  imports Complex_Main Hashing
begin

text \<open>
  SHA-256 as FIPS 180-4 defines it, on bits; and the proof that the compression function, the padding and the
  constants of \<open>core/digest.cpp\<close> are those of the standard. Nothing of the model is used in the
  definitions of the standard, which come first.
\<close>

section \<open>Bits\<close>

text \<open>A word as its bits, the most significant one first, and back.\<close>

definition to_bits :: "'a::len word \<Rightarrow> bool list" where
  "to_bits w = rev (map (bit w) [0..<LENGTH('a)])"

definition of_bits :: "bool list \<Rightarrow> 'a::len word" where
  "of_bits bs = horner_sum of_bool 2 (rev bs)"

function chunks :: "nat \<Rightarrow> 'a list \<Rightarrow> 'a list list" where
  "chunks n xs = (if n = 0 \<or> length xs < n then [] else take n xs # chunks n (drop n xs))"
  by pat_completeness auto
termination by (relation "measure (length \<circ> snd)") auto

declare chunks.simps [simp del]

section \<open>Functions and constants\<close>

definition shs_ch :: "u32 \<Rightarrow> u32 \<Rightarrow> u32 \<Rightarrow> u32" where
  "shs_ch x y z = xor (and x y) (and (not x) z)"

definition shs_maj :: "u32 \<Rightarrow> u32 \<Rightarrow> u32 \<Rightarrow> u32" where
  "shs_maj x y z = xor (xor (and x y) (and x z)) (and y z)"

definition upper_sigma0 :: "u32 \<Rightarrow> u32" where
  "upper_sigma0 x = xor (xor (word_rotr 2 x) (word_rotr 13 x)) (word_rotr 22 x)"

definition upper_sigma1 :: "u32 \<Rightarrow> u32" where
  "upper_sigma1 x = xor (xor (word_rotr 6 x) (word_rotr 11 x)) (word_rotr 25 x)"

definition lower_sigma0 :: "u32 \<Rightarrow> u32" where
  "lower_sigma0 x = xor (xor (word_rotr 7 x) (word_rotr 18 x)) (drop_bit 3 x)"

definition lower_sigma1 :: "u32 \<Rightarrow> u32" where
  "lower_sigma1 x = xor (xor (word_rotr 17 x) (word_rotr 19 x)) (drop_bit 10 x)"

text \<open>The constants: the first 32 bits of the fractional parts of the cube roots of the first 64 primes, and of
  the square roots of the first eight.\<close>

definition is_prime :: "nat \<Rightarrow> bool" where
  "is_prime n \<longleftrightarrow> 2 \<le> n \<and> (\<forall>d. d dvd n \<longrightarrow> d = 1 \<or> d = n)"

definition primes_below :: "nat \<Rightarrow> nat list" where
  "primes_below n = filter is_prime [2..<n]"

definition root_bits :: "nat \<Rightarrow> nat \<Rightarrow> u32" where
  "root_bits k p = of_int \<lfloor>frac (root k (real p)) * 2 ^ 32\<rfloor>"

definition shs_K :: "u32 list" where "shs_K = map (root_bits 3) (primes_below 312)"

definition shs_H :: "u32 list" where "shs_H = map (root_bits 2) (primes_below 20)"

section \<open>Padding, schedule and rounds\<close>

definition shs_padded :: "byte list \<Rightarrow> bool list" where
  "shs_padded m =
     (let bits = concat (map to_bits m); l = length bits
      in bits @ [True] @ replicate (LEAST k. (l + 1 + k) mod 512 = 448) False @ to_bits (of_nat l :: u64))"

definition shs_words :: "bool list \<Rightarrow> u32 list" where
  "shs_words block = map of_bits (chunks 32 block)"

fun shs_W :: "u32 list \<Rightarrow> nat \<Rightarrow> u32" where
  "shs_W M t =
     (if t < 16 then M ! t
      else lower_sigma1 (shs_W M (t - 2)) + shs_W M (t - 7) + lower_sigma0 (shs_W M (t - 15)) + shs_W M (t - 16))"

declare shs_W.simps [simp del]

type_synonym shs_state = "u32 \<times> u32 \<times> u32 \<times> u32 \<times> u32 \<times> u32 \<times> u32 \<times> u32"

fun shs_round :: "u32 \<Rightarrow> u32 \<Rightarrow> shs_state \<Rightarrow> shs_state" where
  "shs_round k w (a, b, c, d, e, f, g, h) =
     (let t1 = h + upper_sigma1 e + shs_ch e f g + k + w; t2 = upper_sigma0 a + shs_maj a b c
      in (t1 + t2, a, b, c, d + t1, e, f, g))"

primrec shs_rounds :: "u32 list \<Rightarrow> shs_state \<Rightarrow> nat \<Rightarrow> shs_state" where
  "shs_rounds M v 0 = v"
| "shs_rounds M v (Suc t) = shs_round (shs_K ! t) (shs_W M t) (shs_rounds M v t)"

fun shs_add :: "shs_state \<Rightarrow> shs_state \<Rightarrow> shs_state" where
  "shs_add (a, b, c, d, e, f, g, h) (a', b', c', d', e', f', g', h') =
     (a + a', b + b', c + c', d + d', e + e', f + f', g + g', h + h')"

definition shs_block :: "shs_state \<Rightarrow> bool list \<Rightarrow> shs_state" where
  "shs_block v block = shs_add (shs_rounds (shs_words block) v 64) v"

fun shs_list :: "shs_state \<Rightarrow> u32 list" where
  "shs_list (a, b, c, d, e, f, g, h) = [a, b, c, d, e, f, g, h]"

definition shs_initial :: shs_state where
  "shs_initial = (shs_H ! 0, shs_H ! 1, shs_H ! 2, shs_H ! 3, shs_H ! 4, shs_H ! 5, shs_H ! 6, shs_H ! 7)"

definition fips_sha256 :: "byte list \<Rightarrow> byte list" where
  "fips_sha256 m =
     map of_bits (chunks 8 (concat (map to_bits (shs_list (foldl shs_block shs_initial (chunks 512 (shs_padded m)))))))"

section \<open>The constants of the source\<close>

text \<open>A number below 361 with no divisor up to 17 but itself is prime.\<close>

lemma prime_below_361:
  assumes "n < 361"
  shows "is_prime n \<longleftrightarrow> 2 \<le> n \<and> list_all (\<lambda>d. d dvd n \<longrightarrow> d = n) [2, 3, 5, 7, 11, 13, 17]"
proof
  show "2 \<le> n \<and> list_all (\<lambda>d. d dvd n \<longrightarrow> d = n) [2, 3, 5, 7, 11, 13, 17]" if "is_prime n"
    using that by (auto simp: is_prime_def)
next
  assume n: "2 \<le> n \<and> list_all (\<lambda>d. d dvd n \<longrightarrow> d = n) [2, 3, 5, 7, 11, 13, 17]"
  have small: "\<exists>q \<in> {2, 3, 5, 7, 11, 13, 17}. q dvd d" if "2 \<le> d" "d < 19" for d :: nat
  proof -
    have "\<forall>d \<in> set [2..<19]. \<exists>q \<in> {2, 3, 5, 7, 11, 13, 17 :: nat}. q dvd d" by (simp add: upt_rec_numeral)
    then show ?thesis by (rule bspec) (simp only: set_upt atLeastLessThan_iff that simp_thms)
  qed
  have "d = 1 \<or> d = n" if d: "d dvd n" for d
  proof (rule ccontr)
    assume c: "\<not> (d = 1 \<or> d = n)"
    obtain e where e: "n = d * e" using d by blast
    then have "2 \<le> d" "2 \<le> e" using c n by (cases d; cases e; auto simp: numeral_2_eq_2 Suc_le_eq)+
    moreover have "d < 19 \<or> e < 19"
    proof (rule ccontr)
      assume "\<not> (d < 19 \<or> e < 19)"
      then have "19 * 19 \<le> d * e" by (intro mult_le_mono) simp_all
      then show False using assms e by simp
    qed
    ultimately obtain x q where x: "x dvd n" "x \<noteq> n" "q \<in> {2, 3, 5, 7, 11, 13, 17 :: nat}" "q dvd x"
      using small[of d] small[of e] c e
      by (metis dvd_triv_left dvd_triv_right mult_eq_self_implies_10 mult.commute not_numeral_le_zero nat_mult_eq_1_iff)
    then have "q dvd n" by (meson dvd_trans)
    then have "q = n" using n x(3) by auto
    then show False using x by (metis dvd_antisym)
  qed
  then show "is_prime n" using n by (simp add: is_prime_def)
qed

lemma primes_below_eq:
  "n \<le> 361 \<Longrightarrow> primes_below n =
     filter (\<lambda>n. if 2 dvd n then n = 2 else if 3 dvd n then n = 3 else if 5 dvd n then n = 5 else if 7 dvd n then n = 7
       else if 11 dvd n then n = 11 else if 13 dvd n then n = 13 else 17 dvd n \<longrightarrow> n = 17) [2..<n]"
  unfolding primes_below_def by (rule filter_cong[OF refl], subst prime_below_361) auto

lemma primes_312: "primes_below 312 =
    [2, 3, 5, 7, 11, 13, 17, 19, 23, 29, 31, 37, 41, 43, 47, 53, 59, 61, 67, 71, 73, 79, 83, 89, 97, 101, 103,
     107, 109, 113, 127, 131, 137, 139, 149, 151, 157, 163, 167, 173, 179, 181, 191, 193, 197, 199, 211, 223,
     227, 229, 233, 239, 241, 251, 257, 263, 269, 271, 277, 281, 283, 293, 307, 311]"
  by (simp add: primes_below_eq upt_rec_numeral)

lemma primes_20: "primes_below 20 = [2, 3, 5, 7, 11, 13, 17, 19]"
  by (simp add: primes_below_eq upt_rec_numeral)

text \<open>Integer bounds on a root decide its first 32 fractional bits.\<close>

lemma root_bits_eq:
  assumes "0 < k" "(q * 2 ^ 32 + f) ^ k \<le> p * 2 ^ (32 * k)" "p * 2 ^ (32 * k) < (q * 2 ^ 32 + f + 1) ^ k" "f < 2 ^ 32"
  shows "root_bits k p = of_nat f"
proof -
  let ?x = "root k (real p)"
  have x: "0 \<le> ?x" "?x ^ k = real p" using assms(1) by simp_all
  have scaled: "(?x * 2 ^ 32) ^ k = real (p * 2 ^ (32 * k))" using x by (simp add: power_mult_distrib power_mult)
  have "real (q * 2 ^ 32 + f) ^ k \<le> (?x * 2 ^ 32) ^ k" unfolding scaled using assms(2) by (metis of_nat_le_iff of_nat_power)
  then have lower: "real (q * 2 ^ 32 + f) \<le> ?x * 2 ^ 32" using assms(1) x(1) by (subst (asm) power_mono_iff) auto
  have "(?x * 2 ^ 32) ^ k < real (q * 2 ^ 32 + f + 1) ^ k" unfolding scaled using assms(3) by (metis of_nat_less_iff of_nat_power)
  then have upper: "?x * 2 ^ 32 < real (q * 2 ^ 32 + f + 1)" by (rule power_less_imp_less_base) simp
  have "\<lfloor>?x\<rfloor> = int q"
    using lower upper assms(4) by (intro floor_unique) (simp_all add: field_simps)
  then have "frac ?x * 2 ^ 32 = ?x * 2 ^ 32 - real (q * 2 ^ 32)" by (simp add: frac_def algebra_simps)
  then have "\<lfloor>frac ?x * 2 ^ 32\<rfloor> = int f" using lower upper by (intro floor_unique) simp_all
  then show ?thesis by (simp add: root_bits_def)
qed

lemma root_words:
  assumes "0 < k" "list_all2 (\<lambda>p (q, f). (q * 2 ^ 32 + f) ^ k \<le> p * 2 ^ (32 * k) \<and>
      p * 2 ^ (32 * k) < (q * 2 ^ 32 + f + 1) ^ k \<and> f < 2 ^ 32) ps qs"
  shows "map (root_bits k) ps = map (of_nat \<circ> snd) qs"
  using assms(2) by (induction rule: list_all2_induct) (auto simp: root_bits_eq[OF assms(1)])

lemma shs_H_eq: "shs_H = sha256_H"
  unfolding shs_H_def primes_20 sha256_H_def
  by (subst root_words[where k = 2 and qs = "[(1, 1779033703), (1, 3144134277), (2, 1013904242), (2, 2773480762), (3, 1359893119), (3, 2600822924), (4, 528734635), (4, 1541459225)]"])
     simp_all

lemma shs_K_eq: "shs_K = sha256_K"
  unfolding shs_K_def primes_312 sha256_K_def
  by (subst root_words[where k = 3 and qs = "zip
    [1, 1, 1, 1, 2, 2, 2, 2, 2, 3, 3, 3, 3, 3, 3, 3, 3, 3, 4, 4, 4, 4, 4, 4, 4, 4, 4, 4, 4, 4, 5, 5, 5, 5, 5,
     5, 5, 5, 5, 5, 5, 5, 5, 5, 5, 5, 5, 6, 6, 6, 6, 6, 6, 6, 6, 6, 6, 6, 6, 6, 6, 6, 6, 6]
    [1116352408, 1899447441, 3049323471, 3921009573, 961987163, 1508970993, 2453635748, 2870763221, 3624381080,
     310598401, 607225278, 1426881987, 1925078388, 2162078206, 2614888103, 3248222580, 3835390401, 4022224774,
     264347078, 604807628, 770255983, 1249150122, 1555081692, 1996064986, 2554220882, 2821834349, 2952996808,
     3210313671, 3336571891, 3584528711, 113926993, 338241895, 666307205, 773529912, 1294757372, 1396182291,
     1695183700, 1986661051, 2177026350, 2456956037, 2730485921, 2820302411, 3259730800, 3345764771,
     3516065817, 3600352804, 4094571909, 275423344, 430227734, 506948616, 659060556, 883997877, 958139571,
     1322822218, 1537002063, 1747873779, 1955562222, 2024104815, 2227730452, 2361852424, 2428436474,
     2756734187, 3204031479, 3329325298]"])
     simp_all


section \<open>Cutting bits\<close>

lemma chunks_Nil [simp]: "chunks n [] = []" by (subst chunks.simps) auto

lemma chunks_append: "0 < n \<Longrightarrow> length x = n \<Longrightarrow> chunks n (x @ xs) = x # chunks n xs"
  by (subst chunks.simps) simp

lemma chunks_concat: "0 < n \<Longrightarrow> list_all (\<lambda>x. length x = n) xss \<Longrightarrow> chunks n (concat xss) = xss"
  by (induction xss) (simp_all add: chunks_append)

lemma concat_chunks: "0 < n \<Longrightarrow> n dvd length xs \<Longrightarrow> concat (chunks n xs) = xs \<and> list_all (\<lambda>x. length x = n) (chunks n xs)"
proof (induction n xs rule: chunks.induct)
  case (1 n xs)
  show ?case
  proof (cases "length xs < n")
    case True
    then have "xs = []" using 1(2,3) by (auto dest: dvd_imp_le)
    then show ?thesis by simp
  next
    case False
    then have "n dvd length (drop n xs)" using 1(3) by (simp add: dvd_diff_nat)
    then show ?thesis using 1 False by (subst (1 2) chunks.simps) simp
  qed
qed

lemma length_to_bits [simp]: "length (to_bits (w :: 'a::len word)) = LENGTH('a)"
  by (simp add: to_bits_def)

lemma bit_of_bits: "bit (of_bits bs :: 'a::len word) i \<longleftrightarrow> i < LENGTH('a) \<and> i < length bs \<and> rev bs ! i"
  by (auto simp: of_bits_def bit_horner_sum_bit_word_iff)

lemma of_to_bits [simp]: "of_bits (to_bits w) = w"
  by (rule bit_word_eqI) (simp add: bit_of_bits to_bits_def)

lemma upto_numeral: "2 \<le> n \<Longrightarrow> [0..<n] = 0 # 1 # [2..<n]"
  by (simp add: upt_conv_Cons numeral_2_eq_2)

lemma upto_16: "[0..<16] = [0, 1, 2, 3, 4, 5, 6, 7, 8, 9, 10, 11, 12, 13, 14, 15 :: nat]"
  by (simp add: upto_numeral upt_rec_numeral)

lemma byte_bits: "to_bits (b :: byte) = [bit b 7, bit b 6, bit b 5, bit b 4, bit b 3, bit b 2, bit b 1, bit b 0]"
  by (simp add: to_bits_def upto_numeral upt_rec_numeral)

lemma word_bits: "to_bits (w :: u32) =
    [bit w 31, bit w 30, bit w 29, bit w 28, bit w 27, bit w 26, bit w 25, bit w 24,
     bit w 23, bit w 22, bit w 21, bit w 20, bit w 19, bit w 18, bit w 17, bit w 16,
     bit w 15, bit w 14, bit w 13, bit w 12, bit w 11, bit w 10, bit w 9, bit w 8,
     bit w 7, bit w 6, bit w 5, bit w 4, bit w 3, bit w 2, bit w 1, bit w 0]"
  by (simp add: to_bits_def upto_numeral upt_rec_numeral)

lemma byte_high: "8 \<le> i \<Longrightarrow> \<not> bit (b :: byte) i"
  by (auto dest: bit_imp_le_length)

text \<open>Bytes cut into groups, as bits and as bytes.\<close>

definition bits_of_bytes :: "byte list \<Rightarrow> bool list" where
  "bits_of_bytes bs = concat (map to_bits bs)"

lemma bits_of_bytes_append: "bits_of_bytes (a @ b) = bits_of_bytes a @ bits_of_bytes b"
  by (simp add: bits_of_bytes_def)

lemma length_bits_of_bytes [simp]: "length (bits_of_bytes bs) = 8 * length bs"
  by (induction bs) (simp_all add: bits_of_bytes_def)

lemma chunks_bits:
  assumes "0 < n" "n dvd length bs"
  shows "chunks (8 * n) (bits_of_bytes bs) = map bits_of_bytes (chunks n bs)"
proof -
  note c = concat_chunks[OF assms]
  have "bits_of_bytes (concat xss) = concat (map bits_of_bytes xss)" for xss
    by (induction xss) (simp_all add: bits_of_bytes_append, simp add: bits_of_bytes_def)
  from this[of "chunks n bs"] have "bits_of_bytes bs = concat (map bits_of_bytes (chunks n bs))" using c by simp
  moreover have "chunks (8 * n) (concat (map bits_of_bytes (chunks n bs))) = map bits_of_bytes (chunks n bs)"
    using c assms(1) by (intro chunks_concat) (simp_all add: list_all_iff)
  ultimately show ?thesis by simp
qed

lemma load_bits: "of_bits (bits_of_bytes [a, b, c, d]) =
    or (or (or (push_bit 24 (ucast a)) (push_bit 16 (ucast b))) (push_bit 8 (ucast c))) (ucast d :: u32)" (is "_ = ?w")
proof -
  have "to_bits ?w = bits_of_bytes [a, b, c, d]"
    by (simp add: word_bits byte_bits bits_of_bytes_def bit_or_iff bit_push_bit_iff bit_ucast_iff byte_high)
  then show ?thesis using of_to_bits[of ?w] by simp
qed

lemma chunks_four: "length block = 64 \<Longrightarrow> chunks 4 block = map (\<lambda>i. take 4 (drop (4 * i) block)) [0..<16]"
  by (simp add: upto_16 chunks.simps)

lemma shs_words_load: "length block = 64 \<Longrightarrow> shs_words (bits_of_bytes block) = map (sha_load block) [0..<16]"
proof -
  assume l: "length block = 64"
  have "take 4 (drop (4 * i) block) = [block ! (i * 4), block ! (i * 4 + 1), block ! (i * 4 + 2), block ! (i * 4 + 3)]"
    if "i < 16" for i
    using l that by (intro nth_equalityI) (auto simp: numeral_eq_Suc less_Suc_eq nth_Cons' mult.commute)
  then have "of_bits (bits_of_bytes (take 4 (drop (4 * i) block))) = sha_load block i" if "i < 16" for i
    using that load_bits by (simp add: sha_load_def)
  moreover have "chunks 32 (bits_of_bytes block) = map bits_of_bytes (chunks 4 block)"
    using chunks_bits[of 4 block] l by simp
  ultimately show ?thesis by (simp add: shs_words_def chunks_four[OF l])
qed

lemma output_bits: "map of_bits (chunks 8 (concat (map to_bits st))) = sha_output st"
proof -
  have "to_bits w = bits_of_bytes [ucast (drop_bit 24 w), ucast (drop_bit 16 w), ucast (drop_bit 8 w), ucast w]" for w :: u32
    by (simp add: bits_of_bytes_def byte_bits word_bits bit_ucast_iff bit_drop_bit_eq)
  then have "concat (map to_bits st) = bits_of_bytes (sha_output st)"
    by (induction st) (simp_all add: sha_output_def bits_of_bytes_append, simp_all add: bits_of_bytes_def)
  then have "chunks 8 (concat (map to_bits st)) = map to_bits (sha_output st)"
    using chunks_concat[of 8 "map to_bits (sha_output st)"] by (simp add: bits_of_bytes_def list_all_iff)
  then show ?thesis by (simp add: comp_def)
qed


section \<open>Compression\<close>

lemma rotr_word_rotr: "0 < n \<Longrightarrow> n < 32 \<Longrightarrow> rotr v n = word_rotr n v"
proof (rule bit_word_eqI)
  fix i assume "0 < n" "n < 32" "i < LENGTH(32)"
  then show "bit (rotr v n) i \<longleftrightarrow> bit (word_rotr n v) i"
    using bit_imp_le_length[of v "n + i"]
    by (cases "i + n < 32") (auto simp: rotr_def bit_or_iff bit_drop_bit_eq bit_push_bit_iff bit_word_rotr_iff le_mod_geq add.commute)
qed

lemma extend_step:
  "16 \<le> n \<Longrightarrow> sha_extend (map (shs_W M) [0..<n]) = map (shs_W M) [0..<Suc n]"
  by (simp add: sha_extend_def Let_def rotr_word_rotr lower_sigma0_def lower_sigma1_def add_ac shs_W.simps[of M n])

lemma extend_steps: "(sha_extend ^^ n) (map (shs_W M) [0..<16]) = map (shs_W M) [0..<16 + n]"
  by (induction n) (simp_all add: extend_step del: upt_Suc)

lemma schedule_words:
  assumes "length block = 64"
  shows "sha_schedule block = map (shs_W (shs_words (bits_of_bytes block))) [0..<64]"
proof -
  have "map (sha_load block) [0..<16] = map (shs_W (shs_words (bits_of_bytes block))) [0..<16]"
    by (rule map_cong[OF refl]) (simp add: shs_W.simps shs_words_load[OF assms])
  then show ?thesis using extend_steps[of 48] by (simp only: sha_schedule_def) simp
qed

lemma round_step: "sha_round k w (shs_list v) = shs_list (shs_round k w v)"
  by (cases v rule: shs_list.cases) (simp add: sha_round_def Let_def rotr_word_rotr upper_sigma0_def upper_sigma1_def shs_ch_def shs_maj_def)

lemma rounds_fold:
  assumes "\<And>i. i < n \<Longrightarrow> w ! i = shs_W M i"
  shows "fold (\<lambda>i. sha_round (sha256_K ! i) (w ! i)) [0..<n] (shs_list v) = shs_list (shs_rounds M v n)"
  using assms by (induction n) (simp_all add: round_step shs_K_eq)

lemma add_lists: "map2 (+) (shs_list v) (shs_list u) = shs_list (shs_add u v)"
  by (cases u rule: shs_list.cases; cases v rule: shs_list.cases) (simp add: add.commute)

lemma compress_block:
  assumes "length block = 64"
  shows "sha_compress (shs_list v) block = shs_list (shs_block v (bits_of_bytes block))"
  using rounds_fold[of 64 "sha_schedule block" "shs_words (bits_of_bytes block)" v]
  by (simp add: sha_compress_def Let_def schedule_words[OF assms] add_lists shs_block_def)

lemma initial_list: "shs_list shs_initial = sha256_H"
  by (simp add: shs_initial_def shs_H_eq sha256_H_def)

section \<open>Padding\<close>

lemma length_bits: "to_bits (v :: u64) = bits_of_bytes (be64 v)"
  by (simp add: to_bits_def upto_numeral upt_rec_numeral be64_def bits_of_bytes_def byte_bits bit_ucast_iff bit_drop_bit_eq)

lemma least_padding:
  fixes n :: nat
  shows "(LEAST k. (8 * n + 1 + k) mod 512 = 448) = 8 * ((119 - n mod 64) mod 64) + 7" (is "_ = 8 * ?z + 7")
proof (rule Least_equality)
  have z: "(n + 1 + ?z) mod 64 = 56"
    using zeros_mod[of "Suc n"] by (simp add: zeros_padding)
  have "8 * n + 1 + (8 * ?z + 7) = 8 * (n + 1 + ?z)" by simp
  then show "(8 * n + 1 + (8 * ?z + 7)) mod 512 = 448"
    using mult_mod_right[of 8 "n + 1 + ?z" 64] z by simp
  fix k assume k: "(8 * n + 1 + k) mod 512 = 448"
  then have "(8 * n + 1 + k) mod 512 mod 8 = 0" by simp
  then have "k mod 8 = 7" by (simp add: mod_mod_cancel) presburger
  then obtain j where j: "k = 8 * j + 7" by (metis mult_div_mod_eq)
  have "8 * n + 1 + k = 8 * (n + 1 + j)" using j by simp
  then have "(n + 1 + j) mod 64 = 56" using k mult_mod_right[of 8 "n + 1 + j" 64] by simp
  then have eq: "(n + 1 + ?z) mod 64 = (n + 1 + j) mod 64" using z by (simp only:)
  have "?z \<le> j"
  proof (rule ccontr)
    assume less: "\<not> ?z \<le> j"
    then have "n + 1 + j \<le> n + 1 + ?z" by linarith
    from iffD1[OF mod_eq_dvd_iff_nat[OF this] eq] have "64 dvd (n + 1 + ?z) - (n + 1 + j)" .
    then have "64 dvd ?z - j" by (simp only: add_diff_cancel_left)
    moreover have "0 < ?z - j" using less by (simp only: zero_less_diff not_le)
    ultimately have "64 \<le> ?z - j" by (rule dvd_imp_le)
    moreover have "?z < 64" by (rule mod_less_divisor) simp
    ultimately show False by linarith
  qed
  then show "8 * ?z + 7 \<le> k" using j by simp
qed

lemma zero_bits: "bits_of_bytes (replicate n 0) = replicate (8 * n) False"
  by (induction n) (simp_all add: bits_of_bytes_def byte_bits replicate_add[symmetric] numeral_eq_Suc)

lemma padded_bits: "shs_padded m = bits_of_bytes (m @ sha_padding (length m))"
proof -
  have "replicate (8 * z + 7) False = replicate 7 False @ bits_of_bytes (replicate z 0)" for z
    by (simp add: zero_bits replicate_add[symmetric] add.commute)
  moreover have "bits_of_bytes [0x80] = True # replicate 7 False"
    by (simp add: bits_of_bytes_def byte_bits numeral_eq_Suc)
  moreover have "length (concat (map to_bits m)) = 8 * length m" using length_bits_of_bytes[of m] by (simp add: bits_of_bytes_def)
  moreover have "(LEAST k. (length m * 8 + 1 + k) mod 512 = 448) = (119 - length m mod 64) mod 64 * 8 + 7"
    using least_padding[of "length m"] by (simp only: mult.commute[of 8])
  ultimately show ?thesis
    unfolding shs_padded_def Let_def sha_padding_def bits_of_bytes_append
    by (simp only: length_bits mult.commute[of 8] of_nat_mult of_nat_numeral append.simps append_assoc
        bits_of_bytes_def[symmetric])
qed

section \<open>The whole message\<close>

lemma padded_length: "64 dvd length (m @ sha_padding (length m))"
proof -
  let ?n = "Suc (length m) + zeros (Suc (length m))"
  have "?n = 64 * (?n div 64) + 56" using mult_div_mod_eq[of 64 ?n] zeros_mod[of "Suc (length m)"] by (simp only:)
  then obtain q where "?n = 64 * q + 56" by blast
  moreover have "length (m @ sha_padding (length m)) = ?n + 8" by (simp add: sha_padding_def be64_def zeros_padding)
  ultimately have "length (m @ sha_padding (length m)) = 64 * (q + 1)" by (simp only: add_mult_distrib2)
  then show ?thesis by (rule dvdI)
qed

lemma hash_blocks_chunks:
  "64 dvd length p \<Longrightarrow> fst (hash_blocks (shs_list v) p) = shs_list (foldl shs_block v (map bits_of_bytes (chunks 64 p)))"
proof (induction "length p" arbitrary: p v rule: less_induct)
  case less
  show ?case
  proof (cases "64 \<le> length p")
    case True
    then have "64 dvd length (drop 64 p)" using less.prems by (simp add: dvd_diff_nat)
    from less.hyps[OF _ this] True show ?thesis
      by (subst chunks.simps) (simp add: hash_blocks_long compress_block)
  next
    case False
    then have "p = []" using less.prems by (auto dest: dvd_imp_le)
    then show ?thesis by (simp add: hash_blocks_short)
  qed
qed

lemma padded_hash_is_fips: "padded_hash m = fips_sha256 m"
proof -
  have "chunks 512 (shs_padded m) = map bits_of_bytes (chunks 64 (m @ sha_padding (length m)))"
    using chunks_bits[of 64, OF _ padded_length] by (simp add: padded_bits)
  then show ?thesis
    using hash_blocks_chunks[OF padded_length, of shs_initial m]
    by (simp add: fips_sha256_def padded_hash_def output_bits initial_list)
qed

text \<open>
  C34: the streaming hash is SHA-256 as FIPS 180-4 defines it. However the input is cut into
  pieces, and empty pieces included, the object stops padding and yields the 32 bytes that the standard
  prescribes for the whole message: its padding, its schedule, its rounds, and the constants from the
  roots of the primes. (The standard leaves messages of \<open>2 ^ 64\<close> bits and more undefined; here the
  length is then taken modulo \<open>2 ^ 64\<close> on both sides.)
\<close>

theorem sha256_streaming_reference:
  "sha_finish (foldl sha_update sha_init ds) = Some (fips_sha256 (concat ds)) \<and>
   digest_of_bytes (concat ds) = fips_sha256 (concat ds) \<and>
   length (digest_of_bytes (concat ds)) = 32"
  using finished[OF absorbed_pieces[OF absorbed_init, of ds]] length_digest[of "concat ds"]
  by (simp add: digest_reference padded_hash_is_fips)

end
