(* ===== verification/Primitives.thy ===== *)
theory Primitives
  imports Digest
begin

text \<open>
  The primitives of the model: \<open>model/primitives.hpp\<close>, \<open>model/primitives.cpp\<close>, and
  \<open>core/time.hpp\<close>. Enumerations carry their declared order where a container of the program
  is sorted by it; a struct with a defaulted \<open>operator<=>\<close> is ordered by the tuple of its
  fields. A \<open>Sequence\<close> (generation, epoch, counter) is its 64-bit value, \<open>Nanos\<close> an integer
  and an \<open>Incarnation\<close> its \<open>Uuid\<close>.
\<close>

section \<open>Counters and times\<close>

type_synonym sequence = u64
type_synonym nanos = int
type_synonym incarnation = uuid

definition nanos_per_second :: nanos where "nanos_per_second = 1000000000"

definition sequence_is_zero :: "sequence \<Rightarrow> bool" where
  "sequence_is_zero s \<longleftrightarrow> s = 0"

definition sequence_next :: "sequence \<Rightarrow> sequence result" where
  "sequence_next s = checked_add s 1"

text \<open>\<open>std::to_string(x.value())\<close>\<close>

definition dec_u64 :: "'a::len word \<Rightarrow> string" where
  "dec_u64 w = dec_string (unat w)"

definition incarnation_fresh :: "byte list option \<Rightarrow> incarnation result" where
  "incarnation_fresh entropy = uuid_random entropy"

definition incarnation_parse :: "string \<Rightarrow> incarnation result" where
  "incarnation_parse text = uuid_parse text"

section \<open>Enumerations\<close>

datatype evidence_quality =
    Quality_Real | Quality_Synthetic | Quality_Unknown

primrec quality_to_string :: "evidence_quality \<Rightarrow> string" where
  "quality_to_string Quality_Real = ''REAL''"
| "quality_to_string Quality_Synthetic = ''SYNTHETIC''"
| "quality_to_string Quality_Unknown = ''UNKNOWN''"

primrec evidence_quality_index :: "evidence_quality \<Rightarrow> nat" where
  "evidence_quality_index Quality_Real = 0"
| "evidence_quality_index Quality_Synthetic = 1"
| "evidence_quality_index Quality_Unknown = 2"

lemma evidence_quality_index_inject: "evidence_quality_index a = evidence_quality_index b \<Longrightarrow> a = b"
  by (cases a; cases b) simp_all

instantiation evidence_quality :: linorder
begin

definition less_eq_evidence_quality :: "evidence_quality \<Rightarrow> evidence_quality \<Rightarrow> bool" where
  "less_eq_evidence_quality a b \<longleftrightarrow> evidence_quality_index a \<le> evidence_quality_index b"

definition less_evidence_quality :: "evidence_quality \<Rightarrow> evidence_quality \<Rightarrow> bool" where
  "less_evidence_quality a b \<longleftrightarrow> evidence_quality_index a < evidence_quality_index b"

instance
  by standard (auto simp: less_eq_evidence_quality_def less_evidence_quality_def dest: evidence_quality_index_inject)

end

datatype evidence_class =
    Class_Attested | Class_Observed | Class_Declared | Class_Reconstructed

primrec class_to_string :: "evidence_class \<Rightarrow> string" where
  "class_to_string Class_Attested = ''attested''"
| "class_to_string Class_Observed = ''observed''"
| "class_to_string Class_Declared = ''declared''"
| "class_to_string Class_Reconstructed = ''reconstructed''"

primrec evidence_class_index :: "evidence_class \<Rightarrow> nat" where
  "evidence_class_index Class_Attested = 0"
| "evidence_class_index Class_Observed = 1"
| "evidence_class_index Class_Declared = 2"
| "evidence_class_index Class_Reconstructed = 3"

lemma evidence_class_index_inject: "evidence_class_index a = evidence_class_index b \<Longrightarrow> a = b"
  by (cases a; cases b) simp_all

instantiation evidence_class :: linorder
begin

definition less_eq_evidence_class :: "evidence_class \<Rightarrow> evidence_class \<Rightarrow> bool" where
  "less_eq_evidence_class a b \<longleftrightarrow> evidence_class_index a \<le> evidence_class_index b"

definition less_evidence_class :: "evidence_class \<Rightarrow> evidence_class \<Rightarrow> bool" where
  "less_evidence_class a b \<longleftrightarrow> evidence_class_index a < evidence_class_index b"

instance
  by standard (auto simp: less_eq_evidence_class_def less_evidence_class_def dest: evidence_class_index_inject)

end

datatype health_state =
    Health_Ok | Health_Impaired | Health_Critical | Health_Unknown

primrec health_to_string :: "health_state \<Rightarrow> string" where
  "health_to_string Health_Ok = ''ok''"
| "health_to_string Health_Impaired = ''impaired''"
| "health_to_string Health_Critical = ''critical''"
| "health_to_string Health_Unknown = ''unknown''"

datatype admin_state =
    Admin_Enabled | Admin_Disabled | Admin_Maintenance | Admin_Draining

primrec admin_to_string :: "admin_state \<Rightarrow> string" where
  "admin_to_string Admin_Enabled = ''enabled''"
| "admin_to_string Admin_Disabled = ''disabled''"
| "admin_to_string Admin_Maintenance = ''maintenance''"
| "admin_to_string Admin_Draining = ''draining''"

datatype operational_state =
    Oper_Up | Oper_Degraded | Oper_Down | Oper_Unknown

primrec oper_to_string :: "operational_state \<Rightarrow> string" where
  "oper_to_string Oper_Up = ''up''"
| "oper_to_string Oper_Degraded = ''degraded''"
| "oper_to_string Oper_Down = ''down''"
| "oper_to_string Oper_Unknown = ''unknown''"

datatype membership_state =
    Membership_Joining | Membership_Established | Membership_Leaving | Membership_Fenced
  | Membership_Retired

primrec membership_to_string :: "membership_state \<Rightarrow> string" where
  "membership_to_string Membership_Joining = ''joining''"
| "membership_to_string Membership_Established = ''established''"
| "membership_to_string Membership_Leaving = ''leaving''"
| "membership_to_string Membership_Fenced = ''fenced''"
| "membership_to_string Membership_Retired = ''retired''"

datatype authority_scope =
    Scope_Pod | Scope_Member | Scope_Link | Scope_CapacityReservation | Scope_MaintenanceWindow

primrec scope_to_string :: "authority_scope \<Rightarrow> string" where
  "scope_to_string Scope_Pod = ''pod''"
| "scope_to_string Scope_Member = ''member''"
| "scope_to_string Scope_Link = ''link''"
| "scope_to_string Scope_CapacityReservation = ''capacity-reservation''"
| "scope_to_string Scope_MaintenanceWindow = ''maintenance-window''"

datatype authority_verdict_code =
    Verdict_Valid | Verdict_NoToken | Verdict_Malformed | Verdict_WrongPod | Verdict_WrongScope
  | Verdict_StaleEpoch | Verdict_StaleIncarnation | Verdict_Expired | Verdict_NotYetValid
  | Verdict_Revoked | Verdict_ClockAnomaly

primrec verdict_code_to_string :: "authority_verdict_code \<Rightarrow> string" where
  "verdict_code_to_string Verdict_Valid = ''VALID''"
| "verdict_code_to_string Verdict_NoToken = ''NO_TOKEN''"
| "verdict_code_to_string Verdict_Malformed = ''MALFORMED''"
| "verdict_code_to_string Verdict_WrongPod = ''WRONG_POD''"
| "verdict_code_to_string Verdict_WrongScope = ''WRONG_SCOPE''"
| "verdict_code_to_string Verdict_StaleEpoch = ''STALE_EPOCH''"
| "verdict_code_to_string Verdict_StaleIncarnation = ''STALE_INCARNATION''"
| "verdict_code_to_string Verdict_Expired = ''EXPIRED''"
| "verdict_code_to_string Verdict_NotYetValid = ''NOT_YET_VALID''"
| "verdict_code_to_string Verdict_Revoked = ''REVOKED''"
| "verdict_code_to_string Verdict_ClockAnomaly = ''CLOCK_ANOMALY''"

datatype reason_code =
    Reason_EvidenceMissing | Reason_EvidenceStale | Reason_EvidenceFromFuture
  | Reason_GenerationMismatch | Reason_GenerationRegression | Reason_DigestMismatch
  | Reason_SchemaUnsupported | Reason_DuplicateIdentity | Reason_DomainMembershipConflict
  | Reason_DomainOverlap | Reason_LinkDown | Reason_LinkAdminDown | Reason_LinkUnderCapacity
  | Reason_LinkConflicting | Reason_RouteWithdrawn | Reason_RouteStale
  | Reason_RoutePathMismatch | Reason_CapacityOvercommit | Reason_CapacityConflict
  | Reason_CapacityIncomplete | Reason_CapacityDeduplicated | Reason_ObligationUnmet
  | Reason_ObligationMargin | Reason_DomainDiversityUnmet | Reason_MemberFenced
  | Reason_MemberDisabled | Reason_MemberMaintenance | Reason_MemberDraining
  | Reason_MemberRetiring | Reason_MemberUnhealthy | Reason_TokenInvalid | Reason_TokenExpired
  | Reason_IncarnationChanged | Reason_EpochAdvanced | Reason_PolicyBoundExceeded
  | Reason_RecoveredHistorical | Reason_AmbiguousCommit | Reason_JournalTruncated
  | Reason_NoUsablePath | Reason_ClusterRoutingUnavailable

primrec reason_code_to_string :: "reason_code \<Rightarrow> string" where
  "reason_code_to_string Reason_EvidenceMissing = ''evidence-missing''"
| "reason_code_to_string Reason_EvidenceStale = ''evidence-stale''"
| "reason_code_to_string Reason_EvidenceFromFuture = ''evidence-from-future''"
| "reason_code_to_string Reason_GenerationMismatch = ''generation-mismatch''"
| "reason_code_to_string Reason_GenerationRegression = ''generation-regression''"
| "reason_code_to_string Reason_DigestMismatch = ''digest-mismatch''"
| "reason_code_to_string Reason_SchemaUnsupported = ''schema-unsupported''"
| "reason_code_to_string Reason_DuplicateIdentity = ''duplicate-identity''"
| "reason_code_to_string Reason_DomainMembershipConflict = ''domain-membership-conflict''"
| "reason_code_to_string Reason_DomainOverlap = ''domain-overlap''"
| "reason_code_to_string Reason_LinkDown = ''link-down''"
| "reason_code_to_string Reason_LinkAdminDown = ''link-admin-down''"
| "reason_code_to_string Reason_LinkUnderCapacity = ''link-under-capacity''"
| "reason_code_to_string Reason_LinkConflicting = ''link-conflicting''"
| "reason_code_to_string Reason_RouteWithdrawn = ''route-withdrawn''"
| "reason_code_to_string Reason_RouteStale = ''route-stale''"
| "reason_code_to_string Reason_RoutePathMismatch = ''route-path-mismatch''"
| "reason_code_to_string Reason_CapacityOvercommit = ''capacity-overcommit''"
| "reason_code_to_string Reason_CapacityConflict = ''capacity-conflict''"
| "reason_code_to_string Reason_CapacityIncomplete = ''capacity-incomplete''"
| "reason_code_to_string Reason_CapacityDeduplicated = ''capacity-deduplicated''"
| "reason_code_to_string Reason_ObligationUnmet = ''obligation-unmet''"
| "reason_code_to_string Reason_ObligationMargin = ''obligation-margin''"
| "reason_code_to_string Reason_DomainDiversityUnmet = ''domain-diversity-unmet''"
| "reason_code_to_string Reason_MemberFenced = ''member-fenced''"
| "reason_code_to_string Reason_MemberDisabled = ''member-admin-disabled''"
| "reason_code_to_string Reason_MemberMaintenance = ''member-maintenance''"
| "reason_code_to_string Reason_MemberDraining = ''member-draining''"
| "reason_code_to_string Reason_MemberRetiring = ''member-retiring''"
| "reason_code_to_string Reason_MemberUnhealthy = ''member-unhealthy''"
| "reason_code_to_string Reason_TokenInvalid = ''token-invalid''"
| "reason_code_to_string Reason_TokenExpired = ''token-expired''"
| "reason_code_to_string Reason_IncarnationChanged = ''incarnation-changed''"
| "reason_code_to_string Reason_EpochAdvanced = ''epoch-advanced''"
| "reason_code_to_string Reason_PolicyBoundExceeded = ''policy-bound-exceeded''"
| "reason_code_to_string Reason_RecoveredHistorical = ''recovered-historical''"
| "reason_code_to_string Reason_AmbiguousCommit = ''ambiguous-commit''"
| "reason_code_to_string Reason_JournalTruncated = ''journal-truncated''"
| "reason_code_to_string Reason_NoUsablePath = ''no-usable-path''"
| "reason_code_to_string Reason_ClusterRoutingUnavailable = ''cluster-routing-unavailable''"

primrec reason_code_index :: "reason_code \<Rightarrow> nat" where
  "reason_code_index Reason_EvidenceMissing = 0"
| "reason_code_index Reason_EvidenceStale = 1"
| "reason_code_index Reason_EvidenceFromFuture = 2"
| "reason_code_index Reason_GenerationMismatch = 3"
| "reason_code_index Reason_GenerationRegression = 4"
| "reason_code_index Reason_DigestMismatch = 5"
| "reason_code_index Reason_SchemaUnsupported = 6"
| "reason_code_index Reason_DuplicateIdentity = 7"
| "reason_code_index Reason_DomainMembershipConflict = 8"
| "reason_code_index Reason_DomainOverlap = 9"
| "reason_code_index Reason_LinkDown = 10"
| "reason_code_index Reason_LinkAdminDown = 11"
| "reason_code_index Reason_LinkUnderCapacity = 12"
| "reason_code_index Reason_LinkConflicting = 13"
| "reason_code_index Reason_RouteWithdrawn = 14"
| "reason_code_index Reason_RouteStale = 15"
| "reason_code_index Reason_RoutePathMismatch = 16"
| "reason_code_index Reason_CapacityOvercommit = 17"
| "reason_code_index Reason_CapacityConflict = 18"
| "reason_code_index Reason_CapacityIncomplete = 19"
| "reason_code_index Reason_CapacityDeduplicated = 20"
| "reason_code_index Reason_ObligationUnmet = 21"
| "reason_code_index Reason_ObligationMargin = 22"
| "reason_code_index Reason_DomainDiversityUnmet = 23"
| "reason_code_index Reason_MemberFenced = 24"
| "reason_code_index Reason_MemberDisabled = 25"
| "reason_code_index Reason_MemberMaintenance = 26"
| "reason_code_index Reason_MemberDraining = 27"
| "reason_code_index Reason_MemberRetiring = 28"
| "reason_code_index Reason_MemberUnhealthy = 29"
| "reason_code_index Reason_TokenInvalid = 30"
| "reason_code_index Reason_TokenExpired = 31"
| "reason_code_index Reason_IncarnationChanged = 32"
| "reason_code_index Reason_EpochAdvanced = 33"
| "reason_code_index Reason_PolicyBoundExceeded = 34"
| "reason_code_index Reason_RecoveredHistorical = 35"
| "reason_code_index Reason_AmbiguousCommit = 36"
| "reason_code_index Reason_JournalTruncated = 37"
| "reason_code_index Reason_NoUsablePath = 38"
| "reason_code_index Reason_ClusterRoutingUnavailable = 39"

lemma reason_code_index_inject: "reason_code_index a = reason_code_index b \<Longrightarrow> a = b"
  by (cases a; cases b) simp_all

instantiation reason_code :: linorder
begin

definition less_eq_reason_code :: "reason_code \<Rightarrow> reason_code \<Rightarrow> bool" where
  "less_eq_reason_code a b \<longleftrightarrow> reason_code_index a \<le> reason_code_index b"

definition less_reason_code :: "reason_code \<Rightarrow> reason_code \<Rightarrow> bool" where
  "less_reason_code a b \<longleftrightarrow> reason_code_index a < reason_code_index b"

instance
  by standard (auto simp: less_eq_reason_code_def less_reason_code_def dest: reason_code_index_inject)

end

section \<open>Structures\<close>

record provenance =
  pv_quality :: evidence_quality
  pv_class :: evidence_class
  pv_source :: ident
  pv_sequence :: u64
  pv_detail :: string

definition provenance_default :: provenance where
  "provenance_default =
     \<lparr>pv_quality = Quality_Unknown, pv_class = Class_Declared, pv_source = [], pv_sequence = 0,
      pv_detail = []\<rparr>"

definition provenance_key :: "'a provenance_scheme \<Rightarrow> evidence_quality \<times> evidence_class \<times> ident \<times> u64 \<times> string \<times> 'a" where
  "provenance_key x = (pv_quality x, pv_class x, pv_source x, pv_sequence x, pv_detail x, provenance.more x)"

lemma provenance_key_inject: "provenance_key a = provenance_key b \<Longrightarrow> a = b"
  by (cases a; cases b) (simp add: provenance_key_def)

instantiation provenance_ext :: (linorder) linorder
begin

definition less_eq_provenance_ext :: "'a provenance_ext \<Rightarrow> 'a provenance_ext \<Rightarrow> bool" where
  "less_eq_provenance_ext a b \<longleftrightarrow> provenance_key a \<le> provenance_key b"

definition less_provenance_ext :: "'a provenance_ext \<Rightarrow> 'a provenance_ext \<Rightarrow> bool" where
  "less_provenance_ext a b \<longleftrightarrow> provenance_key a < provenance_key b"

instance
  by standard (auto simp: less_eq_provenance_ext_def less_provenance_ext_def dest: provenance_key_inject)

end

record authority_token =
  at_lease :: ident
  at_pod :: ident
  at_epoch :: sequence
  at_incarnation :: incarnation
  at_scope :: authority_scope
  at_subject :: ident
  at_issued_at :: nanos
  at_expires_at :: nanos
  at_fencing :: sequence
  at_payload_digest :: digest

record authority_verdict =
  av_code :: authority_verdict_code
  av_status :: code
  av_detail :: string

definition verdict_valid :: "authority_verdict \<Rightarrow> bool" where
  "verdict_valid v \<longleftrightarrow> av_code v = Verdict_Valid"

record reason =
  rs_code :: reason_code
  rs_detail :: string

definition mk_reason :: "reason_code \<Rightarrow> string \<Rightarrow> reason" where
  "mk_reason c d = \<lparr>rs_code = c, rs_detail = d\<rparr>"

definition reason_key :: "'a reason_scheme \<Rightarrow> reason_code \<times> string \<times> 'a" where
  "reason_key x = (rs_code x, rs_detail x, reason.more x)"

lemma reason_key_inject: "reason_key a = reason_key b \<Longrightarrow> a = b"
  by (cases a; cases b) (simp add: reason_key_def)

instantiation reason_ext :: (linorder) linorder
begin

definition less_eq_reason_ext :: "'a reason_ext \<Rightarrow> 'a reason_ext \<Rightarrow> bool" where
  "less_eq_reason_ext a b \<longleftrightarrow> reason_key a \<le> reason_key b"

definition less_reason_ext :: "'a reason_ext \<Rightarrow> 'a reason_ext \<Rightarrow> bool" where
  "less_reason_ext a b \<longleftrightarrow> reason_key a < reason_key b"

instance
  by standard (auto simp: less_eq_reason_ext_def less_reason_ext_def dest: reason_key_inject)

end

lemma mk_reason_simps [simp]:
  "rs_code (mk_reason c d) = c"
  "rs_detail (mk_reason c d) = d"
  by (simp_all add: mk_reason_def)

lemma mk_reason_eq [simp]: "mk_reason c d = mk_reason c' d' \<longleftrightarrow> c = c' \<and> d = d'"
  by (auto simp: mk_reason_def)

definition render_reason :: "reason \<Rightarrow> string" where
  "render_reason r =
     reason_code_to_string (rs_code r) @ (if rs_detail r \<noteq> [] then '': '' @ rs_detail r else [])"

definition render_provenance :: "provenance \<Rightarrow> string" where
  "render_provenance p =
     quality_to_string (pv_quality p) @ ''/'' @ class_to_string (pv_class p) @
     (if \<not> is_nil (pv_source p) then '' from '' @ pv_source p else []) @
     (if pv_detail p \<noteq> [] then '' ('' @ pv_detail p @ '')'' else [])"

end
