(* ===== verification/Bytes.thy ===== *)
theory Bytes
  imports Digest
begin

text \<open>
  Bounded byte documents: \<open>core/bytes.hpp\<close>, \<open>core/bytes.cpp\<close>. The writer and the reader
  are objects with a state, so every operation takes the object and returns its outcome with
  the object it leaves behind, also when it fails. The contract of the two is in \<open>Wire\<close>.
\<close>

section \<open>Stateful operations\<close>

type_synonym ('a, 's) op = "'s \<Rightarrow> 'a result \<times> 's"

definition op_return :: "'a \<Rightarrow> ('a, 's) op" where
  "op_return x s = (Inr x, s)"

definition op_fail :: "code \<Rightarrow> string \<Rightarrow> ('a, 's) op" where
  "op_fail c m s = (fail c m, s)"

definition op_bind :: "('a, 's) op \<Rightarrow> ('a \<Rightarrow> ('b, 's) op) \<Rightarrow> ('b, 's) op" where
  "op_bind m f s = (case m s of (Inl e, t) \<Rightarrow> (Inl e, t) | (Inr x, t) \<Rightarrow> f x t)"

abbreviation op_then :: "(unit, 's) op \<Rightarrow> ('b, 's) op \<Rightarrow> ('b, 's) op" where
  "op_then m k \<equiv> op_bind m (\<lambda>_. k)"

definition op_guard :: "bool \<Rightarrow> code \<Rightarrow> string \<Rightarrow> (unit, 's) op" where
  "op_guard c k m = (if c then op_fail k m else op_return ())"

section \<open>UTF-8 validation\<close>

text \<open>Number of continuation bytes, payload bits of the lead byte, smallest code point.\<close>

definition utf8_lead :: "byte \<Rightarrow> (nat \<times> u32 \<times> u32) option" where
  "utf8_lead c =
     (if and c 0xE0 = 0xC0 then Some (1, ucast (and c 0x1F), 0x80)
      else if and c 0xF0 = 0xE0 then Some (2, ucast (and c 0x0F), 0x800)
      else if and c 0xF8 = 0xF0 then Some (3, ucast (and c 0x07), 0x10000)
      else None)"

fun utf8_tail :: "nat \<Rightarrow> u32 \<Rightarrow> byte list \<Rightarrow> u32 option" where
  "utf8_tail 0 cp bs = Some cp"
| "utf8_tail (Suc k) cp [] = None"
| "utf8_tail (Suc k) cp (cc # bs) =
     (if and cc 0xC0 \<noteq> 0x80 then None
      else utf8_tail k (or (push_bit 6 cp) (ucast (and cc 0x3F))) bs)"

function utf8_valid :: "byte list \<Rightarrow> bool" where
  "utf8_valid [] = True"
| "utf8_valid (c # bs) =
     (if c < 0x80 then utf8_valid bs
      else case utf8_lead c of
             None \<Rightarrow> False
           | Some (extra, cp, lowest) \<Rightarrow>
               if length bs < extra then False
               else case utf8_tail extra cp bs of
                      None \<Rightarrow> False
                    | Some v \<Rightarrow>
                        if v < lowest then False
                        else if v > 0x10FFFF then False
                        else if v \<ge> 0xD800 \<and> v \<le> 0xDFFF then False
                        else utf8_valid (drop extra bs))"
  by pat_completeness auto
termination by (relation "measure length") auto

definition is_valid_utf8 :: "string \<Rightarrow> bool" where
  "is_valid_utf8 s \<longleftrightarrow> utf8_valid (bytes_of_string s)"

definition string_of_bytes :: "byte list \<Rightarrow> string" where
  "string_of_bytes bs = map (\<lambda>b. char_of (unat b)) bs"

section \<open>The writer\<close>

record codec_limits =
  cl_max_document_bytes :: nat
  cl_max_string_bytes :: nat
  cl_max_blob_bytes :: nat
  cl_max_sequence_items :: nat

definition default_limits :: codec_limits where
  "default_limits =
     \<lparr>cl_max_document_bytes = 16 * 1024 * 1024, cl_max_string_bytes = 4096,
      cl_max_blob_bytes = 1024 * 1024, cl_max_sequence_items = 2 ^ 20\<rparr>"

record byte_writer =
  bw_buffer :: "byte list"
  bw_limit :: nat
  bw_overflowed :: bool

definition writer_new :: "nat \<Rightarrow> byte_writer" where
  "writer_new limit = \<lparr>bw_buffer = [], bw_limit = limit, bw_overflowed = False\<rparr>"

text \<open>\<open>reserve(extra)\<close> grows the buffer by zero bytes, which the caller overwrites.\<close>

definition writer_reserve :: "nat \<Rightarrow> (unit, byte_writer) op" where
  "writer_reserve extra w =
     (let room = bw_limit w - min (bw_limit w) (length (bw_buffer w)) in
      if extra > room
      then (fail Code_Exhausted ''encoded document exceeds the configured byte limit'',
            w\<lparr>bw_overflowed := True\<rparr>)
      else (success, w\<lparr>bw_buffer := bw_buffer w @ replicate extra 0\<rparr>))"

text \<open>Every \<open>put\<close> reserves the extent of its bytes and stores them from the old end.\<close>

definition writer_store :: "nat \<Rightarrow> byte list \<Rightarrow> (unit, byte_writer) op" where
  "writer_store at bs w = (success, w\<lparr>bw_buffer := take at (bw_buffer w) @ bs\<rparr>)"

definition put_bytes :: "byte list \<Rightarrow> (unit, byte_writer) op" where
  "put_bytes bs w =
     (let at = length (bw_buffer w)
      in op_then (writer_reserve (length bs)) (writer_store at bs) w)"

definition put_u8 :: "u8 \<Rightarrow> (unit, byte_writer) op" where
  "put_u8 v = put_bytes [v]"

definition be16 :: "u16 \<Rightarrow> byte list" where
  "be16 v = [ucast (and (drop_bit 8 v) 0xFF), ucast (and v 0xFF)]"

definition put_u16 :: "u16 \<Rightarrow> (unit, byte_writer) op" where
  "put_u16 v = put_bytes (be16 v)"

definition be32 :: "u32 \<Rightarrow> byte list" where
  "be32 v = map (\<lambda>i. ucast (and (drop_bit (24 - 8 * i) v) 0xFF)) [0..<4]"

definition put_u32 :: "u32 \<Rightarrow> (unit, byte_writer) op" where
  "put_u32 v = put_bytes (be32 v)"

definition put_u64 :: "u64 \<Rightarrow> (unit, byte_writer) op" where
  "put_u64 v = put_bytes (be64 v)"

definition put_i64 :: "int \<Rightarrow> (unit, byte_writer) op" where
  "put_i64 v = put_u64 (word_of_int v)"

definition put_bool :: "bool \<Rightarrow> (unit, byte_writer) op" where
  "put_bool v = put_u8 (if v then 1 else 0)"

definition put_raw :: "byte list \<Rightarrow> (unit, byte_writer) op" where
  "put_raw data = put_bytes data"

definition put_string :: "string \<Rightarrow> (unit, byte_writer) op" where
  "put_string text =
     op_then (op_guard (\<not> is_valid_utf8 text) Code_Invalid ''string field is not valid UTF-8'')
     (op_then (op_guard (length text > cl_max_string_bytes default_limits) Code_Exhausted
                 ''string field exceeds the maximum length'')
     (op_then (put_u32 (of_nat (length text)))
              (put_raw (bytes_of_string text))))"

definition put_text :: "string \<Rightarrow> (unit, byte_writer) op" where
  "put_text text =
     op_then (op_guard (\<not> is_valid_utf8 text) Code_Invalid ''text field is not valid UTF-8'')
     (op_then (op_guard (length text > cl_max_blob_bytes default_limits) Code_Exhausted
                 ''text field exceeds the maximum length'')
     (op_then (put_u32 (of_nat (length text)))
              (put_raw (bytes_of_string text))))"

definition put_blob :: "byte list \<Rightarrow> (unit, byte_writer) op" where
  "put_blob data =
     op_then (op_guard (length data > cl_max_blob_bytes default_limits) Code_Exhausted
                 ''blob exceeds the maximum length'')
     (op_then (put_u32 (of_nat (length data))) (put_raw data))"

definition put_count :: "u32 \<Rightarrow> (unit, byte_writer) op" where
  "put_count n = put_u32 n"

section \<open>The reader\<close>

record byte_reader =
  br_data :: "byte list"
  br_limits :: codec_limits
  br_cursor :: nat

definition reader_new :: "byte list \<Rightarrow> codec_limits \<Rightarrow> byte_reader" where
  "reader_new data limits = \<lparr>br_data = data, br_limits = limits, br_cursor = 0\<rparr>"

definition reader_remaining :: "byte_reader \<Rightarrow> nat" where
  "reader_remaining r = length (br_data r) - br_cursor r"

definition reader_at_end :: "byte_reader \<Rightarrow> bool" where
  "reader_at_end r \<longleftrightarrow> br_cursor r = length (br_data r)"

text \<open>The fixed-width reads test the extent, then fold the bytes into the value.\<close>

definition reader_take :: "nat \<Rightarrow> code \<Rightarrow> string \<Rightarrow> (byte list, byte_reader) op" where
  "reader_take n c m r =
     (if reader_remaining r < n then (fail c m, r)
      else (Inr (take n (drop (br_cursor r) (br_data r))), r\<lparr>br_cursor := br_cursor r + n\<rparr>))"

definition from_be :: "byte list \<Rightarrow> 'a::len word" where
  "from_be bs = fold (\<lambda>b v. or (push_bit 8 v) (ucast b)) bs 0"

definition get_u8 :: "(u8, byte_reader) op" where
  "get_u8 =
     op_bind (reader_take 1 Code_Incomplete ''truncated document: expected one byte'')
       (\<lambda>bs. op_return (bs ! 0))"

definition get_u16 :: "(u16, byte_reader) op" where
  "get_u16 =
     op_bind (reader_take 2 Code_Incomplete ''truncated document: expected two bytes'')
       (\<lambda>bs. op_return (from_be bs))"

definition get_u32 :: "(u32, byte_reader) op" where
  "get_u32 =
     op_bind (reader_take 4 Code_Incomplete ''truncated document: expected four bytes'')
       (\<lambda>bs. op_return (from_be bs))"

definition get_u64 :: "(u64, byte_reader) op" where
  "get_u64 =
     op_bind (reader_take 8 Code_Incomplete ''truncated document: expected eight bytes'')
       (\<lambda>bs. op_return (from_be bs))"

definition get_i64 :: "(int, byte_reader) op" where
  "get_i64 = op_bind get_u64 (\<lambda>raw. op_return (sint raw))"

definition get_bool :: "(bool, byte_reader) op" where
  "get_bool =
     op_bind get_u8 (\<lambda>raw.
     op_then (op_guard (raw > 1) Code_Invalid ''boolean field is neither 0 nor 1'')
             (op_return (raw = 1)))"

definition get_raw :: "nat \<Rightarrow> (byte list, byte_reader) op" where
  "get_raw n = reader_take n Code_Incomplete ''truncated document: field extents exceed the buffer''"

definition get_string :: "(string, byte_reader) op" where
  "get_string =
     op_bind get_u32 (\<lambda>len r.
     op_then (op_guard (unat len > cl_max_string_bytes (br_limits r)) Code_Invalid
                ''string field declares an oversized length'')
     (op_bind (get_raw (unat len)) (\<lambda>view.
        let text = string_of_bytes view in
        op_then (op_guard (\<not> is_valid_utf8 text) Code_Invalid ''string field is not valid UTF-8'')
                (op_return text))) r)"

definition get_text :: "(string, byte_reader) op" where
  "get_text =
     op_bind get_u32 (\<lambda>len r.
     op_then (op_guard (unat len > cl_max_blob_bytes (br_limits r)) Code_Invalid
                ''text field declares an oversized length'')
     (op_bind (get_raw (unat len)) (\<lambda>view.
        let text = string_of_bytes view in
        op_then (op_guard (\<not> is_valid_utf8 text) Code_Invalid ''text field is not valid UTF-8'')
                (op_return text))) r)"

definition get_blob :: "(byte list, byte_reader) op" where
  "get_blob =
     op_bind get_u32 (\<lambda>len r.
     op_then (op_guard (unat len > cl_max_blob_bytes (br_limits r)) Code_Invalid
                ''blob declares an oversized length'')
     (get_raw (unat len)) r)"

definition get_count :: "u32 \<Rightarrow> nat \<Rightarrow> (u32, byte_reader) op" where
  "get_count max_items min_item_bytes =
     op_bind get_u32 (\<lambda>declared r.
     op_then (op_guard (declared > max_items \<or>
                        unat declared > cl_max_sequence_items (br_limits r)) Code_Invalid
                ''sequence declares more items than the configured bound'')
     (op_then (op_guard (ucast declared * of_nat (if min_item_bytes = 0 then 1 else min_item_bytes) >
                         (of_nat (reader_remaining r) :: u64)) Code_Invalid
                ''sequence declares more items than the remaining bytes allow'')
     (op_return declared)) r)"

definition reader_expect_end :: "byte_reader \<Rightarrow> unit result" where
  "reader_expect_end r =
     reject_if (\<not> reader_at_end r) Code_Invalid ''trailing bytes after the end of the document''"

end
