(* ===== verification/Model.thy ===== *)
theory Model
  imports Primitives Bytes
begin

text \<open>
  The evidence the composition consumes: \<open>model/capacity.hpp\<close>, \<open>model/member.hpp\<close>,
  \<open>model/topology.hpp\<close>, \<open>model/obligation.hpp\<close> and \<open>model/policy.hpp\<close> with their sources.
  One record per struct, fields in declaration order.
\<close>

section \<open>Capacity\<close>

record capacity_claim =
  cc_resource :: ident
  cc_exclusivity :: ident
  cc_amount :: u64
  cc_reserved :: u64
  cc_domain :: ident
  cc_provenance :: provenance

datatype capacity_status =
    Cap_Ok | Cap_Deduplicated | Cap_Conflicting | Cap_Incomplete | Cap_Indeterminate
  | Cap_Exhausted | Cap_Unsupported

primrec capacity_status_to_string :: "capacity_status \<Rightarrow> string" where
  "capacity_status_to_string Cap_Ok = ''OK''"
| "capacity_status_to_string Cap_Deduplicated = ''DEDUPLICATED''"
| "capacity_status_to_string Cap_Conflicting = ''CONFLICTING''"
| "capacity_status_to_string Cap_Incomplete = ''INCOMPLETE''"
| "capacity_status_to_string Cap_Indeterminate = ''INDETERMINATE''"
| "capacity_status_to_string Cap_Exhausted = ''EXHAUSTED''"
| "capacity_status_to_string Cap_Unsupported = ''UNSUPPORTED''"

record capacity_contribution =
  ct_owner :: ident
  ct_via_link :: ident
  ct_exclusivity :: ident
  ct_amount :: u64
  ct_reserved :: u64
  ct_domain :: ident
  ct_provenance :: provenance
  ct_counted :: bool
  ct_not_counted_reason :: reason

definition contribution_key :: "'a capacity_contribution_scheme \<Rightarrow> ident \<times> ident \<times> ident \<times> u64 \<times> u64 \<times> ident \<times> provenance \<times> bool \<times> reason \<times> 'a" where
  "contribution_key x = (ct_owner x, ct_via_link x, ct_exclusivity x, ct_amount x, ct_reserved x, ct_domain x, ct_provenance x, ct_counted x, ct_not_counted_reason x, capacity_contribution.more x)"

lemma contribution_key_inject: "contribution_key a = contribution_key b \<Longrightarrow> a = b"
  by (cases a; cases b) (simp add: contribution_key_def)

instantiation capacity_contribution_ext :: (linorder) linorder
begin

definition less_eq_capacity_contribution_ext :: "'a capacity_contribution_ext \<Rightarrow> 'a capacity_contribution_ext \<Rightarrow> bool" where
  "less_eq_capacity_contribution_ext a b \<longleftrightarrow> contribution_key a \<le> contribution_key b"

definition less_capacity_contribution_ext :: "'a capacity_contribution_ext \<Rightarrow> 'a capacity_contribution_ext \<Rightarrow> bool" where
  "less_capacity_contribution_ext a b \<longleftrightarrow> contribution_key a < contribution_key b"

instance
  by standard (auto simp: less_eq_capacity_contribution_ext_def less_capacity_contribution_ext_def dest: contribution_key_inject)

end

record capacity_aggregate =
  ca_resource :: ident
  ca_domain :: ident
  ca_total :: u64
  ca_reserved :: u64
  ca_headroom :: u64
  ca_status :: capacity_status
  ca_contributions :: "capacity_contribution list"
  ca_reasons :: "reason list"

definition capacity_aggregate_default :: capacity_aggregate where
  "capacity_aggregate_default =
     \<lparr>ca_resource = [], ca_domain = [], ca_total = 0, ca_reserved = 0, ca_headroom = 0,
      ca_status = Cap_Ok, ca_contributions = [], ca_reasons = []\<rparr>"

record capacity_requirement =
  cr_resource :: ident
  cr_minimum :: u64
  cr_margin_percent :: u32

section \<open>Members\<close>

record member_record =
  mr_rack :: ident
  mr_generation :: sequence
  mr_digest :: digest
  mr_rnf_schema :: string
  mr_membership :: membership_state
  mr_admin :: admin_state
  mr_health :: health_state
  mr_failure_domains :: "ident list"
  mr_capacity :: "capacity_claim list"
  mr_ports :: "ident list"
  mr_provenance :: provenance
  mr_observed_at :: nanos

record member_expectation =
  me_rack :: ident
  me_generation :: sequence
  me_digest :: digest
  me_membership :: membership_state

section \<open>Topology\<close>

record link_endpoint =
  le_rack :: ident
  le_port :: ident

record link_record =
  lk_id :: ident
  lk_a :: link_endpoint
  lk_b :: link_endpoint
  lk_domain :: ident
  lk_resource :: ident
  lk_capacity :: u64
  lk_admin :: admin_state
  lk_oper :: operational_state
  lk_a_generation :: sequence
  lk_b_generation :: sequence
  lk_route :: ident
  lk_provenance :: provenance
  lk_observed_at :: nanos

datatype route_state =
    Route_Installed | Route_Pending | Route_Withdrawn | Route_Failed | Route_Unknown

primrec route_state_to_string :: "route_state \<Rightarrow> string" where
  "route_state_to_string Route_Installed = ''installed''"
| "route_state_to_string Route_Pending = ''pending''"
| "route_state_to_string Route_Withdrawn = ''withdrawn''"
| "route_state_to_string Route_Failed = ''failed''"
| "route_state_to_string Route_Unknown = ''unknown''"

record route_evidence =
  rt_ref :: ident
  rt_generation :: sequence
  rt_authority_digest :: digest
  rt_path :: "ident list"
  rt_path_generations :: "sequence list"
  rt_resource :: ident
  rt_committed_capacity :: u64
  rt_state :: route_state
  rt_provenance :: provenance
  rt_observed_at :: nanos

datatype domain_kind =
    Kind_Rack | Kind_Power | Kind_SwitchPlane | Kind_Row | Kind_Site | Kind_Unknown

primrec domain_kind_to_string :: "domain_kind \<Rightarrow> string" where
  "domain_kind_to_string Kind_Rack = ''rack''"
| "domain_kind_to_string Kind_Power = ''power''"
| "domain_kind_to_string Kind_SwitchPlane = ''switch-plane''"
| "domain_kind_to_string Kind_Row = ''row''"
| "domain_kind_to_string Kind_Site = ''site''"
| "domain_kind_to_string Kind_Unknown = ''unknown''"

primrec domain_kind_index :: "domain_kind \<Rightarrow> nat" where
  "domain_kind_index Kind_Rack = 0"
| "domain_kind_index Kind_Power = 1"
| "domain_kind_index Kind_SwitchPlane = 2"
| "domain_kind_index Kind_Row = 3"
| "domain_kind_index Kind_Site = 4"
| "domain_kind_index Kind_Unknown = 5"

lemma domain_kind_index_inject: "domain_kind_index a = domain_kind_index b \<Longrightarrow> a = b"
  by (cases a; cases b) simp_all

instantiation domain_kind :: linorder
begin

definition less_eq_domain_kind :: "domain_kind \<Rightarrow> domain_kind \<Rightarrow> bool" where
  "less_eq_domain_kind a b \<longleftrightarrow> domain_kind_index a \<le> domain_kind_index b"

definition less_domain_kind :: "domain_kind \<Rightarrow> domain_kind \<Rightarrow> bool" where
  "less_domain_kind a b \<longleftrightarrow> domain_kind_index a < domain_kind_index b"

instance
  by standard (auto simp: less_eq_domain_kind_def less_domain_kind_def dest: domain_kind_index_inject)

end

record failure_domain_record =
  fd_id :: ident
  fd_kind :: domain_kind
  fd_members :: "ident list"
  fd_description :: string
  fd_provenance :: provenance

section \<open>Obligations\<close>

datatype obligation_kind =
    Obl_ProtectedPath | Obl_CapacityFloor | Obl_DomainDiversity | Obl_MaintenanceWindow

primrec obligation_kind_to_string :: "obligation_kind \<Rightarrow> string" where
  "obligation_kind_to_string Obl_ProtectedPath = ''protected-path''"
| "obligation_kind_to_string Obl_CapacityFloor = ''capacity-floor''"
| "obligation_kind_to_string Obl_DomainDiversity = ''domain-diversity''"
| "obligation_kind_to_string Obl_MaintenanceWindow = ''maintenance-window''"

record obligation =
  ob_id :: ident
  ob_kind :: obligation_kind
  ob_tenant :: ident
  ob_description :: string
  ob_protected_racks :: "ident list"
  ob_required_domains :: u32
  ob_diversity_kind :: domain_kind
  ob_requirements :: "capacity_requirement list"
  ob_mandatory :: bool
  ob_provenance :: provenance

section \<open>Policy\<close>

record policy =
  po_max_members :: u32
  po_max_links :: u32
  po_max_routes :: u32
  po_max_domains :: u32
  po_max_obligations :: u32
  po_max_capacity_claims :: u32
  po_max_ports_per_member :: u32
  po_max_capacity_amount :: u64
  po_max_capacity_total :: u64
  po_evidence_ttl :: nanos
  po_clock_skew :: nanos
  po_min_established_members :: u32
  po_require_full_coverage :: bool
  po_require_attested_join :: bool
  po_require_authority_token :: bool
  po_default_diversity_kind :: string
  po_supported_rnf_schemas :: "string list"
  po_default_margin_percent :: u32
  po_max_journal_record_bytes :: u64
  po_max_journal_bytes :: u64
  po_max_recovered_members :: u32

definition policy_default :: policy where
  "policy_default =
     \<lparr>po_max_members = 4096, po_max_links = 65536, po_max_routes = 65536, po_max_domains = 4096,
      po_max_obligations = 4096, po_max_capacity_claims = 262144, po_max_ports_per_member = 4096,
      po_max_capacity_amount = 2 ^ 48, po_max_capacity_total = 2 ^ 56,
      po_evidence_ttl = 30 * nanos_per_second, po_clock_skew = 5 * nanos_per_second,
      po_min_established_members = 1, po_require_full_coverage = False,
      po_require_attested_join = True, po_require_authority_token = False,
      po_default_diversity_kind = ''power'', po_supported_rnf_schemas = [''rnf.descriptor/1''],
      po_default_margin_percent = 0, po_max_journal_record_bytes = 1024 * 1024,
      po_max_journal_bytes = 64 * 1024 * 1024, po_max_recovered_members = 65536\<rparr>"

definition validate_policy :: "policy \<Rightarrow> unit result" where
  "validate_policy p =
     try_then (reject_if (po_max_capacity_claims p > 2 ^ 24) Code_Invalid
       ''policy: max_capacity_claims is unreasonably large'')
    (try_then (reject_if (po_max_capacity_amount p = 0) Code_Invalid
       ''policy: max_capacity_amount must be positive'')
    (try_then (reject_if (po_max_capacity_total p < po_max_capacity_amount p) Code_Invalid
       ''policy: max_capacity_total must not be smaller than max_capacity_amount'')
    (try_then (reject_if (po_evidence_ttl p < 0) Code_Invalid
       ''policy: evidence_ttl must not be negative'')
    (try_then (reject_if (po_clock_skew p < 0) Code_Invalid
       ''policy: clock_skew must not be negative'')
    (try_then (reject_if (po_max_journal_record_bytes p < 64) Code_Invalid
       ''policy: max_journal_record_bytes is too small'')
    (try_then (reject_if (po_max_journal_bytes p < po_max_journal_record_bytes p) Code_Invalid
       ''policy: max_journal_bytes must cover at least one record'')
    (reject_if (po_supported_rnf_schemas p = []) Code_Invalid
       ''policy: at least one Rack Network Fabric schema must be accepted'')))))))"

lemma validate_policy_Inr [result_simps]:
  "validate_policy p = Inr u \<longleftrightarrow>
     po_max_capacity_claims p \<le> 2 ^ 24 \<and> po_max_capacity_amount p \<noteq> 0 \<and>
     po_max_capacity_amount p \<le> po_max_capacity_total p \<and> 0 \<le> po_evidence_ttl p \<and>
     0 \<le> po_clock_skew p \<and> 64 \<le> po_max_journal_record_bytes p \<and>
     po_max_journal_record_bytes p \<le> po_max_journal_bytes p \<and> po_supported_rnf_schemas p \<noteq> []"
  by (auto simp: validate_policy_def result_simps not_less)

end
