(* ===== verification/Pod_State.thy ===== *)
theory Pod_State
  imports Model
begin

text \<open>
  The composed document: \<open>model/pod_state.hpp\<close>, \<open>model/pod_state.cpp\<close>. Verdicts, decisions,
  fence actions, the lifecycle with its legal transitions, the canonical form of a document
  and the binary searches over it.
\<close>

section \<open>Lifecycle\<close>

datatype lifecycle_state =
    Life_Constructing | Life_Active | Life_Degraded | Life_Partitioned | Life_Recovering
  | Life_Maintenance | Life_Draining | Life_Retired

primrec lifecycle_to_string :: "lifecycle_state \<Rightarrow> string" where
  "lifecycle_to_string Life_Constructing = ''constructing''"
| "lifecycle_to_string Life_Active = ''active''"
| "lifecycle_to_string Life_Degraded = ''degraded''"
| "lifecycle_to_string Life_Partitioned = ''partitioned''"
| "lifecycle_to_string Life_Recovering = ''recovering''"
| "lifecycle_to_string Life_Maintenance = ''maintenance''"
| "lifecycle_to_string Life_Draining = ''draining''"
| "lifecycle_to_string Life_Retired = ''retired''"

definition legal :: "lifecycle_state \<Rightarrow> lifecycle_state \<Rightarrow> bool" where
  "legal from to \<longleftrightarrow>
     (if from = to then True
      else case from of
        Life_Constructing \<Rightarrow>
          to = Life_Active \<or> to = Life_Degraded \<or> to = Life_Partitioned \<or> to = Life_Recovering \<or>
          to = Life_Maintenance \<or> to = Life_Draining \<or> to = Life_Retired
      | Life_Active \<Rightarrow>
          to = Life_Degraded \<or> to = Life_Partitioned \<or> to = Life_Recovering \<or>
          to = Life_Maintenance \<or> to = Life_Draining \<or> to = Life_Retired
      | Life_Degraded \<Rightarrow>
          to = Life_Active \<or> to = Life_Partitioned \<or> to = Life_Recovering \<or>
          to = Life_Maintenance \<or> to = Life_Draining \<or> to = Life_Retired
      | Life_Partitioned \<Rightarrow> to = Life_Recovering \<or> to = Life_Retired
      | Life_Recovering \<Rightarrow>
          to = Life_Active \<or> to = Life_Degraded \<or> to = Life_Partitioned \<or> to = Life_Retired
      | Life_Maintenance \<Rightarrow>
          to = Life_Active \<or> to = Life_Degraded \<or> to = Life_Partitioned \<or>
          to = Life_Recovering \<or> to = Life_Retired
      | Life_Draining \<Rightarrow>
          to = Life_Active \<or> to = Life_Degraded \<or> to = Life_Partitioned \<or>
          to = Life_Recovering \<or> to = Life_Maintenance \<or> to = Life_Retired
      | Life_Retired \<Rightarrow> False)"

definition is_legal_transition :: "lifecycle_state \<Rightarrow> lifecycle_state \<Rightarrow> bool" where
  "is_legal_transition from to = legal from to"

definition next_lifecycle :: "lifecycle_state \<Rightarrow> lifecycle_state \<Rightarrow> lifecycle_state" where
  "next_lifecycle current desired =
     (if current = Life_Retired then Life_Retired
      else if legal current desired then desired
      else if current = Life_Partitioned \<and> (desired = Life_Active \<or> desired = Life_Degraded)
      then Life_Recovering
      else if desired = Life_Active \<or> desired = Life_Degraded
      then (if current = Life_Recovering then desired else Life_Partitioned)
      else if desired = Life_Recovering then Life_Partitioned
      else current)"

section \<open>Verdicts\<close>

datatype member_status =
    Mem_Established | Mem_Joining | Mem_Stale | Mem_Fenced | Mem_Conflicting | Mem_Retiring
  | Mem_Unsupported | Mem_Missing

primrec member_status_to_string :: "member_status \<Rightarrow> string" where
  "member_status_to_string Mem_Established = ''established''"
| "member_status_to_string Mem_Joining = ''joining''"
| "member_status_to_string Mem_Stale = ''stale''"
| "member_status_to_string Mem_Fenced = ''fenced''"
| "member_status_to_string Mem_Conflicting = ''conflicting''"
| "member_status_to_string Mem_Retiring = ''retiring''"
| "member_status_to_string Mem_Unsupported = ''unsupported''"
| "member_status_to_string Mem_Missing = ''missing''"

datatype link_status =
    Link_Usable | Link_Degraded | Link_Blocked | Link_Conflicting | Link_Stale
  | Link_Indeterminate | Link_Unsupported

primrec link_status_to_string :: "link_status \<Rightarrow> string" where
  "link_status_to_string Link_Usable = ''usable''"
| "link_status_to_string Link_Degraded = ''degraded''"
| "link_status_to_string Link_Blocked = ''blocked''"
| "link_status_to_string Link_Conflicting = ''conflicting''"
| "link_status_to_string Link_Stale = ''stale''"
| "link_status_to_string Link_Indeterminate = ''indeterminate''"
| "link_status_to_string Link_Unsupported = ''unsupported''"

datatype obligation_status =
    Obs_Satisfied | Obs_AtRisk | Obs_Violated | Obs_Indeterminate | Obs_Unsupported

primrec obligation_status_to_string :: "obligation_status \<Rightarrow> string" where
  "obligation_status_to_string Obs_Satisfied = ''satisfied''"
| "obligation_status_to_string Obs_AtRisk = ''at-risk''"
| "obligation_status_to_string Obs_Violated = ''violated''"
| "obligation_status_to_string Obs_Indeterminate = ''indeterminate''"
| "obligation_status_to_string Obs_Unsupported = ''unsupported''"

datatype domain_status =
    Dom_Ok | Dom_Degraded | Dom_Conflicting | Dom_Incomplete | Dom_Indeterminate

primrec domain_status_to_string :: "domain_status \<Rightarrow> string" where
  "domain_status_to_string Dom_Ok = ''ok''"
| "domain_status_to_string Dom_Degraded = ''degraded''"
| "domain_status_to_string Dom_Conflicting = ''conflicting''"
| "domain_status_to_string Dom_Incomplete = ''incomplete''"
| "domain_status_to_string Dom_Indeterminate = ''indeterminate''"

record member_verdict =
  mv_rack :: ident
  mv_status :: member_status
  mv_generation :: sequence
  mv_digest :: digest
  mv_membership :: membership_state
  mv_admin :: admin_state
  mv_health :: health_state
  mv_domains :: "ident list"
  mv_reasons :: "reason list"

definition member_verdict_default :: member_verdict where
  "member_verdict_default =
     \<lparr>mv_rack = [], mv_status = Mem_Missing, mv_generation = 0, mv_digest = digest_zero,
      mv_membership = Membership_Joining, mv_admin = Admin_Enabled, mv_health = Health_Unknown,
      mv_domains = [], mv_reasons = []\<rparr>"

record connectivity_verdict =
  cv_from :: ident
  cv_to :: ident
  cv_status :: link_status
  cv_resource :: ident
  cv_usable_capacity :: u64
  cv_links :: "ident list"
  cv_routes :: "ident list"
  cv_reasons :: "reason list"

definition connectivity_verdict_default :: connectivity_verdict where
  "connectivity_verdict_default =
     \<lparr>cv_from = [], cv_to = [], cv_status = Link_Indeterminate, cv_resource = [],
      cv_usable_capacity = 0, cv_links = [], cv_routes = [], cv_reasons = []\<rparr>"

record domain_verdict =
  dv_id :: ident
  dv_kind :: domain_kind
  dv_status :: domain_status
  dv_declared_members :: "ident list"
  dv_effective_members :: "ident list"
  dv_reasons :: "reason list"

record obligation_verdict =
  ov_id :: ident
  ov_kind :: obligation_kind
  ov_status :: obligation_status
  ov_satisfied_domains :: u32
  ov_reasons :: "reason list"

section \<open>Decisions and fences\<close>

datatype decision_kind =
    Dec_PodLifecycle | Dec_MemberState | Dec_Connectivity | Dec_DomainState
  | Dec_CapacityAggregate | Dec_DomainCapacity | Dec_ObligationState | Dec_PodAuthority

primrec decision_kind_to_string :: "decision_kind \<Rightarrow> string" where
  "decision_kind_to_string Dec_PodLifecycle = ''lifecycle''"
| "decision_kind_to_string Dec_MemberState = ''member''"
| "decision_kind_to_string Dec_Connectivity = ''connectivity''"
| "decision_kind_to_string Dec_DomainState = ''domain''"
| "decision_kind_to_string Dec_CapacityAggregate = ''capacity''"
| "decision_kind_to_string Dec_DomainCapacity = ''domain-capacity''"
| "decision_kind_to_string Dec_ObligationState = ''obligation''"
| "decision_kind_to_string Dec_PodAuthority = ''authority''"

datatype dep_kind =
    Dep_Member | Dep_Link | Dep_Route | Dep_Domain | Dep_Obligation | Dep_Token | Dep_Epoch
  | Dep_Incarnation | Dep_Decision | Dep_Lifecycle

primrec dep_kind_to_string :: "dep_kind \<Rightarrow> string" where
  "dep_kind_to_string Dep_Member = ''member''"
| "dep_kind_to_string Dep_Link = ''link''"
| "dep_kind_to_string Dep_Route = ''route''"
| "dep_kind_to_string Dep_Domain = ''domain''"
| "dep_kind_to_string Dep_Obligation = ''obligation''"
| "dep_kind_to_string Dep_Token = ''token''"
| "dep_kind_to_string Dep_Epoch = ''epoch''"
| "dep_kind_to_string Dep_Incarnation = ''incarnation''"
| "dep_kind_to_string Dep_Decision = ''decision''"
| "dep_kind_to_string Dep_Lifecycle = ''lifecycle''"

primrec dep_kind_index :: "dep_kind \<Rightarrow> nat" where
  "dep_kind_index Dep_Member = 0"
| "dep_kind_index Dep_Link = 1"
| "dep_kind_index Dep_Route = 2"
| "dep_kind_index Dep_Domain = 3"
| "dep_kind_index Dep_Obligation = 4"
| "dep_kind_index Dep_Token = 5"
| "dep_kind_index Dep_Epoch = 6"
| "dep_kind_index Dep_Incarnation = 7"
| "dep_kind_index Dep_Decision = 8"
| "dep_kind_index Dep_Lifecycle = 9"

lemma dep_kind_index_inject: "dep_kind_index a = dep_kind_index b \<Longrightarrow> a = b"
  by (cases a; cases b) simp_all

instantiation dep_kind :: linorder
begin

definition less_eq_dep_kind :: "dep_kind \<Rightarrow> dep_kind \<Rightarrow> bool" where
  "less_eq_dep_kind a b \<longleftrightarrow> dep_kind_index a \<le> dep_kind_index b"

definition less_dep_kind :: "dep_kind \<Rightarrow> dep_kind \<Rightarrow> bool" where
  "less_dep_kind a b \<longleftrightarrow> dep_kind_index a < dep_kind_index b"

instance
  by standard (auto simp: less_eq_dep_kind_def less_dep_kind_def dest: dep_kind_index_inject)

end

record dep_key =
  dk_kind :: dep_kind
  dk_subject :: string

definition dep_key_key :: "'a dep_key_scheme \<Rightarrow> dep_kind \<times> string \<times> 'a" where
  "dep_key_key x = (dk_kind x, dk_subject x, dep_key.more x)"

lemma dep_key_key_inject: "dep_key_key a = dep_key_key b \<Longrightarrow> a = b"
  by (cases a; cases b) (simp add: dep_key_key_def)

instantiation dep_key_ext :: (linorder) linorder
begin

definition less_eq_dep_key_ext :: "'a dep_key_ext \<Rightarrow> 'a dep_key_ext \<Rightarrow> bool" where
  "less_eq_dep_key_ext a b \<longleftrightarrow> dep_key_key a \<le> dep_key_key b"

definition less_dep_key_ext :: "'a dep_key_ext \<Rightarrow> 'a dep_key_ext \<Rightarrow> bool" where
  "less_dep_key_ext a b \<longleftrightarrow> dep_key_key a < dep_key_key b"

instance
  by standard (auto simp: less_eq_dep_key_ext_def less_dep_key_ext_def dest: dep_key_key_inject)

end

definition mk_dep :: "dep_kind \<Rightarrow> string \<Rightarrow> dep_key" where
  "mk_dep k s = \<lparr>dk_kind = k, dk_subject = s\<rparr>"

lemma mk_dep_simps [simp]:
  "dk_kind (mk_dep k s) = k"
  "dk_subject (mk_dep k s) = s"
  by (simp_all add: mk_dep_def)

lemma mk_dep_eq [simp]: "mk_dep k s = mk_dep k' s' \<longleftrightarrow> k = k' \<and> s = s'"
  by (auto simp: mk_dep_def)

record decision_record =
  dr_id :: ident
  dr_kind :: decision_kind
  dr_status :: code
  dr_deps :: "dep_key list"
  dr_fingerprint :: digest
  dr_reasons :: "reason list"

datatype fence_kind =
    Fence_Member | Fence_Link | Fence_Route | Fence_Token | Fence_Capacity | Fence_Pod

primrec fence_kind_to_string :: "fence_kind \<Rightarrow> string" where
  "fence_kind_to_string Fence_Member = ''member''"
| "fence_kind_to_string Fence_Link = ''link''"
| "fence_kind_to_string Fence_Route = ''route''"
| "fence_kind_to_string Fence_Token = ''token''"
| "fence_kind_to_string Fence_Capacity = ''capacity''"
| "fence_kind_to_string Fence_Pod = ''pod''"

primrec fence_kind_index :: "fence_kind \<Rightarrow> nat" where
  "fence_kind_index Fence_Member = 0"
| "fence_kind_index Fence_Link = 1"
| "fence_kind_index Fence_Route = 2"
| "fence_kind_index Fence_Token = 3"
| "fence_kind_index Fence_Capacity = 4"
| "fence_kind_index Fence_Pod = 5"

lemma fence_kind_index_inject: "fence_kind_index a = fence_kind_index b \<Longrightarrow> a = b"
  by (cases a; cases b) simp_all

instantiation fence_kind :: linorder
begin

definition less_eq_fence_kind :: "fence_kind \<Rightarrow> fence_kind \<Rightarrow> bool" where
  "less_eq_fence_kind a b \<longleftrightarrow> fence_kind_index a \<le> fence_kind_index b"

definition less_fence_kind :: "fence_kind \<Rightarrow> fence_kind \<Rightarrow> bool" where
  "less_fence_kind a b \<longleftrightarrow> fence_kind_index a < fence_kind_index b"

instance
  by standard (auto simp: less_eq_fence_kind_def less_fence_kind_def dest: fence_kind_index_inject)

end

record fence_action =
  fa_kind :: fence_kind
  fa_subject :: string
  fa_reason :: reason

definition fence_action_key :: "'a fence_action_scheme \<Rightarrow> fence_kind \<times> string \<times> reason \<times> 'a" where
  "fence_action_key x = (fa_kind x, fa_subject x, fa_reason x, fence_action.more x)"

lemma fence_action_key_inject: "fence_action_key a = fence_action_key b \<Longrightarrow> a = b"
  by (cases a; cases b) (simp add: fence_action_key_def)

instantiation fence_action_ext :: (linorder) linorder
begin

definition less_eq_fence_action_ext :: "'a fence_action_ext \<Rightarrow> 'a fence_action_ext \<Rightarrow> bool" where
  "less_eq_fence_action_ext a b \<longleftrightarrow> fence_action_key a \<le> fence_action_key b"

definition less_fence_action_ext :: "'a fence_action_ext \<Rightarrow> 'a fence_action_ext \<Rightarrow> bool" where
  "less_fence_action_ext a b \<longleftrightarrow> fence_action_key a < fence_action_key b"

instance
  by standard (auto simp: less_eq_fence_action_ext_def less_fence_action_ext_def dest: fence_action_key_inject)

end

record pod_authority =
  pa_status :: code
  pa_epoch :: sequence
  pa_incarnation :: incarnation
  pa_established_members :: u32
  pa_fenced_members :: u32
  pa_conflicting_members :: u32
  pa_stale_members :: u32
  pa_recovered :: bool
  pa_reasons :: "reason list"

definition authoritative :: "pod_authority \<Rightarrow> bool" where
  "authoritative a \<longleftrightarrow> pa_status a = Code_Ok"

record pod_state =
  ps_pod :: ident
  ps_schema :: string
  ps_epoch :: sequence
  ps_incarnation :: incarnation
  ps_lifecycle :: lifecycle_state
  ps_members :: "member_verdict list"
  ps_connectivity :: "connectivity_verdict list"
  ps_capacity :: "capacity_aggregate list"
  ps_domain_capacity :: "capacity_aggregate list"
  ps_domains :: "domain_verdict list"
  ps_obligations :: "obligation_verdict list"
  ps_decisions :: "decision_record list"
  ps_authority :: pod_authority
  ps_fences :: "fence_action list"
  ps_degradations :: "reason list"
  ps_state_digest :: digest
  ps_decision_digest :: digest
  ps_composed_at :: nanos
  ps_provenance :: provenance

definition pod_state_schema :: string where "pod_state_schema = ''podfabric.podstate/1''"

section \<open>Decision identities\<close>

definition id_char_ok :: "char \<Rightarrow> bool" where
  "id_char_ok c \<longleftrightarrow>
     (CHR ''a'' \<le> c \<and> c \<le> CHR ''z'') \<or> (CHR ''0'' \<le> c \<and> c \<le> CHR ''9'') \<or> c = CHR ''.'' \<or>
     c = CHR ''-'' \<or> c = CHR ''_'' \<or> c = CHR '':''"

definition make_decision_id :: "decision_kind \<Rightarrow> string \<Rightarrow> ident" where
  "make_decision_id kind subject =
     (let token = map (\<lambda>c. if id_char_ok c then c else CHR ''_'')
                    (decision_kind_to_string kind @ ''.'' @ subject)
      in case id_parse token of Inr i \<Rightarrow> i | Inl _ \<Rightarrow> ''decision.invalid'')"

section \<open>Canonical documents\<close>

definition canonicalise_member_verdict :: "member_verdict \<Rightarrow> member_verdict" where
  "canonicalise_member_verdict m =
     m\<lparr>mv_domains := canonicalise (mv_domains m), mv_reasons := canonicalise (mv_reasons m)\<rparr>"

definition canonicalise_connectivity_verdict :: "connectivity_verdict \<Rightarrow> connectivity_verdict" where
  "canonicalise_connectivity_verdict c =
     c\<lparr>cv_links := sort (cv_links c), cv_routes := sort (cv_routes c),
       cv_reasons := canonicalise (cv_reasons c)\<rparr>"

definition canonicalise_aggregate :: "capacity_aggregate \<Rightarrow> capacity_aggregate" where
  "canonicalise_aggregate c =
     c\<lparr>ca_contributions := sort (ca_contributions c), ca_reasons := canonicalise (ca_reasons c)\<rparr>"

definition canonicalise_domain_verdict :: "domain_verdict \<Rightarrow> domain_verdict" where
  "canonicalise_domain_verdict d =
     d\<lparr>dv_declared_members := sort (dv_declared_members d),
       dv_effective_members := sort (dv_effective_members d),
       dv_reasons := canonicalise (dv_reasons d)\<rparr>"

definition canonicalise_obligation_verdict :: "obligation_verdict \<Rightarrow> obligation_verdict" where
  "canonicalise_obligation_verdict v = v\<lparr>ov_reasons := canonicalise (ov_reasons v)\<rparr>"

definition canonicalise_decision :: "decision_record \<Rightarrow> decision_record" where
  "canonicalise_decision d =
     d\<lparr>dr_deps := remdups_adj (sort (dr_deps d)), dr_reasons := canonicalise (dr_reasons d)\<rparr>"

text \<open>\<open>std::sort\<close> with a comparator on a key orders elements with equal keys arbitrarily; the
  stable order of \<open>sort_key\<close> is one of the permitted results.\<close>

definition canonicalise_state :: "pod_state \<Rightarrow> pod_state" where
  "canonicalise_state s =
     s\<lparr>ps_members := map canonicalise_member_verdict (sort_key mv_rack (ps_members s)),
       ps_connectivity := map canonicalise_connectivity_verdict
         (sort_key (\<lambda>c. (cv_from c, cv_to c)) (ps_connectivity s)),
       ps_capacity := map canonicalise_aggregate (sort_key ca_resource (ps_capacity s)),
       ps_domain_capacity := map canonicalise_aggregate
         (sort_key (\<lambda>c. (ca_resource c, ca_domain c)) (ps_domain_capacity s)),
       ps_domains := map canonicalise_domain_verdict (sort_key dv_id (ps_domains s)),
       ps_obligations := map canonicalise_obligation_verdict (sort_key ov_id (ps_obligations s)),
       ps_decisions := map canonicalise_decision (sort_key dr_id (ps_decisions s)),
       ps_fences := sort (ps_fences s),
       ps_degradations := canonicalise (ps_degradations s)\<rparr>"

section \<open>Lookup by binary search\<close>

text \<open>\<open>std::lower_bound\<close> by halving a range that starts at \<open>first\<close> and has \<open>len\<close> elements.\<close>

function lower_bound :: "('a \<Rightarrow> 'k::linorder) \<Rightarrow> 'a list \<Rightarrow> 'k \<Rightarrow> nat \<Rightarrow> nat \<Rightarrow> nat" where
  "lower_bound key xs k first len =
     (if len = 0 then first
      else let half = len div 2; mid = first + half in
        if key (xs ! mid) < k then lower_bound key xs k (mid + 1) (len - half - 1)
        else lower_bound key xs k first half)"
  by pat_completeness auto
termination by (relation "measure (\<lambda>(key, xs, k, first, len). len)") auto

declare lower_bound.simps [simp del]

definition find_sorted :: "('a \<Rightarrow> 'k::linorder) \<Rightarrow> 'a list \<Rightarrow> 'k \<Rightarrow> 'a option" where
  "find_sorted key xs k =
     (let i = lower_bound key xs k 0 (length xs)
      in if i = length xs \<or> key (xs ! i) \<noteq> k then None else Some (xs ! i))"

definition binary_search :: "'a::linorder list \<Rightarrow> 'a \<Rightarrow> bool" where
  "binary_search xs x =
     (let i = lower_bound (\<lambda>y. y) xs x 0 (length xs)
      in i \<noteq> length xs \<and> \<not> x < xs ! i)"

definition find_member :: "pod_state \<Rightarrow> ident \<Rightarrow> member_verdict option" where
  "find_member s = find_sorted mv_rack (ps_members s)"

definition find_domain :: "pod_state \<Rightarrow> ident \<Rightarrow> domain_verdict option" where
  "find_domain s = find_sorted dv_id (ps_domains s)"

definition find_capacity :: "pod_state \<Rightarrow> ident \<Rightarrow> capacity_aggregate option" where
  "find_capacity s = find_sorted ca_resource (ps_capacity s)"

definition find_decision :: "pod_state \<Rightarrow> ident \<Rightarrow> decision_record option" where
  "find_decision s = find_sorted dr_id (ps_decisions s)"

section \<open>Binary search finds the first match of a sorted vector\<close>

definition lb_split :: "('a \<Rightarrow> 'k::linorder) \<Rightarrow> 'a list \<Rightarrow> 'k \<Rightarrow> nat \<Rightarrow> nat \<Rightarrow> bool" where
  "lb_split key xs k lo hi \<longleftrightarrow>
     hi \<le> length xs \<and> (\<forall>i < lo. key (xs ! i) < k) \<and>
     (\<forall>i. hi \<le> i \<and> i < length xs \<longrightarrow> k \<le> key (xs ! i))"

lemma lb_split_low:
  assumes "sorted (map key xs)" "lb_split key xs k lo hi" "mid < hi" "key (xs ! mid) < k"
  shows "lb_split key xs k (mid + 1) hi"
proof -
  have "key (xs ! i) < k" if "i < mid + 1" for i
  proof -
    have "key (xs ! i) \<le> key (xs ! mid)"
      using assms that sorted_nth_mono[of "map key xs" i mid] by (auto simp: lb_split_def)
    with assms show ?thesis by simp
  qed
  with assms show ?thesis by (auto simp: lb_split_def)
qed

lemma lb_split_high:
  assumes "sorted (map key xs)" "lb_split key xs k lo hi" "mid < hi" "\<not> key (xs ! mid) < k"
  shows "lb_split key xs k lo mid"
proof -
  have "k \<le> key (xs ! i)" if "mid \<le> i" "i < length xs" for i
  proof -
    have "key (xs ! mid) \<le> key (xs ! i)"
      using assms that sorted_nth_mono[of "map key xs" mid i] by auto
    with assms show ?thesis by simp
  qed
  with assms show ?thesis by (auto simp: lb_split_def)
qed

lemma lower_bound_split:
  "sorted (map key xs) \<Longrightarrow> lb_split key xs k first (first + len) \<Longrightarrow>
   lb_split key xs k (lower_bound key xs k first len) (lower_bound key xs k first len)"
proof (induction key xs k first len rule: lower_bound.induct)
  case (1 key xs k first len)
  show ?case
  proof (cases "len = 0")
    case True
    with "1.prems" show ?thesis by (simp add: lower_bound.simps[of key xs k first 0])
  next
    case False
    let ?mid = "first + len div 2"
    have m: "?mid < first + len" using False by simp
    show ?thesis
    proof (cases "key (xs ! ?mid) < k")
      case less: True
      have e: "lower_bound key xs k first len =
          lower_bound key xs k (?mid + 1) (len - len div 2 - 1)"
        using False less by (simp add: lower_bound.simps[of key xs k first len] Let_def)
      have eq: "?mid + 1 + (len - len div 2 - 1) = first + len" using False by simp
      have "lb_split key xs k (?mid + 1) (?mid + 1 + (len - len div 2 - 1))"
        unfolding eq by (rule lb_split_low[OF "1.prems" m less])
      then show ?thesis unfolding e
        by (rule "1.IH"(1)[OF False refl refl less "1.prems"(1)])
    next
      case ge: False
      have e: "lower_bound key xs k first len = lower_bound key xs k first (len div 2)"
        using False ge by (simp add: lower_bound.simps[of key xs k first len] Let_def)
      show ?thesis unfolding e
        by (rule "1.IH"(2)[OF False refl refl ge "1.prems"(1)
              lb_split_high[OF "1.prems" m ge]])
    qed
  qed
qed

lemma lower_bound_all:
  assumes "sorted (map key xs)"
  shows "lb_split key xs k (lower_bound key xs k 0 (length xs)) (lower_bound key xs k 0 (length xs))"
  using assms by (rule lower_bound_split) (auto simp: lb_split_def)

lemma lb_split_find:
  assumes "sorted (map key xs)" "lb_split key xs k i i"
  shows "find (\<lambda>x. key x = k) xs = (if i < length xs \<and> key (xs ! i) = k then Some (xs ! i) else None)"
proof (cases "i < length xs \<and> key (xs ! i) = k")
  case True
  moreover have "\<forall>j < i. key (xs ! j) \<noteq> k"
    using assms(2) by (auto simp: lb_split_def)
  ultimately show ?thesis by (auto simp: find_Some_iff)
next
  case False
  have "key (xs ! j) \<noteq> k" if j: "j < length xs" for j
  proof (cases "j < i")
    case True
    with assms(2) show ?thesis by (auto simp: lb_split_def)
  next
    case ge: False
    then have "key (xs ! i) \<le> key (xs ! j)" "k \<le> key (xs ! i)"
      using assms j sorted_nth_mono[of "map key xs" i j] by (auto simp: lb_split_def)
    with False ge j show ?thesis by auto
  qed
  with False show ?thesis by (auto simp: find_None_iff in_set_conv_nth)
qed

lemma find_sorted_find:
  assumes "sorted (map key xs)"
  shows "find_sorted key xs k = find (\<lambda>x. key x = k) xs"
  using lb_split_find[OF assms lower_bound_all[OF assms, of k]] lower_bound_all[OF assms, of k]
  by (auto simp: find_sorted_def Let_def lb_split_def)

lemma binary_search_mem: "sorted xs \<Longrightarrow> binary_search xs x \<longleftrightarrow> x \<in> set xs"
proof -
  assume "sorted xs"
  then have s: "sorted (map (\<lambda>y. y) xs)" by simp
  let ?i = "lower_bound (\<lambda>y. y) xs x 0 (length xs)"
  have l: "lb_split (\<lambda>y. y) xs x ?i ?i" by (rule lower_bound_all[OF s])
  then have "?i < length xs \<Longrightarrow> x \<le> xs ! ?i" by (simp add: lb_split_def)
  then have "binary_search xs x \<longleftrightarrow> ?i < length xs \<and> xs ! ?i = x"
    using l by (auto simp: binary_search_def Let_def lb_split_def)
  also have "\<dots> \<longleftrightarrow> find (\<lambda>y. y = x) xs \<noteq> None"
    by (simp add: lb_split_find[OF s l])
  also have "\<dots> \<longleftrightarrow> x \<in> set xs" by (auto simp: find_None_iff)
  finally show ?thesis .
qed

section \<open>The lifecycle machine\<close>

lemma legal_next: "legal c (next_lifecycle c d)"
  by (cases c; cases d) (simp_all add: next_lifecycle_def legal_def)

text \<open>The lifecycles of successive rounds, each round proposing a desired state.\<close>

fun lifecycle_run :: "lifecycle_state \<Rightarrow> lifecycle_state list \<Rightarrow> lifecycle_state list" where
  "lifecycle_run c [] = [c]"
| "lifecycle_run c (d # ds) = c # lifecycle_run (next_lifecycle c d) ds"

lemma lifecycle_run_retired: "set (lifecycle_run Life_Retired ds) = {Life_Retired}"
  by (induction ds) (simp_all add: next_lifecycle_def)

lemma lifecycle_run_ne [simp]: "lifecycle_run c ds \<noteq> []"
  by (cases ds) simp_all

lemma next_partitioned:
  "next_lifecycle Life_Partitioned d \<in> {Life_Partitioned, Life_Recovering, Life_Retired}"
  by (cases d) (simp_all add: next_lifecycle_def legal_def)

lemma lifecycle_run_partitioned:
  "last (lifecycle_run Life_Partitioned ds) \<notin> {Life_Partitioned, Life_Retired} \<Longrightarrow>
   Life_Recovering \<in> set (lifecycle_run Life_Partitioned ds)"
proof (induction ds)
  case (Cons d ds)
  consider "next_lifecycle Life_Partitioned d = Life_Partitioned"
    | "next_lifecycle Life_Partitioned d = Life_Recovering"
    | "next_lifecycle Life_Partitioned d = Life_Retired"
    using next_partitioned[of d] by auto
  then show ?case
  proof cases
    case 1
    with Cons show ?thesis by simp
  next
    case 2
    then show ?thesis by (cases ds) simp_all
  next
    case 3
    have "last (lifecycle_run Life_Retired ds) \<in> set (lifecycle_run Life_Retired ds)"
      by (rule last_in_set) simp
    with 3 Cons show ?thesis by (simp add: lifecycle_run_retired)
  qed
qed simp

text \<open>
  The lifecycle machine over any sequence of rounds. Every round makes a legal transition
  (so an illegal request is never applied), a legal request of a live pod is applied as it is, a
  retired pod stays retired for ever, and a pod that was partitioned has been Recovering before
  it is in any other live state again.
\<close>

theorem lifecycle_machine:
  "is_legal_transition c (next_lifecycle c d) \<and>
   (c \<noteq> Life_Retired \<and> is_legal_transition c d \<longrightarrow> next_lifecycle c d = d) \<and>
   set (lifecycle_run Life_Retired ds) = {Life_Retired} \<and>
   (last (lifecycle_run Life_Partitioned ds) \<notin> {Life_Partitioned, Life_Retired} \<longrightarrow>
    Life_Recovering \<in> set (lifecycle_run Life_Partitioned ds))"
  using legal_next lifecycle_run_retired lifecycle_run_partitioned
  by (simp add: is_legal_transition_def next_lifecycle_def)

theorem lifecycle_machine_witness:
  "next_lifecycle Life_Active Life_Draining = Life_Draining \<and>
   Life_Recovering \<in> set (lifecycle_run Life_Partitioned [Life_Active, Life_Active])"
proof -
  have "is_legal_transition Life_Active Life_Draining"
    "last (lifecycle_run Life_Partitioned [Life_Active, Life_Active]) = Life_Active"
    by (simp_all add: is_legal_transition_def legal_def next_lifecycle_def)
  with lifecycle_machine[of Life_Active Life_Draining "[Life_Active, Life_Active]"]
  show ?thesis by simp
qed

text \<open>
  The identity derived for a decision is always a canonical identifier, whatever bytes the
  subject holds; when the subject is made of identifier characters, fits, and does not end in a
  separator, it is kept verbatim after the kind.
\<close>

theorem make_decision_id_canonical:
  "is_canonical_id (make_decision_id k s) \<and>
   (is_canonical_id (decision_kind_to_string k @ ''.'' @ s) \<longrightarrow>
    make_decision_id k s = decision_kind_to_string k @ ''.'' @ s)"
proof
  have "is_canonical_id ''decision.invalid''"
    by (simp add: is_canonical_id_def max_id_length_def is_lower_alnum_def is_separator_def
        less_eq_char_def)
  then show "is_canonical_id (make_decision_id k s)"
    by (auto simp: make_decision_id_def Let_def id_parse_def)
  show "is_canonical_id (decision_kind_to_string k @ ''.'' @ s) \<longrightarrow>
      make_decision_id k s = decision_kind_to_string k @ ''.'' @ s"
  proof
    assume c: "is_canonical_id (decision_kind_to_string k @ ''.'' @ s)"
    then have "list_all (\<lambda>c. is_lower_alnum c \<or> is_separator c)
        (decision_kind_to_string k @ ''.'' @ s)"
      by (simp add: is_canonical_id_def split: if_splits)
    then have "\<forall>c \<in> set (decision_kind_to_string k @ ''.'' @ s). id_char_ok c"
      by (auto simp: list_all_iff id_char_ok_def is_lower_alnum_def is_separator_def)
    then have "map (\<lambda>c. if id_char_ok c then c else CHR ''_'')
        (decision_kind_to_string k @ ''.'' @ s) = decision_kind_to_string k @ ''.'' @ s"
      by (intro map_idI) auto
    with c show "make_decision_id k s = decision_kind_to_string k @ ''.'' @ s"
      by (simp add: make_decision_id_def Let_def id_parse_def)
  qed
qed

theorem make_decision_id_canonical_witness:
  "make_decision_id Dec_MemberState ''rack-1'' = ''member.rack-1''"
proof -
  have "is_canonical_id (decision_kind_to_string Dec_MemberState @ ''.'' @ ''rack-1'')"
    by (simp add: is_canonical_id_def max_id_length_def is_lower_alnum_def is_separator_def
        less_eq_char_def)
  with make_decision_id_canonical[of Dec_MemberState "''rack-1''"] show ?thesis by simp
qed

section \<open>The canonical form of a document\<close>

lemma sort_sort_key [simp]: "sort_key f (sort_key f xs) = sort_key f xs"
  by (simp add: sort_key_id_if_sorted)

lemma insort_key_map_same:
  "(\<And>x. f (g x) = f x) \<Longrightarrow> insort_key f (g x) (map g xs) = map g (insort_key f x xs)"
  by (induction xs) auto

lemma sort_key_map_same: "(\<And>x. f (g x) = f x) \<Longrightarrow> sort_key f (map g xs) = map g (sort_key f xs)"
  by (induction xs) (simp_all add: insort_key_map_same)

lemma canonical_map_idem:
  assumes "\<And>x. f (g x) = f x" "\<And>x. g (g x) = g x"
  shows "map g (sort_key f (map g (sort_key f xs))) = map g (sort_key f xs)"
  using assms by (simp add: sort_key_map_same comp_def)

lemma canonicalise_element_idem [simp]:
  "canonicalise_member_verdict (canonicalise_member_verdict m) = canonicalise_member_verdict m"
  "canonicalise_connectivity_verdict (canonicalise_connectivity_verdict c) =
     canonicalise_connectivity_verdict c"
  "canonicalise_aggregate (canonicalise_aggregate a) = canonicalise_aggregate a"
  "canonicalise_domain_verdict (canonicalise_domain_verdict d) = canonicalise_domain_verdict d"
  "canonicalise_obligation_verdict (canonicalise_obligation_verdict v) =
     canonicalise_obligation_verdict v"
  "canonicalise_decision (canonicalise_decision r) = canonicalise_decision r"
  by (simp_all add: canonicalise_member_verdict_def canonicalise_connectivity_verdict_def
      canonicalise_aggregate_def canonicalise_domain_verdict_def canonicalise_decision_def
      canonicalise_obligation_verdict_def canonicalise_def[symmetric])

lemma canonicalise_element_keys [simp]:
  "mv_rack (canonicalise_member_verdict m) = mv_rack m"
  "cv_from (canonicalise_connectivity_verdict c) = cv_from c"
  "cv_to (canonicalise_connectivity_verdict c) = cv_to c"
  "ca_resource (canonicalise_aggregate a) = ca_resource a"
  "ca_domain (canonicalise_aggregate a) = ca_domain a"
  "dv_id (canonicalise_domain_verdict d) = dv_id d"
  "ov_id (canonicalise_obligation_verdict v) = ov_id v"
  "dr_id (canonicalise_decision r) = dr_id r"
  by (simp_all add: canonicalise_member_verdict_def canonicalise_connectivity_verdict_def
      canonicalise_aggregate_def canonicalise_domain_verdict_def canonicalise_decision_def
      canonicalise_obligation_verdict_def)

lemma canonicalise_state_idem: "canonicalise_state (canonicalise_state s) = canonicalise_state s"
  by (simp add: canonicalise_state_def canonical_map_idem)

lemma find_filter: "find P xs = (case filter P xs of [] \<Rightarrow> None | x # _ \<Rightarrow> Some x)"
  by (induction xs) auto

lemma find_sort_key: "find (\<lambda>x. f x = k) (sort_key f xs) = find (\<lambda>x. f x = k) xs"
  by (simp add: find_filter sort_key_stable)

lemma find_map_same:
  "(\<And>x. f (g x) = f x) \<Longrightarrow> find (\<lambda>x. f x = k) (map g xs) = map_option g (find (\<lambda>x. f x = k) xs)"
  by (induction xs) auto

lemma find_sorted_canonical:
  assumes "\<And>x. f (g x) = f x"
  shows "find_sorted f (map g (sort_key f xs)) k = map_option g (find (\<lambda>x. f x = k) xs)"
proof -
  have "sorted (map f (map g (sort_key f xs)))" using assms by (simp add: comp_def)
  then show ?thesis using assms by (simp add: find_sorted_find find_map_same find_sort_key)
qed

text \<open>
  Putting a document into canonical form twice is the same as once, and after it the
  binary searches of the document find, for every identity, the first verdict, domain,
  aggregate or decision the document held under that identity (in its canonical form), and
  nothing when it held none.
\<close>

theorem canonical_document:
  "canonicalise_state (canonicalise_state s) = canonicalise_state s \<and>
   find_member (canonicalise_state s) k =
     map_option canonicalise_member_verdict (find (\<lambda>m. mv_rack m = k) (ps_members s)) \<and>
   find_domain (canonicalise_state s) k =
     map_option canonicalise_domain_verdict (find (\<lambda>d. dv_id d = k) (ps_domains s)) \<and>
   find_capacity (canonicalise_state s) k =
     map_option canonicalise_aggregate (find (\<lambda>a. ca_resource a = k) (ps_capacity s)) \<and>
   find_decision (canonicalise_state s) k =
     map_option canonicalise_decision (find (\<lambda>d. dr_id d = k) (ps_decisions s))"
  by (intro conjI canonicalise_state_idem)
    (simp_all add: find_member_def find_domain_def find_capacity_def find_decision_def
      canonicalise_state_def find_sorted_canonical)

end
