(* ===== verification/Snapshot.thy ===== *)
theory Snapshot
  imports Pod_State
begin

text \<open>
  Composition input: \<open>model/snapshot.hpp\<close>, \<open>model/snapshot.cpp\<close>. The snapshot, the context
  the controller supplies, the request, the structural validation of a snapshot against a
  policy and its canonical form. Sets used only for membership tests are lists of the elements
  inserted so far.
\<close>

section \<open>Requests\<close>

record pod_snapshot =
  sn_pod :: ident
  sn_schema :: string
  sn_members :: "member_record list"
  sn_links :: "link_record list"
  sn_routes :: "route_evidence list"
  sn_domains :: "failure_domain_record list"
  sn_obligations :: "obligation list"
  sn_provenance :: provenance
  sn_observed_at :: nanos

record composition_context =
  cx_epoch :: sequence
  cx_incarnation :: incarnation
  cx_expectations :: "member_expectation list"
  cx_granted_tokens :: "authority_token list"
  cx_revoked_tokens :: "ident list"
  cx_now :: nanos
  cx_recovered_from_store :: bool
  cx_recovered_at :: nanos
  cx_ambiguous_commit :: bool
  cx_lifecycle :: lifecycle_state

record composition_request =
  rq_snapshot :: pod_snapshot
  rq_context :: composition_context
  rq_policy :: policy

definition snapshot_schema :: string where "snapshot_schema = ''podfabric.snapshot/1''"

section \<open>Validation\<close>

definition bounded :: "nat \<Rightarrow> u32 \<Rightarrow> string \<Rightarrow> unit result" where
  "bounded count limit what =
     reject_if (count > unat limit) Code_Exhausted
       (''snapshot declares more '' @ what @ '' than the policy allows'')"

fun duplicates_after :: "'a list \<Rightarrow> 'a list \<Rightarrow> bool" where
  "duplicates_after seen [] = False"
| "duplicates_after seen (x # xs) = (if x \<in> set seen then True else duplicates_after (x # seen) xs)"

definition has_duplicates :: "'a list \<Rightarrow> bool" where
  "has_duplicates xs = duplicates_after [] xs"

definition validate_claim :: "policy \<Rightarrow> capacity_claim \<Rightarrow> unit result" where
  "validate_claim p c =
     try_then (reject_if (is_nil (cc_resource c) \<or> is_nil (cc_exclusivity c) \<or> is_nil (cc_domain c))
       Code_Invalid ''capacity claim is missing a resource, key or domain'')
    (try_then (reject_if (cc_amount c > po_max_capacity_amount p)
       Code_Invalid ''capacity claim amount exceeds the policy bound'')
    (reject_if (cc_reserved c > cc_amount c)
       Code_Invalid ''capacity claim reserves more than it offers''))"

definition validate_member_body :: "policy \<Rightarrow> member_record \<Rightarrow> unit result" where
  "validate_member_body p m =
     try_then (reject_if (sequence_is_zero (mr_generation m))
       Code_Invalid ''member record has a zero generation'')
    (try_then (reject_if (digest_is_zero (mr_digest m))
       Code_Invalid ''member record has a zero descriptor digest'')
    (try_then (reject_if (mr_rnf_schema m = [])
       Code_Invalid ''member record has no Rack Network Fabric schema revision'')
    (try_then (bounded (length (mr_failure_domains m)) (po_max_domains p) ''member failure domains'')
    (try_then (bounded (length (mr_ports m)) (po_max_ports_per_member p) ''member ports'')
    (try_then (reject_if (has_duplicates (mr_failure_domains m))
       Code_Invalid ''member record repeats a failure domain'')
    (try_then (reject_if (has_duplicates (mr_ports m))
       Code_Invalid ''member record repeats a port reference'')
    (try_then (try_each (validate_claim p) (mr_capacity m))
    (reject_if (has_duplicates (map (\<lambda>c. (cc_resource c, cc_exclusivity c)) (mr_capacity m)))
       Code_Invalid
       ''member record repeats a capacity claim for the same physical resource''))))))))"

text \<open>The loop over the members carries the racks seen and the number of claims.\<close>

definition validate_member ::
  "policy \<Rightarrow> member_record \<Rightarrow> ident list \<times> nat \<Rightarrow> (ident list \<times> nat) result" where
  "validate_member p m s =
     (case s of (racks, claims) \<Rightarrow>
        try_then (reject_if (is_nil (mr_rack m)) Code_Invalid ''member record has no rack identity'')
        (if mr_rack m \<in> set racks then Inr (racks, claims)
         else try_then (validate_member_body p m)
                (Inr (mr_rack m # racks, claims + length (mr_capacity m)))))"

definition validate_link :: "policy \<Rightarrow> link_record \<Rightarrow> ident list \<Rightarrow> ident list result" where
  "validate_link p l seen =
     try_then (reject_if (is_nil (lk_id l)) Code_Invalid ''link record has no identity'')
    (try_then (reject_if (lk_id l \<in> set seen) Code_Invalid ''link identity is duplicated'')
    (try_then (reject_if (is_nil (le_rack (lk_a l)) \<or> is_nil (le_rack (lk_b l)))
       Code_Invalid ''link endpoint has no rack identity'')
    (try_then (reject_if (le_rack (lk_a l) = le_rack (lk_b l))
       Code_Invalid ''link joins a rack to itself'')
    (try_then (reject_if (is_nil (lk_resource l)) Code_Invalid ''link record has no resource class'')
    (try_then (reject_if (is_nil (lk_domain l))
       Code_Invalid ''link record has no failure-domain attribution'')
    (try_then (reject_if (lk_capacity l > po_max_capacity_amount p)
       Code_Invalid ''link capacity exceeds the policy bound'')
    (Inr (lk_id l # seen))))))))"

definition validate_hop :: "ident \<Rightarrow> ident list \<Rightarrow> ident list result" where
  "validate_hop hop seen =
     try_then (reject_if (is_nil hop) Code_Invalid ''route path contains a nil rack identity'')
    (try_then (reject_if (hop \<in> set seen) Code_Invalid ''route path revisits a rack'')
    (Inr (hop # seen)))"

definition validate_route :: "policy \<Rightarrow> route_evidence \<Rightarrow> ident list \<Rightarrow> ident list result" where
  "validate_route p r seen =
     try_then (reject_if (is_nil (rt_ref r)) Code_Invalid ''route record has no reference'')
    (try_then (reject_if (rt_ref r \<in> set seen) Code_Invalid ''route reference is duplicated'')
    (try_then (bounded (length (rt_path r)) (po_max_members p) ''route path entries'')
    (try_then (reject_if (rt_path r = []) Code_Invalid ''route record has an empty path'')
    (try_then (reject_if (length (rt_path_generations r) \<noteq> length (rt_path r))
       Code_Invalid ''route path and path generations differ in length'')
    (try_bind (try_fold validate_hop (rt_path r) []) (\<lambda>_.
     try_then (reject_if (is_nil (rt_resource r)) Code_Invalid ''route record has no resource class'')
    (try_then (reject_if (rt_committed_capacity r > po_max_capacity_amount p)
       Code_Invalid ''route committed capacity exceeds the policy bound'')
    (Inr (rt_ref r # seen)))))))))"

definition validate_domain :: "policy \<Rightarrow> failure_domain_record \<Rightarrow> ident list \<Rightarrow> ident list result"
  where
  "validate_domain p d seen =
     try_then (reject_if (is_nil (fd_id d)) Code_Invalid ''failure domain has no identity'')
    (try_then (reject_if (fd_id d \<in> set seen)
       Code_Invalid ''failure domain identity is duplicated'')
    (try_then (bounded (length (fd_members d)) (po_max_members p) ''failure domain members'')
    (try_then (reject_if (has_duplicates (fd_members d))
       Code_Invalid ''failure domain repeats a member rack'')
    (try_then (reject_if (\<not> is_valid_utf8 (fd_description d))
       Code_Invalid ''failure domain description is not valid UTF-8'')
    (Inr (fd_id d # seen))))))"

definition validate_requirement :: "policy \<Rightarrow> capacity_requirement \<Rightarrow> unit result" where
  "validate_requirement p r =
     try_then (reject_if (is_nil (cr_resource r))
       Code_Invalid ''obligation requirement has no resource class'')
    (reject_if (cr_minimum r > po_max_capacity_amount p)
       Code_Invalid ''obligation requirement exceeds the policy bound'')"

definition validate_obligation :: "policy \<Rightarrow> obligation \<Rightarrow> ident list \<Rightarrow> ident list result" where
  "validate_obligation p b seen =
     try_then (reject_if (is_nil (ob_id b)) Code_Invalid ''obligation has no identity'')
    (try_then (reject_if (ob_id b \<in> set seen) Code_Invalid ''obligation identity is duplicated'')
    (try_then (bounded (length (ob_protected_racks b)) (po_max_members p) ''obligation racks'')
    (try_then (reject_if (has_duplicates (ob_protected_racks b))
       Code_Invalid ''obligation repeats a protected rack'')
    (try_then (bounded (length (ob_requirements b)) (po_max_domains p) ''obligation requirements'')
    (try_then (try_each (validate_requirement p) (ob_requirements b))
    (try_then (reject_if (\<not> is_valid_utf8 (ob_description b))
       Code_Invalid ''obligation description is not valid UTF-8'')
    (Inr (ob_id b # seen))))))))"

definition validate_snapshot :: "pod_snapshot \<Rightarrow> policy \<Rightarrow> unit result" where
  "validate_snapshot s p =
     try_then (validate_policy p)
    (try_then (reject_if (sn_schema s \<noteq> snapshot_schema)
       Code_Unsupported ''snapshot schema revision is not supported'')
    (try_then (reject_if (is_nil (sn_pod s)) Code_Invalid ''snapshot has no pod identity'')
    (try_then (reject_if (sn_observed_at s = 0) Code_Invalid ''snapshot has no observation time'')
    (try_then (reject_if (\<not> is_valid_utf8 (pv_detail (sn_provenance s)))
       Code_Invalid ''snapshot provenance detail is not valid UTF-8'')
    (try_then (bounded (length (sn_members s)) (po_max_members p) ''members'')
    (try_then (bounded (length (sn_links s)) (po_max_links p) ''links'')
    (try_then (bounded (length (sn_routes s)) (po_max_routes p) ''routes'')
    (try_then (bounded (length (sn_domains s)) (po_max_domains p) ''failure domains'')
    (try_then (bounded (length (sn_obligations s)) (po_max_obligations p) ''obligations'')
    (try_bind (try_fold (validate_member p) (sn_members s) ([], 0)) (\<lambda>(racks, claims).
     try_then (bounded claims (po_max_capacity_claims p) ''capacity claims'')
    (try_bind (try_fold (validate_link p) (sn_links s) []) (\<lambda>_.
     try_bind (try_fold (validate_route p) (sn_routes s) []) (\<lambda>_.
     try_bind (try_fold (validate_domain p) (sn_domains s) []) (\<lambda>_.
     try_bind (try_fold (validate_obligation p) (sn_obligations s) []) (\<lambda>_.
     success))))))))))))))))"

section \<open>Canonical form\<close>

definition canonicalise_member :: "member_record \<Rightarrow> member_record" where
  "canonicalise_member m =
     m\<lparr>mr_failure_domains := canonicalise (mr_failure_domains m),
       mr_ports := canonicalise (mr_ports m),
       mr_capacity := sort_key (\<lambda>c. (cc_resource c, cc_exclusivity c)) (mr_capacity m)\<rparr>"

definition canonicalise_domain :: "failure_domain_record \<Rightarrow> failure_domain_record" where
  "canonicalise_domain d = d\<lparr>fd_members := canonicalise (fd_members d)\<rparr>"

definition canonicalise_obligation :: "obligation \<Rightarrow> obligation" where
  "canonicalise_obligation b =
     b\<lparr>ob_protected_racks := canonicalise (ob_protected_racks b),
       ob_requirements := sort_key cr_resource (ob_requirements b)\<rparr>"

definition canonicalise_snapshot :: "pod_snapshot \<Rightarrow> pod_snapshot" where
  "canonicalise_snapshot s =
     s\<lparr>sn_members := map canonicalise_member (sort_key mr_rack (sn_members s)),
       sn_links := sort_key lk_id (sn_links s),
       sn_routes := sort_key rt_ref (sn_routes s),
       sn_domains := map canonicalise_domain (sort_key fd_id (sn_domains s)),
       sn_obligations := map canonicalise_obligation (sort_key ob_id (sn_obligations s))\<rparr>"

end
