(* ===== verification/Ledger.thy ===== *)
theory Ledger
  imports Snapshot
begin

text \<open>
  The capacity ledger: \<open>engine/ledger.hpp\<close>, \<open>engine/ledger.cpp\<close>. Claims are filed in slots
  by the physical resource they name; \<open>freeze\<close> walks the slots in key order, lets the smallest
  claim of a slot win, and accumulates the aggregates per resource class and per failure
  domain.
\<close>

section \<open>State\<close>

record ledger_claim =
  lc_resource :: ident
  lc_exclusivity :: ident
  lc_owner :: ident
  lc_via_link :: ident
  lc_amount :: u64
  lc_reserved :: u64
  lc_domain :: ident
  lc_provenance :: provenance

primrec capacity_severity :: "capacity_status \<Rightarrow> nat" where
  "capacity_severity Cap_Ok = 0"
| "capacity_severity Cap_Deduplicated = 1"
| "capacity_severity Cap_Incomplete = 2"
| "capacity_severity Cap_Indeterminate = 3"
| "capacity_severity Cap_Conflicting = 4"
| "capacity_severity Cap_Exhausted = 5"
| "capacity_severity Cap_Unsupported = 6"

definition worst_capacity_status :: "capacity_status \<Rightarrow> capacity_status \<Rightarrow> capacity_status" where
  "worst_capacity_status a b = (if capacity_severity a \<ge> capacity_severity b then a else b)"

interpretation cap: severity_order capacity_severity worst_capacity_status
proof
  show "capacity_severity a = capacity_severity b \<Longrightarrow> a = b" for a b
    by (cases a; cases b) simp_all
  show "worst_capacity_status a b =
      (if capacity_severity a \<ge> capacity_severity b then a else b)" for a b
    by (rule worst_capacity_status_def)
qed

record ledger_slot =
  sl_resource :: ident
  sl_exclusivity :: ident
  sl_usable :: "ledger_claim list"
  sl_uncounted :: "capacity_contribution list"
  sl_notes :: "reason list"

definition slot_default :: ledger_slot where
  "slot_default =
     \<lparr>sl_resource = [], sl_exclusivity = [], sl_usable = [], sl_uncounted = [], sl_notes = []\<rparr>"

record capacity_ledger =
  lg_policy :: policy
  lg_slots :: "(ident \<times> ident, ledger_slot) smap"
  lg_reasons :: "reason list"
  lg_by_resource :: "capacity_aggregate list"
  lg_by_domain :: "capacity_aggregate list"

definition ledger_new :: "policy \<Rightarrow> capacity_ledger" where
  "ledger_new p =
     \<lparr>lg_policy = p, lg_slots = [], lg_reasons = [], lg_by_resource = [], lg_by_domain = []\<rparr>"

section \<open>Recording claims\<close>

definition ledger_validate_claim :: "policy \<Rightarrow> ledger_claim \<Rightarrow> unit result" where
  "ledger_validate_claim p c =
     try_then (reject_if (is_nil (lc_resource c))
       Code_Invalid ''capacity claim has no resource class'')
    (try_then (reject_if (is_nil (lc_exclusivity c))
       Code_Invalid ''capacity claim has no exclusivity key'')
    (try_then (reject_if (is_nil (lc_domain c))
       Code_Invalid ''capacity claim has no failure-domain attribution'')
    (try_then (reject_if (lc_amount c > po_max_capacity_amount p)
       Code_Invalid ''capacity claim amount exceeds the policy bound'')
    (reject_if (lc_reserved c > lc_amount c)
       Code_Invalid ''capacity claim reserves more than it offers''))))"

definition no_reason :: reason where
  "no_reason = mk_reason Reason_EvidenceMissing []"

definition contribution_of ::
  "ledger_claim \<Rightarrow> u64 \<Rightarrow> u64 \<Rightarrow> bool \<Rightarrow> reason \<Rightarrow> capacity_contribution" where
  "contribution_of c amount reserved counted r =
     \<lparr>ct_owner = lc_owner c, ct_via_link = lc_via_link c, ct_exclusivity = lc_exclusivity c,
      ct_amount = amount, ct_reserved = reserved, ct_domain = lc_domain c,
      ct_provenance = lc_provenance c, ct_counted = counted, ct_not_counted_reason = r\<rparr>"

definition slot_record :: "ledger_claim \<Rightarrow> reason \<Rightarrow> bool \<Rightarrow> ledger_slot \<Rightarrow> ledger_slot" where
  "slot_record c r counted s =
     (let s1 = s\<lparr>sl_resource := lc_resource c, sl_exclusivity := lc_exclusivity c\<rparr> in
      if counted then s1\<lparr>sl_usable := sl_usable s1 @ [c]\<rparr>
      else s1\<lparr>sl_uncounted := sl_uncounted s1 @
                [contribution_of c (lc_amount c) (lc_reserved c) False r],
              sl_notes := sl_notes s1 @ [r]\<rparr>)"

definition ledger_record ::
  "ledger_claim \<Rightarrow> reason \<Rightarrow> bool \<Rightarrow> capacity_ledger \<Rightarrow> capacity_ledger result" where
  "ledger_record c r counted l =
     try_then (ledger_validate_claim (lg_policy l) c)
       (Inr (l\<lparr>lg_slots := smap_update slot_default (slot_record c r counted)
                              (lc_resource c, lc_exclusivity c) (lg_slots l)\<rparr>))"

definition ledger_add :: "ledger_claim \<Rightarrow> capacity_ledger \<Rightarrow> capacity_ledger result" where
  "ledger_add c l = ledger_record c no_reason True l"

definition ledger_add_suppressed ::
  "ledger_claim \<Rightarrow> reason \<Rightarrow> capacity_ledger \<Rightarrow> capacity_ledger result" where
  "ledger_add_suppressed c r l = ledger_record c r False l"

section \<open>Freezing a slot\<close>

text \<open>The comparator of the sort: amount, then reserved, then owner, then domain.\<close>

definition claim_order :: "ledger_claim \<Rightarrow> u64 \<times> u64 \<times> ident \<times> ident" where
  "claim_order c = (lc_amount c, lc_reserved c, lc_owner c, lc_domain c)"

definition sort_usable :: "ledger_claim list \<Rightarrow> ledger_claim list" where
  "sort_usable cs = sort_key claim_order cs"

text \<open>The loop over the other claims of a slot: amount, reserved and the conflict flag.\<close>

definition merge_claim ::
  "ledger_claim \<Rightarrow> ledger_claim \<Rightarrow> u64 \<times> u64 \<times> bool \<Rightarrow> u64 \<times> u64 \<times> bool" where
  "merge_claim primary other s =
     (case s of (amount, reserved, conflict) \<Rightarrow>
        let amount' = min amount (lc_amount other) in
        (amount', max reserved (min (lc_reserved other) amount'),
         conflict \<or> lc_amount other \<noteq> lc_amount primary \<or> lc_reserved other \<noteq> lc_reserved primary \<or>
         lc_domain other \<noteq> lc_domain primary))"

definition merge_slot :: "ledger_claim \<Rightarrow> ledger_claim list \<Rightarrow> u64 \<times> u64 \<times> bool" where
  "merge_slot primary others =
     fold (merge_claim primary) others
       (lc_amount primary, min (lc_reserved primary) (lc_amount primary), False)"

definition dropped_reason :: "bool \<Rightarrow> reason" where
  "dropped_reason conflict =
     (if conflict
      then mk_reason Reason_CapacityConflict
             ''the same physical resource is reported with different magnitudes''
      else mk_reason Reason_CapacityDeduplicated
             ''the same physical resource is reported by more than one owner'')"

definition dropped_contribution :: "bool \<Rightarrow> ledger_claim \<Rightarrow> capacity_contribution" where
  "dropped_contribution conflict c =
     contribution_of c (lc_amount c) (lc_reserved c) False (dropped_reason conflict)"

definition raise_capacity :: "capacity_status \<Rightarrow> capacity_aggregate \<Rightarrow> capacity_aggregate" where
  "raise_capacity st a = a\<lparr>ca_status := worst_capacity_status (ca_status a) st\<rparr>"

definition add_uncounted :: "capacity_contribution \<Rightarrow> capacity_aggregate \<Rightarrow> capacity_aggregate" where
  "add_uncounted c a =
     (let a1 = raise_capacity Cap_Incomplete
                 (a\<lparr>ca_contributions := ca_contributions a @ [c]\<rparr>);
          code = rs_code (ct_not_counted_reason c);
          a2 = (if code = Reason_CapacityConflict then raise_capacity Cap_Conflicting a1 else a1)
      in if code = Reason_CapacityDeduplicated then raise_capacity Cap_Deduplicated a2 else a2)"

record freeze_state =
  fz_resources :: "(ident, capacity_aggregate) smap"
  fz_domains :: "(ident \<times> ident, capacity_aggregate) smap"
  fz_total :: "(ident, u64) smap"
  fz_reserved :: "(ident, u64) smap"
  fz_reasons :: "reason list"

definition freeze_start :: freeze_state where
  "freeze_start =
     \<lparr>fz_resources = [], fz_domains = [], fz_total = [], fz_reserved = [], fz_reasons = []\<rparr>"

definition running :: "(ident, u64) smap \<Rightarrow> ident \<Rightarrow> u64" where
  "running m k = (case smap_get m k of None \<Rightarrow> 0 | Some v \<Rightarrow> v)"

definition aggregate_at ::
  "('k::linorder, capacity_aggregate) smap \<Rightarrow> 'k \<Rightarrow> capacity_aggregate" where
  "aggregate_at m k = (case smap_get m k of None \<Rightarrow> capacity_aggregate_default | Some a \<Rightarrow> a)"

text \<open>The aggregate of the slot's resource after the notes and the uncounted contributions.\<close>

definition open_slot :: "ledger_slot \<Rightarrow> capacity_aggregate \<Rightarrow> capacity_aggregate" where
  "open_slot s a =
     fold add_uncounted (sl_uncounted s)
       (a\<lparr>ca_resource := sl_resource s, ca_reasons := ca_reasons a @ sl_notes s\<rparr>)"

text \<open>The aggregate after the winning claim and the dropped ones are filed.\<close>

definition file_slot :: "bool \<Rightarrow> capacity_contribution \<Rightarrow> capacity_contribution list \<Rightarrow>
    capacity_aggregate \<Rightarrow> capacity_aggregate" where
  "file_slot conflict winner dropped a =
     (let a1 = (if dropped \<noteq> [] \<and> \<not> conflict then raise_capacity Cap_Deduplicated a else a);
          a2 = a1\<lparr>ca_contributions := ca_contributions a1 @ winner # dropped,
                  ca_reasons := ca_reasons a1 @ map ct_not_counted_reason dropped\<rparr>
      in if conflict then raise_capacity Cap_Conflicting a2 else a2)"

definition overflow_reason :: reason where
  "overflow_reason =
     mk_reason Reason_PolicyBoundExceeded ''aggregate capacity overflowed the counter''"

text \<open>The running total of a resource, which keeps its value when the sum overflows.\<close>

definition count_total ::
  "u64 \<Rightarrow> u64 \<Rightarrow> capacity_aggregate \<Rightarrow> u64 \<times> capacity_aggregate \<times> reason list" where
  "count_total sofar amount a =
     (case checked_add sofar amount of
        Inr t \<Rightarrow> (t, a, [])
      | Inl _ \<Rightarrow>
          (sofar, (raise_capacity Cap_Indeterminate a)
                    \<lparr>ca_reasons := ca_reasons a @ [overflow_reason]\<rparr>, [overflow_reason]))"

definition count_reserved :: "u64 \<Rightarrow> u64 \<Rightarrow> capacity_aggregate \<Rightarrow> u64 \<times> capacity_aggregate" where
  "count_reserved committed reserved a =
     (case checked_add committed reserved of
        Inr t \<Rightarrow> (t, a)
      | Inl _ \<Rightarrow> (committed, raise_capacity Cap_Indeterminate a))"

text \<open>The body of the loop for a slot with a usable claim.\<close>

definition count_slot :: "policy \<Rightarrow> ledger_slot \<Rightarrow> ledger_claim \<Rightarrow> ledger_claim list \<Rightarrow>
    capacity_aggregate \<Rightarrow> freeze_state \<Rightarrow> freeze_state" where
  "count_slot p s primary others a z =
     (let (amount, reserved, conflict) = merge_slot primary others;
          winner = contribution_of primary amount reserved True no_reason;
          dropped = map (dropped_contribution conflict) others;
          (offered, a1, extra) = count_total (running (fz_total z) (sl_resource s)) amount
            (file_slot conflict winner dropped a);
          (committed, a2) = count_reserved (running (fz_reserved z) (sl_resource s)) reserved a1;
          a3 = (if offered > po_max_capacity_total p then raise_capacity Cap_Indeterminate a2 else a2);
          dk = (sl_resource s, lc_domain primary);
          d = aggregate_at (fz_domains z) dk;
          d' = d\<lparr>ca_resource := sl_resource s, ca_domain := lc_domain primary,
                 ca_contributions := ca_contributions d @ winner # dropped,
                 ca_status := ca_status a3, ca_reasons := ca_reasons a3\<rparr>
      in z\<lparr>fz_resources := smap_put (sl_resource s) a3 (fz_resources z),
           fz_domains := smap_put dk d' (fz_domains z),
           fz_total := smap_put (sl_resource s) offered (fz_total z),
           fz_reserved := smap_put (sl_resource s) committed (fz_reserved z),
           fz_reasons := fz_reasons z @ sl_notes s @ map ct_not_counted_reason dropped @ extra\<rparr>)"

definition freeze_slot :: "policy \<Rightarrow> ledger_slot \<Rightarrow> freeze_state \<Rightarrow> freeze_state" where
  "freeze_slot p s z =
     (let a = open_slot s (aggregate_at (fz_resources z) (sl_resource s)) in
      case sort_usable (sl_usable s) of
        [] \<Rightarrow> z\<lparr>fz_resources :=
                   smap_put (sl_resource s) (raise_capacity Cap_Incomplete a) (fz_resources z),
                 fz_reasons := fz_reasons z @ sl_notes s\<rparr>
      | primary # others \<Rightarrow> count_slot p s primary others a z)"

section \<open>Closing the aggregates\<close>

definition overcommit_reason :: reason where
  "overcommit_reason = mk_reason Reason_CapacityOvercommit ''reserved capacity exceeds the offered total''"

definition close_resource ::
  "freeze_state \<Rightarrow> ident \<times> capacity_aggregate \<Rightarrow> capacity_aggregate" where
  "close_resource z e =
     (case e of (resource, a) \<Rightarrow>
        let total = running (fz_total z) resource;
            reserved = running (fz_reserved z) resource;
            a1 = a\<lparr>ca_total := total, ca_reserved := reserved\<rparr>;
            a2 = (if reserved > total
                  then (raise_capacity Cap_Exhausted a1)
                         \<lparr>ca_headroom := 0, ca_reasons := ca_reasons a1 @ [overcommit_reason]\<rparr>
                  else a1\<lparr>ca_headroom := total - reserved\<rparr>)
        in canonicalise_aggregate a2)"

fun sum_counted :: "capacity_contribution list \<Rightarrow> u64 \<Rightarrow> u64 \<Rightarrow> u64 \<times> u64 \<times> bool" where
  "sum_counted [] tot resv = (tot, resv, False)"
| "sum_counted (c # cs) tot resv =
     (if \<not> ct_counted c then sum_counted cs tot resv
      else case (checked_add tot (ct_amount c), checked_add resv (ct_reserved c)) of
             (Inr t, Inr r) \<Rightarrow> sum_counted cs t r
           | _ \<Rightarrow> (tot, resv, True))"

definition close_domain :: "capacity_aggregate \<Rightarrow> capacity_aggregate" where
  "close_domain a =
     (let (total, reserved, overflow) = sum_counted (ca_contributions a) 0 0;
          a1 = (if overflow then raise_capacity Cap_Indeterminate a else a);
          a2 = a1\<lparr>ca_total := total, ca_reserved := reserved,
                  ca_headroom := (if reserved > total then 0 else total - reserved)\<rparr>;
          a3 = (if reserved > total then raise_capacity Cap_Exhausted a2 else a2)
      in canonicalise_aggregate a3)"

definition ledger_freeze :: "capacity_ledger \<Rightarrow> capacity_ledger" where
  "ledger_freeze l =
     (let z = fold (freeze_slot (lg_policy l)) (map snd (lg_slots l)) freeze_start;
          over = filter (\<lambda>e. running (fz_reserved z) (fst e) > running (fz_total z) (fst e))
                   (fz_resources z)
      in l\<lparr>lg_slots := map (\<lambda>(k, s). (k, s\<lparr>sl_usable := sort_usable (sl_usable s)\<rparr>)) (lg_slots l),
           lg_reasons := canonicalise (fz_reasons z @ map (\<lambda>_. overcommit_reason) over),
           lg_by_resource := sort_key ca_resource (map (close_resource z) (fz_resources z)),
           lg_by_domain := sort_key (\<lambda>a. (ca_resource a, ca_domain a))
             (map (close_domain \<circ> snd) (fz_domains z))\<rparr>)"

end
