(* ===== verification/Authority.thy ===== *)
theory Authority
  imports Snapshot
begin

text \<open>
  Fencing tokens: \<open>engine/authority.hpp\<close>, \<open>engine/authority.cpp\<close>.
\<close>

record authority_check =
  ac_pod :: ident
  ac_epoch :: sequence
  ac_incarnation :: incarnation
  ac_now :: nanos
  ac_clock_skew :: nanos
  ac_revoked :: "ident list"
  ac_required :: authority_scope
  ac_enforce_scope :: bool

definition mk_verdict :: "authority_verdict_code \<Rightarrow> code \<Rightarrow> string \<Rightarrow> authority_verdict" where
  "mk_verdict c s d = \<lparr>av_code = c, av_status = s, av_detail = d\<rparr>"

lemma mk_verdict_simps [simp]:
  "av_code (mk_verdict c s d) = c"
  "av_status (mk_verdict c s d) = s"
  by (simp_all add: mk_verdict_def)

text \<open>\<open>issued_at - clock_skew\<close> is a signed subtraction; its overflow is undefined.\<close>

definition validate_token ::
  "authority_token \<Rightarrow> authority_check \<Rightarrow> authority_verdict result" where
  "validate_token t k =
     (if is_nil (at_lease t) \<or> is_nil (at_pod t) then
        Inr (mk_verdict Verdict_Malformed Code_Invalid
               ''token has no lease identity or no pod identity'')
      else if at_expires_at t \<le> at_issued_at t then
        Inr (mk_verdict Verdict_Malformed Code_Invalid ''token lease window is empty or inverted'')
      else if at_pod t \<noteq> ac_pod k then
        Inr (mk_verdict Verdict_WrongPod Code_Refused ''token was minted for a different pod'')
      else if at_lease t \<in> set (ac_revoked k) then
        Inr (mk_verdict Verdict_Revoked Code_Refused ''token lease has been revoked'')
      else if at_incarnation t \<noteq> ac_incarnation k then
        Inr (mk_verdict Verdict_StaleIncarnation Code_Stale
               ''token was minted by a controller incarnation that is no longer live'')
      else if at_epoch t \<noteq> ac_epoch k then
        Inr (mk_verdict Verdict_StaleEpoch Code_Stale ''token was minted at a superseded pod epoch'')
      else try_bind (i64_sub (at_issued_at t) (ac_clock_skew k)) (\<lambda>opens.
        if ac_now k < opens then
          Inr (mk_verdict Verdict_NotYetValid Code_Stale
                 ''token is not yet valid on the coordinator clock'')
        else if ac_now k > at_expires_at t then
          Inr (mk_verdict Verdict_Expired Code_Stale ''token lease has expired'')
        else if ac_enforce_scope k \<and> at_scope t \<noteq> Scope_Pod \<and> at_scope t \<noteq> ac_required k then
          Inr (mk_verdict Verdict_WrongScope Code_Refused
                 ''token scope does not cover the requested operation'')
        else Inr (mk_verdict Verdict_Valid Code_Ok [])))"

section \<open>Validity is the conjunction of the predicates\<close>

definition token_live :: "authority_token \<Rightarrow> authority_check \<Rightarrow> bool" where
  "token_live t k \<longleftrightarrow>
     at_lease t \<noteq> [] \<and> at_pod t \<noteq> [] \<and> at_issued_at t < at_expires_at t \<and>
     at_pod t = ac_pod k \<and> at_lease t \<notin> set (ac_revoked k) \<and>
     at_incarnation t = ac_incarnation k \<and> at_epoch t = ac_epoch k \<and>
     at_issued_at t - ac_clock_skew k \<le> ac_now k \<and> ac_now k \<le> at_expires_at t \<and>
     (ac_enforce_scope k \<longrightarrow> at_scope t = Scope_Pod \<or> at_scope t = ac_required k)"

lemma validate_token_valid_iff:
  "validate_token t k = Inr v \<Longrightarrow> av_code v = Verdict_Valid \<longleftrightarrow> token_live t k"
  by (auto simp: validate_token_def token_live_def is_nil_def i64_sub_def i64_result_def
      split: if_splits)

lemma validate_token_status:
  "validate_token t k = Inr v \<Longrightarrow> av_status v = Code_Ok \<longleftrightarrow> av_code v = Verdict_Valid"
  by (auto simp: validate_token_def i64_sub_def i64_result_def split: if_splits)

lemma validate_token_defined:
  "in_signed 64 (at_issued_at t - ac_clock_skew k) \<Longrightarrow> \<exists>v. validate_token t k = Inr v"
  by (simp add: validate_token_def i64_sub_def i64_result_def)

text \<open>
  C32: a token is accepted exactly when every predicate holds (right pod, not revoked, minted by
  the live incarnation at the current epoch, inside its lease window widened by the clock skew,
  scope covered), the reported status is OK exactly then, and on a lease window that does not
  start within the clock skew of the least timestamp the check never executes an undefined
  operation. A revoked token of the right pod is always reported as revoked.
\<close>

theorem validate_token_exact:
  assumes "in_signed 64 (at_issued_at t - ac_clock_skew k)"
  shows "\<exists>v. validate_token t k = Inr v \<and>
    (av_code v = Verdict_Valid \<longleftrightarrow> token_live t k) \<and>
    (av_status v = Code_Ok \<longleftrightarrow> token_live t k) \<and>
    (at_lease t \<in> set (ac_revoked k) \<longrightarrow> at_lease t \<noteq> [] \<longrightarrow> at_pod t \<noteq> [] \<longrightarrow>
     at_issued_at t < at_expires_at t \<longrightarrow> at_pod t = ac_pod k \<longrightarrow> av_code v = Verdict_Revoked)"
proof -
  obtain v where v: "validate_token t k = Inr v"
    using validate_token_defined[OF assms] by blast
  have "at_lease t \<in> set (ac_revoked k) \<Longrightarrow> at_lease t \<noteq> [] \<Longrightarrow> at_pod t \<noteq> [] \<Longrightarrow>
      at_issued_at t < at_expires_at t \<Longrightarrow> at_pod t = ac_pod k \<Longrightarrow> av_code v = Verdict_Revoked"
    using v by (auto simp: validate_token_def is_nil_def)
  then show ?thesis
    using v validate_token_valid_iff[OF v] validate_token_status[OF v] by blast
qed

definition sample_token :: authority_token where
  "sample_token =
     \<lparr>at_lease = ''lease-1'', at_pod = ''pod-a'', at_epoch = 3, at_incarnation = replicate 16 7,
      at_scope = Scope_Link, at_subject = ''rack-1'', at_issued_at = 1000, at_expires_at = 2000,
      at_fencing = 9, at_payload_digest = digest_zero\<rparr>"

definition sample_check :: authority_check where
  "sample_check =
     \<lparr>ac_pod = ''pod-a'', ac_epoch = 3, ac_incarnation = replicate 16 7, ac_now = 1500,
      ac_clock_skew = 5, ac_revoked = [''lease-0''], ac_required = Scope_Link,
      ac_enforce_scope = True\<rparr>"

theorem validate_token_exact_witness:
  "in_signed 64 (at_issued_at sample_token - ac_clock_skew sample_check) \<and>
   (\<exists>v. validate_token sample_token sample_check = Inr v \<and> av_code v = Verdict_Valid)"
proof -
  have s: "in_signed 64 (at_issued_at sample_token - ac_clock_skew sample_check)"
    by (simp add: in_signed_def smin_def smax_def sample_token_def sample_check_def)
  have "token_live sample_token sample_check"
    by (simp add: token_live_def sample_token_def sample_check_def)
  with validate_token_exact[OF s] s show ?thesis by blast
qed

end
