(* ===== verification/Members.thy ===== *)
theory Members
  imports Ledger Authority
begin

text \<open>
  The composition, part one: \<open>engine/composer.cpp\<close>, the severity tables, the working records
  of the \<open>Composer\<close> object, the evaluation of the members and the adoption of generation
  advances. The object is the record \<open>composer\<close>; every stage takes it and returns it changed.
  References into \<open>members_\<close> and \<open>domains_\<close> are positions in those vectors.
\<close>

section \<open>Severity tables\<close>

primrec link_severity :: "link_status \<Rightarrow> nat" where
  "link_severity Link_Usable = 0"
| "link_severity Link_Degraded = 1"
| "link_severity Link_Stale = 2"
| "link_severity Link_Indeterminate = 3"
| "link_severity Link_Blocked = 4"
| "link_severity Link_Conflicting = 5"
| "link_severity Link_Unsupported = 6"

definition worst_link :: "link_status \<Rightarrow> link_status \<Rightarrow> link_status" where
  "worst_link a b = (if link_severity a \<ge> link_severity b then a else b)"

primrec obligation_severity :: "obligation_status \<Rightarrow> nat" where
  "obligation_severity Obs_Satisfied = 0"
| "obligation_severity Obs_AtRisk = 1"
| "obligation_severity Obs_Indeterminate = 2"
| "obligation_severity Obs_Unsupported = 3"
| "obligation_severity Obs_Violated = 4"

definition worst_obligation :: "obligation_status \<Rightarrow> obligation_status \<Rightarrow> obligation_status" where
  "worst_obligation a b = (if obligation_severity a \<ge> obligation_severity b then a else b)"

interpretation lnk: severity_order link_severity worst_link
proof
  show "link_severity a = link_severity b \<Longrightarrow> a = b" for a b
    by (cases a; cases b) simp_all
  show "worst_link a b = (if link_severity a \<ge> link_severity b then a else b)" for a b
    by (rule worst_link_def)
qed

interpretation obs: severity_order obligation_severity worst_obligation
proof
  show "obligation_severity a = obligation_severity b \<Longrightarrow> a = b" for a b
    by (cases a; cases b) simp_all
  show "worst_obligation a b =
      (if obligation_severity a \<ge> obligation_severity b then a else b)" for a b
    by (rule worst_obligation_def)
qed

primrec member_code :: "member_status \<Rightarrow> code" where
  "member_code Mem_Established = Code_Ok"
| "member_code Mem_Joining = Code_Incomplete"
| "member_code Mem_Stale = Code_Stale"
| "member_code Mem_Fenced = Code_Stale"
| "member_code Mem_Retiring = Code_Stale"
| "member_code Mem_Conflicting = Code_Conflicting"
| "member_code Mem_Unsupported = Code_Unsupported"
| "member_code Mem_Missing = Code_Stale"

primrec domain_code :: "domain_status \<Rightarrow> code" where
  "domain_code Dom_Ok = Code_Ok"
| "domain_code Dom_Degraded = Code_Incomplete"
| "domain_code Dom_Conflicting = Code_Conflicting"
| "domain_code Dom_Incomplete = Code_Incomplete"
| "domain_code Dom_Indeterminate = Code_Indeterminate"

primrec capacity_code :: "capacity_status \<Rightarrow> code" where
  "capacity_code Cap_Ok = Code_Ok"
| "capacity_code Cap_Deduplicated = Code_Ok"
| "capacity_code Cap_Incomplete = Code_Incomplete"
| "capacity_code Cap_Indeterminate = Code_Indeterminate"
| "capacity_code Cap_Conflicting = Code_Conflicting"
| "capacity_code Cap_Exhausted = Code_Exhausted"
| "capacity_code Cap_Unsupported = Code_Unsupported"

definition capacity_is_usable :: "capacity_status \<Rightarrow> bool" where
  "capacity_is_usable s \<longleftrightarrow> s = Cap_Ok \<or> s = Cap_Deduplicated"

section \<open>Working records\<close>

record member_work =
  mw_rack :: ident
  mw_record :: "member_record option"
  mw_record_count :: nat
  mw_expectation :: "member_expectation option"
  mw_verdict :: member_verdict
  mw_established :: bool
  mw_capacity_usable :: bool
  mw_connectivity_usable :: bool
  mw_adopted :: bool

record domain_work =
  dw_id :: ident
  dw_kind :: domain_kind
  dw_record :: "failure_domain_record option"
  dw_implicit :: bool
  dw_declared :: "ident list"
  dw_verdict :: domain_verdict

text \<open>The routes of a pair are pointers; a route is kept with its position in the snapshot, and
  pointer equality is equality of positions.\<close>

record pair_work =
  pw_key :: "ident \<times> ident"
  pw_links :: "link_record list"
  pw_routes :: "(nat \<times> route_evidence) list"
  pw_verdict :: connectivity_verdict

record link_outcome =
  lo_status :: link_status
  lo_capacity :: u64
  lo_resource :: ident
  lo_reasons :: "reason list"

record composer =
  cp_request :: composition_request
  cp_state :: pod_state
  cp_members :: "member_work list"
  cp_member_index :: "(ident, nat) smap"
  cp_domains :: "domain_work list"
  cp_domain_index :: "(ident, nat) smap"
  cp_pairs :: "pair_work list"
  cp_ledger :: capacity_ledger
  cp_fences :: "fence_action list"
  cp_degradations :: "reason list"

abbreviation cp_snapshot :: "composer \<Rightarrow> pod_snapshot" where
  "cp_snapshot c \<equiv> rq_snapshot (cp_request c)"

abbreviation cp_context :: "composer \<Rightarrow> composition_context" where
  "cp_context c \<equiv> rq_context (cp_request c)"

abbreviation cp_policy :: "composer \<Rightarrow> policy" where
  "cp_policy c \<equiv> rq_policy (cp_request c)"

abbreviation cp_evaluated_at :: "composer \<Rightarrow> nanos" where
  "cp_evaluated_at c \<equiv> sn_observed_at (cp_snapshot c)"

definition authority_default :: pod_authority where
  "authority_default =
     \<lparr>pa_status = Code_Unknown, pa_epoch = 0, pa_incarnation = uuid_nil, pa_established_members = 0,
      pa_fenced_members = 0, pa_conflicting_members = 0, pa_stale_members = 0,
      pa_recovered = False, pa_reasons = []\<rparr>"

definition pod_state_default :: pod_state where
  "pod_state_default =
     \<lparr>ps_pod = [], ps_schema = [], ps_epoch = 0, ps_incarnation = uuid_nil,
      ps_lifecycle = Life_Constructing, ps_members = [], ps_connectivity = [], ps_capacity = [],
      ps_domain_capacity = [], ps_domains = [], ps_obligations = [], ps_decisions = [],
      ps_authority = authority_default, ps_fences = [], ps_degradations = [],
      ps_state_digest = digest_zero, ps_decision_digest = digest_zero, ps_composed_at = 0,
      ps_provenance = provenance_default\<rparr>"

definition composer_new :: "composition_request \<Rightarrow> composer" where
  "composer_new r =
     \<lparr>cp_request = r, cp_state = pod_state_default, cp_members = [], cp_member_index = [],
      cp_domains = [], cp_domain_index = [], cp_pairs = [], cp_ledger = ledger_new (rq_policy r),
      cp_fences = [], cp_degradations = []\<rparr>"

section \<open>Lookup, freshness and admission\<close>

definition index_of :: "('a \<Rightarrow> ident) \<Rightarrow> 'a list \<Rightarrow> (ident, nat) smap" where
  "index_of key xs = smap_index (\<lambda>i. key (xs ! i)) (\<lambda>i. i) [0..<length xs]"

definition at_index :: "(ident, nat) smap \<Rightarrow> 'a list \<Rightarrow> ident \<Rightarrow> 'a option" where
  "at_index index xs k = map_option (\<lambda>i. xs ! i) (smap_get index k)"

definition update_at :: "(ident, nat) smap \<Rightarrow> ident \<Rightarrow> ('a \<Rightarrow> 'a) \<Rightarrow> 'a list \<Rightarrow> 'a list" where
  "update_at index k f xs =
     (case smap_get index k of None \<Rightarrow> xs | Some i \<Rightarrow> xs[i := f (xs ! i)])"

definition find_work :: "composer \<Rightarrow> ident \<Rightarrow> member_work option" where
  "find_work c rack = at_index (cp_member_index c) (cp_members c) rack"

definition find_domain_work :: "composer \<Rightarrow> ident \<Rightarrow> domain_work option" where
  "find_domain_work c i = at_index (cp_domain_index c) (cp_domains c) i"

definition quoted :: "string \<Rightarrow> string" where
  "quoted s = CHR 0x27 # s @ [CHR 0x27]"

text \<open>\<open>None\<close> when the record is fresh, otherwise the reason why it is not.\<close>

definition fresh :: "policy \<Rightarrow> nanos \<Rightarrow> nanos \<Rightarrow> reason option result" where
  "fresh p evaluated_at observed =
     (if observed = 0 \<or> po_evidence_ttl p \<le> 0 then Inr None
      else try_bind (i64_sub evaluated_at observed) (\<lambda>age.
        if age > po_evidence_ttl p then
          Inr (Some (mk_reason Reason_EvidenceStale
                       ''evidence is older than the configured lifetime''))
        else try_bind (i64_neg (po_clock_skew p)) (\<lambda>lowest.
          if age < lowest then
            Inr (Some (mk_reason Reason_EvidenceFromFuture
                         ''evidence is stamped further ahead than the clock-skew tolerance''))
          else Inr None)))"

definition schema_supported :: "policy \<Rightarrow> string \<Rightarrow> bool" where
  "schema_supported p s \<longleftrightarrow> s \<in> set (po_supported_rnf_schemas p)"

definition join_admissible :: "policy \<Rightarrow> member_record \<Rightarrow> bool" where
  "join_admissible p r \<longleftrightarrow>
     (if pv_quality (mr_provenance r) = Quality_Unknown then False
      else if \<not> po_require_attested_join p then True
      else pv_class (mr_provenance r) = Class_Attested \<or> pv_class (mr_provenance r) = Class_Observed)"

definition add_fence :: "fence_kind \<Rightarrow> string \<Rightarrow> reason \<Rightarrow> composer \<Rightarrow> composer" where
  "add_fence k s r c =
     c\<lparr>cp_fences := cp_fences c @ [\<lparr>fa_kind = k, fa_subject = s, fa_reason = r\<rparr>]\<rparr>"

definition validate_expectation :: "member_expectation \<Rightarrow> ident list \<Rightarrow> ident list result" where
  "validate_expectation e racks =
     try_then (reject_if (is_nil (me_rack e))
       Code_Invalid ''member expectation has no rack identity'')
    (try_then (reject_if (me_rack e \<in> set racks)
       Code_Invalid ''member expectation is duplicated'')
    (Inr (me_rack e # racks)))"

text \<open>\<open>policy_.max_members * 4u\<close> is a 32-bit product.\<close>

definition validate_context :: "composition_request \<Rightarrow> unit result" where
  "validate_context r =
     try_then (reject_if (length (cx_expectations (rq_context r)) > unat (po_max_members (rq_policy r)))
       Code_Exhausted ''composition context declares too many expectations'')
    (try_then (reject_if (length (cx_granted_tokens (rq_context r)) >
                          unat (po_max_members (rq_policy r) * 4))
       Code_Exhausted ''composition context declares too many authority tokens'')
    (try_bind (try_fold validate_expectation (cx_expectations (rq_context r)) []) (\<lambda>_. success)))"

section \<open>One member\<close>

definition set_status :: "member_status \<Rightarrow> reason \<Rightarrow> member_work \<Rightarrow> member_work" where
  "set_status st r w =
     w\<lparr>mw_verdict := (mw_verdict w)\<lparr>mv_status := st, mv_reasons := mv_reasons (mw_verdict w) @ [r]\<rparr>\<rparr>"

definition add_member_reason :: "reason \<Rightarrow> member_work \<Rightarrow> member_work" where
  "add_member_reason r w =
     w\<lparr>mw_verdict := (mw_verdict w)\<lparr>mv_reasons := mv_reasons (mw_verdict w) @ [r]\<rparr>\<rparr>"

text \<open>The exclusions a record meets before its generation is looked at.\<close>

definition member_gate :: "policy \<Rightarrow> nanos \<Rightarrow> member_record \<Rightarrow> (member_status \<times> reason) option result"
  where
  "member_gate p evaluated_at r =
     try_bind (fresh p evaluated_at (mr_observed_at r)) (\<lambda>freshness.
       case freshness of
         Some reason \<Rightarrow> Inr (Some (Mem_Stale, reason))
       | None \<Rightarrow>
           if \<not> schema_supported p (mr_rnf_schema r) then
             Inr (Some (Mem_Unsupported, mk_reason Reason_SchemaUnsupported
               (''Rack Network Fabric descriptor revision '' @ quoted (mr_rnf_schema r) @
                '' is not accepted by this pod'')))
           else if mr_membership r = Membership_Retired \<or> mr_membership r = Membership_Leaving then
             Inr (Some (Mem_Retiring, mk_reason Reason_MemberRetiring
               ''the rack has declared that it is leaving the pod''))
           else if mr_membership r = Membership_Fenced then
             Inr (Some (Mem_Fenced, mk_reason Reason_MemberFenced
               ''the rack has declared itself fenced''))
           else Inr None)"

text \<open>The comparison with the recorded expectation: an exclusion or admission, and whether the
  record would be adopted.\<close>

definition member_generation ::
  "member_record \<Rightarrow> member_expectation option \<Rightarrow> (member_status \<times> reason) option \<times> bool" where
  "member_generation r e =
     (case e of
        None \<Rightarrow> (None, True)
      | Some expected \<Rightarrow>
          if mr_generation r < me_generation expected then
            (Some (Mem_Stale, mk_reason Reason_GenerationRegression
               (''evidence generation '' @ dec_u64 (mr_generation r) @
                '' is behind the recorded generation '' @ dec_u64 (me_generation expected))), False)
          else if mr_generation r = me_generation expected then
            (if mr_digest r \<noteq> me_digest expected then
               (Some (Mem_Conflicting, mk_reason Reason_DigestMismatch
                  ''the recorded generation is reported with a different descriptor digest''), False)
             else (None, False))
          else (None, True))"

definition member_join ::
  "policy \<Rightarrow> member_record \<Rightarrow> bool \<Rightarrow> (member_status \<times> reason) option" where
  "member_join p r adopted =
     (if mr_membership r = Membership_Joining then
        Some (Mem_Joining, mk_reason Reason_EvidenceMissing ''the rack has not finished joining'')
      else if adopted \<and> \<not> join_admissible p r then
        Some (Mem_Joining, mk_reason Reason_EvidenceMissing
          ''the rack is only declared, not attested or observed, so it is not adopted'')
      else None)"

definition apply_health :: "health_state \<Rightarrow> member_work \<Rightarrow> member_work" where
  "apply_health h w =
     (case h of
        Health_Ok \<Rightarrow> w\<lparr>mw_capacity_usable := True, mw_connectivity_usable := True\<rparr>
      | Health_Impaired \<Rightarrow>
          add_member_reason (mk_reason Reason_MemberUnhealthy ''the rack reports impaired health'')
            (w\<lparr>mw_capacity_usable := True, mw_connectivity_usable := True\<rparr>)
      | Health_Critical \<Rightarrow>
          add_member_reason (mk_reason Reason_MemberUnhealthy
            ''the rack reports critical health; its capacity and links are withheld'') w
      | Health_Unknown \<Rightarrow>
          add_member_reason (mk_reason Reason_EvidenceMissing
            ''the rack health is unknown; its capacity and links are withheld'') w)"

definition apply_admin :: "admin_state \<Rightarrow> member_work \<Rightarrow> member_work" where
  "apply_admin a w =
     (if a = Admin_Maintenance then
        add_member_reason (mk_reason Reason_MemberMaintenance
          ''the rack is in an administrative window'') w
      else if a = Admin_Draining then
        add_member_reason (mk_reason Reason_MemberDraining ''the rack is draining'') w
      else if a = Admin_Disabled then
        add_member_reason (mk_reason Reason_MemberDisabled ''the rack is administratively disabled'')
          (w\<lparr>mw_capacity_usable := False, mw_connectivity_usable := False\<rparr>)
      else w)"

definition establish_member :: "member_record \<Rightarrow> member_work \<Rightarrow> member_work" where
  "establish_member r w =
     apply_admin (mr_admin r) (apply_health (mr_health r)
       (w\<lparr>mw_verdict := (mw_verdict w)\<lparr>mv_status := Mem_Established\<rparr>, mw_established := True\<rparr>))"

definition copy_record :: "member_record \<Rightarrow> member_work \<Rightarrow> member_work" where
  "copy_record r w =
     w\<lparr>mw_verdict := (mw_verdict w)
        \<lparr>mv_generation := mr_generation r, mv_digest := mr_digest r,
         mv_membership := mr_membership r, mv_admin := mr_admin r, mv_health := mr_health r,
         mv_domains := canonicalise (mr_failure_domains r)\<rparr>\<rparr>"

definition new_work :: "ident \<Rightarrow> member_record list \<Rightarrow> member_expectation option \<Rightarrow> member_work" where
  "new_work rack records e =
     \<lparr>mw_rack = rack,
      mw_record = (case records of [] \<Rightarrow> None | r # _ \<Rightarrow> Some r),
      mw_record_count = length records, mw_expectation = e,
      mw_verdict = member_verdict_default\<lparr>mv_rack := rack\<rparr>,
      mw_established = False, mw_capacity_usable = False, mw_connectivity_usable = False,
      mw_adopted = False\<rparr>"

text \<open>The decision about a record that is the only one of its rack.\<close>

definition judge_record ::
  "policy \<Rightarrow> nanos \<Rightarrow> member_record \<Rightarrow> member_expectation option \<Rightarrow> member_work \<Rightarrow> member_work result"
  where
  "judge_record p evaluated_at r e w =
     try_bind (member_gate p evaluated_at r) (\<lambda>gate.
       case gate of
         Some (st, reason) \<Rightarrow> Inr (set_status st reason w)
       | None \<Rightarrow>
           (case member_generation r e of
              (Some (st, reason), adopted) \<Rightarrow> Inr (set_status st reason w)
            | (None, adopted) \<Rightarrow>
                let w1 = w\<lparr>mw_adopted := adopted\<rparr> in
                (case member_join p r adopted of
                   Some (st, reason) \<Rightarrow> Inr (set_status st reason w1)
                 | None \<Rightarrow> Inr (establish_member r w1))))"

definition evaluate_member ::
  "policy \<Rightarrow> nanos \<Rightarrow> ident \<Rightarrow> member_record list \<Rightarrow> member_expectation option \<Rightarrow> member_work result"
  where
  "evaluate_member p evaluated_at rack records e =
     (let w = new_work rack records e in
      if length records > 1 then
        Inr (set_status Mem_Conflicting (mk_reason Reason_DuplicateIdentity
               ''more than one record claims this rack in the same observation'') w)
      else case records of
        [] \<Rightarrow>
          Inr (set_status Mem_Missing (mk_reason Reason_EvidenceMissing
                 ''the pod expects this rack but no evidence arrived'')
                (w\<lparr>mw_verdict := (mw_verdict w)\<lparr>mv_membership := Membership_Established\<rparr>\<rparr>))
      | r # _ \<Rightarrow> judge_record p evaluated_at r e (copy_record r w))"

section \<open>All members\<close>

definition member_fence :: "member_work \<Rightarrow> fence_action" where
  "member_fence w =
     \<lparr>fa_kind = Fence_Member, fa_subject = mw_rack w,
      fa_reason = (case mv_reasons (mw_verdict w) of
                     [] \<Rightarrow> mk_reason Reason_MemberFenced ''the rack is not established''
                   | r # _ \<Rightarrow> r)\<rparr>"

definition evaluate_members :: "composer \<Rightarrow> composer result" where
  "evaluate_members c =
     (let grouped = smap_group mr_rack (sn_members (cp_snapshot c));
          expectations = smap_index me_rack (\<lambda>e. e) (cx_expectations (cp_context c));
          racks = sset_of (map fst grouped @ map fst expectations)
      in try_then (reject_if (length racks > unat (po_max_members (cp_policy c)))
           Code_Exhausted ''composition covers more racks than the policy allows'')
        (try_bind (try_map (\<lambda>rack.
             evaluate_member (cp_policy c) (cp_evaluated_at c) rack
               (case smap_get grouped rack of None \<Rightarrow> [] | Some rs \<Rightarrow> rs)
               (smap_get expectations rack)) racks) (\<lambda>works.
         let members = sort_key mw_rack (cp_members c @ works) in
         Inr (c\<lparr>cp_members := members,
                cp_member_index := index_of mw_rack members,
                cp_fences := cp_fences c @
                  map member_fence (filter (\<lambda>w. mv_status (mw_verdict w) \<noteq> Mem_Established) members)\<rparr>))))"

text \<open>The vector \<open>next\<close> that the code builds here is discarded; only the epoch moves.\<close>

definition adopt_generation_advances :: "composer \<Rightarrow> composer result" where
  "adopt_generation_advances c =
     (if \<not> list_ex (\<lambda>w. mw_established w \<and> mw_adopted w) (cp_members c) then Inr c
      else if sequence_is_zero (cx_epoch (cp_context c)) then
        Inr (c\<lparr>cp_state := (cp_state c)\<lparr>ps_epoch := 1\<rparr>\<rparr>)
      else try_bind (sequence_next (cx_epoch (cp_context c))) (\<lambda>bumped.
        Inr (c\<lparr>cp_state := (cp_state c)\<lparr>ps_epoch := bumped\<rparr>\<rparr>)))"

section \<open>What an admitted member is\<close>

definition fresh_at :: "policy \<Rightarrow> nanos \<Rightarrow> nanos \<Rightarrow> bool" where
  "fresh_at p evaluated_at observed \<longleftrightarrow>
     observed = 0 \<or> po_evidence_ttl p \<le> 0 \<or>
     (evaluated_at - observed \<le> po_evidence_ttl p \<and>
      - po_clock_skew p \<le> evaluated_at - observed)"

lemma fresh_None_iff: "fresh p t obs = Inr x \<Longrightarrow> x = None \<longleftrightarrow> fresh_at p t obs"
  by (auto simp: fresh_def fresh_at_def i64_sub_def i64_neg_def i64_result_def result_simps
      split: if_splits)

definition newer_than :: "member_record \<Rightarrow> member_expectation option \<Rightarrow> bool" where
  "newer_than r e \<longleftrightarrow>
     (case e of None \<Rightarrow> True | Some x \<Rightarrow> me_generation x < mr_generation r)"

definition matches :: "member_record \<Rightarrow> member_expectation option \<Rightarrow> bool" where
  "matches r e \<longleftrightarrow>
     (case e of None \<Rightarrow> False
      | Some x \<Rightarrow> mr_generation r = me_generation x \<and> mr_digest r = me_digest x)"

text \<open>The evidence that establishes a rack: one record, fresh, of a supported schema, declaring
  itself established, and either exactly what the pod recorded or newer and admissible as a join under the policy.\<close>

definition admissible ::
  "policy \<Rightarrow> nanos \<Rightarrow> member_record list \<Rightarrow> member_expectation option \<Rightarrow> bool" where
  "admissible p evaluated_at records e \<longleftrightarrow>
     (case records of
        [r] \<Rightarrow> fresh_at p evaluated_at (mr_observed_at r) \<and>
               schema_supported p (mr_rnf_schema r) \<and> mr_membership r = Membership_Established \<and>
               (matches r e \<or> newer_than r e \<and> join_admissible p r)
      | _ \<Rightarrow> False)"

lemma set_status_simps [simp]:
  "mw_rack (set_status st r w) = mw_rack w"
  "mw_record (set_status st r w) = mw_record w"
  "mw_expectation (set_status st r w) = mw_expectation w"
  "mw_established (set_status st r w) = mw_established w"
  "mw_capacity_usable (set_status st r w) = mw_capacity_usable w"
  "mw_connectivity_usable (set_status st r w) = mw_connectivity_usable w"
  "mw_adopted (set_status st r w) = mw_adopted w"
  "mv_status (mw_verdict (set_status st r w)) = st"
  "mv_rack (mw_verdict (set_status st r w)) = mv_rack (mw_verdict w)"
  "mv_generation (mw_verdict (set_status st r w)) = mv_generation (mw_verdict w)"
  "mv_digest (mw_verdict (set_status st r w)) = mv_digest (mw_verdict w)"
  "mv_admin (mw_verdict (set_status st r w)) = mv_admin (mw_verdict w)"
  "mv_health (mw_verdict (set_status st r w)) = mv_health (mw_verdict w)"
  "mv_domains (mw_verdict (set_status st r w)) = mv_domains (mw_verdict w)"
  "mv_reasons (mw_verdict (set_status st r w)) = mv_reasons (mw_verdict w) @ [r]"
  by (simp_all add: set_status_def)

lemma add_member_reason_simps [simp]:
  "mw_rack (add_member_reason r w) = mw_rack w"
  "mw_record (add_member_reason r w) = mw_record w"
  "mw_expectation (add_member_reason r w) = mw_expectation w"
  "mw_established (add_member_reason r w) = mw_established w"
  "mw_capacity_usable (add_member_reason r w) = mw_capacity_usable w"
  "mw_connectivity_usable (add_member_reason r w) = mw_connectivity_usable w"
  "mw_adopted (add_member_reason r w) = mw_adopted w"
  "mv_status (mw_verdict (add_member_reason r w)) = mv_status (mw_verdict w)"
  "mv_rack (mw_verdict (add_member_reason r w)) = mv_rack (mw_verdict w)"
  "mv_generation (mw_verdict (add_member_reason r w)) = mv_generation (mw_verdict w)"
  "mv_digest (mw_verdict (add_member_reason r w)) = mv_digest (mw_verdict w)"
  "mv_admin (mw_verdict (add_member_reason r w)) = mv_admin (mw_verdict w)"
  "mv_health (mw_verdict (add_member_reason r w)) = mv_health (mw_verdict w)"
  "mv_domains (mw_verdict (add_member_reason r w)) = mv_domains (mw_verdict w)"
  "mv_reasons (mw_verdict (add_member_reason r w)) = mv_reasons (mw_verdict w) @ [r]"
  by (simp_all add: add_member_reason_def)

definition usable_record :: "member_record \<Rightarrow> bool" where
  "usable_record r \<longleftrightarrow>
     (mr_health r = Health_Ok \<or> mr_health r = Health_Impaired) \<and> mr_admin r \<noteq> Admin_Disabled"

lemma establish_member_simps [simp]:
  "mw_rack (establish_member r w) = mw_rack w"
  "mw_record (establish_member r w) = mw_record w"
  "mw_expectation (establish_member r w) = mw_expectation w"
  "mw_established (establish_member r w)"
  "mw_adopted (establish_member r w) = mw_adopted w"
  "mv_status (mw_verdict (establish_member r w)) = Mem_Established"
  "mv_rack (mw_verdict (establish_member r w)) = mv_rack (mw_verdict w)"
  "mv_generation (mw_verdict (establish_member r w)) = mv_generation (mw_verdict w)"
  "mv_digest (mw_verdict (establish_member r w)) = mv_digest (mw_verdict w)"
  "mv_admin (mw_verdict (establish_member r w)) = mv_admin (mw_verdict w)"
  "mv_health (mw_verdict (establish_member r w)) = mv_health (mw_verdict w)"
  "mv_domains (mw_verdict (establish_member r w)) = mv_domains (mw_verdict w)"
  by (simp_all add: establish_member_def apply_admin_def apply_health_def split: health_state.split)

lemma establish_member_usable:
  assumes "\<not> mw_capacity_usable w" "\<not> mw_connectivity_usable w"
  shows "mw_capacity_usable (establish_member r w) \<longleftrightarrow> usable_record r"
    "mw_connectivity_usable (establish_member r w) \<longleftrightarrow> usable_record r"
  using assms
  by (simp_all add: establish_member_def apply_admin_def apply_health_def usable_record_def
      split: health_state.split)

lemma new_work_simps [simp]:
  "mw_rack (new_work k rs e) = k"
  "mw_record (new_work k rs e) = (case rs of [] \<Rightarrow> None | r # _ \<Rightarrow> Some r)"
  "mw_expectation (new_work k rs e) = e"
  "\<not> mw_established (new_work k rs e)"
  "\<not> mw_capacity_usable (new_work k rs e)"
  "\<not> mw_connectivity_usable (new_work k rs e)"
  "\<not> mw_adopted (new_work k rs e)"
  "mv_rack (mw_verdict (new_work k rs e)) = k"
  by (simp_all add: new_work_def)

lemma copy_record_simps [simp]:
  "mw_rack (copy_record r w) = mw_rack w"
  "mw_record (copy_record r w) = mw_record w"
  "mw_expectation (copy_record r w) = mw_expectation w"
  "mw_established (copy_record r w) = mw_established w"
  "mw_capacity_usable (copy_record r w) = mw_capacity_usable w"
  "mw_connectivity_usable (copy_record r w) = mw_connectivity_usable w"
  "mw_adopted (copy_record r w) = mw_adopted w"
  "mv_rack (mw_verdict (copy_record r w)) = mv_rack (mw_verdict w)"
  "mv_generation (mw_verdict (copy_record r w)) = mr_generation r"
  "mv_digest (mw_verdict (copy_record r w)) = mr_digest r"
  "mv_admin (mw_verdict (copy_record r w)) = mr_admin r"
  "mv_health (mw_verdict (copy_record r w)) = mr_health r"
  "mv_domains (mw_verdict (copy_record r w)) = canonicalise (mr_failure_domains r)"
  by (simp_all add: copy_record_def)

text \<open>What every work record satisfies when it leaves the evaluation.\<close>

definition work_ok :: "member_work \<Rightarrow> bool" where
  "work_ok w \<longleftrightarrow>
     mv_rack (mw_verdict w) = mw_rack w \<and>
     (mv_status (mw_verdict w) = Mem_Established \<longleftrightarrow> mw_established w) \<and>
     (mw_established w \<longrightarrow> (\<exists>r. mw_record w = Some r \<and>
        mv_generation (mw_verdict w) = mr_generation r \<and> mv_digest (mw_verdict w) = mr_digest r \<and>
        mv_admin (mw_verdict w) = mr_admin r \<and> mv_health (mw_verdict w) = mr_health r \<and>
        mv_domains (mw_verdict w) = canonicalise (mr_failure_domains r) \<and>
        (mw_capacity_usable w \<longleftrightarrow> usable_record r) \<and>
        (mw_connectivity_usable w \<longleftrightarrow> usable_record r))) \<and>
     (mw_capacity_usable w \<longrightarrow> mw_established w) \<and>
     (mw_connectivity_usable w \<longrightarrow> mw_established w) \<and>
     (\<not> mw_established w \<longrightarrow> mv_reasons (mw_verdict w) \<noteq> [])"

lemma member_gate_cases:
  assumes "member_gate p t r = Inr g"
  shows "(g = None \<longleftrightarrow> fresh_at p t (mr_observed_at r) \<and> schema_supported p (mr_rnf_schema r) \<and>
       (mr_membership r = Membership_Established \<or> mr_membership r = Membership_Joining)) \<and>
     (\<forall>st why. g = Some (st, why) \<longrightarrow> st \<noteq> Mem_Established)"
proof -
  obtain f where f: "fresh p t (mr_observed_at r) = Inr f"
    using assms by (auto simp: member_gate_def result_simps)
  show ?thesis
    using assms fresh_None_iff[OF f] f
    by (cases "mr_membership r"; cases f) (auto simp: member_gate_def split: if_splits)
qed

lemma member_generation_cases:
  "(fst (member_generation r e) = None \<longleftrightarrow> matches r e \<or> newer_than r e) \<and>
   snd (member_generation r e) = newer_than r e \<and>
   (\<forall>st why. fst (member_generation r e) = Some (st, why) \<longrightarrow> st \<noteq> Mem_Established)"
  by (auto simp: member_generation_def matches_def newer_than_def split: option.splits)

lemma member_join_cases:
  "(member_join p r a = None \<longleftrightarrow>
     mr_membership r \<noteq> Membership_Joining \<and> (a \<longrightarrow> join_admissible p r)) \<and>
   (\<forall>st why. member_join p r a = Some (st, why) \<longrightarrow> st \<noteq> Mem_Established)"
  by (auto simp: member_join_def)

lemma matches_not_newer: "matches r e \<Longrightarrow> \<not> newer_than r e"
  by (auto simp: matches_def newer_than_def split: option.splits)

lemma judge_record_established:
  assumes "judge_record p t r e w = Inr w'" "\<not> mw_established w"
  shows "mw_established w' \<longleftrightarrow> admissible p t [r] e"
    "mv_status (mw_verdict w') = Mem_Established \<longleftrightarrow> mw_established w'"
proof -
  obtain g where g: "member_gate p t r = Inr g"
    using assms(1) by (auto simp: judge_record_def result_simps)
  note facts = member_gate_cases[OF g] member_generation_cases[of r e] member_join_cases[of p r True]
    member_join_cases[of p r False]
    matches_not_newer[of r e]
  show "mw_established w' \<longleftrightarrow> admissible p t [r] e"
    using assms g facts
    by (auto simp: judge_record_def admissible_def Let_def split: option.splits prod.splits)
  show "mv_status (mw_verdict w') = Mem_Established \<longleftrightarrow> mw_established w'"
    using assms g facts
    by (auto simp: judge_record_def Let_def split: option.splits prod.splits)
qed

lemma judge_record_work_ok:
  assumes "judge_record p t r e (copy_record r (new_work k [r] e)) = Inr w"
  shows "work_ok w" "mw_rack w = k" "mw_record w = Some r" "mw_expectation w = e"
    "mw_established w \<Longrightarrow> mw_adopted w \<longleftrightarrow> newer_than r e"
proof -
  have e: "mw_established w \<longleftrightarrow> admissible p t [r] e"
    "mv_status (mw_verdict w) = Mem_Established \<longleftrightarrow> mw_established w"
    using judge_record_established[OF assms] by simp_all
  show "mw_rack w = k" "mw_record w = Some r" "mw_expectation w = e"
    using assms by (auto simp: judge_record_def Let_def result_simps split: option.splits prod.splits)
  show "mw_established w \<Longrightarrow> mw_adopted w \<longleftrightarrow> newer_than r e"
    using assms member_generation_cases[of r e]
    by (auto simp: judge_record_def Let_def result_simps split: option.splits prod.splits)
  show "work_ok w"
    using assms e(2)
    by (auto simp: judge_record_def Let_def result_simps work_ok_def establish_member_usable
        split: option.splits prod.splits)
qed

lemma evaluate_member_facts:
  assumes "evaluate_member p t k rs e = Inr w"
  shows "work_ok w" "mw_rack w = k" "mw_expectation w = e"
    "mw_record w = (case rs of [] \<Rightarrow> None | r # _ \<Rightarrow> Some r)"
    "mw_established w \<longleftrightarrow> admissible p t rs e"
    "mw_established w \<Longrightarrow> mw_adopted w \<longleftrightarrow> newer_than (hd rs) e"
proof -
  consider "rs = []" | r where "rs = [r]" | r r' rs' where "rs = r # r' # rs'"
    by (metis list.exhaust)
  then have "work_ok w \<and> mw_rack w = k \<and> mw_expectation w = e \<and>
      mw_record w = (case rs of [] \<Rightarrow> None | r # _ \<Rightarrow> Some r) \<and>
      (mw_established w \<longleftrightarrow> admissible p t rs e) \<and>
      (mw_established w \<longrightarrow> (mw_adopted w \<longleftrightarrow> newer_than (hd rs) e))"
  proof cases
    case 1
    with assms show ?thesis
      by (auto simp: evaluate_member_def Let_def work_ok_def admissible_def set_status_def
          new_work_def member_verdict_default_def)
  next
    case 2
    with assms have j: "judge_record p t r e (copy_record r (new_work k [r] e)) = Inr w"
      by (simp add: evaluate_member_def Let_def)
    with judge_record_work_ok[OF j] judge_record_established[OF j] 2 show ?thesis by simp
  next
    case 3
    with assms show ?thesis
      by (auto simp: evaluate_member_def Let_def work_ok_def admissible_def)
  qed
  then show "work_ok w" "mw_rack w = k" "mw_expectation w = e"
    "mw_record w = (case rs of [] \<Rightarrow> None | r # _ \<Rightarrow> Some r)"
    "mw_established w \<longleftrightarrow> admissible p t rs e"
    "mw_established w \<Longrightarrow> mw_adopted w \<longleftrightarrow> newer_than (hd rs) e"
    by auto
qed

section \<open>Indexes\<close>

lemma index_of_get:
  assumes "distinct (map key xs)" "x \<in> set xs"
  shows "at_index (index_of key xs) xs (key x) = Some x"
proof -
  obtain i where i: "i < length xs" "xs ! i = x" using assms(2) by (auto simp: in_set_conv_nth)
  have "distinct (map (\<lambda>i. key (xs ! i)) [0..<length xs])"
    using assms(1) by (simp add: distinct_conv_nth)
  then have "smap_get (index_of key xs) (key (xs ! i)) = Some i"
    unfolding index_of_def
    using smap_index_distinct[where key = "\<lambda>i. key (xs ! i)" and val = "\<lambda>i. i"] i(1) by simp
  then show ?thesis using i by (simp add: at_index_def)
qed

lemma index_of_None: "at_index (index_of key xs) xs k = None \<longleftrightarrow> k \<notin> key ` set xs"
proof -
  have "key ` set xs = key ` set (map ((!) xs) [0..<length xs])"
    by (simp only: map_nth)
  also have "\<dots> = (\<lambda>i. key (xs ! i)) ` {0..<length xs}"
    by (simp only: set_map image_image set_upt)
  finally show ?thesis by (simp add: at_index_def index_of_def omap_simps)
qed

lemma index_of_SomeD: "at_index (index_of key xs) xs k = Some x \<Longrightarrow> x \<in> set xs \<and> key x = k"
  using smap_index_SomeD[where key = "\<lambda>i. key (xs ! i)" and val = "\<lambda>i. i" and xs = "[0..<length xs]"]
  by (fastforce simp: at_index_def index_of_def)

lemma update_at_index_of:
  assumes "distinct (map key xs)"
  shows "update_at (index_of key xs) k f xs = map (\<lambda>x. if key x = k then f x else x) xs"
proof (cases "smap_get (index_of key xs) k")
  case None
  then have "\<forall>x \<in> set xs. key x \<noteq> k"
    using index_of_None[of key xs k] by (auto simp: at_index_def)
  with None show ?thesis by (simp add: update_at_def map_idI)
next
  case (Some i)
  then have "i \<in> set [0..<length xs] \<and> key (xs ! i) = k"
    using smap_index_SomeD[where key = "\<lambda>i. key (xs ! i)" and val = "\<lambda>i. i" and xs = "[0..<length xs]"]
    by (auto simp: index_of_def)
  then have i: "i < length xs" "key (xs ! i) = k" by simp_all
  have "key (xs ! j) = k \<longleftrightarrow> j = i" if "j < length xs" for j
    using assms i that by (auto simp: distinct_conv_nth)
  then have "xs[i := f (xs ! i)] = map (\<lambda>x. if key x = k then f x else x) xs"
    using i by (intro nth_equalityI) (auto simp: nth_list_update)
  with Some show ?thesis by (simp add: update_at_def)
qed

section \<open>The result of the member stage\<close>

lemma evaluate_members_frame:
  "evaluate_members c = Inr c' \<Longrightarrow>
     cp_request c' = cp_request c \<and> cp_state c' = cp_state c \<and> cp_domains c' = cp_domains c \<and>
     cp_pairs c' = cp_pairs c \<and> cp_ledger c' = cp_ledger c \<and> cp_degradations c' = cp_degradations c"
  by (auto simp: evaluate_members_def Let_def result_simps)

definition grouped_records :: "composition_request \<Rightarrow> ident \<Rightarrow> member_record list" where
  "grouped_records r rack = filter (\<lambda>m. mr_rack m = rack) (sn_members (rq_snapshot r))"

definition expectation_of :: "composition_request \<Rightarrow> ident \<Rightarrow> member_expectation option" where
  "expectation_of r rack = smap_get (smap_index me_rack (\<lambda>e. e) (cx_expectations (rq_context r))) rack"

definition known_racks :: "composition_request \<Rightarrow> ident set" where
  "known_racks r = mr_rack ` set (sn_members (rq_snapshot r)) \<union>
     me_rack ` set (cx_expectations (rq_context r))"

lemma evaluate_members_result:
  assumes "evaluate_members c = Inr c'" "cp_members c = []"
  shows "list_all2 (\<lambda>rack w. evaluate_member (cp_policy c) (cp_evaluated_at c) rack
            (grouped_records (cp_request c) rack) (expectation_of (cp_request c) rack) = Inr w)
          (map mw_rack (cp_members c')) (cp_members c')"
    "sorted_wrt (<) (map mw_rack (cp_members c'))"
    "set (map mw_rack (cp_members c')) = known_racks (cp_request c)"
    "cp_member_index c' = index_of mw_rack (cp_members c')"
    "cp_fences c' = cp_fences c @ map member_fence
       (filter (\<lambda>w. mv_status (mw_verdict w) \<noteq> Mem_Established) (cp_members c'))"
proof -
  let ?g = "smap_group mr_rack (sn_members (cp_snapshot c))"
  let ?x = "smap_index me_rack (\<lambda>e. e) (cx_expectations (cp_context c))"
  let ?racks = "sset_of (map fst ?g @ map fst ?x)"
  let ?f = "\<lambda>rack. evaluate_member (cp_policy c) (cp_evaluated_at c) rack
     (case smap_get ?g rack of None \<Rightarrow> [] | Some rs \<Rightarrow> rs) (smap_get ?x rack)"
  obtain works where w: "try_map ?f ?racks = Inr works"
    and c': "c' = c\<lparr>cp_members := sort_key mw_rack works,
       cp_member_index := index_of mw_rack (sort_key mw_rack works),
       cp_fences := cp_fences c @ map member_fence (filter (\<lambda>w. mv_status (mw_verdict w) \<noteq> Mem_Established)
         (sort_key mw_rack works))\<rparr>"
    using assms by (auto simp: evaluate_members_def Let_def result_simps)
  have all: "list_all2 (\<lambda>rack w. ?f rack = Inr w) ?racks works"
    using w by (simp add: try_map_Inr)
  then have r: "map mw_rack works = ?racks"
    using evaluate_member_facts(2) by (induction rule: list_all2_induct) auto
  have st: "sorted_wrt (<) ?racks" by (rule sset_of_strict)
  then have s: "sort_key mw_rack works = works"
    using r strict_sorted_iff[of ?racks] by (simp add: sort_key_id_if_sorted)
  have g: "(case smap_get ?g rack of None \<Rightarrow> [] | Some rs \<Rightarrow> rs) = grouped_records (cp_request c) rack"
    for rack
  proof -
    have "filter (\<lambda>m. mr_rack m = rack) (sn_members (cp_snapshot c)) = []"
      if "rack \<notin> mr_rack ` set (sn_members (cp_snapshot c))"
      using that by (auto simp: filter_empty_conv)
    then show ?thesis by (auto simp: omap_simps grouped_records_def)
  qed
  show "list_all2 (\<lambda>rack w. evaluate_member (cp_policy c) (cp_evaluated_at c) rack
            (grouped_records (cp_request c) rack) (expectation_of (cp_request c) rack) = Inr w)
          (map mw_rack (cp_members c')) (cp_members c')"
    using all by (simp add: c' s r g expectation_of_def)
  show "sorted_wrt (<) (map mw_rack (cp_members c'))" using st by (simp add: c' s r)
  show "set (map mw_rack (cp_members c')) = known_racks (cp_request c)"
    unfolding c' s by (simp add: s r omap_simps known_racks_def flip: set_map)
  show "cp_member_index c' = index_of mw_rack (cp_members c')"
    "cp_fences c' = cp_fences c @ map member_fence
       (filter (\<lambda>w. mv_status (mw_verdict w) \<noteq> Mem_Established) (cp_members c'))"
    by (simp_all add: c')
qed


section \<open>Reasons are the only part of a member that later stages touch\<close>

definition bare :: "member_work \<Rightarrow> member_work" where
  "bare w = w\<lparr>mw_verdict := (mw_verdict w)\<lparr>mv_reasons := []\<rparr>\<rparr>"

lemma verdict_eq_fields:
  "v\<lparr>mv_reasons := []\<rparr> = v'\<lparr>mv_reasons := []\<rparr> \<Longrightarrow>
    mv_status v = mv_status v' \<and> mv_rack v = mv_rack v' \<and> mv_generation v = mv_generation v' \<and>
    mv_digest v = mv_digest v' \<and> mv_admin v = mv_admin v' \<and> mv_health v = mv_health v' \<and>
    mv_domains v = mv_domains v'"
  by (cases v; cases v') simp

lemma bare_eq_fields:
  assumes "bare w = bare w'"
  shows "mw_rack w = mw_rack w'" "mw_record w = mw_record w'"
    "mw_expectation w = mw_expectation w'" "mw_established w = mw_established w'"
    "mw_capacity_usable w = mw_capacity_usable w'"
    "mw_connectivity_usable w = mw_connectivity_usable w'" "mw_adopted w = mw_adopted w'"
    "mv_status (mw_verdict w) = mv_status (mw_verdict w')"
    "mv_rack (mw_verdict w) = mv_rack (mw_verdict w')"
    "mv_generation (mw_verdict w) = mv_generation (mw_verdict w')"
    "mv_digest (mw_verdict w) = mv_digest (mw_verdict w')"
    "mv_admin (mw_verdict w) = mv_admin (mw_verdict w')"
    "mv_health (mw_verdict w) = mv_health (mw_verdict w')"
    "mv_domains (mw_verdict w) = mv_domains (mw_verdict w')"
proof -
  have v: "(mw_verdict w)\<lparr>mv_reasons := []\<rparr> = (mw_verdict w')\<lparr>mv_reasons := []\<rparr>"
    using arg_cong[OF assms, of mw_verdict] by (simp add: bare_def)
  show "mv_status (mw_verdict w) = mv_status (mw_verdict w')"
    "mv_rack (mw_verdict w) = mv_rack (mw_verdict w')"
    "mv_generation (mw_verdict w) = mv_generation (mw_verdict w')"
    "mv_digest (mw_verdict w) = mv_digest (mw_verdict w')"
    "mv_admin (mw_verdict w) = mv_admin (mw_verdict w')"
    "mv_health (mw_verdict w) = mv_health (mw_verdict w')"
    "mv_domains (mw_verdict w) = mv_domains (mw_verdict w')"
    using verdict_eq_fields[OF v] by simp_all
  show "mw_rack w = mw_rack w'" "mw_record w = mw_record w'"
    "mw_expectation w = mw_expectation w'" "mw_established w = mw_established w'"
    "mw_capacity_usable w = mw_capacity_usable w'"
    "mw_connectivity_usable w = mw_connectivity_usable w'" "mw_adopted w = mw_adopted w'"
    using assms by (cases w; cases w'; simp add: bare_def)+
qed

end
