(* ===== verification/Domains.thy ===== *)
theory Domains
  imports Members
begin

text \<open>
  The composition, part two: \<open>evaluate_domains\<close> and \<open>evaluate_capacity\<close> of
  \<open>engine/composer.cpp\<close>.
\<close>

section \<open>Failure domains\<close>

definition domain_reason :: "reason_code \<Rightarrow> string \<Rightarrow> domain_work \<Rightarrow> domain_work" where
  "domain_reason k s w =
     w\<lparr>dw_verdict := (dw_verdict w)\<lparr>dv_reasons := dv_reasons (dw_verdict w) @ [mk_reason k s]\<rparr>\<rparr>"

definition domain_set_status :: "domain_status \<Rightarrow> domain_work \<Rightarrow> domain_work" where
  "domain_set_status st w = w\<lparr>dw_verdict := (dw_verdict w)\<lparr>dv_status := st\<rparr>\<rparr>"

definition new_domain :: "ident \<Rightarrow> failure_domain_record option \<Rightarrow> domain_work" where
  "new_domain i r =
     (let declared = canonicalise (case r of None \<Rightarrow> [] | Some d \<Rightarrow> fd_members d);
          kind = (case r of None \<Rightarrow> Kind_Unknown | Some d \<Rightarrow> fd_kind d)
      in \<lparr>dw_id = i, dw_kind = kind, dw_record = r, dw_implicit = (r = None), dw_declared = declared,
          dw_verdict = \<lparr>dv_id = i, dv_kind = kind, dv_status = Dom_Ok,
                        dv_declared_members = declared, dv_effective_members = [],
                        dv_reasons = []\<rparr>\<rparr>)"

text \<open>A declared rack must be described and must declare the domain.\<close>

definition check_declared :: "composer \<Rightarrow> ident \<Rightarrow> domain_work \<Rightarrow> domain_work" where
  "check_declared c rack w =
     (case find_work c rack of
        None \<Rightarrow> domain_reason Reason_EvidenceMissing
                  ''the failure domain lists a rack that the snapshot does not describe'' w
      | Some m \<Rightarrow>
          if mw_record m = None then
            domain_reason Reason_EvidenceMissing
              ''the failure domain lists a rack that the snapshot does not describe'' w
          else if dw_id w \<notin> set (mv_domains (mw_verdict m)) then
            domain_reason Reason_DomainMembershipConflict
              ''the rack does not declare this failure domain'' (domain_set_status Dom_Conflicting w)
          else w)"

text \<open>A member that declares the domain must be listed by it.\<close>

definition check_member :: "member_work \<Rightarrow> domain_work \<Rightarrow> domain_work" where
  "check_member m w =
     (if dw_id w \<notin> set (mv_domains (mw_verdict m)) then w
      else if mw_rack m \<notin> set (dw_declared w) then
        domain_reason Reason_DomainMembershipConflict
          ''the rack declares this failure domain but the domain does not list it''
          (domain_set_status Dom_Conflicting w)
      else w)"

definition is_effective :: "composer \<Rightarrow> ident \<Rightarrow> bool" where
  "is_effective c rack \<longleftrightarrow>
     (case find_work c rack of None \<Rightarrow> False
      | Some m \<Rightarrow> mw_established m \<and> mw_connectivity_usable m)"

definition settle_domain :: "domain_work \<Rightarrow> domain_work" where
  "settle_domain w =
     (if dv_status (dw_verdict w) \<noteq> Dom_Conflicting then
        if dw_declared w = [] then
          domain_reason Reason_EvidenceMissing ''the failure domain has no members''
            (domain_set_status Dom_Incomplete w)
        else if dv_effective_members (dw_verdict w) = [] then
          domain_reason Reason_MemberFenced ''no member of the failure domain is established''
            (domain_set_status Dom_Degraded w)
        else if dw_implicit w then domain_set_status Dom_Incomplete w
        else domain_set_status Dom_Ok w
      else w)"

definition evaluate_domain :: "composer \<Rightarrow> domain_work \<Rightarrow> domain_work" where
  "evaluate_domain c w =
     (let w1 = (if dw_implicit w
                then domain_reason Reason_EvidenceMissing
                       ''the failure domain is referenced but never declared''
                       (domain_set_status Dom_Incomplete w)
                else w);
          w2 = fold (check_declared c) (dw_declared w) w1;
          w3 = fold check_member (cp_members c) w2;
          effective = canonicalise (dv_effective_members (dw_verdict w3) @
                        filter (is_effective c) (dw_declared w));
          w4 = w3\<lparr>dw_verdict := (dw_verdict w3)\<lparr>dv_effective_members := effective\<rparr>\<rparr>
      in settle_domain w4)"

definition overlap_domain :: "domain_work \<Rightarrow> domain_work" where
  "overlap_domain w =
     domain_reason Reason_DomainOverlap ''the failure domain overlaps another domain of the same kind''
       (domain_set_status Dom_Conflicting w)"

definition overlap_member :: "member_work \<Rightarrow> member_work" where
  "overlap_member w =
     add_member_reason (mk_reason Reason_DomainOverlap
       ''the rack belongs to more than one failure domain of the same kind'') w"

definition kind_of :: "composer \<Rightarrow> ident \<Rightarrow> domain_kind" where
  "kind_of c i = (case find_domain_work c i of None \<Rightarrow> Kind_Unknown | Some d \<Rightarrow> dw_kind d)"

text \<open>\<open>by_kind[rack][kind]\<close>: the domains a rack names, grouped by kind.\<close>

definition domains_by_kind :: "composer \<Rightarrow> (ident, (domain_kind, ident list) smap) smap" where
  "domains_by_kind c =
     smap_index mw_rack (\<lambda>m. smap_group (kind_of c) (mv_domains (mw_verdict m)))
       (filter (\<lambda>m. mv_domains (mw_verdict m) \<noteq> []) (cp_members c))"

definition report_overlap :: "ident \<Rightarrow> domain_kind \<times> ident list \<Rightarrow> composer \<Rightarrow> composer" where
  "report_overlap rack e c =
     (if length (snd e) < 2 then c
      else c\<lparr>cp_domains :=
               fold (\<lambda>i. update_at (cp_domain_index c) i overlap_domain) (sort (snd e)) (cp_domains c),
             cp_members := update_at (cp_member_index c) rack overlap_member (cp_members c)\<rparr>)"

definition report_overlaps :: "composer \<Rightarrow> composer" where
  "report_overlaps c =
     fold (\<lambda>(rack, kinds). fold (report_overlap rack) kinds) (domains_by_kind c) c"

definition domain_fence :: "domain_work \<Rightarrow> fence_action" where
  "domain_fence w =
     \<lparr>fa_kind = Fence_Member, fa_subject = dw_id w,
      fa_reason = mk_reason Reason_DomainOverlap ''failure-domain membership is inconsistent''\<rparr>"

definition evaluate_domains :: "composer \<Rightarrow> composer result" where
  "evaluate_domains c =
     (let declared = smap_index fd_id (\<lambda>d. d) (sn_domains (cp_snapshot c));
          referenced = sset_of (concat (map (\<lambda>w. mv_domains (mw_verdict w)) (cp_members c)));
          ids = sset_of (map fst declared @ referenced)
      in try_then (reject_if (length ids > unat (po_max_domains (cp_policy c)))
           Code_Exhausted ''composition covers more failure domains than allowed'')
        (let domains = sort_key dw_id
               (cp_domains c @ map (\<lambda>i. new_domain i (smap_get declared i)) ids);
             c1 = c\<lparr>cp_domains := domains, cp_domain_index := index_of dw_id domains\<rparr>;
             c2 = c1\<lparr>cp_domains := map (evaluate_domain c1) domains\<rparr>;
             c3 = report_overlaps c2
         in Inr (c3\<lparr>cp_fences := cp_fences c3 @
               map domain_fence
                 (filter (\<lambda>w. dv_status (dw_verdict w) = Dom_Conflicting) (cp_domains c3))\<rparr>)))"

section \<open>Capacity\<close>

definition ledger_entry :: "ident \<Rightarrow> capacity_claim \<Rightarrow> ledger_claim" where
  "ledger_entry rack claim =
     \<lparr>lc_resource = cc_resource claim, lc_exclusivity = cc_exclusivity claim, lc_owner = rack,
      lc_via_link = [], lc_amount = cc_amount claim, lc_reserved = cc_reserved claim,
      lc_domain = cc_domain claim, lc_provenance = cc_provenance claim\<rparr>"

definition file_claim :: "member_work \<Rightarrow> capacity_claim \<Rightarrow> capacity_ledger \<Rightarrow> capacity_ledger result"
  where
  "file_claim w claim l =
     (let entry = ledger_entry (mw_rack w) claim in
      if \<not> mw_established w then
        ledger_add_suppressed entry (mk_reason Reason_MemberFenced
          ''capacity from a rack that is not established is not counted'') l
      else if \<not> mw_capacity_usable w then
        ledger_add_suppressed entry (mk_reason Reason_MemberUnhealthy
          ''capacity from a rack without usable health evidence is not counted'') l
      else if cc_domain claim \<notin> set (mv_domains (mw_verdict w)) then
        ledger_add_suppressed entry (mk_reason Reason_DomainMembershipConflict
          ''capacity is attributed to a failure domain the rack does not declare'') l
      else ledger_add entry l)"

definition file_member :: "member_work \<Rightarrow> capacity_ledger \<Rightarrow> capacity_ledger result" where
  "file_member w l =
     (case mw_record w of None \<Rightarrow> Inr l | Some r \<Rightarrow> try_fold (file_claim w) (mr_capacity r) l)"

definition evaluate_capacity :: "composer \<Rightarrow> composer result" where
  "evaluate_capacity c =
     try_bind (try_fold file_member (cp_members c) (cp_ledger c)) (\<lambda>l.
       let frozen = ledger_freeze l in
       Inr (c\<lparr>cp_ledger := frozen,
              cp_state := (cp_state c)\<lparr>ps_capacity := lg_by_resource frozen,
                                        ps_domain_capacity := lg_by_domain frozen\<rparr>\<rparr>))"

section \<open>The overlap report leaves everything but statuses and reasons alone\<close>

lemma bare_overlap [simp]: "bare (overlap_member w) = bare w"
  by (simp add: bare_def overlap_member_def add_member_reason_def)

lemma update_at_overlap_bare: "map bare (update_at ix k overlap_member ms) = map bare ms"
proof (cases "smap_get ix k")
  case (Some i)
  then show ?thesis
    by (cases "i < length ms") (simp_all add: update_at_def map_update list_update_same_conv list_update_beyond)
qed (simp add: update_at_def)

definition bare_domain :: "domain_work \<Rightarrow> domain_work" where
  "bare_domain w = w\<lparr>dw_verdict := (dw_verdict w)
     \<lparr>dv_status := Dom_Ok, dv_effective_members := [], dv_reasons := []\<rparr>\<rparr>"

lemma bare_domain_fields:
  assumes "bare_domain w = bare_domain w'"
  shows "dw_id w = dw_id w'" "dw_kind w = dw_kind w'" "dw_record w = dw_record w'"
    "dw_implicit w = dw_implicit w'" "dw_declared w = dw_declared w'"
    "dv_id (dw_verdict w) = dv_id (dw_verdict w')"
    "dv_kind (dw_verdict w) = dv_kind (dw_verdict w')"
    "dv_declared_members (dw_verdict w) = dv_declared_members (dw_verdict w')"
proof -
  have v: "(dw_verdict w)\<lparr>dv_status := Dom_Ok, dv_effective_members := [], dv_reasons := []\<rparr> =
      (dw_verdict w')\<lparr>dv_status := Dom_Ok, dv_effective_members := [], dv_reasons := []\<rparr>"
    using arg_cong[OF assms, of dw_verdict] by (simp add: bare_domain_def)
  show "dv_id (dw_verdict w) = dv_id (dw_verdict w')"
    "dv_kind (dw_verdict w) = dv_kind (dw_verdict w')"
    "dv_declared_members (dw_verdict w) = dv_declared_members (dw_verdict w')"
    using v by (cases "dw_verdict w"; cases "dw_verdict w'"; simp)+
  show "dw_id w = dw_id w'" "dw_kind w = dw_kind w'" "dw_record w = dw_record w'"
    "dw_implicit w = dw_implicit w'" "dw_declared w = dw_declared w'"
    using assms by (cases w; cases w'; simp add: bare_domain_def)+
qed

lemma bare_domain_steps [simp]:
  "bare_domain (domain_reason k t w) = bare_domain w"
  "bare_domain (domain_set_status st w) = bare_domain w"
  by (simp_all add: bare_domain_def domain_reason_def domain_set_status_def)

lemma bare_check_declared [simp]: "bare_domain (check_declared c rack w) = bare_domain w"
  by (simp add: check_declared_def split: option.split)

lemma bare_check_member [simp]: "bare_domain (check_member m w) = bare_domain w"
  by (simp add: check_member_def)

lemma fold_same: "(\<And>x s. g (f x s) = g s) \<Longrightarrow> g (fold f xs s) = g s"
  by (induction xs arbitrary: s) simp_all

lemma bare_settle_domain [simp]: "bare_domain (settle_domain w) = bare_domain w"
  by (simp add: settle_domain_def)

lemma bare_effective [simp]:
  "bare_domain (w\<lparr>dw_verdict := (dw_verdict w)\<lparr>dv_effective_members := xs\<rparr>\<rparr>) = bare_domain w"
  by (simp add: bare_domain_def)

lemma bare_evaluate_domain [simp]: "bare_domain (evaluate_domain c d) = bare_domain d"
proof -
  have a: "bare_domain (fold (check_declared c) xs d) = bare_domain d" for xs d
    by (rule fold_same) simp
  have b: "bare_domain (fold check_member xs d) = bare_domain d" for xs d by (rule fold_same) simp
  show ?thesis by (simp add: evaluate_domain_def Let_def a b)
qed

definition same_frame :: "composer \<Rightarrow> composer \<Rightarrow> bool" where
  "same_frame c c' \<longleftrightarrow>
     cp_request c' = cp_request c \<and> cp_state c' = cp_state c \<and>
     map bare (cp_members c') = map bare (cp_members c) \<and>
     cp_member_index c' = cp_member_index c \<and> cp_domain_index c' = cp_domain_index c \<and>
     map bare_domain (cp_domains c') = map bare_domain (cp_domains c) \<and>
     cp_pairs c' = cp_pairs c \<and> cp_ledger c' = cp_ledger c \<and> cp_fences c' = cp_fences c \<and>
     cp_degradations c' = cp_degradations c"

lemma same_frame_refl [simp]: "same_frame c c"
  by (simp add: same_frame_def)

lemma same_frame_trans: "same_frame a b \<Longrightarrow> same_frame b c \<Longrightarrow> same_frame a c"
  by (simp add: same_frame_def)

lemma bare_overlap_domain [simp]: "bare_domain (overlap_domain d) = bare_domain d"
  by (simp add: overlap_domain_def)

lemma update_at_overlap_domains: "map bare_domain (update_at ix k overlap_domain ds) = map bare_domain ds"
proof (cases "smap_get ix k")
  case (Some i)
  then show ?thesis
    by (cases "i < length ds") (simp_all add: update_at_def map_update list_update_same_conv list_update_beyond)
qed (simp add: update_at_def)

lemma fold_overlap_domains:
  "map bare_domain (fold (\<lambda>i. update_at ix i overlap_domain) ids ds) = map bare_domain ds"
  by (induction ids arbitrary: ds) (simp_all add: update_at_overlap_domains)

lemma report_overlap_frame: "same_frame c (report_overlap rack e c)"
  by (simp add: report_overlap_def same_frame_def update_at_overlap_bare fold_overlap_domains)

lemma fold_frame: "(\<And>x c. same_frame c (f x c)) \<Longrightarrow> same_frame c (fold f xs c)"
  by (induction xs arbitrary: c) (auto intro: same_frame_trans)

lemma report_overlaps_frame: "same_frame c (report_overlaps c)"
  unfolding report_overlaps_def
  by (rule fold_frame) (auto intro!: fold_frame report_overlap_frame split: prod.split)

end
