(* ===== verification/Connectivity.thy ===== *)
theory Connectivity
  imports Domains
begin

text \<open>
  The composition, part three: the classification of links and routes and
  \<open>evaluate_connectivity\<close> of \<open>engine/composer.cpp\<close>.
\<close>

section \<open>Classifying links and routes\<close>

definition outcome :: "link_status \<Rightarrow> u64 \<Rightarrow> ident \<Rightarrow> reason list \<Rightarrow> link_outcome" where
  "outcome st cap res rs = \<lparr>lo_status = st, lo_capacity = cap, lo_resource = res, lo_reasons = rs\<rparr>"

lemma outcome_simps [simp]:
  "lo_status (outcome st cap res rs) = st"
  "lo_capacity (outcome st cap res rs) = cap"
  "lo_resource (outcome st cap res rs) = res"
  "lo_reasons (outcome st cap res rs) = rs"
  by (simp_all add: outcome_def)

text \<open>The routing decision a link cites, when it cites one.\<close>

definition cited_route :: "composer \<Rightarrow> link_record \<Rightarrow> link_outcome option" where
  "cited_route c l =
     (let bad = (\<lambda>st k s. Some (outcome st 0 (lk_resource l) [mk_reason k s])) in
      if is_nil (lk_route l) then None
      else case find (\<lambda>r. rt_ref r = lk_route l) (sn_routes (cp_snapshot c)) of
        None \<Rightarrow> bad Link_Indeterminate Reason_ClusterRoutingUnavailable
                  ''the link cites a routing decision that is not present in the evidence''
      | Some r \<Rightarrow>
          if rt_state r = Route_Withdrawn \<or> rt_state r = Route_Failed then
            bad Link_Blocked Reason_RouteWithdrawn ''the routing decision cited by the link is gone''
          else if rt_state r \<noteq> Route_Installed then
            bad Link_Indeterminate Reason_ClusterRoutingUnavailable
              ''the cited routing decision is not settled''
          else None)"

text \<open>The failure domain a link shares its fate with.\<close>

definition shared_fate :: "composer \<Rightarrow> link_record \<Rightarrow> link_outcome option" where
  "shared_fate c l =
     (case find_domain_work c (lk_domain l) of
        None \<Rightarrow> None
      | Some d \<Rightarrow>
          if dw_record d = None then None
          else if dv_status (dw_verdict d) = Dom_Conflicting then
            Some (outcome Link_Conflicting 0 (lk_resource l)
                    [mk_reason Reason_LinkConflicting ''the link failure domain is in conflict''])
          else if dv_status (dw_verdict d) = Dom_Degraded \<or> dv_status (dw_verdict d) = Dom_Incomplete
          then Some (outcome Link_Degraded (lk_capacity l) (lk_resource l)
                       [mk_reason Reason_LinkUnderCapacity
                          ''the link shares fate with an unhealthy failure domain''])
          else None)"

definition classify_settled :: "composer \<Rightarrow> link_record \<Rightarrow> member_work \<Rightarrow> member_work \<Rightarrow> link_outcome"
  where
  "classify_settled c l a b =
     (case cited_route c l of
        Some result \<Rightarrow> result
      | None \<Rightarrow>
          (case shared_fate c l of
             Some result \<Rightarrow> result
           | None \<Rightarrow>
               if lk_oper l = Oper_Degraded \<or> mv_health (mw_verdict a) = Health_Impaired \<or>
                  mv_health (mw_verdict b) = Health_Impaired
               then outcome Link_Degraded (lk_capacity l) (lk_resource l)
                      [mk_reason Reason_LinkUnderCapacity
                         ''the link or one of its endpoints is degraded'']
               else outcome Link_Usable (lk_capacity l) (lk_resource l) []))"

definition classify_link :: "composer \<Rightarrow> link_record \<Rightarrow> link_outcome result" where
  "classify_link c l =
     (let bad = (\<lambda>st k s. Inr (outcome st 0 (lk_resource l) [mk_reason k s])) in
      case (find_work c (le_rack (lk_a l)), find_work c (le_rack (lk_b l))) of
        (Some a, Some b) \<Rightarrow>
          if \<not> mw_established a \<or> \<not> mw_established b then
            bad Link_Blocked Reason_MemberFenced ''a link endpoint is not an established member''
          else if \<not> mw_connectivity_usable a \<or> \<not> mw_connectivity_usable b then
            bad Link_Blocked Reason_MemberUnhealthy ''a link endpoint has no usable health evidence''
          else if lk_admin l \<noteq> Admin_Enabled then
            bad Link_Blocked Reason_LinkAdminDown ''the link is not administratively enabled''
          else if lk_oper l = Oper_Down then
            bad Link_Blocked Reason_LinkDown ''the link reports itself down''
          else if lk_oper l = Oper_Unknown then
            bad Link_Indeterminate Reason_EvidenceMissing ''the link operational state is unknown''
          else if lk_a_generation l \<noteq> mv_generation (mw_verdict a) \<or>
                  lk_b_generation l \<noteq> mv_generation (mw_verdict b) then
            bad Link_Stale Reason_GenerationMismatch
              ''the link was observed against a superseded rack generation''
          else try_bind (fresh (cp_policy c) (cp_evaluated_at c) (lk_observed_at l)) (\<lambda>freshness.
            case freshness of
              Some r \<Rightarrow> Inr (outcome Link_Stale 0 (lk_resource l) [r])
            | None \<Rightarrow> Inr (classify_settled c l a b))
      | _ \<Rightarrow>
          bad Link_Indeterminate Reason_EvidenceMissing
            ''the link names a rack that is not a pod member'')"

text \<open>The hops of a route; reading past the end of \<open>path_generations\<close> is undefined.\<close>

fun classify_hops :: "composer \<Rightarrow> ident \<Rightarrow> ident list \<Rightarrow> sequence list \<Rightarrow> link_outcome option result"
  where
  "classify_hops c res [] gens = Inr None"
| "classify_hops c res (rack # racks) gens =
     (let bad = (\<lambda>st k s. Inr (Some (outcome st 0 res [mk_reason k s])));
          fenced = bad Link_Blocked Reason_MemberFenced
                     ''the route traverses a rack that is not established''
      in case find_work c rack of
           None \<Rightarrow> fenced
         | Some hop \<Rightarrow>
             if \<not> mw_established hop then fenced
             else case gens of
                    [] \<Rightarrow> Inl (Undefined ''path_generations index out of range'')
                  | g # gs \<Rightarrow>
                      if g \<noteq> mv_generation (mw_verdict hop) then
                        bad Link_Stale Reason_GenerationMismatch
                          ''the route was installed against a superseded rack generation''
                      else if \<not> mw_connectivity_usable hop then
                        bad Link_Blocked Reason_MemberUnhealthy
                          ''the route traverses a rack without usable health''
                      else classify_hops c res racks gs)"

definition classify_route :: "composer \<Rightarrow> route_evidence \<Rightarrow> link_outcome result" where
  "classify_route c r =
     (let bad = (\<lambda>st k s. Inr (outcome st 0 (rt_resource r) [mk_reason k s])) in
      if rt_state r = Route_Withdrawn \<or> rt_state r = Route_Failed then
        bad Link_Blocked Reason_RouteWithdrawn ''the routing decision is no longer installed''
      else if rt_state r \<noteq> Route_Installed then
        bad Link_Indeterminate Reason_ClusterRoutingUnavailable ''the routing decision is not settled''
      else try_bind (fresh (cp_policy c) (cp_evaluated_at c) (rt_observed_at r)) (\<lambda>freshness.
        case freshness of
          Some reason \<Rightarrow> Inr (outcome Link_Stale 0 (rt_resource r) [reason])
        | None \<Rightarrow>
            try_bind (classify_hops c (rt_resource r) (rt_path r) (rt_path_generations r)) (\<lambda>hops.
              case hops of
                Some bad \<Rightarrow> Inr bad
              | None \<Rightarrow> Inr (outcome Link_Usable (rt_committed_capacity r) (rt_resource r) []))))"

section \<open>Collecting the rack pairs\<close>

definition pair_key :: "ident \<Rightarrow> ident \<Rightarrow> ident \<times> ident" where
  "pair_key a b = (if b < a then (b, a) else (a, b))"

definition pair_default :: pair_work where
  "pair_default =
     \<lparr>pw_key = ([], []), pw_links = [], pw_routes = [], pw_verdict = connectivity_verdict_default\<rparr>"

definition add_pair :: "ident \<times> ident \<Rightarrow> (ident \<times> ident, pair_work) smap \<Rightarrow>
    (ident \<times> ident, pair_work) smap" where
  "add_pair e m =
     (case e of (left, right) \<Rightarrow>
        if left = right \<or> is_nil left \<or> is_nil right then m
        else smap_update pair_default (\<lambda>w. w)
               (if left < right then left else right, if left < right then right else left) m)"

text \<open>The consecutive hops of a path and its two ends; the ends of an empty path are undefined.\<close>

fun hop_pairs :: "ident list \<Rightarrow> (ident \<times> ident) list" where
  "hop_pairs (a # b # path) = (a, b) # hop_pairs (b # path)"
| "hop_pairs _ = []"

definition route_pairs :: "route_evidence \<Rightarrow> (ident \<times> ident) list result" where
  "route_pairs r =
     (if rt_path r = [] then Inl (Undefined ''front of an empty path'')
      else Inr (hop_pairs (rt_path r) @ [(hd (rt_path r), last (rt_path r))]))"

definition file_link :: "link_record \<Rightarrow> (ident \<times> ident, pair_work) smap \<Rightarrow>
    (ident \<times> ident, pair_work) smap" where
  "file_link l m =
     (let key = pair_key (le_rack (lk_a l)) (le_rack (lk_b l)) in
      case smap_get m key of
        None \<Rightarrow> m
      | Some w \<Rightarrow> smap_put key (w\<lparr>pw_links := pw_links w @ [l]\<rparr>) m)"

definition file_route :: "nat \<times> route_evidence \<Rightarrow> ident \<times> ident \<Rightarrow>
    (ident \<times> ident, pair_work) smap \<Rightarrow> (ident \<times> ident, pair_work) smap" where
  "file_route ir e m =
     (let key = pair_key (fst e) (snd e) in
      case smap_get m key of
        None \<Rightarrow> m
      | Some w \<Rightarrow>
          if fst ir \<in> set (map fst (pw_routes w)) then m
          else smap_put key (w\<lparr>pw_routes := pw_routes w @ [ir]\<rparr>) m)"

definition collect_pairs :: "composer \<Rightarrow> pair_work list result" where
  "collect_pairs c =
     (let links = sn_links (cp_snapshot c);
          routes = sn_routes (cp_snapshot c);
          racks = map mw_rack (filter mw_established (cp_members c))
      in try_bind (try_map route_pairs routes) (\<lambda>keys.
        let m1 = fold add_pair (map (\<lambda>l. (le_rack (lk_a l), le_rack (lk_b l))) links) [];
            m2 = fold add_pair (concat keys) m1;
            m3 = (if po_require_full_coverage (cp_policy c)
                  then fold add_pair (List.product racks racks) m2 else m2);
            m4 = fold file_link links m3;
            m5 = fold (\<lambda>(ir, ks). fold (file_route ir) ks) (zip (zip [0..<length routes] routes) keys) m4
        in Inr (sort_key pw_key (map (\<lambda>(k, w). w\<lparr>pw_key := k\<rparr>) m5))))"

section \<open>The verdict of a pair\<close>

record pair_tally =
  pt_usable :: bool
  pt_degraded :: bool
  pt_bad :: bool
  pt_worst :: "link_status option"
  pt_direct :: u64
  pt_routed :: u64
  pt_direct_resources :: "ident list"
  pt_routed_resources :: "ident list"
  pt_verdict :: connectivity_verdict

definition tally_start :: "connectivity_verdict \<Rightarrow> pair_tally" where
  "tally_start v =
     \<lparr>pt_usable = False, pt_degraded = False, pt_bad = False, pt_worst = None, pt_direct = 0,
      pt_routed = 0, pt_direct_resources = [], pt_routed_resources = [], pt_verdict = v\<rparr>"

definition tally_status :: "link_outcome \<Rightarrow> pair_tally \<Rightarrow> pair_tally" where
  "tally_status out t =
     (let t1 = t\<lparr>pt_verdict := (pt_verdict t)
                    \<lparr>cv_reasons := cv_reasons (pt_verdict t) @ lo_reasons out\<rparr>\<rparr>
      in if lo_status out = Link_Usable then t1\<lparr>pt_usable := True\<rparr>
         else if lo_status out = Link_Degraded then t1\<lparr>pt_degraded := True\<rparr>
         else t1\<lparr>pt_bad := True,
                 pt_worst := Some (case pt_worst t of None \<Rightarrow> lo_status out
                                   | Some w \<Rightarrow> worst_link w (lo_status out))\<rparr>)"

definition tally_link :: "link_record \<times> link_outcome \<Rightarrow> pair_tally \<Rightarrow> pair_tally" where
  "tally_link e t =
     (case e of (l, out) \<Rightarrow>
        let t1 = tally_status out
                   (t\<lparr>pt_verdict := (pt_verdict t)\<lparr>cv_links := cv_links (pt_verdict t) @ [lk_id l]\<rparr>\<rparr>)
        in if lo_capacity out > 0 then
             (let t2 = t1\<lparr>pt_direct_resources := sset_insert (lo_resource out) (pt_direct_resources t1)\<rparr>
              in case checked_add (pt_direct t1) (lo_capacity out) of
                   Inr s \<Rightarrow> t2\<lparr>pt_direct := s\<rparr>
                 | Inl _ \<Rightarrow> t2\<lparr>pt_verdict := (pt_verdict t2)
                     \<lparr>cv_reasons := cv_reasons (pt_verdict t2) @
                        [mk_reason Reason_PolicyBoundExceeded ''link capacity sum overflowed'']\<rparr>\<rparr>)
           else t1)"

definition tally_route :: "route_evidence \<times> link_outcome \<Rightarrow> pair_tally \<Rightarrow> pair_tally" where
  "tally_route e t =
     (case e of (r, out) \<Rightarrow>
        let t1 = tally_status out
                   (t\<lparr>pt_verdict := (pt_verdict t)\<lparr>cv_routes := cv_routes (pt_verdict t) @ [rt_ref r]\<rparr>\<rparr>)
        in if lo_capacity out > pt_routed t1
           then t1\<lparr>pt_routed := lo_capacity out, pt_routed_resources := [lo_resource out]\<rparr>
           else t1)"

definition mixed_resources :: "pair_tally \<Rightarrow> bool" where
  "mixed_resources t \<longleftrightarrow>
     length (pt_direct_resources t) > 1 \<or> length (pt_routed_resources t) > 1 \<or>
     (pt_direct_resources t \<noteq> [] \<and> pt_routed_resources t \<noteq> [] \<and>
      hd (pt_direct_resources t) \<noteq> hd (pt_routed_resources t))"

text \<open>With neither set inhabited the code dereferences the end of an empty set.\<close>

definition settle_pair :: "pair_tally \<Rightarrow> connectivity_verdict result" where
  "settle_pair t =
     (let v = pt_verdict t in
      if mixed_resources t then
        Inr (v\<lparr>cv_status := Link_Conflicting, cv_usable_capacity := 0,
               cv_reasons := cv_reasons v @ [mk_reason Reason_LinkConflicting
                 (''the rack pair carries more than one resource class, so no single capacity '' @
                  ''figure is authoritative'')]\<rparr>)
      else if pt_usable t \<or> pt_degraded t then
        (if pt_direct_resources t = [] \<and> pt_routed_resources t = []
         then Inl (Undefined ''begin of an empty set'')
         else Inr (v\<lparr>cv_status := (if pt_bad t \<or> pt_degraded t then Link_Degraded else Link_Usable),
                     cv_usable_capacity := max (pt_direct t) (pt_routed t),
                     cv_resource := (if pt_direct_resources t = [] then hd (pt_routed_resources t)
                                     else hd (pt_direct_resources t))\<rparr>))
      else if pt_bad t then
        Inr (v\<lparr>cv_status := (case pt_worst t of None \<Rightarrow> Link_Indeterminate | Some w \<Rightarrow> w)\<rparr>)
      else
        Inr (v\<lparr>cv_status := Link_Indeterminate,
               cv_reasons := cv_reasons v @
                 [mk_reason Reason_NoUsablePath ''no evidence describes this rack pair'']\<rparr>))"

definition judge_pair :: "composer \<Rightarrow> pair_work \<Rightarrow> pair_work result" where
  "judge_pair c w =
     (let v = (pw_verdict w)\<lparr>cv_from := fst (pw_key w), cv_to := snd (pw_key w)\<rparr>;
          routes = map snd (pw_routes w)
      in try_bind (try_map (classify_link c) (pw_links w)) (\<lambda>louts.
         try_bind (try_map (classify_route c) routes) (\<lambda>routs.
         let t = fold tally_route (zip routes routs)
                   (fold tally_link (zip (pw_links w) louts) (tally_start v))
         in try_bind (settle_pair t) (\<lambda>v'. Inr (w\<lparr>pw_verdict := v'\<rparr>)))))"

definition pair_fences :: "pair_work \<Rightarrow> fence_action list" where
  "pair_fences w =
     (let v = pw_verdict w in
      (if cv_status v = Link_Stale \<or> cv_status v = Link_Blocked \<or> cv_status v = Link_Conflicting
       then [\<lparr>fa_kind = Fence_Link, fa_subject = cv_from v @ ''.'' @ cv_to v,
              fa_reason = (case cv_reasons v of
                             [] \<Rightarrow> mk_reason Reason_NoUsablePath ''the rack pair is not usable''
                           | r # _ \<Rightarrow> r)\<rparr>]
       else []) @
      map (\<lambda>r. \<lparr>fa_kind = Fence_Route, fa_subject = rt_ref r,
                fa_reason = mk_reason Reason_RouteWithdrawn
                  ''the routing decision is no longer installed''\<rparr>)
        (filter (\<lambda>r. rt_state r = Route_Withdrawn \<or> rt_state r = Route_Failed)
           (map snd (pw_routes w))))"

definition evaluate_connectivity :: "composer \<Rightarrow> composer result" where
  "evaluate_connectivity c =
     try_bind (collect_pairs c) (\<lambda>collected.
     try_bind (try_map (judge_pair c) collected) (\<lambda>pairs.
     Inr (c\<lparr>cp_pairs := cp_pairs c @ pairs,
            cp_fences := cp_fences c @ concat (map pair_fences pairs)\<rparr>)))"

end
