(* ===== verification/Obligations.thy ===== *)
theory Obligations
  imports Connectivity
begin

text \<open>
  The composition, part four: failure-domain diversity and \<open>evaluate_obligations\<close> of
  \<open>engine/composer.cpp\<close>.
\<close>

section \<open>Diversity\<close>

record diversity_result =
  dvr_count :: u32
  dvr_conflicted :: bool
  dvr_have_kind :: bool

text \<open>The pointer argument \<open>restrict\<close> is an optional set of racks.\<close>

definition rack_serves :: "composer \<Rightarrow> bool \<Rightarrow> ident list option \<Rightarrow> ident \<Rightarrow> bool" where
  "rack_serves c exclude_drained restrict rack \<longleftrightarrow>
     (case find_work c rack of
        None \<Rightarrow> False
      | Some m \<Rightarrow>
          if \<not> mw_established m \<or> \<not> mw_connectivity_usable m then False
          else if exclude_drained \<and> mv_admin (mw_verdict m) \<noteq> Admin_Enabled then False
          else (case restrict of None \<Rightarrow> True | Some rs \<Rightarrow> rack \<in> set rs))"

definition domain_candidates ::
  "composer \<Rightarrow> domain_kind \<Rightarrow> bool \<Rightarrow> ident list option \<Rightarrow> domain_work list" where
  "domain_candidates c kind exclude_drained restrict =
     filter (\<lambda>d. dw_kind d = kind \<and> dv_status (dw_verdict d) \<noteq> Dom_Conflicting \<and> \<not> dw_implicit d \<and>
        list_ex (rack_serves c exclude_drained restrict) (dv_declared_members (dw_verdict d)))
      (cp_domains c)"

text \<open>The packing loop: the racks used so far and the domains taken.\<close>

definition pack_domain :: "domain_work \<Rightarrow> ident list \<times> u32 \<Rightarrow> ident list \<times> u32" where
  "pack_domain d s =
     (case s of (used, n) \<Rightarrow>
        let racks = dv_declared_members (dw_verdict d) in
        if list_ex (\<lambda>r. r \<in> set used) racks then (used, n)
        else (fold sset_insert racks used, n + 1))"

definition diversity :: "composer \<Rightarrow> domain_kind \<Rightarrow> bool \<Rightarrow> ident list option \<Rightarrow> diversity_result" where
  "diversity c kind exclude_drained restrict =
     (let of_kind = filter (\<lambda>d. dw_kind d = kind) (cp_domains c);
          candidates = sort_key
            (\<lambda>d. (length (dv_declared_members (dw_verdict d)), dw_id d))
            (domain_candidates c kind exclude_drained restrict)
      in \<lparr>dvr_count = snd (fold pack_domain candidates ([], 0)),
          dvr_conflicted = list_ex (\<lambda>d. dv_status (dw_verdict d) = Dom_Conflicting) of_kind,
          dvr_have_kind = (of_kind \<noteq> [])\<rparr>)"

definition find_pair :: "composer \<Rightarrow> ident \<Rightarrow> ident \<Rightarrow> connectivity_verdict option" where
  "find_pair c a b =
     map_option pw_verdict
       (find_sorted pw_key (cp_pairs c) (if a < b then a else b, if a < b then b else a))"

section \<open>Judging an obligation\<close>

text \<open>The status accumulated so far with the reasons.\<close>

type_synonym judgement = "obligation_status \<times> reason list"

definition add_note :: "obligation_status \<Rightarrow> reason_code \<Rightarrow> string \<Rightarrow> judgement \<Rightarrow> judgement" where
  "add_note st k s j = (worst_obligation (fst j) st, snd j @ [mk_reason k s])"

definition judge_requirement ::
  "policy \<Rightarrow> pod_state \<Rightarrow> capacity_requirement \<Rightarrow> judgement \<Rightarrow> judgement" where
  "judge_requirement p s q j =
     (case find_capacity s (cr_resource q) of
        None \<Rightarrow> add_note Obs_Indeterminate Reason_CapacityIncomplete
          (''no capacity evidence exists for resource '' @ quoted (cr_resource q)) j
      | Some a \<Rightarrow>
          if \<not> capacity_is_usable (ca_status a) then
            add_note (if ca_status a = Cap_Exhausted then Obs_Violated else Obs_Indeterminate)
              Reason_CapacityConflict
              (''the aggregate for resource '' @ quoted (cr_resource q) @ '' is not authoritative'') j
          else
            let margin = (ucast (if cr_margin_percent q = 0 then po_default_margin_percent p
                                 else cr_margin_percent q) :: u64)
            in case checked_mul (cr_minimum q) margin of
                 Inl _ \<Rightarrow> add_note Obs_Indeterminate Reason_PolicyBoundExceeded
                   ''obligation margin computation overflowed'' j
               | Inr scaled \<Rightarrow>
                   (case checked_add (cr_minimum q) (scaled div 100) of
                      Inl _ \<Rightarrow> add_note Obs_Indeterminate Reason_PolicyBoundExceeded
                        ''obligation requirement overflowed'' j
                    | Inr extra \<Rightarrow>
                        if ca_headroom a < cr_minimum q then
                          add_note Obs_Violated Reason_ObligationUnmet
                            (''resource '' @ quoted (cr_resource q) @
                             '' has less headroom than the obligation floor'') j
                        else if ca_headroom a < extra then
                          add_note Obs_AtRisk Reason_ObligationMargin
                            (''resource '' @ quoted (cr_resource q) @
                             '' has less than the requested margin above the floor'') j
                        else j))"

definition judge_floor :: "composer \<Rightarrow> obligation \<Rightarrow> judgement" where
  "judge_floor c b =
     (if ob_requirements b = []
      then (Obs_Unsupported,
            [mk_reason Reason_EvidenceMissing ''the capacity obligation names no resource''])
      else fold (judge_requirement (cp_policy c) (cp_state c)) (ob_requirements b) (Obs_Satisfied, []))"

text \<open>The second component is the number of domains the verdict reports.\<close>

definition judge_diversity :: "composer \<Rightarrow> obligation \<Rightarrow> judgement \<times> u32" where
  "judge_diversity c b =
     (if ob_required_domains b = 0
      then ((Obs_Unsupported,
             [mk_reason Reason_EvidenceMissing ''the diversity obligation requires no domains'']), 0)
      else let r = diversity c (ob_diversity_kind b) False None in
        if \<not> dvr_have_kind r
        then ((Obs_Unsupported,
               [mk_reason Reason_EvidenceMissing
                  ''the pod declares no failure domain of the required kind'']), 0)
        else
          let j0 = (Obs_Satisfied, []);
              j1 = (if dvr_conflicted r
                    then add_note Obs_Indeterminate Reason_DomainOverlap
                      (''failure-domain membership is in conflict, so diversity '' @
                       ''cannot be decided'') j0
                    else j0);
              j2 = (if dvr_count r < ob_required_domains b
                    then add_note Obs_Violated Reason_DomainDiversityUnmet
                      (''only '' @ dec_u64 (dvr_count r) @
                       '' rack-disjoint failure domains are serviceable'') j1
                    else j1)
          in (j2, dvr_count r))"

definition judge_protected_pair :: "composer \<Rightarrow> ident \<times> ident \<Rightarrow> judgement \<Rightarrow> judgement" where
  "judge_protected_pair c e j =
     (case find_pair c (fst e) (snd e) of
        None \<Rightarrow> add_note Obs_Indeterminate Reason_NoUsablePath
          (''no connectivity evidence exists between two '' @ ''protected racks'') j
      | Some v \<Rightarrow>
          (case cv_status v of
             Link_Usable \<Rightarrow> j
           | Link_Degraded \<Rightarrow> add_note Obs_AtRisk Reason_LinkUnderCapacity
               ''a protected rack pair is only degraded'' j
           | Link_Blocked \<Rightarrow> add_note Obs_Violated Reason_NoUsablePath
               ''a protected rack pair has no usable connectivity'' j
           | Link_Stale \<Rightarrow> add_note Obs_Violated Reason_NoUsablePath
               ''a protected rack pair has no usable connectivity'' j
           | Link_Conflicting \<Rightarrow> add_note Obs_Violated Reason_NoUsablePath
               ''a protected rack pair has no usable connectivity'' j
           | Link_Indeterminate \<Rightarrow> add_note Obs_Indeterminate Reason_NoUsablePath
               ''a protected rack pair cannot be decided'' j
           | Link_Unsupported \<Rightarrow> add_note Obs_Indeterminate Reason_NoUsablePath
               ''a protected rack pair cannot be decided'' j))"

text \<open>The pairs \<open>(racks[i], racks[j])\<close> with \<open>i < j\<close>, in the order of the nested loop.\<close>

fun index_pairs :: "'a list \<Rightarrow> ('a \<times> 'a) list" where
  "index_pairs [] = []"
| "index_pairs (x # xs) = map (Pair x) xs @ index_pairs xs"

definition judge_protected_rack :: "composer \<Rightarrow> ident \<Rightarrow> judgement \<Rightarrow> judgement" where
  "judge_protected_rack c rack j =
     (let unmet = add_note Obs_Violated Reason_MemberFenced
                    (''protected rack '' @ quoted rack @ '' is not established'') j
      in case find_work c rack of
           None \<Rightarrow> unmet
         | Some m \<Rightarrow> if \<not> mw_established m then unmet else j)"

definition judge_protected :: "composer \<Rightarrow> obligation \<Rightarrow> judgement" where
  "judge_protected c b =
     (if ob_protected_racks b = []
      then (Obs_Unsupported,
            [mk_reason Reason_EvidenceMissing ''the protected-path obligation names no rack''])
      else fold (judge_protected_pair c) (index_pairs (ob_protected_racks b))
             (fold (judge_protected_rack c) (ob_protected_racks b) (Obs_Satisfied, [])))"

definition judge_maintenance :: "composer \<Rightarrow> obligation \<Rightarrow> judgement \<times> u32" where
  "judge_maintenance c b =
     (if ob_required_domains b = 0
      then ((Obs_Unsupported,
             [mk_reason Reason_EvidenceMissing ''the maintenance obligation requires no domains'']), 0)
      else let now = diversity c (ob_diversity_kind b) False None;
               after = diversity c (ob_diversity_kind b) True None in
        if \<not> dvr_have_kind now
        then ((Obs_Unsupported,
               [mk_reason Reason_EvidenceMissing
                  ''the pod declares no failure domain of the required kind'']), dvr_count after)
        else
          let j0 = (Obs_Satisfied, []);
              j1 = (if dvr_conflicted now \<or> dvr_conflicted after
                    then add_note Obs_Indeterminate Reason_DomainOverlap
                      ''failure-domain membership is in conflict'' j0
                    else j0);
              j2 = (if dvr_count now < ob_required_domains b
                    then add_note Obs_Violated Reason_DomainDiversityUnmet
                      ''the pod is already below the required domain count'' j1
                    else if dvr_count after < ob_required_domains b
                    then add_note Obs_AtRisk Reason_MemberDraining
                      (''draining every maintenance candidate would drop below the '' @
                       ''required domain count'') j1
                    else j1)
          in (j2, dvr_count after))"

definition judge_obligation :: "composer \<Rightarrow> obligation \<Rightarrow> obligation_verdict" where
  "judge_obligation c b =
     (let (j, n) = (case ob_kind b of
          Obl_CapacityFloor \<Rightarrow> (judge_floor c b, 0)
        | Obl_DomainDiversity \<Rightarrow> judge_diversity c b
        | Obl_ProtectedPath \<Rightarrow> (judge_protected c b, 0)
        | Obl_MaintenanceWindow \<Rightarrow> judge_maintenance c b)
      in \<lparr>ov_id = ob_id b, ov_kind = ob_kind b, ov_status = fst j, ov_satisfied_domains = n,
          ov_reasons = canonicalise (snd j)\<rparr>)"

definition evaluate_obligations :: "composer \<Rightarrow> composer result" where
  "evaluate_obligations c =
     Inr (c\<lparr>cp_state := (cp_state c)
            \<lparr>ps_obligations := ps_obligations (cp_state c) @
               map (judge_obligation c) (sn_obligations (cp_snapshot c))\<rparr>\<rparr>)"

end
