(* ===== verification/Verdict.thy ===== *)
theory Verdict
  imports Obligations
begin

text \<open>
  The composition, part five: \<open>evaluate_lifecycle\<close> and \<open>evaluate_authority\<close> of
  \<open>engine/composer.cpp\<close>.
\<close>

section \<open>Lifecycle\<close>

definition has_degradation :: "composer \<Rightarrow> bool" where
  "has_degradation c \<longleftrightarrow>
     cp_fences c \<noteq> [] \<or>
     list_ex (\<lambda>w. mv_status (mw_verdict w) \<noteq> Mem_Established) (cp_members c) \<or>
     list_ex (\<lambda>w. cv_status (pw_verdict w) \<noteq> Link_Usable) (cp_pairs c) \<or>
     list_ex (\<lambda>a. \<not> capacity_is_usable (ca_status a)) (ps_capacity (cp_state c)) \<or>
     list_ex (\<lambda>w. dv_status (dw_verdict w) \<noteq> Dom_Ok) (cp_domains c) \<or>
     list_ex (\<lambda>v. ov_status v \<noteq> Obs_Satisfied) (ps_obligations (cp_state c))"

definition established_works :: "composer \<Rightarrow> member_work list" where
  "established_works c = filter mw_established (cp_members c)"

definition connectivity_expected :: "composer \<Rightarrow> bool" where
  "connectivity_expected c \<longleftrightarrow>
     cp_pairs c \<noteq> [] \<or>
     (length (established_works c) \<ge> 2 \<and> po_require_full_coverage (cp_policy c))"

text \<open>The lifecycle the evidence alone asks for.\<close>

definition evidence_lifecycle :: "composer \<Rightarrow> lifecycle_state" where
  "evidence_lifecycle c =
     (let established = length (established_works c);
          in_maintenance = length (filter (\<lambda>w. mv_admin (mw_verdict w) = Admin_Maintenance)
            (established_works c));
          moved = length (filter (\<lambda>w. mv_admin (mw_verdict w) \<noteq> Admin_Enabled)
            (established_works c));
          any_pair_usable = list_ex (\<lambda>w. cv_status (pw_verdict w) = Link_Usable \<or>
            cv_status (pw_verdict w) = Link_Degraded) (cp_pairs c)
      in if established = 0 then Life_Constructing
         else if established \<ge> 2 \<and> connectivity_expected c \<and> \<not> any_pair_usable then Life_Partitioned
         else if in_maintenance = established then Life_Maintenance
         else if moved > 0 then Life_Draining
         else if has_degradation c \<or>
                 established < unat (po_min_established_members (cp_policy c)) then Life_Degraded
         else Life_Active)"

text \<open>The overrides, each with the degradation it records.\<close>

definition desired_lifecycle :: "composer \<Rightarrow> lifecycle_state \<times> reason list" where
  "desired_lifecycle c =
     (let d0 = evidence_lifecycle c;
          (d1, r1) = (if length (established_works c) \<ge> 2 \<and> \<not> connectivity_expected c
            then (Life_Degraded, [mk_reason Reason_EvidenceMissing
                    ''no inter-rack connectivity evidence was supplied''])
            else (d0, []));
          (d2, r2) = (if cx_recovered_from_store (cp_context c)
            then (Life_Recovering, [mk_reason Reason_RecoveredHistorical
                    ''the pod restarted and has not re-established authority''])
            else (d1, []));
          (d3, r3) = (if cx_ambiguous_commit (cp_context c)
            then (Life_Partitioned, [mk_reason Reason_AmbiguousCommit
                    (''the last durable commit could not be confirmed, so the pod treats its own '' @
                     ''durable state as indeterminate'')])
            else (d2, []));
          (d4, r4) = (if ps_epoch (cp_state c) \<noteq> cx_epoch (cp_context c)
            then (if d3 = Life_Active then Life_Degraded else d3,
                  [mk_reason Reason_EpochAdvanced
                    ''the pod epoch advanced because a member generation changed''])
            else (d3, []))
      in (d4, r1 @ r2 @ r3 @ r4))"

definition evaluate_lifecycle :: "composer \<Rightarrow> composer result" where
  "evaluate_lifecycle c =
     (let (desired, notes) = desired_lifecycle c;
          c1 = c\<lparr>cp_degradations := cp_degradations c @ notes\<rparr>
      in if cx_lifecycle (cp_context c) = Life_Retired
         then Inr (c1\<lparr>cp_state := (cp_state c1)\<lparr>ps_lifecycle := Life_Retired\<rparr>\<rparr>)
         else
           let life = next_lifecycle (cx_lifecycle (cp_context c)) desired in
           Inr (c1\<lparr>cp_state := (cp_state c1)\<lparr>ps_lifecycle := life\<rparr>,
                   cp_degradations := cp_degradations c1 @
                     (if life \<noteq> desired
                      then [mk_reason Reason_PolicyBoundExceeded
                        (''the requested lifecycle transition is not legal from the current state; the '' @
                         ''pod advances through the intermediate state instead'')]
                      else [])\<rparr>))"

section \<open>Authority\<close>

text \<open>A finding raises the status when it is strictly more severe, and then contributes its first
  reason.\<close>

definition raise_status :: "code \<Rightarrow> reason list \<Rightarrow> code \<times> reason list \<Rightarrow> code \<times> reason list" where
  "raise_status k rs s =
     (if severity k > severity (fst s) then (k, snd s @ take 1 rs) else s)"

definition obligation_code :: "composer \<Rightarrow> obligation_verdict \<Rightarrow> code" where
  "obligation_code c v =
     (if ov_status v = Obs_Violated then
        (let mandatory = (case find (\<lambda>b. ob_id b = ov_id v) (sn_obligations (cp_snapshot c)) of
                            None \<Rightarrow> True | Some b \<Rightarrow> ob_mandatory b)
         in if mandatory then Code_Refused else Code_Stale)
      else if ov_status v = Obs_Indeterminate then Code_Incomplete
      else Code_Ok)"

text \<open>An obligation that is neither violated nor indeterminate is not looked at; raising to OK
  is the same.\<close>

definition findings :: "composer \<Rightarrow> (code \<times> reason list) list" where
  "findings c =
     map (\<lambda>w. (member_code (mv_status (mw_verdict w)), mv_reasons (mw_verdict w))) (cp_members c) @
     map (\<lambda>w. (domain_code (dv_status (dw_verdict w)), dv_reasons (dw_verdict w))) (cp_domains c) @
     map (\<lambda>a. (capacity_code (ca_status a), ca_reasons a)) (ps_capacity (cp_state c)) @
     map (\<lambda>v. (obligation_code c v, ov_reasons v)) (ps_obligations (cp_state c))"

definition count_status :: "(member_status \<Rightarrow> bool) \<Rightarrow> composer \<Rightarrow> u32" where
  "count_status P c = of_nat (length (filter (\<lambda>w. P (mv_status (mw_verdict w))) (cp_members c)))"

definition counted_authority :: "composer \<Rightarrow> pod_authority" where
  "counted_authority c =
     \<lparr>pa_status = Code_Unknown, pa_epoch = ps_epoch (cp_state c),
      pa_incarnation = ps_incarnation (cp_state c),
      pa_established_members = count_status (\<lambda>s. s = Mem_Established) c,
      pa_fenced_members = count_status (\<lambda>s. s \<noteq> Mem_Established \<and> s \<noteq> Mem_Joining) c,
      pa_conflicting_members = count_status (\<lambda>s. s = Mem_Conflicting) c,
      pa_stale_members = count_status (\<lambda>s. s = Mem_Stale \<or> s = Mem_Missing \<or> s = Mem_Fenced \<or>
        s = Mem_Retiring) c,
      pa_recovered = cx_recovered_from_store (cp_context c), pa_reasons = []\<rparr>"

definition lifecycle_findings :: "composer \<Rightarrow> code \<times> reason list \<Rightarrow> code \<times> reason list" where
  "lifecycle_findings c s =
     (let s1 = (if ps_lifecycle (cp_state c) = Life_Retired
                then (worst (fst s) Code_Refused,
                      snd s @ [mk_reason Reason_MemberRetiring ''the pod is retired''])
                else if ps_lifecycle (cp_state c) = Life_Constructing
                then (worst (fst s) Code_Incomplete, snd s)
                else s);
          s2 = (if cx_recovered_from_store (cp_context c)
                then (worst (fst s1) Code_Indeterminate,
                      snd s1 @ [mk_reason Reason_RecoveredHistorical
                        ''authority from a previous controller incarnation is not carried over''])
                else s1)
      in if cx_ambiguous_commit (cp_context c)
         then (worst (fst s2) Code_Indeterminate,
               snd s2 @ [mk_reason Reason_AmbiguousCommit
                 ''durable state may be torn, so pod authority is indeterminate''])
         else s2)"

definition composer_check :: "composer \<Rightarrow> authority_check" where
  "composer_check c =
     \<lparr>ac_pod = ps_pod (cp_state c), ac_epoch = ps_epoch (cp_state c),
      ac_incarnation = ps_incarnation (cp_state c),
      ac_now = (if cx_now (cp_context c) \<noteq> 0 then cx_now (cp_context c) else cp_evaluated_at c),
      ac_clock_skew = po_clock_skew (cp_policy c), ac_revoked = cx_revoked_tokens (cp_context c),
      ac_required = Scope_Pod, ac_enforce_scope = False\<rparr>"

text \<open>The token loop: whether a valid pod-scope token was seen, the fences and the reasons.\<close>

record token_tally =
  tt_valid_pod :: bool
  tt_fences :: "fence_action list"
  tt_reasons :: "reason list"

definition judge_token :: "authority_check \<Rightarrow> authority_token \<Rightarrow> token_tally \<Rightarrow> token_tally result" where
  "judge_token k t s =
     try_bind (validate_token t k) (\<lambda>v.
       if verdict_valid v
       then Inr (if at_scope t = Scope_Pod then s\<lparr>tt_valid_pod := True\<rparr> else s)
       else Inr (s\<lparr>tt_fences := tt_fences s @
                     [\<lparr>fa_kind = Fence_Token, fa_subject = at_lease t,
                       fa_reason = mk_reason Reason_TokenInvalid (av_detail v)\<rparr>],
                   tt_reasons := tt_reasons s @ [mk_reason Reason_TokenInvalid (av_detail v)] @
                     (if av_code v = Verdict_Expired
                      then [mk_reason Reason_TokenExpired (av_detail v)] else [])\<rparr>))"

definition pod_fences :: "composer \<Rightarrow> pod_authority \<Rightarrow> fence_action list" where
  "pod_fences c a =
     (if \<not> authoritative a
      then [\<lparr>fa_kind = Fence_Pod, fa_subject = ps_pod (cp_state c),
             fa_reason = (case pa_reasons a of
                [] \<Rightarrow> mk_reason Reason_TokenInvalid ''the pod is not authoritative''
              | r # _ \<Rightarrow> r)\<rparr>]
      else [])"

definition evaluate_authority :: "composer \<Rightarrow> composer result" where
  "evaluate_authority c =
     (let s1 = fold (\<lambda>(k, rs). raise_status k rs) (findings c) (Code_Ok, []);
          s2 = lifecycle_findings c s1
      in try_bind (try_fold (judge_token (composer_check c)) (cx_granted_tokens (cp_context c))
                     \<lparr>tt_valid_pod = False, tt_fences = [], tt_reasons = []\<rparr>) (\<lambda>tally.
         let reasons = snd s2 @ tt_reasons tally;
             s3 = (if po_require_authority_token (cp_policy c) \<and> \<not> tt_valid_pod tally
                   then (worst (fst s2) Code_Stale,
                         reasons @ [mk_reason Reason_TokenInvalid
                           (''the pod holds no valid pod-scope authority token for the current '' @
                            ''epoch and incarnation'')])
                   else (fst s2, reasons));
             authority = (counted_authority c)
               \<lparr>pa_status := fst s3, pa_reasons := canonicalise (snd s3)\<rparr>
         in Inr (c\<lparr>cp_state := (cp_state c)\<lparr>ps_authority := authority\<rparr>,
                   cp_fences := cp_fences c @ tt_fences tally @ pod_fences c authority\<rparr>)))"

end
