(* ===== verification/Text_Render.thy ===== *)
theory Text_Render
  imports Snapshot
begin

text \<open>
  The canonical text of a composed pod state and of a decision, and the digests computed from
  them: the rendering half of \<open>codec/text.cpp\<close> that the engine uses and the digest functions
  at the end of \<open>codec/codec.cpp\<close>. A rendering is the text the code appends, piece by piece.
\<close>

section \<open>Pieces\<close>

definition newline :: string where "newline = [CHR 0x0A]"

text \<open>Control characters become spaces.\<close>

definition escape_text :: "string \<Rightarrow> string" where
  "escape_text t =
     map (\<lambda>c. let u = of_char c :: nat in if u < 0x20 \<or> u = 0x7F then CHR '' '' else c) t"

definition id_or_dash :: "string \<Rightarrow> string" where
  "id_or_dash t = (if t = [] then ''-'' else t)"

definition flag :: "bool \<Rightarrow> string" where
  "flag b = (if b then ''1'' else ''0'')"

definition text_line :: "string \<Rightarrow> string" where
  "text_line t = t @ newline"

definition text_kv :: "string \<Rightarrow> string \<Rightarrow> string" where
  "text_kv k v = k @ '' '' @ v @ newline"

text \<open>A reason after its directive: the code, then the escaped detail when there is one.\<close>

definition reason_body :: "reason \<Rightarrow> string" where
  "reason_body r =
     reason_code_to_string (rs_code r) @
     (if rs_detail r \<noteq> [] then '' '' @ escape_text (rs_detail r) else []) @ newline"

definition reason_lines :: "reason list \<Rightarrow> string" where
  "reason_lines rs = concat (map (\<lambda>r. ''+reason '' @ reason_body r) rs)"

definition id_lines :: "string \<Rightarrow> ident list \<Rightarrow> string" where
  "id_lines directive ids = concat (map (\<lambda>i. directive @ '' '' @ id_or_dash i @ newline) ids)"

section \<open>Records\<close>

definition authority_text :: "pod_authority \<Rightarrow> string" where
  "authority_text a =
     ''authority '' @ code_to_string (pa_status a) @
     '' established '' @ dec_u64 (pa_established_members a) @
     '' fenced '' @ dec_u64 (pa_fenced_members a) @
     '' conflicting '' @ dec_u64 (pa_conflicting_members a) @
     '' stale '' @ dec_u64 (pa_stale_members a) @
     '' recovered '' @ flag (pa_recovered a) @ newline @ reason_lines (pa_reasons a)"

definition member_text :: "member_verdict \<Rightarrow> string" where
  "member_text m =
     ''member '' @ id_or_dash (mv_rack m) @ '' status '' @ member_status_to_string (mv_status m) @
     '' gen '' @ dec_u64 (mv_generation m) @ '' digest '' @ digest_to_hex (mv_digest m) @
     '' membership '' @ membership_to_string (mv_membership m) @
     '' admin '' @ admin_to_string (mv_admin m) @ '' health '' @ health_to_string (mv_health m) @
     newline @ reason_lines (mv_reasons m) @ id_lines ''+domain'' (mv_domains m)"

definition connectivity_text :: "connectivity_verdict \<Rightarrow> string" where
  "connectivity_text v =
     ''connectivity '' @ id_or_dash (cv_from v) @ '' '' @ id_or_dash (cv_to v) @
     '' status '' @ link_status_to_string (cv_status v) @
     '' resource '' @ id_or_dash (cv_resource v) @
     '' capacity '' @ dec_u64 (cv_usable_capacity v) @ newline @
     id_lines ''+link'' (cv_links v) @ id_lines ''+route'' (cv_routes v) @
     reason_lines (cv_reasons v)"

definition domain_text :: "domain_verdict \<Rightarrow> string" where
  "domain_text d =
     ''domain '' @ id_or_dash (dv_id d) @ '' kind '' @ domain_kind_to_string (dv_kind d) @
     '' status '' @ domain_status_to_string (dv_status d) @
     '' declared '' @ dec_string (length (dv_declared_members d)) @
     '' effective '' @ dec_string (length (dv_effective_members d)) @ newline @
     id_lines ''+member'' (dv_declared_members d) @ reason_lines (dv_reasons d)"

definition contribution_text :: "capacity_contribution \<Rightarrow> string" where
  "contribution_text t =
     ''+contribution '' @ id_or_dash (ct_owner t) @ '' '' @ id_or_dash (ct_exclusivity t) @ '' '' @
     dec_u64 (ct_amount t) @ '' '' @ dec_u64 (ct_reserved t) @ '' '' @ id_or_dash (ct_domain t) @
     '' counted '' @ flag (ct_counted t) @ newline"

definition figures_text :: "capacity_aggregate \<Rightarrow> string" where
  "figures_text a =
     '' total '' @ dec_u64 (ca_total a) @ '' reserved '' @ dec_u64 (ca_reserved a) @
     '' headroom '' @ dec_u64 (ca_headroom a) @
     '' status '' @ capacity_status_to_string (ca_status a) @ newline"

definition capacity_text :: "capacity_aggregate \<Rightarrow> string" where
  "capacity_text a =
     ''capacity '' @ id_or_dash (ca_resource a) @ figures_text a @
     concat (map contribution_text (ca_contributions a)) @ reason_lines (ca_reasons a)"

definition domain_capacity_text :: "capacity_aggregate \<Rightarrow> string" where
  "domain_capacity_text a =
     ''domain-capacity '' @ id_or_dash (ca_resource a) @ '' '' @ id_or_dash (ca_domain a) @
     figures_text a"

definition obligation_text :: "obligation_verdict \<Rightarrow> string" where
  "obligation_text v =
     ''obligation '' @ id_or_dash (ov_id v) @ '' kind '' @ obligation_kind_to_string (ov_kind v) @
     '' status '' @ obligation_status_to_string (ov_status v) @
     '' satisfied-domains '' @ dec_u64 (ov_satisfied_domains v) @ newline @
     reason_lines (ov_reasons v)"

definition fence_text :: "fence_action \<Rightarrow> string" where
  "fence_text f =
     ''fence '' @ fence_kind_to_string (fa_kind f) @ '' '' @ id_or_dash (fa_subject f) @ '' '' @
     reason_body (fa_reason f)"

definition decision_lines :: "decision_record \<Rightarrow> string" where
  "decision_lines d =
     ''decision '' @ dr_id d @ '' kind '' @ decision_kind_to_string (dr_kind d) @
     '' status '' @ code_to_string (dr_status d) @ '' deps '' @ dec_string (length (dr_deps d)) @
     '' fingerprint '' @ digest_to_hex (dr_fingerprint d) @ newline @
     concat (map (\<lambda>k. ''+dep '' @ dep_kind_to_string (dk_kind k) @ '' '' @ dk_subject k @ newline)
       (dr_deps d)) @
     reason_lines (dr_reasons d)"

section \<open>The document and its digests\<close>

definition state_text :: "pod_state \<Rightarrow> bool \<Rightarrow> string" where
  "state_text s include_decisions =
     text_line (if ps_schema s = [] then pod_state_schema else ps_schema s) @
     text_kv ''pod'' (id_or_dash (ps_pod s)) @
     text_kv ''epoch'' (dec_u64 (ps_epoch s)) @
     text_kv ''incarnation'' (uuid_to_string (ps_incarnation s)) @
     text_kv ''lifecycle'' (lifecycle_to_string (ps_lifecycle s)) @
     authority_text (ps_authority s) @
     concat (map member_text (ps_members s)) @
     concat (map connectivity_text (ps_connectivity s)) @
     concat (map domain_text (ps_domains s)) @
     concat (map capacity_text (ps_capacity s)) @
     concat (map domain_capacity_text (ps_domain_capacity s)) @
     concat (map obligation_text (ps_obligations s)) @
     concat (map fence_text (ps_fences s)) @
     concat (map (\<lambda>r. ''degradation '' @ reason_body r) (ps_degradations s)) @
     (if include_decisions then concat (map decision_lines (ps_decisions s)) else []) @
     text_kv ''composed-at'' (dec_string_int (ps_composed_at s)) @
     text_kv ''digest'' (digest_to_hex (ps_state_digest s)) @
     text_kv ''decision-digest'' (digest_to_hex (ps_decision_digest s)) @
     text_line ''end''"

definition digest_of_state_with :: "pod_state \<Rightarrow> bool \<Rightarrow> digest" where
  "digest_of_state_with s include_decisions = digest_of_string (state_text s include_decisions)"

definition digest_of_state :: "pod_state \<Rightarrow> digest" where
  "digest_of_state s = digest_of_state_with s True"

definition state_digest_of :: "pod_state \<Rightarrow> digest" where
  "state_digest_of s = digest_of_state_with s False"

definition decision_text :: "decision_record \<Rightarrow> string" where
  "decision_text d =
     dr_id d @ ''|'' @ decision_kind_to_string (dr_kind d) @ ''|'' @ code_to_string (dr_status d) @
     concat (map (\<lambda>k. ''|'' @ dep_kind_to_string (dk_kind k) @ ''='' @ dk_subject k) (dr_deps d)) @
     concat (map (\<lambda>r. ''|'' @ reason_code_to_string (rs_code r) @ ''='' @ rs_detail r)
       (dr_reasons d))"

definition decision_fingerprint :: "decision_record \<Rightarrow> digest" where
  "decision_fingerprint d = digest_of_string (decision_text d)"

end
