(* ===== verification/Dependency.thy ===== *)
theory Dependency
  imports Snapshot
begin

text \<open>
  The decision graph: \<open>engine/dependency.hpp\<close>, \<open>engine/dependency.cpp\<close>. An index of published
  decisions with reverse edges from every input to the decisions that consumed it, the
  breadth-first closure that plans a selective revalidation, the report that compares two
  rounds, and the functions that compute which inputs changed.
\<close>

section \<open>The index\<close>

record decision_index =
  di_edges :: "(dep_key, ident list) smap"
  di_records :: "(ident, decision_record) smap"

definition index_empty :: decision_index where
  "index_empty = \<lparr>di_edges = [], di_records = []\<rparr>"

definition index_is_empty :: "decision_index \<Rightarrow> bool" where
  "index_is_empty x \<longleftrightarrow> di_records x = []"

definition add_edge :: "ident \<Rightarrow> ident list \<Rightarrow> ident list" where
  "add_edge i bucket = (if i \<in> set bucket then bucket else sort (bucket @ [i]))"

definition index_publish :: "decision_record \<Rightarrow> decision_index \<Rightarrow> decision_index" where
  "index_publish r x =
     (let c = r\<lparr>dr_deps := remdups_adj (sort (dr_deps r))\<rparr> in
      x\<lparr>di_records := smap_put (dr_id r) c (di_records x),
        di_edges := fold (smap_update [] (add_edge (dr_id r))) (dr_deps c) (di_edges x)\<rparr>)"

definition index_find :: "decision_index \<Rightarrow> ident \<Rightarrow> decision_record option" where
  "index_find x i = smap_get (di_records x) i"

definition dependents_of :: "decision_index \<Rightarrow> dep_key \<Rightarrow> ident list option" where
  "dependents_of x k = smap_get (di_edges x) k"

definition index_all_ids :: "decision_index \<Rightarrow> ident list" where
  "index_all_ids x = map fst (di_records x)"

section \<open>Planning\<close>

record revalidation_plan =
  rp_recompute :: "ident list"
  rp_closure_steps :: nat

definition plan_contains :: "revalidation_plan \<Rightarrow> ident \<Rightarrow> bool" where
  "plan_contains p i = binary_search (rp_recompute p) i"

definition bucket_of :: "(dep_key, ident list) smap \<Rightarrow> dep_key \<Rightarrow> ident list" where
  "bucket_of edges k = (case smap_get edges k of None \<Rightarrow> [] | Some b \<Rightarrow> b)"

text \<open>\<open>if (visited.insert(id).second) queue.push_back(id);\<close>\<close>

definition visit :: "ident \<Rightarrow> ident list \<times> ident list \<Rightarrow> ident list \<times> ident list" where
  "visit i s =
     (case s of (visited, queue) \<Rightarrow>
        if i \<in> set visited then (visited, queue) else (sset_insert i visited, queue @ [i]))"

definition plan_seed :: "(dep_key, ident list) smap \<Rightarrow> dep_key list \<Rightarrow> ident list \<times> ident list" where
  "plan_seed edges changed = fold (\<lambda>k. fold visit (bucket_of edges k)) changed ([], [])"

text \<open>The identifiers that occur in some bucket bound the work of the closure.\<close>

definition edge_ids :: "(dep_key, ident list) smap \<Rightarrow> ident set" where
  "edge_ids edges = \<Union> (set ` snd ` set edges)"

lemma finite_edge_ids: "finite (edge_ids edges)"
  by (simp add: edge_ids_def)

lemma bucket_edge_ids: "set (bucket_of edges k) \<subseteq> edge_ids edges"
proof (cases "smap_get edges k")
  case (Some b)
  then have "(k, b) \<in> set edges" by (simp add: smap_get_def map_of_SomeD)
  with Some show ?thesis by (force simp: bucket_of_def edge_ids_def)
qed (simp add: bucket_of_def)

lemma visit_measure:
  assumes "set ids \<subseteq> edge_ids edges" "fold visit ids (v, q) = (v', q')"
  shows "card (edge_ids edges - set v') + length q' = card (edge_ids edges - set v) + length q"
  using assms
proof (induction ids arbitrary: v q)
  case (Cons i ids)
  show ?case
  proof (cases "i \<in> set v")
    case True
    with Cons show ?thesis by (simp add: visit_def)
  next
    case False
    have "card (edge_ids edges - set v) = Suc (card (edge_ids edges - insert i (set v)))"
      using Cons.prems(1) False finite_edge_ids
      by (metis DiffI Diff_insert card_Suc_Diff1 finite_Diff list.set_intros(1) subsetD)
    with Cons False show ?thesis by (simp add: visit_def)
  qed
qed simp

function plan_loop ::
  "(dep_key, ident list) smap \<Rightarrow> ident list \<Rightarrow> ident list \<Rightarrow> nat \<Rightarrow> ident list \<times> nat" where
  "plan_loop edges visited [] steps = (visited, steps)"
| "plan_loop edges visited (current # queue) steps =
     (case fold visit (bucket_of edges (mk_dep Dep_Decision current)) (visited, queue) of
        (visited', queue') \<Rightarrow> plan_loop edges visited' queue' (Suc steps))"
  by pat_completeness auto
termination
proof (relation "measure (\<lambda>(edges, v, q, n). card (edge_ids edges - set v) + length q)",
    goal_cases)
  case 1
  show ?case by simp
next
  case (2 edges visited current queue steps v' q')
  then have "fold visit (bucket_of edges (mk_dep Dep_Decision current)) (visited, queue) = (v', q')"
    by simp
  from visit_measure[OF bucket_edge_ids this] show ?case by simp
qed

definition index_plan :: "decision_index \<Rightarrow> dep_key list \<Rightarrow> revalidation_plan" where
  "index_plan x changed =
     (case plan_seed (di_edges x) changed of (visited, queue) \<Rightarrow>
        case plan_loop (di_edges x) visited queue 0 of (visited', steps) \<Rightarrow>
          \<lparr>rp_recompute = sort visited', rp_closure_steps = steps\<rparr>)"

section \<open>Comparing two rounds\<close>

record revalidation_report =
  rr_plan :: revalidation_plan
  rr_total_decisions :: nat
  rr_recomputed_changed :: "ident list"
  rr_recomputed_unchanged :: "ident list"
  rr_changed_outside_plan :: "ident list"
  rr_added_outside_plan :: "ident list"
  rr_removed_outside_plan :: "ident list"

definition report_sound :: "revalidation_report \<Rightarrow> bool" where
  "report_sound r \<longleftrightarrow>
     rr_changed_outside_plan r = [] \<and> rr_added_outside_plan r = [] \<and> rr_removed_outside_plan r = []"

fun join_comma :: "string list \<Rightarrow> string" where
  "join_comma [] = []"
| "join_comma [x] = x"
| "join_comma (x # y # xs) = x @ '', '' @ join_comma (y # xs)"

definition describe_ids :: "ident list \<Rightarrow> string" where
  "describe_ids ids = join_comma (take 8 ids) @ (if length ids > 8 then '', ...'' else [])"

definition describe_report :: "revalidation_report \<Rightarrow> string" where
  "describe_report r =
     ''plan='' @ dec_string (length (rp_recompute (rr_plan r))) @
     '' total='' @ dec_string (rr_total_decisions r) @
     '' changed-in-plan='' @ dec_string (length (rr_recomputed_changed r)) @
     '' unchanged-in-plan='' @ dec_string (length (rr_recomputed_unchanged r)) @
     (if rr_changed_outside_plan r \<noteq> []
      then '' UNPREDICTED-CHANGE=['' @ describe_ids (rr_changed_outside_plan r) @ '']'' else []) @
     (if rr_added_outside_plan r \<noteq> []
      then '' UNPREDICTED-ADD=['' @ describe_ids (rr_added_outside_plan r) @ '']'' else []) @
     (if rr_removed_outside_plan r \<noteq> []
      then '' UNPREDICTED-REMOVE=['' @ describe_ids (rr_removed_outside_plan r) @ '']'' else [])"

definition compare_decision ::
  "decision_index \<Rightarrow> decision_record \<Rightarrow> revalidation_report \<Rightarrow> revalidation_report" where
  "compare_decision before r rep =
     (let in_plan = plan_contains (rr_plan rep) (dr_id r) in
      case index_find before (dr_id r) of
        None \<Rightarrow>
          if \<not> in_plan
          then rep\<lparr>rr_added_outside_plan := rr_added_outside_plan rep @ [dr_id r]\<rparr> else rep
      | Some previous \<Rightarrow>
          if dr_fingerprint previous = dr_fingerprint r then
            (if in_plan
             then rep\<lparr>rr_recomputed_unchanged := rr_recomputed_unchanged rep @ [dr_id r]\<rparr> else rep)
          else if in_plan
          then rep\<lparr>rr_recomputed_changed := rr_recomputed_changed rep @ [dr_id r]\<rparr>
          else rep\<lparr>rr_changed_outside_plan := rr_changed_outside_plan rep @ [dr_id r]\<rparr>)"

definition revalidate :: "decision_index \<Rightarrow> pod_state \<Rightarrow> dep_key list \<Rightarrow> revalidation_report" where
  "revalidate before after changed =
     (let plan = (if index_is_empty before
                  then \<lparr>rp_recompute = sort (map dr_id (ps_decisions after)), rp_closure_steps = 0\<rparr>
                  else index_plan before changed);
          rep0 = \<lparr>rr_plan = plan, rr_total_decisions = length (ps_decisions after),
                  rr_recomputed_changed = [], rr_recomputed_unchanged = [],
                  rr_changed_outside_plan = [], rr_added_outside_plan = [],
                  rr_removed_outside_plan = []\<rparr>;
          rep = fold (compare_decision before) (ps_decisions after) rep0;
          now = smap_index dr_id (\<lambda>r. r) (ps_decisions after);
          removed = filter (\<lambda>i. smap_get now i = None \<and> \<not> plan_contains plan i)
                      (index_all_ids before)
      in rep\<lparr>rr_recomputed_changed := sort (rr_recomputed_changed rep),
             rr_recomputed_unchanged := sort (rr_recomputed_unchanged rep),
             rr_changed_outside_plan := sort (rr_changed_outside_plan rep),
             rr_added_outside_plan := sort (rr_added_outside_plan rep),
             rr_removed_outside_plan := sort removed\<rparr>)"

section \<open>Which inputs changed\<close>

definition diff_collection ::
  "'i list \<Rightarrow> 'i list \<Rightarrow> dep_kind \<Rightarrow> ('i \<Rightarrow> ident) \<Rightarrow> dep_key list" where
  "diff_collection before after kind identity =
     (let left = smap_index identity (\<lambda>x. x) before;
          right = smap_index identity (\<lambda>x. x) after;
          keys = sset_of (map fst left @ map fst right)
      in map (mk_dep kind) (filter (\<lambda>k. smap_get left k \<noteq> smap_get right k) keys))"

definition snapshot_change_keys :: "pod_snapshot \<Rightarrow> pod_snapshot \<Rightarrow> dep_key list" where
  "snapshot_change_keys before after =
     remdups_adj (sort
       (diff_collection (sn_members before) (sn_members after) Dep_Member mr_rack @
        diff_collection (sn_links before) (sn_links after) Dep_Link lk_id @
        diff_collection (sn_routes before) (sn_routes after) Dep_Route rt_ref @
        diff_collection (sn_domains before) (sn_domains after) Dep_Domain fd_id @
        diff_collection (sn_obligations before) (sn_obligations after) Dep_Obligation ob_id))"

definition token_change_keys ::
  "authority_token list \<Rightarrow> ident list \<Rightarrow> authority_token list \<Rightarrow> ident list \<Rightarrow> dep_key list" where
  "token_change_keys before before_revoked after after_revoked =
     (let left = smap_index at_lease (\<lambda>t. t) before;
          right = smap_index at_lease (\<lambda>t. t) after;
          leases = sset_of (map fst left @ map fst right @ before_revoked @ after_revoked);
          changed = (\<lambda>i.
            let l = smap_get left i; r = smap_get right i;
                same_value = (l = None \<and> r = None) \<or> (l \<noteq> None \<and> r \<noteq> None \<and> l = r);
                same_revocation = (i \<in> set before_revoked) = (i \<in> set after_revoked);
                same_presence = ((l = None) = (r = None))
            in \<not> same_presence \<or> \<not> same_value \<or> \<not> same_revocation)
      in map (mk_dep Dep_Token) (filter changed leases))"

definition membership_change_keys ::
  "member_expectation list \<Rightarrow> member_expectation list \<Rightarrow> dep_key list" where
  "membership_change_keys before after =
     (let left = smap_index me_rack (\<lambda>e. e) before;
          right = smap_index me_rack (\<lambda>e. e) after;
          racks = sset_of (map fst left @ map fst right);
          same = (\<lambda>k. case (smap_get left k, smap_get right k) of
                        (None, None) \<Rightarrow> True
                      | (Some l, Some r) \<Rightarrow>
                          me_generation l = me_generation r \<and> me_digest l = me_digest r \<and>
                          me_membership l = me_membership r
                      | _ \<Rightarrow> False)
      in map (mk_dep Dep_Member) (filter (\<lambda>k. \<not> same k) racks))"

end
