(* ===== verification/Composer.thy ===== *)
theory Composer
  imports Verdict Text_Render Dependency
begin

text \<open>
  The composition, part six: \<open>emit_decisions\<close>, \<open>finalise\<close>, \<open>run\<close> and \<open>compose\<close> of
  \<open>engine/composer.cpp\<close>. \<open>compose_core\<close> is the part of \<open>run\<close> before \<open>finalise\<close>.
\<close>

section \<open>Decisions\<close>

definition decision :: "decision_kind \<Rightarrow> string \<Rightarrow> code \<Rightarrow> dep_key list \<Rightarrow> reason list \<Rightarrow> decision_record"
  where
  "decision k subject st deps rs =
     \<lparr>dr_id = make_decision_id k subject, dr_kind = k, dr_status = st, dr_deps = deps,
      dr_fingerprint = digest_zero, dr_reasons = rs\<rparr>"

definition member_decision :: "member_work \<Rightarrow> decision_record" where
  "member_decision w =
     decision Dec_MemberState (mw_rack w) (member_code (mv_status (mw_verdict w)))
       [mk_dep Dep_Member (mw_rack w)] (mv_reasons (mw_verdict w))"

definition domain_decision :: "domain_work \<Rightarrow> decision_record" where
  "domain_decision w =
     decision Dec_DomainState (dw_id w) (domain_code (dv_status (dw_verdict w)))
       (mk_dep Dep_Domain (dw_id w) # map (mk_dep Dep_Member) (dv_declared_members (dw_verdict w)))
       (dv_reasons (dw_verdict w))"

definition owner_deps :: "capacity_aggregate \<Rightarrow> dep_key list" where
  "owner_deps a =
     map (\<lambda>t. mk_dep Dep_Member (ct_owner t))
       (filter (\<lambda>t. \<not> is_nil (ct_owner t)) (ca_contributions a))"

definition capacity_decision :: "capacity_aggregate \<Rightarrow> decision_record" where
  "capacity_decision a =
     decision Dec_CapacityAggregate (ca_resource a) (capacity_code (ca_status a)) (owner_deps a)
       (ca_reasons a)"

definition domain_capacity_decision :: "capacity_aggregate \<Rightarrow> decision_record" where
  "domain_capacity_decision a =
     decision Dec_DomainCapacity (ca_resource a @ ''.'' @ ca_domain a) (capacity_code (ca_status a))
       (mk_dep Dep_Domain (ca_domain a) # owner_deps a) (ca_reasons a)"

primrec link_status_code :: "link_status \<Rightarrow> code" where
  "link_status_code Link_Usable = Code_Ok"
| "link_status_code Link_Degraded = Code_Stale"
| "link_status_code Link_Blocked = Code_Unavailable"
| "link_status_code Link_Stale = Code_Stale"
| "link_status_code Link_Conflicting = Code_Conflicting"
| "link_status_code Link_Indeterminate = Code_Indeterminate"
| "link_status_code Link_Unsupported = Code_Unsupported"

definition pair_decision :: "pair_work \<Rightarrow> decision_record" where
  "pair_decision w =
     decision Dec_Connectivity (fst (pw_key w) @ ''.'' @ snd (pw_key w))
       (link_status_code (cv_status (pw_verdict w)))
       ([mk_dep Dep_Member (fst (pw_key w)), mk_dep Dep_Member (snd (pw_key w))] @
        map (\<lambda>l. mk_dep Dep_Link (lk_id l)) (pw_links w) @
        map (\<lambda>r. mk_dep Dep_Route (rt_ref (snd r))) (pw_routes w))
       (cv_reasons (pw_verdict w))"

primrec obligation_status_code :: "obligation_status \<Rightarrow> code" where
  "obligation_status_code Obs_Satisfied = Code_Ok"
| "obligation_status_code Obs_AtRisk = Code_Stale"
| "obligation_status_code Obs_Violated = Code_Refused"
| "obligation_status_code Obs_Indeterminate = Code_Indeterminate"
| "obligation_status_code Obs_Unsupported = Code_Unsupported"

definition connectivity_dep :: "ident \<times> ident \<Rightarrow> dep_key" where
  "connectivity_dep e =
     (let lo = (if fst e < snd e then fst e else snd e);
          hi = (if fst e < snd e then snd e else fst e)
      in mk_dep Dep_Decision (make_decision_id Dec_Connectivity (lo @ ''.'' @ hi)))"

definition obligation_decision :: "obligation_verdict list \<Rightarrow> obligation \<Rightarrow> decision_record" where
  "obligation_decision verdicts b =
     (let v = find (\<lambda>v. ov_id v = ob_id b) verdicts in
      decision Dec_ObligationState (ob_id b)
        (obligation_status_code (case v of None \<Rightarrow> Obs_Indeterminate | Some x \<Rightarrow> ov_status x))
        (mk_dep Dep_Obligation (ob_id b) #
         map (\<lambda>q. mk_dep Dep_Decision (make_decision_id Dec_CapacityAggregate (cr_resource q)))
           (ob_requirements b) @
         map (mk_dep Dep_Member) (ob_protected_racks b) @
         map connectivity_dep (index_pairs (ob_protected_racks b)))
        (case v of None \<Rightarrow> [] | Some x \<Rightarrow> ov_reasons x))"

primrec lifecycle_code :: "lifecycle_state \<Rightarrow> code" where
  "lifecycle_code Life_Active = Code_Ok"
| "lifecycle_code Life_Constructing = Code_Incomplete"
| "lifecycle_code Life_Degraded = Code_Stale"
| "lifecycle_code Life_Partitioned = Code_Unavailable"
| "lifecycle_code Life_Recovering = Code_Indeterminate"
| "lifecycle_code Life_Maintenance = Code_Stale"
| "lifecycle_code Life_Draining = Code_Stale"
| "lifecycle_code Life_Retired = Code_Refused"

definition lifecycle_decision :: "composer \<Rightarrow> pod_state \<Rightarrow> decision_record" where
  "lifecycle_decision c s =
     decision Dec_PodLifecycle ''pod'' (lifecycle_code (ps_lifecycle s))
       (map (\<lambda>d. mk_dep Dep_Decision (dr_id d)) (ps_decisions s) @
        [mk_dep Dep_Epoch (dec_u64 (ps_epoch s)),
         mk_dep Dep_Lifecycle (lifecycle_to_string (cx_lifecycle (cp_context c)))])
       (ps_degradations s)"

definition authority_decision :: "composer \<Rightarrow> pod_state \<Rightarrow> decision_record" where
  "authority_decision c s =
     decision Dec_PodAuthority ''pod'' (pa_status (ps_authority s))
       ([mk_dep Dep_Decision (make_decision_id Dec_PodLifecycle ''pod''),
         mk_dep Dep_Epoch (dec_u64 (ps_epoch s)),
         mk_dep Dep_Incarnation (uuid_to_string (ps_incarnation s))] @
        map (\<lambda>w. mk_dep Dep_Member (mw_rack w)) (cp_members c) @
        map (\<lambda>t. mk_dep Dep_Token (at_lease t)) (cx_granted_tokens (cp_context c)) @
        map (mk_dep Dep_Token) (cx_revoked_tokens (cp_context c)))
       (pa_reasons (ps_authority s))"

definition emit_decisions :: "composer \<Rightarrow> composer" where
  "emit_decisions c =
     (let s0 = (cp_state c)
            \<lparr>ps_members := map mw_verdict (cp_members c),
             ps_connectivity := map pw_verdict (cp_pairs c),
             ps_domains := map dw_verdict (cp_domains c),
             ps_degradations := cp_degradations c, ps_fences := cp_fences c\<rparr>;
          s1 = s0\<lparr>ps_decisions := ps_decisions s0 @
                   map member_decision (cp_members c) @
                   map domain_decision (cp_domains c) @
                   map capacity_decision (ps_capacity s0) @
                   map domain_capacity_decision (ps_domain_capacity s0) @
                   map pair_decision (cp_pairs c) @
                   map (obligation_decision (ps_obligations s0)) (sn_obligations (cp_snapshot c))\<rparr>;
          s2 = s1\<lparr>ps_decisions := ps_decisions s1 @ [lifecycle_decision c s1]\<rparr>;
          s3 = s2\<lparr>ps_decisions := ps_decisions s2 @ [authority_decision c s2]\<rparr>
      in c\<lparr>cp_state := s3\<rparr>)"

section \<open>Running the composition\<close>

definition finalise_state :: "pod_state \<Rightarrow> pod_state" where
  "finalise_state s =
     (let s1 = canonicalise_state s;
          s2 = s1\<lparr>ps_decisions := map (\<lambda>d. d\<lparr>dr_fingerprint := decision_fingerprint d\<rparr>)
                   (ps_decisions s1)\<rparr>;
          s3 = s2\<lparr>ps_state_digest := state_digest_of s2\<rparr>
      in s3\<lparr>ps_decision_digest := digest_of_state s3\<rparr>)"

definition start_state :: "composer \<Rightarrow> composer" where
  "start_state c =
     c\<lparr>cp_state := (cp_state c)
        \<lparr>ps_pod := sn_pod (cp_snapshot c), ps_schema := pod_state_schema,
         ps_epoch := cx_epoch (cp_context c), ps_incarnation := cx_incarnation (cp_context c),
         ps_lifecycle := cx_lifecycle (cp_context c), ps_composed_at := cp_evaluated_at c,
         ps_provenance := sn_provenance (cp_snapshot c)\<rparr>\<rparr>"

definition run_stages :: "composer \<Rightarrow> composer result" where
  "run_stages c =
     try_bind (evaluate_members c) (\<lambda>c.
     try_bind (adopt_generation_advances c) (\<lambda>c.
     try_bind (evaluate_domains c) (\<lambda>c.
     try_bind (evaluate_capacity c) (\<lambda>c.
     try_bind (evaluate_connectivity c) (\<lambda>c.
     try_bind (evaluate_obligations c) (\<lambda>c.
     try_bind (evaluate_lifecycle c) (\<lambda>c.
     evaluate_authority c)))))))"

definition compose_core :: "composition_request \<Rightarrow> composer result" where
  "compose_core r =
     try_then (validate_policy (rq_policy r))
    (try_then (validate_snapshot (rq_snapshot r) (rq_policy r))
    (try_then (validate_context r)
    (try_bind (run_stages (start_state (composer_new r))) (\<lambda>c.
     Inr (emit_decisions c)))))"

definition compose :: "composition_request \<Rightarrow> pod_state result" where
  "compose r = try_bind (compose_core r) (\<lambda>c. Inr (finalise_state (cp_state c)))"

end
