(* ===== verification/Composition.thy ===== *)
theory Composition
  imports Composer
begin

text \<open>
  What a successful run of \<open>compose\<close> leaves behind: the stages it passed through, what each of
  them keeps, and the facts about the members, the fences and the authority of the result.
\<close>

section \<open>The stages of a successful run\<close>

lemma compose_core_trace:
  assumes "compose_core r = Inr c"
  obtains c1 c2 c3 c4 c5 c6 c7 c8 where
    "validate_policy (rq_policy r) = success"
    "validate_snapshot (rq_snapshot r) (rq_policy r) = success"
    "validate_context r = success"
    "evaluate_members (start_state (composer_new r)) = Inr c1"
    "adopt_generation_advances c1 = Inr c2" "evaluate_domains c2 = Inr c3"
    "evaluate_capacity c3 = Inr c4" "evaluate_connectivity c4 = Inr c5"
    "evaluate_obligations c5 = Inr c6" "evaluate_lifecycle c6 = Inr c7"
    "evaluate_authority c7 = Inr c8" "c = emit_decisions c8"
  using assms by (auto simp: compose_core_def run_stages_def try_bind_Inr_iff)

lemma start_simps [simp]:
  "cp_request (start_state (composer_new r)) = r"
  "cp_members (start_state (composer_new r)) = []"
  "cp_domains (start_state (composer_new r)) = []"
  "cp_pairs (start_state (composer_new r)) = []"
  "cp_fences (start_state (composer_new r)) = []"
  "cp_degradations (start_state (composer_new r)) = []"
  "cp_ledger (start_state (composer_new r)) = ledger_new (rq_policy r)"
  "ps_epoch (cp_state (start_state (composer_new r))) = cx_epoch (rq_context r)"
  "ps_pod (cp_state (start_state (composer_new r))) = sn_pod (rq_snapshot r)"
  "ps_incarnation (cp_state (start_state (composer_new r))) = cx_incarnation (rq_context r)"
  "ps_obligations (cp_state (start_state (composer_new r))) = []"
  "ps_decisions (cp_state (start_state (composer_new r))) = []"
  by (simp_all add: start_state_def composer_new_def pod_state_default_def)

lemma adopt_frame:
  assumes "adopt_generation_advances c = Inr c'"
  shows "\<exists>e. c' = c\<lparr>cp_state := (cp_state c)\<lparr>ps_epoch := e\<rparr>\<rparr> \<and>
    (if list_ex (\<lambda>w. mw_established w \<and> mw_adopted w) (cp_members c)
     then unat e = Suc (unat (cx_epoch (cp_context c)))
     else e = ps_epoch (cp_state c))"
proof -
  have same: "c = c\<lparr>cp_state := (cp_state c)\<lparr>ps_epoch := ps_epoch (cp_state c)\<rparr>\<rparr>"
    by simp
  show ?thesis
    using assms same checked_add_unat[of "cx_epoch (cp_context c)" 1]
    by (auto simp: adopt_generation_advances_def sequence_is_zero_def sequence_next_def
        try_bind_Inr_iff split: if_splits)
qed

lemma index_of_cong: "map key xs = map key ys \<Longrightarrow> index_of key xs = index_of key ys"
proof -
  assume m: "map key xs = map key ys"
  then have l: "length xs = length ys" by (rule map_eq_imp_length_eq)
  have "key (xs ! i) = key (ys ! i)" if "i < length ys" for i
    using m that l by (metis nth_map)
  then show ?thesis
    unfolding index_of_def smap_index_def l by (intro fold_cong) auto
qed

lemma new_domain_id [simp]: "dw_id (new_domain i r) = i" "dv_id (dw_verdict (new_domain i r)) = i"
  by (simp_all add: new_domain_def Let_def)

definition named_domains :: "composer \<Rightarrow> ident list" where
  "named_domains c = sset_of (map fst (smap_index fd_id (\<lambda>d. d) (sn_domains (cp_snapshot c))) @
     sset_of (concat (map (\<lambda>w. mv_domains (mw_verdict w)) (cp_members c))))"

definition declared_domain :: "composition_request \<Rightarrow> ident \<Rightarrow> failure_domain_record option" where
  "declared_domain r i = smap_get (smap_index fd_id (\<lambda>d. d) (sn_domains (rq_snapshot r))) i"

lemma map_bare_domain_ids: "map bare_domain ds = map bare_domain ds' \<Longrightarrow> map dw_id ds = map dw_id ds'"
proof -
  assume b: "map bare_domain ds = map bare_domain ds'"
  have "map dw_id (map bare_domain ds) = map dw_id ds" for ds
    by (simp add: bare_domain_def)
  then show "map dw_id ds = map dw_id ds'" using b by metis
qed

lemma domains_frame:
  assumes "evaluate_domains c = Inr c'" "cp_domains c = []"
  shows "cp_request c' = cp_request c" "cp_state c' = cp_state c"
    "map bare (cp_members c') = map bare (cp_members c)"
    "cp_member_index c' = cp_member_index c" "cp_pairs c' = cp_pairs c" "cp_ledger c' = cp_ledger c"
    "cp_degradations c' = cp_degradations c"
    "cp_fences c' = cp_fences c @ map domain_fence
       (filter (\<lambda>w. dv_status (dw_verdict w) = Dom_Conflicting) (cp_domains c'))"
    "sorted_wrt (<) (map dw_id (cp_domains c'))"
    "cp_domain_index c' = index_of dw_id (cp_domains c')"
    "map bare_domain (cp_domains c') =
       map (\<lambda>i. bare_domain (new_domain i (declared_domain (cp_request c) i))) (named_domains c)"
proof -
  let ?declared = "smap_index fd_id (\<lambda>d. d) (sn_domains (cp_snapshot c))"
  let ?referenced = "sset_of (concat (map (\<lambda>w. mv_domains (mw_verdict w)) (cp_members c)))"
  let ?ids = "sset_of (map fst ?declared @ ?referenced)"
  let ?domains = "sort_key dw_id (map (\<lambda>i. new_domain i (smap_get ?declared i)) ?ids)"
  let ?c1 = "c\<lparr>cp_domains := ?domains, cp_domain_index := index_of dw_id ?domains\<rparr>"
  let ?c2 = "?c1\<lparr>cp_domains := map (evaluate_domain ?c1) ?domains\<rparr>"
  let ?c3 = "report_overlaps ?c2"
  have c': "c' = ?c3\<lparr>cp_fences := cp_fences ?c3 @ map domain_fence
       (filter (\<lambda>w. dv_status (dw_verdict w) = Dom_Conflicting) (cp_domains ?c3))\<rparr>"
    using assms by (auto simp: evaluate_domains_def Let_def result_simps)
  have f: "same_frame ?c2 ?c3" by (rule report_overlaps_frame)
  have ids: "map dw_id ?domains = ?ids"
  proof -
    have m: "map dw_id (map (\<lambda>i. new_domain i (smap_get ?declared i)) ?ids) = ?ids"
      by (simp add: comp_def)
    have "sorted ?ids" using sset_of_strict strict_sorted_iff by blast
    then show ?thesis using m by (simp only: sort_key_id_if_sorted)
  qed
  show "cp_request c' = cp_request c" "cp_state c' = cp_state c"
    "map bare (cp_members c') = map bare (cp_members c)"
    "cp_member_index c' = cp_member_index c" "cp_pairs c' = cp_pairs c" "cp_ledger c' = cp_ledger c"
    "cp_degradations c' = cp_degradations c"
    "cp_fences c' = cp_fences c @ map domain_fence
       (filter (\<lambda>w. dv_status (dw_verdict w) = Dom_Conflicting) (cp_domains c'))"
    using f by (simp_all add: c' same_frame_def)
  have b: "map bare_domain (cp_domains c') = map bare_domain ?domains"
    using f by (simp add: c' same_frame_def)
  have d: "map dw_id (cp_domains c') = ?ids" using map_bare_domain_ids[OF b] ids by simp
  have srt: "?domains = map (\<lambda>i. new_domain i (smap_get ?declared i)) ?ids"
    using sset_of_strict[of "map fst ?declared @ ?referenced"] strict_sorted_iff[of ?ids]
    by (intro sort_key_id_if_sorted) (simp add: comp_def)
  then show "map bare_domain (cp_domains c') =
      map (\<lambda>i. bare_domain (new_domain i (declared_domain (cp_request c) i))) (named_domains c)"
    using b by (simp add: named_domains_def declared_domain_def)
  show "sorted_wrt (<) (map dw_id (cp_domains c'))" unfolding d by (rule sset_of_strict)
  have "cp_domain_index c' = index_of dw_id ?domains"
    using f by (simp add: c' same_frame_def)
  then show "cp_domain_index c' = index_of dw_id (cp_domains c')"
    using index_of_cong[of dw_id ?domains "cp_domains c'"] d ids by simp
qed

lemma capacity_frame:
  "evaluate_capacity c = Inr c' \<Longrightarrow>
    \<exists>l. try_fold file_member (cp_members c) (cp_ledger c) = Inr l \<and>
    c' = c\<lparr>cp_ledger := ledger_freeze l,
           cp_state := (cp_state c)\<lparr>ps_capacity := lg_by_resource (ledger_freeze l),
                                     ps_domain_capacity := lg_by_domain (ledger_freeze l)\<rparr>\<rparr>"
  by (auto simp: evaluate_capacity_def try_bind_Inr_iff Let_def)

lemma connectivity_frame:
  "evaluate_connectivity c = Inr c' \<Longrightarrow>
    \<exists>ps qs. collect_pairs c = Inr qs \<and> try_map (judge_pair c) qs = Inr ps \<and>
    c' = c\<lparr>cp_pairs := cp_pairs c @ ps, cp_fences := cp_fences c @ concat (map pair_fences ps)\<rparr>"
  by (auto simp: evaluate_connectivity_def try_bind_Inr_iff)

lemma lifecycle_frame:
  "evaluate_lifecycle c = Inr c' \<Longrightarrow>
    \<exists>life ds. c' = c\<lparr>cp_state := (cp_state c)\<lparr>ps_lifecycle := life\<rparr>, cp_degradations := ds\<rparr> \<and>
      life = (if cx_lifecycle (cp_context c) = Life_Retired then Life_Retired
              else next_lifecycle (cx_lifecycle (cp_context c)) (fst (desired_lifecycle c)))"
  by (cases "desired_lifecycle c")
    (auto simp: evaluate_lifecycle_def Let_def split: if_splits intro!: exI composer.equality)

lemma authority_frame:
  "evaluate_authority c = Inr c' \<Longrightarrow>
    \<exists>a fs. c' = c\<lparr>cp_state := (cp_state c)\<lparr>ps_authority := a\<rparr>,
                  cp_fences := cp_fences c @ fs @ pod_fences c a\<rparr>"
  by (auto simp: evaluate_authority_def try_bind_Inr_iff Let_def)

lemma emit_simps [simp]:
  "cp_request (emit_decisions c) = cp_request c"
  "cp_members (emit_decisions c) = cp_members c"
  "cp_domains (emit_decisions c) = cp_domains c"
  "cp_pairs (emit_decisions c) = cp_pairs c"
  "cp_fences (emit_decisions c) = cp_fences c"
  "ps_members (cp_state (emit_decisions c)) = map mw_verdict (cp_members c)"
  "ps_domains (cp_state (emit_decisions c)) = map dw_verdict (cp_domains c)"
  "ps_connectivity (cp_state (emit_decisions c)) = map pw_verdict (cp_pairs c)"
  "ps_fences (cp_state (emit_decisions c)) = cp_fences c"
  "ps_degradations (cp_state (emit_decisions c)) = cp_degradations c"
  "ps_pod (cp_state (emit_decisions c)) = ps_pod (cp_state c)"
  "ps_epoch (cp_state (emit_decisions c)) = ps_epoch (cp_state c)"
  "ps_incarnation (cp_state (emit_decisions c)) = ps_incarnation (cp_state c)"
  "ps_lifecycle (cp_state (emit_decisions c)) = ps_lifecycle (cp_state c)"
  "ps_authority (cp_state (emit_decisions c)) = ps_authority (cp_state c)"
  "ps_capacity (cp_state (emit_decisions c)) = ps_capacity (cp_state c)"
  "ps_domain_capacity (cp_state (emit_decisions c)) = ps_domain_capacity (cp_state c)"
  "ps_obligations (cp_state (emit_decisions c)) = ps_obligations (cp_state c)"
  by (simp_all add: emit_decisions_def Let_def)

section \<open>What a successful composition leaves\<close>

definition judged :: "composition_request \<Rightarrow> member_work \<Rightarrow> bool" where
  "judged r w \<longleftrightarrow> (\<exists>w0. bare w = bare w0 \<and>
     evaluate_member (rq_policy r) (sn_observed_at (rq_snapshot r)) (mw_rack w)
       (grouped_records r (mw_rack w)) (expectation_of r (mw_rack w)) = Inr w0)"

lemma judged_facts:
  assumes "judged r w"
  shows "mv_rack (mw_verdict w) = mw_rack w"
    "mv_status (mw_verdict w) = Mem_Established \<longleftrightarrow> mw_established w"
    "mw_established w \<longleftrightarrow> admissible (rq_policy r) (sn_observed_at (rq_snapshot r))
       (grouped_records r (mw_rack w)) (expectation_of r (mw_rack w))"
    "mw_established w \<Longrightarrow> mw_adopted w \<longleftrightarrow>
       newer_than (hd (grouped_records r (mw_rack w))) (expectation_of r (mw_rack w))"
    "mw_capacity_usable w \<Longrightarrow> mw_established w"
    "mw_connectivity_usable w \<Longrightarrow> mw_established w"
    "mw_established w \<Longrightarrow> \<exists>x. grouped_records r (mw_rack w) = [x] \<and> mw_record w = Some x \<and>
       mv_generation (mw_verdict w) = mr_generation x \<and> mv_digest (mw_verdict w) = mr_digest x \<and>
       mv_admin (mw_verdict w) = mr_admin x \<and> mv_health (mw_verdict w) = mr_health x \<and>
       mv_domains (mw_verdict w) = canonicalise (mr_failure_domains x) \<and>
       (mw_capacity_usable w \<longleftrightarrow> usable_record x) \<and> (mw_connectivity_usable w \<longleftrightarrow> usable_record x)"
    "mw_record w = (case grouped_records r (mw_rack w) of [] \<Rightarrow> None | x # _ \<Rightarrow> Some x)"
proof -
  obtain w0 where b: "bare w = bare w0" and e: "evaluate_member (rq_policy r)
      (sn_observed_at (rq_snapshot r)) (mw_rack w) (grouped_records r (mw_rack w))
      (expectation_of r (mw_rack w)) = Inr w0"
    using assms by (auto simp: judged_def)
  note f = evaluate_member_facts(1,3-6)[OF e] and q = bare_eq_fields(2-)[OF b]
  have k: "mw_rack w0 = mw_rack w" by (rule evaluate_member_facts(2)[OF e])
  have ok: "mv_rack (mw_verdict w0) = mw_rack w0" using f(1) by (simp add: work_ok_def)
  show "mv_rack (mw_verdict w) = mw_rack w"
    "mv_status (mw_verdict w) = Mem_Established \<longleftrightarrow> mw_established w"
    "mw_established w \<longleftrightarrow> admissible (rq_policy r) (sn_observed_at (rq_snapshot r))
       (grouped_records r (mw_rack w)) (expectation_of r (mw_rack w))"
    "mw_established w \<Longrightarrow> mw_adopted w \<longleftrightarrow>
       newer_than (hd (grouped_records r (mw_rack w))) (expectation_of r (mw_rack w))"
    "mw_capacity_usable w \<Longrightarrow> mw_established w"
    "mw_connectivity_usable w \<Longrightarrow> mw_established w"
    "mw_record w = (case grouped_records r (mw_rack w) of [] \<Rightarrow> None | x # _ \<Rightarrow> Some x)"
    using f q k ok by (simp_all add: work_ok_def)
  show "\<exists>x. grouped_records r (mw_rack w) = [x] \<and> mw_record w = Some x \<and>
       mv_generation (mw_verdict w) = mr_generation x \<and> mv_digest (mw_verdict w) = mr_digest x \<and>
       mv_admin (mw_verdict w) = mr_admin x \<and> mv_health (mw_verdict w) = mr_health x \<and>
       mv_domains (mw_verdict w) = canonicalise (mr_failure_domains x) \<and>
       (mw_capacity_usable w \<longleftrightarrow> usable_record x) \<and> (mw_connectivity_usable w \<longleftrightarrow> usable_record x)"
    if "mw_established w"
  proof -
    have e0: "mw_established w0" using that q(3) by simp
    then obtain x where x: "mw_record w0 = Some x" and rest:
      "mv_generation (mw_verdict w0) = mr_generation x" "mv_digest (mw_verdict w0) = mr_digest x"
      "mv_admin (mw_verdict w0) = mr_admin x" "mv_health (mw_verdict w0) = mr_health x"
      "mv_domains (mw_verdict w0) = canonicalise (mr_failure_domains x)"
      "mw_capacity_usable w0 \<longleftrightarrow> usable_record x" "mw_connectivity_usable w0 \<longleftrightarrow> usable_record x"
      using f(1) unfolding work_ok_def by blast
    have "grouped_records r (mw_rack w) = [x]"
      using e0 f(3,4) x by (auto simp: admissible_def split: list.splits)
    then show ?thesis using x rest q by (intro exI[of _ x]) simp
  qed
qed

lemma judged_members:
  assumes "evaluate_members c = Inr c'" "cp_members c = []" "map bare ms = map bare (cp_members c')"
    "cp_request c = r"
  shows "\<forall>w \<in> set ms. judged r w" "map mw_rack ms = map mw_rack (cp_members c')"
proof -
  have l: "length ms = length (cp_members c')" using assms(3) by (rule map_eq_imp_length_eq)
  have b: "bare (ms ! i) = bare (cp_members c' ! i)" if "i < length ms" for i
    using assms(3) that l by (metis nth_map)
  show m: "map mw_rack ms = map mw_rack (cp_members c')"
  proof (rule nth_equalityI)
    fix i assume "i < length (map mw_rack ms)"
    with bare_eq_fields(1)[OF b, of i] l
    show "map mw_rack ms ! i = map mw_rack (cp_members c') ! i" by simp
  qed (simp add: l)
  show "\<forall>w \<in> set ms. judged r w"
  proof
    fix w assume "w \<in> set ms"
    then obtain i where i: "i < length ms" "w = ms ! i" by (auto simp: in_set_conv_nth)
    have "evaluate_member (cp_policy c) (cp_evaluated_at c) (mw_rack (cp_members c' ! i))
            (grouped_records (cp_request c) (mw_rack (cp_members c' ! i)))
            (expectation_of (cp_request c) (mw_rack (cp_members c' ! i))) = Inr (cp_members c' ! i)"
      using evaluate_members_result(1)[OF assms(1,2)] i l by (simp add: list_all2_conv_all_nth)
    then show "judged r w"
      using b[OF i(1)] bare_eq_fields(1)[OF b[OF i(1)]] i(2) assms(4)
      by (auto simp: judged_def intro!: exI[of _ "cp_members c' ! i"])
  qed
qed

text \<open>The stages of a successful run with what each leaves alone.\<close>

lemma desired_lifecycle_frame [simp]:
  "desired_lifecycle (c\<lparr>cp_state := (cp_state c)\<lparr>ps_lifecycle := l\<rparr>, cp_degradations := ds\<rparr>) =
   desired_lifecycle c"
proof -
  let ?c = "c\<lparr>cp_state := (cp_state c)\<lparr>ps_lifecycle := l\<rparr>, cp_degradations := ds\<rparr>"
  have e: "established_works ?c = established_works c"
    "connectivity_expected ?c = connectivity_expected c" "has_degradation ?c = has_degradation c"
    by (simp_all add: established_works_def connectivity_expected_def has_degradation_def)
  have "evidence_lifecycle ?c = evidence_lifecycle c" by (simp add: evidence_lifecycle_def e Let_def cong: if_cong)
  then show ?thesis by (simp add: desired_lifecycle_def e Let_def cong: if_cong)
qed

lemma compose_core_frames:
  assumes "compose_core r = Inr c"
  obtains c1 c2 c3 c4 c5 c6 c7 c8 where
    "evaluate_members (start_state (composer_new r)) = Inr c1"
    "adopt_generation_advances c1 = Inr c2" "evaluate_domains c2 = Inr c3"
    "evaluate_capacity c3 = Inr c4" "evaluate_connectivity c4 = Inr c5"
    "evaluate_obligations c5 = Inr c6" "evaluate_lifecycle c6 = Inr c7"
    "evaluate_authority c7 = Inr c8" "c = emit_decisions c8"
    "cp_request c1 = r" "cp_request c2 = r" "cp_request c3 = r" "cp_request c4 = r"
    "cp_request c5 = r" "cp_request c6 = r" "cp_request c7 = r" "cp_request c = r"
    "map bare (cp_members c) = map bare (cp_members c1)" "cp_members c = cp_members c3"
    "cp_members c4 = cp_members c3" "cp_members c5 = cp_members c3" "cp_members c6 = cp_members c3"
    "cp_members c7 = cp_members c3" "cp_member_index c4 = cp_member_index c1"
    "cp_domains c = cp_domains c3" "cp_domains c4 = cp_domains c3" "cp_domains c5 = cp_domains c3"
    "cp_domains c7 = cp_domains c3"
    "cp_pairs c4 = []" "cp_pairs c = cp_pairs c5" "cp_pairs c6 = cp_pairs c5"
    "cp_fences c2 = cp_fences c1" "set (cp_fences c3) \<subseteq> set (cp_fences c)"
    "set (cp_fences c5) \<subseteq> set (cp_fences c)"
    "cp_domains c2 = []" "cp_ledger c3 = ledger_new (rq_policy r)"
    "cp_state c7 = (cp_state c6)\<lparr>ps_lifecycle := ps_lifecycle (cp_state c)\<rparr>"
    "findings c7 = findings c" "desired_lifecycle c7 = desired_lifecycle c6"
    "ps_capacity (cp_state c) = ps_capacity (cp_state c4)"
    "ps_capacity (cp_state c5) = ps_capacity (cp_state c4)"
    "ps_domain_capacity (cp_state c) = ps_domain_capacity (cp_state c4)"
    "ps_obligations (cp_state c5) = []" "ps_obligations (cp_state c) = ps_obligations (cp_state c6)"
    "ps_epoch (cp_state c) = ps_epoch (cp_state c2)" "ps_epoch (cp_state c7) = ps_epoch (cp_state c2)"
    "ps_pod (cp_state c7) = sn_pod (rq_snapshot r)"
    "ps_incarnation (cp_state c7) = cx_incarnation (rq_context r)"
    "cp_pairs c7 = cp_pairs c5" "ps_capacity (cp_state c7) = ps_capacity (cp_state c)"
    "ps_obligations (cp_state c7) = ps_obligations (cp_state c)"
    "list_ex (\<lambda>w. mw_established w \<and> mw_adopted w) (cp_members c) \<longleftrightarrow>
       list_ex (\<lambda>w. mw_established w \<and> mw_adopted w) (cp_members c1)"
    "ps_epoch (cp_state c1) = cx_epoch (rq_context r)"
proof -
  obtain c1 c2 c3 c4 c5 c6 c7 c8 where
    s1: "evaluate_members (start_state (composer_new r)) = Inr c1" and
    s2: "adopt_generation_advances c1 = Inr c2" and s3: "evaluate_domains c2 = Inr c3" and
    s4: "evaluate_capacity c3 = Inr c4" and s5: "evaluate_connectivity c4 = Inr c5" and
    s6: "evaluate_obligations c5 = Inr c6" and s7: "evaluate_lifecycle c6 = Inr c7" and
    s8: "evaluate_authority c7 = Inr c8" and c: "c = emit_decisions c8"
    using assms by (rule compose_core_trace)
  note f1 = evaluate_members_frame[OF s1]
  obtain e where c2: "c2 = c1\<lparr>cp_state := (cp_state c1)\<lparr>ps_epoch := e\<rparr>\<rparr>"
    using adopt_frame[OF s2] by blast
  have d2: "cp_domains c2 = []" using f1 c2 by simp
  note f3 = domains_frame[OF s3 d2]
  obtain l where c4: "c4 = c3\<lparr>cp_ledger := ledger_freeze l,
      cp_state := (cp_state c3)\<lparr>ps_capacity := lg_by_resource (ledger_freeze l),
                                 ps_domain_capacity := lg_by_domain (ledger_freeze l)\<rparr>\<rparr>"
    using capacity_frame[OF s4] by blast
  obtain ps where c5: "c5 = c4\<lparr>cp_pairs := cp_pairs c4 @ ps,
      cp_fences := cp_fences c4 @ concat (map pair_fences ps)\<rparr>"
    using connectivity_frame[OF s5] by blast
  have c6: "c6 = c5\<lparr>cp_state := (cp_state c5)\<lparr>ps_obligations := ps_obligations (cp_state c5) @
      map (judge_obligation c5) (sn_obligations (cp_snapshot c5))\<rparr>\<rparr>"
    using s6 by (simp add: evaluate_obligations_def)
  obtain life ds where c7: "c7 = c6\<lparr>cp_state := (cp_state c6)\<lparr>ps_lifecycle := life\<rparr>,
      cp_degradations := ds\<rparr>"
    using lifecycle_frame[OF s7] by blast
  obtain a fs where c8: "c8 = c7\<lparr>cp_state := (cp_state c7)\<lparr>ps_authority := a\<rparr>,
      cp_fences := cp_fences c7 @ fs @ pod_fences c7 a\<rparr>"
    using authority_frame[OF s8] by blast
  have find: "findings c7 = findings c"
    by (simp add: findings_def c c8 obligation_code_def[abs_def])
  have des: "desired_lifecycle c7 = desired_lifecycle c6" by (simp add: c7)
  have r: "cp_request c3 = r" "cp_request c2 = r" "cp_request c1 = r" using f3(1) f1 c2 by simp_all
  have st: "cp_state c3 = cp_state c2" by (rule f3(2))
  have st1: "cp_state c1 = cp_state (start_state (composer_new r))" using f1 by simp
  have p: "cp_pairs c3 = []" "cp_ledger c3 = ledger_new (rq_policy r)"
    "map bare (cp_members c3) = map bare (cp_members c1)" "cp_member_index c3 = cp_member_index c1"
    using f1 f3(3-6) c2 by simp_all
  have ad: "list_ex (\<lambda>w. mw_established w \<and> mw_adopted w) ms \<longleftrightarrow>
      list_ex (\<lambda>w. mw_established w \<and> mw_adopted w) (map bare ms)" for ms
    by (simp add: list_ex_iff bare_def)
  have adc: "list_ex (\<lambda>w. mw_established w \<and> mw_adopted w) (cp_members c3) \<longleftrightarrow>
      list_ex (\<lambda>w. mw_established w \<and> mw_adopted w) (cp_members c1)"
    by (simp only: ad[of "cp_members c3"] ad[of "cp_members c1"] p(3))
  show thesis
    by (rule that[OF s1 s2 s3 s4 s5 s6 s7 s8 c _ _ _ _ _ _ _ _ _ _ _ _ _ _ _ _ _ _ _ _ _ _ _ _ _ d2
          p(2) _ find des])
      (use r p st st1 c2 adc in \<open>auto simp: c c8 c7 c6 c5 c4\<close>)
qed

lemma compose_core_members:
  assumes "compose_core r = Inr c"
  shows "cp_request c = r" "\<forall>w \<in> set (cp_members c). judged r w"
    "sorted_wrt (<) (map mw_rack (cp_members c))"
    "set (map mw_rack (cp_members c)) = known_racks r"
    "\<And>w. w \<in> set (cp_members c) \<Longrightarrow> \<not> mw_established w \<Longrightarrow>
       \<exists>f \<in> set (cp_fences c). fa_kind f = Fence_Member \<and> fa_subject f = mw_rack w"
    "sorted_wrt (<) (map dw_id (cp_domains c))"
    "\<forall>d \<in> set (cp_domains c). bare_domain d = bare_domain (new_domain (dw_id d) (declared_domain r (dw_id d)))"
    "\<forall>d \<in> set (cp_domains c). dv_status (dw_verdict d) = Dom_Conflicting \<longrightarrow>
       domain_fence d \<in> set (cp_fences c)"
    "\<forall>w \<in> set (cp_pairs c). set (pair_fences w) \<subseteq> set (cp_fences c)"
proof -
  obtain c1 c2 c3 c4 c5 where s1: "evaluate_members (start_state (composer_new r)) = Inr c1"
    and s3: "evaluate_domains c2 = Inr c3" and s5: "evaluate_connectivity c4 = Inr c5"
    and req: "cp_request c = r" and r2: "cp_request c2 = r"
    and b: "map bare (cp_members c) = map bare (cp_members c1)"
    and d: "cp_domains c = cp_domains c3" and p: "cp_pairs c4 = []" "cp_pairs c = cp_pairs c5"
    and f: "cp_fences c2 = cp_fences c1" "set (cp_fences c3) \<subseteq> set (cp_fences c)"
      "set (cp_fences c5) \<subseteq> set (cp_fences c)" and d2: "cp_domains c2 = []"
    by (rule compose_core_frames[OF assms], rule that) assumption+
  note f3 = domains_frame[OF s3 d2]
  have n: "cp_members (start_state (composer_new r)) = []" by simp
  show "cp_request c = r" by (rule req)
  note j = judged_members[OF s1 n b start_simps(1)] and m = evaluate_members_result[OF s1 n]
  show "\<forall>w \<in> set (cp_members c). judged r w" by (rule j(1))
  show "sorted_wrt (<) (map mw_rack (cp_members c))"
    "set (map mw_rack (cp_members c)) = known_racks r"
    using m(2,3) by (simp_all only: j(2) start_simps(1))
  show "\<exists>f \<in> set (cp_fences c). fa_kind f = Fence_Member \<and> fa_subject f = mw_rack w"
    if w: "w \<in> set (cp_members c)" and e: "\<not> mw_established w" for w
  proof -
    have "bare w \<in> set (map bare (cp_members c1))" using w b by (metis image_eqI list.set_map)
    then obtain w1 where w1: "w1 \<in> set (cp_members c1)" "bare w = bare w1" by auto
    have "mv_status (mw_verdict w1) \<noteq> Mem_Established"
      using judged_facts(2) j(1) w e bare_eq_fields(8)[OF w1(2)] by auto
    then have "member_fence w1 \<in> set (cp_fences c1)" using w1(1) m(5) by auto
    then have "member_fence w1 \<in> set (cp_fences c)" using f3(8) f by auto
    moreover have "fa_kind (member_fence w1) = Fence_Member \<and> fa_subject (member_fence w1) = mw_rack w"
      using bare_eq_fields(1)[OF w1(2)] by (simp add: member_fence_def)
    ultimately show ?thesis by blast
  qed
  show "sorted_wrt (<) (map dw_id (cp_domains c))" using f3(9) d by simp
  show "\<forall>d \<in> set (cp_domains c).
      bare_domain d = bare_domain (new_domain (dw_id d) (declared_domain r (dw_id d)))"
  proof
    fix x assume "x \<in> set (cp_domains c)"
    then have "bare_domain x \<in> set (map bare_domain (cp_domains c3))" using d by simp
    then obtain i where i: "bare_domain x = bare_domain (new_domain i (declared_domain (cp_request c2) i))"
      unfolding f3(11) by auto
    then show "bare_domain x = bare_domain (new_domain (dw_id x) (declared_domain r (dw_id x)))"
      using bare_domain_fields(1)[OF i] r2 by simp
  qed
  show "\<forall>d \<in> set (cp_domains c). dv_status (dw_verdict d) = Dom_Conflicting \<longrightarrow>
       domain_fence d \<in> set (cp_fences c)"
    using f3(8) d f(2) by auto
  obtain ps where "c5 = c4\<lparr>cp_pairs := cp_pairs c4 @ ps,
      cp_fences := cp_fences c4 @ concat (map pair_fences ps)\<rparr>"
    using connectivity_frame[OF s5] by blast
  then show "\<forall>w \<in> set (cp_pairs c). set (pair_fences w) \<subseteq> set (cp_fences c)"
    using p f(3) by auto
qed

end
