(* ===== verification/Sample.thy ===== *)
theory Sample
  imports Composition
begin

text \<open>
  A concrete request (two attested racks, each its own power domain, one link, one capacity floor)
  on which the theorems about \<open>compose\<close> are instantiated, and the evaluation in the kernel
  that it composes.
\<close>


definition sample_provenance :: provenance where
  "sample_provenance =
     \<lparr>pv_quality = Quality_Real, pv_class = Class_Attested, pv_source = ''rnf'', pv_sequence = 7,
      pv_detail = []\<rparr>"

definition sample_member :: "ident \<Rightarrow> sequence \<Rightarrow> member_record" where
  "sample_member rack g =
     \<lparr>mr_rack = rack, mr_generation = g, mr_digest = replicate 32 (ucast g),
      mr_rnf_schema = ''rnf.descriptor/1'', mr_membership = Membership_Established,
      mr_admin = Admin_Enabled, mr_health = Health_Ok, mr_failure_domains = [''d'' @ rack],
      mr_capacity = [\<lparr>cc_resource = ''up'', cc_exclusivity = ''x'' @ rack, cc_amount = 100,
        cc_reserved = 10, cc_domain = ''d'' @ rack, cc_provenance = sample_provenance\<rparr>],
      mr_ports = [], mr_provenance = sample_provenance, mr_observed_at = 1000\<rparr>"

definition sample_domain :: "ident \<Rightarrow> failure_domain_record" where
  "sample_domain rack =
     \<lparr>fd_id = ''d'' @ rack, fd_kind = Kind_Power, fd_members = [rack], fd_description = [],
      fd_provenance = sample_provenance\<rparr>"

definition sample_link :: link_record where
  "sample_link =
     \<lparr>lk_id = ''l1'', lk_a = \<lparr>le_rack = ''a'', le_port = []\<rparr>, lk_b = \<lparr>le_rack = ''b'', le_port = []\<rparr>,
      lk_domain = ''da'', lk_resource = ''up'', lk_capacity = 40, lk_admin = Admin_Enabled,
      lk_oper = Oper_Up, lk_a_generation = 3, lk_b_generation = 4, lk_route = [],
      lk_provenance = sample_provenance, lk_observed_at = 1000\<rparr>"

definition sample_obligation :: obligation where
  "sample_obligation =
     \<lparr>ob_id = ''o1'', ob_kind = Obl_CapacityFloor, ob_tenant = ''t'', ob_description = [],
      ob_protected_racks = [], ob_required_domains = 0, ob_diversity_kind = Kind_Power,
      ob_requirements = [\<lparr>cr_resource = ''up'', cr_minimum = 100, cr_margin_percent = 50\<rparr>],
      ob_mandatory = True, ob_provenance = sample_provenance\<rparr>"

definition sample_snapshot :: pod_snapshot where
  "sample_snapshot =
     \<lparr>sn_pod = ''p'', sn_schema = snapshot_schema,
      sn_members = [sample_member ''b'' 4, sample_member ''a'' 3], sn_links = [sample_link],
      sn_routes = [], sn_domains = [sample_domain ''a'', sample_domain ''b''],
      sn_obligations = [sample_obligation], sn_provenance = sample_provenance,
      sn_observed_at = 2000\<rparr>"

definition sample_context :: composition_context where
  "sample_context =
     \<lparr>cx_epoch = 5, cx_incarnation = replicate 16 7,
      cx_expectations = map (\<lambda>m. \<lparr>me_rack = mr_rack m, me_generation = mr_generation m,
         me_digest = mr_digest m, me_membership = Membership_Established\<rparr>)
         [sample_member ''a'' 3, sample_member ''b'' 4],
      cx_granted_tokens = [], cx_revoked_tokens = [], cx_now = 2000,
      cx_recovered_from_store = False, cx_recovered_at = 0, cx_ambiguous_commit = False,
      cx_lifecycle = Life_Active\<rparr>"

definition sample_policy :: policy where
  "sample_policy = policy_default
     \<lparr>po_max_members := 4, po_max_links := 4, po_max_routes := 4, po_max_domains := 4,
      po_max_obligations := 4, po_max_capacity_claims := 8, po_max_ports_per_member := 4\<rparr>"

definition sample_request :: composition_request where
  "sample_request =
     \<lparr>rq_snapshot = sample_snapshot, rq_context = sample_context, rq_policy = sample_policy\<rparr>"

section \<open>The sample request composes\<close>

lemma sample_valid:
  "validate_policy sample_policy = success"
  "validate_snapshot sample_snapshot sample_policy = success"
  "validate_context sample_request = success"
  by code_simp+

definition sample_stages :: "composer result" where
  "sample_stages =
     try_bind (evaluate_members (start_state (composer_new sample_request))) (\<lambda>c.
     try_bind (adopt_generation_advances c) (\<lambda>c.
     try_bind (evaluate_domains c) (\<lambda>c.
     try_bind (evaluate_capacity c) (\<lambda>c.
     try_bind (evaluate_connectivity c) (\<lambda>c.
     evaluate_obligations c)))))"

lemma sample_stages_succeed: 
  "case sample_stages of Inr c \<Rightarrow> cx_granted_tokens (cp_context c) = [] | Inl e \<Rightarrow> False"
  by code_simp

lemma try_bind_assoc: "try_bind (try_bind m f) g = try_bind m (\<lambda>x. try_bind (f x) g)"
  by (cases m) simp_all

lemma evaluate_lifecycle_total: "\<exists>c'. evaluate_lifecycle c = Inr c' \<and> cp_request c' = cp_request c"
  by (simp add: evaluate_lifecycle_def Let_def split: prod.split)

lemma sample_composes: "\<exists>c. compose_core sample_request = Inr c"
proof -
  obtain c6 where c6: "sample_stages = Inr c6" "cx_granted_tokens (cp_context c6) = []"
    using sample_stages_succeed by (auto split: sum.split_asm)
  obtain c7 where c7: "evaluate_lifecycle c6 = Inr c7" "cp_request c7 = cp_request c6"
    using evaluate_lifecycle_total[of c6] by blast
  have "run_stages (start_state (composer_new sample_request)) =
      try_bind sample_stages (\<lambda>c. try_bind (evaluate_lifecycle c) evaluate_authority)"
    by (simp add: run_stages_def sample_stages_def try_bind_assoc)
  then have "run_stages (start_state (composer_new sample_request)) = evaluate_authority c7"
    unfolding c6(1) try_bind_simps c7(1) .
  moreover have "\<exists>c8. evaluate_authority c7 = Inr c8"
    using c6 c7 by (simp add: evaluate_authority_def Let_def)
  moreover have "rq_policy sample_request = sample_policy" "rq_snapshot sample_request = sample_snapshot"
    by (simp_all add: sample_request_def)
  ultimately show ?thesis using sample_valid by (auto simp: compose_core_def)
qed

lemma sample_compose: "\<exists>s. compose sample_request = Inr s"
  using sample_composes by (auto simp: compose_def)

end
