(* ===== verification/Guarantees.thy ===== *)
theory Guarantees
  imports Sample
begin

text \<open>
  What the pod document of a successful composition guarantees: membership, authority, lifecycle,
  epoch and fences, stated over \<open>compose\<close> of \<open>engine/composer.cpp\<close>.
\<close>

section \<open>The document of a composition\<close>

lemma finalise_simps [simp]:
  "ps_members (finalise_state s) = ps_members (canonicalise_state s)"
  "ps_connectivity (finalise_state s) = ps_connectivity (canonicalise_state s)"
  "ps_capacity (finalise_state s) = ps_capacity (canonicalise_state s)"
  "ps_domain_capacity (finalise_state s) = ps_domain_capacity (canonicalise_state s)"
  "ps_domains (finalise_state s) = ps_domains (canonicalise_state s)"
  "ps_obligations (finalise_state s) = ps_obligations (canonicalise_state s)"
  "ps_fences (finalise_state s) = sort (ps_fences s)"
  "ps_authority (finalise_state s) = ps_authority s"
  "ps_lifecycle (finalise_state s) = ps_lifecycle s"
  "ps_epoch (finalise_state s) = ps_epoch s"
  "ps_pod (finalise_state s) = ps_pod s"
  "ps_incarnation (finalise_state s) = ps_incarnation s"
  by (simp_all add: finalise_state_def Let_def canonicalise_state_def)

lemma canonical_element_status [simp]:
  "mv_status (canonicalise_member_verdict m) = mv_status m"
  "mv_generation (canonicalise_member_verdict m) = mv_generation m"
  "mv_digest (canonicalise_member_verdict m) = mv_digest m"
  "mv_admin (canonicalise_member_verdict m) = mv_admin m"
  "mv_health (canonicalise_member_verdict m) = mv_health m"
  "mv_domains (canonicalise_member_verdict m) = canonicalise (mv_domains m)"
  "cv_status (canonicalise_connectivity_verdict v) = cv_status v"
  "cv_usable_capacity (canonicalise_connectivity_verdict v) = cv_usable_capacity v"
  "ca_status (canonicalise_aggregate a) = ca_status a"
  "dv_status (canonicalise_domain_verdict d) = dv_status d"
  "ov_status (canonicalise_obligation_verdict b) = ov_status b"
  by (simp_all add: canonicalise_member_verdict_def canonicalise_connectivity_verdict_def
      canonicalise_aggregate_def canonicalise_domain_verdict_def
      canonicalise_obligation_verdict_def)

lemma compose_InrE:
  assumes "compose r = Inr s"
  obtains c where "compose_core r = Inr c" "s = finalise_state (cp_state c)"
  using assms by (auto simp: compose_def try_bind_Inr_iff)

lemma compose_core_emitted:
  assumes "compose_core r = Inr c"
  shows "ps_members (cp_state c) = map mw_verdict (cp_members c)"
    "ps_domains (cp_state c) = map dw_verdict (cp_domains c)"
    "ps_connectivity (cp_state c) = map pw_verdict (cp_pairs c)"
    "ps_fences (cp_state c) = cp_fences c"
proof -
  obtain c8 where "c = emit_decisions c8"
    by (rule compose_core_frames[OF assms], rule that) assumption+
  then show "ps_members (cp_state c) = map mw_verdict (cp_members c)"
    "ps_domains (cp_state c) = map dw_verdict (cp_domains c)"
    "ps_connectivity (cp_state c) = map pw_verdict (cp_pairs c)"
    "ps_fences (cp_state c) = cp_fences c"
    by simp_all
qed

lemma compose_members:
  assumes "compose r = Inr s"
  obtains c where "compose_core r = Inr c" "s = finalise_state (cp_state c)"
    "ps_members s = map (\<lambda>w. canonicalise_member_verdict (mw_verdict w)) (cp_members c)"
    "map mv_rack (ps_members s) = map mw_rack (cp_members c)"
proof -
  obtain c where c: "compose_core r = Inr c" "s = finalise_state (cp_state c)"
    using assms by (rule compose_InrE)
  have k: "mv_rack (mw_verdict w) = mw_rack w" if "w \<in> set (cp_members c)" for w
    using compose_core_members(2)[OF c(1)] that judged_facts(1) by blast
  then have r: "map mv_rack (map mw_verdict (cp_members c)) = map mw_rack (cp_members c)"
    by simp
  have "sorted (map mv_rack (map mw_verdict (cp_members c)))"
    unfolding r using compose_core_members(3)[OF c(1)] strict_sorted_iff by blast
  then have s: "ps_members s = map canonicalise_member_verdict (map mw_verdict (cp_members c))"
    using c compose_core_emitted(1)[OF c(1)]
    by (simp add: canonicalise_state_def sort_key_id_if_sorted)
  show thesis
    by (rule that[OF c]) (use s r in \<open>simp_all add: comp_def\<close>)
qed

section \<open>Members\<close>

text \<open>
  C1: the membership of a pod. A composition publishes exactly one verdict per rack that the
  snapshot describes or the pod expects, in rack order. A rack is established if and only if
  its evidence is admissible: exactly one record, fresh on the pod clock, of an accepted
  descriptor schema, declaring itself established, and either repeating the recorded generation
  with the recorded digest or newer and of an admissible class. An established verdict carries
  the generation, digest and domains of that record, and every other rack is fenced.
\<close>

theorem members_established_exactly:
  assumes "compose r = Inr s"
  shows "map mv_rack (ps_members s) = canonicalise (map mr_rack (sn_members (rq_snapshot r)) @
      map me_rack (cx_expectations (rq_context r))) \<and>
    (\<forall>m \<in> set (ps_members s).
      (mv_status m = Mem_Established \<longleftrightarrow>
         admissible (rq_policy r) (sn_observed_at (rq_snapshot r)) (grouped_records r (mv_rack m))
           (expectation_of r (mv_rack m))) \<and>
      (mv_status m = Mem_Established \<longrightarrow> (\<exists>x. grouped_records r (mv_rack m) = [x] \<and>
         mv_generation m = mr_generation x \<and> mv_digest m = mr_digest x \<and>
         mv_domains m = canonicalise (mr_failure_domains x))) \<and>
      (mv_status m \<noteq> Mem_Established \<longrightarrow>
         (\<exists>f \<in> set (ps_fences s). fa_kind f = Fence_Member \<and> fa_subject f = mv_rack m)))"
proof -
  obtain c where c: "compose_core r = Inr c" "s = finalise_state (cp_state c)"
    and m: "ps_members s = map (\<lambda>w. canonicalise_member_verdict (mw_verdict w)) (cp_members c)"
    and k: "map mv_rack (ps_members s) = map mw_rack (cp_members c)"
    using assms by (rule compose_members)
  note f = compose_core_members[OF c(1)]
  have "map mv_rack (ps_members s) = canonicalise (map mr_rack (sn_members (rq_snapshot r)) @
      map me_rack (cx_expectations (rq_context r)))"
    unfolding k using f(3,4) canonicalise_strict
    by (intro strict_sorted_equal) (auto simp: known_racks_def)
  moreover have "(mv_status (mw_verdict w) = Mem_Established \<longleftrightarrow>
         admissible (rq_policy r) (sn_observed_at (rq_snapshot r)) (grouped_records r (mw_rack w))
           (expectation_of r (mw_rack w))) \<and>
      (mv_status (mw_verdict w) = Mem_Established \<longrightarrow> (\<exists>x. grouped_records r (mw_rack w) = [x] \<and>
         mv_generation (mw_verdict w) = mr_generation x \<and> mv_digest (mw_verdict w) = mr_digest x \<and>
         canonicalise (mv_domains (mw_verdict w)) = canonicalise (mr_failure_domains x))) \<and>
      (mv_status (mw_verdict w) \<noteq> Mem_Established \<longrightarrow>
         (\<exists>f \<in> set (ps_fences s). fa_kind f = Fence_Member \<and> fa_subject f = mw_rack w)) \<and>
      mv_rack (mw_verdict w) = mw_rack w"
    if w: "w \<in> set (cp_members c)" for w
  proof -
    have j: "judged r w" using f(2) w by blast
    note q = judged_facts[OF j]
    have "set (ps_fences s) = set (cp_fences c)"
      using c compose_core_emitted(4)[OF c(1)] by simp
    then show ?thesis using q(1-3,7) f(5)[OF w] by auto
  qed
  ultimately show ?thesis by (auto simp: m)
qed

theorem members_established_exactly_witness:
  "\<exists>s. compose sample_request = Inr s \<and> map mv_rack (ps_members s) = [''a'', ''b'']"
proof -
  obtain s where s: "compose sample_request = Inr s" using sample_compose by blast
  have "canonicalise (map mr_rack (sn_members (rq_snapshot sample_request)) @
      map me_rack (cx_expectations (rq_context sample_request))) = [''a'', ''b'']"
    by code_simp
  with members_established_exactly[OF s] s show ?thesis by auto
qed

section \<open>Authority\<close>

text \<open>The check of a granted token: against the published epoch and the live incarnation.\<close>

definition published_check :: "composition_request \<Rightarrow> pod_state \<Rightarrow> authority_check" where
  "published_check r s =
     \<lparr>ac_pod = sn_pod (rq_snapshot r), ac_epoch = ps_epoch s,
      ac_incarnation = cx_incarnation (rq_context r),
      ac_now = (if cx_now (rq_context r) \<noteq> 0 then cx_now (rq_context r)
                else sn_observed_at (rq_snapshot r)),
      ac_clock_skew = po_clock_skew (rq_policy r), ac_revoked = cx_revoked_tokens (rq_context r),
      ac_required = Scope_Pod, ac_enforce_scope = False\<rparr>"

definition holds_pod_token :: "composition_request \<Rightarrow> pod_state \<Rightarrow> bool" where
  "holds_pod_token r s \<longleftrightarrow> list_ex (\<lambda>t. at_scope t = Scope_Pod \<and> token_live t (published_check r s))
     (cx_granted_tokens (rq_context r))"

text \<open>Every outcome the published document implies for the authority of the pod.\<close>

definition authority_codes :: "composition_request \<Rightarrow> pod_state \<Rightarrow> code list" where
  "authority_codes r s =
     map (\<lambda>m. member_code (mv_status m)) (ps_members s) @
     map (\<lambda>d. domain_code (dv_status d)) (ps_domains s) @
     map (\<lambda>a. capacity_code (ca_status a)) (ps_capacity s) @
     map (obligation_code (composer_new r)) (ps_obligations s) @
     (if ps_lifecycle s = Life_Retired then [Code_Refused]
      else if ps_lifecycle s = Life_Constructing then [Code_Incomplete] else []) @
     (if cx_recovered_from_store (rq_context r) \<or> cx_ambiguous_commit (rq_context r)
      then [Code_Indeterminate] else []) @
     (if po_require_authority_token (rq_policy r) \<and> \<not> holds_pod_token r s then [Code_Stale] else [])"

lemma raise_status_fst: "fst (raise_status k rs s) = worst (fst s) k"
  by (simp add: raise_status_def worst_def)

lemma fold_raise_fst:
  "fst (fold (\<lambda>(k, rs). raise_status k rs) fs s) = fold (\<lambda>x s. worst s (fst x)) fs (fst s)"
  by (induction fs arbitrary: s) (auto simp: raise_status_fst split: prod.splits)

text \<open>The state of a fold of \<open>worst\<close>: it dominates and is attained.\<close>

definition dominates :: "code \<Rightarrow> code set \<Rightarrow> bool" where
  "dominates k cs \<longleftrightarrow> (\<forall>c \<in> cs. severity c \<le> severity k) \<and> k \<in> insert Code_Ok cs"

lemma dominates_fold: "dominates (fold (\<lambda>x s. worst s (fst x)) fs Code_Ok) (fst ` set fs)"
  using code.sev_fold_ge[of _ fs fst Code_Ok] code.fold_cases[of fst fs Code_Ok]
  by (auto simp: dominates_def)

lemma dominates_worst: "dominates k cs \<Longrightarrow> dominates (worst k c) (insert c cs)"
  using code.sev_wst[of k c] code.wst_cases[of k c] by (auto simp: dominates_def)

lemma dominates_ok: "dominates k cs \<Longrightarrow> k = Code_Ok \<longleftrightarrow> cs \<subseteq> {Code_Ok}"
  by (auto simp: dominates_def)

lemma lifecycle_findings_fst:
  "dominates (fst s) cs \<Longrightarrow> dominates (fst (lifecycle_findings c s))
     (cs \<union> (if ps_lifecycle (cp_state c) = Life_Retired then {Code_Refused}
            else if ps_lifecycle (cp_state c) = Life_Constructing then {Code_Incomplete} else {}) \<union>
      (if cx_recovered_from_store (cp_context c) \<or> cx_ambiguous_commit (cp_context c)
       then {Code_Indeterminate} else {}))"
  by (auto simp: lifecycle_findings_def Let_def dest: dominates_worst)

text \<open>The token loop.\<close>

lemma judge_tokens:
  "try_fold (judge_token k) ts s = Inr s' \<Longrightarrow>
     (tt_valid_pod s' \<longleftrightarrow> tt_valid_pod s \<or> (\<exists>t \<in> set ts. at_scope t = Scope_Pod \<and> token_live t k)) \<and>
     set (tt_fences s) \<subseteq> set (tt_fences s') \<and>
     (\<forall>t \<in> set ts. \<not> token_live t k \<longrightarrow>
        (\<exists>f \<in> set (tt_fences s'). fa_kind f = Fence_Token \<and> fa_subject f = at_lease t))"
proof (induction ts arbitrary: s)
  case (Cons t ts)
  then obtain s1 where s1: "judge_token k t s = Inr s1"
    and s': "try_fold (judge_token k) ts s1 = Inr s'"
    by (auto simp: result_simps)
  from s1 obtain v where v: "validate_token t k = Inr v"
    by (auto simp: judge_token_def result_simps)
  have l: "verdict_valid v \<longleftrightarrow> token_live t k"
    using validate_token_valid_iff[OF v] by (simp add: verdict_valid_def)
  have "set (tt_fences s) \<subseteq> set (tt_fences s1)" and
    "tt_valid_pod s1 \<longleftrightarrow> tt_valid_pod s \<or> at_scope t = Scope_Pod \<and> token_live t k"
    and here: "\<not> token_live t k \<Longrightarrow>
      \<exists>f \<in> set (tt_fences s1). fa_kind f = Fence_Token \<and> fa_subject f = at_lease t"
    using s1 v l by (auto simp: judge_token_def split: if_splits)
  moreover note Cons.IH[OF s']
  moreover have "\<not> token_live t k \<Longrightarrow>
      \<exists>f \<in> set (tt_fences s'). fa_kind f = Fence_Token \<and> fa_subject f = at_lease t"
    using here Cons.IH[OF s'] by blast
  ultimately show ?case by auto
qed simp

lemma evaluate_authority_facts:
  assumes "evaluate_authority c = Inr c'"
  shows "dominates (pa_status (ps_authority (cp_state c')))
     (fst ` set (findings c) \<union>
      (if ps_lifecycle (cp_state c) = Life_Retired then {Code_Refused}
       else if ps_lifecycle (cp_state c) = Life_Constructing then {Code_Incomplete} else {}) \<union>
      (if cx_recovered_from_store (cp_context c) \<or> cx_ambiguous_commit (cp_context c)
       then {Code_Indeterminate} else {}) \<union>
      (if po_require_authority_token (cp_policy c) \<and>
          \<not> (\<exists>t \<in> set (cx_granted_tokens (cp_context c)).
               at_scope t = Scope_Pod \<and> token_live t (composer_check c))
       then {Code_Stale} else {}))"
    "\<forall>t \<in> set (cx_granted_tokens (cp_context c)). \<not> token_live t (composer_check c) \<longrightarrow>
       (\<exists>f \<in> set (cp_fences c'). fa_kind f = Fence_Token \<and> fa_subject f = at_lease t)"
    "\<not> authoritative (ps_authority (cp_state c')) \<longrightarrow>
       (\<exists>f \<in> set (cp_fences c'). fa_kind f = Fence_Pod \<and> fa_subject f = ps_pod (cp_state c))"
    "pa_epoch (ps_authority (cp_state c')) = ps_epoch (cp_state c)"
    "pa_incarnation (ps_authority (cp_state c')) = ps_incarnation (cp_state c)"
proof -
  let ?s1 = "fold (\<lambda>(k, rs). raise_status k rs) (findings c) (Code_Ok, [])"
  let ?s2 = "lifecycle_findings c ?s1"
  let ?t0 = "\<lparr>tt_valid_pod = False, tt_fences = [], tt_reasons = []\<rparr>"
  obtain tally where t: "try_fold (judge_token (composer_check c)) (cx_granted_tokens (cp_context c))
      ?t0 = Inr tally"
    and c': "c' = (let reasons = snd ?s2 @ tt_reasons tally;
             s3 = (if po_require_authority_token (cp_policy c) \<and> \<not> tt_valid_pod tally
                   then (worst (fst ?s2) Code_Stale,
                         reasons @ [mk_reason Reason_TokenInvalid
                           (''the pod holds no valid pod-scope authority token for the current '' @
                            ''epoch and incarnation'')])
                   else (fst ?s2, reasons));
             authority = (counted_authority c)
               \<lparr>pa_status := fst s3, pa_reasons := canonicalise (snd s3)\<rparr>
         in c\<lparr>cp_state := (cp_state c)\<lparr>ps_authority := authority\<rparr>,
                   cp_fences := cp_fences c @ tt_fences tally @ pod_fences c authority\<rparr>)"
    using assms by (auto simp: evaluate_authority_def Let_def try_bind_Inr_iff)
  note tk = judge_tokens[OF t]
  have "dominates (fst ?s1) (fst ` set (findings c))"
    using dominates_fold[of "findings c"] by (simp add: fold_raise_fst)
  note d = lifecycle_findings_fst[OF this, of c]
  show "dominates (pa_status (ps_authority (cp_state c')))
     (fst ` set (findings c) \<union>
      (if ps_lifecycle (cp_state c) = Life_Retired then {Code_Refused}
       else if ps_lifecycle (cp_state c) = Life_Constructing then {Code_Incomplete} else {}) \<union>
      (if cx_recovered_from_store (cp_context c) \<or> cx_ambiguous_commit (cp_context c)
       then {Code_Indeterminate} else {}) \<union>
      (if po_require_authority_token (cp_policy c) \<and>
          \<not> (\<exists>t \<in> set (cx_granted_tokens (cp_context c)).
               at_scope t = Scope_Pod \<and> token_live t (composer_check c))
       then {Code_Stale} else {}))"
  proof (cases "po_require_authority_token (cp_policy c) \<and> \<not> tt_valid_pod tally")
    case True
    then have "pa_status (ps_authority (cp_state c')) = worst (fst ?s2) Code_Stale"
      by (simp add: c' Let_def)
    with dominates_worst[OF d, of Code_Stale] True tk show ?thesis
      by (simp only: simp_thms if_True token_tally.simps Un_insert_right sup_bot.right_neutral)
  next
    case False
    then have "pa_status (ps_authority (cp_state c')) = fst ?s2" by (auto simp: c' Let_def)
    with d False tk show ?thesis
      by (simp only: simp_thms if_False token_tally.simps sup_bot.right_neutral)
  qed
  show "\<forall>t \<in> set (cx_granted_tokens (cp_context c)). \<not> token_live t (composer_check c) \<longrightarrow>
       (\<exists>f \<in> set (cp_fences c'). fa_kind f = Fence_Token \<and> fa_subject f = at_lease t)"
    using tk by (fastforce simp: c' Let_def)
  show "\<not> authoritative (ps_authority (cp_state c')) \<longrightarrow>
       (\<exists>f \<in> set (cp_fences c'). fa_kind f = Fence_Pod \<and> fa_subject f = ps_pod (cp_state c))"
    by (auto simp: c' Let_def pod_fences_def authoritative_def)
  show "pa_epoch (ps_authority (cp_state c')) = ps_epoch (cp_state c)"
    "pa_incarnation (ps_authority (cp_state c')) = ps_incarnation (cp_state c)"
    by (simp_all add: c' Let_def counted_authority_def)
qed


lemma image_map_same: "(\<And>x. f (g x) = f x) \<Longrightarrow> f ` g ` S = f ` S"
  by (simp add: image_image)

lemma authority_codes_findings:
  assumes "compose_core r = Inr c" "s = finalise_state (cp_state c)"
  shows "fst ` set (findings c) = (\<lambda>m. member_code (mv_status m)) ` set (ps_members s) \<union>
     (\<lambda>d. domain_code (dv_status d)) ` set (ps_domains s) \<union>
     (\<lambda>a. capacity_code (ca_status a)) ` set (ps_capacity s) \<union>
     obligation_code (composer_new r) ` set (ps_obligations s)"
proof -
  have r: "cp_request c = r" by (rule compose_core_members(1)[OF assms(1)])
  have o: "obligation_code (composer_new r) (canonicalise_obligation_verdict v) = obligation_code (composer_new r) v"
    "obligation_code c v = obligation_code (composer_new r) v" for v
    using r by (simp_all add: obligation_code_def composer_new_def canonicalise_obligation_verdict_def)
  show ?thesis
    using compose_core_emitted[OF assms(1)] assms(2)
    by (simp add: findings_def canonicalise_state_def image_Un image_image o Un_assoc)
qed

lemma compose_authority:
  assumes "compose r = Inr s"
  shows "dominates (pa_status (ps_authority s)) (set (authority_codes r s))"
    "\<forall>t \<in> set (cx_granted_tokens (rq_context r)). \<not> token_live t (published_check r s) \<longrightarrow>
       (\<exists>f \<in> set (ps_fences s). fa_kind f = Fence_Token \<and> fa_subject f = at_lease t)"
    "\<not> authoritative (ps_authority s) \<longrightarrow>
       (\<exists>f \<in> set (ps_fences s). fa_kind f = Fence_Pod \<and> fa_subject f = sn_pod (rq_snapshot r))"
    "pa_epoch (ps_authority s) = ps_epoch s"
    "pa_incarnation (ps_authority s) = cx_incarnation (rq_context r)"
proof -
  obtain c where c: "compose_core r = Inr c" "s = finalise_state (cp_state c)"
    using assms by (rule compose_InrE)
  obtain c2 c6 c7 c8 :: composer where a: "evaluate_authority c7 = Inr c8" "c = emit_decisions c8"
    and r: "cp_request c7 = r" "cp_request c = r"
    and st: "cp_state c7 = (cp_state c6)\<lparr>ps_lifecycle := ps_lifecycle (cp_state c)\<rparr>"
    and f: "findings c7 = findings c" and e: "ps_epoch (cp_state c) = ps_epoch (cp_state c2)"
      "ps_epoch (cp_state c7) = ps_epoch (cp_state c2)"
    and p: "ps_pod (cp_state c7) = sn_pod (rq_snapshot r)"
      "ps_incarnation (cp_state c7) = cx_incarnation (rq_context r)"
    by (rule compose_core_frames[OF c(1)], rule that) assumption+
  note q = evaluate_authority_facts[OF a(1)]
  have s: "ps_lifecycle s = ps_lifecycle (cp_state c7)" "ps_epoch s = ps_epoch (cp_state c7)"
    "ps_authority s = ps_authority (cp_state c8)" "set (ps_fences s) = set (cp_fences c8)"
    using st e a(2) c(2) by simp_all
  have k: "composer_check c7 = published_check r s"
    using r p s(2) by (simp add: composer_check_def published_check_def)
  have codes: "set (authority_codes r s) = (fst ` set (findings c7) \<union>
      (if ps_lifecycle (cp_state c7) = Life_Retired then {Code_Refused}
       else if ps_lifecycle (cp_state c7) = Life_Constructing then {Code_Incomplete} else {}) \<union>
      (if cx_recovered_from_store (cp_context c7) \<or> cx_ambiguous_commit (cp_context c7)
       then {Code_Indeterminate} else {}) \<union>
      (if po_require_authority_token (cp_policy c7) \<and>
          \<not> (\<exists>t \<in> set (cx_granted_tokens (cp_context c7)).
               at_scope t = Scope_Pod \<and> token_live t (composer_check c7))
       then {Code_Stale} else {}))"
    unfolding authority_codes_def f authority_codes_findings[OF c] holds_pod_token_def k r s(1)
    by (simp only: set_append set_map list_ex_iff if_distrib[of set] list.set Un_assoc)
  show "dominates (pa_status (ps_authority s)) (set (authority_codes r s))"
    unfolding codes s(3) by (rule q(1))
  show "\<forall>t \<in> set (cx_granted_tokens (rq_context r)). \<not> token_live t (published_check r s) \<longrightarrow>
       (\<exists>f \<in> set (ps_fences s). fa_kind f = Fence_Token \<and> fa_subject f = at_lease t)"
    using q(2) by (simp only: k r s(4))
  show "\<not> authoritative (ps_authority s) \<longrightarrow>
       (\<exists>f \<in> set (ps_fences s). fa_kind f = Fence_Pod \<and> fa_subject f = sn_pod (rq_snapshot r))"
    using q(3) by (simp only: s p)
  show "pa_epoch (ps_authority s) = ps_epoch s"
    "pa_incarnation (ps_authority s) = cx_incarnation (rq_context r)"
    using q(4,5) s p by simp_all
qed

text \<open>
  C2: the authority of a pod is exactly the worst outcome of what the document publishes: every
  member, failure domain, capacity aggregate and obligation, the lifecycle, the recovery flags
  and, when the policy requires one, the pod-scope token. Nothing dominates it and it is attained.
  So a pod is authoritative if and only if every rack is established, every domain and
  aggregate is sound, no obligation is violated or undecided, the pod is neither retired nor
  under construction, it neither restarted nor lost a commit, and a required token is live at
  the published epoch. Authority is stated for the published epoch and the live incarnation.
\<close>

theorem authority_exactly:
  assumes "compose r = Inr s"
  shows "(\<forall>k \<in> set (authority_codes r s). severity k \<le> severity (pa_status (ps_authority s))) \<and>
    pa_status (ps_authority s) \<in> set (Code_Ok # authority_codes r s) \<and>
    (authoritative (ps_authority s) \<longleftrightarrow>
       (\<forall>m \<in> set (ps_members s). mv_status m = Mem_Established) \<and>
       (\<forall>d \<in> set (ps_domains s). dv_status d = Dom_Ok) \<and>
       (\<forall>a \<in> set (ps_capacity s). ca_status a = Cap_Ok \<or> ca_status a = Cap_Deduplicated) \<and>
       (\<forall>v \<in> set (ps_obligations s). ov_status v \<noteq> Obs_Violated \<and> ov_status v \<noteq> Obs_Indeterminate) \<and>
       ps_lifecycle s \<noteq> Life_Retired \<and> ps_lifecycle s \<noteq> Life_Constructing \<and>
       \<not> cx_recovered_from_store (rq_context r) \<and> \<not> cx_ambiguous_commit (rq_context r) \<and>
       (po_require_authority_token (rq_policy r) \<longrightarrow> holds_pod_token r s)) \<and>
    pa_epoch (ps_authority s) = ps_epoch s \<and>
    pa_incarnation (ps_authority s) = cx_incarnation (rq_context r)"
proof -
  note a = compose_authority[OF assms]
  have m: "member_code st = Code_Ok \<longleftrightarrow> st = Mem_Established" for st by (cases st) simp_all
  have d: "domain_code st = Code_Ok \<longleftrightarrow> st = Dom_Ok" for st by (cases st) simp_all
  have k: "capacity_code st = Code_Ok \<longleftrightarrow> st = Cap_Ok \<or> st = Cap_Deduplicated" for st
    by (cases st) simp_all
  have o: "obligation_code c v = Code_Ok \<longleftrightarrow>
      ov_status v \<noteq> Obs_Violated \<and> ov_status v \<noteq> Obs_Indeterminate" for c v
    by (auto simp: obligation_code_def Let_def)
  have "authoritative (ps_authority s) \<longleftrightarrow> set (authority_codes r s) \<subseteq> {Code_Ok}"
    using dominates_ok[OF a(1)] by (simp add: authoritative_def)
  also have "\<dots> \<longleftrightarrow>
       (\<forall>m \<in> set (ps_members s). mv_status m = Mem_Established) \<and>
       (\<forall>d \<in> set (ps_domains s). dv_status d = Dom_Ok) \<and>
       (\<forall>a \<in> set (ps_capacity s). ca_status a = Cap_Ok \<or> ca_status a = Cap_Deduplicated) \<and>
       (\<forall>v \<in> set (ps_obligations s). ov_status v \<noteq> Obs_Violated \<and> ov_status v \<noteq> Obs_Indeterminate) \<and>
       ps_lifecycle s \<noteq> Life_Retired \<and> ps_lifecycle s \<noteq> Life_Constructing \<and>
       \<not> cx_recovered_from_store (rq_context r) \<and> \<not> cx_ambiguous_commit (rq_context r) \<and>
       (po_require_authority_token (rq_policy r) \<longrightarrow> holds_pod_token r s)"
    by (auto simp: authority_codes_def image_subset_iff m d k o)
  finally show ?thesis using a(1,4,5) by (simp add: dominates_def)
qed

theorem authority_exactly_witness:
  "\<exists>s. compose sample_request = Inr s \<and>
    (authoritative (ps_authority s) \<longrightarrow> (\<forall>m \<in> set (ps_members s). mv_status m = Mem_Established))"
proof -
  obtain s where s: "compose sample_request = Inr s" using sample_compose by blast
  with authority_exactly[OF s] show ?thesis by blast
qed

section \<open>Lifecycle\<close>

lemma evidence_lifecycle_active:
  "evidence_lifecycle c = Life_Active \<Longrightarrow>
    \<not> has_degradation c \<and> established_works c \<noteq> [] \<and>
    unat (po_min_established_members (cp_policy c)) \<le> length (established_works c)"
  by (auto simp: evidence_lifecycle_def Let_def split: if_splits)

lemma desired_active:
  "fst (desired_lifecycle c) = Life_Active \<Longrightarrow>
    evidence_lifecycle c = Life_Active \<and> \<not> cx_recovered_from_store (cp_context c) \<and>
    \<not> cx_ambiguous_commit (cp_context c) \<and> ps_epoch (cp_state c) = cx_epoch (cp_context c)"
  by (auto simp: desired_lifecycle_def Let_def split: if_splits prod.splits)

lemma desired_ambiguous:
  "cx_ambiguous_commit (cp_context c) \<Longrightarrow> fst (desired_lifecycle c) = Life_Partitioned"
  by (auto simp: desired_lifecycle_def Let_def split: if_splits prod.splits)

lemma desired_recovered:
  "cx_recovered_from_store (cp_context c) \<Longrightarrow> \<not> cx_ambiguous_commit (cp_context c) \<Longrightarrow>
    fst (desired_lifecycle c) = Life_Recovering"
  by (auto simp: desired_lifecycle_def Let_def split: if_splits prod.splits)

lemma desired_constructing:
  "fst (desired_lifecycle c) = Life_Constructing \<Longrightarrow> established_works c = []"
  by (auto simp: desired_lifecycle_def evidence_lifecycle_def Let_def split: if_splits prod.splits)

lemma next_lifecycle_facts:
  "cur \<noteq> Life_Retired \<Longrightarrow> next_lifecycle cur Life_Partitioned = Life_Partitioned"
  "cur \<noteq> Life_Retired \<Longrightarrow> next_lifecycle cur Life_Recovering = Life_Recovering"
  "next_lifecycle cur d = Life_Active \<Longrightarrow>
     d = Life_Active \<or> cur = Life_Active \<and> d = Life_Constructing"
  by (cases cur; cases d; simp add: next_lifecycle_def legal_def)+

lemma compose_lifecycle:
  assumes "compose r = Inr s"
  obtains c where
    "ps_lifecycle s = (if cx_lifecycle (rq_context r) = Life_Retired then Life_Retired
       else next_lifecycle (cx_lifecycle (rq_context r)) (fst (desired_lifecycle c)))"
    "cp_request c = r" "ps_epoch (cp_state c) = ps_epoch s"
    "mv_status ` set (ps_members s) = (\<lambda>w. mv_status (mw_verdict w)) ` set (cp_members c)"
    "dv_status ` set (ps_domains s) = (\<lambda>w. dv_status (dw_verdict w)) ` set (cp_domains c)"
    "cv_status ` set (ps_connectivity s) = (\<lambda>w. cv_status (pw_verdict w)) ` set (cp_pairs c)"
    "ca_status ` set (ps_capacity s) = ca_status ` set (ps_capacity (cp_state c))"
    "ov_status ` set (ps_obligations s) = ov_status ` set (ps_obligations (cp_state c))"
    "\<forall>w \<in> set (cp_members c). mv_status (mw_verdict w) = Mem_Established \<longleftrightarrow> mw_established w"
    "length (filter mw_established (cp_members c)) =
       length (filter (\<lambda>m. mv_status m = Mem_Established) (ps_members s))"
proof -
  obtain c where c: "compose_core r = Inr c" "s = finalise_state (cp_state c)"
    and m: "ps_members s = map (\<lambda>w. canonicalise_member_verdict (mw_verdict w)) (cp_members c)"
    using assms by (rule compose_members)
  obtain c2 c3 c5 c6 c7 :: composer where l: "evaluate_lifecycle c6 = Inr c7"
    and r: "cp_request c6 = r" "cp_request c7 = r" and mem: "cp_members c = cp_members c3"
      "cp_members c7 = cp_members c3" and dom: "cp_domains c = cp_domains c3"
      "cp_domains c7 = cp_domains c3" and pr: "cp_pairs c = cp_pairs c5" "cp_pairs c7 = cp_pairs c5"
    and st: "cp_state c7 = (cp_state c6)\<lparr>ps_lifecycle := ps_lifecycle (cp_state c)\<rparr>"
    and des: "desired_lifecycle c7 = desired_lifecycle c6"
    and e: "ps_epoch (cp_state c) = ps_epoch (cp_state c2)"
      "ps_epoch (cp_state c7) = ps_epoch (cp_state c2)"
    and cap: "ps_capacity (cp_state c7) = ps_capacity (cp_state c)"
      "ps_obligations (cp_state c7) = ps_obligations (cp_state c)"
    by (rule compose_core_frames[OF c(1)], rule that) assumption+
  have life: "ps_lifecycle (cp_state c7) = (if cx_lifecycle (rq_context r) = Life_Retired
       then Life_Retired
       else next_lifecycle (cx_lifecycle (rq_context r)) (fst (desired_lifecycle c7)))"
    using lifecycle_frame[OF l] r(1) des by auto
  have est: "\<forall>w \<in> set (cp_members c7). mv_status (mw_verdict w) = Mem_Established \<longleftrightarrow> mw_established w"
    using compose_core_members(2)[OF c(1)] judged_facts(2) mem by auto
  have len: "length (filter mw_established (cp_members c7)) =
      length (filter (\<lambda>m. mv_status m = Mem_Established) (ps_members s))"
    using est mem m by (simp add: filter_map comp_def cong: filter_cong)
  show thesis
    by (rule that[of c7, OF _ _ _ _ _ _ _ _ est len])
      (use life r st e cap mem dom pr c(2) m compose_core_emitted[OF c(1)] in
        \<open>simp_all add: canonicalise_state_def image_image\<close>)
qed

text \<open>
  C3: the lifecycle of the published document. It is always a legal successor of the lifecycle the
  pod had; a retired pod stays retired; a pod whose last commit is ambiguous is Partitioned and
  one that restarted is Recovering, and neither is authoritative. A pod is published as
  Active only when every rack is established and there are as many as the policy asks for,
  every rack pair is usable, every aggregate, domain and obligation is sound and the epoch did not
  move; the one exception is that a pod that was Active and has no established rack left
  keeps that name.
\<close>

theorem lifecycle_published:
  assumes "compose r = Inr s"
  shows "is_legal_transition (cx_lifecycle (rq_context r)) (ps_lifecycle s) \<and>
    (cx_lifecycle (rq_context r) = Life_Retired \<longrightarrow>
       ps_lifecycle s = Life_Retired \<and> \<not> authoritative (ps_authority s)) \<and>
    (cx_ambiguous_commit (rq_context r) \<and> cx_lifecycle (rq_context r) \<noteq> Life_Retired \<longrightarrow>
       ps_lifecycle s = Life_Partitioned \<and> \<not> authoritative (ps_authority s)) \<and>
    (cx_recovered_from_store (rq_context r) \<and> \<not> cx_ambiguous_commit (rq_context r) \<and>
       cx_lifecycle (rq_context r) \<noteq> Life_Retired \<longrightarrow>
       ps_lifecycle s = Life_Recovering \<and> \<not> authoritative (ps_authority s)) \<and>
    (ps_lifecycle s = Life_Active \<longrightarrow>
       (cx_lifecycle (rq_context r) = Life_Active \<and>
        (\<forall>m \<in> set (ps_members s). mv_status m \<noteq> Mem_Established)) \<or>
       (ps_members s \<noteq> [] \<and> (\<forall>m \<in> set (ps_members s). mv_status m = Mem_Established) \<and>
        unat (po_min_established_members (rq_policy r)) \<le> length (ps_members s) \<and>
        (\<forall>v \<in> set (ps_connectivity s). cv_status v = Link_Usable) \<and>
        (\<forall>d \<in> set (ps_domains s). dv_status d = Dom_Ok) \<and>
        (\<forall>a \<in> set (ps_capacity s). capacity_is_usable (ca_status a)) \<and>
        (\<forall>v \<in> set (ps_obligations s). ov_status v = Obs_Satisfied) \<and>
        ps_epoch s = cx_epoch (rq_context r)))"
proof -
  obtain c where
    life: "ps_lifecycle s = (if cx_lifecycle (rq_context r) = Life_Retired then Life_Retired
       else next_lifecycle (cx_lifecycle (rq_context r)) (fst (desired_lifecycle c)))" and
    r: "cp_request c = r" and e: "ps_epoch (cp_state c) = ps_epoch s" and
    m: "mv_status ` set (ps_members s) = (\<lambda>w. mv_status (mw_verdict w)) ` set (cp_members c)" and
    d: "dv_status ` set (ps_domains s) = (\<lambda>w. dv_status (dw_verdict w)) ` set (cp_domains c)" and
    p: "cv_status ` set (ps_connectivity s) = (\<lambda>w. cv_status (pw_verdict w)) ` set (cp_pairs c)" and
    k: "ca_status ` set (ps_capacity s) = ca_status ` set (ps_capacity (cp_state c))" and
    o: "ov_status ` set (ps_obligations s) = ov_status ` set (ps_obligations (cp_state c))" and
    est: "\<forall>w \<in> set (cp_members c). mv_status (mw_verdict w) = Mem_Established \<longleftrightarrow> mw_established w" and
    len: "length (filter mw_established (cp_members c)) =
       length (filter (\<lambda>m. mv_status m = Mem_Established) (ps_members s))"
    using assms by (rule compose_lifecycle)
  let ?cur = "cx_lifecycle (rq_context r)"
  have auth: "\<not> authoritative (ps_authority s)"
    if "ps_lifecycle s = Life_Retired \<or> cx_recovered_from_store (rq_context r) \<or>
      cx_ambiguous_commit (rq_context r)"
    using that compose_authority(1)[OF assms]
    by (auto simp: authoritative_def dominates_def authority_codes_def)
  have legal: "is_legal_transition ?cur (ps_lifecycle s)"
    using life legal_next by (auto simp: is_legal_transition_def legal_def)
  have none: "\<forall>m \<in> set (ps_members s). mv_status m \<noteq> Mem_Established"
    if "established_works c = []"
    using that len by (auto simp: established_works_def filter_empty_conv)
  have all: "ps_members s \<noteq> [] \<and> (\<forall>m \<in> set (ps_members s). mv_status m = Mem_Established) \<and>
        unat (po_min_established_members (rq_policy r)) \<le> length (ps_members s) \<and>
        (\<forall>v \<in> set (ps_connectivity s). cv_status v = Link_Usable) \<and>
        (\<forall>d \<in> set (ps_domains s). dv_status d = Dom_Ok) \<and>
        (\<forall>a \<in> set (ps_capacity s). capacity_is_usable (ca_status a)) \<and>
        (\<forall>v \<in> set (ps_obligations s). ov_status v = Obs_Satisfied) \<and>
        ps_epoch s = cx_epoch (rq_context r)" if "fst (desired_lifecycle c) = Life_Active"
  proof -
    have da: "evidence_lifecycle c = Life_Active" "ps_epoch s = cx_epoch (rq_context r)"
      using desired_active[OF that] r e by simp_all
    note ev = evidence_lifecycle_active[OF da(1)]
    have "mv_status ` set (ps_members s) \<subseteq> {Mem_Established}"
      "dv_status ` set (ps_domains s) \<subseteq> {Dom_Ok}" "cv_status ` set (ps_connectivity s) \<subseteq> {Link_Usable}"
      "ca_status ` set (ps_capacity s) \<subseteq> Collect capacity_is_usable"
      "ov_status ` set (ps_obligations s) \<subseteq> {Obs_Satisfied}"
      unfolding m d p k o using ev by (auto simp: has_degradation_def list_ex_iff)
    then have q: "\<forall>m \<in> set (ps_members s). mv_status m = Mem_Established"
      "\<forall>v \<in> set (ps_connectivity s). cv_status v = Link_Usable"
      "\<forall>d \<in> set (ps_domains s). dv_status d = Dom_Ok"
      "\<forall>a \<in> set (ps_capacity s). capacity_is_usable (ca_status a)"
      "\<forall>v \<in> set (ps_obligations s). ov_status v = Obs_Satisfied"
      by (simp_all add: image_subset_iff)
    have "length (established_works c) = length (ps_members s)"
      using len q(1) by (simp only: established_works_def filter_True)
    then have "ps_members s \<noteq> []"
      "unat (po_min_established_members (rq_policy r)) \<le> length (ps_members s)"
      using ev r by auto
    with q da(2) show ?thesis by blast
  qed
  show ?thesis
  proof (intro conjI impI, goal_cases)
    case 1
    show ?case by (rule legal)
  next
    case 2
    then show ?case using life by simp
  next
    case 3
    then show ?case using life auth by simp
  next
    case 4
    then show ?case using life desired_ambiguous[of c] next_lifecycle_facts(1) r by simp
  next
    case 5
    then show ?case using auth by simp
  next
    case 6
    then show ?case using life desired_recovered[of c] next_lifecycle_facts(2) r by simp
  next
    case 7
    then show ?case using auth by simp
  next
    case 8
    then have "fst (desired_lifecycle c) = Life_Active \<or>
        cx_lifecycle (rq_context r) = Life_Active \<and> fst (desired_lifecycle c) = Life_Constructing"
      using life next_lifecycle_facts(3) by (simp split: if_splits)
    then show ?case using all none desired_constructing[of c] by blast
  qed
qed

theorem lifecycle_published_witness:
  "\<exists>s. compose sample_request = Inr s \<and> is_legal_transition Life_Active (ps_lifecycle s)"
proof -
  obtain s where s: "compose sample_request = Inr s" using sample_compose by blast
  with lifecycle_published[OF s] show ?thesis
    by (auto simp: sample_request_def sample_context_def)
qed

section \<open>Epoch\<close>

text \<open>
  C4: the published epoch. It moves exactly when some established rack reports a
  generation the pod had not recorded, and then by exactly one; there is no wrap-around, because a
  composition that would have to move the last epoch fails.
\<close>

theorem epoch_published:
  assumes "compose r = Inr s"
  shows "if \<exists>m \<in> set (ps_members s). mv_status m = Mem_Established \<and>
              newer_than (hd (grouped_records r (mv_rack m))) (expectation_of r (mv_rack m))
         then unat (ps_epoch s) = Suc (unat (cx_epoch (rq_context r)))
         else ps_epoch s = cx_epoch (rq_context r)"
proof -
  obtain c where c: "compose_core r = Inr c" "s = finalise_state (cp_state c)"
    and m: "ps_members s = map (\<lambda>w. canonicalise_member_verdict (mw_verdict w)) (cp_members c)"
    using assms by (rule compose_members)
  obtain c1 c2 :: composer where a: "adopt_generation_advances c1 = Inr c2"
    and r: "cp_request c1 = r" and e: "ps_epoch (cp_state c) = ps_epoch (cp_state c2)"
      "ps_epoch (cp_state c1) = cx_epoch (rq_context r)"
    and ad: "list_ex (\<lambda>w. mw_established w \<and> mw_adopted w) (cp_members c) \<longleftrightarrow>
       list_ex (\<lambda>w. mw_established w \<and> mw_adopted w) (cp_members c1)"
    by (rule compose_core_frames[OF c(1)], rule that) assumption+
  have j: "judged r w" if "w \<in> set (cp_members c)" for w
    using compose_core_members(2)[OF c(1)] that by blast
  have "(\<exists>m \<in> set (ps_members s). mv_status m = Mem_Established \<and>
          newer_than (hd (grouped_records r (mv_rack m))) (expectation_of r (mv_rack m))) \<longleftrightarrow>
      list_ex (\<lambda>w. mw_established w \<and> mw_adopted w) (cp_members c)"
    using judged_facts(1,2,4)[OF j] by (auto simp: m list_ex_iff)
  moreover have "if list_ex (\<lambda>w. mw_established w \<and> mw_adopted w) (cp_members c1)
      then unat (ps_epoch s) = Suc (unat (cx_epoch (rq_context r)))
      else ps_epoch s = cx_epoch (rq_context r)"
    using adopt_frame[OF a] r e c(2) by auto
  ultimately show ?thesis by (simp only: ad)
qed

theorem epoch_published_witness:
  "\<exists>s. compose sample_request = Inr s \<and> ps_epoch s \<in> {5, 6}"
proof -
  obtain s where s: "compose sample_request = Inr s" using sample_compose by blast
  have "cx_epoch (rq_context sample_request) = 5"
    by (simp add: sample_request_def sample_context_def)
  with epoch_published[OF s] have "unat (ps_epoch s) = 6 \<or> ps_epoch s = 5"
    by (auto split: if_splits)
  then have "ps_epoch s \<in> {5, 6}" by (auto simp: word_unat_eq_iff)
  with s show ?thesis by blast
qed

section \<open>Fences\<close>

lemma pair_fence:
  "cv_status (pw_verdict w) \<in> {Link_Stale, Link_Blocked, Link_Conflicting} \<Longrightarrow>
    \<exists>f \<in> set (pair_fences w). fa_kind f = Fence_Link \<and>
      fa_subject f = cv_from (pw_verdict w) @ ''.'' @ cv_to (pw_verdict w)"
  by (simp add: pair_fences_def Let_def)

text \<open>
  C5: nothing that may not be used is published without a fence: every rack that is not
  established, every failure domain in conflict, every rack pair that is stale, blocked or
  conflicting, every granted token that is not live at the published epoch, and the pod itself
  whenever it is not authoritative.
\<close>

theorem fences_complete:
  assumes "compose r = Inr s"
  shows "(\<forall>m \<in> set (ps_members s). mv_status m \<noteq> Mem_Established \<longrightarrow>
      (\<exists>f \<in> set (ps_fences s). fa_kind f = Fence_Member \<and> fa_subject f = mv_rack m)) \<and>
    (\<forall>d \<in> set (ps_domains s). dv_status d = Dom_Conflicting \<longrightarrow>
      (\<exists>f \<in> set (ps_fences s). fa_kind f = Fence_Member \<and> fa_subject f = dv_id d)) \<and>
    (\<forall>v \<in> set (ps_connectivity s). cv_status v \<in> {Link_Stale, Link_Blocked, Link_Conflicting} \<longrightarrow>
      (\<exists>f \<in> set (ps_fences s). fa_kind f = Fence_Link \<and> fa_subject f = cv_from v @ ''.'' @ cv_to v)) \<and>
    (\<forall>t \<in> set (cx_granted_tokens (rq_context r)). \<not> token_live t (published_check r s) \<longrightarrow>
      (\<exists>f \<in> set (ps_fences s). fa_kind f = Fence_Token \<and> fa_subject f = at_lease t)) \<and>
    (\<not> authoritative (ps_authority s) \<longrightarrow>
      (\<exists>f \<in> set (ps_fences s). fa_kind f = Fence_Pod \<and> fa_subject f = sn_pod (rq_snapshot r)))"
proof -
  obtain c where c: "compose_core r = Inr c" "s = finalise_state (cp_state c)"
    and m: "ps_members s = map (\<lambda>w. canonicalise_member_verdict (mw_verdict w)) (cp_members c)"
    using assms by (rule compose_members)
  note k = compose_core_members[OF c(1)] and e = compose_core_emitted[OF c(1)]
  have f: "set (ps_fences s) = set (cp_fences c)" using c e by simp
  have "\<forall>m \<in> set (ps_members s). mv_status m \<noteq> Mem_Established \<longrightarrow>
      (\<exists>f \<in> set (ps_fences s). fa_kind f = Fence_Member \<and> fa_subject f = mv_rack m)"
  proof (clarsimp simp: m f)
    fix w assume w: "w \<in> set (cp_members c)" "mv_status (mw_verdict w) \<noteq> Mem_Established"
    then have j: "judged r w" using k(2) by blast
    show "\<exists>f \<in> set (cp_fences c). fa_kind f = Fence_Member \<and> fa_subject f = mv_rack (mw_verdict w)"
      using k(5)[OF w(1)] w(2) judged_facts(1,2)[OF j] by simp
  qed
  moreover have "\<forall>v \<in> set (ps_connectivity s).
      cv_status v \<in> {Link_Stale, Link_Blocked, Link_Conflicting} \<longrightarrow>
      (\<exists>f \<in> set (ps_fences s). fa_kind f = Fence_Link \<and> fa_subject f = cv_from v @ ''.'' @ cv_to v)"
  proof (intro ballI impI)
    fix v assume v: "v \<in> set (ps_connectivity s)"
      "cv_status v \<in> {Link_Stale, Link_Blocked, Link_Conflicting}"
    then obtain w where w: "w \<in> set (cp_pairs c)"
      "v = canonicalise_connectivity_verdict (pw_verdict w)"
      by (auto simp: c(2) canonicalise_state_def e(3))
    then have "set (pair_fences w) \<subseteq> set (ps_fences s)" using k(9) f by blast
    moreover have "cv_status (pw_verdict w) \<in> {Link_Stale, Link_Blocked, Link_Conflicting}"
      using v(2) w(2) by simp
    ultimately show "\<exists>f \<in> set (ps_fences s). fa_kind f = Fence_Link \<and>
        fa_subject f = cv_from v @ ''.'' @ cv_to v"
      using pair_fence[of w] w(2) by auto
  qed
  moreover have "\<forall>d \<in> set (ps_domains s). dv_status d = Dom_Conflicting \<longrightarrow>
      (\<exists>f \<in> set (ps_fences s). fa_kind f = Fence_Member \<and> fa_subject f = dv_id d)"
  proof (intro ballI impI)
    fix d assume d: "d \<in> set (ps_domains s)" "dv_status d = Dom_Conflicting"
    then obtain w where w: "w \<in> set (cp_domains c)" "d = canonicalise_domain_verdict (dw_verdict w)"
      by (auto simp: c(2) canonicalise_state_def e(2))
    then have "domain_fence w \<in> set (ps_fences s)" using k(8) d(2) f by simp
    moreover have "dv_id (dw_verdict w) = dw_id w"
      using k(7) w(1) bare_domain_fields(6) by (metis new_domain_id(2))
    ultimately show "\<exists>f \<in> set (ps_fences s). fa_kind f = Fence_Member \<and> fa_subject f = dv_id d"
      using w(2) by (intro bexI[of _ "domain_fence w"]) (simp_all add: domain_fence_def)
  qed
  ultimately show ?thesis using compose_authority(2,3)[OF assms] by blast
qed

theorem fences_complete_witness:
  "\<exists>s. compose sample_request = Inr s \<and>
    (\<not> authoritative (ps_authority s) \<longrightarrow>
      (\<exists>f \<in> set (ps_fences s). fa_kind f = Fence_Pod \<and> fa_subject f = ''p''))"
proof -
  obtain s where s: "compose sample_request = Inr s" using sample_compose by blast
  with fences_complete[OF s] show ?thesis
    by (auto simp: sample_request_def sample_snapshot_def)
qed

end
