(* ===== verification/Counting.thy ===== *)
theory Counting
  imports Ledger "HOL-Library.Multiset"
begin

text \<open>
  The frozen ledger, summed up: the invariant of the loop of \<open>freeze\<close> in \<open>engine/ledger.cpp\<close>, what
  the slots hold after any sequence of filings, and the figures of the aggregates as sums over
  the physical units that were claimed.
\<close>

section \<open>What a slot contributes\<close>

text \<open>The smallest amount claimed for the physical resource, and the largest reservation of it that
  still fits.\<close>

definition slot_amount :: "ledger_slot \<Rightarrow> u64" where
  "slot_amount s = Min (lc_amount ` set (sl_usable s))"

definition slot_reserved :: "ledger_slot \<Rightarrow> u64" where
  "slot_reserved s = Max ((\<lambda>c. min (lc_reserved c) (slot_amount s)) ` set (sl_usable s))"

definition claims_agree :: "ledger_claim list \<Rightarrow> bool" where
  "claims_agree cs \<longleftrightarrow> (\<forall>c \<in> set cs. \<forall>d \<in> set cs.
     lc_amount c = lc_amount d \<and> lc_reserved c = lc_reserved d \<and> lc_domain c = lc_domain d)"

definition slot_clean :: "ledger_slot \<Rightarrow> bool" where
  "slot_clean s \<longleftrightarrow> sl_usable s \<noteq> [] \<and> sl_uncounted s = [] \<and> claims_agree (sl_usable s)"

definition slot_ok :: "ident \<times> ident \<Rightarrow> ledger_slot \<Rightarrow> bool" where
  "slot_ok k s \<longleftrightarrow> (sl_resource s, sl_exclusivity s) = k \<and>
     (\<forall>c \<in> set (sl_usable s). (lc_resource c, lc_exclusivity c) = k) \<and>
     (\<forall>x \<in> set (sl_uncounted s). \<not> ct_counted x)"

definition ledger_ok :: "capacity_ledger \<Rightarrow> bool" where
  "ledger_ok l \<longleftrightarrow> smap_ok (lg_slots l) \<and> (\<forall>(k, s) \<in> set (lg_slots l). slot_ok k s)"

lemma ledger_ok_new: "ledger_ok (ledger_new p)"
  by (simp add: ledger_ok_def ledger_new_def)

lemma slot_record_ok:
  "s = slot_default \<or> slot_ok (lc_resource c, lc_exclusivity c) s \<Longrightarrow>
    slot_ok (lc_resource c, lc_exclusivity c) (slot_record c r counted s)"
  by (auto simp: slot_ok_def slot_record_def slot_default_def contribution_of_def Let_def)

lemma smap_put_set: "smap_ok m \<Longrightarrow> (j, w) \<in> set (smap_put k v m) \<Longrightarrow>
    (j = k \<and> w = v) \<or> (j \<noteq> k \<and> (j, w) \<in> set m)"
  by (metis option.inject smap_get_in smap_get_put smap_ok_put)

lemma ledger_record_ok:
  assumes "ledger_ok l" "ledger_record c r counted l = Inr l'"
  shows "ledger_ok l'" "lg_policy l' = lg_policy l"
proof -
  let ?k = "(lc_resource c, lc_exclusivity c)"
  have ok: "smap_ok (lg_slots l)" using assms(1) by (simp add: ledger_ok_def)
  let ?s = "case smap_get (lg_slots l) ?k of None \<Rightarrow> slot_default | Some s \<Rightarrow> s"
  have l': "l' = l\<lparr>lg_slots := smap_put ?k (slot_record c r counted ?s) (lg_slots l)\<rparr>"
    using assms(2) by (auto simp: ledger_record_def try_bind_Inr_iff smap_update_def)
  have "?s = slot_default \<or> slot_ok ?k ?s"
    using assms(1) smap_get_in[OF ok] by (fastforce simp: ledger_ok_def split: option.split)
  then have "slot_ok ?k (slot_record c r counted ?s)" by (rule slot_record_ok)
  moreover have "\<forall>(k, s) \<in> set (lg_slots l). slot_ok k s" using assms(1) by (simp add: ledger_ok_def)
  ultimately show "ledger_ok l'"
    using ok by (auto simp: ledger_ok_def l' dest!: smap_put_set[OF ok])
  show "lg_policy l' = lg_policy l" by (simp add: l')
qed

section \<open>Merging a slot\<close>

lemma merge_amount:
  "(\<forall>o' \<in> set others. A \<le> lc_amount o') \<Longrightarrow>
    fold (merge_claim primary) others (A, R, b) =
      (A, fold (\<lambda>o' r. max r (min (lc_reserved o') A)) others R,
       b \<or> (\<exists>o' \<in> set others. lc_amount o' \<noteq> lc_amount primary \<or>
             lc_reserved o' \<noteq> lc_reserved primary \<or> lc_domain o' \<noteq> lc_domain primary))"
  by (induction others arbitrary: R b) (auto simp: merge_claim_def min_absorb1)

lemma fold_max: "fold (\<lambda>o' r. max r (f o')) xs R = Max (insert R (f ` set xs))" for R :: "'b::linorder"
proof (induction xs arbitrary: R)
  case (Cons x xs)
  have "Max (insert (max R (f x)) (f ` set xs)) = Max (insert R (insert (f x) (f ` set xs)))"
    by (cases "f ` set xs = {}") (simp_all add: ac_simps)
  with Cons show ?case by simp
qed simp

lemma set_sort_usable [simp]: "set (sort_usable cs) = set cs"
  by (simp add: sort_usable_def)

lemma sort_usable_Nil [simp]: "sort_usable cs = [] \<longleftrightarrow> cs = []"
  by (metis set_empty set_sort_usable)

lemma merge_slot_eq:
  assumes "sort_usable (sl_usable s) = primary # others"
  shows "merge_slot primary others = (slot_amount s, slot_reserved s, \<not> claims_agree (sl_usable s))"
    "lc_amount primary = slot_amount s" "sl_usable s \<noteq> []"
proof -
  have st: "set (sl_usable s) = insert primary (set others)"
    using arg_cong[OF assms, of set] by simp
  have "sorted (map claim_order (primary # others))"
    using arg_cong[OF assms, of "map claim_order"] by (metis sort_usable_def sorted_sort_key)
  then have le: "\<forall>o' \<in> set others. lc_amount primary \<le> lc_amount o'"
    by (auto simp: claim_order_def less_eq_prod_def)
  have am: "slot_amount s = lc_amount primary"
    unfolding slot_amount_def st using le by (intro Min_eqI) auto
  show "lc_amount primary = slot_amount s" using am by simp
  show "sl_usable s \<noteq> []" using st by auto
  have re: "Max (insert (min (lc_reserved primary) (slot_amount s))
      ((\<lambda>c. min (lc_reserved c) (slot_amount s)) ` set others)) = slot_reserved s"
    unfolding slot_reserved_def st by simp
  have ag: "claims_agree (sl_usable s) \<longleftrightarrow> \<not> (\<exists>o' \<in> set others. lc_amount o' \<noteq> lc_amount primary \<or>
      lc_reserved o' \<noteq> lc_reserved primary \<or> lc_domain o' \<noteq> lc_domain primary)"
    unfolding claims_agree_def st by auto
  show "merge_slot primary others = (slot_amount s, slot_reserved s, \<not> claims_agree (sl_usable s))"
    using le re ag by (auto simp: merge_slot_def merge_amount fold_max am)
qed

lemma slot_reserved_le: "sl_usable s \<noteq> [] \<Longrightarrow> slot_reserved s \<le> slot_amount s"
  unfolding slot_reserved_def by (subst Max_le_iff) auto


section \<open>One step of the freeze loop\<close>

abbreviation agg_severity :: "capacity_aggregate \<Rightarrow> nat" where
  "agg_severity a \<equiv> capacity_severity (ca_status a)"

abbreviation counted_of :: "capacity_aggregate \<Rightarrow> capacity_contribution list" where
  "counted_of a \<equiv> filter ct_counted (ca_contributions a)"

lemma raise_capacity_simps [simp]:
  "agg_severity (raise_capacity st a) = max (agg_severity a) (capacity_severity st)"
  "ca_contributions (raise_capacity st a) = ca_contributions a"
  "ca_resource (raise_capacity st a) = ca_resource a"
  "ca_domain (raise_capacity st a) = ca_domain a"
  "ca_reasons (raise_capacity st a) = ca_reasons a"
  "ca_total (raise_capacity st a) = ca_total a"
  "ca_reserved (raise_capacity st a) = ca_reserved a"
  by (simp_all add: raise_capacity_def cap.sev_wst)

lemma add_uncounted_facts:
  "\<not> ct_counted x \<Longrightarrow> counted_of (add_uncounted x a) = counted_of a"
  "max 2 (agg_severity a) \<le> agg_severity (add_uncounted x a)"
  "ca_resource (add_uncounted x a) = ca_resource a"
  by (auto simp: add_uncounted_def Let_def)

lemma open_slot_facts:
  assumes "\<forall>x \<in> set (sl_uncounted s). \<not> ct_counted x"
  shows "counted_of (open_slot s a) = counted_of a" "agg_severity a \<le> agg_severity (open_slot s a)"
    "sl_uncounted s \<noteq> [] \<Longrightarrow> 2 \<le> agg_severity (open_slot s a)"
    "ca_resource (open_slot s a) = sl_resource s"
proof -
  have "\<forall>x \<in> set xs. \<not> ct_counted x \<Longrightarrow> counted_of (fold add_uncounted xs b) = counted_of b \<and>
      agg_severity b \<le> agg_severity (fold add_uncounted xs b) \<and>
      (xs \<noteq> [] \<longrightarrow> 2 \<le> agg_severity (fold add_uncounted xs b)) \<and>
      ca_resource (fold add_uncounted xs b) = ca_resource b" for xs b
  proof (induction xs arbitrary: b)
    case (Cons x xs)
    have m: "2 \<le> agg_severity (add_uncounted x b)" "agg_severity b \<le> agg_severity (add_uncounted x b)"
      using add_uncounted_facts(2)[of b x] by simp_all
    show ?case
      using Cons.IH[of "add_uncounted x b"] Cons.prems m add_uncounted_facts(1,3)[of x b]
      by (auto intro: order_trans)
  qed simp
  from this[OF assms, of "a\<lparr>ca_resource := sl_resource s, ca_reasons := ca_reasons a @ sl_notes s\<rparr>"]
  show "counted_of (open_slot s a) = counted_of a"
    "agg_severity a \<le> agg_severity (open_slot s a)"
    "sl_uncounted s \<noteq> [] \<Longrightarrow> 2 \<le> agg_severity (open_slot s a)"
    "ca_resource (open_slot s a) = sl_resource s"
    by (simp_all add: open_slot_def)
qed

lemma dropped_not_counted [simp]: "filter ct_counted (map (dropped_contribution b) cs) = []"
  by (induction cs) (simp_all add: dropped_contribution_def contribution_of_def)

lemma count_total_facts:
  assumes "count_total sofar amount a = (t, a', extra)"
  shows "counted_of a' = counted_of a" "ca_resource a' = ca_resource a"
    "agg_severity a \<le> agg_severity a'"
    "if unat sofar + unat amount < 2 ^ 64 then unat t = unat sofar + unat amount else 3 \<le> agg_severity a'"
proof -
  show "counted_of a' = counted_of a" "ca_resource a' = ca_resource a"
    "agg_severity a \<le> agg_severity a'"
    using assms by (auto simp: count_total_def split: sum.splits)
  show "if unat sofar + unat amount < 2 ^ 64 then unat t = unat sofar + unat amount else 3 \<le> agg_severity a'"
  proof (cases "checked_add sofar amount")
    case (Inl e)
    then have "\<not> unat sofar + unat amount < 2 ^ 64"
      using checked_add_Inr[of sofar amount "sofar + amount"] by auto
    with Inl assms show ?thesis by (auto simp: count_total_def)
  next
    case (Inr u)
    with assms checked_add_unat[OF Inr] checked_add_Inr[of sofar amount u] show ?thesis
      by (auto simp: count_total_def)
  qed
qed

lemma count_reserved_facts:
  assumes "count_reserved sofar amount a = (t, a')"
  shows "counted_of a' = counted_of a" "ca_resource a' = ca_resource a"
    "agg_severity a \<le> agg_severity a'"
    "unat sofar + unat amount < 2 ^ 64 \<Longrightarrow> unat t = unat sofar + unat amount"
proof -
  show "counted_of a' = counted_of a" "ca_resource a' = ca_resource a"
    "agg_severity a \<le> agg_severity a'"
    using assms by (auto simp: count_reserved_def split: sum.splits)
  assume b: "unat sofar + unat amount < 2 ^ 64"
  then have "checked_add sofar amount = Inr (sofar + amount)" by (simp add: checked_add_Inr)
  with assms checked_add_unat[OF this] show "unat t = unat sofar + unat amount"
    by (simp add: count_reserved_def)
qed

lemma file_slot_facts:
  assumes "ct_counted w" "filter ct_counted ds = []"
  shows "counted_of (file_slot conflict w ds a) = counted_of a @ [w]"
    "ca_resource (file_slot conflict w ds a) = ca_resource a"
    "agg_severity a \<le> agg_severity (file_slot conflict w ds a)"
    "conflict \<Longrightarrow> 4 \<le> agg_severity (file_slot conflict w ds a)"
  using assms by (auto simp: file_slot_def Let_def)

abbreviation winner_of :: "ledger_slot \<Rightarrow> ledger_claim \<Rightarrow> capacity_contribution" where
  "winner_of s primary \<equiv> contribution_of primary (slot_amount s) (slot_reserved s) True no_reason"

lemma count_slot_facts:
  assumes "sort_usable (sl_usable s) = primary # others"
  obtains a' t r d where
    "fz_resources (count_slot p s primary others a z) = smap_put (sl_resource s) a' (fz_resources z)"
    "fz_domains (count_slot p s primary others a z) =
       smap_put (sl_resource s, lc_domain primary) d (fz_domains z)"
    "fz_total (count_slot p s primary others a z) = smap_put (sl_resource s) t (fz_total z)"
    "fz_reserved (count_slot p s primary others a z) = smap_put (sl_resource s) r (fz_reserved z)"
    "counted_of a' = counted_of a @ [winner_of s primary]"
    "ca_resource a' = ca_resource a" "agg_severity a \<le> agg_severity a'"
    "\<not> claims_agree (sl_usable s) \<longrightarrow> 4 \<le> agg_severity a'"
    "if unat (running (fz_total z) (sl_resource s)) + unat (slot_amount s) < 2 ^ 64
     then unat t = unat (running (fz_total z) (sl_resource s)) + unat (slot_amount s)
     else 3 \<le> agg_severity a'"
    "unat (running (fz_reserved z) (sl_resource s)) + unat (slot_reserved s) < 2 ^ 64 \<longrightarrow>
       unat r = unat (running (fz_reserved z) (sl_resource s)) + unat (slot_reserved s)"
    "counted_of d = counted_of (aggregate_at (fz_domains z) (sl_resource s, lc_domain primary)) @
       [winner_of s primary]"
    "ca_resource d = sl_resource s" "ca_domain d = lc_domain primary"
proof -
  let ?c = "\<not> claims_agree (sl_usable s)"
  let ?ds = "map (dropped_contribution ?c) others"
  note m = merge_slot_eq(1)[OF assms]
  have w: "ct_counted (winner_of s primary)" by (simp add: contribution_of_def)
  note f = file_slot_facts[OF w dropped_not_counted[of ?c others], where conflict = ?c and a = a]
  obtain t a1 x where t: "count_total (running (fz_total z) (sl_resource s)) (slot_amount s)
      (file_slot ?c (winner_of s primary) ?ds a) = (t, a1, x)"
    by (metis prod_cases3)
  note ft = count_total_facts[OF t]
  obtain r a2 where r: "count_reserved (running (fz_reserved z) (sl_resource s)) (slot_reserved s) a1 =
      (r, a2)"
    by fastforce
  note fr = count_reserved_facts[OF r]
  define a3 where "a3 = (if t > po_max_capacity_total p then raise_capacity Cap_Indeterminate a2 else a2)"
  have a3: "counted_of a3 = counted_of a2" "ca_resource a3 = ca_resource a2"
    "agg_severity a2 \<le> agg_severity a3"
    by (simp_all add: a3_def)
  note eq = count_slot_def[of p s primary others a z] m t r a3_def[symmetric] Let_def prod.case
  let ?z = "count_slot p s primary others a z"
  obtain d where z: "fz_resources ?z = smap_put (sl_resource s) a3 (fz_resources z)"
    "fz_domains ?z = smap_put (sl_resource s, lc_domain primary) d (fz_domains z)"
    "fz_total ?z = smap_put (sl_resource s) t (fz_total z)"
    "fz_reserved ?z = smap_put (sl_resource s) r (fz_reserved z)"
    and d: "counted_of d = counted_of (aggregate_at (fz_domains z) (sl_resource s, lc_domain primary)) @
       [winner_of s primary]"
    "ca_resource d = sl_resource s" "ca_domain d = lc_domain primary"
    unfolding eq by (simp add: w)
  show thesis
    by (rule that[OF z _ _ _ _ _ _ d]) (use f ft fr a3 in \<open>auto split: if_splits\<close>)
qed

section \<open>The freeze loop\<close>

definition slot_primary :: "ledger_slot \<Rightarrow> ledger_claim" where
  "slot_primary s = hd (sort_usable (sl_usable s))"

definition winner :: "ledger_slot \<Rightarrow> capacity_contribution" where
  "winner s = winner_of s (slot_primary s)"

definition slot_domain :: "ledger_slot \<Rightarrow> ident" where
  "slot_domain s = lc_domain (slot_primary s)"

definition res_slots :: "ident \<Rightarrow> ledger_slot list \<Rightarrow> ledger_slot list" where
  "res_slots res ss = filter (\<lambda>s. sl_resource s = res) ss"

definition counted_slots :: "ident \<Rightarrow> ledger_slot list \<Rightarrow> ledger_slot list" where
  "counted_slots res ss = filter (\<lambda>s. sl_usable s \<noteq> []) (res_slots res ss)"

definition domain_slots :: "ident \<Rightarrow> ident \<Rightarrow> ledger_slot list \<Rightarrow> ledger_slot list" where
  "domain_slots res d ss = filter (\<lambda>s. slot_domain s = d) (counted_slots res ss)"

definition offered :: "ledger_slot list \<Rightarrow> nat" where
  "offered ss = sum_list (map (\<lambda>s. unat (slot_amount s)) ss)"

definition committed :: "ledger_slot list \<Rightarrow> nat" where
  "committed ss = sum_list (map (\<lambda>s. unat (slot_reserved s)) ss)"

lemmas slots_simps = res_slots_def counted_slots_def domain_slots_def

lemma committed_le: "\<forall>s \<in> set ss. sl_usable s \<noteq> [] \<Longrightarrow> committed ss \<le> offered ss"
  using slot_reserved_le by (auto simp: committed_def offered_def word_le_nat_alt intro!: sum_list_mono)

definition resource_ok ::
  "ledger_slot list \<Rightarrow> ident \<Rightarrow> capacity_aggregate \<Rightarrow> u64 \<Rightarrow> u64 \<Rightarrow> bool" where
  "resource_ok ss res a t r \<longleftrightarrow>
     counted_of a = map winner (counted_slots res ss) \<and>
     (offered (counted_slots res ss) < 2 ^ 64 \<longrightarrow>
        unat t = offered (counted_slots res ss) \<and> unat r = committed (counted_slots res ss)) \<and>
     (2 ^ 64 \<le> offered (counted_slots res ss) \<longrightarrow> 3 \<le> agg_severity a) \<and>
     (agg_severity a \<le> 1 \<longrightarrow> (\<forall>s \<in> set (res_slots res ss). slot_clean s))"

definition freeze_ok :: "ledger_slot list \<Rightarrow> freeze_state \<Rightarrow> bool" where
  "freeze_ok ss z \<longleftrightarrow>
     smap_ok (fz_resources z) \<and> smap_ok (fz_domains z) \<and> smap_ok (fz_total z) \<and>
     smap_ok (fz_reserved z) \<and>
     (\<forall>res. (smap_get (fz_resources z) res = None \<longleftrightarrow> res_slots res ss = []) \<and>
        (\<forall>a. smap_get (fz_resources z) res = Some a \<longrightarrow> ca_resource a = res) \<and>
        resource_ok ss res (aggregate_at (fz_resources z) res) (running (fz_total z) res)
          (running (fz_reserved z) res)) \<and>
     (\<forall>res d. (smap_get (fz_domains z) (res, d) = None \<longleftrightarrow> domain_slots res d ss = []) \<and>
        (\<forall>a. smap_get (fz_domains z) (res, d) = Some a \<longrightarrow> ca_resource a = res \<and> ca_domain a = d) \<and>
        counted_of (aggregate_at (fz_domains z) (res, d)) = map winner (domain_slots res d ss))"

lemma aggregate_at_put:
  "smap_ok m \<Longrightarrow> aggregate_at (smap_put k a m) j = (if j = k then a else aggregate_at m j)"
  by (simp add: aggregate_at_def smap_get_put)

lemma running_put: "smap_ok m \<Longrightarrow> running (smap_put k v m) j = (if j = k then v else running m j)"
  by (simp add: running_def smap_get_put)

lemma freeze_ok_start: "freeze_ok [] freeze_start"
  by (simp add: freeze_ok_def freeze_start_def resource_ok_def slots_simps offered_def committed_def
      aggregate_at_def running_def smap_get_def capacity_aggregate_default_def)

lemma slots_snoc:
  "res_slots res (ss @ [s]) = res_slots res ss @ (if sl_resource s = res then [s] else [])"
  "counted_slots res (ss @ [s]) =
     counted_slots res ss @ (if sl_resource s = res \<and> sl_usable s \<noteq> [] then [s] else [])"
  "domain_slots res d (ss @ [s]) = domain_slots res d ss @
     (if sl_resource s = res \<and> sl_usable s \<noteq> [] \<and> slot_domain s = d then [s] else [])"
  "offered (ss @ [s]) = offered ss + unat (slot_amount s)"
  "committed (ss @ [s]) = committed ss + unat (slot_reserved s)"
  by (simp_all add: slots_simps offered_def committed_def)

lemma resource_ok_uncounted:
  assumes "resource_ok ss (sl_resource s) a t r" "sl_usable s = []"
    "\<forall>x \<in> set (sl_uncounted s). \<not> ct_counted x"
  shows "resource_ok (ss @ [s]) (sl_resource s) (raise_capacity Cap_Incomplete (open_slot s a)) t r"
proof -
  note f = open_slot_facts(1,2)[OF assms(3), of a]
  show ?thesis using assms(1,2) f by (auto simp: resource_ok_def slots_snoc)
qed

lemma resource_ok_counted:
  assumes "resource_ok ss (sl_resource s) a T R" "sl_usable s \<noteq> []"
    "\<forall>x \<in> set (sl_uncounted s). \<not> ct_counted x"
    "counted_of a' = counted_of (open_slot s a) @ [winner s]"
    "agg_severity (open_slot s a) \<le> agg_severity a'"
    "\<not> claims_agree (sl_usable s) \<longrightarrow> 4 \<le> agg_severity a'"
    "if unat T + unat (slot_amount s) < 2 ^ 64
     then unat t = unat T + unat (slot_amount s) else 3 \<le> agg_severity a'"
    "unat R + unat (slot_reserved s) < 2 ^ 64 \<longrightarrow> unat r = unat R + unat (slot_reserved s)"
  shows "resource_ok (ss @ [s]) (sl_resource s) a' t r"
proof -
  let ?C = "counted_slots (sl_resource s) ss"
  note f = open_slot_facts(1-3)[OF assms(3), of a]
  have u: "\<forall>x \<in> set (?C @ [s]). sl_usable x \<noteq> []" using assms(2) by (auto simp: slots_simps)
  note le = committed_le[OF u]
  have c: "counted_slots (sl_resource s) (ss @ [s]) = ?C @ [s]" using assms(2) by (simp add: slots_snoc)
  have mono: "agg_severity a \<le> agg_severity a'" using f(2) assms(5) by simp
  have "counted_of a' = map winner (?C @ [s])"
    using assms(1,4) f(1) by (simp add: resource_ok_def)
  moreover have "offered (?C @ [s]) < 2 ^ 64 \<longrightarrow>
      unat t = offered (?C @ [s]) \<and> unat r = committed (?C @ [s])"
  proof
    assume b: "offered (?C @ [s]) < 2 ^ 64"
    then have "offered ?C < 2 ^ 64" by (simp add: slots_snoc)
    then have e: "unat T = offered ?C" "unat R = committed ?C"
      using assms(1) by (simp_all add: resource_ok_def)
    with b le show "unat t = offered (?C @ [s]) \<and> unat r = committed (?C @ [s])"
      using assms(7,8) by (simp add: slots_snoc)
  qed
  moreover have "2 ^ 64 \<le> offered (?C @ [s]) \<longrightarrow> 3 \<le> agg_severity a'"
  proof
    assume b: "2 ^ 64 \<le> offered (?C @ [s])"
    show "3 \<le> agg_severity a'"
    proof (cases "offered ?C < 2 ^ 64")
      case True
      then have "unat T = offered ?C" using assms(1) by (simp add: resource_ok_def)
      with b assms(7) show ?thesis by (simp add: slots_snoc)
    next
      case False
      then have "3 \<le> agg_severity a" using assms(1) by (simp add: resource_ok_def)
      with mono show ?thesis by simp
    qed
  qed
  moreover have "agg_severity a' \<le> 1 \<longrightarrow> (\<forall>x \<in> set (res_slots (sl_resource s) (ss @ [s])). slot_clean x)"
  proof
    assume b: "agg_severity a' \<le> 1"
    then have "agg_severity a \<le> 1" using mono by simp
    then have "\<forall>x \<in> set (res_slots (sl_resource s) ss). slot_clean x"
      using assms(1) by (simp add: resource_ok_def)
    moreover have "claims_agree (sl_usable s)" using assms(6) b by linarith
    moreover have "sl_uncounted s = []" using f(3) assms(5) b by linarith
    ultimately show "\<forall>x \<in> set (res_slots (sl_resource s) (ss @ [s])). slot_clean x"
      using assms(2) by (simp add: slots_snoc slot_clean_def)
  qed
  ultimately show ?thesis by (simp only: resource_ok_def c)
qed

lemma freeze_slot_ok:
  assumes "freeze_ok ss z" "slot_ok (sl_resource s, sl_exclusivity s) s"
  shows "freeze_ok (ss @ [s]) (freeze_slot p s z)"
proof -
  let ?R = "sl_resource s" and ?z = "freeze_slot p s z"
  let ?a = "aggregate_at (fz_resources z) ?R"
  have nc: "\<forall>x \<in> set (sl_uncounted s). \<not> ct_counted x" using assms(2) by (simp add: slot_ok_def)
  have ok: "smap_ok (fz_resources z)" "smap_ok (fz_domains z)" "smap_ok (fz_total z)"
    "smap_ok (fz_reserved z)"
    and ra: "resource_ok ss res (aggregate_at (fz_resources z) res) (running (fz_total z) res)
          (running (fz_reserved z) res)" for res
    using assms(1) by (simp_all add: freeze_ok_def)
  have other: "resource_ok (ss @ [s]) res a t r = resource_ok ss res a t r" if "res \<noteq> ?R" for res a t r
    using that by (simp add: resource_ok_def slots_snoc)
  show ?thesis
  proof (cases "sort_usable (sl_usable s)")
    case Nil
    then have n: "sl_usable s = []" by simp
    have z: "?z = z\<lparr>fz_resources := smap_put ?R (raise_capacity Cap_Incomplete (open_slot s ?a))
        (fz_resources z), fz_reasons := fz_reasons z @ sl_notes s\<rparr>"
      unfolding freeze_slot_def Let_def Nil by simp
    show ?thesis
      using assms(1) n ok other resource_ok_uncounted[OF ra n nc] open_slot_facts(4)[OF nc]
      by (auto simp: z freeze_ok_def smap_get_put aggregate_at_put slots_snoc)
  next
    case (Cons primary others)
    have pr: "slot_primary s = primary" using Cons by (simp add: slot_primary_def)
    have u: "sl_usable s \<noteq> []" by (rule merge_slot_eq(3)[OF Cons])
    have z: "?z = count_slot p s primary others (open_slot s ?a) z"
      unfolding freeze_slot_def Let_def Cons by simp
    obtain a' t r d where c:
      "fz_resources ?z = smap_put ?R a' (fz_resources z)"
      "fz_domains ?z = smap_put (?R, lc_domain primary) d (fz_domains z)"
      "fz_total ?z = smap_put ?R t (fz_total z)" "fz_reserved ?z = smap_put ?R r (fz_reserved z)"
      and a': "counted_of a' = counted_of (open_slot s ?a) @ [winner_of s primary]"
      "ca_resource a' = ca_resource (open_slot s ?a)" "agg_severity (open_slot s ?a) \<le> agg_severity a'"
      "\<not> claims_agree (sl_usable s) \<longrightarrow> 4 \<le> agg_severity a'"
      "if unat (running (fz_total z) ?R) + unat (slot_amount s) < 2 ^ 64
       then unat t = unat (running (fz_total z) ?R) + unat (slot_amount s) else 3 \<le> agg_severity a'"
      "unat (running (fz_reserved z) ?R) + unat (slot_reserved s) < 2 ^ 64 \<longrightarrow>
       unat r = unat (running (fz_reserved z) ?R) + unat (slot_reserved s)"
      and d: "counted_of d = counted_of (aggregate_at (fz_domains z) (?R, lc_domain primary)) @
         [winner_of s primary]" "ca_resource d = ?R" "ca_domain d = lc_domain primary"
      
      by (rule count_slot_facts[OF Cons, where p = p and a = "open_slot s ?a" and z = z, folded z],
          rule that) assumption+
    have w: "winner_of s primary = winner s" "slot_domain s = lc_domain primary"
      using pr by (simp_all add: winner_def slot_domain_def)
    have r: "resource_ok (ss @ [s]) ?R a' t r"
      by (rule resource_ok_counted[OF ra u nc a'(1)[unfolded w] a'(3-6)])
    have "(\<forall>res. (smap_get (fz_resources ?z) res = None \<longleftrightarrow> res_slots res (ss @ [s]) = []) \<and>
        (\<forall>a. smap_get (fz_resources ?z) res = Some a \<longrightarrow> ca_resource a = res) \<and>
        resource_ok (ss @ [s]) res (aggregate_at (fz_resources ?z) res) (running (fz_total ?z) res)
          (running (fz_reserved ?z) res))"
      using assms(1) ok other r a'(2) open_slot_facts(4)[OF nc]
      by (auto simp: c freeze_ok_def smap_get_put aggregate_at_put running_put slots_snoc)
    moreover have "(\<forall>res d. (smap_get (fz_domains ?z) (res, d) = None \<longleftrightarrow> domain_slots res d (ss @ [s]) = []) \<and>
        (\<forall>a. smap_get (fz_domains ?z) (res, d) = Some a \<longrightarrow> ca_resource a = res \<and> ca_domain a = d) \<and>
        counted_of (aggregate_at (fz_domains ?z) (res, d)) = map winner (domain_slots res d (ss @ [s])))"
      using assms(1) ok d w u
      by (auto simp: c freeze_ok_def smap_get_put aggregate_at_put slots_snoc)
    ultimately show ?thesis using ok by (simp add: freeze_ok_def c)
  qed
qed

lemma freeze_loop_ok:
  "\<forall>s \<in> set ss. slot_ok (sl_resource s, sl_exclusivity s) s \<Longrightarrow>
    freeze_ok ss (fold (freeze_slot p) ss freeze_start)"
  by (induction ss rule: rev_induct) (simp_all add: freeze_ok_start freeze_slot_ok)

section \<open>The frozen ledger\<close>

abbreviation slots_of :: "capacity_ledger \<Rightarrow> ledger_slot list" where
  "slots_of l \<equiv> map snd (lg_slots l)"

lemma ledger_slots_ok:
  assumes "ledger_ok l"
  shows "\<forall>s \<in> set (slots_of l). slot_ok (sl_resource s, sl_exclusivity s) s"
    "distinct (map sl_exclusivity (counted_slots res (slots_of l)))"
proof -
  have o: "smap_ok (lg_slots l)" "\<And>k s. (k, s) \<in> set (lg_slots l) \<Longrightarrow> slot_ok k s"
    using assms by (auto simp: ledger_ok_def)
  have key: "(sl_resource s, sl_exclusivity s) = k" if "(k, s) \<in> set (lg_slots l)" for k s
    using o(2)[OF that] by (simp add: slot_ok_def)
  show "\<forall>s \<in> set (slots_of l). slot_ok (sl_resource s, sl_exclusivity s) s"
    using o(2) key by fastforce
  have e: "map (\<lambda>s. (sl_resource s, sl_exclusivity s)) (slots_of l) = map fst (lg_slots l)"
    using key by (auto intro!: map_cong)
  have "distinct (map (\<lambda>s. (sl_resource s, sl_exclusivity s)) (slots_of l))"
    unfolding e by (rule smap_ok_distinct[OF o(1)])
  then have "distinct (map (\<lambda>s. (sl_resource s, sl_exclusivity s)) (counted_slots res (slots_of l)))"
    unfolding slots_simps by (intro distinct_map_filter)
  moreover have "map (\<lambda>s. (sl_resource s, sl_exclusivity s)) (counted_slots res ss) =
      map (Pair res) (map sl_exclusivity (counted_slots res ss))" for ss
    by (auto simp: slots_simps)
  ultimately show "distinct (map sl_exclusivity (counted_slots res (slots_of l)))"
    by (metis distinct_map)
qed

lemma winner_simps:
  "ct_amount (winner s) = slot_amount s" "ct_reserved (winner s) = slot_reserved s"
  "ct_counted (winner s)"
  by (simp_all add: winner_def contribution_of_def)

lemma winner_exclusivity:
  assumes "slot_ok (sl_resource s, sl_exclusivity s) s" "sl_usable s \<noteq> []"
  shows "ct_exclusivity (winner s) = sl_exclusivity s"
proof -
  have "slot_primary s \<in> set (sl_usable s)"
    unfolding slot_primary_def by (metis assms(2) hd_in_set set_sort_usable sort_usable_Nil)
  then show ?thesis using assms(1) by (auto simp: slot_ok_def winner_def contribution_of_def)
qed

lemma canonicalise_aggregate_simps [simp]:
  "mset (ca_contributions (canonicalise_aggregate a)) = mset (ca_contributions a)"
  "ca_total (canonicalise_aggregate a) = ca_total a"
  "ca_reserved (canonicalise_aggregate a) = ca_reserved a"
  "ca_headroom (canonicalise_aggregate a) = ca_headroom a"
  "ca_status (canonicalise_aggregate a) = ca_status a"
  by (simp_all add: canonicalise_aggregate_def)

lemma close_resource_facts:
  fixes z :: freeze_state and res :: ident and a :: capacity_aggregate
  defines "b \<equiv> close_resource z (res, a)"
  shows "ca_resource b = ca_resource a" "mset (counted_of b) = mset (counted_of a)"
    "ca_total b = running (fz_total z) res" "ca_reserved b = running (fz_reserved z) res"
    "ca_headroom b = (if ca_reserved b > ca_total b then 0 else ca_total b - ca_reserved b)"
    "agg_severity a \<le> agg_severity b"
    "ca_reserved b > ca_total b \<Longrightarrow> 5 \<le> agg_severity b"
  unfolding b_def close_resource_def
  by (auto simp: Let_def)

lemma freeze_ok_resource:
  assumes "freeze_ok ss z" "smap_get (fz_resources z) res = Some a"
  shows "ca_resource a = res" "res_slots res ss \<noteq> []"
    "resource_ok ss res a (running (fz_total z) res) (running (fz_reserved z) res)"
proof -
  have e: "(smap_get (fz_resources z) res = None \<longleftrightarrow> res_slots res ss = []) \<and>
        (\<forall>a. smap_get (fz_resources z) res = Some a \<longrightarrow> ca_resource a = res) \<and>
        resource_ok ss res (aggregate_at (fz_resources z) res) (running (fz_total z) res)
          (running (fz_reserved z) res)"
    using assms(1) unfolding freeze_ok_def by blast
  show "ca_resource a = res" "res_slots res ss \<noteq> []"
    "resource_ok ss res a (running (fz_total z) res) (running (fz_reserved z) res)"
    using e assms(2) by (simp_all add: aggregate_at_def)
qed

lemma freeze_ok_domain:
  assumes "freeze_ok ss z" "smap_get (fz_domains z) (res, d) = Some a"
  shows "ca_resource a = res" "ca_domain a = d" "domain_slots res d ss \<noteq> []"
    "counted_of a = map winner (domain_slots res d ss)"
proof -
  have e: "(smap_get (fz_domains z) (res, d) = None \<longleftrightarrow> domain_slots res d ss = []) \<and>
        (\<forall>a. smap_get (fz_domains z) (res, d) = Some a \<longrightarrow> ca_resource a = res \<and> ca_domain a = d) \<and>
        counted_of (aggregate_at (fz_domains z) (res, d)) = map winner (domain_slots res d ss)"
    using assms(1) unfolding freeze_ok_def by blast
  show "ca_resource a = res" "ca_domain a = d" "domain_slots res d ss \<noteq> []"
    "counted_of a = map winner (domain_slots res d ss)"
    using e assms(2) by (simp_all add: aggregate_at_def)
qed

lemma frozen_resources:
  assumes "ledger_ok l" "a \<in> set (lg_by_resource (ledger_freeze l))"
  shows "mset (counted_of a) = mset (map winner (counted_slots (ca_resource a) (slots_of l)))"
    "ca_resource a \<in> sl_resource ` set (slots_of l)"
    "offered (counted_slots (ca_resource a) (slots_of l)) < 2 ^ 64 \<Longrightarrow>
       unat (ca_total a) = offered (counted_slots (ca_resource a) (slots_of l)) \<and>
       unat (ca_reserved a) = committed (counted_slots (ca_resource a) (slots_of l)) \<and>
       ca_reserved a \<le> ca_total a \<and> ca_headroom a = ca_total a - ca_reserved a"
    "agg_severity a \<le> 1 \<Longrightarrow> offered (counted_slots (ca_resource a) (slots_of l)) < 2 ^ 64 \<and>
       (\<forall>s \<in> set (res_slots (ca_resource a) (slots_of l)). slot_clean s)"
proof -
  let ?z = "fold (freeze_slot (lg_policy l)) (slots_of l) freeze_start"
  have z: "freeze_ok (slots_of l) ?z" by (rule freeze_loop_ok[OF ledger_slots_ok(1)[OF assms(1)]])
  obtain res b where b: "(res, b) \<in> set (fz_resources ?z)" and a: "a = close_resource ?z (res, b)"
    using assms(2) by (auto simp: ledger_freeze_def Let_def)
  have ok: "smap_ok (fz_resources ?z)" using z by (simp add: freeze_ok_def)
  have g: "smap_get (fz_resources ?z) res = Some b" using b smap_get_in[OF ok] by simp
  note f = close_resource_facts[where z = ?z and res = res and a = b, folded a]
  note rb = freeze_ok_resource[OF z g]
  have r: "ca_resource a = res" using f(1) rb(1) by simp
  have m: "counted_of b = map winner (counted_slots res (slots_of l))"
    using rb(3) by (simp add: resource_ok_def)
  show "mset (counted_of a) = mset (map winner (counted_slots (ca_resource a) (slots_of l)))"
    unfolding r using f(2) m by metis
  show "ca_resource a \<in> sl_resource ` set (slots_of l)"
    using rb(2) by (auto simp: r res_slots_def filter_empty_conv)
  show "unat (ca_total a) = offered (counted_slots (ca_resource a) (slots_of l)) \<and>
       unat (ca_reserved a) = committed (counted_slots (ca_resource a) (slots_of l)) \<and>
       ca_reserved a \<le> ca_total a \<and> ca_headroom a = ca_total a - ca_reserved a"
    if b: "offered (counted_slots (ca_resource a) (slots_of l)) < 2 ^ 64"
  proof -
    have e: "unat (ca_total a) = offered (counted_slots res (slots_of l))"
      "unat (ca_reserved a) = committed (counted_slots res (slots_of l))"
      using b rb(3) f(3,4) unfolding r resource_ok_def by simp_all
    moreover have "\<forall>s \<in> set (counted_slots res (slots_of l)). sl_usable s \<noteq> []"
      by (simp add: slots_simps)
    ultimately have "ca_reserved a \<le> ca_total a" using committed_le by (simp add: word_le_nat_alt)
    with e f(5) show ?thesis unfolding r by auto
  qed
  show "offered (counted_slots (ca_resource a) (slots_of l)) < 2 ^ 64 \<and>
       (\<forall>s \<in> set (res_slots (ca_resource a) (slots_of l)). slot_clean s)" if "agg_severity a \<le> 1"
  proof -
    have "agg_severity b \<le> 1" using that f(6) by simp
    with rb(3) show ?thesis unfolding r resource_ok_def by (auto simp: not_le)
  qed
qed

lemma sum_counted_exact:
  assumes "unat tot + sum_list (map (unat \<circ> ct_amount) (filter ct_counted cs)) < 2 ^ 64"
    "unat resv + sum_list (map (unat \<circ> ct_reserved) (filter ct_counted cs)) < 2 ^ 64"
  shows "\<exists>t r. sum_counted cs tot resv = (t, r, False) \<and>
     unat t = unat tot + sum_list (map (unat \<circ> ct_amount) (filter ct_counted cs)) \<and>
     unat r = unat resv + sum_list (map (unat \<circ> ct_reserved) (filter ct_counted cs))"
  using assms
proof (induction cs arbitrary: tot resv)
  case (Cons c cs)
  show ?case
  proof (cases "ct_counted c")
    case True
    have a: "checked_add tot (ct_amount c) = Inr (tot + ct_amount c)"
      "checked_add resv (ct_reserved c) = Inr (resv + ct_reserved c)"
      using Cons.prems True by (simp_all add: checked_add_Inr)
    show ?thesis
      using Cons.IH[of "tot + ct_amount c" "resv + ct_reserved c"] Cons.prems True a
        checked_add_unat[OF a(1)] checked_add_unat[OF a(2)] by (simp add: add.assoc)
  next
    case False
    with Cons show ?thesis by simp
  qed
qed simp

lemma sum_partition:
  fixes f :: "'a \<Rightarrow> nat"
  assumes "distinct ds" "g ` set xs \<subseteq> set ds"
  shows "sum_list (map (\<lambda>d. sum_list (map f (filter (\<lambda>x. g x = d) xs))) ds) = sum_list (map f xs)"
  using assms(2)
proof (induction xs)
  case (Cons x xs)
  have "sum_list (map (\<lambda>d. sum_list (map f (filter (\<lambda>y. g y = d) (x # xs)))) ds) =
      sum_list (map (\<lambda>d. (if g x = d then f x else 0) + sum_list (map f (filter (\<lambda>y. g y = d) xs))) ds)"
    by (intro arg_cong[where f = sum_list] map_cong) auto
  also have "\<dots> = sum_list (map (\<lambda>d. if g x = d then f x else 0) ds) + sum_list (map f xs)"
    using Cons by (simp add: sum_list_addf)
  also have "sum_list (map (\<lambda>d. if g x = d then f x else 0) ds) = f x"
    using assms(1) Cons.prems by (simp add: sum_list_distinct_conv_sum_set)
  finally show ?case by simp
qed simp

section \<open>Filing a list of claims\<close>

text \<open>A claim with a reason is filed but not counted.\<close>

type_synonym filing = "ledger_claim \<times> reason option"

definition file_one :: "filing \<Rightarrow> capacity_ledger \<Rightarrow> capacity_ledger result" where
  "file_one e l = (case snd e of None \<Rightarrow> ledger_add (fst e) l | Some r \<Rightarrow> ledger_add_suppressed (fst e) r l)"

abbreviation claim_key :: "ledger_claim \<Rightarrow> ident \<times> ident" where
  "claim_key c \<equiv> (lc_resource c, lc_exclusivity c)"

definition usable_claims :: "filing list \<Rightarrow> ledger_claim list" where
  "usable_claims fs = map fst (filter (\<lambda>e. snd e = None) fs)"

definition withheld_claims :: "filing list \<Rightarrow> ledger_claim list" where
  "withheld_claims fs = map fst (filter (\<lambda>e. snd e \<noteq> None) fs)"

lemma file_one_record:
  "file_one e l = ledger_record (fst e) (case snd e of None \<Rightarrow> no_reason | Some r \<Rightarrow> r) (snd e = None) l"
  by (simp add: file_one_def ledger_add_def ledger_add_suppressed_def split: option.split)

text \<open>What the slots hold after the filings \<open>fs\<close>.\<close>

definition slots_hold :: "filing list \<Rightarrow> capacity_ledger \<Rightarrow> bool" where
  "slots_hold fs l \<longleftrightarrow> (\<forall>k. case smap_get (lg_slots l) k of
       None \<Rightarrow> k \<notin> claim_key ` fst ` set fs
     | Some s \<Rightarrow> k \<in> claim_key ` fst ` set fs \<and>
         sl_usable s = filter (\<lambda>c. claim_key c = k) (usable_claims fs) \<and>
         map ct_exclusivity (sl_uncounted s) =
           map lc_exclusivity (filter (\<lambda>c. claim_key c = k) (withheld_claims fs)))"

lemma claims_subset:
  "set (usable_claims fs) \<subseteq> fst ` set fs" "set (withheld_claims fs) \<subseteq> fst ` set fs"
  by (auto simp: usable_claims_def withheld_claims_def)

lemma claims_snoc:
  "usable_claims (fs @ [e]) = usable_claims fs @ (if snd e = None then [fst e] else [])"
  "withheld_claims (fs @ [e]) = withheld_claims fs @ (if snd e \<noteq> None then [fst e] else [])"
  by (simp_all add: usable_claims_def withheld_claims_def)

lemma slots_hold_record:
  assumes "slots_hold fs l" "smap_ok (lg_slots l)" "file_one e l = Inr l'"
  shows "slots_hold (fs @ [e]) l'"
proof -
  let ?k = "claim_key (fst e)" and ?r = "case snd e of None \<Rightarrow> no_reason | Some r \<Rightarrow> r"
  let ?s = "case smap_get (lg_slots l) ?k of None \<Rightarrow> slot_default | Some s \<Rightarrow> s"
  have l': "lg_slots l' = smap_put ?k (slot_record (fst e) ?r (snd e = None) ?s) (lg_slots l)"
    using assms(3) by (auto simp: file_one_record ledger_record_def try_bind_Inr_iff smap_update_def)
  have other: "smap_get (lg_slots l') k = smap_get (lg_slots l) k" if "k \<noteq> ?k" for k
    using that by (simp add: l' smap_get_put assms(2))
  have here: "smap_get (lg_slots l') ?k = Some (slot_record (fst e) ?r (snd e = None) ?s)"
    by (simp add: l' smap_get_put assms(2))
  have old: "sl_usable ?s = filter (\<lambda>c. claim_key c = ?k) (usable_claims fs)"
    "map ct_exclusivity (sl_uncounted ?s) =
       map lc_exclusivity (filter (\<lambda>c. claim_key c = ?k) (withheld_claims fs))"
  proof -
    have a: "case smap_get (lg_slots l) ?k of
       None \<Rightarrow> ?k \<notin> claim_key ` fst ` set fs
     | Some s \<Rightarrow> ?k \<in> claim_key ` fst ` set fs \<and>
         sl_usable s = filter (\<lambda>c. claim_key c = ?k) (usable_claims fs) \<and>
         map ct_exclusivity (sl_uncounted s) =
           map lc_exclusivity (filter (\<lambda>c. claim_key c = ?k) (withheld_claims fs))"
      using assms(1) unfolding slots_hold_def by blast
    have n: "filter (\<lambda>c. claim_key c = ?k) (usable_claims fs) = [] \<and>
        filter (\<lambda>c. claim_key c = ?k) (withheld_claims fs) = []"
      if k: "?k \<notin> claim_key ` fst ` set fs"
    proof -
      have "claim_key x \<noteq> ?k" if "x \<in> fst ` set fs" for x
        using k imageI[OF that, of "\<lambda>c. claim_key c"] by metis
      then show ?thesis using claims_subset[of fs] unfolding filter_empty_conv by (meson subsetD)
    qed
    show "sl_usable ?s = filter (\<lambda>c. claim_key c = ?k) (usable_claims fs)"
      "map ct_exclusivity (sl_uncounted ?s) =
       map lc_exclusivity (filter (\<lambda>c. claim_key c = ?k) (withheld_claims fs))"
      using a n by (cases "smap_get (lg_slots l) ?k"; simp add: slot_default_def)+
  qed
  show ?thesis unfolding slots_hold_def
  proof
    fix k
    show "case smap_get (lg_slots l') k of
       None \<Rightarrow> k \<notin> claim_key ` fst ` set (fs @ [e])
     | Some s \<Rightarrow> k \<in> claim_key ` fst ` set (fs @ [e]) \<and>
         sl_usable s = filter (\<lambda>c. claim_key c = k) (usable_claims (fs @ [e])) \<and>
         map ct_exclusivity (sl_uncounted s) =
           map lc_exclusivity (filter (\<lambda>c. claim_key c = k) (withheld_claims (fs @ [e])))"
    proof (cases "k = ?k")
      case True
      show ?thesis unfolding True here
        using old by (simp add: slot_record_def usable_claims_def withheld_claims_def Let_def
            contribution_of_def)
    next
      case False
      then have "claim_key (fst e) \<noteq> k" by auto
      moreover have "case smap_get (lg_slots l) k of
         None \<Rightarrow> k \<notin> claim_key ` fst ` set fs
       | Some s \<Rightarrow> k \<in> claim_key ` fst ` set fs \<and>
           sl_usable s = filter (\<lambda>c. claim_key c = k) (usable_claims fs) \<and>
           map ct_exclusivity (sl_uncounted s) =
             map lc_exclusivity (filter (\<lambda>c. claim_key c = k) (withheld_claims fs))"
        using assms(1) unfolding slots_hold_def by blast
      ultimately show ?thesis unfolding other[OF False] claims_snoc set_append image_Un
        by (auto split: option.splits)
    qed
  qed
qed

lemma file_claims_ok:
  assumes "try_fold file_one fs (ledger_new p) = Inr l"
  shows "ledger_ok l" "slots_hold fs l" "lg_policy l = p"
proof -
  have "ledger_ok l \<and> slots_hold fs l \<and> lg_policy l = p"
    using assms
  proof (induction fs arbitrary: l rule: rev_induct)
    case Nil
    then show ?case
      by (auto simp: ledger_ok_def slots_hold_def ledger_new_def smap_get_def)
  next
    case (snoc e fs)
    then obtain m where m: "try_fold file_one fs (ledger_new p) = Inr m" "file_one e m = Inr l"
      by (auto simp: try_fold_append try_bind_Inr_iff)
    note ih = snoc.IH[OF m(1)]
    have ok: "smap_ok (lg_slots m)" using ih by (simp add: ledger_ok_def)
    show ?case
      using ih slots_hold_record[OF _ ok m(2)] ledger_record_ok[OF _ m(2)[unfolded file_one_record]]
      by blast
  qed
  then show "ledger_ok l" "slots_hold fs l" "lg_policy l = p" by simp_all
qed

section \<open>The capacity of a list of claims\<close>

text \<open>The physical units of a resource class, what each of them is worth, and the sum.\<close>

definition units :: "ledger_claim list \<Rightarrow> ident \<Rightarrow> ident set" where
  "units cs res = lc_exclusivity ` {c \<in> set cs. lc_resource c = res}"

definition unit_claims :: "ledger_claim list \<Rightarrow> ident \<Rightarrow> ident \<Rightarrow> ledger_claim set" where
  "unit_claims cs res x = {c \<in> set cs. claim_key c = (res, x)}"

definition unit_amount :: "ledger_claim list \<Rightarrow> ident \<Rightarrow> ident \<Rightarrow> u64" where
  "unit_amount cs res x = Min (lc_amount ` unit_claims cs res x)"

definition class_capacity :: "ledger_claim list \<Rightarrow> ident \<Rightarrow> nat" where
  "class_capacity cs res = (\<Sum>x \<in> units cs res. unat (unit_amount cs res x))"

lemma slot_of_claim:
  assumes "ledger_ok l" "slots_hold fs l" "c \<in> fst ` set fs"
  obtains s where "s \<in> set (slots_of l)" "(sl_resource s, sl_exclusivity s) = claim_key c"
    "sl_usable s = filter (\<lambda>d. claim_key d = claim_key c) (usable_claims fs)"
    "map ct_exclusivity (sl_uncounted s) =
       map lc_exclusivity (filter (\<lambda>d. claim_key d = claim_key c) (withheld_claims fs))"
proof -
  have ok: "smap_ok (lg_slots l)" using assms(1) by (simp add: ledger_ok_def)
  have "claim_key c \<in> claim_key ` fst ` set fs" using assms(3) by (rule imageI)
  moreover have h: "case smap_get (lg_slots l) (claim_key c) of
       None \<Rightarrow> claim_key c \<notin> claim_key ` fst ` set fs
     | Some s \<Rightarrow> claim_key c \<in> claim_key ` fst ` set fs \<and>
         sl_usable s = filter (\<lambda>d. claim_key d = claim_key c) (usable_claims fs) \<and>
         map ct_exclusivity (sl_uncounted s) =
           map lc_exclusivity (filter (\<lambda>d. claim_key d = claim_key c) (withheld_claims fs))"
    using assms(2) unfolding slots_hold_def by blast
  ultimately have "smap_get (lg_slots l) (claim_key c) \<noteq> None" by (auto split: option.splits)
  then obtain s where g: "smap_get (lg_slots l) (claim_key c) = Some s" by blast
  then have s: "(claim_key c, s) \<in> set (lg_slots l)" using smap_get_in[OF ok] by simp
  then have "(sl_resource s, sl_exclusivity s) = claim_key c"
    using assms(1) by (auto simp: ledger_ok_def slot_ok_def)
  moreover have "s \<in> set (slots_of l)" using s by force
  ultimately show thesis using that h g by simp
qed

lemma counted_slots_units:
  assumes "ledger_ok l" "slots_hold fs l"
  shows "set (map sl_exclusivity (counted_slots res (slots_of l))) = units (usable_claims fs) res"
    "offered (counted_slots res (slots_of l)) = class_capacity (usable_claims fs) res"
proof -
  have ok: "smap_ok (lg_slots l)" using assms(1) by (simp add: ledger_ok_def)
  have get: "smap_get (lg_slots l) (sl_resource s, sl_exclusivity s) = Some s"
    if s: "s \<in> set (slots_of l)" for s
  proof -
    obtain k where "(k, s) \<in> set (lg_slots l)" using s by auto
    then have "slot_ok k s" using assms(1) by (auto simp: ledger_ok_def)
    moreover have "smap_get (lg_slots l) k = Some s"
      using \<open>(k, s) \<in> set (lg_slots l)\<close> smap_get_in[OF ok] by simp
    ultimately show ?thesis by (simp add: slot_ok_def)
  qed
  have us: "sl_usable s = filter (\<lambda>c. claim_key c = (sl_resource s, sl_exclusivity s)) (usable_claims fs)"
    if "s \<in> set (slots_of l)" for s
    using assms(2)[unfolded slots_hold_def, rule_format, of "(sl_resource s, sl_exclusivity s)"]
      get[OF that] by simp
  have some: "\<exists>s \<in> set (slots_of l). (sl_resource s, sl_exclusivity s) = claim_key c \<and> sl_usable s \<noteq> []"
    if c: "c \<in> set (usable_claims fs)" for c
  proof -
    have cf: "c \<in> fst ` set fs" using c claims_subset by blast
    obtain s where s: "s \<in> set (slots_of l)" "(sl_resource s, sl_exclusivity s) = claim_key c"
      "sl_usable s = filter (\<lambda>d. claim_key d = claim_key c) (usable_claims fs)"
      by (rule slot_of_claim[OF assms cf], rule that) assumption+
    have "sl_usable s \<noteq> []" using c s(3) by (auto simp: filter_empty_conv)
    with s show ?thesis by blast
  qed
  show x: "set (map sl_exclusivity (counted_slots res (slots_of l))) = units (usable_claims fs) res"
  proof
    show "set (map sl_exclusivity (counted_slots res (slots_of l))) \<subseteq> units (usable_claims fs) res"
    proof
      fix x assume "x \<in> set (map sl_exclusivity (counted_slots res (slots_of l)))"
      then obtain s where s: "s \<in> set (slots_of l)" "sl_resource s = res" "sl_usable s \<noteq> []"
        "x = sl_exclusivity s"
        by (auto simp: slots_simps)
      then obtain c where "c \<in> set (sl_usable s)" by (meson list.set_sel(1))
      then have "c \<in> set (usable_claims fs)" "lc_resource c = res" "lc_exclusivity c = x"
        using us[OF s(1)] s by auto
      then show "x \<in> units (usable_claims fs) res" by (auto simp: units_def)
    qed
    show "units (usable_claims fs) res \<subseteq> set (map sl_exclusivity (counted_slots res (slots_of l)))"
    proof
      fix x assume "x \<in> units (usable_claims fs) res"
      then obtain c where c: "c \<in> set (usable_claims fs)" "lc_resource c = res" "x = lc_exclusivity c"
        by (auto simp: units_def)
      from some[OF c(1)] obtain s where "s \<in> set (slots_of l)" "sl_resource s = res"
        "sl_exclusivity s = x" "sl_usable s \<noteq> []"
        using c by auto
      then show "x \<in> set (map sl_exclusivity (counted_slots res (slots_of l)))"
        by (auto simp: slots_simps)
    qed
  qed
  have am: "slot_amount s = unit_amount (usable_claims fs) res (sl_exclusivity s)"
    if "s \<in> set (counted_slots res (slots_of l))" for s
  proof -
    have s: "s \<in> set (slots_of l)" "sl_resource s = res" using that by (auto simp: slots_simps)
    have "set (sl_usable s) = unit_claims (usable_claims fs) res (sl_exclusivity s)"
      unfolding us[OF s(1)] s(2) by (auto simp: unit_claims_def)
    then show ?thesis by (simp add: slot_amount_def unit_amount_def)
  qed
  have "offered (counted_slots res (slots_of l)) = sum_list (map (\<lambda>x. unat (unit_amount (usable_claims fs) res x))
      (map sl_exclusivity (counted_slots res (slots_of l))))"
    using am by (simp add: offered_def comp_def cong: map_cong)
  also have "\<dots> = class_capacity (usable_claims fs) res"
    unfolding class_capacity_def x[symmetric]
    by (rule sum_list_distinct_conv_sum_set[OF ledger_slots_ok(2)[OF assms(1)]])
  finally show "offered (counted_slots res (slots_of l)) = class_capacity (usable_claims fs) res" .
qed

lemma counted_once:
  assumes "try_fold file_one fs (ledger_new p) = Inr l" "a \<in> set (lg_by_resource (ledger_freeze l))"
  shows "distinct (map ct_exclusivity (counted_of a)) \<and>
    set (map ct_exclusivity (counted_of a)) = units (usable_claims fs) (ca_resource a) \<and>
    (class_capacity (usable_claims fs) (ca_resource a) < 2 ^ 64 \<longrightarrow>
       unat (ca_total a) = class_capacity (usable_claims fs) (ca_resource a) \<and>
       ca_reserved a \<le> ca_total a \<and> ca_headroom a = ca_total a - ca_reserved a) \<and>
    (ca_status a = Cap_Ok \<or> ca_status a = Cap_Deduplicated \<longrightarrow>
       class_capacity (usable_claims fs) (ca_resource a) < 2 ^ 64 \<and>
       (\<forall>c \<in> set (withheld_claims fs). lc_resource c \<noteq> ca_resource a) \<and>
       (\<forall>x. \<forall>c \<in> unit_claims (usable_claims fs) (ca_resource a) x.
          \<forall>d \<in> unit_claims (usable_claims fs) (ca_resource a) x.
            lc_amount c = lc_amount d \<and> lc_reserved c = lc_reserved d \<and> lc_domain c = lc_domain d))"
proof -
  note o = file_claims_ok(1,2)[OF assms(1)]
  let ?S = "counted_slots (ca_resource a) (slots_of l)"
  note f = frozen_resources[OF o(1) assms(2)] and u = counted_slots_units[OF o, of "ca_resource a"]
  have "\<forall>s \<in> set ?S. ct_exclusivity (winner s) = sl_exclusivity s"
    using ledger_slots_ok(1)[OF o(1)] winner_exclusivity by (auto simp: slots_simps)
  then have "map ct_exclusivity (map winner ?S) = map sl_exclusivity ?S" by simp
  moreover have "mset (map ct_exclusivity (counted_of a)) = mset (map ct_exclusivity (map winner ?S))"
    using arg_cong[OF f(1), of "image_mset ct_exclusivity"] by (simp only: mset_map)
  ultimately have m: "mset (map ct_exclusivity (counted_of a)) = mset (map sl_exclusivity ?S)"
    by (simp only:)
  have 1: "distinct (map ct_exclusivity (counted_of a))"
    using mset_eq_imp_distinct_iff[OF m] ledger_slots_ok(2)[OF o(1)] by simp
  have 2: "set (map ct_exclusivity (counted_of a)) = units (usable_claims fs) (ca_resource a)"
    using mset_eq_setD[OF m] u(1) by simp
  have 3: "class_capacity (usable_claims fs) (ca_resource a) < 2 ^ 64 \<longrightarrow>
       unat (ca_total a) = class_capacity (usable_claims fs) (ca_resource a) \<and>
       ca_reserved a \<le> ca_total a \<and> ca_headroom a = ca_total a - ca_reserved a"
    using f(3) u(2) by simp
  have 4: "class_capacity (usable_claims fs) (ca_resource a) < 2 ^ 64 \<and>
       (\<forall>c \<in> set (withheld_claims fs). lc_resource c \<noteq> ca_resource a) \<and>
       (\<forall>x. \<forall>c \<in> unit_claims (usable_claims fs) (ca_resource a) x.
          \<forall>d \<in> unit_claims (usable_claims fs) (ca_resource a) x.
            lc_amount c = lc_amount d \<and> lc_reserved c = lc_reserved d \<and> lc_domain c = lc_domain d)"
    if "ca_status a = Cap_Ok \<or> ca_status a = Cap_Deduplicated"
  proof -
    have sev: "agg_severity a \<le> 1" using that by auto
    have clean: "slot_clean s" if "s \<in> set (slots_of l)" "sl_resource s = ca_resource a" for s
      using f(4)[OF sev] that by (simp add: res_slots_def)
    have wh: "lc_resource c \<noteq> ca_resource a" if c: "c \<in> set (withheld_claims fs)" for c
    proof
      assume r: "lc_resource c = ca_resource a"
      have cf: "c \<in> fst ` set fs" using c claims_subset by blast
      obtain s where s: "s \<in> set (slots_of l)" "(sl_resource s, sl_exclusivity s) = claim_key c"
        "map ct_exclusivity (sl_uncounted s) =
           map lc_exclusivity (filter (\<lambda>d. claim_key d = claim_key c) (withheld_claims fs))"
        by (rule slot_of_claim[OF o cf], rule that) assumption+
      have "filter (\<lambda>d. claim_key d = claim_key c) (withheld_claims fs) \<noteq> []"
        using c by (auto simp: filter_empty_conv)
      then have "sl_uncounted s \<noteq> []" using s(3) by auto
      moreover have "slot_clean s" using clean s(1,2) r by simp
      ultimately show False by (simp add: slot_clean_def)
    qed
    have ag: "lc_amount c = lc_amount d \<and> lc_reserved c = lc_reserved d \<and> lc_domain c = lc_domain d"
      if c: "c \<in> unit_claims (usable_claims fs) (ca_resource a) x"
        and d: "d \<in> unit_claims (usable_claims fs) (ca_resource a) x" for c d x
    proof -
      have cf: "c \<in> fst ` set fs" using c claims_subset by (auto simp: unit_claims_def)
      obtain s where s: "s \<in> set (slots_of l)" "(sl_resource s, sl_exclusivity s) = claim_key c"
        "sl_usable s = filter (\<lambda>d. claim_key d = claim_key c) (usable_claims fs)"
        by (rule slot_of_claim[OF o cf], rule that) assumption+
      have "c \<in> set (sl_usable s)" "d \<in> set (sl_usable s)"
        using c d s(3) by (auto simp: unit_claims_def)
      moreover have "slot_clean s" using clean s(1,2) c by (simp add: unit_claims_def)
      ultimately show ?thesis unfolding slot_clean_def claims_agree_def by blast
    qed
    have "class_capacity (usable_claims fs) (ca_resource a) < 2 ^ 64"
      using f(4)[OF sev] u(2) by simp
    then show ?thesis using wh ag by (intro conjI ballI allI) blast+
  qed
  show ?thesis
    by (intro conjI 1 2 3) (intro impI, rule 4)
qed


text \<open>
  C7: capacity is counted once per physical unit. Whatever claims were filed, in whatever
  order and by whichever owners, an aggregate of the frozen ledger counts every physical unit
  of its resource class exactly once, its total is the sum over the units of the smallest amount
  claimed for each (when that sum fits the counter), its reservations never exceed its total and
  its headroom is the rest. An aggregate that is reported as usable never overflowed,
  withheld no claim, and its units are claimed with one amount, reservation and domain each.
\<close>

theorem capacity_counted_once:
  assumes "try_fold file_one fs (ledger_new p) = Inr l" "a \<in> set (lg_by_resource (ledger_freeze l))"
  shows "distinct (map ct_exclusivity (counted_of a)) \<and>
    set (map ct_exclusivity (counted_of a)) = units (usable_claims fs) (ca_resource a) \<and>
    (class_capacity (usable_claims fs) (ca_resource a) < 2 ^ 64 \<longrightarrow>
       unat (ca_total a) = class_capacity (usable_claims fs) (ca_resource a) \<and>
       ca_reserved a \<le> ca_total a \<and> ca_headroom a = ca_total a - ca_reserved a) \<and>
    (ca_status a = Cap_Ok \<or> ca_status a = Cap_Deduplicated \<longrightarrow>
       class_capacity (usable_claims fs) (ca_resource a) < 2 ^ 64 \<and>
       (\<forall>c \<in> set (withheld_claims fs). lc_resource c \<noteq> ca_resource a) \<and>
       (\<forall>x. \<forall>c \<in> unit_claims (usable_claims fs) (ca_resource a) x.
          \<forall>d \<in> unit_claims (usable_claims fs) (ca_resource a) x.
            lc_amount c = lc_amount d \<and> lc_reserved c = lc_reserved d \<and> lc_domain c = lc_domain d))"
  using counted_once[OF assms] .

definition sample_claim :: "ident \<Rightarrow> ident \<Rightarrow> u64 \<Rightarrow> ledger_claim" where
  "sample_claim owner unit amount =
     \<lparr>lc_resource = ''up'', lc_exclusivity = unit, lc_owner = owner, lc_via_link = [],
      lc_amount = amount, lc_reserved = 1, lc_domain = ''d'', lc_provenance = provenance_default\<rparr>"

text \<open>Two racks report the unit \<open>x\<close>, one of them smaller; a third unit is reported once.\<close>

definition sample_filings :: "filing list" where
  "sample_filings =
     [(sample_claim ''a'' ''x'' 10, None), (sample_claim ''b'' ''x'' 7, None),
      (sample_claim ''b'' ''y'' 5, None)]"

lemma sample_filed:
  obtains l a where "try_fold file_one sample_filings (ledger_new policy_default) = Inr l"
    "a \<in> set (lg_by_resource (ledger_freeze l))" "ca_resource a = ''up''"
proof -
  have "case try_fold file_one sample_filings (ledger_new policy_default) of
      Inl e \<Rightarrow> False | Inr l \<Rightarrow> map ca_resource (lg_by_resource (ledger_freeze l)) = [''up'']"
    by code_simp
  then obtain l where "try_fold file_one sample_filings (ledger_new policy_default) = Inr l"
    "map ca_resource (lg_by_resource (ledger_freeze l)) = [''up'']"
    by (auto split: sum.split_asm)
  then show thesis using that by auto
qed

lemma sample_capacity: "class_capacity (usable_claims sample_filings) ''up'' = 12"
proof -
  have u: "units (usable_claims sample_filings) ''up'' = {''x'', ''y''}" by code_simp
  have v: "unit_claims (usable_claims sample_filings) ''up'' ''x'' =
       {sample_claim ''a'' ''x'' 10, sample_claim ''b'' ''x'' 7}"
    "unit_claims (usable_claims sample_filings) ''up'' ''y'' = {sample_claim ''b'' ''y'' 5}"
    by (auto simp: unit_claims_def usable_claims_def sample_filings_def sample_claim_def)
  show ?thesis
    by (simp add: class_capacity_def unit_amount_def u v) (simp add: sample_claim_def)
qed

theorem capacity_counted_once_witness:
  "\<exists>l a. try_fold file_one sample_filings (ledger_new policy_default) = Inr l \<and>
     a \<in> set (lg_by_resource (ledger_freeze l)) \<and> unat (ca_total a) = 12"
proof -
  obtain l a where l: "try_fold file_one sample_filings (ledger_new policy_default) = Inr l"
    and a: "a \<in> set (lg_by_resource (ledger_freeze l))" "ca_resource a = ''up''"
    by (rule sample_filed)
  from capacity_counted_once[OF l a(1)] a l sample_capacity show ?thesis by auto
qed

section \<open>The breakdown by failure domain\<close>

lemma close_domain_total:
  assumes "sum_list (map (unat \<circ> ct_amount) (counted_of a)) < 2 ^ 64"
    "sum_list (map (unat \<circ> ct_reserved) (counted_of a)) < 2 ^ 64"
  shows "unat (ca_total (close_domain a)) = sum_list (map (unat \<circ> ct_amount) (counted_of a))"
proof -
  obtain t r where t: "sum_counted (ca_contributions a) 0 0 = (t, r, False)"
    "unat t = sum_list (map (unat \<circ> ct_amount) (counted_of a))"
    using sum_counted_exact[of 0 "ca_contributions a" 0] assms by auto
  then show "unat (ca_total (close_domain a)) = sum_list (map (unat \<circ> ct_amount) (counted_of a))"
    by (simp add: close_domain_def Let_def)
qed

lemma close_domain_resource: "ca_resource (close_domain a) = ca_resource a"
  by (simp add: close_domain_def Let_def split: prod.split)

lemma sum_list_filter_le: "sum_list (map f (filter P xs)) \<le> sum_list (map f xs)" for f :: "'a \<Rightarrow> nat"
  by (induction xs) auto

text \<open>
  C8: the per-domain breakdown is a partition of the pod figure. When the sum of the physical
  units of a resource class fits the counter, the totals of its failure-domain aggregates
  add up to exactly the total of the pod aggregate.
\<close>

theorem domain_totals_partition:
  assumes "try_fold file_one fs (ledger_new p) = Inr l" "a \<in> set (lg_by_resource (ledger_freeze l))"
    "class_capacity (usable_claims fs) (ca_resource a) < 2 ^ 64"
  shows "sum_list (map (\<lambda>d. unat (ca_total d))
      (filter (\<lambda>d. ca_resource d = ca_resource a) (lg_by_domain (ledger_freeze l)))) = unat (ca_total a)"
proof -
  note o = file_claims_ok(1,2)[OF assms(1)]
  let ?ss = "slots_of l" and ?res = "ca_resource a"
  let ?S = "counted_slots ?res ?ss" and ?z = "fold (freeze_slot (lg_policy l)) (slots_of l) freeze_start"
  have z: "freeze_ok ?ss ?z" by (rule freeze_loop_ok[OF ledger_slots_ok(1)[OF o(1)]])
  have ok: "smap_ok (fz_domains ?z)" using z by (simp add: freeze_ok_def)
  have cap: "offered ?S < 2 ^ 64" using counted_slots_units(2)[OF o] assms(3) by simp
  define E where "E = filter (\<lambda>e. fst (fst e) = ?res) (fz_domains ?z)"
  define ds where "ds = map (\<lambda>e. snd (fst e)) E"
  have cle: "committed ?S \<le> offered ?S" by (rule committed_le) (simp add: slots_simps)
  have entry: "ca_resource (close_domain (snd e)) = fst (fst e)"
    "fst (fst e) = ?res \<Longrightarrow> unat (ca_total (close_domain (snd e))) =
       sum_list (map (\<lambda>s. unat (slot_amount s)) (filter (\<lambda>s. slot_domain s = snd (fst e)) ?S))"
    if e: "e \<in> set (fz_domains ?z)" for e
  proof -
    have g: "smap_get (fz_domains ?z) (fst (fst e), snd (fst e)) = Some (snd e)"
      using e smap_get_in[OF ok, of "fst e" "snd e"] by simp
    note f = freeze_ok_domain[OF z g]
    show "ca_resource (close_domain (snd e)) = fst (fst e)"
      using f(1) by (simp add: close_domain_resource)
    assume r: "fst (fst e) = ?res"
    let ?D = "filter (\<lambda>s. slot_domain s = snd (fst e)) ?S"
    have D: "counted_of (snd e) = map winner ?D" using f(4) r by (simp add: domain_slots_def)
    have m: "map (unat \<circ> ct_amount) (map winner ?D) = map (\<lambda>s. unat (slot_amount s)) ?D"
      "map (unat \<circ> ct_reserved) (map winner ?D) = map (\<lambda>s. unat (slot_reserved s)) ?D"
      by (simp_all add: winner_simps)
    have "sum_list (map (\<lambda>s. unat (slot_amount s)) ?D) \<le> offered ?S"
      "sum_list (map (\<lambda>s. unat (slot_reserved s)) ?D) \<le> committed ?S"
      unfolding offered_def committed_def by (rule sum_list_filter_le)+
    then have "sum_list (map (unat \<circ> ct_amount) (counted_of (snd e))) < 2 ^ 64"
      "sum_list (map (unat \<circ> ct_reserved) (counted_of (snd e))) < 2 ^ 64"
      unfolding D m using cap cle by linarith+
    then show "unat (ca_total (close_domain (snd e))) = sum_list (map (\<lambda>s. unat (slot_amount s)) ?D)"
      using close_domain_total[of "snd e"] unfolding D m by simp
  qed
  have part: "sum_list (map (\<lambda>d. sum_list (map (\<lambda>s. unat (slot_amount s))
      (filter (\<lambda>s. slot_domain s = d) ?S))) ds) = offered ?S"
    unfolding offered_def
  proof (rule sum_partition)
    have "distinct (map fst E)"
      unfolding E_def using smap_ok_distinct[OF ok] by (rule distinct_map_filter)
    moreover have "map fst E = map (Pair ?res) ds"
      by (auto simp: E_def ds_def)
    ultimately show "distinct ds" by (metis distinct_map)
    show "slot_domain ` set ?S \<subseteq> set ds"
    proof
      fix d assume "d \<in> slot_domain ` set ?S"
      then have "domain_slots ?res d ?ss \<noteq> []" by (auto simp: domain_slots_def filter_empty_conv)
      then have "smap_get (fz_domains ?z) (?res, d) \<noteq> None" using z unfolding freeze_ok_def by blast
      then obtain b where "((?res, d), b) \<in> set (fz_domains ?z)" using smap_get_in[OF ok] by blast
      then show "d \<in> set ds" by (force simp: ds_def E_def)
    qed
  qed
  have "sum_list (map (\<lambda>d. unat (ca_total d)) (filter (\<lambda>d. ca_resource d = ?res) (lg_by_domain (ledger_freeze l)))) =
      sum_list (map (\<lambda>d. unat (ca_total d)) (filter (\<lambda>d. ca_resource d = ?res)
        (map (close_domain \<circ> snd) (fz_domains ?z))))"
    by (simp add: ledger_freeze_def Let_def flip: sum_mset_sum_list)
  also have "\<dots> = sum_list (map (\<lambda>e. unat (ca_total (close_domain (snd e)))) E)"
    unfolding E_def filter_map comp_def map_map using entry(1)
    by (intro arg_cong[where f = sum_list] map_cong filter_cong) auto
  also have "\<dots> = sum_list (map (\<lambda>d. sum_list (map (\<lambda>s. unat (slot_amount s))
      (filter (\<lambda>s. slot_domain s = d) ?S))) ds)"
    unfolding ds_def map_map comp_def using entry(2)
    by (intro arg_cong[where f = sum_list] map_cong) (auto simp: E_def)
  also have "\<dots> = unat (ca_total a)"
    using part frozen_resources(3)[OF o(1) assms(2) cap] by simp
  finally show ?thesis .
qed


theorem domain_totals_partition_witness:
  "\<exists>l a. try_fold file_one sample_filings (ledger_new policy_default) = Inr l \<and>
     a \<in> set (lg_by_resource (ledger_freeze l)) \<and>
     sum_list (map (\<lambda>d. unat (ca_total d))
      (filter (\<lambda>d. ca_resource d = ''up'') (lg_by_domain (ledger_freeze l)))) = unat (ca_total a)"
proof -
  obtain l a where l: "try_fold file_one sample_filings (ledger_new policy_default) = Inr l"
    and a: "a \<in> set (lg_by_resource (ledger_freeze l))" "ca_resource a = ''up''"
    by (rule sample_filed)
  have "class_capacity (usable_claims sample_filings) (ca_resource a) < 2 ^ 64"
    using sample_capacity a(2) by simp
  from domain_totals_partition[OF l a(1) this] l a show ?thesis by auto
qed

end
