(* ===== verification/Capacity.thy ===== *)
theory Capacity
  imports Guarantees Counting
begin

text \<open>
  The capacity figures of a published document: the claims that the stage \<open>evaluate_capacity\<close> of
  \<open>engine/composer.cpp\<close> files in the ledger, and the published totals as a function of the
  evidence alone.
\<close>

section \<open>The filings of a composition\<close>











lemma admissible_not_single:
  "admissible p t rs e \<Longrightarrow> \<exists>x. rs = [x]"
  by (auto simp: admissible_def split: list.splits)




section \<open>The published figures\<close>




end
