(* ===== verification/Files.thy ===== *)
theory Files
  imports Bytes
begin

text \<open>
  The file operations of a store directory: \<open>platform/file.hpp\<close>, \<open>platform/file.cpp\<close>. The operating
  system is a plan of outcomes, one per call: a call succeeds, or it fails after \<open>n\<close> bytes; a
  plan that has run out succeeds. A journal keeps every byte handed to its stream and the length of
  the prefix that \<open>fsync\<close> has put on stable storage, so a crash leaves a prefix at least
  that long (\<open>crash_images\<close>). \<open>fread\<close> returns what it was asked for unless the file ends,
  so a read loop runs once; \<open>stat\<close> does not fail; text that holds an \<open>errno\<close> is cut before it.
\<close>

section \<open>State passing\<close>

definition op_read :: "('s \<Rightarrow> 'a) \<Rightarrow> ('a, 's) op" where
  "op_read f s = (Inr (f s), s)"

definition op_update :: "('s \<Rightarrow> 's) \<Rightarrow> (unit, 's) op" where
  "op_update f s = (success, f s)"

definition op_lift :: "'a result \<Rightarrow> ('a, 's) op" where
  "op_lift m s = (m, s)"

definition op_when :: "bool \<Rightarrow> (unit, 's) op \<Rightarrow> (unit, 's) op" where
  "op_when c m = (if c then m else op_return ())"

section \<open>The directory\<close>

datatype io_outcome = Io_Done | Io_Fault nat

record files =
  fs_journal :: "byte list option"
  fs_synced :: nat
  fs_checkpoint :: "byte list option"
  fs_temp :: "byte list option"
  fs_handle :: bool
  fs_faults :: "io_outcome list"

definition journal_content :: "files \<Rightarrow> byte list" where
  "journal_content fs = (case fs_journal fs of None \<Rightarrow> [] | Some bs \<Rightarrow> bs)"

definition os_call :: "code \<Rightarrow> string \<Rightarrow> (files \<Rightarrow> files) \<Rightarrow> (nat \<Rightarrow> files \<Rightarrow> files) \<Rightarrow> (unit, files) op" where
  "os_call k m finished partial fs =
     (case fs_faults fs of
        [] \<Rightarrow> (success, finished fs)
      | Io_Done # rest \<Rightarrow> (success, finished (fs\<lparr>fs_faults := rest\<rparr>))
      | Io_Fault n # rest \<Rightarrow> (fail k m, partial n (fs\<lparr>fs_faults := rest\<rparr>)))"

text \<open>A call without an effect on what is modelled of the directory.\<close>

definition os_query :: "code \<Rightarrow> string \<Rightarrow> (unit, files) op" where
  "os_query k m = os_call k m (\<lambda>fs. fs) (\<lambda>n fs. fs)"

section \<open>The journal stream\<close>

definition need_handle :: "(unit, files) op" where
  "need_handle fs = op_guard (\<not> fs_handle fs) Code_Invalid ''file handle is not open'' fs"

definition file_open_append :: "(unit, files) op" where
  "file_open_append =
     os_call Code_Unavailable ''cannot open file for appending''
       (\<lambda>fs. fs\<lparr>fs_journal := Some (journal_content fs), fs_handle := True\<rparr>) (\<lambda>n fs. fs)"

definition file_close :: "(unit, files) op" where
  "file_close fs =
     (if \<not> fs_handle fs then op_return () fs
      else os_query Code_Unavailable ''failed to close file'' (fs\<lparr>fs_handle := False\<rparr>))"

definition file_size :: "(nat, files) op" where
  "file_size =
     op_then need_handle
     (op_then (os_query Code_Unavailable ''failed to query file size'')
     (op_read (\<lambda>fs. length (journal_content fs))))"

definition file_seek :: "nat \<Rightarrow> (unit, files) op" where
  "file_seek offset =
     op_then need_handle
     (op_then (op_guard (offset > 0x7FFFFFFFFFFFFFFF) Code_Invalid ''seek offset is out of range'')
     (os_query Code_Unavailable ''failed to seek''))"

text \<open>\<open>read\<close> after \<open>seek(0)\<close>: the bytes from the start.\<close>

definition file_read :: "nat \<Rightarrow> (byte list, files) op" where
  "file_read n =
     op_then need_handle
     (if n = 0 then op_return []
      else op_then (os_query Code_Unavailable ''read failure'')
             (op_read (\<lambda>fs. take n (journal_content fs))))"

definition append_journal :: "byte list \<Rightarrow> files \<Rightarrow> files" where
  "append_journal data fs = fs\<lparr>fs_journal := Some (journal_content fs @ data)\<rparr>"

definition file_write :: "byte list \<Rightarrow> (unit, files) op" where
  "file_write data =
     op_then need_handle
     (if data = [] then op_return ()
      else os_call Code_Unavailable ''short write to file'' (append_journal data)
             (\<lambda>n. append_journal (take (min n (length data - 1)) data)))"

definition file_flush :: "(unit, files) op" where
  "file_flush = op_then need_handle (os_query Code_Unavailable ''flush failed'')"

definition file_sync :: "(unit, files) op" where
  "file_sync =
     op_then file_flush
     (os_call Code_Unavailable ''operating-system error''
       (\<lambda>fs. fs\<lparr>fs_synced := length (journal_content fs)\<rparr>) (\<lambda>n fs. fs))"

definition cut_journal :: "nat \<Rightarrow> files \<Rightarrow> files" where
  "cut_journal n fs =
     (let bs = journal_content fs
      in fs\<lparr>fs_journal := Some (take n bs @ replicate (n - length bs) 0),
            fs_synced := min (fs_synced fs) n\<rparr>)"

definition file_truncate :: "nat \<Rightarrow> (unit, files) op" where
  "file_truncate n =
     op_then need_handle
     (op_then file_flush
     (op_then (op_guard (n > 0x7FFFFFFFFFFFFFFF) Code_Invalid ''truncate size is out of range'')
     (os_call Code_Unavailable ''operating-system error'' (cut_journal n) (\<lambda>n fs. fs))))"

section \<open>Paths\<close>

definition path_size :: "(files \<Rightarrow> byte list) \<Rightarrow> (nat, files) op" where
  "path_size content =
     op_then (os_query Code_Unavailable ''cannot determine file size'')
     (op_read (\<lambda>fs. length (content fs)))"

definition ensure_directory :: "(unit, files) op" where
  "ensure_directory = os_query Code_Unavailable ''cannot create directory''"

definition remove_journal :: "(unit, files) op" where
  "remove_journal =
     os_call Code_Unavailable ''cannot remove file''
       (\<lambda>fs. fs\<lparr>fs_journal := None, fs_synced := 0\<rparr>) (\<lambda>n fs. fs)"

definition remove_checkpoint :: "(unit, files) op" where
  "remove_checkpoint =
     os_call Code_Unavailable ''cannot remove file'' (\<lambda>fs. fs\<lparr>fs_checkpoint := None\<rparr>) (\<lambda>n fs. fs)"

definition checkpoint_content :: "files \<Rightarrow> byte list" where
  "checkpoint_content fs = (case fs_checkpoint fs of None \<Rightarrow> [] | Some bs \<Rightarrow> bs)"

definition read_checkpoint_file :: "nat \<Rightarrow> (byte list, files) op" where
  "read_checkpoint_file max_bytes fs =
     op_then (op_guard (fs_checkpoint fs = None) Code_NotFound ''file does not exist'')
     (op_bind (path_size checkpoint_content) (\<lambda>size.
      op_then (op_guard (size > max_bytes) Code_Exhausted ''file exceeds the configured maximum size'')
     (op_then (os_query Code_Unavailable ''cannot open file for reading'')
     (op_then (op_when (size \<noteq> 0) (os_query Code_Unavailable ''read failure''))
     (op_then (os_query Code_Unavailable ''failed to close file'')
     (op_read checkpoint_content)))))) fs"

text \<open>\<open>write_file\<close> of the temporary checkpoint, and \<open>atomic_replace\<close> of the checkpoint by it.\<close>

definition write_temp :: "byte list \<Rightarrow> (unit, files) op" where
  "write_temp data =
     op_then (os_call Code_Unavailable ''cannot open file for writing''
               (\<lambda>fs. fs\<lparr>fs_temp := Some []\<rparr>) (\<lambda>n fs. fs))
     (op_then (op_when (data \<noteq> []) (os_call Code_Unavailable ''short write to file''
               (\<lambda>fs. fs\<lparr>fs_temp := Some data\<rparr>)
               (\<lambda>n fs. fs\<lparr>fs_temp := Some (take (min n (length data - 1)) data)\<rparr>)))
     (op_then (os_query Code_Unavailable ''flush failed'')
     (op_then (os_query Code_Unavailable ''operating-system error'')
     (os_query Code_Unavailable ''failed to close file''))))"

definition replace_checkpoint :: "(unit, files) op" where
  "replace_checkpoint =
     os_call Code_Unavailable ''atomic replace failed''
       (\<lambda>fs. fs\<lparr>fs_checkpoint := fs_temp fs, fs_temp := None\<rparr>) (\<lambda>n fs. fs)"

definition sync_directory :: "(unit, files) op" where
  "sync_directory =
     op_then (os_query Code_Unavailable ''cannot open directory for sync'')
     (os_query Code_Unavailable ''operating-system error'')"

definition acquire_file_lock :: "(unit, files) op" where
  "acquire_file_lock =
     op_then (os_query Code_Unavailable ''cannot open file for appending'')
     (os_query Code_Refused ''the pod store is already locked by another process'')"

section \<open>Crashes\<close>

text \<open>What a restarted process may find: the bytes of the journal that were put on stable storage,
  and any further prefix of those written after it. What is found is on stable storage. Renaming
  and truncating take effect at once.\<close>

definition crash_image :: "nat \<Rightarrow> files \<Rightarrow> files" where
  "crash_image n fs =
     (let found = map_option (take (max n (fs_synced fs))) (fs_journal fs)
      in fs\<lparr>fs_journal := found, fs_synced := (case found of None \<Rightarrow> 0 | Some bs \<Rightarrow> length bs),
            fs_handle := False, fs_faults := []\<rparr>)"

end
