(* ===== verification/Wire.thy ===== *)
theory Wire
  imports Bytes
begin

text \<open>
  The contract between \<open>ByteWriter\<close> and \<open>ByteReader\<close> of \<open>core/bytes.cpp\<close>. What a put appends
  (\<open>emits\<close>), what a get returns and consumes (\<open>reads\<close>), the laws of sequencing them, of counted
  sequences, identities and enumerations, and the locale \<open>codec\<close>: a pair of operations that
  round-trips on representable values and accepts nothing but the bytes it would write.
  It is interpreted here on every field type, and on the documents in \<open>Documents\<close>.
\<close>

section \<open>The contract of the writer and the reader\<close>

definition writer_ok :: "byte_writer \<Rightarrow> bool" where
  "writer_ok w \<longleftrightarrow> length (bw_buffer w) \<le> bw_limit w"

definition overflow_message :: string where
  "overflow_message = ''encoded document exceeds the configured byte limit''"

text \<open>\<open>emits p bs\<close>: the operation appends \<open>bs\<close> when they fit and reports exhaustion
  otherwise. \<open>reads g bs x\<close>: on a document that holds \<open>bs\<close> under the cursor the operation
  returns \<open>x\<close> and consumes exactly \<open>bs\<close>.\<close>

definition emits :: "(unit, byte_writer) op \<Rightarrow> byte list \<Rightarrow> bool" where
  "emits p bs \<longleftrightarrow> (\<forall>w. writer_ok w \<longrightarrow>
     (if length (bw_buffer w) + length bs \<le> bw_limit w
      then p w = (success, w\<lparr>bw_buffer := bw_buffer w @ bs\<rparr>)
      else \<exists>w'. p w = (fail Code_Exhausted overflow_message, w')))"

definition reader_ok :: "byte_reader \<Rightarrow> bool" where
  "reader_ok r \<longleftrightarrow> br_limits r = default_limits \<and> br_cursor r \<le> length (br_data r) \<and>
     length (br_data r) < 2 ^ 64"

definition ahead :: "byte_reader \<Rightarrow> byte list" where
  "ahead r = drop (br_cursor r) (br_data r)"

definition skip :: "byte list \<Rightarrow> byte_reader \<Rightarrow> byte_reader" where
  "skip bs r = r\<lparr>br_cursor := br_cursor r + length bs\<rparr>"

definition reads :: "('a, byte_reader) op \<Rightarrow> byte list \<Rightarrow> 'a \<Rightarrow> bool" where
  "reads g bs x \<longleftrightarrow> (\<forall>r rest. reader_ok r \<and> ahead r = bs @ rest \<longrightarrow> g r = (Inr x, skip bs r))"

definition codes :: "(unit, byte_writer) op \<Rightarrow> ('a, byte_reader) op \<Rightarrow> 'a \<Rightarrow> nat \<Rightarrow> bool" where
  "codes p g x n \<longleftrightarrow> (\<exists>bs. n \<le> length bs \<and> emits p bs \<and> reads g bs x)"

lemma skip_ok: "reader_ok r \<Longrightarrow> ahead r = bs @ rest \<Longrightarrow> reader_ok (skip bs r) \<and> ahead (skip bs r) = rest"
proof -
  assume r: "reader_ok r" "ahead r = bs @ rest"
  have "length bs + length rest = length (br_data r) - br_cursor r"
    using arg_cong[OF r(2), of length] by (simp add: ahead_def)
  moreover have "drop (length bs) (ahead r) = rest" using r(2) by simp
  ultimately show ?thesis using r(1) by (auto simp: reader_ok_def skip_def ahead_def add.commute)
qed

lemma skip_skip [simp]: "skip bs (skip as r) = skip (as @ bs) r"
  by (simp add: skip_def)

lemma skip_Nil [simp]: "skip [] r = r"
  by (simp add: skip_def)

section \<open>Composition\<close>

lemma emits_return: "emits (op_return ()) []"
  by (simp add: emits_def op_return_def writer_ok_def)

lemma emits_then:
  assumes "emits p as" "emits q bs"
  shows "emits (op_then p q) (as @ bs)"
  unfolding emits_def
proof (intro allI impI)
  fix w assume ok: "writer_ok w"
  have p: "if length (bw_buffer w) + length as \<le> bw_limit w
      then p w = (success, w\<lparr>bw_buffer := bw_buffer w @ as\<rparr>)
      else \<exists>w'. p w = (fail Code_Exhausted overflow_message, w')"
    using assms(1) ok unfolding emits_def by blast
  show "if length (bw_buffer w) + length (as @ bs) \<le> bw_limit w
      then op_then p q w = (success, w\<lparr>bw_buffer := bw_buffer w @ as @ bs\<rparr>)
      else \<exists>w'. op_then p q w = (fail Code_Exhausted overflow_message, w')"
  proof (cases "length (bw_buffer w) + length as \<le> bw_limit w")
    case True
    let ?w = "w\<lparr>bw_buffer := bw_buffer w @ as\<rparr>"
    have "writer_ok ?w" using True by (simp add: writer_ok_def)
    then have "if length (bw_buffer ?w) + length bs \<le> bw_limit ?w
      then q ?w = (success, ?w\<lparr>bw_buffer := bw_buffer ?w @ bs\<rparr>)
      else \<exists>w'. q ?w = (fail Code_Exhausted overflow_message, w')"
      using assms(2) unfolding emits_def by blast
    with True p show ?thesis
      by (simp add: op_bind_def add.assoc split: if_splits)
  next
    case False
    with p show ?thesis by (auto simp: op_bind_def)
  qed
qed

lemma reads_bind:
  assumes "reads g as x" "reads (h x) bs y"
  shows "reads (op_bind g h) (as @ bs) y"
  unfolding reads_def
proof (intro allI impI)
  fix r rest assume r: "reader_ok r \<and> ahead r = (as @ bs) @ rest"
  then have "g r = (Inr x, skip as r)" using assms(1) by (auto simp: reads_def)
  moreover have "reader_ok (skip as r) \<and> ahead (skip as r) = bs @ rest"
    using r skip_ok[of r as "bs @ rest"] by simp
  ultimately show "op_bind g h r = (Inr y, skip (as @ bs) r)"
    using assms(2) by (simp add: op_bind_def reads_def)
qed

lemma reads_return: "reads (op_return x) [] x"
  by (simp add: reads_def op_return_def)

lemma codes_then:
  "codes p g x n \<Longrightarrow> codes q (h x) y m \<Longrightarrow> codes (op_then p q) (op_bind g h) y (n + m)"
  unfolding codes_def by (metis add_mono emits_then length_append reads_bind)

lemma codes_last: "codes p g x n \<Longrightarrow> codes p (op_bind g (\<lambda>x. op_return (f x))) (f x) n"
  unfolding codes_def using reads_bind[OF _ reads_return, of g _ x] by (metis append_Nil2)

lemma codes_weaken: "codes p g x n \<Longrightarrow> m \<le> n \<Longrightarrow> codes p g x m"
  unfolding codes_def by (meson le_trans)

section \<open>Fields\<close>

lemma emits_bytes: "emits (put_bytes bs) bs"
  by (auto simp: emits_def put_bytes_def op_bind_def writer_reserve_def writer_store_def Let_def
      writer_ok_def overflow_message_def)

lemma reads_take: "length bs = n \<Longrightarrow> reads (reader_take n k m) bs bs"
  by (auto simp: reads_def reader_take_def reader_remaining_def ahead_def skip_def reader_ok_def
      dest: arg_cong[of _ _ length])

lemma reads_take_value:
  "length bs = n \<Longrightarrow> f bs = x \<Longrightarrow> reads (op_bind (reader_take n k m) (\<lambda>bs. op_return (f bs))) bs x"
  using reads_bind[where g = "reader_take n k m" and x = bs and h = "\<lambda>bs. op_return (f bs)",
      OF reads_take reads_return] by simp

text \<open>The big-endian bytes of a word, least significant last.\<close>

primrec be_bytes :: "nat \<Rightarrow> 'a::len word \<Rightarrow> byte list" where
  "be_bytes 0 v = []"
| "be_bytes (Suc k) v = be_bytes k (drop_bit 8 v) @ [ucast v]"

lemma length_be_bytes [simp]: "length (be_bytes k v) = k"
  by (induction k arbitrary: v) simp_all

lemma from_be_bytes: "from_be (be_bytes k v) = take_bit (8 * k) v"
proof (induction k arbitrary: v)
  case (Suc k)
  have "from_be (be_bytes (Suc k) v) = or (push_bit 8 (from_be (be_bytes k (drop_bit 8 v)))) (ucast (ucast v :: byte))"
    by (simp add: from_be_def)
  also have "\<dots> = take_bit (8 * Suc k) v"
    unfolding Suc by (intro bit_word_eqI) (auto simp: bit_simps)
  finally show ?case .
qed (simp add: from_be_def)

lemma ucast_and_byte: "(ucast (and v 0xFF) :: byte) = ucast v" for v :: "'a::len word"
proof -
  have "bit (0xFF :: 'a word) n \<longleftrightarrow> n < LENGTH('a)" if "n < 8" for n
  proof -
    have "(0xFF :: 'a word) = mask 8" by (simp add: mask_eq_exp_minus_1)
    then have "bit (0xFF :: 'a word) n \<longleftrightarrow> bit (mask 8 :: 'a word) n" by simp
    with that show ?thesis by (simp only: bit_mask_iff) auto
  qed
  then show ?thesis by (intro bit_word_eqI) (auto simp: bit_simps dest: bit_imp_le_length)
qed

lemma be_bytes_eq: "be16 v = be_bytes 2 v" "be32 x = be_bytes 4 x" "be64 y = be_bytes 8 y"
  by (simp_all add: be16_def be32_def be64_def ucast_and_byte upt_rec numeral_eq_Suc)

lemma from_be_inverse:
  "from_be (be16 v) = v" "from_be (be32 x) = x" "from_be (be64 y) = y"
  by (simp_all add: be_bytes_eq from_be_bytes take_bit_word_eq_self)

lemma codes_u8: "codes (put_u8 v) get_u8 v 1"
  unfolding codes_def put_u8_def get_u8_def
  by (intro exI[of _ "[v]"] conjI emits_bytes reads_take_value) simp_all

lemma codes_u16: "codes (put_u16 v) get_u16 v 2"
  unfolding codes_def put_u16_def get_u16_def
  by (intro exI[of _ "be16 v"] conjI emits_bytes reads_take_value) (simp_all add: from_be_inverse be_bytes_eq(1)[THEN arg_cong, of length])

lemma codes_u32: "codes (put_u32 v) get_u32 v 4"
  unfolding codes_def put_u32_def get_u32_def
  by (intro exI[of _ "be32 v"] conjI emits_bytes reads_take_value) (simp_all add: from_be_inverse be_bytes_eq(2)[THEN arg_cong, of length])

lemma codes_u64: "codes (put_u64 v) get_u64 v 8"
  unfolding codes_def put_u64_def get_u64_def
  by (intro exI[of _ "be64 v"] conjI emits_bytes reads_take_value) (simp_all add: from_be_inverse be_bytes_eq(3)[THEN arg_cong, of length])

lemma codes_raw: "length bs = n \<Longrightarrow> codes (put_raw bs) (get_raw n) bs n"
  unfolding codes_def put_raw_def get_raw_def
  by (intro exI[of _ bs] conjI emits_bytes reads_take) simp_all

definition time_ok :: "int \<Rightarrow> bool" where
  "time_ok t \<longleftrightarrow> - (2 ^ 63) \<le> t \<and> t < 2 ^ 63"

lemma codes_i64: "time_ok t \<Longrightarrow> codes (put_i64 t) get_i64 t 8"
proof -
  assume "time_ok t"
  then have "sint (word_of_int t :: u64) = t"
    by (simp add: time_ok_def signed_take_bit_int_eq_self sint_sbintrunc')
  then show ?thesis unfolding put_i64_def get_i64_def
    using codes_last[OF codes_u64[of "word_of_int t"], of sint] by simp
qed

lemma op_guard_False [simp]: "op_guard False k m = op_return ()"
  by (simp add: op_guard_def)

lemma op_return_bind [simp]: "op_bind (op_return x) f = f x"
  by (rule ext) (simp add: op_bind_def op_return_def)

lemma codes_filter:
  assumes "codes p g x n" "\<not> c x"
  shows "codes p (op_bind g (\<lambda>x. op_then (op_guard (c x) k m) (op_return (f x)))) (f x) n"
proof -
  obtain bs where bs: "n \<le> length bs" "emits p bs" "reads g bs x" using assms(1) by (auto simp: codes_def)
  have "reads (op_bind g (\<lambda>x. op_then (op_guard (c x) k m) (op_return (f x)))) (bs @ []) (f x)"
    by (rule reads_bind[where h = "\<lambda>x. op_then (op_guard (c x) k m) (op_return (f x))", OF bs(3)])
      (simp add: assms(2) reads_return)
  then show ?thesis using bs by (auto simp: codes_def)
qed

lemma codes_bool: "codes (put_bool b) get_bool b 1"
proof -
  have "codes (put_bool b) get_bool ((if b then 1 else 0 :: u8) = 1) 1"
    unfolding put_bool_def get_bool_def by (rule codes_filter[OF codes_u8]) simp
  then show ?thesis by (cases b) simp_all
qed

section \<open>Strings\<close>

definition text_ok :: "string \<Rightarrow> bool" where
  "text_ok s \<longleftrightarrow> is_valid_utf8 s \<and> length s \<le> cl_max_string_bytes default_limits"

lemma unat_byte_of_char: "unat (of_char c :: byte) = of_char c"
proof -
  have "(of_char c :: byte) = of_nat (of_char c)" by (simp add: of_nat_of_char)
  then show ?thesis by (simp add: unat_of_nat)
qed

lemma string_of_bytes_of_string [simp]: "string_of_bytes (bytes_of_string s) = s"
  by (simp add: string_of_bytes_def bytes_of_string_def comp_def unat_byte_of_char)

lemma utf8_ascii: "list_all (\<lambda>b. b < 0x80) bs \<Longrightarrow> utf8_valid bs"
  by (induction bs) auto

lemma canonical_text_ok:
  assumes "is_canonical_id s"
  shows "text_ok s"
proof -
  have c: "list_all (\<lambda>c. is_lower_alnum c \<or> is_separator c) s" "length s \<le> 64"
    using assms by (auto simp: is_canonical_id_def max_id_length_def split: if_splits)
  have "(of_char c :: byte) < 0x80" if "is_lower_alnum c \<or> is_separator c" for c
  proof -
    have "of_char c < (128 :: nat)"
      using that by (auto simp: is_lower_alnum_def is_separator_def less_eq_char_def)
    then show ?thesis by (simp add: word_less_nat_alt unat_byte_of_char)
  qed
  then have "list_all (\<lambda>b. b < 0x80) (bytes_of_string s)"
    using c(1) by (auto simp: bytes_of_string_def list_all_iff)
  then show ?thesis
    using c(2) utf8_ascii by (simp add: text_ok_def is_valid_utf8_def default_limits_def)
qed

lemma unat_length: "length s < 2 ^ 32 \<Longrightarrow> unat (of_nat (length s) :: u32) = length s"
  by (simp add: unat_of_nat take_bit_nat_eq_self)

text \<open>A length-prefixed field: the bound is tested after the prefix is read.\<close>

lemma reads_sized:
  assumes "length bs < 2 ^ 32" "length bs \<le> b default_limits" "reads (h bs) [] x"
  shows "reads (op_bind get_u32 (\<lambda>len r. op_then (op_guard (unat len > b (br_limits r)) k m)
      (op_bind (get_raw (unat len)) h) r)) (be32 (of_nat (length bs)) @ bs) x"
  unfolding reads_def
proof (intro allI impI)
  fix r rest
  let ?n = "of_nat (length bs) :: u32"
  assume r: "reader_ok r \<and> ahead r = (be32 ?n @ bs) @ rest"
  have "reads get_u32 (be32 ?n) ?n"
    unfolding get_u32_def by (rule reads_take_value) (simp_all add: from_be_inverse be_bytes_eq(2)[THEN arg_cong, of length])
  then have "get_u32 r = (Inr ?n, skip (be32 ?n) r)" using r by (auto simp: reads_def)
  moreover have ok: "reader_ok (skip (be32 ?n) r) \<and> ahead (skip (be32 ?n) r) = bs @ rest"
    using r skip_ok[of r "be32 ?n" "bs @ rest"] by simp
  moreover have "reads (op_bind (get_raw (length bs)) h) (bs @ []) x"
    unfolding get_raw_def by (rule reads_bind[where h = h, OF reads_take assms(3)]) simp
  then have "op_bind (get_raw (length bs)) h (skip (be32 ?n) r) = (Inr x, skip bs (skip (be32 ?n) r))"
    using ok by (auto simp: reads_def)
  moreover have "br_limits (skip (be32 ?n) r) = default_limits" using ok by (simp add: reader_ok_def)
  ultimately show "op_bind get_u32 (\<lambda>len r. op_then (op_guard (unat len > b (br_limits r)) k m)
      (op_bind (get_raw (unat len)) h) r) r = (Inr x, skip (be32 ?n @ bs) r)"
    using assms(1,2) by (simp add: op_bind_def[of get_u32] unat_length)
qed

lemma emits_sized: "emits (op_then (put_u32 n) (put_raw bs)) (be32 n @ bs)"
  unfolding put_u32_def put_raw_def by (rule emits_then[OF emits_bytes emits_bytes])

lemma length_sized: "4 \<le> length (be32 n @ bs)"
  by (simp add: be_bytes_eq)

lemma length_bytes_of_string [simp]: "length (bytes_of_string s) = length s"
  by (simp add: bytes_of_string_def)

lemma codes_string:
  assumes "text_ok s"
  shows "codes (put_string s) get_string s 4"
  unfolding codes_def
proof (intro exI[of _ "be32 (of_nat (length s)) @ bytes_of_string s"] conjI)
  have l: "length s < 2 ^ 32" "length s \<le> cl_max_string_bytes default_limits" "is_valid_utf8 s"
    using assms by (auto simp: text_ok_def default_limits_def)
  show "emits (put_string s) (be32 (of_nat (length s)) @ bytes_of_string s)"
    using l emits_sized by (simp add: put_string_def)
  show "reads get_string (be32 (of_nat (length s)) @ bytes_of_string s) s"
    using reads_sized[where bs = "bytes_of_string s" and b = cl_max_string_bytes and x = s] l
    unfolding get_string_def by (simp add: Let_def reads_return)
qed (rule length_sized)

definition long_text_ok :: "string \<Rightarrow> bool" where
  "long_text_ok s \<longleftrightarrow> is_valid_utf8 s \<and> length s \<le> cl_max_blob_bytes default_limits"

lemma codes_text:
  assumes "long_text_ok s"
  shows "codes (put_text s) get_text s 4"
  unfolding codes_def
proof (intro exI[of _ "be32 (of_nat (length s)) @ bytes_of_string s"] conjI)
  have l: "length s < 2 ^ 32" "length s \<le> cl_max_blob_bytes default_limits" "is_valid_utf8 s"
    using assms by (auto simp: long_text_ok_def default_limits_def)
  show "emits (put_text s) (be32 (of_nat (length s)) @ bytes_of_string s)"
    using l emits_sized by (simp add: put_text_def)
  show "reads get_text (be32 (of_nat (length s)) @ bytes_of_string s) s"
    using reads_sized[where bs = "bytes_of_string s" and b = cl_max_blob_bytes and x = s] l
    unfolding get_text_def by (simp add: Let_def reads_return)
qed (rule length_sized)

definition blob_ok :: "byte list \<Rightarrow> bool" where
  "blob_ok b \<longleftrightarrow> length b \<le> cl_max_blob_bytes default_limits"

lemma op_bind_return [simp]: "op_bind g op_return = g"
  by (rule ext) (simp add: op_bind_def op_return_def split: prod.split sum.split)

lemma codes_blob:
  assumes "blob_ok b"
  shows "codes (put_blob b) get_blob b 4"
  unfolding codes_def
proof (intro exI[of _ "be32 (of_nat (length b)) @ b"] conjI)
  have l: "length b < 2 ^ 32" "length b \<le> cl_max_blob_bytes default_limits"
    using assms by (auto simp: blob_ok_def default_limits_def)
  show "emits (put_blob b) (be32 (of_nat (length b)) @ b)"
    using l emits_sized by (simp add: put_blob_def)
  show "reads get_blob (be32 (of_nat (length b)) @ b) b"
    using reads_sized[where bs = b and b = cl_max_blob_bytes and x = b and h = op_return] l
    unfolding get_blob_def by (simp add: reads_return)
qed (rule length_sized)

section \<open>Sequences\<close>

text \<open>\<open>put_count\<close>, then one item per element; \<open>count\<close>, then a loop that appends the items.\<close>

fun put_items :: "('a \<Rightarrow> (unit, byte_writer) op) \<Rightarrow> 'a list \<Rightarrow> (unit, byte_writer) op" where
  "put_items f [] = op_return ()"
| "put_items f (x # xs) = op_then (f x) (put_items f xs)"

definition put_list :: "('a \<Rightarrow> (unit, byte_writer) op) \<Rightarrow> 'a list \<Rightarrow> (unit, byte_writer) op" where
  "put_list f xs = op_then (put_count (of_nat (length xs))) (put_items f xs)"

fun get_items :: "nat \<Rightarrow> ('a, byte_reader) op \<Rightarrow> ('a list, byte_reader) op" where
  "get_items 0 g = op_return []"
| "get_items (Suc n) g = op_bind g (\<lambda>x. op_bind (get_items n g) (\<lambda>xs. op_return (x # xs)))"

definition get_list :: "u32 \<Rightarrow> nat \<Rightarrow> ('a, byte_reader) op \<Rightarrow> ('a list, byte_reader) op" where
  "get_list max_items min_item_bytes g =
     op_bind (get_count max_items min_item_bytes) (\<lambda>n. get_items (unat n) g)"

lemma codes_items:
  assumes "\<And>x. x \<in> set xs \<Longrightarrow> codes (f x) g x n"
  shows "codes (put_items f xs) (get_items (length xs) g) xs (n * length xs)"
  using assms
proof (induction xs)
  case Nil
  show ?case unfolding codes_def using emits_return reads_return by (intro exI[of _ "[]"]) auto
next
  case (Cons x xs)
  have "codes (put_items f xs) (get_items (length xs) g) xs (n * length xs)" using Cons by simp
  from codes_last[OF this, of "\<lambda>xs. x # xs"]
  have "codes (put_items f (x # xs)) (get_items (Suc (length xs)) g) (x # xs) (n + n * length xs)"
    unfolding put_items.simps get_items.simps using Cons.prems by (intro codes_then[where x = x]) auto
  then show ?case by simp
qed

lemma reads_count:
  assumes "length items \<ge> k * n" "n \<le> 2 ^ 20" "0 < k" "k \<le> 64"
    "reads (get_items n g) items xs"
  shows "reads (get_list (2 ^ 20) k g) (be32 (of_nat n) @ items) xs"
  unfolding reads_def
proof (intro allI impI)
  fix r rest
  let ?n = "of_nat n :: u32" and ?pre = "be32 (of_nat n)"
  assume r: "reader_ok r \<and> ahead r = (?pre @ items) @ rest"
  have "reads get_u32 ?pre ?n"
    unfolding get_u32_def by (rule reads_take_value) (simp_all add: from_be_inverse be_bytes_eq(2)[THEN arg_cong, of length])
  then have u: "get_u32 r = (Inr ?n, skip ?pre r)" using r by (auto simp: reads_def)
  have ok: "reader_ok (skip ?pre r) \<and> ahead (skip ?pre r) = items @ rest"
    using r skip_ok[of r ?pre "items @ rest"] by simp
  have un: "unat ?n = n" using assms(2) by (simp add: unat_of_nat take_bit_nat_eq_self)
  let ?room = "reader_remaining (skip ?pre r)"
  have "length (ahead (skip ?pre r)) = length items + length rest" using ok by simp
  then have room: "?room = length items + length rest" "?room < 2 ^ 64"
    using ok by (auto simp: reader_remaining_def ahead_def reader_ok_def)
  have "\<not> ?n > 2 ^ 20" using assms(2) un by (simp add: word_less_nat_alt)
  moreover have "\<not> n > cl_max_sequence_items (br_limits (skip ?pre r))"
    using ok assms(2) by (simp add: reader_ok_def default_limits_def)
  moreover have "\<not> (ucast ?n * of_nat (if k = 0 then 1 else k) > (of_nat ?room :: u64))"
  proof -
    have nk: "n * k \<le> 2 ^ 20 * 64" using assms(2,4) by (intro mult_le_mono) auto
    have "(ucast ?n :: u64) = of_nat (unat ?n)" by (simp only: of_nat_unat)
    then have "unat (ucast ?n * of_nat k :: u64) = n * k"
      using nk unfolding un by (simp add: unat_of_nat take_bit_nat_eq_self flip: of_nat_mult)
    moreover have "unat (of_nat ?room :: u64) = ?room"
      using room(2) by (simp add: unat_of_nat take_bit_nat_eq_self)
    ultimately show ?thesis
      using assms(1,3) room(1) by (simp add: word_less_nat_alt mult.commute)
  qed
  ultimately have "get_count (2 ^ 20) k r = (Inr ?n, skip ?pre r)"
    by (simp add: get_count_def op_bind_def[of get_u32] u un op_return_def)
  moreover have "get_items n g (skip ?pre r) = (Inr xs, skip items (skip ?pre r))"
    using assms(5) ok by (auto simp: reads_def)
  ultimately show "get_list (2 ^ 20) k g r = (Inr xs, skip (?pre @ items) r)"
    by (simp add: get_list_def op_bind_def un)
qed

definition list_ok :: "('a \<Rightarrow> bool) \<Rightarrow> 'a list \<Rightarrow> bool" where
  "list_ok P xs \<longleftrightarrow> length xs \<le> 2 ^ 20 \<and> list_all P xs"

lemma codes_list:
  assumes "list_ok P xs" "\<And>x. P x \<Longrightarrow> codes (f x) g x n" "0 < k" "k \<le> n" "k \<le> 64"
  shows "codes (put_list f xs) (get_list (2 ^ 20) k g) xs 4"
proof -
  have "codes (put_items f xs) (get_items (length xs) g) xs (n * length xs)"
    using assms(1,2) by (intro codes_items) (auto simp: list_ok_def list_all_iff)
  then obtain bs where bs: "n * length xs \<le> length bs" "emits (put_items f xs) bs"
    "reads (get_items (length xs) g) bs xs" by (auto simp: codes_def)
  have "k * length xs \<le> length bs" using bs(1) assms(4) by (meson le_trans mult_le_mono1)
  then have "reads (get_list (2 ^ 20) k g) (be32 (of_nat (length xs)) @ bs) xs"
    using assms(1,3,5) bs(3) by (intro reads_count) (auto simp: list_ok_def)
  moreover have "emits (put_list f xs) (be32 (of_nat (length xs)) @ bs)"
    unfolding put_list_def put_count_def put_u32_def by (intro emits_then emits_bytes bs(2))
  ultimately show ?thesis unfolding codes_def using length_sized by blast
qed

section \<open>Identities and enumerations\<close>

definition id_ok :: "ident \<Rightarrow> bool" where
  "id_ok i \<longleftrightarrow> i = [] \<or> is_canonical_id i"

definition put_id :: "string \<Rightarrow> (unit, byte_writer) op" where
  "put_id token = put_string token"

definition put_typed_id :: "ident \<Rightarrow> (unit, byte_writer) op" where
  "put_typed_id i = put_id i"

definition get_typed_id :: "string \<Rightarrow> (ident, byte_reader) op" where
  "get_typed_id what =
     op_bind get_string (\<lambda>token.
       if token = [] then op_return []
       else case id_parse token of
              Inl _ \<Rightarrow> op_fail Code_Invalid (''field '' @ [CHR 0x27] @ what @ [CHR 0x27] @ '' is not a canonical identity'')
            | Inr i \<Rightarrow> op_return i)"

text \<open>\<open>static_cast\<close> between an enumeration and its byte: the position in declaration order.\<close>

definition enum_byte :: "'e list \<Rightarrow> 'e \<Rightarrow> byte" where
  "enum_byte es v = of_nat (length (takeWhile (\<lambda>e. e \<noteq> v) es))"

definition put_enum :: "'e list \<Rightarrow> 'e \<Rightarrow> (unit, byte_writer) op" where
  "put_enum es v = put_u8 (enum_byte es v)"

definition get_enum :: "'e list \<Rightarrow> byte \<Rightarrow> string \<Rightarrow> ('e, byte_reader) op" where
  "get_enum es max_value what =
     op_bind get_u8 (\<lambda>raw.
     op_then (op_guard (raw > max_value) Code_Invalid (''field '' @ [CHR 0x27] @ what @ [CHR 0x27] @ '' has an out-of-range value''))
     (op_return (es ! unat raw)))"

lemma codes_id: "id_ok i \<Longrightarrow> codes (put_typed_id i) (get_typed_id what) i 4"
proof -
  assume i: "id_ok i"
  then have "text_ok i" using canonical_text_ok by (auto simp: id_ok_def text_ok_def is_valid_utf8_def bytes_of_string_def)
  then obtain bs where bs: "4 \<le> length bs" "emits (put_string i) bs" "reads get_string bs i"
    using codes_string by (auto simp: codes_def)
  let ?h = "\<lambda>token. if token = [] then op_return []
       else case id_parse token of
              Inl _ \<Rightarrow> op_fail Code_Invalid (''field '' @ [CHR 0x27] @ what @ [CHR 0x27] @ '' is not a canonical identity'')
            | Inr i \<Rightarrow> op_return i"
  have hi: "?h i = op_return i" using i by (auto simp: id_ok_def id_parse_def)
  have h: "reads (?h i) [] i" by (subst hi) (rule reads_return)
  have "reads (get_typed_id what) (bs @ []) i"
    unfolding get_typed_id_def by (rule reads_bind[where h = ?h, OF bs(3) h])
  with bs show ?thesis by (auto simp: codes_def put_typed_id_def put_id_def)
qed

lemma codes_ranked:
  assumes "v \<in> set es" "length es = Suc (unat m)"
  shows "codes (put_enum es v) (op_bind get_u8 (\<lambda>raw. op_then (op_guard (raw > m) k msg)
      (op_return (es ! unat raw)))) v 1"
proof -
  let ?k = "length (takeWhile (\<lambda>e. e \<noteq> v) es)"
  have k: "?k < length es" using assms(1) by (induction es) auto
  then have nth: "es ! ?k = v" using nth_length_takeWhile by blast
  have u: "unat (enum_byte es v) = ?k"
    using k assms(2) unat_bound[of m] by (simp add: enum_byte_def unat_of_nat take_bit_nat_eq_self)
  then have "\<not> enum_byte es v > m" using k assms(2) by (simp add: word_less_nat_alt)
  then have "codes (put_enum es v) (op_bind get_u8 (\<lambda>raw. op_then (op_guard (raw > m) k msg)
      (op_return (es ! unat raw)))) (es ! unat (enum_byte es v)) 1"
    unfolding put_enum_def by (rule codes_filter[where f = "\<lambda>raw. es ! unat raw", OF codes_u8])
  with nth u show ?thesis by simp
qed

lemma codes_enum:
  "v \<in> set es \<Longrightarrow> length es = Suc (unat m) \<Longrightarrow> codes (put_enum es v) (get_enum es m what) v 1"
  unfolding get_enum_def by (rule codes_ranked)

section \<open>Canonical form\<close>

text \<open>\<open>sound g V P\<close>: whatever the read returns is a representable value, and the bytes it
  consumed are the bytes the write emits for it. \<open>traces g K\<close> is the same with the write
  given by the relation \<open>K\<close>, which collects the writes of the fields read so far.\<close>

definition consumed :: "byte_reader \<Rightarrow> byte list \<Rightarrow> byte_reader \<Rightarrow> bool" where
  "consumed r bs r' \<longleftrightarrow> r' = skip bs r \<and> (\<exists>rest. ahead r = bs @ rest)"

definition sound :: "('a, byte_reader) op \<Rightarrow> ('a \<Rightarrow> bool) \<Rightarrow> ('a \<Rightarrow> (unit, byte_writer) op) \<Rightarrow> bool" where
  "sound g V P \<longleftrightarrow> (\<forall>r x r'. reader_ok r \<and> g r = (Inr x, r') \<longrightarrow>
     V x \<and> (\<exists>bs. emits (P x) bs \<and> consumed r bs r'))"

definition traces :: "('a, byte_reader) op \<Rightarrow> ('a \<Rightarrow> (unit, byte_writer) op \<Rightarrow> bool) \<Rightarrow> bool" where
  "traces g K \<longleftrightarrow> (\<forall>r y r'. reader_ok r \<and> g r = (Inr y, r') \<longrightarrow>
     (\<exists>p bs. K y p \<and> emits p bs \<and> consumed r bs r'))"

lemma op_bind_Inr:
  "op_bind g h r = (Inr y, r') \<longleftrightarrow> (\<exists>x s. g r = (Inr x, s) \<and> h x s = (Inr y, r'))"
  by (auto simp: op_bind_def split: prod.splits sum.splits)

lemma consumed_trans: "consumed r as s \<Longrightarrow> consumed s bs t \<Longrightarrow> reader_ok r \<Longrightarrow> consumed r (as @ bs) t"
  unfolding consumed_def using skip_ok by fastforce

lemma consumed_ok: "consumed r bs s \<Longrightarrow> reader_ok r \<Longrightarrow> reader_ok s"
  unfolding consumed_def using skip_ok by blast

lemma soundD:
  "sound g V P \<Longrightarrow> reader_ok r \<Longrightarrow> g r = (Inr x, r') \<Longrightarrow>
    V x \<and> (\<exists>bs. emits (P x) bs \<and> consumed r bs r')"
  unfolding sound_def by blast

lemma soundI:
  "traces g K \<Longrightarrow> (\<And>y p. K y p \<Longrightarrow> V y \<and> p = P y) \<Longrightarrow> sound g V P"
  unfolding sound_def traces_def by blast

lemma traces_step:
  assumes "sound g V P" "\<And>x. V x \<Longrightarrow> traces (h x) (K x)"
  shows "traces (op_bind g h) (\<lambda>y p. \<exists>x q. V x \<and> K x y q \<and> p = op_then (P x) q)"
  unfolding traces_def
proof (intro allI impI, elim conjE)
  fix r y r' assume r: "reader_ok r" "op_bind g h r = (Inr y, r')"
  then obtain x s where x: "g r = (Inr x, s)" "h x s = (Inr y, r')" by (auto simp: op_bind_Inr)
  from soundD[OF assms(1) r(1) x(1)] obtain as where as: "V x" "emits (P x) as" "consumed r as s" by blast
  have "reader_ok s" using as(3) r(1) by (rule consumed_ok)
  with assms(2)[OF as(1)] x(2) obtain q bs where q: "K x y q" "emits q bs" "consumed s bs r'"
    unfolding traces_def by blast
  show "\<exists>p bs. (\<exists>x q. V x \<and> K x y q \<and> p = op_then (P x) q) \<and> emits p bs \<and> consumed r bs r'"
    using as q emits_then[OF as(2) q(2)] consumed_trans[OF as(3) q(3) r(1)] by blast
qed

lemma traces_end:
  assumes "sound g V P"
  shows "traces (op_bind g (\<lambda>x. op_return (f x))) (\<lambda>y p. \<exists>x. V x \<and> y = f x \<and> p = P x)"
  unfolding traces_def op_bind_Inr op_return_def using assms unfolding sound_def by fastforce

lemma traces_check:
  "(\<not> c \<Longrightarrow> traces g K) \<Longrightarrow> traces (op_then (op_guard c k m) g) (\<lambda>y p. \<not> c \<and> K y p)"
  by (cases c) (auto simp: traces_def op_bind_Inr op_guard_def op_fail_def)

lemma traces_value: "traces (op_return x) (\<lambda>y p. y = x \<and> p = op_return ())"
  using emits_return by (fastforce simp: traces_def op_return_def[of x] consumed_def)

lemma sound_take: "sound (reader_take n k m) (\<lambda>bs. length bs = n) put_bytes"
  unfolding sound_def
proof (intro allI impI, elim conjE)
  fix r x r' assume r: "reader_ok r" "reader_take n k m r = (Inr x, r')"
  then have x: "x = take n (ahead r)" "r' = r\<lparr>br_cursor := br_cursor r + n\<rparr>" "n \<le> length (ahead r)"
    by (auto simp: reader_take_def ahead_def reader_remaining_def split: if_splits)
  then have "length x = n" by simp
  moreover have "ahead r = x @ drop n (ahead r)" using x(1) by simp
  ultimately show "length x = n \<and> (\<exists>bs. emits (put_bytes x) bs \<and> consumed r bs r')"
    using emits_bytes x(2) unfolding consumed_def skip_def by auto
qed

lemma sound_map:
  assumes "sound g V P" "\<And>x. V x \<Longrightarrow> W (f x) \<and> Q (f x) = P x"
  shows "sound (op_bind g (\<lambda>x. op_return (f x))) W Q"
  by (rule soundI[OF traces_end[OF assms(1)]]) (use assms(2) in auto)

lemma be_bytes_from_be: "length bs = k \<Longrightarrow> 8 * k \<le> LENGTH('a) \<Longrightarrow> be_bytes k (from_be bs :: 'a::len word) = bs"
proof (induction k arbitrary: bs)
  case (Suc k)
  then obtain cs c where bs: "bs = cs @ [c]" "length cs = k" by (metis length_Suc_conv_rev)
  have e: "(from_be bs :: 'a word) = or (push_bit 8 (from_be cs)) (ucast c)" by (simp add: bs from_be_def)
  have small: "take_bit (8 * k) (from_be cs :: 'a word) = from_be cs"
  proof -
    have "be_bytes k (from_be cs :: 'a word) = cs" using Suc bs by simp
    from from_be_bytes[of k "from_be cs :: 'a word"] this show ?thesis by simp
  qed
  have b: "bit (from_be cs :: 'a word) n \<Longrightarrow> n < 8 * k" for n
    using small by (metis bit_take_bit_iff)
  have "drop_bit 8 (from_be bs :: 'a word) = from_be cs"
    unfolding e using Suc.prems(2) by (intro bit_word_eqI) (auto simp: bit_simps dest: b bit_imp_le_length)
  moreover have "(ucast (from_be bs :: 'a word) :: byte) = c"
    unfolding e using Suc.prems(2) by (intro bit_word_eqI) (auto simp: bit_simps)
  ultimately show ?case using Suc bs by simp
qed simp

lemma sound_u8: "sound get_u8 (\<lambda>_. True) put_u8"
  unfolding get_u8_def by (rule sound_map[OF sound_take]) (auto simp: put_u8_def length_Suc_conv)

lemma sound_u16: "sound get_u16 (\<lambda>_. True) put_u16"
  unfolding get_u16_def by (rule sound_map[OF sound_take]) (auto simp: put_u16_def be_bytes_eq be_bytes_from_be)

lemma sound_u32: "sound get_u32 (\<lambda>_. True) put_u32"
  unfolding get_u32_def by (rule sound_map[OF sound_take]) (auto simp: put_u32_def be_bytes_eq be_bytes_from_be)

lemma sound_u64: "sound get_u64 (\<lambda>_. True) put_u64"
  unfolding get_u64_def by (rule sound_map[OF sound_take]) (auto simp: put_u64_def be_bytes_eq be_bytes_from_be)

lemma sound_i64: "sound get_i64 time_ok put_i64"
  unfolding get_i64_def
  by (rule sound_map[OF sound_u64])
    (use sint_greater_eq[where ?'a = 64] sint_less[where ?'a = 64] in \<open>simp add: put_i64_def time_ok_def\<close>)

lemma sound_raw: "sound (get_raw n) (\<lambda>bs. length bs = n) put_raw"
  unfolding get_raw_def put_raw_def[abs_def] by (rule sound_take)

lemma sound_bool: "sound get_bool (\<lambda>_. True) put_bool"
  unfolding get_bool_def
proof (rule soundI[OF traces_step[OF sound_u8 traces_check[OF traces_value]]])
  fix b p assume "\<exists>x q. True \<and> (\<not> x > 1 \<and> b = (x = 1) \<and> q = op_return ()) \<and> p = op_then (put_u8 x) q"
  then obtain x :: u8 where x: "\<not> x > 1" "b \<longleftrightarrow> x = 1" "p = put_u8 x" by auto
  from x(1) have "unat x = 0 \<or> unat x = 1" by (auto simp: word_less_nat_alt)
  then have "x = 0 \<or> x = 1" by (metis unat_0 unat_1 word_unat_eq_iff)
  then show "True \<and> p = put_bool b" using x by (auto simp: put_bool_def)
qed

lemma traces_sized:
  assumes "\<And>n. n \<le> b default_limits \<Longrightarrow> traces (op_bind (get_raw n) h) (K n)"
  shows "traces (op_bind get_u32 (\<lambda>len r. op_then (op_guard (unat len > b (br_limits r)) k m)
      (op_bind (get_raw (unat len)) h) r))
    (\<lambda>y p. \<exists>len q. unat len \<le> b default_limits \<and> K (unat len) y q \<and> p = op_then (put_u32 len) q)"
  unfolding traces_def
proof (intro allI impI, elim conjE)
  fix r y r'
  assume r: "reader_ok r" "op_bind get_u32 (\<lambda>len r. op_then (op_guard (unat len > b (br_limits r)) k m)
      (op_bind (get_raw (unat len)) h) r) r = (Inr y, r')"
  then obtain len s where l: "get_u32 r = (Inr len, s)"
    "op_then (op_guard (unat len > b (br_limits s)) k m) (op_bind (get_raw (unat len)) h) s = (Inr y, r')"
    by (auto simp: op_bind_Inr)
  from soundD[OF sound_u32 r(1) l(1)] obtain as where as: "emits (put_u32 len) as" "consumed r as s" by blast
  have ok: "reader_ok s" using as(2) r(1) by (rule consumed_ok)
  have n: "unat len \<le> b default_limits" "op_bind (get_raw (unat len)) h s = (Inr y, r')"
    using l(2) ok by (cases "unat len > b (br_limits s)",
        auto simp: op_guard_def op_fail_def reader_ok_def op_bind_Inr op_return_def)+
  from assms[OF n(1)] n(2) ok obtain q bs where q: "K (unat len) y q" "emits q bs" "consumed s bs r'"
    unfolding traces_def by blast
  show "\<exists>p bs. (\<exists>len q. unat len \<le> b default_limits \<and> K (unat len) y q \<and> p = op_then (put_u32 len) q) \<and>
      emits p bs \<and> consumed r bs r'"
    using n(1) q emits_then[OF as(1) q(2)] consumed_trans[OF as(2) q(3) r(1)] by blast
qed

lemma bytes_of_string_of_bytes [simp]: "bytes_of_string (string_of_bytes bs) = bs"
proof -
  have "(of_char (char_of (unat b) :: char) :: byte) = b" for b :: byte
  proof -
    have "unat (of_char (char_of (unat b) :: char) :: byte) = unat b"
      using unat_bound[of b] by (simp add: unat_byte_of_char)
    then show ?thesis by (simp only: word_unat_eq_iff)
  qed
  then show ?thesis by (simp add: bytes_of_string_def string_of_bytes_def comp_def)
qed

lemma length_string_of_bytes [simp]: "length (string_of_bytes bs) = length bs"
  by (simp add: string_of_bytes_def)

lemma sound_string: "sound get_string text_ok put_string"
  unfolding get_string_def Let_def
  by (rule soundI[OF traces_sized[where b = cl_max_string_bytes,
        OF traces_step[OF sound_raw traces_check[OF traces_value]]]])
    (auto simp: text_ok_def put_string_def)

lemma sound_text: "sound get_text long_text_ok put_text"
  unfolding get_text_def Let_def
  by (rule soundI[OF traces_sized[where b = cl_max_blob_bytes,
        OF traces_step[OF sound_raw traces_check[OF traces_value]]]])
    (auto simp: long_text_ok_def put_text_def)

lemma sound_blob: "sound get_blob blob_ok put_blob"
proof -
  have "sound (op_bind get_u32 (\<lambda>len r. op_then (op_guard (unat len > cl_max_blob_bytes (br_limits r))
      Code_Invalid ''blob declares an oversized length'') (op_bind (get_raw (unat len)) op_return) r))
      blob_ok put_blob"
    by (rule soundI[OF traces_sized[where b = cl_max_blob_bytes,
          OF traces_end[OF sound_raw, where f = "\<lambda>x. x"]]])
      (auto simp: blob_ok_def put_blob_def)
  then show ?thesis by (simp add: get_blob_def)
qed

lemma sound_id: "sound (get_typed_id what) id_ok put_typed_id"
proof -
  have "traces (if t = [] then op_return [] else case id_parse t of
       Inl _ \<Rightarrow> op_fail Code_Invalid (''field '' @ [CHR 0x27] @ what @ [CHR 0x27] @ '' is not a canonical identity'')
     | Inr i \<Rightarrow> op_return i) (\<lambda>y p. y = t \<and> id_ok t \<and> p = op_return ())" for t
    using traces_value[of t]
    by (auto simp: id_parse_def id_ok_def op_fail_def traces_def)
  then show ?thesis unfolding get_typed_id_def
    by (rule soundI[OF traces_step[OF sound_string]]) (auto simp: put_typed_id_def[abs_def] put_id_def)
qed

lemma sound_ranked:
  assumes "distinct es" "length es = Suc (unat m)"
  shows "sound (op_bind get_u8 (\<lambda>raw. op_then (op_guard (raw > m) k msg) (op_return (es ! unat raw))))
     (\<lambda>_. True) (put_enum es)"
proof (rule soundI[OF traces_step[OF sound_u8 traces_check[OF traces_value]]])
  fix y p assume "\<exists>x q. True \<and> (\<not> x > m \<and> y = es ! unat x \<and> q = op_return ()) \<and> p = op_then (put_u8 x) q"
  then obtain x where x: "\<not> x > m" "y = es ! unat x" "p = put_u8 x" by auto
  have l: "unat x < length es" using x(1) assms(2) by (auto simp: word_less_nat_alt)
  have "takeWhile (\<lambda>e. e \<noteq> es ! unat x) es = take (unat x) es"
    using l assms(1) by (intro takeWhile_eq_take_P_nth) (auto simp: nth_eq_iff_index_eq)
  then show "True \<and> p = put_enum es y" using x l by (simp add: put_enum_def enum_byte_def)
qed

lemma sound_enum:
  "distinct es \<Longrightarrow> length es = Suc (unat m) \<Longrightarrow> sound (get_enum es m what) (\<lambda>_. True) (put_enum es)"
  unfolding get_enum_def by (rule sound_ranked)

lemma sound_items:
  assumes "sound g V P"
  shows "sound (get_items n g) (\<lambda>xs. length xs = n \<and> list_all V xs) (put_items P)"
proof (induction n)
  case 0
  show ?case by (simp, rule soundI[OF traces_value]) auto
next
  case (Suc n)
  show ?case
    by (simp, rule soundI[OF traces_step[OF assms traces_end[OF Suc]]]) auto
qed

lemma sound_list:
  assumes "sound g V P"
  shows "sound (get_list (2 ^ 20) k g) (list_ok V) (put_list P)"
  unfolding sound_def
proof (intro allI impI, elim conjE)
  fix r xs r' assume r: "reader_ok r" "get_list (2 ^ 20) k g r = (Inr xs, r')"
  then obtain n s where n: "get_count (2 ^ 20) k r = (Inr n, s)" "get_items (unat n) g s = (Inr xs, r')"
    by (auto simp: get_list_def op_bind_Inr)
  from n(1) have u: "get_u32 r = (Inr n, s)" "\<not> n > 2 ^ 20"
    by (auto simp: get_count_def op_bind_Inr op_guard_def op_fail_def op_return_def split: if_splits)
  from soundD[OF sound_u32 r(1) u(1)] obtain as where as: "emits (put_u32 n) as" "consumed r as s" by blast
  have ok: "reader_ok s" using as(2) r(1) by (rule consumed_ok)
  from soundD[OF sound_items[OF assms] ok n(2)] obtain bs where
    bs: "length xs = unat n" "list_all V xs" "emits (put_items P xs) bs" "consumed s bs r'" by blast
  have "list_ok V xs" using bs(1,2) u(2) by (simp add: list_ok_def word_less_nat_alt)
  moreover have "put_list P xs = op_then (put_u32 n) (put_items P xs)"
    by (simp add: put_list_def put_count_def bs(1))
  ultimately show "list_ok V xs \<and> (\<exists>bs. emits (put_list P xs) bs \<and> consumed r bs r')"
    using emits_then[OF as(1) bs(3)] consumed_trans[OF as(2) bs(4) r(1)] by metis
qed

section \<open>The contract as an interface\<close>

locale encodable =
  fixes put :: "'a \<Rightarrow> (unit, byte_writer) op"
    and get :: "('a, byte_reader) op"
    and good :: "'a \<Rightarrow> bool"
    and least :: nat
  assumes law: "good x \<Longrightarrow> codes (put x) get x least"
begin

lemma encoding:
  assumes "good x"
  obtains bs where "least \<le> length bs" "emits (put x) bs" "reads get bs x"
  using law[OF assms] by (auto simp: codes_def)

lemma document:
  assumes "good x" "put x (writer_new limit) = (success, w)" "limit < 2 ^ 64"
  shows "get (reader_new (bw_buffer w) default_limits) =
      (Inr x, skip (bw_buffer w) (reader_new (bw_buffer w) default_limits))"
    "length (bw_buffer w) \<le> limit"
proof -
  obtain bs where bs: "emits (put x) bs" "reads get bs x" using assms(1) by (rule encoding)
  have "writer_ok (writer_new limit)" by (simp add: writer_ok_def writer_new_def)
  with bs(1) assms(2) have "length bs \<le> limit \<and> bw_buffer w = bs"
    unfolding emits_def by (fastforce simp: writer_new_def split: if_splits)
  then show "length (bw_buffer w) \<le> limit"
    "get (reader_new (bw_buffer w) default_limits) =
      (Inr x, skip (bw_buffer w) (reader_new (bw_buffer w) default_limits))"
    using bs(2) assms(3) by (auto simp: reads_def reader_ok_def ahead_def reader_new_def)
qed

lemma fits_or_exhausted:
  assumes "good x"
  shows "\<exists>bs. \<forall>limit. put x (writer_new limit) =
      (if length bs \<le> limit then (success, (writer_new limit)\<lparr>bw_buffer := bs\<rparr>)
       else (fail Code_Exhausted overflow_message, snd (put x (writer_new limit))))"
proof -
  obtain bs where bs: "emits (put x) bs" using assms by (rule encoding)
  show ?thesis
  proof (intro exI allI)
    fix limit
    have "writer_ok (writer_new limit)" by (simp add: writer_ok_def writer_new_def)
    then have "if length bs \<le> limit then put x (writer_new limit) = (success, (writer_new limit)\<lparr>bw_buffer := bs\<rparr>)
        else \<exists>w'. put x (writer_new limit) = (fail Code_Exhausted overflow_message, w')"
      using bs unfolding emits_def by (fastforce simp: writer_new_def)
    then show "put x (writer_new limit) =
      (if length bs \<le> limit then (success, (writer_new limit)\<lparr>bw_buffer := bs\<rparr>)
       else (fail Code_Exhausted overflow_message, snd (put x (writer_new limit))))"
      by (auto split: if_splits)
  qed
qed

lemma unambiguous:
  assumes "good x" "good y" "put x (writer_new limit) = (success, w)"
    "put y (writer_new limit) = (success, v)" "bw_buffer w = bw_buffer v" "limit < 2 ^ 64"
  shows "x = y"
  using document(1)[OF assms(1,3,6)] document(1)[OF assms(2,4,6)] assms(5) by simp

end

text \<open>A codec also reads only what it writes.\<close>

locale codec = encodable +
  assumes canonical: "sound get good put"
begin

lemma sequence:
  assumes "0 < k" "k \<le> least" "k \<le> 64"
  shows "codec (put_list put) (get_list (2 ^ 20) k get) (list_ok good) 4"
proof unfold_locales
  fix xs assume "list_ok good xs"
  then show "codes (put_list put xs) (get_list (2 ^ 20) k get) xs 4"
    using law assms by (rule codes_list)
next
  show "sound (get_list (2 ^ 20) k get) (list_ok good) (put_list put)"
    by (rule sound_list[OF canonical])
qed

lemma decoded:
  assumes "get (reader_new bs default_limits) = (Inr x, r)" "length bs < 2 ^ 64" "reader_at_end r"
  shows "good x" "emits (put x) bs"
proof -
  have ok: "reader_ok (reader_new bs default_limits)" using assms(2) by (simp add: reader_ok_def reader_new_def)
  from soundD[OF canonical ok assms(1)] obtain as rest where as: "good x" "emits (put x) as"
    "r = skip as (reader_new bs default_limits)" "bs = as @ rest"
    by (auto simp: consumed_def ahead_def reader_new_def)
  then have "length as = length bs"
    using assms(3) by (simp add: reader_at_end_def skip_def reader_new_def)
  then have "rest = []" using as(4) by simp
  then show "good x" "emits (put x) bs" using as by simp_all
qed

text \<open>No document is a proper prefix of another one.\<close>

lemma prefix_free:
  assumes "emits (put x) (as @ bs)" "good x" "length (as @ bs) < 2 ^ 64"
    "get (reader_new as default_limits) = (Inr y, r)" "reader_at_end r"
  shows "bs = []"
proof -
  have l: "length as < 2 ^ 64" using assms(3) by simp
  note d = decoded[OF assms(4) l assms(5)]
  obtain cs where cs: "emits (put x) cs" "reads get cs x" using assms(2) by (rule encoding)
  obtain ds where ds: "emits (put y) ds" "reads get ds y" using d(1) by (rule encoding)
  have same: "us = vs" if "emits p us" "emits p vs" for p us vs
  proof -
    let ?w = "writer_new (length us + length vs)"
    have "writer_ok ?w" by (simp add: writer_ok_def writer_new_def)
    with that have "p ?w = (success, ?w\<lparr>bw_buffer := us\<rparr>)" "p ?w = (success, ?w\<lparr>bw_buffer := vs\<rparr>)"
      by (force simp: emits_def writer_new_def)+
    then show ?thesis by (simp add: writer_new_def)
  qed
  have "cs = as @ bs" "ds = as" using same cs(1) ds(1) assms(1) d(2) by blast+
  moreover have "reader_ok (reader_new (as @ bs) default_limits)"
    using assms(3) by (simp add: reader_ok_def reader_new_def)
  moreover have "ahead (reader_new (as @ bs) default_limits) = as @ bs"
    by (simp add: ahead_def reader_new_def)
  ultimately have "get (reader_new (as @ bs) default_limits) = (Inr x, skip (as @ bs) (reader_new (as @ bs) default_limits))"
    "get (reader_new (as @ bs) default_limits) = (Inr y, skip as (reader_new (as @ bs) default_limits))"
    using cs(2) ds(2) unfolding reads_def by auto
  then show ?thesis by (simp add: skip_def reader_new_def)
qed

end

interpretation u8: codec put_u8 get_u8 "\<lambda>_. True" 1
  by unfold_locales (rule codes_u8, assumption?, rule sound_u8)

interpretation u16: codec put_u16 get_u16 "\<lambda>_. True" 2
  by unfold_locales (rule codes_u16, assumption?, rule sound_u16)

interpretation u32: codec put_u32 get_u32 "\<lambda>_. True" 4
  by unfold_locales (rule codes_u32, assumption?, rule sound_u32)

interpretation u64: codec put_u64 get_u64 "\<lambda>_. True" 8
  by unfold_locales (rule codes_u64, assumption?, rule sound_u64)

interpretation i64: codec put_i64 get_i64 time_ok 8
  by unfold_locales (rule codes_i64, assumption?, rule sound_i64)

interpretation boolean: codec put_bool get_bool "\<lambda>_. True" 1
  by unfold_locales (rule codes_bool, assumption?, rule sound_bool)

interpretation string: codec put_string get_string text_ok 4
  by unfold_locales (rule codes_string, assumption?, rule sound_string)

interpretation text_field: codec put_text get_text long_text_ok 4
  by unfold_locales (rule codes_text, assumption?, rule sound_text)

interpretation blob: codec put_blob get_blob blob_ok 4
  by unfold_locales (rule codes_blob, assumption?, rule sound_blob)

interpretation identity: codec put_typed_id "get_typed_id what" id_ok 4 for what
  by unfold_locales (rule codes_id, assumption?, rule sound_id)

end
