(* ===== verification/Documents.thy ===== *)
theory Documents
  imports Wire Snapshot
begin

text \<open>
  Binary documents: \<open>codec/codec.hpp\<close>, \<open>codec/codec.cpp\<close>. Every \<open>encode\<close> is a sequence of
  \<open>put\<close> operations on a bounded writer, every \<open>decode\<close> the matching sequence of reads. A loop over
  a counted sequence is \<open>put_list\<close> and \<open>get_list\<close>. The predicates \<open>..._ok\<close> say what a value needs
  to be representable: canonical identities, UTF-8 within the string bound, times in 64 bits,
  at most \<open>2 ^ 20\<close> items per sequence.
\<close>

section \<open>Fields of documents\<close>

text \<open>The enumerators in declaration order.\<close>

definition membership_states :: "membership_state list" where
  "membership_states = [Membership_Joining, Membership_Established, Membership_Leaving,
     Membership_Fenced, Membership_Retired]"

definition admin_states :: "admin_state list" where
  "admin_states = [Admin_Enabled, Admin_Disabled, Admin_Maintenance, Admin_Draining]"

definition health_states :: "health_state list" where
  "health_states = [Health_Ok, Health_Impaired, Health_Critical, Health_Unknown]"

definition operational_states :: "operational_state list" where
  "operational_states = [Oper_Up, Oper_Degraded, Oper_Down, Oper_Unknown]"

definition route_states :: "route_state list" where
  "route_states = [Route_Installed, Route_Pending, Route_Withdrawn, Route_Failed, Route_Unknown]"

definition domain_kinds :: "domain_kind list" where
  "domain_kinds = [Kind_Rack, Kind_Power, Kind_SwitchPlane, Kind_Row, Kind_Site, Kind_Unknown]"

definition obligation_kinds :: "obligation_kind list" where
  "obligation_kinds = [Obl_ProtectedPath, Obl_CapacityFloor, Obl_DomainDiversity,
     Obl_MaintenanceWindow]"

definition authority_scopes :: "authority_scope list" where
  "authority_scopes = [Scope_Pod, Scope_Member, Scope_Link, Scope_CapacityReservation,
     Scope_MaintenanceWindow]"

definition lifecycle_states :: "lifecycle_state list" where
  "lifecycle_states = [Life_Constructing, Life_Active, Life_Degraded, Life_Partitioned,
     Life_Recovering, Life_Maintenance, Life_Draining, Life_Retired]"

definition qualities :: "evidence_quality list" where
  "qualities = [Quality_Real, Quality_Synthetic, Quality_Unknown]"

definition evidence_classes :: "evidence_class list" where
  "evidence_classes = [Class_Attested, Class_Observed, Class_Declared, Class_Reconstructed]"

lemmas enum_defs = membership_states_def admin_states_def health_states_def
  operational_states_def route_states_def domain_kinds_def obligation_kinds_def
  authority_scopes_def lifecycle_states_def qualities_def evidence_classes_def

lemma wire_enums:
  "m \<in> set membership_states" "a \<in> set admin_states" "h \<in> set health_states"
  "p \<in> set operational_states" "t \<in> set route_states" "k \<in> set domain_kinds"
  "b \<in> set obligation_kinds" "s \<in> set authority_scopes" "l \<in> set lifecycle_states"
  "q \<in> set qualities" "e \<in> set evidence_classes"
proof -
  show "m \<in> set membership_states" by (cases m) (simp_all add: membership_states_def)
  show "a \<in> set admin_states" by (cases a) (simp_all add: admin_states_def)
  show "h \<in> set health_states" by (cases h) (simp_all add: health_states_def)
  show "p \<in> set operational_states" by (cases p) (simp_all add: operational_states_def)
  show "t \<in> set route_states" by (cases t) (simp_all add: route_states_def)
  show "k \<in> set domain_kinds" by (cases k) (simp_all add: domain_kinds_def)
  show "b \<in> set obligation_kinds" by (cases b) (simp_all add: obligation_kinds_def)
  show "s \<in> set authority_scopes" by (cases s) (simp_all add: authority_scopes_def)
  show "l \<in> set lifecycle_states" by (cases l) (simp_all add: lifecycle_states_def)
  show "q \<in> set qualities" by (cases q) (simp_all add: qualities_def)
  show "e \<in> set evidence_classes" by (cases e) (simp_all add: evidence_classes_def)
qed

definition put_uuid :: "uuid \<Rightarrow> (unit, byte_writer) op" where
  "put_uuid u = put_raw u"

definition get_uuid :: "(uuid, byte_reader) op" where
  "get_uuid = op_bind (get_raw 16) op_return"

definition put_digest :: "digest \<Rightarrow> (unit, byte_writer) op" where
  "put_digest d = put_raw d"

definition get_digest :: "(digest, byte_reader) op" where
  "get_digest = op_bind (get_raw 32) op_return"

definition get_quality :: "(evidence_quality, byte_reader) op" where
  "get_quality =
     op_bind get_u8 (\<lambda>raw.
     op_then (op_guard (raw > 2) Code_Invalid ''provenance quality value out of range'')
     (op_return (qualities ! unat raw)))"

definition get_class :: "(evidence_class, byte_reader) op" where
  "get_class =
     op_bind get_u8 (\<lambda>raw.
     op_then (op_guard (raw > 3) Code_Invalid ''provenance class value out of range'')
     (op_return (evidence_classes ! unat raw)))"

definition put_provenance :: "provenance \<Rightarrow> (unit, byte_writer) op" where
  "put_provenance p =
     op_then (put_enum qualities (pv_quality p))
     (op_then (put_enum evidence_classes (pv_class p))
     (op_then (put_typed_id (pv_source p))
     (op_then (put_u64 (pv_sequence p))
     (put_string (pv_detail p)))))"

definition get_provenance :: "(provenance, byte_reader) op" where
  "get_provenance =
     op_bind get_quality (\<lambda>quality.
     op_bind get_class (\<lambda>class.
     op_bind (get_typed_id ''provenance.source'') (\<lambda>source.
     op_bind get_u64 (\<lambda>sequence.
     op_bind get_string (\<lambda>detail.
     op_return \<lparr>pv_quality = quality, pv_class = class, pv_source = source,
       pv_sequence = sequence, pv_detail = detail\<rparr>)))))"

definition uuid_ok :: "uuid \<Rightarrow> bool" where
  "uuid_ok u \<longleftrightarrow> length u = 16"

definition provenance_ok :: "provenance \<Rightarrow> bool" where
  "provenance_ok p \<longleftrightarrow> id_ok (pv_source p) \<and> text_ok (pv_detail p)"

section \<open>Records\<close>

definition put_claim :: "capacity_claim \<Rightarrow> (unit, byte_writer) op" where
  "put_claim c =
     op_then (put_typed_id (cc_resource c))
     (op_then (put_typed_id (cc_exclusivity c))
     (op_then (put_u64 (cc_amount c))
     (op_then (put_u64 (cc_reserved c))
     (op_then (put_typed_id (cc_domain c))
     (put_provenance (cc_provenance c))))))"

definition get_claim :: "(capacity_claim, byte_reader) op" where
  "get_claim =
     op_bind (get_typed_id ''capacity.resource'') (\<lambda>resource.
     op_bind (get_typed_id ''capacity.exclusivity'') (\<lambda>exclusivity.
     op_bind get_u64 (\<lambda>amount.
     op_bind get_u64 (\<lambda>reserved.
     op_bind (get_typed_id ''capacity.domain'') (\<lambda>domain.
     op_bind get_provenance (\<lambda>provenance.
     op_return \<lparr>cc_resource = resource, cc_exclusivity = exclusivity, cc_amount = amount,
       cc_reserved = reserved, cc_domain = domain, cc_provenance = provenance\<rparr>))))))"

definition claim_ok :: "capacity_claim \<Rightarrow> bool" where
  "claim_ok c \<longleftrightarrow>
     id_ok (cc_resource c) \<and> id_ok (cc_exclusivity c) \<and> id_ok (cc_domain c) \<and>
     provenance_ok (cc_provenance c)"

definition put_member :: "member_record \<Rightarrow> (unit, byte_writer) op" where
  "put_member m =
     op_then (put_typed_id (mr_rack m))
     (op_then (put_u64 (mr_generation m))
     (op_then (put_digest (mr_digest m))
     (op_then (put_string (mr_rnf_schema m))
     (op_then (put_enum membership_states (mr_membership m))
     (op_then (put_enum admin_states (mr_admin m))
     (op_then (put_enum health_states (mr_health m))
     (op_then (put_list put_typed_id (mr_failure_domains m))
     (op_then (put_list put_claim (mr_capacity m))
     (op_then (put_list put_typed_id (mr_ports m))
     (op_then (put_provenance (mr_provenance m))
     (put_i64 (mr_observed_at m))))))))))))"

definition get_member :: "(member_record, byte_reader) op" where
  "get_member =
     op_bind (get_typed_id ''member.rack'') (\<lambda>rack.
     op_bind get_u64 (\<lambda>generation.
     op_bind get_digest (\<lambda>digest.
     op_bind get_string (\<lambda>rnf_schema.
     op_bind (get_enum membership_states 4 ''member.membership'') (\<lambda>membership.
     op_bind (get_enum admin_states 3 ''member.admin'') (\<lambda>admin.
     op_bind (get_enum health_states 3 ''member.health'') (\<lambda>health.
     op_bind (get_list (2 ^ 20) 1 (get_typed_id ''member.domain'')) (\<lambda>failure_domains.
     op_bind (get_list (2 ^ 20) 24 get_claim) (\<lambda>capacity.
     op_bind (get_list (2 ^ 20) 1 (get_typed_id ''member.port'')) (\<lambda>ports.
     op_bind get_provenance (\<lambda>provenance.
     op_bind get_i64 (\<lambda>observed_at.
     op_return \<lparr>mr_rack = rack, mr_generation = generation, mr_digest = digest,
       mr_rnf_schema = rnf_schema, mr_membership = membership, mr_admin = admin,
       mr_health = health, mr_failure_domains = failure_domains, mr_capacity = capacity,
       mr_ports = ports, mr_provenance = provenance, mr_observed_at = observed_at\<rparr>))))))))))))"

definition member_ok :: "member_record \<Rightarrow> bool" where
  "member_ok m \<longleftrightarrow>
     id_ok (mr_rack m) \<and> digest_ok (mr_digest m) \<and> text_ok (mr_rnf_schema m) \<and>
     list_ok id_ok (mr_failure_domains m) \<and> list_ok claim_ok (mr_capacity m) \<and>
     list_ok id_ok (mr_ports m) \<and> provenance_ok (mr_provenance m) \<and>
     time_ok (mr_observed_at m)"

definition put_link :: "link_record \<Rightarrow> (unit, byte_writer) op" where
  "put_link l =
     op_then (put_typed_id (lk_id l))
     (op_then (put_typed_id (le_rack (lk_a l)))
     (op_then (put_typed_id (le_port (lk_a l)))
     (op_then (put_typed_id (le_rack (lk_b l)))
     (op_then (put_typed_id (le_port (lk_b l)))
     (op_then (put_typed_id (lk_domain l))
     (op_then (put_typed_id (lk_resource l))
     (op_then (put_u64 (lk_capacity l))
     (op_then (put_enum admin_states (lk_admin l))
     (op_then (put_enum operational_states (lk_oper l))
     (op_then (put_u64 (lk_a_generation l))
     (op_then (put_u64 (lk_b_generation l))
     (op_then (put_typed_id (lk_route l))
     (op_then (put_provenance (lk_provenance l))
     (put_i64 (lk_observed_at l)))))))))))))))"

definition get_link :: "(link_record, byte_reader) op" where
  "get_link =
     op_bind (get_typed_id ''link.id'') (\<lambda>id.
     op_bind (get_typed_id ''link.a.rack'') (\<lambda>a_rack.
     op_bind (get_typed_id ''link.a.port'') (\<lambda>a_port.
     op_bind (get_typed_id ''link.b.rack'') (\<lambda>b_rack.
     op_bind (get_typed_id ''link.b.port'') (\<lambda>b_port.
     op_bind (get_typed_id ''link.domain'') (\<lambda>domain.
     op_bind (get_typed_id ''link.resource'') (\<lambda>resource.
     op_bind get_u64 (\<lambda>capacity.
     op_bind (get_enum admin_states 3 ''link.admin'') (\<lambda>admin.
     op_bind (get_enum operational_states 3 ''link.oper'') (\<lambda>oper.
     op_bind get_u64 (\<lambda>a_generation.
     op_bind get_u64 (\<lambda>b_generation.
     op_bind (get_typed_id ''link.route'') (\<lambda>route.
     op_bind get_provenance (\<lambda>provenance.
     op_bind get_i64 (\<lambda>observed_at.
     op_return \<lparr>lk_id = id, lk_a = \<lparr>le_rack = a_rack, le_port = a_port\<rparr>,
       lk_b = \<lparr>le_rack = b_rack, le_port = b_port\<rparr>, lk_domain = domain,
       lk_resource = resource, lk_capacity = capacity, lk_admin = admin, lk_oper = oper,
       lk_a_generation = a_generation, lk_b_generation = b_generation, lk_route = route,
       lk_provenance = provenance, lk_observed_at = observed_at\<rparr>)))))))))))))))"

definition link_ok :: "link_record \<Rightarrow> bool" where
  "link_ok l \<longleftrightarrow>
     id_ok (lk_id l) \<and> id_ok (le_rack (lk_a l)) \<and> id_ok (le_port (lk_a l)) \<and>
     id_ok (le_rack (lk_b l)) \<and> id_ok (le_port (lk_b l)) \<and> id_ok (lk_domain l) \<and>
     id_ok (lk_resource l) \<and> id_ok (lk_route l) \<and> provenance_ok (lk_provenance l) \<and>
     time_ok (lk_observed_at l)"

definition put_route :: "route_evidence \<Rightarrow> (unit, byte_writer) op" where
  "put_route r =
     op_then (put_typed_id (rt_ref r))
     (op_then (put_u64 (rt_generation r))
     (op_then (put_digest (rt_authority_digest r))
     (op_then (put_list put_typed_id (rt_path r))
     (op_then (put_list put_u64 (rt_path_generations r))
     (op_then (put_typed_id (rt_resource r))
     (op_then (put_u64 (rt_committed_capacity r))
     (op_then (put_enum route_states (rt_state r))
     (op_then (put_provenance (rt_provenance r))
     (put_i64 (rt_observed_at r))))))))))"

definition get_route :: "(route_evidence, byte_reader) op" where
  "get_route =
     op_bind (get_typed_id ''route.ref'') (\<lambda>ref.
     op_bind get_u64 (\<lambda>generation.
     op_bind get_digest (\<lambda>authority_digest.
     op_bind (get_list (2 ^ 20) 1 (get_typed_id ''route.path'')) (\<lambda>path.
     op_bind (get_list (2 ^ 20) 8 get_u64) (\<lambda>path_generations.
     op_bind (get_typed_id ''route.resource'') (\<lambda>resource.
     op_bind get_u64 (\<lambda>committed_capacity.
     op_bind (get_enum route_states 4 ''route.state'') (\<lambda>state.
     op_bind get_provenance (\<lambda>provenance.
     op_bind get_i64 (\<lambda>observed_at.
     op_return \<lparr>rt_ref = ref, rt_generation = generation, rt_authority_digest = authority_digest,
       rt_path = path, rt_path_generations = path_generations, rt_resource = resource,
       rt_committed_capacity = committed_capacity, rt_state = state,
       rt_provenance = provenance, rt_observed_at = observed_at\<rparr>))))))))))"

definition route_ok :: "route_evidence \<Rightarrow> bool" where
  "route_ok r \<longleftrightarrow>
     id_ok (rt_ref r) \<and> digest_ok (rt_authority_digest r) \<and>
     list_ok id_ok (rt_path r) \<and> list_ok (\<lambda>_. True) (rt_path_generations r) \<and>
     id_ok (rt_resource r) \<and> provenance_ok (rt_provenance r) \<and>
     time_ok (rt_observed_at r)"

definition put_domain :: "failure_domain_record \<Rightarrow> (unit, byte_writer) op" where
  "put_domain d =
     op_then (put_typed_id (fd_id d))
     (op_then (put_enum domain_kinds (fd_kind d))
     (op_then (put_list put_typed_id (fd_members d))
     (op_then (put_string (fd_description d))
     (put_provenance (fd_provenance d)))))"

definition get_domain :: "(failure_domain_record, byte_reader) op" where
  "get_domain =
     op_bind (get_typed_id ''domain.id'') (\<lambda>id.
     op_bind (get_enum domain_kinds 5 ''domain.kind'') (\<lambda>kind.
     op_bind (get_list (2 ^ 20) 1 (get_typed_id ''domain.member'')) (\<lambda>members.
     op_bind get_string (\<lambda>description.
     op_bind get_provenance (\<lambda>provenance.
     op_return \<lparr>fd_id = id, fd_kind = kind, fd_members = members, fd_description = description,
       fd_provenance = provenance\<rparr>)))))"

definition domain_ok :: "failure_domain_record \<Rightarrow> bool" where
  "domain_ok d \<longleftrightarrow>
     id_ok (fd_id d) \<and> list_ok id_ok (fd_members d) \<and> text_ok (fd_description d) \<and>
     provenance_ok (fd_provenance d)"

definition put_requirement :: "capacity_requirement \<Rightarrow> (unit, byte_writer) op" where
  "put_requirement q =
     op_then (put_typed_id (cr_resource q))
     (op_then (put_u64 (cr_minimum q))
     (put_u32 (cr_margin_percent q)))"

definition get_requirement :: "(capacity_requirement, byte_reader) op" where
  "get_requirement =
     op_bind (get_typed_id ''obligation.resource'') (\<lambda>resource.
     op_bind get_u64 (\<lambda>minimum.
     op_bind get_u32 (\<lambda>margin_percent.
     op_return \<lparr>cr_resource = resource, cr_minimum = minimum, cr_margin_percent = margin_percent\<rparr>)))"

definition requirement_ok :: "capacity_requirement \<Rightarrow> bool" where
  "requirement_ok q \<longleftrightarrow>
     id_ok (cr_resource q)"

definition put_obligation :: "obligation \<Rightarrow> (unit, byte_writer) op" where
  "put_obligation b =
     op_then (put_typed_id (ob_id b))
     (op_then (put_enum obligation_kinds (ob_kind b))
     (op_then (put_typed_id (ob_tenant b))
     (op_then (put_string (ob_description b))
     (op_then (put_list put_typed_id (ob_protected_racks b))
     (op_then (put_u32 (ob_required_domains b))
     (op_then (put_enum domain_kinds (ob_diversity_kind b))
     (op_then (put_list put_requirement (ob_requirements b))
     (op_then (put_bool (ob_mandatory b))
     (put_provenance (ob_provenance b))))))))))"

definition get_obligation :: "(obligation, byte_reader) op" where
  "get_obligation =
     op_bind (get_typed_id ''obligation.id'') (\<lambda>id.
     op_bind (get_enum obligation_kinds 3 ''obligation.kind'') (\<lambda>kind.
     op_bind (get_typed_id ''obligation.tenant'') (\<lambda>tenant.
     op_bind get_string (\<lambda>description.
     op_bind (get_list (2 ^ 20) 1 (get_typed_id ''obligation.rack'')) (\<lambda>protected_racks.
     op_bind get_u32 (\<lambda>required_domains.
     op_bind (get_enum domain_kinds 5 ''obligation.kind'') (\<lambda>diversity_kind.
     op_bind (get_list (2 ^ 20) 16 get_requirement) (\<lambda>requirements.
     op_bind get_bool (\<lambda>mandatory.
     op_bind get_provenance (\<lambda>provenance.
     op_return \<lparr>ob_id = id, ob_kind = kind, ob_tenant = tenant, ob_description = description,
       ob_protected_racks = protected_racks, ob_required_domains = required_domains,
       ob_diversity_kind = diversity_kind, ob_requirements = requirements,
       ob_mandatory = mandatory, ob_provenance = provenance\<rparr>))))))))))"

definition obligation_ok :: "obligation \<Rightarrow> bool" where
  "obligation_ok b \<longleftrightarrow>
     id_ok (ob_id b) \<and> id_ok (ob_tenant b) \<and> text_ok (ob_description b) \<and>
     list_ok id_ok (ob_protected_racks b) \<and> list_ok requirement_ok (ob_requirements b) \<and>
     provenance_ok (ob_provenance b)"

definition put_expectation :: "member_expectation \<Rightarrow> (unit, byte_writer) op" where
  "put_expectation e =
     op_then (put_typed_id (me_rack e))
     (op_then (put_u64 (me_generation e))
     (op_then (put_digest (me_digest e))
     (put_enum membership_states (me_membership e))))"

definition get_expectation :: "(member_expectation, byte_reader) op" where
  "get_expectation =
     op_bind (get_typed_id ''expectation.rack'') (\<lambda>rack.
     op_bind get_u64 (\<lambda>generation.
     op_bind get_digest (\<lambda>digest.
     op_bind (get_enum membership_states 4 ''expectation.membership'') (\<lambda>membership.
     op_return \<lparr>me_rack = rack, me_generation = generation, me_digest = digest,
       me_membership = membership\<rparr>))))"

definition expectation_ok :: "member_expectation \<Rightarrow> bool" where
  "expectation_ok e \<longleftrightarrow>
     id_ok (me_rack e) \<and> digest_ok (me_digest e)"

definition put_token :: "authority_token \<Rightarrow> (unit, byte_writer) op" where
  "put_token t =
     op_then (put_typed_id (at_lease t))
     (op_then (put_typed_id (at_pod t))
     (op_then (put_u64 (at_epoch t))
     (op_then (put_uuid (at_incarnation t))
     (op_then (put_enum authority_scopes (at_scope t))
     (op_then (put_typed_id (at_subject t))
     (op_then (put_i64 (at_issued_at t))
     (op_then (put_i64 (at_expires_at t))
     (op_then (put_u64 (at_fencing t))
     (put_digest (at_payload_digest t))))))))))"

definition get_token :: "(authority_token, byte_reader) op" where
  "get_token =
     op_bind (get_typed_id ''token.lease'') (\<lambda>lease.
     op_bind (get_typed_id ''token.pod'') (\<lambda>pod.
     op_bind get_u64 (\<lambda>epoch.
     op_bind get_uuid (\<lambda>incarnation.
     op_bind (get_enum authority_scopes 4 ''token.scope'') (\<lambda>scope.
     op_bind (get_typed_id ''token.subject'') (\<lambda>subject.
     op_bind get_i64 (\<lambda>issued_at.
     op_bind get_i64 (\<lambda>expires_at.
     op_bind get_u64 (\<lambda>fencing.
     op_bind get_digest (\<lambda>payload_digest.
     op_return \<lparr>at_lease = lease, at_pod = pod, at_epoch = epoch, at_incarnation = incarnation,
       at_scope = scope, at_subject = subject, at_issued_at = issued_at,
       at_expires_at = expires_at, at_fencing = fencing,
       at_payload_digest = payload_digest\<rparr>))))))))))"

definition token_ok :: "authority_token \<Rightarrow> bool" where
  "token_ok t \<longleftrightarrow>
     id_ok (at_lease t) \<and> id_ok (at_pod t) \<and> uuid_ok (at_incarnation t) \<and>
     id_ok (at_subject t) \<and> time_ok (at_issued_at t) \<and> time_ok (at_expires_at t) \<and>
     digest_ok (at_payload_digest t)"

definition put_context :: "composition_context \<Rightarrow> (unit, byte_writer) op" where
  "put_context c =
     op_then (put_u64 (cx_epoch c))
     (op_then (put_uuid (cx_incarnation c))
     (op_then (put_list put_expectation (cx_expectations c))
     (op_then (put_list put_token (cx_granted_tokens c))
     (op_then (put_list put_typed_id (cx_revoked_tokens c))
     (op_then (put_i64 (cx_now c))
     (op_then (put_bool (cx_recovered_from_store c))
     (op_then (put_i64 (cx_recovered_at c))
     (op_then (put_bool (cx_ambiguous_commit c))
     (put_enum lifecycle_states (cx_lifecycle c))))))))))"

definition get_context :: "(composition_context, byte_reader) op" where
  "get_context =
     op_bind get_u64 (\<lambda>epoch.
     op_bind get_uuid (\<lambda>incarnation.
     op_bind (get_list (2 ^ 20) 8 get_expectation) (\<lambda>expectations.
     op_bind (get_list (2 ^ 20) 16 get_token) (\<lambda>granted_tokens.
     op_bind (get_list (2 ^ 20) 1 (get_typed_id ''revoked.lease'')) (\<lambda>revoked_tokens.
     op_bind get_i64 (\<lambda>now.
     op_bind get_bool (\<lambda>recovered_from_store.
     op_bind get_i64 (\<lambda>recovered_at.
     op_bind get_bool (\<lambda>ambiguous_commit.
     op_bind (get_enum lifecycle_states 7 ''context.lifecycle'') (\<lambda>lifecycle.
     op_return \<lparr>cx_epoch = epoch, cx_incarnation = incarnation, cx_expectations = expectations,
       cx_granted_tokens = granted_tokens, cx_revoked_tokens = revoked_tokens,
       cx_now = now, cx_recovered_from_store = recovered_from_store,
       cx_recovered_at = recovered_at, cx_ambiguous_commit = ambiguous_commit,
       cx_lifecycle = lifecycle\<rparr>))))))))))"

definition context_ok :: "composition_context \<Rightarrow> bool" where
  "context_ok c \<longleftrightarrow>
     uuid_ok (cx_incarnation c) \<and> list_ok expectation_ok (cx_expectations c) \<and>
     list_ok token_ok (cx_granted_tokens c) \<and> list_ok id_ok (cx_revoked_tokens c) \<and>
     time_ok (cx_now c) \<and> time_ok (cx_recovered_at c)"

definition put_snapshot_body :: "pod_snapshot \<Rightarrow> (unit, byte_writer) op" where
  "put_snapshot_body s =
     op_then (put_typed_id (sn_pod s))
     (op_then (put_string (sn_schema s))
     (op_then (put_list put_member (sn_members s))
     (op_then (put_list put_link (sn_links s))
     (op_then (put_list put_route (sn_routes s))
     (op_then (put_list put_domain (sn_domains s))
     (op_then (put_list put_obligation (sn_obligations s))
     (op_then (put_provenance (sn_provenance s))
     (put_i64 (sn_observed_at s)))))))))"

definition get_snapshot_body :: "(pod_snapshot, byte_reader) op" where
  "get_snapshot_body =
     op_bind (get_typed_id ''pod'') (\<lambda>pod.
     op_bind get_string (\<lambda>schema.
     op_bind (get_list (2 ^ 20) 8 get_member) (\<lambda>members.
     op_bind (get_list (2 ^ 20) 16 get_link) (\<lambda>links.
     op_bind (get_list (2 ^ 20) 12 get_route) (\<lambda>routes.
     op_bind (get_list (2 ^ 20) 8 get_domain) (\<lambda>domains.
     op_bind (get_list (2 ^ 20) 12 get_obligation) (\<lambda>obligations.
     op_bind get_provenance (\<lambda>provenance.
     op_bind get_i64 (\<lambda>observed_at.
     op_return \<lparr>sn_pod = pod, sn_schema = schema, sn_members = members, sn_links = links,
       sn_routes = routes, sn_domains = domains, sn_obligations = obligations,
       sn_provenance = provenance, sn_observed_at = observed_at\<rparr>)))))))))"

definition snapshot_body_ok :: "pod_snapshot \<Rightarrow> bool" where
  "snapshot_body_ok s \<longleftrightarrow>
     id_ok (sn_pod s) \<and> text_ok (sn_schema s) \<and> list_ok member_ok (sn_members s) \<and>
     list_ok link_ok (sn_links s) \<and> list_ok route_ok (sn_routes s) \<and>
     list_ok domain_ok (sn_domains s) \<and> list_ok obligation_ok (sn_obligations s) \<and>
     provenance_ok (sn_provenance s) \<and> time_ok (sn_observed_at s)"

section \<open>Round trips\<close>

lemma codes_uuid: "uuid_ok u \<Longrightarrow> codes (put_uuid u) get_uuid u 16"
  using codes_raw[of u 16] by (simp add: put_uuid_def get_uuid_def uuid_ok_def)

lemma codes_digest: "digest_ok d \<Longrightarrow> codes (put_digest d) get_digest d 32"
  using codes_raw[of d 32] by (simp add: put_digest_def get_digest_def digest_ok_def)

lemma codes_quality: "codes (put_enum qualities q) get_quality q 1"
  unfolding get_quality_def by (rule codes_ranked) (simp_all add: wire_enums, simp add: enum_defs)

lemma codes_class: "codes (put_enum evidence_classes k) get_class k 1"
  unfolding get_class_def by (rule codes_ranked) (simp_all add: wire_enums, simp add: enum_defs)

lemma codes_ids: "list_ok id_ok xs \<Longrightarrow>
    codes (put_list put_typed_id xs) (get_list (2 ^ 20) 1 (get_typed_id what)) xs 4"
  by (rule codes_list[where P = id_ok and n = 4, OF _ codes_id]) simp_all

lemma codes_words: "list_ok (\<lambda>_. True) xs \<Longrightarrow>
    codes (put_list put_u64 xs) (get_list (2 ^ 20) 8 get_u64) xs 4"
  by (rule codes_list[where n = 8, OF _ codes_u64]) simp_all

lemma enum_lengths:
  "length membership_states = Suc (unat (4 :: byte))" "length admin_states = Suc (unat (3 :: byte))"
  "length health_states = Suc (unat (3 :: byte))" "length operational_states = Suc (unat (3 :: byte))"
  "length route_states = Suc (unat (4 :: byte))" "length domain_kinds = Suc (unat (5 :: byte))"
  "length obligation_kinds = Suc (unat (3 :: byte))" "length authority_scopes = Suc (unat (4 :: byte))"
  "length lifecycle_states = Suc (unat (7 :: byte))"
  by (simp_all add: enum_defs)

lemmas codes_enums = codes_enum[OF wire_enums(1) enum_lengths(1)]
  codes_enum[OF wire_enums(2) enum_lengths(2)] codes_enum[OF wire_enums(3) enum_lengths(3)]
  codes_enum[OF wire_enums(4) enum_lengths(4)] codes_enum[OF wire_enums(5) enum_lengths(5)]
  codes_enum[OF wire_enums(6) enum_lengths(6)] codes_enum[OF wire_enums(7) enum_lengths(7)]
  codes_enum[OF wire_enums(8) enum_lengths(8)] codes_enum[OF wire_enums(9) enum_lengths(9)]

text \<open>A record is opened into its fields; every field has a law, and the sum of the least
  extents of the fields bounds the extent of the record.\<close>

lemma codes_provenance:
  "provenance_ok p \<Longrightarrow> codes (put_provenance p) get_provenance p 18"
  by (cases p, simp only: put_provenance_def get_provenance_def provenance_ok_def provenance.simps, elim conjE)
    (rule codes_weaken, (rule codes_last codes_then codes_quality codes_class codes_id codes_u64
      codes_string, assumption?)+, simp)

lemmas wire_fields = codes_u8 codes_u16 codes_u32 codes_u64 codes_bool codes_i64 codes_string
  codes_id codes_ids codes_words codes_uuid codes_digest codes_enums codes_provenance

lemma sound_uuid: "sound get_uuid uuid_ok put_uuid"
  unfolding get_uuid_def put_uuid_def[abs_def] uuid_ok_def[abs_def] by (simp add: sound_raw)

lemma sound_digest: "sound get_digest digest_ok put_digest"
  unfolding get_digest_def put_digest_def[abs_def] digest_ok_def[abs_def] by (simp add: sound_raw)

lemma sound_quality: "sound get_quality (\<lambda>_. True) (put_enum qualities)"
  unfolding get_quality_def by (rule sound_ranked) (simp_all add: enum_defs)

lemma sound_class: "sound get_class (\<lambda>_. True) (put_enum evidence_classes)"
  unfolding get_class_def by (rule sound_ranked) (simp_all add: enum_defs)

lemma enum_distinct:
  "distinct membership_states" "distinct admin_states" "distinct health_states"
  "distinct operational_states" "distinct route_states" "distinct domain_kinds"
  "distinct obligation_kinds" "distinct authority_scopes" "distinct lifecycle_states"
  by (simp_all add: enum_defs)

lemmas sound_enums = sound_enum[OF enum_distinct(1) enum_lengths(1)]
  sound_enum[OF enum_distinct(2) enum_lengths(2)] sound_enum[OF enum_distinct(3) enum_lengths(3)]
  sound_enum[OF enum_distinct(4) enum_lengths(4)] sound_enum[OF enum_distinct(5) enum_lengths(5)]
  sound_enum[OF enum_distinct(6) enum_lengths(6)] sound_enum[OF enum_distinct(7) enum_lengths(7)]
  sound_enum[OF enum_distinct(8) enum_lengths(8)] sound_enum[OF enum_distinct(9) enum_lengths(9)]

lemma sound_provenance: "sound get_provenance provenance_ok put_provenance"
  unfolding get_provenance_def
  by (rule soundI, (rule traces_end traces_step sound_quality sound_class sound_id sound_u64 sound_string)+)
    (clarsimp simp: put_provenance_def provenance_ok_def)

lemmas sound_fields = sound_u8 sound_u16 sound_u32 sound_u64 sound_bool sound_i64 sound_string
  sound_id sound_uuid sound_digest sound_enums sound_provenance sound_list[OF sound_id]
  sound_list[OF sound_u64]

lemma codes_claim: "claim_ok c \<Longrightarrow> codes (put_claim c) get_claim c 24"
  by (cases c, simp only: put_claim_def get_claim_def claim_ok_def capacity_claim.simps, (elim conjE)?)
    (rule codes_weaken, (rule wire_fields codes_last codes_then, assumption?)+, simp)

lemma sound_claim: "sound get_claim claim_ok put_claim"
  unfolding get_claim_def
  by (rule soundI, (rule traces_end traces_step sound_fields)+)
    (clarsimp simp: put_claim_def claim_ok_def)

lemma codes_claims: "list_ok claim_ok xs \<Longrightarrow>
    codes (put_list put_claim xs) (get_list (2 ^ 20) 24 get_claim) xs 4"
  by (rule codes_list[where P = claim_ok and n = 24, OF _ codes_claim]) simp_all

lemma codes_member: "member_ok m \<Longrightarrow> codes (put_member m) get_member m 8"
  by (cases m, simp only: put_member_def get_member_def member_ok_def member_record.simps, (elim conjE)?)
    (rule codes_weaken, (rule wire_fields codes_last codes_then codes_claims, assumption?)+, simp)

lemma sound_member: "sound get_member member_ok put_member"
  unfolding get_member_def
  by (rule soundI, (rule traces_end traces_step sound_fields sound_list[OF sound_claim])+)
    (clarsimp simp: put_member_def member_ok_def)

lemma codes_members: "list_ok member_ok xs \<Longrightarrow>
    codes (put_list put_member xs) (get_list (2 ^ 20) 8 get_member) xs 4"
  by (rule codes_list[where P = member_ok and n = 8, OF _ codes_member]) simp_all

lemma codes_link: "link_ok l \<Longrightarrow> codes (put_link l) get_link l 16"
  by (cases l, cases "lk_a l", cases "lk_b l",
      simp only: put_link_def get_link_def link_ok_def link_record.simps link_endpoint.simps, (elim conjE)?)
    (rule codes_weaken, (rule wire_fields codes_last codes_then, assumption?)+, simp)

lemma sound_link: "sound get_link link_ok put_link"
  unfolding get_link_def
  by (rule soundI, (rule traces_end traces_step sound_fields)+)
    (clarsimp simp: put_link_def link_ok_def)

lemma codes_links: "list_ok link_ok xs \<Longrightarrow>
    codes (put_list put_link xs) (get_list (2 ^ 20) 16 get_link) xs 4"
  by (rule codes_list[where P = link_ok and n = 16, OF _ codes_link]) simp_all

lemma codes_route: "route_ok r \<Longrightarrow> codes (put_route r) get_route r 12"
  by (cases r, simp only: put_route_def get_route_def route_ok_def route_evidence.simps, (elim conjE)?)
    (rule codes_weaken, (rule wire_fields codes_last codes_then, assumption?)+, simp)

lemma sound_route: "sound get_route route_ok put_route"
  unfolding get_route_def
  by (rule soundI, (rule traces_end traces_step sound_fields)+)
    (clarsimp simp: put_route_def route_ok_def)

lemma codes_routes: "list_ok route_ok xs \<Longrightarrow>
    codes (put_list put_route xs) (get_list (2 ^ 20) 12 get_route) xs 4"
  by (rule codes_list[where P = route_ok and n = 12, OF _ codes_route]) simp_all

lemma codes_domain: "domain_ok d \<Longrightarrow> codes (put_domain d) get_domain d 8"
  by (cases d, simp only: put_domain_def get_domain_def domain_ok_def failure_domain_record.simps, (elim conjE)?)
    (rule codes_weaken, (rule wire_fields codes_last codes_then, assumption?)+, simp)

lemma sound_domain: "sound get_domain domain_ok put_domain"
  unfolding get_domain_def
  by (rule soundI, (rule traces_end traces_step sound_fields)+)
    (clarsimp simp: put_domain_def domain_ok_def)

lemma codes_domains: "list_ok domain_ok xs \<Longrightarrow>
    codes (put_list put_domain xs) (get_list (2 ^ 20) 8 get_domain) xs 4"
  by (rule codes_list[where P = domain_ok and n = 8, OF _ codes_domain]) simp_all

lemma codes_requirement: "requirement_ok q \<Longrightarrow> codes (put_requirement q) get_requirement q 16"
  by (cases q, simp only: put_requirement_def get_requirement_def requirement_ok_def capacity_requirement.simps, (elim conjE)?)
    (rule codes_weaken, (rule wire_fields codes_last codes_then, assumption?)+, simp)

lemma sound_requirement: "sound get_requirement requirement_ok put_requirement"
  unfolding get_requirement_def
  by (rule soundI, (rule traces_end traces_step sound_fields)+)
    (clarsimp simp: put_requirement_def requirement_ok_def)

lemma codes_requirements: "list_ok requirement_ok xs \<Longrightarrow>
    codes (put_list put_requirement xs) (get_list (2 ^ 20) 16 get_requirement) xs 4"
  by (rule codes_list[where P = requirement_ok and n = 16, OF _ codes_requirement]) simp_all

lemma codes_obligation: "obligation_ok b \<Longrightarrow> codes (put_obligation b) get_obligation b 12"
  by (cases b, simp only: put_obligation_def get_obligation_def obligation_ok_def obligation.simps, (elim conjE)?)
    (rule codes_weaken, (rule wire_fields codes_last codes_then codes_requirements, assumption?)+, simp)

lemma sound_obligation: "sound get_obligation obligation_ok put_obligation"
  unfolding get_obligation_def
  by (rule soundI, (rule traces_end traces_step sound_fields sound_list[OF sound_requirement])+)
    (clarsimp simp: put_obligation_def obligation_ok_def)

lemma codes_obligations: "list_ok obligation_ok xs \<Longrightarrow>
    codes (put_list put_obligation xs) (get_list (2 ^ 20) 12 get_obligation) xs 4"
  by (rule codes_list[where P = obligation_ok and n = 12, OF _ codes_obligation]) simp_all

lemma codes_expectation: "expectation_ok e \<Longrightarrow> codes (put_expectation e) get_expectation e 8"
  by (cases e, simp only: put_expectation_def get_expectation_def expectation_ok_def member_expectation.simps, (elim conjE)?)
    (rule codes_weaken, (rule wire_fields codes_last codes_then, assumption?)+, simp)

lemma sound_expectation: "sound get_expectation expectation_ok put_expectation"
  unfolding get_expectation_def
  by (rule soundI, (rule traces_end traces_step sound_fields)+)
    (clarsimp simp: put_expectation_def expectation_ok_def)

lemma codes_expectations: "list_ok expectation_ok xs \<Longrightarrow>
    codes (put_list put_expectation xs) (get_list (2 ^ 20) 8 get_expectation) xs 4"
  by (rule codes_list[where P = expectation_ok and n = 8, OF _ codes_expectation]) simp_all

lemma codes_token: "token_ok t \<Longrightarrow> codes (put_token t) get_token t 16"
  by (cases t, simp only: put_token_def get_token_def token_ok_def authority_token.simps, (elim conjE)?)
    (rule codes_weaken, (rule wire_fields codes_last codes_then, assumption?)+, simp)

lemma sound_token: "sound get_token token_ok put_token"
  unfolding get_token_def
  by (rule soundI, (rule traces_end traces_step sound_fields)+)
    (clarsimp simp: put_token_def token_ok_def)

lemma codes_tokens: "list_ok token_ok xs \<Longrightarrow>
    codes (put_list put_token xs) (get_list (2 ^ 20) 16 get_token) xs 4"
  by (rule codes_list[where P = token_ok and n = 16, OF _ codes_token]) simp_all

lemma codes_context: "context_ok c \<Longrightarrow> codes (put_context c) get_context c 8"
  by (cases c, simp only: put_context_def get_context_def context_ok_def composition_context.simps, (elim conjE)?)
    (rule codes_weaken, (rule wire_fields codes_last codes_then codes_expectations codes_tokens, assumption?)+, simp)

lemma sound_context: "sound get_context context_ok put_context"
  unfolding get_context_def
  by (rule soundI, (rule traces_end traces_step sound_fields sound_list[OF sound_expectation] sound_list[OF sound_token])+)
    (clarsimp simp: put_context_def context_ok_def)

lemma codes_snapshot_body: "snapshot_body_ok s \<Longrightarrow> codes (put_snapshot_body s) get_snapshot_body s 2"
  by (cases s, simp only: put_snapshot_body_def get_snapshot_body_def snapshot_body_ok_def pod_snapshot.simps, (elim conjE)?)
    (rule codes_weaken, (rule wire_fields codes_last codes_then codes_members codes_links codes_routes codes_domains codes_obligations, assumption?)+, simp)

lemma sound_snapshot_body: "sound get_snapshot_body snapshot_body_ok put_snapshot_body"
  unfolding get_snapshot_body_def
  by (rule soundI, (rule traces_end traces_step sound_fields sound_list[OF sound_member] sound_list[OF sound_link] sound_list[OF sound_route] sound_list[OF sound_domain] sound_list[OF sound_obligation])+)
    (clarsimp simp: put_snapshot_body_def snapshot_body_ok_def)

section \<open>Documents\<close>

definition binary_version :: u16 where "binary_version = 1"

definition put_snapshot :: "pod_snapshot \<Rightarrow> (unit, byte_writer) op" where
  "put_snapshot s = op_then (put_u16 binary_version) (put_snapshot_body s)"

definition get_snapshot :: "(pod_snapshot, byte_reader) op" where
  "get_snapshot =
     op_bind get_u16 (\<lambda>version.
     op_then (op_guard (version \<noteq> binary_version) Code_Unsupported
                ''snapshot encoding version is not supported'')
     get_snapshot_body)"

text \<open>A whole buffer is decoded: nothing may follow the document.\<close>

definition decode_whole :: "('a, byte_reader) op \<Rightarrow> byte list \<Rightarrow> 'a result" where
  "decode_whole g bytes =
     (case g (reader_new bytes default_limits) of
        (Inl e, _) \<Rightarrow> Inl e
      | (Inr x, r) \<Rightarrow> try_then (reader_expect_end r) (Inr x))"

definition decode_snapshot :: "byte list \<Rightarrow> pod_snapshot result" where
  "decode_snapshot = decode_whole get_snapshot"

definition decode_context :: "byte list \<Rightarrow> composition_context result" where
  "decode_context = decode_whole get_context"

text \<open>The buffer of a fresh writer after the encoding, when it succeeds.\<close>

definition encode_whole :: "('a \<Rightarrow> (unit, byte_writer) op) \<Rightarrow> 'a \<Rightarrow> byte list result" where
  "encode_whole p x =
     (case p x (writer_new (cl_max_document_bytes default_limits)) of
        (Inl e, _) \<Rightarrow> Inl e
      | (Inr _, w) \<Rightarrow> Inr (bw_buffer w))"

definition digest_of_snapshot :: "pod_snapshot \<Rightarrow> digest" where
  "digest_of_snapshot s =
     (case encode_whole put_snapshot s of
        Inl _ \<Rightarrow> replicate 32 0 | Inr bytes \<Rightarrow> digest_of_bytes bytes)"

definition digest_of_context :: "composition_context \<Rightarrow> digest" where
  "digest_of_context c =
     (case encode_whole put_context c of
        Inl _ \<Rightarrow> replicate 32 0 | Inr bytes \<Rightarrow> digest_of_bytes bytes)"

lemma codes_snapshot: "snapshot_body_ok s \<Longrightarrow> codes (put_snapshot s) get_snapshot s 4"
proof -
  assume "snapshot_body_ok s"
  then have "codes (put_snapshot_body s) (op_then (op_guard (binary_version \<noteq> binary_version) Code_Unsupported
      ''snapshot encoding version is not supported'') get_snapshot_body) s 2"
    using codes_snapshot_body by simp
  from codes_then[OF codes_u16[of binary_version], where h = "\<lambda>version. op_then (op_guard (version \<noteq> binary_version)
      Code_Unsupported ''snapshot encoding version is not supported'') get_snapshot_body", OF this]
  show ?thesis by (simp add: put_snapshot_def get_snapshot_def)
qed

lemma sound_snapshot: "sound get_snapshot snapshot_body_ok put_snapshot"
proof -
  have "traces get_snapshot_body (\<lambda>y p. snapshot_body_ok y \<and> p = put_snapshot_body y)"
    using sound_snapshot_body by (fastforce simp: traces_def sound_def)
  then show ?thesis unfolding get_snapshot_def
    by (rule soundI[OF traces_step[OF sound_u16 traces_check]]) (auto simp: put_snapshot_def)
qed

context encodable
begin

lemma whole:
  assumes "good x"
  shows "encode_whole put x = Inr bs \<Longrightarrow> decode_whole get bs = Inr x"
    "encode_whole put x = Inr bs \<Longrightarrow> length bs \<le> cl_max_document_bytes default_limits"
    "encode_whole put x = Inl e \<Longrightarrow> e = Fail Code_Exhausted overflow_message"
proof -
  let ?limit = "cl_max_document_bytes default_limits"
  have lim: "?limit < 2 ^ 64" by (simp add: default_limits_def)
  show "decode_whole get bs = Inr x" "length bs \<le> ?limit" if e: "encode_whole put x = Inr bs"
  proof -
    obtain w where w: "put x (writer_new ?limit) = (success, w)" "bs = bw_buffer w"
      using e by (auto simp: encode_whole_def split: prod.splits sum.splits)
    note d = document[OF assms w(1) lim, folded w(2)]
    show "length bs \<le> ?limit" by (rule d(2))
    show "decode_whole get bs = Inr x"
      using d(1) by (simp add: decode_whole_def reader_expect_end_def reader_at_end_def skip_def reader_new_def)
  qed
  show "e = Fail Code_Exhausted overflow_message" if e: "encode_whole put x = Inl e"
  proof -
    obtain bs where "\<forall>limit. put x (writer_new limit) =
      (if length bs \<le> limit then (success, (writer_new limit)\<lparr>bw_buffer := bs\<rparr>)
       else (fail Code_Exhausted overflow_message, snd (put x (writer_new limit))))"
      using fits_or_exhausted[OF assms] by blast
    then have "fst (put x (writer_new ?limit)) = (if length bs \<le> ?limit then success
        else fail Code_Exhausted overflow_message)" by (metis fst_conv)
    with e show ?thesis
      by (auto simp: encode_whole_def split: prod.splits sum.splits if_splits)
  qed
qed

lemma whole_inject:
  "good x \<Longrightarrow> good y \<Longrightarrow> encode_whole put x = Inr bs \<Longrightarrow> encode_whole put y = Inr bs \<Longrightarrow> x = y"
  using whole(1)[of x bs] whole(1)[of y bs] by simp

end

context codec
begin

lemma whole_canonical:
  assumes "decode_whole get bs = Inr x" "length bs \<le> cl_max_document_bytes default_limits"
  shows "good x" "encode_whole put x = Inr bs"
proof -
  obtain r where r: "get (reader_new bs default_limits) = (Inr x, r)" "reader_at_end r"
    using assms(1) by (auto simp: decode_whole_def reader_expect_end_def result_simps split: prod.splits sum.splits)
  have "length bs < 2 ^ 64" using assms(2) by (simp add: default_limits_def)
  note d = decoded[OF r(1) this r(2)]
  show "good x" by (rule d(1))
  have "writer_ok (writer_new (cl_max_document_bytes default_limits))" by (simp add: writer_ok_def writer_new_def)
  with d(2) assms(2) show "encode_whole put x = Inr bs"
    by (auto simp: emits_def encode_whole_def writer_new_def)
qed

lemma whole_truncated:
  assumes "decode_whole get (as @ bs) = Inr x" "length (as @ bs) \<le> cl_max_document_bytes default_limits"
    "decode_whole get as = Inr y"
  shows "bs = []"
proof -
  obtain r where r: "get (reader_new as default_limits) = (Inr y, r)" "reader_at_end r"
    using assms(3) by (auto simp: decode_whole_def reader_expect_end_def result_simps split: prod.splits sum.splits)
  obtain t where t: "get (reader_new (as @ bs) default_limits) = (Inr x, t)" "reader_at_end t"
    using assms(1) by (auto simp: decode_whole_def reader_expect_end_def result_simps split: prod.splits sum.splits)
  have l: "length (as @ bs) < 2 ^ 64" using assms(2) by (simp add: default_limits_def)
  note d = decoded[OF t(1) l t(2)]
  show ?thesis by (rule prefix_free[OF d(2,1) l r])
qed

end

interpretation snapshot_codec: codec put_snapshot get_snapshot snapshot_body_ok 4
  by unfold_locales (rule codes_snapshot, assumption, rule sound_snapshot)

interpretation context_codec: codec put_context get_context context_ok 8
  by unfold_locales (rule codes_context, assumption, rule sound_context)

interpretation token_codec: codec put_token get_token token_ok 16
  by unfold_locales (rule codes_token, assumption, rule sound_token)

interpretation expectation_codec: codec put_expectation get_expectation expectation_ok 8
  by unfold_locales (rule codes_expectation, assumption, rule sound_expectation)

section \<open>What the documents guarantee\<close>

text \<open>
  C17: the snapshot document. A representable snapshot either encodes to at most 16 MiB, and then
  decoding the bytes gives back exactly the snapshot, or the encoder reports exhaustion; it never
  emits bytes that decode to something else.
\<close>

theorem snapshot_roundtrip:
  assumes "snapshot_body_ok s"
  shows "case encode_whole put_snapshot s of
      Inr bs \<Rightarrow> length bs \<le> 16 * 1024 * 1024 \<and> decode_snapshot bs = Inr s
    | Inl e \<Rightarrow> e = Fail Code_Exhausted overflow_message"
  using snapshot_codec.whole[OF assms]
  by (auto simp: decode_snapshot_def default_limits_def split: sum.split)

definition sample_document :: pod_snapshot where
  "sample_document =
     \<lparr>sn_pod = ''p'', sn_schema = snapshot_schema, sn_members = [], sn_links = [], sn_routes = [],
      sn_domains = [\<lparr>fd_id = ''d'', fd_kind = Kind_Row, fd_members = [''a''],
        fd_description = ''x'', fd_provenance = provenance_default\<rparr>],
      sn_obligations = [], sn_provenance = provenance_default, sn_observed_at = - 5\<rparr>"

lemma sample_document_ok: "snapshot_body_ok sample_document"
proof -
  have "is_canonical_id ''p'' \<and> is_canonical_id ''d'' \<and> is_canonical_id ''a''" by code_simp
  moreover have "is_valid_utf8 snapshot_schema \<and> is_valid_utf8 ''x'' \<and> is_valid_utf8 []" by code_simp
  ultimately show ?thesis
    by (simp add: sample_document_def snapshot_body_ok_def domain_ok_def provenance_ok_def id_ok_def
        list_ok_def text_ok_def time_ok_def default_limits_def provenance_default_def
        snapshot_schema_def)
qed

theorem snapshot_roundtrip_witness:
  "case encode_whole put_snapshot sample_document of
      Inr bs \<Rightarrow> length bs \<le> 16 * 1024 * 1024 \<and> decode_snapshot bs = Inr sample_document
    | Inl e \<Rightarrow> e = Fail Code_Exhausted overflow_message"
  by (rule snapshot_roundtrip[OF sample_document_ok])

lemma sample_document_encodes: "\<exists>bs. encode_whole put_snapshot sample_document = Inr bs"
proof -
  have "is_valid_utf8 ''p'' \<and> is_valid_utf8 ''d'' \<and> is_valid_utf8 ''a''"
    "is_valid_utf8 ''podfabric.snapshot/1'' \<and> is_valid_utf8 ''x'' \<and> is_valid_utf8 []"
    by code_simp+
  then show ?thesis
    unfolding sample_document_def encode_whole_def snapshot_schema_def provenance_default_def
    by (simp add: put_snapshot_def put_snapshot_body_def put_list_def put_count_def
        put_typed_id_def put_id_def put_string_def put_domain_def put_provenance_def put_u8_def
        put_u16_def put_u32_def put_u64_def put_i64_def put_enum_def put_raw_def put_bytes_def
        writer_reserve_def writer_store_def op_bind_def op_return_def writer_new_def Let_def
        default_limits_def be_bytes_eq)
qed

text \<open>
  C18: the decoder is strict. Whatever bytes it accepts, the snapshot it returns is representable
  (canonical identities, bounded UTF-8 text, bounded sequences, 64-bit times) and the accepted
  bytes are exactly the encoding of that snapshot: no snapshot has a second encoding, and two
  snapshots with the same bytes are equal.
\<close>

theorem decoded_snapshot_canonical:
  assumes "decode_snapshot bs = Inr s" "length bs \<le> 16 * 1024 * 1024"
  shows "snapshot_body_ok s \<and> encode_whole put_snapshot s = Inr bs"
  using snapshot_codec.whole_canonical[of bs s] assms
  by (simp add: decode_snapshot_def default_limits_def)

lemma sample_document_bytes:
  obtains bs where "decode_snapshot bs = Inr sample_document" "length bs \<le> 16 * 1024 * 1024"
    "encode_whole put_snapshot sample_document = Inr bs" "0 < length bs"
proof -
  obtain bs where bs: "encode_whole put_snapshot sample_document = Inr bs"
    using sample_document_encodes by blast
  note w = snapshot_codec.whole(1,2)[OF sample_document_ok bs]
  have "decode_snapshot [] = fail Code_Incomplete ''truncated document: expected two bytes''"
    by (simp add: decode_snapshot_def decode_whole_def get_snapshot_def get_u16_def op_bind_def
        reader_take_def reader_remaining_def reader_new_def)
  then have "bs \<noteq> []" using w(1) by (auto simp: decode_snapshot_def)
  with w bs show thesis by (intro that[of bs]) (auto simp: decode_snapshot_def default_limits_def)
qed

theorem decoded_snapshot_canonical_witness:
  "\<exists>bs. decode_snapshot bs = Inr sample_document \<and> snapshot_body_ok sample_document \<and>
     encode_whole put_snapshot sample_document = Inr bs"
proof -
  obtain bs where "decode_snapshot bs = Inr sample_document" "length bs \<le> 16 * 1024 * 1024"
    by (rule sample_document_bytes)
  with decoded_snapshot_canonical[OF this] show ?thesis by blast
qed

text \<open>
  Truncation is detected. No proper prefix of an accepted snapshot document is accepted: the
  decoder answers it with an error.
\<close>

theorem truncated_snapshot_rejected:
  assumes "decode_snapshot bs = Inr s" "length bs \<le> 16 * 1024 * 1024" "n < length bs"
  shows "\<exists>e. decode_snapshot (take n bs) = Inl e"
proof (cases "decode_snapshot (take n bs)")
  case (Inr t)
  have "drop n bs = []"
    using snapshot_codec.whole_truncated[of "take n bs" "drop n bs" s t] assms Inr
    by (simp add: decode_snapshot_def default_limits_def)
  with assms(3) show ?thesis by simp
qed blast

theorem truncated_snapshot_rejected_witness:
  "\<exists>bs e. decode_snapshot bs = Inr sample_document \<and> decode_snapshot (take 0 bs) = Inl e"
proof -
  obtain bs where "decode_snapshot bs = Inr sample_document" "length bs \<le> 16 * 1024 * 1024"
    "0 < length bs"
    by (rule sample_document_bytes)
  with truncated_snapshot_rejected[OF this] show ?thesis by blast
qed

text \<open>
  The context document. A representable composition context (the durable identity of a
  pod, its expectations and its tokens) either encodes to at most 16 MiB that decode to exactly
  the context, or the encoder reports exhaustion.
\<close>

theorem context_roundtrip:
  assumes "context_ok c"
  shows "case encode_whole put_context c of
      Inr bs \<Rightarrow> length bs \<le> 16 * 1024 * 1024 \<and> decode_context bs = Inr c
    | Inl e \<Rightarrow> e = Fail Code_Exhausted overflow_message"
  using context_codec.whole[OF assms]
  by (auto simp: decode_context_def default_limits_def split: sum.split)

definition sample_document_context :: composition_context where
  "sample_document_context =
     \<lparr>cx_epoch = 3, cx_incarnation = replicate 16 1,
      cx_expectations = [\<lparr>me_rack = ''a'', me_generation = 2, me_digest = replicate 32 9,
        me_membership = Membership_Joining\<rparr>],
      cx_granted_tokens = [], cx_revoked_tokens = [''l''], cx_now = 7,
      cx_recovered_from_store = True, cx_recovered_at = 6, cx_ambiguous_commit = False,
      cx_lifecycle = Life_Active\<rparr>"

theorem context_roundtrip_witness:
  "case encode_whole put_context sample_document_context of
      Inr bs \<Rightarrow> length bs \<le> 16 * 1024 * 1024 \<and> decode_context bs = Inr sample_document_context
    | Inl e \<Rightarrow> e = Fail Code_Exhausted overflow_message"
proof (rule context_roundtrip)
  have "is_canonical_id ''a'' \<and> is_canonical_id ''l''" by code_simp
  then show "context_ok sample_document_context"
    by (simp add: sample_document_context_def context_ok_def uuid_ok_def list_ok_def
        expectation_ok_def id_ok_def digest_ok_def time_ok_def)
qed

end
