(* ===== verification/Durable.thy ===== *)
theory Durable
  imports Documents "HOL-Library.Multiset"
begin

text \<open>
  The durable state of a controller: \<open>persist/durable_state.hpp\<close>, \<open>persist/durable_state.cpp\<close>.
  The record that survives a restart, its binary encoding, and a decoder that also puts the member
  expectations in order and refuses a document that repeats a rack.
\<close>

section \<open>The record\<close>

definition durable_state_version :: u16 where "durable_state_version = 1"

record durable_state =
  ds_version :: u16
  ds_pod :: ident
  ds_epoch :: sequence
  ds_writer :: uuid
  ds_lifecycle :: lifecycle_state
  ds_expectations :: "member_expectation list"
  ds_tokens :: "authority_token list"
  ds_revoked :: "ident list"
  ds_admin :: "(ident \<times> admin_state) list"
  ds_fencing :: sequence
  ds_last_state_digest :: digest
  ds_sequence :: u64
  ds_written_at :: nanos

definition durable_default :: durable_state where
  "durable_default =
     \<lparr>ds_version = durable_state_version, ds_pod = [], ds_epoch = 0, ds_writer = replicate 16 0,
      ds_lifecycle = Life_Constructing, ds_expectations = [], ds_tokens = [], ds_revoked = [],
      ds_admin = [], ds_fencing = 0, ds_last_state_digest = replicate 32 0, ds_sequence = 0,
      ds_written_at = 0\<rparr>"

section \<open>Encoding\<close>

definition put_admin :: "ident \<times> admin_state \<Rightarrow> (unit, byte_writer) op" where
  "put_admin e = op_then (put_typed_id (fst e)) (put_enum admin_states (snd e))"

definition get_admin :: "(ident \<times> admin_state, byte_reader) op" where
  "get_admin =
     op_bind (get_typed_id ''durable.admin.rack'') (\<lambda>rack.
     op_bind (op_bind get_u8 (\<lambda>mode.
       op_then (op_guard (mode > 3) Code_Invalid ''durable state has an out-of-range admin mode'')
       (op_return (admin_states ! unat mode)))) (\<lambda>mode.
     op_return (rack, mode)))"

text \<open>The body follows the revision; \<open>version\<close> is the one that was read.\<close>

definition put_durable_body :: "durable_state \<Rightarrow> (unit, byte_writer) op" where
  "put_durable_body s =
     op_then (put_typed_id (ds_pod s))
     (op_then (put_u64 (ds_epoch s))
     (op_then (put_uuid (ds_writer s))
     (op_then (put_enum lifecycle_states (ds_lifecycle s))
     (op_then (put_list put_expectation (ds_expectations s))
     (op_then (put_list put_token (ds_tokens s))
     (op_then (put_list put_typed_id (ds_revoked s))
     (op_then (put_list put_admin (ds_admin s))
     (op_then (put_u64 (ds_fencing s))
     (op_then (put_digest (ds_last_state_digest s))
     (op_then (put_u64 (ds_sequence s))
     (put_i64 (ds_written_at s))))))))))))"

definition get_durable_body :: "u16 \<Rightarrow> (durable_state, byte_reader) op" where
  "get_durable_body version =
     op_bind (get_typed_id ''durable.pod'') (\<lambda>pod.
     op_bind get_u64 (\<lambda>epoch.
     op_bind get_uuid (\<lambda>writer.
     op_bind (op_bind get_u8 (\<lambda>lifecycle.
       op_then (op_guard (lifecycle > 7) Code_Invalid ''durable state has an out-of-range lifecycle'')
       (op_return (lifecycle_states ! unat lifecycle)))) (\<lambda>lifecycle.
     op_bind (get_list (2 ^ 20) 8 get_expectation) (\<lambda>expectations.
     op_bind (get_list (2 ^ 20) 16 get_token) (\<lambda>tokens.
     op_bind (get_list (2 ^ 20) 1 (get_typed_id ''durable.revoked'')) (\<lambda>revoked.
     op_bind (get_list (2 ^ 20) 2 get_admin) (\<lambda>admin.
     op_bind get_u64 (\<lambda>fencing.
     op_bind get_digest (\<lambda>last_state_digest.
     op_bind get_u64 (\<lambda>sequence.
     op_bind get_i64 (\<lambda>written_at.
     op_return \<lparr>ds_version = version, ds_pod = pod, ds_epoch = epoch, ds_writer = writer,
       ds_lifecycle = lifecycle, ds_expectations = expectations, ds_tokens = tokens,
       ds_revoked = revoked, ds_admin = admin, ds_fencing = fencing,
       ds_last_state_digest = last_state_digest, ds_sequence = sequence,
       ds_written_at = written_at\<rparr>))))))))))))"

definition put_durable :: "durable_state \<Rightarrow> (unit, byte_writer) op" where
  "put_durable s = op_then (put_u16 (ds_version s)) (put_durable_body s)"

definition get_durable :: "(durable_state, byte_reader) op" where
  "get_durable =
     op_bind get_u16 (\<lambda>version.
     op_then (op_guard (version \<noteq> durable_state_version) Code_Unsupported
       ''durable state revision is not supported'')
     (get_durable_body version))"

definition encode_durable :: "durable_state \<Rightarrow> byte list result" where
  "encode_durable = encode_whole put_durable"

text \<open>The order of \<open>MemberExpectation\<close> is the one of its fields.\<close>

definition expectation_key :: "member_expectation \<Rightarrow> ident \<times> sequence \<times> digest \<times> byte" where
  "expectation_key e =
     (me_rack e, me_generation e, me_digest e, enum_byte membership_states (me_membership e))"

fun adjacent_repeat :: "member_expectation list \<Rightarrow> bool" where
  "adjacent_repeat (a # b # es) \<longleftrightarrow> me_rack a = me_rack b \<or> adjacent_repeat (b # es)"
| "adjacent_repeat es \<longleftrightarrow> False"

definition settle_durable :: "durable_state \<Rightarrow> durable_state result" where
  "settle_durable s =
     (let sorted = sort_key expectation_key (ds_expectations s)
      in try_then (reject_if (adjacent_repeat sorted) Code_Invalid
           ''durable state repeats a member expectation'')
         (Inr (s\<lparr>ds_expectations := sorted\<rparr>)))"

definition decode_durable :: "byte list \<Rightarrow> durable_state result" where
  "decode_durable bytes = try_bind (decode_whole get_durable bytes) settle_durable"

definition digest_of_durable :: "durable_state \<Rightarrow> digest" where
  "digest_of_durable s =
     (case encode_durable s of Inl _ \<Rightarrow> replicate 32 0 | Inr bytes \<Rightarrow> digest_of_bytes bytes)"

section \<open>Laws\<close>

definition admin_ok :: "ident \<times> admin_state \<Rightarrow> bool" where
  "admin_ok e \<longleftrightarrow> id_ok (fst e)"

text \<open>What the writer can represent, and the states a controller stores: expectations in order,
  one per rack.\<close>

definition durable_body_ok :: "durable_state \<Rightarrow> bool" where
  "durable_body_ok s \<longleftrightarrow>
     id_ok (ds_pod s) \<and> uuid_ok (ds_writer s) \<and> list_ok expectation_ok (ds_expectations s) \<and>
     list_ok token_ok (ds_tokens s) \<and> list_ok id_ok (ds_revoked s) \<and>
     list_ok admin_ok (ds_admin s) \<and> digest_ok (ds_last_state_digest s) \<and> time_ok (ds_written_at s)"

definition durable_rep :: "durable_state \<Rightarrow> bool" where
  "durable_rep s \<longleftrightarrow> ds_version s = durable_state_version \<and> durable_body_ok s"

definition durable_settled :: "durable_state \<Rightarrow> bool" where
  "durable_settled s \<longleftrightarrow> sorted_wrt (\<lambda>a b. me_rack a < me_rack b) (ds_expectations s)"

definition durable_ok :: "durable_state \<Rightarrow> bool" where
  "durable_ok s \<longleftrightarrow> durable_rep s \<and> durable_settled s"

lemma codes_mode: "codes (put_enum admin_states a) (op_bind get_u8 (\<lambda>mode.
    op_then (op_guard (mode > 3) k m) (op_return (admin_states ! unat mode)))) a 1"
  by (rule codes_ranked[OF wire_enums(2) enum_lengths(2)])

lemma codes_lifecycle: "codes (put_enum lifecycle_states l) (op_bind get_u8 (\<lambda>mode.
    op_then (op_guard (mode > 7) k m) (op_return (lifecycle_states ! unat mode)))) l 1"
  by (rule codes_ranked[OF wire_enums(9) enum_lengths(9)])

lemma codes_admin: "admin_ok e \<Longrightarrow> codes (put_admin e) get_admin e 2"
  by (cases e, simp only: put_admin_def get_admin_def admin_ok_def fst_conv snd_conv)
    (rule codes_weaken, (rule wire_fields codes_mode codes_last codes_then, assumption?)+, simp)

lemma sound_mode: "sound (op_bind get_u8 (\<lambda>mode.
    op_then (op_guard (mode > 3) k m) (op_return (admin_states ! unat mode)))) (\<lambda>_. True) (put_enum admin_states)"
  by (rule sound_ranked[OF enum_distinct(2) enum_lengths(2)])

lemma sound_lifecycle: "sound (op_bind get_u8 (\<lambda>mode.
    op_then (op_guard (mode > 7) k m) (op_return (lifecycle_states ! unat mode)))) (\<lambda>_. True) (put_enum lifecycle_states)"
  by (rule sound_ranked[OF enum_distinct(9) enum_lengths(9)])

lemma sound_admin: "sound get_admin admin_ok put_admin"
  unfolding get_admin_def
  by (rule soundI, (rule traces_end traces_step sound_fields sound_mode)+)
    (clarsimp simp: put_admin_def admin_ok_def)

lemma codes_admins: "list_ok admin_ok xs \<Longrightarrow>
    codes (put_list put_admin xs) (get_list (2 ^ 20) 2 get_admin) xs 4"
  by (rule codes_list[where P = admin_ok and n = 2, OF _ codes_admin]) simp_all

lemma codes_durable_body:
  "durable_body_ok s \<Longrightarrow> codes (put_durable_body s) (get_durable_body (ds_version s)) s 8"
  by (cases s, simp only: put_durable_body_def get_durable_body_def durable_body_ok_def durable_state.simps, (elim conjE)?)
    (rule codes_weaken, (rule wire_fields codes_lifecycle codes_last codes_then codes_expectations
      codes_tokens codes_admins, assumption?)+, simp)

lemma sound_durable_body: "sound (get_durable_body v) (\<lambda>s. ds_version s = v \<and> durable_body_ok s) put_durable_body"
  unfolding get_durable_body_def
  by (rule soundI, (rule traces_end traces_step sound_fields sound_lifecycle sound_list[OF sound_expectation]
        sound_list[OF sound_token] sound_list[OF sound_admin])+)
    (clarsimp simp: put_durable_body_def durable_body_ok_def)

lemma codes_durable: "durable_rep s \<Longrightarrow> codes (put_durable s) get_durable s 8"
proof -
  assume s: "durable_rep s"
  let ?h = "\<lambda>version. op_then (op_guard (version \<noteq> durable_state_version) Code_Unsupported
    ''durable state revision is not supported'') (get_durable_body version)"
  have "codes (put_durable_body s) (?h (ds_version s)) s 8"
    using codes_durable_body[of s] s by (simp add: durable_rep_def)
  from codes_then[where h = ?h, OF codes_u16 this] have "codes (put_durable s) get_durable s (2 + 8)"
    by (simp add: put_durable_def get_durable_def)
  then show ?thesis by (rule codes_weaken) simp
qed

lemma sound_durable: "sound get_durable durable_rep put_durable"
proof -
  have "traces (get_durable_body v) (\<lambda>y p. ds_version y = v \<and> durable_body_ok y \<and> p = put_durable_body y)" for v
    using sound_durable_body[of v] by (fastforce simp: traces_def sound_def)
  then show ?thesis unfolding get_durable_def
    by (rule soundI[OF traces_step[OF sound_u16 traces_check]]) (auto simp: put_durable_def durable_rep_def)
qed

interpretation durable_codec: codec put_durable get_durable durable_rep 8
  by unfold_locales (rule codes_durable, assumption, rule sound_durable)

section \<open>Settling\<close>

lemma enum_byte_inject: "m \<in> set es \<Longrightarrow> n \<in> set es \<Longrightarrow> length es \<le> 256 \<Longrightarrow>
    enum_byte es m = enum_byte es n \<Longrightarrow> m = n"
proof -
  assume a: "m \<in> set es" "n \<in> set es" "length es \<le> 256" "enum_byte es m = enum_byte es n"
  have k: "length (takeWhile (\<lambda>e. e \<noteq> v) es) < length es" "es ! length (takeWhile (\<lambda>e. e \<noteq> v) es) = v"
    if "v \<in> set es" for v
    using that by (induction es) auto
  have u: "unat (enum_byte es v) = length (takeWhile (\<lambda>e. e \<noteq> v) es)" if "v \<in> set es" for v
    using k(1)[OF that] a(3) by (simp add: enum_byte_def unat_of_nat take_bit_nat_eq_self)
  show "m = n" using k(2)[OF a(1)] k(2)[OF a(2)] u[OF a(1)] u[OF a(2)] a(4) by simp
qed

lemma expectation_key_inject: "expectation_key a = expectation_key b \<Longrightarrow> a = b"
proof -
  assume e: "expectation_key a = expectation_key b"
  then have "me_membership a = me_membership b"
    by (intro enum_byte_inject[OF wire_enums(1) wire_enums(1)]) (simp_all add: expectation_key_def membership_states_def)
  with e show "a = b" by (cases a; cases b) (simp add: expectation_key_def)
qed

lemma rack_sorted_key: "me_rack a < me_rack b \<Longrightarrow> expectation_key a \<le> expectation_key b"
  by (simp add: expectation_key_def)

lemma settled_sorted:
  assumes "sorted_wrt (\<lambda>a b. me_rack a < me_rack b) es"
  shows "sort_key expectation_key es = es" "\<not> adjacent_repeat es"
proof -
  have "sorted_wrt (\<lambda>a b. expectation_key a \<le> expectation_key b) es"
    using assms by (rule sorted_wrt_mono_rel[rotated]) (simp add: rack_sorted_key)
  then show "sort_key expectation_key es = es" by (intro sort_key_id_if_sorted) (simp add: sorted_wrt_map)
  show "\<not> adjacent_repeat es" using assms by (induction es rule: adjacent_repeat.induct) auto
qed

lemma sorted_settled:
  assumes "sorted (map expectation_key es)" "\<not> adjacent_repeat es"
  shows "sorted_wrt (\<lambda>a b. me_rack a < me_rack b) es"
proof -
  have "\<forall>i. Suc i < length es \<longrightarrow> me_rack (es ! i) < me_rack (es ! Suc i)"
    using assms
  proof (induction es rule: adjacent_repeat.induct)
    case (1 a b es)
    have "me_rack a < me_rack b" using 1(2,3) by (auto simp: expectation_key_def)
    with 1 show ?case by (auto simp: nth_Cons split: nat.splits)
  qed auto
  then show ?thesis
    by (intro sorted_wrt_iff_nth_Suc_transp[THEN iffD2]) (auto intro: transpI)
qed

lemma settle_durable_Inr:
  "settle_durable s = Inr t \<longleftrightarrow> t = s\<lparr>ds_expectations := sort_key expectation_key (ds_expectations s)\<rparr> \<and>
     durable_settled t"
  using settled_sorted(2)[of "sort_key expectation_key (ds_expectations s)"]
    sorted_settled[of "sort_key expectation_key (ds_expectations s)"]
  by (auto simp: settle_durable_def Let_def result_simps durable_settled_def)

lemma settle_durable_settled: "durable_settled s \<Longrightarrow> settle_durable s = Inr s"
  by (simp add: settle_durable_Inr settled_sorted(1)[unfolded durable_settled_def[symmetric]] durable_settled_def)

lemma durable_roundtrip_whole:
  "durable_ok s \<Longrightarrow> encode_durable s = Inr bs \<Longrightarrow> length bs \<le> 16777216 \<and> decode_durable bs = Inr s"
  using durable_codec.whole(1,2)[of s bs]
  by (auto simp: encode_durable_def decode_durable_def durable_ok_def settle_durable_settled default_limits_def)

lemma durable_encode_error:
  "durable_ok s \<Longrightarrow> encode_durable s = Inl e \<Longrightarrow> e = Fail Code_Exhausted overflow_message"
  using durable_codec.whole(3)[of s e] by (simp add: encode_durable_def durable_ok_def)

text \<open>
  C27: the durable state survives its encoding. A representable state whose expectations are in order,
  one per rack, either encodes to at most 16 MiB that decode to exactly that state, or the
  encoder reports exhaustion.
\<close>

theorem durable_roundtrip:
  assumes "durable_ok s"
  shows "case encode_durable s of
      Inr bs \<Rightarrow> length bs \<le> 16777216 \<and> decode_durable bs = Inr s
    | Inl e \<Rightarrow> e = Fail Code_Exhausted overflow_message"
  using durable_roundtrip_whole[OF assms] durable_encode_error[OF assms] by (auto split: sum.split)

definition sample_durable :: durable_state where
  "sample_durable = durable_default
     \<lparr>ds_pod := ''pod-a'', ds_epoch := 7, ds_lifecycle := Life_Active, ds_admin := [(''b'', Admin_Maintenance)],
      ds_expectations := [\<lparr>me_rack = ''a'', me_generation = 2, me_digest = replicate 32 9,
        me_membership = Membership_Established\<rparr>], ds_sequence := 4\<rparr>"

lemma sample_durable_ok: "durable_ok sample_durable"
  by (simp add: sample_durable_def durable_default_def durable_ok_def durable_rep_def durable_body_ok_def
      durable_settled_def id_ok_def uuid_ok_def digest_ok_def list_ok_def expectation_ok_def admin_ok_def
      time_ok_def) code_simp

lemma sample_durable_encodes: "\<exists>bs. encode_durable sample_durable = Inr bs"
proof -
  have "is_valid_utf8 ''pod-a'' \<and> is_valid_utf8 ''b'' \<and> is_valid_utf8 ''a''" by code_simp
  then show ?thesis
    unfolding sample_durable_def encode_durable_def encode_whole_def durable_default_def
    by (simp add: put_durable_def put_durable_body_def put_list_def put_count_def
        put_typed_id_def put_id_def put_string_def put_expectation_def put_admin_def put_u8_def
        put_u16_def put_u32_def put_u64_def put_i64_def put_enum_def put_raw_def put_bytes_def
        put_uuid_def put_digest_def writer_reserve_def writer_store_def op_bind_def op_return_def
        writer_new_def Let_def default_limits_def be_bytes_eq)
qed

theorem durable_roundtrip_witness:
  "case encode_durable sample_durable of
      Inr bs \<Rightarrow> length bs \<le> 16777216 \<and> decode_durable bs = Inr sample_durable
    | Inl e \<Rightarrow> e = Fail Code_Exhausted overflow_message"
  by (rule durable_roundtrip[OF sample_durable_ok])

text \<open>
  The decoder of durable states. Whatever it accepts is a representable state whose
  expectations are in strict order of their racks, and the bytes are the encoding of that state
  up to the order of the expectations.
\<close>

theorem durable_decoder_settles:
  assumes "decode_durable bs = Inr s" "length bs \<le> 16777216"
  shows "durable_ok s \<and>
    (\<exists>es. mset es = mset (ds_expectations s) \<and> encode_durable (s\<lparr>ds_expectations := es\<rparr>) = Inr bs)"
proof -
  obtain t where t: "decode_whole get_durable bs = Inr t" "settle_durable t = Inr s"
    using assms(1) by (auto simp: decode_durable_def result_simps)
  have l: "length bs \<le> cl_max_document_bytes default_limits" using assms(2) by (simp add: default_limits_def)
  note w = durable_codec.whole_canonical[OF t(1) l]
  have s: "s = t\<lparr>ds_expectations := sort_key expectation_key (ds_expectations t)\<rparr>" "durable_settled s"
    using settle_durable_Inr[THEN iffD1, OF t(2)] by blast+
  have "durable_rep s" using w(1) by (simp add: s(1) durable_rep_def durable_body_ok_def list_ok_def list_all_iff)
  moreover have "s\<lparr>ds_expectations := ds_expectations t\<rparr> = t" by (simp add: s(1))
  moreover have "mset (ds_expectations t) = mset (ds_expectations s)" by (simp add: s(1))
  ultimately show ?thesis
    using w(2) s(2) unfolding encode_durable_def durable_ok_def
    by (intro conjI exI[of _ "ds_expectations t"]) simp_all
qed

theorem durable_decoder_settles_witness:
  "\<exists>bs. encode_durable sample_durable = Inr bs \<and> decode_durable bs = Inr sample_durable \<and>
     length bs \<le> 16777216 \<and> durable_ok sample_durable"
proof -
  obtain bs where bs: "encode_durable sample_durable = Inr bs" using sample_durable_encodes by blast
  have "length bs \<le> 16777216 \<and> decode_durable bs = Inr sample_durable"
    using durable_roundtrip_whole[OF sample_durable_ok bs] .
  with bs durable_decoder_settles[of bs sample_durable] show ?thesis by blast
qed

end
