(* ===== verification/Checksum.thy ===== *)
theory Checksum
  imports Digest
begin

text \<open>
  CRC-32C of \<open>core/digest.cpp\<close>: the table step is eight steps of the bit-serial register, the
  register never forgets a difference, and four bytes fit in it, so every error burst of up to
  four bytes changes the checksum.
\<close>

section \<open>One bit, one byte\<close>

lemma xor_cancel [simp]: "xor x y = xor z y \<longleftrightarrow> x = z" "xor y x = xor y z \<longleftrightarrow> x = z" for x y z :: u32
proof -
  have "x = z" if "xor x y = xor z y"
    using arg_cong[OF that, of "\<lambda>w. xor w y"] by (simp add: xor.assoc)
  then show "xor x y = xor z y \<longleftrightarrow> x = z" by blast
  then show "xor y x = xor y z \<longleftrightarrow> x = z" by (simp add: xor.commute)
qed

definition crc_poly :: u32 where "crc_poly = 0x82F63B78"

lemma crc_bit_eq: "crc_bit x = xor (drop_bit 1 x) (if odd x then crc_poly else 0)"
  by (simp add: crc_bit_def crc_poly_def and_one_eq odd_iff_mod_2_eq_one)

lemma crc_bit_xor: "crc_bit (xor x y) = xor (crc_bit x) (crc_bit y)"
proof -
  have "odd (xor x y) \<longleftrightarrow> (odd x \<noteq> odd y)"
    using bit_xor_iff[of x y 0] by (simp add: bit_0)
  then show ?thesis
    by (simp add: crc_bit_eq drop_bit_xor ac_simps xor.left_commute)
qed

lemma crc_poly_top: "bit crc_poly 31"
  by (simp add: crc_poly_def)

lemma crc_bit_zero: "crc_bit x = 0 \<longleftrightarrow> x = 0"
proof
  assume z: "crc_bit x = 0"
  have "\<not> odd x"
  proof
    assume "odd x"
    then have "bit (crc_bit x) 31"
      by (auto simp: crc_bit_eq bit_xor_iff crc_poly_top bit_drop_bit_eq dest: bit_imp_le_length)
    with z show False by simp
  qed
  moreover have "drop_bit 1 x = 0" using z \<open>\<not> odd x\<close> by (simp add: crc_bit_eq)
  ultimately show "x = 0"
  proof (intro bit_word_eqI)
    fix n
    have "bit x (Suc m) \<longleftrightarrow> bit (drop_bit 1 x) m" for m by (simp add: bit_drop_bit_eq)
    with \<open>\<not> odd x\<close> \<open>drop_bit 1 x = 0\<close> show "bit x n = bit (0 :: u32) n"
      by (cases n) (simp_all add: bit_0 del: drop_bit_Suc)
  qed
qed (simp add: crc_bit_def)

lemma crc_bit_inj: "crc_bit x = crc_bit y \<Longrightarrow> x = y"
proof -
  assume "crc_bit x = crc_bit y"
  then have "xor x y = xor y y" using crc_bit_xor[of x y] crc_bit_zero[of "xor x y"] by simp
  then show "x = y" by (simp only: xor_cancel)
qed

definition crc_shift :: "nat \<Rightarrow> u32 \<Rightarrow> u32" where
  "crc_shift n x = (crc_bit ^^ n) x"

lemma crc_shift_xor: "crc_shift n (xor x y) = xor (crc_shift n x) (crc_shift n y)"
  unfolding crc_shift_def by (induction n) (simp_all add: crc_bit_xor)

lemma crc_shift_inj: "crc_shift n x = crc_shift n y \<Longrightarrow> x = y"
  unfolding crc_shift_def by (induction n) (auto dest: crc_bit_inj)

lemma crc_shift_high: "take_bit n x = 0 \<Longrightarrow> crc_shift n x = drop_bit n x"
proof (induction n arbitrary: x)
  case (Suc n)
  have "even x" using Suc.prems by (metis bit_0 bit_take_bit_iff bit_0_eq zero_less_Suc bot_apply bot_bool_def)
  then have e: "crc_bit x = drop_bit 1 x" by (simp add: crc_bit_eq)
  have "take_bit n (drop_bit 1 x) = drop_bit 1 (take_bit (Suc n) x)" by (simp add: drop_bit_take_bit)
  then have "take_bit n (drop_bit 1 x) = 0" using Suc.prems by simp
  then show ?case using Suc.IH[of "drop_bit 1 x"] e by (simp add: crc_shift_def funpow_swap1 del: drop_bit_Suc)
qed (simp add: crc_shift_def)

text \<open>The table step is eight steps of the bitwise register.\<close>

lemma crc_byte: "crc_update_byte b s = crc_shift 8 (xor s (ucast b))"
proof -
  let ?x = "xor s (ucast b)" and ?y = "xor (xor s (ucast b)) (take_bit 8 (xor s (ucast b)))"
  have ff: "and ?x 0xFF = take_bit 8 ?x"
    by (simp add: take_bit_eq_mask mask_eq_exp_minus_1)
  have i: "unat (take_bit 8 ?x) < 256"
    using take_bit_nat_less_exp[of 8 "unat ?x"] unfolding unsigned_take_bit_eq by simp
  have "crc_update_byte b s = xor (crc_shift 8 (take_bit 8 ?x)) (drop_bit 8 s)"
    using i by (simp add: crc_update_byte_def crc32c_table_def crc_shift_def ff)
  moreover have "take_bit 8 ?y = 0" by (simp add: take_bit_xor)
  then have "crc_shift 8 ?y = drop_bit 8 ?y" by (rule crc_shift_high)
  moreover have "drop_bit 8 ?y = drop_bit 8 s"
    by (intro bit_word_eqI) (auto simp: bit_simps dest: bit_imp_le_length)
  moreover have "?x = xor (take_bit 8 ?x) ?y"
    by (simp add: ac_simps xor.left_commute)
  ultimately show ?thesis by (metis crc_shift_xor)
qed

lemma crc_update_simps [simp]:
  "crc_update [] s = s" "crc_update (b # bs) s = crc_update bs (crc_shift 8 (xor s (ucast b)))"
  "crc_update (as @ bs) s = crc_update bs (crc_update as s)"
  by (simp_all add: crc_update_def crc_byte)

lemma crc_update_inj: "crc_update bs s = crc_update bs t \<Longrightarrow> s = t"
proof (induction bs arbitrary: s t)
  case (Cons b bs)
  then have "crc_shift 8 (xor s (ucast b)) = crc_shift 8 (xor t (ucast b))"
    unfolding crc_update_simps by blast
  from crc_shift_inj[OF this] show ?case by simp
qed simp

text \<open>At most four bytes shift into the register without losing a bit.\<close>

fun little :: "byte list \<Rightarrow> u32" where
  "little [] = 0"
| "little (b # bs) = xor (ucast b) (push_bit 8 (little bs))"

lemma little_small: "bit (little bs) n \<Longrightarrow> n < 8 * length bs"
proof (induction bs arbitrary: n)
  case (Cons b bs)
  have "n < 8" if "bit (ucast b :: u32) n"
    using that by (auto simp: bit_simps dest: bit_imp_le_length)
  moreover have "n - 8 < 8 * length bs" if "bit (push_bit 8 (little bs)) n"
    using that Cons.IH by (auto simp: bit_simps)
  ultimately show ?case using Cons.prems by (auto simp: bit_xor_iff)
qed simp

lemma crc_shift_add: "crc_shift m (crc_shift n x) = crc_shift (m + n) x"
  by (simp add: crc_shift_def funpow_add)

lemma crc_update_little:
  "length bs \<le> 4 \<Longrightarrow> crc_update bs s = crc_shift (8 * length bs) (xor s (little bs))"
proof (induction bs arbitrary: s)
  case (Cons b bs)
  have "take_bit 8 (push_bit 8 (little bs)) = 0" by (simp add: take_bit_push_bit)
  then have "crc_shift 8 (push_bit 8 (little bs)) = drop_bit 8 (push_bit 8 (little bs))"
    by (rule crc_shift_high)
  moreover have "drop_bit 8 (push_bit 8 (little bs)) = little bs"
  proof (intro bit_word_eqI)
    fix n
    have "bit (little bs) n \<Longrightarrow> n + 8 < 32" using Cons.prems little_small[of bs n] by auto
    then show "bit (drop_bit 8 (push_bit 8 (little bs))) n = bit (little bs) n" by (auto simp: bit_simps)
  qed
  ultimately have l: "little bs = crc_shift 8 (push_bit 8 (little bs))" by simp
  have "crc_update (b # bs) s =
      crc_shift (8 * length bs) (xor (crc_shift 8 (xor s (ucast b))) (little bs))"
    using Cons by simp
  also have "\<dots> = crc_shift (8 * length bs) (crc_shift 8 (xor (xor s (ucast b)) (push_bit 8 (little bs))))"
    by (subst l) (simp only: crc_shift_xor)
  finally show ?case by (simp add: crc_shift_add xor.assoc add.commute)
qed (simp add: crc_shift_def)

lemma little_inj: "length as = length bs \<Longrightarrow> length bs \<le> 4 \<Longrightarrow> little as = little bs \<Longrightarrow> as = bs"
proof (induction as bs rule: list_induct2)
  case (Cons a as b bs)
  have low: "ucast (little (c # cs)) = c" for c :: byte and cs
    by (intro bit_word_eqI) (auto simp: bit_simps)
  have high: "drop_bit 8 (little (c # cs)) = little cs" if "length cs \<le> 3" for c cs
  proof (intro bit_word_eqI)
    fix n
    have "bit (little cs) n \<Longrightarrow> n + 8 < 32" using that little_small[of cs n] by auto
    then show "bit (drop_bit 8 (little (c # cs))) n = bit (little cs) n"
      by (auto simp: bit_simps dest: bit_imp_le_length)
  qed
  have "a = b" using Cons.prems(2) low by metis
  moreover have "little as = little bs" using Cons.prems high[of as a] high[of bs b] Cons.hyps by simp
  ultimately show ?case using Cons by simp
qed simp

lemma crc_burst:
  assumes "length as = length bs" "length bs \<le> 4" "as \<noteq> bs"
  shows "crc_update (pre @ as @ post) s \<noteq> crc_update (pre @ bs @ post) s"
proof
  assume "crc_update (pre @ as @ post) s = crc_update (pre @ bs @ post) s"
  then have "crc_update as (crc_update pre s) = crc_update bs (crc_update pre s)"
    using crc_update_inj by simp
  then have "crc_shift (8 * length bs) (xor (crc_update pre s) (little as)) =
      crc_shift (8 * length bs) (xor (crc_update pre s) (little bs))"
    using assms(1,2) crc_update_little[of as] crc_update_little[of bs] by simp
  from crc_shift_inj[OF this] have "little as = little bs" by simp
  then show False using little_inj assms by blast
qed

lemma crc32c_burst_ne:
  "length as = length bs \<Longrightarrow> length bs \<le> 4 \<Longrightarrow> as \<noteq> bs \<Longrightarrow> crc32c (pre @ as @ post) \<noteq> crc32c (pre @ bs @ post)"
  using crc_burst by (simp only: crc32c_def crc_value_def xor_cancel not_False_eq_True)

text \<open>The reference: the register is shifted bit by bit, without a table.\<close>

definition crc32c_bitwise :: "byte list \<Rightarrow> u32" where
  "crc32c_bitwise data =
     xor (fold (\<lambda>b s. (crc_bit ^^ 8) (xor s (ucast b))) data 0xFFFFFFFF) 0xFFFFFFFF"

text \<open>
  C33: the table-driven checksum computes CRC-32C: it equals the bit-serial definition with
  the reflected Castagnoli polynomial on every input.
\<close>

theorem crc32c_bitwise_reference: "crc32c data = crc32c_bitwise data"
proof -
  have "fold crc_update_byte data s = fold (\<lambda>b s. (crc_bit ^^ 8) (xor s (ucast b))) data s" for s
    by (intro fold_cong) (auto simp: crc_byte crc_shift_def)
  then show ?thesis
    by (simp add: crc32c_def crc32c_bitwise_def crc_update_def crc_value_def crc_init_def)
qed

text \<open>
  C31: the checksum detects every error burst of up to four bytes: two inputs of the same length
  that differ only inside a window of at most four bytes never have the same checksum.
\<close>

theorem crc32c_detects_bursts:
  assumes "length as = length bs" "length bs \<le> 4" "as \<noteq> bs"
  shows "crc32c (pre @ as @ post) \<noteq> crc32c (pre @ bs @ post)"
  by (rule crc32c_burst_ne[OF assms])

theorem crc32c_detects_bursts_witness:
  "crc32c ([1] @ [2, 3] @ [4]) \<noteq> crc32c ([1] @ [2, 5] @ [4])"
  by (rule crc32c_detects_bursts) simp_all

end
