(* ===== verification/Journal.thy ===== *)
theory Journal
  imports Checksum Wire Primitives
begin

text \<open>
  The write-ahead journal: \<open>persist/journal.hpp\<close>, \<open>persist/journal.cpp\<close>. Framing of records,
  the scan of a journal image as a terminating loop over an offset, and what the scan
  recovers from a journal that was cut short or overwritten.
\<close>

section \<open>Framing\<close>

datatype record_type = Rec_Checkpoint | Rec_Begin | Rec_Commit

primrec record_type_number :: "record_type \<Rightarrow> u16" where
  "record_type_number Rec_Checkpoint = 1"
| "record_type_number Rec_Begin = 2"
| "record_type_number Rec_Commit = 3"

primrec record_type_to_string :: "record_type \<Rightarrow> string" where
  "record_type_to_string Rec_Checkpoint = ''checkpoint''"
| "record_type_to_string Rec_Begin = ''begin''"
| "record_type_to_string Rec_Commit = ''commit''"

record journal_record =
  jr_sequence :: sequence
  jr_type :: record_type
  jr_payload :: "byte list"

datatype scan_status =
    Scan_Clean | Scan_TornTail | Scan_CorruptTail | Scan_UnsupportedVersion
  | Scan_OversizedRecord | Scan_Corrupt

primrec scan_status_to_string :: "scan_status \<Rightarrow> string" where
  "scan_status_to_string Scan_Clean = ''CLEAN''"
| "scan_status_to_string Scan_TornTail = ''TORN_TAIL''"
| "scan_status_to_string Scan_CorruptTail = ''CORRUPT_TAIL''"
| "scan_status_to_string Scan_UnsupportedVersion = ''UNSUPPORTED_VERSION''"
| "scan_status_to_string Scan_OversizedRecord = ''OVERSIZED_RECORD''"
| "scan_status_to_string Scan_Corrupt = ''CORRUPT''"

record journal_scan =
  js_status :: scan_status
  js_detail :: string
  js_records :: "journal_record list"
  js_valid_bytes :: nat
  js_discarded_bytes :: nat
  js_total_bytes :: nat

definition journal_version :: u16 where "journal_version = 1"
definition journal_header_size :: nat where "journal_header_size = 16"
definition journal_record_prefix_size :: nat where "journal_record_prefix_size = 20"
definition journal_hard_max_record :: nat where "journal_hard_max_record = 2 ^ 24"

definition journal_magic :: "byte list" where
  "journal_magic = bytes_of_string ''PODFBJ01''"

text \<open>\<open>bytes.subspan(at, n)\<close> and the big-endian reads at an offset.\<close>

definition subspan :: "nat \<Rightarrow> nat \<Rightarrow> byte list \<Rightarrow> byte list" where
  "subspan at n bytes = take n (drop at bytes)"

definition read_u16 :: "nat \<Rightarrow> byte list \<Rightarrow> u16" where
  "read_u16 at bytes = from_be (subspan at 2 bytes)"

definition read_u32 :: "nat \<Rightarrow> byte list \<Rightarrow> u32" where
  "read_u32 at bytes = from_be (subspan at 4 bytes)"

definition read_u64 :: "nat \<Rightarrow> byte list \<Rightarrow> u64" where
  "read_u64 at bytes = from_be (subspan at 8 bytes)"

definition encode_journal_header :: "u16 \<Rightarrow> byte list" where
  "encode_journal_header version =
     (let out = journal_magic @ be16 version @ be16 0 in out @ be32 (crc32c out))"

definition decode_journal_header :: "byte list \<Rightarrow> u16 result" where
  "decode_journal_header bytes =
     try_then (reject_if (length bytes < journal_header_size) Code_Incomplete
       ''journal header is truncated'')
     (try_then (reject_if (take 8 bytes \<noteq> journal_magic) Code_Corrupt
       ''journal magic does not match'')
     (try_then (reject_if (read_u32 12 bytes \<noteq> crc32c (subspan 0 12 bytes)) Code_Corrupt
       ''journal header checksum mismatch'')
     (let version = read_u16 8 bytes in
      try_then (reject_if (version \<noteq> journal_version) Code_Unsupported
        ''journal revision is not supported'')
      (Inr version))))"

definition record_head :: "journal_record \<Rightarrow> byte list" where
  "record_head r =
     be64 (jr_sequence r) @ be16 (record_type_number (jr_type r)) @ be16 0 @
     be32 (of_nat (length (jr_payload r)))"

definition encode_record :: "journal_record \<Rightarrow> nat \<Rightarrow> byte list result" where
  "encode_record r max_record_bytes =
     try_then (reject_if (length (jr_payload r) > journal_hard_max_record) Code_Exhausted
       ''journal record exceeds the hard framing limit'')
     (try_then (reject_if (length (jr_payload r) > max_record_bytes) Code_Exhausted
       ''journal record exceeds the configured limit'')
     (let out = record_head r;
          checksum = crc_update (jr_payload r) (crc_update out crc_init)
      in Inr (out @ be32 (crc_value checksum) @ jr_payload r)))"

record record_prefix =
  rp_sequence :: sequence
  rp_type :: record_type
  rp_length :: u32
  rp_crc :: u32

definition record_type_of :: "u16 \<Rightarrow> record_type" where
  "record_type_of t = (if t = 1 then Rec_Checkpoint else if t = 2 then Rec_Begin else Rec_Commit)"

definition parse_record_prefix :: "byte list \<Rightarrow> nat \<Rightarrow> record_prefix result" where
  "parse_record_prefix bytes max_record_bytes =
     try_then (reject_if (length bytes < journal_record_prefix_size) Code_Incomplete
       ''record prefix is truncated'')
     (let type = read_u16 8 bytes in
      try_then (reject_if (type < 1 \<or> type > 3) Code_Corrupt ''record type is not recognised'')
      (let limit = min max_record_bytes journal_hard_max_record;
           size = read_u32 12 bytes
       in try_then (reject_if (unat size > limit) Code_Exhausted
            ''record declares a payload larger than the configured limit'')
          (Inr \<lparr>rp_sequence = read_u64 0 bytes, rp_type = record_type_of type, rp_length = size,
                rp_crc = read_u32 16 bytes\<rparr>)))"

definition verify_record :: "byte list \<Rightarrow> record_prefix \<Rightarrow> bool" where
  "verify_record record prefix =
     (if length record < journal_record_prefix_size then False
      else crc_value (crc_update (drop journal_record_prefix_size record)
             (crc_update (take (journal_record_prefix_size - 4) record) crc_init)) = rp_crc prefix)"

section \<open>The scan\<close>

definition status_code_is :: "code \<Rightarrow> fault \<Rightarrow> bool" where
  "status_code_is c e = (case e of Fail k m \<Rightarrow> k = c | Undefined m \<Rightarrow> False)"

definition status_message :: "fault \<Rightarrow> string" where
  "status_message e = (case e of Fail k m \<Rightarrow> m | Undefined m \<Rightarrow> m)"

text \<open>The loop: the offset it stops at and what it found.\<close>

function scan_loop :: "nat \<Rightarrow> byte list \<Rightarrow> nat \<Rightarrow> journal_scan \<Rightarrow> nat \<times> journal_scan" where
  "scan_loop max_record_bytes bytes offset scan =
     (if offset \<ge> length bytes then (offset, scan)
      else if length bytes - offset < journal_record_prefix_size then
        (offset, scan\<lparr>js_status := Scan_TornTail,
                      js_detail := ''the journal ends inside a record prefix''\<rparr>)
      else case parse_record_prefix (subspan offset journal_record_prefix_size bytes)
                  max_record_bytes of
        Inl e \<Rightarrow>
          (offset, scan\<lparr>js_status := (if js_records scan \<noteq> [] then Scan_CorruptTail
                                      else if status_code_is Code_Exhausted e
                                      then Scan_OversizedRecord else Scan_Corrupt),
                        js_detail := status_message e\<rparr>)
      | Inr prefix \<Rightarrow>
          let frame = journal_record_prefix_size + unat (rp_length prefix) in
          if length bytes - offset < frame then
            (offset, scan\<lparr>js_status := Scan_TornTail,
                          js_detail := ''the journal ends inside a record payload''\<rparr>)
          else let record = subspan offset frame bytes in
          if \<not> verify_record record prefix then
            (offset, scan\<lparr>js_status := Scan_CorruptTail,
                          js_detail := ''record checksum mismatch''\<rparr>)
          else scan_loop max_record_bytes bytes (offset + frame)
            (scan\<lparr>js_records := js_records scan @
                     [\<lparr>jr_sequence = rp_sequence prefix, jr_type = rp_type prefix,
                       jr_payload = drop journal_record_prefix_size record\<rparr>],
                  js_valid_bytes := offset + frame\<rparr>))"
  by pat_completeness auto
termination
  by (relation "measure (\<lambda>(m, bytes, offset, s). length bytes - offset)")
    (auto simp: journal_record_prefix_size_def)

declare scan_loop.simps [simp del]

definition scan_start :: "byte list \<Rightarrow> journal_scan" where
  "scan_start bytes =
     \<lparr>js_status = Scan_Clean, js_detail = [], js_records = [], js_valid_bytes = 0,
      js_discarded_bytes = 0, js_total_bytes = length bytes\<rparr>"

definition scan_finish :: "byte list \<Rightarrow> nat \<times> journal_scan \<Rightarrow> journal_scan" where
  "scan_finish bytes result =
     (case result of (offset, scan) \<Rightarrow>
        let scan1 = (if js_status scan = Scan_Clean \<and> offset \<noteq> length bytes
                     then scan\<lparr>js_status := Scan_TornTail,
                               js_detail := ''trailing bytes after the last record''\<rparr>
                     else scan);
            scan2 = scan1\<lparr>js_discarded_bytes := js_total_bytes scan1 - js_valid_bytes scan1\<rparr>
        in if js_status scan2 \<noteq> Scan_Clean \<and> js_records scan2 = [] \<and> js_valid_bytes scan2 = 0
           then scan2\<lparr>js_valid_bytes := journal_header_size,
                      js_discarded_bytes := js_total_bytes scan2 - journal_header_size\<rparr>
           else scan2)"

definition scan_journal :: "byte list \<Rightarrow> nat \<Rightarrow> journal_scan" where
  "scan_journal bytes max_record_bytes =
     (if length bytes < journal_header_size
      then (scan_start bytes)\<lparr>js_status := Scan_Corrupt,
             js_detail := ''journal is shorter than its header''\<rparr>
      else case decode_journal_header (subspan 0 journal_header_size bytes) of
        Inl e \<Rightarrow> (scan_start bytes)\<lparr>js_status := (if status_code_is Code_Unsupported e
                     then Scan_UnsupportedVersion else Scan_Corrupt),
                   js_detail := status_message e\<rparr>
      | Inr v \<Rightarrow> scan_finish bytes
                   (scan_loop max_record_bytes bytes journal_header_size (scan_start bytes)))"

section \<open>One record\<close>

lemma length_be [simp]: "length (be16 v) = 2" "length (be32 x) = 4" "length (be64 y) = 8"
  by (simp_all add: be_bytes_eq)

lemma length_record_head [simp]: "length (record_head r) = 16"
  by (simp add: record_head_def)

definition fits :: "nat \<Rightarrow> journal_record \<Rightarrow> bool" where
  "fits lim r \<longleftrightarrow> length (jr_payload r) \<le> min lim journal_hard_max_record"

definition frame_of :: "journal_record \<Rightarrow> byte list" where
  "frame_of r = record_head r @ be32 (crc32c (record_head r @ jr_payload r)) @ jr_payload r"

lemma encode_record_frame: "encode_record r lim = Inr f \<longleftrightarrow> fits lim r \<and> f = frame_of r"
  by (auto simp: encode_record_def result_simps fits_def frame_of_def Let_def crc32c_def)

lemma encode_record_error:
  "\<not> fits lim r \<Longrightarrow> \<exists>w. encode_record r lim = fail Code_Exhausted w"
  by (auto simp: encode_record_def fits_def reject_if_def)

lemma length_frame [simp]: "length (frame_of r) = 20 + length (jr_payload r)"
  by (simp add: frame_of_def)

lemma record_type_roundtrip [simp]: "record_type_of (record_type_number t) = t"
  by (cases t) (simp_all add: record_type_of_def)

lemma record_type_range: "\<not> record_type_number t < 1" "\<not> record_type_number t > 3"
  by (cases t; simp add: word_less_nat_alt)+

definition prefix_of :: "journal_record \<Rightarrow> record_prefix" where
  "prefix_of r = \<lparr>rp_sequence = jr_sequence r, rp_type = jr_type r,
     rp_length = of_nat (length (jr_payload r)),
     rp_crc = crc32c (record_head r @ jr_payload r)\<rparr>"

lemma unat_payload: "fits lim r \<Longrightarrow> unat (of_nat (length (jr_payload r)) :: u32) = length (jr_payload r)"
  by (rule unat_length) (simp add: fits_def journal_hard_max_record_def)

lemma parse_frame:
  assumes "fits lim r"
  shows "parse_record_prefix (take 20 (frame_of r)) lim = Inr (prefix_of r)"
proof -
  let ?b = "take 20 (frame_of r)"
  have b: "?b = be64 (jr_sequence r) @ be16 (record_type_number (jr_type r)) @ be16 0 @
      be32 (of_nat (length (jr_payload r))) @ be32 (crc32c (record_head r @ jr_payload r))"
    by (simp add: frame_of_def record_head_def)
  have "read_u64 0 ?b = jr_sequence r" "read_u16 8 ?b = record_type_number (jr_type r)"
    "read_u32 12 ?b = of_nat (length (jr_payload r))"
    "read_u32 16 ?b = crc32c (record_head r @ jr_payload r)" "length ?b = 20"
    unfolding b by (simp_all add: read_u64_def read_u16_def read_u32_def subspan_def from_be_inverse)
  moreover have "(min lim journal_hard_max_record < length (jr_payload r)) = False"
    using assms by (simp add: fits_def not_less)
  ultimately show ?thesis
    using record_type_range[of "jr_type r"] unat_payload[OF assms]
    by (simp add: parse_record_prefix_def Let_def prefix_of_def journal_record_prefix_size_def)
qed

lemma verify_frame_ok: "verify_record (frame_of r) (prefix_of r)"
  by (simp add: verify_record_def frame_of_def prefix_of_def journal_record_prefix_size_def crc32c_def crc_update_def)

lemma header_size [simp]: "length (encode_journal_header v) = 16"
  by (simp add: encode_journal_header_def journal_magic_def Let_def)

lemma header_roundtrip: "decode_journal_header (encode_journal_header journal_version) = Inr journal_version"
proof -
  let ?out = "journal_magic @ be16 journal_version @ be16 0"
  have h: "encode_journal_header journal_version = ?out @ be32 (crc32c ?out)"
    by (simp add: encode_journal_header_def Let_def)
  have m: "length journal_magic = 8" by (simp add: journal_magic_def)
  have "read_u32 12 (?out @ be32 (crc32c ?out)) = crc32c ?out"
    "subspan 0 12 (?out @ be32 (crc32c ?out)) = ?out"
    "read_u16 8 (?out @ be32 (crc32c ?out)) = journal_version"
    by (simp_all add: read_u32_def read_u16_def subspan_def m from_be_inverse)
  then show ?thesis unfolding decode_journal_header_def h
    by (simp add: journal_header_size_def m Let_def)
qed

section \<open>The loop over whole and damaged frames\<close>

lemma drop_prefix: "drop n bytes = as @ bs \<Longrightarrow> drop (n + length as) bytes = bs"
  by (metis add.commute append_eq_conv_conj drop_drop)

lemma scan_whole:
  assumes "drop offset bytes = frame_of r @ rest" "fits lim r"
  shows "scan_loop lim bytes offset scan =
    scan_loop lim bytes (offset + length (frame_of r))
      (scan\<lparr>js_records := js_records scan @ [r], js_valid_bytes := offset + length (frame_of r)\<rparr>)"
proof -
  have l: "length bytes - offset = length (frame_of r) + length rest"
    using arg_cong[OF assms(1), of length] by simp
  have u: "unat (of_nat (length (jr_payload r)) :: u32) = length (jr_payload r)"
    by (rule unat_payload[OF assms(2)])
  have p: "subspan offset 20 bytes = take 20 (frame_of r)"
    "subspan offset (20 + length (jr_payload r)) bytes = frame_of r"
    by (simp_all add: subspan_def assms(1))
  have d: "drop 20 (frame_of r) = jr_payload r" by (simp add: frame_of_def)
  have e: "\<lparr>jr_sequence = jr_sequence r, jr_type = jr_type r, jr_payload = jr_payload r\<rparr> = r" by simp
  have n: "\<not> length bytes \<le> offset" using l by simp
  show ?thesis
    using l u p d n parse_frame[OF assms(2)] verify_frame_ok[of r]
    by (subst scan_loop.simps)
      (simp add: journal_record_prefix_size_def prefix_of_def Let_def e)
qed

lemma scan_torn:
  assumes "drop offset bytes = take k (frame_of r)" "fits lim r" "0 < k" "k < length (frame_of r)"
  shows "\<exists>d. scan_loop lim bytes offset scan =
    (offset, scan\<lparr>js_status := Scan_TornTail, js_detail := d\<rparr>)"
proof -
  have l: "length bytes - offset = k"
    using arg_cong[OF assms(1), of length] assms(4) by simp
  show ?thesis
  proof (cases "k < 20")
    case True
    then show ?thesis
      using l assms(3) by (subst scan_loop.simps) (auto simp: journal_record_prefix_size_def)
  next
    case False
    have p: "subspan offset 20 bytes = take 20 (frame_of r)"
      using False by (simp add: subspan_def assms(1) min_absorb1)
    have u: "unat (of_nat (length (jr_payload r)) :: u32) = length (jr_payload r)"
      by (rule unat_payload[OF assms(2)])
    show ?thesis
      using l p u False assms(3,4) parse_frame[OF assms(2)]
      by (subst scan_loop.simps) (auto simp: journal_record_prefix_size_def prefix_of_def Let_def)
  qed
qed

lemma scan_end: "length bytes \<le> offset \<Longrightarrow> scan_loop lim bytes offset scan = (offset, scan)"
  by (subst scan_loop.simps) simp

lemma scan_same:
  "js_status scan = Scan_Clean \<Longrightarrow> scan\<lparr>js_records := js_records scan @ [],
     js_valid_bytes := js_valid_bytes scan, js_status := Scan_Clean, js_detail := js_detail scan\<rparr> = scan"
  by (cases scan) simp

text \<open>The records whose frames lie wholly in the first \<open>k\<close> bytes, and their extent.\<close>

fun whole_records :: "nat \<Rightarrow> journal_record list \<Rightarrow> journal_record list" where
  "whole_records k [] = []"
| "whole_records k (r # rs) =
     (if length (frame_of r) \<le> k then r # whole_records (k - length (frame_of r)) rs else [])"

definition frames :: "journal_record list \<Rightarrow> byte list" where
  "frames rs = concat (map frame_of rs)"

lemma frames_simps [simp]: "frames [] = []" "frames (r # rs) = frame_of r @ frames rs"
  "frames (rs @ ss) = frames rs @ frames ss"
  by (simp_all add: frames_def)

lemma whole_records_le: "length (frames (whole_records k rs)) \<le> k"
  by (induction k rs rule: whole_records.induct) auto

lemma whole_records_prefix: "\<exists>ss. rs = whole_records k rs @ ss"
  by (induction k rs rule: whole_records.induct) auto

lemma whole_records_all: "whole_records (length (frames rs)) rs = rs"
  by (induction rs) auto

lemma scan_cut:
  assumes "drop offset bytes = take k (frames rs)" "k \<le> length (frames rs)" "offset \<le> length bytes"
    "\<forall>r \<in> set rs. fits lim r" "js_status scan = Scan_Clean"
  shows "\<exists>d. scan_loop lim bytes offset scan =
    (offset + length (frames (whole_records k rs)),
     scan\<lparr>js_records := js_records scan @ whole_records k rs,
          js_valid_bytes := (if whole_records k rs = [] then js_valid_bytes scan
                             else offset + length (frames (whole_records k rs))),
          js_status := (if length (frames (whole_records k rs)) = k then Scan_Clean else Scan_TornTail),
          js_detail := d\<rparr>)"
  using assms
proof (induction rs arbitrary: offset k scan)
  case Nil
  then have "length bytes \<le> offset" by simp
  with Nil scan_same[of scan] show ?case by (intro exI[of _ "js_detail scan"]) (simp add: scan_end)
next
  case (Cons r rs)
  show ?case
  proof (cases "length (frame_of r) \<le> k")
    case True
    let ?o = "offset + length (frame_of r)" and ?k = "k - length (frame_of r)"
    let ?scan = "scan\<lparr>js_records := js_records scan @ [r], js_valid_bytes := ?o\<rparr>"
    have d: "drop offset bytes = frame_of r @ take ?k (frames rs)"
      using Cons.prems(1) True by simp
    then have e: "drop ?o bytes = take ?k (frames rs)" by (rule drop_prefix)
    have "?o \<le> length bytes"
      using arg_cong[OF d, of length] Cons.prems(3) by simp
    moreover have "?k \<le> length (frames rs)" using Cons.prems(2) by simp
    ultimately obtain x where x: "scan_loop lim bytes ?o ?scan =
      (?o + length (frames (whole_records ?k rs)),
       ?scan\<lparr>js_records := js_records ?scan @ whole_records ?k rs,
          js_valid_bytes := (if whole_records ?k rs = [] then js_valid_bytes ?scan
                             else ?o + length (frames (whole_records ?k rs))),
          js_status := (if length (frames (whole_records ?k rs)) = ?k then Scan_Clean else Scan_TornTail),
          js_detail := x\<rparr>)"
      using Cons.IH[OF e, of ?scan] Cons.prems(4,5) by auto
    show ?thesis
      using x True scan_whole[OF d, of lim scan] Cons.prems(4)
      by (intro exI[of _ x]) (auto simp: add.assoc)
  next
    case False
    show ?thesis
    proof (cases "k = 0")
      case True
      then have "length bytes \<le> offset" using Cons.prems(1) by simp
      with False True Cons.prems(5) scan_same[of scan] show ?thesis
        by (intro exI[of _ "js_detail scan"]) (simp add: scan_end)
    next
      case k: False
      have "drop offset bytes = take k (frame_of r)" using Cons.prems(1) False by simp
      from scan_torn[OF this _ _ , of lim scan] False k Cons.prems(4) show ?thesis by fastforce
    qed
  qed
qed

section \<open>Recovery\<close>

definition journal_image :: "journal_record list \<Rightarrow> byte list" where
  "journal_image rs = encode_journal_header journal_version @ frames rs"

lemma scan_start_simps [simp]:
  "js_status (scan_start b) = Scan_Clean" "js_records (scan_start b) = []"
  "js_valid_bytes (scan_start b) = 0" "js_discarded_bytes (scan_start b) = 0"
  "js_total_bytes (scan_start b) = length b"
  by (simp_all add: scan_start_def)

lemma scan_image:
  assumes "n \<le> length (frames rs)" "\<forall>r \<in> set rs. fits lim r"
  shows "\<exists>d. scan_loop lim (take (16 + n) (journal_image rs)) 16 (scan_start (take (16 + n) (journal_image rs))) =
    (16 + length (frames (whole_records n rs)),
     (scan_start (take (16 + n) (journal_image rs)))\<lparr>js_records := whole_records n rs,
          js_valid_bytes := (if whole_records n rs = [] then 0 else 16 + length (frames (whole_records n rs))),
          js_status := (if length (frames (whole_records n rs)) = n then Scan_Clean else Scan_TornTail),
          js_detail := d\<rparr>)"
proof -
  let ?b = "take (16 + n) (journal_image rs)"
  have d: "drop 16 ?b = take n (frames rs)" "16 \<le> length ?b"
    by (simp_all add: journal_image_def)
  show ?thesis
    using scan_cut[OF d(1) assms(1) d(2) assms(2) scan_start_simps(1)] by (simp only: scan_start_simps append_Nil)
qed

lemma scan_finish_facts:
  assumes "z' = scan_finish b (offset, z)" "offset \<noteq> length b \<longrightarrow> js_status z \<noteq> Scan_Clean"
  shows "js_records z' = js_records z" "js_status z' = js_status z"
    "js_valid_bytes z' = (if js_status z \<noteq> Scan_Clean \<and> js_records z = [] \<and> js_valid_bytes z = 0
       then 16 else js_valid_bytes z)"
    "js_discarded_bytes z' = js_total_bytes z - js_valid_bytes z'"
    "js_total_bytes z' = js_total_bytes z"
  using assms by (auto simp: scan_finish_def Let_def journal_header_size_def)

lemma scan_journal_image:
  assumes "16 \<le> length bytes" "take 16 bytes = encode_journal_header journal_version"
  shows "scan_journal bytes lim = scan_finish bytes (scan_loop lim bytes 16 (scan_start bytes))"
  using assms header_roundtrip
  by (simp add: scan_journal_def journal_header_size_def subspan_def)

lemma scan_truncated:
  assumes "\<forall>r \<in> set rs. fits lim r" "n \<le> length (frames rs)"
  shows "let s = scan_journal (take (16 + n) (journal_image rs)) lim;
             whole = length (frames (whole_records n rs))
         in js_records s = whole_records n rs \<and>
            (\<exists>lost. rs = js_records s @ lost) \<and>
            js_status s = (if whole = n then Scan_Clean else Scan_TornTail) \<and>
            js_valid_bytes s = (if n = 0 then 0 else 16 + whole) \<and>
            js_discarded_bytes s = (if n = 0 then 16 else n - whole)"
proof -
  let ?b = "take (16 + n) (journal_image rs)"
  have l: "length ?b = 16 + n" using assms(2) by (simp add: journal_image_def)
  have h: "take 16 ?b = encode_journal_header journal_version" by (simp add: journal_image_def)
  obtain d where d: "scan_loop lim ?b 16 (scan_start ?b) =
    (16 + length (frames (whole_records n rs)),
     (scan_start ?b)\<lparr>js_records := whole_records n rs,
          js_valid_bytes := (if whole_records n rs = [] then 0 else 16 + length (frames (whole_records n rs))),
          js_status := (if length (frames (whole_records n rs)) = n then Scan_Clean else Scan_TornTail),
          js_detail := d\<rparr>)"
    using scan_image[OF assms(2,1)] by blast
  have e: "whole_records n rs = [] \<longleftrightarrow> length (frames (whole_records n rs)) = 0"
    by (cases "whole_records n rs") simp_all
  have "scan_journal ?b lim = scan_finish ?b (scan_loop lim ?b 16 (scan_start ?b))"
    using l h by (intro scan_journal_image) simp_all
  define w L where "w = whole_records n rs" and "L = length (frames w)"
  have q: "\<exists>lost. rs = w @ lost" "L \<le> n" "w = [] \<longleftrightarrow> L = 0"
    using whole_records_prefix[of rs n] whole_records_le[of n rs] e by (simp_all add: w_def L_def)
  let ?z = "(scan_start ?b)\<lparr>js_records := w, js_valid_bytes := (if w = [] then 0 else 16 + L),
      js_status := (if L = n then Scan_Clean else Scan_TornTail), js_detail := d\<rparr>"
  have "scan_journal ?b lim = scan_finish ?b (16 + L, ?z)"
    using \<open>scan_journal ?b lim = _\<close> d by (simp only: w_def L_def)
  note f = scan_finish_facts[OF this]
  have z: "js_records ?z = w" "js_status ?z = (if L = n then Scan_Clean else Scan_TornTail)"
    "js_valid_bytes ?z = (if w = [] then 0 else 16 + L)" "js_total_bytes ?z = 16 + n"
    using l by simp_all
  have c: "16 + L \<noteq> length ?b \<longrightarrow> js_status ?z \<noteq> Scan_Clean" using l z(2) by simp
  note g = f[OF c, unfolded z]
  show ?thesis
    unfolding Let_def w_def[symmetric] L_def[symmetric] g using q by auto
qed


lemma whole_records_take:
  "\<exists>k \<le> length rs. whole_records n rs = take k rs \<and> length (frames (take k rs)) \<le> n \<and>
     (k < length rs \<longrightarrow> n < length (frames (take (Suc k) rs)))"
proof (induction n rs rule: whole_records.induct)
  case (2 n r rs)
  show ?case
  proof (cases "length (frame_of r) \<le> n")
    case True
    with 2 obtain k where "k \<le> length rs" "whole_records (n - length (frame_of r)) rs = take k rs"
      "length (frames (take k rs)) \<le> n - length (frame_of r)"
      "k < length rs \<longrightarrow> n - length (frame_of r) < length (frames (take (Suc k) rs))" by blast
    with True show ?thesis by (intro exI[of _ "Suc k"]) auto
  next
    case False
    then show ?thesis by (intro exI[of _ 0]) simp
  qed
qed simp

lemma encoded_frames:
  "list_all2 (\<lambda>r f. encode_record r lim = Inr f) rs fs \<longleftrightarrow>
     (\<forall>r \<in> set rs. fits lim r) \<and> fs = map frame_of rs"
  by (induction rs fs rule: list_induct2') (auto simp: encode_record_frame)

lemma frames_map: "concat (map frame_of rs) = frames rs"
  by (simp add: frames_def)

text \<open>
  C25: crash recovery of the journal. Whatever records were encoded and however many bytes of the
  journal reached the disk, the scan returns exactly the records whose frames are complete, in
  order: it never skips, reorders or invents one. It reports a torn tail exactly when the cut is
  not on a record boundary, and the valid and discarded counts tell where to truncate (with
  no record and no tail the code leaves the valid count at 0, so the header is counted as discarded).
\<close>

theorem journal_recovers_prefix:
  assumes "list_all2 (\<lambda>r f. encode_record r lim = Inr f) rs fs" "n \<le> length (concat fs)"
  shows "let s = scan_journal (take (16 + n) (encode_journal_header journal_version @ concat fs)) lim
    in \<exists>k \<le> length rs. js_records s = take k rs \<and> length (concat (take k fs)) \<le> n \<and>
         (k < length rs \<longrightarrow> n < length (concat (take (Suc k) fs))) \<and>
         js_status s = (if length (concat (take k fs)) = n then Scan_Clean else Scan_TornTail) \<and>
         js_valid_bytes s = (if n = 0 then 0 else 16 + length (concat (take k fs))) \<and>
         js_discarded_bytes s = (if n = 0 then 16 else n - length (concat (take k fs)))"
proof -
  have f: "\<forall>r \<in> set rs. fits lim r" "fs = map frame_of rs" using assms(1) by (simp_all add: encoded_frames)
  obtain k where k: "k \<le> length rs" "whole_records n rs = take k rs" "length (frames (take k rs)) \<le> n"
    "k < length rs \<longrightarrow> n < length (frames (take (Suc k) rs))"
    using whole_records_take by blast
  have n: "n \<le> length (frames rs)" using assms(2) f(2) by (simp add: frames_map)
  show ?thesis
    using scan_truncated[OF f(1) n] k unfolding f(2)
    by (auto simp: Let_def take_map frames_map journal_image_def intro!: exI[of _ k])
qed

definition sample_records :: "journal_record list" where
  "sample_records = [\<lparr>jr_sequence = 1, jr_type = Rec_Begin, jr_payload = [1, 2]\<rparr>,
     \<lparr>jr_sequence = 1, jr_type = Rec_Commit, jr_payload = []\<rparr>]"

lemma sample_frames:
  "list_all2 (\<lambda>r f. encode_record r 100 = Inr f) sample_records (map frame_of sample_records)"
  by (simp add: encoded_frames sample_records_def fits_def journal_hard_max_record_def)

text \<open>The second record of the sample is cut in its prefix: only the first one is recovered.\<close>

theorem journal_recovers_prefix_witness:
  "js_records (scan_journal (take (16 + 25) (encode_journal_header journal_version @
     concat (map frame_of sample_records))) 100) = take 1 sample_records"
proof -
  have l: "length (concat (map frame_of sample_records)) = 42" by (simp add: sample_records_def)
  obtain k where k: "k \<le> length sample_records"
    "js_records (scan_journal (take (16 + 25) (encode_journal_header journal_version @
     concat (map frame_of sample_records))) 100) = take k sample_records"
    "length (concat (take k (map frame_of sample_records))) \<le> 25"
    "k < length sample_records \<longrightarrow> 25 < length (concat (take (Suc k) (map frame_of sample_records)))"
    using journal_recovers_prefix[OF sample_frames, of 25] l by (auto simp: Let_def)
  from k(1) have "k = 0 \<or> k = 1 \<or> k = 2" by (auto simp: sample_records_def)
  with k(3,4) have "k = 1" by (auto simp: sample_records_def)
  with k(2) show ?thesis by simp
qed

section \<open>Corruption\<close>

text \<open>A frame whose checksum is stored after its first \<open>h\<close> bytes: what the checksum covers, and where it is.\<close>

definition covered :: "nat \<Rightarrow> byte list \<Rightarrow> byte list" where
  "covered h g = take h g @ drop (h + 4) g"

definition stored_crc :: "nat \<Rightarrow> byte list \<Rightarrow> byte list" where
  "stored_crc h g = take 4 (drop h g)"

lemma framed_damage:
  assumes "length bs = length as" "length as \<le> 4" "as \<noteq> bs" "h + 4 \<le> length (pre @ as @ post)"
    "length pre + length as \<le> h \<or> (h \<le> length pre \<and> length pre + length as \<le> h + 4) \<or> h + 4 \<le> length pre"
    "crc32c (covered h (pre @ as @ post)) = from_be (stored_crc h (pre @ as @ post))"
  shows "crc32c (covered h (pre @ bs @ post)) \<noteq> from_be (stored_crc h (pre @ bs @ post))"
proof -
  let ?g = "pre @ bs @ post" and ?f = "pre @ as @ post"
  note l = assms(4) and ok = assms(6)
  consider (head) "length pre + length as \<le> h" | (crc) "h \<le> length pre" "length pre + length as \<le> h + 4"
    | (body) "h + 4 \<le> length pre"
    using assms(5) by blast
  then show ?thesis
  proof cases
    case head
    have c: "covered h (pre @ xs @ post) = pre @ xs @ (take (h - (length pre + length xs)) post @
        drop (h + 4 - (length pre + length xs)) post)" if "length xs = length as" for xs
      using head that by (simp add: covered_def)
    have s: "stored_crc h (pre @ xs @ post) = take 4 (drop (h - (length pre + length xs)) post)"
      if "length xs = length as" for xs
      using head that by (simp add: stored_crc_def)
    have "crc32c (covered h ?g) \<noteq> crc32c (covered h ?f)"
      using crc32c_burst_ne[of bs as pre] assms(1,2,3) by (simp add: c)
    then show ?thesis using ok assms(1) by (simp add: s)
  next
    case crc
    have c: "covered h ?g = covered h ?f" using crc assms(1) by (simp add: covered_def)
    have s: "stored_crc h (pre @ xs @ post) = drop h pre @ xs @ take (4 + h - (length pre + length xs)) post"
      if "length xs = length as" for xs
      using crc that by (simp add: stored_crc_def)
    have n: "length (stored_crc h ?g) = 4" "length (stored_crc h ?f) = 4"
      using l crc assms(1) by (simp_all add: stored_crc_def)
    have "stored_crc h ?g \<noteq> stored_crc h ?f" using assms(1,3) by (simp add: s)
    then have "(from_be (stored_crc h ?g) :: u32) \<noteq> from_be (stored_crc h ?f)"
      using be_bytes_from_be[OF n(1), where ?'a = 32] be_bytes_from_be[OF n(2), where ?'a = 32] by auto
    then show ?thesis using ok c by simp
  next
    case body
    have c: "covered h (pre @ xs @ post) = (take h pre @ drop (h + 4) pre) @ xs @ post" for xs
      using body by (simp add: covered_def)
    have "crc32c (covered h ?g) \<noteq> crc32c (covered h ?f)"
      using crc32c_burst_ne[of bs as "take h pre @ drop (h + 4) pre" post] assms(1,2,3) unfolding c by simp
    moreover have "stored_crc h ?g = stored_crc h ?f" using body by (simp add: stored_crc_def)
    ultimately show ?thesis using ok by simp
  qed
qed

lemma verify_covered:
  "20 \<le> length g \<Longrightarrow> verify_record g p \<longleftrightarrow> crc32c (covered 16 g) = rp_crc p"
  by (simp add: verify_record_def covered_def journal_record_prefix_size_def crc32c_def crc_update_def)

lemma parse_fields:
  assumes "parse_record_prefix (take 20 g) lim = Inr p"
  shows "rp_length p = from_be (take 4 (drop 12 g))" "rp_crc p = from_be (stored_crc 16 g)"
  using assms
  by (auto simp: parse_record_prefix_def result_simps Let_def read_u32_def subspan_def stored_crc_def
      drop_take min_absorb1)

definition damage_window :: "nat \<Rightarrow> nat \<Rightarrow> bool" where
  "damage_window at n \<longleftrightarrow> at + n \<le> 12 \<or> (16 \<le> at \<and> at + n \<le> 20) \<or> 20 \<le> at"

lemma damaged_frame:
  assumes "length bs = length as" "length as \<le> 4" "as \<noteq> bs" "damage_window (length pre) (length as)"
    "frame_of r = pre @ as @ post" "fits lim r"
  shows "take 4 (drop 12 (pre @ bs @ post)) = take 4 (drop 12 (frame_of r))"
    "crc32c (covered 16 (pre @ bs @ post)) \<noteq> from_be (stored_crc 16 (pre @ bs @ post))"
proof -
  have l: "16 + 4 \<le> length (pre @ as @ post)"
    using arg_cong[OF assms(5), of length] by simp
  have ok: "crc32c (covered 16 (pre @ as @ post)) = from_be (stored_crc 16 (pre @ as @ post))"
    unfolding assms(5)[symmetric]
    by (simp add: covered_def stored_crc_def frame_of_def from_be_inverse)
  show "crc32c (covered 16 (pre @ bs @ post)) \<noteq> from_be (stored_crc 16 (pre @ bs @ post))"
    using framed_damage[OF assms(1-3) l _ ok] assms(4) by (auto simp: damage_window_def)
  show "take 4 (drop 12 (pre @ bs @ post)) = take 4 (drop 12 (frame_of r))"
    using assms(1,4) unfolding assms(5) damage_window_def by auto
qed

lemma scan_damaged:
  assumes "drop offset bytes = (pre @ bs @ post) @ rest" "fits lim r" "frame_of r = pre @ as @ post"
    "length bs = length as" "length as \<le> 4" "as \<noteq> bs" "damage_window (length pre) (length as)"
  shows "\<exists>st d. scan_loop lim bytes offset scan = (offset, scan\<lparr>js_status := st, js_detail := d\<rparr>) \<and>
    st \<noteq> Scan_Clean \<and> st \<noteq> Scan_TornTail"
proof -
  let ?g = "pre @ bs @ post"
  have lg: "length ?g = 20 + length (jr_payload r)"
    using arg_cong[OF assms(3), of length] assms(4) by simp
  have l: "length bytes - offset = length ?g + length rest" "\<not> length bytes \<le> offset"
    using arg_cong[OF assms(1), of length] lg by auto
  note d = damaged_frame[OF assms(4,5,6,7,3,2)]
  have p: "subspan offset 20 bytes = take 20 ?g" using lg by (simp add: subspan_def assms(1) del: append_assoc)
  show ?thesis
  proof (cases "parse_record_prefix (take 20 ?g) lim")
    case (Inl e)
    with l lg p show ?thesis
      by (subst scan_loop.simps) (auto simp: journal_record_prefix_size_def)
  next
    case (Inr q)
    have "take 4 (drop 12 (frame_of r)) = be32 (of_nat (length (jr_payload r)))"
      by (simp add: frame_of_def record_head_def)
    then have n: "unat (rp_length q) = length (jr_payload r)"
      using parse_fields(1)[OF Inr] d(1) unat_payload[OF assms(2)] by (simp add: from_be_inverse)
    have "\<not> verify_record ?g q"
      using verify_covered[of ?g q] d(2) parse_fields(2)[OF Inr] lg by simp
    moreover have "subspan offset (20 + length (jr_payload r)) bytes = ?g"
      using lg by (simp add: subspan_def assms(1) del: append_assoc)
    ultimately show ?thesis
      using l lg p n Inr
      by (subst scan_loop.simps) (auto simp: journal_record_prefix_size_def Let_def)
  qed
qed

lemma scan_wholes:
  assumes "drop offset bytes = frames rs @ rest" "\<forall>r \<in> set rs. fits lim r"
  shows "scan_loop lim bytes offset scan = scan_loop lim bytes (offset + length (frames rs))
    (scan\<lparr>js_records := js_records scan @ rs,
          js_valid_bytes := (if rs = [] then js_valid_bytes scan else offset + length (frames rs))\<rparr>)"
  using assms
proof (induction rs arbitrary: offset scan)
  case (Cons r rs)
  let ?o = "offset + length (frame_of r)"
  have d: "drop offset bytes = frame_of r @ frames rs @ rest" using Cons.prems(1) by simp
  have "drop ?o bytes = frames rs @ rest" by (rule drop_prefix[OF d])
  from Cons.IH[OF this, of "scan\<lparr>js_records := js_records scan @ [r], js_valid_bytes := ?o\<rparr>"]
    scan_whole[OF d, of lim scan] Cons.prems(2)
  show ?case by (cases "rs = []") (simp_all add: add.assoc)
next
  case Nil
  have "scan\<lparr>js_records := js_records scan @ [], js_valid_bytes := js_valid_bytes scan\<rparr> = scan"
    by (cases scan) simp
  then show ?case by simp
qed

text \<open>
  C26: corruption is contained. Overwrite at most four neighbouring bytes of one record of a journal,
  all of them in its sequence number and type, all in its checksum or all in its payload (not in
  its length, and not across the border between checksum and payload), and let anything follow. The scan returns exactly the records before the damaged one, reports a damaged
  tail, and places the end of the valid part just before the damaged record.
\<close>

theorem journal_contains_corruption:
  assumes "list_all2 (\<lambda>r f. encode_record r lim = Inr f) rs fs"
    "encode_record r lim = Inr (pre @ as @ post)"
    "length bs = length as" "length as \<le> 4" "as \<noteq> bs" "damage_window (length pre) (length as)"
  shows "let s = scan_journal (encode_journal_header journal_version @ concat fs @
        (pre @ bs @ post) @ rest) lim
    in js_records s = rs \<and> js_status s \<noteq> Scan_Clean \<and> js_status s \<noteq> Scan_TornTail \<and>
       js_valid_bytes s = 16 + length (concat fs)"
proof -
  let ?b = "encode_journal_header journal_version @ concat fs @ (pre @ bs @ post) @ rest"
  have f: "\<forall>r \<in> set rs. fits lim r" "concat fs = frames rs" "fits lim r" "frame_of r = pre @ as @ post"
    using assms(1)[unfolded encoded_frames] assms(2)[unfolded encode_record_frame]
    by (simp_all add: frames_map)
  have lg: "length (pre @ bs @ post) = 20 + length (jr_payload r)"
    using arg_cong[OF f(4), of length] assms(3) by simp
  let ?z = "(scan_start ?b)\<lparr>js_records := rs, js_valid_bytes := (if rs = [] then 0 else 16 + length (frames rs))\<rparr>"
  have "drop 16 ?b = frames rs @ (pre @ bs @ post) @ rest" by (simp add: f(2))
  note w = scan_wholes[OF this f(1), of "scan_start ?b", unfolded scan_start_simps append_Nil]
  have "drop (16 + length (frames rs)) ?b = (pre @ bs @ post) @ rest" by (simp add: f(2))
  from scan_damaged[OF this f(3,4) assms(3-6), of ?z] obtain st d where
    d: "scan_loop lim ?b (16 + length (frames rs)) ?z =
      (16 + length (frames rs), ?z\<lparr>js_status := st, js_detail := d\<rparr>)" "st \<noteq> Scan_Clean" "st \<noteq> Scan_TornTail"
    by blast
  let ?y = "?z\<lparr>js_status := st, js_detail := d\<rparr>"
  have "16 \<le> length ?b" "take 16 ?b = encode_journal_header journal_version" by simp_all
  from scan_journal_image[OF this, of lim] w d(1)
  have s: "scan_journal ?b lim = scan_finish ?b (16 + length (frames rs), ?y)" by simp
  have y: "js_status ?y = st" "js_records ?y = rs"
    "js_valid_bytes ?y = (if rs = [] then 0 else 16 + length (frames rs))" by simp_all
  have c: "16 + length (frames rs) \<noteq> length ?b \<longrightarrow> js_status ?y \<noteq> Scan_Clean" using d(2) y(1) by simp
  note g = scan_finish_facts(1-3)[OF s c, unfolded y]
  show ?thesis unfolding Let_def using g d(2,3) by (cases "rs = []") (simp_all add: f(2))
qed

text \<open>One byte of the second sample record, in its sequence number, is overwritten.\<close>

theorem journal_contains_corruption_witness:
  "js_records (scan_journal (encode_journal_header journal_version @
     concat (map frame_of (take 1 sample_records)) @
     (take 7 (frame_of (sample_records ! 1)) @ [9] @ drop 8 (frame_of (sample_records ! 1))) @ [5]) 100) =
   take 1 sample_records"
proof -
  let ?f = "frame_of (sample_records ! 1)"
  have e: "list_all2 (\<lambda>r f. encode_record r 100 = Inr f) (take 1 sample_records)
      (map frame_of (take 1 sample_records))"
    by (simp add: encoded_frames sample_records_def fits_def journal_hard_max_record_def)
  have b: "?f ! 7 = 1" by (simp add: frame_of_def record_head_def sample_records_def be_bytes_eq numeral_eq_Suc)
  have "?f = take 7 ?f @ [1] @ drop 8 ?f"
    using id_take_nth_drop[of 7 ?f] b by (simp add: sample_records_def numeral_eq_Suc)
  then have f: "encode_record (sample_records ! 1) 100 = Inr (take 7 ?f @ [1] @ drop 8 ?f)"
    by (simp add: encode_record_frame sample_records_def fits_def)
  have "damage_window (length (take 7 ?f)) (length [1 :: byte])"
    by (simp add: damage_window_def sample_records_def)
  from journal_contains_corruption[OF e f _ _ _ this, of "[9]" "[5]"] show ?thesis by (simp add: Let_def)
qed

end
