(* ===== verification/Store.thy ===== *)
theory Store
  imports Files Durable Journal Snapshot
begin

text \<open>
  The pod store: \<open>persist/store.hpp\<close>, \<open>persist/store.cpp\<close>. The object is a record together
  with the directory it works on, every member function an operation on it that returns its
  status with the object it leaves, also when it fails. The reading of the system clock is an
  argument.
\<close>

section \<open>Data\<close>

record store_options =
  so_directory :: string
  so_policy :: policy
  so_sync_on_commit :: bool
  so_repair_torn_tail :: bool

datatype recovery_outcome =
    Recovery_Fresh | Recovery_Clean | Recovery_TornTailRepaired | Recovery_CorruptTailRepaired
  | Recovery_AmbiguousCommitRolledBack | Recovery_UnsupportedVersion | Recovery_Corrupt
  | Recovery_Refused

primrec recovery_outcome_to_string :: "recovery_outcome \<Rightarrow> string" where
  "recovery_outcome_to_string Recovery_Fresh = ''FRESH''"
| "recovery_outcome_to_string Recovery_Clean = ''CLEAN''"
| "recovery_outcome_to_string Recovery_TornTailRepaired = ''TORN_TAIL_REPAIRED''"
| "recovery_outcome_to_string Recovery_CorruptTailRepaired = ''CORRUPT_TAIL_REPAIRED''"
| "recovery_outcome_to_string Recovery_AmbiguousCommitRolledBack = ''AMBIGUOUS_COMMIT_ROLLED_BACK''"
| "recovery_outcome_to_string Recovery_UnsupportedVersion = ''UNSUPPORTED_VERSION''"
| "recovery_outcome_to_string Recovery_Corrupt = ''CORRUPT''"
| "recovery_outcome_to_string Recovery_Refused = ''REFUSED''"

record recovery_report =
  rr_outcome :: recovery_outcome
  rr_detail :: string
  rr_records_scanned :: nat
  rr_records_applied :: nat
  rr_records_skipped :: nat
  rr_discarded_bytes :: nat
  rr_ambiguous_commit :: bool
  rr_recovered_from_store :: bool
  rr_last_sequence :: sequence
  rr_recovered_at :: nanos

definition recovery_default :: recovery_report where
  "recovery_default =
     \<lparr>rr_outcome = Recovery_Fresh, rr_detail = [], rr_records_scanned = 0, rr_records_applied = 0,
      rr_records_skipped = 0, rr_discarded_bytes = 0, rr_ambiguous_commit = False,
      rr_recovered_from_store = False, rr_last_sequence = 0, rr_recovered_at = 0\<rparr>"

definition recovery_usable :: "recovery_report \<Rightarrow> bool" where
  "recovery_usable r \<longleftrightarrow> rr_outcome r \<noteq> Recovery_Corrupt \<and> rr_outcome r \<noteq> Recovery_Refused \<and>
     rr_outcome r \<noteq> Recovery_UnsupportedVersion"

definition recovery_repaired :: "recovery_report \<Rightarrow> bool" where
  "recovery_repaired r \<longleftrightarrow> rr_outcome r = Recovery_TornTailRepaired \<or>
     rr_outcome r = Recovery_CorruptTailRepaired \<or>
     rr_outcome r = Recovery_AmbiguousCommitRolledBack"

record pod_store =
  st_options :: store_options
  st_files :: files
  st_locked :: bool
  st_state :: durable_state
  st_recovery :: recovery_report
  st_checkpoint_sequence :: u64
  st_have_checkpoint :: bool
  st_open :: bool

definition store_new :: "store_options \<Rightarrow> files \<Rightarrow> pod_store" where
  "store_new options fs =
     \<lparr>st_options = options, st_files = fs, st_locked = False, st_state = durable_default,
      st_recovery = recovery_default, st_checkpoint_sequence = 0, st_have_checkpoint = False,
      st_open = False\<rparr>"

abbreviation store_policy :: "pod_store \<Rightarrow> policy" where
  "store_policy s \<equiv> so_policy (st_options s)"

definition on_files :: "('a, files) op \<Rightarrow> ('a, pod_store) op" where
  "on_files m s = (case m (st_files s) of (r, fs) \<Rightarrow> (r, s\<lparr>st_files := fs\<rparr>))"

definition set_recovery :: "(recovery_report \<Rightarrow> recovery_report) \<Rightarrow> pod_store \<Rightarrow> pod_store" where
  "set_recovery f s = s\<lparr>st_recovery := f (st_recovery s)\<rparr>"

text \<open>A member function that reads the object before it decides.\<close>

abbreviation with_store :: "(pod_store \<Rightarrow> ('a, pod_store) op) \<Rightarrow> ('a, pod_store) op" where
  "with_store f \<equiv> op_bind (op_read (\<lambda>s. s)) f"

definition store_journal_bytes :: "(nat, pod_store) op" where
  "store_journal_bytes =
     with_store (\<lambda>s. if fs_journal (st_files s) = None then op_return 0
       else on_files (path_size journal_content))"

section \<open>The checkpoint\<close>

definition checkpoint_magic :: "byte list" where
  "checkpoint_magic = bytes_of_string ''PODFBSN1''"

definition checkpoint_header :: nat where "checkpoint_header = 20"

definition checkpoint_head :: "nat \<Rightarrow> byte list" where
  "checkpoint_head n = checkpoint_magic @ be16 durable_state_version @ be16 0 @ be32 (of_nat n)"

definition encode_checkpoint :: "durable_state \<Rightarrow> byte list result" where
  "encode_checkpoint s =
     try_bind (encode_durable s) (\<lambda>body.
       let out = checkpoint_head (length body)
       in Inr (out @ be32 (crc32c out) @ body @ digest_of_bytes body))"

text \<open>The checkpoint, when there is one.\<close>

definition parse_checkpoint :: "policy \<Rightarrow> byte list \<Rightarrow> durable_state result" where
  "parse_checkpoint p bytes =
     try_then (reject_if (length bytes < checkpoint_header + 32) Code_Corrupt
       ''checkpoint file is shorter than its framing'')
     (try_then (reject_if (take 8 bytes \<noteq> checkpoint_magic) Code_Corrupt
       ''checkpoint magic does not match'')
     (try_then (reject_if (read_u16 8 bytes \<noteq> durable_state_version) Code_Unsupported
       ''checkpoint revision is not supported'')
     (try_then (reject_if (read_u32 16 bytes \<noteq> crc32c (take 16 bytes)) Code_Corrupt
       ''checkpoint header checksum mismatch'')
     (let body_length = read_u32 12 bytes in
      try_then (reject_if (ucast body_length > po_max_journal_bytes p * 4) Code_Exhausted
        ''checkpoint body exceeds the configured bound'')
     (try_then (reject_if (length bytes \<noteq> checkpoint_header + unat body_length + 32) Code_Corrupt
       ''checkpoint length does not match its own header'')
     (let body = subspan checkpoint_header (unat body_length) bytes;
          stored = subspan (checkpoint_header + unat body_length) 32 bytes
      in try_then (reject_if (stored \<noteq> digest_of_bytes body) Code_Corrupt
           ''checkpoint payload digest mismatch'')
         (decode_durable body)))))))"

definition load_checkpoint :: "(durable_state option, pod_store) op" where
  "load_checkpoint =
     with_store (\<lambda>s.
       if fs_checkpoint (st_files s) = None then op_return None
       else op_bind (on_files (read_checkpoint_file (unat (po_max_journal_bytes (store_policy s) * 4))))
         (\<lambda>bytes. op_bind (op_lift (parse_checkpoint (store_policy s) bytes))
           (\<lambda>d. op_return (Some d))))"

definition write_checkpoint :: "(unit, pod_store) op" where
  "write_checkpoint =
     with_store (\<lambda>s.
       op_bind (op_lift (encode_checkpoint (st_state s))) (\<lambda>image.
       op_then (on_files (write_temp image))
       (op_then (on_files replace_checkpoint)
       (on_files sync_directory))))"

section \<open>Recovery\<close>

definition apply_record :: "durable_state \<Rightarrow> pod_store \<Rightarrow> pod_store" where
  "apply_record d s =
     set_recovery (\<lambda>r. r\<lparr>rr_records_applied := rr_records_applied r + 1,
       rr_recovered_from_store := True\<rparr>) (s\<lparr>st_state := d\<rparr>)"

definition skip_record :: "pod_store \<Rightarrow> pod_store" where
  "skip_record = set_recovery (\<lambda>r. r\<lparr>rr_records_skipped := rr_records_skipped r + 1\<rparr>)"

definition mismatch_detail :: string where
  "mismatch_detail = ''a commit record does not match the open transaction''"

text \<open>The loop over the scanned records: the open transaction, its body, and whether one was
  left open; the transaction and the flag at its end.\<close>

fun replay_records :: "journal_record list \<Rightarrow> u64 \<Rightarrow> byte list \<Rightarrow> bool \<Rightarrow> (u64 \<times> bool, pod_store) op" where
  "replay_records [] open_txn pending ambiguous = op_return (open_txn, ambiguous)"
| "replay_records (r # rs) open_txn pending ambiguous =
     with_store (\<lambda>s.
       if st_have_checkpoint s \<and> jr_sequence r \<le> st_checkpoint_sequence s then
         op_then (op_update skip_record) (replay_records rs open_txn pending ambiguous)
       else case jr_type r of
         Rec_Checkpoint \<Rightarrow>
           op_bind (op_lift (decode_durable (jr_payload r))) (\<lambda>d.
           op_then (op_update (apply_record d))
           (replay_records rs 0 (if open_txn \<noteq> 0 then [] else pending) (ambiguous \<or> open_txn \<noteq> 0)))
       | Rec_Begin \<Rightarrow>
           replay_records rs (jr_sequence r) (jr_payload r) (ambiguous \<or> open_txn \<noteq> 0)
       | Rec_Commit \<Rightarrow>
           if open_txn \<noteq> jr_sequence r then
             op_then (op_update (set_recovery (\<lambda>r. r\<lparr>rr_outcome := Recovery_Corrupt,
               rr_detail := mismatch_detail\<rparr>))) (op_fail Code_Corrupt mismatch_detail)
           else
             op_bind (op_lift (decode_durable pending)) (\<lambda>d.
             op_then (op_update (apply_record d)) (replay_records rs 0 [] ambiguous)))"

definition replay_empty :: "pod_store \<Rightarrow> pod_store" where
  "replay_empty s =
     set_recovery (\<lambda>r. r\<lparr>
       rr_outcome := (if st_have_checkpoint s then Recovery_Clean else Recovery_Fresh),
       rr_last_sequence := st_checkpoint_sequence s\<rparr>) s"

text \<open>After the loop: settle the report and cut a damaged tail off.\<close>

definition replay_settle :: "journal_scan \<Rightarrow> bool \<Rightarrow> (unit, pod_store) op" where
  "replay_settle scan ambiguous =
     op_then (op_update (\<lambda>s. set_recovery (\<lambda>r. r\<lparr>rr_ambiguous_commit := ambiguous,
       rr_last_sequence := ds_sequence (st_state s)\<rparr>) s))
     (with_store (\<lambda>s.
       if js_status scan = Scan_Clean \<and> \<not> ambiguous then
         op_update (set_recovery (\<lambda>r. r\<lparr>rr_outcome :=
           (if st_have_checkpoint s \<or> rr_records_applied r > 0 then Recovery_Clean
            else Recovery_Fresh)\<rparr>))
       else if js_status scan \<noteq> Scan_Clean \<and> so_repair_torn_tail (st_options s) then
         op_then (on_files (file_truncate (js_valid_bytes scan)))
         (op_then (on_files file_sync)
         (op_update (set_recovery (\<lambda>r. r\<lparr>rr_outcome :=
            (if ambiguous then Recovery_AmbiguousCommitRolledBack
             else if js_status scan = Scan_TornTail then Recovery_TornTailRepaired
             else Recovery_CorruptTailRepaired),
            rr_detail := js_detail scan\<rparr>))))
       else if js_status scan \<noteq> Scan_Clean then
         op_fail Code_Corrupt (''journal tail is damaged and repair is disabled: '' @ js_detail scan)
       else op_update (set_recovery (\<lambda>r. r\<lparr>rr_outcome := Recovery_AmbiguousCommitRolledBack,
         rr_detail := ''a transaction was opened but never committed''\<rparr>))))"

definition replay_scan :: "journal_scan \<Rightarrow> (unit, pod_store) op" where
  "replay_scan scan =
     (if js_status scan = Scan_UnsupportedVersion then op_fail Code_Unsupported (js_detail scan)
      else if js_status scan = Scan_Corrupt \<or> js_status scan = Scan_OversizedRecord then
        op_then (op_update (set_recovery (\<lambda>r. r\<lparr>rr_outcome := Recovery_Corrupt,
          rr_detail := js_detail scan\<rparr>)))
        (op_fail Code_Corrupt (''journal framing is not recoverable: '' @ js_detail scan))
      else
        op_then (op_update (set_recovery (\<lambda>r. r\<lparr>rr_records_scanned := length (js_records scan),
          rr_discarded_bytes := js_discarded_bytes scan\<rparr>)))
        (op_bind (replay_records (js_records scan) 0 [] False) (\<lambda>(open_txn, ambiguous).
         replay_settle scan (ambiguous \<or> open_txn \<noteq> 0))))"

definition replay :: "(unit, pod_store) op" where
  "replay =
     with_store (\<lambda>s.
       op_bind (on_files file_size) (\<lambda>size.
       if size = 0 then op_update replay_empty
       else
         op_then (op_guard (size > unat (po_max_journal_bytes (store_policy s) * 2)) Code_Exhausted
           ''journal exceeds the configured bound and was not replayed'')
         (op_then (on_files (file_seek 0))
         (op_bind (on_files (file_read size)) (\<lambda>image.
          op_then (op_guard (length image < size) Code_Incomplete
            ''journal ended before its declared size'')
          (replay_scan (scan_journal image
            (unat (po_max_journal_record_bytes (store_policy s))))))))))"

section \<open>Opening and closing\<close>

definition acquire_lock :: "(unit, pod_store) op" where
  "acquire_lock s =
     (case op_then (op_guard (st_locked s) Code_Refused
              ''the pod store is already locked by this process'') (on_files acquire_file_lock) s of
        (Inl e, t) \<Rightarrow> (Inl e, set_recovery (\<lambda>r. r\<lparr>rr_outcome := Recovery_Refused,
                               rr_detail := status_message e\<rparr>) t)
      | (Inr u, t) \<Rightarrow> (success, t\<lparr>st_locked := True\<rparr>))"

definition open_checkpoint :: "(bool, pod_store) op" where
  "open_checkpoint s =
     (case load_checkpoint s of
        (Inl e, t) \<Rightarrow>
          (Inl e, (set_recovery (\<lambda>r. r\<lparr>rr_outcome := (if status_code_is Code_Unsupported e
                     then Recovery_UnsupportedVersion else Recovery_Corrupt),
                   rr_detail := status_message e\<rparr>) t)\<lparr>st_locked := False\<rparr>)
      | (Inr None, t) \<Rightarrow>
          (Inr False, t\<lparr>st_have_checkpoint := False, st_checkpoint_sequence := 0\<rparr>)
      | (Inr (Some d), t) \<Rightarrow>
          (Inr True, set_recovery (\<lambda>r. r\<lparr>rr_recovered_from_store := True\<rparr>)
             (t\<lparr>st_have_checkpoint := True, st_checkpoint_sequence := ds_sequence d,
                st_state := d\<rparr>)))"

definition write_header :: "(unit, pod_store) op" where
  "write_header = on_files (file_write (encode_journal_header journal_version))"

text \<open>\<open>size_before_open.ok() && size_before_open.value() > 0\<close>\<close>

definition journal_existed :: "(bool, pod_store) op" where
  "journal_existed s =
     (case store_journal_bytes s of (Inl e, t) \<Rightarrow> (Inr False, t) | (Inr n, t) \<Rightarrow> (Inr (n > 0), t))"

definition store_open :: "nanos \<Rightarrow> (unit, pod_store) op" where
  "store_open now =
     with_store (\<lambda>s.
     op_then (op_guard (st_open s) Code_Refused ''the pod store is already open in this process'')
     (op_then (op_lift (validate_policy (store_policy s)))
     (op_then (op_guard (so_directory (st_options s) = []) Code_Invalid
       ''the pod store directory is empty'')
     (op_then (on_files ensure_directory)
     (op_then acquire_lock
     (op_bind open_checkpoint (\<lambda>present.
      op_bind journal_existed (\<lambda>existed.
      op_then (on_files file_open_append)
     (op_then replay
     (op_then (op_when (\<not> existed \<and> \<not> present) (op_then write_header (on_files file_sync)))
     (op_update (\<lambda>s. set_recovery (\<lambda>r. r\<lparr>rr_recovered_at := now\<rparr>) (s\<lparr>st_open := True\<rparr>)))))))))))))"

definition store_close :: "(unit, pod_store) op" where
  "store_close =
     with_store (\<lambda>s.
       if \<not> st_open s then
         op_update (\<lambda>s. s\<lparr>st_files := snd (file_close (st_files s)), st_locked := False\<rparr>)
       else
         op_then (op_update (\<lambda>s. s\<lparr>st_open := False\<rparr>))
         (op_then (on_files file_close)
         (op_update (\<lambda>s. s\<lparr>st_locked := False\<rparr>))))"

section \<open>Committing\<close>

definition compact :: "(unit, pod_store) op" where
  "compact =
     with_store (\<lambda>s.
     op_then (op_guard (\<not> st_open s) Code_Invalid ''the pod store is not open'')
     (op_then write_checkpoint
     (op_then (op_update (\<lambda>s. s\<lparr>st_checkpoint_sequence := ds_sequence (st_state s),
        st_have_checkpoint := True\<rparr>))
     (op_then (on_files (file_truncate 0))
     (op_then write_header
     (op_then (on_files file_flush)
     (op_bind (op_lift (encode_durable (st_state s))) (\<lambda>payload.
      op_bind (op_lift (encode_record \<lparr>jr_sequence = ds_sequence (st_state s),
          jr_type = Rec_Checkpoint, jr_payload = payload\<rparr>
        (unat (po_max_journal_record_bytes (store_policy s))))) (\<lambda>frame.
      op_then (on_files (file_write frame))
      (on_files file_sync))))))))))"

text \<open>The state the store writes: it owns the revision, the sequence and, when unset, the time.\<close>

definition stamp_state :: "nanos \<Rightarrow> durable_state \<Rightarrow> durable_state \<Rightarrow> durable_state" where
  "stamp_state now current next =
     next\<lparr>ds_version := durable_state_version, ds_sequence := ds_sequence current + 1,
          ds_written_at := (if ds_written_at next = 0 then now else ds_written_at next)\<rparr>"

definition begin_record :: "durable_state \<Rightarrow> byte list \<Rightarrow> journal_record" where
  "begin_record next body = \<lparr>jr_sequence = ds_sequence next, jr_type = Rec_Begin, jr_payload = body\<rparr>"

definition commit_record :: "durable_state \<Rightarrow> journal_record" where
  "commit_record next = \<lparr>jr_sequence = ds_sequence next, jr_type = Rec_Commit, jr_payload = []\<rparr>"

definition compact_if_large :: "(unit, pod_store) op" where
  "compact_if_large s =
     (case store_journal_bytes s of
        (Inl e, t) \<Rightarrow> (success, t)
      | (Inr n, t) \<Rightarrow> if n > unat (po_max_journal_bytes (store_policy s)) then compact t
                     else (success, t))"

definition store_commit :: "nanos \<Rightarrow> durable_state \<Rightarrow> (unit, pod_store) op" where
  "store_commit now proposed =
     with_store (\<lambda>s.
     op_then (op_guard (\<not> st_open s) Code_Invalid ''the pod store is not open'')
     (let next = stamp_state now (st_state s) proposed;
          limit = unat (po_max_journal_record_bytes (store_policy s))
      in op_bind (op_lift (encode_durable next)) (\<lambda>body.
         op_bind (op_lift (encode_record (begin_record next body) limit)) (\<lambda>begin_frame.
         op_bind (op_lift (encode_record (commit_record next) limit)) (\<lambda>commit_frame.
         op_then (on_files (file_write begin_frame))
         (op_then (on_files (file_write commit_frame))
         (op_then (on_files (if so_sync_on_commit (st_options s) then file_sync else file_flush))
         (op_then (op_update (\<lambda>s. set_recovery (\<lambda>r. r\<lparr>rr_last_sequence := ds_sequence next\<rparr>)
            (s\<lparr>st_state := next\<rparr>)))
          compact_if_large))))))))"

definition erase_all :: "(unit, pod_store) op" where
  "erase_all =
     with_store (\<lambda>s.
     op_then (op_guard (\<not> st_open s) Code_Invalid ''the pod store is not open'')
     (op_then (on_files file_close)
     (op_then (on_files remove_journal)
     (op_then (op_when (fs_checkpoint (st_files s) \<noteq> None) (on_files remove_checkpoint))
     (op_then (op_update (\<lambda>s. s\<lparr>st_state := durable_default, st_checkpoint_sequence := 0,
        st_have_checkpoint := False, st_recovery := recovery_default\<rparr>))
     (op_then (on_files file_open_append)
     (op_then write_header
     (on_files file_sync))))))))"

end
