(* ===== verification/Reopen.thy ===== *)
theory Reopen
  imports Store Hashing
begin

text \<open>
  Opening a store directory: the calls of an operating system that does not fail, replay as a
  function of the log, the checkpoint file, and what \<open>open\<close> finds in a directory that holds
  a checkpoint and a journal, complete or cut.
\<close>

section \<open>Opening the operations\<close>

lemma bind_Inr: "m s = (Inr x, t) \<Longrightarrow> op_bind m f s = f x t"
  by (simp add: op_bind_def)

lemma bind_Inl: "m s = (Inl e, t) \<Longrightarrow> op_bind m f s = (Inl e, t)"
  by (simp add: op_bind_def)

lemma op_simps [simp]:
  "op_bind (op_read f) g s = g (f s) s"
  "op_bind (op_update h) k s = k () (h s)"
  "op_bind (op_lift (Inr x)) g s = g x s"
  "op_bind (op_lift (Inl e)) g s = (Inl e, s)"
  "op_bind (op_fail c w) g s = (fail c w, s)"
  "op_guard True c w = op_fail c w"
  "op_return x s = (Inr x, s)" "op_read f s = (Inr (f s), s)" "op_update h s = (success, h s)"
  "op_lift r s = (r, s)" "op_fail c w s = (fail c w, s)"
  by (simp_all add: op_bind_def op_read_def op_update_def op_lift_def op_fail_def op_guard_def op_return_def)

lemma op_bind_assoc: "op_bind (op_bind m f) g = op_bind m (\<lambda>x. op_bind (f x) g)"
  by (rule ext) (simp add: op_bind_def split: prod.split sum.split)

lemma on_files_simps [simp]:
  "m (st_files s) = (r, fs) \<Longrightarrow> on_files m s = (r, s\<lparr>st_files := fs\<rparr>)"
  by (simp add: on_files_def)

section \<open>Calls that do not fail\<close>

abbreviation quiet :: "files \<Rightarrow> bool" where
  "quiet fs \<equiv> fs_faults fs = []"

lemma os_call_quiet: "quiet fs \<Longrightarrow> os_call k m f h fs = (success, f fs)"
  by (simp add: os_call_def)

lemma quiet_calls:
  assumes "quiet fs"
  shows "os_query k m fs = (success, fs)"
    "ensure_directory fs = (success, fs)"
    "acquire_file_lock fs = (success, fs)"
    "path_size content fs = (Inr (length (content fs)), fs)"
    "file_open_append fs = (success, fs\<lparr>fs_journal := Some (journal_content fs), fs_handle := True\<rparr>)"
  using assms
  by (simp_all add: os_query_def os_call_def ensure_directory_def acquire_file_lock_def bind_Inr
      path_size_def file_open_append_def)

lemma quiet_journal:
  assumes "quiet fs" "fs_handle fs"
  shows "file_size fs = (Inr (length (journal_content fs)), fs)"
    "n \<le> 0x7FFFFFFFFFFFFFFF \<Longrightarrow> file_seek n fs = (success, fs)"
    "file_read n fs = (Inr (take n (journal_content fs)), fs)"
    "file_write data fs = (success, if data = [] then fs else append_journal data fs)"
    "file_flush fs = (success, fs)"
    "file_sync fs = (success, fs\<lparr>fs_synced := length (journal_content fs)\<rparr>)"
    "n \<le> 0x7FFFFFFFFFFFFFFF \<Longrightarrow> file_truncate n fs = (success, cut_journal n fs)"
proof -
  have h: "need_handle fs = (success, fs)" using assms by (simp add: need_handle_def)
  note q = quiet_calls(1)[OF assms(1)]
  show "file_size fs = (Inr (length (journal_content fs)), fs)"
    by (simp add: file_size_def bind_Inr h q)
  show "file_seek n fs = (success, fs)" if "n \<le> 0x7FFFFFFFFFFFFFFF"
    using that by (simp add: file_seek_def bind_Inr h q)
  show "file_read n fs = (Inr (take n (journal_content fs)), fs)"
    by (simp add: file_read_def bind_Inr h q)
  show "file_write data fs = (success, if data = [] then fs else append_journal data fs)"
    by (simp add: file_write_def bind_Inr h os_call_quiet[OF assms(1)])
  show f: "file_flush fs = (success, fs)"
    by (simp add: file_flush_def bind_Inr h q)
  show "file_sync fs = (success, fs\<lparr>fs_synced := length (journal_content fs)\<rparr>)"
    by (simp add: file_sync_def bind_Inr f os_call_quiet[OF assms(1)])
  show "file_truncate n fs = (success, cut_journal n fs)" if "n \<le> 0x7FFFFFFFFFFFFFFF"
    using that by (simp add: file_truncate_def bind_Inr h f os_call_quiet[OF assms(1)])
qed

section \<open>Replay as a function of the log\<close>

text \<open>The loop of \<open>replay\<close> without the report: the open transaction, its body, the ambiguity flag and
  the state.\<close>

fun replay_log :: "u64 option \<Rightarrow> journal_record list \<Rightarrow> u64 \<times> byte list \<times> bool \<times> durable_state \<Rightarrow>
    (u64 \<times> byte list \<times> bool \<times> durable_state) option" where
  "replay_log c [] z = Some z"
| "replay_log c (r # rs) (txn, pending, amb, d) =
     (if (case c of None \<Rightarrow> False | Some q \<Rightarrow> jr_sequence r \<le> q) then replay_log c rs (txn, pending, amb, d)
      else case jr_type r of
        Rec_Checkpoint \<Rightarrow>
          (case decode_durable (jr_payload r) of
             Inl e \<Rightarrow> None
           | Inr d' \<Rightarrow> replay_log c rs (0, if txn \<noteq> 0 then [] else pending, amb \<or> txn \<noteq> 0, d'))
      | Rec_Begin \<Rightarrow> replay_log c rs (jr_sequence r, jr_payload r, amb \<or> txn \<noteq> 0, d)
      | Rec_Commit \<Rightarrow>
          (if txn \<noteq> jr_sequence r then None
           else case decode_durable pending of
             Inl e \<Rightarrow> None | Inr d' \<Rightarrow> replay_log c rs (0, [], amb, d')))"

lemma replay_log_append:
  "replay_log c (rs @ ss) z = Option.bind (replay_log c rs z) (replay_log c ss)"
proof (induction rs arbitrary: z)
  case (Cons r rs)
  then show ?case by (cases z) (auto split: option.splits sum.splits record_type.split)
qed simp

definition covered_by :: "pod_store \<Rightarrow> u64 option" where
  "covered_by s = (if st_have_checkpoint s then Some (st_checkpoint_sequence s) else None)"

text \<open>Stores that differ in their report only, where the count of applied records and the flag agree
  on whether something was recovered.\<close>

lemma replay_records_log:
  assumes "replay_log (covered_by s) rs (txn, pending, amb, st_state s) = Some (txn', pending', amb', d)"
  shows "\<exists>rep. replay_records rs txn pending amb s = (Inr (txn', amb'), s\<lparr>st_state := d, st_recovery := rep\<rparr>) \<and>
    rr_outcome rep = rr_outcome (st_recovery s)"
  using assms
proof (induction rs arbitrary: txn pending amb s)
  case Nil
  have "s = s\<lparr>st_state := st_state s, st_recovery := st_recovery s\<rparr>" by simp
  with Nil show ?case by (intro exI[of _ "st_recovery s"]) simp
next
  case (Cons r rs)
  have cb: "covered_by (apply_record e s) = covered_by s" "covered_by (skip_record s) = covered_by s"
    "st_state (apply_record e s) = e" "st_state (skip_record s) = st_state s"
    "\<And>f. (apply_record e s)\<lparr>st_state := d, st_recovery := f\<rparr> = s\<lparr>st_state := d, st_recovery := f\<rparr>"
    "\<And>f. (skip_record s)\<lparr>st_state := d, st_recovery := f\<rparr> = s\<lparr>st_state := d, st_recovery := f\<rparr>"
    "rr_outcome (st_recovery (apply_record e s)) = rr_outcome (st_recovery s)"
    "rr_outcome (st_recovery (skip_record s)) = rr_outcome (st_recovery s)" for e
    by (simp_all add: covered_by_def apply_record_def skip_record_def set_recovery_def)
  show ?case
  proof (cases "case covered_by s of None \<Rightarrow> False | Some q \<Rightarrow> jr_sequence r \<le> q")
    case True
    then have "st_have_checkpoint s \<and> jr_sequence r \<le> st_checkpoint_sequence s"
      by (auto simp: covered_by_def split: if_splits)
    with True Cons.prems Cons.IH[of "skip_record s" txn pending amb] show ?thesis by (simp add: cb)
  next
    case False
    then have n: "\<not> (st_have_checkpoint s \<and> jr_sequence r \<le> st_checkpoint_sequence s)"
      by (auto simp: covered_by_def)
    show ?thesis
    proof (cases "jr_type r")
      case Rec_Checkpoint
      with False Cons.prems obtain e where e: "decode_durable (jr_payload r) = Inr e"
        by (auto split: sum.splits)
      have "replay_records (r # rs) txn pending amb s = replay_records rs 0
          (if txn \<noteq> 0 then [] else pending) (amb \<or> txn \<noteq> 0) (apply_record e s)"
        using Rec_Checkpoint e by (simp add: n)
      moreover have "replay_log (covered_by (apply_record e s)) rs (0, if txn \<noteq> 0 then [] else pending,
          amb \<or> txn \<noteq> 0, st_state (apply_record e s)) = Some (txn', pending', amb', d)"
        using False Rec_Checkpoint e Cons.prems by (simp only: cb) simp
      ultimately show ?thesis using Cons.IH[of "apply_record e s"] by (simp only: cb)
    next
      case Rec_Begin
      have "replay_records (r # rs) txn pending amb s =
          replay_records rs (jr_sequence r) (jr_payload r) (amb \<or> txn \<noteq> 0) s"
        using Rec_Begin by (simp add: n)
      with False Rec_Begin Cons.prems Cons.IH[of s] show ?thesis by simp
    next
      case Rec_Commit
      with False Cons.prems obtain e where e: "decode_durable pending = Inr e" "txn = jr_sequence r"
        by (auto split: sum.splits if_splits)
      have "replay_records (r # rs) txn pending amb s = replay_records rs 0 [] amb (apply_record e s)"
        using Rec_Commit e by (simp add: n)
      moreover have "replay_log (covered_by (apply_record e s)) rs (0, [], amb, st_state (apply_record e s)) =
          Some (txn', pending', amb', d)"
        using False Rec_Commit e Cons.prems by (simp only: cb) simp
      ultimately show ?thesis using Cons.IH[of "apply_record e s"] by (simp only: cb)
    qed
  qed
qed

section \<open>The checkpoint file\<close>

definition checkpoint_image :: "byte list \<Rightarrow> byte list" where
  "checkpoint_image body =
     checkpoint_head (length body) @ be32 (crc32c (checkpoint_head (length body))) @ body @
     digest_of_bytes body"

lemma length_checkpoint_head [simp]: "length (checkpoint_head n) = 16"
  by (simp add: checkpoint_head_def checkpoint_magic_def)

lemma length_checkpoint_image [simp]: "length (checkpoint_image body) = 52 + length body"
  by (simp add: checkpoint_image_def)

lemma encode_checkpoint_image: "encode_durable d = Inr body \<Longrightarrow> encode_checkpoint d = Inr (checkpoint_image body)"
  by (simp add: encode_checkpoint_def checkpoint_image_def Let_def)

text \<open>Settings under which a store can work: a directory, a valid policy whose journal bound leaves room
  for a record and its framing and does not overflow when it is multiplied, and tail repair.\<close>

definition record_limit :: "store_options \<Rightarrow> nat" where
  "record_limit opt = unat (po_max_journal_record_bytes (so_policy opt))"

definition journal_limit :: "store_options \<Rightarrow> nat" where
  "journal_limit opt = unat (po_max_journal_bytes (so_policy opt))"

definition workable :: "store_options \<Rightarrow> bool" where
  "workable opt \<longleftrightarrow> so_directory opt \<noteq> [] \<and> so_repair_torn_tail opt \<and>
     validate_policy (so_policy opt) = success \<and>
     record_limit opt + 40 \<le> journal_limit opt \<and> journal_limit opt < 2 ^ 60"

lemma workable_bounds:
  assumes "workable opt"
  shows "unat (po_max_journal_bytes (so_policy opt) * 4) = journal_limit opt * 4"
    "unat (po_max_journal_bytes (so_policy opt) * 2) = journal_limit opt * 2"
proof -
  let ?w = "po_max_journal_bytes (so_policy opt)"
  have l: "unat ?w < 2 ^ 60" using assms by (simp add: workable_def journal_limit_def)
  then show "unat (?w * 4) = journal_limit opt * 4" "unat (?w * 2) = journal_limit opt * 2"
    by (simp_all add: unat_word_ariths journal_limit_def)
qed

lemma parse_checkpoint_image:
  assumes "workable opt" "durable_ok d" "encode_durable d = Inr body" "length body \<le> record_limit opt"
  shows "parse_checkpoint (so_policy opt) (checkpoint_image body) = Inr d"
proof -
  let ?h = "checkpoint_head (length body)" and ?n = "of_nat (length body) :: u32"
  have w: "length body \<le> 16777216" "decode_durable body = Inr d"
    using durable_roundtrip_whole[OF assms(2,3)] by simp_all
  have u: "unat ?n = length body" using w(1) by (intro unat_length) simp
  have m: "length checkpoint_magic = 8" by (simp add: checkpoint_magic_def)
  have r: "take 8 (checkpoint_image body) = checkpoint_magic"
    "read_u16 8 (checkpoint_image body) = durable_state_version"
    "read_u32 12 (checkpoint_image body) = ?n"
    by (simp_all add: checkpoint_image_def checkpoint_head_def read_u16_def read_u32_def subspan_def m from_be_inverse)
  have t: "take 16 (checkpoint_image body) = ?h" "read_u32 16 (checkpoint_image body) = crc32c ?h"
    "subspan 20 (length body) (checkpoint_image body) = body"
    "subspan (20 + length body) 32 (checkpoint_image body) = digest_of_bytes body"
    by (simp_all add: checkpoint_image_def read_u32_def subspan_def from_be_inverse)
  have "\<not> po_max_journal_bytes (so_policy opt) * 4 < ucast ?n"
  proof -
    have "(ucast ?n :: u64) = of_nat (unat ?n)" by (simp only: of_nat_unat)
    then have "(ucast ?n :: u64) = of_nat (length body)" by (simp only: u)
    then have "unat (ucast ?n :: u64) = length body"
      using w(1) by (simp only: unat_of_nat) (simp add: take_bit_nat_eq_self)
    then show ?thesis
      using assms(1,4) workable_bounds(1)[OF assms(1)] by (simp add: word_less_nat_alt workable_def)
  qed
  then show ?thesis
    using w(2) u by (simp add: parse_checkpoint_def r t checkpoint_header_def Let_def)
qed

definition holds_checkpoint :: "store_options \<Rightarrow> files \<Rightarrow> durable_state option \<Rightarrow> bool" where
  "holds_checkpoint opt fs c =
     (case c of
        None \<Rightarrow> fs_checkpoint fs = None
      | Some d \<Rightarrow> durable_ok d \<and> (\<exists>body. encode_durable d = Inr body \<and> length body \<le> record_limit opt \<and>
          fs_checkpoint fs = Some (checkpoint_image body)))"

lemma holds_checkpoint_cong:
  "fs_checkpoint fs = fs_checkpoint gs \<Longrightarrow> holds_checkpoint opt fs c = holds_checkpoint opt gs c"
  by (cases c) (simp_all add: holds_checkpoint_def)

definition start_from :: "durable_state option \<Rightarrow> pod_store \<Rightarrow> pod_store" where
  "start_from c s =
     (case c of
        None \<Rightarrow> s\<lparr>st_have_checkpoint := False, st_checkpoint_sequence := 0\<rparr>
      | Some d \<Rightarrow> set_recovery (\<lambda>r. r\<lparr>rr_recovered_from_store := True\<rparr>)
          (s\<lparr>st_have_checkpoint := True, st_checkpoint_sequence := ds_sequence d, st_state := d\<rparr>))"

lemma open_checkpoint_holds:
  assumes "workable (st_options s)" "quiet (st_files s)" "holds_checkpoint (st_options s) (st_files s) c"
  shows "open_checkpoint s = (Inr (c \<noteq> None), start_from c s)"
proof (cases c)
  case None
  then have "load_checkpoint s = (Inr None, s)" using assms(3) by (simp add: load_checkpoint_def holds_checkpoint_def)
  with None show ?thesis by (simp add: open_checkpoint_def start_from_def)
next
  case (Some d)
  then obtain body where b: "durable_ok d" "encode_durable d = Inr body"
    "length body \<le> record_limit (st_options s)" "fs_checkpoint (st_files s) = Some (checkpoint_image body)"
    using assms(3) by (auto simp: holds_checkpoint_def)
  let ?opt = "st_options s" and ?fs = "st_files s"
  have "checkpoint_content ?fs = checkpoint_image body" by (simp add: checkpoint_content_def b(4))
  moreover have "52 + length body \<le> unat (po_max_journal_bytes (so_policy ?opt) * 4)"
    using b(3) assms(1) by (simp add: workable_bounds[OF assms(1)] workable_def)
  ultimately have "read_checkpoint_file (unat (po_max_journal_bytes (so_policy ?opt) * 4)) ?fs =
      (Inr (checkpoint_image body), ?fs)"
    using quiet_calls[OF assms(2)] b(4) by (simp add: read_checkpoint_file_def bind_Inr op_when_def)
  then have "load_checkpoint s = (Inr (Some d), s)"
    using parse_checkpoint_image[OF assms(1) b(1-3)] b(4) by (simp add: load_checkpoint_def bind_Inr)
  with Some show ?thesis by (simp add: open_checkpoint_def start_from_def)
qed

section \<open>Reopening\<close>

lemma frames_whole: "take (length (frames (whole_records n rs))) (frames rs) = frames (whole_records n rs)"
proof -
  obtain ss where "rs = whole_records n rs @ ss" using whole_records_prefix by blast
  then have "frames rs = frames (whole_records n rs) @ frames ss" by (metis frames_simps(3))
  then show ?thesis by simp
qed

lemma settle_clean:
  assumes "js_status scan = Scan_Clean"
  shows "\<exists>rep. replay_settle scan amb s = (success, s\<lparr>st_recovery := rep\<rparr>) \<and>
    rr_ambiguous_commit rep = amb \<and> recovery_usable rep"
proof -
  let ?rep = "st_recovery (snd (replay_settle scan amb s))"
  have "replay_settle scan amb s = (success, s\<lparr>st_recovery := ?rep\<rparr>) \<and>
      rr_ambiguous_commit ?rep = amb \<and> recovery_usable ?rep"
    using assms by (cases amb) (simp_all add: replay_settle_def set_recovery_def recovery_usable_def)
  then show ?thesis by blast
qed

lemma settle_damaged:
  assumes "js_status scan \<noteq> Scan_Clean" "so_repair_torn_tail (st_options s)" "quiet (st_files s)"
    "fs_handle (st_files s)" "js_valid_bytes scan \<le> 0x7FFFFFFFFFFFFFFF"
  shows "\<exists>rep. replay_settle scan amb s = (success, s\<lparr>st_recovery := rep, st_files :=
      (cut_journal (js_valid_bytes scan) (st_files s))
        \<lparr>fs_synced := length (journal_content (cut_journal (js_valid_bytes scan) (st_files s)))\<rparr>\<rparr>) \<and>
    rr_ambiguous_commit rep = amb \<and> recovery_usable rep"
proof -
  let ?c = "cut_journal (js_valid_bytes scan) (st_files s)"
  note t = quiet_journal(7)[OF assms(3,4,5)]
  have c: "file_sync ?c = (success, ?c\<lparr>fs_synced := length (journal_content ?c)\<rparr>)"
    using assms(3,4) by (intro quiet_journal(6)) (simp_all add: cut_journal_def Let_def)
  let ?rep = "st_recovery (snd (replay_settle scan amb s))"
  have "replay_settle scan amb s = (success, s\<lparr>st_recovery := ?rep, st_files :=
      ?c\<lparr>fs_synced := length (journal_content ?c)\<rparr>\<rparr>) \<and>
      rr_ambiguous_commit ?rep = amb \<and> recovery_usable ?rep"
    using assms(1,2) t c
    by (cases amb; cases "js_status scan = Scan_TornTail")
      (simp_all add: replay_settle_def set_recovery_def recovery_usable_def bind_Inr)
  then show ?thesis by blast
qed

lemma replay_holds:
  assumes "workable (st_options s)" "quiet (st_files s)" "fs_handle (st_files s)"
    "fs_journal (st_files s) = Some (take (16 + n) (journal_image rs))"
    "fs_synced (st_files s) = length (take (16 + n) (journal_image rs))"
    "n \<le> length (frames rs)" "\<forall>r \<in> set rs. fits (record_limit (st_options s)) r"
    "16 + n \<le> 2 * journal_limit (st_options s)"
    "replay_log (covered_by s) (whole_records n rs) (0, [], False, st_state s) = Some (txn, pending, amb, d)"
  shows "\<exists>rep. replay s = (success, s\<lparr>st_state := d, st_recovery := rep,
      st_files := (st_files s)\<lparr>fs_journal := Some (journal_image (whole_records n rs)),
        fs_synced := length (journal_image (whole_records n rs))\<rparr>\<rparr>) \<and>
    rr_ambiguous_commit rep = (amb \<or> txn \<noteq> 0) \<and> recovery_usable rep"
proof -
  let ?fs = "st_files s" and ?b = "take (16 + n) (journal_image rs)" and ?whole = "whole_records n rs"
  let ?scan = "scan_journal ?b (record_limit (st_options s))"
  let ?len = "length (frames ?whole)"
  have l: "length ?b = 16 + n" using assms(6) by (simp add: journal_image_def)
  have jc: "journal_content ?fs = ?b" by (simp add: journal_content_def assms(4))
  have big: "16 + n < 2 ^ 61" using assms(1,8) by (simp add: workable_def)
  note sc = scan_truncated[OF assms(7,6), unfolded Let_def]
  have status: "js_status ?scan = (if ?len = n then Scan_Clean else Scan_TornTail)"
    "js_records ?scan = ?whole" using sc by simp_all
  have "replay s = replay_scan ?scan s"
    using l jc big assms(8) quiet_journal(1-3)[OF assms(2,3)]
    by (simp add: replay_def bind_Inr workable_bounds[OF assms(1)] record_limit_def)
  also have "\<dots> = op_bind (replay_records ?whole 0 [] False) (\<lambda>(open_txn, ambiguous).
      replay_settle ?scan (ambiguous \<or> open_txn \<noteq> 0))
      (set_recovery (\<lambda>r. r\<lparr>rr_records_scanned := length ?whole, rr_discarded_bytes := js_discarded_bytes ?scan\<rparr>) s)"
    using status by (simp add: replay_scan_def)
  finally have eq: "replay s = \<dots>" .
  let ?s = "set_recovery (\<lambda>r. r\<lparr>rr_records_scanned := length ?whole, rr_discarded_bytes := js_discarded_bytes ?scan\<rparr>) s"
  have "covered_by ?s = covered_by s" "st_state ?s = st_state s" by (simp_all add: covered_by_def set_recovery_def)
  with assms(9) obtain rep0 where "replay_records ?whole 0 [] False ?s = (Inr (txn, amb), ?s\<lparr>st_state := d, st_recovery := rep0\<rparr>)"
    using replay_records_log[of ?s ?whole 0 "[]" False] by auto
  then have r: "replay s = replay_settle ?scan (amb \<or> txn \<noteq> 0) (s\<lparr>st_state := d, st_recovery := rep0\<rparr>)"
    unfolding eq by (simp add: bind_Inr set_recovery_def)
  let ?t = "s\<lparr>st_state := d, st_recovery := rep0\<rparr>"
  show ?thesis
  proof (cases "?len = n")
    case True
    have "?b = journal_image ?whole"
      using frames_whole[of n rs] by (simp add: journal_image_def True)
    then have fs: "?fs\<lparr>fs_journal := Some (journal_image ?whole), fs_synced := length (journal_image ?whole)\<rparr> = ?fs"
      using assms(4,5) by simp
    have "js_status ?scan = Scan_Clean" using True status by simp
    from settle_clean[OF this, of "amb \<or> txn \<noteq> 0" ?t] show ?thesis
      unfolding r fs by simp
  next
    case False
    have v: "js_valid_bytes ?scan = 16 + ?len" "?len \<le> n"
      using False sc whole_records_le[of n rs] by (auto split: if_splits)
    have "take (16 + ?len) ?b = journal_image ?whole"
      using frames_whole[of n rs] v(2) by (simp add: journal_image_def min_absorb1)
    then have cut: "cut_journal (16 + ?len) ?fs = ?fs\<lparr>fs_journal := Some (journal_image ?whole),
        fs_synced := 16 + ?len\<rparr>"
      using v(2) l jc assms(5) by (simp add: cut_journal_def Let_def)
    have len: "length (journal_image ?whole) = 16 + ?len" by (simp add: journal_image_def)
    have "js_status ?scan \<noteq> Scan_Clean" using False status by simp
    from settle_damaged[OF this, of ?t "amb \<or> txn \<noteq> 0"] show ?thesis
      unfolding r using v big assms(1,2,3)
      by (simp add: workable_def cut journal_content_def len)
  qed
qed

lemma same_files [simp]: "fs = st_files s \<Longrightarrow> s\<lparr>st_files := fs\<rparr> = s"
  by simp

definition base_state :: "durable_state option \<Rightarrow> durable_state" where
  "base_state c = (case c of None \<Rightarrow> durable_default | Some d \<Rightarrow> d)"

text \<open>The store after the lock, the checkpoint and the journal stream have been opened.\<close>

definition opened :: "store_options \<Rightarrow> files \<Rightarrow> durable_state option \<Rightarrow> pod_store" where
  "opened opt fs c =
     (start_from c ((store_new opt fs)\<lparr>st_locked := True\<rparr>))
       \<lparr>st_files := fs\<lparr>fs_journal := Some (journal_content fs), fs_handle := True\<rparr>\<rparr>"

lemma opened_simps [simp]:
  "st_options (opened opt fs c) = opt"
  "st_files (opened opt fs c) = fs\<lparr>fs_journal := Some (journal_content fs), fs_handle := True\<rparr>"
  "st_state (opened opt fs c) = base_state c"
  "covered_by (opened opt fs c) = map_option ds_sequence c"
  "st_open (opened opt fs c) = False"
  "st_have_checkpoint (opened opt fs c) = (c \<noteq> None)"
  "st_checkpoint_sequence (opened opt fs c) = (case c of None \<Rightarrow> 0 | Some d \<Rightarrow> ds_sequence d)"
  by (simp_all add: opened_def start_from_def store_new_def base_state_def covered_by_def set_recovery_def
      split: option.split)

lemma open_reduces:
  assumes "workable opt" "quiet fs" "holds_checkpoint opt fs c"
  shows "store_open now (store_new opt fs) =
    op_then replay
      (op_then (op_when (journal_content fs = [] \<and> c = None) (op_then write_header (on_files file_sync)))
      (op_update (\<lambda>s. set_recovery (\<lambda>r. r\<lparr>rr_recovered_at := now\<rparr>) (s\<lparr>st_open := True\<rparr>)))) (opened opt fs c)"
proof -
  let ?s = "store_new opt fs"
  let ?s1 = "?s\<lparr>st_locked := True\<rparr>"
  let ?s2 = "start_from c ?s1"
  have s: "st_options ?s = opt" "st_files ?s = fs" "\<not> st_locked ?s" "\<not> st_open ?s" by (simp_all add: store_new_def)
  note q = quiet_calls[OF assms(2)]
  have 1: "on_files ensure_directory ?s = (success, ?s)" using q(2) s by simp
  have 2: "acquire_lock ?s = (success, ?s1)"
    using q(3) s by (simp add: acquire_lock_def)
  have 3: "open_checkpoint ?s1 = (Inr (c \<noteq> None), ?s2)"
    using assms s by (intro open_checkpoint_holds) simp_all
  have f: "st_files ?s2 = fs" using s by (simp add: start_from_def set_recovery_def split: option.split)
  have 4: "journal_existed ?s2 = (Inr (journal_content fs \<noteq> []), ?s2)"
  proof (cases "fs_journal fs")
    case None
    then show ?thesis by (simp add: journal_existed_def store_journal_bytes_def f journal_content_def)
  next
    case (Some bs)
    then have "on_files (path_size journal_content) ?s2 = (Inr (length bs), ?s2)"
      using q(4)[of journal_content] f by (simp add: journal_content_def)
    with Some show ?thesis by (simp add: journal_existed_def store_journal_bytes_def f journal_content_def)
  qed
  have 5: "on_files file_open_append ?s2 = (success, opened opt fs c)"
    using q(5) f by (simp add: opened_def)
  have p: "validate_policy (so_policy opt) = success" "so_directory opt \<noteq> []"
    using assms(1) by (simp_all add: workable_def)
  show ?thesis
    using s p by (simp add: store_open_def bind_Inr 1 2 3 4 5)
qed

definition usable_store :: "store_options \<Rightarrow> durable_state option \<Rightarrow> bool \<Rightarrow> durable_state \<Rightarrow> pod_store \<Rightarrow> bool" where
  "usable_store opt c amb d u \<longleftrightarrow> st_options u = opt \<and> st_open u \<and> st_state u = d \<and>
     covered_by u = map_option ds_sequence c \<and> recovery_usable (st_recovery u) \<and>
     rr_ambiguous_commit (st_recovery u) = amb"

lemma open_holds:
  assumes "workable opt" "quiet fs" "holds_checkpoint opt fs c"
    "fs_journal fs = Some (take (16 + n) (journal_image rs))"
    "fs_synced fs = length (take (16 + n) (journal_image rs))"
    "n \<le> length (frames rs)" "\<forall>r \<in> set rs. fits (record_limit opt) r" "16 + n \<le> 2 * journal_limit opt"
    "replay_log (map_option ds_sequence c) (whole_records n rs) (0, [], False, base_state c) = Some (txn, pending, amb, d)"
  shows "\<exists>u. store_open now (store_new opt fs) = (success, u) \<and> usable_store opt c (amb \<or> txn \<noteq> 0) d u \<and>
    st_files u = fs\<lparr>fs_handle := True, fs_journal := Some (journal_image (whole_records n rs)),
      fs_synced := length (journal_image (whole_records n rs))\<rparr>"
proof -
  let ?s = "opened opt fs c" and ?w = "journal_image (whole_records n rs)"
  have jc: "journal_content fs = take (16 + n) (journal_image rs)" by (simp add: journal_content_def assms(4))
  have "length (journal_content fs) = 16 + n" using assms(6) by (simp add: jc journal_image_def)
  then have ne: "journal_content fs \<noteq> []" by auto
  have "\<exists>rep. replay ?s = (success, ?s\<lparr>st_state := d, st_recovery := rep,
      st_files := (st_files ?s)\<lparr>fs_journal := Some ?w, fs_synced := length ?w\<rparr>\<rparr>) \<and>
      rr_ambiguous_commit rep = (amb \<or> txn \<noteq> 0) \<and> recovery_usable rep"
    using assms jc by (intro replay_holds) simp_all
  then obtain rep where r: "replay ?s = (success, ?s\<lparr>st_state := d, st_recovery := rep,
      st_files := (st_files ?s)\<lparr>fs_journal := Some ?w, fs_synced := length ?w\<rparr>\<rparr>)"
    "rr_ambiguous_commit rep = (amb \<or> txn \<noteq> 0)" "recovery_usable rep" by blast
  show ?thesis
    using r ne by (cases c) (simp_all add: open_reduces[OF assms(1-3)] bind_Inr r(1) op_when_def usable_store_def
        set_recovery_def covered_by_def recovery_usable_def)
qed

lemma open_empty:
  assumes "workable opt" "quiet fs" "holds_checkpoint opt fs c" "journal_content fs = []"
  shows "\<exists>u. store_open now (store_new opt fs) = (success, u) \<and> usable_store opt c False (base_state c) u \<and>
    st_files u = fs\<lparr>fs_handle := True,
      fs_journal := Some (if c = None then journal_image [] else []),
      fs_synced := (if c = None then length (journal_image []) else fs_synced fs)\<rparr>"
proof -
  let ?s = "opened opt fs c"
  have c0: "journal_content (st_files ?s) = []" using assms(4) by (simp add: journal_content_def)
  have "file_size (st_files ?s) = (Inr 0, st_files ?s)"
    using assms(2) c0 quiet_journal(1)[of "st_files ?s"] by simp
  then have r: "replay ?s = (success, replay_empty ?s)" by (simp add: replay_def bind_Inr)
  let ?t = "replay_empty ?s" and ?h = "encode_journal_header journal_version"
  have t: "st_files ?t = st_files ?s" "st_options ?t = opt" "st_state ?t = base_state c"
    "covered_by ?t = map_option ds_sequence c" "recovery_usable (st_recovery ?t)"
    "rr_ambiguous_commit (st_recovery ?t) = False" "st_have_checkpoint ?t = (c \<noteq> None)"
    by (simp_all add: replay_empty_def set_recovery_def covered_by_def recovery_usable_def opened_def
        start_from_def store_new_def recovery_default_def base_state_def split: option.split)
  have h: "?h \<noteq> []" using header_size[of journal_version] by (metis list.size(3) zero_neq_numeral)
  let ?g = "fs\<lparr>fs_handle := True, fs_journal := Some (journal_image [])\<rparr>"
  have f: "append_journal ?h (st_files ?s) = ?g"
    using assms(4) by (simp add: append_journal_def journal_image_def journal_content_def)
  have w: "write_header ?t = (success, ?t\<lparr>st_files := ?g\<rparr>)"
    using assms(2) h t(1) quiet_journal(4)[of "st_files ?s" ?h] unfolding f by (simp add: write_header_def)
  have "journal_content ?g = journal_image []" by (simp add: journal_content_def)
  then have "file_sync ?g = (success, ?g\<lparr>fs_synced := length (journal_image [])\<rparr>)"
    using assms(2) quiet_journal(6)[of ?g] by simp
  then have y: "on_files file_sync (?t\<lparr>st_files := ?g\<rparr>) =
      (success, ?t\<lparr>st_files := ?g\<lparr>fs_synced := length (journal_image [])\<rparr>\<rparr>)"
    by simp
  show ?thesis
  proof (cases c)
    case None
    show ?thesis
      unfolding open_reduces[OF assms(1-3)]
      using None t r w y by (simp add: bind_Inr op_when_def assms(4) op_bind_assoc usable_store_def set_recovery_def covered_by_def recovery_usable_def)
  next
    case (Some d)
    show ?thesis
      unfolding open_reduces[OF assms(1-3)]
      using Some t r by (simp add: bind_Inr op_when_def assms(4) usable_store_def set_recovery_def covered_by_def recovery_usable_def)
  qed
qed

text \<open>A journal cut inside its header is refused.\<close>

lemma open_torn_header:
  assumes "workable opt" "quiet fs" "holds_checkpoint opt fs c"
    "0 < length (journal_content fs)" "length (journal_content fs) < 16"
  shows "\<exists>u m. store_open now (store_new opt fs) = (fail Code_Corrupt m, u)"
proof -
  let ?s = "opened opt fs c"
  let ?b = "journal_content fs"
  have jc: "journal_content (st_files ?s) = ?b" by (simp add: journal_content_def)
  have lim: "length ?b \<le> journal_limit opt * 2" using assms(1,5) by (simp add: workable_def)
  have "js_status (scan_journal ?b (record_limit opt)) = Scan_Corrupt"
    using assms(5) by (simp add: scan_journal_def journal_header_size_def)
  moreover have "replay ?s = replay_scan (scan_journal ?b (record_limit opt)) ?s"
    using assms lim jc quiet_journal(1-3)[of "st_files ?s"]
    by (simp add: replay_def bind_Inr workable_bounds[OF assms(1)] record_limit_def)
  ultimately obtain u m where "replay ?s = (fail Code_Corrupt m, u)" by (simp add: replay_scan_def)
  then show ?thesis by (simp add: open_reduces[OF assms(1-3)] bind_Inl)
qed

end
