(* ===== verification/Recovery.thy ===== *)
theory Recovery
  imports Reopen
begin

text \<open>
  What the store guarantees across failures and crashes. A store directory \<open>holds\<close> a state when
  its checkpoint and its journal replay to it. Every operating-system call of a commit may
  fail; \<open>committed_disk\<close> lists where it may leave the directory, and reopening the directory after
  a crash finds the old state or the new one.
\<close>

section \<open>Calls that may fail\<close>

text \<open>What of a directory a later process can see.\<close>

definition disk_of :: "files \<Rightarrow> byte list option \<times> nat \<times> byte list option" where
  "disk_of fs = (fs_journal fs, fs_synced fs, fs_checkpoint fs)"

lemma os_call_outcome:
  assumes "os_call k m f h fs = (r, gs)"
  obtains fl where "r = success" "gs = f (fs\<lparr>fs_faults := fl\<rparr>)"
    | fl n where "r = fail k m" "gs = h n (fs\<lparr>fs_faults := fl\<rparr>)"
proof (cases "fs_faults fs")
  case Nil
  then have e: "fs\<lparr>fs_faults := []\<rparr> = fs" by simp
  show thesis by (rule that(1)[of "[]", unfolded e]) (use assms Nil in \<open>simp_all add: os_call_def\<close>)
next
  case (Cons x fl)
  show thesis
  proof (cases x)
    case Io_Done
    then show thesis using assms Cons that(1)[of fl] by (simp add: os_call_def)
  next
    case (Io_Fault n)
    then show thesis using assms Cons that(2)[of n fl] by (simp add: os_call_def)
  qed
qed

lemma bind_outcome:
  assumes "op_bind m f s = (r, t)"
  obtains (stop) e where "m s = (Inl e, t)" "r = Inl e" | (go) x u where "m s = (Inr x, u)" "f x u = (r, t)"
  using assms by (auto simp: op_bind_def split: prod.splits sum.splits)

lemma on_files_outcome:
  assumes "on_files m s = (r, t)"
  obtains gs where "m (st_files s) = (r, gs)" "t = s\<lparr>st_files := gs\<rparr>"
  using assms by (auto simp: on_files_def split: prod.splits)

text \<open>Calls that leave what is on the disk alone, whatever they return.\<close>

definition inert :: "('a, files) op \<Rightarrow> bool" where
  "inert m \<longleftrightarrow> (\<forall>fs r gs. m fs = (r, gs) \<longrightarrow>
     disk_of gs = disk_of fs \<and> fs_handle gs = fs_handle fs \<and> fs_temp gs = fs_temp fs)"

lemma inert_bind: "inert m \<Longrightarrow> (\<And>x. inert (f x)) \<Longrightarrow> inert (op_bind m f)"
  unfolding inert_def by (auto elim!: bind_outcome)

lemma inert_query: "inert (os_query k m)"
  unfolding inert_def os_query_def by (auto elim!: os_call_outcome simp: disk_of_def)

lemma inert_simple: "inert (op_return x)" "inert (op_read f)" "inert (op_guard c k m)" "inert need_handle"
  by (auto simp: inert_def need_handle_def op_guard_def)

lemma inert_flush: "inert file_flush"
  unfolding file_flush_def by (intro inert_bind inert_query inert_simple)

lemma inert_calls: "inert sync_directory" "inert (path_size content)"
  unfolding sync_directory_def path_size_def by (intro inert_bind inert_query inert_simple)+

lemma write_outcome:
  assumes "file_write data fs = (r, gs)" "fs_handle fs" "data \<noteq> []"
  obtains k where "k \<le> length data" "r = success \<longleftrightarrow> k = length data" "fs_handle gs"
    "disk_of gs = (Some (journal_content fs @ take k data), fs_synced fs, fs_checkpoint fs)"
    "fs_temp gs = fs_temp fs"
proof -
  have "os_call Code_Unavailable ''short write to file'' (append_journal data)
     (\<lambda>n. append_journal (take (min n (length data - 1)) data)) fs = (r, gs)"
    using assms by (simp add: file_write_def need_handle_def bind_Inr)
  then show thesis
  proof (cases rule: os_call_outcome)
    case (1 fl)
    then show ?thesis using assms(2) that[of "length data"]
      by (simp add: append_journal_def disk_of_def journal_content_def)
  next
    case (2 fl n)
    have "0 < length data" using assms(3) by simp
    then have "min n (length data - 1) < length data" by linarith
    then show ?thesis using 2 assms(2) that[of "min n (length data - 1)"]
      by (simp add: append_journal_def disk_of_def journal_content_def)
  qed
qed

lemma sync_outcome:
  assumes "file_sync fs = (r, gs)" "fs_handle fs"
  shows "fs_handle gs \<and> fs_journal gs = fs_journal fs \<and> fs_checkpoint gs = fs_checkpoint fs \<and>
    fs_synced gs = (if r = success then length (journal_content fs) else fs_synced fs)"
  using assms(1) unfolding file_sync_def
proof (cases rule: bind_outcome)
  case (stop e)
  then show ?thesis using inert_flush assms(2) by (force simp: inert_def disk_of_def)
next
  case (go x u)
  have u: "disk_of u = disk_of fs" "fs_handle u" using go(1) inert_flush assms(2) by (force simp: inert_def)+
  from go(2) show ?thesis
    by (cases rule: os_call_outcome) (use u in \<open>simp_all add: disk_of_def journal_content_def\<close>)
qed

lemma truncate_outcome:
  assumes "file_truncate 0 fs = (r, gs)" "fs_handle fs"
  shows "fs_handle gs \<and> disk_of gs = (if r = success then (Some [], 0, fs_checkpoint fs) else disk_of fs)"
  using assms(1) unfolding file_truncate_def
proof (cases rule: bind_outcome)
  case (stop e)
  then show ?thesis using assms(2) by (simp add: need_handle_def)
next
  case (go x u)
  then have u: "u = fs" using assms(2) by (simp add: need_handle_def)
  from go(2) show ?thesis
  proof (cases rule: bind_outcome)
    case (stop e)
    then show ?thesis using inert_flush assms(2) u by (force simp: inert_def disk_of_def)
  next
    case (go y v)
    have v: "disk_of v = disk_of fs" "fs_handle v" using go(1) inert_flush assms(2) u by (force simp: inert_def)+
    have "os_call Code_Unavailable ''operating-system error'' (cut_journal 0) (\<lambda>n fs. fs) v = (r, gs)"
      using go(2) by simp
    then show ?thesis
      by (cases rule: os_call_outcome) (use v in \<open>simp_all add: disk_of_def cut_journal_def Let_def\<close>)
  qed
qed

lemma temp_outcome:
  assumes "write_temp data fs = (r, gs)"
  shows "disk_of gs = disk_of fs \<and> fs_handle gs = fs_handle fs \<and> (r = success \<longrightarrow> fs_temp gs = Some data)"
  using assms unfolding write_temp_def
proof (cases rule: bind_outcome)
  case (stop e)
  from stop(1) show ?thesis by (cases rule: os_call_outcome) (use stop(2) in \<open>simp_all add: disk_of_def\<close>)
next
  case (go x u)
  have u: "disk_of u = disk_of fs" "fs_handle u = fs_handle fs" "fs_temp u = Some []"
    using go(1) by (cases rule: os_call_outcome; simp add: disk_of_def)+
  have i: "inert (op_then (os_query Code_Unavailable ''flush failed'')
     (op_then (os_query Code_Unavailable ''operating-system error'')
     (os_query Code_Unavailable ''failed to close file'')))"
    by (intro inert_bind inert_query)
  from go(2) show ?thesis
  proof (cases rule: bind_outcome)
    case (stop e)
    show ?thesis
    proof (cases "data = []")
      case True
      then show ?thesis using stop by (simp add: op_when_def)
    next
      case False
      with stop(1) have "os_call Code_Unavailable ''short write to file'' (\<lambda>fs. fs\<lparr>fs_temp := Some data\<rparr>)
        (\<lambda>n fs. fs\<lparr>fs_temp := Some (take (min n (length data - 1)) data)\<rparr>) u = (Inl e, gs)"
        by (simp add: op_when_def)
      then show ?thesis by (cases rule: os_call_outcome) (use u stop(2) in \<open>simp_all add: disk_of_def\<close>)
    qed
  next
    case (go y v)
    have v: "disk_of v = disk_of fs \<and> fs_handle v = fs_handle fs \<and> fs_temp v = Some data"
    proof (cases "data = []")
      case True
      then show ?thesis using go(1) u by (simp add: op_when_def)
    next
      case False
      with go(1) have "os_call Code_Unavailable ''short write to file'' (\<lambda>fs. fs\<lparr>fs_temp := Some data\<rparr>)
        (\<lambda>n fs. fs\<lparr>fs_temp := Some (take (min n (length data - 1)) data)\<rparr>) u = (success, v)"
        by (simp add: op_when_def)
      then show ?thesis by (cases rule: os_call_outcome) (use u in \<open>simp_all add: disk_of_def\<close>)
    qed
    with go(2) i show ?thesis by (force simp: inert_def)
  qed
qed

lemma replace_outcome:
  assumes "replace_checkpoint fs = (r, gs)"
  shows "fs_handle gs = fs_handle fs \<and>
    disk_of gs = (if r = success then (fs_journal fs, fs_synced fs, fs_temp fs) else disk_of fs)"
  using assms unfolding replace_checkpoint_def by (cases rule: os_call_outcome) (simp_all add: disk_of_def)

section \<open>Compaction and commit on the disk\<close>

definition checkpoint_record :: "durable_state \<Rightarrow> byte list \<Rightarrow> journal_record" where
  "checkpoint_record d body = \<lparr>jr_sequence = ds_sequence d, jr_type = Rec_Checkpoint, jr_payload = body\<rparr>"

text \<open>A compacted directory, possibly cut: the checkpoint is in place and of the new journal the
  first \<open>m\<close> bytes.\<close>

definition compacting :: "durable_state \<Rightarrow> byte list \<Rightarrow> byte list option \<times> nat \<times> byte list option \<Rightarrow> bool" where
  "compacting d body D \<longleftrightarrow> (\<exists>m. D = (Some (take m (journal_image [checkpoint_record d body])), 0,
     Some (checkpoint_image body)))"

lemma header_nonempty: "encode_journal_header v \<noteq> []"
  using header_size[of v] by (metis list.size(3) zero_neq_numeral)

lemma write_checkpoint_outcome:
  assumes "write_checkpoint s = (r, t)" "encode_durable (st_state s) = Inr body"
  shows "\<exists>gs. t = s\<lparr>st_files := gs\<rparr> \<and> fs_handle gs = fs_handle (st_files s) \<and>
    (disk_of gs = disk_of (st_files s) \<and> r \<noteq> success \<or>
     disk_of gs = (fs_journal (st_files s), fs_synced (st_files s), Some (checkpoint_image body)))"
proof -
  let ?fs = "st_files s" and ?img = "checkpoint_image body"
  have "op_then (on_files (write_temp ?img)) (op_then (on_files replace_checkpoint)
      (on_files sync_directory)) s = (r, t)"
    using assms(1) encode_checkpoint_image[OF assms(2)] by (simp add: write_checkpoint_def)
  then show ?thesis
  proof (cases rule: bind_outcome)
    case (stop e)
    obtain gs where g: "write_temp ?img ?fs = (Inl e, gs)" "t = s\<lparr>st_files := gs\<rparr>"
      using stop(1) by (rule on_files_outcome)
    with temp_outcome[OF g(1)] stop(2) show ?thesis by blast
  next
    case (go x u)
    obtain gs where g: "write_temp ?img ?fs = (Inr x, gs)" "u = s\<lparr>st_files := gs\<rparr>"
      using go(1) by (rule on_files_outcome)
    have a: "disk_of gs = disk_of ?fs" "fs_handle gs = fs_handle ?fs" "fs_temp gs = Some ?img"
      using temp_outcome[OF g(1)] by simp_all
    from go(2) show ?thesis
    proof (cases rule: bind_outcome)
      case (stop e)
      obtain hs where h: "replace_checkpoint gs = (Inl e, hs)" "t = u\<lparr>st_files := hs\<rparr>"
        using stop(1) by (rule on_files_outcome) (simp add: g(2))
      with replace_outcome[OF h(1)] stop(2) a g(2) show ?thesis by auto
    next
      case (go y v)
      obtain hs where h: "replace_checkpoint gs = (Inr y, hs)" "v = u\<lparr>st_files := hs\<rparr>"
        using go(1) by (rule on_files_outcome) (simp add: g(2))
      have b: "disk_of hs = (fs_journal gs, fs_synced gs, Some ?img)" "fs_handle hs = fs_handle gs"
        using replace_outcome[OF h(1)] a(3) by simp_all
      obtain ks where k: "sync_directory hs = (r, ks)" "t = v\<lparr>st_files := ks\<rparr>"
        using go(2) by (rule on_files_outcome) (simp add: h(2))
      have "disk_of ks = disk_of hs" "fs_handle ks = fs_handle hs"
        using k(1) inert_calls(1) by (force simp: inert_def)+
      with a b k(2) h(2) g(2) show ?thesis by (auto simp: disk_of_def)
    qed
  qed
qed

lemma op_lift_bind [simp]: "op_bind (op_lift (Inr x)) g = g x"
  by (rule ext) simp

lemma write_header_outcome:
  assumes "write_header s = (r, t)" "fs_handle (st_files s)"
  obtains gs k where "t = s\<lparr>st_files := gs\<rparr>" "fs_handle gs" "k \<le> 16" "r = success \<longleftrightarrow> k = 16"
    "disk_of gs = (Some (journal_content (st_files s) @ take k (encode_journal_header journal_version)),
      fs_synced (st_files s), fs_checkpoint (st_files s))"
proof -
  obtain gs where g: "file_write (encode_journal_header journal_version) (st_files s) = (r, gs)" "t = s\<lparr>st_files := gs\<rparr>"
    using assms(1) unfolding write_header_def by (rule on_files_outcome)
  show thesis using g(1) assms(2) header_nonempty
    by (rule write_outcome) (use g(2) that in simp)
qed

lemma compact_rest_outcome:
  assumes "op_then (on_files (file_truncate 0)) (op_then write_header (op_then (on_files file_flush)
      (op_then (on_files (file_write (frame_of (checkpoint_record d body)))) (on_files file_sync)))) s = (r, t)"
    "fs_handle (st_files s)" "fs_checkpoint (st_files s) = Some (checkpoint_image body)"
  shows "\<exists>gs. t = s\<lparr>st_files := gs\<rparr> \<and> fs_handle gs \<and>
    (disk_of gs = disk_of (st_files s) \<and> r \<noteq> success \<or> compacting d body (disk_of gs) \<and> r \<noteq> success \<or>
     disk_of gs = (Some (journal_image [checkpoint_record d body]),
       length (journal_image [checkpoint_record d body]), Some (checkpoint_image body)))"
  using assms(1)
proof (cases rule: bind_outcome)
  case (stop e)
  obtain gs where g: "file_truncate 0 (st_files s) = (Inl e, gs)" "t = s\<lparr>st_files := gs\<rparr>"
    using stop(1) by (rule on_files_outcome)
  with truncate_outcome[OF g(1) assms(2)] stop(2) show ?thesis by auto
next
  case (go x u)
  let ?r = "checkpoint_record d body" and ?img = "checkpoint_image body" and ?h = "encode_journal_header journal_version"
  obtain gs where g: "file_truncate 0 (st_files s) = (Inr x, gs)" "u = s\<lparr>st_files := gs\<rparr>"
    using go(1) by (rule on_files_outcome)
  have a: "fs_handle gs" "disk_of gs = (Some [], 0, Some ?img)"
    using truncate_outcome[OF g(1) assms(2)] assms(3) by simp_all
  have fu: "fs_handle (st_files u)" "journal_content (st_files u) = []" "fs_synced (st_files u) = 0"
    "fs_checkpoint (st_files u) = Some ?img"
    using a g(2) by (simp_all add: disk_of_def journal_content_def)
  from go(2) show ?thesis
  proof (cases rule: bind_outcome)
    case (stop e)
    from stop(1) fu(1) obtain hs k where h: "t = u\<lparr>st_files := hs\<rparr>" "fs_handle hs" "k \<le> 16"
      "disk_of hs = (Some (take k ?h), 0, Some ?img)"
      by (rule write_header_outcome) (simp add: fu)
    then have "compacting d body (disk_of hs)" by (auto simp: compacting_def journal_image_def intro!: exI[of _ k])
    with h g(2) stop(2) show ?thesis by auto
  next
    case (go y v)
    from go(1) fu(1) obtain hs k where h: "v = u\<lparr>st_files := hs\<rparr>" "fs_handle hs" "k \<le> 16" "Inr y = success \<longleftrightarrow> k = 16"
      "disk_of hs = (Some (take k ?h), 0, Some ?img)"
      by (rule write_header_outcome) (simp add: fu)
    then have v: "fs_handle (st_files v)" "disk_of (st_files v) = (Some ?h, 0, Some ?img)" by simp_all
    from go(2) show ?thesis
    proof (cases rule: bind_outcome)
      case (stop e)
      obtain ls where i: "file_flush hs = (Inl e, ls)" "t = v\<lparr>st_files := ls\<rparr>"
        using stop(1) by (rule on_files_outcome) (simp add: h(1))
      then have "disk_of ls = (Some ?h, 0, Some ?img)" "fs_handle ls"
        using inert_flush h v by (force simp: inert_def)+
      moreover have "compacting d body (Some ?h, 0, Some ?img)"
        by (auto simp: compacting_def journal_image_def intro!: exI[of _ 16])
      ultimately show ?thesis using i(2) h(1) g(2) stop(2) by auto
    next
      case (go z w)
      obtain ls where i: "file_flush hs = (Inr z, ls)" "w = v\<lparr>st_files := ls\<rparr>"
        using go(1) by (rule on_files_outcome) (simp add: h(1))
      then have w: "disk_of ls = (Some ?h, 0, Some ?img)" "fs_handle ls" "journal_content ls = ?h"
        using inert_flush h v by (force simp: inert_def disk_of_def journal_content_def)+
      have n: "frame_of ?r \<noteq> []" using length_frame[of ?r] by (metis list.size(3) add_is_0 zero_neq_numeral)
      from go(2) show ?thesis
      proof (cases rule: bind_outcome)
        case (stop e)
        obtain js where j: "file_write (frame_of ?r) ls = (Inl e, js)" "t = w\<lparr>st_files := js\<rparr>"
          using stop(1) by (rule on_files_outcome) (simp add: i(2))
        from j(1) w(2) n obtain k where k: "k \<le> length (frame_of ?r)" "fs_handle js"
          "disk_of js = (Some (?h @ take k (frame_of ?r)), fs_synced ls, fs_checkpoint ls)"
          by (rule write_outcome) (simp add: w)
        have "compacting d body (disk_of js)"
          using k w(1) by (auto simp: compacting_def journal_image_def disk_of_def intro!: exI[of _ "16 + k"])
        with k(2) j(2) i(2) h(1) g(2) stop(2) show ?thesis by auto
      next
        case (go y' x')
        obtain js where j: "file_write (frame_of ?r) ls = (Inr y', js)" "x' = w\<lparr>st_files := js\<rparr>"
          using go(1) by (rule on_files_outcome) (simp add: i(2))
        from j(1) w(2) n obtain k where k: "k \<le> length (frame_of ?r)" "Inr y' = success \<longleftrightarrow> k = length (frame_of ?r)"
          "fs_handle js" "disk_of js = (Some (?h @ take k (frame_of ?r)), fs_synced ls, fs_checkpoint ls)"
          by (rule write_outcome) (simp add: w)
        then have b: "disk_of js = (Some (journal_image [?r]), 0, Some ?img)"
          using w(1) by (simp add: journal_image_def disk_of_def)
        obtain ks where l: "file_sync js = (r, ks)" "t = x'\<lparr>st_files := ks\<rparr>"
          using go(2) by (rule on_files_outcome) (simp add: j(2))
        have c: "compacting d body (Some (journal_image [?r]), 0, Some ?img)"
          by (auto simp: compacting_def journal_image_def intro!: exI[of _ "16 + length (frame_of ?r)"])
        show ?thesis
          using sync_outcome[OF l(1) k(3)] b c l(2) j(2) i(2) h(1) g(2)
          by (cases "r = success") (auto simp: disk_of_def journal_content_def)
      qed
    qed
  qed
qed

lemma compact_outcome:
  assumes "compact s = (r, t)" "st_open s" "fs_handle (st_files s)" "encode_durable (st_state s) = Inr body"
    "length body \<le> min (record_limit (st_options s)) journal_hard_max_record"
  shows "st_options t = st_options s \<and> st_state t = st_state s \<and> st_open t \<and> fs_handle (st_files t) \<and>
    (disk_of (st_files t) = disk_of (st_files s) \<and> r \<noteq> success \<or>
     disk_of (st_files t) = (fs_journal (st_files s), fs_synced (st_files s), Some (checkpoint_image body)) \<and> r \<noteq> success \<or>
     compacting (st_state s) body (disk_of (st_files t)) \<and> r \<noteq> success \<or>
     disk_of (st_files t) = (Some (journal_image [checkpoint_record (st_state s) body]),
       length (journal_image [checkpoint_record (st_state s) body]), Some (checkpoint_image body)) \<and>
     covered_by t = Some (ds_sequence (st_state s)))"
proof -
  let ?d = "st_state s"
  let ?s2 = "\<lambda>u. u\<lparr>st_checkpoint_sequence := ds_sequence ?d, st_have_checkpoint := True\<rparr>"
  have enc: "encode_record (checkpoint_record ?d body) (unat (po_max_journal_record_bytes (so_policy (st_options s)))) =
      Inr (frame_of (checkpoint_record ?d body))"
    using assms(5) by (simp add: encode_record_frame fits_def checkpoint_record_def record_limit_def)
  have "op_then write_checkpoint (op_then (op_update (\<lambda>s. s\<lparr>st_checkpoint_sequence := ds_sequence (st_state s),
        st_have_checkpoint := True\<rparr>))
     (op_then (on_files (file_truncate 0)) (op_then write_header (op_then (on_files file_flush)
     (op_then (on_files (file_write (frame_of (checkpoint_record ?d body)))) (on_files file_sync)))))) s = (r, t)"
    using assms(1,2) enc[unfolded checkpoint_record_def] assms(4)
    by (simp add: compact_def checkpoint_record_def)
  then show ?thesis
  proof (cases rule: bind_outcome)
    case (stop e)
    with write_checkpoint_outcome[OF stop(1) assms(4)] assms(2,3) show ?thesis by auto
  next
    case (go x u)
    obtain gs where u: "u = s\<lparr>st_files := gs\<rparr>" "fs_handle gs"
      "disk_of gs = (fs_journal (st_files s), fs_synced (st_files s), Some (checkpoint_image body))"
      using write_checkpoint_outcome[OF go(1) assms(4)] assms(3) by auto
    have "op_then (on_files (file_truncate 0)) (op_then write_header (op_then (on_files file_flush)
       (op_then (on_files (file_write (frame_of (checkpoint_record ?d body)))) (on_files file_sync)))) (?s2 u) = (r, t)"
      using go(2) u(1) by simp
    from compact_rest_outcome[OF this] u(2,3)
    obtain hs where "t = (?s2 u)\<lparr>st_files := hs\<rparr>" "fs_handle hs"
      "disk_of hs = disk_of gs \<and> r \<noteq> success \<or> compacting ?d body (disk_of hs) \<and> r \<noteq> success \<or>
       disk_of hs = (Some (journal_image [checkpoint_record ?d body]),
         length (journal_image [checkpoint_record ?d body]), Some (checkpoint_image body))"
      by (auto simp: u(1) disk_of_def)
    then show ?thesis using u(1,3) assms(2) by (auto simp: covered_by_def)
  qed
qed

lemma journal_bytes_outcome:
  assumes "store_journal_bytes s = (r, t)"
  obtains gs where "t = s\<lparr>st_files := gs\<rparr>" "disk_of gs = disk_of (st_files s)" "fs_handle gs = fs_handle (st_files s)"
    "r = Inr n \<Longrightarrow> n = length (journal_content (st_files s))"
proof (cases "fs_journal (st_files s) = None")
  case True
  then have "t = s" "r = Inr 0" using assms by (simp_all add: store_journal_bytes_def)
  then show thesis using that[of "st_files s"] True by (simp add: journal_content_def)
next
  case False
  then have "on_files (path_size journal_content) s = (r, t)" using assms
    by (auto simp: store_journal_bytes_def split: if_splits)
  then obtain gs where g: "path_size journal_content (st_files s) = (r, gs)" "t = s\<lparr>st_files := gs\<rparr>"
    by (rule on_files_outcome)
  have "n = length (journal_content (st_files s))" if "r = Inr n"
    using g(1)[unfolded that] unfolding path_size_def
  proof (cases rule: bind_outcome)
    case (go x u)
    then show ?thesis using inert_query by (force simp: inert_def disk_of_def journal_content_def)
  qed simp
  then show thesis using that[OF g(2)] g(1) inert_calls(2) by (force simp: inert_def)
qed

text \<open>Where a commit may leave the directory: \<open>J\<close> is the journal before it, \<open>F\<close> its two frames.\<close>

definition committed_disk :: "bool \<Rightarrow> byte list \<Rightarrow> byte list option \<Rightarrow> durable_state \<Rightarrow> byte list \<Rightarrow> unit result \<Rightarrow>
    byte list option \<times> nat \<times> byte list option \<Rightarrow> bool" where
  "committed_disk sync J ck d body r D \<longleftrightarrow>
     (let F = frames [begin_record d body, commit_record d];
          whole = length (J @ F)
      in (\<exists>k \<le> length F. D = (Some (J @ take k F), length J, ck) \<and> r \<noteq> success) \<or>
         (\<exists>y \<ge> length J. D = (Some (J @ F), y, ck) \<and> (sync \<longrightarrow> y = whole)) \<or>
         (\<exists>y \<ge> length J. D = (Some (J @ F), y, Some (checkpoint_image body)) \<and> r \<noteq> success) \<or>
         (compacting d body D \<and> r \<noteq> success) \<or>
         D = (Some (journal_image [checkpoint_record d body]),
              length (journal_image [checkpoint_record d body]), Some (checkpoint_image body)))"

lemma compact_if_large_outcome:
  assumes "compact_if_large s = (r, t)" "st_open s" "fs_handle (st_files s)" "encode_durable (st_state s) = Inr body"
    "length body \<le> min (record_limit (st_options s)) journal_hard_max_record"
    "disk_of (st_files s) = (Some (J @ frames [begin_record (st_state s) body, commit_record (st_state s)]), y, ck)"
    "length J \<le> y" "sync \<Longrightarrow> y = length (J @ frames [begin_record (st_state s) body, commit_record (st_state s)])"
  shows "st_options t = st_options s \<and> st_state t = st_state s \<and> st_open t \<and> fs_handle (st_files t) \<and>
    committed_disk sync J ck (st_state s) body r (disk_of (st_files t))"
proof -
  obtain q u where q: "store_journal_bytes s = (q, u)" by fastforce
  obtain gs where g: "u = s\<lparr>st_files := gs\<rparr>" "disk_of gs = disk_of (st_files s)" "fs_handle gs"
    using journal_bytes_outcome[OF q] assms(3) by metis
  consider (kept) "t = u" | (packed) "compact u = (r, t)"
    using assms(1) q by (auto simp: compact_if_large_def split: sum.splits if_splits)
  then show ?thesis
  proof cases
    case kept
    then show ?thesis using g assms(2,6-8) by (auto simp: committed_disk_def Let_def)
  next
    case packed
    note c = compact_outcome[OF this]
    have d: "disk_of (st_files u) = disk_of (st_files s)" "fs_handle (st_files u)" "st_state u = st_state s"
      "st_options u = st_options s" "st_open u"
      using g assms(2) by simp_all
    note c = compact_outcome[OF packed d(5,2), unfolded d(3,4), OF assms(4,5)]
    have J: "fs_journal (st_files u) = Some (J @ frames [begin_record (st_state s) body, commit_record (st_state s)])"
      "fs_synced (st_files u) = y"
      using d(1) assms(6) by (simp_all add: disk_of_def)
    have "committed_disk sync J ck (st_state s) body r D"
      if "D = disk_of (st_files u) \<and> r \<noteq> success \<or>
        D = (fs_journal (st_files u), fs_synced (st_files u), Some (checkpoint_image body)) \<and> r \<noteq> success \<or>
        compacting (st_state s) body D \<and> r \<noteq> success \<or>
        D = (Some (journal_image [checkpoint_record (st_state s) body]),
          length (journal_image [checkpoint_record (st_state s) body]), Some (checkpoint_image body))" for D
      using that assms(6-8) d(1) unfolding J committed_disk_def Let_def by auto
    from this[of "disk_of (st_files t)"] c show ?thesis by blast
  qed
qed

lemma commit_outcome:
  assumes "store_commit now proposed s = (r, t)" "st_open s" "fs_handle (st_files s)"
    "fs_journal (st_files s) = Some J" "fs_synced (st_files s) = length J"
    "next = stamp_state now (st_state s) proposed"
  shows "r \<noteq> success \<and> t = s \<or>
    st_options t = st_options s \<and> (r = success \<longrightarrow> st_state t = next \<and> st_open t \<and> fs_handle (st_files t)) \<and>
    (\<exists>body. encode_durable next = Inr body \<and>
       length body \<le> min (record_limit (st_options s)) journal_hard_max_record \<and>
       committed_disk (so_sync_on_commit (st_options s)) J (fs_checkpoint (st_files s)) next body r (disk_of (st_files t)))"
proof -
  let ?lim = "record_limit (st_options s)" and ?fs = "st_files s" and ?sync = "so_sync_on_commit (st_options s)"
  let ?tail = "op_then (on_files (if ?sync then file_sync else file_flush))
       (op_then (op_update (\<lambda>s. set_recovery (\<lambda>r. r\<lparr>rr_last_sequence := ds_sequence next\<rparr>) (s\<lparr>st_state := next\<rparr>)))
          compact_if_large)"
  let ?rest = "\<lambda>f g. op_then (on_files (file_write f)) (op_then (on_files (file_write g)) ?tail)"
  have eq: "store_commit now proposed s = op_bind (op_lift (encode_durable next)) (\<lambda>body.
      op_bind (op_lift (encode_record (begin_record next body) ?lim)) (\<lambda>begin_frame.
      op_bind (op_lift (encode_record (commit_record next) ?lim)) (\<lambda>commit_frame. ?rest begin_frame commit_frame))) s"
    using assms(2) by (simp add: store_commit_def Let_def assms(6) record_limit_def)
  show ?thesis
  proof (cases "\<exists>body. encode_durable next = Inr body \<and> fits ?lim (begin_record next body)")
    case False
    then have "r \<noteq> success \<and> t = s"
      using assms(1) eq encode_record_error[of ?lim "begin_record next b" for b]
      by (cases "encode_durable next") (fastforce simp: op_bind_def split: sum.splits)+
    then show ?thesis by blast
  next
    case True
    then obtain body where b: "encode_durable next = Inr body" "fits ?lim (begin_record next body)" by blast
    let ?B = "begin_record next body" and ?C = "commit_record next"
    have C: "fits ?lim ?C" by (simp add: fits_def commit_record_def)
    have lim: "length body \<le> min ?lim journal_hard_max_record" using b(2) by (simp add: fits_def begin_record_def)
    have e: "encode_record ?B ?lim = Inr (frame_of ?B)" "encode_record ?C ?lim = Inr (frame_of ?C)"
      using b(2) C by (simp_all add: encode_record_frame)
    have n: "frame_of x \<noteq> []" for x using length_frame[of x] by (metis list.size(3) add_is_0 zero_neq_numeral)
    have jc: "journal_content ?fs = J" by (simp add: journal_content_def assms(4))
    have "?rest (frame_of ?B) (frame_of ?C) s = (r, t)" using assms(1) eq b(1) e by simp
    then have "st_options t = st_options s \<and>
        (r = success \<longrightarrow> st_state t = next \<and> st_open t \<and> fs_handle (st_files t)) \<and>
        committed_disk ?sync J (fs_checkpoint ?fs) next body r (disk_of (st_files t))"
    proof (cases rule: bind_outcome)
      case (stop x)
      obtain gs where g: "file_write (frame_of ?B) ?fs = (Inl x, gs)" "t = s\<lparr>st_files := gs\<rparr>"
        using stop(1) by (rule on_files_outcome)
      from g(1) assms(3) n obtain k where "k \<le> length (frame_of ?B)"
        "disk_of gs = (Some (J @ take k (frame_of ?B)), length J, fs_checkpoint ?fs)"
        by (rule write_outcome) (simp add: jc assms(5))
      then show ?thesis using g(2) stop(2) by (auto simp: committed_disk_def Let_def intro!: disjI1 exI[of _ k])
    next
      case (go x u)
      obtain gs where g: "file_write (frame_of ?B) ?fs = (Inr x, gs)" "u = s\<lparr>st_files := gs\<rparr>"
        using go(1) by (rule on_files_outcome)
      from g(1) assms(3) n have G: "fs_handle gs \<and> disk_of gs = (Some (J @ frame_of ?B), length J, fs_checkpoint ?fs)"
        by (rule write_outcome) (simp add: jc assms(5))
      then have gc: "journal_content gs = J @ frame_of ?B" "fs_synced gs = length J" "fs_checkpoint gs = fs_checkpoint ?fs"
        by (simp_all add: disk_of_def journal_content_def)
      from go(2) show ?thesis
      proof (cases rule: bind_outcome)
        case (stop y)
        obtain hs where h: "file_write (frame_of ?C) gs = (Inl y, hs)" "t = u\<lparr>st_files := hs\<rparr>"
          using stop(1) by (rule on_files_outcome) (simp add: g(2))
        from h(1) G[THEN conjunct1] n obtain k where "k \<le> length (frame_of ?C)"
          "disk_of hs = (Some (J @ frame_of ?B @ take k (frame_of ?C)), length J, fs_checkpoint ?fs)"
          by (rule write_outcome) (simp add: gc)
        then show ?thesis using h(2) g(2) stop(2)
          by (auto simp: committed_disk_def Let_def intro!: disjI1 exI[of _ "length (frame_of ?B) + k"])
      next
        case (go y v)
        obtain hs where h: "file_write (frame_of ?C) gs = (Inr y, hs)" "v = u\<lparr>st_files := hs\<rparr>"
          using go(1) by (rule on_files_outcome) (simp add: g(2))
        from h(1) G[THEN conjunct1] n have H: "fs_handle hs \<and>
            disk_of hs = (Some (J @ frames [?B, ?C]), length J, fs_checkpoint ?fs)"
          by (rule write_outcome) (simp add: gc)
        have v: "v = s\<lparr>st_files := hs\<rparr>" using h(2) g(2) by simp
        let ?F = "J @ frames [?B, ?C]"
        have settled: "fs_handle ks \<and> disk_of ks = (Some ?F, fs_synced ks, fs_checkpoint ?fs) \<and>
            fs_synced ks = (if ?sync \<and> q = success then length ?F else length J)"
          if k: "(if ?sync then file_sync else file_flush) hs = (q, ks)" for q ks
        proof (cases ?sync)
          case True
          with k have "file_sync hs = (q, ks)" by simp
          from sync_outcome[OF this H[THEN conjunct1]] H True show ?thesis
            by (auto simp: disk_of_def journal_content_def)
        next
          case False
          with k H inert_flush show ?thesis by (fastforce simp: inert_def disk_of_def)
        qed
        from go(2) show ?thesis
        proof (cases rule: bind_outcome)
          case (stop z)
          obtain ks where k: "(if ?sync then file_sync else file_flush) hs = (Inl z, ks)" "t = v\<lparr>st_files := ks\<rparr>"
            using stop(1) by (rule on_files_outcome) (simp add: v)
          have "disk_of ks = (Some (J @ take (length (frames [?B, ?C])) (frames [?B, ?C])), length J, fs_checkpoint ?fs)"
            using settled[OF k(1)] by simp
          then show ?thesis using k(2) v stop(2) unfolding committed_disk_def Let_def by auto
        next
          case (go z w)
          obtain ks where k: "(if ?sync then file_sync else file_flush) hs = (Inr z, ks)" "w = v\<lparr>st_files := ks\<rparr>"
            using go(1) by (rule on_files_outcome) (simp add: v)
          let ?w = "set_recovery (\<lambda>r. r\<lparr>rr_last_sequence := ds_sequence next\<rparr>) (w\<lparr>st_state := next\<rparr>)"
          have w: "st_state ?w = next" "st_files ?w = ks" "st_options ?w = st_options s" "st_open ?w"
            using k(2) v assms(2) by (simp_all add: set_recovery_def)
          have p: "compact_if_large ?w = (r, t)" using go(2) by simp
          note S = settled[OF k(1)]
          have "st_options t = st_options ?w \<and> st_state t = st_state ?w \<and> st_open t \<and> fs_handle (st_files t) \<and>
              committed_disk ?sync J (fs_checkpoint ?fs) (st_state ?w) body r (disk_of (st_files t))"
            using b(1) lim S by (intro compact_if_large_outcome[OF p, where y = "fs_synced ks"]) (simp_all add: w)
          then show ?thesis unfolding w by blast
        qed
      qed
    qed
    with b(1) lim show ?thesis by blast
  qed
qed

section \<open>What a directory holds\<close>

text \<open>The checkpoint \<open>c\<close> and the records \<open>rs\<close> of the journal replay to \<open>d\<close>; every record that reached the
  disk is numbered at most one past \<open>d\<close>, and all of it is on stable storage.\<close>

definition log_holds :: "store_options \<Rightarrow> files \<Rightarrow> durable_state option \<Rightarrow> journal_record list \<Rightarrow> durable_state \<Rightarrow> bool" where
  "log_holds opt fs c rs d \<longleftrightarrow>
     holds_checkpoint opt fs c \<and> fs_journal fs = Some (journal_image rs) \<and>
     fs_synced fs = length (journal_image rs) \<and> (\<forall>r \<in> set rs. fits (record_limit opt) r) \<and>
     (\<forall>r \<in> set rs. unat (jr_sequence r) \<le> unat (ds_sequence d) + 1) \<and>
     (case c of None \<Rightarrow> True | Some e \<Rightarrow> ds_sequence e \<le> ds_sequence d) \<and>
     (\<exists>txn pending amb. replay_log (map_option ds_sequence c) rs (0, [], False, base_state c) =
        Some (txn, pending, amb, d))"

definition store_holds :: "pod_store \<Rightarrow> bool" where
  "store_holds s \<longleftrightarrow> st_open s \<and> workable (st_options s) \<and> fs_handle (st_files s) \<and>
     (\<exists>c rs. covered_by s = map_option ds_sequence c \<and> log_holds (st_options s) (st_files s) c rs (st_state s))"

lemma replay_log_skips: "\<forall>r \<in> set rs. jr_sequence r \<le> q \<Longrightarrow> replay_log (Some q) rs z = Some z"
  by (induction rs; cases z) auto

lemma whole_records_append:
  "whole_records (length (frames rs) + k) (rs @ ss) = rs @ whole_records k ss"
  by (induction rs) auto

lemma seq_grows:
  fixes v :: u64
  assumes "v \<noteq> - 1"
  shows "unat (v + 1) = Suc (unat v)" "v < v + 1"
proof -
  have "1 + v \<noteq> 0" using assms by (simp add: eq_neg_iff_add_eq_0 add.commute)
  then show "unat (v + 1) = Suc (unat v)" using unatSuc[of v] by (simp add: add.commute)
  then show "v < v + 1" by (simp add: word_less_nat_alt)
qed

text \<open>Replaying the two frames of a commit.\<close>

lemma replay_commit:
  assumes "log_holds opt fs c rs d" "ds_sequence d \<noteq> - 1" "ds_sequence e = ds_sequence d + 1"
    "durable_ok e" "encode_durable e = Inr body"
  shows "\<exists>txn pending amb. replay_log (map_option ds_sequence c) rs (0, [], False, base_state c) = Some (txn, pending, amb, d)"
    "\<exists>txn pending amb. replay_log (map_option ds_sequence c) (rs @ [begin_record e body]) (0, [], False, base_state c) =
        Some (txn, pending, amb, d)"
    "\<exists>txn pending amb. replay_log (map_option ds_sequence c) (rs @ [begin_record e body, commit_record e])
        (0, [], False, base_state c) = Some (txn, pending, amb, e)"
proof -
  obtain txn pending amb where r: "replay_log (map_option ds_sequence c) rs (0, [], False, base_state c) = Some (txn, pending, amb, d)"
    using assms(1) by (auto simp: log_holds_def)
  have g: "ds_sequence d < ds_sequence e" using seq_grows(2)[OF assms(2)] assms(3) by simp
  have n: "\<not> (case map_option ds_sequence c of None \<Rightarrow> False | Some q \<Rightarrow> ds_sequence e \<le> q)"
    using assms(1) g by (auto simp: log_holds_def split: option.splits)
  have dec: "decode_durable body = Inr e" using durable_roundtrip_whole[OF assms(4,5)] by simp
  show "\<exists>txn pending amb. replay_log (map_option ds_sequence c) rs (0, [], False, base_state c) = Some (txn, pending, amb, d)"
    using r by blast
  show "\<exists>txn pending amb. replay_log (map_option ds_sequence c) (rs @ [begin_record e body]) (0, [], False, base_state c) =
        Some (txn, pending, amb, d)"
    using r n by (cases c) (simp_all add: replay_log_append begin_record_def)
  show "\<exists>txn pending amb. replay_log (map_option ds_sequence c) (rs @ [begin_record e body, commit_record e])
        (0, [], False, base_state c) = Some (txn, pending, amb, e)"
    using r n dec by (cases c) (simp_all add: replay_log_append begin_record_def commit_record_def)
qed

lemma whole_pair:
  assumes "k \<le> length (frames [a, b])"
  obtains "whole_records k [a, b] = []" "k \<noteq> length (frames [a, b])"
    | "whole_records k [a, b] = [a]" "k \<noteq> length (frames [a, b])"
    | "whole_records k [a, b] = [a, b]" "k = length (frames [a, b])"
  using assms by (fastforce split: if_splits)

definition crash_found :: "nat \<Rightarrow> byte list option \<times> nat \<times> byte list option \<Rightarrow> files \<Rightarrow> bool" where
  "crash_found n D fs \<longleftrightarrow> (case D of (j, y, ck) \<Rightarrow> quiet fs \<and>
     fs_journal fs = map_option (take (max n y)) j \<and> fs_checkpoint fs = ck \<and>
     fs_synced fs = length (journal_content fs))"

lemma crash_image_found: "crash_found n (disk_of fs) (crash_image n fs)"
  by (auto simp: crash_found_def disk_of_def crash_image_def Let_def journal_content_def split: option.split)

section \<open>Reopening after a crash\<close>

lemma reopen_log:
  assumes "workable opt" "quiet fs" "holds_checkpoint opt fs c"
    "fs_journal fs = Some (take (16 + n) (journal_image rs))"
    "fs_synced fs = length (journal_content fs)"
    "n \<le> length (frames rs)" "\<forall>r \<in> set rs. fits (record_limit opt) r" "16 + n \<le> 2 * journal_limit opt"
    "\<exists>txn pending amb. replay_log (map_option ds_sequence c) (whole_records n rs) (0, [], False, base_state c) =
       Some (txn, pending, amb, d)"
    "\<forall>r \<in> set (whole_records n rs). unat (jr_sequence r) \<le> unat (ds_sequence d) + 1"
    "case c of None \<Rightarrow> True | Some e \<Rightarrow> ds_sequence e \<le> ds_sequence d"
  shows "\<exists>u. store_open now (store_new opt fs) = (success, u) \<and> st_state u = d \<and> store_holds u \<and>
    recovery_usable (st_recovery u) \<and> st_options u = opt"
proof -
  obtain txn pending amb where r: "replay_log (map_option ds_sequence c) (whole_records n rs) (0, [], False, base_state c) =
       Some (txn, pending, amb, d)" using assms(9) by blast
  have "fs_synced fs = length (take (16 + n) (journal_image rs))" using assms(4,5) by (simp add: journal_content_def)
  from open_holds[OF assms(1-4) this assms(6-8) r, of now] obtain u where
    u: "store_open now (store_new opt fs) = (success, u)" "usable_store opt c (amb \<or> txn \<noteq> 0) d u"
    "st_files u = fs\<lparr>fs_handle := True, fs_journal := Some (journal_image (whole_records n rs)),
      fs_synced := length (journal_image (whole_records n rs))\<rparr>" by blast
  obtain ss where "rs = whole_records n rs @ ss" using whole_records_prefix by blast
  then have "\<forall>r \<in> set (whole_records n rs). fits (record_limit opt) r" using assms(7) by (metis UnCI set_append)
  moreover have "holds_checkpoint opt (st_files u) c" using assms(3) u(3)
    by (cases c) (simp_all add: holds_checkpoint_def)
  ultimately have "log_holds opt (st_files u) c (whole_records n rs) d"
    using assms(10,11) r u(3) by (auto simp: log_holds_def)
  then have "store_holds u" using u(2,3) assms(1) by (auto simp: store_holds_def usable_store_def)
  with u(1,2) show ?thesis by (auto simp: usable_store_def)
qed

definition survives :: "store_options \<Rightarrow> nanos \<Rightarrow> files \<Rightarrow> (durable_state \<Rightarrow> bool) \<Rightarrow> bool" where
  "survives opt now found P \<longleftrightarrow> (\<exists>u. store_open now (store_new opt found) = (success, u) \<and>
     P (st_state u) \<and> recovery_usable (st_recovery u) \<and> st_options u = opt \<and>
     (journal_content found \<noteq> [] \<longrightarrow> store_holds u))"

lemma reopen_survives:
  assumes "\<exists>u. store_open now (store_new opt fs) = (success, u) \<and> st_state u = d \<and> store_holds u \<and>
    recovery_usable (st_recovery u) \<and> st_options u = opt" "P d"
  shows "survives opt now fs P"
  using assms unfolding survives_def by blast

text \<open>The old journal with a prefix of the frames of the commit, next to the old checkpoint.\<close>

lemma reopen_old_checkpoint:
  assumes "workable opt" "log_holds opt fs c rs d" "ds_sequence d \<noteq> - 1" "ds_sequence e = ds_sequence d + 1"
    "durable_ok e" "encode_durable e = Inr body" "fits (record_limit opt) (begin_record e body)"
    "length (journal_image rs) \<le> journal_limit opt"
    "k \<le> length (frames [begin_record e body, commit_record e])"
    "quiet found" "fs_checkpoint found = fs_checkpoint fs" "fs_synced found = length (journal_content found)"
    "fs_journal found = Some (journal_image rs @ take k (frames [begin_record e body, commit_record e]))"
  shows "survives opt now found (\<lambda>x. (x = d \<or> x = e) \<and>
    (k = length (frames [begin_record e body, commit_record e]) \<longrightarrow> x = e))"
proof -
  let ?B = "begin_record e body" and ?C = "commit_record e"
  let ?n = "length (frames rs) + k" and ?rs = "rs @ [?B, ?C]"
  note L = assms(2)[unfolded log_holds_def]
  have g: "ds_sequence d < ds_sequence e" using seq_grows(2)[OF assms(3)] assms(4) by simp
  have w: "whole_records ?n ?rs = rs @ whole_records k [?B, ?C]" by (rule whole_records_append)
  have j: "fs_journal found = Some (take (16 + ?n) (journal_image ?rs))"
    using assms(13) by (simp add: journal_image_def)
  have fit: "\<forall>r \<in> set ?rs. fits (record_limit opt) r"
    using L assms(7) by (auto simp: fits_def commit_record_def)
  have bnd: "16 + ?n \<le> 2 * journal_limit opt"
  proof -
    have "length (frames [?B, ?C]) = 40 + length body" by (simp add: begin_record_def commit_record_def)
    moreover have "length body \<le> record_limit opt" using assms(7) by (simp add: fits_def begin_record_def)
    ultimately show ?thesis using assms(1,8,9) by (simp add: workable_def journal_image_def)
  qed
  have hc: "holds_checkpoint opt found c" using L holds_checkpoint_cong[OF assms(11)] by blast
  have cs: "case c of None \<Rightarrow> True | Some x \<Rightarrow> ds_sequence x \<le> ds_sequence d" using L by blast
  have ce: "case c of None \<Rightarrow> True | Some x \<Rightarrow> ds_sequence x \<le> ds_sequence e"
    using cs g by (auto split: option.splits)
  have old: "\<forall>r \<in> set rs. unat (jr_sequence r) \<le> unat (ds_sequence d) + 1" using L by blast
  have E: "unat (ds_sequence e) = Suc (unat (ds_sequence d))" using seq_grows(1)[OF assms(3)] assms(4) by simp
  note re = reopen_log[OF assms(1,10) hc j assms(12) _ fit bnd, of _ now]
  note rc = replay_commit[OF assms(2,3,4,5,6)]
  have n: "?n \<le> length (frames ?rs)" using assms(9) by simp
  from assms(9) show ?thesis
  proof (cases rule: whole_pair)
    case 1
    have W: "whole_records ?n ?rs = rs" unfolding w 1(1) by simp
    show ?thesis using 1(2)
      by (intro reopen_survives[OF re[OF n, of d, unfolded W, OF rc(1) old cs]]) blast
  next
    case 2
    have W: "whole_records ?n ?rs = rs @ [?B]" unfolding w 2(1) by simp
    have "\<forall>r \<in> set (rs @ [?B]). unat (jr_sequence r) \<le> unat (ds_sequence d) + 1"
      using old by (simp add: begin_record_def E)
    from re[OF n, of d, unfolded W, OF rc(2) this cs] 2(2) show ?thesis
      by (intro reopen_survives[where d = d]) blast+
  next
    case 3
    have W: "whole_records ?n ?rs = rs @ [?B, ?C]" unfolding w 3(1) by simp
    have "\<forall>r \<in> set (rs @ [?B, ?C]). unat (jr_sequence r) \<le> unat (ds_sequence e) + 1"
      using old unfolding E by (auto simp: begin_record_def commit_record_def E)
    from re[OF n, of e, unfolded W, OF rc(3) this ce] show ?thesis
      by (intro reopen_survives[where d = e]) blast+
  qed
qed

text \<open>The new checkpoint, next to the whole old journal and a prefix of the frames: every record is one
  the checkpoint covers.\<close>

lemma reopen_covered:
  assumes "workable opt" "\<forall>r \<in> set rs. fits (record_limit opt) r" "\<forall>r \<in> set rs. jr_sequence r \<le> ds_sequence e"
    "durable_ok e" "encode_durable e = Inr body" "length body \<le> record_limit opt"
    "n \<le> length (frames rs)" "16 + n \<le> 2 * journal_limit opt"
    "quiet found" "fs_checkpoint found = Some (checkpoint_image body)"
    "fs_synced found = length (journal_content found)"
    "fs_journal found = Some (take (16 + n) (journal_image rs))"
  shows "survives opt now found (\<lambda>x. x = e)"
proof -
  have hc: "holds_checkpoint opt found (Some e)" using assms(4-6,10) by (simp add: holds_checkpoint_def)
  obtain ss where "rs = whole_records n rs @ ss" using whole_records_prefix by blast
  then have le: "\<forall>r \<in> set (whole_records n rs). jr_sequence r \<le> ds_sequence e"
    using assms(3) by (metis UnCI set_append)
  then have "replay_log (map_option ds_sequence (Some e)) (whole_records n rs) (0, [], False, base_state (Some e)) =
      Some (0, [], False, e)"
    using replay_log_skips by (simp add: base_state_def)
  then have "\<exists>txn pending amb. replay_log (map_option ds_sequence (Some e)) (whole_records n rs)
      (0, [], False, base_state (Some e)) = Some (txn, pending, amb, e)" by blast
  moreover have "\<forall>r \<in> set (whole_records n rs). unat (jr_sequence r) \<le> unat (ds_sequence e) + 1"
    using le by (fastforce simp: word_le_nat_alt)
  ultimately show ?thesis
    by (intro reopen_survives[OF reopen_log[OF assms(1,9) hc assms(12,11,7,2,8)]]) simp_all
qed

lemma reopen_compacted:
  assumes "workable opt" "durable_ok e" "encode_durable e = Inr body"
    "length body \<le> min (record_limit opt) journal_hard_max_record"
    "quiet found" "fs_checkpoint found = Some (checkpoint_image body)"
    "fs_synced found = length (journal_content found)"
    "fs_journal found = Some (take m (journal_image [checkpoint_record e body]))"
    "m = 0 \<or> 16 \<le> m"
  shows "survives opt now found (\<lambda>x. x = e)"
proof (cases "m = 0")
  case True
  have hc: "holds_checkpoint opt found (Some e)" using assms(2-4,6) by (simp add: holds_checkpoint_def)
  have "journal_content found = []" using assms(8) True by (simp add: journal_content_def)
  from open_empty[OF assms(1,5) hc this, of now] this show ?thesis
    by (auto simp: survives_def usable_store_def base_state_def)
next
  case False
  let ?cp = "checkpoint_record e body"
  let ?n = "min (m - 16) (length (frames [?cp]))"
  have l: "length (frames [?cp]) = 20 + length body" by (simp add: checkpoint_record_def)
  have "take m (journal_image [?cp]) = take (16 + ?n) (journal_image [?cp])"
  proof (cases "m - 16 \<le> length (frames [?cp])")
    case True
    then show ?thesis using False assms(9) by simp
  next
    case F: False
    then have "length (journal_image [?cp]) \<le> m" by (simp add: journal_image_def)
    with F show ?thesis by (simp add: journal_image_def)
  qed
  with assms(8) have j: "fs_journal found = Some (take (16 + ?n) (journal_image [?cp]))" by simp
  have "?n \<le> 20 + length body" using l by simp
  then have b: "16 + ?n \<le> 2 * journal_limit opt" using assms(1,4) by (simp add: workable_def)
  show ?thesis
    using assms(4) by (intro reopen_covered[OF assms(1) _ _ assms(2,3) _ _ b assms(5-7) j])
      (simp_all add: fits_def checkpoint_record_def)
qed

lemma take_cut: "length j \<le> m \<Longrightarrow> take m (j @ take k f) = j @ take (min k (m - length j)) f"
  by (simp add: min.commute)

lemma take_whole: "length j \<le> y \<Longrightarrow> take (max n y) (j @ f) = j @ take (min (length f) (max n y - length j)) f"
  by (simp add: min_def)

text \<open>A crash inside the header of the new journal.\<close>

definition torn_header :: "files \<Rightarrow> bool" where
  "torn_header fs \<longleftrightarrow> 0 < length (journal_content fs) \<and> length (journal_content fs) < 16"

lemma reopen_committed:
  assumes "workable opt" "log_holds opt fs c rs d" "ds_sequence d \<noteq> - 1" "ds_sequence e = ds_sequence d + 1"
    "durable_ok e" "encode_durable e = Inr body" "length body \<le> min (record_limit opt) journal_hard_max_record"
    "length (journal_image rs) \<le> journal_limit opt"
    "committed_disk sync (journal_image rs) (fs_checkpoint fs) e body r D" "crash_found n D found"
  shows "if torn_header found then r \<noteq> success \<and> (\<exists>u m. store_open now (store_new opt found) = (fail Code_Corrupt m, u))
    else survives opt now found (\<lambda>x. (x = d \<or> x = e) \<and> (r = success \<and> sync \<longrightarrow> x = e))"
proof -
  let ?J = "journal_image rs" and ?F = "frames [begin_record e body, commit_record e]" and ?img = "checkpoint_image body"
  let ?W = "journal_image [checkpoint_record e body]"
  let ?P = "\<lambda>x. (x = d \<or> x = e) \<and> (r = success \<and> sync \<longrightarrow> x = e)"
  have mono: "survives opt now found Q \<Longrightarrow> (\<And>x. Q x \<Longrightarrow> ?P x) \<Longrightarrow> survives opt now found ?P" for Q
    unfolding survives_def by blast
  have q: "quiet found" "fs_synced found = length (journal_content found)"
    using assms(10) by (auto simp: crash_found_def)
  have fB: "fits (record_limit opt) (begin_record e body)" using assms(7) by (simp add: fits_def begin_record_def)
  have J16: "16 \<le> length ?J" by (simp add: journal_image_def)
  have old: "survives opt now found ?P \<and> \<not> torn_header found"
    if f: "fs_journal found = Some (?J @ take k ?F)" "fs_checkpoint found = fs_checkpoint fs" "k \<le> length ?F"
      "r = success \<and> sync \<Longrightarrow> k = length ?F" for k
  proof
    show "survives opt now found ?P"
      by (rule mono[OF reopen_old_checkpoint[OF assms(1-6) fB assms(8) f(3) q(1) f(2) q(2) f(1)]]) (use f(4) in blast)
    show "\<not> torn_header found" using f(1) J16 by (simp add: torn_header_def journal_content_def)
  qed
  have new: "if torn_header found then r \<noteq> success \<and> (\<exists>u m. store_open now (store_new opt found) = (fail Code_Corrupt m, u))
      else survives opt now found ?P"
    if f: "fs_journal found = Some (take m ?W)" "fs_checkpoint found = Some ?img" "r = success \<Longrightarrow> 16 \<le> m" for m
  proof (cases "torn_header found")
    case True
    have "holds_checkpoint opt found (Some e)" using assms(5-7) f(2) by (simp add: holds_checkpoint_def)
    from open_torn_header[OF assms(1) q(1) this, of now] True
    have "\<exists>u m. store_open now (store_new opt found) = (fail Code_Corrupt m, u)" by (simp add: torn_header_def)
    moreover have "r \<noteq> success"
      using True f(1,3) by (auto simp: torn_header_def journal_content_def journal_image_def)
    ultimately show ?thesis using True by simp
  next
    case False
    then have "m = 0 \<or> 16 \<le> m"
      using f(1) by (auto simp: torn_header_def journal_content_def journal_image_def)
    from reopen_compacted[OF assms(1,5,6,7) q(1) f(2) q(2) f(1) this] False show ?thesis
      by (simp, intro mono) blast+
  qed
  consider (cut) k where "k \<le> length ?F" "D = (Some (?J @ take k ?F), length ?J, fs_checkpoint fs)" "r \<noteq> success"
    | (whole) y where "length ?J \<le> y" "D = (Some (?J @ ?F), y, fs_checkpoint fs)" "sync \<longrightarrow> y = length (?J @ ?F)"
    | (switched) y where "length ?J \<le> y" "D = (Some (?J @ ?F), y, Some ?img)" "r \<noteq> success"
    | (compacting) m where "D = (Some (take m ?W), 0, Some ?img)" "r \<noteq> success"
    | (compacted) "D = (Some ?W, length ?W, Some ?img)"
    using assms(9) unfolding committed_disk_def Let_def compacting_def by blast
  then show ?thesis
  proof cases
    case cut
    have "fs_journal found = Some (?J @ take (min k (max n (length ?J) - length ?J)) ?F)"
      "fs_checkpoint found = fs_checkpoint fs"
      using assms(10) unfolding crash_found_def cut(2) prod.case option.map take_cut[OF max.cobounded2] by blast+
    from old[OF this] cut(1,3) show ?thesis by simp
  next
    case whole
    have "fs_journal found = Some (?J @ take (min (length ?F) (max n y - length ?J)) ?F)"
      "fs_checkpoint found = fs_checkpoint fs"
      using assms(10) unfolding crash_found_def whole(2) prod.case option.map take_whole[OF whole(1)] by blast+
    from old[OF this] whole(3) show ?thesis by simp
  next
    case switched
    let ?rs = "rs @ [begin_record e body, commit_record e]"
    let ?k = "min (length ?F) (max n y - length ?J)"
    have "?J @ take ?k ?F = take (16 + (length (frames rs) + ?k)) (journal_image ?rs)"
      unfolding journal_image_def frames_simps(3) by simp
    then have j: "fs_journal found = Some (take (16 + (length (frames rs) + ?k)) (journal_image ?rs))"
      "fs_checkpoint found = Some ?img"
      using assms(10) unfolding crash_found_def switched(2) prod.case option.map take_whole[OF switched(1)]
      by (simp only:, blast)+
    have l: "length ?F = 40 + length body" by (simp add: begin_record_def commit_record_def)
    have "?k \<le> length ?F" by (rule min.cobounded1)
    with l have "?k \<le> 40 + length body" by (simp only:)
    then have b: "16 + (length (frames rs) + ?k) \<le> 2 * journal_limit opt"
      using assms(1,7,8) by (simp add: workable_def journal_image_def)
    have "unat (ds_sequence e) = Suc (unat (ds_sequence d))" using seq_grows(1)[OF assms(3)] assms(4) by simp
    then have le: "\<forall>r \<in> set ?rs. jr_sequence r \<le> ds_sequence e"
      using assms(2) by (auto simp: log_holds_def word_le_nat_alt begin_record_def commit_record_def)
    have fit: "\<forall>r \<in> set ?rs. fits (record_limit opt) r"
      using assms(2) fB by (auto simp: log_holds_def fits_def commit_record_def)
    have nl: "length (frames rs) + ?k \<le> length (frames ?rs)" by simp
    have "survives opt now found (\<lambda>x. x = e)"
      using assms(7) by (intro reopen_covered[OF assms(1) fit le assms(5,6) _ nl b q(1) j(2) q(2) j(1)]) simp
    moreover have "\<not> torn_header found"
      using j(1) by (simp add: torn_header_def journal_content_def journal_image_def)
    ultimately show ?thesis by (simp, intro mono) blast+
  next
    case compacting
    have "fs_journal found = Some (take (min m n) ?W)" "fs_checkpoint found = Some ?img"
      using assms(10) by (auto simp: crash_found_def compacting(1) min.commute)
    from new[OF this] compacting(2) show ?thesis by blast
  next
    case compacted
    have "fs_journal found = Some (take (max n (length ?W)) ?W)" "fs_checkpoint found = Some ?img"
      using assms(10) by (auto simp: crash_found_def compacted)
    moreover have "16 \<le> max n (length ?W)" by (simp add: journal_image_def)
    ultimately show ?thesis using new by blast
  qed
qed

end
