(* ===== verification/Stores.thy ===== *)
theory Stores
  imports Recovery
begin

text \<open>
  The store as an abstract cell: while the operating system does not fail, a sequence of commits
  leaves the last stamped state, whatever the compactions in between, and reopening after a
  crash returns it. Then what a failure can leave behind: a crash inside a compaction, a write
  that fell short and a transaction that was opened but never committed.
\<close>

section \<open>Commits that do not fail\<close>

lemma quiet_checkpoint:
  assumes "quiet fs"
  shows "write_temp data fs = (success, fs\<lparr>fs_temp := Some data\<rparr>)"
    "replace_checkpoint fs = (success, fs\<lparr>fs_checkpoint := fs_temp fs, fs_temp := None\<rparr>)"
    "sync_directory fs = (success, fs)"
  using assms
  by (simp_all add: write_temp_def replace_checkpoint_def sync_directory_def os_call_quiet bind_Inr
      quiet_calls op_when_def)

text \<open>The directory after a compaction.\<close>

definition compacted_files :: "durable_state \<Rightarrow> byte list \<Rightarrow> files \<Rightarrow> files" where
  "compacted_files d body fs =
     (let w = journal_image [checkpoint_record d body]
      in fs\<lparr>fs_checkpoint := Some (checkpoint_image body), fs_temp := None, fs_journal := Some w,
            fs_synced := length w\<rparr>)"

lemma compact_quiet:
  assumes "st_open s" "quiet (st_files s)" "fs_handle (st_files s)" "encode_durable (st_state s) = Inr body"
    "length body \<le> min (record_limit (st_options s)) journal_hard_max_record"
  shows "compact s = (success, s\<lparr>st_files := compacted_files (st_state s) body (st_files s),
    st_checkpoint_sequence := ds_sequence (st_state s), st_have_checkpoint := True\<rparr>)"
proof -
  let ?d = "st_state s" and ?img = "checkpoint_image body" and ?cp = "checkpoint_record (st_state s) body"
  let ?h = "encode_journal_header journal_version"
  let ?f1 = "(st_files s)\<lparr>fs_checkpoint := Some ?img, fs_temp := None\<rparr>"
  let ?f2 = "?f1\<lparr>fs_journal := Some [], fs_synced := 0\<rparr>"
  let ?f3 = "?f1\<lparr>fs_journal := Some ?h, fs_synced := 0\<rparr>"
  let ?f4 = "?f1\<lparr>fs_journal := Some (journal_image [?cp]), fs_synced := 0\<rparr>"
  let ?s = "\<lambda>f. s\<lparr>st_files := f, st_checkpoint_sequence := ds_sequence ?d, st_have_checkpoint := True\<rparr>"
  have n: "frame_of ?cp \<noteq> []" using length_frame[of ?cp] by (metis list.size(3) add_is_0 zero_neq_numeral)
  have w: "write_checkpoint s = (success, s\<lparr>st_files := ?f1\<rparr>)"
    using assms(2) quiet_checkpoint by (simp add: write_checkpoint_def encode_checkpoint_image[OF assms(4)] bind_Inr)
  have q: "quiet ?f1" "fs_handle ?f1" "quiet ?f2" "fs_handle ?f2" "quiet ?f3" "fs_handle ?f3" "quiet ?f4" "fs_handle ?f4"
    using assms(2,3) by simp_all
  have t: "on_files (file_truncate 0) (?s ?f1) = (success, ?s ?f2)"
    using quiet_journal(7)[OF q(1,2), of 0] by (simp add: cut_journal_def Let_def)
  have hd: "write_header (?s ?f2) = (success, ?s ?f3)"
    using quiet_journal(4)[OF q(3,4), of ?h] header_nonempty by (simp add: write_header_def append_journal_def journal_content_def)
  have fl: "on_files file_flush (?s ?f3) = (success, ?s ?f3)"
    using quiet_journal(5)[OF q(5,6)] by simp
  have wr: "on_files (file_write (frame_of ?cp)) (?s ?f3) = (success, ?s ?f4)"
    using quiet_journal(4)[OF q(5,6), of "frame_of ?cp"] n
    by (simp add: append_journal_def journal_content_def journal_image_def)
  have sy: "on_files file_sync (?s ?f4) = (success, ?s (?f4\<lparr>fs_synced := length (journal_image [?cp])\<rparr>))"
    using quiet_journal(6)[OF q(7,8)] by (simp add: journal_content_def)
  have enc: "encode_record ?cp (unat (po_max_journal_record_bytes (so_policy (st_options s)))) = Inr (frame_of ?cp)"
    using assms(5) by (simp add: encode_record_frame fits_def checkpoint_record_def record_limit_def)
  show ?thesis
    using assms(1,4) enc[unfolded checkpoint_record_def]
    by (simp add: compact_def w t hd fl bind_Inr checkpoint_record_def[symmetric] wr sy compacted_files_def Let_def)
qed

definition committed_files :: "byte list \<Rightarrow> files \<Rightarrow> files" where
  "committed_files j fs = fs\<lparr>fs_journal := Some j, fs_synced := length j\<rparr>"

lemma commit_quiet:
  assumes "st_open s" "quiet (st_files s)" "fs_handle (st_files s)" "so_sync_on_commit (st_options s)"
    "fs_journal (st_files s) = Some j" "e = stamp_state now (st_state s) proposed" "encode_durable e = Inr body"
    "length body \<le> min (record_limit (st_options s)) journal_hard_max_record"
    "k = j @ frames [begin_record e body, commit_record e]"
  shows "\<exists>t. store_commit now proposed s = (success, t) \<and> st_options t = st_options s \<and> st_open t \<and> st_state t = e \<and>
    (if length k > journal_limit (st_options s)
     then covered_by t = Some (ds_sequence e) \<and> st_files t = compacted_files e body (committed_files k (st_files s))
     else covered_by t = covered_by s \<and> st_files t = committed_files k (st_files s))"
proof -
  let ?lim = "record_limit (st_options s)" and ?fs = "st_files s" and ?B = "begin_record e body" and ?C = "commit_record e"
  have n: "frame_of x \<noteq> []" for x using length_frame[of x] by (metis list.size(3) add_is_0 zero_neq_numeral)
  have enc: "encode_record ?B ?lim = Inr (frame_of ?B)" "encode_record ?C ?lim = Inr (frame_of ?C)"
    using assms(8) by (simp_all add: encode_record_frame fits_def begin_record_def commit_record_def)
  let ?f1 = "?fs\<lparr>fs_journal := Some (j @ frame_of ?B)\<rparr>"
  let ?f2 = "?fs\<lparr>fs_journal := Some k\<rparr>"
  have q: "quiet ?f1" "fs_handle ?f1" "quiet ?f2" "fs_handle ?f2" using assms(2,3) by simp_all
  have w1: "on_files (file_write (frame_of ?B)) s = (success, s\<lparr>st_files := ?f1\<rparr>)"
    using quiet_journal(4)[OF assms(2,3), of "frame_of ?B"] n assms(5) by (simp add: append_journal_def journal_content_def)
  have w2: "on_files (file_write (frame_of ?C)) (s\<lparr>st_files := ?f1\<rparr>) = (success, s\<lparr>st_files := ?f2\<rparr>)"
    using quiet_journal(4)[OF q(1,2), of "frame_of ?C"] n assms(9) by (simp add: append_journal_def journal_content_def)
  have sy: "on_files file_sync (s\<lparr>st_files := ?f2\<rparr>) = (success, s\<lparr>st_files := committed_files k ?fs\<rparr>)"
    using quiet_journal(6)[OF q(3,4)] by (simp add: journal_content_def committed_files_def)
  let ?t = "set_recovery (\<lambda>r. r\<lparr>rr_last_sequence := ds_sequence e\<rparr>) (s\<lparr>st_files := committed_files k ?fs, st_state := e\<rparr>)"
  have eq: "store_commit now proposed s = compact_if_large ?t"
    using assms(1,4,7) enc
    by (simp add: store_commit_def Let_def assms(6)[symmetric] record_limit_def[symmetric] bind_Inr w1 w2 sy set_recovery_def)
  have t: "st_open ?t" "st_files ?t = committed_files k ?fs" "st_state ?t = e" "st_options ?t = st_options s"
    "covered_by ?t = covered_by s"
    using assms(1) by (simp_all add: set_recovery_def covered_by_def)
  have qt: "quiet (st_files ?t)" "fs_handle (st_files ?t)" using assms(2,3)
    unfolding t(2) by (simp_all add: committed_files_def)
  have jb: "store_journal_bytes ?t = (Inr (length k), ?t)"
    using quiet_calls(4)[OF qt(1), of journal_content]
    unfolding store_journal_bytes_def on_files_def t(2)
    by (simp add: committed_files_def journal_content_def set_recovery_def)
  show ?thesis
  proof (cases "length k > journal_limit (st_options s)")
    case True
    have "compact ?t = (success, ?t\<lparr>st_files := compacted_files e body (committed_files k ?fs),
        st_checkpoint_sequence := ds_sequence e, st_have_checkpoint := True\<rparr>)"
      using compact_quiet[OF t(1) qt, unfolded t, OF assms(7,8)] by simp
    with True show ?thesis
      unfolding eq using t by (auto simp: compact_if_large_def jb journal_limit_def covered_by_def)
  next
    case False
    then show ?thesis unfolding eq using t by (auto simp: compact_if_large_def jb journal_limit_def)
  qed
qed

definition committable :: "store_options \<Rightarrow> durable_state \<Rightarrow> bool" where
  "committable opt e \<longleftrightarrow> durable_ok e \<and> (\<exists>body. encode_durable e = Inr body \<and>
     length body \<le> min (record_limit opt) journal_hard_max_record)"

text \<open>A store that holds its state, whose journal is within its bound and whose calls do not fail.\<close>

definition settled_store :: "pod_store \<Rightarrow> bool" where
  "settled_store s \<longleftrightarrow> store_holds s \<and> quiet (st_files s) \<and> so_sync_on_commit (st_options s) \<and>
     length (journal_content (st_files s)) \<le> journal_limit (st_options s)"

lemma commit_settled:
  assumes "settled_store s" "e = stamp_state now (st_state s) proposed" "ds_sequence (st_state s) \<noteq> - 1"
    "committable (st_options s) e"
  shows "\<exists>t. store_commit now proposed s = (success, t) \<and> settled_store t \<and> st_state t = e \<and>
    st_options t = st_options s"
proof -
  let ?opt = "st_options s" and ?fs = "st_files s" and ?d = "st_state s"
  obtain c rs where h: "st_open s" "workable ?opt" "fs_handle ?fs" "covered_by s = map_option ds_sequence c"
    "log_holds ?opt ?fs c rs ?d" "quiet ?fs" "so_sync_on_commit ?opt"
    using assms(1) by (auto simp: settled_store_def store_holds_def)
  obtain body where b: "durable_ok e" "encode_durable e = Inr body" "length body \<le> min (record_limit ?opt) journal_hard_max_record"
    using assms(4) by (auto simp: committable_def)
  let ?B = "begin_record e body" and ?C = "commit_record e" and ?cp = "checkpoint_record e body"
  let ?rs = "rs @ [?B, ?C]"
  let ?k = "journal_image rs @ frames [?B, ?C]"
  have j: "fs_journal ?fs = Some (journal_image rs)" "?k = journal_image ?rs"
    using h(5) by (simp_all add: log_holds_def journal_image_def)
  have es: "ds_sequence e = ds_sequence ?d + 1" by (simp add: assms(2) stamp_state_def)
  have E: "unat (ds_sequence e) = Suc (unat (ds_sequence ?d))" using seq_grows(1)[OF assms(3)] es by simp
  obtain t where t: "store_commit now proposed s = (success, t)" "st_options t = ?opt" "st_open t" "st_state t = e"
    "if length ?k > journal_limit ?opt
     then covered_by t = Some (ds_sequence e) \<and> st_files t = compacted_files e body (committed_files ?k ?fs)
     else covered_by t = covered_by s \<and> st_files t = committed_files ?k ?fs"
    using commit_quiet[OF h(1,6,3,7) j(1) assms(2) b(2,3) refl] by blast
  have "settled_store t"
  proof (cases "length ?k > journal_limit ?opt")
    case True
    then have f: "covered_by t = Some (ds_sequence e)" "st_files t = compacted_files e body (committed_files ?k ?fs)"
      using t(5) by simp_all
    have "replay_log (map_option ds_sequence (Some e)) [?cp] (0, [], False, base_state (Some e)) = Some (0, [], False, e)"
      by (simp add: checkpoint_record_def base_state_def)
    then have "log_holds ?opt (st_files t) (Some e) [?cp] e"
      using b by (auto simp: log_holds_def holds_checkpoint_def f compacted_files_def Let_def fits_def checkpoint_record_def)
    moreover have "length (journal_content (st_files t)) \<le> journal_limit ?opt"
      using h(2) b(3) by (simp add: f compacted_files_def Let_def journal_content_def journal_image_def
          checkpoint_record_def workable_def)
    ultimately show ?thesis
      using h t f(1) by (auto simp: settled_store_def store_holds_def f(2) compacted_files_def committed_files_def Let_def
          intro!: exI[of _ "Some e"])
  next
    case False
    then have f: "covered_by t = covered_by s" "st_files t = committed_files ?k ?fs" using t(5) by simp_all
    note L = h(5)[unfolded log_holds_def]
    have "holds_checkpoint ?opt (st_files t) c"
      using L holds_checkpoint_cong[of "st_files t" ?fs ?opt c] by (simp add: f committed_files_def)
    moreover have "case c of None \<Rightarrow> True | Some x \<Rightarrow> ds_sequence x \<le> ds_sequence e"
      using L E by (auto simp: word_le_nat_alt split: option.splits)
    moreover have "\<forall>r \<in> set ?rs. unat (jr_sequence r) \<le> unat (ds_sequence e) + 1"
      using L by (auto simp: E begin_record_def commit_record_def)
    moreover have "\<forall>r \<in> set ?rs. fits (record_limit ?opt) r"
      using L b(3) by (auto simp: fits_def begin_record_def commit_record_def)
    ultimately have "log_holds ?opt (st_files t) c ?rs e"
      using replay_commit(3)[OF h(5) assms(3) es b(1,2)] unfolding log_holds_def f(2) committed_files_def j(2) by simp
    moreover have "length (journal_content (st_files t)) \<le> journal_limit ?opt"
      using False by (simp add: f committed_files_def journal_content_def)
    ultimately show ?thesis
      using h t f(1) by (auto simp: settled_store_def store_holds_def f(2) committed_files_def)
  qed
  with t show ?thesis by blast
qed

text \<open>Nothing can be lost from a settled store.\<close>

lemma settled_survives:
  assumes "settled_store s"
  shows "\<exists>u. store_open now (store_new (st_options s) (crash_image n (st_files s))) = (success, u) \<and>
    st_state u = st_state s \<and> settled_store u \<and> st_options u = st_options s"
proof -
  let ?opt = "st_options s" and ?fs = "st_files s" and ?f = "crash_image n (st_files s)"
  obtain c rs where h: "workable ?opt" "log_holds ?opt ?fs c rs (st_state s)" "quiet ?fs" "so_sync_on_commit ?opt"
    "length (journal_content ?fs) \<le> journal_limit ?opt"
    using assms by (auto simp: settled_store_def store_holds_def)
  note L = h(2)[unfolded log_holds_def]
  have f: "fs_journal ?f = Some (journal_image rs)" "fs_checkpoint ?f = fs_checkpoint ?fs" "quiet ?f"
    "fs_synced ?f = length (journal_image rs)"
    using L by (simp_all add: crash_image_def Let_def)
  have hc: "holds_checkpoint ?opt ?f c" using L holds_checkpoint_cong[OF f(2)] by blast
  obtain txn pending amb where r: "replay_log (map_option ds_sequence c) rs (0, [], False, base_state c) =
      Some (txn, pending, amb, st_state s)" using L by blast
  let ?n = "length (frames rs)"
  have i: "take (16 + ?n) (journal_image rs) = journal_image rs" by (simp add: journal_image_def)
  have l: "16 + ?n \<le> 2 * journal_limit ?opt" using h(5) L by (simp add: journal_content_def journal_image_def)
  from open_holds[OF h(1) f(3) hc, of ?n rs txn pending amb "st_state s" now, unfolded i whole_records_all] f r l L
  obtain u where u: "store_open now (store_new ?opt ?f) = (success, u)" "usable_store ?opt c (amb \<or> txn \<noteq> 0) (st_state s) u"
    "st_files u = ?f\<lparr>fs_handle := True, fs_journal := Some (journal_image rs), fs_synced := length (journal_image rs)\<rparr>"
    by auto
  have "holds_checkpoint ?opt (st_files u) c" using hc holds_checkpoint_cong[of "st_files u" ?f] by (simp add: u(3))
  then have "log_holds ?opt (st_files u) c rs (st_state s)" using L unfolding log_holds_def u(3) by simp
  moreover have "length (journal_content (st_files u)) \<le> journal_limit ?opt"
    using h(5) L by (simp add: u(3) journal_content_def)
  ultimately have "settled_store u"
    using h u(2) f(3) by (auto simp: settled_store_def store_holds_def usable_store_def u(3))
  with u show ?thesis by (auto simp: usable_store_def)
qed

section \<open>Sessions\<close>

fun run_commits :: "(nanos \<times> durable_state) list \<Rightarrow> (unit, pod_store) op" where
  "run_commits [] = op_return ()"
| "run_commits ((now, d) # cs) = op_then (store_commit now d) (run_commits cs)"

text \<open>A session opens the directory, commits and is cut off by a crash that keeps \<open>n\<close> bytes of what was
  not yet on stable storage.\<close>

fun run_sessions :: "store_options \<Rightarrow> (nanos \<times> (nanos \<times> durable_state) list \<times> nat) list \<Rightarrow> files \<Rightarrow> files result" where
  "run_sessions opt [] fs = Inr fs"
| "run_sessions opt ((now, cs, n) # ss) fs =
     (case op_then (store_open now) (run_commits cs) (store_new opt fs) of
        (Inl e, t) \<Rightarrow> Inl e
      | (Inr u, t) \<Rightarrow> run_sessions opt ss (crash_image n (st_files t)))"

text \<open>The abstract store: a cell that each commit overwrites.\<close>

fun cell_commits :: "durable_state \<Rightarrow> (nanos \<times> durable_state) list \<Rightarrow> durable_state" where
  "cell_commits d [] = d"
| "cell_commits d ((now, p) # cs) = cell_commits (stamp_state now d p) cs"

fun commits_fit :: "store_options \<Rightarrow> durable_state \<Rightarrow> (nanos \<times> durable_state) list \<Rightarrow> bool" where
  "commits_fit opt d [] = True"
| "commits_fit opt d ((now, p) # cs) \<longleftrightarrow>
     ds_sequence d \<noteq> - 1 \<and> committable opt (stamp_state now d p) \<and> commits_fit opt (stamp_state now d p) cs"

lemma cell_commits_append: "cell_commits d (cs @ es) = cell_commits (cell_commits d cs) es"
  by (induction d cs rule: cell_commits.induct) simp_all

lemma commits_fit_append:
  "commits_fit opt d (cs @ es) \<longleftrightarrow> commits_fit opt d cs \<and> commits_fit opt (cell_commits d cs) es"
  by (induction opt d cs rule: commits_fit.induct) auto

lemma run_commits_settled:
  assumes "settled_store s" "commits_fit (st_options s) (st_state s) cs"
  shows "\<exists>t. run_commits cs s = (success, t) \<and> settled_store t \<and> st_state t = cell_commits (st_state s) cs \<and>
    st_options t = st_options s"
  using assms
proof (induction cs arbitrary: s)
  case (Cons c cs)
  obtain now p where c: "c = (now, p)" by force
  have f: "ds_sequence (st_state s) \<noteq> - 1" "committable (st_options s) (stamp_state now (st_state s) p)"
    using Cons.prems(2) by (simp_all add: c)
  obtain t where t: "store_commit now p s = (success, t)" "settled_store t" "st_state t = stamp_state now (st_state s) p"
    "st_options t = st_options s"
    using commit_settled[OF Cons.prems(1) refl f] by blast
  have "commits_fit (st_options t) (st_state t) cs" using Cons.prems(2) by (simp add: c t)
  from Cons.IH[OF t(2) this] show ?case using t by (auto simp: c bind_Inr)
qed simp

definition empty_directory :: "files \<Rightarrow> bool" where
  "empty_directory fs \<longleftrightarrow> fs_journal fs = None \<and> fs_checkpoint fs = None \<and> quiet fs"

lemma open_settled_empty:
  assumes "workable opt" "so_sync_on_commit opt" "empty_directory fs"
  shows "\<exists>u. store_open now (store_new opt fs) = (success, u) \<and> st_state u = durable_default \<and> settled_store u \<and>
    st_options u = opt"
proof -
  have e: "quiet fs" "journal_content fs = []" "holds_checkpoint opt fs None"
    using assms(3) by (simp_all add: empty_directory_def journal_content_def holds_checkpoint_def)
  obtain u where u: "store_open now (store_new opt fs) = (success, u)" "usable_store opt None False durable_default u"
    "st_files u = fs\<lparr>fs_handle := True, fs_journal := Some (journal_image []), fs_synced := length (journal_image [])\<rparr>"
    using open_empty[OF assms(1) e(1,3,2), of now] by (auto simp: base_state_def)
  have "log_holds opt (st_files u) None [] durable_default"
    using e(3) by (auto simp: log_holds_def u(3) holds_checkpoint_def base_state_def)
  moreover have "16 \<le> journal_limit opt" using assms(1) by (simp add: workable_def)
  ultimately have "settled_store u"
    using assms(1,2) u(2) e(1)
    by (auto simp: settled_store_def store_holds_def usable_store_def u(3) journal_content_def journal_image_def)
  with u show ?thesis by (auto simp: usable_store_def)
qed

lemma sessions_settled:
  assumes "\<forall>now. \<exists>u. store_open now (store_new opt fs) = (success, u) \<and> st_state u = d \<and> settled_store u \<and>
      st_options u = opt"
    "commits_fit opt d (concat (map (\<lambda>(now, cs, n). cs) ss))"
  shows "\<exists>gs. run_sessions opt ss fs = Inr gs \<and>
    (\<forall>now. \<exists>u. store_open now (store_new opt gs) = (success, u) \<and>
       st_state u = cell_commits d (concat (map (\<lambda>(now, cs, n). cs) ss)) \<and> settled_store u)"
  using assms
proof (induction ss arbitrary: fs d)
  case Nil
  then show ?case by fastforce
next
  case (Cons x ss)
  obtain now cs n where x: "x = (now, cs, n)" by (cases x)
  obtain u where u: "store_open now (store_new opt fs) = (success, u)" "st_state u = d" "settled_store u" "st_options u = opt"
    using Cons.prems(1) by blast
  have "commits_fit (st_options u) (st_state u) cs" using Cons.prems(2) by (simp add: x u commits_fit_append)
  then obtain t where t: "run_commits cs u = (success, t)" "settled_store t" "st_state t = cell_commits d cs" "st_options t = opt"
    using run_commits_settled[OF u(3)] by (auto simp: u)
  have "\<forall>later. \<exists>v. store_open later (store_new opt (crash_image n (st_files t))) = (success, v) \<and>
      st_state v = cell_commits d cs \<and> settled_store v \<and> st_options v = opt"
    using settled_survives[OF t(2)] unfolding t(3,4) by blast
  moreover have "commits_fit opt (cell_commits d cs) (concat (map (\<lambda>(now, cs, n). cs) ss))"
    using Cons.prems(2) by (simp add: x commits_fit_append)
  ultimately show ?case
    using Cons.IH u(1) t(1) by (simp add: x bind_Inr cell_commits_append)
qed

text \<open>
  C24: the store implements a cell. Start from an empty directory and run any number of sessions, each
  of which opens the directory, commits any number of states and is cut off by a crash after any
  number of unsynced bytes. Whatever compactions happen on the way, no operation fails, and the
  next store to open holds exactly the last committed state, stamped with its number: the value
  of a cell that every commit overwrites. The operating system does not fail here, syncing is on,
  and every state committed is representable within the record bound.
\<close>

theorem store_refines_cell:
  assumes "workable opt" "so_sync_on_commit opt" "empty_directory fs"
    "commits_fit opt durable_default (concat (map (\<lambda>(now, cs, n). cs) ss))"
  shows "\<exists>gs u. run_sessions opt ss fs = Inr gs \<and> store_open now (store_new opt gs) = (success, u) \<and>
    st_state u = cell_commits durable_default (concat (map (\<lambda>(now, cs, n). cs) ss))"
  using sessions_settled[OF _ assms(4), of fs] open_settled_empty[OF assms(1-3)] by blast

section \<open>A sample store\<close>

definition sample_options :: store_options where
  "sample_options = \<lparr>so_directory = ''pod'', so_policy = policy_default, so_sync_on_commit = True,
     so_repair_torn_tail = True\<rparr>"

definition sample_directory :: files where
  "sample_directory = \<lparr>fs_journal = None, fs_synced = 0, fs_checkpoint = None, fs_temp = None,
     fs_handle = False, fs_faults = []\<rparr>"

lemma sample_options_workable: "workable sample_options"
proof -
  have "validate_policy policy_default = success"
    unfolding validate_policy_Inr by (simp add: policy_default_def nanos_per_second_def)
  then show ?thesis
    by (simp add: workable_def sample_options_def record_limit_def journal_limit_def)
      (simp add: policy_default_def)
qed

lemma sample_committable:
  assumes "now \<in> {1 .. 1000}" "ds_sequence d \<in> {0, 1}"
  shows "committable sample_options (stamp_state now d sample_durable)"
proof -
  have "is_valid_utf8 ''pod-a'' \<and> is_valid_utf8 ''b'' \<and> is_valid_utf8 ''a''" by code_simp
  then have "\<exists>bs. encode_durable (stamp_state now d sample_durable) = Inr bs \<and> length bs \<le> 1000"
    unfolding sample_durable_def encode_durable_def encode_whole_def durable_default_def stamp_state_def
    by (simp add: put_durable_def put_durable_body_def put_list_def put_count_def
        put_typed_id_def put_id_def put_string_def put_expectation_def put_admin_def put_u8_def
        put_u16_def put_u32_def put_u64_def put_i64_def put_enum_def put_raw_def put_bytes_def
        put_uuid_def put_digest_def writer_reserve_def writer_store_def op_bind_def op_return_def
        writer_new_def Let_def default_limits_def be_bytes_eq)
  moreover have "durable_ok (stamp_state now d sample_durable)"
    using sample_durable_ok assms
    by (auto simp: stamp_state_def durable_ok_def durable_rep_def durable_body_ok_def durable_settled_def
        sample_durable_def durable_default_def time_ok_def)
  ultimately show ?thesis
    by (auto simp: committable_def record_limit_def sample_options_def policy_default_def journal_hard_max_record_def)
qed

definition sample_store :: pod_store where
  "sample_store = snd (store_open 1 (store_new sample_options sample_directory))"

lemma sample_directory_empty: "empty_directory sample_directory"
  by (simp add: empty_directory_def sample_directory_def)

lemma sample_store_settled:
  "settled_store sample_store" "st_state sample_store = durable_default" "st_options sample_store = sample_options"
  "journal_content (st_files sample_store) = journal_image []"
proof -
  have o: "so_sync_on_commit sample_options" by (simp add: sample_options_def)
  show "settled_store sample_store" "st_state sample_store = durable_default" "st_options sample_store = sample_options"
    using open_settled_empty[OF sample_options_workable o sample_directory_empty, of 1] by (auto simp: sample_store_def)
  have e: "quiet sample_directory" "holds_checkpoint sample_options sample_directory None" "journal_content sample_directory = []"
    by (simp_all add: sample_directory_def holds_checkpoint_def journal_content_def)
  show "journal_content (st_files sample_store) = journal_image []"
    using open_empty[OF sample_options_workable e, of 1] by (auto simp: sample_store_def journal_content_def)
qed

theorem store_refines_cell_witness:
  "\<exists>gs u. run_sessions sample_options [(1, [(2, sample_durable)], 5), (3, [(4, sample_durable)], 0)] sample_directory
       = Inr gs \<and>
     store_open 9 (store_new sample_options gs) = (success, u) \<and>
     st_state u = stamp_state 4 (stamp_state 2 durable_default sample_durable) sample_durable"
proof -
  have "commits_fit sample_options durable_default [(2, sample_durable), (4, sample_durable)]"
    using sample_committable[of 2 durable_default] sample_committable[of 4 "stamp_state 2 durable_default sample_durable"]
    by (simp add: stamp_state_def durable_default_def)
  moreover have "so_sync_on_commit sample_options" "empty_directory sample_directory"
    by (simp_all add: sample_options_def sample_directory_empty)
  ultimately show ?thesis
    using store_refines_cell[OF sample_options_workable, of sample_directory
        "[(1, [(2, sample_durable)], 5), (3, [(4, sample_durable)], 0)]" 9] by simp
qed

section \<open>Crashes\<close>

lemma log_holds_faults: "log_holds opt (fs\<lparr>fs_faults := fl\<rparr>) c rs d = log_holds opt fs c rs d"
  using holds_checkpoint_cong[of "fs\<lparr>fs_faults := fl\<rparr>" fs opt c] by (simp add: log_holds_def)

text \<open>
  C23: commits are atomic and durable across failures and crashes. Take an open store whose
  directory holds its state and commit to it while any operating-system call may fail at any
  point; then let the machine crash, so that of the journal some prefix of what was not yet
  synced is lost, and open the directory again. Either the new store holds the old state or the
  committed one, and the committed one whenever the commit was reported as successful with syncing
  on; or the crash fell inside the sixteen header bytes that a compaction rewrites, and then the
  store refuses to open although its checkpoint is intact.
\<close>

theorem commit_crash_consistent:
  assumes "store_holds s" "length (journal_content (st_files s)) \<le> journal_limit (st_options s)"
    "ds_sequence (st_state s) \<noteq> - 1" "durable_ok (stamp_state now (st_state s) proposed)"
    "store_commit now proposed s = (r, t)"
    "found = crash_image n (st_files t)" "store_open later (store_new (st_options s) found) = (q, u)"
  shows "if torn_header found then r \<noteq> success \<and> (\<exists>m. q = fail Code_Corrupt m)
    else q = success \<and> recovery_usable (st_recovery u) \<and>
      (st_state u = st_state s \<or> st_state u = stamp_state now (st_state s) proposed) \<and>
      (r = success \<and> so_sync_on_commit (st_options s) \<longrightarrow> st_state u = stamp_state now (st_state s) proposed)"
proof -
  let ?e = "stamp_state now (st_state s) proposed" and ?opt = "st_options s"
  obtain c rs where h: "st_open s" "workable ?opt" "fs_handle (st_files s)" "log_holds ?opt (st_files s) c rs (st_state s)"
    using assms(1) by (auto simp: store_holds_def)
  have j: "fs_journal (st_files s) = Some (journal_image rs)" "fs_synced (st_files s) = length (journal_image rs)"
    using h(4) by (simp_all add: log_holds_def)
  have l: "length (journal_image rs) \<le> journal_limit ?opt" using assms(2) j(1) by (simp add: journal_content_def)
  have e: "ds_sequence ?e = ds_sequence (st_state s) + 1" by (simp add: stamp_state_def)
  from commit_outcome[OF assms(5) h(1,3) j refl] show ?thesis
  proof (elim disjE conjE exE)
    assume t: "r \<noteq> success" "t = s"
    have cf: "crash_found n (disk_of (st_files s)) found" using crash_image_found[of n "st_files s"] by (simp add: t assms(6))
    then have f: "fs_journal found = Some (take (16 + length (frames rs)) (journal_image rs))"
      "fs_synced found = length (journal_content found)" "fs_checkpoint found = fs_checkpoint (st_files s)" "quiet found"
      using j by (simp_all add: crash_found_def disk_of_def journal_image_def)
    have k: "whole_records (length (frames rs)) rs = rs" by (rule whole_records_all)
    note L = h(4)[unfolded log_holds_def]
    have "holds_checkpoint ?opt found c" using L holds_checkpoint_cong[OF f(3)] by blast
    from reopen_log[OF h(2) f(4) this f(1,2) order_refl _ _ _ _ _, of "st_state s" later, unfolded k] L l
    have "\<exists>u. store_open later (store_new ?opt found) = (success, u) \<and> st_state u = st_state s \<and> store_holds u \<and>
        recovery_usable (st_recovery u) \<and> st_options u = ?opt" by (simp add: journal_image_def)
    moreover have "\<not> torn_header found" using f(1) by (simp add: torn_header_def journal_content_def journal_image_def)
    ultimately show ?thesis using assms(7) t(1) by auto
  next
    fix body
    assume b: "encode_durable ?e = Inr body"
      "length body \<le> min (record_limit ?opt) journal_hard_max_record"
      "committed_disk (so_sync_on_commit ?opt) (journal_image rs) (fs_checkpoint (st_files s)) ?e body r (disk_of (st_files t))"
    have cf: "crash_found n (disk_of (st_files t)) found" using crash_image_found by (simp add: assms(6))
    from reopen_committed[OF h(2,4) assms(3) e assms(4) b(1,2) l b(3) cf, of later] assms(7)
    show ?thesis by (auto simp: survives_def split: if_splits)
  qed
qed

text \<open>The second write of a commit falls short after seven bytes, and a crash keeps forty bytes.\<close>

theorem commit_crash_consistent_witness:
  "let s = sample_store\<lparr>st_files := (st_files sample_store)\<lparr>fs_faults := [Io_Done, Io_Fault 7]\<rparr>\<rparr>;
       (r, t) = store_commit 2 sample_durable s; found = crash_image 40 (st_files t);
       (q, u) = store_open 3 (store_new sample_options found);
       e = stamp_state 2 durable_default sample_durable
   in if torn_header found then r \<noteq> success \<and> (\<exists>m. q = fail Code_Corrupt m)
      else q = success \<and> recovery_usable (st_recovery u) \<and> (st_state u = durable_default \<or> st_state u = e) \<and>
        (r = success \<longrightarrow> st_state u = e)"
proof -
  let ?s = "sample_store\<lparr>st_files := (st_files sample_store)\<lparr>fs_faults := [Io_Done, Io_Fault 7]\<rparr>\<rparr>"
  note s = sample_store_settled
  have o: "so_sync_on_commit sample_options" by (simp add: sample_options_def)
  have covered: "covered_by ?s = covered_by sample_store" by (simp add: covered_by_def)
  then have h: "store_holds ?s"
    using s(1) covered by (simp add: settled_store_def store_holds_def log_holds_faults)
  have l: "length (journal_content (st_files ?s)) \<le> journal_limit (st_options ?s)"
    using s(1) by (simp add: settled_store_def journal_content_def)
  have q: "ds_sequence (st_state ?s) \<noteq> - 1" by (simp add: s durable_default_def)
  have d: "durable_ok (stamp_state 2 (st_state ?s) sample_durable)"
    using sample_committable[of 2 durable_default] by (simp add: s committable_def durable_default_def)
  obtain r t where t: "store_commit 2 sample_durable ?s = (r, t)" by force
  obtain q' u where u: "store_open 3 (store_new sample_options (crash_image 40 (st_files t))) = (q', u)" by force
  have "store_open 3 (store_new (st_options ?s) (crash_image 40 (st_files t))) = (q', u)" using u by (simp add: s)
  from commit_crash_consistent[OF h l q d t refl this] show ?thesis
    unfolding Let_def t u prod.case by (simp add: s o t u split: if_splits)
qed

end
