(* ===== verification/Mishaps.thy ===== *)
theory Mishaps
  imports Stores
begin

text \<open>
  What failures leave behind in a store directory, against the promise that a reported commit
  survives: \<open>persist/store.cpp\<close>. A write that falls short leaves bytes the next commit appends to,
  and a crash inside a compaction leaves an empty journal that the next commit fills without a header.
\<close>

section \<open>A frame behind a stray byte\<close>


text \<open>A frame shifted by one byte does not parse: its type field straddles the sequence number.\<close>

lemma shifted_frame:
  "parse_record_prefix (take 20 (x # frame_of r @ rest)) lim = fail Code_Corrupt ''record type is not recognised''"
proof -
  let ?b = "take 20 (x # frame_of r @ rest)" and ?s = "be64 (jr_sequence r)"
  obtain y where y: "drop 7 ?s = [y]"
    by (cases "drop 7 ?s") (auto dest: arg_cong[of _ _ length])
  have "subspan 8 2 ?b = take 2 (drop 7 ?s @ be16 (record_type_number (jr_type r)))"
    by (simp add: subspan_def frame_of_def record_head_def drop_take)
  also have "\<dots> = [y, 0]" unfolding y by (cases "jr_type r"; simp; code_simp)
  finally have t: "read_u16 8 ?b = push_bit 8 (ucast y)" by (simp add: read_u16_def from_be_def)
  have "unat y < 2 ^ 8" using unat_bound[of y] by simp
  then have u: "unat (push_bit 8 (ucast y) :: u16) = 256 * unat y"
    by (simp add: unsigned_push_bit_eq unsigned_ucast_eq take_bit_nat_eq_self push_bit_nat_def)
  have "read_u16 8 ?b < 1 \<or> read_u16 8 ?b > 3"
    unfolding t by (cases "unat y = 0") (simp_all add: word_less_nat_alt u)
  then show ?thesis by (simp add: parse_record_prefix_def journal_record_prefix_size_def reject_if_def)
qed

lemma scan_shifted:
  assumes "\<forall>r \<in> set rs. fits lim r"
  shows "let s = scan_journal (journal_image rs @ x # frame_of r @ rest) lim
    in js_records s = rs \<and> js_status s = (if rs = [] then Scan_Corrupt else Scan_CorruptTail) \<and>
       js_valid_bytes s = 16 + length (frames rs)"
proof -
  let ?b = "journal_image rs @ x # frame_of r @ rest"
  let ?z = "(scan_start ?b)\<lparr>js_records := rs, js_valid_bytes := (if rs = [] then 0 else 16 + length (frames rs))\<rparr>"
  have "drop 16 ?b = frames rs @ x # frame_of r @ rest" by (simp add: journal_image_def)
  note w = scan_wholes[OF this assms, of "scan_start ?b", unfolded scan_start_simps append_Nil]
  have d: "drop (16 + length (frames rs)) ?b = x # frame_of r @ rest" by (simp add: journal_image_def)
  have l: "length ?b - (16 + length (frames rs)) = 21 + length (jr_payload r) + length rest"
    using arg_cong[OF d, of length] by simp
  have "subspan (16 + length (frames rs)) 20 ?b = take 20 (x # frame_of r @ rest)"
    unfolding subspan_def d by simp
  moreover have "\<not> length ?b \<le> 16 + length (frames rs)" using l by simp
  moreover define st where "st = (if rs = [] then Scan_Corrupt else Scan_CorruptTail)"
  moreover define e where "e = ''record type is not recognised''"
  ultimately have s: "scan_loop lim ?b (16 + length (frames rs)) ?z =
      (16 + length (frames rs), ?z\<lparr>js_status := st, js_detail := e\<rparr>)"
    using l shifted_frame[of x r rest lim]
    by (subst scan_loop.simps)
      (simp add: journal_record_prefix_size_def status_code_is_def status_message_def st_def e_def)
  have "take 16 ?b = encode_journal_header journal_version" "16 \<le> length ?b" by (simp_all add: journal_image_def)
  from scan_journal_image[OF this(2,1), of lim] w s
  have "scan_journal ?b lim = scan_finish ?b (16 + length (frames rs), ?z\<lparr>js_status := st, js_detail := e\<rparr>)" by simp
  note g = scan_finish_facts(1-3)[OF this]
  show ?thesis unfolding Let_def using g st_def by (cases "rs = []") simp_all
qed

section \<open>A damaged tail is cut off\<close>

lemma open_shifted:
  assumes "workable opt" "quiet fs" "holds_checkpoint opt fs c"
    "fs_journal fs = Some (journal_image rs @ x # frame_of r @ rest)"
    "length (journal_content fs) \<le> 2 * journal_limit opt" "\<forall>r \<in> set rs. fits (record_limit opt) r"
    "replay_log (map_option ds_sequence c) rs (0, [], False, base_state c) = Some (txn, pending, amb, d)"
  shows "if rs = [] then \<exists>m u. store_open now (store_new opt fs) = (fail Code_Corrupt m, u)
    else \<exists>u. store_open now (store_new opt fs) = (success, u) \<and> usable_store opt c (amb \<or> txn \<noteq> 0) d u \<and>
      st_files u = fs\<lparr>fs_handle := True, fs_journal := Some (journal_image rs),
        fs_synced := length (journal_image rs)\<rparr>"
proof -
  let ?s = "opened opt fs c" and ?b = "journal_image rs @ x # frame_of r @ rest"
  let ?scan = "scan_journal ?b (record_limit opt)"
  note sc = scan_shifted[OF assms(6), of x r rest, unfolded Let_def]
  have jc: "journal_content fs = ?b" "?b \<noteq> []" by (simp_all add: journal_content_def assms(4))
  have big: "length ?b < 2 ^ 61" using assms(1,5) jc by (simp add: workable_def)
  have q: "quiet (st_files ?s)" "fs_handle (st_files ?s)" "journal_content (st_files ?s) = ?b"
    using assms(2) jc by (simp_all add: journal_content_def)
  have l: "\<not> unat (po_max_journal_bytes (store_policy ?s) * 2) < length ?b"
    using assms(5) jc by (simp add: workable_bounds[OF assms(1)])
  have rp: "replay ?s = replay_scan ?scan ?s"
    using quiet_journal(1-3)[OF q(1,2)] jc(2) l unfolding replay_def q(3)
    by (simp add: bind_Inr record_limit_def)
  note red = open_reduces[OF assms(1-3)]
  show ?thesis
  proof (cases "rs = []")
    case True
    then have "js_status ?scan = Scan_Corrupt" using sc by simp
    then have "\<exists>m u. replay ?s = (fail Code_Corrupt m, u)" by (simp add: rp replay_scan_def)
    then show ?thesis unfolding red using True by (auto simp: bind_Inl)
  next
    case False
    then have st: "js_status ?scan = Scan_CorruptTail" "js_records ?scan = rs"
      "js_valid_bytes ?scan = 16 + length (frames rs)" using sc by simp_all
    let ?s1 = "set_recovery (\<lambda>r. r\<lparr>rr_records_scanned := length rs, rr_discarded_bytes := js_discarded_bytes ?scan\<rparr>) ?s"
    have "covered_by ?s1 = map_option ds_sequence c" "st_state ?s1 = base_state c"
      by (cases c; simp add: covered_by_def set_recovery_def)+
    with assms(7) obtain rep0 where
      "replay_records rs 0 [] False ?s1 = (Inr (txn, amb), ?s1\<lparr>st_state := d, st_recovery := rep0\<rparr>)"
      using replay_records_log[of ?s1 rs 0 "[]" False] by auto
    then have r: "replay ?s = replay_settle ?scan (amb \<or> txn \<noteq> 0) (?s\<lparr>st_state := d, st_recovery := rep0\<rparr>)"
      by (simp add: rp replay_scan_def st bind_Inr set_recovery_def)
    let ?t = "?s\<lparr>st_state := d, st_recovery := rep0\<rparr>"
    have "take (16 + length (frames rs)) ?b = journal_image rs" by (simp add: journal_image_def)
    then have cut: "cut_journal (16 + length (frames rs)) (fs\<lparr>fs_journal := Some (journal_content fs), fs_handle := True\<rparr>) =
        fs\<lparr>fs_handle := True, fs_journal := Some (journal_image rs), fs_synced := min (fs_synced fs) (16 + length (frames rs))\<rparr>"
      using q(3) by (simp add: cut_journal_def Let_def journal_image_def)
    have jf: "journal_content (z\<lparr>fs_journal := Some w, fs_synced := m\<rparr>) = w" for z w m
      by (simp add: journal_content_def)
    have ln: "length (journal_image rs) = 16 + length (frames rs)" by (simp add: journal_image_def)
    have "\<exists>rep. replay ?s = (success, ?s\<lparr>st_state := d, st_recovery := rep,
        st_files := fs\<lparr>fs_handle := True, fs_journal := Some (journal_image rs),
          fs_synced := length (journal_image rs)\<rparr>\<rparr>) \<and>
        rr_ambiguous_commit rep = (amb \<or> txn \<noteq> 0) \<and> recovery_usable rep"
      unfolding r using settle_damaged[of ?scan ?t "amb \<or> txn \<noteq> 0"] st q(1,2) assms(1) big
      by (simp add: workable_def cut jf ln)
    then obtain rep where p: "replay ?s = (success, ?s\<lparr>st_state := d, st_recovery := rep,
        st_files := fs\<lparr>fs_handle := True, fs_journal := Some (journal_image rs),
          fs_synced := length (journal_image rs)\<rparr>\<rparr>)"
      "rr_ambiguous_commit rep = (amb \<or> txn \<noteq> 0)" "recovery_usable rep" by blast
    show ?thesis
      using False jc p by (cases c) (simp_all add: red bind_Inr p(1) op_when_def usable_store_def
        set_recovery_def covered_by_def recovery_usable_def)
  qed
qed

section \<open>A journal without a header\<close>

lemma headerless_scan:
  assumes "jr_sequence r < 2 ^ 56"
  shows "js_status (scan_journal (frames (r # rs)) lim) = Scan_Corrupt"
proof -
  let ?b = "frames (r # rs)"
  obtain y ys where y: "be64 (jr_sequence r) = y # ys" by (cases "be64 (jr_sequence r)") (auto dest: arg_cong[of _ _ length])
  then have ly: "length ys = 7" by (auto dest: arg_cong[of _ _ length])
  have "y = ucast (drop_bit 56 (jr_sequence r))"
    using y by (simp add: be_bytes_eq numeral_eq_Suc)
  moreover have "drop_bit 56 (jr_sequence r) = 0"
    using assms by (simp add: drop_bit_eq_div word_less_nat_alt flip: unat_0_iff) (simp add: unat_div)
  ultimately have "y = 0" by simp
  then have "take 8 (subspan 0 16 ?b) = 0 # take 7 ys"
    by (simp add: subspan_def frame_of_def record_head_def y ly)
  then have "take 8 (subspan 0 16 ?b) \<noteq> journal_magic" by (simp add: journal_magic_def bytes_of_string_def)
  then have "decode_journal_header (subspan 0 16 ?b) = fail Code_Corrupt ''journal magic does not match''"
    by (simp add: decode_journal_header_def reject_if_def subspan_def journal_header_size_def)
  then show ?thesis by (simp add: scan_journal_def journal_header_size_def status_code_is_def)
qed

section \<open>Acknowledged commits that are lost\<close>

text \<open>
  C36: a write that fell short loses a later commit. A store that holds its state tries to commit; the
  first write puts one byte into the journal and fails, and the commit is reported as failed. The
  next commit appends after that byte and is reported as successful, with syncing on. When the
  directory is opened again the scan cannot get past the byte: either the store comes back with
  the state from before both commits, or, when no record preceded the byte, it refuses to open.
\<close>

theorem torn_write_loses_next_commit:
  assumes "settled_store s" "committable (st_options s) (stamp_state now (st_state s) p)"
    "committable (st_options s) (stamp_state now' (st_state s) p')"
    "length (journal_content (st_files s)) + record_limit (st_options s) + 41 \<le> journal_limit (st_options s)"
    "store_commit now p (s\<lparr>st_files := (st_files s)\<lparr>fs_faults := [Io_Fault 1]\<rparr>\<rparr>) = (r, t)"
    "store_commit now' p' t = (r', u)"
    "store_open later (store_new (st_options s) (crash_image n (st_files u))) = (q, v)"
  shows "r \<noteq> success \<and> r' = success \<and> st_state u = stamp_state now' (st_state s) p' \<and>
    (if journal_content (st_files s) = journal_image [] then \<exists>m. q = fail Code_Corrupt m
     else q = success \<and> st_state v = st_state s)"
proof -
  let ?opt = "st_options s" and ?fs = "st_files s" and ?d = "st_state s"
  let ?e = "stamp_state now ?d p" and ?e' = "stamp_state now' ?d p'"
  obtain c rs where h: "st_open s" "workable ?opt" "fs_handle ?fs" "covered_by s = map_option ds_sequence c"
    "log_holds ?opt ?fs c rs ?d" "quiet ?fs" "so_sync_on_commit ?opt"
    using assms(1) by (auto simp: settled_store_def store_holds_def)
  note L = h(5)[unfolded log_holds_def]
  obtain txn pending amb where rl: "replay_log (map_option ds_sequence c) rs (0, [], False, base_state c) = Some (txn, pending, amb, ?d)"
    using L by blast
  have j: "fs_journal ?fs = Some (journal_image rs)" "journal_content ?fs = journal_image rs"
    using L by (simp_all add: journal_content_def)
  obtain body where b: "encode_durable ?e = Inr body" "length body \<le> min (record_limit ?opt) journal_hard_max_record"
    using assms(2) by (auto simp: committable_def)
  obtain body' where b': "encode_durable ?e' = Inr body'" "length body' \<le> min (record_limit ?opt) journal_hard_max_record"
    using assms(3) by (auto simp: committable_def)
  let ?B = "begin_record ?e body"
  obtain x xs where x: "frame_of ?B = x # xs" by (cases "frame_of ?B") (auto dest: arg_cong[of _ _ length])
  then have xs: "xs \<noteq> []" by (auto dest: arg_cong[of _ _ length])
  let ?j = "journal_image rs @ [x]"
  let ?t = "s\<lparr>st_files := ?fs\<lparr>fs_journal := Some ?j\<rparr>\<rparr>"
  have enc: "encode_record ?B (record_limit ?opt) = Inr (frame_of ?B)"
    "encode_record (commit_record ?e) (record_limit ?opt) = Inr (frame_of (commit_record ?e))"
    using b(2) by (simp_all add: encode_record_frame fits_def begin_record_def commit_record_def)
  let ?g = "?fs\<lparr>fs_faults := [Io_Fault 1]\<rparr>"
  have "need_handle ?g = (success, ?g)" using h(3) by (simp add: need_handle_def)
  moreover have tk: "take (min (Suc 0) (length xs)) (x # xs) = [x]" using xs by (cases xs) auto
  moreover have fq: "z\<lparr>fs_faults := [], fs_journal := w\<rparr> = z\<lparr>fs_journal := w\<rparr>" if "quiet z" for z w
    using that by (cases z) simp
  ultimately have w: "\<exists>m. on_files (file_write (frame_of ?B)) (s\<lparr>st_files := ?g\<rparr>) = (fail Code_Unavailable m, ?t)"
    using h(6) tk by (simp add: file_write_def bind_Inr os_call_def append_journal_def x journal_content_def j(1) fq)
  have rt: "r \<noteq> success" "t = ?t"
    using assms(5) h(1) b(1) enc w unfolding store_commit_def
    by (auto simp: Let_def record_limit_def[symmetric] bind_Inr bind_Inl)
  let ?B' = "begin_record ?e' body'" and ?C' = "commit_record ?e'"
  let ?k = "?j @ frames [?B', ?C']"
  have kl: "\<not> journal_limit ?opt < length ?k"
    using assms(4) b'(2) by (simp add: j(2) begin_record_def commit_record_def)
  have "st_open ?t" "quiet (st_files ?t)" "fs_handle (st_files ?t)" "so_sync_on_commit (st_options ?t)"
    "fs_journal (st_files ?t) = Some ?j" "?e' = stamp_state now' (st_state ?t) p'" using h by simp_all
  from commit_quiet[OF this b'(1) _ refl] b'(2) kl
  have u: "r' = success" "st_state u = ?e'" "st_files u = committed_files ?k ?fs"
    using assms(6) unfolding rt(2) by (auto simp: committed_files_def)
  let ?f = "crash_image n (st_files u)"
  have k: "?k = journal_image rs @ x # frame_of ?B' @ frame_of ?C'" by simp
  have f: "fs_journal ?f = Some ?k" "fs_checkpoint ?f = fs_checkpoint ?fs" "quiet ?f"
    by (simp_all add: u(3) crash_image_def committed_files_def Let_def)
  have hc: "holds_checkpoint ?opt ?f c" using L holds_checkpoint_cong[OF f(2)] by blast
  have "length (journal_content ?f) \<le> 2 * journal_limit ?opt" using kl by (simp add: journal_content_def f(1) del: append_assoc)
  from open_shifted[OF h(2) f(3) hc f(1)[unfolded k] this _ rl, of later]
  have "if rs = [] then \<exists>m u. store_open later (store_new ?opt ?f) = (fail Code_Corrupt m, u)
    else \<exists>u. store_open later (store_new ?opt ?f) = (success, u) \<and> st_state u = ?d"
    using L by (auto simp: usable_store_def split: if_splits)
  moreover have "rs = [] \<longleftrightarrow> journal_image rs = journal_image []"
    by (cases rs) (auto simp: journal_image_def dest: arg_cong[of _ _ length])
  ultimately show ?thesis using rt(1) u assms(7) by (auto simp: j(2) split: if_splits)
qed

theorem torn_write_loses_next_commit_witness:
  "let t = snd (store_commit 2 sample_durable (sample_store\<lparr>st_files := (st_files sample_store)\<lparr>fs_faults := [Io_Fault 1]\<rparr>\<rparr>));
       u = snd (store_commit 3 sample_durable t)
   in fst (store_commit 3 sample_durable t) = success \<and> st_state u = stamp_state 3 durable_default sample_durable \<and>
      (\<exists>m. fst (store_open 4 (store_new sample_options (crash_image 0 (st_files u)))) = fail Code_Corrupt m)"
proof -
  note s = sample_store_settled
  have c: "committable sample_options (stamp_state 2 durable_default sample_durable)"
    "committable sample_options (stamp_state 3 durable_default sample_durable)"
    using sample_committable[of 2 durable_default] sample_committable[of 3 durable_default] by (simp_all add: durable_default_def)
  have l: "length (journal_content (st_files sample_store)) + record_limit sample_options + 41 \<le> journal_limit sample_options"
    by (simp add: s(4) journal_image_def record_limit_def journal_limit_def sample_options_def policy_default_def)
  let ?s = "sample_store\<lparr>st_files := (st_files sample_store)\<lparr>fs_faults := [Io_Fault 1]\<rparr>\<rparr>"
  obtain r t where t: "store_commit 2 sample_durable ?s = (r, t)" by force
  obtain r' u where u: "store_commit 3 sample_durable t = (r', u)" by force
  obtain q v where v: "store_open 4 (store_new sample_options (crash_image 0 (st_files u))) = (q, v)" by force
  from torn_write_loses_next_commit[OF s(1) _ _ _ t u, unfolded s(2,3), OF c l v] show ?thesis unfolding Let_def t u v snd_conv fst_conv by (simp add: s(4))
qed

text \<open>
  C37: commits that follow a crash inside a compaction are lost. A compaction empties the journal before
  it writes the header again; let the machine crash in between, so that an empty journal lies
  next to a good checkpoint. The store then opens, because the empty journal is not replayed, but
  writes no header, because a checkpoint is present. The next commit is reported as successful, and
  the opening after it finds a journal without a header and is refused.
\<close>

theorem commit_after_torn_compaction_is_refused:
  assumes "workable opt" "so_sync_on_commit opt" "quiet fs" "journal_content fs = []" "holds_checkpoint opt fs (Some c)"
    "ds_sequence c < 2 ^ 55" "committable opt (stamp_state now c p)"
    "store_open start (store_new opt fs) = (r, s)" "store_commit now p s = (r', t)"
    "store_open later (store_new opt (crash_image n (st_files t))) = (q, u)"
  shows "r = success \<and> r' = success \<and> st_state t = stamp_state now c p \<and> (\<exists>m. q = fail Code_Corrupt m)"
proof -
  let ?e = "stamp_state now c p"
  obtain body where b: "encode_durable ?e = Inr body" "length body \<le> min (record_limit opt) journal_hard_max_record"
    using assms(7) by (auto simp: committable_def)
  from open_empty[OF assms(1,3,5,4), of start] have s: "r = success" "usable_store opt (Some c) False c s"
    "st_files s = fs\<lparr>fs_handle := True, fs_journal := Some []\<rparr>"
    using assms(8) by (auto simp: base_state_def)
  then have o: "st_open s" "quiet (st_files s)" "fs_handle (st_files s)" "so_sync_on_commit (st_options s)"
    "fs_journal (st_files s) = Some []" "?e = stamp_state now (st_state s) p" "st_options s = opt"
    using assms(2,3) by (simp_all add: usable_store_def)
  let ?B = "begin_record ?e body" and ?C = "commit_record ?e"
  let ?k = "frames [?B, ?C]"
  have kl: "length ?k \<le> journal_limit opt"
    using assms(1) b(2) by (simp add: workable_def begin_record_def commit_record_def)
  from commit_quiet[OF o(1-6) b(1) _ refl] b(2) kl o(7) assms(9)
  have t: "r' = success" "st_state t = ?e" "st_files t = committed_files ?k (st_files s)" by auto
  let ?f = "crash_image n (st_files t)"
  have f: "fs_journal ?f = Some ?k" "fs_checkpoint ?f = fs_checkpoint fs" "quiet ?f" "journal_content ?f = ?k"
    by (simp_all add: t(3) crash_image_def committed_files_def Let_def s(3) assms(3) journal_content_def)
  have hc: "holds_checkpoint opt ?f (Some c)" using assms(5) holds_checkpoint_cong[OF f(2)] by blast
  let ?s = "opened opt ?f (Some c)" and ?scan = "scan_journal ?k (record_limit opt)"
  have "unat (ds_sequence c) + 1 < 2 ^ 56" using assms(6) by (simp add: word_less_nat_alt)
  then have "jr_sequence ?B < 2 ^ 56"
    by (simp add: begin_record_def stamp_state_def word_less_nat_alt unat_word_ariths)
  from headerless_scan[OF this] have sc: "js_status ?scan = Scan_Corrupt" .
  have q: "quiet (st_files ?s)" "fs_handle (st_files ?s)" "journal_content (st_files ?s) = ?k"
    using f by (simp_all add: journal_content_def)
  have l: "\<not> unat (po_max_journal_bytes (store_policy ?s) * 2) < length ?k" "?k \<noteq> []"
    using kl by (simp_all add: workable_bounds[OF assms(1)]) (auto dest: arg_cong[of _ _ length])
  have "replay ?s = replay_scan ?scan ?s"
    using quiet_journal(1-3)[OF q(1,2)] l unfolding replay_def q(3) by (simp add: bind_Inr record_limit_def)
  then have "\<exists>m u. replay ?s = (fail Code_Corrupt m, u)" using sc by (simp add: replay_scan_def)
  then have "\<exists>m. q = fail Code_Corrupt m"
    using assms(10) unfolding open_reduces[OF assms(1) f(3) hc] by (auto simp: bind_Inl)
  with s(1) t show ?thesis by blast
qed

definition sample_torn :: files where
  "sample_torn = sample_directory\<lparr>fs_journal := Some [], fs_checkpoint := Some (checkpoint_image
     (projr (encode_durable (stamp_state 2 durable_default sample_durable))))\<rparr>"

theorem commit_after_torn_compaction_is_refused_witness:
  "let s = snd (store_open 3 (store_new sample_options sample_torn));
       t = snd (store_commit 4 sample_durable s)
   in fst (store_commit 4 sample_durable s) = success \<and>
      (\<exists>m. fst (store_open 5 (store_new sample_options (crash_image 0 (st_files t)))) = fail Code_Corrupt m)"
proof -
  let ?c = "stamp_state 2 durable_default sample_durable"
  have c: "committable sample_options ?c" "committable sample_options (stamp_state 4 ?c sample_durable)"
    using sample_committable[of 2 durable_default] sample_committable[of 4 ?c]
    by (simp_all add: stamp_state_def durable_default_def)
  have f: "quiet sample_torn" "journal_content sample_torn = []" "so_sync_on_commit sample_options"
    by (simp_all add: sample_torn_def sample_directory_def journal_content_def sample_options_def)
  have h: "holds_checkpoint sample_options sample_torn (Some ?c)"
    using c(1) by (auto simp: holds_checkpoint_def committable_def sample_torn_def)
  have q: "ds_sequence ?c < 2 ^ 55" by (simp add: stamp_state_def durable_default_def)
  obtain r s where s: "store_open 3 (store_new sample_options sample_torn) = (r, s)" by force
  obtain r' t where t: "store_commit 4 sample_durable s = (r', t)" by force
  obtain q' u where u: "store_open 5 (store_new sample_options (crash_image 0 (st_files t))) = (q', u)" by force
  from commit_after_torn_compaction_is_refused[OF sample_options_workable f(3,1,2) h q c(2) s t u]
  show ?thesis by (simp add: s t u)
qed

end
