(* ===== verification/Controller.thy ===== *)
theory Controller
  imports Stores Dependency Authority Composer
begin

text \<open>
  The pod controller: \<open>control/controller.hpp\<close>, \<open>control/controller.cpp\<close>. The state of the object is
  one record; an operation takes it and returns its outcome with the state it leaves behind, also
  when it fails. The clocks and the entropy source are parameters, read in the order in which the
  code reads them. The write mutex makes the operations sequential, so an interleaving of calls is a
  sequence of operations. An observer is a consumer that records what it receives and does not
  call back into the controller.
\<close>

section \<open>Data\<close>

record controller_options =
  co_pod :: ident
  co_policy :: policy
  co_store_directory :: string
  co_require_authority_token :: bool
  co_default_lease_duration :: nanos
  co_max_observers :: nat

datatype apply_outcome =
  Apply_Unchanged | Apply_Applied | Apply_EpochAdvanced | Apply_Recovered | Apply_Retired

primrec apply_outcome_to_string :: "apply_outcome \<Rightarrow> string" where
  "apply_outcome_to_string Apply_Unchanged = ''UNCHANGED''"
| "apply_outcome_to_string Apply_Applied = ''APPLIED''"
| "apply_outcome_to_string Apply_EpochAdvanced = ''EPOCH_ADVANCED''"
| "apply_outcome_to_string Apply_Recovered = ''RECOVERED''"
| "apply_outcome_to_string Apply_Retired = ''RETIRED''"

record apply_report =
  ap_outcome :: apply_outcome
  ap_state :: pod_state
  ap_revalidation :: revalidation_report
  ap_previous_lifecycle :: lifecycle_state
  ap_previous_epoch :: sequence
  ap_previous_digest :: digest
  ap_detail :: string

datatype event_kind =
    Event_Recovered | Event_Applied | Event_LifecycleChanged | Event_EpochAdvanced
  | Event_AuthorityGranted | Event_AuthorityFenced | Event_AdminStateChanged | Event_Retired

primrec event_kind_to_string :: "event_kind \<Rightarrow> string" where
  "event_kind_to_string Event_Recovered = ''recovered''"
| "event_kind_to_string Event_Applied = ''applied''"
| "event_kind_to_string Event_LifecycleChanged = ''lifecycle-changed''"
| "event_kind_to_string Event_EpochAdvanced = ''epoch-advanced''"
| "event_kind_to_string Event_AuthorityGranted = ''authority-granted''"
| "event_kind_to_string Event_AuthorityFenced = ''authority-fenced''"
| "event_kind_to_string Event_AdminStateChanged = ''admin-state-changed''"
| "event_kind_to_string Event_Retired = ''retired''"

record event =
  ev_kind :: event_kind
  ev_epoch :: sequence
  ev_incarnation :: incarnation
  ev_lifecycle :: lifecycle_state
  ev_subject :: string
  ev_detail :: string

definition mk_event ::
  "event_kind \<Rightarrow> sequence \<Rightarrow> incarnation \<Rightarrow> lifecycle_state \<Rightarrow> string \<Rightarrow> string \<Rightarrow> event" where
  "mk_event k e i l s d = \<lparr>ev_kind = k, ev_epoch = e, ev_incarnation = i, ev_lifecycle = l,
     ev_subject = s, ev_detail = d\<rparr>"

text \<open>The controller's clock, the system clock and the entropy source, by the number of the reading.\<close>

record environment =
  en_clock :: "nat \<Rightarrow> nanos"
  en_system :: "nat \<Rightarrow> nanos"
  en_entropy :: "nat \<Rightarrow> byte list option"

text \<open>\<open>ct_files\<close> is the directory while no store object is alive, \<open>ct_last_evidence\<close> is \<open>last_evidence_\<close>
  when \<open>have_last_evidence_\<close> is set, \<open>ct_staged\<close> is the local vector of events of a write, and
  \<open>ct_delivered\<close> is what the observers have received.\<close>

record controller =
  ct_options :: controller_options
  ct_store :: "pod_store option"
  ct_files :: files
  ct_open :: bool
  ct_incarnation :: incarnation
  ct_epoch :: sequence
  ct_lifecycle :: lifecycle_state
  ct_context_lifecycle :: lifecycle_state
  ct_state :: pod_state
  ct_expectations :: "member_expectation list"
  ct_tokens :: "authority_token list"
  ct_revoked :: "ident list"
  ct_fencing :: sequence
  ct_admin :: "(ident, admin_state) smap"
  ct_last_evidence :: "pod_snapshot option"
  ct_index :: decision_index
  ct_recovered_round :: bool
  ct_restart_epoch_pending :: bool
  ct_ambiguous_commit :: bool
  ct_durable :: bool
  ct_fenced_on_restart :: nat
  ct_recovered_at :: nanos
  ct_recovery :: recovery_report
  ct_observers :: "nat list"
  ct_pending :: "event list"
  ct_staged :: "event list"
  ct_delivered :: "(nat \<times> event) list"
  ct_ticks :: nat

definition controller_new :: "controller_options \<Rightarrow> files \<Rightarrow> controller" where
  "controller_new options fs =
     \<lparr>ct_options = options\<lparr>co_policy := (co_policy options)
          \<lparr>po_require_authority_token := co_require_authority_token options\<rparr>\<rparr>,
      ct_store = None, ct_files = fs, ct_open = False, ct_incarnation = uuid_nil, ct_epoch = 0,
      ct_lifecycle = Life_Constructing, ct_context_lifecycle = Life_Constructing,
      ct_state = pod_state_default, ct_expectations = [], ct_tokens = [], ct_revoked = [],
      ct_fencing = 0, ct_admin = [], ct_last_evidence = None, ct_index = index_empty,
      ct_recovered_round = False, ct_restart_epoch_pending = False, ct_ambiguous_commit = False,
      ct_durable = False, ct_fenced_on_restart = 0, ct_recovered_at = 0,
      ct_recovery = recovery_default, ct_observers = [], ct_pending = [], ct_staged = [],
      ct_delivered = [], ct_ticks = 0\<rparr>"

section \<open>Readings\<close>

definition tick :: "(nat \<Rightarrow> 'a) \<Rightarrow> ('a, controller) op" where
  "tick f c = (Inr (f (ct_ticks c)), c\<lparr>ct_ticks := Suc (ct_ticks c)\<rparr>)"

definition with_controller :: "(controller \<Rightarrow> ('a, controller) op) \<Rightarrow> ('a, controller) op" where
  "with_controller f c = f c c"

definition need_open :: "(unit, controller) op" where
  "need_open c = op_guard (\<not> ct_open c) Code_Invalid ''the pod controller is not open'' c"

section \<open>The store the controller owns\<close>

text \<open>An operation of the store, without effect when there is none.\<close>

definition on_store :: "(unit, pod_store) op \<Rightarrow> (unit, controller) op" where
  "on_store m c =
     (case ct_store c of
        None \<Rightarrow> (success, c)
      | Some s \<Rightarrow> (case m s of (r, t) \<Rightarrow> (r, c\<lparr>ct_store := Some t\<rparr>)))"

text \<open>\<open>store_.reset()\<close>: the destructor closes the store.\<close>

definition release_store :: "controller \<Rightarrow> controller" where
  "release_store c =
     (case ct_store c of
        None \<Rightarrow> c
      | Some s \<Rightarrow> c\<lparr>ct_store := None, ct_files := st_files (snd (store_close s))\<rparr>)"

definition store_options_of :: "controller_options \<Rightarrow> store_options" where
  "store_options_of opts = \<lparr>so_directory = co_store_directory opts, so_policy = co_policy opts,
     so_sync_on_commit = True, so_repair_torn_tail = True\<rparr>"

section \<open>Events\<close>

definition publish :: "event \<Rightarrow> controller \<Rightarrow> controller" where
  "publish e c = (if length (ct_pending c) \<ge> 1024 then c else c\<lparr>ct_pending := ct_pending c @ [e]\<rparr>)"

definition dispatch :: "controller \<Rightarrow> controller" where
  "dispatch c = c\<lparr>ct_pending := [], ct_delivered := ct_delivered c @
     concat (map (\<lambda>e. map (\<lambda>x. (x, e)) (ct_observers c)) (ct_pending c))\<rparr>"

definition subscribe :: "nat option \<Rightarrow> (unit, controller) op" where
  "subscribe observer =
     with_controller (\<lambda>c.
     case observer of
       None \<Rightarrow> op_fail Code_Invalid ''observer is empty''
     | Some x \<Rightarrow>
         op_then (op_guard (length (ct_observers c) \<ge> co_max_observers (ct_options c)) Code_Exhausted
           ''the controller already has the maximum number of observers'')
         (op_update (\<lambda>c. c\<lparr>ct_observers := ct_observers c @ [x]\<rparr>)))"

definition stage :: "event \<Rightarrow> (unit, controller) op" where
  "stage e = op_update (\<lambda>c. c\<lparr>ct_staged := ct_staged c @ [e]\<rparr>)"

definition flush_events :: "controller \<Rightarrow> controller" where
  "flush_events c = dispatch ((fold publish (ct_staged c) c)\<lparr>ct_staged := []\<rparr>)"

text \<open>A write that publishes its events when it succeeds and drops them when it fails.\<close>

definition publishing :: "('a, controller) op \<Rightarrow> ('a, controller) op" where
  "publishing m c =
     (case m (c\<lparr>ct_staged := []\<rparr>) of
        (Inl e, d) \<Rightarrow> (Inl e, d\<lparr>ct_staged := []\<rparr>)
      | (Inr x, d) \<Rightarrow> (Inr x, flush_events d))"

section \<open>Opening and closing\<close>

text \<open>The start of \<open>open\<close>: the fields that are reset before the store is opened.\<close>

definition reset_controller :: "incarnation \<Rightarrow> controller \<Rightarrow> controller" where
  "reset_controller born c =
     c\<lparr>ct_incarnation := born,
       ct_state := pod_state_default\<lparr>ps_pod := co_pod (ct_options c), ps_schema := pod_state_schema,
         ps_incarnation := born, ps_lifecycle := Life_Constructing\<rparr>,
       ct_lifecycle := Life_Constructing, ct_epoch := 0, ct_recovered_round := False,
       ct_ambiguous_commit := False, ct_durable := False\<rparr>"

definition store_refused :: string where
  "store_refused = ''the store directory belongs to a different pod''"

text \<open>Opening the store object: its report is copied also when it fails, and then it is dropped.\<close>

definition open_store :: "environment \<Rightarrow> (durable_state, controller) op" where
  "open_store env =
     op_bind (tick (en_system env)) (\<lambda>now.
     with_controller (\<lambda>c.
       let d = release_store c in
       case store_open now (store_new (store_options_of (ct_options d)) (ct_files d)) of (r, s) \<Rightarrow>
       let e = d\<lparr>ct_store := Some s, ct_recovery := st_recovery s\<rparr> in
       (\<lambda>_. case r of
          Inl f \<Rightarrow> (Inl f, release_store e)
        | Inr _ \<Rightarrow> (Inr (st_state s), e\<lparr>ct_durable := True\<rparr>))))"

definition admin_map :: "(ident \<times> admin_state) list \<Rightarrow> (ident, admin_state) smap" where
  "admin_map entries = smap_index fst snd entries"

text \<open>The copies of the recovered fields; the tokens of earlier incarnations are dropped.\<close>

definition take_recovered :: "durable_state \<Rightarrow> controller \<Rightarrow> controller" where
  "take_recovered d c =
     c\<lparr>ct_epoch := ds_epoch d, ct_lifecycle := ds_lifecycle d, ct_expectations := ds_expectations d,
       ct_revoked := ds_revoked d, ct_fencing := ds_fencing d, ct_admin := admin_map (ds_admin d),
       ct_recovered_round := True, ct_ambiguous_commit := rr_ambiguous_commit (ct_recovery c),
       ct_recovered_at := rr_recovered_at (ct_recovery c),
       ct_restart_epoch_pending := ds_writer d \<noteq> ct_incarnation c,
       ct_fenced_on_restart := length (ds_tokens d), ct_tokens := []\<rparr>"

definition enter_recovering :: "durable_state \<Rightarrow> (durable_state, controller) op" where
  "enter_recovering next =
     with_controller (\<lambda>c.
       if ct_lifecycle c \<noteq> Life_Retired then
         op_bind (op_lift (sequence_next (ct_epoch c))) (\<lambda>bumped.
         op_then (op_update (\<lambda>c. c\<lparr>ct_epoch := bumped, ct_lifecycle := Life_Recovering\<rparr>))
         (op_return (next\<lparr>ds_epoch := bumped, ds_lifecycle := Life_Recovering\<rparr>)))
       else op_return next)"

definition recover :: "environment \<Rightarrow> durable_state \<Rightarrow> (unit, controller) op" where
  "recover env d =
     with_controller (\<lambda>c.
       if is_nil (ds_pod d) then op_return ()
       else if ds_pod d \<noteq> co_pod (ct_options c) then
         op_then (op_update release_store) (op_fail Code_Refused store_refused)
       else
         op_then (op_update (take_recovered d))
         (op_bind (enter_recovering (d\<lparr>ds_writer := ct_incarnation c, ds_tokens := []\<rparr>)) (\<lambda>next.
          op_bind (tick (en_system env)) (\<lambda>now.
          on_store (store_commit now (next\<lparr>ds_last_state_digest := digest_zero\<rparr>))))))"

definition controller_open :: "environment \<Rightarrow> (unit, controller) op" where
  "controller_open env =
     with_controller (\<lambda>c.
     op_then (op_guard (ct_open c) Code_Refused ''the pod controller is already open'')
     (op_then (op_guard (is_nil (co_pod (ct_options c))) Code_Invalid
       ''the pod controller has no pod identity'')
     (op_then (op_lift (validate_policy (co_policy (ct_options c))))
     (op_bind (tick (en_entropy env)) (\<lambda>entropy.
      op_bind (op_lift (incarnation_fresh entropy)) (\<lambda>born.
      op_then (op_update (reset_controller born))
     (op_then (op_when (co_store_directory (ct_options c) \<noteq> [])
        (op_bind (open_store env) (recover env)))
     (op_update (\<lambda>c.
        publish (mk_event Event_Recovered (ct_epoch c) (ct_incarnation c) (ct_lifecycle c) []
          ((if ct_durable c then recovery_outcome_to_string (rr_outcome (ct_recovery c))
            else ''memory-only'') @ '' fenced-leases='' @ dec_string (ct_fenced_on_restart c)))
        (c\<lparr>ct_state := (ct_state c)\<lparr>ps_epoch := ct_epoch c, ps_lifecycle := ct_lifecycle c\<rparr>,
           ct_open := True\<rparr>))))))))))"

definition controller_close :: "(unit, controller) op" where
  "controller_close =
     with_controller (\<lambda>c.
       if \<not> ct_open c then op_return ()
       else case ct_store c of
         None \<Rightarrow> op_update (\<lambda>c. dispatch (c\<lparr>ct_open := False, ct_index := index_empty\<rparr>))
       | Some s \<Rightarrow>
           (case store_close s of (r, t) \<Rightarrow>
              op_then (op_update (\<lambda>c. release_store (c\<lparr>ct_open := False, ct_store := Some t\<rparr>)))
              (op_then (op_lift r) (op_update (\<lambda>c. dispatch (c\<lparr>ct_index := index_empty\<rparr>))))))"

section \<open>Reads\<close>

definition describe :: "controller \<Rightarrow> string" where
  "describe c = state_text (ct_state c) True"

definition plan_for :: "controller \<Rightarrow> dep_key list \<Rightarrow> revalidation_plan" where
  "plan_for c changed = index_plan (ct_index c) changed"

text \<open>\<open>clock_->now()\<close> and the checks at the current epoch and incarnation.\<close>

definition check_authority ::
  "environment \<Rightarrow> authority_token \<Rightarrow> authority_scope \<Rightarrow> ident \<Rightarrow> (authority_verdict, controller) op" where
  "check_authority env token scope subject =
     op_bind (tick (en_clock env)) (\<lambda>now.
     with_controller (\<lambda>c.
     op_bind (op_lift (validate_token token
       \<lparr>ac_pod = co_pod (ct_options c), ac_epoch = ct_epoch c, ac_incarnation = ct_incarnation c,
        ac_now = now, ac_clock_skew = po_clock_skew (co_policy (ct_options c)),
        ac_revoked = ct_revoked c, ac_required = scope, ac_enforce_scope = True\<rparr>)) (\<lambda>verdict.
     op_return
       (if \<not> verdict_valid verdict then verdict
        else if \<not> is_nil subject \<and> at_scope token \<noteq> Scope_Pod \<and> at_subject token \<noteq> subject
        then mk_verdict Verdict_WrongScope Code_Refused
               ''token subject does not match the requested subject''
        else verdict))))"

section \<open>Persisting\<close>

definition derive_expectation ::
  "(ident, member_expectation) smap \<Rightarrow> member_verdict \<Rightarrow> member_expectation list" where
  "derive_expectation prior v =
     (if mv_status v = Mem_Retiring then []
      else if mv_status v = Mem_Established then
        [\<lparr>me_rack = mv_rack v, me_generation = mv_generation v, me_digest = mv_digest v,
          me_membership = Membership_Established\<rparr>]
      else case smap_get prior (mv_rack v) of None \<Rightarrow> [] | Some e \<Rightarrow> [e])"

definition derive_expectations ::
  "pod_state \<Rightarrow> member_expectation list \<Rightarrow> member_expectation list" where
  "derive_expectations composed previous =
     sort_key expectation_key
       (concat (map (derive_expectation (smap_index me_rack (\<lambda>e. e) previous)) (ps_members composed)))"

definition durable_of ::
  "controller \<Rightarrow> nanos \<Rightarrow> pod_state \<Rightarrow> member_expectation list \<Rightarrow> authority_token list \<Rightarrow>
   ident list \<Rightarrow> durable_state" where
  "durable_of c written composed expectations tokens revoked =
     durable_default\<lparr>ds_pod := co_pod (ct_options c), ds_epoch := ps_epoch composed,
       ds_writer := ct_incarnation c, ds_lifecycle := ps_lifecycle composed,
       ds_expectations := expectations, ds_tokens := tokens, ds_revoked := revoked,
       ds_fencing := ct_fencing c, ds_last_state_digest := ps_state_digest composed,
       ds_written_at := written, ds_admin := sort_key fst (ct_admin c)\<rparr>"

definition persist_state ::
  "environment \<Rightarrow> pod_state \<Rightarrow> member_expectation list \<Rightarrow> authority_token list \<Rightarrow> ident list \<Rightarrow>
   (unit, controller) op" where
  "persist_state env composed expectations tokens revoked =
     with_controller (\<lambda>c.
       if ct_store c = None then op_return ()
       else
         op_bind (tick (en_clock env)) (\<lambda>written.
         op_bind (tick (en_system env)) (\<lambda>now.
         op_then (on_store (store_commit now (durable_of c written composed expectations tokens revoked)))
         (op_update (\<lambda>c. c\<lparr>ct_recovered_round := False, ct_ambiguous_commit := False,
            ct_restart_epoch_pending := False\<rparr>)))))"

section \<open>Applying evidence\<close>

record inputs =
  ci_epoch :: sequence
  ci_incarnation :: incarnation
  ci_lifecycle :: lifecycle_state
  ci_expectations :: "member_expectation list"
  ci_tokens :: "authority_token list"
  ci_revoked :: "ident list"
  ci_admin :: "(ident, admin_state) smap"
  ci_recovered :: bool
  ci_ambiguous :: bool
  ci_recovered_at :: nanos

definition inputs_of :: "controller \<Rightarrow> inputs" where
  "inputs_of c =
     \<lparr>ci_epoch = ct_epoch c, ci_incarnation = ct_incarnation c, ci_lifecycle = ct_lifecycle c,
      ci_expectations = ct_expectations c, ci_tokens = ct_tokens c, ci_revoked = ct_revoked c,
      ci_admin = ct_admin c, ci_recovered = ct_recovered_round c,
      ci_ambiguous = ct_ambiguous_commit c, ci_recovered_at = ct_recovered_at c\<rparr>"

definition overlay_admin :: "(ident, admin_state) smap \<Rightarrow> pod_snapshot \<Rightarrow> pod_snapshot" where
  "overlay_admin overrides evidence =
     evidence\<lparr>sn_members := map (\<lambda>m. case smap_get overrides (mr_rack m) of
         None \<Rightarrow> m | Some a \<Rightarrow> m\<lparr>mr_admin := a\<rparr>) (sn_members evidence)\<rparr>"

definition apply_request :: "controller \<Rightarrow> inputs \<Rightarrow> nanos \<Rightarrow> pod_snapshot \<Rightarrow> composition_request" where
  "apply_request c i now evidence =
     \<lparr>rq_snapshot = overlay_admin (ci_admin i) evidence,
      rq_context = \<lparr>cx_epoch = ci_epoch i, cx_incarnation = ci_incarnation i,
        cx_expectations = ci_expectations i, cx_granted_tokens = ci_tokens i,
        cx_revoked_tokens = ci_revoked i, cx_now = now, cx_recovered_from_store = ci_recovered i,
        cx_recovered_at = ci_recovered_at i, cx_ambiguous_commit = ci_ambiguous i,
        cx_lifecycle = ci_lifecycle i\<rparr>,
      rq_policy = co_policy (ct_options c)\<rparr>"

definition survivor_check :: "controller \<Rightarrow> inputs \<Rightarrow> pod_state \<Rightarrow> nanos \<Rightarrow> authority_check" where
  "survivor_check c i composed now =
     \<lparr>ac_pod = co_pod (ct_options c), ac_epoch = ps_epoch composed,
      ac_incarnation = ct_incarnation c, ac_now = now,
      ac_clock_skew = po_clock_skew (co_policy (ct_options c)), ac_revoked = ci_revoked i,
      ac_required = Scope_Pod, ac_enforce_scope = False\<rparr>"

fun survivors :: "environment \<Rightarrow> inputs \<Rightarrow> pod_state \<Rightarrow> authority_token list \<Rightarrow>
    (authority_token list, controller) op" where
  "survivors env i composed [] = op_return []"
| "survivors env i composed (t # ts) =
     op_bind (tick (en_clock env)) (\<lambda>now.
     with_controller (\<lambda>c.
     op_bind (op_lift (validate_token t (survivor_check c i composed now))) (\<lambda>verdict.
     if verdict_valid verdict then
       op_bind (survivors env i composed ts) (\<lambda>rest. op_return (t # rest))
     else
       op_then (stage (mk_event Event_AuthorityFenced (ps_epoch composed) (ct_incarnation c)
                  (ps_lifecycle composed) (at_lease t) (av_detail verdict)))
         (survivors env i composed ts))))"

definition changed_keys ::
  "controller \<Rightarrow> inputs \<Rightarrow> pod_snapshot \<Rightarrow> pod_state \<Rightarrow> member_expectation list \<Rightarrow>
   authority_token list \<Rightarrow> dep_key list" where
  "changed_keys c i effective composed derived surviving =
     membership_change_keys (ci_expectations i) derived @
     (case ct_last_evidence c of None \<Rightarrow> [] | Some e \<Rightarrow> snapshot_change_keys e effective) @
     token_change_keys (ci_tokens i) (ci_revoked i) surviving (ci_revoked i) @
     (if ci_epoch i \<noteq> ps_epoch composed then [mk_dep Dep_Epoch (dec_u64 (ci_epoch i))] else []) @
     (if ci_incarnation i \<noteq> ct_incarnation c
      then [mk_dep Dep_Incarnation (uuid_to_string (ci_incarnation i))] else []) @
     (if ct_context_lifecycle c \<noteq> ci_lifecycle i
      then [mk_dep Dep_Lifecycle (lifecycle_to_string (ct_context_lifecycle c))] else [])"

definition adopt_round ::
  "inputs \<Rightarrow> pod_snapshot \<Rightarrow> pod_state \<Rightarrow> member_expectation list \<Rightarrow> authority_token list \<Rightarrow>
   controller \<Rightarrow> controller" where
  "adopt_round i effective composed derived surviving c =
     c\<lparr>ct_state := composed, ct_epoch := ps_epoch composed, ct_lifecycle := ps_lifecycle composed,
       ct_expectations := derived, ct_tokens := surviving, ct_last_evidence := Some effective,
       ct_context_lifecycle := ci_lifecycle i, ct_recovered_round := False,
       ct_ambiguous_commit := False,
       ct_index := fold index_publish (ps_decisions composed) index_empty\<rparr>"

definition apply_outcome_of :: "controller \<Rightarrow> inputs \<Rightarrow> pod_state \<Rightarrow> apply_outcome" where
  "apply_outcome_of c i composed =
     (if ci_recovered i then Apply_Recovered
      else if ct_lifecycle c = Life_Retired then Apply_Retired
      else if ct_epoch c \<noteq> ps_epoch composed then Apply_EpochAdvanced
      else if ps_state_digest (ct_state c) = ps_state_digest composed \<and>
              ct_lifecycle c = ps_lifecycle composed then Apply_Unchanged
      else Apply_Applied)"

text \<open>The report; \<open>c\<close> is the controller before the round is adopted.\<close>

definition apply_report_of ::
  "controller \<Rightarrow> inputs \<Rightarrow> pod_state \<Rightarrow> dep_key list \<Rightarrow> apply_report" where
  "apply_report_of c i composed changed =
     (let rep = revalidate (ct_index c) composed changed
      in \<lparr>ap_outcome = apply_outcome_of c i composed, ap_state = composed, ap_revalidation = rep,
          ap_previous_lifecycle = ct_lifecycle c, ap_previous_epoch = ct_epoch c,
          ap_previous_digest = ps_state_digest (ct_state c), ap_detail = describe_report rep\<rparr>)"

definition round_events :: "controller \<Rightarrow> inputs \<Rightarrow> pod_state \<Rightarrow> event list" where
  "round_events c i composed =
     (let ev = \<lambda>k d. mk_event k (ps_epoch composed) (ct_incarnation c) (ps_lifecycle composed) [] d in
      (if ci_recovered i
       then [ev Event_Recovered (recovery_outcome_to_string (rr_outcome (ct_recovery c)))] else []) @
      (if ct_epoch c \<noteq> ps_epoch composed
       then [ev Event_EpochAdvanced (''epoch '' @ dec_u64 (ct_epoch c) @ '' -> '' @
               dec_u64 (ps_epoch composed))] else []) @
      (if ct_lifecycle c \<noteq> ps_lifecycle composed
       then [ev Event_LifecycleChanged (lifecycle_to_string (ct_lifecycle c) @ '' -> '' @
               lifecycle_to_string (ps_lifecycle composed))] else []) @
      [ev Event_Applied (apply_outcome_to_string (apply_outcome_of c i composed))])"

definition apply_locked :: "environment \<Rightarrow> pod_snapshot \<Rightarrow> (apply_report, controller) op" where
  "apply_locked env evidence =
     op_then need_open
     (with_controller (\<lambda>c0.
      let i = inputs_of c0; effective = overlay_admin (ci_admin i) evidence in
      op_bind (tick (en_clock env)) (\<lambda>now.
      op_bind (op_lift (compose (apply_request c0 i now evidence))) (\<lambda>composed.
      let derived = derive_expectations composed (ci_expectations i) in
      op_bind (survivors env i composed (ci_tokens i)) (\<lambda>surviving.
      op_then (persist_state env composed derived surviving (ci_revoked i))
      (with_controller (\<lambda>c.
       let report = apply_report_of c i composed
             (changed_keys c i effective composed derived surviving);
           events = round_events c i composed in
       op_then (op_update (adopt_round i effective composed derived surviving))
      (op_then (op_update (\<lambda>c. c\<lparr>ct_staged := ct_staged c @ events\<rparr>))
      (op_return report)))))))))"

text \<open>\<open>apply\<close> publishes the events also when the round failed.\<close>

definition apply_evidence :: "environment \<Rightarrow> pod_snapshot \<Rightarrow> (apply_report, controller) op" where
  "apply_evidence env evidence c =
     (case apply_locked env evidence (c\<lparr>ct_staged := []\<rparr>) of (r, d) \<Rightarrow> (r, flush_events d))"

section \<open>Operator intent\<close>

definition recompose :: "environment \<Rightarrow> (unit, controller) op" where
  "recompose env =
     with_controller (\<lambda>c.
       case ct_last_evidence c of
         Some evidence \<Rightarrow> op_bind (apply_locked env evidence) (\<lambda>_. op_return ())
       | None \<Rightarrow> persist_state env (ct_state c) (ct_expectations c) (ct_tokens c) (ct_revoked c))"

definition announce :: "event_kind \<Rightarrow> string \<Rightarrow> string \<Rightarrow> (unit, controller) op" where
  "announce kind subject detail =
     with_controller (\<lambda>c.
       stage (mk_event kind (ct_epoch c) (ct_incarnation c) (ct_lifecycle c) subject detail))"

definition set_admin_state :: "environment \<Rightarrow> ident \<Rightarrow> admin_state \<Rightarrow> (unit, controller) op" where
  "set_admin_state env rack a =
     publishing
     (op_then need_open
     (op_then (op_guard (is_nil rack) Code_Invalid ''the admin-state request names no rack'')
     (with_controller (\<lambda>c.
      op_then (op_guard (ct_lifecycle c = Life_Retired) Code_Refused ''the pod is retired'')
     (op_then (op_update (\<lambda>c. c\<lparr>ct_admin := smap_put rack a (ct_admin c)\<rparr>))
     (op_then (recompose env)
     (announce Event_AdminStateChanged rack (admin_to_string a))))))))"

definition clear_admin_state :: "environment \<Rightarrow> ident \<Rightarrow> (unit, controller) op" where
  "clear_admin_state env rack =
     publishing
     (op_then need_open
     (with_controller (\<lambda>c.
      op_then (op_guard (ct_lifecycle c = Life_Retired) Code_Refused ''the pod is retired'')
     (op_then (op_update (\<lambda>c. c\<lparr>ct_admin := smap_erase rack (ct_admin c)\<rparr>))
     (op_then (recompose env)
     (announce Event_AdminStateChanged rack ''enabled''))))))"

definition retired_state :: "pod_state \<Rightarrow> pod_state" where
  "retired_state s =
     s\<lparr>ps_lifecycle := Life_Retired, ps_authority := (ps_authority s)
        \<lparr>pa_status := Code_Refused, pa_reasons := pa_reasons (ps_authority s) @
           [mk_reason Reason_MemberRetiring ''the pod is retired'']\<rparr>\<rparr>"

definition enter_retired :: "controller \<Rightarrow> controller" where
  "enter_retired c =
     c\<lparr>ct_lifecycle := Life_Retired, ct_state := retired_state (ct_state c),
       ct_revoked := ct_revoked c @ map at_lease (ct_tokens c), ct_tokens := []\<rparr>"

definition retire :: "environment \<Rightarrow> (unit, controller) op" where
  "retire env =
     publishing
     (op_then need_open
     (with_controller (\<lambda>c.
      op_then (op_guard (ct_lifecycle c = Life_Retired) Code_Refused ''the pod is already retired'')
     (op_then (op_update enter_retired)
     (with_controller (\<lambda>c.
      op_then (persist_state env (ct_state c) (ct_expectations c) (ct_tokens c) (ct_revoked c))
     (announce Event_Retired []
       ''the pod is retired and will not become authoritative again'')))))))"

section \<open>Authority\<close>

definition make_lease_id :: "uuid \<Rightarrow> ident" where
  "make_lease_id u =
     (case id_parse (''lease-'' @ uuid_to_string u) of Inr i \<Rightarrow> i | Inl _ \<Rightarrow> ''lease-invalid'')"

definition token_material :: "controller \<Rightarrow> authority_scope \<Rightarrow> ident \<Rightarrow> ident \<Rightarrow> string" where
  "token_material c scope subject lease =
     ''podfabric.authority/1|'' @ co_pod (ct_options c) @ ''|'' @ dec_u64 (ct_epoch c) @ ''|'' @
     scope_to_string scope @ ''|'' @ subject @ ''|'' @ lease"

definition grant_token ::
  "controller \<Rightarrow> ident \<Rightarrow> authority_scope \<Rightarrow> ident \<Rightarrow> nanos \<Rightarrow> nanos \<Rightarrow> sequence \<Rightarrow> authority_token" where
  "grant_token c lease scope subject issued expires fencing =
     \<lparr>at_lease = lease, at_pod = co_pod (ct_options c), at_epoch = ct_epoch c,
      at_incarnation = ct_incarnation c, at_scope = scope, at_subject = subject,
      at_issued_at = issued, at_expires_at = expires, at_fencing = fencing,
      at_payload_digest = digest_of_string (token_material c scope subject lease)\<rparr>"

text \<open>The part of \<open>mint_authority\<close> under the state lock, and what follows it.\<close>

definition grant_authority ::
  "environment \<Rightarrow> authority_scope \<Rightarrow> ident \<Rightarrow> ident \<Rightarrow> nanos \<Rightarrow> nanos \<Rightarrow> (authority_token, controller) op" where
  "grant_authority env scope subject lease issued expires =
     with_controller (\<lambda>c.
     op_then (op_guard (ct_lifecycle c = Life_Retired) Code_Refused
       ''the pod is retired and mints no authority'')
     (op_bind (op_lift (sequence_next (ct_fencing c))) (\<lambda>fencing.
      let token = grant_token c lease scope subject issued expires fencing;
          next = ct_tokens c @ [token] in
      op_then (op_update (\<lambda>c. c\<lparr>ct_fencing := fencing\<rparr>))
     (op_then (persist_state env (ct_state c) (ct_expectations c) next (ct_revoked c))
     (op_then (op_update (\<lambda>c. c\<lparr>ct_tokens := next\<rparr>))
     (op_then (announce Event_AuthorityGranted lease (scope_to_string scope))
     (op_return token)))))))"

definition mint_authority ::
  "environment \<Rightarrow> authority_scope \<Rightarrow> ident \<Rightarrow> nanos \<Rightarrow> (authority_token, controller) op" where
  "mint_authority env scope subject lifetime =
     publishing
     (op_then need_open
     (op_bind (tick (en_entropy env)) (\<lambda>entropy.
      op_bind (op_lift (uuid_random entropy)) (\<lambda>u.
      op_bind (tick (en_clock env)) (\<lambda>issued.
      with_controller (\<lambda>c.
      let duration = (if lifetime > 0 then lifetime
                      else co_default_lease_duration (ct_options c)) in
      op_bind (op_lift (checked_add_signed 64 issued duration)) (\<lambda>expires.
      grant_authority env scope subject (make_lease_id u) issued expires)))))))"

definition revoke_authority :: "environment \<Rightarrow> ident \<Rightarrow> (unit, controller) op" where
  "revoke_authority env lease =
     publishing
     (op_then need_open
     (op_then (op_guard (is_nil lease) Code_Invalid ''the revocation names no lease'')
     (with_controller (\<lambda>c.
      op_then (op_guard (lease \<in> set (ct_revoked c)) Code_AlreadyExists
        ''the lease is already revoked'')
     (let revoked = ct_revoked c @ [lease];
          next = filter (\<lambda>t. at_lease t \<noteq> lease) (ct_tokens c) in
      op_then (op_update (\<lambda>c. c\<lparr>ct_revoked := revoked\<rparr>))
     (op_then (persist_state env (ct_state c) (ct_expectations c) next revoked)
     (op_then (op_update (\<lambda>c. c\<lparr>ct_tokens := next\<rparr>))
     (announce Event_AuthorityFenced lease ''revoked''))))))))"

end
