(* ===== verification/Commands.thy ===== *)
theory Commands
  imports Controller Capacity
begin

text \<open>
  What the controller promises: sequences of commands as a step relation on its state, with every
  outcome of every command, failures of the store included. Epochs and fencing numbers only grow,
  tokens belong to the current epoch and incarnation, retirement is final.
\<close>

section \<open>Operations that keep a relation\<close>

definition keeps :: "('s \<Rightarrow> 's \<Rightarrow> bool) \<Rightarrow> ('a, 's) op \<Rightarrow> bool" where
  "keeps R m \<longleftrightarrow> (\<forall>s. R s (snd (m s)))"

lemma keepsD: "keeps R m \<Longrightarrow> m s = (r, t) \<Longrightarrow> R s t"
  unfolding keeps_def by (metis snd_conv)

locale preorder_relation =
  fixes R :: "'s \<Rightarrow> 's \<Rightarrow> bool"
  assumes refl: "R s s"
    and trans: "R s t \<Longrightarrow> R t u \<Longrightarrow> R s u"
begin

lemma keeps_return: "keeps R (op_return x)"
  by (simp add: keeps_def op_return_def refl)

lemma keeps_fail: "keeps R (op_fail c w)"
  by (simp add: keeps_def op_fail_def refl)

lemma keeps_guard: "keeps R (op_guard b c w)"
  by (simp add: op_guard_def keeps_return keeps_fail)

lemma keeps_lift: "keeps R (op_lift x)"
  by (simp add: keeps_def op_lift_def refl)

lemma keeps_update: "(\<And>s. R s (f s)) \<Longrightarrow> keeps R (op_update f)"
  by (simp add: keeps_def op_update_def)

lemma keeps_bind:
  assumes "keeps R m" "\<And>x. keeps R (f x)"
  shows "keeps R (op_bind m f)"
  unfolding keeps_def
proof
  fix s
  obtain r t where m: "m s = (r, t)" by force
  have a: "R s t" using keepsD[OF assms(1) m] .
  show "R s (snd (op_bind m f s))"
  proof (cases r)
    case (Inl e)
    then show ?thesis using m a by (simp add: op_bind_def)
  next
    case (Inr x)
    have "R t (snd (f x t))" using assms(2) by (simp add: keeps_def)
    then show ?thesis using m Inr a trans by (simp add: op_bind_def)
  qed
qed

lemma keeps_when: "keeps R m \<Longrightarrow> keeps R (op_when b m)"
  by (simp add: op_when_def keeps_return)

lemmas keeps_rules = keeps_return keeps_fail keeps_guard keeps_lift keeps_bind keeps_when

end

section \<open>The part of the state that the store and the events do not touch\<close>

definition core where
  "core c = (ct_options c, ct_open c, ct_incarnation c, ct_epoch c, ct_lifecycle c, ct_context_lifecycle c,
     ct_state c, ct_expectations c, ct_tokens c, ct_revoked c, ct_fencing c, ct_admin c, ct_last_evidence c,
     ct_index c)"

interpretation core: preorder_relation "\<lambda>c d. core d = core c"
  by unfold_locales simp_all

lemma core_same [simp]:
  "core (c\<lparr>ct_ticks := n\<rparr>) = core c" "core (c\<lparr>ct_store := s\<rparr>) = core c" "core (c\<lparr>ct_staged := es\<rparr>) = core c"
  "core (c\<lparr>ct_pending := es\<rparr>) = core c" "core (c\<lparr>ct_delivered := ds\<rparr>) = core c"
  "core (c\<lparr>ct_recovered_round := a, ct_ambiguous_commit := b, ct_restart_epoch_pending := e\<rparr>) = core c"
  "core (c\<lparr>ct_files := fs\<rparr>) = core c" "core (c\<lparr>ct_observers := os\<rparr>) = core c"
  by (simp_all add: core_def)

lemma keeps_with_controller: "(\<And>c. keeps R (f c)) \<Longrightarrow> keeps R (with_controller f)"
  by (simp add: keeps_def with_controller_def)

lemma core_tick: "keeps (\<lambda>c d. core d = core c) (tick f)"
  by (simp add: keeps_def tick_def)

lemma core_on_store: "keeps (\<lambda>c d. core d = core c) (on_store m)"
  by (simp add: keeps_def on_store_def split: option.split prod.split)

lemma core_stage: "keeps (\<lambda>c d. core d = core c) (stage e)"
  unfolding stage_def by (rule core.keeps_update) simp

lemma core_announce: "keeps (\<lambda>c d. core d = core c) (announce k s w)"
  unfolding announce_def by (intro keeps_with_controller core_stage)

lemma core_survivors: "keeps (\<lambda>c d. core d = core c) (survivors env i composed ts)"
proof (induction ts)
  case Nil
  show ?case unfolding survivors.simps by (rule core.keeps_return)
next
  case (Cons t ts)
  then show ?case
    unfolding survivors.simps
    by (intro core.keeps_rules keeps_with_controller core_tick) (auto intro!: core.keeps_rules core_stage)
qed

lemma core_persist: "keeps (\<lambda>c d. core d = core c) (persist_state env composed es ts rs)"
  unfolding persist_state_def
  by (intro keeps_with_controller)
    (auto intro!: core.keeps_rules core_tick core_on_store core.keeps_update)

lemma core_publish [simp]: "core (publish e c) = core c"
  by (simp add: publish_def)

lemma core_publish_all [simp]: "core (fold publish es c) = core c"
  by (induction es arbitrary: c) simp_all

lemma core_flush [simp]: "core (flush_events c) = core c"
proof -
  have "core ((d\<lparr>ct_pending := p, ct_delivered := q\<rparr>)) = core d" for d p q by (simp add: core_def)
  then show ?thesis by (simp add: flush_events_def dispatch_def)
qed

lemma ticks_publish [simp]: "ct_ticks (publish e c) = ct_ticks c"
  by (simp add: publish_def)

lemma ticks_flush [simp]: "ct_ticks (flush_events c) = ct_ticks c"
proof -
  have "ct_ticks (fold publish es x) = ct_ticks x" for es x by (induction es arbitrary: x) simp_all
  then show ?thesis by (simp add: flush_events_def dispatch_def)
qed

lemma publishing_outcome:
  assumes "publishing m c = (r, d)"
  shows "\<exists>e. m (c\<lparr>ct_staged := []\<rparr>) = (r, e) \<and> core d = core e \<and> ct_store d = ct_store e \<and>
    ct_ticks d = ct_ticks e"
proof -
  have p: "ct_store (publish ev x) = ct_store x" for ev x by (simp add: publish_def)
  then have "ct_store (fold publish es x) = ct_store x" for es x by (induction es arbitrary: x) simp_all
  then have f: "ct_store (flush_events x) = ct_store x" for x by (simp add: flush_events_def dispatch_def)
  obtain r' e where m: "m (c\<lparr>ct_staged := []\<rparr>) = (r', e)" by force
  show ?thesis using assms m by (cases r') (auto simp: publishing_def f)
qed

section \<open>Rounds of evidence\<close>

interpretation ticks: preorder_relation "\<lambda>c d. ct_ticks c \<le> ct_ticks d"
  by unfold_locales simp_all

lemma ticks_tick: "keeps (\<lambda>c d. ct_ticks c \<le> ct_ticks d) (tick f)"
  by (simp add: keeps_def tick_def)

lemma ticks_stage: "keeps (\<lambda>c d. ct_ticks c \<le> ct_ticks d) (stage e)"
  unfolding stage_def by (rule ticks.keeps_update) simp

lemma ticks_announce: "keeps (\<lambda>c d. ct_ticks c \<le> ct_ticks d) (announce k s w)"
  unfolding announce_def by (intro keeps_with_controller ticks_stage)

lemma ticks_persist: "keeps (\<lambda>c d. ct_ticks c \<le> ct_ticks d) (persist_state env composed es ts rs)"
proof -
  have "keeps (\<lambda>c d. ct_ticks c \<le> ct_ticks d) (on_store m)" for m
    by (simp add: keeps_def on_store_def split: option.split prod.split)
  then show ?thesis
    unfolding persist_state_def
    by (intro keeps_with_controller) (auto intro!: ticks.keeps_rules ticks_tick ticks.keeps_update)
qed

lemma tick_between: "\<exists>n\<ge>Suc a. n < b \<and> P n \<Longrightarrow> b \<le> b' \<Longrightarrow> \<exists>n\<ge>a. n < b' \<and> P n"
  by (meson Suc_leD less_le_trans)

text \<open>The tokens that survive are live at some reading of the round; the others are not.\<close>

definition dropped_in :: "environment \<Rightarrow> controller \<Rightarrow> controller \<Rightarrow> pod_state \<Rightarrow> authority_token \<Rightarrow> bool" where
  "dropped_in env c d composed t \<longleftrightarrow> (\<exists>n. ct_ticks c \<le> n \<and> n < ct_ticks d \<and>
     \<not> token_live t (survivor_check c (inputs_of c) composed (en_clock env n)))"

lemma survivors_sound:
  assumes "survivors env i composed ts c = (Inr xs, d)"
  shows "set xs \<subseteq> {t \<in> set ts. at_epoch t = ps_epoch composed \<and> at_incarnation t = ct_incarnation c \<and>
      at_lease t \<notin> set (ci_revoked i) \<and> at_pod t = co_pod (ct_options c)} \<and> ct_ticks c \<le> ct_ticks d \<and>
    (\<forall>t \<in> set ts - set xs. \<exists>n. ct_ticks c \<le> n \<and> n < ct_ticks d \<and>
       \<not> token_live t (survivor_check c i composed (en_clock env n)))"
  using assms
proof (induction ts arbitrary: c xs d)
  case (Cons t ts)
  let ?n = "en_clock env (ct_ticks c)" and ?c = "c\<lparr>ct_ticks := Suc (ct_ticks c)\<rparr>"
  have sc: "survivor_check ?c i composed = survivor_check c i composed"
    "survivor_check (snd (stage ev ?c)) i composed = survivor_check c i composed" for ev
    by (simp_all add: fun_eq_iff survivor_check_def stage_def)
  obtain v where v: "validate_token t (survivor_check ?c i composed ?n) = Inr v"
    using Cons.prems by (cases "validate_token t (survivor_check ?c i composed ?n)")
      (simp_all add: op_bind_def tick_def with_controller_def)
  show ?case
  proof (cases "verdict_valid v")
    case True
    then have l: "token_live t (survivor_check ?c i composed ?n)"
      using validate_token_valid_iff[OF v] by (simp add: verdict_valid_def)
    obtain ys e where y: "survivors env i composed ts ?c = (Inr ys, d)" "xs = t # ys"
      using Cons.prems True v
      by (auto simp: op_bind_def tick_def with_controller_def split: prod.splits sum.splits)
    note h = Cons.IH[OF y(1), unfolded sc]
    have "\<exists>n. ct_ticks c \<le> n \<and> n < ct_ticks d \<and> \<not> token_live u (survivor_check c i composed (en_clock env n))"
      if "u \<in> set (t # ts) - set xs" for u
      using h that y(2) tick_between[of "ct_ticks c" "ct_ticks d" _ "ct_ticks d"] by auto
    then show ?thesis using h l y(2) by (auto simp: token_live_def survivor_check_def)
  next
    case False
    then have dead: "\<not> token_live t (survivor_check c i composed ?n)"
      using validate_token_valid_iff[OF v] by (simp add: verdict_valid_def sc)
    let ?e = "snd (stage (mk_event Event_AuthorityFenced (ps_epoch composed)
        (ct_incarnation ?c) (ps_lifecycle composed) (at_lease t) (av_detail v)) ?c)"
    have "survivors env i composed ts ?e = (Inr xs, d)"
      using Cons.prems v False by (simp add: op_bind_def tick_def with_controller_def stage_def)
    note h = Cons.IH[OF this, unfolded sc]
    have k: "ct_ticks ?e = Suc (ct_ticks c)" "ct_incarnation ?e = ct_incarnation c" "ct_options ?e = ct_options c"
      by (simp_all add: stage_def)
    have "\<exists>n. ct_ticks c \<le> n \<and> n < ct_ticks d \<and> \<not> token_live u (survivor_check c i composed (en_clock env n))"
      if "u \<in> set (t # ts) - set xs" for u
    proof (cases "u = t")
      case True
      then show ?thesis using dead h k(1) by (intro exI[of _ "ct_ticks c"]) simp
    next
      case False
      then show ?thesis using h that k(1) tick_between[of "ct_ticks c" "ct_ticks d" _ "ct_ticks d"] by auto
    qed
    then show ?thesis using h k by auto
  qed
qed simp

lemma bind_cases:
  assumes "op_bind m f s = (r, u)"
  obtains e where "m s = (Inl e, u)" "r = Inl e"
  | x t where "m s = (Inr x, t)" "f x t = (r, u)"
  using assms by (auto simp: op_bind_def split: prod.splits sum.splits)

lemma apply_locked_cases:
  assumes "apply_locked env ev c = (r, d)"
  shows "(\<exists>e. r = Inl e \<and> core d = core c) \<or>
    (\<exists>rep composed now surviving. r = Inr rep \<and> ct_open c \<and>
       compose (apply_request c (inputs_of c) now ev) = Inr composed \<and>
       set surviving \<subseteq> {t \<in> set (ct_tokens c). at_epoch t = ps_epoch composed \<and>
         at_incarnation t = ct_incarnation c \<and> at_lease t \<notin> set (ct_revoked c) \<and> at_pod t = co_pod (ct_options c)} \<and>
       (\<forall>t \<in> set (ct_tokens c) - set surviving. dropped_in env c d composed t) \<and> ct_ticks c \<le> ct_ticks d \<and>
       core d = core (adopt_round (inputs_of c) (overlay_admin (ct_admin c) ev) composed
         (derive_expectations composed (ct_expectations c)) surviving c) \<and>
       \<not> ct_recovered_round d \<and> \<not> ct_ambiguous_commit d)"
proof (cases "ct_open c")
  case False
  then show ?thesis using assms
    by (auto simp: apply_locked_def need_open_def op_bind_def op_guard_def op_fail_def)
next
  case True
  let ?i = "inputs_of c" and ?eff = "overlay_admin (ct_admin c) ev"
  let ?n = "en_clock env (ct_ticks c)" and ?c1 = "c\<lparr>ct_ticks := Suc (ct_ticks c)\<rparr>"
  have i: "ci_tokens ?i = ct_tokens c" "ci_revoked ?i = ct_revoked c" "ci_admin ?i = ct_admin c"
    "ci_expectations ?i = ct_expectations c" by (simp_all add: inputs_of_def)
  show ?thesis
  proof (cases "compose (apply_request c ?i ?n ev)")
    case (Inl e)
    then show ?thesis using assms True
      by (auto simp: apply_locked_def need_open_def op_bind_def op_guard_def op_return_def with_controller_def
          Let_def tick_def op_lift_def)
  next
    case (Inr composed)
    let ?der = "derive_expectations composed (ct_expectations c)"
    let ?last = "\<lambda>surviving. with_controller (\<lambda>z.
       let report = apply_report_of z ?i composed (changed_keys z ?i ?eff composed ?der surviving);
           events = round_events z ?i composed in
       op_then (op_update (adopt_round ?i ?eff composed ?der surviving))
      (op_then (op_update (\<lambda>c. c\<lparr>ct_staged := ct_staged c @ events\<rparr>))
      (op_return report)))"
    let ?rest = "op_bind (survivors env ?i composed (ct_tokens c)) (\<lambda>surviving.
      op_then (persist_state env composed ?der surviving (ct_revoked c)) (?last surviving))"
    have "apply_locked env ev c = ?rest ?c1"
      using True Inr
      by (simp add: apply_locked_def need_open_def op_guard_def with_controller_def Let_def i bind_Inr tick_def)
    with assms have rest: "?rest ?c1 = (r, d)" by simp
    then show ?thesis
    proof (cases rule: bind_cases)
      case (1 e)
      then show ?thesis using keepsD[OF core_survivors 1(1)] by simp
    next
      case (2 surviving c2)
      have k2: "core c2 = core c" using keepsD[OF core_survivors 2(1)] by simp
      from 2(2) show ?thesis
      proof (cases rule: bind_cases)
        case (1 e)
        then show ?thesis using keepsD[OF core_persist 1(1)] k2 by simp
      next
        case (2 u c3)
        have k3: "core c3 = core c" using keepsD[OF core_persist 2(1)] k2 by simp
        note sv = survivors_sound[OF \<open>survivors env ?i composed (ct_tokens c) ?c1 = (Inr surviving, c2)\<close>]
        have cc: "survivor_check ?c1 ?i composed = survivor_check c ?i composed"
          by (simp add: fun_eq_iff survivor_check_def)
        have d: "d = (adopt_round ?i ?eff composed ?der surviving c3)\<lparr>ct_staged :=
            ct_staged (adopt_round ?i ?eff composed ?der surviving c3) @ round_events c3 ?i composed\<rparr>"
          "\<exists>rep. r = Inr rep"
          using 2(2) by (auto simp: with_controller_def Let_def)
        have tk: "ct_ticks c2 \<le> ct_ticks d"
          using keepsD[OF ticks_persist 2(1)] by (simp add: d adopt_round_def)
        have "core d = core (adopt_round ?i ?eff composed ?der surviving c3)" unfolding d by simp
        also have "\<dots> = core (adopt_round ?i ?eff composed ?der surviving c)"
          using k3 by (simp add: core_def adopt_round_def)
        finally have "core d = \<dots>" .
        moreover have "\<not> ct_recovered_round d" "\<not> ct_ambiguous_commit d" unfolding d by (simp_all add: adopt_round_def)
        moreover have "set surviving \<subseteq> {t \<in> set (ct_tokens c). at_epoch t = ps_epoch composed \<and>
            at_incarnation t = ct_incarnation c \<and> at_lease t \<notin> set (ct_revoked c) \<and> at_pod t = co_pod (ct_options c)}"
          "ct_ticks c \<le> ct_ticks d" "\<forall>t \<in> set (ct_tokens c) - set surviving. dropped_in env c d composed t"
          using sv tk tick_between[of "ct_ticks c" "ct_ticks c2" _ "ct_ticks d"] by (auto simp: i dropped_in_def cc)
        ultimately show ?thesis using d(2) True Inr by blast
      qed
    qed
  qed
qed

section \<open>What each operation does to the core\<close>

lemma bind_core:
  assumes "op_bind m f s = (r, u)" "keeps (\<lambda>c d. core d = core c) m"
  obtains e where "r = Inl e" "core u = core s"
  | x t where "m s = (Inr x, t)" "f x t = (r, u)" "core t = core s"
  using assms(1)
proof (cases rule: bind_cases)
  case (1 e)
  then show ?thesis using keepsD[OF assms(2)] that(1) by blast
next
  case (2 x t)
  then show ?thesis using keepsD[OF assms(2)] that(2) by blast
qed

lemma core_fields:
  assumes "core d = core c"
  shows "ct_options d = ct_options c" "ct_open d = ct_open c" "ct_incarnation d = ct_incarnation c"
    "ct_epoch d = ct_epoch c" "ct_lifecycle d = ct_lifecycle c" "ct_context_lifecycle d = ct_context_lifecycle c"
    "ct_state d = ct_state c" "ct_expectations d = ct_expectations c" "ct_tokens d = ct_tokens c"
    "ct_revoked d = ct_revoked c" "ct_fencing d = ct_fencing c" "ct_admin d = ct_admin c"
    "ct_last_evidence d = ct_last_evidence c" "ct_index d = ct_index c"
  using assms by (simp_all add: core_def)

lemma grant_cases:
  assumes "grant_authority env scope subject lease issued expires c = (r, d)"
  shows "(\<exists>e. r = Inl e \<and> core d = core c) \<or>
    (ct_lifecycle c \<noteq> Life_Retired \<and> (\<exists>f. unat f = Suc (unat (ct_fencing c)) \<and>
       ((\<exists>e. r = Inl e \<and> core d = core (c\<lparr>ct_fencing := f\<rparr>)) \<or>
        (\<exists>t. t = grant_token c lease scope subject issued expires f \<and> r = Inr t \<and>
          core d = core (c\<lparr>ct_fencing := f, ct_tokens := ct_tokens c @ [t]\<rparr>)))))"
proof (cases "ct_lifecycle c = Life_Retired")
  case True
  then show ?thesis using assms by (auto simp: grant_authority_def with_controller_def)
next
  case False
  show ?thesis
  proof (cases "sequence_next (ct_fencing c)")
    case (Inl e)
    then show ?thesis using assms False by (auto simp: grant_authority_def with_controller_def op_guard_def op_bind_def op_return_def op_lift_def)
  next
    case (Inr f)
    then have f: "unat f = Suc (unat (ct_fencing c))"
      using checked_add_unat[of "ct_fencing c" 1] by (simp add: sequence_next_def)
    let ?t = "grant_token c lease scope subject issued expires f"
    let ?c = "c\<lparr>ct_fencing := f\<rparr>"
    have eq: "op_then (persist_state env (ct_state c) (ct_expectations c) (ct_tokens c @ [?t]) (ct_revoked c))
       (op_then (op_update (\<lambda>c'. c'\<lparr>ct_tokens := ct_tokens c @ [?t]\<rparr>))
       (op_then (announce Event_AuthorityGranted lease (scope_to_string scope)) (op_return ?t))) ?c = (r, d)"
      using assms False Inr by (simp add: grant_authority_def with_controller_def op_guard_def bind_Inr Let_def)
    show ?thesis
    proof (cases rule: bind_core[OF eq core_persist])
      case (1 e)
      then show ?thesis using False f by blast
    next
      case (2 u c2)
      have "core (c2\<lparr>ct_tokens := ct_tokens c @ [?t]\<rparr>) = core (?c\<lparr>ct_tokens := ct_tokens c @ [?t]\<rparr>)"
        using 2(3) by (simp add: core_def)
      moreover have "r = Inr ?t \<and> core d = core (c2\<lparr>ct_tokens := ct_tokens c @ [?t]\<rparr>)"
        using 2(2) by (auto simp: announce_def with_controller_def stage_def bind_Inr)
      ultimately show ?thesis using False f by auto
    qed
  qed
qed

lemma ticks_grant: "keeps (\<lambda>c d. ct_ticks c \<le> ct_ticks d) (grant_authority env scope subject lease issued expires)"
  unfolding grant_authority_def Let_def
  by (intro keeps_with_controller ticks.keeps_rules ticks_persist ticks_announce ticks.keeps_update) simp_all

lemma mint_cases:
  assumes "mint_authority env scope subject lifetime c = (r, d)"
  shows "(\<exists>e. r = Inl e \<and> core d = core c) \<or>
    (ct_open c \<and> ct_lifecycle c \<noteq> Life_Retired \<and> (\<exists>f u expires. unat f = Suc (unat (ct_fencing c)) \<and>
       Suc (Suc (ct_ticks c)) \<le> ct_ticks d \<and>
       ((\<exists>e. r = Inl e \<and> core d = core (c\<lparr>ct_fencing := f\<rparr>)) \<or>
        (\<exists>t. t = grant_token c (make_lease_id u) scope subject (en_clock env (Suc (ct_ticks c))) expires f \<and>
          r = Inr t \<and> core d = core (c\<lparr>ct_fencing := f, ct_tokens := ct_tokens c @ [t]\<rparr>)))))"
proof (cases "\<exists>e. r = Inl e \<and> core d = core c")
  case False
  note p = publishing_outcome[OF assms[unfolded mint_authority_def]]
  let ?x = "c\<lparr>ct_staged := [], ct_ticks := Suc (Suc (ct_ticks c))\<rparr>"
  have "\<exists>u expires e. grant_authority env scope subject (make_lease_id u) (en_clock env (Suc (ct_ticks c))) expires ?x
      = (r, e) \<and> core d = core e \<and> ct_open c \<and> ct_ticks d = ct_ticks e"
    using p False
    by (auto simp: need_open_def op_bind_def op_guard_def op_fail_def op_return_def tick_def with_controller_def
        Let_def op_lift_def split: if_splits sum.splits prod.splits)
  then obtain u expires e where g: "grant_authority env scope subject (make_lease_id u)
      (en_clock env (Suc (ct_ticks c))) expires ?x = (r, e)" "core d = core e" "ct_open c" "ct_ticks d = ct_ticks e" by blast
  have x: "grant_token ?x = grant_token c" "core (?x\<lparr>ct_fencing := f\<rparr>) = core (c\<lparr>ct_fencing := f\<rparr>)"
    "core (?x\<lparr>ct_fencing := f, ct_tokens := ts\<rparr>) = core (c\<lparr>ct_fencing := f, ct_tokens := ts\<rparr>)" "core ?x = core c" for f ts
    by (simp_all add: fun_eq_iff grant_token_def token_material_def core_def)
  from grant_cases[OF g(1)] False g(2) obtain f where f: "ct_lifecycle c \<noteq> Life_Retired"
    "unat f = Suc (unat (ct_fencing c))"
    "(\<exists>e. r = Inl e \<and> core d = core (c\<lparr>ct_fencing := f\<rparr>)) \<or>
     (\<exists>t. t = grant_token c (make_lease_id u) scope subject (en_clock env (Suc (ct_ticks c))) expires f \<and>
        r = Inr t \<and> core d = core (c\<lparr>ct_fencing := f, ct_tokens := ct_tokens c @ [t]\<rparr>))"
    unfolding x by auto
  moreover have "Suc (Suc (ct_ticks c)) \<le> ct_ticks d"
    using keepsD[OF ticks_grant g(1)] g(4) by simp
  ultimately show ?thesis using g(3) by blast
qed blast

lemma revoke_cases:
  assumes "revoke_authority env lease c = (r, d)"
  shows "(\<exists>e. r = Inl e \<and> core d = core c) \<or> ct_open c \<and> lease \<notin> set (ct_revoked c) \<and>
    ((\<exists>e. r = Inl e \<and> core d = core (c\<lparr>ct_revoked := ct_revoked c @ [lease]\<rparr>)) \<or>
     r = success \<and> core d = core (c\<lparr>ct_revoked := ct_revoked c @ [lease],
       ct_tokens := filter (\<lambda>t. at_lease t \<noteq> lease) (ct_tokens c)\<rparr>))"
proof (cases "\<exists>e. r = Inl e \<and> core d = core c")
  case False
  note p = publishing_outcome[OF assms[unfolded revoke_authority_def]]
  let ?c = "c\<lparr>ct_staged := [], ct_revoked := ct_revoked c @ [lease]\<rparr>"
    and ?next = "filter (\<lambda>t. at_lease t \<noteq> lease) (ct_tokens c)"
  have "\<exists>e. op_then (persist_state env (ct_state c) (ct_expectations c) ?next (ct_revoked c @ [lease]))
      (op_then (op_update (\<lambda>c'. c'\<lparr>ct_tokens := ?next\<rparr>)) (announce Event_AuthorityFenced lease ''revoked'')) ?c = (r, e) \<and>
      core d = core e \<and> ct_open c \<and> lease \<notin> set (ct_revoked c)"
    using p False
    by (auto simp: need_open_def op_bind_def op_guard_def op_fail_def op_return_def with_controller_def
        Let_def op_update_def split: if_splits)
  then obtain e where g: "op_then (persist_state env (ct_state c) (ct_expectations c) ?next (ct_revoked c @ [lease]))
      (op_then (op_update (\<lambda>c'. c'\<lparr>ct_tokens := ?next\<rparr>)) (announce Event_AuthorityFenced lease ''revoked'')) ?c = (r, e)"
    "core d = core e" "ct_open c" "lease \<notin> set (ct_revoked c)" by blast
  have x: "core ?c = core (c\<lparr>ct_revoked := ct_revoked c @ [lease]\<rparr>)" by (simp add: core_def)
  show ?thesis
  proof (cases rule: bind_core[OF g(1) core_persist])
    case (1 e')
    then show ?thesis using g x by simp
  next
    case (2 u c2)
    have "core (c2\<lparr>ct_tokens := ?next\<rparr>) = core (c\<lparr>ct_revoked := ct_revoked c @ [lease], ct_tokens := ?next\<rparr>)"
      using 2(3) by (simp add: core_def)
    then show ?thesis using 2(2) g by (auto simp: announce_def with_controller_def stage_def)
  qed
qed simp

lemma retire_cases:
  assumes "retire env c = (r, d)"
  shows "(\<exists>e. r = Inl e \<and> core d = core c) \<or>
    ct_open c \<and> ct_lifecycle c \<noteq> Life_Retired \<and> core d = core (enter_retired c)"
proof (cases "\<exists>e. r = Inl e \<and> core d = core c")
  case False
  note p = publishing_outcome[OF assms[unfolded retire_def]]
  let ?c = "enter_retired (c\<lparr>ct_staged := []\<rparr>)"
  have "\<exists>e. op_then (persist_state env (ct_state ?c) (ct_expectations ?c) (ct_tokens ?c) (ct_revoked ?c))
      (announce Event_Retired [] ''the pod is retired and will not become authoritative again'') ?c = (r, e) \<and>
      core d = core e \<and> ct_open c \<and> ct_lifecycle c \<noteq> Life_Retired"
    using p False
    by (auto simp: need_open_def op_bind_def op_guard_def op_fail_def op_return_def with_controller_def
        op_update_def split: if_splits)
  then obtain e where g: "op_then (persist_state env (ct_state ?c) (ct_expectations ?c) (ct_tokens ?c) (ct_revoked ?c))
      (announce Event_Retired [] ''the pod is retired and will not become authoritative again'') ?c = (r, e)"
    "core d = core e" "ct_open c" "ct_lifecycle c \<noteq> Life_Retired" by blast
  have "core ?c = core (enter_retired c)" by (simp add: core_def enter_retired_def)
  moreover have "core e = core ?c"
    using keepsD[OF core.keeps_bind[OF core_persist core_announce] g(1)] .
  ultimately show ?thesis using g by simp
qed simp

text \<open>A completed round: what a composition of the evidence made of the controller.\<close>

definition round_done :: "environment \<Rightarrow> pod_snapshot \<Rightarrow> controller \<Rightarrow> controller \<Rightarrow> bool" where
  "round_done env ev c d \<longleftrightarrow> ct_open c \<and> ct_ticks c \<le> ct_ticks d \<and> (\<exists>composed now surviving.
     compose (apply_request c (inputs_of c) now ev) = Inr composed \<and>
     set surviving \<subseteq> {t \<in> set (ct_tokens c). at_epoch t = ps_epoch composed \<and>
       at_incarnation t = ct_incarnation c \<and> at_lease t \<notin> set (ct_revoked c) \<and> at_pod t = co_pod (ct_options c)} \<and>
     (\<forall>t \<in> set (ct_tokens c) - set surviving. dropped_in env c d composed t) \<and>
     core d = core (adopt_round (inputs_of c) (overlay_admin (ct_admin c) ev) composed
       (derive_expectations composed (ct_expectations c)) surviving c))"

lemma apply_locked_round:
  assumes "apply_locked env ev c = (r, d)"
  shows "(\<exists>e. r = Inl e) \<and> core d = core c \<or> (\<exists>rep. r = Inr rep) \<and> round_done env ev c d"
  using apply_locked_cases[OF assms] unfolding round_done_def by blast

lemma round_done_core: "core c' = core c \<Longrightarrow> core d' = core d \<Longrightarrow> round_done env ev c d \<Longrightarrow>
  ct_recovered_round c' = ct_recovered_round c \<Longrightarrow> ct_recovered_at c' = ct_recovered_at c \<Longrightarrow>
  ct_ambiguous_commit c' = ct_ambiguous_commit c \<Longrightarrow> ct_ticks c' = ct_ticks c \<Longrightarrow> ct_ticks d' = ct_ticks d \<Longrightarrow> round_done env ev c' d'"
proof -
  assume a: "core c' = core c" "core d' = core d" "round_done env ev c d" "ct_recovered_round c' = ct_recovered_round c"
    "ct_recovered_at c' = ct_recovered_at c" "ct_ambiguous_commit c' = ct_ambiguous_commit c" "ct_ticks c' = ct_ticks c" "ct_ticks d' = ct_ticks d"
  note f = core_fields[OF a(1)]
  have i: "inputs_of c' = inputs_of c" by (simp add: inputs_of_def f a)
  have r: "apply_request c' = apply_request c" by (simp add: fun_eq_iff apply_request_def f)
  have "core (adopt_round i eff composed der sv c') = core (adopt_round i eff composed der sv c)" for i eff composed der sv
    using a(1) by (simp add: core_def adopt_round_def)
  moreover have "dropped_in env c' d' = dropped_in env c d"
    by (simp add: fun_eq_iff dropped_in_def survivor_check_def i f a)
  ultimately show ?thesis using a(2,3,7,8) unfolding round_done_def by (simp add: i r f)
qed

lemma apply_cases:
  assumes "apply_evidence env ev c = (r, d)"
  shows "(\<exists>e. r = Inl e) \<and> core d = core c \<or> (\<exists>rep. r = Inr rep) \<and> round_done env ev c d"
proof -
  obtain e where e: "apply_locked env ev (c\<lparr>ct_staged := []\<rparr>) = (r, e)" "d = flush_events e"
    using assms by (auto simp: apply_evidence_def split: prod.splits)
  show ?thesis using apply_locked_round[OF e(1)]
    by (auto simp: e(2) intro: round_done_core[of c "c\<lparr>ct_staged := []\<rparr>" "flush_events e" e])
qed

lemma recompose_cases:
  assumes "recompose env c = (r, d)"
  shows "core d = core c \<or> (\<exists>ev. ct_last_evidence c = Some ev \<and> round_done env ev c d)"
proof (cases "ct_last_evidence c")
  case None
  then show ?thesis using assms keepsD[OF core_persist] by (simp add: recompose_def with_controller_def)
next
  case (Some ev)
  then obtain r' where "apply_locked env ev c = (r', d)"
    using assms by (auto simp: recompose_def with_controller_def op_bind_def op_return_def split: prod.splits sum.splits)
  from apply_locked_round[OF this] Some show ?thesis by blast
qed

lemma admin_cases:
  assumes "op_then (op_update f) (op_then (recompose env) (announce k s w)) c = (r, d)"
  shows "core d = core (f c) \<or> (\<exists>ev. ct_last_evidence (f c) = Some ev \<and> round_done env ev (f c) d)"
proof -
  have "op_then (recompose env) (announce k s w) (f c) = (r, d)" using assms by simp
  then show ?thesis
  proof (cases rule: bind_cases)
    case (1 e)
    then show ?thesis using recompose_cases[OF 1(1)] by blast
  next
    case (2 u t)
    have k: "core d = core t" by (rule keepsD[OF core_announce 2(2)])
    have kt: "ct_ticks d = ct_ticks t" using 2(2) by (auto simp: announce_def with_controller_def stage_def)
    from recompose_cases[OF 2(1)] show ?thesis
    proof (elim disjE exE conjE)
      fix ev assume "ct_last_evidence (f c) = Some ev" "round_done env ev (f c) t"
      then show ?thesis using round_done_core[OF refl k _ refl refl refl refl kt] by blast
    qed (use k in simp)
  qed
qed

lemma set_admin_cases:
  assumes "set_admin_state env rack a c = (r, d)"
  shows "(\<exists>e. r = Inl e) \<and> core d = core c \<or> ct_open c \<and> rack \<noteq> [] \<and> ct_lifecycle c \<noteq> Life_Retired \<and>
    (let f = c\<lparr>ct_admin := smap_put rack a (ct_admin c)\<rparr> in
     core d = core f \<or> (\<exists>ev. ct_last_evidence c = Some ev \<and> round_done env ev f d))"
proof (cases "(\<exists>e. r = Inl e) \<and> core d = core c")
  case False
  note p = publishing_outcome[OF assms[unfolded set_admin_state_def]]
  let ?f = "\<lambda>c. c\<lparr>ct_admin := smap_put rack a (ct_admin c)\<rparr>" and ?c = "c\<lparr>ct_staged := []\<rparr>"
  have "\<exists>e. op_then (op_update ?f) (op_then (recompose env) (announce Event_AdminStateChanged rack (admin_to_string a)))
      ?c = (r, e) \<and> core d = core e \<and> ct_open c \<and> rack \<noteq> [] \<and> ct_lifecycle c \<noteq> Life_Retired \<and> ct_ticks d = ct_ticks e"
    using p False
    by (auto simp: need_open_def op_bind_def op_guard_def op_fail_def op_return_def with_controller_def is_nil_def
        op_update_def split: if_splits)
  then obtain e where e: "op_then (op_update ?f)
      (op_then (recompose env) (announce Event_AdminStateChanged rack (admin_to_string a))) ?c = (r, e)"
    "core d = core e" "ct_open c" "rack \<noteq> []" "ct_lifecycle c \<noteq> Life_Retired" "ct_ticks d = ct_ticks e" by blast
  have "core (?f ?c) = core (?f c)" by (simp add: core_def)
  moreover have "round_done env ev (?f ?c) e \<Longrightarrow> round_done env ev (?f c) d" for ev
    by (rule round_done_core[of "?f c" "?f ?c" d e]) (use e in \<open>simp_all add: core_def\<close>)
  ultimately show ?thesis using admin_cases[OF e(1)] e(2-) by (auto simp: Let_def)
qed simp

lemma clear_admin_cases:
  assumes "clear_admin_state env rack c = (r, d)"
  shows "(\<exists>e. r = Inl e) \<and> core d = core c \<or> ct_open c \<and> ct_lifecycle c \<noteq> Life_Retired \<and>
    (let f = c\<lparr>ct_admin := smap_erase rack (ct_admin c)\<rparr> in
     core d = core f \<or> (\<exists>ev. ct_last_evidence c = Some ev \<and> round_done env ev f d))"
proof (cases "(\<exists>e. r = Inl e) \<and> core d = core c")
  case False
  note p = publishing_outcome[OF assms[unfolded clear_admin_state_def]]
  let ?f = "\<lambda>c. c\<lparr>ct_admin := smap_erase rack (ct_admin c)\<rparr>" and ?c = "c\<lparr>ct_staged := []\<rparr>"
  have "\<exists>e. op_then (op_update ?f) (op_then (recompose env) (announce Event_AdminStateChanged rack ''enabled''))
      ?c = (r, e) \<and> core d = core e \<and> ct_open c \<and> ct_lifecycle c \<noteq> Life_Retired \<and> ct_ticks d = ct_ticks e"
    using p False
    by (auto simp: need_open_def op_bind_def op_guard_def op_fail_def op_return_def with_controller_def
        op_update_def split: if_splits)
  then obtain e where e: "op_then (op_update ?f)
      (op_then (recompose env) (announce Event_AdminStateChanged rack ''enabled'')) ?c = (r, e)"
    "core d = core e" "ct_open c" "ct_lifecycle c \<noteq> Life_Retired" "ct_ticks d = ct_ticks e" by blast
  have "core (?f ?c) = core (?f c)" by (simp add: core_def)
  moreover have "round_done env ev (?f ?c) e \<Longrightarrow> round_done env ev (?f c) d" for ev
    by (rule round_done_core[of "?f c" "?f ?c" d e]) (use e in \<open>simp_all add: core_def\<close>)
  ultimately show ?thesis using admin_cases[OF e(1)] e(2-) by (auto simp: Let_def)
qed simp

section \<open>Commands\<close>

datatype command =
    Do_Apply pod_snapshot | Do_SetAdmin ident admin_state | Do_ClearAdmin ident | Do_Retire
  | Do_Mint authority_scope ident nanos | Do_Revoke ident
  | Do_Check authority_token authority_scope ident | Do_Subscribe "nat option" | Do_Close

text \<open>A command and the token it grants.\<close>

primrec execute :: "environment \<Rightarrow> command \<Rightarrow> controller \<Rightarrow> authority_token list \<times> controller" where
  "execute env (Do_Apply ev) c = ([], snd (apply_evidence env ev c))"
| "execute env (Do_SetAdmin rack a) c = ([], snd (set_admin_state env rack a c))"
| "execute env (Do_ClearAdmin rack) c = ([], snd (clear_admin_state env rack c))"
| "execute env Do_Retire c = ([], snd (retire env c))"
| "execute env (Do_Mint scope subject lifetime) c =
     (case mint_authority env scope subject lifetime c of (Inl e, d) \<Rightarrow> ([], d) | (Inr t, d) \<Rightarrow> ([t], d))"
| "execute env (Do_Revoke lease) c = ([], snd (revoke_authority env lease c))"
| "execute env (Do_Check t scope subject) c = ([], snd (check_authority env t scope subject c))"
| "execute env (Do_Subscribe x) c = ([], snd (subscribe x c))"
| "execute env Do_Close c = ([], snd (controller_close c))"

fun run_commands :: "environment \<Rightarrow> command list \<Rightarrow> controller \<Rightarrow> authority_token list \<times> controller" where
  "run_commands env [] c = ([], c)"
| "run_commands env (k # ks) c =
     (case execute env k c of (g, d) \<Rightarrow> case run_commands env ks d of (h, e) \<Rightarrow> (g @ h, e))"

lemma compose_epoch_step:
  assumes "compose r = Inr s"
  shows "ps_epoch s = cx_epoch (rq_context r) \<or> unat (ps_epoch s) = Suc (unat (cx_epoch (rq_context r)))"
proof -
  obtain c where c: "compose_core r = Inr c" "s = finalise_state (cp_state c)"
    and "ps_members s = map (\<lambda>w. canonicalise_member_verdict (mw_verdict w)) (cp_members c)"
    using assms by (rule compose_members)
  obtain c1 c2 :: composer where a: "adopt_generation_advances c1 = Inr c2"
    and r: "cp_request c1 = r" and e: "ps_epoch (cp_state c) = ps_epoch (cp_state c2)"
      "ps_epoch (cp_state c1) = cx_epoch (rq_context r)"
    by (rule compose_core_frames[OF c(1)], rule that) assumption+
  show ?thesis using adopt_frame[OF a] r e c(2) by (auto split: if_splits)
qed

lemma desired_not_retired: "fst (desired_lifecycle c) \<noteq> Life_Retired"
  by (simp add: desired_lifecycle_def evidence_lifecycle_def Let_def)

lemma compose_retired:
  assumes "compose r = Inr s"
  shows "ps_lifecycle s = Life_Retired \<longleftrightarrow> cx_lifecycle (rq_context r) = Life_Retired"
proof -
  obtain c where l: "ps_lifecycle s = (if cx_lifecycle (rq_context r) = Life_Retired then Life_Retired
       else next_lifecycle (cx_lifecycle (rq_context r)) (fst (desired_lifecycle c)))"
    using assms by (rule compose_lifecycle)
  show ?thesis unfolding l using desired_not_retired[of c] by (auto simp: next_lifecycle_def)
qed

lemma round_facts:
  assumes "round_done env ev c d"
  shows "ct_options d = ct_options c" "ct_incarnation d = ct_incarnation c" "ct_revoked d = ct_revoked c"
    "ct_fencing d = ct_fencing c" "ct_admin d = ct_admin c" "ct_open d = ct_open c"
    "ct_epoch d = ct_epoch c \<or> unat (ct_epoch d) = Suc (unat (ct_epoch c))"
    "ct_lifecycle d = Life_Retired \<longleftrightarrow> ct_lifecycle c = Life_Retired"
    "set (ct_tokens d) \<subseteq> {t \<in> set (ct_tokens c). at_epoch t = ct_epoch d \<and>
       at_incarnation t = ct_incarnation c \<and> at_lease t \<notin> set (ct_revoked c) \<and> at_pod t = co_pod (ct_options c)}"
    "ct_last_evidence d = Some (overlay_admin (ct_admin c) ev)"
    "ct_state d = ct_state d \<and> ps_epoch (ct_state d) = ct_epoch d \<and> ps_lifecycle (ct_state d) = ct_lifecycle d"
proof -
  obtain composed now surviving where w: "compose (apply_request c (inputs_of c) now ev) = Inr composed"
    "set surviving \<subseteq> {t \<in> set (ct_tokens c). at_epoch t = ps_epoch composed \<and>
       at_incarnation t = ct_incarnation c \<and> at_lease t \<notin> set (ct_revoked c) \<and> at_pod t = co_pod (ct_options c)}"
    "core d = core (adopt_round (inputs_of c) (overlay_admin (ct_admin c) ev) composed
       (derive_expectations composed (ct_expectations c)) surviving c)"
    using assms unfolding round_done_def by blast
  note f = core_fields[OF w(3)]
  have x: "cx_epoch (rq_context (apply_request c (inputs_of c) now ev)) = ct_epoch c"
    "cx_lifecycle (rq_context (apply_request c (inputs_of c) now ev)) = ct_lifecycle c"
    by (simp_all add: apply_request_def inputs_of_def)
  show "ct_options d = ct_options c" "ct_incarnation d = ct_incarnation c" "ct_revoked d = ct_revoked c"
    "ct_fencing d = ct_fencing c" "ct_admin d = ct_admin c" "ct_open d = ct_open c"
    "ct_last_evidence d = Some (overlay_admin (ct_admin c) ev)"
    "ct_state d = ct_state d \<and> ps_epoch (ct_state d) = ct_epoch d \<and> ps_lifecycle (ct_state d) = ct_lifecycle d"
    by (simp_all add: f adopt_round_def)
  show "ct_epoch d = ct_epoch c \<or> unat (ct_epoch d) = Suc (unat (ct_epoch c))"
    using compose_epoch_step[OF w(1)] by (simp add: x f adopt_round_def)
  show "ct_lifecycle d = Life_Retired \<longleftrightarrow> ct_lifecycle c = Life_Retired"
    using compose_retired[OF w(1)] by (simp add: x f adopt_round_def)
  show "set (ct_tokens d) \<subseteq> {t \<in> set (ct_tokens c). at_epoch t = ct_epoch d \<and>
       at_incarnation t = ct_incarnation c \<and> at_lease t \<notin> set (ct_revoked c) \<and> at_pod t = co_pod (ct_options c)}"
    using w(2) by (simp add: f adopt_round_def)
qed

section \<open>What only grows\<close>

definition advances :: "controller \<Rightarrow> authority_token list \<Rightarrow> controller \<Rightarrow> bool" where
  "advances c granted d \<longleftrightarrow>
     ct_options d = ct_options c \<and> ct_incarnation d = ct_incarnation c \<and> ct_epoch c \<le> ct_epoch d \<and>
     unat (ct_fencing c) + length granted \<le> unat (ct_fencing d) \<and>
     set (ct_revoked c) \<subseteq> set (ct_revoked d) \<and>
     (ct_lifecycle c = Life_Retired \<longrightarrow> ct_lifecycle d = Life_Retired \<and> granted = [] \<and>
        set (ct_tokens d) \<subseteq> set (ct_tokens c)) \<and>
     sorted_wrt (<) (map at_fencing granted) \<and>
     (\<forall>t \<in> set granted. ct_fencing c < at_fencing t \<and> at_fencing t \<le> ct_fencing d \<and>
        ct_epoch c \<le> at_epoch t \<and> at_epoch t \<le> ct_epoch d \<and>
        at_incarnation t = ct_incarnation c \<and> at_pod t = co_pod (ct_options c))"

lemma advances_trans:
  assumes "advances c g d" "advances d h e"
  shows "advances c (g @ h) e"
proof -
  have "\<forall>t \<in> set g. \<forall>u \<in> set h. at_fencing t < at_fencing u"
    using assms by (auto simp: advances_def intro: le_less_trans)
  moreover have "ct_fencing c \<le> ct_fencing d" "ct_fencing d \<le> ct_fencing e"
    using assms by (auto simp: advances_def word_le_nat_alt)
  ultimately show ?thesis
    using assms unfolding advances_def by (auto simp: sorted_wrt_append intro: order_trans le_less_trans)
qed

lemma advances_core: "core d' = core d \<Longrightarrow> advances c g d \<Longrightarrow> advances c g d'"
  by (simp add: advances_def core_def)

lemma advances_refl: "advances c [] c"
  by (simp add: advances_def)

lemma advances_same: "core d = core c \<Longrightarrow> advances c [] d"
  using advances_core[of d c c] advances_refl by blast

lemma advances_round:
  assumes "round_done env ev f d" "core f = core (c\<lparr>ct_admin := a\<rparr>)"
  shows "advances c [] d"
proof -
  note r = round_facts[OF assms(1)] and f = core_fields[OF assms(2)]
  have "ct_epoch f \<le> ct_epoch d" using r(7) by (auto simp: word_le_nat_alt)
  then show ?thesis using r f by (auto simp: advances_def)
qed

lemma core_subscribe: "core (snd (subscribe x c)) = core c"
proof -
  have "keeps (\<lambda>c d. core d = core c) (subscribe x)"
    unfolding subscribe_def
    by (intro keeps_with_controller) (auto intro!: core.keeps_rules core.keeps_update split: option.split)
  then show ?thesis by (simp add: keeps_def)
qed

lemma core_check: "core (snd (check_authority env t scope subject c)) = core c"
proof -
  have "keeps (\<lambda>c d. core d = core c) (check_authority env t scope subject)"
    unfolding check_authority_def
    by (intro core.keeps_rules keeps_with_controller core_tick)
  then show ?thesis by (simp add: keeps_def)
qed

lemma core_close:
  "core (snd (controller_close c)) = core c \<or>
   core (snd (controller_close c)) = core (c\<lparr>ct_open := False\<rparr>) \<or>
   core (snd (controller_close c)) = core (c\<lparr>ct_open := False, ct_index := index_empty\<rparr>)"
proof -
  have d: "core (dispatch x) = core x" for x by (simp add: dispatch_def core_def)
  have rel: "core (release_store x) = core x" for x by (simp add: release_store_def core_def split: option.split)
  show ?thesis
  proof (cases "ct_open c")
    case False
    then show ?thesis by (simp add: controller_close_def with_controller_def)
  next
    case True
    show ?thesis
    proof (cases "ct_store c")
      case None
      with True show ?thesis by (simp add: controller_close_def with_controller_def d)
    next
      case (Some s)
      obtain r t where r: "store_close s = (r, t)" by force
      let ?x = "release_store (c\<lparr>ct_open := False, ct_store := Some t\<rparr>)"
      have x: "core ?x = core (c\<lparr>ct_open := False\<rparr>)" unfolding rel by (simp add: core_def)
      then have "core (?x\<lparr>ct_index := index_empty\<rparr>) = core (c\<lparr>ct_open := False, ct_index := index_empty\<rparr>)"
        by (simp add: core_def)
      with True Some r x show ?thesis
        by (cases r) (simp_all add: controller_close_def with_controller_def d)
    qed
  qed
qed

lemma execute_advances:
  assumes "execute env k c = (g, d)"
  shows "advances c g d"
proof (cases k)
  case (Do_Apply ev)
  then obtain r where r: "apply_evidence env ev c = (r, d)" "g = []" using assms by (cases "apply_evidence env ev c") auto
  have "core c = core (c\<lparr>ct_admin := ct_admin c\<rparr>)" by simp
  then show ?thesis using apply_cases[OF r(1)] advances_same advances_round r(2) by blast
next
  case (Do_SetAdmin rack a)
  then obtain r where r: "set_admin_state env rack a c = (r, d)" "g = []" using assms by (cases "set_admin_state env rack a c") auto
  have f: "advances c [] (c\<lparr>ct_admin := smap_put rack a (ct_admin c)\<rparr>)" by (simp add: advances_def)
  show ?thesis
    using set_admin_cases[OF r(1)] advances_same advances_round[OF _ refl] advances_core[OF _ f] r(2)
    unfolding Let_def by blast
next
  case (Do_ClearAdmin rack)
  then obtain r where r: "clear_admin_state env rack c = (r, d)" "g = []" using assms by (cases "clear_admin_state env rack c") auto
  have f: "advances c [] (c\<lparr>ct_admin := smap_erase rack (ct_admin c)\<rparr>)" by (simp add: advances_def)
  show ?thesis
    using clear_admin_cases[OF r(1)] advances_same advances_round[OF _ refl] advances_core[OF _ f] r(2)
    unfolding Let_def by blast
next
  case Do_Retire
  then obtain r where r: "retire env c = (r, d)" "g = []" using assms by (cases "retire env c") auto
  have "advances c [] (enter_retired c)" by (auto simp: advances_def enter_retired_def)
  then show ?thesis using retire_cases[OF r(1)] advances_same advances_core r(2) by blast
next
  case (Do_Mint scope subject lifetime)
  then obtain r where r: "mint_authority env scope subject lifetime c = (r, d)"
    "g = (case r of Inl e \<Rightarrow> [] | Inr t \<Rightarrow> [t])"
    using assms by (cases "mint_authority env scope subject lifetime c") (auto split: sum.splits)
  from mint_cases[OF r(1)] show ?thesis
  proof (elim disjE exE conjE)
    fix e assume "r = Inl e" "core d = core c"
    then show ?thesis using advances_same r(2) by simp
  next
    fix f u expires e
    assume f: "unat f = Suc (unat (ct_fencing c))" "ct_lifecycle c \<noteq> Life_Retired" "r = Inl e"
      "core d = core (c\<lparr>ct_fencing := f\<rparr>)"
    have "advances c [] (c\<lparr>ct_fencing := f\<rparr>)" using f(1,2) by (simp add: advances_def)
    then show ?thesis using advances_core[OF f(4)] r(2) f(3) by simp
  next
    fix f u expires t
    assume f: "unat f = Suc (unat (ct_fencing c))" "ct_lifecycle c \<noteq> Life_Retired" "r = Inr t"
      "t = grant_token c (make_lease_id u) scope subject (en_clock env (Suc (ct_ticks c))) expires f"
      "core d = core (c\<lparr>ct_fencing := f, ct_tokens := ct_tokens c @ [t]\<rparr>)"
    have "advances c [t] (c\<lparr>ct_fencing := f, ct_tokens := ct_tokens c @ [t]\<rparr>)"
      using f(1,2) by (simp add: advances_def f(4) grant_token_def word_less_nat_alt)
    then show ?thesis using advances_core[OF f(5)] r(2) f(3) by simp
  qed
next
  case (Do_Revoke lease)
  then obtain r where r: "revoke_authority env lease c = (r, d)" "g = []" using assms by (cases "revoke_authority env lease c") auto
  have "advances c [] (c\<lparr>ct_revoked := ct_revoked c @ [lease]\<rparr>)"
    "advances c [] (c\<lparr>ct_revoked := ct_revoked c @ [lease], ct_tokens := filter (\<lambda>t. at_lease t \<noteq> lease) (ct_tokens c)\<rparr>)"
    by (auto simp: advances_def)
  then show ?thesis using revoke_cases[OF r(1)] advances_same advances_core r(2) by blast
next
  case (Do_Check t scope subject)
  then show ?thesis using assms core_check advances_same by auto
next
  case (Do_Subscribe x)
  then show ?thesis using assms core_subscribe advances_same by auto
next
  case Do_Close
  have "advances c [] (c\<lparr>ct_open := False\<rparr>)" "advances c [] (c\<lparr>ct_open := False, ct_index := index_empty\<rparr>)"
    by (simp_all add: advances_def)
  then show ?thesis using Do_Close assms core_close[of c] advances_same advances_core by auto
qed

lemma run_advances: "run_commands env ks c = (g, d) \<Longrightarrow> advances c g d"
proof (induction ks arbitrary: c g d)
  case Nil
  then show ?case by (simp add: advances_refl)
next
  case (Cons k ks)
  obtain g1 c1 where 1: "execute env k c = (g1, c1)" by force
  obtain g2 c2 where 2: "run_commands env ks c1 = (g2, c2)" by force
  from Cons.IH[OF 2] execute_advances[OF 1] Cons.prems show ?case
    by (auto simp: 1 2 intro: advances_trans)
qed

text \<open>
  C12: what only grows. Run any commands on a controller, with any clock, any entropy and any failures of
  the store. The pod epoch and the set of revoked leases never shrink, the incarnation and the options stay, and
  the tokens granted on the way carry strictly increasing fencing numbers above all earlier ones,
  with the identity of the pod, the live incarnation and an epoch of the run. A retired pod stays
  retired and grants nothing.
\<close>

theorem commands_only_advance:
  "case run_commands env ks c of (granted, d) \<Rightarrow>
     ct_epoch c \<le> ct_epoch d \<and> ct_incarnation d = ct_incarnation c \<and> ct_options d = ct_options c \<and>
     set (ct_revoked c) \<subseteq> set (ct_revoked d) \<and> unat (ct_fencing c) + length granted \<le> unat (ct_fencing d) \<and> sorted_wrt (<) (map at_fencing granted) \<and>
     list_all (\<lambda>t. ct_fencing c < at_fencing t \<and> ct_epoch c \<le> at_epoch t \<and> at_epoch t \<le> ct_epoch d \<and>
        at_incarnation t = ct_incarnation c \<and> at_pod t = co_pod (ct_options c)) granted \<and>
     (if ct_lifecycle c = Life_Retired then ct_lifecycle d = Life_Retired \<and> granted = [] else True)"
proof -
  obtain granted d where r: "run_commands env ks c = (granted, d)" by force
  from run_advances[OF r] show ?thesis unfolding r prod.case by (simp add: advances_def list_all_iff)
qed

section \<open>Every granted token is accounted for\<close>

lemma ticks_survivors: "keeps (\<lambda>c d. ct_ticks c \<le> ct_ticks d) (survivors env i composed ts)"
proof (induction ts)
  case Nil
  show ?case unfolding survivors.simps by (rule ticks.keeps_return)
next
  case (Cons t ts)
  then show ?case
    unfolding survivors.simps
    by (intro ticks.keeps_rules keeps_with_controller ticks_tick) (auto intro!: ticks.keeps_rules ticks_stage)
qed

lemma ticks_need_open: "keeps (\<lambda>c d. ct_ticks c \<le> ct_ticks d) need_open"
  by (simp add: keeps_def need_open_def op_guard_def op_return_def)

lemma ticks_apply_locked: "keeps (\<lambda>c d. ct_ticks c \<le> ct_ticks d) (apply_locked env ev)"
  unfolding apply_locked_def Let_def
  by (intro ticks.keeps_rules keeps_with_controller ticks_need_open ticks_tick ticks_survivors ticks_persist
      ticks.keeps_update) (simp_all add: adopt_round_def)

lemma ticks_recompose: "keeps (\<lambda>c d. ct_ticks c \<le> ct_ticks d) (recompose env)"
  unfolding recompose_def
  by (intro keeps_with_controller) (auto intro!: ticks.keeps_rules ticks_apply_locked ticks_persist split: option.split)

lemma ticks_publishing:
  assumes "keeps (\<lambda>c d. ct_ticks c \<le> ct_ticks d) m"
  shows "keeps (\<lambda>c d. ct_ticks c \<le> ct_ticks d) (publishing m)"
  unfolding keeps_def
proof
  fix c
  obtain r d where d: "publishing m c = (r, d)" by force
  obtain e where "m (c\<lparr>ct_staged := []\<rparr>) = (r, e)" "ct_ticks d = ct_ticks e"
    using publishing_outcome[OF d] by blast
  then show "ct_ticks c \<le> ct_ticks (snd (publishing m c))" using keepsD[OF assms] d by fastforce
qed

lemmas ticks_rules = ticks.keeps_rules keeps_with_controller ticks_need_open ticks_tick ticks_persist ticks_announce
  ticks_recompose ticks_grant ticks_publishing

lemma ticks_execute: "execute env k c = (g, d) \<Longrightarrow> ct_ticks c \<le> ct_ticks d"
proof -
  assume a: "execute env k c = (g, d)"
  have ap: "keeps (\<lambda>c d. ct_ticks c \<le> ct_ticks d) (apply_evidence env ev)" for ev
    unfolding keeps_def
  proof
    fix c
    obtain r d where d: "apply_locked env ev (c\<lparr>ct_staged := []\<rparr>) = (r, d)" by force
    from keepsD[OF ticks_apply_locked d] show "ct_ticks c \<le> ct_ticks (snd (apply_evidence env ev c))"
      by (simp add: apply_evidence_def d)
  qed
  have sa: "keeps (\<lambda>c d. ct_ticks c \<le> ct_ticks d) (set_admin_state env rack x)" for rack x
    unfolding set_admin_state_def by (intro ticks_rules ticks.keeps_update) simp
  have ca: "keeps (\<lambda>c d. ct_ticks c \<le> ct_ticks d) (clear_admin_state env rack)" for rack
    unfolding clear_admin_state_def by (intro ticks_rules ticks.keeps_update) simp
  have re: "keeps (\<lambda>c d. ct_ticks c \<le> ct_ticks d) (retire env)"
    unfolding retire_def by (intro ticks_rules ticks.keeps_update) (simp add: enter_retired_def)
  have mi: "keeps (\<lambda>c d. ct_ticks c \<le> ct_ticks d) (mint_authority env scope subject lifetime)" for scope subject lifetime
    unfolding mint_authority_def Let_def by (intro ticks_rules)
  have rv: "keeps (\<lambda>c d. ct_ticks c \<le> ct_ticks d) (revoke_authority env lease)" for lease
    unfolding revoke_authority_def Let_def by (intro ticks_rules ticks.keeps_update) simp_all
  have ch: "keeps (\<lambda>c d. ct_ticks c \<le> ct_ticks d) (check_authority env t scope subject)" for t scope subject
    unfolding check_authority_def by (intro ticks_rules)
  have su: "keeps (\<lambda>c d. ct_ticks c \<le> ct_ticks d) (subscribe x)" for x
    unfolding subscribe_def by (intro ticks_rules) (auto intro!: ticks_rules ticks.keeps_update split: option.split)
  have rl: "ct_ticks (release_store x) = ct_ticks x" for x by (simp add: release_store_def split: option.split)
  have cl: "keeps (\<lambda>c d. ct_ticks c \<le> ct_ticks d) controller_close"
    unfolding controller_close_def
    by (intro ticks_rules) (auto intro!: ticks_rules ticks.keeps_update simp: dispatch_def rl split: option.split prod.split)
  show ?thesis
  proof (cases k)
    case (Do_Mint scope subject lifetime)
    obtain r e where "mint_authority env scope subject lifetime c = (r, e)" by force
    with keepsD[OF mi this] a Do_Mint show ?thesis by (auto split: sum.splits)
  qed (use a ap sa ca re rv ch su cl in \<open>auto simp: keeps_def\<close>)
qed

text \<open>A token that the controller can never accept again, while the clock does not go back.\<close>

definition spent :: "environment \<Rightarrow> controller \<Rightarrow> authority_token \<Rightarrow> bool" where
  "spent env c t \<longleftrightarrow> at_lease t = [] \<or> at_pod t = [] \<or> at_expires_at t \<le> at_issued_at t \<or>
     at_lease t \<in> set (ct_revoked c) \<or> at_epoch t < ct_epoch c \<or>
     (\<exists>n < ct_ticks c. at_expires_at t < en_clock env n)"

definition accounted :: "environment \<Rightarrow> controller \<Rightarrow> authority_token set \<Rightarrow> bool" where
  "accounted env c G \<longleftrightarrow> set (ct_tokens c) \<subseteq> G \<and> (ct_lifecycle c = Life_Retired \<longrightarrow> ct_tokens c = []) \<and>
     (\<forall>t \<in> G. (t \<in> set (ct_tokens c) \<or> spent env c t) \<and> at_incarnation t = ct_incarnation c \<and>
        at_pod t = co_pod (ct_options c) \<and> at_epoch t \<le> ct_epoch c \<and>
        (\<exists>n < ct_ticks c. at_issued_at t = en_clock env n))"

lemma spent_mono:
  "spent env c t \<Longrightarrow> advances c g d \<Longrightarrow> ct_ticks c \<le> ct_ticks d \<Longrightarrow> spent env d t"
  unfolding spent_def advances_def by (meson less_le_trans subsetD)

text \<open>What has to be shown of a step: where the tokens went.\<close>

lemma accounted_step:
  assumes "accounted env c G" "advances c g d" "ct_ticks c \<le> ct_ticks d"
    "set (ct_tokens d) \<subseteq> set (ct_tokens c) \<union> H" "ct_lifecycle d = Life_Retired \<longrightarrow> ct_tokens d = []"
    "\<forall>t \<in> set (ct_tokens c). t \<in> set (ct_tokens d) \<or> spent env d t"
    "\<forall>t \<in> H. (t \<in> set (ct_tokens d) \<or> spent env d t) \<and> at_incarnation t = ct_incarnation c \<and>
       at_pod t = co_pod (ct_options c) \<and> at_epoch t \<le> ct_epoch d \<and> (\<exists>n < ct_ticks d. at_issued_at t = en_clock env n)"
  shows "accounted env d (G \<union> H)"
proof -
  have a: "ct_options d = ct_options c" "ct_incarnation d = ct_incarnation c" "ct_epoch c \<le> ct_epoch d"
    using assms(2) by (simp_all add: advances_def)
  have "(t \<in> set (ct_tokens d) \<or> spent env d t) \<and> at_incarnation t = ct_incarnation d \<and>
      at_pod t = co_pod (ct_options d) \<and> at_epoch t \<le> ct_epoch d \<and> (\<exists>n < ct_ticks d. at_issued_at t = en_clock env n)"
    if "t \<in> G" for t
  proof -
    have g: "t \<in> set (ct_tokens c) \<or> spent env c t" "at_incarnation t = ct_incarnation c"
      "at_pod t = co_pod (ct_options c)" "at_epoch t \<le> ct_epoch c" "\<exists>n < ct_ticks c. at_issued_at t = en_clock env n"
      using assms(1) that unfolding accounted_def by blast+
    have "t \<in> set (ct_tokens d) \<or> spent env d t" using g(1) assms(6) spent_mono[OF _ assms(2,3)] by blast
    moreover have "\<exists>n < ct_ticks d. at_issued_at t = en_clock env n" using g(5) assms(3) by (meson less_le_trans)
    ultimately show ?thesis using g(2-4) a by (auto intro: order_trans)
  qed
  then show ?thesis using assms(1,4,5,7) a unfolding accounted_def by auto
qed

lemma accounted_same:
  assumes "accounted env c G" "core d = core c" "ct_ticks c \<le> ct_ticks d"
  shows "accounted env d G"
proof -
  note f = core_fields[OF assms(2)]
  have "accounted env d (G \<union> {})"
    by (rule accounted_step[OF assms(1) advances_same[OF assms(2)] assms(3)])
      (use assms(1) f in \<open>simp_all add: accounted_def\<close>)
  then show ?thesis by simp
qed

lemma accounted_round:
  assumes "accounted env c G" "round_done env ev c d" "mono (en_clock env)"
    "0 \<le> po_clock_skew (co_policy (ct_options c))"
  shows "accounted env d G"
proof -
  obtain composed now surviving where w: "ct_ticks c \<le> ct_ticks d"
    "\<forall>t \<in> set (ct_tokens c) - set surviving. dropped_in env c d composed t"
    "core d = core (adopt_round (inputs_of c) (overlay_admin (ct_admin c) ev) composed
       (derive_expectations composed (ct_expectations c)) surviving c)"
    using assms(2) unfolding round_done_def by blast
  have e: "ct_epoch d = ps_epoch composed" "ct_tokens d = surviving"
    using core_fields[OF w(3)] by (simp_all add: adopt_round_def)
  note r = round_facts[OF assms(2)]
  have adv: "advances c [] d" using advances_round[OF assms(2), of "ct_admin c" c] by simp
  have le: "ct_epoch c \<le> ct_epoch d" using adv by (simp add: advances_def)
  have "spent env d t" if t: "t \<in> set (ct_tokens c)" "t \<notin> set (ct_tokens d)" for t
  proof -
    obtain n where n: "ct_ticks c \<le> n" "n < ct_ticks d"
      "\<not> token_live t (survivor_check c (inputs_of c) composed (en_clock env n))"
      using w(2) t e(2) unfolding dropped_in_def by blast
    obtain m where m: "m < ct_ticks c" "at_issued_at t = en_clock env m"
      "at_incarnation t = ct_incarnation c" "at_pod t = co_pod (ct_options c)" "at_epoch t \<le> ct_epoch c"
      using assms(1) t unfolding accounted_def by blast
    have "en_clock env m \<le> en_clock env n" using m(1) n(1) by (intro monoD[OF assms(3)]) simp
    then have "at_issued_at t - po_clock_skew (co_policy (ct_options c)) \<le> en_clock env n"
      using assms(4) m(2) by simp
    then have "at_lease t = [] \<or> at_pod t = [] \<or> at_expires_at t \<le> at_issued_at t \<or>
        at_lease t \<in> set (ct_revoked c) \<or> at_epoch t \<noteq> ct_epoch d \<or> at_expires_at t < en_clock env n"
      using n(3) m(3,4) by (auto simp: token_live_def survivor_check_def e(1) inputs_of_def)
    moreover have "at_epoch t \<noteq> ct_epoch d \<Longrightarrow> at_epoch t < ct_epoch d" using m(5) le by simp
    ultimately show ?thesis using n(2) r(3) unfolding spent_def by auto
  qed
  moreover have "set (ct_tokens d) \<subseteq> set (ct_tokens c)" using r(9) by auto
  moreover have "ct_lifecycle d = Life_Retired \<longrightarrow> ct_tokens d = []"
    using r(8) calculation(2) assms(1) by (auto simp: accounted_def)
  ultimately have "accounted env d (G \<union> {})"
    by (intro accounted_step[OF assms(1) adv w(1)]) auto
  then show ?thesis by simp
qed

lemma accounted_admin:
  assumes "accounted env c G" "mono (en_clock env)" "0 \<le> po_clock_skew (co_policy (ct_options c))" "ct_ticks c \<le> ct_ticks d"
    "f = c\<lparr>ct_admin := a\<rparr>" "core d = core f \<or> (\<exists>ev. ct_last_evidence c = Some ev \<and> round_done env ev f d)"
  shows "accounted env d G"
proof -
  have sp: "spent env f = spent env c" by (simp add: fun_eq_iff spent_def assms(5))
  have f: "accounted env f G" using assms(1) by (simp add: accounted_def sp) (simp add: assms(5))
  have "ct_ticks f \<le> ct_ticks d" "0 \<le> po_clock_skew (co_policy (ct_options f))" using assms(3,4,5) by simp_all
  then show ?thesis using assms(6) accounted_same[OF f] accounted_round[OF f _ assms(2)] by blast
qed

lemma execute_accounted:
  assumes "accounted env c G" "mono (en_clock env)" "0 \<le> po_clock_skew (co_policy (ct_options c))" "execute env k c = (g, d)"
  shows "accounted env d (G \<union> set g)"
proof -
  note adv = execute_advances[OF assms(4)] and tk = ticks_execute[OF assms(4)]
  have same: "core d = core c \<Longrightarrow> g = [] \<Longrightarrow> accounted env d (G \<union> set g)"
    using accounted_same[OF assms(1) _ tk] by simp
  have shrink: "accounted env d (G \<union> set g)" if "g = []" "set (ct_tokens d) \<subseteq> set (ct_tokens c)"
    "ct_lifecycle d = Life_Retired \<longrightarrow> ct_tokens d = []"
    "\<forall>t \<in> set (ct_tokens c). t \<in> set (ct_tokens d) \<or> at_lease t \<in> set (ct_revoked d)"
    by (rule accounted_step[OF assms(1) adv tk]) (use that in \<open>auto simp: spent_def\<close>)
  have nr: "ct_lifecycle c = Life_Retired \<longrightarrow> ct_tokens c = []" using assms(1) by (simp add: accounted_def)
  show ?thesis
  proof (cases k)
    case (Do_Apply ev)
    then obtain r where r: "apply_evidence env ev c = (r, d)" "g = []" using assms(4) by (cases "apply_evidence env ev c") auto
    from apply_cases[OF r(1)] show ?thesis using same accounted_round[OF assms(1) _ assms(2,3)] r(2) by auto
  next
    case (Do_SetAdmin rack a)
    then obtain r where r: "set_admin_state env rack a c = (r, d)" "g = []" using assms(4) by (cases "set_admin_state env rack a c") auto
    from set_admin_cases[OF r(1)] show ?thesis
      using same accounted_admin[OF assms(1-3) tk refl] r(2) unfolding Let_def by (elim disjE conjE) auto
  next
    case (Do_ClearAdmin rack)
    then obtain r where r: "clear_admin_state env rack c = (r, d)" "g = []" using assms(4) by (cases "clear_admin_state env rack c") auto
    from clear_admin_cases[OF r(1)] show ?thesis
      using same accounted_admin[OF assms(1-3) tk refl] r(2) unfolding Let_def by (elim disjE conjE) auto
  next
    case Do_Retire
    then obtain r where r: "retire env c = (r, d)" "g = []" using assms(4) by (cases "retire env c") auto
    from retire_cases[OF r(1)] show ?thesis
    proof (elim disjE exE conjE)
      assume k: "core d = core (enter_retired c)"
      show ?thesis by (rule shrink) (use r(2) core_fields[OF k] in \<open>auto simp: enter_retired_def\<close>)
    qed (use same r(2) in auto)
  next
    case (Do_Revoke lease)
    then obtain r where r: "revoke_authority env lease c = (r, d)" "g = []" using assms(4) by (cases "revoke_authority env lease c") auto
    from revoke_cases[OF r(1)] show ?thesis
    proof (elim disjE exE conjE)
      assume k: "core d = core (c\<lparr>ct_revoked := ct_revoked c @ [lease], ct_tokens := filter (\<lambda>t. at_lease t \<noteq> lease) (ct_tokens c)\<rparr>)"
      show ?thesis by (rule shrink) (use r(2) core_fields[OF k] nr in auto)
    next
      fix e assume k: "core d = core (c\<lparr>ct_revoked := ct_revoked c @ [lease]\<rparr>)"
      show ?thesis by (rule shrink) (use r(2) core_fields[OF k] nr in auto)
    qed (use same r(2) in auto)
  next
    case (Do_Mint scope subject lifetime)
    then obtain r where r: "mint_authority env scope subject lifetime c = (r, d)"
      "g = (case r of Inl e \<Rightarrow> [] | Inr t \<Rightarrow> [t])"
      using assms(4) by (cases "mint_authority env scope subject lifetime c") (auto split: sum.splits)
    from mint_cases[OF r(1)] show ?thesis
    proof (elim disjE exE conjE)
      fix e assume "r = Inl e" "core d = core c"
      then show ?thesis using same r(2) by simp
    next
      fix f u expires e
      assume f: "r = Inl e" "core d = core (c\<lparr>ct_fencing := f\<rparr>)"
      show ?thesis by (rule shrink) (use r(2) f(1) core_fields[OF f(2)] nr in auto)
    next
      fix f u expires t
      assume f: "ct_lifecycle c \<noteq> Life_Retired" "r = Inr t" "Suc (Suc (ct_ticks c)) \<le> ct_ticks d"
        "t = grant_token c (make_lease_id u) scope subject (en_clock env (Suc (ct_ticks c))) expires f"
        "core d = core (c\<lparr>ct_fencing := f, ct_tokens := ct_tokens c @ [t]\<rparr>)"
      have g: "g = [t]" using r(2) f(2) by simp
      have i: "\<exists>n < ct_ticks d. at_issued_at t = en_clock env n"
        using f(3) by (intro exI[of _ "Suc (ct_ticks c)"]) (simp add: f(4) grant_token_def)
      show ?thesis
        by (rule accounted_step[OF assms(1) adv tk])
          (use g i f(1) core_fields[OF f(5)] in \<open>simp_all add: f(4) grant_token_def\<close>)
    qed
  next
    case (Do_Check t scope subject)
    then show ?thesis using assms(4) core_check same by auto
  next
    case (Do_Subscribe x)
    then show ?thesis using assms(4) core_subscribe same by auto
  next
    case Do_Close
    then have g: "g = []" "d = snd (controller_close c)" using assms(4) by simp_all
    have "ct_tokens d = ct_tokens c \<and> ct_lifecycle d = ct_lifecycle c"
      using core_close[of c] unfolding g(2) by (auto simp: core_def)
    then show ?thesis by (intro shrink) (use g nr in simp_all)
  qed
qed

lemma run_accounted:
  "accounted env c G \<Longrightarrow> mono (en_clock env) \<Longrightarrow> 0 \<le> po_clock_skew (co_policy (ct_options c)) \<Longrightarrow>
   run_commands env ks c = (g, d) \<Longrightarrow> accounted env d (G \<union> set g)"
proof (induction ks arbitrary: c G g d)
  case (Cons k ks)
  obtain g1 c1 where 1: "execute env k c = (g1, c1)" by force
  obtain g2 c2 where 2: "run_commands env ks c1 = (g2, c2)" by force
  have o: "ct_options c1 = ct_options c" using execute_advances[OF 1] by (simp add: advances_def)
  from Cons.IH[OF execute_accounted[OF Cons.prems(1-3) 1] Cons.prems(2) _ 2] Cons.prems(3,4) show ?case
    by (auto simp: 1 2 o Un_assoc)
qed simp

text \<open>
  C9: authority can be taken back. Start from a controller that holds no token and let the clock never
  go back. Whatever commands follow (rounds of evidence, mints, revocations, retirement, and every
  one of them may fail), a token granted on the way is accepted by the authority check only while
  the controller still holds it: the pod is not retired, the lease is not revoked and the
  epoch of the token is the current one.
\<close>

theorem accepted_tokens_are_held:
  assumes "mono (en_clock env)" "0 \<le> po_clock_skew (co_policy (ct_options c))" "ct_tokens c = []"
    "run_commands env ks c = (granted, d)" "t \<in> set granted"
    "check_authority env t scope subject d = (Inr v, e)" "verdict_valid v"
  shows "t \<in> set (ct_tokens d) \<and> ct_lifecycle d \<noteq> Life_Retired \<and> at_lease t \<notin> set (ct_revoked d) \<and>
    at_epoch t = ct_epoch d"
proof -
  have "accounted env c {}" using assms(3) by (simp add: accounted_def)
  from run_accounted[OF this assms(1,2,4)] have a: "t \<in> set (ct_tokens d) \<or> spent env d t"
    "ct_lifecycle d = Life_Retired \<longrightarrow> ct_tokens d = []" using assms(5) by (auto simp: accounted_def)
  let ?k = "\<lparr>ac_pod = co_pod (ct_options d), ac_epoch = ct_epoch d, ac_incarnation = ct_incarnation d,
    ac_now = en_clock env (ct_ticks d), ac_clock_skew = po_clock_skew (co_policy (ct_options d)),
    ac_revoked = ct_revoked d, ac_required = scope, ac_enforce_scope = True\<rparr>"
  obtain w where w: "validate_token t ?k = Inr w" "verdict_valid w"
    using assms(6,7) by (auto simp: check_authority_def tick_def with_controller_def op_bind_def op_lift_def
        op_return_def verdict_valid_def split: sum.splits if_splits)
  then have l: "token_live t ?k" using validate_token_valid_iff by (simp add: verdict_valid_def)
  have "at_expires_at t \<ge> en_clock env n" if "n < ct_ticks d" for n
  proof -
    have "en_clock env n \<le> en_clock env (ct_ticks d)" using that by (intro monoD[OF assms(1)]) simp
    then show ?thesis using l by (simp add: token_live_def)
  qed
  then have "\<not> spent env d t" using l by (auto simp: spent_def token_live_def not_le dest: leD)
  then show ?thesis using a l by (auto simp: token_live_def)
qed

section \<open>A sample controller\<close>

definition sample_env :: environment where
  "sample_env = \<lparr>en_clock = (\<lambda>n. 1000 + int n), en_system = (\<lambda>n. 1), en_entropy = (\<lambda>n. Some (replicate 16 1))\<rparr>"

definition sample_controller_options :: controller_options where
  "sample_controller_options = \<lparr>co_pod = ''p'', co_policy = sample_policy, co_store_directory = [],
     co_require_authority_token = False, co_default_lease_duration = 100, co_max_observers = 4\<rparr>"

definition sample_controller :: controller where
  "sample_controller = snd (controller_open sample_env (controller_new sample_controller_options sample_directory))"

lemma sample_policy_token: "sample_policy\<lparr>po_require_authority_token := False\<rparr> = sample_policy"
  by (simp add: sample_policy_def policy_default_def)

lemma sample_controller_facts:
  "fst (controller_open sample_env (controller_new sample_controller_options sample_directory)) = success"
  "ct_open sample_controller" "ct_tokens sample_controller = []" "ct_store sample_controller = None"
  "ct_lifecycle sample_controller = Life_Constructing" "ct_options sample_controller = sample_controller_options"
  "ct_epoch sample_controller = 0" "ct_fencing sample_controller = 0" "ct_revoked sample_controller = []"
  "ct_ticks sample_controller = 1" "ct_incarnation sample_controller = uuid_stamp (replicate 16 1)"
  by (simp_all add: sample_controller_def controller_open_def controller_new_def sample_controller_options_def
      with_controller_def sample_valid(1) sample_policy_token is_nil_def tick_def sample_env_def incarnation_fresh_def
      uuid_random_def op_bind_def op_guard_def op_lift_def op_when_def op_return_def op_update_def reset_controller_def
      publish_def)

lemma make_lease_id_nonempty: "make_lease_id u \<noteq> []"
  by (auto simp: make_lease_id_def result_simps dest: canonical_id_nonempty split: sum.split)

lemma sample_mint:
  "\<exists>t d. mint_authority sample_env Scope_Pod [] 50 sample_controller = (Inr t, d) \<and>
     t = grant_token sample_controller (make_lease_id (uuid_stamp (replicate 16 1))) Scope_Pod [] 1002 1052 1 \<and>
     ct_tokens d = [t] \<and> ct_ticks d = 3 \<and> ct_options d = sample_controller_options \<and> ct_revoked d = [] \<and>
     ct_epoch d = 0 \<and> ct_incarnation d = uuid_stamp (replicate 16 1)"
proof -
  let ?c = sample_controller and ?l = "make_lease_id (uuid_stamp (replicate 16 1))"
  note f = sample_controller_facts
  let ?t = "grant_token ?c ?l Scope_Pod [] 1002 1052 1"
  have n: "sequence_next (0::u64) = Inr 1" by (simp add: sequence_next_def checked_add_def)
  let ?d = "?c\<lparr>ct_staged := [mk_event Event_AuthorityGranted 0 (uuid_stamp (replicate 16 1)) Life_Constructing ?l
      (scope_to_string Scope_Pod)], ct_ticks := 3, ct_fencing := 1, ct_tokens := [?t]\<rparr>"
  have g: "grant_authority sample_env Scope_Pod [] ?l 1002 1052 (?c\<lparr>ct_staged := [], ct_ticks := 3\<rparr>) = (Inr ?t, ?d)"
    using f by (simp add: grant_authority_def with_controller_def op_guard_def op_bind_def op_return_def op_lift_def n
        Let_def op_update_def persist_state_def announce_def stage_def grant_token_def token_material_def)
  have "mint_authority sample_env Scope_Pod [] 50 ?c = (Inr ?t, flush_events ?d)"
    using f g by (simp add: mint_authority_def publishing_def need_open_def op_bind_def op_guard_def op_return_def
        tick_def sample_env_def uuid_random_def op_lift_def with_controller_def Let_def checked_add_signed_def
        smax_def smin_def numeral_3_eq_3)
  moreover have "ct_tokens (flush_events ?d) = [?t]" "ct_options (flush_events ?d) = sample_controller_options"
    "ct_revoked (flush_events ?d) = []" "ct_epoch (flush_events ?d) = 0"
    "ct_incarnation (flush_events ?d) = uuid_stamp (replicate 16 1)"
    using core_fields[OF core_flush[of ?d]] f by simp_all
  ultimately show ?thesis by auto
qed

theorem accepted_tokens_are_held_witness:
  "\<exists>t d v e. run_commands sample_env [Do_Mint Scope_Pod [] 50] sample_controller = ([t], d) \<and>
     check_authority sample_env t Scope_Link [] d = (Inr v, e) \<and> verdict_valid v \<and>
     t \<in> set (ct_tokens d) \<and> ct_lifecycle d \<noteq> Life_Retired"
proof -
  obtain t d where m: "mint_authority sample_env Scope_Pod [] 50 sample_controller = (Inr t, d)"
    "t = grant_token sample_controller (make_lease_id (uuid_stamp (replicate 16 1))) Scope_Pod [] 1002 1052 1"
    "ct_tokens d = [t]" "ct_ticks d = 3" "ct_options d = sample_controller_options" "ct_revoked d = []"
    "ct_epoch d = 0" "ct_incarnation d = uuid_stamp (replicate 16 1)"
    using sample_mint by blast
  have r: "run_commands sample_env [Do_Mint Scope_Pod [] 50] sample_controller = ([t], d)" using m(1) by simp
  note f = sample_controller_facts
  have o: "co_pod sample_controller_options = ''p''" "po_clock_skew (co_policy sample_controller_options) = 5 * nanos_per_second"
    by (simp_all add: sample_controller_options_def sample_policy_def policy_default_def)
  let ?k = "\<lparr>ac_pod = ''p'', ac_epoch = 0, ac_incarnation = uuid_stamp (replicate 16 1), ac_now = 1003,
     ac_clock_skew = 5 * nanos_per_second, ac_revoked = [], ac_required = Scope_Link, ac_enforce_scope = True\<rparr>"
  have "validate_token t ?k = Inr (mk_verdict Verdict_Valid Code_Ok [])"
    using f o make_lease_id_nonempty[of "uuid_stamp (replicate 16 1)"]
    by (simp add: m(2) validate_token_def grant_token_def is_nil_def i64_sub_def i64_result_def in_signed_def
        smin_def smax_def nanos_per_second_def)
  then have c: "check_authority sample_env t Scope_Link [] d =
      (Inr (mk_verdict Verdict_Valid Code_Ok []), d\<lparr>ct_ticks := Suc 3\<rparr>)"
    using m o by (simp add: check_authority_def tick_def with_controller_def op_bind_def op_lift_def op_return_def
        sample_env_def verdict_valid_def is_nil_def)
  have "mono (en_clock sample_env)" by (simp add: mono_def sample_env_def)
  moreover have "0 \<le> po_clock_skew (co_policy (ct_options sample_controller))"
    using o f by (simp add: nanos_per_second_def)
  moreover have "verdict_valid (mk_verdict Verdict_Valid Code_Ok [])" by (simp add: verdict_valid_def)
  ultimately show ?thesis
    using accepted_tokens_are_held[OF _ _ f(3) r _ c] r c by auto
qed

end
