(* ===== verification/Restart.thy ===== *)
theory Restart
  imports Commands
begin

text \<open>
  The controller and its store together: what a successful command leaves on disk is what the
  controller holds in memory, and a controller that is opened on the directory of another one,
  after a crash, takes it up again with the authority of its predecessor fenced.
\<close>

section \<open>Memory and disk\<close>

definition reflects :: "controller \<Rightarrow> durable_state \<Rightarrow> bool" where
  "reflects c d \<longleftrightarrow> ds_pod d = co_pod (ct_options c) \<and> ds_epoch d = ct_epoch c \<and> ds_writer d = ct_incarnation c \<and>
     ds_lifecycle d = ct_lifecycle c \<and> ds_expectations d = ct_expectations c \<and> ds_tokens d = ct_tokens c \<and>
     ds_revoked d = ct_revoked c \<and> ds_fencing d = ct_fencing c \<and> ds_admin d = ct_admin c"

definition mirrored :: "controller \<Rightarrow> bool" where
  "mirrored c \<longleftrightarrow> ct_open c \<and> smap_ok (ct_admin c) \<and> ps_epoch (ct_state c) = ct_epoch c \<and>
     ps_lifecycle (ct_state c) = ct_lifecycle c \<and>
     (\<exists>s. ct_store c = Some s \<and> settled_store s \<and> st_options s = store_options_of (ct_options c) \<and>
        reflects c (st_state s))"

lemma commit_success:
  assumes "settled_store s" "store_commit now p s = (success, t)" "durable_ok (st_state t)"
    "ds_sequence (st_state s) \<noteq> - 1"
  shows "st_state t = stamp_state now (st_state s) p" "settled_store t" "st_options t = st_options s"
proof -
  let ?e = "stamp_state now (st_state s) p"
  have h: "st_open s" "quiet (st_files s)" "fs_handle (st_files s)" "so_sync_on_commit (st_options s)"
    using assms(1) by (auto simp: settled_store_def store_holds_def)
  obtain j where j: "fs_journal (st_files s) = Some j"
    using assms(1) by (auto simp: settled_store_def store_holds_def log_holds_def)
  obtain body where b: "encode_durable ?e = Inr body"
    using assms(2) h(1) by (cases "encode_durable ?e") (auto simp: store_commit_def Let_def op_guard_def)
  have "encode_record (begin_record ?e body) (record_limit (st_options s)) \<noteq> Inl x" for x
    using assms(2) h(1) b by (auto simp: store_commit_def Let_def op_guard_def record_limit_def)
  then have "fits (record_limit (st_options s)) (begin_record ?e body)" using encode_record_error by blast
  then have f: "length body \<le> min (record_limit (st_options s)) journal_hard_max_record"
    by (simp add: fits_def begin_record_def)
  show st: "st_state t = ?e"
    using commit_quiet[OF h(1-4) j refl b f refl] assms(2) by auto
  then have "committable (st_options s) ?e" using assms(3) b f by (auto simp: committable_def)
  from commit_settled[OF assms(1) refl assms(4) this] assms(2)
  show "settled_store t" "st_options t = st_options s" by auto
qed

lemma smap_ok_sort: "smap_ok m \<Longrightarrow> sort_key fst m = m"
  by (rule sort_key_id_if_sorted) (auto simp: smap_ok_def strict_sorted_iff)

lemma persist_mirrors:
  assumes "ct_store c = Some s" "settled_store s" "persist_state env composed es ts rs c = (success, d)"
    "ct_store d = Some t" "durable_ok (st_state t)" "ds_sequence (st_state s) \<noteq> - 1" "smap_ok (ct_admin c)"
  shows "settled_store t \<and> st_options t = st_options s \<and> core d = core c \<and>
    ds_pod (st_state t) = co_pod (ct_options c) \<and> ds_epoch (st_state t) = ps_epoch composed \<and>
    ds_writer (st_state t) = ct_incarnation c \<and> ds_lifecycle (st_state t) = ps_lifecycle composed \<and>
    ds_expectations (st_state t) = es \<and> ds_tokens (st_state t) = ts \<and> ds_revoked (st_state t) = rs \<and>
    ds_fencing (st_state t) = ct_fencing c \<and> ds_admin (st_state t) = ct_admin c"
proof -
  let ?w = "en_clock env (ct_ticks c)" and ?n = "en_system env (Suc (ct_ticks c))"
  let ?p = "durable_of c ?w composed es ts rs"
  have dn: "durable_of (c\<lparr>ct_ticks := k\<rparr>) = durable_of c" for k by (simp add: fun_eq_iff durable_of_def)
  obtain r t' where cm: "store_commit ?n ?p s = (r, t')" by force
  have r: "r = success" "t' = t"
    using assms(1,3,4) cm
    by (auto simp: persist_state_def with_controller_def op_bind_def tick_def on_store_def op_update_def split: sum.splits)
  have core: "core d = core c" by (rule keepsD[OF core_persist assms(3)])
  let ?e = "stamp_state ?n (st_state s) ?p"
  note c = commit_success[OF assms(2) cm[unfolded r] assms(5,6)]
  show ?thesis
    using c(2,3) core smap_ok_sort[OF assms(7)] by (simp add: c(1) stamp_state_def durable_of_def)
qed

section \<open>What a successful command persists\<close>

lemma bind_InrD: "op_bind m f s = (Inr y, u) \<Longrightarrow> \<exists>x t. m s = (Inr x, t) \<and> f x t = (Inr y, u)"
  by (auto simp: op_bind_def split: prod.splits sum.splits)

lemma guard_InrD: "op_guard b k w s = (Inr y, u) \<Longrightarrow> \<not> b \<and> u = s"
  by (auto simp: op_guard_def op_fail_def op_return_def split: if_splits)

definition persisted :: "environment \<Rightarrow> controller \<Rightarrow> controller \<Rightarrow> bool" where
  "persisted env c d \<longleftrightarrow> (\<exists>c1 c2 composed.
     persist_state env composed (ct_expectations d) (ct_tokens d) (ct_revoked d) c1 = (success, c2) \<and>
     ct_store c1 = ct_store c \<and> ct_store d = ct_store c2 \<and> ct_options c1 = ct_options d \<and>
     ct_incarnation c1 = ct_incarnation d \<and> ct_fencing c1 = ct_fencing d \<and> ct_admin c1 = ct_admin d \<and>
     ps_epoch composed = ct_epoch d \<and> ps_lifecycle composed = ct_lifecycle d)"

lemma persisted_core:
  "persisted env c e \<Longrightarrow> core d = core e \<Longrightarrow> ct_store d = ct_store e \<Longrightarrow> ct_store c' = ct_store c \<Longrightarrow> persisted env c' d"
proof -
  assume a: "persisted env c e" "core d = core e" "ct_store d = ct_store e" "ct_store c' = ct_store c"
  show "persisted env c' d" using a(1) unfolding persisted_def core_fields[OF a(2)] a(3,4) .
qed

lemma inputs_simps [simp]:
  "ci_tokens (inputs_of c) = ct_tokens c" "ci_revoked (inputs_of c) = ct_revoked c"
  "ci_admin (inputs_of c) = ct_admin c" "ci_expectations (inputs_of c) = ct_expectations c"
  by (simp_all add: inputs_of_def)

lemma adopt_staged [simp]: "ct_staged (adopt_round i eff composed der sv c) = ct_staged c"
  by (simp add: adopt_round_def)

interpretation store: preorder_relation "\<lambda>c d. ct_store d = ct_store c"
  by unfold_locales simp_all

lemma store_survivors: "keeps (\<lambda>c d. ct_store d = ct_store c) (survivors env i composed ts)"
proof (induction ts)
  case Nil
  show ?case unfolding survivors.simps by (rule store.keeps_return)
next
  case (Cons t ts)
  have "keeps (\<lambda>c d. ct_store d = ct_store c) (tick f)" for f by (simp add: keeps_def tick_def)
  moreover have "keeps (\<lambda>c d. ct_store d = ct_store c) (stage e)" for e by (simp add: keeps_def stage_def)
  ultimately show ?case
    using Cons unfolding survivors.simps
    by (intro store.keeps_rules keeps_with_controller) (auto intro!: store.keeps_rules)
qed

lemma apply_locked_persisted:
  assumes "apply_locked env ev c = (Inr rep, d)"
  shows "persisted env c d"
proof -
  let ?i = "inputs_of c"
  have "\<exists>composed surviving c2 c3. survivors env ?i composed (ct_tokens c) (c\<lparr>ct_ticks := Suc (ct_ticks c)\<rparr>) = (Inr surviving, c2) \<and>
    persist_state env composed (derive_expectations composed (ct_expectations c)) surviving (ct_revoked c) c2 = (success, c3) \<and>
    d = (adopt_round ?i (overlay_admin (ct_admin c) ev) composed
      (derive_expectations composed (ct_expectations c)) surviving c3)\<lparr>ct_staged := ct_staged c3 @ round_events c3 ?i composed\<rparr>"
    using assms
    by (auto simp: apply_locked_def need_open_def with_controller_def Let_def op_lift_def tick_def
        dest!: bind_InrD guard_InrD) metis
  then obtain composed surviving c2 c3 where t: "survivors env ?i composed (ct_tokens c) (c\<lparr>ct_ticks := Suc (ct_ticks c)\<rparr>) = (Inr surviving, c2)"
    "persist_state env composed (derive_expectations composed (ct_expectations c)) surviving (ct_revoked c) c2 = (success, c3)"
    "d = (adopt_round ?i (overlay_admin (ct_admin c) ev) composed
      (derive_expectations composed (ct_expectations c)) surviving c3)\<lparr>ct_staged := ct_staged c3 @ round_events c3 ?i composed\<rparr>"
    by blast
  have k2: "core c2 = core c" using keepsD[OF core_survivors t(1)] by simp
  have k3: "core c3 = core c" using keepsD[OF core_persist t(2)] k2 by simp
  have s2: "ct_store c2 = ct_store c" using keepsD[OF store_survivors t(1)] by simp
  have "ct_store d = ct_store c3" "ct_expectations d = derive_expectations composed (ct_expectations c)"
    "ct_tokens d = surviving" "ct_revoked d = ct_revoked c" "ct_options d = ct_options c" "ct_incarnation d = ct_incarnation c"
    "ct_fencing d = ct_fencing c" "ct_admin d = ct_admin c" "ct_epoch d = ps_epoch composed" "ct_lifecycle d = ps_lifecycle composed"
    using core_fields[OF k3] by (simp_all add: t(3) adopt_round_def)
  then show ?thesis unfolding persisted_def using t(2) s2 core_fields[OF k2] by metis
qed

lemma publishing_Inr:
  assumes "publishing m c = (Inr x, d)"
  shows "\<exists>e. m (c\<lparr>ct_staged := []\<rparr>) = (Inr x, e) \<and> core d = core e \<and> ct_store d = ct_store e"
  using publishing_outcome[OF assms] by blast

lemma announce_InrD: "announce k s w c = (Inr x, d) \<Longrightarrow> core d = core c \<and> ct_store d = ct_store c"
  using keepsD[OF core_announce] by (fastforce simp: announce_def with_controller_def stage_def)

lemma store_flush [simp]: "ct_store (flush_events c) = ct_store c"
proof -
  have "ct_store (publish ev x) = ct_store x" for ev x by (simp add: publish_def)
  then have "ct_store (fold publish es x) = ct_store x" for es x by (induction es arbitrary: x) simp_all
  then show ?thesis by (simp add: flush_events_def dispatch_def)
qed

lemma apply_persisted:
  assumes "apply_evidence env ev c = (Inr rep, d)"
  shows "persisted env c d"
proof -
  obtain e where e: "apply_locked env ev (c\<lparr>ct_staged := []\<rparr>) = (Inr rep, e)" "d = flush_events e"
    using assms by (auto simp: apply_evidence_def split: prod.splits)
  have "ct_store d = ct_store e" by (simp add: e(2))
  then show ?thesis using persisted_core[OF apply_locked_persisted[OF e(1)], of d c] by (simp add: e(2))
qed

lemma grant_persisted:
  assumes "grant_authority env scope subject lease issued expires c = (Inr t, d)"
    "ps_epoch (ct_state c) = ct_epoch c" "ps_lifecycle (ct_state c) = ct_lifecycle c"
  shows "persisted env c d"
proof -
  have "\<exists>f c2. persist_state env (ct_state c) (ct_expectations c) (ct_tokens c @ [t]) (ct_revoked c) (c\<lparr>ct_fencing := f\<rparr>)
      = (success, c2) \<and> announce Event_AuthorityGranted lease (scope_to_string scope)
        (c2\<lparr>ct_tokens := ct_tokens c @ [t]\<rparr>) = (success, d)"
    using assms(1)
    by (auto simp: grant_authority_def with_controller_def Let_def op_lift_def dest!: bind_InrD guard_InrD)
      ((rule exI conjI | assumption)+)
  then obtain f c2 where p: "persist_state env (ct_state c) (ct_expectations c) (ct_tokens c @ [t]) (ct_revoked c)
      (c\<lparr>ct_fencing := f\<rparr>) = (success, c2)"
    "announce Event_AuthorityGranted lease (scope_to_string scope) (c2\<lparr>ct_tokens := ct_tokens c @ [t]\<rparr>) = (success, d)"
    by blast
  have k: "core c2 = core (c\<lparr>ct_fencing := f\<rparr>)" by (rule keepsD[OF core_persist p(1)])
  have "persisted env c (c2\<lparr>ct_tokens := ct_tokens c @ [t]\<rparr>)"
    unfolding persisted_def
    by (intro exI[of _ "c\<lparr>ct_fencing := f\<rparr>"] exI[of _ c2] exI[of _ "ct_state c"])
      (use p(1) core_fields[OF k] assms(2,3) in simp)
  then show ?thesis using announce_InrD[OF p(2)] by (auto intro: persisted_core)
qed

lemma mint_persisted:
  assumes "mint_authority env scope subject lifetime c = (Inr t, d)" "ps_epoch (ct_state c) = ct_epoch c"
    "ps_lifecycle (ct_state c) = ct_lifecycle c"
  shows "persisted env c d"
proof -
  let ?c = "c\<lparr>ct_staged := [], ct_ticks := Suc (Suc (ct_ticks c))\<rparr>"
  have "\<exists>e lease issued expires. grant_authority env scope subject lease issued expires ?c = (Inr t, e) \<and>
      core d = core e \<and> ct_store d = ct_store e"
    using publishing_Inr[OF assms(1)[unfolded mint_authority_def]]
    by (auto simp: need_open_def with_controller_def Let_def op_lift_def tick_def dest!: bind_InrD guard_InrD
        split: if_splits) metis+
  then obtain e lease issued expires where g: "grant_authority env scope subject lease issued expires ?c = (Inr t, e)"
    "core d = core e" "ct_store d = ct_store e" by blast
  from grant_persisted[OF g(1)] assms(2,3) have "persisted env ?c e" by simp
  from persisted_core[OF this g(2,3)] show ?thesis by simp
qed

lemma revoke_persisted:
  assumes "revoke_authority env lease c = (success, d)" "ps_epoch (ct_state c) = ct_epoch c"
    "ps_lifecycle (ct_state c) = ct_lifecycle c"
  shows "persisted env c d"
proof -
  let ?next = "filter (\<lambda>t. at_lease t \<noteq> lease) (ct_tokens c)" and ?rev = "ct_revoked c @ [lease]"
  let ?c = "c\<lparr>ct_staged := [], ct_revoked := ?rev\<rparr>"
  have "\<exists>c2 e. persist_state env (ct_state c) (ct_expectations c) ?next ?rev ?c = (success, c2) \<and>
      announce Event_AuthorityFenced lease ''revoked'' (c2\<lparr>ct_tokens := ?next\<rparr>) = (success, e) \<and>
      core d = core e \<and> ct_store d = ct_store e"
    using publishing_Inr[OF assms(1)[unfolded revoke_authority_def]]
    by (auto simp: need_open_def with_controller_def Let_def dest!: bind_InrD guard_InrD)
  then obtain c2 e where p: "persist_state env (ct_state c) (ct_expectations c) ?next ?rev ?c = (success, c2)"
    "announce Event_AuthorityFenced lease ''revoked'' (c2\<lparr>ct_tokens := ?next\<rparr>) = (success, e)"
    "core d = core e" "ct_store d = ct_store e" by blast
  have k: "core c2 = core ?c" by (rule keepsD[OF core_persist p(1)])
  have "persisted env c (c2\<lparr>ct_tokens := ?next\<rparr>)"
    unfolding persisted_def
    by (intro exI[of _ ?c] exI[of _ c2] exI[of _ "ct_state c"]) (use p(1) core_fields[OF k] assms(2,3) in simp)
  then show ?thesis using announce_InrD[OF p(2)] p(3,4) by (auto intro: persisted_core)
qed

lemma retire_persisted:
  assumes "retire env c = (success, d)" "ps_epoch (ct_state c) = ct_epoch c"
  shows "persisted env c d"
proof -
  let ?c = "enter_retired (c\<lparr>ct_staged := []\<rparr>)"
  have "\<exists>c2 e s w. persist_state env (ct_state ?c) (ct_expectations ?c) (ct_tokens ?c) (ct_revoked ?c) ?c = (success, c2) \<and>
      announce Event_Retired s w c2 = (success, e) \<and> core d = core e \<and> ct_store d = ct_store e"
    using publishing_Inr[OF assms(1)[unfolded retire_def]]
    by (auto simp: need_open_def with_controller_def Let_def dest!: bind_InrD guard_InrD)
      metis
  then obtain c2 e s w where p: "persist_state env (ct_state ?c) (ct_expectations ?c) (ct_tokens ?c) (ct_revoked ?c) ?c = (success, c2)"
    "announce Event_Retired s w c2 = (success, e)" "core d = core e" "ct_store d = ct_store e" by blast
  have k: "core c2 = core ?c" by (rule keepsD[OF core_persist p(1)])
  have r: "ct_store ?c = ct_store c" "ps_epoch (ct_state ?c) = ct_epoch ?c" "ps_lifecycle (ct_state ?c) = ct_lifecycle ?c"
    using assms(2) by (simp_all add: enter_retired_def retired_state_def)
  have "persisted env c c2"
    unfolding persisted_def
    by (intro exI[of _ ?c] exI[of _ c2] exI[of _ "ct_state ?c"]) (use p(1) core_fields[OF k] r in simp)
  then show ?thesis using announce_InrD[OF p(2)] p(3,4) by (auto intro: persisted_core)
qed

lemma recompose_persisted:
  assumes "recompose env c = (success, d)" "ps_epoch (ct_state c) = ct_epoch c"
    "ps_lifecycle (ct_state c) = ct_lifecycle c"
  shows "persisted env c d"
proof (cases "ct_last_evidence c")
  case None
  then have p: "persist_state env (ct_state c) (ct_expectations c) (ct_tokens c) (ct_revoked c) c = (success, d)"
    using assms(1) by (simp add: recompose_def with_controller_def)
  have k: "core d = core c" by (rule keepsD[OF core_persist p])
  show ?thesis
    unfolding persisted_def
    by (intro exI[of _ c] exI[of _ d] exI[of _ "ct_state c"]) (use p core_fields[OF k] assms(2,3) in simp)
next
  case (Some ev)
  then show ?thesis using assms(1) apply_locked_persisted
    by (fastforce simp: recompose_def with_controller_def dest!: bind_InrD)
qed

lemma announced_persisted:
  assumes "recompose env (c\<lparr>ct_staged := [], ct_admin := m\<rparr>) = (success, c2)" "announce k x w c2 = (success, e)"
    "core d = core e" "ct_store d = ct_store e" "ps_epoch (ct_state c) = ct_epoch c" "ps_lifecycle (ct_state c) = ct_lifecycle c"
  shows "persisted env c d"
proof -
  have "persisted env (c\<lparr>ct_staged := [], ct_admin := m\<rparr>) c2"
    using recompose_persisted[OF assms(1)] assms(5,6) by simp
  from persisted_core[OF this, of d c] show ?thesis using announce_InrD[OF assms(2)] assms(3,4) by simp
qed

lemma set_admin_persisted:
  assumes "set_admin_state env rack a c = (success, d)" "ps_epoch (ct_state c) = ct_epoch c"
    "ps_lifecycle (ct_state c) = ct_lifecycle c"
  shows "persisted env c d"
proof -
  have "\<exists>c2 e. recompose env (c\<lparr>ct_staged := [], ct_admin := smap_put rack a (ct_admin c)\<rparr>) = (success, c2) \<and>
      announce Event_AdminStateChanged rack (admin_to_string a) c2 = (success, e) \<and> core d = core e \<and> ct_store d = ct_store e"
    using publishing_Inr[OF assms(1)[unfolded set_admin_state_def]]
    by (auto simp: need_open_def with_controller_def dest!: bind_InrD guard_InrD)
  with announced_persisted assms(2,3) show ?thesis by blast
qed

lemma clear_admin_persisted:
  assumes "clear_admin_state env rack c = (success, d)" "ps_epoch (ct_state c) = ct_epoch c"
    "ps_lifecycle (ct_state c) = ct_lifecycle c"
  shows "persisted env c d"
proof -
  have "\<exists>c2 e. recompose env (c\<lparr>ct_staged := [], ct_admin := smap_erase rack (ct_admin c)\<rparr>) = (success, c2) \<and>
      announce Event_AdminStateChanged rack ''enabled'' c2 = (success, e) \<and> core d = core e \<and> ct_store d = ct_store e"
    using publishing_Inr[OF assms(1)[unfolded clear_admin_state_def]]
    by (auto simp: need_open_def with_controller_def dest!: bind_InrD guard_InrD)
  with announced_persisted assms(2,3) show ?thesis by blast
qed

section \<open>Every success is on disk\<close>

primrec succeeded :: "environment \<Rightarrow> command \<Rightarrow> controller \<Rightarrow> bool" where
  "succeeded env (Do_Apply ev) c = (\<not> isl (fst (apply_evidence env ev c)))"
| "succeeded env (Do_SetAdmin rack a) c = (\<not> isl (fst (set_admin_state env rack a c)))"
| "succeeded env (Do_ClearAdmin rack) c = (\<not> isl (fst (clear_admin_state env rack c)))"
| "succeeded env Do_Retire c = (\<not> isl (fst (retire env c)))"
| "succeeded env (Do_Mint scope subject lifetime) c = (\<not> isl (fst (mint_authority env scope subject lifetime c)))"
| "succeeded env (Do_Revoke lease) c = (\<not> isl (fst (revoke_authority env lease c)))"
| "succeeded env (Do_Check t scope subject) c = (\<not> isl (fst (check_authority env t scope subject c)))"
| "succeeded env (Do_Subscribe x) c = (\<not> isl (fst (subscribe x c)))"
| "succeeded env Do_Close c = (\<not> isl (fst (controller_close c)))"

lemma succeeded_Inr: "\<not> isl (fst p) \<Longrightarrow> \<exists>x. p = (Inr x, snd p)"
  by (cases p) (auto simp: isl_def split: sum.splits intro: sum.exhaust)

lemma smap_ok_erase: "smap_ok m \<Longrightarrow> smap_ok (smap_erase k m)"
  by (simp add: smap_ok_def smap_erase_def sorted_wrt_map sorted_wrt_filter)

definition consistent :: "controller \<Rightarrow> bool" where
  "consistent c \<longleftrightarrow> smap_ok (ct_admin c) \<and> ps_epoch (ct_state c) = ct_epoch c \<and> ps_lifecycle (ct_state c) = ct_lifecycle c"

lemma consistent_core: "core d = core c \<Longrightarrow> consistent c \<Longrightarrow> consistent d"
  by (simp add: consistent_def core_def)

lemma consistent_round: "round_done env ev f d \<Longrightarrow> consistent f \<Longrightarrow> consistent d"
  using round_facts(5,11) by (simp add: consistent_def)

lemma execute_consistent:
  assumes "execute env k c = (g, d)" "consistent c"
  shows "consistent d"
proof (cases k)
  case (Do_Apply ev)
  then obtain r where r: "apply_evidence env ev c = (r, d)" using assms(1) by (cases "apply_evidence env ev c") auto
  from apply_cases[OF r] show ?thesis using consistent_core consistent_round assms(2) by blast
next
  case (Do_SetAdmin rack a)
  then obtain r where r: "set_admin_state env rack a c = (r, d)" using assms(1) by (cases "set_admin_state env rack a c") auto
  have "consistent (c\<lparr>ct_admin := smap_put rack a (ct_admin c)\<rparr>)" using assms(2) by (simp add: consistent_def)
  then show ?thesis using set_admin_cases[OF r] consistent_core consistent_round assms(2) unfolding Let_def by blast
next
  case (Do_ClearAdmin rack)
  then obtain r where r: "clear_admin_state env rack c = (r, d)" using assms(1) by (cases "clear_admin_state env rack c") auto
  have "consistent (c\<lparr>ct_admin := smap_erase rack (ct_admin c)\<rparr>)" using assms(2) by (simp add: consistent_def smap_ok_erase)
  then show ?thesis using clear_admin_cases[OF r] consistent_core consistent_round assms(2) unfolding Let_def by blast
next
  case Do_Retire
  then obtain r where r: "retire env c = (r, d)" using assms(1) by (cases "retire env c") auto
  have "consistent (enter_retired c)" using assms(2) by (simp add: consistent_def enter_retired_def retired_state_def)
  then show ?thesis using retire_cases[OF r] consistent_core assms(2) by blast
next
  case (Do_Mint scope subject lifetime)
  then obtain r where r: "mint_authority env scope subject lifetime c = (r, d)"
    using assms(1) by (cases "mint_authority env scope subject lifetime c") (auto split: sum.splits)
  have "consistent (c\<lparr>ct_fencing := f\<rparr>)" "consistent (c\<lparr>ct_fencing := f, ct_tokens := ts\<rparr>)" for f ts
    using assms(2) by (simp_all add: consistent_def)
  then show ?thesis using mint_cases[OF r] consistent_core assms(2) by (elim disjE exE conjE) blast+
next
  case (Do_Revoke lease)
  then obtain r where r: "revoke_authority env lease c = (r, d)" using assms(1) by (cases "revoke_authority env lease c") auto
  have "consistent (c\<lparr>ct_revoked := x\<rparr>)" "consistent (c\<lparr>ct_revoked := x, ct_tokens := ts\<rparr>)" for x ts
    using assms(2) by (simp_all add: consistent_def)
  then show ?thesis using revoke_cases[OF r] consistent_core assms(2) by (elim disjE exE conjE) blast+
next
  case (Do_Check t scope subject)
  then show ?thesis using assms core_check consistent_core by auto
next
  case (Do_Subscribe x)
  then show ?thesis using assms core_subscribe consistent_core by auto
next
  case Do_Close
  then show ?thesis using assms core_close[of c] by (auto simp: consistent_def core_def)
qed

fun is_write :: "command \<Rightarrow> bool" where
  "is_write (Do_Check t scope subject) = False"
| "is_write (Do_Subscribe x) = False"
| "is_write Do_Close = False"
| "is_write k = True"

lemma execute_persisted:
  assumes "execute env k c = (g, d)" "succeeded env k c" "consistent c"
    "is_write k"
  shows "persisted env c d"
proof -
  have e: "ps_epoch (ct_state c) = ct_epoch c" "ps_lifecycle (ct_state c) = ct_lifecycle c"
    using assms(3) by (simp_all add: consistent_def)
  show ?thesis
  proof (cases k)
    case (Do_Apply ev)
    then show ?thesis using assms(1,2) succeeded_Inr[of "apply_evidence env ev c"] apply_persisted by auto
  next
    case (Do_SetAdmin rack a)
    then show ?thesis using assms(1,2) succeeded_Inr[of "set_admin_state env rack a c"] set_admin_persisted e by auto
  next
    case (Do_ClearAdmin rack)
    then show ?thesis using assms(1,2) succeeded_Inr[of "clear_admin_state env rack c"] clear_admin_persisted e by auto
  next
    case Do_Retire
    then show ?thesis using assms(1,2) succeeded_Inr[of "retire env c"] retire_persisted e by auto
  next
    case (Do_Mint scope subject lifetime)
    then show ?thesis using assms(1,2) succeeded_Inr[of "mint_authority env scope subject lifetime c"] mint_persisted e
      by (auto split: sum.splits prod.splits)
  next
    case (Do_Revoke lease)
    then show ?thesis using assms(1,2) succeeded_Inr[of "revoke_authority env lease c"] revoke_persisted e by auto
  qed (use assms(4) in auto)
qed

definition attached :: "controller \<Rightarrow> bool" where
  "attached c \<longleftrightarrow> ct_open c \<and> consistent c \<and>
     (\<exists>s. ct_store c = Some s \<and> settled_store s \<and> st_options s = store_options_of (ct_options c))"

lemma mirrored_attached: "mirrored c \<Longrightarrow> attached c"
  by (auto simp: mirrored_def attached_def consistent_def)

lemma execute_open:
  assumes "execute env k c = (g, d)" "is_write k"
  shows "ct_open d = ct_open c"
proof (cases k)
  case (Do_Apply ev)
  then obtain r where r: "apply_evidence env ev c = (r, d)" using assms(1) by (cases "apply_evidence env ev c") auto
  from apply_cases[OF r] show ?thesis using core_fields(2) round_facts(6) by blast
next
  case (Do_SetAdmin rack a)
  then obtain r where r: "set_admin_state env rack a c = (r, d)" using assms(1) by (cases "set_admin_state env rack a c") auto
  from set_admin_cases[OF r] show ?thesis unfolding Let_def by (auto dest: core_fields(2) round_facts(6))
next
  case (Do_ClearAdmin rack)
  then obtain r where r: "clear_admin_state env rack c = (r, d)" using assms(1) by (cases "clear_admin_state env rack c") auto
  from clear_admin_cases[OF r] show ?thesis unfolding Let_def by (auto dest: core_fields(2) round_facts(6))
next
  case Do_Retire
  then obtain r where r: "retire env c = (r, d)" using assms(1) by (cases "retire env c") auto
  from retire_cases[OF r] show ?thesis by (auto dest: core_fields(2) simp: enter_retired_def)
next
  case (Do_Mint scope subject lifetime)
  then obtain r where r: "mint_authority env scope subject lifetime c = (r, d)"
    using assms(1) by (cases "mint_authority env scope subject lifetime c") (auto split: sum.splits)
  from mint_cases[OF r] show ?thesis by (auto dest: core_fields(2))
next
  case (Do_Revoke lease)
  then obtain r where r: "revoke_authority env lease c = (r, d)" using assms(1) by (cases "revoke_authority env lease c") auto
  from revoke_cases[OF r] show ?thesis by (auto dest: core_fields(2))
qed (use assms(2) in auto)

lemma persisted_mirrored:
  assumes "persisted env c d" "attached c" "consistent d" "ct_open d" "ct_options d = ct_options c"
    "ct_store c = Some s" "ct_store d = Some t" "durable_ok (st_state t)" "ds_sequence (st_state s) \<noteq> - 1"
  shows "mirrored d"
proof -
  obtain c1 c2 composed where p: "persist_state env composed (ct_expectations d) (ct_tokens d) (ct_revoked d) c1 = (success, c2)"
    "ct_store c1 = ct_store c" "ct_store d = ct_store c2" "ct_options c1 = ct_options d"
    "ct_incarnation c1 = ct_incarnation d" "ct_fencing c1 = ct_fencing d" "ct_admin c1 = ct_admin d"
    "ps_epoch composed = ct_epoch d" "ps_lifecycle composed = ct_lifecycle d"
    using assms(1) unfolding persisted_def by blast
  have s: "settled_store s" "st_options s = store_options_of (ct_options c)"
    using assms(2,6) by (auto simp: attached_def)
  have a: "smap_ok (ct_admin c1)" using assms(3) p(7) by (simp add: consistent_def)
  have "ct_store c1 = Some s" "ct_store c2 = Some t" using p(2,3) assms(6,7) by simp_all
  from persist_mirrors[OF this(1) s(1) p(1) this(2) assms(8,9) a]
  show ?thesis using assms(3-5,7) s(2) p by (simp add: mirrored_def reflects_def consistent_def)
qed

text \<open>
  C11: what a successful command did is on disk. Let a controller be open on a store directory that works.
  Every command that succeeds, a round of evidence, an operator override, a mint, a
  revocation or the retirement, leaves
  memory and disk equal: when the call returns, the epoch, the lifecycle, the
  recorded expectations, the tokens, the revocations, the fencing number and the overrides of
  the new state are committed and synced. The state written is representable (canonical
  identities, 64-bit times), and the number of commits has not reached its last value.
\<close>

theorem success_is_on_disk:
  assumes "attached c" "is_write k" "succeeded env k c" "execute env k c = (g, d)"
    "ct_store c = Some s" "ct_store d = Some t" "durable_ok (st_state t)" "ds_sequence (st_state s) \<noteq> - 1"
  shows "mirrored d"
proof -
  have c: "consistent c" using assms(1) by (simp add: attached_def)
  have o: "ct_options d = ct_options c" using execute_advances[OF assms(4)] by (simp add: advances_def)
  have "ct_open d = ct_open c" by (rule execute_open[OF assms(4,2)])
  then have "ct_open d" using assms(1) by (simp add: attached_def)
  then show ?thesis
    using persisted_mirrored[OF execute_persisted[OF assms(4,3) c assms(2)] assms(1) execute_consistent[OF assms(4) c] _ o assms(5-8)]
    by blast
qed

section \<open>Restarting\<close>

text \<open>The state a restarted controller writes before it answers.\<close>

definition restart_state :: "incarnation \<Rightarrow> durable_state \<Rightarrow> durable_state" where
  "restart_state born d =
     (let e = d\<lparr>ds_writer := born, ds_tokens := [], ds_last_state_digest := digest_zero\<rparr>
      in if ds_lifecycle d = Life_Retired then e
         else e\<lparr>ds_epoch := ds_epoch d + 1, ds_lifecycle := Life_Recovering\<rparr>)"

lemma admin_map_id: "smap_ok m \<Longrightarrow> admin_map m = m"
proof -
  have "smap_ok (a @ m) \<Longrightarrow> fold (\<lambda>x. smap_put (fst x) (snd x)) m a = a @ m" for a m :: "('k::linorder, 'v) smap"
  proof (induction m arbitrary: a)
    case (Cons x m)
    have "smap_put (fst x) (snd x) a = a @ [x]"
      using Cons.prems
    proof (induction a)
      case (Cons y a)
      then have "fst y < fst x" "smap_put (fst x) (snd x) a = a @ [x]" by (simp_all add: smap_ok_def)
      then show ?case by (cases y) auto
    qed (cases x; simp)
    then show ?case using Cons.IH[of "a @ [x]"] Cons.prems by simp
  qed simp
  from this[of "[]" m] show "smap_ok m \<Longrightarrow> admin_map m = m" by (simp add: admin_map_def smap_index_def)
qed

lemma open_store_settled:
  assumes "\<exists>u. store_open (en_system env (ct_ticks c)) (store_new (store_options_of (ct_options c)) (ct_files c)) = (success, u) \<and>
      P u" "ct_store c = None"
  shows "\<exists>u. P u \<and> open_store env c = (Inr (st_state u), c\<lparr>ct_ticks := Suc (ct_ticks c), ct_store := Some u,
    ct_recovery := st_recovery u, ct_durable := True\<rparr>)"
proof -
  obtain u where u: "store_open (en_system env (ct_ticks c)) (store_new (store_options_of (ct_options c)) (ct_files c)) = (success, u)" "P u"
    using assms(1) by blast
  have "open_store env c = (Inr (st_state u), c\<lparr>ct_ticks := Suc (ct_ticks c), ct_store := Some u,
    ct_recovery := st_recovery u, ct_durable := True\<rparr>)"
    using assms(2) u(1) by (simp add: open_store_def op_bind_def tick_def with_controller_def release_store_def Let_def)
  with u show ?thesis by blast
qed

lemma recover_restarts:
  assumes "ct_store c = Some u" "settled_store u" "st_state u = d" "ds_pod d = co_pod (ct_options c)" "co_pod (ct_options c) \<noteq> []"
    "ds_lifecycle d = Life_Retired \<or> ds_epoch d \<noteq> - 1" "ds_sequence d \<noteq> - 1"
    "committable (st_options u) (stamp_state (en_system env (ct_ticks c)) d (restart_state (ct_incarnation c) d))"
  shows "\<exists>t z. recover env d c = (success, z) \<and> ct_store z = Some t \<and> settled_store t \<and> st_options t = st_options u \<and>
    st_state t = stamp_state (en_system env (ct_ticks c)) d (restart_state (ct_incarnation c) d) \<and>
    z = (take_recovered d c)\<lparr>ct_store := Some t, ct_ticks := Suc (ct_ticks c), ct_epoch := ds_epoch (st_state t),
      ct_lifecycle := ds_lifecycle (st_state t)\<rparr>"
proof -
  let ?now = "en_system env (ct_ticks c)" and ?p = "restart_state (ct_incarnation c) d"
  obtain t where t: "store_commit ?now ?p u = (success, t)" "settled_store t" "st_state t = stamp_state ?now d ?p"
    "st_options t = st_options u"
    using commit_settled[OF assms(2) refl, unfolded assms(3), OF assms(7,8)] by blast
  let ?c = "take_recovered d c"
  have c: "ct_epoch ?c = ds_epoch d" "ct_lifecycle ?c = ds_lifecycle d" "ct_ticks ?c = ct_ticks c" "ct_store ?c = Some u"
    by (simp_all add: take_recovered_def assms(1))
  have n: "\<not> is_nil (ds_pod d)" using assms(4,5) by (simp add: is_nil_def)
  let ?z = "?c\<lparr>ct_store := Some t, ct_ticks := Suc (ct_ticks c), ct_epoch := ds_epoch (st_state t),
      ct_lifecycle := ds_lifecycle (st_state t)\<rparr>"
  have "recover env d c = (success, ?z)"
  proof (cases "ds_lifecycle d = Life_Retired")
    case True
    then have p: "?p = d\<lparr>ds_writer := ct_incarnation c, ds_tokens := [], ds_last_state_digest := digest_zero\<rparr>"
      by (simp add: restart_state_def Let_def)
    have "ds_epoch (st_state t) = ct_epoch ?c" "ds_lifecycle (st_state t) = ct_lifecycle ?c"
      by (simp_all add: t(3) p stamp_state_def c)
    then show ?thesis
      using True n assms(4) c t(1)
      by (simp add: recover_def with_controller_def enter_recovering_def op_bind_def tick_def on_store_def p)
  next
    case False
    have b: "sequence_next (ds_epoch d) = Inr (ds_epoch d + 1)"
      using assms(6) False seq_grows(1)[of "ds_epoch d"] unat_bound[of "ds_epoch d + 1"]
      by (simp add: sequence_next_def checked_add_Inr)
    have p: "?p = d\<lparr>ds_writer := ct_incarnation c, ds_tokens := [], ds_epoch := ds_epoch d + 1, ds_lifecycle := Life_Recovering,
        ds_last_state_digest := digest_zero\<rparr>"
      using False by (simp add: restart_state_def Let_def)
    have "ds_epoch (st_state t) = ds_epoch d + 1" "ds_lifecycle (st_state t) = Life_Recovering"
      by (simp_all add: t(3) p stamp_state_def)
    then show ?thesis
      using False n assms(4) c t(1) b
      by (simp add: recover_def with_controller_def enter_recovering_def op_bind_def tick_def on_store_def p)
  qed
  with t show ?thesis by auto
qed


definition announce_open :: "controller \<Rightarrow> controller" where
  "announce_open z = (let z = z\<lparr>ct_state := (ct_state z)\<lparr>ps_epoch := ct_epoch z, ps_lifecycle := ct_lifecycle z\<rparr>,
      ct_open := True\<rparr> in publish (mk_event Event_Recovered (ct_epoch z) (ct_incarnation z) (ct_lifecycle z) []
          ((if ct_durable z then recovery_outcome_to_string (rr_outcome (ct_recovery z))
            else ''memory-only'') @ '' fenced-leases='' @ dec_string (ct_fenced_on_restart z))) z)"

lemma controller_open_with_store:
  assumes "\<not> ct_open c" "co_pod (ct_options c) \<noteq> []" "validate_policy (co_policy (ct_options c)) = success"
    "en_entropy env (ct_ticks c) = Some bytes" "co_store_directory (ct_options c) \<noteq> []"
    "open_store env (reset_controller (uuid_stamp bytes) (c\<lparr>ct_ticks := Suc (ct_ticks c)\<rparr>)) = (Inr d, y)"
    "recover env d y = (success, z)"
  shows "controller_open env c = (success, announce_open z)"
  using assms
  by (simp add: controller_open_def with_controller_def op_bind_def op_guard_def op_return_def op_lift_def tick_def
      op_update_def op_when_def is_nil_def incarnation_fresh_def uuid_random_def announce_open_def Let_def)

lemma check_authority_incarnation:
  assumes "check_authority env t scope subject d = (Inr v, e)" "verdict_valid v"
  shows "at_incarnation t = ct_incarnation d"
proof -
  have "validate_token t k = Inr w \<Longrightarrow> av_code w = Verdict_Valid \<Longrightarrow> at_incarnation t = ac_incarnation k" for k w
    by (auto simp: validate_token_def mk_verdict_def split: if_splits)
  then show ?thesis
    using assms
    by (fastforce simp: check_authority_def tick_def with_controller_def mk_verdict_def verdict_valid_def
        dest!: bind_InrD split: if_splits)
qed

text \<open>
  C10: a restart takes up what was acknowledged and fences the authority of the predecessor. Take a
  controller whose memory is on disk (as after any successful command), let the machine crash,
  losing any part of the journal that was not synced, and open a new controller with the same
  options on the directory. It opens, and is again mirrored on disk; it has the expectations,
  the revocations, the fencing number and the overrides of the old one and no token; it knows that
  it is recovering; a retired pod stays retired at its epoch, any other pod is Recovering in
  the next epoch; and no token that another incarnation minted is valid.
\<close>

theorem restart_recovers_controller:
  assumes "mirrored c" "ct_store c = Some s" "co_pod (ct_options c) \<noteq> []"
    "co_require_authority_token (ct_options c) = po_require_authority_token (co_policy (ct_options c))"
    "en_entropy env 0 = Some bytes" "ct_lifecycle c = Life_Retired \<or> ct_epoch c \<noteq> - 1" "ds_sequence (st_state s) \<noteq> - 1"
    "committable (st_options s) (stamp_state (en_system env 2) (st_state s) (restart_state (uuid_stamp bytes) (st_state s)))"
    "controller_open env (controller_new (ct_options c) (crash_image n (st_files s))) = (r, d)"
  shows "r = success \<and> mirrored d \<and> ct_expectations d = ct_expectations c \<and> ct_revoked d = ct_revoked c \<and>
    ct_fencing d = ct_fencing c \<and> ct_admin d = ct_admin c \<and> ct_tokens d = [] \<and> ct_recovered_round d \<and>
    ct_fenced_on_restart d = length (ct_tokens c) \<and>
    (if ct_lifecycle c = Life_Retired then ct_lifecycle d = Life_Retired \<and> ct_epoch d = ct_epoch c
     else ct_lifecycle d = Life_Recovering \<and> ct_epoch d = ct_epoch c + 1) \<and>
    (\<forall>t scope subject v e. at_incarnation t \<noteq> uuid_stamp bytes \<longrightarrow>
       check_authority env t scope subject d = (Inr v, e) \<longrightarrow> \<not> verdict_valid v)"
proof -
  let ?o = "ct_options c" and ?f = "crash_image n (st_files s)" and ?born = "uuid_stamp bytes" and ?d = "st_state s"
  have m: "settled_store s" "st_options s = store_options_of ?o" "reflects c ?d" "smap_ok (ct_admin c)"
    using assms(1,2) by (auto simp: mirrored_def)
  note R = m(3)[unfolded reflects_def]
  let ?c1 = "reset_controller ?born ((controller_new ?o ?f)\<lparr>ct_ticks := 1\<rparr>)"
  have o: "ct_options (controller_new ?o ?f) = ?o" using assms(4) by (simp add: controller_new_def)
  have c1: "ct_options ?c1 = ?o" "ct_files ?c1 = ?f" "ct_store ?c1 = None" "ct_ticks ?c1 = 1" "ct_incarnation ?c1 = ?born"
    using o by (simp_all add: reset_controller_def) (simp_all add: controller_new_def)
  obtain u where u: "st_state u = ?d" "settled_store u" "st_options u = st_options s"
    "open_store env ?c1 = (Inr (st_state u), ?c1\<lparr>ct_ticks := 2, ct_store := Some u, ct_recovery := st_recovery u, ct_durable := True\<rparr>)"
    using open_store_settled[of env ?c1 "\<lambda>u. st_state u = ?d \<and> settled_store u \<and> st_options u = st_options s", unfolded c1]
      settled_survives[OF m(1), of "en_system env 1" n] by (auto simp: m(2) numeral_2_eq_2)
  let ?c2 = "?c1\<lparr>ct_ticks := 2, ct_store := Some u, ct_recovery := st_recovery u, ct_durable := True\<rparr>"
  let ?e = "stamp_state (en_system env 2) ?d (restart_state ?born ?d)"
  obtain t z where t: "recover env ?d ?c2 = (success, z)" "ct_store z = Some t" "settled_store t" "st_options t = st_options s"
    "st_state t = ?e" "z = (take_recovered ?d ?c2)\<lparr>ct_store := Some t, ct_ticks := 3, ct_epoch := ds_epoch ?e,
      ct_lifecycle := ds_lifecycle ?e\<rparr>"
    using recover_restarts[of ?c2 u ?d env] u assms(3,6-8) R c1 by (auto simp: numeral_3_eq_3 numeral_2_eq_2)
  have v: "validate_policy (co_policy ?o) = success" "co_store_directory ?o \<noteq> []"
    using m(1,2) by (simp_all add: settled_store_def store_holds_def workable_def store_options_of_def)
  have "controller_open env (controller_new ?o ?f) = (success, announce_open z)"
    by (rule controller_open_with_store[OF _ _ _ _ _ _ t(1)])
      (use o v u(1,4) assms(3,5) in \<open>simp_all add: controller_new_def\<close>)
  then have d: "r = success" "d = announce_open z" using assms(9) by simp_all
  have f: "ct_options d = ?o" "ct_open d" "ct_store d = Some t" "ct_incarnation d = ?born" "ct_epoch d = ds_epoch ?e"
    "ct_lifecycle d = ds_lifecycle ?e" "ps_epoch (ct_state d) = ds_epoch ?e" "ps_lifecycle (ct_state d) = ds_lifecycle ?e"
    "ct_expectations d = ds_expectations ?d" "ct_revoked d = ds_revoked ?d" "ct_fencing d = ds_fencing ?d"
    "ct_admin d = ds_admin ?d" "ct_tokens d = []" "ct_recovered_round d" "ct_fenced_on_restart d = length (ds_tokens ?d)"
    using c1 admin_map_id[OF m(4)] R by (simp_all add: d(2) announce_open_def t(6) publish_def take_recovered_def Let_def)
  have "mirrored d"
    using f t(3-5) m(2,4) R by (simp add: mirrored_def reflects_def stamp_state_def restart_state_def Let_def)
  moreover have "\<not> verdict_valid v" if "at_incarnation tok \<noteq> ?born" "check_authority env tok scope subject d = (Inr v, e)"
    for tok scope subject v e
    using check_authority_incarnation[OF that(2)] that(1) f(4) by auto
  ultimately show ?thesis
    using d(1) f R by (simp add: stamp_state_def restart_state_def Let_def)
qed

section \<open>A sample directory\<close>

definition sample_stored_options :: controller_options where
  "sample_stored_options = \<lparr>co_pod = ''p'', co_policy = policy_default, co_store_directory = ''pod'',
     co_require_authority_token = po_require_authority_token policy_default, co_default_lease_duration = 100,
     co_max_observers = 4\<rparr>"

definition sample_attached :: controller where
  "sample_attached = snd (controller_open sample_env (controller_new sample_stored_options sample_directory))"

lemma sample_stored_store: "store_options_of sample_stored_options = sample_options"
  by (simp add: store_options_of_def sample_stored_options_def sample_options_def)

lemma sample_attached_is:
  "sample_attached = announce_open ((reset_controller (uuid_stamp (replicate 16 1))
     ((controller_new sample_stored_options sample_directory)\<lparr>ct_ticks := 1\<rparr>))
     \<lparr>ct_ticks := 2, ct_store := Some sample_store, ct_recovery := st_recovery sample_store, ct_durable := True\<rparr>)"
proof -
  let ?c = "controller_new sample_stored_options sample_directory"
  let ?r = "reset_controller (uuid_stamp (replicate 16 1)) (?c\<lparr>ct_ticks := 1\<rparr>)"
  have o: "ct_options ?c = sample_stored_options" by (simp add: controller_new_def sample_stored_options_def)
  have v: "validate_policy (co_policy sample_stored_options) = success"
    using sample_options_workable by (simp add: workable_def sample_options_def sample_stored_options_def)
  have "ct_options ?r = sample_stored_options" "ct_ticks ?r = 1" "ct_files ?r = sample_directory" "ct_store ?r = None"
    using o by (simp_all add: reset_controller_def) (simp_all add: controller_new_def)
  moreover have "\<exists>u. store_open 1 (store_new sample_options sample_directory) = (success, u) \<and> u = sample_store"
    using open_settled_empty[OF sample_options_workable _ sample_directory_empty, of 1]
    by (auto simp: sample_store_def sample_options_def)
  ultimately have s: "open_store sample_env ?r = (Inr durable_default,
      ?r\<lparr>ct_ticks := 2, ct_store := Some sample_store, ct_recovery := st_recovery sample_store, ct_durable := True\<rparr>)"
    using open_store_settled[of sample_env ?r "\<lambda>u. u = sample_store"]
    by (simp add: sample_stored_store sample_env_def sample_store_settled(2) numeral_2_eq_2)
  have "controller_open sample_env ?c = (success, announce_open
      (?r\<lparr>ct_ticks := 2, ct_store := Some sample_store, ct_recovery := st_recovery sample_store, ct_durable := True\<rparr>))"
    by (rule controller_open_with_store[of _ _ "replicate 16 1" durable_default])
      (use o v s in \<open>simp_all add: controller_new_def sample_stored_options_def sample_env_def recover_def with_controller_def
         is_nil_def durable_default_def op_return_def\<close>)
  then show ?thesis by (simp add: sample_attached_def)
qed

lemma sample_attached_facts:
  "ct_open sample_attached" "ct_options sample_attached = sample_stored_options" "ct_store sample_attached = Some sample_store"
  "ct_ticks sample_attached = 2" "ct_incarnation sample_attached = uuid_stamp (replicate 16 1)" "ct_epoch sample_attached = 0"
  "ct_lifecycle sample_attached = Life_Constructing" "ct_expectations sample_attached = []" "ct_tokens sample_attached = []"
  "ct_revoked sample_attached = []" "ct_fencing sample_attached = 0" "ct_admin sample_attached = []"
  "ps_epoch (ct_state sample_attached) = 0" "ps_lifecycle (ct_state sample_attached) = Life_Constructing"
  "ct_last_evidence sample_attached = None" "ps_state_digest (ct_state sample_attached) = replicate 32 0"
  by (simp_all add: sample_attached_is announce_open_def reset_controller_def controller_new_def sample_stored_options_def
      publish_def pod_state_default_def digest_zero_def)

definition sample_written :: "sequence \<Rightarrow> lifecycle_state \<Rightarrow> u64 \<Rightarrow> uuid \<Rightarrow> durable_state" where
  "sample_written epoch l number born = durable_default\<lparr>ds_pod := ''p'', ds_epoch := epoch, ds_writer := born, ds_lifecycle := l,
     ds_admin := [(''b'', Admin_Maintenance)], ds_sequence := number, ds_written_at := 1002\<rparr>"

lemma sample_written_committable:
  assumes "length born = 16"
  shows "committable sample_options (sample_written epoch l number born)"
proof -
  have u: "is_valid_utf8 ''p'' \<and> is_valid_utf8 ''b''" by code_simp
  have i: "id_ok ''p''" unfolding id_ok_def by code_simp
  have "\<exists>bs. encode_durable (sample_written epoch l number born) = Inr bs \<and> length bs \<le> 1000"
    using u assms unfolding sample_written_def encode_durable_def encode_whole_def durable_default_def
    by (simp add: put_durable_def put_durable_body_def put_list_def put_count_def
        put_typed_id_def put_id_def put_string_def put_expectation_def put_admin_def put_u8_def
        put_u16_def put_u32_def put_u64_def put_i64_def put_enum_def put_raw_def put_bytes_def
        put_uuid_def put_digest_def writer_reserve_def writer_store_def op_bind_def op_return_def
        writer_new_def Let_def default_limits_def be_bytes_eq)
  moreover have "durable_ok (sample_written epoch l number born)"
    using i assms sample_durable_ok
    by (simp add: sample_durable_def sample_written_def durable_ok_def durable_rep_def durable_body_ok_def durable_settled_def
        durable_default_def time_ok_def uuid_ok_def list_ok_def)
  ultimately show ?thesis
    by (auto simp: committable_def record_limit_def sample_options_def policy_default_def journal_hard_max_record_def)
qed


abbreviation sample_override :: command where
  "sample_override \<equiv> Do_SetAdmin ''b'' Admin_Maintenance"

lemma sample_override_runs:
  "\<exists>d t. execute sample_env sample_override sample_attached = ([], d) \<and> succeeded sample_env sample_override sample_attached \<and>
     ct_store d = Some t \<and> settled_store t \<and> st_options t = sample_options \<and>
     st_state t = sample_written 0 Life_Constructing 1 (uuid_stamp (replicate 16 1)) \<and>
     core d = core (sample_attached\<lparr>ct_admin := [(''b'', Admin_Maintenance)]\<rparr>)"
proof -
  let ?c = "sample_attached\<lparr>ct_staged := [], ct_admin := [(''b'', Admin_Maintenance)]\<rparr>"
  let ?w = "sample_written 0 Life_Constructing 1 (uuid_stamp (replicate 16 1))"
  note f = sample_attached_facts
  let ?p = "durable_of ?c 1002 (ct_state ?c) [] [] []"
  have p: "stamp_state 1 durable_default ?p = ?w"
    using f by (simp add: stamp_state_def durable_of_def sample_written_def durable_default_def
        sample_stored_options_def)
  obtain t where t: "store_commit 1 ?p sample_store = (success, t)" "settled_store t" "st_state t = ?w" "st_options t = sample_options"
    using commit_settled[OF sample_store_settled(1) refl, unfolded sample_store_settled(2,3), of 1 ?p] p
      sample_written_committable[of "uuid_stamp (replicate 16 1)" 0 Life_Constructing 1]
    by (auto simp: durable_default_def uuid_stamp_def Let_def)
  let ?d = "?c\<lparr>ct_ticks := 4, ct_store := Some t, ct_recovered_round := False, ct_ambiguous_commit := False,
    ct_restart_epoch_pending := False\<rparr>"
  have "persist_state sample_env (ct_state ?c) [] [] [] ?c = (success, ?d)"
    using f t(1) by (simp add: persist_state_def with_controller_def op_bind_def tick_def on_store_def op_update_def
        sample_env_def eval_nat_numeral)
  then have "set_admin_state sample_env ''b'' Admin_Maintenance sample_attached =
      (success, flush_events (snd (announce Event_AdminStateChanged ''b'' (admin_to_string Admin_Maintenance) ?d)))"
    using f by (simp add: set_admin_state_def publishing_def need_open_def op_guard_def op_bind_def op_return_def
        with_controller_def is_nil_def op_update_def recompose_def announce_def stage_def)
  moreover have "core ?d = core (sample_attached\<lparr>ct_admin := [(''b'', Admin_Maintenance)]\<rparr>)" by (simp add: core_def)
  moreover obtain e where "announce Event_AdminStateChanged ''b'' (admin_to_string Admin_Maintenance) ?d = (success, e)"
    "core e = core ?d" "ct_store e = Some t"
    by (auto simp: announce_def with_controller_def stage_def op_update_def core_def)
  ultimately show ?thesis using t(2-4) by simp
qed

text \<open>
  An operator puts rack b into maintenance on a fresh pod: the override is on disk.
\<close>

theorem success_is_on_disk_witness:
  "mirrored (snd (execute sample_env sample_override sample_attached))"
proof -
  obtain d t where d: "execute sample_env sample_override sample_attached = ([], d)"
    "succeeded sample_env sample_override sample_attached" "ct_store d = Some t"
    "st_state t = sample_written 0 Life_Constructing 1 (uuid_stamp (replicate 16 1))"
    using sample_override_runs by blast
  have "attached sample_attached"
    using sample_attached_facts sample_store_settled sample_stored_store
    by (simp add: attached_def consistent_def smap_ok_def)
  moreover have "durable_ok (st_state t)"
    using sample_written_committable[of "uuid_stamp (replicate 16 1)"] d(4)
    by (simp add: committable_def uuid_stamp_def Let_def)
  moreover have "ds_sequence (st_state sample_store) \<noteq> - 1"
    by (simp add: sample_store_settled durable_default_def)
  ultimately have "mirrored d"
    using success_is_on_disk[OF _ _ d(2,1) sample_attached_facts(3) d(3)] by simp
  then show ?thesis unfolding d(1) by simp
qed

text \<open>
  The machine then crashes, and a controller with another incarnation opens the directory.
\<close>

definition sample_restart_env :: environment where
  "sample_restart_env = sample_env\<lparr>en_entropy := (\<lambda>n. Some (replicate 16 2))\<rparr>"

theorem restart_recovers_controller_witness:
  "case ct_store (snd (execute sample_env sample_override sample_attached)) of None \<Rightarrow> False
   | Some s \<Rightarrow> (case controller_open sample_restart_env (controller_new sample_stored_options (crash_image 3 (st_files s))) of
       (r, d) \<Rightarrow> r = success \<and> mirrored d \<and> ct_admin d = [(''b'', Admin_Maintenance)] \<and>
         ct_lifecycle d = Life_Recovering \<and> ct_epoch d = 1)"
proof -
  obtain c s where c: "execute sample_env sample_override sample_attached = ([], c)" "ct_store c = Some s" "settled_store s"
    "st_options s = sample_options" "st_state s = sample_written 0 Life_Constructing 1 (uuid_stamp (replicate 16 1))"
    "core c = core (sample_attached\<lparr>ct_admin := [(''b'', Admin_Maintenance)]\<rparr>)"
    using sample_override_runs by blast
  note f = sample_attached_facts
  have k: "ct_options c = sample_stored_options" "ct_open c" "ct_incarnation c = uuid_stamp (replicate 16 1)" "ct_epoch c = 0"
    "ct_lifecycle c = Life_Constructing" "ct_expectations c = []" "ct_tokens c = []"
    "ct_revoked c = []" "ct_fencing c = 0" "ct_admin c = [(''b'', Admin_Maintenance)]"
    "ps_epoch (ct_state c) = 0" "ps_lifecycle (ct_state c) = Life_Constructing"
    using core_fields[OF c(6)] f by simp_all
  have m: "mirrored c"
    using k c(2-5) sample_stored_store
    by (simp add: mirrored_def reflects_def smap_ok_def sample_written_def durable_default_def)
      (simp add: sample_stored_options_def)
  have o: "co_pod (ct_options c) \<noteq> []"
    "co_require_authority_token (ct_options c) = po_require_authority_token (co_policy (ct_options c))"
    by (simp_all add: k sample_stored_options_def)
  have "stamp_state (en_system sample_restart_env 2) (st_state s) (restart_state (uuid_stamp (replicate 16 2)) (st_state s)) =
      sample_written 1 Life_Recovering 2 (uuid_stamp (replicate 16 2))"
    by (simp add: c(5) sample_written_def stamp_state_def restart_state_def durable_default_def digest_zero_def Let_def)
  then have e: "committable (st_options s) (stamp_state (en_system sample_restart_env 2) (st_state s)
      (restart_state (uuid_stamp (replicate 16 2)) (st_state s)))"
    using sample_written_committable[of "uuid_stamp (replicate 16 2)"] by (simp add: c(4) uuid_stamp_def Let_def)
  obtain r d where d: "controller_open sample_restart_env (controller_new (ct_options c) (crash_image 3 (st_files s))) = (r, d)"
    by force
  have "en_entropy sample_restart_env 0 = Some (replicate 16 2)" "ds_sequence (st_state s) \<noteq> - 1"
    by (simp_all add: sample_restart_env_def c(5) sample_written_def)
  from restart_recovers_controller[OF m c(2) o this(1) _ this(2) e d] show ?thesis
    using k d c(2) unfolding c(1) by simp
qed

end
