(* ===== verification/Pool.thy ===== *)
theory Pool
  imports "HOL-Library.Multiset"
begin

text \<open>
  The threads of the server: \<open>start\<close>, \<open>accept_loop\<close>, \<open>worker_loop\<close> and \<open>stop\<close> of
  \<open>control/server.cpp\<close>. One acceptor and the workers share the queue of accepted connections under one
  mutex and one condition variable. A step is one access to the shared state by one thread; which
  thread moves is not determined. A wait is four points: taking the lock, testing the condition,
  being about to block with the lock still held, and asleep. The condition variable wakes a
  thread only when it is notified (the standard allows other wake-ups and promises none).
  Connections are numbered in the order in which they are accepted.
\<close>

section \<open>Threads\<close>

datatype acceptor =
    Acc_Check | Acc_Accept | Acc_Lock nat | Acc_Test nat | Acc_Block nat | Acc_Asleep nat
  | Acc_Push nat | Acc_Notify | Acc_Exited

datatype worker =
    Wk_Lock | Wk_Test | Wk_Block | Wk_Asleep | Wk_Take | Wk_Notify nat | Wk_Serve nat | Wk_Shut nat | Wk_Exited

datatype stopper = Stop_Idle | Stop_Stored | Stop_Joining | Stop_Done

text \<open>\<open>pl_next\<close> connections were accepted, and \<open>pl_closed\<close> are the ones that were closed again.\<close>

record pool =
  pl_max :: nat
  pl_stopping :: bool
  pl_lock :: bool
  pl_queue :: "nat list"
  pl_acceptor :: acceptor
  pl_workers :: "worker list"
  pl_stopper :: stopper
  pl_next :: nat
  pl_closed :: "nat list"

definition pool_start :: "nat \<Rightarrow> nat \<Rightarrow> pool" where
  "pool_start workers max_pending =
     \<lparr>pl_max = max_pending, pl_stopping = False, pl_lock = False, pl_queue = [], pl_acceptor = Acc_Check,
      pl_workers = replicate workers Wk_Lock, pl_stopper = Stop_Idle, pl_next = 0, pl_closed = []\<rparr>"

section \<open>Notifications\<close>

fun wake_acceptor :: "acceptor \<Rightarrow> acceptor" where
  "wake_acceptor (Acc_Asleep c) = Acc_Lock c"
| "wake_acceptor a = a"

fun wake_worker :: "worker \<Rightarrow> worker" where
  "wake_worker Wk_Asleep = Wk_Lock"
| "wake_worker w = w"

definition notify_all :: "pool \<Rightarrow> pool" where
  "notify_all p = p\<lparr>pl_acceptor := wake_acceptor (pl_acceptor p), pl_workers := map wake_worker (pl_workers p)\<rparr>"

text \<open>The acceptor notifies one thread; it is awake itself.\<close>

inductive notify_one :: "pool \<Rightarrow> pool \<Rightarrow> bool" where
  one_worker: "i < length (pl_workers p) \<Longrightarrow> pl_workers p ! i = Wk_Asleep \<Longrightarrow>
    notify_one p (p\<lparr>pl_workers := (pl_workers p)[i := Wk_Lock]\<rparr>)"
| nobody: "Wk_Asleep \<notin> set (pl_workers p) \<Longrightarrow> notify_one p p"

section \<open>Steps\<close>

definition set_worker :: "nat \<Rightarrow> worker \<Rightarrow> pool \<Rightarrow> pool" where
  "set_worker i w p = p\<lparr>pl_workers := (pl_workers p)[i := w]\<rparr>"

definition close_connection :: "nat \<Rightarrow> pool \<Rightarrow> pool" where
  "close_connection c p = p\<lparr>pl_closed := pl_closed p @ [c]\<rparr>"

text \<open>\<open>accept_loop\<close>\<close>

inductive acceptor_step :: "pool \<Rightarrow> pool \<Rightarrow> bool" where
  acc_stop: "pl_acceptor p = Acc_Check \<Longrightarrow> pl_stopping p \<Longrightarrow>
    acceptor_step p (p\<lparr>pl_acceptor := Acc_Exited\<rparr>)"
| acc_go: "pl_acceptor p = Acc_Check \<Longrightarrow> \<not> pl_stopping p \<Longrightarrow>
    acceptor_step p (p\<lparr>pl_acceptor := Acc_Accept\<rparr>)"
| acc_nothing: "pl_acceptor p = Acc_Accept \<Longrightarrow> acceptor_step p (p\<lparr>pl_acceptor := Acc_Check\<rparr>)"
| acc_accepted: "pl_acceptor p = Acc_Accept \<Longrightarrow>
    acceptor_step p (p\<lparr>pl_acceptor := Acc_Lock (pl_next p), pl_next := Suc (pl_next p)\<rparr>)"
| acc_lock: "pl_acceptor p = Acc_Lock c \<Longrightarrow> \<not> pl_lock p \<Longrightarrow>
    acceptor_step p (p\<lparr>pl_acceptor := Acc_Test c, pl_lock := True\<rparr>)"
| acc_pass: "pl_acceptor p = Acc_Test c \<Longrightarrow> pl_stopping p \<or> length (pl_queue p) < pl_max p \<Longrightarrow>
    acceptor_step p (p\<lparr>pl_acceptor := Acc_Push c\<rparr>)"
| acc_wait: "pl_acceptor p = Acc_Test c \<Longrightarrow> \<not> (pl_stopping p \<or> length (pl_queue p) < pl_max p) \<Longrightarrow>
    acceptor_step p (p\<lparr>pl_acceptor := Acc_Block c\<rparr>)"
| acc_block: "pl_acceptor p = Acc_Block c \<Longrightarrow>
    acceptor_step p (p\<lparr>pl_acceptor := Acc_Asleep c, pl_lock := False\<rparr>)"
| acc_drop: "pl_acceptor p = Acc_Push c \<Longrightarrow> pl_stopping p \<Longrightarrow>
    acceptor_step p (close_connection c (p\<lparr>pl_acceptor := Acc_Exited, pl_lock := False\<rparr>))"
| acc_push: "pl_acceptor p = Acc_Push c \<Longrightarrow> \<not> pl_stopping p \<Longrightarrow>
    acceptor_step p (p\<lparr>pl_acceptor := Acc_Notify, pl_lock := False, pl_queue := pl_queue p @ [c]\<rparr>)"
| acc_notify: "pl_acceptor p = Acc_Notify \<Longrightarrow> notify_one p q \<Longrightarrow>
    acceptor_step p (q\<lparr>pl_acceptor := Acc_Check\<rparr>)"

text \<open>\<open>worker_loop\<close>, and the end of \<open>serve\<close>, which may be a request to shut down\<close>

inductive worker_step :: "nat \<Rightarrow> pool \<Rightarrow> pool \<Rightarrow> bool" for i where
  wk_lock: "pl_workers p ! i = Wk_Lock \<Longrightarrow> \<not> pl_lock p \<Longrightarrow>
    worker_step i p (set_worker i Wk_Test (p\<lparr>pl_lock := True\<rparr>))"
| wk_pass: "pl_workers p ! i = Wk_Test \<Longrightarrow> pl_stopping p \<or> pl_queue p \<noteq> [] \<Longrightarrow>
    worker_step i p (set_worker i Wk_Take p)"
| wk_wait: "pl_workers p ! i = Wk_Test \<Longrightarrow> \<not> (pl_stopping p \<or> pl_queue p \<noteq> []) \<Longrightarrow>
    worker_step i p (set_worker i Wk_Block p)"
| wk_block: "pl_workers p ! i = Wk_Block \<Longrightarrow>
    worker_step i p (set_worker i Wk_Asleep (p\<lparr>pl_lock := False\<rparr>))"
| wk_exit: "pl_workers p ! i = Wk_Take \<Longrightarrow> pl_queue p = [] \<Longrightarrow> pl_stopping p \<Longrightarrow>
    worker_step i p (set_worker i Wk_Exited (p\<lparr>pl_lock := False\<rparr>))"
| wk_again: "pl_workers p ! i = Wk_Take \<Longrightarrow> pl_queue p = [] \<Longrightarrow> \<not> pl_stopping p \<Longrightarrow>
    worker_step i p (set_worker i Wk_Lock (p\<lparr>pl_lock := False\<rparr>))"
| wk_take: "pl_workers p ! i = Wk_Take \<Longrightarrow> pl_queue p = c # rest \<Longrightarrow>
    worker_step i p (set_worker i (Wk_Notify c) (p\<lparr>pl_lock := False, pl_queue := rest\<rparr>))"
| wk_notify: "pl_workers p ! i = Wk_Notify c \<Longrightarrow>
    worker_step i p (set_worker i (Wk_Serve c) (notify_all p))"
| wk_served: "pl_workers p ! i = Wk_Serve c \<Longrightarrow>
    worker_step i p (set_worker i Wk_Lock (close_connection c p))"
| wk_shutdown: "pl_workers p ! i = Wk_Serve c \<Longrightarrow>
    worker_step i p (set_worker i (Wk_Shut c) (p\<lparr>pl_stopping := True\<rparr>))"
| wk_shut: "pl_workers p ! i = Wk_Shut c \<Longrightarrow>
    worker_step i p (set_worker i Wk_Lock (close_connection c (notify_all p)))"

text \<open>\<open>stop\<close>: the flag is stored without the mutex, everyone is notified, the threads are joined, and
  what is left in the queue is closed.\<close>

inductive stopper_step :: "pool \<Rightarrow> pool \<Rightarrow> bool" where
  stop_store: "pl_stopper p = Stop_Idle \<Longrightarrow>
    stopper_step p (p\<lparr>pl_stopper := Stop_Stored, pl_stopping := True\<rparr>)"
| stop_notify: "pl_stopper p = Stop_Stored \<Longrightarrow>
    stopper_step p ((notify_all p)\<lparr>pl_stopper := Stop_Joining\<rparr>)"
| stop_finish: "pl_stopper p = Stop_Joining \<Longrightarrow> pl_acceptor p = Acc_Exited \<Longrightarrow>
    set (pl_workers p) \<subseteq> {Wk_Exited} \<Longrightarrow>
    stopper_step p (p\<lparr>pl_stopper := Stop_Done, pl_closed := pl_closed p @ pl_queue p, pl_queue := []\<rparr>)"

inductive pool_step :: "pool \<Rightarrow> pool \<Rightarrow> bool" where
  by_acceptor: "acceptor_step p q \<Longrightarrow> pool_step p q"
| by_worker: "i < length (pl_workers p) \<Longrightarrow> worker_step i p q \<Longrightarrow> pool_step p q"
| by_stopper: "stopper_step p q \<Longrightarrow> pool_step p q"

inductive pool_reachable :: "nat \<Rightarrow> nat \<Rightarrow> pool \<Rightarrow> bool" for workers max_pending where
  pool_started: "pool_reachable workers max_pending (pool_start workers max_pending)"
| pool_moved: "pool_reachable workers max_pending p \<Longrightarrow> pool_step p q \<Longrightarrow> pool_reachable workers max_pending q"

fun pool_run :: "pool \<Rightarrow> pool list \<Rightarrow> bool" where
  "pool_run p [] = True"
| "pool_run p (q # qs) \<longleftrightarrow> pool_step p q \<and> pool_run q qs"

section \<open>Where a connection is, and who holds the lock\<close>

fun acceptor_has :: "acceptor \<Rightarrow> nat multiset" where
  "acceptor_has (Acc_Lock c) = {#c#}"
| "acceptor_has (Acc_Test c) = {#c#}"
| "acceptor_has (Acc_Block c) = {#c#}"
| "acceptor_has (Acc_Asleep c) = {#c#}"
| "acceptor_has (Acc_Push c) = {#c#}"
| "acceptor_has a = {#}"

fun worker_has :: "worker \<Rightarrow> nat multiset" where
  "worker_has (Wk_Notify c) = {#c#}"
| "worker_has (Wk_Serve c) = {#c#}"
| "worker_has (Wk_Shut c) = {#c#}"
| "worker_has w = {#}"

definition connections :: "pool \<Rightarrow> nat multiset" where
  "connections p = acceptor_has (pl_acceptor p) + mset (pl_queue p) + sum_list (map worker_has (pl_workers p)) +
     mset (pl_closed p)"

fun acceptor_holds :: "acceptor \<Rightarrow> nat" where
  "acceptor_holds (Acc_Test c) = 1"
| "acceptor_holds (Acc_Block c) = 1"
| "acceptor_holds (Acc_Push c) = 1"
| "acceptor_holds a = 0"

fun worker_holds :: "worker \<Rightarrow> nat" where
  "worker_holds Wk_Test = 1"
| "worker_holds Wk_Block = 1"
| "worker_holds Wk_Take = 1"
| "worker_holds w = 0"

definition holders :: "pool \<Rightarrow> nat" where
  "holders p = acceptor_holds (pl_acceptor p) + sum_list (map worker_holds (pl_workers p))"

definition pool_inv :: "nat \<Rightarrow> nat \<Rightarrow> pool \<Rightarrow> bool" where
  "pool_inv n m p \<longleftrightarrow>
     pl_max p = m \<and> length (pl_workers p) = n \<and> length (pl_queue p) \<le> m \<and>
     holders p = (if pl_lock p then 1 else 0) \<and> connections p = mset [0..<pl_next p] \<and>
     (\<forall>c. pl_acceptor p = Acc_Push c \<longrightarrow> pl_stopping p \<or> length (pl_queue p) < m) \<and>
     (pl_acceptor p = Acc_Exited \<or> Wk_Exited \<in> set (pl_workers p) \<or> pl_stopper p \<noteq> Stop_Idle \<longrightarrow> pl_stopping p) \<and>
     (pl_stopper p = Stop_Done \<longrightarrow> pl_queue p = [] \<and> pl_acceptor p = Acc_Exited \<and> set (pl_workers p) \<subseteq> {Wk_Exited})"

text \<open>Replacing one element of a list exchanges its share of the sum.\<close>

lemma sum_exchange:
  fixes f :: "'a \<Rightarrow> 'b::comm_monoid_add"
  shows "i < length xs \<Longrightarrow> sum_list (map f (xs[i := y])) + f (xs ! i) = sum_list (map f xs) + f y"
proof (induction xs arbitrary: i)
  case (Cons x xs)
  then show ?case by (cases i) (auto simp: ac_simps)
qed simp

lemma sum_exchange_nat:
  fixes f :: "'a \<Rightarrow> nat"
  shows "i < length xs \<Longrightarrow> sum_list (map f (xs[i := y])) = sum_list (map f xs) + f y - f (xs ! i)"
  using sum_exchange[of i xs f y] by simp

lemma sum_exchange_mset:
  fixes f :: "'a \<Rightarrow> 'c multiset"
  shows "i < length xs \<Longrightarrow> sum_list (map f (xs[i := y])) = sum_list (map f xs) + f y - f (xs ! i)"
  using sum_exchange[of i xs f y] by (metis add_diff_cancel_right')

lemma share_nat: "i < length xs \<Longrightarrow> f (xs ! i) \<le> sum_list (map f xs)" for f :: "'a \<Rightarrow> nat"
  by (induction xs arbitrary: i) (auto simp: nth_Cons' intro: trans_le_add2)

lemma wake_worker_same [simp]: "worker_has (wake_worker w) = worker_has w" "worker_holds (wake_worker w) = worker_holds w"
  "wake_worker w = Wk_Exited \<longleftrightarrow> w = Wk_Exited" "Wk_Exited = wake_worker w \<longleftrightarrow> w = Wk_Exited"
  by (cases w; simp)+

lemma wake_acceptor_same [simp]: "acceptor_has (wake_acceptor a) = acceptor_has a"
  "acceptor_holds (wake_acceptor a) = acceptor_holds a"
  "wake_acceptor a = Acc_Push c \<longleftrightarrow> a = Acc_Push c" "wake_acceptor a = Acc_Exited \<longleftrightarrow> a = Acc_Exited"
  by (cases a; simp)+

lemma wake_maps [simp]: "worker_has \<circ> wake_worker = worker_has" "worker_holds \<circ> wake_worker = worker_holds"
  "Wk_Exited \<in> set (map wake_worker ws) \<longleftrightarrow> Wk_Exited \<in> set ws"
  by auto


lemma pool_sums:
  assumes "i < length (pl_workers p)"
  shows "holders (set_worker i w p) + worker_holds (pl_workers p ! i) = holders p + worker_holds w"
    "connections (set_worker i w p) + worker_has (pl_workers p ! i) = connections p + worker_has w"
  using sum_exchange[OF assms, of worker_holds w] sum_exchange[OF assms, of worker_has w]
  by (simp_all add: holders_def connections_def set_worker_def ac_simps)

lemma notify_all_same [simp]:
  "pl_max (notify_all p) = pl_max p" "pl_stopping (notify_all p) = pl_stopping p" "pl_lock (notify_all p) = pl_lock p"
  "pl_queue (notify_all p) = pl_queue p" "pl_stopper (notify_all p) = pl_stopper p" "pl_next (notify_all p) = pl_next p"
  "pl_closed (notify_all p) = pl_closed p" "length (pl_workers (notify_all p)) = length (pl_workers p)"
  "holders (notify_all p) = holders p" "connections (notify_all p) = connections p"
  "pl_acceptor (notify_all p) = wake_acceptor (pl_acceptor p)"
  "pl_workers (notify_all p) = map wake_worker (pl_workers p)"
  by (simp_all add: notify_all_def holders_def connections_def)

lemma set_worker_same [simp]:
  "pl_max (set_worker i w p) = pl_max p" "pl_stopping (set_worker i w p) = pl_stopping p" "pl_lock (set_worker i w p) = pl_lock p"
  "pl_queue (set_worker i w p) = pl_queue p" "pl_stopper (set_worker i w p) = pl_stopper p" "pl_next (set_worker i w p) = pl_next p"
  "pl_closed (set_worker i w p) = pl_closed p" "pl_acceptor (set_worker i w p) = pl_acceptor p"
  "pl_workers (set_worker i w p) = (pl_workers p)[i := w]"
  by (simp_all add: set_worker_def)

lemma close_same [simp]:
  "pl_max (close_connection c p) = pl_max p" "pl_stopping (close_connection c p) = pl_stopping p"
  "pl_lock (close_connection c p) = pl_lock p" "pl_queue (close_connection c p) = pl_queue p"
  "pl_stopper (close_connection c p) = pl_stopper p" "pl_next (close_connection c p) = pl_next p"
  "pl_acceptor (close_connection c p) = pl_acceptor p" "pl_workers (close_connection c p) = pl_workers p"
  "holders (close_connection c p) = holders p" "connections (close_connection c p) = add_mset c (connections p)"
  by (simp_all add: close_connection_def holders_def connections_def)

lemma exited_update: "Wk_Exited \<in> set (ws[i := w]) \<Longrightarrow> w = Wk_Exited \<or> Wk_Exited \<in> set ws"
  using set_update_subset_insert[of ws i w] by auto

lemma acceptor_step_inv: "acceptor_step p q \<Longrightarrow> pool_inv n m p \<Longrightarrow> pool_inv n m q"
proof (induction rule: acceptor_step.induct)
  case (acc_notify p q)
  from acc_notify(2) show ?case
  proof cases
    case (one_worker i)
    have h: "holders q = holders p" "connections q = connections p"
      using pool_sums[OF one_worker(2), of Wk_Lock] one_worker(1,3) by (simp_all add: set_worker_def)
    have "holders (q\<lparr>pl_acceptor := Acc_Check\<rparr>) = holders q" "connections (q\<lparr>pl_acceptor := Acc_Check\<rparr>) = connections q"
      using acc_notify(1) one_worker(1) by (simp_all add: holders_def connections_def)
    then show ?thesis
      using acc_notify(1,3) one_worker(1) h by (auto simp: pool_inv_def dest!: exited_update)
  next
    case nobody
    then show ?thesis using acc_notify by (auto simp: pool_inv_def holders_def connections_def)
  qed
qed (auto simp: pool_inv_def holders_def connections_def close_connection_def split: if_splits)

lemma worker_step_inv:
  assumes "worker_step i p q" "i < length (pl_workers p)" "pool_inv n m p"
  shows "pool_inv n m q"
proof -
  have final: "pl_stopper p = Stop_Done \<Longrightarrow> pl_workers p ! i = Wk_Exited"
    using assms(3) nth_mem[OF assms(2)] unfolding pool_inv_def by blast
  have l: "worker_holds (pl_workers p ! i) \<le> holders p"
    using share_nat[OF assms(2), of worker_holds] by (simp add: holders_def)
  have h: "holders (set_worker i w r) + worker_holds (pl_workers p ! i) = holders p + worker_holds w"
    if "pl_acceptor r = pl_acceptor p" "pl_workers r = pl_workers p" for r w
    using pool_sums(1)[of i r w] assms(2) that by (simp add: holders_def)
  have c: "connections (set_worker i w r) + worker_has (pl_workers p ! i) + mset (pl_queue p) + mset (pl_closed p) =
      connections p + worker_has w + mset (pl_queue r) + mset (pl_closed r)"
    if "pl_acceptor r = pl_acceptor p" "pl_workers r = pl_workers p" for r w
    using pool_sums(2)[of i r w] assms(2) that by (simp add: connections_def ac_simps)
  from assms(1) show ?thesis
  proof cases
    case wk_lock
    then show ?thesis using assms(2,3) final h[of "p\<lparr>pl_lock := True\<rparr>" Wk_Test] c[of "p\<lparr>pl_lock := True\<rparr>" Wk_Test]
      by (auto simp: pool_inv_def dest!: exited_update)
  next
    case wk_pass
    then show ?thesis using assms(2,3) final h[of p Wk_Take] c[of p Wk_Take]
      by (auto simp: pool_inv_def dest!: exited_update)
  next
    case wk_wait
    then show ?thesis using assms(2,3) final h[of p Wk_Block] c[of p Wk_Block]
      by (auto simp: pool_inv_def dest!: exited_update)
  next
    case wk_block
    then show ?thesis using assms(2,3) final l h[of "p\<lparr>pl_lock := False\<rparr>" Wk_Asleep] c[of "p\<lparr>pl_lock := False\<rparr>" Wk_Asleep]
      by (auto simp: pool_inv_def dest!: exited_update split: if_splits)
  next
    case wk_exit
    then show ?thesis using assms(2,3) final l h[of "p\<lparr>pl_lock := False\<rparr>" Wk_Exited] c[of "p\<lparr>pl_lock := False\<rparr>" Wk_Exited]
      by (auto simp: pool_inv_def split: if_splits)
  next
    case wk_again
    then show ?thesis using assms(2,3) final l h[of "p\<lparr>pl_lock := False\<rparr>" Wk_Lock] c[of "p\<lparr>pl_lock := False\<rparr>" Wk_Lock]
      by (auto simp: pool_inv_def dest!: exited_update split: if_splits)
  next
    case (wk_take k rest)
    then show ?thesis using assms(2,3) final l h[of "p\<lparr>pl_lock := False, pl_queue := rest\<rparr>" "Wk_Notify k"]
        c[of "p\<lparr>pl_lock := False, pl_queue := rest\<rparr>" "Wk_Notify k"]
      by (auto simp: pool_inv_def dest!: exited_update split: if_splits)
  next
    case (wk_served k)
    then show ?thesis using assms(2,3) final h[of "close_connection k p" Wk_Lock] c[of "close_connection k p" Wk_Lock]
      by (auto simp: pool_inv_def close_connection_def dest!: exited_update)
  next
    case (wk_shutdown k)
    then show ?thesis using assms(2,3) final h[of "p\<lparr>pl_stopping := True\<rparr>" "Wk_Shut k"] c[of "p\<lparr>pl_stopping := True\<rparr>" "Wk_Shut k"]
      by (auto simp: pool_inv_def dest!: exited_update)
  next
    case (wk_notify k)
    have i: "i < length (pl_workers (notify_all p))" using assms(2) by simp
    show ?thesis using wk_notify assms(2,3) final pool_sums[OF i, of "Wk_Serve k"]
      by (auto simp: pool_inv_def dest!: exited_update)
  next
    case (wk_shut k)
    have i: "i < length (pl_workers (close_connection k (notify_all p)))" using assms(2) by simp
    show ?thesis using wk_shut assms(2,3) final pool_sums[OF i, of Wk_Lock]
      by (auto simp: pool_inv_def dest!: exited_update)
  qed
qed

lemma stopper_step_inv: "stopper_step p q \<Longrightarrow> pool_inv n m p \<Longrightarrow> pool_inv n m q"
  by (induction rule: stopper_step.induct)
    (auto simp: pool_inv_def holders_def connections_def ac_simps split: if_splits)

lemma pool_step_inv: "pool_step p q \<Longrightarrow> pool_inv n m p \<Longrightarrow> pool_inv n m q"
  by (induction rule: pool_step.induct) (blast intro: acceptor_step_inv worker_step_inv stopper_step_inv)+

lemma pool_start_inv: "pool_inv n m (pool_start n m)"
proof -
  have "sum_list (replicate n {#}) = ({#} :: nat multiset)" by (induction n) simp_all
  then show ?thesis by (simp add: pool_inv_def pool_start_def holders_def connections_def sum_list_replicate)
qed

lemma pool_reachable_inv: "pool_reachable n m p \<Longrightarrow> pool_inv n m p"
  by (induction rule: pool_reachable.induct) (auto intro: pool_start_inv pool_step_inv)


section \<open>What the threads guarantee\<close>

text \<open>
  C15: the pool neither loses nor duplicates a connection. In every state the threads can reach,
  whatever their interleaving: the queue is within its bound; at most one thread holds the mutex;
  every connection accepted so far is in exactly one place (with the acceptor, in the queue, with one
  worker, or closed); and when \<open>stop\<close> has returned, every thread has ended and every connection
  that was ever accepted is closed, exactly once.
\<close>

theorem pool_is_sound:
  assumes "pool_reachable workers max_pending p"
  shows "length (pl_queue p) \<le> max_pending \<and> holders p \<le> 1 \<and> connections p = mset [0..<pl_next p] \<and>
    (pl_stopper p = Stop_Done \<longrightarrow>
       pl_acceptor p = Acc_Exited \<and> set (pl_workers p) \<subseteq> {Wk_Exited} \<and> mset (pl_closed p) = mset [0..<pl_next p])"
proof -
  have i: "pool_inv workers max_pending p" by (rule pool_reachable_inv[OF assms])
  have "set ws \<subseteq> {Wk_Exited} \<Longrightarrow> sum_list (map worker_has ws) = {#}" for ws by (induction ws) auto
  then show ?thesis using i by (auto simp: pool_inv_def connections_def)
qed

text \<open>A bound on the steps that are left once the flag is set.\<close>

fun acceptor_work :: "acceptor \<Rightarrow> nat" where
  "acceptor_work Acc_Exited = 0"
| "acceptor_work Acc_Check = 1"
| "acceptor_work (Acc_Push c) = 1"
| "acceptor_work Acc_Notify = 2"
| "acceptor_work (Acc_Test c) = 2"
| "acceptor_work (Acc_Lock c) = 3"
| "acceptor_work (Acc_Asleep c) = 4"
| "acceptor_work (Acc_Block c) = 5"
| "acceptor_work Acc_Accept = 6"

fun worker_work :: "worker \<Rightarrow> nat" where
  "worker_work Wk_Exited = 0"
| "worker_work Wk_Take = 1"
| "worker_work Wk_Test = 2"
| "worker_work Wk_Lock = 3"
| "worker_work Wk_Asleep = 4"
| "worker_work (Wk_Shut c) = 4"
| "worker_work Wk_Block = 5"
| "worker_work (Wk_Serve c) = 5"
| "worker_work (Wk_Notify c) = 6"

fun stopper_work :: "stopper \<Rightarrow> nat" where
  "stopper_work Stop_Idle = 3"
| "stopper_work Stop_Stored = 2"
| "stopper_work Stop_Joining = 1"
| "stopper_work Stop_Done = 0"

definition pool_work :: "pool \<Rightarrow> nat" where
  "pool_work p = acceptor_work (pl_acceptor p) + sum_list (map worker_work (pl_workers p)) +
     stopper_work (pl_stopper p) + 10 * length (pl_queue p)"

lemma wake_works: "acceptor_work (wake_acceptor a) \<le> acceptor_work a" "worker_work (wake_worker w) \<le> worker_work w"
  by (cases a; simp) (cases w; simp)

lemma wake_work: "pool_work (notify_all p) \<le> pool_work p"
proof -
  have "sum_list (map (worker_work \<circ> wake_worker) ws) \<le> sum_list (map worker_work ws)" for ws
    by (rule sum_list_mono) (simp add: wake_works)
  then show ?thesis using wake_works(1)[of "pl_acceptor p"] by (fastforce simp: pool_work_def intro: add_mono)
qed

lemma set_worker_work:
  assumes "i < length (pl_workers p)"
  shows "pool_work (set_worker i w p) + worker_work (pl_workers p ! i) = pool_work p + worker_work w"
  using sum_exchange[OF assms, of worker_work w] by (simp add: pool_work_def)

lemma notify_one_work: "notify_one p q \<Longrightarrow> pool_work q \<le> pool_work p \<and> pl_acceptor q = pl_acceptor p \<and>
    pl_stopping q = pl_stopping p"
proof (induction rule: notify_one.induct)
  case (one_worker i p)
  then show ?case using set_worker_work[of i p Wk_Lock] by (simp add: set_worker_def)
qed simp

lemma pool_step_work: "pool_step p q \<Longrightarrow> pl_stopping p \<Longrightarrow> pool_work q < pool_work p \<and> pl_stopping q"
proof (induction rule: pool_step.induct)
  case (by_acceptor p q)
  then show ?case
  proof (induction rule: acceptor_step.induct)
    case (acc_notify p q)
    have "pool_work (q\<lparr>pl_acceptor := Acc_Check\<rparr>) < pool_work q"
      using acc_notify(1) notify_one_work[OF acc_notify(2)] by (simp add: pool_work_def)
    then show ?case using notify_one_work[OF acc_notify(2)] acc_notify(3) by simp
  qed (auto simp: pool_work_def close_connection_def)
next
  case (by_worker i p q)
  have i: "i < length (pl_workers (notify_all p))" using by_worker(1) by simp
  note w = set_worker_work[OF by_worker(1)] set_worker_work[OF i]
  have r: "pool_work (r\<lparr>pl_lock := b\<rparr>) = pool_work r" "pool_work (r\<lparr>pl_stopping := b\<rparr>) = pool_work r"
    "pool_work (close_connection c r) = pool_work r"
    "pool_work (r\<lparr>pl_lock := b, pl_queue := cs\<rparr>) + 10 * length (pl_queue r) = pool_work r + 10 * length cs" for r b c cs
    by (simp_all add: pool_work_def close_connection_def)
  have s: "set_worker i w (r\<lparr>pl_lock := b\<rparr>) = (set_worker i w r)\<lparr>pl_lock := b\<rparr>"
    "set_worker i w (r\<lparr>pl_stopping := b\<rparr>) = (set_worker i w r)\<lparr>pl_stopping := b\<rparr>"
    "set_worker i w (close_connection c r) = close_connection c (set_worker i w r)"
    "set_worker i w (r\<lparr>pl_lock := b, pl_queue := cs\<rparr>) = (set_worker i w r)\<lparr>pl_lock := b, pl_queue := cs\<rparr>" for w r b c cs
    by (simp_all add: set_worker_def close_connection_def)
  from by_worker(2) show ?case
  proof cases
    case (wk_notify c)
    then show ?thesis using w(2)[of "Wk_Serve c"] wake_work[of p] by_worker(1,3) by simp
  next
    case (wk_shut c)
    then show ?thesis using w(2)[of Wk_Lock] wake_work[of p] by_worker(1,3) by (simp add: s r)
  next
    case (wk_take c rest)
    then show ?thesis using w(1)[of "Wk_Notify c"] r(4)[where r = "set_worker i (Wk_Notify c) p" and b = False and cs = rest] by_worker(3) by (simp add: s)
  next
    case wk_lock
    then show ?thesis using w(1)[of Wk_Test] by_worker(3) by (simp add: s r)
  next
    case wk_pass
    then show ?thesis using w(1)[of Wk_Take] by_worker(3) by (simp add: s r)
  next
    case wk_wait
    then show ?thesis using w(1)[of Wk_Block] by_worker(3) by (simp add: s r)
  next
    case wk_block
    then show ?thesis using w(1)[of Wk_Asleep] by_worker(3) by (simp add: s r)
  next
    case wk_exit
    then show ?thesis using w(1)[of Wk_Exited] by_worker(3) by (simp add: s r)
  next
    case wk_again
    then show ?thesis using w(1)[of Wk_Lock] by_worker(3) by (simp add: s r)
  next
    case (wk_served c)
    then show ?thesis using w(1)[of Wk_Lock] by_worker(3) by (simp add: s r)
  next
    case (wk_shutdown c)
    then show ?thesis using w(1)[of "Wk_Shut c"] by_worker(3) by (simp add: s r)
  qed
next
  case (by_stopper p q)
  then show ?case
  proof (induction rule: stopper_step.induct)
    case (stop_notify p)
    have "pool_work ((notify_all p)\<lparr>pl_stopper := Stop_Joining\<rparr>) < pool_work (notify_all p)"
      using stop_notify(1) by (simp add: pool_work_def)
    then show ?case using wake_work[of p] stop_notify(2) by simp
  qed (auto simp: pool_work_def)
qed


text \<open>Nobody is between a failed test and its sleep, and a notification of \<open>stop\<close> is still to come for
  whoever sleeps.\<close>

definition about_to_block :: "pool \<Rightarrow> bool" where
  "about_to_block p \<longleftrightarrow> (\<exists>c. pl_acceptor p = Acc_Block c) \<or> Wk_Block \<in> set (pl_workers p)"

definition asleep :: "pool \<Rightarrow> bool" where
  "asleep p \<longleftrightarrow> (\<exists>c. pl_acceptor p = Acc_Asleep c) \<or> Wk_Asleep \<in> set (pl_workers p)"

definition orderly :: "pool \<Rightarrow> bool" where
  "orderly p \<longleftrightarrow> pl_stopping p \<and> \<not> about_to_block p \<and> (pl_stopper p \<in> {Stop_Idle, Stop_Stored} \<or> \<not> asleep p)"

lemma updated_in: "x \<in> set (ws[i := w]) \<Longrightarrow> x = w \<or> x \<in> set ws"
  using set_update_subset_insert[of ws i w] by auto

lemma wake_worker_other [simp]: "wake_worker w = Wk_Block \<longleftrightarrow> w = Wk_Block" "Wk_Block = wake_worker w \<longleftrightarrow> w = Wk_Block"
  "wake_worker w \<noteq> Wk_Asleep" "Wk_Asleep \<noteq> wake_worker w"
  by (cases w; simp)+

lemma woken_in [simp]: "Wk_Block \<in> set (map wake_worker ws) \<longleftrightarrow> Wk_Block \<in> set ws" "Wk_Asleep \<notin> set (map wake_worker ws)"
  "wake_acceptor a \<noteq> Acc_Asleep c" "wake_acceptor a = Acc_Block c \<longleftrightarrow> a = Acc_Block c"
  by (auto simp: image_iff) (cases a; simp)+

lemma orderly_step: "pool_step p q \<Longrightarrow> orderly p \<Longrightarrow> orderly q"
proof (induction rule: pool_step.induct)
  case (by_acceptor p q)
  then show ?case
  proof (induction rule: acceptor_step.induct)
    case (acc_notify p q)
    from acc_notify(2,1,3) show ?case
      by cases (auto simp: orderly_def about_to_block_def asleep_def dest!: updated_in)
  qed (auto simp: orderly_def about_to_block_def asleep_def close_connection_def)
next
  case (by_worker i p q)
  note here = nth_mem[OF by_worker(1)]
  from by_worker(2,3) here show ?case
    by cases (auto simp: orderly_def about_to_block_def asleep_def dest!: updated_in)
next
  case (by_stopper p q)
  then show ?case
    by (induction rule: stopper_step.induct) (auto simp: orderly_def about_to_block_def asleep_def)
qed

lemma sum_list_map_eq_0: "(\<And>x. x \<in> set xs \<Longrightarrow> f x = 0) \<Longrightarrow> sum_list (map f xs) = (0::nat)"
  by (induction xs) auto

text \<open>As long as someone is neither asleep nor done, someone can move.\<close>

lemma notify_one_total: "\<exists>q. notify_one p q"
proof (cases "Wk_Asleep \<in> set (pl_workers p)")
  case True
  then obtain i where "i < length (pl_workers p)" "pl_workers p ! i = Wk_Asleep" by (metis in_set_conv_nth)
  then show ?thesis using one_worker by blast
next
  case False
  then show ?thesis using nobody by blast
qed

lemma acceptor_moves:
  assumes "pl_acceptor p \<noteq> Acc_Exited" "\<nexists>c. pl_acceptor p = Acc_Asleep c" "pl_lock p \<longrightarrow> (\<nexists>c. pl_acceptor p = Acc_Lock c)"
  shows "\<exists>q. acceptor_step p q"
proof (cases "pl_acceptor p")
  case Acc_Notify
  then show ?thesis using notify_one_total[of p] acc_notify by blast
next
  case Acc_Check
  then show ?thesis using acc_stop acc_go by blast
next
  case (Acc_Test c)
  then show ?thesis using acc_pass acc_wait by blast
next
  case (Acc_Push c)
  then show ?thesis using acc_drop acc_push by blast
qed (use assms acc_nothing acc_lock acc_block in blast)+

lemma worker_moves:
  assumes "pl_workers p ! i \<notin> {Wk_Exited, Wk_Asleep}" "pl_lock p \<longrightarrow> pl_workers p ! i \<noteq> Wk_Lock"
  shows "\<exists>q. worker_step i p q"
proof (cases "pl_workers p ! i")
  case Wk_Test
  then show ?thesis using wk_pass wk_wait by blast
next
  case Wk_Take
  then show ?thesis using wk_exit wk_again wk_take by (cases "pl_queue p") blast+
qed (use assms wk_lock wk_block wk_notify wk_served wk_shut in blast)+

lemma pool_moves:
  assumes "pool_inv n m p" "pl_stopper p \<noteq> Stop_Done" "pl_stopper p = Stop_Joining \<longrightarrow> \<not> asleep p"
  shows "\<exists>q. pool_step p q"
proof (cases "pl_stopper p")
  case Stop_Joining
  then have s: "\<nexists>c. pl_acceptor p = Acc_Asleep c" "Wk_Asleep \<notin> set (pl_workers p)"
    using assms(3) by (auto simp: asleep_def)
  show ?thesis
  proof (cases "pl_lock p")
    case True
    then have h: "holders p = 1" using assms(1) by (simp add: pool_inv_def)
    show ?thesis
    proof (cases "acceptor_holds (pl_acceptor p) = 0")
      case True
      then have "sum_list (map worker_holds (pl_workers p)) \<noteq> 0" using h by (simp add: holders_def)
      then obtain w where w: "w \<in> set (pl_workers p)" "worker_holds w \<noteq> 0" by (meson sum_list_map_eq_0)
      then obtain i where i: "i < length (pl_workers p)" "worker_holds (pl_workers p ! i) \<noteq> 0"
        by (metis in_set_conv_nth)
      then have "\<exists>q. worker_step i p q" by (intro worker_moves) auto
      then show ?thesis using i(1) by_worker by blast
    next
      case False
      then have "\<exists>q. acceptor_step p q" by (intro acceptor_moves) auto
      then show ?thesis using by_acceptor by blast
    qed
  next
    case False
    show ?thesis
    proof (cases "pl_acceptor p = Acc_Exited \<and> set (pl_workers p) \<subseteq> {Wk_Exited}")
      case True
      then show ?thesis using Stop_Joining stop_finish by_stopper by blast
    next
      case other: False
      then consider "pl_acceptor p \<noteq> Acc_Exited" | i where "i < length (pl_workers p)" "pl_workers p ! i \<noteq> Wk_Exited"
        by (metis in_set_conv_nth singleton_iff subsetI)
      then show ?thesis
      proof cases
        case 1
        then show ?thesis using acceptor_moves[of p] False s(1) by_acceptor by blast
      next
        case (2 i)
        then have "pl_workers p ! i \<noteq> Wk_Asleep" using s(2) nth_mem by metis
        then show ?thesis using worker_moves[of p i] 2 False by_worker by blast
      qed
    qed
  qed
qed (use assms(2) stop_store stop_notify by_stopper in blast)+

lemma pool_run_bounded:
  "pool_run p qs \<Longrightarrow> pl_stopping p \<Longrightarrow> length qs + pool_work (last (p # qs)) \<le> pool_work p"
proof (induction qs arbitrary: p)
  case (Cons q qs)
  then show ?case using pool_step_work[of p q] by fastforce
qed simp

lemma pool_run_orderly: "pool_run p qs \<Longrightarrow> orderly p \<Longrightarrow> orderly (last (p # qs))"
  by (induction qs arbitrary: p) (auto dest: orderly_step)

lemma pool_run_inv: "pool_run p qs \<Longrightarrow> pool_inv n m p \<Longrightarrow> pool_inv n m (last (p # qs))"
  by (induction qs arbitrary: p) (auto dest: pool_step_inv)

text \<open>
  C16: stopping the server ends. From the moment the stop flag is set, by \<open>stop\<close> or by a request to shut
  down, the threads together make at most \<open>pool_work\<close> more steps, whatever their interleaving. And if
  at that moment no thread is between testing its condition and falling asleep, and \<open>stop\<close> has not
  notified yet, then every run that cannot be continued has ended well: \<open>stop\<close> has
  returned, all threads have ended, the queue is empty and every accepted connection was closed once.
\<close>

theorem shutdown_completes:
  assumes "pool_reachable workers max_pending p" "pl_stopping p" "pool_run p qs" "q = last (p # qs)"
  shows "length qs \<le> pool_work p \<and>
    (\<not> about_to_block p \<and> pl_stopper p \<in> {Stop_Idle, Stop_Stored} \<and> (\<nexists>r. pool_step q r) \<longrightarrow>
       pl_stopper q = Stop_Done \<and> pl_acceptor q = Acc_Exited \<and> set (pl_workers q) \<subseteq> {Wk_Exited} \<and>
       pl_queue q = [] \<and> mset (pl_closed q) = mset [0..<pl_next q])"
proof -
  have i: "pool_inv workers max_pending q"
    using pool_run_inv[OF assms(3) pool_reachable_inv[OF assms(1)]] assms(4) by simp
  have "pl_stopper q = Stop_Done" if "\<not> about_to_block p" "pl_stopper p \<in> {Stop_Idle, Stop_Stored}" "\<nexists>r. pool_step q r"
  proof -
    have "orderly p" using that(1,2) assms(2) by (simp add: orderly_def)
    then have "orderly q" using pool_run_orderly[OF assms(3)] assms(4) by simp
    then have "pl_stopper q = Stop_Joining \<longrightarrow> \<not> asleep q" by (auto simp: orderly_def)
    then show ?thesis using pool_moves[OF i] that(3) by blast
  qed
  moreover have "set ws \<subseteq> {Wk_Exited} \<Longrightarrow> sum_list (map worker_has ws) = {#}" for ws by (induction ws) auto
  ultimately show ?thesis
    using pool_run_bounded[OF assms(3,2)] i by (auto simp: pool_inv_def connections_def)
qed

text \<open>A pool of one worker that is stopped before any connection arrives, step by step.\<close>

abbreviation quiet :: "worker \<Rightarrow> acceptor \<Rightarrow> stopper \<Rightarrow> bool \<Rightarrow> bool \<Rightarrow> pool" where
  "quiet w a s stopping locked \<equiv>
     \<lparr>pl_max = 2, pl_stopping = stopping, pl_lock = locked, pl_queue = [], pl_acceptor = a,
      pl_workers = [w], pl_stopper = s, pl_next = 0, pl_closed = []\<rparr>"

lemma quiet_start: "pool_start 1 2 = quiet Wk_Lock Acc_Check Stop_Idle False False"
  by (simp add: pool_start_def)

lemma quiet_locks: "pool_step (quiet Wk_Lock a s b False) (quiet Wk_Test a s b True)"
  using by_worker[OF _ wk_lock, of 0 "quiet Wk_Lock a s b False"] by (simp add: set_worker_def)

lemma quiet_passes: "pool_step (quiet Wk_Test a s True True) (quiet Wk_Take a s True True)"
  using by_worker[OF _ wk_pass, of 0 "quiet Wk_Test a s True True"] by (simp add: set_worker_def)

lemma quiet_exits: "pool_step (quiet Wk_Take a s True True) (quiet Wk_Exited a s True False)"
  using by_worker[OF _ wk_exit, of 0 "quiet Wk_Take a s True True"] by (simp add: set_worker_def)

lemma quiet_waits: "pool_step (quiet Wk_Test a s False True) (quiet Wk_Block a s False True)"
  using by_worker[OF _ wk_wait, of 0 "quiet Wk_Test a s False True"] by (simp add: set_worker_def)

lemma quiet_blocks: "pool_step (quiet Wk_Block a s b True) (quiet Wk_Asleep a s b False)"
  using by_worker[OF _ wk_block, of 0 "quiet Wk_Block a s b True"] by (simp add: set_worker_def)

lemma quiet_stops: "pool_step (quiet w a Stop_Idle b l) (quiet w a Stop_Stored True l)"
  using by_stopper[OF stop_store, of "quiet w a Stop_Idle b l"] by simp

lemma quiet_notifies: "pool_step (quiet w a Stop_Stored b l) (quiet (wake_worker w) (wake_acceptor a) Stop_Joining b l)"
  using by_stopper[OF stop_notify, of "quiet w a Stop_Stored b l"] by (simp add: notify_all_def)

lemma quiet_joins: "pool_step (quiet Wk_Exited Acc_Exited Stop_Joining b l) (quiet Wk_Exited Acc_Exited Stop_Done b l)"
  using by_stopper[OF stop_finish, of "quiet Wk_Exited Acc_Exited Stop_Joining b l"] by simp

lemma quiet_ends: "pool_step (quiet w Acc_Check s True l) (quiet w Acc_Exited s True l)"
  using by_acceptor[OF acc_stop, of "quiet w Acc_Check s True l"] by simp

lemmas quiet_steps = quiet_locks quiet_passes quiet_exits quiet_waits quiet_blocks quiet_stops quiet_joins quiet_ends
  quiet_notifies[where w = Wk_Block and a = Acc_Check, simplified] quiet_notifies[where w = Wk_Lock and a = Acc_Check, simplified]

lemma quiet_stopped: "pool_reachable 1 2 (quiet Wk_Lock Acc_Check Stop_Stored True False)"
  using pool_moved[OF pool_started[of 1 2, unfolded quiet_start] quiet_stops] .

definition quiet_end :: "pool list" where
  "quiet_end =
     [quiet Wk_Lock Acc_Check Stop_Joining True False, quiet Wk_Lock Acc_Exited Stop_Joining True False,
      quiet Wk_Test Acc_Exited Stop_Joining True True, quiet Wk_Take Acc_Exited Stop_Joining True True,
      quiet Wk_Exited Acc_Exited Stop_Joining True False, quiet Wk_Exited Acc_Exited Stop_Done True False]"

lemma quiet_end_runs: "pool_run (quiet Wk_Lock Acc_Check Stop_Stored True False) quiet_end"
  by (simp add: quiet_end_def quiet_steps)

lemma quiet_final: "pool_step (quiet Wk_Exited Acc_Exited Stop_Done True False) r \<Longrightarrow> False"
  by (auto elim!: pool_step.cases acceptor_step.cases worker_step.cases stopper_step.cases)

theorem pool_is_sound_witness:
  "length (pl_queue (quiet Wk_Lock Acc_Check Stop_Stored True False)) \<le> 2 \<and>
   holders (quiet Wk_Lock Acc_Check Stop_Stored True False) \<le> 1"
  using pool_is_sound[OF quiet_stopped] by simp

theorem shutdown_completes_witness:
  "length quiet_end \<le> pool_work (quiet Wk_Lock Acc_Check Stop_Stored True False) \<and>
   pl_stopper (last quiet_end) = Stop_Done"
proof -
  have l: "last (quiet Wk_Lock Acc_Check Stop_Stored True False # quiet_end) = quiet Wk_Exited Acc_Exited Stop_Done True False"
    "last quiet_end = quiet Wk_Exited Acc_Exited Stop_Done True False"
    by (simp_all add: quiet_end_def)
  show ?thesis
    using shutdown_completes[OF quiet_stopped _ quiet_end_runs refl] quiet_final
    unfolding l by (auto simp: about_to_block_def)
qed

text \<open>
  C38: a stop can be missed. \<open>stop\<close> stores its flag and notifies without holding the mutex, so both can
  fall between a worker's test of its condition and the moment it blocks. Then the worker sleeps with the flag set and the queue
  empty, \<open>stop\<close> waits to join it, and no thread can move (unless the condition variable wakes the worker
  unasked).
\<close>

theorem stop_can_hang:
  "\<exists>p. pool_reachable 1 2 p \<and> pl_stopping p \<and> pl_stopper p = Stop_Joining \<and> pl_workers p = [Wk_Asleep] \<and>
       (\<nexists>q. pool_step p q)"
proof (intro exI conjI)
  let ?p = "quiet Wk_Asleep Acc_Exited Stop_Joining True False"
  have "pool_reachable 1 2 (quiet Wk_Lock Acc_Check Stop_Idle False False)"
    using pool_started[of 1 2] unfolding quiet_start .
  then have "pool_reachable 1 2 (quiet Wk_Block Acc_Check Stop_Idle False True)"
    by (blast intro: pool_moved quiet_locks quiet_waits)
  then have "pool_reachable 1 2 (quiet Wk_Block Acc_Check Stop_Joining True True)"
    using pool_moved[OF pool_moved[OF _ quiet_stops] quiet_notifies[where w = Wk_Block and a = Acc_Check]] by simp
  then show "pool_reachable 1 2 ?p" by (blast intro: pool_moved quiet_blocks quiet_ends)
  show "\<nexists>q. pool_step ?p q"
    by (auto elim!: pool_step.cases acceptor_step.cases worker_step.cases stopper_step.cases)
qed simp_all

end
