(* ===== verification/Text_Parse.thy ===== *)
theory Text_Parse
  imports Text_Render Wire
begin

text \<open>
  The strict parser of the text form of a snapshot: \<open>TextParser\<close> and its helpers in
  \<open>codec/text.cpp\<close>. A token is a view: where it starts in its line, and its characters. The
  state of the parser is the snapshot read so far and the record a continuation line belongs to. An
  exception of the standard library that leaves the parser is a value \<open>Undefined\<close>.
\<close>

section \<open>Tokens and numbers\<close>

type_synonym view = "nat \<times> string"

definition max_line_bytes :: nat where "max_line_bytes = 8192"
definition max_lines :: nat where "max_lines = 2 ^ 20"
definition max_text_items :: nat where "max_text_items = 2 ^ 20"
definition text_schema :: string where "text_schema = ''podfabric.text/1''"

definition blank :: "char \<Rightarrow> bool" where
  "blank c \<longleftrightarrow> c = CHR '' '' \<or> c = CHR 0x09"

function split_from :: "nat \<Rightarrow> string \<Rightarrow> view list" where
  "split_from i line =
     (case dropWhile blank line of
        [] \<Rightarrow> []
      | c # cs \<Rightarrow>
          let start = i + length (takeWhile blank line);
              word = takeWhile (\<lambda>c. \<not> blank c) (c # cs)
          in (start, word) # split_from (start + length word) (dropWhile (\<lambda>c. \<not> blank c) (c # cs)))"
  by pat_completeness auto
termination
proof (relation "measure (\<lambda>(i, line). length line)", simp)
  fix i line c cs start word
  assume c: "dropWhile blank line = c # cs"
  then have "\<not> blank c" using hd_dropWhile[of blank line] by simp
  moreover have "length (c # cs) \<le> length line" using c length_dropWhile_le[of blank line] by simp
  ultimately show "((start + length word, dropWhile (\<lambda>c. \<not> blank c) (c # cs)), (i, line)) \<in> measure (\<lambda>(i, line). length line)"
    using length_dropWhile_le[of "\<lambda>c. \<not> blank c" cs] by simp
qed

declare split_from.simps [simp del]

definition split_tokens :: "string \<Rightarrow> view list" where
  "split_tokens line = split_from 0 line"

definition tok :: "view list \<Rightarrow> nat \<Rightarrow> string" where
  "tok ts i = snd (ts ! i)"

text \<open>The free text of a line from token \<open>from\<close> to its last token.\<close>

definition rest_of_line :: "string \<Rightarrow> view list \<Rightarrow> nat \<Rightarrow> string" where
  "rest_of_line line ts from =
     (if length ts \<le> from then []
      else let b = fst (ts ! from); e = fst (last ts) + length (snd (last ts))
           in if e \<le> b then [] else take (e - b) (drop b line))"

definition blank_to_empty :: "string \<Rightarrow> string" where
  "blank_to_empty token = (if token = ''-'' then [] else token)"

definition field_fault :: "string \<Rightarrow> string \<Rightarrow> 'a result" where
  "field_fault what problem = fail Code_Invalid (''field '' @ [CHR 0x27] @ what @ [CHR 0x27] @ problem)"

fun digits_u64 :: "string \<Rightarrow> string \<Rightarrow> u64 \<Rightarrow> u64 result" where
  "digits_u64 what [] value = Inr value"
| "digits_u64 what (c # cs) value =
     (if c < CHR ''0'' \<or> c > CHR ''9'' then field_fault what '' has a non-digit character''
      else let digit = of_nat (of_char c - 48) :: u64 in
           if value > (0xFFFFFFFFFFFFFFFF - digit) div 10 then field_fault what '' overflows 64 bits''
           else digits_u64 what cs (value * 10 + digit))"

definition parse_u64 :: "string \<Rightarrow> string \<Rightarrow> u64 result" where
  "parse_u64 token what =
     (if token = [] \<or> length token > 20 then field_fault what '' is not an unsigned integer''
      else digits_u64 what token 0)"

definition parse_i64 :: "string \<Rightarrow> string \<Rightarrow> int result" where
  "parse_i64 token what =
     (let signed = token \<noteq> [] \<and> (hd token = CHR ''-'' \<or> hd token = CHR ''+'');
          negative = signed \<and> hd token = CHR ''-''
      in try_bind (parse_u64 (if signed then tl token else token) what) (\<lambda>magnitude.
        if negative
        then if magnitude > 0x8000000000000000 then field_fault what '' underflows 64 bits''
             else if magnitude = 0x8000000000000000 then Inr (- (2 ^ 63))
             else Inr (- int (unat magnitude))
        else if magnitude > 0x7FFFFFFFFFFFFFFF then field_fault what '' overflows 64 bits''
        else Inr (int (unat magnitude))))"

definition parse_u32 :: "string \<Rightarrow> string \<Rightarrow> u32 result" where
  "parse_u32 token what =
     try_bind (parse_u64 token what) (\<lambda>value.
       if value > 0xFFFFFFFF then field_fault what '' exceeds 32 bits'' else Inr (ucast value))"

section \<open>Enumerations\<close>

definition parse_enum :: "string \<Rightarrow> string \<Rightarrow> (string \<times> 'e) list \<Rightarrow> 'e result" where
  "parse_enum token what table =
     (case map_of table token of
        Some v \<Rightarrow> Inr v
      | None \<Rightarrow> field_fault what '' has an unrecognised value'')"

definition parse_quality :: "string \<Rightarrow> evidence_quality result" where
  "parse_quality token = parse_enum token ''prov.quality''
     [(''REAL'', Quality_Real), (''SYNTHETIC'', Quality_Synthetic), (''UNKNOWN'', Quality_Unknown)]"

definition parse_class :: "string \<Rightarrow> evidence_class result" where
  "parse_class token = parse_enum token ''prov.class''
     [(''attested'', Class_Attested), (''observed'', Class_Observed), (''declared'', Class_Declared),
      (''reconstructed'', Class_Reconstructed)]"

definition parse_membership :: "string \<Rightarrow> membership_state result" where
  "parse_membership token = parse_enum token ''member.state''
     [(''joining'', Membership_Joining), (''established'', Membership_Established), (''leaving'', Membership_Leaving),
      (''fenced'', Membership_Fenced), (''retired'', Membership_Retired)]"

definition parse_admin :: "string \<Rightarrow> admin_state result" where
  "parse_admin token = parse_enum token ''admin''
     [(''enabled'', Admin_Enabled), (''disabled'', Admin_Disabled), (''maintenance'', Admin_Maintenance),
      (''draining'', Admin_Draining)]"

definition parse_health :: "string \<Rightarrow> health_state result" where
  "parse_health token = parse_enum token ''health''
     [(''ok'', Health_Ok), (''impaired'', Health_Impaired), (''critical'', Health_Critical), (''unknown'', Health_Unknown)]"

definition parse_oper :: "string \<Rightarrow> operational_state result" where
  "parse_oper token = parse_enum token ''oper''
     [(''up'', Oper_Up), (''degraded'', Oper_Degraded), (''down'', Oper_Down), (''unknown'', Oper_Unknown)]"

definition parse_route_state :: "string \<Rightarrow> route_state result" where
  "parse_route_state token = parse_enum token ''route.state''
     [(''installed'', Route_Installed), (''pending'', Route_Pending), (''withdrawn'', Route_Withdrawn),
      (''failed'', Route_Failed), (''unknown'', Route_Unknown)]"

definition parse_domain_kind :: "string \<Rightarrow> string \<Rightarrow> domain_kind result" where
  "parse_domain_kind token what = parse_enum token what
     [(''rack'', Kind_Rack), (''power'', Kind_Power), (''switch-plane'', Kind_SwitchPlane), (''row'', Kind_Row),
      (''site'', Kind_Site), (''unknown'', Kind_Unknown)]"

definition parse_obligation_kind :: "string \<Rightarrow> obligation_kind result" where
  "parse_obligation_kind token = parse_enum token ''obligation.kind''
     [(''protected-path'', Obl_ProtectedPath), (''capacity-floor'', Obl_CapacityFloor),
      (''domain-diversity'', Obl_DomainDiversity), (''maintenance-window'', Obl_MaintenanceWindow)]"

section \<open>Records\<close>

datatype current = Cur_None | Cur_Snapshot | Cur_Member | Cur_Link | Cur_Route | Cur_Domain | Cur_Obligation

record text_parser =
  tp_snapshot :: pod_snapshot
  tp_current :: current

definition contains :: "view list \<Rightarrow> nat \<Rightarrow> string \<Rightarrow> nat \<Rightarrow> bool" where
  "contains ts at keyword needed \<longleftrightarrow> length ts \<ge> at + needed \<and> tok ts at = keyword"

definition need :: "view list \<Rightarrow> nat \<Rightarrow> string \<Rightarrow> nat \<Rightarrow> string \<Rightarrow> unit result" where
  "need ts at keyword needed message = reject_if (\<not> contains ts at keyword needed) Code_Invalid message"

definition parse_ident :: "string \<Rightarrow> ident result" where
  "parse_ident token = id_parse (blank_to_empty token)"

text \<open>An identifier that may be blank.\<close>

definition parse_optional :: "string \<Rightarrow> ident result" where
  "parse_optional token = (let t = blank_to_empty token in if t = [] then Inr [] else id_parse t)"

definition parse_prov :: "view list \<Rightarrow> nat \<Rightarrow> provenance result" where
  "parse_prov ts at =
     try_then (reject_if (length ts < at + 4) Code_Invalid ''provenance needs quality, class, source and sequence'')
     (try_bind (parse_quality (tok ts at)) (\<lambda>quality.
      try_bind (parse_class (tok ts (at + 1))) (\<lambda>klass.
      try_bind (parse_optional (tok ts (at + 2))) (\<lambda>source.
      try_bind (parse_u64 (tok ts (at + 3)) ''prov.sequence'') (\<lambda>sequence.
      Inr \<lparr>pv_quality = quality, pv_class = klass, pv_source = source, pv_sequence = sequence, pv_detail = []\<rparr>)))))"

definition with_snapshot :: "(pod_snapshot \<Rightarrow> pod_snapshot) \<Rightarrow> current \<Rightarrow> text_parser \<Rightarrow> text_parser" where
  "with_snapshot f cur p = \<lparr>tp_snapshot = f (tp_snapshot p), tp_current = cur\<rparr>"

definition too_many :: "'a list \<Rightarrow> string \<Rightarrow> unit result" where
  "too_many xs message = reject_if (length xs \<ge> max_text_items) Code_Exhausted message"

definition parse_member :: "view list \<Rightarrow> text_parser \<Rightarrow> text_parser result" where
  "parse_member ts p =
     try_then (too_many (sn_members (tp_snapshot p)) ''too many member records'')
     (try_then (reject_if (length ts < 20) Code_Invalid ''member directive is missing fields'')
     (try_bind (parse_ident (tok ts 1)) (\<lambda>rack.
      try_then (need ts 2 ''gen'' 2 ''member needs gen'')
     (try_bind (parse_u64 (tok ts 3) ''member.gen'') (\<lambda>generation.
      try_then (need ts 4 ''digest'' 2 ''member needs digest'')
     (try_bind (digest_parse (tok ts 5)) (\<lambda>digest.
      try_then (need ts 6 ''rnf'' 2 ''member needs rnf'')
     (try_then (need ts 8 ''state'' 2 ''member needs state'')
     (try_bind (parse_membership (tok ts 9)) (\<lambda>membership.
      try_then (need ts 10 ''admin'' 2 ''member needs admin'')
     (try_bind (parse_admin (tok ts 11)) (\<lambda>admin.
      try_then (need ts 12 ''health'' 2 ''member needs health'')
     (try_bind (parse_health (tok ts 13)) (\<lambda>health.
      try_then (need ts 14 ''observed'' 2 ''member needs observed'')
     (try_bind (parse_i64 (tok ts 15) ''member.observed'') (\<lambda>observed.
      try_then (need ts 16 ''prov'' 4 ''member needs prov'')
     (try_bind (parse_prov ts 17) (\<lambda>prov.
      try_then (reject_if (length ts > 21) Code_Invalid ''member directive has trailing tokens'')
     (Inr (with_snapshot (\<lambda>s. s\<lparr>sn_members := sn_members s @
        [\<lparr>mr_rack = rack, mr_generation = generation, mr_digest = digest, mr_rnf_schema = blank_to_empty (tok ts 7),
          mr_membership = membership, mr_admin = admin, mr_health = health, mr_failure_domains = [], mr_capacity = [],
          mr_ports = [], mr_provenance = prov, mr_observed_at = observed\<rparr>]\<rparr>) Cur_Member p))))))))))))))))))))"

definition parse_link :: "view list \<Rightarrow> text_parser \<Rightarrow> text_parser result" where
  "parse_link ts p =
     try_then (too_many (sn_links (tp_snapshot p)) ''too many link records'')
     (try_then (reject_if (length ts < 31) Code_Invalid ''link directive is missing fields'')
     (try_bind (parse_ident (tok ts 1)) (\<lambda>ident.
      try_then (need ts 2 ''a'' 3 ''link needs a <rack> <port>'')
     (try_bind (parse_ident (tok ts 3)) (\<lambda>a_rack.
      try_bind (parse_ident (tok ts 4)) (\<lambda>a_port.
      try_then (need ts 5 ''b'' 3 ''link needs b <rack> <port>'')
     (try_bind (parse_ident (tok ts 6)) (\<lambda>b_rack.
      try_bind (parse_ident (tok ts 7)) (\<lambda>b_port.
      try_then (need ts 8 ''agen'' 2 ''link needs agen'')
     (try_bind (parse_u64 (tok ts 9) ''link.agen'') (\<lambda>agen.
      try_then (need ts 10 ''bgen'' 2 ''link needs bgen'')
     (try_bind (parse_u64 (tok ts 11) ''link.bgen'') (\<lambda>bgen.
      try_then (need ts 12 ''domain'' 2 ''link needs domain'')
     (try_bind (parse_ident (tok ts 13)) (\<lambda>domain.
      try_then (need ts 14 ''resource'' 2 ''link needs resource'')
     (try_bind (parse_ident (tok ts 15)) (\<lambda>resource.
      try_then (need ts 16 ''capacity'' 2 ''link needs capacity'')
     (try_bind (parse_u64 (tok ts 17) ''link.capacity'') (\<lambda>capacity.
      try_then (need ts 18 ''admin'' 2 ''link needs admin'')
     (try_bind (parse_admin (tok ts 19)) (\<lambda>admin.
      try_then (need ts 20 ''oper'' 2 ''link needs oper'')
     (try_bind (parse_oper (tok ts 21)) (\<lambda>oper.
      try_then (need ts 22 ''route'' 2 ''link needs route'')
     (try_bind (parse_optional (tok ts 23)) (\<lambda>route.
      try_then (need ts 24 ''observed'' 2 ''link needs observed'')
     (try_bind (parse_i64 (tok ts 25) ''link.observed'') (\<lambda>observed.
      try_then (need ts 26 ''prov'' 4 ''link needs prov'')
     (try_bind (parse_prov ts 27) (\<lambda>prov.
      try_then (reject_if (length ts > 31) Code_Invalid ''link directive has trailing tokens'')
     (Inr (with_snapshot (\<lambda>s. s\<lparr>sn_links := sn_links s @
        [\<lparr>lk_id = ident, lk_a = \<lparr>le_rack = a_rack, le_port = a_port\<rparr>, lk_b = \<lparr>le_rack = b_rack, le_port = b_port\<rparr>,
          lk_domain = domain, lk_resource = resource, lk_capacity = capacity, lk_admin = admin, lk_oper = oper,
          lk_a_generation = agen, lk_b_generation = bgen, lk_route = route, lk_provenance = prov,
          lk_observed_at = observed\<rparr>]\<rparr>) Cur_Link p)))))))))))))))))))))))))))))))"

definition parse_route :: "view list \<Rightarrow> text_parser \<Rightarrow> text_parser result" where
  "parse_route ts p =
     try_then (too_many (sn_routes (tp_snapshot p)) ''too many route records'')
     (try_then (reject_if (length ts < 20) Code_Invalid ''route directive is missing fields'')
     (try_bind (parse_ident (tok ts 1)) (\<lambda>ident.
      try_then (need ts 2 ''gen'' 2 ''route needs gen'')
     (try_bind (parse_u64 (tok ts 3) ''route.gen'') (\<lambda>generation.
      try_then (need ts 4 ''digest'' 2 ''route needs digest'')
     (try_bind (digest_parse (tok ts 5)) (\<lambda>digest.
      try_then (need ts 6 ''resource'' 2 ''route needs resource'')
     (try_bind (parse_ident (tok ts 7)) (\<lambda>resource.
      try_then (need ts 8 ''capacity'' 2 ''route needs capacity'')
     (try_bind (parse_u64 (tok ts 9) ''route.capacity'') (\<lambda>capacity.
      try_then (need ts 10 ''state'' 2 ''route needs state'')
     (try_bind (parse_route_state (tok ts 11)) (\<lambda>state.
      try_then (need ts 12 ''observed'' 2 ''route needs observed'')
     (try_bind (parse_i64 (tok ts 13) ''route.observed'') (\<lambda>observed.
      try_then (need ts 14 ''prov'' 4 ''route needs prov'')
     (try_bind (parse_prov ts 15) (\<lambda>prov.
      try_then (reject_if (length ts > 19) Code_Invalid ''route directive has trailing tokens'')
     (Inr (with_snapshot (\<lambda>s. s\<lparr>sn_routes := sn_routes s @
        [\<lparr>rt_ref = ident, rt_generation = generation, rt_authority_digest = digest, rt_path = [],
          rt_path_generations = [], rt_resource = resource, rt_committed_capacity = capacity, rt_state = state,
          rt_provenance = prov, rt_observed_at = observed\<rparr>]\<rparr>) Cur_Route p)))))))))))))))))))"

text \<open>What follows the provenance on a line is its detail.\<close>

definition inline_detail :: "string \<Rightarrow> view list \<Rightarrow> nat \<Rightarrow> provenance \<Rightarrow> provenance" where
  "inline_detail line ts from prov =
     (if length ts > from then prov\<lparr>pv_detail := rest_of_line line ts from\<rparr> else prov)"

definition parse_domain :: "string \<Rightarrow> view list \<Rightarrow> text_parser \<Rightarrow> text_parser result" where
  "parse_domain line ts p =
     try_then (too_many (sn_domains (tp_snapshot p)) ''too many failure-domain records'')
     (try_then (reject_if (length ts < 8) Code_Invalid ''fdom directive is missing fields'')
     (try_bind (parse_ident (tok ts 1)) (\<lambda>ident.
      try_then (need ts 2 ''kind'' 2 ''fdom needs kind'')
     (try_bind (parse_domain_kind (tok ts 3) ''fdom.kind'') (\<lambda>kind.
      try_then (need ts 4 ''prov'' 4 ''fdom needs prov'')
     (try_bind (parse_prov ts 5) (\<lambda>prov.
      Inr (with_snapshot (\<lambda>s. s\<lparr>sn_domains := sn_domains s @
        [\<lparr>fd_id = ident, fd_kind = kind, fd_members = [], fd_description = [],
          fd_provenance = inline_detail line ts 9 prov\<rparr>]\<rparr>) Cur_Domain p))))))))"

definition parse_obligation :: "string \<Rightarrow> view list \<Rightarrow> text_parser \<Rightarrow> text_parser result" where
  "parse_obligation line ts p =
     try_then (too_many (sn_obligations (tp_snapshot p)) ''too many obligation records'')
     (try_then (reject_if (length ts < 16) Code_Invalid ''obligation directive is missing fields'')
     (try_bind (parse_ident (tok ts 1)) (\<lambda>ident.
      try_then (need ts 2 ''kind'' 2 ''obligation needs kind'')
     (try_bind (parse_obligation_kind (tok ts 3)) (\<lambda>kind.
      try_then (need ts 4 ''tenant'' 2 ''obligation needs tenant'')
     (try_bind (parse_optional (tok ts 5)) (\<lambda>tenant.
      try_then (need ts 6 ''mandatory'' 2 ''obligation needs mandatory'')
     (try_bind (parse_u32 (tok ts 7) ''obligation.mandatory'') (\<lambda>mandatory.
      try_then (reject_if (mandatory > 1) Code_Invalid ''obligation.mandatory is not 0 or 1'')
     (try_then (need ts 8 ''domains'' 2 ''obligation needs domains'')
     (try_bind (parse_u32 (tok ts 9) ''obligation.domains'') (\<lambda>domains.
      try_then (need ts 10 ''diversity'' 2 ''obligation needs diversity'')
     (try_bind (parse_domain_kind (tok ts 11) ''obligation.diversity'') (\<lambda>diversity.
      try_then (need ts 12 ''prov'' 4 ''obligation needs prov'')
     (try_bind (parse_prov ts 13) (\<lambda>prov.
      Inr (with_snapshot (\<lambda>s. s\<lparr>sn_obligations := sn_obligations s @
        [\<lparr>ob_id = ident, ob_kind = kind, ob_tenant = tenant, ob_description = [], ob_protected_racks = [],
          ob_required_domains = domains, ob_diversity_kind = diversity, ob_requirements = [],
          ob_mandatory = (mandatory = 1), ob_provenance = inline_detail line ts 17 prov\<rparr>]\<rparr>) Cur_Obligation p)))))))))))))))))"

section \<open>Continuation lines\<close>

text \<open>\<open>back()\<close> of a vector, changed in place.\<close>

definition on_last :: "('a \<Rightarrow> 'a) \<Rightarrow> 'a list \<Rightarrow> 'a list" where
  "on_last f xs = (if xs = [] then [] else butlast xs @ [f (last xs)])"

definition describe_current :: "string \<Rightarrow> string \<Rightarrow> text_parser \<Rightarrow> text_parser" where
  "describe_current directive rest p =
     p\<lparr>tp_snapshot :=
       (let s = tp_snapshot p; desc = (directive = ''+desc'') in
        case tp_current p of
          Cur_Snapshot \<Rightarrow>
            if directive = ''+detail'' then s\<lparr>sn_provenance := (sn_provenance s)\<lparr>pv_detail := rest\<rparr>\<rparr> else s
        | Cur_Member \<Rightarrow> if desc then s\<lparr>sn_members := on_last (\<lambda>m. m\<lparr>mr_provenance :=
            (mr_provenance m)\<lparr>pv_detail := rest\<rparr>\<rparr>) (sn_members s)\<rparr> else s
        | Cur_Link \<Rightarrow> if desc then s\<lparr>sn_links := on_last (\<lambda>l. l\<lparr>lk_provenance :=
            (lk_provenance l)\<lparr>pv_detail := rest\<rparr>\<rparr>) (sn_links s)\<rparr> else s
        | Cur_Route \<Rightarrow> if desc then s\<lparr>sn_routes := on_last (\<lambda>r. r\<lparr>rt_provenance :=
            (rt_provenance r)\<lparr>pv_detail := rest\<rparr>\<rparr>) (sn_routes s)\<rparr> else s
        | Cur_Domain \<Rightarrow> if desc then s\<lparr>sn_domains := on_last (\<lambda>d. d\<lparr>fd_description := rest\<rparr>) (sn_domains s)\<rparr> else s
        | Cur_Obligation \<Rightarrow> if desc then s\<lparr>sn_obligations := on_last (\<lambda>b. b\<lparr>ob_description := rest\<rparr>) (sn_obligations s)\<rparr> else s
        | Cur_None \<Rightarrow> s)\<rparr>"

definition on_snapshot :: "(pod_snapshot \<Rightarrow> pod_snapshot) \<Rightarrow> text_parser \<Rightarrow> text_parser" where
  "on_snapshot f p = p\<lparr>tp_snapshot := f (tp_snapshot p)\<rparr>"

definition on_member :: "(member_record \<Rightarrow> member_record) \<Rightarrow> text_parser \<Rightarrow> text_parser" where
  "on_member f = on_snapshot (\<lambda>s. s\<lparr>sn_members := on_last f (sn_members s)\<rparr>)"

definition parse_capacity :: "string \<Rightarrow> view list \<Rightarrow> text_parser \<Rightarrow> text_parser result" where
  "parse_capacity line ts p =
     try_then (reject_if (length ts < 10) Code_Invalid ''+capacity takes nine arguments and a provenance'')
     (try_bind (parse_ident (tok ts 1)) (\<lambda>resource.
      try_bind (parse_ident (tok ts 2)) (\<lambda>exclusivity.
      try_bind (parse_u64 (tok ts 3) ''capacity.amount'') (\<lambda>amount.
      try_bind (parse_u64 (tok ts 4) ''capacity.reserved'') (\<lambda>reserved.
      try_bind (parse_ident (tok ts 5)) (\<lambda>domain.
      try_bind (parse_prov ts 6) (\<lambda>prov.
      Inr (on_member (\<lambda>m. m\<lparr>mr_capacity := mr_capacity m @
        [\<lparr>cc_resource = resource, cc_exclusivity = exclusivity, cc_amount = amount, cc_reserved = reserved,
          cc_domain = domain, cc_provenance = inline_detail line ts 10 prov\<rparr>]\<rparr>) p))))))))"

definition unrecognised :: "string \<Rightarrow> string \<Rightarrow> 'a result" where
  "unrecognised what directive =
     fail Code_Invalid (''unrecognised '' @ what @ '' '' @ [CHR 0x27] @ directive @ [CHR 0x27])"

definition member_line :: "string \<Rightarrow> string \<Rightarrow> view list \<Rightarrow> text_parser \<Rightarrow> text_parser result" where
  "member_line directive line ts p =
     (if directive = ''+domain''
      then try_then (reject_if (length ts \<noteq> 2) Code_Invalid ''+domain takes one argument'')
        (try_bind (parse_ident (tok ts 1)) (\<lambda>i.
         Inr (on_member (\<lambda>m. m\<lparr>mr_failure_domains := mr_failure_domains m @ [i]\<rparr>) p)))
      else if directive = ''+port''
      then try_then (reject_if (length ts \<noteq> 2) Code_Invalid ''+port takes one argument'')
        (try_bind (parse_ident (tok ts 1)) (\<lambda>i.
         Inr (on_member (\<lambda>m. m\<lparr>mr_ports := mr_ports m @ [i]\<rparr>) p)))
      else if directive = ''+capacity'' then parse_capacity line ts p
      else unrecognised ''continuation'' directive)"

definition route_line :: "string \<Rightarrow> view list \<Rightarrow> text_parser \<Rightarrow> text_parser result" where
  "route_line directive ts p =
     (if directive = ''+hop''
      then try_then (reject_if (length ts \<noteq> 3) Code_Invalid ''+hop takes two arguments'')
        (try_bind (parse_ident (tok ts 1)) (\<lambda>rack.
         try_bind (parse_u64 (tok ts 2) ''hop.gen'') (\<lambda>generation.
         Inr (on_snapshot (\<lambda>s. s\<lparr>sn_routes := on_last (\<lambda>r. r\<lparr>rt_path := rt_path r @ [rack],
           rt_path_generations := rt_path_generations r @ [generation]\<rparr>) (sn_routes s)\<rparr>) p))))
      else unrecognised ''continuation'' directive)"

definition domain_line :: "string \<Rightarrow> view list \<Rightarrow> text_parser \<Rightarrow> text_parser result" where
  "domain_line directive ts p =
     (if directive = ''+member''
      then try_then (reject_if (length ts \<noteq> 2) Code_Invalid ''+member takes one argument'')
        (try_bind (parse_ident (tok ts 1)) (\<lambda>i.
         Inr (on_snapshot (\<lambda>s. s\<lparr>sn_domains := on_last (\<lambda>d. d\<lparr>fd_members := fd_members d @ [i]\<rparr>) (sn_domains s)\<rparr>) p)))
      else unrecognised ''continuation'' directive)"

definition obligation_line :: "string \<Rightarrow> view list \<Rightarrow> text_parser \<Rightarrow> text_parser result" where
  "obligation_line directive ts p =
     (if directive = ''+rack''
      then try_then (reject_if (length ts \<noteq> 2) Code_Invalid ''+rack takes one argument'')
        (try_bind (parse_ident (tok ts 1)) (\<lambda>i.
         Inr (on_snapshot (\<lambda>s. s\<lparr>sn_obligations :=
           on_last (\<lambda>b. b\<lparr>ob_protected_racks := ob_protected_racks b @ [i]\<rparr>) (sn_obligations s)\<rparr>) p)))
      else if directive = ''+require''
      then try_then (reject_if (length ts \<noteq> 4) Code_Invalid ''+require takes three arguments'')
        (try_bind (parse_ident (tok ts 1)) (\<lambda>resource.
         try_bind (parse_u64 (tok ts 2) ''require.minimum'') (\<lambda>minimum.
         try_bind (parse_u32 (tok ts 3) ''require.margin'') (\<lambda>margin.
         Inr (on_snapshot (\<lambda>s. s\<lparr>sn_obligations := on_last (\<lambda>b. b\<lparr>ob_requirements := ob_requirements b @
           [\<lparr>cr_resource = resource, cr_minimum = minimum, cr_margin_percent = margin\<rparr>]\<rparr>) (sn_obligations s)\<rparr>) p)))))
      else unrecognised ''continuation'' directive)"

definition parse_continuation :: "string \<Rightarrow> string \<Rightarrow> view list \<Rightarrow> text_parser \<Rightarrow> text_parser result" where
  "parse_continuation directive line ts p =
     (if tp_current p = Cur_None then fail Code_Invalid ''continuation line has no preceding record''
      else if directive = ''+detail'' \<or> directive = ''+desc''
      then Inr (describe_current directive (rest_of_line line ts 1) p)
      else case tp_current p of
        Cur_Member \<Rightarrow> member_line directive line ts p
      | Cur_Route \<Rightarrow> route_line directive ts p
      | Cur_Domain \<Rightarrow> domain_line directive ts p
      | Cur_Obligation \<Rightarrow> obligation_line directive ts p
      | k \<Rightarrow> unrecognised ''continuation'' directive)"

section \<open>Lines and documents\<close>

definition handle_line :: "string \<Rightarrow> view list \<Rightarrow> text_parser \<Rightarrow> text_parser result" where
  "handle_line line ts p =
     (let directive = tok ts 0 in
      if directive = ''pod''
      then try_then (reject_if (length ts \<noteq> 2) Code_Invalid ''pod directive takes one argument'')
        (try_bind (parse_ident (tok ts 1)) (\<lambda>i. Inr (on_snapshot (\<lambda>s. s\<lparr>sn_pod := i\<rparr>) p)))
      else if directive = ''schema''
      then try_then (reject_if (length ts \<noteq> 2) Code_Invalid ''schema directive takes one argument'')
        (Inr (on_snapshot (\<lambda>s. s\<lparr>sn_schema := tok ts 1\<rparr>) p))
      else if directive = ''observed-at''
      then try_then (reject_if (length ts \<noteq> 2) Code_Invalid ''observed-at takes one argument'')
        (try_bind (parse_i64 (tok ts 1) ''observed-at'') (\<lambda>t. Inr (on_snapshot (\<lambda>s. s\<lparr>sn_observed_at := t\<rparr>) p)))
      else if directive = ''member'' then parse_member ts p
      else if directive = ''link'' then parse_link ts p
      else if directive = ''route'' then parse_route ts p
      else if directive = ''fdom'' then parse_domain line ts p
      else if directive = ''obligation'' then parse_obligation line ts p
      else if directive = ''prov''
      then try_bind (parse_prov ts 1) (\<lambda>v. Inr (with_snapshot (\<lambda>s. s\<lparr>sn_provenance := v\<rparr>) Cur_Snapshot p))
      else if hd directive = CHR ''+'' then parse_continuation directive line ts p
      else unrecognised ''directive'' directive)"

definition parser_new :: text_parser where
  "parser_new =
     \<lparr>tp_snapshot = \<lparr>sn_pod = [], sn_schema = [], sn_members = [], sn_links = [], sn_routes = [], sn_domains = [],
        sn_obligations = [], sn_provenance = provenance_default, sn_observed_at = 0\<rparr>, tp_current = Cur_None\<rparr>"

text \<open>What follows the end marker: \<open>None\<close> when the marker ends the text without a newline, where
  \<open>substr\<close> is called past the end.\<close>

definition after_end :: "string option \<Rightarrow> unit result" where
  "after_end tail =
     (case tail of
        None \<Rightarrow> Inl (Undefined ''substr throws out_of_range'')
      | Some rest \<Rightarrow> reject_if (\<exists>c \<in> set rest. c \<notin> {CHR '' '', CHR 0x09, CHR 0x0D, CHR 0x0A}) Code_Invalid
          ''content follows the end marker'')"

definition without_return :: "string \<Rightarrow> string" where
  "without_return line = (if line \<noteq> [] \<and> last line = CHR 0x0D then butlast line else line)"

text \<open>The text from the cursor up to its next newline, and what is after the newline.\<close>

definition cut_line :: "string \<Rightarrow> string \<times> string option" where
  "cut_line rest =
     (without_return (takeWhile (\<lambda>c. c \<noteq> CHR 0x0A) rest),
      case dropWhile (\<lambda>c. c \<noteq> CHR 0x0A) rest of [] \<Rightarrow> None | c # cs \<Rightarrow> Some cs)"

definition check_line :: "nat \<Rightarrow> string \<Rightarrow> unit result" where
  "check_line n line =
     try_then (reject_if (n > max_lines) Code_Invalid ''text document has too many lines'')
     (try_then (reject_if (length line > max_line_bytes) Code_Invalid ''text document has an oversized line'')
     (reject_if (\<not> is_valid_utf8 line) Code_Invalid ''text document contains invalid UTF-8''))"

lemma cut_line_shorter: "snd (cut_line rest) = Some tail \<Longrightarrow> length tail < length rest"
  using length_dropWhile_le[of "\<lambda>c. c \<noteq> CHR 0x0A" rest] by (auto simp: cut_line_def split: list.splits)

text \<open>One turn of the loop: the state, and whether the end was seen; then whether the loop goes on.\<close>

definition parse_line ::
  "nat \<Rightarrow> bool \<Rightarrow> text_parser \<Rightarrow> string \<Rightarrow> string option \<Rightarrow> (bool \<times> bool \<times> text_parser) result" where
  "parse_line n header p line tail =
     try_then (check_line n line)
     (let ts = split_tokens line in
      if ts = [] then Inr (header, False, p)
      else if \<not> header
      then if tok ts 0 \<noteq> text_schema then fail Code_Unsupported ''unrecognised document header''
           else Inr (True, False, on_snapshot (\<lambda>s. s\<lparr>sn_schema := snapshot_schema\<rparr>) p)
      else if tok ts 0 = ''end'' then try_then (after_end tail) (Inr (True, True, p))
      else try_bind (handle_line line ts p) (\<lambda>q. Inr (True, False, q)))"

function parse_lines :: "nat \<Rightarrow> bool \<Rightarrow> text_parser \<Rightarrow> string \<Rightarrow> (bool \<times> bool \<times> text_parser) result" where
  "parse_lines n header p rest =
     (case cut_line rest of (line, tail) \<Rightarrow>
      try_bind (parse_line (Suc n) header p line tail) (\<lambda>(h, over, q).
        case tail of
          None \<Rightarrow> Inr (h, over, q)
        | Some after \<Rightarrow> if over then Inr (h, over, q) else parse_lines (Suc n) h q after))"
  by pat_completeness auto
termination
  by (relation "measure (\<lambda>(n, header, p, rest). length rest)") (auto, metis cut_line_shorter snd_conv)

declare parse_lines.simps [simp del]

definition snapshot_from_text :: "string \<Rightarrow> pod_snapshot result" where
  "snapshot_from_text t =
     try_bind (parse_lines 0 False parser_new t) (\<lambda>(header, over, p).
       try_then (reject_if (\<not> header) Code_Invalid ''text document has no header line'')
       (try_then (reject_if (\<not> over) Code_Incomplete ''text document has no end marker'')
       (Inr (tp_snapshot p))))"

lemma parse_route_refuses: "\<exists>e. parse_route ts p = Inl e"
proof (cases "parse_route ts p")
  case (Inr q)
  then have "\<not> length ts < 20" "\<not> length ts > 19" by (auto simp: parse_route_def result_simps)
  then show ?thesis by simp
qed simp

text \<open>No record of the document is a route, and no route is the current record.\<close>

definition routeless :: "text_parser \<Rightarrow> bool" where
  "routeless p \<longleftrightarrow> sn_routes (tp_snapshot p) = [] \<and> tp_current p \<noteq> Cur_Route"

lemma records_routeless:
  assumes "routeless p"
  shows "parse_member ts p = Inr q \<Longrightarrow> routeless q" "parse_link ts p = Inr q \<Longrightarrow> routeless q"
    "parse_domain line ts p = Inr q \<Longrightarrow> routeless q" "parse_obligation line ts p = Inr q \<Longrightarrow> routeless q"
  using assms
  by (auto simp: parse_member_def parse_link_def parse_domain_def parse_obligation_def result_simps routeless_def with_snapshot_def)

lemma continuation_routeless:
  assumes "routeless p" "parse_continuation directive line ts p = Inr q"
  shows "routeless q"
  using assms
  by (auto simp: parse_continuation_def member_line_def domain_line_def obligation_line_def parse_capacity_def
      describe_current_def unrecognised_def on_member_def on_snapshot_def result_simps routeless_def Let_def
      split: if_splits current.splits)

lemma handle_line_routeless:
  assumes "routeless p" "handle_line line ts p = Inr q"
  shows "routeless q"
  using assms parse_route_refuses[of ts p] records_routeless[OF assms(1)] continuation_routeless[OF assms(1)]
  by (auto simp: handle_line_def Let_def result_simps unrecognised_def on_snapshot_def with_snapshot_def routeless_def
      split: if_splits)

lemma parse_line_routeless:
  "routeless p \<Longrightarrow> parse_line n header p line tail = Inr (h, over, q) \<Longrightarrow> routeless q"
  by (auto simp: parse_line_def Let_def result_simps dest: handle_line_routeless split: if_splits)
    (simp_all add: on_snapshot_def routeless_def)

lemma parse_lines_routeless:
  "routeless p \<Longrightarrow> parse_lines n header p rest = Inr (h, over, q) \<Longrightarrow> routeless q"
proof (induction n header p rest rule: parse_lines.induct)
  case (1 n header p rest)
  obtain line tail where c: "cut_line rest = (line, tail)" by force
  obtain h1 o1 q1 where l: "parse_line (Suc n) header p line tail = Inr (h1, o1, q1)"
    "(case tail of None \<Rightarrow> Inr (h1, o1, q1) | Some after \<Rightarrow> if o1 then Inr (h1, o1, q1) else parse_lines (Suc n) h1 q1 after) = Inr (h, over, q)"
    using 1(3) unfolding parse_lines.simps[of n header p rest] c by (auto simp: result_simps)
  have r: "routeless q1" by (rule parse_line_routeless[OF 1(2) l(1)])
  show ?case
  proof (cases tail)
    case (Some after)
    then show ?thesis using 1(1)[OF c[symmetric] Some _ r] l(2) r by (cases o1) auto
  qed (use l(2) r in simp)
qed

end
