(* ===== verification/Text_Document.thy ===== *)
theory Text_Document
  imports Text_Parse
begin

text \<open>
  The text form of a snapshot: \<open>to_text(const PodSnapshot&)\<close> of \<open>codec/text.cpp\<close>, and its
  relation to the parser of \<open>Text_Parse\<close>. A rendering is the text the code appends, piece by piece.
\<close>

section \<open>Rendering\<close>

definition prov_inline :: "provenance \<Rightarrow> string" where
  "prov_inline v =
     quality_to_string (pv_quality v) @ '' '' @ class_to_string (pv_class v) @ '' '' @ id_or_dash (pv_source v) @
     '' '' @ dec_u64 (pv_sequence v)"

text \<open>A free text on a line of its own, when there is one.\<close>

definition described :: "string \<Rightarrow> string \<Rightarrow> string" where
  "described directive t = (if t \<noteq> [] then directive @ '' '' @ escape_text t @ newline else [])"

text \<open>A free text at the end of a line, when there is one.\<close>

definition trailing :: "string \<Rightarrow> string" where
  "trailing t = (if t \<noteq> [] then '' '' @ escape_text t else [])"

definition claim_text :: "capacity_claim \<Rightarrow> string" where
  "claim_text c =
     ''+capacity '' @ id_or_dash (cc_resource c) @ '' '' @ id_or_dash (cc_exclusivity c) @ '' '' @ dec_u64 (cc_amount c) @
     '' '' @ dec_u64 (cc_reserved c) @ '' '' @ id_or_dash (cc_domain c) @ '' '' @ prov_inline (cc_provenance c) @
     trailing (pv_detail (cc_provenance c)) @ newline"

definition member_record_text :: "member_record \<Rightarrow> string" where
  "member_record_text m =
     ''member '' @ id_or_dash (mr_rack m) @ '' gen '' @ dec_u64 (mr_generation m) @
     '' digest '' @ digest_to_hex (mr_digest m) @
     '' rnf '' @ (if mr_rnf_schema m = [] then ''-'' else mr_rnf_schema m) @
     '' state '' @ membership_to_string (mr_membership m) @ '' admin '' @ admin_to_string (mr_admin m) @
     '' health '' @ health_to_string (mr_health m) @ '' observed '' @ dec_string_int (mr_observed_at m) @
     '' prov '' @ prov_inline (mr_provenance m) @ newline @
     described ''+desc'' (pv_detail (mr_provenance m)) @
     id_lines ''+domain'' (mr_failure_domains m) @ id_lines ''+port'' (mr_ports m) @
     concat (map claim_text (mr_capacity m))"

definition link_record_text :: "link_record \<Rightarrow> string" where
  "link_record_text l =
     ''link '' @ id_or_dash (lk_id l) @ '' a '' @ id_or_dash (le_rack (lk_a l)) @ '' '' @ id_or_dash (le_port (lk_a l)) @
     '' b '' @ id_or_dash (le_rack (lk_b l)) @ '' '' @ id_or_dash (le_port (lk_b l)) @
     '' agen '' @ dec_u64 (lk_a_generation l) @ '' bgen '' @ dec_u64 (lk_b_generation l) @
     '' domain '' @ id_or_dash (lk_domain l) @ '' resource '' @ id_or_dash (lk_resource l) @
     '' capacity '' @ dec_u64 (lk_capacity l) @ '' admin '' @ admin_to_string (lk_admin l) @
     '' oper '' @ oper_to_string (lk_oper l) @ '' route '' @ id_or_dash (lk_route l) @
     '' observed '' @ dec_string_int (lk_observed_at l) @ '' prov '' @ prov_inline (lk_provenance l) @ newline @
     described ''+desc'' (pv_detail (lk_provenance l))"

definition hop_line :: "route_evidence \<Rightarrow> nat \<Rightarrow> string" where
  "hop_line r i =
     ''+hop '' @ id_or_dash (rt_path r ! i) @ '' '' @
     dec_u64 (if i < length (rt_path_generations r) then rt_path_generations r ! i else 0) @ newline"

definition route_record_text :: "route_evidence \<Rightarrow> string" where
  "route_record_text r =
     ''route '' @ id_or_dash (rt_ref r) @ '' gen '' @ dec_u64 (rt_generation r) @
     '' digest '' @ digest_to_hex (rt_authority_digest r) @ '' resource '' @ id_or_dash (rt_resource r) @
     '' capacity '' @ dec_u64 (rt_committed_capacity r) @ '' state '' @ route_state_to_string (rt_state r) @
     '' observed '' @ dec_string_int (rt_observed_at r) @ '' prov '' @ prov_inline (rt_provenance r) @ newline @
     described ''+desc'' (pv_detail (rt_provenance r)) @
     concat (map (hop_line r) [0..<length (rt_path r)])"

definition domain_record_text :: "failure_domain_record \<Rightarrow> string" where
  "domain_record_text d =
     ''fdom '' @ id_or_dash (fd_id d) @ '' kind '' @ domain_kind_to_string (fd_kind d) @
     '' prov '' @ prov_inline (fd_provenance d) @ trailing (pv_detail (fd_provenance d)) @ newline @
     described ''+desc'' (fd_description d) @ id_lines ''+member'' (fd_members d)"

definition require_text :: "capacity_requirement \<Rightarrow> string" where
  "require_text r =
     ''+require '' @ id_or_dash (cr_resource r) @ '' '' @ dec_u64 (cr_minimum r) @ '' '' @ dec_u64 (cr_margin_percent r) @ newline"

definition obligation_record_text :: "obligation \<Rightarrow> string" where
  "obligation_record_text b =
     ''obligation '' @ id_or_dash (ob_id b) @ '' kind '' @ obligation_kind_to_string (ob_kind b) @
     '' tenant '' @ id_or_dash (ob_tenant b) @ '' mandatory '' @ flag (ob_mandatory b) @
     '' domains '' @ dec_u64 (ob_required_domains b) @ '' diversity '' @ domain_kind_to_string (ob_diversity_kind b) @
     '' prov '' @ prov_inline (ob_provenance b) @ trailing (pv_detail (ob_provenance b)) @ newline @
     described ''+desc'' (ob_description b) @ id_lines ''+rack'' (ob_protected_racks b) @
     concat (map require_text (ob_requirements b))"

definition snapshot_text :: "pod_snapshot \<Rightarrow> string" where
  "snapshot_text s =
     text_line text_schema @
     text_kv ''schema'' (if sn_schema s = [] then snapshot_schema else sn_schema s) @
     text_kv ''pod'' (id_or_dash (sn_pod s)) @ text_kv ''observed-at'' (dec_string_int (sn_observed_at s)) @
     ''prov '' @ prov_inline (sn_provenance s) @ newline @ described ''+detail'' (pv_detail (sn_provenance s)) @
     concat (map member_record_text (sn_members s)) @ concat (map link_record_text (sn_links s)) @
     concat (map route_record_text (sn_routes s)) @ concat (map domain_record_text (sn_domains s)) @
     concat (map obligation_record_text (sn_obligations s)) @ text_line ''end''"

end
