(* ===== verification/Text_Scan.thy ===== *)
theory Text_Scan
  imports Text_Parse
begin

text \<open>
  What the scanner of \<open>Text_Parse\<close> does with text that was written by the renderer: numbers
  are read exactly, words that are separated by single spaces become tokens, and a trimmed free
  text at the end of a line is recovered from the tokens.
\<close>

section \<open>Numbers\<close>

definition digit :: "char \<Rightarrow> bool" where
  "digit c \<longleftrightarrow> CHR ''0'' \<le> c \<and> c \<le> CHR ''9''"

lemma digit_value: "digit c \<Longrightarrow> of_char c - 48 < (10::nat)"
  by (auto simp: digit_def less_eq_char_def)

lemma dec_value_grows: "acc \<le> dec_value cs acc"
proof (induction cs arbitrary: acc)
  case (Cons c cs)
  have "acc \<le> 10 * acc + (of_char c - 48)" by simp
  also have "\<dots> \<le> dec_value cs (10 * acc + (of_char c - 48))" by (rule Cons.IH)
  finally show ?case by simp
qed simp

lemma digits_u64_exact:
  "digits_u64 what cs v = Inr r \<longleftrightarrow> list_all digit cs \<and> dec_value cs (unat v) < 2 ^ 64 \<and> unat r = dec_value cs (unat v)"
proof (induction cs arbitrary: v)
  case Nil
  show ?case using unat_u64_bound[of v] by (auto simp: word_unat_eq_iff)
next
  case (Cons c cs)
  show ?case
  proof (cases "digit c")
    case False
    then show ?thesis by (auto simp: digit_def field_fault_def not_le)
  next
    case True
    let ?d = "of_char c - 48 :: nat"
    have d: "?d < 10" by (rule digit_value[OF True])
    have u: "unat (of_nat ?d :: u64) = ?d" using d by (simp add: unat_of_nat take_bit_nat_eq_self)
    have m: "unat (0xFFFFFFFFFFFFFFFF - of_nat ?d :: u64) = 18446744073709551615 - ?d"
      using d u by (subst unat_sub) (auto simp: word_le_nat_alt)
    have o: "v > (0xFFFFFFFFFFFFFFFF - of_nat ?d) div 10 \<longleftrightarrow> 10 * unat v + ?d \<ge> 2 ^ 64"
      using d by (auto simp: word_less_nat_alt unat_div m)
    show ?thesis
    proof (cases "10 * unat v + ?d < 2 ^ 64")
      case True
      then have "unat (v * 10 + of_nat ?d) = 10 * unat v + ?d"
        using u by (simp add: unat_word_ariths take_bit_nat_eq_self)
      moreover have "digits_u64 what (c # cs) v = digits_u64 what cs (v * 10 + of_nat ?d)"
      proof -
        have "\<not> (c < CHR ''0'' \<or> c > CHR ''9'')" using \<open>digit c\<close> by (auto simp: digit_def)
        moreover have "\<not> v > (0xFFFFFFFFFFFFFFFF - of_nat ?d) div 10" using True o by simp
        ultimately show ?thesis by (simp only: digits_u64.simps Let_def if_False)
      qed
      ultimately show ?thesis using \<open>digit c\<close> Cons.IH[of "v * 10 + of_nat ?d"] by simp
    next
      case False
      then have "\<not> dec_value cs (10 * unat v + ?d) < 2 ^ 64"
        using dec_value_grows[of "10 * unat v + ?d" cs] by simp
      then show ?thesis using False \<open>digit c\<close> o by (auto simp: Let_def field_fault_def digit_def)
    qed
  qed
qed

lemma dec_string_digits: "list_all digit (dec_string n)"
proof (induction n rule: dec_string.induct)
  case (1 n)
  have "digit (char_of (48 + k))" if "k < 10" for k :: nat
    using that by (simp add: digit_def less_eq_char_def)
  then show ?case using 1 by (subst dec_string.simps) (auto simp: list_all_append)
qed

lemma length_dec_string: "n < 10 ^ k \<Longrightarrow> 0 < k \<Longrightarrow> length (dec_string n) \<le> k"
proof (induction n arbitrary: k rule: dec_string.induct)
  case (1 n)
  show ?case
  proof (cases "n < 10")
    case True
    then show ?thesis using 1(3) by (subst dec_string.simps) simp
  next
    case False
    obtain j where j: "k = Suc j" using 1(3) by (cases k) auto
    have "0 < j" using False 1(2) j by (cases j) auto
    moreover have "n div 10 < 10 ^ j" using 1(2) j by (simp add: less_mult_imp_div_less mult.commute)
    ultimately show ?thesis using 1(1)[OF False, of j] False j by (subst dec_string.simps) simp
  qed
qed

lemma parse_u64_dec: "n < 2 ^ 64 \<Longrightarrow> parse_u64 (dec_string n) what = Inr (of_nat n)"
proof -
  assume n: "n < 2 ^ 64"
  then have "length (dec_string n) \<le> 20" by (intro length_dec_string) auto
  moreover have "digits_u64 what (dec_string n) 0 = Inr (of_nat n)"
    using n by (simp add: digits_u64_exact dec_string_digits dec_value_dec_string unat_of_nat take_bit_nat_eq_self)
  ultimately show ?thesis by (simp add: parse_u64_def)
qed

lemma parse_u64_word [simp]: "parse_u64 (dec_u64 w) what = Inr w" for w :: u64
  using parse_u64_dec[of "unat w"] unat_u64_bound[of w] by (simp add: dec_u64_def)

lemma parse_u32_word [simp]: "parse_u32 (dec_u64 w) what = Inr w" for w :: u32
proof -
  have w: "unat w < 2 ^ 32" using unat_bound[of w] by simp
  then have "take_bit 64 (unat w) = unat w" by (intro take_bit_nat_eq_self) simp
  then have "unat (ucast w :: u64) = unat w" by (simp add: unsigned_ucast_eq)
  moreover have "(ucast (ucast w :: u64) :: u32) = w" by (rule bit_word_eqI) (simp add: bit_ucast_iff)
  ultimately show ?thesis using w parse_u64_dec[of "unat w" what]
    by (simp add: parse_u32_def dec_u64_def word_less_nat_alt)
qed

lemma parse_flag [simp]: "parse_u32 (flag b) what = Inr (if b then 1 else 0)"
  by (simp add: parse_u32_def parse_u64_def flag_def)

lemma hd_dec_string: "hd (dec_string n) \<noteq> CHR ''-''" "hd (dec_string n) \<noteq> CHR ''+''"
  using dec_string_digits[of n] by (cases "dec_string n"; force simp: digit_def less_eq_char_def)+

lemma parse_i64_dec [simp]: "time_ok t \<Longrightarrow> parse_i64 (dec_string_int t) what = Inr t"
proof -
  assume t: "time_ok t"
  show ?thesis
  proof (cases "t < 0")
    case True
    then have n: "nat (- t) \<le> 2 ^ 63" using t by (auto simp: time_ok_def)
    then have "unat (of_nat (nat (- t)) :: u64) = nat (- t)" by (simp add: unat_of_nat take_bit_nat_eq_self)
    then show ?thesis using True n parse_u64_dec[of "nat (- t)" what]
      by (auto simp: parse_i64_def dec_string_int_def word_less_nat_alt word_unat_eq_iff)
  next
    case False
    then have n: "nat t < 2 ^ 63" using t by (auto simp: time_ok_def)
    then have "unat (of_nat (nat t) :: u64) = nat t" by (simp add: unat_of_nat take_bit_nat_eq_self)
    then show ?thesis using False n parse_u64_dec[of "nat t" what]
      by (auto simp: parse_i64_def dec_string_int_def word_less_nat_alt hd_dec_string)
  qed
qed

section \<open>Words and lines\<close>

definition text_word :: "string \<Rightarrow> bool" where
  "text_word w \<longleftrightarrow> w \<noteq> [] \<and> (\<forall>c \<in> set w. c \<notin> {CHR '' '', CHR 0x09, CHR 0x0A, CHR 0x0D})"

fun spaced :: "string list \<Rightarrow> string" where
  "spaced [] = []"
| "spaced [w] = w"
| "spaced (w # v # ws) = w @ CHR '' '' # spaced (v # ws)"

fun views :: "nat \<Rightarrow> string list \<Rightarrow> view list" where
  "views i [] = []"
| "views i (w # ws) = (i, w) # views (i + length w + 1) ws"

lemma length_views [simp]: "length (views i ws) = length ws"
  by (induction i ws rule: views.induct) auto

lemma tok_views: "k < length ws \<Longrightarrow> tok (views i ws @ us) k = ws ! k"
proof (induction i ws arbitrary: k rule: views.induct)
  case (2 i w ws)
  then show ?case by (cases k) (auto simp: tok_def)
qed simp

lemma word_not_blank: "text_word w \<Longrightarrow> c \<in> set w \<Longrightarrow> \<not> blank c"
  by (auto simp: text_word_def blank_def)

lemma blank_space [simp]: "blank (CHR '' '')"
  by (simp add: blank_def)

lemma split_from_blank: "split_from i (CHR '' '' # line) = split_from (Suc i) line"
  unfolding split_from.simps[of i] split_from.simps[of "Suc i"]
  by (cases "dropWhile blank line") (simp_all del: dropWhile_eq_Nil_conv)

lemma split_from_word:
  assumes "text_word w" "rest = [] \<or> blank (hd rest)"
  shows "split_from i (w @ rest) = (i, w) # split_from (i + length w) rest"
proof -
  obtain c cs where w: "w = c # cs" using assms(1) by (cases w) (auto simp: text_word_def)
  have n: "\<forall>c \<in> set w. \<not> blank c" using word_not_blank[OF assms(1)] by blast
  have "takeWhile (\<lambda>c. \<not> blank c) rest = []" "dropWhile (\<lambda>c. \<not> blank c) rest = rest"
    using assms(2) by (cases rest; simp)+
  then have "takeWhile (\<lambda>c. \<not> blank c) (w @ rest) = w" "dropWhile (\<lambda>c. \<not> blank c) (w @ rest) = rest"
    using n by (simp_all add: takeWhile_append2 dropWhile_append2)
  moreover have "takeWhile blank (w @ rest) = []" "dropWhile blank (w @ rest) = w @ rest" using n w by simp_all
  ultimately show ?thesis unfolding split_from.simps[of i "w @ rest"] by (simp add: w Let_def)
qed

lemma split_from_spaced:
  assumes "list_all text_word ws" "ws \<noteq> []" "rest = [] \<or> blank (hd rest)"
  shows "split_from i (spaced ws @ rest) = views i ws @ split_from (i + length (spaced ws)) rest"
  using assms
proof (induction ws arbitrary: i rule: spaced.induct)
  case (2 w)
  then show ?case using split_from_word[of w rest i] by simp
next
  case (3 w v ws)
  have "split_from i (w @ CHR '' '' # spaced (v # ws) @ rest) = (i, w) # split_from (i + length w) (CHR '' '' # spaced (v # ws) @ rest)"
    using 3(2) by (intro split_from_word) (auto simp: blank_def)
  then show ?case using 3 by (simp add: split_from_blank add.assoc)
qed simp

definition trimmed :: "string \<Rightarrow> bool" where
  "trimmed d \<longleftrightarrow> d \<noteq> [] \<and> \<not> blank (hd d) \<and> \<not> blank (last d)"

lemma split_from_end: "line \<noteq> [] \<Longrightarrow> \<not> blank (last line) \<Longrightarrow>
    split_from i line \<noteq> [] \<and> fst (last (split_from i line)) + length (snd (last (split_from i line))) = i + length line"
proof (induction i line rule: split_from.induct)
  case (1 i line)
  let ?a = "takeWhile blank line" and ?b = "dropWhile blank line"
  obtain c cs where c: "?b = c # cs"
    using 1(2,3) by (cases ?b) (auto simp: dropWhile_eq_Nil_conv)
  let ?w = "takeWhile (\<lambda>c. \<not> blank c) (c # cs)" and ?r = "dropWhile (\<lambda>c. \<not> blank c) (c # cs)"
  have l: "length line = length ?a + length (c # cs)" using c takeWhile_dropWhile_id[of blank line] by (metis length_append)
  have r: "length (c # cs) = length ?w + length ?r" using takeWhile_dropWhile_id[of "\<lambda>c. \<not> blank c" "c # cs"] by (metis length_append)
  have s: "split_from i line = (i + length ?a, ?w) # split_from (i + length ?a + length ?w) ?r"
    unfolding split_from.simps[of i line] c by (simp add: Let_def)
  show ?case
  proof (cases "?r = []")
    case True
    then have "split_from (i + length ?a + length ?w) ?r = []" by (simp add: split_from.simps)
    then show ?thesis using s l r True by simp
  next
    case False
    have "last ?r = last line"
      using False c takeWhile_dropWhile_id[of "\<lambda>c. \<not> blank c" "c # cs"] takeWhile_dropWhile_id[of blank line]
      by (metis last_appendR list.distinct(1))
    then have "split_from (i + length ?a + length ?w) ?r \<noteq> [] \<and>
      fst (last (split_from (i + length ?a + length ?w) ?r)) + length (snd (last (split_from (i + length ?a + length ?w) ?r))) =
        i + length ?a + length ?w + length ?r"
      using 1(1)[OF c refl refl False] 1(3) by simp
    then show ?thesis using s l r by simp
  qed
qed

lemma split_from_start: "line \<noteq> [] \<Longrightarrow> \<not> blank (hd line) \<Longrightarrow> fst (hd (split_from i line)) = i"
  by (cases line) (simp_all add: split_from.simps[of i] Let_def)

text \<open>A line: words, and perhaps a free text.\<close>

definition line_of :: "string list \<Rightarrow> string \<Rightarrow> string" where
  "line_of ws d = spaced ws @ (if d = [] then [] else CHR '' '' # d)"

lemma split_line:
  assumes "list_all text_word ws" "ws \<noteq> []" "d = [] \<or> trimmed d"
  shows "\<exists>us. split_tokens (line_of ws d) = views 0 ws @ us \<and> (us = [] \<longleftrightarrow> d = []) \<and>
    (d \<noteq> [] \<longrightarrow> rest_of_line (line_of ws d) (views 0 ws @ us) (length ws) = d)"
proof (cases "d = []")
  case True
  then show ?thesis using split_from_spaced[OF assms(1,2), of "[]" 0]
    by (auto simp: line_of_def split_tokens_def split_from.simps[of _ "[]"])
next
  case False
  let ?n = "length (spaced ws)" and ?us = "split_from (Suc (length (spaced ws))) d"
  have d: "d \<noteq> []" "\<not> blank (hd d)" "\<not> blank (last d)" using assms(3) False by (auto simp: trimmed_def)
  have s: "split_tokens (line_of ws d) = views 0 ws @ ?us"
    using split_from_spaced[OF assms(1,2), of "CHR '' '' # d" 0] False
    by (simp add: line_of_def split_tokens_def split_from_blank blank_def)
  have e: "?us \<noteq> []" "fst (last ?us) + length (snd (last ?us)) = Suc ?n + length d" "fst (hd ?us) = Suc ?n"
    using split_from_end[OF d(1,3)] split_from_start[OF d(1,2)] by auto
  then have "(views 0 ws @ ?us) ! length ws = hd ?us" by (simp add: nth_append hd_conv_nth)
  then have "rest_of_line (line_of ws d) (views 0 ws @ ?us) (length ws) = d"
    using e False d(1) by (simp add: rest_of_line_def line_of_def Let_def)
  then show ?thesis using s e(1) False by blast
qed

section \<open>The words of a rendering\<close>

lemma word_chars: "w \<noteq> [] \<Longrightarrow> (\<And>c. c \<in> set w \<Longrightarrow> CHR '' '' < c) \<Longrightarrow> text_word w"
  by (force simp: text_word_def less_char_def)

lemma word_dec [simp]: "text_word (dec_string n)"
  using dec_string_digits[of n]
  by (intro word_chars) (auto simp: list_all_iff digit_def less_eq_char_def less_char_def)

lemma word_dec_u64 [simp]: "text_word (dec_u64 v)"
  by (simp add: dec_u64_def)

lemma word_Cons: "text_word w \<Longrightarrow> c \<notin> {CHR '' '', CHR 0x09, CHR 0x0A, CHR 0x0D} \<Longrightarrow> text_word (c # w)"
  by (simp add: text_word_def)

lemma word_dec_int [simp]: "text_word (dec_string_int t)"
  by (simp add: dec_string_int_def word_Cons)

lemma word_flag [simp]: "text_word (flag b)"
  by (simp add: text_word_def flag_def)

lemma nibbles: "unat (drop_bit 4 b) < 16" "unat (and b 0x0F) < 16" for b :: u8
proof -
  show "unat (drop_bit 4 b) < 16"
    using unat_bound[of b] by (simp add: unat_drop_bit_eq drop_bit_eq_div less_mult_imp_div_less unat_div)
  show "unat (and b 0x0F) < 16" using word_and_le1[of b 15] by (simp add: word_le_nat_alt)
qed

lemma word_hex [simp]: "d \<noteq> [] \<Longrightarrow> text_word (digest_to_hex d)"
proof (rule word_chars)
  assume "d \<noteq> []" then show "digest_to_hex d \<noteq> []" by (cases d) (simp_all add: digest_to_hex_def)
next
  fix c assume "c \<in> set (digest_to_hex d)"
  then obtain v :: u8 where "c = hex_digit v" "unat v < 16"
    using nibbles by (auto simp: digest_to_hex_def hex_high_def hex_low_def)
  then show "CHR '' '' < c" by (simp add: hex_digit_def less_char_def)
qed

lemma word_quality [simp]: "text_word (quality_to_string v)"
  by (cases v) (simp_all add: text_word_def)

lemma word_class [simp]: "text_word (class_to_string v)"
  by (cases v) (simp_all add: text_word_def)

lemma word_membership [simp]: "text_word (membership_to_string v)"
  by (cases v) (simp_all add: text_word_def)

lemma word_admin [simp]: "text_word (admin_to_string v)"
  by (cases v) (simp_all add: text_word_def)

lemma word_health [simp]: "text_word (health_to_string v)"
  by (cases v) (simp_all add: text_word_def)

lemma word_oper [simp]: "text_word (oper_to_string v)"
  by (cases v) (simp_all add: text_word_def)

lemma word_domain_kind [simp]: "text_word (domain_kind_to_string v)"
  by (cases v) (simp_all add: text_word_def)

lemma word_obligation_kind [simp]: "text_word (obligation_kind_to_string v)"
  by (cases v) (simp_all add: text_word_def)

lemma word_route_state [simp]: "text_word (route_state_to_string v)"
  by (cases v) (simp_all add: text_word_def)

lemma canonical_iff: "is_canonical_id i \<longleftrightarrow> i \<noteq> [] \<and> length i \<le> max_id_length \<and> is_lower_alnum (hd i) \<and>
    \<not> is_separator (last i) \<and> list_all (\<lambda>c. is_lower_alnum c \<or> is_separator c) i"
  by (simp add: is_canonical_id_def not_less)

lemma word_canonical: "is_canonical_id i \<Longrightarrow> text_word i \<and> i \<noteq> ''-''"
proof -
  assume i: "is_canonical_id i"
  have "c \<notin> {CHR '' '', CHR 0x09, CHR 0x0A, CHR 0x0D}" if "is_lower_alnum c \<or> is_separator c" for c
    using that by (auto simp: is_lower_alnum_def is_separator_def less_eq_char_def)
  then show ?thesis using i by (auto simp: canonical_iff text_word_def list_all_iff is_lower_alnum_def less_eq_char_def)
qed

lemma word_id_or_dash [simp]: "id_ok i \<Longrightarrow> text_word (id_or_dash i)"
  using word_canonical[of i] by (auto simp: id_ok_def id_or_dash_def text_word_def)

section \<open>Reading the words back\<close>

lemma parse_quality_string [simp]: "parse_quality (quality_to_string q) = Inr q"
  by (cases q) (simp_all add: parse_quality_def parse_enum_def)

lemma parse_class_string [simp]: "parse_class (class_to_string k) = Inr k"
  by (cases k) (simp_all add: parse_class_def parse_enum_def)

lemma parse_membership_string [simp]: "parse_membership (membership_to_string m) = Inr m"
  by (cases m) (simp_all add: parse_membership_def parse_enum_def)

lemma parse_admin_string [simp]: "parse_admin (admin_to_string a) = Inr a"
  by (cases a) (simp_all add: parse_admin_def parse_enum_def)

lemma parse_health_string [simp]: "parse_health (health_to_string h) = Inr h"
  by (cases h) (simp_all add: parse_health_def parse_enum_def)

lemma parse_oper_string [simp]: "parse_oper (oper_to_string p) = Inr p"
  by (cases p) (simp_all add: parse_oper_def parse_enum_def)

lemma parse_domain_kind_string [simp]: "parse_domain_kind (domain_kind_to_string d) what = Inr d"
  by (cases d) (simp_all add: parse_domain_kind_def parse_enum_def)

lemma parse_obligation_kind_string [simp]: "parse_obligation_kind (obligation_kind_to_string b) = Inr b"
  by (cases b) (simp_all add: parse_obligation_kind_def parse_enum_def)

lemma parse_ident_canonical [simp]: "is_canonical_id i \<Longrightarrow> parse_ident (id_or_dash i) = Inr i"
  using word_canonical[of i]
  by (auto simp: parse_ident_def id_or_dash_def blank_to_empty_def id_parse_def)

lemma parse_optional_id [simp]: "id_ok i \<Longrightarrow> parse_optional (id_or_dash i) = Inr i"
  using word_canonical[of i]
  by (auto simp: parse_optional_def id_or_dash_def blank_to_empty_def id_parse_def id_ok_def Let_def)

lemma hex_pairs_hex: "hex_pairs (digest_to_hex d) = Some d"
  by (induction d) (simp_all add: digest_to_hex_def)

lemma length_digest_to_hex: "length (digest_to_hex d) = 2 * length d"
  by (induction d) (simp_all add: digest_to_hex_def)

lemma digest_parse_hex [simp]: "digest_ok d \<Longrightarrow> digest_parse (digest_to_hex d) = Inr d"
  by (simp add: digest_parse_def hex_pairs_hex length_digest_to_hex digest_ok_def)

lemma digest_ok_nonempty: "digest_ok d \<Longrightarrow> d \<noteq> []"
  by (auto simp: digest_ok_def)

end
