(* ===== verification/Text_Records.thy ===== *)
theory Text_Records
  imports Text_Document Text_Scan
begin

text \<open>
  The lines a record of a snapshot is rendered to, and what the parser of \<open>Text_Parse\<close> makes of them. The
  interface \<open>text_records\<close> is one kind of record: a line that begins a record, and lines that complete
  the last one. It is interpreted on members, links, failure domains and obligations.
\<close>

lemma word_literal [simp]: "text_word (c # cs) \<longleftrightarrow> c \<notin> {CHR '' '', CHR 0x09, CHR 0x0A, CHR 0x0D} \<and> (cs = [] \<or> text_word cs)"
  by (auto simp: text_word_def)

lemma word_canonical_dash [simp]: "is_canonical_id i \<Longrightarrow> text_word (id_or_dash i)"
  by (simp add: id_ok_def)

lemma word_or_dash [simp]: "w = [] \<or> text_word w \<Longrightarrow> text_word (if w = [] then ''-'' else w)"
  by auto

section \<open>A rendering is a list of lines\<close>

definition plain_text :: "string \<Rightarrow> bool" where
  "plain_text d \<longleftrightarrow> d = [] \<or> trimmed d \<and> (\<forall>c \<in> set d. 0x20 \<le> (of_char c :: nat) \<and> of_char c \<noteq> (0x7F :: nat))"

lemma plain_escape [simp]: "plain_text d \<Longrightarrow> escape_text d = d"
  by (auto simp: plain_text_def escape_text_def Let_def intro!: map_idI)

definition prov_words :: "provenance \<Rightarrow> string list" where
  "prov_words v = [quality_to_string (pv_quality v), class_to_string (pv_class v), id_or_dash (pv_source v), dec_u64 (pv_sequence v)]"

definition desc_lines :: "string \<Rightarrow> string \<Rightarrow> string list" where
  "desc_lines directive t = (if t = [] then [] else [line_of [directive] t])"

definition id_line :: "string \<Rightarrow> ident \<Rightarrow> string" where
  "id_line directive i = line_of [directive, id_or_dash i] []"

definition claim_line :: "capacity_claim \<Rightarrow> string" where
  "claim_line c =
     line_of ([''+capacity'', id_or_dash (cc_resource c), id_or_dash (cc_exclusivity c), dec_u64 (cc_amount c),
       dec_u64 (cc_reserved c), id_or_dash (cc_domain c)] @ prov_words (cc_provenance c)) (pv_detail (cc_provenance c))"

definition member_words :: "member_record \<Rightarrow> string list" where
  "member_words m =
     [''member'', id_or_dash (mr_rack m), ''gen'', dec_u64 (mr_generation m), ''digest'', digest_to_hex (mr_digest m),
      ''rnf'', if mr_rnf_schema m = [] then ''-'' else mr_rnf_schema m, ''state'', membership_to_string (mr_membership m),
      ''admin'', admin_to_string (mr_admin m), ''health'', health_to_string (mr_health m),
      ''observed'', dec_string_int (mr_observed_at m), ''prov''] @ prov_words (mr_provenance m)"

definition member_lines :: "member_record \<Rightarrow> string list" where
  "member_lines m =
     line_of (member_words m) [] # desc_lines ''+desc'' (pv_detail (mr_provenance m)) @
     map (id_line ''+domain'') (mr_failure_domains m) @ map (id_line ''+port'') (mr_ports m) @ map claim_line (mr_capacity m)"

lemma described_lines: "plain_text t \<Longrightarrow> described directive t = concat (map text_line (desc_lines directive t))"
  by (simp add: described_def desc_lines_def text_line_def line_of_def)

lemma id_lines_lines: "id_lines directive is = concat (map text_line (map (id_line directive) is))"
  by (simp add: id_lines_def id_line_def text_line_def line_of_def comp_def)

lemma claim_text_line: "plain_text (pv_detail (cc_provenance c)) \<Longrightarrow> claim_text c = text_line (claim_line c)"
  by (simp add: claim_text_def claim_line_def text_line_def line_of_def prov_inline_def prov_words_def trailing_def)

lemma concat_lines: "(\<And>x. x \<in> set xs \<Longrightarrow> f x = concat (map text_line (g x))) \<Longrightarrow>
    concat (map f xs) = concat (map text_line (concat (map g xs)))"
  by (induction xs) auto

lemma concat_line: "(\<And>x. x \<in> set xs \<Longrightarrow> f x = text_line (g x)) \<Longrightarrow> concat (map f xs) = concat (map text_line (map g xs))"
  by (induction xs) auto

lemma member_text_lines:
  assumes "plain_text (pv_detail (mr_provenance m))" "\<forall>c \<in> set (mr_capacity m). plain_text (pv_detail (cc_provenance c))"
  shows "member_record_text m = concat (map text_line (member_lines m))"
proof -
  have "concat (map claim_text (mr_capacity m)) = concat (map text_line (map claim_line (mr_capacity m)))"
    using assms(2) by (intro concat_line claim_text_line) blast
  then show ?thesis
    unfolding member_record_text_def member_lines_def
    by (simp add: described_lines[OF assms(1)] id_lines_lines text_line_def line_of_def member_words_def prov_inline_def prov_words_def)
qed

section \<open>Reading a line\<close>

definition read_line :: "string \<Rightarrow> text_parser \<Rightarrow> text_parser result" where
  "read_line l p = handle_line l (split_tokens l) p"

lemma read_words:
  assumes "list_all text_word ws" "ws \<noteq> []"
  shows "read_line (line_of ws []) p = handle_line (line_of ws []) (views 0 ws) p"
  using split_line[OF assms, of "[]"] by (auto simp: read_line_def)

lemma tok_views0: "k < length ws \<Longrightarrow> tok (views i ws) k = ws ! k"
  using tok_views[of k ws i "[]"] by simp

definition bare :: "provenance \<Rightarrow> provenance" where
  "bare v = v\<lparr>pv_detail := []\<rparr>"

lemma parse_prov_words:
  assumes "id_ok (pv_source v)" "at + 4 \<le> length ts" "\<And>k. k < 4 \<Longrightarrow> tok ts (at + k) = prov_words v ! k"
  shows "parse_prov ts at = Inr (bare v)"
proof -
  have "tok ts at = prov_words v ! 0" using assms(3)[of 0] by simp
  then show ?thesis using assms(1,2) assms(3)[of 1] assms(3)[of 2] assms(3)[of 3]
    by (simp add: parse_prov_def prov_words_def bare_def)
qed

definition bare_member :: "member_record \<Rightarrow> member_record" where
  "bare_member m = m\<lparr>mr_failure_domains := [], mr_capacity := [], mr_ports := [], mr_provenance := bare (mr_provenance m)\<rparr>"

lemma bare_member_fields:
  "bare_member m = \<lparr>mr_rack = mr_rack m, mr_generation = mr_generation m, mr_digest = mr_digest m,
     mr_rnf_schema = mr_rnf_schema m, mr_membership = mr_membership m, mr_admin = mr_admin m, mr_health = mr_health m,
     mr_failure_domains = [], mr_capacity = [], mr_ports = [], mr_provenance = bare (mr_provenance m),
     mr_observed_at = mr_observed_at m\<rparr>"
  by (cases m) (simp add: bare_member_def)

definition member_head_ok :: "member_record \<Rightarrow> bool" where
  "member_head_ok m \<longleftrightarrow> is_canonical_id (mr_rack m) \<and> digest_ok (mr_digest m) \<and>
     (mr_rnf_schema m = [] \<or> text_word (mr_rnf_schema m) \<and> mr_rnf_schema m \<noteq> ''-'') \<and>
     time_ok (mr_observed_at m) \<and> id_ok (pv_source (mr_provenance m))"

lemma member_words_ok: "member_head_ok m \<Longrightarrow> list_all text_word (member_words m)"
  by (simp add: member_words_def prov_words_def member_head_ok_def digest_ok_nonempty) auto

lemma read_member:
  assumes "member_head_ok m" "length (sn_members (tp_snapshot p)) < max_text_items"
  shows "read_line (line_of (member_words m) []) p =
    Inr (with_snapshot (\<lambda>s. s\<lparr>sn_members := sn_members s @ [bare_member m]\<rparr>) Cur_Member p)"
proof -
  let ?ts = "views 0 (member_words m)"
  have l: "length (member_words m) = 21" by (simp add: member_words_def prov_words_def)
  have t: "tok ?ts k = member_words m ! k" if "k < 21" for k using that l by (simp add: tok_views0)
  have v: "parse_prov ?ts 17 = Inr (bare (mr_provenance m))"
  proof (rule parse_prov_words)
    fix k :: nat assume "k < 4"
    then show "tok ?ts (17 + k) = prov_words (mr_provenance m) ! k" by (simp add: t) (simp add: member_words_def)
  qed (use assms(1) l in \<open>simp_all add: member_head_ok_def\<close>)
  have b: "blank_to_empty (if mr_rnf_schema m = [] then ''-'' else mr_rnf_schema m) = mr_rnf_schema m"
    using assms(1) by (auto simp: blank_to_empty_def member_head_ok_def)
  have "read_line (line_of (member_words m) []) p = handle_line (line_of (member_words m) []) ?ts p"
    using l by (intro read_words member_words_ok[OF assms(1)]) auto
  also have "\<dots> = parse_member ?ts p"
    by (simp add: handle_line_def t) (simp add: member_words_def)
  also have "\<dots> = Inr (with_snapshot (\<lambda>s. s\<lparr>sn_members := sn_members s @ [bare_member m]\<rparr>) Cur_Member p)"
    using assms unfolding member_head_ok_def
    by (simp add: parse_member_def too_many_def need_def contains_def l t v)
      (simp add: member_words_def b bare_member_fields)
  finally show ?thesis .
qed

section \<open>Reading a record\<close>

definition read_lines :: "string list \<Rightarrow> text_parser \<Rightarrow> text_parser result" where
  "read_lines ls = try_fold read_line ls"

lemma read_lines_simps [simp]:
  "read_lines [] p = Inr p" "read_lines (l # ls) p = try_bind (read_line l p) (read_lines ls)"
  by (simp_all add: read_lines_def)

lemma read_lines_append: "read_lines (as @ bs) p = try_bind (read_lines as p) (read_lines bs)"
  by (simp add: read_lines_def try_fold_append)

text \<open>
  One kind of record in a snapshot, and the marker of the parser for it. \<open>edits ls f\<close>: reading the
  lines changes the last record of this kind by \<open>f\<close>.
\<close>

locale text_records =
  fixes items :: "pod_snapshot \<Rightarrow> 'a list" and put :: "'a list \<Rightarrow> pod_snapshot \<Rightarrow> pod_snapshot" and cur :: current
  assumes items_put: "items (put xs s) = xs"
    and put_put: "put ys (put xs s) = put ys s"
    and put_items: "put (items s) s = s"
begin

definition edits :: "string list \<Rightarrow> ('a \<Rightarrow> 'a) \<Rightarrow> bool" where
  "edits ls f \<longleftrightarrow> (\<forall>p ms m. tp_current p = cur \<longrightarrow> items (tp_snapshot p) = ms @ [m] \<longrightarrow>
     read_lines ls p = Inr \<lparr>tp_snapshot = put (ms @ [f m]) (tp_snapshot p), tp_current = cur\<rparr>)"

lemma edits_Nil: "edits [] (\<lambda>m. m)"
proof -
  have "\<lparr>tp_snapshot = put (ms @ [m]) (tp_snapshot p), tp_current = cur\<rparr> = p"
    if "tp_current p = cur" "items (tp_snapshot p) = ms @ [m]" for p ms m
    using that put_items[of "tp_snapshot p"] by (cases p) simp
  then show ?thesis by (simp add: edits_def)
qed

lemma edits_append: "edits as f \<Longrightarrow> edits bs g \<Longrightarrow> edits (as @ bs) (\<lambda>m. g (f m))"
  by (auto simp: edits_def read_lines_append items_put put_put)

lemma edits_map:
  "(\<And>x. x \<in> set xs \<Longrightarrow> edits [line x] (g x)) \<Longrightarrow> edits (map line xs) (fold g xs)"
proof (induction xs)
  case Nil
  then show ?case using edits_Nil by (simp add: id_def)
next
  case (Cons x xs)
  then have "edits ([line x] @ map line xs) (\<lambda>m. fold g xs (g x m))" by (intro edits_append) auto
  then show ?case by (simp add: comp_def)
qed

lemma edits_all:
  assumes "\<And>x. x \<in> set xs \<Longrightarrow> edits [line x] (g x)" "\<And>m. fold g xs m = f m"
  shows "edits (map line xs) f"
proof -
  have "f = fold g xs" using assms(2) by auto
  then show ?thesis using edits_map[of xs line g] assms(1) by simp
qed

text \<open>A record is a line that reads to a bare record, and lines that complete it.\<close>

definition record_reads :: "('a \<Rightarrow> string list) \<Rightarrow> 'a \<Rightarrow> bool" where
  "record_reads lines x \<longleftrightarrow> (\<exists>l ls b f. lines x = l # ls \<and> edits ls f \<and> f b = x \<and>
     (\<forall>p. length (items (tp_snapshot p)) < max_text_items \<longrightarrow>
        read_line l p = Inr \<lparr>tp_snapshot = put (items (tp_snapshot p) @ [b]) (tp_snapshot p), tp_current = cur\<rparr>))"

lemma record_readsI:
  assumes "lines x = l # ls" "edits ls f" "f b = x"
    "\<And>p. length (items (tp_snapshot p)) < max_text_items \<Longrightarrow>
      read_line l p = Inr \<lparr>tp_snapshot = put (items (tp_snapshot p) @ [b]) (tp_snapshot p), tp_current = cur\<rparr>"
  shows "record_reads lines x"
  unfolding record_reads_def using assms by (intro exI conjI allI impI) assumption+

lemma record_read:
  assumes "record_reads lines x" "length (items (tp_snapshot p)) < max_text_items"
  shows "read_lines (lines x) p = Inr \<lparr>tp_snapshot = put (items (tp_snapshot p) @ [x]) (tp_snapshot p), tp_current = cur\<rparr>"
proof -
  obtain l ls b f where l: "lines x = l # ls" "edits ls f" "f b = x"
    "read_line l p = Inr \<lparr>tp_snapshot = put (items (tp_snapshot p) @ [b]) (tp_snapshot p), tp_current = cur\<rparr>"
    using assms by (auto simp: record_reads_def)
  then show ?thesis by (simp add: edits_def items_put put_put)
qed

lemma records_read:
  assumes "\<And>x. x \<in> set xs \<Longrightarrow> record_reads lines x" "length (items (tp_snapshot p)) + length xs \<le> max_text_items"
  shows "\<exists>k. read_lines (concat (map lines xs)) p =
    Inr \<lparr>tp_snapshot = put (items (tp_snapshot p) @ xs) (tp_snapshot p), tp_current = k\<rparr>"
  using assms
proof (induction xs arbitrary: p)
  case Nil
  have "\<lparr>tp_snapshot = put (items (tp_snapshot p)) (tp_snapshot p), tp_current = tp_current p\<rparr> = p"
    using put_items[of "tp_snapshot p"] by (cases p) simp
  then show ?case by (intro exI[of _ "tp_current p"]) simp
next
  case (Cons x xs)
  let ?q = "\<lparr>tp_snapshot = put (items (tp_snapshot p) @ [x]) (tp_snapshot p), tp_current = cur\<rparr>"
  have q: "read_lines (lines x) p = Inr ?q" using Cons.prems by (intro record_read) auto
  have "\<exists>k. read_lines (concat (map lines xs)) ?q =
    Inr \<lparr>tp_snapshot = put (items (tp_snapshot ?q) @ xs) (tp_snapshot ?q), tp_current = k\<rparr>"
    using Cons.prems by (intro Cons.IH) (auto simp: items_put)
  then show ?case by (simp add: read_lines_append q items_put put_put)
qed

end

interpretation text_members: text_records sn_members "\<lambda>xs s. s\<lparr>sn_members := xs\<rparr>" Cur_Member
  by unfold_locales simp_all

interpretation text_links: text_records sn_links "\<lambda>xs s. s\<lparr>sn_links := xs\<rparr>" Cur_Link
  by unfold_locales simp_all

interpretation text_domains: text_records sn_domains "\<lambda>xs s. s\<lparr>sn_domains := xs\<rparr>" Cur_Domain
  by unfold_locales simp_all

interpretation text_obligations: text_records sn_obligations "\<lambda>xs s. s\<lparr>sn_obligations := xs\<rparr>" Cur_Obligation
  by unfold_locales simp_all

section \<open>Members\<close>

lemmas line_ts = tok_views0 need_def contains_def

lemma desc_words: "plain_text t \<Longrightarrow> t \<noteq> [] \<Longrightarrow> list_all text_word [d] \<Longrightarrow>
    \<exists>us. split_tokens (line_of [d] t) = views 0 [d] @ us \<and> us \<noteq> [] \<and> rest_of_line (line_of [d] t) (views 0 [d] @ us) 1 = t"
  using split_line[of "[d]" t] by (auto simp: plain_text_def)

lemma handle_continuation: "tok ts 0 = d \<Longrightarrow> hd d = CHR ''+'' \<Longrightarrow> handle_line line ts p = parse_continuation d line ts p"
  by (auto simp: handle_line_def Let_def)

lemma read_desc:
  assumes "plain_text t" "t \<noteq> []" "tp_current p \<noteq> Cur_None" "d \<in> {''+desc'', ''+detail''}"
  shows "read_line (line_of [d] t) p = Inr (describe_current d t p)"
proof -
  have "list_all text_word [d]" using assms(4) by auto
  then obtain us where us: "split_tokens (line_of [d] t) = views 0 [d] @ us" "rest_of_line (line_of [d] t) (views 0 [d] @ us) 1 = t"
    using desc_words[OF assms(1,2)] by blast
  have k: "tok (views 0 [d] @ us) 0 = d" using tok_views[of 0 "[d]" 0 us] by simp
  have "handle_line (line_of [d] t) (views 0 [d] @ us) p = parse_continuation d (line_of [d] t) (views 0 [d] @ us) p"
    by (rule handle_continuation[OF k]) (use assms(4) in auto)
  then show ?thesis using us assms(3,4) by (auto simp: read_line_def parse_continuation_def)
qed

lemma edits_member_desc:
  "plain_text t \<Longrightarrow> text_members.edits (desc_lines ''+desc'' t)
     (\<lambda>m. m\<lparr>mr_provenance := (mr_provenance m)\<lparr>pv_detail := if t = [] then pv_detail (mr_provenance m) else t\<rparr>\<rparr>)"
  using text_members.edits_Nil
  by (auto simp: text_members.edits_def desc_lines_def read_desc describe_current_def Let_def on_last_def)

lemma id_line_words: "is_canonical_id i \<Longrightarrow> text_word d \<Longrightarrow> read_line (id_line d i) p = handle_line (id_line d i) (views 0 [d, id_or_dash i]) p"
  unfolding id_line_def by (rule read_words) simp_all

lemma edits_member_id:
  assumes "is_canonical_id i"
  shows "text_members.edits [id_line ''+domain'' i] (\<lambda>m. m\<lparr>mr_failure_domains := mr_failure_domains m @ [i]\<rparr>)"
    "text_members.edits [id_line ''+port'' i] (\<lambda>m. m\<lparr>mr_ports := mr_ports m @ [i]\<rparr>)"
  using assms
  by (simp_all add: text_members.edits_def id_line_words handle_line_def tok_def parse_continuation_def member_line_def
      on_member_def on_snapshot_def on_last_def)

lemma read_detail:
  assumes "list_all text_word ws" "ws \<noteq> []" "plain_text (pv_detail v)"
  shows "\<exists>us. read_line (line_of ws (pv_detail v)) p = handle_line (line_of ws (pv_detail v)) (views 0 ws @ us) p \<and>
    inline_detail (line_of ws (pv_detail v)) (views 0 ws @ us) (length ws) (bare v) = v"
proof -
  obtain us where us: "split_tokens (line_of ws (pv_detail v)) = views 0 ws @ us" "us = [] \<longleftrightarrow> pv_detail v = []"
    "pv_detail v \<noteq> [] \<longrightarrow> rest_of_line (line_of ws (pv_detail v)) (views 0 ws @ us) (length ws) = pv_detail v"
    using split_line[OF assms(1,2), of "pv_detail v"] assms(3) by (auto simp: plain_text_def)
  then have "inline_detail (line_of ws (pv_detail v)) (views 0 ws @ us) (length ws) (bare v) = v"
    by (cases v) (auto simp: inline_detail_def bare_def)
  then show ?thesis using us(1) by (auto simp: read_line_def)
qed

definition claim_ok :: "capacity_claim \<Rightarrow> bool" where
  "claim_ok c \<longleftrightarrow> is_canonical_id (cc_resource c) \<and> is_canonical_id (cc_exclusivity c) \<and> is_canonical_id (cc_domain c) \<and>
     id_ok (pv_source (cc_provenance c)) \<and> plain_text (pv_detail (cc_provenance c))"

definition claim_words :: "capacity_claim \<Rightarrow> string list" where
  "claim_words c =
     [''+capacity'', id_or_dash (cc_resource c), id_or_dash (cc_exclusivity c), dec_u64 (cc_amount c),
       dec_u64 (cc_reserved c), id_or_dash (cc_domain c)] @ prov_words (cc_provenance c)"

lemma claim_words_ok: "claim_ok c \<Longrightarrow> list_all text_word (claim_words c)"
  by (simp add: claim_words_def claim_ok_def prov_words_def)

lemma read_claim:
  assumes "claim_ok c" "tp_current p = Cur_Member"
  shows "read_line (claim_line c) p = Inr (on_member (\<lambda>m. m\<lparr>mr_capacity := mr_capacity m @ [c]\<rparr>) p)"
proof -
  let ?v = "cc_provenance c"
  have l: "length (claim_words c) = 10" by (simp add: claim_words_def prov_words_def)
  have c: "claim_line c = line_of (claim_words c) (pv_detail ?v)" by (simp add: claim_line_def claim_words_def)
  obtain us where us: "read_line (claim_line c) p = handle_line (claim_line c) (views 0 (claim_words c) @ us) p"
    "inline_detail (claim_line c) (views 0 (claim_words c) @ us) 10 (bare ?v) = ?v"
    using read_detail[OF claim_words_ok[OF assms(1)] _, of ?v p] l assms(1)
    by (auto simp: c claim_ok_def claim_words_def)
  let ?ts = "views 0 (claim_words c) @ us"
  have t: "tok ?ts k = claim_words c ! k" if "k < 10" for k using that l by (simp add: tok_views)
  have v: "parse_prov ?ts 6 = Inr (bare ?v)"
  proof (rule parse_prov_words)
    fix k :: nat assume "k < 4"
    then show "tok ?ts (6 + k) = prov_words ?v ! k" by (simp add: t) (simp add: claim_words_def)
  qed (use assms(1) l in \<open>simp_all add: claim_ok_def\<close>)
  have h: "tok ?ts 0 = ''+capacity''" by (simp add: t) (simp add: claim_words_def)
  have "handle_line (claim_line c) ?ts p = parse_continuation ''+capacity'' (claim_line c) ?ts p"
    by (rule handle_continuation[OF h]) simp
  also have "\<dots> = parse_capacity (claim_line c) ?ts p"
    using assms(2) by (simp add: parse_continuation_def member_line_def)
  also have "\<dots> = Inr (on_member (\<lambda>m. m\<lparr>mr_capacity := mr_capacity m @ [c]\<rparr>) p)"
    using assms(1) by (simp add: parse_capacity_def l t v us(2)) (cases c, simp add: claim_words_def claim_ok_def)
  finally show ?thesis using us(1) by simp
qed

lemma edits_claim: "claim_ok c \<Longrightarrow> text_members.edits [claim_line c] (\<lambda>m. m\<lparr>mr_capacity := mr_capacity m @ [c]\<rparr>)"
  by (simp add: text_members.edits_def read_claim on_member_def on_snapshot_def on_last_def)

definition text_member_ok :: "member_record \<Rightarrow> bool" where
  "text_member_ok m \<longleftrightarrow> member_head_ok m \<and> plain_text (pv_detail (mr_provenance m)) \<and>
     list_all is_canonical_id (mr_failure_domains m) \<and> list_all is_canonical_id (mr_ports m) \<and> list_all claim_ok (mr_capacity m)"

lemma edits_member_lists:
  "list_all is_canonical_id is \<Longrightarrow> text_members.edits (map (id_line ''+domain'') is)
     (\<lambda>m. m\<lparr>mr_failure_domains := mr_failure_domains m @ is\<rparr>)"
  "list_all is_canonical_id is \<Longrightarrow> text_members.edits (map (id_line ''+port'') is) (\<lambda>m. m\<lparr>mr_ports := mr_ports m @ is\<rparr>)"
  "list_all claim_ok cs \<Longrightarrow> text_members.edits (map claim_line cs) (\<lambda>m. m\<lparr>mr_capacity := mr_capacity m @ cs\<rparr>)"
proof -
  have "fold (\<lambda>i m. m\<lparr>mr_failure_domains := mr_failure_domains m @ [i]\<rparr>) is m = m\<lparr>mr_failure_domains := mr_failure_domains m @ is\<rparr>" for m
    by (induction "is" arbitrary: m) simp_all
  then show "list_all is_canonical_id is \<Longrightarrow> text_members.edits (map (id_line ''+domain'') is)
     (\<lambda>m. m\<lparr>mr_failure_domains := mr_failure_domains m @ is\<rparr>)"
    by (intro text_members.edits_all[OF edits_member_id(1)]) (simp_all add: list_all_iff)
  have "fold (\<lambda>i m. m\<lparr>mr_ports := mr_ports m @ [i]\<rparr>) is m = m\<lparr>mr_ports := mr_ports m @ is\<rparr>" for m
    by (induction "is" arbitrary: m) simp_all
  then show "list_all is_canonical_id is \<Longrightarrow> text_members.edits (map (id_line ''+port'') is) (\<lambda>m. m\<lparr>mr_ports := mr_ports m @ is\<rparr>)"
    by (intro text_members.edits_all[OF edits_member_id(2)]) (simp_all add: list_all_iff)
  have "fold (\<lambda>c m. m\<lparr>mr_capacity := mr_capacity m @ [c]\<rparr>) cs m = m\<lparr>mr_capacity := mr_capacity m @ cs\<rparr>" for m
    by (induction cs arbitrary: m) simp_all
  then show "list_all claim_ok cs \<Longrightarrow> text_members.edits (map claim_line cs) (\<lambda>m. m\<lparr>mr_capacity := mr_capacity m @ cs\<rparr>)"
    by (intro text_members.edits_all[OF edits_claim]) (simp_all add: list_all_iff)
qed

lemma member_reads:
  assumes "text_member_ok m"
  shows "text_members.record_reads member_lines m"
proof -
  have ok: "member_head_ok m" "plain_text (pv_detail (mr_provenance m))" "list_all is_canonical_id (mr_failure_domains m)"
    "list_all is_canonical_id (mr_ports m)" "list_all claim_ok (mr_capacity m)"
    using assms by (auto simp: text_member_ok_def)
  note edits = text_members.edits_append[OF edits_member_desc[OF ok(2)]
      text_members.edits_append[OF edits_member_lists(1)[OF ok(3)]
      text_members.edits_append[OF edits_member_lists(2)[OF ok(4)] edits_member_lists(3)[OF ok(5)]]]]
  have read: "read_line (line_of (member_words m) []) p =
      Inr \<lparr>tp_snapshot = (tp_snapshot p)\<lparr>sn_members := sn_members (tp_snapshot p) @ [bare_member m]\<rparr>, tp_current = Cur_Member\<rparr>"
    if "length (sn_members (tp_snapshot p)) < max_text_items" for p
    using that by (simp add: read_member ok(1) with_snapshot_def)
  show ?thesis
    by (rule text_members.record_readsI[OF _ edits _ read], simp add: member_lines_def, cases m, cases "mr_provenance m",
      simp add: bare_member_def bare_def)
qed

section \<open>Links\<close>

definition link_words :: "link_record \<Rightarrow> string list" where
  "link_words l =
     [''link'', id_or_dash (lk_id l), ''a'', id_or_dash (le_rack (lk_a l)), id_or_dash (le_port (lk_a l)),
      ''b'', id_or_dash (le_rack (lk_b l)), id_or_dash (le_port (lk_b l)), ''agen'', dec_u64 (lk_a_generation l),
      ''bgen'', dec_u64 (lk_b_generation l), ''domain'', id_or_dash (lk_domain l), ''resource'', id_or_dash (lk_resource l),
      ''capacity'', dec_u64 (lk_capacity l), ''admin'', admin_to_string (lk_admin l), ''oper'', oper_to_string (lk_oper l),
      ''route'', id_or_dash (lk_route l), ''observed'', dec_string_int (lk_observed_at l), ''prov''] @ prov_words (lk_provenance l)"

definition link_lines :: "link_record \<Rightarrow> string list" where
  "link_lines l = line_of (link_words l) [] # desc_lines ''+desc'' (pv_detail (lk_provenance l))"

definition text_link_ok :: "link_record \<Rightarrow> bool" where
  "text_link_ok l \<longleftrightarrow> is_canonical_id (lk_id l) \<and> is_canonical_id (le_rack (lk_a l)) \<and> is_canonical_id (le_port (lk_a l)) \<and>
     is_canonical_id (le_rack (lk_b l)) \<and> is_canonical_id (le_port (lk_b l)) \<and> is_canonical_id (lk_domain l) \<and>
     is_canonical_id (lk_resource l) \<and> id_ok (lk_route l) \<and> time_ok (lk_observed_at l) \<and>
     id_ok (pv_source (lk_provenance l)) \<and> plain_text (pv_detail (lk_provenance l))"

definition bare_link :: "link_record \<Rightarrow> link_record" where
  "bare_link l = l\<lparr>lk_provenance := bare (lk_provenance l)\<rparr>"

lemma bare_link_fields:
  "bare_link l = \<lparr>lk_id = lk_id l, lk_a = \<lparr>le_rack = le_rack (lk_a l), le_port = le_port (lk_a l)\<rparr>,
     lk_b = \<lparr>le_rack = le_rack (lk_b l), le_port = le_port (lk_b l)\<rparr>, lk_domain = lk_domain l, lk_resource = lk_resource l,
     lk_capacity = lk_capacity l, lk_admin = lk_admin l, lk_oper = lk_oper l, lk_a_generation = lk_a_generation l,
     lk_b_generation = lk_b_generation l, lk_route = lk_route l, lk_provenance = bare (lk_provenance l),
     lk_observed_at = lk_observed_at l\<rparr>"
  by (cases l) (simp add: bare_link_def)

lemma link_words_ok: "text_link_ok l \<Longrightarrow> list_all text_word (link_words l)"
  by (simp add: link_words_def prov_words_def text_link_ok_def)

lemma link_text_lines: "text_link_ok l \<Longrightarrow> link_record_text l = concat (map text_line (link_lines l))"
  unfolding link_record_text_def link_lines_def text_link_ok_def
  by (simp add: described_lines text_line_def line_of_def link_words_def prov_inline_def prov_words_def)

lemma read_link:
  assumes "text_link_ok l" "length (sn_links (tp_snapshot p)) < max_text_items"
  shows "read_line (line_of (link_words l) []) p =
    Inr (with_snapshot (\<lambda>s. s\<lparr>sn_links := sn_links s @ [bare_link l]\<rparr>) Cur_Link p)"
proof -
  let ?ts = "views 0 (link_words l)"
  have l: "length (link_words l) = 31" by (simp add: link_words_def prov_words_def)
  have t: "tok ?ts k = link_words l ! k" if "k < 31" for k using that l by (simp add: tok_views0)
  have v: "parse_prov ?ts 27 = Inr (bare (lk_provenance l))"
  proof (rule parse_prov_words)
    fix k :: nat assume "k < 4"
    then show "tok ?ts (27 + k) = prov_words (lk_provenance l) ! k" by (simp add: t) (simp add: link_words_def)
  qed (use assms(1) l in \<open>simp_all add: text_link_ok_def\<close>)
  have "read_line (line_of (link_words l) []) p = handle_line (line_of (link_words l) []) ?ts p"
    using l by (intro read_words link_words_ok[OF assms(1)]) auto
  also have "\<dots> = parse_link ?ts p"
    by (simp add: handle_line_def t) (simp add: link_words_def)
  also have "\<dots> = Inr (with_snapshot (\<lambda>s. s\<lparr>sn_links := sn_links s @ [bare_link l]\<rparr>) Cur_Link p)"
    using assms unfolding text_link_ok_def
    by (simp add: parse_link_def too_many_def need_def contains_def l t v) (simp add: link_words_def bare_link_fields)
  finally show ?thesis .
qed

lemma edits_link_desc:
  "plain_text t \<Longrightarrow> text_links.edits (desc_lines ''+desc'' t)
     (\<lambda>l. l\<lparr>lk_provenance := (lk_provenance l)\<lparr>pv_detail := if t = [] then pv_detail (lk_provenance l) else t\<rparr>\<rparr>)"
  using text_links.edits_Nil
  by (auto simp: text_links.edits_def desc_lines_def read_desc describe_current_def Let_def on_last_def)

lemma link_reads:
  assumes "text_link_ok l"
  shows "text_links.record_reads link_lines l"
proof -
  have ok: "plain_text (pv_detail (lk_provenance l))" using assms by (simp add: text_link_ok_def)
  have read: "read_line (line_of (link_words l) []) p =
      Inr \<lparr>tp_snapshot = (tp_snapshot p)\<lparr>sn_links := sn_links (tp_snapshot p) @ [bare_link l]\<rparr>, tp_current = Cur_Link\<rparr>"
    if "length (sn_links (tp_snapshot p)) < max_text_items" for p
    using that by (simp add: read_link assms with_snapshot_def)
  show ?thesis
    by (rule text_links.record_readsI[OF _ edits_link_desc[OF ok] _ read], simp add: link_lines_def, cases l,
      cases "lk_provenance l", simp add: bare_link_def bare_def)
qed

section \<open>Failure domains\<close>

definition domain_words :: "failure_domain_record \<Rightarrow> string list" where
  "domain_words d = [''fdom'', id_or_dash (fd_id d), ''kind'', domain_kind_to_string (fd_kind d), ''prov''] @
     prov_words (fd_provenance d)"

definition domain_lines :: "failure_domain_record \<Rightarrow> string list" where
  "domain_lines d = line_of (domain_words d) (pv_detail (fd_provenance d)) # desc_lines ''+desc'' (fd_description d) @
     map (id_line ''+member'') (fd_members d)"

definition text_domain_ok :: "failure_domain_record \<Rightarrow> bool" where
  "text_domain_ok d \<longleftrightarrow> is_canonical_id (fd_id d) \<and> list_all is_canonical_id (fd_members d) \<and> plain_text (fd_description d) \<and>
     id_ok (pv_source (fd_provenance d)) \<and> plain_text (pv_detail (fd_provenance d))"

definition bare_domain :: "failure_domain_record \<Rightarrow> failure_domain_record" where
  "bare_domain d = d\<lparr>fd_members := [], fd_description := []\<rparr>"

lemma domain_words_ok: "text_domain_ok d \<Longrightarrow> list_all text_word (domain_words d)"
  by (simp add: domain_words_def prov_words_def text_domain_ok_def)

lemma domain_text_lines: "text_domain_ok d \<Longrightarrow> domain_record_text d = concat (map text_line (domain_lines d))"
  unfolding domain_record_text_def domain_lines_def text_domain_ok_def
  by (simp add: described_lines id_lines_lines text_line_def line_of_def domain_words_def prov_inline_def prov_words_def trailing_def)

lemma read_domain:
  assumes "text_domain_ok d" "length (sn_domains (tp_snapshot p)) < max_text_items"
  shows "read_line (line_of (domain_words d) (pv_detail (fd_provenance d))) p =
    Inr (with_snapshot (\<lambda>s. s\<lparr>sn_domains := sn_domains s @ [bare_domain d]\<rparr>) Cur_Domain p)"
proof -
  let ?v = "fd_provenance d" and ?l = "line_of (domain_words d) (pv_detail (fd_provenance d))"
  have l: "length (domain_words d) = 9" by (simp add: domain_words_def prov_words_def)
  obtain us where us: "read_line ?l p = handle_line ?l (views 0 (domain_words d) @ us) p"
    "inline_detail ?l (views 0 (domain_words d) @ us) 9 (bare ?v) = ?v"
    using read_detail[OF domain_words_ok[OF assms(1)] _, of ?v p] l assms(1) by (auto simp: text_domain_ok_def domain_words_def)
  let ?ts = "views 0 (domain_words d) @ us"
  have t: "tok ?ts k = domain_words d ! k" if "k < 9" for k using that l by (simp add: tok_views)
  have v: "parse_prov ?ts 5 = Inr (bare ?v)"
  proof (rule parse_prov_words)
    fix k :: nat assume "k < 4"
    then show "tok ?ts (5 + k) = prov_words ?v ! k" by (simp add: t) (simp add: domain_words_def)
  qed (use assms(1) l in \<open>simp_all add: text_domain_ok_def\<close>)
  have b: "\<lparr>fd_id = fd_id d, fd_kind = fd_kind d, fd_members = [], fd_description = [], fd_provenance = ?v\<rparr> = bare_domain d"
    by (cases d) (simp add: bare_domain_def)
  have h: "tok ?ts 0 = ''fdom''" by (simp add: t) (simp add: domain_words_def)
  have "handle_line ?l ?ts p = parse_domain ?l ?ts p" by (simp add: handle_line_def h)
  also have "\<dots> = Inr (with_snapshot (\<lambda>s. s\<lparr>sn_domains := sn_domains s @ [bare_domain d]\<rparr>) Cur_Domain p)"
    using assms unfolding text_domain_ok_def
    by (simp add: parse_domain_def too_many_def need_def contains_def l t v us(2)) (simp add: domain_words_def b)
  finally show ?thesis using us(1) by simp
qed

lemma edits_domain_desc:
  "plain_text t \<Longrightarrow> text_domains.edits (desc_lines ''+desc'' t) (\<lambda>d. d\<lparr>fd_description := if t = [] then fd_description d else t\<rparr>)"
  using text_domains.edits_Nil
  by (auto simp: text_domains.edits_def desc_lines_def read_desc describe_current_def Let_def on_last_def)

lemma edits_domain_members:
  assumes "list_all is_canonical_id is"
  shows "text_domains.edits (map (id_line ''+member'') is) (\<lambda>d. d\<lparr>fd_members := fd_members d @ is\<rparr>)"
proof (rule text_domains.edits_all)
  show "fold (\<lambda>i d. d\<lparr>fd_members := fd_members d @ [i]\<rparr>) is d = d\<lparr>fd_members := fd_members d @ is\<rparr>" for d
    by (induction "is" arbitrary: d) simp_all
next
  fix i assume "i \<in> set is"
  then have "is_canonical_id i" using assms by (simp add: list_all_iff)
  then show "text_domains.edits [id_line ''+member'' i] (\<lambda>d. d\<lparr>fd_members := fd_members d @ [i]\<rparr>)"
    by (simp add: text_domains.edits_def id_line_words handle_line_def tok_def parse_continuation_def domain_line_def
        on_snapshot_def on_last_def)
qed

lemma domain_reads:
  assumes "text_domain_ok d"
  shows "text_domains.record_reads domain_lines d"
proof -
  have ok: "plain_text (fd_description d)" "list_all is_canonical_id (fd_members d)" using assms by (auto simp: text_domain_ok_def)
  have read: "read_line (line_of (domain_words d) (pv_detail (fd_provenance d))) p =
      Inr \<lparr>tp_snapshot = (tp_snapshot p)\<lparr>sn_domains := sn_domains (tp_snapshot p) @ [bare_domain d]\<rparr>, tp_current = Cur_Domain\<rparr>"
    if "length (sn_domains (tp_snapshot p)) < max_text_items" for p
    using that by (simp add: read_domain assms with_snapshot_def)
  show ?thesis
    by (rule text_domains.record_readsI[OF _ text_domains.edits_append[OF edits_domain_desc[OF ok(1)] edits_domain_members[OF ok(2)]] _ read],
      simp add: domain_lines_def, cases d, simp add: bare_domain_def)
qed

section \<open>Obligations\<close>

definition obligation_words :: "obligation \<Rightarrow> string list" where
  "obligation_words b =
     [''obligation'', id_or_dash (ob_id b), ''kind'', obligation_kind_to_string (ob_kind b), ''tenant'', id_or_dash (ob_tenant b),
      ''mandatory'', flag (ob_mandatory b), ''domains'', dec_u64 (ob_required_domains b),
      ''diversity'', domain_kind_to_string (ob_diversity_kind b), ''prov''] @ prov_words (ob_provenance b)"

definition require_line :: "capacity_requirement \<Rightarrow> string" where
  "require_line r = line_of [''+require'', id_or_dash (cr_resource r), dec_u64 (cr_minimum r), dec_u64 (cr_margin_percent r)] []"

definition obligation_lines :: "obligation \<Rightarrow> string list" where
  "obligation_lines b = line_of (obligation_words b) (pv_detail (ob_provenance b)) # desc_lines ''+desc'' (ob_description b) @
     map (id_line ''+rack'') (ob_protected_racks b) @ map require_line (ob_requirements b)"

definition text_obligation_ok :: "obligation \<Rightarrow> bool" where
  "text_obligation_ok b \<longleftrightarrow> is_canonical_id (ob_id b) \<and> id_ok (ob_tenant b) \<and> list_all is_canonical_id (ob_protected_racks b) \<and>
     list_all (\<lambda>r. is_canonical_id (cr_resource r)) (ob_requirements b) \<and> plain_text (ob_description b) \<and>
     id_ok (pv_source (ob_provenance b)) \<and> plain_text (pv_detail (ob_provenance b))"

definition bare_obligation :: "obligation \<Rightarrow> obligation" where
  "bare_obligation b = b\<lparr>ob_protected_racks := [], ob_description := [], ob_requirements := []\<rparr>"

lemma obligation_words_ok: "text_obligation_ok b \<Longrightarrow> list_all text_word (obligation_words b)"
  by (simp add: obligation_words_def prov_words_def text_obligation_ok_def)

lemma require_text_line: "require_text r = text_line (require_line r)"
  by (simp add: require_text_def require_line_def text_line_def line_of_def)

lemma obligation_text_lines:
  assumes "text_obligation_ok b"
  shows "obligation_record_text b = concat (map text_line (obligation_lines b))"
proof -
  have "concat (map require_text (ob_requirements b)) = concat (map text_line (map require_line (ob_requirements b)))"
    by (intro concat_line require_text_line)
  then show ?thesis
    using assms unfolding obligation_record_text_def obligation_lines_def text_obligation_ok_def
    by (simp add: described_lines id_lines_lines text_line_def line_of_def obligation_words_def prov_inline_def prov_words_def trailing_def)
qed

lemma read_obligation:
  assumes "text_obligation_ok b" "length (sn_obligations (tp_snapshot p)) < max_text_items"
  shows "read_line (line_of (obligation_words b) (pv_detail (ob_provenance b))) p =
    Inr (with_snapshot (\<lambda>s. s\<lparr>sn_obligations := sn_obligations s @ [bare_obligation b]\<rparr>) Cur_Obligation p)"
proof -
  let ?v = "ob_provenance b" and ?l = "line_of (obligation_words b) (pv_detail (ob_provenance b))"
  have l: "length (obligation_words b) = 17" by (simp add: obligation_words_def prov_words_def)
  obtain us where us: "read_line ?l p = handle_line ?l (views 0 (obligation_words b) @ us) p"
    "inline_detail ?l (views 0 (obligation_words b) @ us) 17 (bare ?v) = ?v"
    using read_detail[OF obligation_words_ok[OF assms(1)] _, of ?v p] l assms(1)
    by (auto simp: text_obligation_ok_def obligation_words_def)
  let ?ts = "views 0 (obligation_words b) @ us"
  have t: "tok ?ts k = obligation_words b ! k" if "k < 17" for k using that l by (simp add: tok_views)
  have v: "parse_prov ?ts 13 = Inr (bare ?v)"
  proof (rule parse_prov_words)
    fix k :: nat assume "k < 4"
    then show "tok ?ts (13 + k) = prov_words ?v ! k" by (simp add: t) (simp add: obligation_words_def)
  qed (use assms(1) l in \<open>simp_all add: text_obligation_ok_def\<close>)
  have b: "\<lparr>ob_id = ob_id b, ob_kind = ob_kind b, ob_tenant = ob_tenant b, ob_description = [], ob_protected_racks = [],
      ob_required_domains = ob_required_domains b, ob_diversity_kind = ob_diversity_kind b, ob_requirements = [],
      ob_mandatory = ob_mandatory b, ob_provenance = ?v\<rparr> = bare_obligation b"
    by (cases b) (simp add: bare_obligation_def)
  have h: "tok ?ts 0 = ''obligation''" by (simp add: t) (simp add: obligation_words_def)
  have "handle_line ?l ?ts p = parse_obligation ?l ?ts p" by (simp add: handle_line_def h)
  also have "\<dots> = Inr (with_snapshot (\<lambda>s. s\<lparr>sn_obligations := sn_obligations s @ [bare_obligation b]\<rparr>) Cur_Obligation p)"
    using assms unfolding text_obligation_ok_def
    by (simp add: parse_obligation_def too_many_def need_def contains_def l t v us(2)) (cases "ob_mandatory b"; simp add: obligation_words_def b[symmetric])
  finally show ?thesis using us(1) by simp
qed

lemma edits_obligation_desc:
  "plain_text t \<Longrightarrow> text_obligations.edits (desc_lines ''+desc'' t) (\<lambda>b. b\<lparr>ob_description := if t = [] then ob_description b else t\<rparr>)"
  using text_obligations.edits_Nil
  by (auto simp: text_obligations.edits_def desc_lines_def read_desc describe_current_def Let_def on_last_def)

lemma edits_obligation_racks:
  assumes "list_all is_canonical_id is"
  shows "text_obligations.edits (map (id_line ''+rack'') is) (\<lambda>b. b\<lparr>ob_protected_racks := ob_protected_racks b @ is\<rparr>)"
proof (rule text_obligations.edits_all)
  show "fold (\<lambda>i b. b\<lparr>ob_protected_racks := ob_protected_racks b @ [i]\<rparr>) is b = b\<lparr>ob_protected_racks := ob_protected_racks b @ is\<rparr>" for b
    by (induction "is" arbitrary: b) simp_all
next
  fix i assume "i \<in> set is"
  then have "is_canonical_id i" using assms by (simp add: list_all_iff)
  then show "text_obligations.edits [id_line ''+rack'' i] (\<lambda>b. b\<lparr>ob_protected_racks := ob_protected_racks b @ [i]\<rparr>)"
    by (simp add: text_obligations.edits_def id_line_words handle_line_def tok_def parse_continuation_def obligation_line_def
        on_snapshot_def on_last_def)
qed

lemma edits_obligation_requirements:
  assumes "list_all (\<lambda>r. is_canonical_id (cr_resource r)) rs"
  shows "text_obligations.edits (map require_line rs) (\<lambda>b. b\<lparr>ob_requirements := ob_requirements b @ rs\<rparr>)"
proof (rule text_obligations.edits_all)
  show "fold (\<lambda>r b. b\<lparr>ob_requirements := ob_requirements b @ [r]\<rparr>) rs b = b\<lparr>ob_requirements := ob_requirements b @ rs\<rparr>" for b
    by (induction rs arbitrary: b) simp_all
next
  fix r assume "r \<in> set rs"
  then have c: "is_canonical_id (cr_resource r)" using assms by (simp add: list_all_iff)
  let ?ws = "[''+require'', id_or_dash (cr_resource r), dec_u64 (cr_minimum r), dec_u64 (cr_margin_percent r)]"
  have "read_line (require_line r) p = handle_line (require_line r) (views 0 ?ws) p" for p
    unfolding require_line_def using c by (intro read_words) simp_all
  moreover have "\<lparr>cr_resource = cr_resource r, cr_minimum = cr_minimum r, cr_margin_percent = cr_margin_percent r\<rparr> = r"
    by (cases r) simp
  ultimately show "text_obligations.edits [require_line r] (\<lambda>b. b\<lparr>ob_requirements := ob_requirements b @ [r]\<rparr>)"
    using c by (simp add: text_obligations.edits_def handle_line_def tok_def parse_continuation_def obligation_line_def
        on_snapshot_def on_last_def)
qed

lemma obligation_reads:
  assumes "text_obligation_ok b"
  shows "text_obligations.record_reads obligation_lines b"
proof -
  have ok: "plain_text (ob_description b)" "list_all is_canonical_id (ob_protected_racks b)"
    "list_all (\<lambda>r. is_canonical_id (cr_resource r)) (ob_requirements b)" using assms by (auto simp: text_obligation_ok_def)
  have read: "read_line (line_of (obligation_words b) (pv_detail (ob_provenance b))) p =
      Inr \<lparr>tp_snapshot = (tp_snapshot p)\<lparr>sn_obligations := sn_obligations (tp_snapshot p) @ [bare_obligation b]\<rparr>,
        tp_current = Cur_Obligation\<rparr>"
    if "length (sn_obligations (tp_snapshot p)) < max_text_items" for p
    using that by (simp add: read_obligation assms with_snapshot_def)
  show ?thesis
    by (rule text_obligations.record_readsI[OF _ text_obligations.edits_append[OF edits_obligation_desc[OF ok(1)]
        text_obligations.edits_append[OF edits_obligation_racks[OF ok(2)] edits_obligation_requirements[OF ok(3)]]] _ read],
      simp add: obligation_lines_def, cases b, simp add: bare_obligation_def)
qed

end
