(* ===== verification/Text_Form.thy ===== *)
theory Text_Form
  imports Text_Records
begin

text \<open>
  Whole documents: a snapshot is rendered to lines, the loop of the parser takes them one by one, and
  the text parses back to the snapshot. Two defects of the parser are stated here as well: it reads no route, and it
  throws when the last newline is missing.
\<close>

section \<open>Documents\<close>

definition snapshot_lines :: "pod_snapshot \<Rightarrow> string list" where
  "snapshot_lines s =
     [line_of [''schema'', sn_schema s] [], line_of [''pod'', id_or_dash (sn_pod s)] [],
      line_of [''observed-at'', dec_string_int (sn_observed_at s)] [],
      line_of (''prov'' # prov_words (sn_provenance s)) []] @
     desc_lines ''+detail'' (pv_detail (sn_provenance s)) @
     concat (map member_lines (sn_members s)) @ concat (map link_lines (sn_links s)) @
     concat (map domain_lines (sn_domains s)) @ concat (map obligation_lines (sn_obligations s))"

text \<open>A line the parser takes as it is, and a text within its limits.\<close>

definition good_line :: "string \<Rightarrow> bool" where
  "good_line l \<longleftrightarrow> CHR 0x0A \<notin> set l \<and> l \<noteq> [] \<and> last l \<noteq> CHR 0x0D \<and> split_tokens l \<noteq> [] \<and> tok (split_tokens l) 0 \<noteq> ''end''"

definition within_limits :: "string list \<Rightarrow> bool" where
  "within_limits ls \<longleftrightarrow> length ls + 2 \<le> max_lines \<and> list_all (\<lambda>l. length l \<le> max_line_bytes \<and> is_valid_utf8 l) ls"

lemma spaced_chars: "list_all text_word ws \<Longrightarrow> c \<in> set (spaced ws) \<Longrightarrow> c \<notin> {CHR 0x0A, CHR 0x0D}"
  by (induction ws rule: spaced.induct) (auto simp: text_word_def)

lemma spaced_nonempty: "list_all text_word ws \<Longrightarrow> ws \<noteq> [] \<Longrightarrow> spaced ws \<noteq> []"
  by (induction ws rule: spaced.induct) (auto simp: text_word_def)

lemma good_line_of:
  assumes "list_all text_word ws" "ws \<noteq> []" "hd ws \<noteq> ''end''" "plain_text d"
  shows "good_line (line_of ws d)"
proof -
  have d: "c \<notin> {CHR 0x0A, CHR 0x0D}" if "c \<in> set d" for c using that assms(4) by (auto simp: plain_text_def)
  have c: "c \<notin> {CHR 0x0A, CHR 0x0D}" if "c \<in> set (line_of ws d)" for c
    using that d spaced_chars[OF assms(1), of c] by (auto simp: line_of_def split: if_splits)
  have n: "line_of ws d \<noteq> []" using spaced_nonempty[OF assms(1,2)] by (simp add: line_of_def)
  obtain us where us: "split_tokens (line_of ws d) = views 0 ws @ us"
    using split_line[OF assms(1,2), of d] assms(4) by (auto simp: plain_text_def)
  have "tok (split_tokens (line_of ws d)) 0 = hd ws" "split_tokens (line_of ws d) \<noteq> []"
    unfolding us using tok_views[of 0 ws 0 us] assms(2) by (simp_all add: hd_conv_nth, cases ws, simp_all)
  then show ?thesis using c[of "CHR 0x0A"] c[OF last_in_set[OF n]] n assms(3) by (auto simp: good_line_def)
qed

lemma good_desc: "plain_text t \<Longrightarrow> list_all text_word [d] \<Longrightarrow> d \<noteq> ''end'' \<Longrightarrow> list_all good_line (desc_lines d t)"
  by (simp add: desc_lines_def good_line_of)

lemma good_ids: "list_all is_canonical_id is \<Longrightarrow> text_word d \<Longrightarrow> d \<noteq> ''end'' \<Longrightarrow> list_all good_line (map (id_line d) is)"
  by (auto simp: list_all_iff id_line_def plain_text_def intro!: good_line_of)

lemma good_member_lines: "text_member_ok m \<Longrightarrow> list_all good_line (member_lines m)"
proof -
  assume m: "text_member_ok m"
  have "good_line (claim_line c)" if "claim_ok c" for c
    using good_line_of[OF claim_words_ok[OF that], of "pv_detail (cc_provenance c)"] that
    by (simp add: claim_line_def claim_words_def claim_ok_def)
  moreover have "good_line (line_of (member_words m) [])"
    using m good_line_of[OF member_words_ok, of m "[]"] by (simp add: text_member_ok_def member_words_def plain_text_def)
  ultimately show ?thesis using m
    by (simp add: member_lines_def good_desc good_ids text_member_ok_def) (auto simp: list_all_iff)
qed

lemma good_link_lines: "text_link_ok l \<Longrightarrow> list_all good_line (link_lines l)"
  using good_line_of[OF link_words_ok, of l "[]"]
  by (simp add: link_lines_def link_words_def plain_text_def[of "[]"]) (simp add: good_desc text_link_ok_def)

lemma good_domain_lines: "text_domain_ok d \<Longrightarrow> list_all good_line (domain_lines d)"
  using good_line_of[OF domain_words_ok, of d "pv_detail (fd_provenance d)"]
  by (simp add: domain_lines_def domain_words_def text_domain_ok_def good_desc good_ids)

lemma good_obligation_lines: "text_obligation_ok b \<Longrightarrow> list_all good_line (obligation_lines b)"
proof -
  assume b: "text_obligation_ok b"
  have "good_line (require_line r)" if "is_canonical_id (cr_resource r)" for r
    unfolding require_line_def using that by (intro good_line_of) (simp_all add: plain_text_def)
  then have "list_all good_line (map require_line (ob_requirements b))"
    using b by (auto simp: text_obligation_ok_def list_all_iff)
  then show ?thesis using b good_line_of[OF obligation_words_ok[OF b], of "pv_detail (ob_provenance b)"]
    by (simp add: obligation_lines_def obligation_words_def text_obligation_ok_def good_desc good_ids)
qed

text \<open>The snapshots whose text can be read back.\<close>

definition text_snapshot_ok :: "pod_snapshot \<Rightarrow> bool" where
  "text_snapshot_ok s \<longleftrightarrow> text_word (sn_schema s) \<and> is_canonical_id (sn_pod s) \<and> time_ok (sn_observed_at s) \<and>
     id_ok (pv_source (sn_provenance s)) \<and> plain_text (pv_detail (sn_provenance s)) \<and>
     list_all text_member_ok (sn_members s) \<and> list_all text_link_ok (sn_links s) \<and> sn_routes s = [] \<and>
     list_all text_domain_ok (sn_domains s) \<and> list_all text_obligation_ok (sn_obligations s) \<and>
     within_limits (snapshot_lines s)"

lemma good_snapshot_lines: "text_snapshot_ok s \<Longrightarrow> list_all good_line (snapshot_lines s)"
proof -
  assume s: "text_snapshot_ok s"
  have "list_all good_line (concat (map member_lines (sn_members s)))" "list_all good_line (concat (map link_lines (sn_links s)))"
    "list_all good_line (concat (map domain_lines (sn_domains s)))" "list_all good_line (concat (map obligation_lines (sn_obligations s)))"
    using s good_member_lines good_link_lines good_domain_lines good_obligation_lines
    unfolding text_snapshot_ok_def list_all_iff set_concat by auto
  moreover have "good_line (line_of [''schema'', sn_schema s] [])" "good_line (line_of [''pod'', id_or_dash (sn_pod s)] [])"
    "good_line (line_of [''observed-at'', dec_string_int (sn_observed_at s)] [])"
    "good_line (line_of (''prov'' # prov_words (sn_provenance s)) [])"
    using s by (intro good_line_of; simp add: text_snapshot_ok_def prov_words_def plain_text_def)+
  ultimately show ?thesis using s by (simp add: snapshot_lines_def good_desc text_snapshot_ok_def)
qed

lemma snapshot_text_lines:
  assumes "text_snapshot_ok s"
  shows "snapshot_text s = text_line text_schema @ concat (map text_line (snapshot_lines s)) @ text_line ''end''"
proof -
  have o: "text_member_ok m \<Longrightarrow> member_record_text m = concat (map text_line (member_lines m))" for m
    by (rule member_text_lines) (auto simp: text_member_ok_def claim_ok_def list_all_iff)
  have "concat (map member_record_text (sn_members s)) = concat (map text_line (concat (map member_lines (sn_members s))))"
    "concat (map link_record_text (sn_links s)) = concat (map text_line (concat (map link_lines (sn_links s))))"
    "concat (map domain_record_text (sn_domains s)) = concat (map text_line (concat (map domain_lines (sn_domains s))))"
    "concat (map obligation_record_text (sn_obligations s)) = concat (map text_line (concat (map obligation_lines (sn_obligations s))))"
    using assms o link_text_lines domain_text_lines obligation_text_lines unfolding text_snapshot_ok_def list_all_iff
    by (intro concat_lines; blast)+
  moreover have "sn_schema s \<noteq> []" using assms by (simp add: text_snapshot_ok_def text_word_def)
  moreover have "described ''+detail'' (pv_detail (sn_provenance s)) =
      concat (map text_line (desc_lines ''+detail'' (pv_detail (sn_provenance s))))"
    using assms by (intro described_lines) (simp add: text_snapshot_ok_def)
  moreover have "sn_routes s = []" using assms by (simp add: text_snapshot_ok_def)
  ultimately show ?thesis
    by (simp add: snapshot_text_def snapshot_lines_def text_kv_def line_of_def prov_words_def prov_inline_def)
      (simp add: text_line_def)
qed

lemma length_concat_lines: "(\<And>x. x \<in> set xs \<Longrightarrow> 0 < length (f x)) \<Longrightarrow> length xs \<le> length (concat (map f xs))"
proof (induction xs)
  case (Cons x xs)
  then have "length xs \<le> length (concat (map f xs))" by auto
  moreover have "f x \<noteq> []" using Cons.prems[of x] by simp
  ultimately show ?case by (cases "f x") simp_all
qed simp

lemma few_records:
  assumes "within_limits (snapshot_lines s)"
  shows "length (sn_members s) \<le> max_text_items" "length (sn_links s) \<le> max_text_items" "length (sn_domains s) \<le> max_text_items"
    "length (sn_obligations s) \<le> max_text_items"
proof -
  have "length (snapshot_lines s) \<le> max_text_items"
    using assms by (simp add: within_limits_def max_lines_def max_text_items_def)
  moreover have "length (sn_members s) \<le> length (concat (map member_lines (sn_members s)))"
    "length (sn_links s) \<le> length (concat (map link_lines (sn_links s)))"
    "length (sn_domains s) \<le> length (concat (map domain_lines (sn_domains s)))"
    "length (sn_obligations s) \<le> length (concat (map obligation_lines (sn_obligations s)))"
    by (intro length_concat_lines; simp add: member_lines_def link_lines_def domain_lines_def obligation_lines_def)+
  ultimately show "length (sn_members s) \<le> max_text_items" "length (sn_links s) \<le> max_text_items"
    "length (sn_domains s) \<le> max_text_items" "length (sn_obligations s) \<le> max_text_items"
    by (simp_all add: snapshot_lines_def)
qed

lemma read_header:
  assumes "text_snapshot_ok s"
  shows "read_lines [line_of [''schema'', sn_schema s] [], line_of [''pod'', id_or_dash (sn_pod s)] [],
      line_of [''observed-at'', dec_string_int (sn_observed_at s)] [], line_of (''prov'' # prov_words (sn_provenance s)) []] p =
    Inr \<lparr>tp_snapshot = (tp_snapshot p)\<lparr>sn_schema := sn_schema s, sn_pod := sn_pod s, sn_observed_at := sn_observed_at s,
      sn_provenance := bare (sn_provenance s)\<rparr>, tp_current = Cur_Snapshot\<rparr>"
proof -
  let ?ws = "''prov'' # prov_words (sn_provenance s)"
  have s: "text_word (sn_schema s)" "is_canonical_id (sn_pod s)" "time_ok (sn_observed_at s)" "id_ok (pv_source (sn_provenance s))"
    using assms by (simp_all add: text_snapshot_ok_def)
  have v: "parse_prov (views 0 ?ws) 1 = Inr (bare (sn_provenance s))"
  proof (rule parse_prov_words)
    fix k :: nat assume "k < 4"
    then show "tok (views 0 ?ws) (1 + k) = prov_words (sn_provenance s) ! k"
      using tok_views0[of "1 + k" ?ws 0] by (simp add: prov_words_def)
  qed (use s(4) in \<open>simp_all add: prov_words_def\<close>)
  have w: "list_all text_word ?ws" using s(4) by (simp add: prov_words_def)
  have h: "tok (views 0 ?ws) 0 = ''prov''" by (simp add: tok_def)
  have l: "read_line (line_of [''schema'', sn_schema s] []) q = Inr (on_snapshot (\<lambda>t. t\<lparr>sn_schema := sn_schema s\<rparr>) q)"
    "read_line (line_of [''pod'', id_or_dash (sn_pod s)] []) q = Inr (on_snapshot (\<lambda>t. t\<lparr>sn_pod := sn_pod s\<rparr>) q)"
    "read_line (line_of [''observed-at'', dec_string_int (sn_observed_at s)] []) q =
      Inr (on_snapshot (\<lambda>t. t\<lparr>sn_observed_at := sn_observed_at s\<rparr>) q)" for q
    using s by (simp_all add: read_words handle_line_def tok_def)
  have "read_line (line_of ?ws []) q = Inr (with_snapshot (\<lambda>t. t\<lparr>sn_provenance := bare (sn_provenance s)\<rparr>) Cur_Snapshot q)" for q
    using read_words[OF w, of q] v by (simp add: handle_line_def h del: views.simps)
  then show ?thesis by (simp add: l on_snapshot_def with_snapshot_def)
qed

lemma read_snapshot:
  assumes "text_snapshot_ok s" "sn_members (tp_snapshot p) = []" "sn_links (tp_snapshot p) = []" "sn_routes (tp_snapshot p) = []"
    "sn_domains (tp_snapshot p) = []" "sn_obligations (tp_snapshot p) = []"
  shows "\<exists>k. read_lines (snapshot_lines s) p = Inr \<lparr>tp_snapshot = s, tp_current = k\<rparr>"
proof -
  have ok: "\<And>m. m \<in> set (sn_members s) \<Longrightarrow> text_member_ok m" "\<And>l. l \<in> set (sn_links s) \<Longrightarrow> text_link_ok l"
    "\<And>d. d \<in> set (sn_domains s) \<Longrightarrow> text_domain_ok d" "\<And>b. b \<in> set (sn_obligations s) \<Longrightarrow> text_obligation_ok b"
    "sn_routes s = []" "plain_text (pv_detail (sn_provenance s))"
    using assms(1) by (auto simp: text_snapshot_ok_def list_all_iff)
  have few: "length (sn_members s) \<le> max_text_items" "length (sn_links s) \<le> max_text_items"
    "length (sn_domains s) \<le> max_text_items" "length (sn_obligations s) \<le> max_text_items"
    using few_records[of s] assms(1) by (simp_all add: text_snapshot_ok_def)
  let ?t = "(tp_snapshot p)\<lparr>sn_schema := sn_schema s, sn_pod := sn_pod s, sn_observed_at := sn_observed_at s,
      sn_provenance := sn_provenance s\<rparr>"
  have d: "read_lines (desc_lines ''+detail'' (pv_detail (sn_provenance s)))
      \<lparr>tp_snapshot = ?t\<lparr>sn_provenance := bare (sn_provenance s)\<rparr>, tp_current = Cur_Snapshot\<rparr> =
      Inr \<lparr>tp_snapshot = ?t, tp_current = Cur_Snapshot\<rparr>"
    using ok(6) by (cases "sn_provenance s") (simp add: desc_lines_def read_desc describe_current_def bare_def)
  obtain k1 where m: "read_lines (concat (map member_lines (sn_members s))) \<lparr>tp_snapshot = ?t, tp_current = Cur_Snapshot\<rparr> =
      Inr \<lparr>tp_snapshot = ?t\<lparr>sn_members := sn_members s\<rparr>, tp_current = k1\<rparr>"
    using text_members.records_read[of "sn_members s" member_lines "\<lparr>tp_snapshot = ?t, tp_current = Cur_Snapshot\<rparr>"]
      member_reads ok(1) few(1) assms(2) by auto
  obtain k2 where l: "read_lines (concat (map link_lines (sn_links s))) \<lparr>tp_snapshot = ?t\<lparr>sn_members := sn_members s\<rparr>, tp_current = k1\<rparr> =
      Inr \<lparr>tp_snapshot = ?t\<lparr>sn_members := sn_members s, sn_links := sn_links s\<rparr>, tp_current = k2\<rparr>"
    using text_links.records_read[of "sn_links s" link_lines "\<lparr>tp_snapshot = ?t\<lparr>sn_members := sn_members s\<rparr>, tp_current = k1\<rparr>"]
      link_reads ok(2) few(2) assms(3) by auto
  obtain k3 where f: "read_lines (concat (map domain_lines (sn_domains s)))
        \<lparr>tp_snapshot = ?t\<lparr>sn_members := sn_members s, sn_links := sn_links s\<rparr>, tp_current = k2\<rparr> =
      Inr \<lparr>tp_snapshot = ?t\<lparr>sn_members := sn_members s, sn_links := sn_links s, sn_domains := sn_domains s\<rparr>, tp_current = k3\<rparr>"
    using text_domains.records_read[of "sn_domains s" domain_lines
        "\<lparr>tp_snapshot = ?t\<lparr>sn_members := sn_members s, sn_links := sn_links s\<rparr>, tp_current = k2\<rparr>"]
      domain_reads ok(3) few(3) assms(5) by auto
  obtain k4 where b: "read_lines (concat (map obligation_lines (sn_obligations s)))
        \<lparr>tp_snapshot = ?t\<lparr>sn_members := sn_members s, sn_links := sn_links s, sn_domains := sn_domains s\<rparr>, tp_current = k3\<rparr> =
      Inr \<lparr>tp_snapshot = ?t\<lparr>sn_members := sn_members s, sn_links := sn_links s, sn_domains := sn_domains s,
        sn_obligations := sn_obligations s\<rparr>, tp_current = k4\<rparr>"
    using text_obligations.records_read[of "sn_obligations s" obligation_lines
        "\<lparr>tp_snapshot = ?t\<lparr>sn_members := sn_members s, sn_links := sn_links s, sn_domains := sn_domains s\<rparr>, tp_current = k3\<rparr>"]
      obligation_reads ok(4) few(4) assms(6) by auto
  have e: "?t\<lparr>sn_members := sn_members s, sn_links := sn_links s, sn_domains := sn_domains s, sn_obligations := sn_obligations s\<rparr> = s"
    using ok(5) assms(4) by (cases s; cases "tp_snapshot p") simp
  have "read_lines (snapshot_lines s) p = Inr \<lparr>tp_snapshot = s, tp_current = k4\<rparr>"
    unfolding snapshot_lines_def read_lines_append read_header[OF assms(1)]
    using d m l f b e by (simp add: read_lines_append)
  then show ?thesis by blast
qed

section \<open>The loop of the parser\<close>

lemma cut_good: "good_line l \<Longrightarrow> cut_line (l @ newline @ rest) = (l, Some rest)"
  by (auto simp: cut_line_def good_line_def newline_def without_return_def takeWhile_append dropWhile_append)

lemma parse_lines_good:
  assumes "list_all good_line ls" "list_all (\<lambda>l. length l \<le> max_line_bytes \<and> is_valid_utf8 l) ls" "n + length ls \<le> max_lines"
  shows "parse_lines n True p (concat (map text_line ls) @ rest) =
    try_bind (read_lines ls p) (\<lambda>q. parse_lines (n + length ls) True q rest)"
  using assms
proof (induction ls arbitrary: n p)
  case (Cons l ls)
  have l: "good_line l" using Cons.prems(1) by simp
  have c: "check_line (Suc n) l = success" using Cons.prems(2,3) by (simp add: check_line_def)
  have "parse_line (Suc n) True p l (Some r) = try_bind (read_line l p) (\<lambda>q. Inr (True, False, q))" for r
    using l c by (simp add: parse_line_def good_line_def read_line_def Let_def)
  moreover have "parse_lines (Suc n) True q (concat (map text_line ls) @ rest) =
      try_bind (read_lines ls q) (\<lambda>q. parse_lines (Suc n + length ls) True q rest)" for q
    using Cons.prems by (intro Cons.IH) simp_all
  moreover have "concat (map text_line (l # ls)) @ rest = l @ newline @ concat (map text_line ls) @ rest"
    by (simp add: text_line_def)
  ultimately show ?case
    using parse_lines.simps[of n True p "l @ newline @ concat (map text_line ls) @ rest"] cut_good[OF l, of "concat (map text_line ls) @ rest"]
    by (cases "read_line l p") simp_all
qed simp

lemma split_end: "split_tokens ''end'' = [(0, ''end'')]"
  by (simp add: split_tokens_def split_from.simps blank_def Let_def)

lemma cut_end: "cut_line (''end'' @ newline) = (''end'', Some [])" "cut_line ''end'' = (''end'', None)"
  by (simp_all add: cut_line_def newline_def without_return_def)

lemma check_end: "n < max_lines \<Longrightarrow> check_line (Suc n) ''end'' = success"
proof -
  assume "n < max_lines"
  moreover have "is_valid_utf8 ''end''" by code_simp
  ultimately show ?thesis by (simp add: check_line_def max_line_bytes_def)
qed

lemma parse_end:
  assumes "n < max_lines"
  shows "parse_lines n True p (text_line ''end'') = Inr (True, True, p)"
    "parse_lines n True p ''end'' = Inl (Undefined ''substr throws out_of_range'')"
proof -
  have "parse_line (Suc n) True p ''end'' (Some []) = Inr (True, True, p)"
    "parse_line (Suc n) True p ''end'' None = Inl (Undefined ''substr throws out_of_range'')"
    by (simp_all add: parse_line_def check_end[OF assms] split_end tok_def after_end_def)
  then show "parse_lines n True p (text_line ''end'') = Inr (True, True, p)"
    "parse_lines n True p ''end'' = Inl (Undefined ''substr throws out_of_range'')"
    unfolding text_line_def parse_lines.simps[of n True p] cut_end by simp_all
qed

lemma parse_start: "parse_lines 0 False p (text_line text_schema @ rest) = parse_lines 1 True (on_snapshot (\<lambda>s. s\<lparr>sn_schema := snapshot_schema\<rparr>) p) rest"
proof -
  have g: "good_line text_schema"
    by (simp add: good_line_def text_schema_def split_tokens_def split_from.simps blank_def Let_def tok_def)
  have "is_valid_utf8 text_schema" unfolding text_schema_def by code_simp
  then have "check_line 1 text_schema = success" by (simp add: check_line_def max_lines_def max_line_bytes_def text_schema_def)
  moreover have "split_tokens text_schema = [(0, text_schema)]"
    by (simp add: text_schema_def split_tokens_def split_from.simps blank_def Let_def)
  ultimately show ?thesis
    using parse_lines.simps[of 0 False p "text_schema @ newline @ rest"] cut_good[OF g, of rest]
    by (simp add: text_line_def parse_line_def tok_def)
qed

lemma parse_snapshot_text:
  assumes "text_snapshot_ok s"
  shows "\<exists>k. parse_lines 0 False parser_new (text_line text_schema @ concat (map text_line (snapshot_lines s)) @ rest) =
    parse_lines (Suc (length (snapshot_lines s))) True \<lparr>tp_snapshot = s, tp_current = k\<rparr> rest"
proof -
  let ?p = "on_snapshot (\<lambda>s. s\<lparr>sn_schema := snapshot_schema\<rparr>) parser_new"
  obtain k where k: "read_lines (snapshot_lines s) ?p = Inr \<lparr>tp_snapshot = s, tp_current = k\<rparr>"
    using read_snapshot[OF assms, of ?p] by (auto simp: parser_new_def on_snapshot_def)
  have w: "within_limits (snapshot_lines s)" using assms by (simp add: text_snapshot_ok_def)
  have "parse_lines 1 True ?p (concat (map text_line (snapshot_lines s)) @ rest) =
      try_bind (read_lines (snapshot_lines s) ?p) (\<lambda>q. parse_lines (1 + length (snapshot_lines s)) True q rest)"
    using w by (intro parse_lines_good good_snapshot_lines[OF assms]) (simp_all add: within_limits_def)
  then show ?thesis by (auto simp: parse_start k)
qed

section \<open>What the text form guarantees\<close>

lemma text_parses_back:
  assumes "text_snapshot_ok s"
  shows "snapshot_from_text (snapshot_text s) = Inr s"
proof -
  have "Suc (length (snapshot_lines s)) < max_lines" using assms by (simp add: text_snapshot_ok_def within_limits_def)
  from parse_end(1)[OF this] parse_snapshot_text[OF assms, of "text_line ''end''"]
  show ?thesis by (auto simp: snapshot_from_text_def snapshot_text_lines[OF assms])
qed

text \<open>
  C20: a snapshot survives its text form. A snapshot without routes, whose identities are canonical and
  whose free texts are trimmed and free of control characters, is rendered to a text that parses back to
  exactly this snapshot, when the text stays within the limits of the parser on lines and their lengths.
\<close>

theorem text_roundtrip: "text_snapshot_ok s \<Longrightarrow> snapshot_from_text (snapshot_text s) = Inr s"
  by (rule text_parses_back)

text \<open>
  A text without its last newline throws. When the newline after the end marker is missing, the
  parser asks for the text behind its end: an exception leaves \<open>snapshot_from_text\<close>, although the document is complete.
\<close>

theorem missing_newline_throws:
  assumes "text_snapshot_ok s"
  shows "snapshot_text s = butlast (snapshot_text s) @ newline \<and>
    snapshot_from_text (butlast (snapshot_text s)) = Inl (Undefined ''substr throws out_of_range'')"
proof -
  have b: "butlast (snapshot_text s) = text_line text_schema @ concat (map text_line (snapshot_lines s)) @ ''end''"
    by (simp add: snapshot_text_lines[OF assms] butlast_append text_line_def[of "''end''"] newline_def)
  have "Suc (length (snapshot_lines s)) < max_lines" using assms by (simp add: text_snapshot_ok_def within_limits_def)
  from parse_end(2)[OF this] parse_snapshot_text[OF assms, of "''end''"]
  have "snapshot_from_text (butlast (snapshot_text s)) = Inl (Undefined ''substr throws out_of_range'')"
    unfolding b by (auto simp: snapshot_from_text_def)
  then show ?thesis using b by (simp add: snapshot_text_lines[OF assms] text_line_def[of "''end''"])
qed

definition sample_text_snapshot :: pod_snapshot where
  "sample_text_snapshot =
     \<lparr>sn_pod = ''p'', sn_schema = snapshot_schema,
      sn_members = [\<lparr>mr_rack = ''r1'', mr_generation = 7, mr_digest = replicate 32 9, mr_rnf_schema = [],
        mr_membership = Membership_Joining, mr_admin = Admin_Enabled, mr_health = Health_Ok,
        mr_failure_domains = [''d''], mr_capacity = [\<lparr>cc_resource = ''a'', cc_exclusivity = ''b'', cc_amount = 3,
          cc_reserved = 1, cc_domain = ''d'', cc_provenance = provenance_default\<lparr>pv_detail := ''two  words''\<rparr>\<rparr>],
        mr_ports = [''q''], mr_provenance = provenance_default, mr_observed_at = - 5\<rparr>],
      sn_links = [\<lparr>lk_id = ''l'', lk_a = \<lparr>le_rack = ''r1'', le_port = ''q''\<rparr>, lk_b = \<lparr>le_rack = ''r2'', le_port = ''q''\<rparr>,
        lk_domain = ''d'', lk_resource = ''a'', lk_capacity = 9, lk_admin = Admin_Enabled, lk_oper = Oper_Up,
        lk_a_generation = 1, lk_b_generation = 2, lk_route = [], lk_provenance = provenance_default, lk_observed_at = 3\<rparr>],
      sn_routes = [],
      sn_domains = [\<lparr>fd_id = ''d'', fd_kind = Kind_Power, fd_members = [''r1''], fd_description = ''a feed'',
        fd_provenance = provenance_default\<rparr>],
      sn_obligations = [\<lparr>ob_id = ''o'', ob_kind = Obl_CapacityFloor, ob_tenant = [], ob_description = [],
        ob_protected_racks = [''r1''], ob_required_domains = 2, ob_diversity_kind = Kind_Power,
        ob_requirements = [\<lparr>cr_resource = ''a'', cr_minimum = 4, cr_margin_percent = 10\<rparr>], ob_mandatory = True,
        ob_provenance = provenance_default\<rparr>],
      sn_provenance = provenance_default\<lparr>pv_detail := ''by hand''\<rparr>, sn_observed_at = 3\<rparr>"

lemma ascii_utf8: "list_all (\<lambda>c. of_char c < (128 :: nat)) l \<Longrightarrow> is_valid_utf8 l"
  unfolding is_valid_utf8_def bytes_of_string_def
  by (rule utf8_ascii) (auto simp: list_all_iff word_less_nat_alt unat_byte_of_char)

lemma within_ascii:
  "length ls \<le> 1000 \<Longrightarrow> list_all (\<lambda>l. length l \<le> 1000 \<and> list_all (\<lambda>c. of_char c < (128 :: nat)) l) ls \<Longrightarrow> within_limits ls"
  by (auto simp: within_limits_def max_lines_def max_line_bytes_def list_all_iff intro!: ascii_utf8[unfolded list_all_iff])

lemma sample_ids: "is_canonical_id ''p'' \<and> is_canonical_id ''r1'' \<and> is_canonical_id ''r2'' \<and> is_canonical_id ''d'' \<and>
    is_canonical_id ''a'' \<and> is_canonical_id ''b'' \<and> is_canonical_id ''q'' \<and> is_canonical_id ''l'' \<and> is_canonical_id ''o''"
  by code_simp

lemma sample_lines: "within_limits (snapshot_lines sample_text_snapshot)"
proof (rule within_ascii)
  show "length (snapshot_lines sample_text_snapshot) \<le> 1000" by code_simp
  show "list_all (\<lambda>l. length l \<le> 1000 \<and> list_all (\<lambda>c. of_char c < (128 :: nat)) l) (snapshot_lines sample_text_snapshot)" by code_simp
qed

lemma sample_text_ok: "text_snapshot_ok sample_text_snapshot"
  using sample_lines sample_ids unfolding text_snapshot_ok_def
  by (simp add: sample_text_snapshot_def snapshot_schema_def time_ok_def id_ok_def plain_text_def trimmed_def blank_def
      provenance_default_def text_member_ok_def member_head_ok_def digest_ok_def claim_ok_def text_link_ok_def
      text_domain_ok_def text_obligation_ok_def)

theorem text_roundtrip_witness: "snapshot_from_text (snapshot_text sample_text_snapshot) = Inr sample_text_snapshot"
  by (rule text_roundtrip[OF sample_text_ok])

theorem missing_newline_throws_witness:
  "snapshot_from_text (butlast (snapshot_text sample_text_snapshot)) = Inl (Undefined ''substr throws out_of_range'')"
  using missing_newline_throws[OF sample_text_ok] by blast

text \<open>
  No document with a route is readable. The parser asks a route line for at least twenty tokens and
  refuses every route line with more than nineteen, so whatever snapshot a text parses to, it has no routes;
  the renderer writes routes as lines of nineteen tokens.
\<close>

theorem routes_never_read:
  assumes "snapshot_from_text t = Inr s"
  shows "sn_routes s = []"
proof -
  obtain h over p where p: "parse_lines 0 False parser_new t = Inr (h, over, p)" "s = tp_snapshot p"
    using assms by (auto simp: snapshot_from_text_def result_simps)
  have "routeless parser_new" by (simp add: routeless_def parser_new_def)
  from parse_lines_routeless[OF this p(1)] show ?thesis by (simp add: routeless_def p(2))
qed

theorem routes_never_read_witness:
  "\<exists>t s. snapshot_from_text t = Inr s \<and> sn_routes s = []"
proof -
  have t: "snapshot_from_text (text_line text_schema @ text_line ''end'') = Inr ((tp_snapshot parser_new)\<lparr>sn_schema := snapshot_schema\<rparr>)"
    using parse_start[of parser_new "text_line ''end''"] parse_end(1)[of 1]
    by (simp add: snapshot_from_text_def max_lines_def on_snapshot_def)
  from routes_never_read[OF t] t show ?thesis by blast
qed

end
