(* ===== verification/Sample_Hash.thy ===== *)
theory Sample_Hash
  imports Hashing
begin

text \<open>
  The hash of one message evaluated by the kernel: the descriptor text of the first rack of a synthetic pod with one rack.
  It shows that this descriptor does not have the digest zero, which a validation refuses. The schedule
  is kept with the newest word first, and each evaluation covers a quarter of it or of the rounds.
\<close>

primrec extend_newest :: "nat \<Rightarrow> u32 list \<Rightarrow> u32 list" where
  "extend_newest 0 w = w"
| "extend_newest (Suc n) w = extend_newest n
     ((w ! 15 + xor (xor (rotr (w ! 14) 7) (rotr (w ! 14) 18)) (drop_bit 3 (w ! 14)) + w ! 6 +
       xor (xor (rotr (w ! 1) 17) (rotr (w ! 1) 19)) (drop_bit 10 (w ! 1))) # w)"

primrec rounds_on :: "(u32 \<times> u32) list \<Rightarrow> u32 list \<Rightarrow> u32 list" where
  "rounds_on [] r = r"
| "rounds_on (p # ps) r = rounds_on ps (sha_round (fst p) (snd p) r)"

lemma rounds_on_append: "rounds_on (ps @ qs) r = rounds_on qs (rounds_on ps r)"
  by (induction ps arbitrary: r) simp_all

lemma rounds_on_fold:
  "length ks = length ws \<Longrightarrow> fold (\<lambda>i. sha_round (ks ! i) (ws ! i)) [0..<length ks] r = rounds_on (zip ks ws) r"
proof (induction ks ws arbitrary: r rule: list_induct2)
  case (Cons k ks w ws)
  have "[0..<length (k # ks)] = 0 # map Suc [0..<length ks]" by (simp add: upt_conv_Cons map_Suc_upt del: upt_Suc)
  with Cons show ?case by (simp add: fold_map comp_def)
qed simp

lemma extend_newest_add: "extend_newest (m + n) w = extend_newest n (extend_newest m w)"
  by (induction m arbitrary: w) simp_all

lemma extend_newest_steps: "16 \<le> length w \<Longrightarrow> extend_newest n (rev w) = rev ((sha_extend ^^ n) w)"
proof (induction n arbitrary: w)
  case (Suc n)
  have "extend_newest (Suc n) (rev w) = extend_newest n (rev (sha_extend w))"
    using Suc.prems by (simp add: sha_extend_def Let_def rev_nth Suc_diff_le numeral_eq_Suc)
  also have "\<dots> = rev ((sha_extend ^^ n) (sha_extend w))"
    using Suc.prems by (intro Suc.IH) (simp add: sha_extend_def Let_def)
  finally show ?case by (simp add: funpow_swap1)
qed simp

lemma schedule_0: "extend_newest 12 [128, 0, 0, 0, 0, 0, 0, 0, 0, 0, 0, 2147483648, 2083598384, 758217783, 1918985067, 1919837820] =
    [1234772744, 18022769, 374793795, 3286285001, 2122163475, 3349689674, 1412688917, 2578228912, 3070615503,
     2955056811, 2812471709, 4074805423, 128, 0, 0, 0, 0, 0, 0, 0, 0, 0, 0, 2147483648, 2083598384, 758217783,
     1918985067, 1919837820]"
  by code_simp

lemma schedule_1: "extend_newest 12 [1234772744, 18022769, 374793795, 3286285001, 2122163475, 3349689674, 1412688917, 2578228912, 3070615503,
     2955056811, 2812471709, 4074805423, 128, 0, 0, 0, 0, 0, 0, 0, 0, 0, 0, 2147483648, 2083598384, 758217783,
     1918985067, 1919837820] =
    [997388448, 1728126612, 829813804, 259523657, 4256412930, 2222966870, 3117183013, 3540771024, 1546838145,
     2969228140, 2107605249, 885706880, 1234772744, 18022769, 374793795, 3286285001, 2122163475, 3349689674,
     1412688917, 2578228912, 3070615503, 2955056811, 2812471709, 4074805423, 128, 0, 0, 0, 0, 0, 0, 0, 0, 0, 0,
     2147483648, 2083598384, 758217783, 1918985067, 1919837820]"
  by code_simp

lemma schedule_2: "extend_newest 12 [997388448, 1728126612, 829813804, 259523657, 4256412930, 2222966870, 3117183013, 3540771024, 1546838145,
     2969228140, 2107605249, 885706880, 1234772744, 18022769, 374793795, 3286285001, 2122163475, 3349689674,
     1412688917, 2578228912, 3070615503, 2955056811, 2812471709, 4074805423, 128, 0, 0, 0, 0, 0, 0, 0, 0, 0, 0,
     2147483648, 2083598384, 758217783, 1918985067, 1919837820] =
    [2620628201, 1454913742, 3121613143, 1521246418, 2827447466, 1903537235, 1158742289, 99386944, 516224183,
     1422315813, 3818748780, 1738890918, 997388448, 1728126612, 829813804, 259523657, 4256412930, 2222966870,
     3117183013, 3540771024, 1546838145, 2969228140, 2107605249, 885706880, 1234772744, 18022769, 374793795,
     3286285001, 2122163475, 3349689674, 1412688917, 2578228912, 3070615503, 2955056811, 2812471709, 4074805423,
     128, 0, 0, 0, 0, 0, 0, 0, 0, 0, 0, 2147483648, 2083598384, 758217783, 1918985067, 1919837820]"
  by code_simp

lemma schedule_3: "extend_newest 12 [2620628201, 1454913742, 3121613143, 1521246418, 2827447466, 1903537235, 1158742289, 99386944, 516224183,
     1422315813, 3818748780, 1738890918, 997388448, 1728126612, 829813804, 259523657, 4256412930, 2222966870,
     3117183013, 3540771024, 1546838145, 2969228140, 2107605249, 885706880, 1234772744, 18022769, 374793795,
     3286285001, 2122163475, 3349689674, 1412688917, 2578228912, 3070615503, 2955056811, 2812471709, 4074805423,
     128, 0, 0, 0, 0, 0, 0, 0, 0, 0, 0, 2147483648, 2083598384, 758217783, 1918985067, 1919837820] =
    [2170633003, 3423217424, 3086788259, 450289008, 112722546, 2107838375, 1663859011, 1499281897, 169375178,
     2912695672, 3292908070, 2470161935, 2620628201, 1454913742, 3121613143, 1521246418, 2827447466, 1903537235,
     1158742289, 99386944, 516224183, 1422315813, 3818748780, 1738890918, 997388448, 1728126612, 829813804,
     259523657, 4256412930, 2222966870, 3117183013, 3540771024, 1546838145, 2969228140, 2107605249, 885706880,
     1234772744, 18022769, 374793795, 3286285001, 2122163475, 3349689674, 1412688917, 2578228912, 3070615503,
     2955056811, 2812471709, 4074805423, 128, 0, 0, 0, 0, 0, 0, 0, 0, 0, 0, 2147483648, 2083598384, 758217783,
     1918985067, 1919837820]"
  by code_simp

lemma rounds_0: "rounds_on
    (zip [1116352408, 1899447441, 3049323471, 3921009573, 961987163, 1508970993, 2453635748, 2870763221, 3624381080,
      310598401, 607225278, 1426881987, 1925078388, 2162078206, 2614888103, 3248222580]
      [1919837820, 1918985067, 758217783, 2083598384, 2147483648, 0, 0, 0, 0, 0, 0, 0, 0, 0, 0, 128])
    [1779033703, 3144134277, 1013904242, 2773480762, 1359893119, 2600822924, 528734635, 1541459225] =
    [3822297651, 1039431461, 4011389318, 4233600471, 1037650763, 1677631953, 3757044795, 2577291136]"
  by code_simp

lemma rounds_1: "rounds_on
    (zip [3835390401, 4022224774, 264347078, 604807628, 770255983, 1249150122, 1555081692, 1996064986, 2554220882,
      2821834349, 2952996808, 3210313671, 3336571891, 3584528711, 113926993, 338241895]
      [4074805423, 2812471709, 2955056811, 3070615503, 2578228912, 1412688917, 3349689674, 2122163475, 3286285001,
      374793795, 18022769, 1234772744, 885706880, 2107605249, 2969228140, 1546838145])
    [3822297651, 1039431461, 4011389318, 4233600471, 1037650763, 1677631953, 3757044795, 2577291136] =
    [96379702, 1067194934, 383799749, 218197638, 3674870499, 3558627405, 1227999368, 2662194775]"
  by code_simp

lemma rounds_2: "rounds_on
    (zip [666307205, 773529912, 1294757372, 1396182291, 1695183700, 1986661051, 2177026350, 2456956037, 2730485921,
      2820302411, 3259730800, 3345764771, 3516065817, 3600352804, 4094571909, 275423344]
      [3540771024, 3117183013, 2222966870, 4256412930, 259523657, 829813804, 1728126612, 997388448, 1738890918,
      3818748780, 1422315813, 516224183, 99386944, 1158742289, 1903537235, 2827447466])
    [96379702, 1067194934, 383799749, 218197638, 3674870499, 3558627405, 1227999368, 2662194775] =
    [1247257450, 1063452859, 2832498118, 3064294287, 767010343, 3814293781, 242985189, 1694473321]"
  by code_simp

lemma rounds_3: "rounds_on
    (zip [430227734, 506948616, 659060556, 883997877, 958139571, 1322822218, 1537002063, 1747873779, 1955562222,
      2024104815, 2227730452, 2361852424, 2428436474, 2756734187, 3204031479, 3329325298]
      [1521246418, 3121613143, 1454913742, 2620628201, 2470161935, 3292908070, 2912695672, 169375178, 1499281897,
      1663859011, 2107838375, 112722546, 450289008, 3086788259, 3423217424, 2170633003])
    [1247257450, 1063452859, 2832498118, 3064294287, 767010343, 3814293781, 242985189, 1694473321] =
    [595556385, 882741658, 3831108848, 4247529182, 3447736402, 2039877815, 642790833, 4027216555]"
  by code_simp

lemma rack_1_words: "map (sha_load (map of_char ''rnf|rack-1|7|100'' @ sha_padding 16)) [0..<16] =
    rev [128, 0, 0, 0, 0, 0, 0, 0, 0, 0, 0, 2147483648, 2083598384, 758217783, 1918985067, 1919837820]"
  by code_simp

lemma rack_1_schedule: "sha_schedule (map of_char ''rnf|rack-1|7|100'' @ sha_padding 16) =
    rev [2170633003, 3423217424, 3086788259, 450289008, 112722546, 2107838375, 1663859011, 1499281897, 169375178,
     2912695672, 3292908070, 2470161935, 2620628201, 1454913742, 3121613143, 1521246418, 2827447466, 1903537235,
     1158742289, 99386944, 516224183, 1422315813, 3818748780, 1738890918, 997388448, 1728126612, 829813804,
     259523657, 4256412930, 2222966870, 3117183013, 3540771024, 1546838145, 2969228140, 2107605249, 885706880,
     1234772744, 18022769, 374793795, 3286285001, 2122163475, 3349689674, 1412688917, 2578228912, 3070615503,
     2955056811, 2812471709, 4074805423, 128, 0, 0, 0, 0, 0, 0, 0, 0, 0, 0, 2147483648, 2083598384, 758217783,
     1918985067, 1919837820]"
proof -
  have "sha_schedule (map of_char ''rnf|rack-1|7|100'' @ sha_padding 16) =
      rev (extend_newest 48 (rev (map (sha_load (map of_char ''rnf|rack-1|7|100'' @ sha_padding 16)) [0..<16])))"
    by (simp add: sha_schedule_def extend_newest_steps)
  moreover have "48 = 12 + (12 + (12 + (12 :: nat)))" by simp
  ultimately show ?thesis
    by (simp only: rack_1_words rev_rev_ident extend_newest_add schedule_0 schedule_1 schedule_2 schedule_3)
qed

lemma rack_1_rounds: "sha_compress sha256_H (map of_char ''rnf|rack-1|7|100'' @ sha_padding 16) =
    [2374590088, 4026875935, 550045794, 2726042648, 512662225, 345733443, 1171525468, 1273708484]"
proof -
  let ?w = "sha_schedule (map of_char ''rnf|rack-1|7|100'' @ sha_padding 16)"
  have len: "length sha256_K = 64" "length sha256_K = length ?w"
    unfolding rack_1_schedule by (simp_all add: sha256_K_def)
  have quarters: "zip sha256_K ?w =
      zip [1116352408, 1899447441, 3049323471, 3921009573, 961987163, 1508970993, 2453635748, 2870763221, 3624381080,
      310598401, 607225278, 1426881987, 1925078388, 2162078206, 2614888103, 3248222580]
       [1919837820, 1918985067, 758217783, 2083598384, 2147483648, 0, 0, 0, 0, 0, 0, 0, 0, 0, 0, 128] @
      zip [3835390401, 4022224774, 264347078, 604807628, 770255983, 1249150122, 1555081692, 1996064986, 2554220882,
      2821834349, 2952996808, 3210313671, 3336571891, 3584528711, 113926993, 338241895]
       [4074805423, 2812471709, 2955056811, 3070615503, 2578228912, 1412688917, 3349689674, 2122163475, 3286285001,
      374793795, 18022769, 1234772744, 885706880, 2107605249, 2969228140, 1546838145] @
      zip [666307205, 773529912, 1294757372, 1396182291, 1695183700, 1986661051, 2177026350, 2456956037, 2730485921,
      2820302411, 3259730800, 3345764771, 3516065817, 3600352804, 4094571909, 275423344]
       [3540771024, 3117183013, 2222966870, 4256412930, 259523657, 829813804, 1728126612, 997388448, 1738890918,
      3818748780, 1422315813, 516224183, 99386944, 1158742289, 1903537235, 2827447466] @
      zip [430227734, 506948616, 659060556, 883997877, 958139571, 1322822218, 1537002063, 1747873779, 1955562222,
      2024104815, 2227730452, 2361852424, 2428436474, 2756734187, 3204031479, 3329325298]
       [1521246418, 3121613143, 1454913742, 2620628201, 2470161935, 3292908070, 2912695672, 169375178, 1499281897,
      1663859011, 2107838375, 112722546, 450289008, 3086788259, 3423217424, 2170633003]"
    unfolding rack_1_schedule by (simp add: sha256_K_def)
  have start: "sha256_H = [1779033703, 3144134277, 1013904242, 2773480762, 1359893119, 2600822924, 528734635, 1541459225]" by (simp add: sha256_H_def)
  have "rounds_on (zip sha256_K ?w) sha256_H = [595556385, 882741658, 3831108848, 4247529182, 3447736402, 2039877815, 642790833, 4027216555]"
    unfolding quarters start by (simp only: rounds_on_append rounds_0 rounds_1 rounds_2 rounds_3)
  then show ?thesis
    using rounds_on_fold[OF len(2), of sha256_H] by (simp add: sha_compress_def Let_def len(1) sha256_H_def)
qed

lemma one_block: "length p = 64 \<Longrightarrow> hash_blocks st p = (sha_compress st p, [])"
  by (simp add: hash_blocks_long hash_blocks_short)

lemma rack_1_digest: "digest_of_string ''rnf|rack-1|7|100'' =
    [141, 137, 94, 136, 240, 5, 64, 31, 32, 201, 8, 98, 162, 124, 28, 24, 30, 142, 154, 209, 20, 155, 121, 67, 69,
     212, 15, 92, 75, 235, 63, 196]"
proof -
  let ?m = "map of_char ''rnf|rack-1|7|100'' :: byte list"
  have "length (?m @ sha_padding 16) = 64" by (simp add: sha_padding_def be64_def)
  note block = one_block[OF this, of sha256_H]
  have "length ?m = 16" by simp
  then have "digest_of_string ''rnf|rack-1|7|100'' = sha_output [2374590088, 4026875935, 550045794, 2726042648, 512662225, 345733443, 1171525468, 1273708484]"
    by (simp only: digest_of_string_def bytes_of_string_def digest_reference padded_hash_def block rack_1_rounds fst_conv)
  also have "\<dots> = [141, 137, 94, 136, 240, 5, 64, 31, 32, 201, 8, 98, 162, 124, 28, 24, 30, 142, 154, 209, 20, 155, 121, 67, 69,
     212, 15, 92, 75, 235, 63, 196]"
    by code_simp
  finally show ?thesis .
qed

lemma rack_1_digest_nonzero: "\<not> digest_is_zero (digest_of_string ''rnf|rack-1|7|100'')"
  unfolding rack_1_digest by (simp add: digest_is_zero_def)
end
