(* ===== verification/Synthetic.thy ===== *)
theory Synthetic
  imports Text_Form Durable Sample_Hash
begin

text \<open>
  Synthetic evidence: \<open>model/synthetic.hpp\<close>, \<open>model/synthetic.cpp\<close>. A snapshot of a pod is made up from
  counts and a seed. It is proved that what is made up within the default limits passes the validation of the
  program (if no descriptor has the digest zero), and that its text reads back as the same snapshot. The counters of the loops are natural numbers where they cannot wrap; the
  number of the last link, which can, is a 32-bit word.
\<close>

section \<open>Numbers and names\<close>

text \<open>\<open>Rng\<close>: a number with the state it leaves. \<open>range\<close> never divides by zero where it is called: \<open>low\<close> is
  positive there.\<close>

definition rng_next :: "u64 \<Rightarrow> u64 \<times> u64" where
  "rng_next s =
     (let t = s + 0x9E3779B97F4A7C15;
          z = xor t (drop_bit 30 t) * 0xBF58476D1CE4E5B9;
          w = xor z (drop_bit 27 z) * 0x94D049BB133111EB
      in (xor w (drop_bit 31 w), t))"

definition rng_range :: "u64 \<Rightarrow> u64 \<Rightarrow> u64 \<Rightarrow> u64 \<times> u64" where
  "rng_range low high s =
     (if high \<le> low then (low, s)
      else case rng_next s of (n, t) \<Rightarrow> (low + n mod (high - low + 1), t))"

definition numbered :: "string \<Rightarrow> nat \<Rightarrow> string" where
  "numbered prefix i = prefix @ ''-'' @ dec_string i"

text \<open>A name that is not a canonical identity is left out.\<close>

definition numbered_id :: "string \<Rightarrow> nat \<Rightarrow> ident list" where
  "numbered_id prefix i = (case id_parse (numbered prefix i) of Inl _ \<Rightarrow> [] | Inr x \<Rightarrow> [x])"

definition numbered_ids :: "string \<Rightarrow> nat list \<Rightarrow> ident list" where
  "numbered_ids prefix is = concat (map (numbered_id prefix) is)"

definition synthetic_provenance :: "string \<Rightarrow> provenance" where
  "synthetic_provenance detail =
     provenance_default\<lparr>pv_quality := Quality_Synthetic, pv_class := Class_Observed,
       pv_source := ''podfabric.synthetic'', pv_detail := detail\<rparr>"

definition rnf_schema_v1 :: string where "rnf_schema_v1 = ''rnf.descriptor/1''"

section \<open>Options\<close>

record synthetic_options =
  sy_pod :: ident
  sy_id_prefix :: string
  sy_racks :: u32
  sy_power_domains :: u32
  sy_seed :: u64
  sy_generation :: sequence
  sy_capacity :: u64
  sy_reserved :: u64
  sy_resource :: ident
  sy_full_mesh :: bool
  sy_observed_at :: nanos
  sy_health :: health_state
  sy_membership :: membership_state
  sy_class :: evidence_class
  sy_omit_every :: u32
  sy_with_obligations :: bool

definition synthetic_default :: synthetic_options where
  "synthetic_default =
     \<lparr>sy_pod = [], sy_id_prefix = ''rack'', sy_racks = 4, sy_power_domains = 2, sy_seed = 1, sy_generation = 0,
      sy_capacity = 100, sy_reserved = 10, sy_resource = [], sy_full_mesh = True, sy_observed_at = 0,
      sy_health = Health_Ok, sy_membership = Membership_Established, sy_class = Class_Observed,
      sy_omit_every = 0, sy_with_obligations = True\<rparr>"

text \<open>Zero stands for a default.\<close>

definition rack_count :: "synthetic_options \<Rightarrow> u32" where
  "rack_count y = (if sy_racks y = 0 then 1 else sy_racks y)"

definition domain_count :: "synthetic_options \<Rightarrow> u32" where
  "domain_count y = (if sy_power_domains y = 0 then 1 else sy_power_domains y)"

definition the_generation :: "synthetic_options \<Rightarrow> sequence" where
  "the_generation y = (if sequence_is_zero (sy_generation y) then 7 else sy_generation y)"

definition the_resource :: "synthetic_options \<Rightarrow> ident" where
  "the_resource y = (if is_nil (sy_resource y) then ''fabric.bandwidth'' else sy_resource y)"

section \<open>Racks and failure domains\<close>

definition rack_ids :: "synthetic_options \<Rightarrow> ident list" where
  "rack_ids y = numbered_ids (sy_id_prefix y) [1..<Suc (unat (rack_count y))]"

definition plane_id :: ident where "plane_id = ''plane-shared-0''"

definition shared_plane :: "ident list \<Rightarrow> failure_domain_record" where
  "shared_plane racks =
     \<lparr>fd_id = plane_id, fd_kind = Kind_SwitchPlane, fd_members = racks,
      fd_description = ''shared switching plane (synthetic)'',
      fd_provenance = synthetic_provenance ''synthetic switch plane''\<rparr>"

definition power_domain :: "nat \<Rightarrow> failure_domain_record list" where
  "power_domain d =
     map (\<lambda>i. \<lparr>fd_id = i, fd_kind = Kind_Power, fd_members = [],
        fd_description = ''power feed '' @ dec_string d @ '' (synthetic)'',
        fd_provenance = synthetic_provenance ''synthetic power feed''\<rparr>) (numbered_id ''power'' d)"

definition power_records :: "synthetic_options \<Rightarrow> failure_domain_record list" where
  "power_records y = concat (map power_domain [0..<unat (domain_count y)])"

definition synthetic_claim :: "synthetic_options \<Rightarrow> nat \<Rightarrow> ident \<Rightarrow> capacity_claim" where
  "synthetic_claim y i feed =
     \<lparr>cc_resource = the_resource y,
      cc_exclusivity = (case id_parse (numbered ''fabric'' (i + 1)) of Inl _ \<Rightarrow> [] | Inr k \<Rightarrow> k),
      cc_amount = sy_capacity y, cc_reserved = sy_reserved y,
      cc_domain = (if is_nil feed then plane_id else feed),
      cc_provenance = synthetic_provenance ''synthetic fabric budget''\<rparr>"

definition synthetic_member :: "synthetic_options \<Rightarrow> nat \<Rightarrow> ident \<Rightarrow> ident \<Rightarrow> member_record" where
  "synthetic_member y i rack feed =
     \<lparr>mr_rack = rack, mr_generation = the_generation y,
      mr_digest = digest_of_string (''rnf|'' @ rack @ ''|'' @ dec_u64 (the_generation y) @ ''|'' @ dec_u64 (sy_capacity y)),
      mr_rnf_schema = rnf_schema_v1, mr_membership = sy_membership y, mr_admin = Admin_Enabled, mr_health = sy_health y,
      mr_failure_domains = plane_id # (if is_nil feed then [] else [feed]),
      mr_capacity = [synthetic_claim y i feed], mr_ports = numbered_ids ''port'' [0, 1],
      mr_provenance = (synthetic_provenance ''synthetic rack descriptor'')\<lparr>pv_class := sy_class y\<rparr>,
      mr_observed_at = 0\<rparr>"

definition power_of :: "ident list \<Rightarrow> nat \<Rightarrow> ident" where
  "power_of powers i = (if powers = [] then [] else powers ! (i mod length powers))"

definition join_domain :: "ident \<Rightarrow> ident \<Rightarrow> failure_domain_record \<Rightarrow> failure_domain_record" where
  "join_domain feed rack d = (if fd_id d = feed then d\<lparr>fd_members := fd_members d @ [rack]\<rparr> else d)"

definition absent :: "synthetic_options \<Rightarrow> nat \<Rightarrow> bool" where
  "absent y i \<longleftrightarrow> sy_omit_every y \<noteq> 0 \<and> (i + 1) mod unat (sy_omit_every y) = 0"

text \<open>One round of the loop over the racks: the domain the rack joins, then its record.\<close>

definition place_rack ::
  "synthetic_options \<Rightarrow> ident list \<Rightarrow> ident list \<Rightarrow> nat \<Rightarrow> failure_domain_record list \<times> member_record list \<Rightarrow>
   failure_domain_record list \<times> member_record list" where
  "place_rack y powers racks i s =
     (case s of (domains, members) \<Rightarrow>
       let feed = power_of powers i;
           joined = (if is_nil feed then domains else map (join_domain feed (racks ! i)) domains)
       in if absent y i then (joined, members)
          else (joined, members @ [synthetic_member y i (racks ! i) feed]))"

section \<open>Links\<close>

record link_builder =
  lb_number :: u32
  lb_rng :: u64
  lb_links :: "link_record list"

definition wired :: "synthetic_options \<Rightarrow> nat \<Rightarrow> nat \<Rightarrow> nat \<Rightarrow> bool" where
  "wired y n i j \<longleftrightarrow> sy_full_mesh y \<or> j = i + 1 \<or> i = 0 \<and> j + 1 = n"

definition pairs_below :: "nat \<Rightarrow> (nat \<times> nat) list" where
  "pairs_below n = [(i, j). i \<leftarrow> [0..<n], j \<leftarrow> [Suc i..<n]]"

definition synthetic_link :: "synthetic_options \<Rightarrow> ident \<Rightarrow> ident \<Rightarrow> ident \<Rightarrow> u64 \<Rightarrow> link_record" where
  "synthetic_link y i a b capacity =
     \<lparr>lk_id = i, lk_a = \<lparr>le_rack = a, le_port = ''port-0''\<rparr>, lk_b = \<lparr>le_rack = b, le_port = ''port-0''\<rparr>,
      lk_domain = plane_id, lk_resource = the_resource y, lk_capacity = capacity, lk_admin = Admin_Enabled,
      lk_oper = Oper_Up, lk_a_generation = the_generation y, lk_b_generation = the_generation y, lk_route = [],
      lk_provenance = synthetic_provenance ''synthetic inter-rack link'', lk_observed_at = 0\<rparr>"

definition add_link :: "synthetic_options \<Rightarrow> ident list \<Rightarrow> nat \<times> nat \<Rightarrow> link_builder \<Rightarrow> link_builder" where
  "add_link y racks p s =
     (case p of (i, j) \<Rightarrow>
        if \<not> wired y (length racks) i j then s
        else let n = lb_number s + 1 in
          case id_parse (numbered ''link'' (unat n)) of
            Inl _ \<Rightarrow> s\<lparr>lb_number := n\<rparr>
          | Inr k \<Rightarrow>
              case rng_range (sy_capacity y div 2 + 1) (sy_capacity y) (lb_rng s) of
                (capacity, t) \<Rightarrow>
                  \<lparr>lb_number = n, lb_rng = t,
                   lb_links = lb_links s @ [synthetic_link y k (racks ! i) (racks ! j) capacity]\<rparr>)"

definition synthetic_links :: "synthetic_options \<Rightarrow> ident list \<Rightarrow> link_record list" where
  "synthetic_links y racks =
     lb_links (fold (add_link y racks) (pairs_below (length racks))
       \<lparr>lb_number = 0, lb_rng = sy_seed y, lb_links = []\<rparr>)"

section \<open>Obligations\<close>

definition obligation_new :: "ident \<Rightarrow> obligation_kind \<Rightarrow> string \<Rightarrow> string \<Rightarrow> obligation" where
  "obligation_new i k description detail =
     \<lparr>ob_id = i, ob_kind = k, ob_tenant = ''tenant-a'', ob_description = description, ob_protected_racks = [],
      ob_required_domains = 0, ob_diversity_kind = Kind_Power, ob_requirements = [], ob_mandatory = True,
      ob_provenance = synthetic_provenance detail\<rparr>"

definition synthetic_obligations :: "synthetic_options \<Rightarrow> ident list \<Rightarrow> ident list \<Rightarrow> obligation list" where
  "synthetic_obligations y racks powers =
     (if \<not> sy_with_obligations y then []
      else (if length powers \<ge> 2
            then [(obligation_new ''obligation.tenant-a-diversity'' Obl_DomainDiversity
                     ''tenant-a keeps two rack-disjoint power domains'' ''synthetic tenant obligation'')
                     \<lparr>ob_required_domains := 2\<rparr>] else []) @
           [(obligation_new ''obligation.protected-floor'' Obl_CapacityFloor ''protected fabric floor''
              ''synthetic capacity floor'')
              \<lparr>ob_requirements := [\<lparr>cr_resource = the_resource y, cr_minimum = sy_capacity y div 2, cr_margin_percent = 0\<rparr>]\<rparr>] @
           (if length racks \<ge> 2
            then [(obligation_new ''obligation.protected-path'' Obl_ProtectedPath
                     ''first and last rack stay mutually reachable'' ''synthetic protected path'')
                     \<lparr>ob_protected_racks := [hd racks, last racks]\<rparr>] else []))"

section \<open>The snapshot\<close>

text \<open>With the largest count the loop over the racks never ends: its 32-bit counter is never above it.\<close>

definition synthesize :: "synthetic_options \<Rightarrow> pod_snapshot result" where
  "synthesize y =
     (if rack_count y = - 1 then Inl (Undefined ''the loop over the racks does not end'')
      else
        let racks = rack_ids y;
            records = power_records y;
            powers = map fd_id records;
            (domains, members) =
              fold (place_rack y powers racks) [0..<length racks] (shared_plane racks # records, [])
        in Inr (canonicalise_snapshot
             \<lparr>sn_pod = sy_pod y, sn_schema = snapshot_schema, sn_members = members,
              sn_links = synthetic_links y racks, sn_routes = [],
              sn_domains = map (\<lambda>d. d\<lparr>fd_members := canonicalise (fd_members d)\<rparr>) domains,
              sn_obligations = synthetic_obligations y racks powers,
              sn_provenance = synthetic_provenance (''synthetic pod of '' @ dec_u64 (sy_racks y) @ '' racks from seed '' @
                dec_u64 (sy_seed y)),
              sn_observed_at = (if sy_observed_at y = 0 then 1700000000 * nanos_per_second else sy_observed_at y)\<rparr>))"

text \<open>\<open>expectations_for\<close>: \<open>MemberExpectation\<close> is ordered by rack, generation, digest and membership.\<close>

definition expectations_for :: "pod_snapshot \<Rightarrow> member_expectation list" where
  "expectations_for s =
     sort_key expectation_key
       (map (\<lambda>m. \<lparr>me_rack = mr_rack m, me_generation = mr_generation m, me_digest = mr_digest m,
                   me_membership = Membership_Established\<rparr>) (sn_members s))"

section \<open>What a validation accepts\<close>

lemma duplicates_after_iff: "duplicates_after seen xs \<longleftrightarrow> \<not> distinct xs \<or> set xs \<inter> set seen \<noteq> {}"
  by (induction xs arbitrary: seen) auto

lemma has_duplicates_iff [simp]: "has_duplicates xs \<longleftrightarrow> \<not> distinct xs"
  by (simp add: has_duplicates_def duplicates_after_iff)

lemma bounded_Inr [result_simps]: "bounded n limit what = Inr u \<longleftrightarrow> n \<le> unat limit"
  by (auto simp: bounded_def result_simps)

lemma try_fold_seen:
  assumes "\<And>x s. x \<in> set xs \<Longrightarrow> key x \<notin> set s \<Longrightarrow> f x s = Inr (key x # s)"
    and "distinct (map key xs)" "set (map key xs) \<inter> set s = {}"
  shows "try_fold f xs s = Inr (rev (map key xs) @ s)"
  using assms by (induction xs arbitrary: s) auto

lemma members_accepted:
  assumes "\<And>m. m \<in> set ms \<Longrightarrow> mr_rack m \<noteq> [] \<and> validate_member_body p m = success"
    and "distinct (map mr_rack ms)" "set (map mr_rack ms) \<inter> set seen = {}"
  shows "try_fold (validate_member p) ms (seen, n) =
    Inr (rev (map mr_rack ms) @ seen, n + sum_list (map (length \<circ> mr_capacity) ms))"
  using assms by (induction ms arbitrary: seen n) (auto simp: validate_member_def is_nil_def)

lemma validate_snapshot_accepts:
  assumes "validate_policy p = success" "sn_schema s = snapshot_schema" "sn_pod s \<noteq> []" "sn_observed_at s \<noteq> 0"
    and "is_valid_utf8 (pv_detail (sn_provenance s))"
    and "length (sn_members s) \<le> unat (po_max_members p)" "length (sn_links s) \<le> unat (po_max_links p)" "sn_routes s = []"
    and "length (sn_domains s) \<le> unat (po_max_domains p)" "length (sn_obligations s) \<le> unat (po_max_obligations p)"
    and members: "\<And>m. m \<in> set (sn_members s) \<Longrightarrow> mr_rack m \<noteq> [] \<and> validate_member_body p m = success"
    and "distinct (map mr_rack (sn_members s))"
    and claims: "sum_list (map (length \<circ> mr_capacity) (sn_members s)) \<le> unat (po_max_capacity_claims p)"
    and links: "\<And>l seen. l \<in> set (sn_links s) \<Longrightarrow> lk_id l \<notin> set seen \<Longrightarrow> validate_link p l seen = Inr (lk_id l # seen)"
    and "distinct (map lk_id (sn_links s))"
    and domains: "\<And>d seen. d \<in> set (sn_domains s) \<Longrightarrow> fd_id d \<notin> set seen \<Longrightarrow> validate_domain p d seen = Inr (fd_id d # seen)"
    and "distinct (map fd_id (sn_domains s))"
    and obligations: "\<And>b seen. b \<in> set (sn_obligations s) \<Longrightarrow> ob_id b \<notin> set seen \<Longrightarrow> validate_obligation p b seen = Inr (ob_id b # seen)"
    and "distinct (map ob_id (sn_obligations s))"
  shows "validate_snapshot s p = success"
proof -
  have "try_fold (validate_member p) (sn_members s) ([], 0) =
      Inr (rev (map mr_rack (sn_members s)), sum_list (map (length \<circ> mr_capacity) (sn_members s)))"
    using members_accepted[OF members, of "sn_members s" "[]" 0] assms(12) by simp
  moreover have "try_fold (validate_link p) (sn_links s) [] = Inr (rev (map lk_id (sn_links s)))"
    using try_fold_seen[of "sn_links s" lk_id "validate_link p" "[]"] links assms(15) by simp
  moreover have "try_fold (validate_domain p) (sn_domains s) [] = Inr (rev (map fd_id (sn_domains s)))"
    using try_fold_seen[of "sn_domains s" fd_id "validate_domain p" "[]"] domains assms(17) by simp
  moreover have "try_fold (validate_obligation p) (sn_obligations s) [] = Inr (rev (map ob_id (sn_obligations s)))"
    using try_fold_seen[of "sn_obligations s" ob_id "validate_obligation p" "[]"] obligations assms(19) by simp
  ultimately show ?thesis
    using assms(1-10) claims by (simp add: validate_snapshot_def bounded_def is_nil_def)
qed

section \<open>Names\<close>

lemma dec_string_alnum: "c \<in> set (dec_string n) \<Longrightarrow> is_lower_alnum c"
  using dec_string_digits[of n] by (auto simp: list_all_iff digit_def is_lower_alnum_def)

lemma numbered_canonical:
  assumes "is_canonical_id p" "length p + 1 + length (dec_string n) \<le> max_id_length"
  shows "is_canonical_id (numbered p n)"
proof -
  have "\<not> is_separator (last (dec_string n))"
    using dec_string_alnum[OF last_in_set[OF dec_string_nonempty], of n]
    by (auto simp: is_separator_def is_lower_alnum_def less_eq_char_def)
  then show ?thesis using assms dec_string_alnum[of _ n]
    by (auto simp: numbered_def canonical_iff is_separator_def list_all_iff)
qed

lemma numbered_inject [simp]: "numbered p i = numbered p j \<longleftrightarrow> i = j"
  by (simp add: numbered_def)

lemma fixed_prefixes: "is_canonical_id ''power'' \<and> is_canonical_id ''fabric'' \<and> is_canonical_id ''port'' \<and>
    is_canonical_id ''link'' \<and> is_canonical_id plane_id \<and> is_canonical_id ''port-0'' \<and> is_canonical_id ''fabric.bandwidth'' \<and>
    is_canonical_id ''podfabric.synthetic'' \<and> is_canonical_id ''tenant-a''"
  by code_simp

lemma numbered_fixed:
  assumes "n < 2 ^ 32 + 1" "p \<in> {''power'', ''fabric'', ''port'', ''link''}"
  shows "is_canonical_id (numbered p n)"
proof (rule numbered_canonical)
  have "length (dec_string n) \<le> 10" using assms(1) by (intro length_dec_string) auto
  then show "length p + 1 + length (dec_string n) \<le> max_id_length" using assms(2) by (auto simp: max_id_length_def)
qed (use assms(2) fixed_prefixes in auto)

lemma numbered_id_set: "set (numbered_id p i) = (if is_canonical_id (numbered p i) then {numbered p i} else {})"
  by (simp add: numbered_id_def id_parse_def)

lemma numbered_ids_canonical: "i \<in> set (numbered_ids p is) \<Longrightarrow> is_canonical_id i"
  by (auto simp: numbered_ids_def numbered_id_set split: if_splits)

lemma numbered_ids_filter: "numbered_ids p is = map (numbered p) (filter (\<lambda>i. is_canonical_id (numbered p i)) is)"
  by (induction "is") (auto simp: numbered_ids_def numbered_id_def id_parse_def)

lemma numbered_ids_distinct: "distinct is \<Longrightarrow> distinct (numbered_ids p is)"
  by (auto simp: numbered_ids_filter distinct_map inj_on_def)

lemma numbered_ids_length: "length (numbered_ids p is) \<le> length is"
  by (simp add: numbered_ids_filter)

section \<open>The records that are made up\<close>

definition join_round :: "ident list \<Rightarrow> ident list \<Rightarrow> nat \<Rightarrow> failure_domain_record list \<Rightarrow> failure_domain_record list" where
  "join_round powers racks i domains =
     (if is_nil (power_of powers i) then domains else map (join_domain (power_of powers i) (racks ! i)) domains)"

definition bare_members :: "failure_domain_record \<Rightarrow> failure_domain_record" where
  "bare_members d = d\<lparr>fd_members := []\<rparr>"

lemma fold_place:
  "fold (place_rack y powers racks) is (ds, ms) =
     (fold (join_round powers racks) is ds,
      ms @ map (\<lambda>i. synthetic_member y i (racks ! i) (power_of powers i)) (filter (\<lambda>i. \<not> absent y i) is))"
  by (induction "is" arbitrary: ds ms) (simp_all add: place_rack_def join_round_def Let_def)

lemma joined_frame: "map bare_members (fold (join_round powers racks) is ds) = map bare_members ds"
  by (induction "is" arbitrary: ds) (auto simp: join_round_def join_domain_def bare_members_def)

lemma joined_members:
  assumes "\<And>d. d \<in> set ds \<Longrightarrow> set (fd_members d) \<subseteq> S" "\<And>i. i \<in> set is \<Longrightarrow> racks ! i \<in> S"
    and "d \<in> set (fold (join_round powers racks) is ds)"
  shows "set (fd_members d) \<subseteq> S"
  using assms
proof (induction "is" arbitrary: ds)
  case (Cons i "is")
  show ?case
  proof (rule Cons.IH[OF _ Cons.prems(2)])
    show "set (fd_members d) \<subseteq> S" if "d \<in> set (join_round powers racks i ds)" for d
      using that Cons.prems(1,2) by (auto simp: join_round_def join_domain_def split: if_splits) blast
  qed (use Cons.prems in auto)
qed simp

definition made_members :: "synthetic_options \<Rightarrow> member_record list" where
  "made_members y =
     map (\<lambda>i. synthetic_member y i (rack_ids y ! i) (power_of (map fd_id (power_records y)) i))
       (filter (\<lambda>i. \<not> absent y i) [0..<length (rack_ids y)])"

definition made_domains :: "synthetic_options \<Rightarrow> failure_domain_record list" where
  "made_domains y =
     fold (join_round (map fd_id (power_records y)) (rack_ids y)) [0..<length (rack_ids y)]
       (shared_plane (rack_ids y) # power_records y)"

lemma synthesize_fields:
  assumes "synthesize y = Inr s"
  shows "rack_count y \<noteq> - 1" "sn_pod s = sy_pod y" "sn_schema s = snapshot_schema" "sn_routes s = []"
    "sn_members s = map canonicalise_member (sort_key mr_rack (made_members y))"
    "sn_links s = sort_key lk_id (synthetic_links y (rack_ids y))"
    "sn_domains s = map canonicalise_domain (sort_key fd_id (map canonicalise_domain (made_domains y)))"
    "sn_obligations s = map canonicalise_obligation (sort_key ob_id
       (synthetic_obligations y (rack_ids y) (map fd_id (power_records y))))"
    "sn_provenance s = synthetic_provenance (''synthetic pod of '' @ dec_u64 (sy_racks y) @ '' racks from seed '' @ dec_u64 (sy_seed y))"
    "sn_observed_at s = (if sy_observed_at y = 0 then 1700000000 * nanos_per_second else sy_observed_at y)"
  using assms by (auto simp: synthesize_def Let_def fold_place canonicalise_snapshot_def canonicalise_domain_def[abs_def]
      made_members_def made_domains_def split: if_splits)

lemma rack_ids_length: "length (rack_ids y) \<le> unat (rack_count y)"
  using numbered_ids_length[of "sy_id_prefix y" "[1..<Suc (unat (rack_count y))]"] by (simp add: rack_ids_def del: upt_Suc)

lemma rack_ids_canonical: "i \<in> set (rack_ids y) \<Longrightarrow> is_canonical_id i"
  unfolding rack_ids_def by (rule numbered_ids_canonical)

lemma rack_ids_distinct: "distinct (rack_ids y)"
  unfolding rack_ids_def by (intro numbered_ids_distinct) simp

lemma power_names: "n \<le> 2 ^ 32 \<Longrightarrow> map fd_id (concat (map power_domain [0..<n])) = map (numbered ''power'') [0..<n]"
  by (induction n) (simp_all add: power_domain_def numbered_id_def id_parse_def numbered_fixed comp_def)

lemma power_records_ids: "map fd_id (power_records y) = map (numbered ''power'') [0..<unat (domain_count y)]"
  unfolding power_records_def using unat_bound[of "domain_count y"] by (intro power_names) simp

lemma power_of_canonical: "is_canonical_id (power_of (map fd_id (power_records y)) i)"
proof -
  have n: "0 < unat (domain_count y)" by (auto simp: domain_count_def unat_gt_0)
  then have "power_of (map fd_id (power_records y)) i = numbered ''power'' (i mod unat (domain_count y))"
    by (simp add: power_of_def power_records_ids)
  then show ?thesis using n mod_less_divisor[OF n, of i] unat_bound[of "domain_count y"] by (auto intro!: numbered_fixed)
qed

lemma made_racks: "map mr_rack (made_members y) = map ((!) (rack_ids y)) (filter (\<lambda>i. \<not> absent y i) [0..<length (rack_ids y)])"
  by (simp add: made_members_def synthetic_member_def)

lemma made_racks_distinct: "distinct (map mr_rack (made_members y))"
  unfolding made_racks using rack_ids_distinct[of y] by (auto simp: distinct_map inj_on_def nth_eq_iff_index_eq)

lemma made_members_length: "length (made_members y) \<le> unat (rack_count y)"
proof -
  have "length (made_members y) \<le> length (rack_ids y)"
    using length_filter_le[of _ "[0..<length (rack_ids y)]"] by (simp add: made_members_def)
  then show ?thesis using rack_ids_length[of y] by simp
qed

lemma made_members_in:
  assumes "m \<in> set (made_members y)"
  obtains i feed where "m = synthetic_member y i (rack_ids y ! i) feed" "rack_ids y ! i \<in> set (rack_ids y)"
    "is_canonical_id feed" "is_canonical_id (numbered ''fabric'' (i + 1))" "feed \<noteq> plane_id"
proof -
  obtain i where i: "i < length (rack_ids y)"
    "m = synthetic_member y i (rack_ids y ! i) (power_of (map fd_id (power_records y)) i)"
    using assms by (auto simp: made_members_def)
  have "i + 1 < 2 ^ 32 + 1" using i(1) rack_ids_length[of y] unat_bound[of "rack_count y"] by simp
  moreover have "power_of (map fd_id (power_records y)) i \<noteq> plane_id"
    by (auto simp: power_of_def power_records_ids numbered_def plane_id_def)
  ultimately show thesis using that[OF i(2) nth_mem[OF i(1)] power_of_canonical] by (simp add: numbered_fixed)
qed

lemma made_domains_frame: "map bare_members (made_domains y) = map bare_members (shared_plane (rack_ids y) # power_records y)"
  unfolding made_domains_def by (rule joined_frame)

lemma bare_fields [simp]:
  "fd_id (bare_members d) = fd_id d" "fd_description (bare_members d) = fd_description d"
  "fd_provenance (bare_members d) = fd_provenance d"
  by (simp_all add: bare_members_def)

lemma made_domain_ids: "map fd_id (made_domains y) = plane_id # map (numbered ''power'') [0..<unat (domain_count y)]"
proof -
  have "map fd_id (map bare_members (made_domains y)) = map fd_id (map bare_members (shared_plane (rack_ids y) # power_records y))"
    by (simp only: made_domains_frame)
  then show ?thesis by (simp add: comp_def power_records_ids shared_plane_def)
qed

lemma made_domain_ids_distinct: "distinct (map fd_id (made_domains y))"
  unfolding made_domain_ids by (auto simp: distinct_map inj_on_def numbered_def plane_id_def)

lemma made_domains_in:
  assumes "d \<in> set (made_domains y)"
  obtains k where "set (fd_members d) \<subseteq> set (rack_ids y)" "is_canonical_id (fd_id d)" "k < 2 ^ 32"
    "fd_description d \<in> {''shared switching plane (synthetic)'', ''power feed '' @ dec_string k @ '' (synthetic)''}"
    "fd_provenance d \<in> synthetic_provenance ` {''synthetic switch plane'', ''synthetic power feed''}"
proof -
  have "set (fd_members d) \<subseteq> set (rack_ids y)"
    using assms unfolding made_domains_def
    by (rule joined_members[rotated 2]) (auto simp: shared_plane_def power_records_def power_domain_def)
  moreover have "bare_members d \<in> set (map bare_members (shared_plane (rack_ids y) # power_records y))"
    using assms made_domains_frame[of y] by (metis image_eqI list.set_map)
  then obtain e where e: "e \<in> set (shared_plane (rack_ids y) # power_records y)" "bare_members d = bare_members e" by auto
  have "\<exists>k < 2 ^ 32. is_canonical_id (fd_id e) \<and>
      fd_description e \<in> {''shared switching plane (synthetic)'', ''power feed '' @ dec_string k @ '' (synthetic)''} \<and>
      fd_provenance e \<in> synthetic_provenance ` {''synthetic switch plane'', ''synthetic power feed''}"
  proof (cases "e = shared_plane (rack_ids y)")
    case True
    then show ?thesis using fixed_prefixes by (auto simp: shared_plane_def intro!: exI[of _ 0])
  next
    case False
    then obtain k where "k < unat (domain_count y)" "e \<in> set (power_domain k)" using e(1) by (auto simp: power_records_def)
    then show ?thesis using unat_bound[of "domain_count y"]
      by (auto simp: power_domain_def numbered_id_set split: if_splits intro!: exI[of _ k])
  qed
  ultimately show thesis using that e(2) by (metis bare_fields)
qed

lemma made_domains_length: "length (made_domains y) = 1 + unat (domain_count y)"
  using arg_cong[OF made_domain_ids, of length] by simp

section \<open>The links that are made up\<close>

lemma low_plus_le:
  fixes low high m :: u64
  assumes "low \<le> high" "m \<le> high - low"
  shows "low + m \<le> high"
proof -
  have "unat m \<le> unat high - unat low" using assms by (simp add: word_le_nat_alt unat_sub)
  moreover have "unat low \<le> unat high" using assms(1) by (simp add: word_le_nat_alt)
  ultimately have "unat low + unat m < 2 ^ 64" using unat_u64_bound[of high] by simp
  then have "unat (low + m) = unat low + unat m" by (subst unat_plus_simple[THEN iffD1]) (auto simp: no_olen_add_nat)
  then show ?thesis using \<open>unat m \<le> _\<close> \<open>unat low \<le> _\<close> by (simp add: word_le_nat_alt)
qed

lemma mod_succ_le: "n mod (d + 1) \<le> d" for n d :: u64
proof (cases "d + 1 = 0")
  case True
  then have "d = - 1" by (simp add: eq_neg_iff_add_eq_0)
  then show ?thesis by simp
next
  case False
  then have "unat (d + 1) = Suc (unat d)" by (metis unatSuc add.commute)
  then have "unat n mod unat (d + 1) \<le> unat d" by (metis less_Suc_eq_le mod_less_divisor zero_less_Suc)
  then show ?thesis by (simp add: word_le_nat_alt unat_mod)
qed

lemma range_at_most: "fst (rng_range low high s) \<le> max low high"
  by (auto simp: rng_range_def max_def low_plus_le mod_succ_le split: prod.splits)

definition link_made :: "synthetic_options \<Rightarrow> ident list \<Rightarrow> link_record \<Rightarrow> bool" where
  "link_made y racks l \<longleftrightarrow> (\<exists>i j k c. i < j \<and> j < length racks \<and> l = synthetic_link y k (racks ! i) (racks ! j) c \<and>
     is_canonical_id k \<and> c \<le> max 1 (sy_capacity y))"

definition links_ok :: "synthetic_options \<Rightarrow> ident list \<Rightarrow> link_builder \<Rightarrow> bool" where
  "links_ok y racks s \<longleftrightarrow> lb_number s = of_nat (length (lb_links s)) \<and> list_all (link_made y racks) (lb_links s) \<and>
     map lk_id (lb_links s) = map (numbered ''link'') [1..<Suc (length (lb_links s))]"

lemma half_capacity: "max ((c :: u64) div 2 + 1) c \<le> max 1 c"
proof (cases "c = 0")
  case False
  then have "1 \<le> unat c" by (simp add: Suc_leI unat_gt_0)
  then have "c div 2 + 1 \<le> c"
    using unat_u64_bound[of c] by (simp add: word_le_nat_alt unat_div unat_word_ariths)
  then show ?thesis by (simp add: max.coboundedI2)
qed simp

lemma add_link_ok:
  assumes "links_ok y racks s" "fst p < snd p" "snd p < length racks" "length (lb_links s) < 2 ^ 32 - 1"
  shows "links_ok y racks (add_link y racks p s) \<and>
    length (lb_links (add_link y racks p s)) = length (lb_links s) + (if wired y (length racks) (fst p) (snd p) then 1 else 0)"
proof (cases "wired y (length racks) (fst p) (snd p)")
  case True
  let ?n = "Suc (length (lb_links s))"
  have n: "unat (lb_number s + 1) = ?n"
    using assms(1,4) by (simp add: links_ok_def unat_word_ariths unat_of_nat)
  have k: "id_parse (numbered ''link'' ?n) = Inr (numbered ''link'' ?n)" "is_canonical_id (numbered ''link'' ?n)"
    using assms(4) by (simp_all add: id_parse_Inr numbered_fixed)
  have "fst (rng_range (sy_capacity y div 2 + 1) (sy_capacity y) r) \<le> max 1 (sy_capacity y)" for r
    using range_at_most half_capacity order.trans by blast
  then show ?thesis using assms(1-3) True k n
    by (auto simp: add_link_def links_ok_def link_made_def synthetic_link_def split: prod.splits) (metis fst_conv)
qed (use assms(1) in \<open>auto simp: add_link_def split: prod.splits\<close>)

lemma fold_links:
  assumes "links_ok y racks s" "\<forall>p \<in> set ps. fst p < snd p \<and> snd p < length racks"
    and "length (lb_links s) + length (filter (\<lambda>p. wired y (length racks) (fst p) (snd p)) ps) < 2 ^ 32"
  shows "links_ok y racks (fold (add_link y racks) ps s) \<and> length (lb_links (fold (add_link y racks) ps s)) =
    length (lb_links s) + length (filter (\<lambda>p. wired y (length racks) (fst p) (snd p)) ps)"
  using assms
proof (induction ps arbitrary: s)
  case (Cons p ps)
  show ?case
  proof (cases "wired y (length racks) (fst p) (snd p)")
    case True
    then show ?thesis using Cons.IH[of "add_link y racks p s"] add_link_ok[of y racks s p] Cons.prems by auto
  next
    case False
    then have "add_link y racks p s = s" by (auto simp: add_link_def split: prod.splits)
    then show ?thesis using Cons False by auto
  qed
qed simp

lemma pairs_below_in: "(i, j) \<in> set (pairs_below n) \<longleftrightarrow> i < j \<and> j < n"
  by (force simp: pairs_below_def)

lemma filter_pairs:
  "length (filter P (pairs_below n)) = (\<Sum>i \<leftarrow> [0..<n]. length (filter (\<lambda>j. P (i, j)) [Suc i..<n]))"
  by (simp add: pairs_below_def filter_concat length_concat comp_def filter_map)

lemma mesh_pairs: "2 * length (pairs_below n) = n * (n - 1)"
proof -
  have "length (pairs_below n) = (\<Sum>i \<leftarrow> [0..<n]. n - Suc i)" using filter_pairs[of "\<lambda>_. True" n] by simp
  also have "\<dots> = (\<Sum>i < n. n - Suc i)" by (simp add: interv_sum_list_conv_sum_set_nat atLeast0LessThan)
  also have "\<dots> = (\<Sum>i < n. i)" by (rule sum.nat_diff_reindex)
  finally have "2 * length (pairs_below n) = 2 * (\<Sum>i < n. i)" by simp
  also have "\<dots> = n * (n - 1)"
  proof (induction n)
    case (Suc n)
    then show ?case by (cases n) simp_all
  qed simp
  finally show ?thesis .
qed

lemma ring_pairs:
  assumes "\<not> sy_full_mesh y"
  shows "length (filter (\<lambda>p. wired y n (fst p) (snd p)) (pairs_below n)) \<le> n + 1"
proof -
  have "length (filter (wired y n i) [Suc i..<n]) \<le> (if i = 0 then 2 else 1)" for i
  proof -
    have "length (filter (wired y n i) [Suc i..<n]) = card (set (filter (wired y n i) [Suc i..<n]))"
      by (intro distinct_card[symmetric]) simp
    also have "\<dots> \<le> card (if i = 0 then {1, n - 1} else {i + 1})"
      using assms by (intro card_mono) (auto simp: wired_def)
    finally show ?thesis by (cases "i = 0") (auto intro: order.trans simp: card_insert_if split: if_splits)
  qed
  then have "length (filter (\<lambda>p. wired y n (fst p) (snd p)) (pairs_below n)) \<le> (\<Sum>i \<leftarrow> [0..<n]. if i = 0 then 2 else 1)"
    unfolding filter_pairs fst_conv snd_conv by (intro sum_list_mono) simp
  also have "\<dots> \<le> n + 1" by (induction n) auto
  finally show ?thesis .
qed

lemma wired_pairs:
  assumes "n \<le> 4096" "sy_full_mesh y \<Longrightarrow> n \<le> 362"
  shows "length (filter (\<lambda>p. wired y n (fst p) (snd p)) (pairs_below n)) \<le> 65536"
proof (cases "sy_full_mesh y")
  case True
  then have n: "n \<le> 362" by (rule assms(2))
  have "n * (n - 1) \<le> 362 * 361" using n by (intro mult_le_mono) auto
  then have "length (pairs_below n) \<le> 65536" using mesh_pairs[of n] by linarith
  then show ?thesis using length_filter_le order.trans by blast
next
  case False
  then show ?thesis using ring_pairs[OF False, of n] assms(1) by linarith
qed

section \<open>What is made up is valid\<close>

text \<open>The counts of a snapshot that stays within the limits of the default policy.\<close>

definition modest :: "synthetic_options \<Rightarrow> bool" where
  "modest y \<longleftrightarrow> unat (rack_count y) \<le> (if sy_full_mesh y then 362 else 4096) \<and> unat (domain_count y) \<le> 4095 \<and>
     sy_reserved y \<le> sy_capacity y \<and> sy_capacity y \<le> 2 ^ 48"

lemma synthetic_links_ok:
  assumes "modest y"
  shows "list_all (link_made y (rack_ids y)) (synthetic_links y (rack_ids y))"
    "distinct (map lk_id (synthetic_links y (rack_ids y)))" "length (synthetic_links y (rack_ids y)) \<le> 65536"
proof -
  let ?R = "rack_ids y" and ?s = "\<lparr>lb_number = 0, lb_rng = sy_seed y, lb_links = []\<rparr>"
  have count: "length (filter (\<lambda>p. wired y (length ?R) (fst p) (snd p)) (pairs_below (length ?R))) \<le> 65536"
    using assms rack_ids_length[of y] by (intro wired_pairs) (auto simp: modest_def split: if_splits)
  have "\<forall>p \<in> set (pairs_below (length ?R)). fst p < snd p \<and> snd p < length ?R" by (auto simp: pairs_below_in)
  moreover have "links_ok y ?R ?s" by (simp add: links_ok_def)
  ultimately have built: "links_ok y ?R (fold (add_link y ?R) (pairs_below (length ?R)) ?s) \<and>
      length (lb_links (fold (add_link y ?R) (pairs_below (length ?R)) ?s)) =
      length (filter (\<lambda>p. wired y (length ?R) (fst p) (snd p)) (pairs_below (length ?R)))"
    using fold_links[of y ?R ?s "pairs_below (length ?R)"] count by simp
  show "list_all (link_made y ?R) (synthetic_links y ?R)" "distinct (map lk_id (synthetic_links y ?R))"
    "length (synthetic_links y ?R) \<le> 65536"
    using count built by (auto simp: synthetic_links_def links_ok_def distinct_map inj_on_def simp del: upt_Suc)
qed

lemma digits_ascii: "c \<in> set (dec_string n) \<Longrightarrow> of_char c < (128 :: nat)"
  using dec_string_alnum[of c n] by (auto simp: is_lower_alnum_def less_eq_char_def)

lemma synthetic_obligation_in:
  assumes "b \<in> set (synthetic_obligations y racks powers)"
  shows "is_canonical_id (ob_id b)" "ob_tenant b = ''tenant-a''" "set (ob_protected_racks b) \<subseteq> set racks"
    "ob_requirements b \<in> {[], [\<lparr>cr_resource = the_resource y, cr_minimum = sy_capacity y div 2, cr_margin_percent = 0\<rparr>]}"
    "ob_description b \<in> {''tenant-a keeps two rack-disjoint power domains'', ''protected fabric floor'',
       ''first and last rack stay mutually reachable''}"
    "ob_provenance b \<in> synthetic_provenance ` {''synthetic tenant obligation'', ''synthetic capacity floor'', ''synthetic protected path''}"
proof -
  have i: "is_canonical_id ''obligation.tenant-a-diversity'' \<and> is_canonical_id ''obligation.protected-floor'' \<and>
      is_canonical_id ''obligation.protected-path''" by code_simp
  show "is_canonical_id (ob_id b)" "ob_tenant b = ''tenant-a''" "set (ob_protected_racks b) \<subseteq> set racks"
    "ob_requirements b \<in> {[], [\<lparr>cr_resource = the_resource y, cr_minimum = sy_capacity y div 2, cr_margin_percent = 0\<rparr>]}"
    "ob_description b \<in> {''tenant-a keeps two rack-disjoint power domains'', ''protected fabric floor'',
       ''first and last rack stay mutually reachable''}"
    "ob_provenance b \<in> synthetic_provenance ` {''synthetic tenant obligation'', ''synthetic capacity floor'', ''synthetic protected path''}"
    using assms i by (auto simp: synthetic_obligations_def obligation_new_def split: if_splits; cases racks; auto)+
qed

lemma synthetic_obligations_ids: "distinct (map ob_id (synthetic_obligations y racks powers))"
  "length (synthetic_obligations y racks powers) \<le> 3"
  by (auto simp: synthetic_obligations_def obligation_new_def)

lemma length_canonicalise: "length (canonicalise xs) = card (set xs)"
  using distinct_card[OF canonicalise_distinct[of xs]] by simp

lemma the_resource_nonnil: "the_resource y \<noteq> []" "the_generation y \<noteq> 0"
  by (auto simp: the_resource_def is_nil_def the_generation_def sequence_is_zero_def)

lemma modest_bounds:
  assumes "modest y"
  shows "\<not> 2 ^ 48 < sy_capacity y" "\<not> sy_capacity y < sy_reserved y" "\<not> 2 ^ 48 < sy_capacity y div 2"
    "c \<le> max 1 (sy_capacity y) \<Longrightarrow> \<not> 2 ^ 48 < c" "unat (rack_count y) \<le> 4096"
proof -
  have c: "unat (sy_capacity y) \<le> 2 ^ 48" using assms by (simp add: modest_def word_le_nat_alt)
  then have "unat (sy_capacity y) div 2 \<le> 2 ^ 48" by linarith
  then show "\<not> 2 ^ 48 < sy_capacity y div 2" by (simp add: not_less word_le_nat_alt unat_div)
  show "\<not> 2 ^ 48 < sy_capacity y" "\<not> sy_capacity y < sy_reserved y" "unat (rack_count y) \<le> 4096"
    using assms by (auto simp: modest_def not_less split: if_splits)
  assume "c \<le> max 1 (sy_capacity y)"
  moreover have "max 1 (sy_capacity y) \<le> 2 ^ 48" using assms by (simp add: modest_def max_def)
  ultimately have "c \<le> 2 ^ 48" by (rule order.trans)
  then show "\<not> 2 ^ 48 < c" by (simp only: not_less)
qed

lemma made_member_valid:
  assumes "modest y" "m \<in> set (made_members y)" "\<not> digest_is_zero (mr_digest m)"
  shows "mr_rack m \<noteq> [] \<and> validate_member_body policy_default (canonicalise_member m) = success"
proof -
  obtain i feed where m: "m = synthetic_member y i (rack_ids y ! i) feed" and r: "rack_ids y ! i \<in> set (rack_ids y)"
    and p: "is_canonical_id feed" "is_canonical_id (numbered ''fabric'' (i + 1))" "feed \<noteq> plane_id"
    using made_members_in[OF assms(2)] .
  have "length (canonicalise [plane_id, feed]) \<le> 2"
    by (simp add: length_canonicalise card_insert_if)
  moreover have "length (canonicalise (numbered_ids ''port'' [0, 1])) \<le> 2"
    using numbered_ids_length[of "''port''" "[0, 1]"] card_length[of "numbered_ids ''port'' [0, 1]"]
    by (simp add: length_canonicalise)
  moreover have "numbered ''fabric'' (i + 1) \<noteq> []" "feed \<noteq> []" "rack_ids y ! i \<noteq> []"
    using p rack_ids_canonical[OF r] by (auto simp: canonical_iff)
  moreover have "plane_id \<noteq> []" by (simp add: plane_id_def)
  ultimately show ?thesis
    using assms(3) p the_resource_nonnil modest_bounds(1,2)[OF assms(1)]
    by (simp add: m synthetic_member_def synthetic_claim_def validate_member_body_def canonicalise_member_def
        validate_claim_def bounded_def policy_default_def sequence_is_zero_def rnf_schema_v1_def id_parse_def is_nil_def
        canonicalise_distinct)
qed

lemma made_link_valid:
  assumes "modest y" "link_made y (rack_ids y) l" "lk_id l \<notin> set seen"
  shows "validate_link policy_default l seen = Inr (lk_id l # seen)"
proof -
  obtain i j k c where l: "i < j" "j < length (rack_ids y)" "l = synthetic_link y k (rack_ids y ! i) (rack_ids y ! j) c"
    "is_canonical_id k" "c \<le> max 1 (sy_capacity y)"
    using assms(2) by (auto simp: link_made_def)
  have "rack_ids y ! i \<noteq> rack_ids y ! j" using l(1,2) rack_ids_distinct[of y] by (simp add: nth_eq_iff_index_eq)
  moreover have "rack_ids y ! i \<noteq> []" "rack_ids y ! j \<noteq> []" "k \<noteq> []"
    using l(1,2,4) rack_ids_canonical[OF nth_mem] by (auto simp: canonical_iff dest: order.strict_trans)
  ultimately show ?thesis using l(3) assms(3) the_resource_nonnil modest_bounds(4)[OF assms(1) l(5)]
    by (simp add: validate_link_def synthetic_link_def is_nil_def plane_id_def policy_default_def)
qed

lemma ascii_text: "list_all (\<lambda>c. of_char c < (128 :: nat)) (a @ dec_string k @ b) \<longleftrightarrow>
    list_all (\<lambda>c. of_char c < (128 :: nat)) a \<and> list_all (\<lambda>c. of_char c < (128 :: nat)) b"
  by (auto simp: list_all_iff intro: digits_ascii)

lemma made_domain_valid:
  assumes "modest y" "d \<in> set (made_domains y)" "fd_id d \<notin> set seen"
  shows "validate_domain policy_default (canonicalise_domain d) seen = Inr (fd_id d # seen)"
proof -
  obtain k where d: "set (fd_members d) \<subseteq> set (rack_ids y)" "is_canonical_id (fd_id d)"
    "fd_description d \<in> {''shared switching plane (synthetic)'', ''power feed '' @ dec_string k @ '' (synthetic)''}"
    using made_domains_in[OF assms(2)] by metis
  have "card (set (fd_members d)) \<le> length (rack_ids y)"
    using d(1) card_mono[OF _ d(1)] card_length[of "rack_ids y"] by (meson finite_set order.trans)
  then have "card (set (fd_members d)) \<le> 4096"
    using modest_bounds(5)[OF assms(1)] rack_ids_length[of y] by simp
  moreover have "is_valid_utf8 (fd_description d)"
    using d(3) by (intro ascii_utf8) (auto simp: ascii_text[of "''power feed ''", simplified] digits_ascii list_all_iff)
  ultimately show ?thesis using d(2) assms(3)
    by (auto simp: validate_domain_def canonicalise_domain_def is_nil_def canonical_iff bounded_def length_canonicalise
        policy_default_def canonicalise_distinct)
qed

lemma made_obligation_valid:
  assumes "modest y" "b \<in> set (synthetic_obligations y (rack_ids y) powers)" "ob_id b \<notin> set seen"
  shows "validate_obligation policy_default (canonicalise_obligation b) seen = Inr (ob_id b # seen)"
proof -
  note b = synthetic_obligation_in[OF assms(2)]
  have "card (set (ob_protected_racks b)) \<le> length (rack_ids y)"
    using card_mono[OF _ b(3)] card_length[of "rack_ids y"] by (meson finite_set order.trans)
  then have "card (set (ob_protected_racks b)) \<le> 4096"
    using modest_bounds(5)[OF assms(1)] rack_ids_length[of y] by simp
  moreover have "is_valid_utf8 (ob_description b)" using b(5) by (intro ascii_utf8) auto
  moreover have "try_each (validate_requirement policy_default) (sort_key cr_resource (ob_requirements b)) = success"
    using b(4) the_resource_nonnil modest_bounds(3)[OF assms(1)]
    by (auto simp: validate_requirement_def is_nil_def policy_default_def)
  moreover have "length (ob_requirements b) \<le> 1" using b(4) by auto
  ultimately show ?thesis using b(1) assms(3)
    by (auto simp: validate_obligation_def canonicalise_obligation_def is_nil_def canonical_iff bounded_def length_canonicalise
        policy_default_def canonicalise_distinct)
qed

lemma distinct_map_sort_key [simp]: "distinct (map f (sort_key g xs)) \<longleftrightarrow> distinct (map f xs)"
  by (simp add: distinct_map)

lemma canonical_keys [simp]:
  "mr_rack \<circ> canonicalise_member = mr_rack" "fd_id \<circ> canonicalise_domain = fd_id" "ob_id \<circ> canonicalise_obligation = ob_id"
  by (auto simp: canonicalise_member_def canonicalise_domain_def canonicalise_obligation_def)

lemma canonicalise_domain_idem [simp]: "canonicalise_domain (canonicalise_domain d) = canonicalise_domain d"
  by (simp add: canonicalise_domain_def)

lemma made_claims: "sum_list (map (length \<circ> mr_capacity) (map canonicalise_member (sort_key mr_rack (made_members y)))) =
    length (made_members y)"
proof -
  have "length (mr_capacity (canonicalise_member m)) = 1" if "m \<in> set (made_members y)" for m
    using that by (auto simp: made_members_def synthetic_member_def canonicalise_member_def)
  then have "map (length \<circ> mr_capacity) (map canonicalise_member (sort_key mr_rack (made_members y))) =
      replicate (length (made_members y)) 1"
    by (intro replicate_eqI) auto
  then show ?thesis by (simp add: sum_list_replicate)
qed

lemma synthesize_returns: "rack_count y \<noteq> - 1 \<Longrightarrow> \<exists>s. synthesize y = Inr s"
  by (simp add: synthesize_def Let_def fold_place)

lemma made_digest_nonzero:
  assumes "synthesize y = Inr s"
    "\<forall>rack \<in> set (rack_ids y). \<not> digest_is_zero (digest_of_string
       (''rnf|'' @ rack @ ''|'' @ dec_u64 (the_generation y) @ ''|'' @ dec_u64 (sy_capacity y)))"
    "m \<in> set (sn_members s)"
  shows "\<not> digest_is_zero (mr_digest m)"
proof -
  obtain k where k: "k \<in> set (made_members y)" "m = canonicalise_member k"
    using assms(3) by (auto simp: synthesize_fields[OF assms(1)])
  from made_members_in[OF k(1)] obtain i feed where
    "k = synthetic_member y i (rack_ids y ! i) feed" "rack_ids y ! i \<in> set (rack_ids y)" .
  then show ?thesis using assms(2) k(2) by (simp add: synthetic_member_def canonicalise_member_def)
qed

lemma made_rack_set:
  assumes "synthesize y = Inr s"
  shows "mr_rack ` set (sn_members s) = {rack_ids y ! i | i. i < length (rack_ids y) \<and> \<not> absent y i}"
proof -
  have "mr_rack ` set (sn_members s) = set (map mr_rack (made_members y))"
    by (simp add: synthesize_fields[OF assms] image_image canonicalise_member_def)
  then show ?thesis unfolding made_racks by auto
qed

text \<open>
  C22: whatever pod is made up from counts within the limits of the default policy, its snapshot describes exactly the
  racks that are not left out, and passes the validation of the program under this policy, provided that
  the SHA-256 of no descriptor text happens to be zero (a validation takes the zero digest for a missing one).
\<close>

theorem synthesized_is_valid:
  assumes "modest y" "sy_pod y \<noteq> []"
    "\<forall>rack \<in> set (rack_ids y). \<not> digest_is_zero (digest_of_string
       (''rnf|'' @ rack @ ''|'' @ dec_u64 (the_generation y) @ ''|'' @ dec_u64 (sy_capacity y)))"
  shows "\<exists>s. synthesize y = Inr s \<and> validate_snapshot s policy_default = success \<and>
    mr_rack ` set (sn_members s) = {rack_ids y ! i | i. i < length (rack_ids y) \<and> \<not> absent y i}"
proof -
  have n: "unat (rack_count y) \<le> 4096" by (rule modest_bounds(5)[OF assms(1)])
  then have "rack_count y \<noteq> - 1" by (auto simp: unat_minus_1)
  then obtain s where s: "synthesize y = Inr s" by (auto dest: synthesize_returns)
  note f = synthesize_fields[OF s]
  have z: "\<forall>m \<in> set (sn_members s). \<not> digest_is_zero (mr_digest m)"
    using made_digest_nonzero[OF s assms(3)] by blast
  have "validate_snapshot s policy_default = success"
  proof (rule validate_snapshot_accepts)
    show "validate_policy policy_default = success" by (simp add: validate_policy_Inr policy_default_def nanos_per_second_def)
    show "is_valid_utf8 (pv_detail (sn_provenance s))"
      unfolding f synthetic_provenance_def by (intro ascii_utf8) (auto simp: dec_u64_def list_all_iff digits_ascii)
    show "length (sn_members s) \<le> unat (po_max_members policy_default)"
      using made_members_length[of y] n by (simp add: f policy_default_def)
    show "length (sn_links s) \<le> unat (po_max_links policy_default)"
      using synthetic_links_ok(3)[OF assms(1)] by (simp add: f policy_default_def)
    show "length (sn_domains s) \<le> unat (po_max_domains policy_default)"
      using assms(1) by (simp add: f policy_default_def made_domains_length modest_def)
    show "length (sn_obligations s) \<le> unat (po_max_obligations policy_default)"
      using order.trans[OF synthetic_obligations_ids(2), of 4096] by (simp add: f policy_default_def)
    show "mr_rack m \<noteq> [] \<and> validate_member_body policy_default m = success" if "m \<in> set (sn_members s)" for m
      using that made_member_valid[OF assms(1)] z by (auto simp: f canonicalise_member_def)
    show "distinct (map mr_rack (sn_members s))" using made_racks_distinct[of y] by (simp add: f)
    show "sum_list (map (length \<circ> mr_capacity) (sn_members s)) \<le> unat (po_max_capacity_claims policy_default)"
      unfolding f made_claims using made_members_length[of y] n by (simp add: policy_default_def)
    show "validate_link policy_default l seen = Inr (lk_id l # seen)" if "l \<in> set (sn_links s)" "lk_id l \<notin> set seen" for l seen
      using that made_link_valid[OF assms(1)] synthetic_links_ok(1)[OF assms(1)] by (simp add: f list_all_iff)
    show "distinct (map lk_id (sn_links s))" using synthetic_links_ok(2)[OF assms(1)] by (simp add: f)
    show "validate_domain policy_default d seen = Inr (fd_id d # seen)" if "d \<in> set (sn_domains s)" "fd_id d \<notin> set seen" for d seen
      using that made_domain_valid[OF assms(1)] by (auto simp: f canonicalise_domain_def)
    show "distinct (map fd_id (sn_domains s))" using made_domain_ids_distinct[of y] by (simp add: f)
    show "validate_obligation policy_default b seen = Inr (ob_id b # seen)" if "b \<in> set (sn_obligations s)" "ob_id b \<notin> set seen" for b seen
      using that made_obligation_valid[OF assms(1)] by (auto simp: f canonicalise_obligation_def)
    show "distinct (map ob_id (sn_obligations s))" using synthetic_obligations_ids(1) by (simp add: f)
  qed (use assms(2) in \<open>simp_all add: f nanos_per_second_def\<close>)
  then show ?thesis using s made_rack_set[OF s] by blast
qed

definition demo_options :: synthetic_options where
  "demo_options = synthetic_default\<lparr>sy_pod := ''pod-demo'', sy_racks := 1\<rparr>"

lemma demo_modest: "modest demo_options" "is_canonical_id (sy_pod demo_options)"
  by (simp_all add: demo_options_def synthetic_default_def modest_def rack_count_def domain_count_def) code_simp

lemma demo_rack: "rack_ids demo_options = [''rack-1'']"
  by code_simp

lemma demo_descriptor: "''rnf|'' @ ''rack-1'' @ ''|'' @ dec_u64 (the_generation demo_options) @ ''|'' @
    dec_u64 (sy_capacity demo_options) = ''rnf|rack-1|7|100''"
  by code_simp

lemma demo_present: "\<not> absent demo_options i"
  by (simp add: absent_def demo_options_def synthetic_default_def)

theorem synthesized_is_valid_witness:
  "\<exists>s. synthesize demo_options = Inr s \<and> validate_snapshot s policy_default = success \<and> mr_rack ` set (sn_members s) = {''rack-1''}"
proof -
  have racks: "{rack_ids demo_options ! i | i. i < length (rack_ids demo_options) \<and> \<not> absent demo_options i} = {''rack-1''}"
    using demo_present by (auto simp: demo_rack)
  have "sy_pod demo_options \<noteq> []" by (simp add: demo_options_def)
  moreover have "\<forall>rack \<in> set (rack_ids demo_options). \<not> digest_is_zero (digest_of_string
      (''rnf|'' @ rack @ ''|'' @ dec_u64 (the_generation demo_options) @ ''|'' @ dec_u64 (sy_capacity demo_options)))"
    unfolding demo_rack using rack_1_digest_nonzero by (simp only: list.set ball_simps demo_descriptor simp_thms)
  ultimately show ?thesis using synthesized_is_valid[OF demo_modest(1)] unfolding racks by blast
qed

section \<open>Its text reads back\<close>

text \<open>Short text without bytes above 127.\<close>

definition tidy :: "nat \<Rightarrow> string \<Rightarrow> bool" where
  "tidy n w \<longleftrightarrow> length w \<le> n \<and> list_all (\<lambda>c. of_char c < (128 :: nat)) w"

named_theorems tidy_simps

lemma tidy_literal [tidy_simps]:
  "tidy (Suc n) (c # cs) \<longleftrightarrow> of_char c < (128 :: nat) \<and> tidy n cs" "tidy n []"
  by (auto simp: tidy_def)

lemma tidy_more: "tidy m w \<Longrightarrow> m \<le> n \<Longrightarrow> tidy n w"
  by (auto simp: tidy_def)

lemma tidy_append: "tidy m a \<Longrightarrow> tidy n b \<Longrightarrow> m + n \<le> k \<Longrightarrow> tidy k (a @ b)"
  by (auto simp: tidy_def)

lemma tidy_dec: "n < 2 ^ 64 \<Longrightarrow> tidy 20 (dec_string n)"
  by (auto simp: tidy_def list_all_iff digits_ascii intro: length_dec_string)

lemma tidy_u64: "tidy 20 (dec_u64 w)" for w :: u64
  using unat_u64_bound[of w] by (simp add: dec_u64_def tidy_dec)

lemma tidy_u32: "tidy 20 (dec_u64 w)" for w :: u32
  using unat_bound[of w] by (simp add: dec_u64_def tidy_dec)

lemma tidy_time: "time_ok t \<Longrightarrow> tidy 21 (dec_string_int t)"
proof (cases "t < 0")
  case True
  assume "time_ok t"
  then have "nat (- t) < 2 ^ 64" using True by (simp add: time_ok_def nat_less_iff)
  from tidy_dec[OF this] show ?thesis using True by (simp add: dec_string_int_def tidy_def)
next
  case False
  assume "time_ok t"
  then have "nat t < 2 ^ 64" using False by (simp add: time_ok_def nat_less_iff)
  from tidy_dec[OF this] show ?thesis using False by (simp add: dec_string_int_def tidy_def)
qed

lemma tidy_canonical: "is_canonical_id i \<Longrightarrow> tidy 64 (id_or_dash i)"
  by (auto simp: canonical_iff id_or_dash_def tidy_def max_id_length_def list_all_iff is_lower_alnum_def is_separator_def
      less_eq_char_def)

lemma hex_ascii: "of_char (hex_digit v) < (128 :: nat)" if "unat v < 16"
  using that by (auto simp: hex_digit_def)

lemma tidy_hex: "digest_ok d \<Longrightarrow> tidy 64 (digest_to_hex d)"
proof -
  assume d: "digest_ok d"
  have h: "unat (drop_bit 4 b) < 16" for b :: u8
    using unat_bound[of b] by (simp add: unat_drop_bit_eq drop_bit_eq_div less_mult_imp_div_less unat_div)
  have l: "unat (and b 15) < 16" for b :: u8
    using word_and_le1[of b 15] by (simp add: word_le_nat_alt)
  have "length (digest_to_hex d) = 2 * length d" by (induction d) (simp_all add: digest_to_hex_def)
  then show ?thesis using d hex_ascii[OF h] hex_ascii[OF l]
    by (auto simp: tidy_def digest_ok_def list_all_iff digest_to_hex_def hex_high_def hex_low_def)
qed

lemma tidy_quality: "tidy 64 (quality_to_string v)"
  by (cases v) (simp_all add: tidy_def)

lemma tidy_class: "tidy 64 (class_to_string v)"
  by (cases v) (simp_all add: tidy_def)

lemma tidy_membership: "tidy 64 (membership_to_string v)"
  by (cases v) (simp_all add: tidy_def)

lemma tidy_admin: "tidy 64 (admin_to_string v)"
  by (cases v) (simp_all add: tidy_def)

lemma tidy_health: "tidy 64 (health_to_string v)"
  by (cases v) (simp_all add: tidy_def)

lemma tidy_oper: "tidy 64 (oper_to_string v)"
  by (cases v) (simp_all add: tidy_def)

lemma tidy_domain_kind: "tidy 64 (domain_kind_to_string v)"
  by (cases v) (simp_all add: tidy_def)

lemma tidy_obligation_kind: "tidy 64 (obligation_kind_to_string v)"
  by (cases v) (simp_all add: tidy_def)

lemma tidy_flag: "tidy 64 (flag v)"
  by (cases v) (simp_all add: tidy_def flag_def)

lemmas tidy_enums = tidy_quality tidy_class tidy_membership tidy_admin tidy_health tidy_oper tidy_domain_kind
  tidy_obligation_kind tidy_flag

lemma tidy_spaced: "list_all (tidy 64) ws \<Longrightarrow> tidy (65 * length ws) (spaced ws)"
  by (induction ws rule: spaced.induct) (auto simp: tidy_def)

lemma tidy_line: "list_all (tidy 64) ws \<Longrightarrow> tidy 200 d \<Longrightarrow> length ws \<le> 40 \<Longrightarrow> tidy 4096 (line_of ws d)"
  using tidy_spaced[of ws] by (auto simp: line_of_def tidy_def)

lemma tidy_limits: "length ls + 2 \<le> max_lines \<Longrightarrow> list_all (tidy 4096) ls \<Longrightarrow> within_limits ls"
  by (auto simp: within_limits_def tidy_def list_all_iff max_line_bytes_def intro!: ascii_utf8[unfolded list_all_iff])

lemma tidy_id: "id_ok i \<Longrightarrow> tidy 64 (id_or_dash i)"
  by (auto simp: id_ok_def intro: tidy_canonical) (simp add: id_or_dash_def tidy_def)

lemmas tidy_words = tidy_enums tidy_id tidy_canonical tidy_hex tidy_more[OF tidy_u64] tidy_more[OF tidy_u32] tidy_more[OF tidy_time]

lemma length_prov_words [simp]: "length (prov_words v) = 4"
  by (simp add: prov_words_def)

lemma tidy_prov: "id_ok (pv_source v) \<Longrightarrow> list_all (tidy 64) (prov_words v)"
  by (simp add: prov_words_def tidy_words)

lemma tidy_desc: "tidy 200 t \<Longrightarrow> tidy 64 d \<Longrightarrow> list_all (tidy 4096) (desc_lines d t)"
  by (simp add: desc_lines_def tidy_line)

lemma tidy_ids: "list_all is_canonical_id is \<Longrightarrow> tidy 64 d \<Longrightarrow> list_all (tidy 4096) (map (id_line d) is)"
  by (auto simp: list_all_iff id_line_def tidy_words intro!: tidy_line) (simp add: tidy_def)

lemma tidy_short: "tidy 64 ''member'' \<and> tidy 64 ''gen'' \<and> tidy 64 ''digest'' \<and> tidy 64 ''rnf'' \<and> tidy 64 ''state'' \<and>
    tidy 64 ''admin'' \<and> tidy 64 ''health'' \<and> tidy 64 ''observed'' \<and> tidy 64 ''prov'' \<and> tidy 64 ''+desc'' \<and> tidy 64 ''+domain'' \<and>
    tidy 64 ''+port'' \<and> tidy 64 ''+capacity'' \<and> tidy 64 ''link'' \<and> tidy 64 ''a'' \<and> tidy 64 ''b'' \<and> tidy 64 ''agen'' \<and>
    tidy 64 ''bgen'' \<and> tidy 64 ''domain'' \<and> tidy 64 ''resource'' \<and> tidy 64 ''capacity'' \<and> tidy 64 ''oper'' \<and>
    tidy 64 ''route'' \<and> tidy 64 ''fdom'' \<and> tidy 64 ''kind'' \<and> tidy 64 ''+member'' \<and> tidy 64 ''obligation'' \<and>
    tidy 64 ''tenant'' \<and> tidy 64 ''mandatory'' \<and> tidy 64 ''domains'' \<and> tidy 64 ''diversity'' \<and> tidy 64 ''+rack'' \<and>
    tidy 64 ''+require'' \<and> tidy 64 ''schema'' \<and> tidy 64 ''pod'' \<and> tidy 64 ''observed-at'' \<and> tidy 64 ''+detail'' \<and>
    tidy 64 ''-'' \<and> tidy 64 ''rnf.descriptor/1'' \<and> tidy 64 ''podfabric.snapshot/1'' \<and> tidy 200 []"
  by (simp add: tidy_def)

lemma tidy_claim_line: "Text_Records.claim_ok c \<Longrightarrow> tidy 200 (pv_detail (cc_provenance c)) \<Longrightarrow> tidy 4096 (claim_line c)"
  unfolding claim_line_def Text_Records.claim_ok_def
  by (intro tidy_line) (simp_all add: tidy_words tidy_prov tidy_short)

lemma tidy_member_lines:
  assumes "text_member_ok m" "tidy 200 (pv_detail (mr_provenance m))" "tidy 64 (mr_rnf_schema m)"
    and "\<And>c. c \<in> set (mr_capacity m) \<Longrightarrow> tidy 200 (pv_detail (cc_provenance c))"
  shows "list_all (tidy 4096) (member_lines m)"
proof -
  have "tidy 4096 (line_of (member_words m) [])"
    using assms(1,3) unfolding text_member_ok_def member_head_ok_def
    by (intro tidy_line) (auto simp: member_words_def tidy_words tidy_prov tidy_short)
  moreover have "list_all (tidy 4096) (map claim_line (mr_capacity m))"
    using assms(1,4) by (auto simp: list_all_iff text_member_ok_def intro: tidy_claim_line)
  ultimately show ?thesis using assms(1,2)
    by (simp add: member_lines_def tidy_desc tidy_ids tidy_short text_member_ok_def)
qed

lemma tidy_link_lines:
  assumes "text_link_ok l" "tidy 200 (pv_detail (lk_provenance l))"
  shows "list_all (tidy 4096) (link_lines l)"
proof -
  have "tidy 4096 (line_of (link_words l) [])"
    using assms(1) unfolding text_link_ok_def
    by (intro tidy_line) (auto simp: link_words_def tidy_words tidy_prov tidy_short)
  then show ?thesis using assms(2) by (simp add: link_lines_def tidy_desc tidy_short)
qed

lemma tidy_domain_lines:
  assumes "text_domain_ok d" "tidy 200 (pv_detail (fd_provenance d))" "tidy 200 (fd_description d)"
  shows "list_all (tidy 4096) (domain_lines d)"
proof -
  have "tidy 4096 (line_of (domain_words d) (pv_detail (fd_provenance d)))"
    using assms(1,2) unfolding text_domain_ok_def
    by (intro tidy_line) (auto simp: domain_words_def tidy_words tidy_prov tidy_short)
  then show ?thesis using assms by (simp add: domain_lines_def tidy_desc tidy_ids tidy_short text_domain_ok_def)
qed

lemma tidy_obligation_lines:
  assumes "text_obligation_ok b" "tidy 200 (pv_detail (ob_provenance b))" "tidy 200 (ob_description b)"
  shows "list_all (tidy 4096) (obligation_lines b)"
proof -
  have "tidy 4096 (line_of (obligation_words b) (pv_detail (ob_provenance b)))"
    using assms(1,2) unfolding text_obligation_ok_def
    by (intro tidy_line) (auto simp: obligation_words_def tidy_words tidy_prov tidy_short)
  moreover have "list_all (tidy 4096) (map require_line (ob_requirements b))"
    using assms(1) by (auto simp: list_all_iff text_obligation_ok_def require_line_def tidy_words tidy_short intro!: tidy_line)
  ultimately show ?thesis using assms by (simp add: obligation_lines_def tidy_desc tidy_ids tidy_short text_obligation_ok_def)
qed

lemma joined_ids: "map fd_id (fold (join_round powers racks) is ds) = map fd_id ds"
proof -
  have "map fd_id (map bare_members (fold (join_round powers racks) is ds)) = map fd_id (map bare_members ds)"
    by (simp only: joined_frame)
  then show ?thesis by (simp add: comp_def)
qed

lemma join_once: "distinct (map fd_id ds) \<Longrightarrow>
    sum_list (map (\<lambda>d. length (fd_members d)) (map (join_domain feed rack) ds)) \<le> sum_list (map (\<lambda>d. length (fd_members d)) ds) + 1"
proof (induction ds)
  case (Cons d ds)
  show ?case
  proof (cases "fd_id d = feed")
    case True
    then have "map (join_domain feed rack) ds = ds" using Cons.prems by (intro map_idI) (auto simp: join_domain_def image_iff)
    then show ?thesis using True by (simp add: join_domain_def[of _ _ d] del: map_map)
  qed (use Cons in \<open>simp add: join_domain_def\<close>)
qed simp

lemma joined_total: "distinct (map fd_id ds) \<Longrightarrow>
    sum_list (map (\<lambda>d. length (fd_members d)) (fold (join_round powers racks) is ds)) \<le>
    sum_list (map (\<lambda>d. length (fd_members d)) ds) + length is"
proof (induction "is" arbitrary: ds)
  case (Cons i "is")
  have d: "distinct (map fd_id (join_round powers racks i ds))"
    using Cons.prems joined_ids[of powers racks "[i]" ds] by simp
  have "sum_list (map (\<lambda>d. length (fd_members d)) (join_round powers racks i ds)) \<le> sum_list (map (\<lambda>d. length (fd_members d)) ds) + 1"
    using join_once[OF Cons.prems] by (simp add: join_round_def)
  then show ?case using Cons.IH[OF d] by simp
qed simp

lemma made_domains_total: "sum_list (map (\<lambda>d. length (fd_members d)) (made_domains y)) \<le> 2 * unat (rack_count y)"
proof -
  have "distinct (map fd_id (shared_plane (rack_ids y) # power_records y))"
    using made_domain_ids_distinct[of y] unfolding made_domains_def joined_ids .
  from joined_total[OF this, of "map fd_id (power_records y)" "rack_ids y" "[0..<length (rack_ids y)]"] have "sum_list (map (\<lambda>d. length (fd_members d)) (made_domains y)) \<le>
      sum_list (map (\<lambda>d. length (fd_members d)) (shared_plane (rack_ids y) # power_records y)) + length (rack_ids y)"
    by (simp add: made_domains_def)
  moreover have "sum_list (map (\<lambda>d. length (fd_members d)) (power_records y)) = 0"
    by (auto simp: power_records_def power_domain_def comp_def)
  ultimately show ?thesis using rack_ids_length[of y] by (simp add: shared_plane_def)
qed

lemma few_lines: "(\<And>x. x \<in> set xs \<Longrightarrow> length (f x) \<le> k) \<Longrightarrow> length (concat (map f xs)) \<le> k * length xs"
  by (induction xs) (auto simp: add_mono)

lemma sum_sorted: "sum_list (map f (sort_key g xs)) = sum_list (map f xs)" for f :: "'a \<Rightarrow> nat"
  by (metis mset_map mset_sort sum_mset_sum_list)

lemma length_desc [simp]: "length (desc_lines d t) \<le> 1"
  by (simp add: desc_lines_def)

lemma canonicalise_shorter: "length (canonicalise xs) \<le> length xs"
  by (simp add: length_canonicalise card_length)

lemma domain_line_count:
  "length (concat (map domain_lines (map canonicalise_domain ds))) \<le> 2 * length ds + sum_list (map (\<lambda>d. length (fd_members d)) ds)"
proof (induction ds)
  case (Cons d ds)
  have "length (domain_lines (canonicalise_domain d)) \<le> 2 + length (fd_members d)"
    using length_desc[of "''+desc''" "fd_description d"] canonicalise_shorter[of "fd_members d"]
    by (simp add: domain_lines_def canonicalise_domain_def)
  then show ?case using Cons by simp
qed simp

section \<open>The text of a snapshot that is made up\<close>

definition plain_options :: "synthetic_options \<Rightarrow> bool" where
  "plain_options y \<longleftrightarrow> is_canonical_id (sy_pod y) \<and> (sy_resource y = [] \<or> is_canonical_id (sy_resource y)) \<and>
     time_ok (sy_observed_at y)"

lemma plain_resource: "plain_options y \<Longrightarrow> is_canonical_id (the_resource y)"
  using fixed_prefixes by (auto simp: plain_options_def the_resource_def is_nil_def)

lemma synthetic_source [simp]:
  "pv_source (synthetic_provenance d) = ''podfabric.synthetic''" "pv_detail (synthetic_provenance d) = d"
  "id_ok ''podfabric.synthetic''"
  using fixed_prefixes by (simp_all add: synthetic_provenance_def id_ok_def)

lemma plain_digits: "a \<noteq> [] \<Longrightarrow> plain_text a \<Longrightarrow> b = [] \<or> (\<not> blank (last b) \<and> (\<forall>c \<in> set b. 0x20 \<le> (of_char c :: nat) \<and> of_char c \<noteq> (0x7F :: nat))) \<Longrightarrow>
    plain_text (a @ CHR '' '' # dec_string k @ b)"
proof -
  have d: "0x30 \<le> (of_char c :: nat) \<and> of_char c \<le> (0x39 :: nat)" if "c \<in> set (dec_string k)" for c
    using that dec_string_digits[of k] by (auto simp: list_all_iff digit_def less_eq_char_def)
  have "\<not> blank (last (dec_string k))"
    using d[OF last_in_set[OF dec_string_nonempty]] by (auto simp: blank_def)
  then show "a \<noteq> [] \<Longrightarrow> plain_text a \<Longrightarrow> b = [] \<or> (\<not> blank (last b) \<and> (\<forall>c \<in> set b. 0x20 \<le> (of_char c :: nat) \<and> of_char c \<noteq> (0x7F :: nat))) \<Longrightarrow>
    plain_text (a @ CHR '' '' # dec_string k @ b)"
    using d by (fastforce simp: plain_text_def trimmed_def last_append)
qed

lemma plain_literal: "a \<noteq> [] \<Longrightarrow> hd a \<notin> {CHR '' '', CHR 0x09} \<Longrightarrow> last a \<notin> {CHR '' '', CHR 0x09} \<Longrightarrow>
    list_all (\<lambda>c. 0x20 \<le> (of_char c :: nat) \<and> of_char c \<noteq> (0x7F :: nat)) a \<Longrightarrow> plain_text a"
  by (simp add: plain_text_def trimmed_def blank_def list_all_iff)

lemma plain_details:
  "plain_text ''synthetic switch plane'' \<and> plain_text ''synthetic power feed'' \<and> plain_text ''synthetic fabric budget'' \<and>
   plain_text ''synthetic rack descriptor'' \<and> plain_text ''synthetic inter-rack link'' \<and>
   plain_text ''synthetic tenant obligation'' \<and> plain_text ''synthetic capacity floor'' \<and> plain_text ''synthetic protected path'' \<and>
   plain_text ''shared switching plane (synthetic)'' \<and> plain_text ''tenant-a keeps two rack-disjoint power domains'' \<and>
   plain_text ''protected fabric floor'' \<and> plain_text ''first and last rack stay mutually reachable''"
  by (intro conjI; rule plain_literal; simp)

lemma tidy_details:
  "tidy 200 ''synthetic switch plane'' \<and> tidy 200 ''synthetic power feed'' \<and> tidy 200 ''synthetic fabric budget'' \<and>
   tidy 200 ''synthetic rack descriptor'' \<and> tidy 200 ''synthetic inter-rack link'' \<and>
   tidy 200 ''synthetic tenant obligation'' \<and> tidy 200 ''synthetic capacity floor'' \<and> tidy 200 ''synthetic protected path'' \<and>
   tidy 200 ''shared switching plane (synthetic)'' \<and> tidy 200 ''tenant-a keeps two rack-disjoint power domains'' \<and>
   tidy 200 ''protected fabric floor'' \<and> tidy 200 ''first and last rack stay mutually reachable''"
  by (simp add: tidy_def)

lemma power_text:
  assumes "k < 2 ^ 32"
  shows "plain_text (''power feed '' @ dec_string k @ '' (synthetic)'') \<and> tidy 200 (''power feed '' @ dec_string k @ '' (synthetic)'')"
proof
  have "plain_text ''power feed''" by (rule plain_literal) simp_all
  then have "plain_text (''power feed'' @ CHR '' '' # dec_string k @ '' (synthetic)'')" by (rule plain_digits[rotated]) (simp_all add: blank_def)
  then show "plain_text (''power feed '' @ dec_string k @ '' (synthetic)'')" by simp
  show "tidy 200 (''power feed '' @ dec_string k @ '' (synthetic)'')"
    by (rule tidy_append[of 11 _ 100], simp add: tidy_def, rule tidy_append[of 20 _ 12], rule tidy_dec) (use assms in \<open>simp_all add: tidy_def\<close>)
qed

lemma pod_text:
  "plain_text (''synthetic pod of '' @ dec_u64 (n :: u32) @ '' racks from seed '' @ dec_u64 (k :: u64)) \<and>
   tidy 200 (''synthetic pod of '' @ dec_u64 n @ '' racks from seed '' @ dec_u64 k)"
proof
  have "plain_text ''synthetic pod of''" by (rule plain_literal) simp_all
  then have "plain_text (''synthetic pod of'' @ CHR '' '' # dec_string (unat n) @ '' racks from seed'')"
    by (rule plain_digits[rotated]) (simp_all add: blank_def)
  then have "plain_text ((''synthetic pod of'' @ CHR '' '' # dec_string (unat n) @ '' racks from seed'') @ CHR '' '' # dec_string (unat k) @ [])"
    by (rule plain_digits[rotated]) simp_all
  then show "plain_text (''synthetic pod of '' @ dec_u64 n @ '' racks from seed '' @ dec_u64 k)" by (simp add: dec_u64_def)
  show "tidy 200 (''synthetic pod of '' @ dec_u64 n @ '' racks from seed '' @ dec_u64 k)"
    by (rule tidy_append[of 17 _ 150], simp add: tidy_def, rule tidy_append[of 20 _ 100], rule tidy_u32,
        rule tidy_append[of 17 _ 20], simp add: tidy_def, rule tidy_u64) simp_all
qed

lemma made_member_text:
  assumes "plain_options y" "m \<in> set (made_members y)"
  shows "text_member_ok (canonicalise_member m) \<and> list_all (tidy 4096) (member_lines (canonicalise_member m)) \<and>
    length (member_lines (canonicalise_member m)) \<le> 7"
proof -
  obtain i feed where m: "m = synthetic_member y i (rack_ids y ! i) feed" and r: "rack_ids y ! i \<in> set (rack_ids y)"
    and p: "is_canonical_id feed" "is_canonical_id (numbered ''fabric'' (i + 1))" "feed \<noteq> plane_id"
    using made_members_in[OF assms(2)] .
  have c: "mr_capacity m = [synthetic_claim y i feed]" by (simp add: m synthetic_member_def)
  have q: "list_all is_canonical_id (canonicalise (numbered_ids ''port'' [0, 1]))"
    by (auto simp: list_all_iff dest: numbered_ids_canonical)
  have k: "Text_Records.claim_ok (synthetic_claim y i feed)"
    using p fixed_prefixes plain_resource[OF assms(1)] plain_details
    by (simp add: Text_Records.claim_ok_def synthetic_claim_def id_parse_def is_nil_def canonical_id_nonempty)
  have ok: "text_member_ok (canonicalise_member m)"
    using p(1) q k r rack_ids_canonical[OF r] fixed_prefixes plain_details c
    by (simp add: text_member_ok_def member_head_ok_def canonicalise_member_def)
       (simp add: m synthetic_member_def digest_ok_def digest_of_string_def rnf_schema_v1_def time_ok_def is_nil_def
         canonical_id_nonempty list_all_iff)
  have "list_all (tidy 4096) (member_lines (canonicalise_member m))"
    using c tidy_details tidy_short
    by (intro tidy_member_lines ok)
       (simp_all add: canonicalise_member_def, simp_all add: m synthetic_member_def rnf_schema_v1_def synthetic_claim_def)
  moreover have "length (member_lines (canonicalise_member m)) \<le> 7"
  proof -
    have "length (mr_failure_domains (canonicalise_member m)) \<le> 2"
      using canonicalise_shorter[of "plane_id # (if is_nil feed then [] else [feed])"]
      by (simp add: canonicalise_member_def m synthetic_member_def split: if_splits)
    moreover have "length (mr_ports (canonicalise_member m)) \<le> 2"
      using canonicalise_shorter[of "numbered_ids ''port'' [0, 1]"] numbered_ids_length[of "''port''" "[0, 1]"]
      by (simp add: canonicalise_member_def m synthetic_member_def)
    moreover have "length (mr_capacity (canonicalise_member m)) = 1" by (simp add: canonicalise_member_def c)
    ultimately show ?thesis using length_desc[of "''+desc''" "pv_detail (mr_provenance (canonicalise_member m))"]
      by (simp add: member_lines_def)
  qed
  ultimately show ?thesis using ok by simp
qed

lemma made_link_text:
  assumes "plain_options y" "link_made y (rack_ids y) l"
  shows "text_link_ok l \<and> list_all (tidy 4096) (link_lines l) \<and> length (link_lines l) \<le> 2"
proof -
  obtain i j k c where l: "i < j" "j < length (rack_ids y)" "l = synthetic_link y k (rack_ids y ! i) (rack_ids y ! j) c"
    "is_canonical_id k"
    using assms(2) by (auto simp: link_made_def)
  have "is_canonical_id (rack_ids y ! i)" "is_canonical_id (rack_ids y ! j)"
    using l(1,2) by (auto intro!: rack_ids_canonical nth_mem)
  then have ok: "text_link_ok l"
    using l(3,4) plain_resource[OF assms(1)]
    by (simp add: text_link_ok_def synthetic_link_def time_ok_def id_ok_def[of "[]"] fixed_prefixes plain_details)
  have "pv_detail (lk_provenance l) = ''synthetic inter-rack link''" by (simp add: l(3) synthetic_link_def)
  then have "list_all (tidy 4096) (link_lines l)" by (intro tidy_link_lines ok) (simp add: tidy_details)
  then show ?thesis using ok length_desc[of "''+desc''" "pv_detail (lk_provenance l)"] by (simp add: link_lines_def)
qed

lemma made_domain_text:
  assumes "d \<in> set (made_domains y)"
  shows "text_domain_ok (canonicalise_domain d) \<and> list_all (tidy 4096) (domain_lines (canonicalise_domain d))"
proof -
  obtain k where d: "set (fd_members d) \<subseteq> set (rack_ids y)" "is_canonical_id (fd_id d)" "k < 2 ^ 32"
    "fd_description d \<in> {''shared switching plane (synthetic)'', ''power feed '' @ dec_string k @ '' (synthetic)''}"
    "fd_provenance d \<in> synthetic_provenance ` {''synthetic switch plane'', ''synthetic power feed''}"
    using made_domains_in[OF assms] .
  have f: "plain_text (fd_description d)" "tidy 200 (fd_description d)"
    using d(4) by (elim insertE emptyE; simp only: power_text[OF d(3)] plain_details tidy_details)+
  have v: "plain_text (pv_detail (fd_provenance d))" "tidy 200 (pv_detail (fd_provenance d))" "id_ok (pv_source (fd_provenance d))"
    using d(5) by (elim imageE insertE emptyE; simp only: synthetic_source plain_details tidy_details)+
  have ok: "text_domain_ok (canonicalise_domain d)"
    using d(1,2) f(1) v rack_ids_canonical[of _ y] by (auto simp: text_domain_ok_def canonicalise_domain_def list_all_iff)
  then show ?thesis using f(2) v(2) by (intro conjI tidy_domain_lines) (simp_all add: canonicalise_domain_def)
qed

lemma made_obligation_text:
  assumes "plain_options y" "b \<in> set (synthetic_obligations y (rack_ids y) powers)"
  shows "text_obligation_ok (canonicalise_obligation b) \<and> list_all (tidy 4096) (obligation_lines (canonicalise_obligation b)) \<and>
    length (obligation_lines (canonicalise_obligation b)) \<le> 5"
proof -
  note b = synthetic_obligation_in[OF assms(2)]
  have f: "plain_text (ob_description b)" "tidy 200 (ob_description b)" 
    using b(5) by (elim insertE emptyE; simp only: plain_details tidy_details)+
  have v: "plain_text (pv_detail (ob_provenance b))" "tidy 200 (pv_detail (ob_provenance b))" "id_ok (pv_source (ob_provenance b))"
    using b(6) by (elim imageE insertE emptyE; simp only: synthetic_source plain_details tidy_details)+
  have "set (sort_key cr_resource (ob_requirements b)) = set (ob_requirements b)" by simp
  then have r: "list_all (\<lambda>r. is_canonical_id (cr_resource r)) (sort_key cr_resource (ob_requirements b))"
    using b(4) plain_resource[OF assms(1)] by (auto simp: list_all_iff)
  have ok: "text_obligation_ok (canonicalise_obligation b)"
    using b(1,3) f(1) v r rack_ids_canonical[of _ y]
    by (auto simp: text_obligation_ok_def canonicalise_obligation_def list_all_iff id_ok_def[of "''tenant-a''"] b(2) fixed_prefixes)
  moreover have "list_all (tidy 4096) (obligation_lines (canonicalise_obligation b))"
    using f(2) v(2) by (intro tidy_obligation_lines ok) (simp_all add: canonicalise_obligation_def)
  moreover have "length (ob_protected_racks b) \<le> 2" "length (ob_requirements b) \<le> 1"
    using assms(2) by (auto simp: synthetic_obligations_def obligation_new_def split: if_splits)
  then have "length (obligation_lines (canonicalise_obligation b)) \<le> 5"
    using canonicalise_shorter[of "ob_protected_racks b"] length_desc[of "''+desc''" "ob_description b"]
    by (simp add: obligation_lines_def canonicalise_obligation_def)
  ultimately show ?thesis by simp
qed

lemma synthesized_tidy:
  assumes "synthesize y = Inr s" "modest y" "plain_options y"
  shows "list_all (tidy 4096) (snapshot_lines s)"
proof -
  note f = synthesize_fields[OF assms(1)]
  have ls: "link_made y (rack_ids y) l" if "l \<in> set (synthetic_links y (rack_ids y))" for l
    using that synthetic_links_ok(1)[OF assms(2)] by (simp add: list_all_iff)
  have p: "plain_text (pv_detail (sn_provenance s)) \<and> tidy 200 (pv_detail (sn_provenance s))" using pod_text by (simp add: f)
  have t: "time_ok (sn_observed_at s)" using assms(3) by (simp add: f plain_options_def nanos_per_second_def time_ok_def)
  have "list_all (tidy 4096) [line_of [''schema'', sn_schema s] [], line_of [''pod'', id_or_dash (sn_pod s)] [],
      line_of [''observed-at'', dec_string_int (sn_observed_at s)] [], line_of (''prov'' # prov_words (sn_provenance s)) []]"
    using assms(3) t tidy_prov[of "sn_provenance s"]
    by (simp add: tidy_line tidy_words plain_options_def f snapshot_schema_def tidy_short)
  moreover have "list_all (tidy 4096) (concat (map member_lines (sn_members s)))"
    using made_member_text[OF assms(3)] by (auto simp: f list_all_iff)
  moreover have "list_all (tidy 4096) (concat (map link_lines (sn_links s)))"
    using made_link_text[OF assms(3)] ls by (auto simp: f list_all_iff)
  moreover have "list_all (tidy 4096) (concat (map domain_lines (sn_domains s)))"
    using made_domain_text[of _ y] by (auto simp: f list_all_iff)
  moreover have "list_all (tidy 4096) (concat (map obligation_lines (sn_obligations s)))"
    using made_obligation_text[OF assms(3)] by (auto simp: f list_all_iff)
  ultimately show ?thesis using p by (simp add: snapshot_lines_def tidy_desc tidy_short)
qed

lemma synthesized_line_count:
  assumes "synthesize y = Inr s" "modest y" "plain_options y"
  shows "length (snapshot_lines s) \<le> 22 + 9 * unat (rack_count y) + 2 * unat (domain_count y) + 2 * length (sn_links s)"
proof -
  note f = synthesize_fields[OF assms(1)]
  have ls: "link_made y (rack_ids y) l" if "l \<in> set (synthetic_links y (rack_ids y))" for l
    using that synthetic_links_ok(1)[OF assms(2)] by (simp add: list_all_iff)
  have "length (concat (map member_lines (sn_members s))) \<le> 7 * length (sn_members s)"
    using made_member_text[OF assms(3)] by (intro few_lines) (auto simp: f)
  moreover have "length (concat (map link_lines (sn_links s))) \<le> 2 * length (sn_links s)"
    using made_link_text[OF assms(3)] ls by (intro few_lines) (auto simp: f)
  moreover have "length (concat (map obligation_lines (sn_obligations s))) \<le> 5 * length (sn_obligations s)"
    using made_obligation_text[OF assms(3)] by (intro few_lines) (auto simp: f)
  moreover have "length (concat (map domain_lines (sn_domains s))) \<le>
      2 * length (sn_domains s) + (\<Sum>d \<leftarrow> made_domains y. length (fd_members (canonicalise_domain d)))"
    using domain_line_count[of "sort_key fd_id (map canonicalise_domain (made_domains y))"]
    by (simp add: f sum_sorted comp_def)
  moreover have "(\<Sum>d \<leftarrow> made_domains y. length (fd_members (canonicalise_domain d))) \<le> 2 * unat (rack_count y)"
    by (rule order.trans[OF sum_list_mono made_domains_total]) (simp add: canonicalise_domain_def canonicalise_shorter)
  moreover have "length (sn_members s) \<le> unat (rack_count y)" "length (sn_domains s) = 1 + unat (domain_count y)"
    "length (sn_obligations s) \<le> 3"
    using made_members_length[of y] synthetic_obligations_ids(2) by (simp_all add: f made_domains_length)
  ultimately show ?thesis
    using length_desc[of "''+detail''" "pv_detail (sn_provenance s)"] by (simp add: snapshot_lines_def)
qed

lemma synthesized_lines:
  assumes "synthesize y = Inr s" "modest y" "plain_options y"
  shows "within_limits (snapshot_lines s)"
proof (rule tidy_limits[OF _ synthesized_tidy[OF assms]])
  have "length (sn_links s) \<le> 65536" "unat (domain_count y) \<le> 4095"
    using synthetic_links_ok(3)[OF assms(2)] assms(2) by (simp_all add: synthesize_fields[OF assms(1)] modest_def)
  then show "length (snapshot_lines s) + 2 \<le> max_lines"
    using synthesized_line_count[OF assms] modest_bounds(5)[OF assms(2)] by (simp add: max_lines_def)
qed

lemma synthesized_text_ok:
  assumes "synthesize y = Inr s" "modest y" "plain_options y"
  shows "text_snapshot_ok s"
proof -
  note f = synthesize_fields[OF assms(1)]
  have ls: "link_made y (rack_ids y) l" if "l \<in> set (synthetic_links y (rack_ids y))" for l
    using that synthetic_links_ok(1)[OF assms(2)] by (simp add: list_all_iff)
  have "text_word snapshot_schema" by (simp add: snapshot_schema_def)
  moreover have "time_ok (sn_observed_at s)" using assms(3) by (simp add: f plain_options_def nanos_per_second_def time_ok_def)
  moreover have "list_all text_member_ok (sn_members s)" using made_member_text[OF assms(3)] by (auto simp: f list_all_iff)
  moreover have "list_all text_link_ok (sn_links s)" using made_link_text[OF assms(3)] ls by (auto simp: f list_all_iff)
  moreover have "list_all text_domain_ok (sn_domains s)" using made_domain_text[of _ y] by (auto simp: f list_all_iff)
  moreover have "list_all text_obligation_ok (sn_obligations s)" using made_obligation_text[OF assms(3)] by (auto simp: f list_all_iff)
  ultimately show ?thesis
    using synthesized_lines[OF assms] assms(3) pod_text by (simp add: text_snapshot_ok_def f plain_options_def)
qed

text \<open>How long the text can get.\<close>

lemma synthesized_text_length:
  assumes "synthesize y = Inr s" "modest y" "plain_options y"
  shows "length (snapshot_text s) \<le> 4097 * (length (snapshot_lines s) + 2)"
proof -
  have "length (concat (map text_line ls)) \<le> 4097 * length ls" if "list_all (tidy 4096) ls" for ls
    using that by (induction ls) (auto simp: tidy_def text_line_def newline_def)
  from this[OF synthesized_tidy[OF assms]] show ?thesis
    by (simp add: snapshot_text_lines[OF synthesized_text_ok[OF assms]] text_line_def text_schema_def newline_def)
qed

end
