(* ===== verification/Cli.thy ===== *)
theory Cli
  imports Text_Scan
begin

text \<open>
  The arguments of the command-line tools: \<open>apps/cli.hpp\<close>, \<open>apps/cli.cpp\<close>. The arguments are those after the
  name of the program, none of them a null pointer.
\<close>

section \<open>Parsing\<close>

record cli_options =
  cli_positional :: "string list"
  cli_values :: "(string, string list) smap"
  cli_flags :: "string list"

definition cli_none :: cli_options where
  "cli_none = \<lparr>cli_positional = [], cli_values = [], cli_flags = []\<rparr>"

definition add_flag :: "string \<Rightarrow> cli_options \<Rightarrow> cli_options" where
  "add_flag name opts = opts\<lparr>cli_flags := sset_insert name (cli_flags opts)\<rparr>"

definition add_value :: "string \<Rightarrow> string \<Rightarrow> cli_options \<Rightarrow> cli_options" where
  "add_value name v opts = opts\<lparr>cli_values := smap_update [] (\<lambda>vs. vs @ [v]) name (cli_values opts)\<rparr>"

definition add_positional :: "string \<Rightarrow> cli_options \<Rightarrow> cli_options" where
  "add_positional token opts = opts\<lparr>cli_positional := cli_positional opts @ [token]\<rparr>"

definition option_name :: "string \<Rightarrow> string" where
  "option_name token = takeWhile (\<lambda>c. c \<noteq> CHR ''='') token"

definition inline_value :: "string \<Rightarrow> string" where
  "inline_value token = tl (dropWhile (\<lambda>c. c \<noteq> CHR ''='') token)"

fun cli_loop :: "string list \<Rightarrow> string list \<Rightarrow> nat \<Rightarrow> string list \<Rightarrow> cli_options \<Rightarrow> cli_options result" where
  "cli_loop value_flags bool_flags max_positional [] opts = Inr opts"
| "cli_loop value_flags bool_flags max_positional (token # rest) opts =
     (if token = [] then fail Code_Invalid ''an empty argument was supplied''
      else if take 2 token \<noteq> ''--''
      then if length (cli_positional opts) \<ge> max_positional then fail Code_Invalid ''too many positional arguments''
        else cli_loop value_flags bool_flags max_positional rest (add_positional token opts)
      else let name = option_name token; equals = CHR ''='' \<in> set token in
        if name \<in> set bool_flags
        then if equals then fail Code_Invalid (name @ '' does not take a value'')
          else cli_loop value_flags bool_flags max_positional rest (add_flag name opts)
        else if name \<notin> set value_flags then fail Code_Invalid (''unrecognised option '' @ name)
        else if equals
        then cli_loop value_flags bool_flags max_positional rest (add_value name (inline_value token) opts)
        else case rest of
            [] \<Rightarrow> fail Code_Invalid (name @ '' requires a value'')
          | v # others \<Rightarrow> cli_loop value_flags bool_flags max_positional others (add_value name v opts))"

definition cli_parse :: "string list \<Rightarrow> string list \<Rightarrow> string list \<Rightarrow> nat \<Rightarrow> cli_options result" where
  "cli_parse args value_flags bool_flags max_positional = cli_loop value_flags bool_flags max_positional args cli_none"

section \<open>Reading an option\<close>

definition has_flag :: "cli_options \<Rightarrow> string \<Rightarrow> bool" where
  "has_flag opts name \<longleftrightarrow> name \<in> set (cli_flags opts)"

definition option_values :: "cli_options \<Rightarrow> string \<Rightarrow> string list" where
  "option_values opts name = (case smap_get (cli_values opts) name of None \<Rightarrow> [] | Some vs \<Rightarrow> vs)"

definition value_or :: "cli_options \<Rightarrow> string \<Rightarrow> string \<Rightarrow> string" where
  "value_or opts name fallback = (let vs = option_values opts name in if vs = [] then fallback else last vs)"

fun unsigned_digits :: "string \<Rightarrow> string \<Rightarrow> u64 \<Rightarrow> u64 result" where
  "unsigned_digits what [] v = Inr v"
| "unsigned_digits what (c # cs) v =
     (if c < CHR ''0'' \<or> c > CHR ''9'' then fail Code_Invalid (what @ '' is not an unsigned integer'')
      else unsigned_digits what cs (v * 10 + of_nat (of_char c - 48)))"

definition to_unsigned :: "string \<Rightarrow> string \<Rightarrow> u64 result" where
  "to_unsigned text what =
     (if text = [] \<or> length text > 20 then fail Code_Invalid (what @ '' is not an unsigned integer'')
      else unsigned_digits what text 0)"

definition unsigned_or :: "cli_options \<Rightarrow> string \<Rightarrow> u64 \<Rightarrow> u64 result" where
  "unsigned_or opts name fallback =
     (let vs = option_values opts name in if vs = [] then Inr fallback else to_unsigned (last vs) name)"

definition signed_or :: "cli_options \<Rightarrow> string \<Rightarrow> int \<Rightarrow> int result" where
  "signed_or opts name fallback =
     (let vs = option_values opts name in
      if vs = [] then Inr fallback
      else let text = last vs;
               signed = text \<noteq> [] \<and> (hd text = CHR ''-'' \<or> hd text = CHR ''+'');
               negative = signed \<and> hd text = CHR ''-''
        in try_bind (to_unsigned (if signed then tl text else text) name) (\<lambda>magnitude.
           try_then (reject_if (magnitude > 0x7FFFFFFFFFFFFFFF) Code_Invalid (name @ '' is out of range''))
           (Inr (if negative then - uint magnitude else uint magnitude))))"

definition required :: "cli_options \<Rightarrow> string \<Rightarrow> string result" where
  "required opts name =
     (let v = value_or opts name [] in
      try_then (reject_if (v = []) Code_Invalid (name @ '' is required'')) (Inr v))"

section \<open>What is accepted\<close>

text \<open>The arguments as the user means them.\<close>

datatype cli_item =
  Item_Positional string | Item_Flag string | Item_Value string string | Item_Inline string string

primrec item_args :: "cli_item \<Rightarrow> string list" where
  "item_args (Item_Positional p) = [p]"
| "item_args (Item_Flag name) = [name]"
| "item_args (Item_Value name v) = [name, v]"
| "item_args (Item_Inline name v) = [name @ ''='' @ v]"

definition dashed :: "string \<Rightarrow> bool" where
  "dashed name \<longleftrightarrow> take 2 name = ''--'' \<and> CHR ''='' \<notin> set name"

primrec item_ok :: "string list \<Rightarrow> string list \<Rightarrow> cli_item \<Rightarrow> bool" where
  "item_ok vf bf (Item_Positional p) \<longleftrightarrow> p \<noteq> [] \<and> take 2 p \<noteq> ''--''"
| "item_ok vf bf (Item_Flag name) \<longleftrightarrow> dashed name \<and> name \<in> set bf"
| "item_ok vf bf (Item_Value name v) \<longleftrightarrow> dashed name \<and> name \<in> set vf \<and> name \<notin> set bf"
| "item_ok vf bf (Item_Inline name v) \<longleftrightarrow> dashed name \<and> name \<in> set vf \<and> name \<notin> set bf"

primrec item_effect :: "cli_item \<Rightarrow> cli_options \<Rightarrow> cli_options" where
  "item_effect (Item_Positional p) = add_positional p"
| "item_effect (Item_Flag name) = add_flag name"
| "item_effect (Item_Value name v) = add_value name v"
| "item_effect (Item_Inline name v) = add_value name v"

definition item_places :: "cli_item list \<Rightarrow> nat" where
  "item_places items = length (filter (\<lambda>i. \<exists>p. i = Item_Positional p) items)"

lemma item_places_simps [simp]:
  "item_places [] = 0" "item_places (Item_Positional p # items) = Suc (item_places items)"
  "item_places (Item_Flag name # items) = item_places items"
  "item_places (Item_Value name v # items) = item_places items"
  "item_places (Item_Inline name v # items) = item_places items"
  by (simp_all add: item_places_def)

lemma effect_positional [simp]:
  "cli_positional (add_flag name opts) = cli_positional opts" "cli_positional (add_value name v opts) = cli_positional opts"
  "length (cli_positional (add_positional p opts)) = Suc (length (cli_positional opts))"
  by (simp_all add: add_flag_def add_value_def add_positional_def)

lemma dashed_name: "dashed name \<Longrightarrow> option_name name = name \<and> name \<noteq> [] \<and> CHR ''='' \<notin> set name"
  by (auto simp: dashed_def option_name_def takeWhile_eq_all_conv)

lemma dashes: "take 2 t = ''--'' \<longleftrightarrow> (\<exists>u. t = CHR ''-'' # CHR ''-'' # u)"
  by (cases t rule: list.exhaust; cases "tl t") (auto simp: numeral_2_eq_2)

lemma dashed_inline:
  assumes "dashed name"
  shows "option_name (name @ CHR ''='' # v) = name" "inline_value (name @ CHR ''='' # v) = v" "take 2 (name @ CHR ''='' # v) = ''--''"
proof -
  have n: "\<forall>c \<in> set name. c \<noteq> CHR ''=''" using assms by (auto simp: dashed_def)
  then show "option_name (name @ CHR ''='' # v) = name" "inline_value (name @ CHR ''='' # v) = v"
    by (simp_all add: option_name_def inline_value_def takeWhile_append2 dropWhile_append2)
  show "take 2 (name @ CHR ''='' # v) = ''--''" using assms by (auto simp: dashed_def dashes)
qed

lemma dashed_option:
  assumes "take 2 token = ''--''"
  shows "dashed (option_name token)" "CHR ''='' \<notin> set token \<Longrightarrow> option_name token = token"
    "CHR ''='' \<in> set token \<Longrightarrow> token = option_name token @ CHR ''='' # inline_value token"
proof -
  obtain u where u: "token = CHR ''-'' # CHR ''-'' # u" using assms dashes by blast
  then show "dashed (option_name token)" by (auto simp: dashed_def dashes option_name_def dest: set_takeWhileD)
  show "CHR ''='' \<notin> set token \<Longrightarrow> option_name token = token"
    by (auto simp: option_name_def takeWhile_eq_all_conv)
  assume e: "CHR ''='' \<in> set token"
  let ?d = "dropWhile (\<lambda>c. c \<noteq> CHR ''='') token"
  have "?d \<noteq> []" "hd ?d = CHR ''=''"
    using e hd_dropWhile[of "\<lambda>c. c \<noteq> CHR ''=''" token] by (auto simp: dropWhile_eq_Nil_conv)
  then show "token = option_name token @ CHR ''='' # inline_value token"
    unfolding option_name_def inline_value_def by (metis list.collapse takeWhile_dropWhile_id)
qed

lemma loop_item:
  assumes "item_ok vf bf i" "length (cli_positional opts) + item_places [i] \<le> n"
  shows "cli_loop vf bf n (item_args i @ rest) opts = cli_loop vf bf n rest (item_effect i opts)"
proof (cases i)
  case (Item_Flag name)
  then show ?thesis using assms dashed_name[of name] by (simp add: Let_def dashed_def)
next
  case (Item_Value name v)
  then show ?thesis using assms dashed_name[of name] by (simp add: Let_def dashed_def)
next
  case (Item_Inline name v)
  then show ?thesis using assms dashed_inline[of name v] by (simp add: Let_def)
qed (use assms in simp)

lemma loop_items:
  "list_all (item_ok vf bf) items \<Longrightarrow> length (cli_positional opts) + item_places items \<le> n \<Longrightarrow>
    cli_loop vf bf n (concat (map item_args items)) opts = Inr (fold item_effect items opts)"
proof (induction items arbitrary: opts)
  case (Cons i items)
  have "length (cli_positional opts) + item_places [i] \<le> n"
    "length (cli_positional (item_effect i opts)) + item_places items \<le> n"
    using Cons.prems by (cases i; simp)+
  then show ?case using Cons loop_item[of vf bf i opts n] by simp
qed simp

lemma items_of_loop:
  "cli_loop vf bf n args opts = Inr res \<Longrightarrow> length (cli_positional opts) \<le> n \<Longrightarrow>
    \<exists>items. list_all (item_ok vf bf) items \<and> args = concat (map item_args items) \<and>
      length (cli_positional opts) + item_places items \<le> n \<and> res = fold item_effect items opts"
proof (induction args arbitrary: opts rule: length_induct)
  case (1 args)
  have first: ?case if i: "item_ok vf bf i" "args = item_args i @ others" "length (cli_positional opts) + item_places [i] \<le> n"
    "cli_loop vf bf n others (item_effect i opts) = Inr res" for i others
  proof -
    have "length others < length args" "length (cli_positional (item_effect i opts)) \<le> n"
      using i(2,3) by (cases i; simp)+
    then obtain items where items: "list_all (item_ok vf bf) items" "others = concat (map item_args items)"
      "length (cli_positional (item_effect i opts)) + item_places items \<le> n" "res = fold item_effect items (item_effect i opts)"
      using 1(1) i(4) by blast
    have "length (cli_positional opts) + item_places (i # items) \<le> n" using items(3) i(3) by (cases i) simp_all
    then show ?thesis using i(1,2) items(1,2,4) by (intro exI[of _ "i # items"]) simp
  qed
  show ?case
  proof (cases args)
    case Nil
    then show ?thesis using 1(2,3) by (intro exI[of _ "[]"]) simp
  next
    case (Cons token rest)
    let ?name = "option_name token"
    show ?thesis
    proof (cases "take 2 token = ''--''")
      case False
      then show ?thesis using 1(2) Cons first[of "Item_Positional token" rest] by (auto split: if_splits)
    next
      case True
      note d = dashed_option[OF True]
      show ?thesis
      proof (cases "?name \<in> set bf")
        case True
        then show ?thesis using 1(2,3) Cons d first[of "Item_Flag token" rest] \<open>take 2 token = _\<close>
          by (auto simp: Let_def split: if_splits)
      next
        case False
        then have v: "?name \<in> set vf" using 1(2) Cons \<open>take 2 token = _\<close> by (auto simp: Let_def split: if_splits)
        show ?thesis
        proof (cases "CHR ''='' \<in> set token")
          case True
          then show ?thesis using 1(2,3) Cons d(1) d(3)[OF True] v False first[of "Item_Inline ?name (inline_value token)" rest]
            \<open>take 2 token = _\<close> by (auto simp: Let_def split: if_splits)
        next
          case e: False
          then obtain w others where "rest = w # others"
            using 1(2) Cons v False \<open>take 2 token = _\<close> by (auto simp: Let_def split: if_splits list.splits)
          then show ?thesis using 1(2,3) Cons d(1) d(2)[OF e] v False e first[of "Item_Value token w" others]
            \<open>take 2 token = _\<close> by (auto simp: Let_def split: if_splits)
        qed
      qed
    qed
  qed
qed

text \<open>
  C35: the argument parser accepts exactly the sequences of positional arguments, known flags, and known options
  with a value (behind an equals sign or as the next argument, whatever that looks like), with at most the
  allowed number of positional arguments, and returns what these add up to. Everything else is refused.
\<close>

theorem cli_parse_exact:
  "cli_parse args vf bf n = Inr opts \<longleftrightarrow>
     (\<exists>items. list_all (item_ok vf bf) items \<and> args = concat (map item_args items) \<and> item_places items \<le> n \<and>
        opts = fold item_effect items cli_none)"
  using items_of_loop[of vf bf n args cli_none opts] loop_items[of vf bf _ cli_none n]
  by (auto simp: cli_parse_def cli_none_def)

section \<open>Numbers\<close>

lemma unsigned_digits_value:
  "list_all digit cs \<Longrightarrow> unsigned_digits what cs (of_nat n) = Inr (of_nat (dec_value cs n))"
proof (induction cs arbitrary: n)
  case (Cons c cs)
  then have "\<not> (c < CHR ''0'' \<or> c > CHR ''9'')" by (auto simp: digit_def)
  moreover have "of_nat n * 10 + of_nat (of_char c - 48) = (of_nat (10 * n + (of_char c - 48)) :: u64)" by simp
  moreover have "list_all digit cs" using Cons.prems by simp
  ultimately show ?case using Cons.IH[of "10 * n + (of_char c - 48)"]
    by (simp only: unsigned_digits.simps if_False dec_value.simps)
qed simp

lemma less_digits: "n < 10 ^ length (dec_string n)"
proof (induction n rule: dec_string.induct)
  case (1 n)
  show ?case
  proof (cases "n < 10")
    case True
    then show ?thesis by (subst dec_string.simps) simp
  next
    case False
    with 1 have "n div 10 < 10 ^ length (dec_string (n div 10))" by simp
    then have "n < 10 * 10 ^ length (dec_string (n div 10))" by linarith
    then show ?thesis using False by (subst dec_string.simps) simp
  qed
qed

lemma few_digits: "0 < k \<Longrightarrow> length (dec_string n) \<le> k \<longleftrightarrow> n < 10 ^ k"
  by (meson length_dec_string less_digits less_le_trans power_increasing one_le_numeral)

text \<open>
  The number behind a numeric option is taken modulo \<open>2 ^ 64\<close>: every decimal text of up to twenty digits is
  accepted, although twenty digits reach past the type, and a longer one is refused. So a number that is too
  large is silently replaced by a small one.
\<close>

theorem unsigned_option_wraps:
  "to_unsigned (dec_string n) what =
     (if n < 10 ^ 20 then Inr (of_nat n) else fail Code_Invalid (what @ '' is not an unsigned integer''))"
  using few_digits[of 20 n] unsigned_digits_value[OF dec_string_digits, of what n 0]
  by (auto simp: to_unsigned_def dec_value_dec_string)

end
