(* ===== verification/Frames.thy ===== *)
theory Frames
  imports Journal Files
begin

text \<open>
  The transport: \<open>transport/frame.cpp\<close>, the byte operations of \<open>transport/socket.cpp\<close> and
  \<open>read_frame\<close>, \<open>write_frame\<close> of \<open>control/server.cpp\<close>. A socket is what has not yet been received
  from its peer, in the pieces in which it arrives, and what was sent to it. The operating system
  decides how many bytes one call moves and when it fails.
\<close>

section \<open>Frames\<close>

definition frame_magic :: u32 where "frame_magic = 0x50444642"
definition frame_version :: u16 where "frame_version = 1"
definition frame_header_size :: nat where "frame_header_size = 28"
definition frame_max_payload :: nat where "frame_max_payload = 4 * 1024 * 1024"
definition frame_hard_max_payload :: nat where "frame_hard_max_payload = 32 * 1024 * 1024"

datatype frame_type =
    Frame_Hello | Frame_Request | Frame_Response | Frame_Error
  | Frame_Ping | Frame_Pong | Frame_Shutdown | Frame_Cancel

primrec frame_type_to_string :: "frame_type \<Rightarrow> string" where
  "frame_type_to_string Frame_Hello = ''hello''"
| "frame_type_to_string Frame_Request = ''request''"
| "frame_type_to_string Frame_Response = ''response''"
| "frame_type_to_string Frame_Error = ''error''"
| "frame_type_to_string Frame_Ping = ''ping''"
| "frame_type_to_string Frame_Pong = ''pong''"
| "frame_type_to_string Frame_Shutdown = ''shutdown''"
| "frame_type_to_string Frame_Cancel = ''cancel''"

primrec frame_type_number :: "frame_type \<Rightarrow> u16" where
  "frame_type_number Frame_Hello = 1"
| "frame_type_number Frame_Request = 2"
| "frame_type_number Frame_Response = 3"
| "frame_type_number Frame_Error = 4"
| "frame_type_number Frame_Ping = 5"
| "frame_type_number Frame_Pong = 6"
| "frame_type_number Frame_Shutdown = 7"
| "frame_type_number Frame_Cancel = 8"

definition frame_type_of :: "u16 \<Rightarrow> frame_type" where
  "frame_type_of t = [Frame_Hello, Frame_Request, Frame_Response, Frame_Error, Frame_Ping, Frame_Pong,
     Frame_Shutdown, Frame_Cancel] ! (unat t - 1)"

record frame_header =
  fh_version :: u16
  fh_type :: frame_type
  fh_flags :: u32
  fh_length :: u32
  fh_correlation :: u64
  fh_crc :: u32

record frame =
  fr_type :: frame_type
  fr_flags :: u32
  fr_correlation :: u64
  fr_payload :: "byte list"

definition frame_default :: frame where
  "frame_default = \<lparr>fr_type = Frame_Request, fr_flags = 0, fr_correlation = 0, fr_payload = []\<rparr>"

definition frame_head :: "frame \<Rightarrow> byte list" where
  "frame_head f =
     be32 frame_magic @ be16 frame_version @ be16 (frame_type_number (fr_type f)) @ be32 (fr_flags f) @
     be32 (of_nat (length (fr_payload f))) @ be64 (fr_correlation f)"

definition encode_frame :: "frame \<Rightarrow> byte list result" where
  "encode_frame f =
     try_then (reject_if (length (fr_payload f) > frame_hard_max_payload) Code_Exhausted
       ''frame payload exceeds the hard framing limit'')
     (let out = frame_head f;
          checksum = crc_update (fr_payload f) (crc_update out crc_init)
      in Inr (out @ be32 (crc_value checksum) @ fr_payload f))"

definition parse_frame_header :: "byte list \<Rightarrow> frame_header result" where
  "parse_frame_header bytes =
     try_then (reject_if (length bytes < frame_header_size) Code_Incomplete ''frame header is truncated'')
     (try_then (reject_if (read_u32 0 bytes \<noteq> frame_magic) Code_Invalid ''frame magic does not match'')
     (let version = read_u16 4 bytes in
      try_then (reject_if (version \<noteq> frame_version) Code_Unsupported ''frame revision is not supported'')
     (let type = read_u16 6 bytes in
      try_then (reject_if (type < 1 \<or> type > 8) Code_Invalid ''frame type is not recognised'')
     (let size = read_u32 12 bytes in
      try_then (reject_if (unat size > frame_hard_max_payload) Code_Exhausted
        ''frame declares a payload beyond the hard limit'')
      (Inr \<lparr>fh_version = version, fh_type = frame_type_of type, fh_flags = read_u32 8 bytes,
            fh_length = size, fh_correlation = read_u64 16 bytes, fh_crc = read_u32 24 bytes\<rparr>)))))"

definition verify_frame :: "byte list \<Rightarrow> frame_header \<Rightarrow> bool" where
  "verify_frame whole h =
     (if length whole \<noteq> frame_header_size + unat (fh_length h) then False
      else crc_value (crc_update (drop frame_header_size whole)
             (crc_update (take (frame_header_size - 4) whole) crc_init)) = fh_crc h)"

section \<open>Sockets\<close>

text \<open>A piece that arrives is never empty: receiving nothing means that the peer closed.\<close>

datatype arrival = Arrives byte "byte list" | Receive_Fails string

record socket =
  sk_valid :: bool
  sk_incoming :: "arrival list"
  sk_sends :: "nat list"
  sk_sent :: "byte list"

definition recv_some :: "nat \<Rightarrow> (byte list, socket) op" where
  "recv_some n s =
     (if \<not> sk_valid s then (fail Code_Invalid ''socket is not open'', s)
      else case sk_incoming s of
        [] \<Rightarrow> (Inr [], s)
      | Receive_Fails why # rest \<Rightarrow> (fail Code_Unavailable why, s\<lparr>sk_incoming := rest\<rparr>)
      | Arrives b bs # rest \<Rightarrow>
          (Inr (take n (b # bs)),
           s\<lparr>sk_incoming := (case drop n (b # bs) of [] \<Rightarrow> rest | c # cs \<Rightarrow> Arrives c cs # rest)\<rparr>))"

text \<open>\<open>sk_sends\<close> bounds the next calls of \<open>send\<close>: a call that sends nothing has failed.\<close>

function send_rest :: "byte list \<Rightarrow> (unit, socket) op" where
  "send_rest data s =
     (if data = [] then (success, s)
      else case sk_sends s of
        [] \<Rightarrow> (success, s\<lparr>sk_sent := sk_sent s @ data\<rparr>)
      | 0 # ks \<Rightarrow> (fail Code_Unavailable ''send failed'', s\<lparr>sk_sends := ks\<rparr>)
      | Suc k # ks \<Rightarrow> send_rest (drop (Suc k) data)
           (s\<lparr>sk_sends := ks, sk_sent := sk_sent s @ take (Suc k) data\<rparr>))"
  by pat_completeness auto
termination by (relation "measure (\<lambda>(data, s). length data)") auto

declare send_rest.simps [simp del]

definition send_all :: "byte list \<Rightarrow> (unit, socket) op" where
  "send_all data s =
     (if \<not> sk_valid s then (fail Code_Invalid ''socket is not open'', s) else send_rest data s)"

section \<open>Frames on a socket\<close>

text \<open>The two loops of \<open>read_frame\<close>: receive until the buffer is full.\<close>

function fill_buffer :: "nat \<Rightarrow> code \<Rightarrow> string \<Rightarrow> (byte list, socket) op" where
  "fill_buffer n k why s =
     (if n = 0 then (Inr [], s)
      else case recv_some n s of
        (Inl e, t) \<Rightarrow> (Inl e, t)
      | (Inr got, t) \<Rightarrow>
          if got = [] then (fail k why, t)
          else case fill_buffer (n - length got) k why t of
            (Inl e, u) \<Rightarrow> (Inl e, u)
          | (Inr rest, u) \<Rightarrow> (Inr (got @ rest), u))"
  by pat_completeness auto
termination by (relation "measure (\<lambda>(n, k, why, s). n)") auto

declare fill_buffer.simps [simp del]

definition frame_of_whole :: "byte list \<Rightarrow> frame_header \<Rightarrow> frame" where
  "frame_of_whole whole h =
     \<lparr>fr_type = fh_type h, fr_flags = fh_flags h, fr_correlation = fh_correlation h,
      fr_payload = drop frame_header_size whole\<rparr>"

definition read_frame :: "nat \<Rightarrow> (frame, socket) op" where
  "read_frame max_payload =
     op_bind (fill_buffer frame_header_size Code_Cancelled ''the peer closed the connection'') (\<lambda>head.
     op_bind (op_lift (parse_frame_header head)) (\<lambda>h.
     op_then (op_guard (unat (fh_length h) > max_payload) Code_Exhausted
       ''frame payload exceeds the connection limit'')
     (op_bind (fill_buffer (unat (fh_length h)) Code_Incomplete ''the peer closed inside a frame payload'') (\<lambda>body.
      let whole = head @ body in
      op_bind (op_lift (parse_frame_header whole)) (\<lambda>verified.
      op_then (op_guard (\<not> verify_frame whole verified) Code_Corrupt ''frame checksum mismatch'')
      (op_return (frame_of_whole whole verified)))))))"

definition write_frame :: "frame \<Rightarrow> (unit, socket) op" where
  "write_frame f = op_bind (op_lift (encode_frame f)) send_all"


section \<open>Reading is independent of the pieces\<close>

fun stream :: "arrival list \<Rightarrow> byte list" where
  "stream [] = []"
| "stream (Arrives b bs # rest) = b # bs @ stream rest"
| "stream (Receive_Fails why # rest) = stream rest"

fun intact :: "arrival list \<Rightarrow> bool" where
  "intact [] = True"
| "intact (Arrives b bs # rest) = intact rest"
| "intact (Receive_Fails why # rest) = False"

lemma intact_empty: "intact ins \<Longrightarrow> stream ins = [] \<longleftrightarrow> ins = []"
  by (cases ins rule: intact.cases) auto

lemma recv_some_stream:
  assumes "sk_valid s" "intact (sk_incoming s)" "stream (sk_incoming s) \<noteq> []" "0 < n"
  shows "\<exists>got ins. recv_some n s = (Inr got, s\<lparr>sk_incoming := ins\<rparr>) \<and> got \<noteq> [] \<and> length got \<le> n \<and> intact ins \<and>
    stream (sk_incoming s) = got @ stream ins"
proof -
  obtain b bs rest where i: "sk_incoming s = Arrives b bs # rest" "intact rest"
    using assms(2,3) by (cases "sk_incoming s" rule: intact.cases) auto
  have d: "(b # bs) = take n (b # bs) @ drop n (b # bs)" by (rule append_take_drop_id[symmetric])
  let ?ins = "case drop n (b # bs) of [] \<Rightarrow> rest | c # cs \<Rightarrow> Arrives c cs # rest"
  have "intact ?ins \<and> (b # bs) @ stream rest = take n (b # bs) @ stream ?ins"
    using d i(2) by (cases "drop n (b # bs)") auto
  moreover have "take n (b # bs) \<noteq> []" using assms(4) by (cases n) auto
  ultimately show ?thesis using assms(1) i(1) by (intro exI[of _ "take n (b # bs)"] exI[of _ ?ins]) (simp add: recv_some_def)
qed

lemma fill_stream:
  assumes "sk_valid s" "intact (sk_incoming s)" "n \<le> length (stream (sk_incoming s))"
  shows "\<exists>ins. fill_buffer n k why s = (Inr (take n (stream (sk_incoming s))), s\<lparr>sk_incoming := ins\<rparr>) \<and> intact ins \<and>
    stream ins = drop n (stream (sk_incoming s))"
  using assms
proof (induction n arbitrary: s rule: less_induct)
  case (less n)
  show ?case
  proof (cases "n = 0")
    case True
    have "s\<lparr>sk_incoming := sk_incoming s\<rparr> = s" by simp
    then show ?thesis using True less.prems by (subst fill_buffer.simps) (auto intro!: exI[of _ "sk_incoming s"])
  next
    case False
    then obtain got ins where g: "recv_some n s = (Inr got, s\<lparr>sk_incoming := ins\<rparr>)" "got \<noteq> []" "length got \<le> n"
      "intact ins" "stream (sk_incoming s) = got @ stream ins"
      using recv_some_stream[OF less.prems(1,2), of n] less.prems(3) by fastforce
    have "n - length got < n" using g(2) False by (simp add: length_greater_0_conv[symmetric] del: length_greater_0_conv)
    moreover have "n - length got \<le> length (stream ins)" using less.prems(3) g(5) by auto
    ultimately obtain ins' where "fill_buffer (n - length got) k why (s\<lparr>sk_incoming := ins\<rparr>) =
        (Inr (take (n - length got) (stream ins)), s\<lparr>sk_incoming := ins'\<rparr>)" "intact ins'"
      "stream ins' = drop (n - length got) (stream ins)"
      using less.IH[of "n - length got" "s\<lparr>sk_incoming := ins\<rparr>"] less.prems(1) g(4) by auto
    then show ?thesis using False g(1,2,3,5) by (subst fill_buffer.simps) auto
  qed
qed

lemma fill_short:
  assumes "sk_valid s" "intact (sk_incoming s)" "length (stream (sk_incoming s)) < n"
  shows "fill_buffer n k why s = (fail k why, s\<lparr>sk_incoming := []\<rparr>)"
  using assms
proof (induction n arbitrary: s rule: less_induct)
  case (less n)
  show ?case
  proof (cases "stream (sk_incoming s) = []")
    case True
    then have i: "sk_incoming s = []" using intact_empty less.prems(2) by blast
    moreover have "s\<lparr>sk_incoming := []\<rparr> = s" using i by (cases s) simp
    ultimately show ?thesis using less.prems(1,3) by (subst fill_buffer.simps) (auto simp: recv_some_def)
  next
    case False
    then obtain got ins where g: "recv_some n s = (Inr got, s\<lparr>sk_incoming := ins\<rparr>)" "got \<noteq> []" "length got \<le> n"
      "intact ins" "stream (sk_incoming s) = got @ stream ins"
      using recv_some_stream[OF less.prems(1,2) False, of n] less.prems(3) by fastforce
    have "n - length got < n" using g(2) less.prems(3) by (cases got) auto
    from less.IH[OF this, of "s\<lparr>sk_incoming := ins\<rparr>"] less.prems(1,3) g(3-5)
    have "fill_buffer (n - length got) k why (s\<lparr>sk_incoming := ins\<rparr>) = (fail k why, s\<lparr>sk_incoming := []\<rparr>)" by auto
    then show ?thesis using less.prems(3) g(1,2) by (subst fill_buffer.simps) auto
  qed
qed

text \<open>The reference: a frame at the start of a sequence of bytes.\<close>

definition take_frame :: "nat \<Rightarrow> byte list \<Rightarrow> frame result \<times> byte list" where
  "take_frame max_payload bytes =
     (if length bytes < 28 then (fail Code_Cancelled ''the peer closed the connection'', [])
      else case parse_frame_header (take 28 bytes) of
        Inl e \<Rightarrow> (Inl e, drop 28 bytes)
      | Inr h \<Rightarrow>
          let n = 28 + unat (fh_length h) in
          if unat (fh_length h) > max_payload
          then (fail Code_Exhausted ''frame payload exceeds the connection limit'', drop 28 bytes)
          else if length bytes < n
          then (fail Code_Incomplete ''the peer closed inside a frame payload'', [])
          else if \<not> verify_frame (take n bytes) h then (fail Code_Corrupt ''frame checksum mismatch'', drop n bytes)
          else (Inr (frame_of_whole (take n bytes) h), drop n bytes))"

lemma parse_header_prefix: "28 \<le> length bytes \<Longrightarrow> parse_frame_header bytes = parse_frame_header (take 28 bytes)"
  by (simp add: parse_frame_header_def frame_header_size_def read_u16_def read_u32_def read_u64_def subspan_def
      drop_take min_absorb1)

lemma parse_prefix_append: "length head = 28 \<Longrightarrow> parse_frame_header (head @ body) = parse_frame_header head"
  using parse_header_prefix[of "head @ body"] by simp

lemma read_frame_stream:
  assumes "sk_valid s" "intact (sk_incoming s)"
  shows "\<exists>ins. read_frame mp s = (fst (take_frame mp (stream (sk_incoming s))), s\<lparr>sk_incoming := ins\<rparr>) \<and> intact ins \<and>
    stream ins = snd (take_frame mp (stream (sk_incoming s)))"
proof -
  let ?b = "stream (sk_incoming s)"
  show ?thesis
  proof (cases "length ?b < 28")
    case True
    then have "take_frame mp ?b = (fail Code_Cancelled ''the peer closed the connection'', [])" by (simp add: take_frame_def)
    then show ?thesis using fill_short[OF assms, of 28] True
      by (auto simp: read_frame_def op_bind_def frame_header_size_def intro!: exI[of _ "[]"])
  next
    case False
    then obtain ins where i: "fill_buffer 28 Code_Cancelled ''the peer closed the connection'' s =
        (Inr (take 28 ?b), s\<lparr>sk_incoming := ins\<rparr>)" "intact ins" "stream ins = drop 28 ?b"
      using fill_stream[OF assms, of 28] by fastforce
    have l: "length (take 28 ?b) = 28" using False by simp
    show ?thesis
    proof (cases "parse_frame_header (take 28 ?b)")
      case (Inl e)
      then show ?thesis using i False by (auto simp: read_frame_def op_bind_def frame_header_size_def op_lift_def take_frame_def)
    next
      case (Inr h)
      let ?n = "unat (fh_length h)"
      let ?s = "s\<lparr>sk_incoming := ins\<rparr>"
      have v: "sk_valid ?s" "intact (sk_incoming ?s)" using assms(1) i(2) by simp_all
      show ?thesis
      proof (cases "mp < ?n")
        case True
        then show ?thesis using i False Inr
          by (auto simp: read_frame_def op_bind_def frame_header_size_def op_lift_def take_frame_def op_guard_def op_fail_def)
      next
        case ok: False
        show ?thesis
        proof (cases "length ?b < 28 + ?n")
          case True
          then have "fill_buffer ?n Code_Incomplete ''the peer closed inside a frame payload'' ?s =
              (fail Code_Incomplete ''the peer closed inside a frame payload'', s\<lparr>sk_incoming := []\<rparr>)"
            using fill_short[OF v, of ?n] i(3) False by auto
          then show ?thesis using i False Inr ok True
            by (auto simp: read_frame_def op_bind_def frame_header_size_def op_lift_def take_frame_def op_guard_def op_return_def
                intro!: exI[of _ "[]"])
        next
          case whole: False
          then obtain ins' where j: "fill_buffer ?n Code_Incomplete ''the peer closed inside a frame payload'' ?s =
              (Inr (take ?n (drop 28 ?b)), s\<lparr>sk_incoming := ins'\<rparr>)" "intact ins'" "stream ins' = drop ?n (drop 28 ?b)"
            using fill_stream[OF v, of ?n] i(3) by fastforce
          have t: "take 28 ?b @ take ?n (drop 28 ?b) = take (28 + ?n) ?b" by (simp add: take_add)
          have p: "parse_frame_header (take (28 + ?n) ?b) = Inr h"
            using parse_prefix_append[OF l, of "take ?n (drop 28 ?b)"] Inr by (simp add: t)
          have d: "stream ins' = drop (28 + ?n) ?b" using j(3) by (simp add: add.commute)
          show ?thesis
            using i(1) j(1,2) d False Inr ok whole p
            by (cases "verify_frame (take (28 + ?n) ?b) h")
              (auto simp: read_frame_def op_bind_def frame_header_size_def op_lift_def take_frame_def op_guard_def
                op_return_def op_fail_def t Let_def)
        qed
      qed
    qed
  qed
qed

section \<open>One frame\<close>

definition wire_frame :: "frame \<Rightarrow> byte list" where
  "wire_frame f = frame_head f @ be32 (crc32c (frame_head f @ fr_payload f)) @ fr_payload f"

definition sendable :: "frame \<Rightarrow> bool" where
  "sendable f \<longleftrightarrow> length (fr_payload f) \<le> frame_hard_max_payload"

lemma encode_frame_wire: "encode_frame f = Inr bs \<longleftrightarrow> sendable f \<and> bs = wire_frame f"
  by (auto simp: encode_frame_def result_simps sendable_def wire_frame_def Let_def crc32c_def)

lemma length_frame_head [simp]: "length (frame_head f) = 24"
  by (simp add: frame_head_def)

lemma length_wire_frame [simp]: "length (wire_frame f) = 28 + length (fr_payload f)"
  by (simp add: wire_frame_def)

lemma frame_type_roundtrip [simp]: "frame_type_of (frame_type_number t) = t"
  by (cases t) (simp_all add: frame_type_of_def)

lemma frame_type_range: "\<not> frame_type_number t < 1" "\<not> frame_type_number t > 8"
  by (cases t; simp add: word_less_nat_alt)+

lemma unat_frame_length: "sendable f \<Longrightarrow> unat (of_nat (length (fr_payload f)) :: u32) = length (fr_payload f)"
  by (rule unat_length) (simp add: sendable_def frame_hard_max_payload_def)

definition header_of :: "frame \<Rightarrow> frame_header" where
  "header_of f = \<lparr>fh_version = frame_version, fh_type = fr_type f, fh_flags = fr_flags f,
     fh_length = of_nat (length (fr_payload f)), fh_correlation = fr_correlation f,
     fh_crc = crc32c (frame_head f @ fr_payload f)\<rparr>"

lemma parse_wire_frame:
  assumes "sendable f"
  shows "parse_frame_header (take 28 (wire_frame f)) = Inr (header_of f)"
proof -
  let ?b = "take 28 (wire_frame f)"
  have b: "?b = be32 frame_magic @ be16 frame_version @ be16 (frame_type_number (fr_type f)) @ be32 (fr_flags f) @
      be32 (of_nat (length (fr_payload f))) @ be64 (fr_correlation f) @ be32 (crc32c (frame_head f @ fr_payload f))"
    by (simp add: wire_frame_def frame_head_def)
  have "read_u32 0 ?b = frame_magic" "read_u16 4 ?b = frame_version" "read_u16 6 ?b = frame_type_number (fr_type f)"
    "read_u32 8 ?b = fr_flags f" "read_u32 12 ?b = of_nat (length (fr_payload f))" "read_u64 16 ?b = fr_correlation f"
    "read_u32 24 ?b = crc32c (frame_head f @ fr_payload f)" "length ?b = 28"
    unfolding b by (simp_all add: read_u64_def read_u16_def read_u32_def subspan_def from_be_inverse)
  moreover have "(frame_hard_max_payload < length (fr_payload f)) = False"
    using assms by (simp add: sendable_def not_less)
  ultimately show ?thesis
    using frame_type_range[of "fr_type f"] unat_frame_length[OF assms]
    by (simp add: parse_frame_header_def Let_def header_of_def frame_header_size_def)
qed

lemma take_wire_frame:
  assumes "sendable f" "length (fr_payload f) \<le> mp"
  shows "take_frame mp (wire_frame f @ rest) = (Inr f, rest)"
proof -
  have "verify_frame (wire_frame f) (header_of f)"
    using unat_frame_length[OF assms(1)]
    by (simp add: verify_frame_def header_of_def wire_frame_def frame_header_size_def crc32c_def crc_update_def)
  moreover have "frame_of_whole (wire_frame f) (header_of f) = f"
    by (simp add: frame_of_whole_def header_of_def wire_frame_def frame_header_size_def)
  moreover have "unat (fh_length (header_of f)) = length (fr_payload f)"
    using unat_frame_length[OF assms(1)] by (simp add: header_of_def)
  ultimately show ?thesis
    using parse_wire_frame[OF assms(1)] assms(2)
    by (simp add: take_frame_def Let_def)
qed

section \<open>Writing\<close>

lemma send_rest_sends:
  assumes "0 \<notin> set (sk_sends s)"
  shows "\<exists>ks. send_rest data s = (success, s\<lparr>sk_sends := ks, sk_sent := sk_sent s @ data\<rparr>) \<and> 0 \<notin> set ks"
  using assms
proof (induction data s rule: send_rest.induct)
  case (1 data s)
  show ?case
  proof (cases "data = []")
    case True
    have "s\<lparr>sk_sends := sk_sends s, sk_sent := sk_sent s\<rparr> = s" by (cases s) simp
    with True 1(2) show ?thesis by (subst send_rest.simps) (auto intro!: exI[of _ "sk_sends s"])
  next
    case False
    show ?thesis
    proof (cases "sk_sends s")
      case Nil
      have "s\<lparr>sk_sends := []\<rparr> = s" using Nil by (cases s) simp
      with False Nil show ?thesis by (subst send_rest.simps) (auto intro!: exI[of _ "[]"])
    next
      case (Cons k ks)
      then obtain j where j: "k = Suc j" using 1(2) by (cases k) auto
      from 1(1)[OF False Cons j] 1(2) Cons
      obtain ls where "send_rest (drop (Suc j) data) (s\<lparr>sk_sends := ks, sk_sent := sk_sent s @ take (Suc j) data\<rparr>) =
          (success, s\<lparr>sk_sends := ls, sk_sent := sk_sent s @ data\<rparr>)" "0 \<notin> set ls" by auto
      with False Cons j show ?thesis by (subst send_rest.simps) auto
    qed
  qed
qed

lemma write_frame_sends:
  assumes "sendable f" "sk_valid s" "0 \<notin> set (sk_sends s)"
  shows "\<exists>ks. write_frame f s = (success, s\<lparr>sk_sends := ks, sk_sent := sk_sent s @ wire_frame f\<rparr>) \<and> 0 \<notin> set ks"
proof -
  have "encode_frame f = Inr (wire_frame f)" using assms(1) encode_frame_wire by blast
  then show ?thesis using send_rest_sends[OF assms(3), of "wire_frame f"] assms(2)
    by (simp add: write_frame_def op_lift_def op_bind_def send_all_def)
qed

section \<open>What the transport guarantees\<close>

fun write_frames :: "frame list \<Rightarrow> (unit, socket) op" where
  "write_frames [] = op_return ()"
| "write_frames (f # fs) = op_then (write_frame f) (write_frames fs)"

fun read_frames :: "nat \<Rightarrow> nat \<Rightarrow> (frame list, socket) op" where
  "read_frames mp 0 = op_return []"
| "read_frames mp (Suc n) = op_bind (read_frame mp) (\<lambda>f. op_bind (read_frames mp n) (\<lambda>fs. op_return (f # fs)))"

lemma write_frames_sends:
  assumes "list_all sendable fs" "sk_valid s" "0 \<notin> set (sk_sends s)"
  shows "\<exists>ks. write_frames fs s = (success, s\<lparr>sk_sends := ks, sk_sent := sk_sent s @ concat (map wire_frame fs)\<rparr>)"
  using assms
proof (induction fs arbitrary: s)
  case Nil
  have "s\<lparr>sk_sends := sk_sends s, sk_sent := sk_sent s\<rparr> = s" by (cases s) simp
  then show ?case by (auto simp: op_return_def intro!: exI[of _ "sk_sends s"])
next
  case (Cons f fs)
  then obtain ks where k: "write_frame f s = (success, s\<lparr>sk_sends := ks, sk_sent := sk_sent s @ wire_frame f\<rparr>)" "0 \<notin> set ks"
    using write_frame_sends[of f s] by auto
  from Cons.IH[of "s\<lparr>sk_sends := ks, sk_sent := sk_sent s @ wire_frame f\<rparr>"] Cons.prems k
  show ?case by (auto simp: op_bind_def)
qed

lemma read_frames_stream:
  assumes "list_all sendable fs" "list_all (\<lambda>f. length (fr_payload f) \<le> mp) fs" "sk_valid s" "intact (sk_incoming s)"
    "stream (sk_incoming s) = concat (map wire_frame fs) @ rest"
  shows "\<exists>ins. read_frames mp (length fs) s = (Inr fs, s\<lparr>sk_incoming := ins\<rparr>) \<and> intact ins \<and> stream ins = rest"
  using assms
proof (induction fs arbitrary: s)
  case Nil
  have "s\<lparr>sk_incoming := sk_incoming s\<rparr> = s" by (cases s) simp
  then show ?case using Nil by (auto simp: op_return_def intro!: exI[of _ "sk_incoming s"])
next
  case (Cons f fs)
  have t: "take_frame mp (stream (sk_incoming s)) = (Inr f, concat (map wire_frame fs) @ rest)"
    using take_wire_frame[of f mp] Cons.prems by simp
  obtain ins where i: "read_frame mp s = (Inr f, s\<lparr>sk_incoming := ins\<rparr>)" "intact ins"
    "stream ins = concat (map wire_frame fs) @ rest"
    using read_frame_stream[OF Cons.prems(3,4), of mp] unfolding t by auto
  from Cons.IH[of "s\<lparr>sk_incoming := ins\<rparr>"] Cons.prems i
  show ?case by (auto simp: op_bind_def op_return_def)
qed

text \<open>
  C28: frames arrive as they were sent. Write any sequence of frames to a socket whose operating
  system splits every send as it likes, and deliver the bytes to a reader in pieces of any size:
  the reader gets exactly the frames, in order, and after the last one it learns that the peer
  closed. No frame is lost, split, merged or altered by the fragmentation.
\<close>

theorem frames_cross_wire:
  assumes "list_all sendable fs" "list_all (\<lambda>f. length (fr_payload f) \<le> mp) fs"
    "sk_valid a" "0 \<notin> set (sk_sends a)" "sk_sent a = []" "write_frames fs a = (r, a')"
    "sk_valid b" "intact (sk_incoming b)" "stream (sk_incoming b) = sk_sent a'"
    "read_frames mp (length fs) b = (q, b')"
  shows "r = success \<and> q = Inr fs \<and> fst (read_frame mp b') = fail Code_Cancelled ''the peer closed the connection''"
proof -
  have w: "r = success" "sk_sent a' = concat (map wire_frame fs)"
    using write_frames_sends[OF assms(1,3,4)] assms(5,6) by auto
  have "stream (sk_incoming b) = concat (map wire_frame fs) @ []" using assms(9) w(2) by simp
  from read_frames_stream[OF assms(1,2,7,8) this] assms(10)
  obtain ins where q: "q = Inr fs" "b' = b\<lparr>sk_incoming := ins\<rparr>" "intact ins" "stream ins = []" by auto
  have "sk_valid b'" "intact (sk_incoming b')" using assms(7) q by simp_all
  from read_frame_stream[OF this, of mp] q w(1) show ?thesis by (auto simp: take_frame_def)
qed

definition sample_socket :: socket where
  "sample_socket = \<lparr>sk_valid = True, sk_incoming = [], sk_sends = [], sk_sent = []\<rparr>"

definition sample_frames :: "frame list" where
  "sample_frames = [frame_default\<lparr>fr_type := Frame_Ping, fr_correlation := 1\<rparr>,
     frame_default\<lparr>fr_correlation := 2, fr_payload := [7, 8, 9]\<rparr>]"

text \<open>The sender moves three bytes and then the rest; the reader gets single bytes.\<close>

theorem frames_cross_wire_witness:
  "let a = sample_socket\<lparr>sk_sends := [3]\<rparr>; (r, a') = write_frames sample_frames a;
       b = sample_socket\<lparr>sk_incoming := map (\<lambda>x. Arrives x []) (sk_sent a')\<rparr>
   in r = success \<and> fst (read_frames 16 2 b) = Inr sample_frames"
proof -
  have s: "intact (map (\<lambda>x. Arrives x []) bs)" "stream (map (\<lambda>x. Arrives x []) bs) = bs" for bs
    by (induction bs) simp_all
  let ?a = "sample_socket\<lparr>sk_sends := [3]\<rparr>"
  obtain r a' where w: "write_frames sample_frames ?a = (r, a')" by force
  let ?b = "sample_socket\<lparr>sk_incoming := map (\<lambda>x. Arrives x []) (sk_sent a')\<rparr>"
  obtain q b' where q: "read_frames 16 (length sample_frames) ?b = (q, b')" by force
  have "list_all sendable sample_frames" "list_all (\<lambda>f. length (fr_payload f) \<le> 16) sample_frames"
    by (simp_all add: sample_frames_def frame_default_def sendable_def frame_hard_max_payload_def)
  from frames_cross_wire[OF this _ _ _ w _ _ _ q] w q show ?thesis
    by (simp add: sample_socket_def s Let_def) (simp add: sample_frames_def numeral_2_eq_2)
qed

definition frame_window :: "nat \<Rightarrow> nat \<Rightarrow> bool" where
  "frame_window at n \<longleftrightarrow> at + n \<le> 12 \<or> (16 \<le> at \<and> at + n \<le> 24) \<or> (24 \<le> at \<and> at + n \<le> 28) \<or> 28 \<le> at"

lemma parse_header_fields:
  assumes "parse_frame_header (take 28 g) = Inr h"
  shows "fh_length h = from_be (take 4 (drop 12 g))" "fh_crc h = from_be (stored_crc 24 g)"
  using assms
  by (auto simp: parse_frame_header_def result_simps Let_def read_u32_def subspan_def stored_crc_def drop_take min_absorb1)

text \<open>
  C29: a damaged frame is never accepted. Overwrite at most four neighbouring bytes of a frame on its
  way, all of them in the twelve bytes of magic, version, type and flags, all in the correlation, all
  in the checksum or all in the payload (not in the length, and not across one of these borders),
  and let anything follow: the reader reports an error and returns no frame, however the bytes are split.
  (Damage to the length field makes the reader wait for another number of bytes instead.)
\<close>

theorem damaged_frame_rejected:
  assumes "sendable f" "encode_frame f = Inr (pre @ as @ post)" "length bs = length as" "length as \<le> 4" "as \<noteq> bs"
    "frame_window (length pre) (length as)" "sk_valid s" "intact (sk_incoming s)"
    "stream (sk_incoming s) = pre @ bs @ post @ rest"
  shows "isl (fst (read_frame mp s))"
proof -
  let ?g = "pre @ bs @ post"
  have f: "wire_frame f = pre @ as @ post" using assms(2) encode_frame_wire by auto
  have lf: "length ?g = 28 + length (fr_payload f)" using arg_cong[OF f, of length] assms(3) by simp
  have len: "24 + 4 \<le> length (pre @ as @ post)" using arg_cong[OF f, of length] by simp
  have ok: "crc32c (covered 24 (pre @ as @ post)) = from_be (stored_crc 24 (pre @ as @ post))"
    unfolding f[symmetric] by (simp add: covered_def stored_crc_def wire_frame_def from_be_inverse)
  have bad: "crc32c (covered 24 ?g) \<noteq> from_be (stored_crc 24 ?g)"
    using framed_damage[OF assms(3-5) len _ ok] assms(6) by (auto simp: frame_window_def)
  have "take 4 (drop 12 ?g) = take 4 (drop 12 (wire_frame f))"
    using assms(3,6) unfolding f frame_window_def by auto
  then have n: "take 4 (drop 12 ?g) = be32 (of_nat (length (fr_payload f)))"
    by (simp add: wire_frame_def frame_head_def)
  have "isl (fst (take_frame mp (?g @ rest)))"
  proof (cases "parse_frame_header (take 28 ?g)")
    case (Inl e)
    then show ?thesis using lf by (simp add: take_frame_def)
  next
    case (Inr h)
    have h: "unat (fh_length h) = length (fr_payload f)" "fh_crc h = from_be (stored_crc 24 ?g)"
      using unat_frame_length[OF assms(1)]
      unfolding parse_header_fields[OF Inr] n by (simp_all add: from_be_inverse)
    have "\<not> verify_frame ?g h"
      using bad lf h by (simp add: verify_frame_def covered_def frame_header_size_def crc32c_def crc_update_def)
    then show ?thesis using Inr lf h(1) by (simp add: take_frame_def Let_def)
  qed
  then show ?thesis using read_frame_stream[OF assms(7,8), of mp] assms(9) by auto
qed

theorem damaged_frame_rejected_witness:
  "let f = sample_frames ! 1; bs = wire_frame f; damaged = take 29 bs @ [0] @ drop 30 bs
   in isl (fst (read_frame 16 (sample_socket\<lparr>sk_incoming := [Arrives (hd damaged) (tl damaged)]\<rparr>)))"
proof -
  let ?f = "sample_frames ! 1"
  let ?b = "wire_frame ?f"
  have f: "sendable ?f" "encode_frame ?f = Inr ?b" "drop 29 ?b = 8 # drop 30 ?b" "length ?b = 31"
    by (simp_all add: encode_frame_wire sample_frames_def frame_default_def sendable_def frame_hard_max_payload_def
        wire_frame_def)
  have e: "encode_frame ?f = Inr (take 29 ?b @ [8] @ drop 30 ?b)"
    using f(2,3) append_take_drop_id[of 29 ?b] by simp
  let ?d = "take 29 ?b @ [0] @ drop 30 ?b"
  let ?s = "sample_socket\<lparr>sk_incoming := [Arrives (hd ?d) (tl ?d)]\<rparr>"
  have "?d \<noteq> []" by simp
  then have "stream (sk_incoming ?s) = take 29 ?b @ [0] @ drop 30 ?b @ []" by simp
  from damaged_frame_rejected[OF f(1) e _ _ _ _ _ _ this, of 16] f(4) show ?thesis
    by (simp add: Let_def frame_window_def sample_socket_def)
qed

lemma recv_some_takes:
  assumes "recv_some n s = (r, t)"
  shows "sk_sent t = sk_sent s \<and> sk_valid t = sk_valid s \<and>
    length (stream (sk_incoming s)) = (case r of Inl e \<Rightarrow> 0 | Inr got \<Rightarrow> length got) + length (stream (sk_incoming t)) \<and>
    (case r of Inl e \<Rightarrow> True | Inr got \<Rightarrow> length got \<le> n)"
proof (cases "sk_valid s \<and> (\<exists>b bs rest. sk_incoming s = Arrives b bs # rest)")
  case True
  then obtain b bs rest where i: "sk_valid s" "sk_incoming s = Arrives b bs # rest" by blast
  let ?ins = "case drop n (b # bs) of [] \<Rightarrow> rest | c # cs \<Rightarrow> Arrives c cs # rest"
  have "length (stream ?ins) = length (drop n (b # bs)) + length (stream rest)"
    by (cases "drop n (b # bs)") (simp_all del: length_drop)
  moreover have "r = Inr (take n (b # bs))" "t = s\<lparr>sk_incoming := ?ins\<rparr>"
    using assms i by (simp_all add: recv_some_def)
  ultimately show ?thesis using i by simp
next
  case False
  then show ?thesis using assms
    by (cases "sk_incoming s" rule: stream.cases) (auto simp: recv_some_def split: if_splits)
qed

lemma fill_takes:
  "fill_buffer n k why s = (r, t) \<Longrightarrow> sk_sent t = sk_sent s \<and> sk_valid t = sk_valid s \<and>
     length (stream (sk_incoming s)) \<le> n + length (stream (sk_incoming t))"
proof (induction n k why s arbitrary: r t rule: fill_buffer.induct)
  case (1 n k why s)
  obtain q u where q: "recv_some n s = (q, u)" by force
  note takes = recv_some_takes[OF q]
  show ?case
  proof (cases "n = 0 \<or> isl q \<or> q = Inr []")
    case True
    then show ?thesis using 1(2) q takes
      by (subst (asm) fill_buffer.simps) (auto split: if_splits sum.splits)
  next
    case False
    then obtain got where g: "q = Inr got" "got \<noteq> []" "n \<noteq> 0" by (cases q) auto
    obtain q' t' where t': "fill_buffer (n - length got) k why u = (q', t')" by force
    have "t = t'" using 1(2) g q t' unfolding fill_buffer.simps[of n k why s] by (auto split: sum.splits)
    with 1(1)[OF g(3) q[symmetric] g(1,2) t'] g takes show ?thesis by auto
  qed
qed

text \<open>
  C40: reading is bounded. Whatever a peer sends, and however the calls fail, reading one frame
  takes at most 28 bytes and the payload limit from the socket, sends nothing, and returns.
\<close>

theorem read_frame_bounded:
  "case read_frame mp s of (r, t) \<Rightarrow>
     length (stream (sk_incoming s)) \<le> 28 + mp + length (stream (sk_incoming t)) \<and> sk_sent t = sk_sent s"
proof -
  obtain q u where q: "fill_buffer 28 Code_Cancelled ''the peer closed the connection'' s = (q, u)" by force
  note takes = fill_takes[OF q]
  show ?thesis
  proof (cases "isl q \<or> (\<exists>e. parse_frame_header (projr q) = Inl e) \<or>
      (\<exists>h. parse_frame_header (projr q) = Inr h \<and> mp < unat (fh_length h))")
    case True
    then show ?thesis using q takes
      by (cases q) (auto simp: read_frame_def op_bind_def frame_header_size_def op_lift_def op_guard_def op_fail_def)
  next
    case False
    then obtain head h where h: "q = Inr head" "parse_frame_header head = Inr h" "unat (fh_length h) \<le> mp"
      by (cases q; cases "parse_frame_header (projr q)") (auto simp: not_less)
    obtain p v where p: "fill_buffer (unat (fh_length h)) Code_Incomplete ''the peer closed inside a frame payload'' u = (p, v)"
      by force
    have "snd (read_frame mp s) = v"
      using q h p by (cases p) (auto simp: read_frame_def op_bind_def frame_header_size_def op_lift_def op_guard_def
          op_fail_def op_return_def Let_def split: sum.split)
    then show ?thesis using fill_takes[OF p] takes h(3) by (cases "read_frame mp s") auto
  qed
qed

end
