(* ===== verification/Protocol.thy ===== *)
theory Protocol
  imports Frames Controller
begin

text \<open>
  The control protocol: \<open>control/protocol.hpp\<close>, \<open>control/protocol.cpp\<close>. A request and a response
  are documents over the byte writer and reader. A request is an encodable document but not a canonical
  one: the reader accepts a snapshot with every kind of request, the writer emits it only with an
  apply.
\<close>

section \<open>Messages\<close>

definition protocol_version :: u16 where "protocol_version = 1"

datatype message_kind =
    Msg_Hello | Msg_Status | Msg_Describe | Msg_Apply | Msg_Mint | Msg_Revoke | Msg_CheckAuthority
  | Msg_SetAdmin | Msg_Retire | Msg_Shutdown | Msg_Ping | Msg_Erase

definition message_kinds :: "message_kind list" where
  "message_kinds = [Msg_Hello, Msg_Status, Msg_Describe, Msg_Apply, Msg_Mint, Msg_Revoke, Msg_CheckAuthority,
     Msg_SetAdmin, Msg_Retire, Msg_Shutdown, Msg_Ping, Msg_Erase]"

primrec message_kind_to_string :: "message_kind \<Rightarrow> string" where
  "message_kind_to_string Msg_Hello = ''hello''"
| "message_kind_to_string Msg_Status = ''status''"
| "message_kind_to_string Msg_Describe = ''describe''"
| "message_kind_to_string Msg_Apply = ''apply''"
| "message_kind_to_string Msg_Mint = ''mint''"
| "message_kind_to_string Msg_Revoke = ''revoke''"
| "message_kind_to_string Msg_CheckAuthority = ''check-authority''"
| "message_kind_to_string Msg_SetAdmin = ''set-admin''"
| "message_kind_to_string Msg_Retire = ''retire''"
| "message_kind_to_string Msg_Shutdown = ''shutdown''"
| "message_kind_to_string Msg_Ping = ''ping''"
| "message_kind_to_string Msg_Erase = ''erase''"

primrec message_kind_number :: "message_kind \<Rightarrow> u16" where
  "message_kind_number Msg_Hello = 1"
| "message_kind_number Msg_Status = 2"
| "message_kind_number Msg_Describe = 3"
| "message_kind_number Msg_Apply = 4"
| "message_kind_number Msg_Mint = 5"
| "message_kind_number Msg_Revoke = 6"
| "message_kind_number Msg_CheckAuthority = 7"
| "message_kind_number Msg_SetAdmin = 8"
| "message_kind_number Msg_Retire = 9"
| "message_kind_number Msg_Shutdown = 10"
| "message_kind_number Msg_Ping = 11"
| "message_kind_number Msg_Erase = 12"

definition message_kind_of :: "u16 \<Rightarrow> message_kind" where
  "message_kind_of n = message_kinds ! (unat n - 1)"

definition snapshot_default :: pod_snapshot where
  "snapshot_default = \<lparr>sn_pod = [], sn_schema = [], sn_members = [], sn_links = [], sn_routes = [],
     sn_domains = [], sn_obligations = [], sn_provenance = provenance_default, sn_observed_at = 0\<rparr>"

definition token_default :: authority_token where
  "token_default = \<lparr>at_lease = [], at_pod = [], at_epoch = 0, at_incarnation = uuid_nil, at_scope = Scope_Pod,
     at_subject = [], at_issued_at = 0, at_expires_at = 0, at_fencing = 0, at_payload_digest = digest_zero\<rparr>"

record request =
  pr_kind :: message_kind
  pr_snapshot :: pod_snapshot
  pr_rack :: ident
  pr_admin :: admin_state
  pr_clear_admin :: bool
  pr_scope :: authority_scope
  pr_lifetime :: nanos
  pr_token :: authority_token
  pr_lease :: ident
  pr_nonce :: u64

definition request_default :: request where
  "request_default = \<lparr>pr_kind = Msg_Status, pr_snapshot = snapshot_default, pr_rack = [], pr_admin = Admin_Enabled,
     pr_clear_admin = False, pr_scope = Scope_Pod, pr_lifetime = 0, pr_token = token_default, pr_lease = [],
     pr_nonce = 0\<rparr>"

record response =
  an_code :: code
  an_message :: string
  an_epoch :: sequence
  an_incarnation :: incarnation
  an_lifecycle :: lifecycle_state
  an_state_digest :: digest
  an_outcome :: apply_outcome
  an_revalidation_sound :: bool
  an_revalidation :: string
  an_text :: string
  an_text_truncated :: bool
  an_recovery :: recovery_outcome
  an_ambiguous_commit :: bool
  an_established :: u32
  an_fenced :: u32
  an_stale :: u32
  an_conflicting :: u32
  an_token :: authority_token
  an_verdict :: authority_verdict_code
  an_verdict_detail :: string
  an_nonce :: u64

definition response_default :: response where
  "response_default = \<lparr>an_code = Code_Ok, an_message = [], an_epoch = 0, an_incarnation = uuid_nil,
     an_lifecycle = Life_Constructing, an_state_digest = digest_zero, an_outcome = Apply_Unchanged,
     an_revalidation_sound = True, an_revalidation = [], an_text = [], an_text_truncated = False,
     an_recovery = Recovery_Fresh, an_ambiguous_commit = False, an_established = 0, an_fenced = 0, an_stale = 0,
     an_conflicting = 0, an_token = token_default, an_verdict = Verdict_NoToken, an_verdict_detail = [],
     an_nonce = 0\<rparr>"

section \<open>Requests\<close>

definition put_kind :: "message_kind \<Rightarrow> (unit, byte_writer) op" where
  "put_kind k = put_u16 (message_kind_number k)"

definition get_kind :: "(message_kind, byte_reader) op" where
  "get_kind =
     op_bind get_u16 (\<lambda>kind.
     op_then (op_guard (kind < 1 \<or> kind > 12) Code_Invalid ''request kind is not recognised'')
     (op_return (message_kind_of kind)))"

definition put_attachment :: "message_kind \<Rightarrow> pod_snapshot \<Rightarrow> (unit, byte_writer) op" where
  "put_attachment k s =
     op_then (put_bool (k = Msg_Apply)) (if k = Msg_Apply then put_snapshot s else op_return ())"

definition get_attachment :: "(pod_snapshot, byte_reader) op" where
  "get_attachment = op_bind get_bool (\<lambda>has. if has then get_snapshot else op_return snapshot_default)"

text \<open>An enumerator in one byte, with the message of the decoder.\<close>

definition get_ranked :: "'e list \<Rightarrow> byte \<Rightarrow> string \<Rightarrow> ('e, byte_reader) op" where
  "get_ranked es m why =
     op_bind get_u8 (\<lambda>raw. op_then (op_guard (raw > m) Code_Invalid why) (op_return (es ! unat raw)))"

definition put_request_body :: "request \<Rightarrow> (unit, byte_writer) op" where
  "put_request_body q =
     op_then (put_kind (pr_kind q))
     (op_then (put_u64 (pr_nonce q))
     (op_then (put_typed_id (pr_rack q))
     (op_then (put_enum admin_states (pr_admin q))
     (op_then (put_bool (pr_clear_admin q))
     (op_then (put_enum authority_scopes (pr_scope q))
     (op_then (put_i64 (pr_lifetime q))
     (op_then (put_token (pr_token q))
     (op_then (put_typed_id (pr_lease q))
     (put_attachment (pr_kind q) (pr_snapshot q))))))))))"

definition get_request_body :: "(request, byte_reader) op" where
  "get_request_body =
     op_bind get_kind (\<lambda>kind.
     op_bind get_u64 (\<lambda>nonce.
     op_bind (get_typed_id ''request.rack'') (\<lambda>rack.
     op_bind (get_ranked admin_states 3 ''request admin mode is out of range'') (\<lambda>admin.
     op_bind get_bool (\<lambda>clear_admin.
     op_bind (get_ranked authority_scopes 4 ''request authority scope is out of range'') (\<lambda>scope.
     op_bind get_i64 (\<lambda>lifetime.
     op_bind get_token (\<lambda>token.
     op_bind (get_typed_id ''request.lease'') (\<lambda>lease.
     op_bind get_attachment (\<lambda>snapshot.
     op_return \<lparr>pr_kind = kind, pr_snapshot = snapshot, pr_rack = rack, pr_admin = admin,
       pr_clear_admin = clear_admin, pr_scope = scope, pr_lifetime = lifetime, pr_token = token,
       pr_lease = lease, pr_nonce = nonce\<rparr>))))))))))"

text \<open>A document that starts with the protocol revision.\<close>

definition put_versioned :: "('a \<Rightarrow> (unit, byte_writer) op) \<Rightarrow> 'a \<Rightarrow> (unit, byte_writer) op" where
  "put_versioned put x = op_then (put_u16 protocol_version) (put x)"

definition get_versioned :: "('a, byte_reader) op \<Rightarrow> ('a, byte_reader) op" where
  "get_versioned get =
     op_bind get_u16 (\<lambda>version.
     op_then (op_guard (version \<noteq> protocol_version) Code_Unsupported ''protocol revision is not supported'') get)"

definition encode_request :: "request \<Rightarrow> byte list result" where
  "encode_request = encode_whole (put_versioned put_request_body)"

definition decode_request :: "byte list \<Rightarrow> request result" where
  "decode_request = decode_whole (get_versioned get_request_body)"

section \<open>Responses\<close>

definition codes_list :: "code list" where
  "codes_list = [Code_Ok, Code_Unknown, Code_Unsupported, Code_Stale, Code_Conflicting, Code_Incomplete,
     Code_Indeterminate, Code_Refused, Code_Cancelled, Code_Invalid, Code_NotFound, Code_AlreadyExists,
     Code_Exhausted, Code_Corrupt, Code_Unavailable, Code_Internal]"

definition apply_outcomes :: "apply_outcome list" where
  "apply_outcomes = [Apply_Unchanged, Apply_Applied, Apply_EpochAdvanced, Apply_Recovered, Apply_Retired]"

definition recovery_outcomes :: "recovery_outcome list" where
  "recovery_outcomes = [Recovery_Fresh, Recovery_Clean, Recovery_TornTailRepaired, Recovery_CorruptTailRepaired,
     Recovery_AmbiguousCommitRolledBack, Recovery_UnsupportedVersion, Recovery_Corrupt, Recovery_Refused]"

definition verdict_codes :: "authority_verdict_code list" where
  "verdict_codes = [Verdict_Valid, Verdict_NoToken, Verdict_Malformed, Verdict_WrongPod, Verdict_WrongScope,
     Verdict_StaleEpoch, Verdict_StaleIncarnation, Verdict_Expired, Verdict_NotYetValid, Verdict_Revoked,
     Verdict_ClockAnomaly]"

definition put_response_body :: "response \<Rightarrow> (unit, byte_writer) op" where
  "put_response_body r =
     op_then (put_enum codes_list (an_code r))
     (op_then (put_string (an_message r))
     (op_then (put_u64 (an_epoch r))
     (op_then (put_uuid (an_incarnation r))
     (op_then (put_enum lifecycle_states (an_lifecycle r))
     (op_then (put_digest (an_state_digest r))
     (op_then (put_enum apply_outcomes (an_outcome r))
     (op_then (put_bool (an_revalidation_sound r))
     (op_then (put_string (an_revalidation r))
     (op_then (put_text (an_text r))
     (op_then (put_bool (an_text_truncated r))
     (op_then (put_enum recovery_outcomes (an_recovery r))
     (op_then (put_bool (an_ambiguous_commit r))
     (op_then (put_u32 (an_established r))
     (op_then (put_u32 (an_fenced r))
     (op_then (put_u32 (an_stale r))
     (op_then (put_u32 (an_conflicting r))
     (op_then (put_token (an_token r))
     (op_then (put_enum verdict_codes (an_verdict r))
     (op_then (put_string (an_verdict_detail r))
     (put_u64 (an_nonce r)))))))))))))))))))))"

definition get_response_body :: "(response, byte_reader) op" where
  "get_response_body =
     op_bind (get_ranked codes_list 15 ''response code is out of range'') (\<lambda>code.
     op_bind get_string (\<lambda>message.
     op_bind get_u64 (\<lambda>epoch.
     op_bind get_uuid (\<lambda>incarnation.
     op_bind (get_ranked lifecycle_states 7 ''response lifecycle is out of range'') (\<lambda>lifecycle.
     op_bind get_digest (\<lambda>state_digest.
     op_bind (get_ranked apply_outcomes 4 ''response outcome is out of range'') (\<lambda>outcome.
     op_bind get_bool (\<lambda>revalidation_sound.
     op_bind get_string (\<lambda>revalidation.
     op_bind get_text (\<lambda>text.
     op_bind get_bool (\<lambda>text_truncated.
     op_bind (get_ranked recovery_outcomes 7 ''response recovery outcome is out of range'') (\<lambda>recovery.
     op_bind get_bool (\<lambda>ambiguous_commit.
     op_bind get_u32 (\<lambda>established.
     op_bind get_u32 (\<lambda>fenced.
     op_bind get_u32 (\<lambda>stale.
     op_bind get_u32 (\<lambda>conflicting.
     op_bind get_token (\<lambda>token.
     op_bind (get_ranked verdict_codes 10 ''response authority verdict is out of range'') (\<lambda>verdict.
     op_bind get_string (\<lambda>verdict_detail.
     op_bind get_u64 (\<lambda>nonce.
     op_return \<lparr>an_code = code, an_message = message, an_epoch = epoch, an_incarnation = incarnation,
       an_lifecycle = lifecycle, an_state_digest = state_digest, an_outcome = outcome,
       an_revalidation_sound = revalidation_sound, an_revalidation = revalidation, an_text = text,
       an_text_truncated = text_truncated, an_recovery = recovery, an_ambiguous_commit = ambiguous_commit,
       an_established = established, an_fenced = fenced, an_stale = stale, an_conflicting = conflicting,
       an_token = token, an_verdict = verdict, an_verdict_detail = verdict_detail,
       an_nonce = nonce\<rparr>)))))))))))))))))))))"

definition encode_response :: "response \<Rightarrow> byte list result" where
  "encode_response = encode_whole (put_versioned put_response_body)"

definition decode_response :: "byte list \<Rightarrow> response result" where
  "decode_response = decode_whole (get_versioned get_response_body)"

text \<open>The text, cut to the bound and marked when it was cut, and the mark.\<close>

definition truncation_mark :: string where
  "truncation_mark = newline @ ''truncated true'' @ newline @ ''end'' @ newline"

definition bounded_text :: "string \<Rightarrow> nat \<Rightarrow> string \<times> bool" where
  "bounded_text t max_bytes =
     (if length t \<le> max_bytes then (t, False) else (take max_bytes t @ truncation_mark, True))"


section \<open>The laws of the fields\<close>

definition request_ok :: "request \<Rightarrow> bool" where
  "request_ok q \<longleftrightarrow>
     id_ok (pr_rack q) \<and> time_ok (pr_lifetime q) \<and> token_ok (pr_token q) \<and> id_ok (pr_lease q) \<and>
     (if pr_kind q = Msg_Apply then snapshot_body_ok (pr_snapshot q) else pr_snapshot q = snapshot_default)"

definition response_ok :: "response \<Rightarrow> bool" where
  "response_ok r \<longleftrightarrow>
     text_ok (an_message r) \<and> uuid_ok (an_incarnation r) \<and> digest_ok (an_state_digest r) \<and>
     text_ok (an_revalidation r) \<and> long_text_ok (an_text r) \<and> token_ok (an_token r) \<and>
     text_ok (an_verdict_detail r)"

lemma message_kind_roundtrip [simp]: "message_kind_of (message_kind_number k) = k"
  by (cases k) (simp_all add: message_kind_of_def message_kinds_def)

lemma message_kind_range: "\<not> message_kind_number k < 1" "\<not> message_kind_number k > 12"
  by (cases k; simp add: word_less_nat_alt)+

lemma codes_kind: "codes (put_kind k) get_kind k 2"
proof -
  have "\<not> (message_kind_number k < 1 \<or> message_kind_number k > 12)" using message_kind_range by blast
  from codes_filter[where f = message_kind_of and c = "\<lambda>x. x < 1 \<or> x > 12", OF codes_u16 this] show ?thesis
    by (simp add: put_kind_def get_kind_def)
qed

lemma codes_attachment:
  assumes "if k = Msg_Apply then snapshot_body_ok s else s = snapshot_default"
  shows "codes (put_attachment k s) get_attachment s 1"
proof (cases "k = Msg_Apply")
  case True
  have "codes (put_snapshot s) (if True then get_snapshot else op_return snapshot_default) s 4"
    using codes_snapshot assms True by simp
  from codes_then[where h = "\<lambda>has. if has then get_snapshot else op_return snapshot_default", OF codes_bool this]
  show ?thesis using True by (simp add: put_attachment_def get_attachment_def codes_weaken)
next
  case False
  have "codes (op_return ()) (if False then get_snapshot else op_return snapshot_default) snapshot_default 0"
    by (auto simp: codes_def intro: emits_return reads_return)
  from codes_then[where h = "\<lambda>has. if has then get_snapshot else op_return snapshot_default", OF codes_bool this]
  show ?thesis using False assms by (simp add: put_attachment_def get_attachment_def)
qed

lemma codes_ranked_field: "v \<in> set es \<Longrightarrow> length es = Suc (unat m) \<Longrightarrow> codes (put_enum es v) (get_ranked es m why) v 1"
  unfolding get_ranked_def by (rule codes_ranked)

lemma sound_ranked_field: "distinct es \<Longrightarrow> length es = Suc (unat m) \<Longrightarrow>
    sound (get_ranked es m why) (\<lambda>_. True) (put_enum es)"
  unfolding get_ranked_def by (rule sound_ranked)

lemma protocol_enums:
  "c \<in> set codes_list" "length codes_list = Suc (unat (15 :: byte))" "distinct codes_list"
  "o' \<in> set apply_outcomes" "length apply_outcomes = Suc (unat (4 :: byte))" "distinct apply_outcomes"
  "q \<in> set recovery_outcomes" "length recovery_outcomes = Suc (unat (7 :: byte))" "distinct recovery_outcomes"
  "v \<in> set verdict_codes" "length verdict_codes = Suc (unat (10 :: byte))" "distinct verdict_codes"
  subgoal by (cases c) (simp_all add: codes_list_def)
  subgoal by (simp add: codes_list_def)
  subgoal by (simp add: codes_list_def)
  subgoal by (cases o') (simp_all add: apply_outcomes_def)
  subgoal by (simp add: apply_outcomes_def)
  subgoal by (simp add: apply_outcomes_def)
  subgoal by (cases q) (simp_all add: recovery_outcomes_def)
  subgoal by (simp add: recovery_outcomes_def)
  subgoal by (simp add: recovery_outcomes_def)
  subgoal by (cases v) (simp_all add: verdict_codes_def)
  subgoal by (simp add: verdict_codes_def)
  subgoal by (simp add: verdict_codes_def)
  done

lemmas codes_protocol_enums = codes_ranked_field[OF wire_enums(2) enum_lengths(2)]
  codes_ranked_field[OF wire_enums(8) enum_lengths(8)] codes_ranked_field[OF wire_enums(9) enum_lengths(9)]
  codes_ranked_field[OF protocol_enums(1,2)] codes_ranked_field[OF protocol_enums(4,5)]
  codes_ranked_field[OF protocol_enums(7,8)] codes_ranked_field[OF protocol_enums(10,11)]

lemmas sound_protocol_enums = sound_ranked_field[OF enum_distinct(9) enum_lengths(9)]
  sound_ranked_field[OF protocol_enums(3,2)] sound_ranked_field[OF protocol_enums(6,5)]
  sound_ranked_field[OF protocol_enums(9,8)] sound_ranked_field[OF protocol_enums(12,11)]

lemma codes_request_body: "request_ok q \<Longrightarrow> codes (put_request_body q) get_request_body q 2"
  by (cases q, simp only: put_request_body_def get_request_body_def request_ok_def request.simps, (elim conjE)?)
    (rule codes_weaken, (rule wire_fields codes_protocol_enums codes_kind codes_token codes_attachment codes_last codes_then,
      assumption?)+, simp)

lemma codes_response_body: "response_ok r \<Longrightarrow> codes (put_response_body r) get_response_body r 2"
  by (cases r, simp only: put_response_body_def get_response_body_def response_ok_def response.simps, (elim conjE)?)
    (rule codes_weaken, (rule wire_fields codes_text codes_protocol_enums codes_token codes_last codes_then, assumption?)+, simp)

lemma sound_response_body: "sound get_response_body response_ok put_response_body"
  unfolding get_response_body_def
  by (rule soundI, (rule traces_end traces_step sound_fields sound_text sound_token sound_protocol_enums)+)
    (clarsimp simp: put_response_body_def response_ok_def)

lemma codes_versioned:
  assumes "codes (put x) get x n"
  shows "codes (put_versioned put x) (get_versioned get) x n"
proof -
  let ?h = "\<lambda>version. op_then (op_guard (version \<noteq> protocol_version) Code_Unsupported
    ''protocol revision is not supported'') get"
  have "codes (put x) (?h protocol_version) x n" using assms by simp
  from codes_then[where h = ?h, OF codes_u16 this] show ?thesis
    by (simp add: put_versioned_def get_versioned_def codes_weaken)
qed

lemma sound_versioned:
  assumes "sound get V put"
  shows "sound (get_versioned get) V (put_versioned put)"
proof -
  have "traces get (\<lambda>y p. V y \<and> p = put y)" using assms by (fastforce simp: traces_def sound_def)
  then show ?thesis unfolding get_versioned_def
    by (rule soundI[OF traces_step[OF sound_u16 traces_check]]) (auto simp: put_versioned_def)
qed

interpretation request_codec: encodable "put_versioned put_request_body" "get_versioned get_request_body" request_ok 2
  by unfold_locales (rule codes_versioned[OF codes_request_body])

interpretation response_codec: codec "put_versioned put_response_body" "get_versioned get_response_body" response_ok 2
  by unfold_locales (rule codes_versioned[OF codes_response_body], assumption, rule sound_versioned[OF sound_response_body])

section \<open>A response fits\<close>

text \<open>Writing at most \<open>n\<close> bytes, as long as there is room.\<close>

definition writes :: "nat \<Rightarrow> (unit, byte_writer) op \<Rightarrow> bool" where
  "writes n p \<longleftrightarrow> (\<exists>bs. emits p bs \<and> length bs \<le> n)"

lemma writes_then: "writes m p \<Longrightarrow> writes n q \<Longrightarrow> writes (m + n) (op_then p q)"
  unfolding writes_def using emits_then by (metis add_mono length_append)

lemma writes_bytes: "writes (length bs) (put_bytes bs)"
  using emits_bytes by (auto simp: writes_def)

lemma writes_numbers: "writes 1 (put_u8 a)" "writes 2 (put_u16 b)" "writes 4 (put_u32 c)" "writes 8 (put_u64 d)"
  "writes 8 (put_i64 i)" "writes 1 (put_bool x)" "writes 1 (put_enum es e)"
  using writes_bytes[of "[a]"] writes_bytes[of "be16 b"] writes_bytes[of "be32 c"] writes_bytes[of "be64 d"]
    writes_bytes[of "be64 (word_of_int i)"] writes_bytes[of "[if x then 1 else 0]"] writes_bytes[of "[enum_byte es e]"]
  by (simp_all add: put_u8_def put_u16_def put_u32_def put_u64_def put_i64_def put_bool_def put_enum_def be_bytes_eq)

lemma writes_raw: "uuid_ok u \<Longrightarrow> writes 16 (put_uuid u)" "digest_ok d \<Longrightarrow> writes 32 (put_digest d)"
  using writes_bytes[of u] writes_bytes[of d]
  by (simp_all add: put_uuid_def put_digest_def put_raw_def uuid_ok_def digest_ok_def)

lemma writes_sized: "writes (4 + length t) (op_then (put_u32 n) (put_raw (bytes_of_string t)))"
  using emits_sized[of n "bytes_of_string t"] by (auto simp: writes_def be_bytes_eq)

lemma writes_weaken: "writes m p \<Longrightarrow> m \<le> n \<Longrightarrow> writes n p"
  unfolding writes_def by (meson le_trans)

lemma writes_texts: "text_ok t \<Longrightarrow> writes (4 + 4096) (put_string t)"
  "long_text_ok u \<Longrightarrow> writes (4 + 1024 * 1024) (put_text u)" "id_ok i \<Longrightarrow> writes (4 + 4096) (put_typed_id i)"
proof -
  show s: "writes (4 + 4096) (put_string t)" if "text_ok t" for t
    using that writes_weaken[OF writes_sized[of t]]
    by (simp add: put_string_def text_ok_def default_limits_def)
  show "writes (4 + 1024 * 1024) (put_text u)" if "long_text_ok u"
    using that writes_weaken[OF writes_sized[of u]]
    by (simp add: put_text_def long_text_ok_def default_limits_def)
  assume "id_ok i"
  then have "text_ok i"
    using canonical_text_ok[of i] by (auto simp: id_ok_def text_ok_def is_valid_utf8_def bytes_of_string_def)
  from s[OF this] show "writes (4 + 4096) (put_typed_id i)" by (simp add: put_typed_id_def put_id_def)
qed

lemmas writes_fields = writes_numbers writes_raw writes_texts

lemma writes_token:
  assumes "token_ok t"
  shows "writes 12500 (put_token t)"
proof (rule writes_weaken)
  have "id_ok (at_lease t)" "id_ok (at_pod t)" "uuid_ok (at_incarnation t)" "id_ok (at_subject t)" "digest_ok (at_payload_digest t)"
    using assms by (simp_all add: token_ok_def)
  then show "writes (4 + 4096 + (4 + 4096 + (8 + (16 + (1 + (4 + 4096 + (8 + (8 + (8 + 32))))))))) (put_token t)"
    unfolding put_token_def by (intro writes_then writes_fields)
qed simp

lemma writes_response:
  assumes "response_ok r"
  shows "writes (1024 * 1024 + 30000) (put_versioned put_response_body r)"
proof (rule writes_weaken)
  have "text_ok (an_message r)" "uuid_ok (an_incarnation r)" "digest_ok (an_state_digest r)" "text_ok (an_revalidation r)"
    "long_text_ok (an_text r)" "token_ok (an_token r)" "text_ok (an_verdict_detail r)"
    using assms by (simp_all add: response_ok_def)
  then show "writes (2 + (1 + ((4 + 4096) + (8 + (16 + (1 + (32 + (1 + (1 + ((4 + 4096) + ((4 + 1024 * 1024) + (1 + (1 + (1 + (4 +
      (4 + (4 + (4 + (12500 + (1 + ((4 + 4096) + (8))))))))))))))))))))))
      (put_versioned put_response_body r)"
    unfolding put_versioned_def put_response_body_def by (intro writes_then writes_fields writes_token)
qed simp

lemma writes_request:
  assumes "request_ok q" "pr_kind q \<noteq> Msg_Apply"
  shows "writes 25000 (put_versioned put_request_body q)"
proof (rule writes_weaken)
  have n: "put_attachment (pr_kind q) (pr_snapshot q) = op_then (put_bool False) (op_return ())"
    using assms(2) by (simp add: put_attachment_def)
  have "writes 0 (op_return ())" using emits_return by (force simp: writes_def)
  moreover have "id_ok (pr_rack q)" "token_ok (pr_token q)" "id_ok (pr_lease q)"
    using assms(1) by (simp_all add: request_ok_def)
  ultimately show "writes (2 + (2 + (8 + (4 + 4096 + (1 + (1 + (1 + (8 + (12500 + (4 + 4096 + (1 + 0)))))))))))
      (put_versioned put_request_body q)"
    unfolding put_versioned_def put_request_body_def put_kind_def n by (intro writes_then writes_fields writes_token)
qed simp

text \<open>A fresh writer has room for a message.\<close>

lemma written_whole:
  assumes "writes n (p x)" "n \<le> 16 * 1024 * 1024"
  shows "\<exists>bs. encode_whole p x = Inr bs \<and> length bs \<le> n"
proof -
  obtain bs where "emits (p x) bs" "length bs \<le> n" using assms(1) by (auto simp: writes_def)
  then show ?thesis
    using assms(2) unfolding encode_whole_def emits_def
    by (auto simp: writer_new_def writer_ok_def default_limits_def dest!: spec[of _ "writer_new (16 * 1024 * 1024)"])
qed

lemma response_fits:
  assumes "response_ok r"
  shows "\<exists>bs. encode_response r = Inr bs \<and> length bs \<le> 1024 * 1024 + 30000 \<and> decode_response bs = Inr r"
  using written_whole[of _ "put_versioned put_response_body" r, OF writes_response[OF assms]] response_codec.whole(1)[OF assms]
  by (auto simp: encode_response_def decode_response_def)

lemma request_fits:
  assumes "request_ok q" "pr_kind q \<noteq> Msg_Apply"
  shows "\<exists>bs. encode_request q = Inr bs \<and> length bs \<le> 25000 \<and> decode_request bs = Inr q"
  using written_whole[of _ "put_versioned put_request_body" q, OF writes_request[OF assms]] request_codec.whole(1)[OF assms(1)]
  by (auto simp: encode_request_def decode_request_def)

section \<open>What the protocol guarantees\<close>

text \<open>
  C19: no message is lost in translation. A response whose fields are representable always encodes, in
  little more than a mebibyte, and so does, in 25000 bytes, a request that carries no snapshot; both
  decode to exactly the message that was encoded. A request with a snapshot does so too, unless the
  encoder reports that it exceeds 16 mebibytes.
\<close>

theorem messages_roundtrip:
  assumes "request_ok q" "response_ok r"
  shows "(case encode_request q of Inl e \<Rightarrow> e = Fail Code_Exhausted overflow_message \<and> pr_kind q = Msg_Apply
      | Inr bs \<Rightarrow> length bs \<le> (if pr_kind q = Msg_Apply then 16 * 1024 * 1024 else 25000) \<and> decode_request bs = Inr q) \<and>
    (\<exists>bs. encode_response r = Inr bs \<and> length bs \<le> 1024 * 1024 + 30000 \<and> decode_response bs = Inr r)"
proof (cases "pr_kind q = Msg_Apply")
  case True
  then show ?thesis
    using request_codec.whole[OF assms(1)] response_fits[OF assms(2)]
    by (auto simp: encode_request_def decode_request_def default_limits_def split: sum.split)
next
  case False
  then show ?thesis using request_fits[OF assms(1) False] response_fits[OF assms(2)] by auto
qed

definition sample_call :: request where
  "sample_call = request_default\<lparr>pr_kind := Msg_SetAdmin, pr_rack := ''b'', pr_admin := Admin_Maintenance,
     pr_nonce := 7\<rparr>"

definition sample_reply :: response where
  "sample_reply = response_default\<lparr>an_message := ''ok'', an_text := ''state'', an_nonce := 7\<rparr>"

lemma sample_texts: "is_valid_utf8 [] \<and> is_valid_utf8 ''b'' \<and> is_valid_utf8 ''ok'' \<and> is_valid_utf8 ''state''"
  by code_simp

lemma sample_id: "id_ok ''b''"
  unfolding id_ok_def by code_simp

lemma token_default_ok: "token_ok token_default"
  by (simp add: token_ok_def token_default_def id_ok_def uuid_ok_def uuid_nil_def digest_ok_def digest_zero_def time_ok_def)

lemma sample_call_ok: "request_ok sample_call"
  using sample_id token_default_ok
  by (simp add: request_ok_def sample_call_def request_default_def time_ok_def id_ok_def)

lemma sample_reply_ok: "response_ok sample_reply"
  using sample_texts token_default_ok
  by (simp add: response_ok_def sample_reply_def response_default_def text_ok_def long_text_ok_def default_limits_def
      uuid_ok_def uuid_nil_def digest_ok_def digest_zero_def)

theorem messages_roundtrip_witness:
  "(\<exists>bs. encode_request sample_call = Inr bs \<and> decode_request bs = Inr sample_call) \<and>
   (\<exists>bs. encode_response sample_reply = Inr bs \<and> decode_response bs = Inr sample_reply)"
  using messages_roundtrip[OF sample_call_ok sample_reply_ok]
  by (auto simp: sample_call_def request_default_def split: sum.splits)

text \<open>
  A response a client accepts is canonical: bytes that decode to a response are exactly the
  bytes the server's encoder produces for it, so no two byte strings denote the same response.
\<close>

theorem decoded_response_canonical:
  assumes "decode_response bs = Inr r" "length bs \<le> 16 * 1024 * 1024"
  shows "response_ok r \<and> encode_response r = Inr bs"
  using response_codec.whole_canonical[of bs r] assms
  by (simp add: decode_response_def encode_response_def default_limits_def)

theorem decoded_response_canonical_witness:
  "\<exists>bs. decode_response bs = Inr sample_reply \<and> encode_response sample_reply = Inr bs"
proof -
  obtain bs where bs: "decode_response bs = Inr sample_reply" "length bs \<le> 16 * 1024 * 1024"
    using response_fits[OF sample_reply_ok] by auto
  from decoded_response_canonical[OF this] this(1) show ?thesis by blast
qed

end
