(* ===== verification/Server.thy ===== *)
theory Server
  imports Protocol Commands
begin

text \<open>
  The server and the client: \<open>control/server.hpp\<close>, \<open>control/server.cpp\<close> (\<open>handle\<close> and \<open>serve\<close>) and
  \<open>control/client.cpp\<close> (\<open>call\<close>). One connection is served by one worker; the flag that stops
  the server may also be set by other threads, so what they did to it before each reading is a
  list. The threads themselves are in \<open>Pool\<close>.
\<close>

section \<open>Answering a request\<close>

record server_options =
  vo_workers :: nat
  vo_max_pending_connections :: nat
  vo_max_text_bytes :: nat

definition fault_code :: "fault \<Rightarrow> code" where
  "fault_code e = (case e of Fail k m \<Rightarrow> k | Undefined m \<Rightarrow> Code_Internal)"

definition error_response :: "code \<Rightarrow> string \<Rightarrow> response" where
  "error_response k m = response_default\<lparr>an_code := k, an_message := m\<rparr>"

definition refused :: "fault \<Rightarrow> response \<Rightarrow> response" where
  "refused e r = r\<lparr>an_code := fault_code e, an_message := status_message e\<rparr>"

text \<open>The text of the state, bounded.\<close>

definition with_text :: "server_options \<Rightarrow> controller \<Rightarrow> response \<Rightarrow> response" where
  "with_text opt c r =
     (case bounded_text (describe c) (vo_max_text_bytes opt) of
        (t, trimmed) \<Rightarrow> r\<lparr>an_text := t, an_text_truncated := trimmed\<rparr>)"

definition with_members :: "pod_authority \<Rightarrow> response \<Rightarrow> response" where
  "with_members a r =
     r\<lparr>an_established := pa_established_members a, an_fenced := pa_fenced_members a,
       an_stale := pa_stale_members a, an_conflicting := pa_conflicting_members a\<rparr>"

text \<open>The start of every answer: the state as it is before the request.\<close>

definition response_now :: "server_options \<Rightarrow> controller \<Rightarrow> response" where
  "response_now opt c =
     with_text opt c (with_members (ps_authority (ct_state c))
       (response_default\<lparr>an_epoch := ps_epoch (ct_state c), an_incarnation := ps_incarnation (ct_state c),
          an_lifecycle := ps_lifecycle (ct_state c), an_state_digest := ps_state_digest (ct_state c),
          an_recovery := rr_outcome (ct_recovery c), an_ambiguous_commit := ct_ambiguous_commit c\<rparr>))"

definition applied_response :: "server_options \<Rightarrow> apply_report \<Rightarrow> controller \<Rightarrow> response \<Rightarrow> response" where
  "applied_response opt rep c r =
     with_text opt c (with_members (ps_authority (ap_state rep))
       (r\<lparr>an_code := Code_Ok, an_message := apply_outcome_to_string (ap_outcome rep), an_outcome := ap_outcome rep,
          an_epoch := ps_epoch (ap_state rep), an_lifecycle := ps_lifecycle (ap_state rep),
          an_state_digest := ps_state_digest (ap_state rep), an_revalidation := ap_detail rep,
          an_revalidation_sound := report_sound (ap_revalidation rep)\<rparr>))"

definition handle_apply ::
  "environment \<Rightarrow> server_options \<Rightarrow> request \<Rightarrow> controller \<Rightarrow> response \<times> controller" where
  "handle_apply env opt q c =
     (case apply_evidence env (pr_snapshot q) c of
        (Inl e, d) \<Rightarrow> (refused e (response_now opt c), d)
      | (Inr rep, d) \<Rightarrow> (applied_response opt rep d (response_now opt c), d))"

definition handle_mint ::
  "environment \<Rightarrow> server_options \<Rightarrow> request \<Rightarrow> controller \<Rightarrow> response \<times> controller" where
  "handle_mint env opt q c =
     (case mint_authority env (pr_scope q) (pr_rack q) (pr_lifetime q) c of
        (Inl e, d) \<Rightarrow> (refused e (response_now opt c), d)
      | (Inr t, d) \<Rightarrow> ((response_now opt c)\<lparr>an_code := Code_Ok, an_message := ''granted'', an_token := t,
          an_epoch := at_epoch t\<rparr>, d))"

definition handle_revoke ::
  "environment \<Rightarrow> server_options \<Rightarrow> request \<Rightarrow> controller \<Rightarrow> response \<times> controller" where
  "handle_revoke env opt q c =
     (case revoke_authority env (pr_lease q) c of
        (Inl e, d) \<Rightarrow> (refused e (response_now opt c), d)
      | (Inr _, d) \<Rightarrow> ((response_now opt c)\<lparr>an_code := Code_Ok, an_message := ''revoked''\<rparr>, d))"

definition handle_check ::
  "environment \<Rightarrow> server_options \<Rightarrow> request \<Rightarrow> controller \<Rightarrow> response \<times> controller" where
  "handle_check env opt q c =
     (case check_authority env (pr_token q) (pr_scope q) (pr_rack q) c of
        (Inl e, d) \<Rightarrow> (refused e (response_now opt c), d)
      | (Inr v, d) \<Rightarrow> ((response_now opt c)\<lparr>an_code := av_status v, an_message := av_detail v,
          an_verdict := av_code v, an_verdict_detail := av_detail v\<rparr>, d))"

definition handle_admin ::
  "environment \<Rightarrow> server_options \<Rightarrow> request \<Rightarrow> controller \<Rightarrow> response \<times> controller" where
  "handle_admin env opt q c =
     (case (if pr_clear_admin q then clear_admin_state env (pr_rack q)
            else set_admin_state env (pr_rack q) (pr_admin q)) c of
        (Inl e, d) \<Rightarrow> (refused e (response_now opt c), d)
      | (Inr _, d) \<Rightarrow> (with_text opt d ((response_now opt c)\<lparr>an_code := Code_Ok, an_message := ''ok'',
          an_epoch := ps_epoch (ct_state d), an_lifecycle := ps_lifecycle (ct_state d),
          an_state_digest := ps_state_digest (ct_state d)\<rparr>), d))"

definition handle_retire ::
  "environment \<Rightarrow> server_options \<Rightarrow> request \<Rightarrow> controller \<Rightarrow> response \<times> controller" where
  "handle_retire env opt q c =
     (case retire env c of
        (Inl e, d) \<Rightarrow> ((refused e (response_now opt c))\<lparr>an_lifecycle := ct_lifecycle d\<rparr>, d)
      | (Inr _, d) \<Rightarrow> ((response_now opt c)\<lparr>an_code := Code_Ok, an_message := ''retired'',
          an_lifecycle := ct_lifecycle d\<rparr>, d))"

definition handle :: "environment \<Rightarrow> server_options \<Rightarrow> request \<Rightarrow> controller \<Rightarrow> response \<times> controller" where
  "handle env opt q c =
     (case pr_kind q of
        Msg_Apply \<Rightarrow> handle_apply env opt q c
      | Msg_Mint \<Rightarrow> handle_mint env opt q c
      | Msg_Revoke \<Rightarrow> handle_revoke env opt q c
      | Msg_CheckAuthority \<Rightarrow> handle_check env opt q c
      | Msg_SetAdmin \<Rightarrow> handle_admin env opt q c
      | Msg_Retire \<Rightarrow> handle_retire env opt q c
      | Msg_Erase \<Rightarrow> ((response_now opt c)\<lparr>an_code := Code_Unsupported,
          an_message := ''the store is not erasable over the protocol''\<rparr>, c)
      | Msg_Shutdown \<Rightarrow> ((response_now opt c)\<lparr>an_code := Code_Ok, an_message := ''stopping''\<rparr>, c)
      | k \<Rightarrow> ((response_now opt c)\<lparr>an_code := Code_Ok, an_message := message_kind_to_string k\<rparr>, c))"

section \<open>Serving a connection\<close>

record server =
  sv_options :: server_options
  sv_controller :: controller
  sv_stopping :: bool
  sv_others :: "bool list"
  sv_connections :: u64
  sv_requests :: u64
  sv_errors :: u64

text \<open>A reading of \<open>stopping_\<close>, after what other threads did to it.\<close>

definition read_stopping :: "server \<Rightarrow> bool \<times> server" where
  "read_stopping v =
     (let now = sv_stopping v \<or> (sv_others v \<noteq> [] \<and> hd (sv_others v))
      in (now, v\<lparr>sv_stopping := now, sv_others := tl (sv_others v)\<rparr>))"

definition protocol_error :: "server \<Rightarrow> server" where
  "protocol_error v = v\<lparr>sv_errors := sv_errors v + 1\<rparr>"

definition error_frame :: "string \<Rightarrow> frame" where
  "error_frame text = frame_default\<lparr>fr_type := Frame_Error, fr_payload := bytes_of_string text\<rparr>"

definition pong_frame :: "frame \<Rightarrow> frame" where
  "pong_frame f = frame_default\<lparr>fr_type := Frame_Pong, fr_correlation := fr_correlation f\<rparr>"

definition response_frame :: "frame \<Rightarrow> byte list \<Rightarrow> frame" where
  "response_frame f body = frame_default\<lparr>fr_type := Frame_Response, fr_correlation := fr_correlation f,
     fr_payload := body\<rparr>"

text \<open>The faults that are answered with an error frame.\<close>

definition protocol_fault :: "fault \<Rightarrow> bool" where
  "protocol_fault e \<longleftrightarrow> fault_code e \<in> {Code_Corrupt, Code_Exhausted, Code_Invalid, Code_Unsupported}"

definition refuse_frame :: "fault \<Rightarrow> server \<Rightarrow> socket \<Rightarrow> bool \<times> server \<times> socket" where
  "refuse_frame e v s =
     (if protocol_fault e
      then (False, protocol_error v, snd (write_frame (error_frame (status_to_string e)) s))
      else (False, v, s))"

text \<open>Answering a request frame: the answer, and what is left of server and socket.\<close>

definition answer ::
  "environment \<Rightarrow> frame \<Rightarrow> server \<Rightarrow> socket \<Rightarrow> bool \<times> server \<times> socket" where
  "answer env f v s =
     (case decode_request (fr_payload f) of
        Inl e \<Rightarrow>
          (case encode_response (error_response (fault_code e) (status_message e)) of
             Inl _ \<Rightarrow> (False, protocol_error v, s)
           | Inr body \<Rightarrow> (case write_frame (response_frame f body) s of (r, t) \<Rightarrow>
               (\<not> isl r, protocol_error v, t)))
      | Inr q \<Rightarrow>
          (case handle env (sv_options v) q (sv_controller v) of (r, d) \<Rightarrow>
           let w = v\<lparr>sv_controller := d\<rparr> in
           case encode_response (r\<lparr>an_nonce := pr_nonce q\<rparr>) of
             Inl _ \<Rightarrow> (False, w, s)
           | Inr body \<Rightarrow> (case write_frame (response_frame f body) s of (sent, t) \<Rightarrow>
               if isl sent then (False, w, t)
               else if pr_kind q = Msg_Shutdown then (False, w\<lparr>sv_stopping := True\<rparr>, t)
               else (True, w, t))))"

text \<open>One turn of the loop; the first component says whether it goes on.\<close>

definition serve_one :: "environment \<Rightarrow> server \<Rightarrow> socket \<Rightarrow> bool \<times> server \<times> socket" where
  "serve_one env v s =
     (case read_stopping v of (stopped, w) \<Rightarrow>
      if stopped then (False, w, s)
      else case read_frame frame_max_payload s of
        (Inl e, t) \<Rightarrow> refuse_frame e w t
      | (Inr f, t) \<Rightarrow>
          let u = w\<lparr>sv_requests := sv_requests w + 1\<rparr> in
          if fr_type f = Frame_Ping
          then (case write_frame (pong_frame f) t of (r, t2) \<Rightarrow> (\<not> isl r, u, t2))
          else if fr_type f \<noteq> Frame_Request then (False, protocol_error u, t)
          else answer env f u t)"


lemma fill_exact:
  "fill_buffer n k why s = (Inr got, t) \<Longrightarrow> length got = n \<and>
     length (stream (sk_incoming s)) = n + length (stream (sk_incoming t))"
proof (induction n k why s arbitrary: got t rule: fill_buffer.induct)
  case (1 n k why s)
  show ?case
  proof (cases "n = 0")
    case True
    then show ?thesis using 1(2) unfolding fill_buffer.simps[of n k why s] by simp
  next
    case False
    then obtain a u b where g: "recv_some n s = (Inr a, u)" "a \<noteq> []" "fill_buffer (n - length a) k why u = (Inr b, t)" "got = a @ b"
      using 1(2) unfolding fill_buffer.simps[of n k why s] by (auto split: prod.splits sum.splits if_splits)
    from 1(1)[OF False g(1)[symmetric] refl g(2,3)] recv_some_takes[OF g(1)] g(4) show ?thesis by auto
  qed
qed

lemma read_frame_takes:
  assumes "read_frame mp s = (Inr f, t)"
  shows "length (stream (sk_incoming t)) < length (stream (sk_incoming s))"
proof -
  obtain head u where h: "fill_buffer 28 Code_Cancelled ''the peer closed the connection'' s = (Inr head, u)"
    using assms unfolding read_frame_def frame_header_size_def op_bind_Inr by blast
  then obtain h where p: "parse_frame_header head = Inr h"
    using assms by (cases "parse_frame_header head")
      (simp_all add: read_frame_def op_bind_def op_lift_def frame_header_size_def)
  obtain body where "fill_buffer (unat (fh_length h)) Code_Incomplete ''the peer closed inside a frame payload'' u = (Inr body, t)"
    using assms h p
    by (cases "fill_buffer (unat (fh_length h)) Code_Incomplete ''the peer closed inside a frame payload'' u")
      (auto simp: read_frame_def op_bind_def op_guard_def op_fail_def op_return_def op_lift_def frame_header_size_def Let_def
        split: sum.splits if_splits)
  from fill_exact[OF h] fill_exact[OF this] show ?thesis by simp
qed

lemma send_rest_incoming: "sk_incoming (snd (send_rest data s)) = sk_incoming s"
proof (induction data s rule: send_rest.induct)
  case (1 data s)
  show ?case
    using 1 by (subst send_rest.simps) (auto split: list.split nat.split)
qed

lemma write_frame_incoming [simp]: "write_frame f s = (r, t) \<Longrightarrow> sk_incoming t = sk_incoming s"
  using send_rest_incoming[of _ s]
  by (auto simp: write_frame_def op_bind_def op_lift_def send_all_def split: sum.splits if_splits) (metis snd_conv)

lemma serve_one_takes:
  assumes "serve_one env v s = (True, w, t)"
  shows "length (stream (sk_incoming t)) < length (stream (sk_incoming s))"
  using assms read_frame_takes[of frame_max_payload s]
  by (fastforce simp: serve_one_def answer_def refuse_frame_def Let_def split: prod.splits sum.splits if_splits)

function serve_loop :: "environment \<Rightarrow> server \<Rightarrow> socket \<Rightarrow> server \<times> socket" where
  "serve_loop env v s =
     (case serve_one env v s of (go, w, t) \<Rightarrow> if go then serve_loop env w t else (w, t))"
  by pat_completeness auto
termination
  by (relation "measure (\<lambda>(env, v, s). length (stream (sk_incoming s)))") (auto dest!: sym serve_one_takes)

declare serve_loop.simps [simp del]

definition serve :: "environment \<Rightarrow> server \<Rightarrow> socket \<Rightarrow> server \<times> socket" where
  "serve env v s = serve_loop env (v\<lparr>sv_connections := sv_connections v + 1\<rparr>) s"

section \<open>The client\<close>

record client =
  cl_socket :: socket
  cl_max_payload :: nat
  cl_correlation :: u64

definition request_frame :: "u64 \<Rightarrow> byte list \<Rightarrow> frame" where
  "request_frame n payload = \<lparr>fr_type = Frame_Request, fr_flags = 0, fr_correlation = n, fr_payload = payload\<rparr>"

definition on_socket :: "('a, socket) op \<Rightarrow> ('a, client) op" where
  "on_socket m k = (case m (cl_socket k) of (r, s) \<Rightarrow> (r, k\<lparr>cl_socket := s\<rparr>))"

definition next_correlation :: "(u64, client) op" where
  "next_correlation k = (let n = cl_correlation k + 1 in (Inr n, k\<lparr>cl_correlation := n\<rparr>))"

definition read_answer :: "frame \<Rightarrow> response result" where
  "read_answer f =
     (if fr_type f = Frame_Error
      then fail Code_Corrupt (''the server rejected the frame: '' @ string_of_bytes (fr_payload f))
      else if fr_type f \<noteq> Frame_Response then fail Code_Invalid ''the server sent an unexpected frame type''
      else decode_response (fr_payload f))"

definition client_call :: "request \<Rightarrow> (response, client) op" where
  "client_call q k =
     op_then (op_guard (\<not> sk_valid (cl_socket k)) Code_Invalid ''the client is not connected'')
     (op_bind (op_lift (encode_request q)) (\<lambda>payload.
      op_bind next_correlation (\<lambda>n.
      op_then (on_socket (write_frame (request_frame n payload)))
     (op_bind (on_socket (read_frame (cl_max_payload k))) (\<lambda>f.
      op_lift (read_answer f)))))) k"

section \<open>A call is a local call\<close>

lemma wire_payload: "sendable f \<longleftrightarrow> length (fr_payload f) \<le> frame_hard_max_payload"
  by (simp add: sendable_def)

text \<open>What one turn of the loop does with an intact request.\<close>

lemma serve_request:
  assumes "request_ok q" "encode_request q = Inr payload" "length payload \<le> frame_max_payload"
    "sk_valid s" "0 \<notin> set (sk_sends s)" "intact (sk_incoming s)"
    "stream (sk_incoming s) = wire_frame (request_frame n payload) @ rest"
    "fst (read_stopping v) = False" "handle env (sv_options v) q (sv_controller v) = (r, d)"
    "encode_response (r\<lparr>an_nonce := pr_nonce q\<rparr>) = Inr body" "length body \<le> frame_hard_max_payload"
  shows "\<exists>w t. serve_one env v s = (pr_kind q \<noteq> Msg_Shutdown, w, t) \<and> sv_controller w = d \<and> sv_options w = sv_options v \<and>
    sv_others w = tl (sv_others v) \<and> (sv_stopping w \<longleftrightarrow> sv_stopping v \<or> pr_kind q = Msg_Shutdown) \<and>
    sv_requests w = sv_requests v + 1 \<and> sv_errors w = sv_errors v \<and>
    sk_valid t \<and> 0 \<notin> set (sk_sends t) \<and> intact (sk_incoming t) \<and> stream (sk_incoming t) = rest \<and>
    sk_sent t = sk_sent s @ wire_frame (response_frame (request_frame n payload) body)"
proof -
  let ?f = "request_frame n payload"
  have f: "sendable ?f" "length (fr_payload ?f) \<le> frame_max_payload"
    using assms(3) by (simp_all add: sendable_def request_frame_def frame_hard_max_payload_def frame_max_payload_def)
  obtain ins where i: "read_frame frame_max_payload s = (Inr ?f, s\<lparr>sk_incoming := ins\<rparr>)" "intact ins" "stream ins = rest"
    using read_frame_stream[OF assms(4,6), of frame_max_payload] take_wire_frame[OF f, of rest] assms(7) by auto
  have q: "decode_request payload = Inr q"
    using request_codec.whole(1)[OF assms(1)] assms(2) by (simp add: encode_request_def decode_request_def)
  have g: "sendable (response_frame ?f body)"
    using assms(11) by (simp add: sendable_def response_frame_def frame_default_def)
  obtain ks where k: "write_frame (response_frame ?f body) (s\<lparr>sk_incoming := ins\<rparr>) =
      (success, s\<lparr>sk_incoming := ins, sk_sends := ks, sk_sent := sk_sent s @ wire_frame (response_frame ?f body)\<rparr>)" "0 \<notin> set ks"
    using write_frame_sends[OF g, of "s\<lparr>sk_incoming := ins\<rparr>"] assms(4,5) by auto
  obtain w where w: "read_stopping v = (False, w)" "sv_controller w = sv_controller v" "sv_options w = sv_options v"
    "sv_others w = tl (sv_others v)" "sv_stopping w = sv_stopping v" "sv_requests w = sv_requests v" "sv_errors w = sv_errors v"
    using assms(8) by (auto simp: read_stopping_def Let_def)
  have t: "fr_type ?f = Frame_Request" "fr_payload ?f = payload" by (simp_all add: request_frame_def)
  show ?thesis
    using i(2,3) k w assms(4,9,10) q t
    by (auto simp: serve_one_def i(1) answer_def Let_def)
qed


text \<open>A call sends one frame, and takes the frame that is delivered as its answer.\<close>

lemma client_call_frames:
  assumes "encode_request q = Inr payload" "length payload \<le> frame_max_payload"
    "sk_valid (cl_socket k)" "0 \<notin> set (sk_sends (cl_socket k))" "intact (sk_incoming (cl_socket k))"
    "client_call q k = (got, k')"
  shows "sk_sent (cl_socket k') = sk_sent (cl_socket k) @ wire_frame (request_frame (cl_correlation k + 1) payload)"
    "got = (case fst (take_frame (cl_max_payload k) (stream (sk_incoming (cl_socket k)))) of
       Inl e \<Rightarrow> Inl e | Inr f \<Rightarrow> read_answer f)"
proof -
  let ?s = "cl_socket k" and ?n = "cl_correlation k + 1"
  let ?f = "request_frame ?n payload"
  have f: "sendable ?f" using assms(2)
    by (simp add: sendable_def request_frame_def frame_hard_max_payload_def frame_max_payload_def)
  obtain ks where w: "write_frame ?f ?s = (success, ?s\<lparr>sk_sends := ks, sk_sent := sk_sent ?s @ wire_frame ?f\<rparr>)"
    using write_frame_sends[OF f assms(3,4)] by auto
  let ?t = "?s\<lparr>sk_sends := ks, sk_sent := sk_sent ?s @ wire_frame ?f\<rparr>"
  have call: "client_call q k = (case read_frame (cl_max_payload k) ?t of
      (Inl e, u) \<Rightarrow> (Inl e, k\<lparr>cl_correlation := ?n, cl_socket := u\<rparr>)
    | (Inr f, u) \<Rightarrow> (read_answer f, k\<lparr>cl_correlation := ?n, cl_socket := u\<rparr>))"
    using assms(1,3) w
    by (simp add: client_call_def op_bind_def op_guard_def op_return_def op_lift_def next_correlation_def on_socket_def
        Let_def split: prod.split sum.split)
  have st: "intact (sk_incoming ?t)" "sk_valid ?t" using assms(3,5) by simp_all
  obtain ins where i: "read_frame (cl_max_payload k) ?t = (fst (take_frame (cl_max_payload k) (stream (sk_incoming ?s))),
      ?t\<lparr>sk_incoming := ins\<rparr>)"
    using read_frame_stream[OF st(2,1), of "cl_max_payload k"] by auto
  show "sk_sent (cl_socket k') = sk_sent ?s @ wire_frame ?f" "got = (case fst (take_frame (cl_max_payload k) (stream (sk_incoming ?s))) of
       Inl e \<Rightarrow> Inl e | Inr f \<Rightarrow> read_answer f)"
    using assms(6) unfolding call i by (auto split: sum.splits)
qed

text \<open>
  C13: calling the server is calling the controller. A client sends a representable request over a
  connection that delivers every byte, in pieces of any size, to a server that is not stopping.
  Then the client's call returns exactly the response that the handler computes from the
  controller's state, with the nonce of the request, and the controller is left as the handler
  leaves it; the connection stays open unless the request asked the server to stop.
\<close>

theorem remote_call_is_local:
  assumes "request_ok q" "encode_request q = Inr payload" "length payload \<le> frame_max_payload"
    "handle env (sv_options v) q (sv_controller v) = (r, d)" "response_ok (r\<lparr>an_nonce := pr_nonce q\<rparr>)"
    "frame_max_payload \<le> cl_max_payload k" "fst (read_stopping v) = False"
    "sk_valid (cl_socket k)" "0 \<notin> set (sk_sends (cl_socket k))" "intact (sk_incoming (cl_socket k))"
    "sk_sent (cl_socket k) = []" "sk_valid s" "0 \<notin> set (sk_sends s)" "intact (sk_incoming s)" "sk_sent s = []"
    "client_call q k = (got, k')" "serve_one env v s = (go, w, t)"
    "stream (sk_incoming s) = sk_sent (cl_socket k')" "stream (sk_incoming (cl_socket k)) = sk_sent t"
  shows "got = Inr (r\<lparr>an_nonce := pr_nonce q\<rparr>) \<and> sv_controller w = d \<and> go = (pr_kind q \<noteq> Msg_Shutdown) \<and>
    sv_stopping w = (sv_stopping v \<or> pr_kind q = Msg_Shutdown)"
proof -
  obtain body where body: "encode_response (r\<lparr>an_nonce := pr_nonce q\<rparr>) = Inr body" "length body \<le> 1024 * 1024 + 30000"
    "decode_response body = Inr (r\<lparr>an_nonce := pr_nonce q\<rparr>)"
    using response_fits[OF assms(5)] by blast
  let ?n = "cl_correlation k + 1"
  let ?f = "request_frame ?n payload"
  let ?g = "response_frame ?f body"
  have g: "sendable ?g" "length (fr_payload ?g) \<le> cl_max_payload k"
    using assms(6) body(2)
    by (simp_all add: sendable_def response_frame_def frame_default_def frame_hard_max_payload_def frame_max_payload_def)
  note c = client_call_frames[OF assms(2,3,8-10,16)]
  have "stream (sk_incoming s) = wire_frame ?f @ []" using c(1) assms(11,18) by simp
  from serve_request[OF assms(1-3) assms(12-14) this assms(7,4) body(1)] body(2) assms(15,17)
  have sv: "go = (pr_kind q \<noteq> Msg_Shutdown)" "sv_controller w = d" "sk_sent t = wire_frame ?g"
    "sv_stopping w = (sv_stopping v \<or> pr_kind q = Msg_Shutdown)" by (auto simp: frame_hard_max_payload_def)
  have "fst (take_frame (cl_max_payload k) (stream (sk_incoming (cl_socket k)))) = Inr ?g"
    using take_wire_frame[OF g, of "[]"] assms(19) sv(3) by simp
  then have "got = read_answer ?g" using c(2) by simp
  then show ?thesis
    using sv body(3) by (simp add: read_answer_def response_frame_def frame_default_def)
qed

section \<open>A whole connection\<close>

text \<open>The reference: the requests are answered one after the other.\<close>

fun answers ::
  "environment \<Rightarrow> server_options \<Rightarrow> request list \<Rightarrow> controller \<Rightarrow> response list \<times> controller" where
  "answers env opt [] c = ([], c)"
| "answers env opt (q # qs) c =
     (case handle env opt q c of (r, d) \<Rightarrow>
      case answers env opt qs d of (rs, e) \<Rightarrow> (r\<lparr>an_nonce := pr_nonce q\<rparr> # rs, e))"

definition deliverable :: "request \<Rightarrow> byte list \<Rightarrow> bool" where
  "deliverable q payload \<longleftrightarrow> request_ok q \<and> pr_kind q \<noteq> Msg_Shutdown \<and> encode_request q = Inr payload \<and>
     length payload \<le> frame_max_payload"

definition answerable :: "response \<Rightarrow> byte list \<Rightarrow> bool" where
  "answerable r body \<longleftrightarrow> encode_response r = Inr body \<and> length body \<le> frame_hard_max_payload"

definition request_frames :: "u64 list \<Rightarrow> byte list list \<Rightarrow> frame list" where
  "request_frames = map2 request_frame"

definition response_frames :: "u64 list \<Rightarrow> byte list list \<Rightarrow> frame list" where
  "response_frames = map2 (\<lambda>n body. response_frame (request_frame n []) body)"

lemma response_frame_correlation: "response_frame (request_frame n p) body = response_frame (request_frame n []) body"
  by (simp add: response_frame_def request_frame_def)

lemma serve_requests:
  assumes "list_all2 deliverable qs ps" "length ns = length qs" "answers env (sv_options v) qs (sv_controller v) = (rs, d)"
    "list_all2 answerable rs bodies" "\<not> sv_stopping v" "True \<notin> set (sv_others v)"
    "sk_valid s" "0 \<notin> set (sk_sends s)" "intact (sk_incoming s)"
    "stream (sk_incoming s) = concat (map wire_frame (request_frames ns ps))"
  shows "\<exists>w t. serve_loop env v s = (w, t) \<and> sv_controller w = d \<and> \<not> sv_stopping w \<and>
    sv_requests w = sv_requests v + of_nat (length qs) \<and> sv_errors w = sv_errors v \<and>
    sk_sent t = sk_sent s @ concat (map wire_frame (response_frames ns bodies))"
  using assms
proof (induction qs arbitrary: ps ns rs bodies v s)
  case Nil
  have z: "ps = []" "rs = []" "bodies = []" "d = sv_controller v" "ns = []" using Nil by simp_all
  then have "stream (sk_incoming s) = []" using Nil(10) by (simp add: request_frames_def)
  then obtain ins where "read_frame frame_max_payload s = (fail Code_Cancelled ''the peer closed the connection'', s\<lparr>sk_incoming := ins\<rparr>)"
    using read_frame_stream[OF Nil(7,9), of frame_max_payload] by (auto simp: take_frame_def)
  moreover have "fst (read_stopping v) = False"
    using Nil(5,6) by (cases "sv_others v") (auto simp: read_stopping_def Let_def)
  ultimately have "serve_one env v s = (False, snd (read_stopping v), s\<lparr>sk_incoming := ins\<rparr>)"
    by (cases "read_stopping v") (simp add: serve_one_def refuse_frame_def protocol_fault_def fault_code_def)
  then have "serve_loop env v s = (snd (read_stopping v), s\<lparr>sk_incoming := ins\<rparr>)"
    by (simp add: serve_loop.simps)
  then show ?case using z Nil(5,6)
    by (cases "sv_others v") (auto simp: read_stopping_def Let_def response_frames_def)
next
  case (Cons q qs)
  obtain p ps' where p: "ps = p # ps'" "deliverable q p" "list_all2 deliverable qs ps'"
    using Cons.prems(1) by (auto simp: list_all2_Cons1)
  obtain n ns' where n: "ns = n # ns'" "length ns' = length qs" using Cons.prems(2) by (cases ns) auto
  obtain r e where r: "handle env (sv_options v) q (sv_controller v) = (r, e)" by force
  obtain rs' where a: "answers env (sv_options v) qs e = (rs', d)" "rs = r\<lparr>an_nonce := pr_nonce q\<rparr> # rs'"
    using Cons.prems(3) r by (auto split: prod.splits)
  obtain b bodies' where b: "bodies = b # bodies'" "answerable (r\<lparr>an_nonce := pr_nonce q\<rparr>) b" "list_all2 answerable rs' bodies'"
    using Cons.prems(4) a(2) by (auto simp: list_all2_Cons1)
  have st: "fst (read_stopping v) = False"
    using Cons.prems(5,6) by (cases "sv_others v") (auto simp: read_stopping_def Let_def)
  have i: "stream (sk_incoming s) = wire_frame (request_frame n p) @ concat (map wire_frame (request_frames ns' ps'))"
    using Cons.prems(10) by (simp add: p(1) n(1) request_frames_def)
  obtain w t where w: "serve_one env v s = (True, w, t)" "sv_controller w = e" "sv_options w = sv_options v"
    "sv_others w = tl (sv_others v)" "\<not> sv_stopping w" "sv_requests w = sv_requests v + 1" "sv_errors w = sv_errors v"
    "sk_valid t" "0 \<notin> set (sk_sends t)" "intact (sk_incoming t)"
    "stream (sk_incoming t) = concat (map wire_frame (request_frames ns' ps'))"
    "sk_sent t = sk_sent s @ wire_frame (response_frame (request_frame n []) b)"
    using serve_request[OF _ _ _ Cons.prems(7-9) i st r, of b] p(2) b(2) Cons.prems(5)
    unfolding deliverable_def answerable_def response_frame_correlation[of n p] by auto
  have "True \<notin> set (sv_others w)" using Cons.prems(6) w(4) by (cases "sv_others v") auto
  from Cons.IH[OF p(3) n(2) _ b(3) w(5) this w(8-11)] a(1) w(2,3)
  obtain w' t' where "serve_loop env w t = (w', t')" "sv_controller w' = d" "\<not> sv_stopping w'"
    "sv_requests w' = sv_requests w + of_nat (length qs)" "sv_errors w' = sv_errors w"
    "sk_sent t' = sk_sent t @ concat (map wire_frame (response_frames ns' bodies'))" by auto
  then show ?case using w(1,6,7,12) b(1) n(1)
    by (subst serve_loop.simps) (simp add: response_frames_def add.assoc)
qed

lemma all_answerable:
  "list_all response_ok rs \<Longrightarrow>
     \<exists>bodies. list_all2 answerable rs bodies \<and> map decode_response bodies = map Inr rs"
proof (induction rs)
  case (Cons r rs)
  then obtain bodies where "list_all2 answerable rs bodies" "map decode_response bodies = map Inr rs" by auto
  moreover obtain bs where "answerable r bs" "decode_response bs = Inr r"
    using response_fits[of r] Cons(2) by (auto simp: answerable_def frame_hard_max_payload_def)
  ultimately show ?case by (intro exI[of _ "bs # bodies"]) simp
qed simp

text \<open>
  C14: a connection is a sequence of calls. A peer sends any number of representable requests, none of them to
  shut down, without waiting for the answers, and closes; the bytes arrive in any pieces and the answers
  leave in any pieces. When nobody else stops the server meanwhile, and the answers are representable, the server returns from the connection, has answered every request exactly once, in order, with its
  correlation number and its nonce, and left the controller as the handler does when it runs
  the requests one after the other.
\<close>

theorem connection_is_sequential:
  assumes "list_all2 deliverable qs ps" "length ns = length qs" "answers env (sv_options v) qs (sv_controller v) = (rs, d)"
    "list_all response_ok rs" "\<not> sv_stopping v" "True \<notin> set (sv_others v)"
    "sk_valid s" "0 \<notin> set (sk_sends s)" "intact (sk_incoming s)" "sk_sent s = []"
    "stream (sk_incoming s) = concat (map wire_frame (request_frames ns ps))"
  shows "\<exists>w t bodies. serve env v s = (w, t) \<and> sv_controller w = d \<and>
    sv_requests w = sv_requests v + of_nat (length qs) \<and> sv_errors w = sv_errors v \<and>
    map decode_response bodies = map Inr rs \<and>
    sk_sent t = concat (map wire_frame (response_frames ns bodies))"
proof -
  let ?v = "v\<lparr>sv_connections := sv_connections v + 1\<rparr>"
  have v: "answers env (sv_options ?v) qs (sv_controller ?v) = (rs, d)" "\<not> sv_stopping ?v" "True \<notin> set (sv_others ?v)"
    using assms(3,5,6) by simp_all
  obtain bodies where b: "list_all2 answerable rs bodies" "map decode_response bodies = map Inr rs"
    using all_answerable[OF assms(4)] by blast
  from serve_requests[OF assms(1,2) v(1) b(1) v(2,3) assms(7-9,11)] assms(10)
  show ?thesis using b(2) by (auto simp: serve_def)
qed

text \<open>
  C30: bytes that are no frame do no harm. When what arrives does not start with a frame (too short,
  foreign, of another revision, oversized, or with a wrong checksum), the server ends the connection
  without touching the controller and without setting its stop flag; it sends nothing, or one
  error frame when it counts a protocol error.
\<close>

theorem bad_frame_is_contained:
  assumes "sk_valid s" "intact (sk_incoming s)" "take_frame frame_max_payload (stream (sk_incoming s)) = (Inl e, rest)"
    "fst (read_stopping v) = False" "0 \<notin> set (sk_sends s)" "serve env v s = (w, t)"
  shows "sv_controller w = sv_controller v \<and> sv_requests w = sv_requests v \<and> sv_stopping w = sv_stopping v \<and>
    (if fault_code e \<in> {Code_Corrupt, Code_Exhausted, Code_Invalid, Code_Unsupported} then
       sv_errors w = sv_errors v + 1 \<and> (length (status_to_string e) \<le> frame_hard_max_payload \<longrightarrow>
         sk_sent t = sk_sent s @ wire_frame (error_frame (status_to_string e)))
     else sv_errors w = sv_errors v \<and> sk_sent t = sk_sent s)"
proof -
  let ?v = "v\<lparr>sv_connections := sv_connections v + 1\<rparr>"
  obtain ins where i: "read_frame frame_max_payload s = (Inl e, s\<lparr>sk_incoming := ins\<rparr>)"
    using read_frame_stream[OF assms(1,2), of frame_max_payload] assms(3) by auto
  obtain u where u: "read_stopping ?v = (False, u)" "sv_controller u = sv_controller v" "sv_requests u = sv_requests v"
    "sv_stopping u = sv_stopping v" "sv_errors u = sv_errors v"
    using assms(4) by (auto simp: read_stopping_def Let_def)
  have o: "serve_one env ?v s = refuse_frame e u (s\<lparr>sk_incoming := ins\<rparr>)" by (simp add: serve_one_def u i)
  show ?thesis
  proof (cases "protocol_fault e")
    case True
    then have "serve env v s = (protocol_error u, snd (write_frame (error_frame (status_to_string e)) (s\<lparr>sk_incoming := ins\<rparr>)))"
      by (simp add: serve_def serve_loop.simps o refuse_frame_def)
    moreover have "sendable (error_frame (status_to_string e)) \<longleftrightarrow> length (status_to_string e) \<le> frame_hard_max_payload"
      by (simp add: sendable_def error_frame_def frame_default_def)
    ultimately show ?thesis
      using True u write_frame_sends[of "error_frame (status_to_string e)" "s\<lparr>sk_incoming := ins\<rparr>"] assms(1,5,6)
      by (auto simp: protocol_error_def protocol_fault_def)
  next
    case False
    then have "serve env v s = (u, s\<lparr>sk_incoming := ins\<rparr>)"
      by (simp add: serve_def serve_loop.simps o refuse_frame_def)
    then show ?thesis using False u assms(6) by (auto simp: protocol_fault_def)
  qed
qed

section \<open>A sample connection\<close>

definition sample_server :: server where
  "sample_server = \<lparr>sv_options = \<lparr>vo_workers = 1, vo_max_pending_connections = 1, vo_max_text_bytes = 0\<rparr>,
     sv_controller = controller_new sample_controller_options sample_directory, sv_stopping = False, sv_others = [],
     sv_connections = 0, sv_requests = 0, sv_errors = 0\<rparr>"

text \<open>The controller is not open, so the request of the sample is refused.\<close>

definition sample_refusal :: "string \<Rightarrow> bool \<Rightarrow> response" where
  "sample_refusal t trimmed = response_default\<lparr>an_code := Code_Invalid, an_message := ''the pod controller is not open'',
     an_text := t, an_text_truncated := trimmed, an_nonce := 7\<rparr>"

lemma sample_handled:
  "\<exists>t trimmed r. handle sample_env (sv_options sample_server) sample_call (sv_controller sample_server) =
       (r, sv_controller sample_server) \<and>
     r\<lparr>an_nonce := pr_nonce sample_call\<rparr> = sample_refusal t trimmed \<and> t \<in> {[], truncation_mark}"
proof -
  let ?c = "controller_new sample_controller_options sample_directory"
  have h: "set_admin_state sample_env ''b'' Admin_Maintenance ?c = (fail Code_Invalid ''the pod controller is not open'', ?c)"
    by (simp add: set_admin_state_def publishing_def need_open_def op_bind_def op_guard_def op_fail_def controller_new_def)
  obtain t trimmed where t: "bounded_text (describe ?c) 0 = (t, trimmed)" "t \<in> {[], truncation_mark}"
    by (cases "describe ?c") (auto simp: bounded_text_def)
  have "ct_state ?c = pod_state_default" "rr_outcome (ct_recovery ?c) = Recovery_Fresh" "\<not> ct_ambiguous_commit ?c"
    by (simp_all add: controller_new_def recovery_default_def)
  then have "response_now (sv_options sample_server) ?c = response_default\<lparr>an_text := t, an_text_truncated := trimmed\<rparr>"
    using t(1)
    by (simp add: response_now_def sample_server_def with_text_def with_members_def pod_state_default_def response_default_def authority_default_def)
  then have "handle sample_env (sv_options sample_server) sample_call ?c =
     (refused (Fail Code_Invalid ''the pod controller is not open'') (response_default\<lparr>an_text := t, an_text_truncated := trimmed\<rparr>), ?c)"
    using h by (simp add: handle_def handle_admin_def sample_call_def request_default_def)
  then show ?thesis using t(2)
    by (auto simp: sample_server_def refused_def fault_code_def status_message_def sample_refusal_def sample_call_def
        response_default_def request_default_def)
qed

lemma sample_refusal_ok: "t \<in> {[], truncation_mark} \<Longrightarrow> response_ok (sample_refusal t trimmed)"
proof -
  assume t: "t \<in> {[], truncation_mark}"
  have u: "is_valid_utf8 truncation_mark" "is_valid_utf8 []" "is_valid_utf8 ''the pod controller is not open''"
    by (code_simp, code_simp, code_simp)
  have l: "length truncation_mark = 20" by (simp add: truncation_mark_def newline_def)
  show ?thesis
    using t u l token_default_ok
    by (auto simp: response_ok_def sample_refusal_def response_default_def text_ok_def long_text_ok_def default_limits_def
      uuid_ok_def uuid_nil_def digest_ok_def digest_zero_def)
qed

text \<open>A socket on which given bytes arrive, one at a time.\<close>

definition sample_arrivals :: "byte list \<Rightarrow> socket" where
  "sample_arrivals bs = sample_socket\<lparr>sk_incoming := map (\<lambda>b. Arrives b []) bs\<rparr>"

lemma sample_arrivals_facts [simp]:
  "sk_valid (sample_arrivals bs)" "sk_sends (sample_arrivals bs) = []" "sk_sent (sample_arrivals bs) = []"
  "intact (sk_incoming (sample_arrivals bs))" "stream (sk_incoming (sample_arrivals bs)) = bs"
proof -
  have "intact (map (\<lambda>b. Arrives b []) bs) \<and> stream (map (\<lambda>b. Arrives b []) bs) = bs" by (induction bs) auto
  then show "intact (sk_incoming (sample_arrivals bs))" "stream (sk_incoming (sample_arrivals bs)) = bs"
    by (simp_all add: sample_arrivals_def)
qed (simp_all add: sample_arrivals_def sample_socket_def)

definition sample_client :: "byte list \<Rightarrow> client" where
  "sample_client bs = \<lparr>cl_socket = sample_arrivals bs, cl_max_payload = frame_max_payload, cl_correlation = 0\<rparr>"

theorem remote_call_is_local_witness:
  "\<exists>bs cs got k go w t tx trimmed. client_call sample_call (sample_client cs) = (got, k) \<and>
     serve_one sample_env sample_server (sample_arrivals bs) = (go, w, t) \<and>
     got = Inr (sample_refusal tx trimmed) \<and> sv_controller w = sv_controller sample_server \<and> go"
proof -
  obtain tx trimmed r where h: "handle sample_env (sv_options sample_server) sample_call (sv_controller sample_server) =
       (r, sv_controller sample_server)"
    "r\<lparr>an_nonce := pr_nonce sample_call\<rparr> = sample_refusal tx trimmed" "tx \<in> {[], truncation_mark}"
    using sample_handled by blast
  have ok: "response_ok (r\<lparr>an_nonce := pr_nonce sample_call\<rparr>)"
    unfolding h(2) by (rule sample_refusal_ok[OF h(3)])
  have kind: "pr_kind sample_call = Msg_SetAdmin" by (simp add: sample_call_def request_default_def)
  obtain payload where p: "encode_request sample_call = Inr payload" "length payload \<le> 25000"
    using request_fits[OF sample_call_ok] kind by auto
  then have pl: "length payload \<le> frame_max_payload" by (simp add: frame_max_payload_def)
  obtain body where b: "encode_response (r\<lparr>an_nonce := pr_nonce sample_call\<rparr>) = Inr body" "length body \<le> 1024 * 1024 + 30000"
    using response_fits[OF ok] by blast
  then have bl: "length body \<le> frame_hard_max_payload" by (simp add: frame_hard_max_payload_def)
  let ?f = "request_frame 1 payload"
  let ?s = "sample_arrivals (wire_frame ?f)" and ?k = "sample_client (wire_frame (response_frame ?f body))"
  have st: "fst (read_stopping sample_server) = False" by (simp add: read_stopping_def sample_server_def)
  obtain got k' where c: "client_call sample_call ?k = (got, k')" by force
  obtain go w t where v: "serve_one sample_env sample_server ?s = (go, w, t)" by (metis prod_cases3)
  have i: "sk_valid ?s" "0 \<notin> set (sk_sends ?s)" "intact (sk_incoming ?s)" "stream (sk_incoming ?s) = wire_frame ?f @ []" "sk_sent ?s = []" by simp_all
  have k: "sk_valid (cl_socket ?k)" "0 \<notin> set (sk_sends (cl_socket ?k))" "intact (sk_incoming (cl_socket ?k))"
    "sk_sent (cl_socket ?k) = []" "frame_max_payload \<le> cl_max_payload ?k" "cl_correlation ?k + 1 = 1"
    by (simp_all add: sample_client_def)
  have "stream (sk_incoming ?s) = sk_sent (cl_socket k')"
    using client_call_frames(1)[OF p(1) pl k(1-3) c] k(4,6) by simp
  moreover have "stream (sk_incoming (cl_socket ?k)) = sk_sent t"
    using serve_request[OF sample_call_ok p(1) pl i(1-4) st h(1) b(1) bl] v by (simp add: sample_client_def)
  ultimately have "got = Inr (sample_refusal tx trimmed) \<and> sv_controller w = sv_controller sample_server \<and> go"
    using remote_call_is_local[OF sample_call_ok p(1) pl h(1) ok k(5) st k(1-4) i(1-3,5) c v] h(2) kind by simp
  then show ?thesis using c v by blast
qed

theorem connection_is_sequential_witness:
  "\<exists>bs w t bodies tx trimmed. serve sample_env sample_server (sample_arrivals bs) = (w, t) \<and>
     sv_controller w = sv_controller sample_server \<and> sv_requests w = 2 \<and>
     map decode_response bodies = [Inr (sample_refusal tx trimmed), Inr (sample_refusal tx trimmed)] \<and>
     sk_sent t = concat (map wire_frame (response_frames [1, 2] bodies))"
proof -
  obtain tx trimmed r where h: "handle sample_env (sv_options sample_server) sample_call (sv_controller sample_server) =
       (r, sv_controller sample_server)"
    "r\<lparr>an_nonce := pr_nonce sample_call\<rparr> = sample_refusal tx trimmed" "tx \<in> {[], truncation_mark}"
    using sample_handled by blast
  let ?a = "sample_refusal tx trimmed"
  have ok: "list_all response_ok [?a, ?a]" using sample_refusal_ok[OF h(3)] by simp
  have kind: "pr_kind sample_call = Msg_SetAdmin" by (simp add: sample_call_def request_default_def)
  obtain payload where p: "encode_request sample_call = Inr payload" "length payload \<le> 25000"
    using request_fits[OF sample_call_ok] kind by auto
  then have d: "list_all2 deliverable [sample_call, sample_call] [payload, payload]"
    using sample_call_ok kind by (simp add: deliverable_def frame_max_payload_def)
  let ?s = "sample_arrivals (wire_frame (request_frame 1 payload) @ wire_frame (request_frame 2 payload))"
  have a: "answers sample_env (sv_options sample_server) [sample_call, sample_call] (sv_controller sample_server) =
      ([?a, ?a], sv_controller sample_server)" using h(1,2) by simp
  have v: "\<not> sv_stopping sample_server" "True \<notin> set (sv_others sample_server)" "sv_requests sample_server = 0"
    by (simp_all add: sample_server_def)
  have i: "sk_valid ?s" "0 \<notin> set (sk_sends ?s)" "intact (sk_incoming ?s)" "sk_sent ?s = []"
    "stream (sk_incoming ?s) = concat (map wire_frame (request_frames [1, 2] [payload, payload]))"
    by (simp_all add: request_frames_def)
  have l: "length [1, 2 :: u64] = length [sample_call, sample_call]" by simp
  obtain w t bodies where "serve sample_env sample_server ?s = (w, t)" "sv_controller w = sv_controller sample_server"
    "sv_requests w = sv_requests sample_server + of_nat (length [sample_call, sample_call])"
    "map decode_response bodies = map Inr [?a, ?a]" "sk_sent t = concat (map wire_frame (response_frames [1, 2] bodies))"
    using connection_is_sequential[OF d l a ok v(1,2) i] by (elim exE conjE) blast
  then show ?thesis using v(3) by (intro exI conjI) simp_all
qed

theorem bad_frame_is_contained_witness:
  "let (w, t) = serve sample_env sample_server (sample_arrivals [1, 2, 3])
   in sv_controller w = sv_controller sample_server \<and> sv_stopping w = sv_stopping sample_server"
proof -
  let ?s = "sample_arrivals [1, 2, 3]"
  obtain w t where w: "serve sample_env sample_server ?s = (w, t)" by force
  obtain e rest where e: "take_frame frame_max_payload (stream (sk_incoming ?s)) = (Inl e, rest)"
    by (simp add: take_frame_def frame_header_size_def)
  have st: "fst (read_stopping sample_server) = False" by (simp add: read_stopping_def sample_server_def)
  from bad_frame_is_contained[OF _ _ e st _ w] w show ?thesis by simp
qed

section \<open>A late answer\<close>

text \<open>
  C39: a late answer is taken for the next one. When a call fails because nothing arrived before the
  deadline, the client stays connected; whatever valid response arrives first afterwards is returned by the next
  call, although its correlation number and its nonce belong to the call that failed.
\<close>

theorem late_answer_is_taken:
  assumes "encode_request q = Inr payload" "length payload \<le> frame_max_payload"
    "encode_request q' = Inr payload'" "length payload' \<le> frame_max_payload"
    "response_ok r" "encode_response r = Inr body" "frame_max_payload \<le> cl_max_payload k"
    "sk_valid (cl_socket k)" "0 \<notin> set (sk_sends (cl_socket k))" "sk_incoming (cl_socket k) = Receive_Fails why # ins"
    "intact ins" "stream ins = wire_frame (response_frame (request_frame (cl_correlation k + 1) payload) body)"
    "client_call q k = (got, k')" "client_call q' k' = (got', k'')"
  shows "got = fail Code_Unavailable why \<and> got' = Inr r"
proof -
  let ?s = "cl_socket k" and ?f = "request_frame (cl_correlation k + 1) payload"
  let ?g = "response_frame ?f body"
  have f: "sendable ?f" using assms(2)
    by (simp add: sendable_def request_frame_def frame_hard_max_payload_def frame_max_payload_def)
  obtain ks where w: "write_frame ?f ?s = (success, ?s\<lparr>sk_sends := ks, sk_sent := sk_sent ?s @ wire_frame ?f\<rparr>)" "0 \<notin> set ks"
    using write_frame_sends[OF f assms(8,9)] by auto
  let ?t = "?s\<lparr>sk_sends := ks, sk_sent := sk_sent ?s @ wire_frame ?f\<rparr>"
  have "read_frame (cl_max_payload k) ?t = (fail Code_Unavailable why, ?t\<lparr>sk_incoming := ins\<rparr>)"
    using assms(8,10) by (simp add: read_frame_def frame_header_size_def op_bind_def fill_buffer.simps recv_some_def)
  then have k': "got = fail Code_Unavailable why" "k' = k\<lparr>cl_correlation := cl_correlation k + 1, cl_socket := ?t\<lparr>sk_incoming := ins\<rparr>\<rparr>"
    using assms(1,8,13) w(1)
    by (simp_all add: client_call_def op_bind_def op_guard_def op_return_def op_lift_def next_correlation_def on_socket_def Let_def)
  obtain bs where "encode_response r = Inr bs" "length bs \<le> 1024 * 1024 + 30000" and d: "decode_response bs = Inr r"
    using response_fits[OF assms(5)] by blast
  then have body: "decode_response body = Inr r" "length body \<le> 1024 * 1024 + 30000" using assms(6) by auto
  then have g: "sendable ?g" "length (fr_payload ?g) \<le> cl_max_payload k'" using assms(7) k'(2)
    by (simp_all add: sendable_def response_frame_def frame_default_def frame_hard_max_payload_def frame_max_payload_def)
  have "got' = read_answer ?g"
    using client_call_frames(2)[OF assms(3,4) _ _ _ assms(14)] take_wire_frame[OF g, of "[]"] k'(2) w(2) assms(8,11,12)
    by simp
  then show ?thesis using k'(1) body(1) by (simp add: read_answer_def response_frame_def frame_default_def)
qed

theorem late_answer_is_taken_witness:
  "\<exists>k got k' got' k''. client_call sample_call k = (got, k') \<and> client_call (sample_call\<lparr>pr_nonce := 8\<rparr>) k' = (got', k'') \<and>
     isl got \<and> got' = Inr sample_reply \<and> an_nonce sample_reply = 7"
proof -
  let ?q = "sample_call\<lparr>pr_nonce := 8\<rparr>"
  have "request_ok ?q" "pr_kind ?q \<noteq> Msg_Apply" "pr_kind sample_call \<noteq> Msg_Apply"
    using sample_call_ok by (simp_all add: request_ok_def sample_call_def request_default_def)
  then obtain p p' where p: "encode_request sample_call = Inr p" "length p \<le> 25000" "encode_request ?q = Inr p'" "length p' \<le> 25000"
    using request_fits[OF sample_call_ok] request_fits[of ?q] by blast
  obtain body where b: "encode_response sample_reply = Inr body" using response_fits[OF sample_reply_ok] by blast
  let ?bs = "wire_frame (response_frame (request_frame 1 p) body)"
  let ?k = "(sample_client [])\<lparr>cl_socket := sample_socket\<lparr>sk_incoming := Receive_Fails [] # sk_incoming (sample_arrivals ?bs)\<rparr>\<rparr>"
  obtain got k' got' k'' where c: "client_call sample_call ?k = (got, k')" "client_call ?q k' = (got', k'')" by force
  have "length p \<le> frame_max_payload" "length p' \<le> frame_max_payload" using p(2,4) by (simp_all add: frame_max_payload_def)
  from late_answer_is_taken[OF p(1) this(1) p(3) this(2) sample_reply_ok b _ _ _ _ _ _ c, of _ "sk_incoming (sample_arrivals ?bs)"]
  have "isl got" "got' = Inr sample_reply" by (simp_all add: sample_client_def sample_socket_def)
  moreover have "an_nonce sample_reply = 7" by (simp add: sample_reply_def response_default_def)
  ultimately show ?thesis using c by blast
qed

end
