(* ===== verification/Endpoints.thy ===== *)
theory Endpoints
  imports Server Text_Scan
begin

text \<open>
  Where a connection begins: endpoint texts (\<open>transport/socket.cpp\<close>), the checks a client makes before it
  connects (\<open>control/client.cpp\<close>) and a server before it listens (\<open>control/server.cpp\<close>). The calls that
  resolve an address, connect and listen are arguments.
\<close>

section \<open>Endpoint texts\<close>

definition format_endpoint :: "string \<Rightarrow> u16 \<Rightarrow> string" where
  "format_endpoint host port = host @ '':'' @ dec_u64 port"

fun endpoint_port :: "string \<Rightarrow> u32 \<Rightarrow> u32 result" where
  "endpoint_port [] port = Inr port"
| "endpoint_port (c # cs) port =
     (if c < CHR ''0'' \<or> c > CHR ''9'' then fail Code_Invalid ''endpoint port is not numeric''
      else let next_port = port * 10 + of_nat (of_char c - 48)
        in if next_port > 65535 then fail Code_Invalid ''endpoint port is out of range''
           else endpoint_port cs next_port)"

text \<open>\<open>rfind(':')\<close>: what is before the last colon, and what is behind it.\<close>

definition behind_colon :: "string \<Rightarrow> string" where
  "behind_colon text = rev (takeWhile (\<lambda>c. c \<noteq> CHR '':'') (rev text))"

definition before_colon :: "string \<Rightarrow> string" where
  "before_colon text = rev (tl (dropWhile (\<lambda>c. c \<noteq> CHR '':'') (rev text)))"

definition parse_endpoint :: "string \<Rightarrow> (string \<times> u16) result" where
  "parse_endpoint text =
     (if CHR '':'' \<notin> set text \<or> before_colon text = [] \<or> behind_colon text = []
      then fail Code_Invalid ''endpoint must be written as host:port''
      else try_bind (endpoint_port (behind_colon text) 0) (\<lambda>port. Inr (before_colon text, ucast port)))"

section \<open>Connecting and listening\<close>

definition client_connect :: "(string \<Rightarrow> u16 \<Rightarrow> socket result) \<Rightarrow> string \<Rightarrow> client result" where
  "client_connect dial endpoint =
     try_bind (parse_endpoint endpoint) (\<lambda>(host, port).
     try_then (reject_if (port = 0) Code_Invalid ''cannot connect to port zero'')
     (try_bind (dial host port) (\<lambda>s.
      Inr \<lparr>cl_socket = s, cl_max_payload = frame_max_payload, cl_correlation = 0\<rparr>)))"

definition socket_close :: "(unit, socket) op" where
  "socket_close = op_update (\<lambda>s. s\<lparr>sk_valid := False\<rparr>)"

definition client_close :: "(unit, client) op" where
  "client_close = on_socket socket_close"

text \<open>\<open>start\<close> up to its threads: the port it listens on.\<close>

definition server_start :: "(nat \<Rightarrow> u16 result) \<Rightarrow> server_options \<Rightarrow> bool \<Rightarrow> u16 result" where
  "server_start listen options is_running =
     try_then (reject_if is_running Code_Refused ''the pod server is already running'')
    (try_then (reject_if (vo_workers options = 0 \<or> vo_workers options > 64) Code_Invalid
       ''the worker count must be between 1 and 64'')
    (try_then (reject_if (vo_max_pending_connections options = 0 \<or> vo_max_pending_connections options > 4096) Code_Invalid
       ''the pending-connection bound must be between 1 and 4096'')
    (try_bind (listen (vo_max_pending_connections options)) (\<lambda>port.
     try_then (reject_if (port = 0) Code_Unavailable ''the listener did not receive a port'')
     (Inr port)))))"

section \<open>What an endpoint text means\<close>

lemma split_colon:
  assumes "CHR '':'' \<in> set text"
  shows "text = before_colon text @ CHR '':'' # behind_colon text" "CHR '':'' \<notin> set (behind_colon text)"
proof -
  let ?d = "dropWhile (\<lambda>c. c \<noteq> CHR '':'') (rev text)"
  have d: "?d \<noteq> []" "hd ?d = CHR '':''"
    using assms hd_dropWhile[of "\<lambda>c. c \<noteq> CHR '':''" "rev text"] by (auto simp: dropWhile_eq_Nil_conv)
  have "rev text = takeWhile (\<lambda>c. c \<noteq> CHR '':'') (rev text) @ CHR '':'' # tl ?d"
    using d by (metis list.collapse takeWhile_dropWhile_id)
  then have "rev (rev text) = rev (takeWhile (\<lambda>c. c \<noteq> CHR '':'') (rev text) @ CHR '':'' # tl ?d)" by (rule arg_cong)
  then show "text = before_colon text @ CHR '':'' # behind_colon text"
    by (simp add: before_colon_def behind_colon_def)
  show "CHR '':'' \<notin> set (behind_colon text)" by (auto simp: behind_colon_def dest: set_takeWhileD)
qed

lemma joined_colon:
  assumes "CHR '':'' \<notin> set s"
  shows "before_colon (h @ CHR '':'' # s) = h" "behind_colon (h @ CHR '':'' # s) = s"
  using assms by (simp_all add: before_colon_def behind_colon_def takeWhile_append dropWhile_append)

lemma digit_step:
  fixes v :: u32
  assumes "digit c" "unat v \<le> 65535"
  shows "unat (v * 10 + of_nat (of_char c - 48)) = 10 * unat v + (of_char c - 48)"
  using assms digit_value[OF assms(1)] by (simp add: unat_word_ariths unat_of_nat take_bit_nat_eq_self)

lemma endpoint_port_Inr:
  "unat v \<le> 65535 \<Longrightarrow> endpoint_port cs v = Inr p \<longleftrightarrow>
     list_all digit cs \<and> dec_value cs (unat v) = unat p \<and> unat p \<le> 65535"
proof (induction cs arbitrary: v)
  case Nil
  then show ?case by (auto simp: word_unat_eq_iff)
next
  case (Cons c cs)
  show ?case
  proof (cases "digit c")
    case True
    let ?v = "v * 10 + of_nat (of_char c - 48) :: u32"
    have n: "\<not> (c < CHR ''0'' \<or> c > CHR ''9'')" using True by (auto simp: digit_def)
    have u: "unat ?v = 10 * unat v + (of_char c - 48)" using digit_step[OF True Cons.prems] .
    show ?thesis
    proof (cases "?v > 65535")
      case True
      then have "65535 < dec_value cs (unat ?v)"
        using dec_value_grows[of "unat ?v" cs] by (simp add: word_less_nat_alt)
      then show ?thesis using True n u by (auto simp: Let_def)
    next
      case False
      then have "unat ?v \<le> 65535" by (simp add: word_less_nat_alt not_less)
      from Cons.IH[OF this] show ?thesis using False n u \<open>digit c\<close> by (simp add: Let_def)
    qed
  qed (auto simp: digit_def)
qed

text \<open>
  What \<open>parse_endpoint\<close> accepts, and what it returns, exactly: a host that is not empty (colons in it
  included), the last colon, and decimal digits whose value is the port. So every port is read back from what
  \<open>format_endpoint\<close> writes, and no text of a port above 65535 is accepted, however long it is.
\<close>

theorem parse_endpoint_exact:
  "parse_endpoint text = Inr (host, port) \<longleftrightarrow>
     host \<noteq> [] \<and> (\<exists>s. text = host @ '':'' @ s \<and> s \<noteq> [] \<and> list_all digit s \<and> dec_value s 0 = unat port)"
proof
  assume p: "parse_endpoint text = Inr (host, port)"
  then obtain n where n: "CHR '':'' \<in> set text" "before_colon text = host" "host \<noteq> []" "behind_colon text \<noteq> []"
    "endpoint_port (behind_colon text) 0 = Inr n" "port = ucast n"
    by (auto simp: parse_endpoint_def result_simps split: if_splits)
  then have d: "list_all digit (behind_colon text)" "dec_value (behind_colon text) 0 = unat n" "unat n \<le> 65535"
    using endpoint_port_Inr[of 0 "behind_colon text" n] by auto
  then have "unat port = unat n" using n(6) by (simp add: unsigned_ucast_eq take_bit_nat_eq_self)
  then show "host \<noteq> [] \<and> (\<exists>s. text = host @ '':'' @ s \<and> s \<noteq> [] \<and> list_all digit s \<and> dec_value s 0 = unat port)"
    using n d split_colon[OF n(1)] by auto
next
  assume "host \<noteq> [] \<and> (\<exists>s. text = host @ '':'' @ s \<and> s \<noteq> [] \<and> list_all digit s \<and> dec_value s 0 = unat port)"
  then obtain s where s: "host \<noteq> []" "text = host @ CHR '':'' # s" "s \<noteq> []" "list_all digit s" "dec_value s 0 = unat port" by auto
  have "CHR '':'' \<notin> set s" using s(4) by (auto simp: list_all_iff digit_def)
  note j = joined_colon[OF this, of host]
  have b: "unat port < 65536" using unat_bound[of port] by simp
  have u: "unat (ucast port :: u32) = unat port" using b by (simp add: unsigned_ucast_eq take_bit_nat_eq_self)
  have "endpoint_port s 0 = Inr (ucast port)"
    using s(4,5) b u endpoint_port_Inr[of 0 s "ucast port"] by simp
  moreover have "ucast (ucast port :: u32) = port" by (rule bit_word_eqI) (simp add: bit_ucast_iff)
  ultimately show "parse_endpoint text = Inr (host, port)" using s(1-3) j by (simp add: parse_endpoint_def)
qed

lemma endpoint_roundtrip: "host \<noteq> [] \<Longrightarrow> parse_endpoint (format_endpoint host port) = Inr (host, port)"
  by (subst parse_endpoint_exact) (simp add: format_endpoint_def dec_u64_def dec_string_digits dec_value_dec_string)

end
