(* ===== verification/Tools.thy ===== *)
theory Tools
  imports Synthetic Cli Endpoints
begin

text \<open>
  The command-line tool \<open>apps/podfabricctl/main.cpp\<close>, command by command, and the file operations it calls
  (\<open>read_file\<close> and \<open>write_file\<close> of \<open>platform/file.cpp\<close>). A command works on a station: the files under
  their paths, a plan of which operating-system calls fail, and what has been printed. It returns its exit code. How the
  network dials is an argument; a call over the connection is \<open>client_call\<close>. Text after the path or the number of an error is cut.
\<close>

section \<open>The station\<close>

record station =
  st_disk :: "string \<Rightarrow> byte list option"
  st_faults :: "io_outcome list"
  st_out :: string
  st_err :: string

definition st_call :: "code \<Rightarrow> string \<Rightarrow> (station \<Rightarrow> station) \<Rightarrow> (nat \<Rightarrow> station \<Rightarrow> station) \<Rightarrow> (unit, station) op" where
  "st_call k m finished partial s =
     (case st_faults s of
        [] \<Rightarrow> (success, finished s)
      | Io_Done # rest \<Rightarrow> (success, finished (s\<lparr>st_faults := rest\<rparr>))
      | Io_Fault n # rest \<Rightarrow> (fail k m, partial n (s\<lparr>st_faults := rest\<rparr>)))"

definition st_query :: "code \<Rightarrow> string \<Rightarrow> (unit, station) op" where
  "st_query k m = st_call k m (\<lambda>s. s) (\<lambda>n s. s)"

definition content_of :: "string \<Rightarrow> station \<Rightarrow> byte list" where
  "content_of path s = (case st_disk s path of None \<Rightarrow> [] | Some bs \<Rightarrow> bs)"

definition put_content :: "string \<Rightarrow> byte list \<Rightarrow> station \<Rightarrow> station" where
  "put_content path bs s = s\<lparr>st_disk := (st_disk s)(path \<mapsto> bs)\<rparr>"

definition read_file :: "string \<Rightarrow> nat \<Rightarrow> (byte list, station) op" where
  "read_file path max_bytes s =
     op_then (op_guard (st_disk s path = None) Code_NotFound (''file does not exist: '' @ path))
     (op_then (st_query Code_Unavailable ''cannot determine file size'')
     (op_then (op_guard (length (content_of path s) > max_bytes) Code_Exhausted ''file exceeds the configured maximum size'')
     (op_then (st_query Code_Unavailable (''cannot open file for reading: '' @ path))
     (op_then (op_when (content_of path s \<noteq> []) (st_query Code_Unavailable ''read failure''))
     (op_then (st_query Code_Unavailable ''failed to close file'')
     (op_return (content_of path s))))))) s"

definition write_file :: "string \<Rightarrow> byte list \<Rightarrow> (unit, station) op" where
  "write_file path data =
     op_then (st_call Code_Unavailable (''cannot open file for writing: '' @ path) (put_content path []) (\<lambda>n s. s))
     (op_then (op_when (data \<noteq> []) (st_call Code_Unavailable ''short write to file'' (put_content path data)
               (\<lambda>n. put_content path (take (min n (length data - 1)) data))))
     (op_then (st_query Code_Unavailable ''flush failed'')
     (op_then (st_query Code_Unavailable ''operating-system error'')
     (st_query Code_Unavailable ''failed to close file''))))"

section \<open>Printing and exit codes\<close>

text \<open>What \<open>printf\<close> prints of \<open>c_str()\<close>.\<close>

definition c_str :: "string \<Rightarrow> string" where
  "c_str t = takeWhile (\<lambda>c. c \<noteq> CHR 0x00) t"

definition print_out :: "string \<Rightarrow> (unit, station) op" where
  "print_out t = op_update (\<lambda>s. s\<lparr>st_out := st_out s @ t\<rparr>)"

definition print_err :: "string \<Rightarrow> (unit, station) op" where
  "print_err t = op_update (\<lambda>s. s\<lparr>st_err := st_err s @ t\<rparr>)"

definition exit_ok :: "(nat, station) op" where "exit_ok = op_return 0"

definition exit_on :: "code \<Rightarrow> (nat, station) op" where
  "exit_on k = op_return (if k = Code_Ok then 0 else 1)"

definition usage_error :: "string \<Rightarrow> (nat, station) op" where
  "usage_error m =
     op_then (print_err (''podfabricctl: '' @ c_str m @ newline @ ''run 'podfabricctl --help' for usage'' @ newline))
     (op_return 2)"

definition tool_fail :: "code \<Rightarrow> string \<Rightarrow> (nat, station) op" where
  "tool_fail k m =
     op_then (print_err (''podfabricctl: '' @ c_str (status_to_string (Fail k m)) @ newline)) (op_return 1)"

text \<open>\<open>if (!x.ok()) return fail(x.status());\<close>\<close>

definition checked :: "'a result \<Rightarrow> ('a \<Rightarrow> (nat, station) op) \<Rightarrow> (nat, station) op" where
  "checked m f =
     (case m of Inl (Fail k t) \<Rightarrow> tool_fail k t | Inl (Undefined u) \<Rightarrow> op_lift (Inl (Undefined u)) | Inr x \<Rightarrow> f x)"

definition checked_op :: "('a, station) op \<Rightarrow> ('a \<Rightarrow> (nat, station) op) \<Rightarrow> (nat, station) op" where
  "checked_op m f s = (case m s of (r, t) \<Rightarrow> checked r f t)"

definition read_text_file :: "string \<Rightarrow> nat \<Rightarrow> (string, station) op" where
  "read_text_file path limit = op_bind (read_file path limit) (\<lambda>bs. op_return (string_of_bytes bs))"

definition write_text_file :: "string \<Rightarrow> string \<Rightarrow> (nat, station) op" where
  "write_text_file path t = checked_op (write_file path (bytes_of_string t)) (\<lambda>_. exit_ok)"

section \<open>Working on files\<close>

text \<open>The snapshot in a file, as \<open>compose\<close> and \<open>apply\<close> read it.\<close>

definition snapshot_limit :: nat where "snapshot_limit = 16 * 1024 * 1024"

definition load_snapshot :: "string \<Rightarrow> nat \<Rightarrow> (pod_snapshot, station) op" where
  "load_snapshot path limit = op_bind (read_text_file path limit) (\<lambda>t. op_lift (snapshot_from_text t))"

definition context_new :: composition_context where
  "context_new =
     \<lparr>cx_epoch = 0, cx_incarnation = uuid_nil, cx_expectations = [], cx_granted_tokens = [], cx_revoked_tokens = [],
      cx_now = 0, cx_recovered_from_store = False, cx_recovered_at = 0, cx_ambiguous_commit = False,
      cx_lifecycle = Life_Constructing\<rparr>"

definition request_of :: "pod_snapshot \<Rightarrow> composition_context \<Rightarrow> composition_request" where
  "request_of s x = \<lparr>rq_snapshot = s, rq_context = x, rq_policy = policy_default\<rparr>"

definition expecting :: "pod_snapshot \<Rightarrow> composition_context" where
  "expecting s = context_new\<lparr>cx_expectations := expectations_for s, cx_epoch := 1\<rparr>"

text \<open>\<open>command_compose\<close> behind the reading of its evidence.\<close>

definition compose_and_write :: "cli_options \<Rightarrow> composition_request \<Rightarrow> (nat, station) op" where
  "compose_and_write opts r =
     checked (compose r) (\<lambda>state.
       let rendered = state_text state True; path = value_or opts ''--out'' []
       in if path = [] then op_then (print_out rendered) exit_ok else write_text_file path rendered)"

definition command_compose :: "cli_options \<Rightarrow> (nat, station) op" where
  "command_compose opts =
     checked (required opts ''--snapshot'') (\<lambda>path.
     checked_op (load_snapshot path snapshot_limit) (\<lambda>s.
       let expectations_path = value_or opts ''--expectations'' []
       in if expectations_path = [] then compose_and_write opts (request_of s context_new)
          else checked_op (load_snapshot expectations_path (4 * 1024 * 1024)) (\<lambda>e.
            compose_and_write opts (request_of s (expecting e)))))"

text \<open>\<open>command_synthesize\<close>: its numbers, then what it makes up and where to, or how it ends before that.\<close>

definition numeric_options :: "cli_options \<Rightarrow> (u64 \<times> u64 \<times> u64 \<times> u64 \<times> u64 \<times> u64 \<times> u64 \<times> int) result" where
  "numeric_options opts =
     try_bind (unsigned_or opts ''--racks'' 4) (\<lambda>racks. try_bind (unsigned_or opts ''--domains'' 2) (\<lambda>domains.
     try_bind (unsigned_or opts ''--seed'' 1) (\<lambda>seed. try_bind (unsigned_or opts ''--generation'' 7) (\<lambda>generation.
     try_bind (unsigned_or opts ''--capacity'' 100) (\<lambda>capacity. try_bind (unsigned_or opts ''--reserved'' 10) (\<lambda>reserved.
     try_bind (unsigned_or opts ''--omit-every'' 0) (\<lambda>omit. try_bind (signed_or opts ''--observed-at'' 0) (\<lambda>observed.
     Inr (racks, domains, seed, generation, capacity, reserved, omit, observed)))))))))"

definition synthetic_options_of :: "cli_options \<Rightarrow> ident \<Rightarrow> u64 \<Rightarrow> u64 \<Rightarrow> u64 \<Rightarrow> u64 \<Rightarrow> u64 \<Rightarrow> u64 \<Rightarrow> u64 \<Rightarrow> int \<Rightarrow> synthetic_options" where
  "synthetic_options_of opts pod racks domains seed generation capacity reserved omit observed =
     synthetic_default\<lparr>sy_pod := pod, sy_id_prefix := value_or opts ''--prefix'' ''rack'', sy_racks := ucast racks,
       sy_power_domains := ucast domains, sy_seed := seed, sy_generation := generation, sy_capacity := capacity,
       sy_reserved := reserved, sy_omit_every := ucast omit, sy_full_mesh := \<not> has_flag opts ''--ring'',
       sy_observed_at := (if observed > 0 then observed else 0)\<rparr>"

definition synthesize_plan :: "cli_options \<Rightarrow> (nat, station) op + string \<times> synthetic_options" where
  "synthesize_plan opts =
     (case required opts ''--out'' of
        Inl e \<Rightarrow> Inl (checked (Inl e) op_return)
      | Inr path \<Rightarrow>
          case id_parse (value_or opts ''--pod'' ''pod-demo'') of
            Inl e \<Rightarrow> Inl (checked (Inl e) op_return)
          | Inr pod \<Rightarrow>
              case numeric_options opts of
                Inl _ \<Rightarrow> Inl (usage_error ''a numeric option is out of range'')
              | Inr (racks, domains, seed, generation, capacity, reserved, omit, observed) \<Rightarrow>
                  if racks = 0 \<or> racks > 4096 then Inl (usage_error ''--racks must be between 1 and 4096'')
                  else if domains = 0 \<or> domains > 4096 then Inl (usage_error ''--domains must be between 1 and 4096'')
                  else if reserved > capacity then Inl (usage_error ''--reserved must not exceed --capacity'')
                  else Inr (path, synthetic_options_of opts pod racks domains seed generation capacity reserved omit observed))"

definition command_synthesize :: "cli_options \<Rightarrow> (nat, station) op" where
  "command_synthesize opts =
     (case synthesize_plan opts of
        Inl stop \<Rightarrow> stop
      | Inr (path, y) \<Rightarrow> checked (synthesize y) (\<lambda>s. write_text_file path (snapshot_text s)))"

section \<open>Talking to a daemon\<close>

type_synonym dial = "string \<Rightarrow> u16 \<Rightarrow> socket result"

definition connect :: "dial \<Rightarrow> cli_options \<Rightarrow> client result" where
  "connect dial opts = try_bind (required opts ''--endpoint'') (client_connect dial)"

definition ask :: "request \<Rightarrow> client \<Rightarrow> response result" where
  "ask q k = fst (client_call q k)"

definition base_request :: "message_kind \<Rightarrow> request" where
  "base_request kind = request_default\<lparr>pr_kind := kind\<rparr>"

definition bit_text :: "bool \<Rightarrow> string" where
  "bit_text b = (if b then ''1'' else ''0'')"

definition status_lines :: "response \<Rightarrow> string" where
  "status_lines body =
     ''code='' @ code_to_string (an_code body) @ '' epoch='' @ dec_u64 (an_epoch body) @
     '' lifecycle='' @ lifecycle_to_string (an_lifecycle body) @ '' established='' @ dec_u64 (an_established body) @
     '' fenced='' @ dec_u64 (an_fenced body) @ '' stale='' @ dec_u64 (an_stale body) @
     '' conflicting='' @ dec_u64 (an_conflicting body) @ newline @
     ''digest='' @ digest_to_hex (an_state_digest body) @ '' recovery='' @ recovery_outcome_to_string (an_recovery body) @
     '' ambiguous-commit='' @ bit_text (an_ambiguous_commit body) @
     '' incarnation='' @ uuid_to_string (an_incarnation body) @ newline"

definition command_inspect :: "dial \<Rightarrow> cli_options \<Rightarrow> bool \<Rightarrow> (nat, station) op" where
  "command_inspect dial opts full =
     checked (connect dial opts) (\<lambda>k.
     checked (ask (base_request (if full then Msg_Describe else Msg_Status)) k) (\<lambda>body.
     op_then (if full then op_return () else print_out (status_lines body))
     (op_then (print_out (an_text body)) (exit_on (an_code body)))))"

definition apply_lines :: "response \<Rightarrow> string" where
  "apply_lines body =
     ''outcome='' @ apply_outcome_to_string (an_outcome body) @ '' code='' @ code_to_string (an_code body) @
     '' epoch='' @ dec_u64 (an_epoch body) @ '' lifecycle='' @ lifecycle_to_string (an_lifecycle body) @
     '' digest='' @ digest_to_hex (an_state_digest body) @ newline @
     ''revalidation-sound='' @ bit_text (an_revalidation_sound body) @ '' '' @ c_str (an_revalidation body) @ newline"

definition command_apply :: "dial \<Rightarrow> cli_options \<Rightarrow> (nat, station) op" where
  "command_apply dial opts =
     checked (required opts ''--snapshot'') (\<lambda>path.
     checked_op (load_snapshot path snapshot_limit) (\<lambda>s.
     checked (connect dial opts) (\<lambda>k.
     checked (ask ((base_request Msg_Apply)\<lparr>pr_snapshot := s\<rparr>) k) (\<lambda>body.
     op_then (print_out (apply_lines body))
     (if \<not> an_revalidation_sound body
      then op_then (print_err (''podfabricctl: the server reported an unsound revalidation plan'' @ newline)) (op_return 1)
      else exit_on (an_code body))))))"

definition command_admin :: "dial \<Rightarrow> cli_options \<Rightarrow> admin_state \<Rightarrow> (nat, station) op" where
  "command_admin dial opts state =
     checked (required opts ''--rack'') (\<lambda>text.
     checked (id_parse text) (\<lambda>rack.
     checked (connect dial opts) (\<lambda>k.
     checked (ask ((base_request Msg_SetAdmin)\<lparr>pr_rack := rack, pr_admin := state,
         pr_clear_admin := has_flag opts ''--clear''\<rparr>) k) (\<lambda>body.
     op_then (print_out (c_str (an_message body) @ '' '' @ rack @ newline)) (exit_on (an_code body))))))"

definition command_retire :: "dial \<Rightarrow> cli_options \<Rightarrow> (nat, station) op" where
  "command_retire dial opts =
     checked (connect dial opts) (\<lambda>k.
     checked (ask (base_request Msg_Retire) k) (\<lambda>body.
     op_then (print_out (c_str (an_message body) @ newline)) (exit_on (an_code body))))"

section \<open>Authority on the command line\<close>

text \<open>\<open>lease_ms * nanos_per_millisecond\<close> is signed and unchecked.\<close>

definition lease_nanos :: "int \<Rightarrow> nanos result" where
  "lease_nanos lease_ms = i64_result (lease_ms * 1000000)"

definition mint_scope :: "string \<Rightarrow> authority_scope option" where
  "mint_scope t =
     (if t = ''pod'' then Some Scope_Pod
      else if t = ''member'' then Some Scope_Member
      else if t = ''link'' then Some Scope_Link
      else if t = ''capacity-reservation'' then Some Scope_CapacityReservation
      else if t = ''maintenance-window'' then Some Scope_MaintenanceWindow
      else None)"

text \<open>An optional rack: nil when it is not given.\<close>

definition rack_option :: "cli_options \<Rightarrow> ident result" where
  "rack_option opts = (let t = value_or opts ''--rack'' [] in if t = [] then Inr [] else id_parse t)"

definition encode_token :: "authority_token \<Rightarrow> byte list result" where
  "encode_token = encode_whole put_token"

definition mint_line :: "authority_token \<Rightarrow> string" where
  "mint_line t =
     ''lease='' @ at_lease t @ '' epoch='' @ dec_u64 (at_epoch t) @ '' expires-at='' @ dec_string_int (at_expires_at t) @
     '' scope='' @ scope_to_string (at_scope t) @ newline"

definition save_token :: "cli_options \<Rightarrow> authority_token \<Rightarrow> (nat, station) op" where
  "save_token opts t =
     (let path = value_or opts ''--out'' [] in
      if path = [] then exit_ok
      else checked (encode_token t) (\<lambda>bytes. checked_op (write_file path bytes) (\<lambda>_. exit_ok)))"

definition command_mint :: "dial \<Rightarrow> cli_options \<Rightarrow> (nat, station) op" where
  "command_mint dial opts =
     checked (connect dial opts) (\<lambda>k.
       case mint_scope (value_or opts ''--scope'' ''pod'') of
         None \<Rightarrow> usage_error ''--scope is not a known authority scope''
       | Some scope \<Rightarrow>
           checked (rack_option opts) (\<lambda>rack.
             case signed_or opts ''--lease-ms'' 0 of
               Inl e \<Rightarrow> usage_error (case e of Fail _ m \<Rightarrow> m | Undefined m \<Rightarrow> m)
             | Inr lease_ms \<Rightarrow>
                 checked (lease_nanos lease_ms) (\<lambda>lifetime.
                 checked (ask ((base_request Msg_Mint)\<lparr>pr_scope := scope, pr_rack := rack, pr_lifetime := lifetime\<rparr>) k) (\<lambda>body.
                   if an_code body \<noteq> Code_Ok
                   then op_then (print_err (''podfabricctl: '' @ c_str (an_message body) @ newline)) (op_return 1)
                   else op_then (print_out (mint_line (an_token body))) (save_token opts (an_token body))))))"

definition command_revoke :: "dial \<Rightarrow> cli_options \<Rightarrow> (nat, station) op" where
  "command_revoke dial opts =
     checked (required opts ''--lease'') (\<lambda>text.
     checked (id_parse text) (\<lambda>lease.
     checked (connect dial opts) (\<lambda>k.
     checked (ask ((base_request Msg_Revoke)\<lparr>pr_lease := lease\<rparr>) k) (\<lambda>body.
     op_then (print_out (c_str (an_message body) @ newline)) (exit_on (an_code body))))))"

text \<open>The token in a file; what follows it is not looked at.\<close>

definition token_limit :: nat where "token_limit = 64 * 1024"

definition load_token :: "string \<Rightarrow> (authority_token, station) op" where
  "load_token path =
     op_bind (read_file path token_limit) (\<lambda>bytes. op_lift (fst (get_token (reader_new bytes default_limits))))"

definition command_check :: "dial \<Rightarrow> cli_options \<Rightarrow> (nat, station) op" where
  "command_check dial opts =
     checked (required opts ''--token'') (\<lambda>path.
     checked_op (load_token path) (\<lambda>token.
     checked (connect dial opts) (\<lambda>k.
       let scope = (if value_or opts ''--scope'' ''pod'' = ''member'' then Scope_Member else Scope_Pod) in
       checked (rack_option opts) (\<lambda>rack.
       checked (ask ((base_request Msg_CheckAuthority)\<lparr>pr_token := token, pr_scope := scope, pr_rack := rack\<rparr>) k) (\<lambda>body.
       op_then (print_out (''verdict='' @ verdict_code_to_string (an_verdict body) @ '' code='' @ code_to_string (an_code body) @
         '' detail='' @ c_str (an_verdict_detail body) @ newline))
       (op_return (if an_verdict body = Verdict_Valid then 0 else 1)))))))"

definition command_shutdown :: "dial \<Rightarrow> cli_options \<Rightarrow> (nat, station) op" where
  "command_shutdown dial opts =
     checked (connect dial opts) (\<lambda>k.
     checked (ask (base_request Msg_Shutdown) k) (\<lambda>body.
     op_then (print_out (c_str (an_message body) @ newline)) exit_ok))"

section \<open>The program\<close>

text \<open>The self test: a line per check, its label padded to 56 columns; the exit code counts a failure.\<close>

definition selftest_line :: "bool \<times> string \<Rightarrow> string" where
  "selftest_line c = snd c @ replicate (56 - length (snd c)) (CHR '' '') @ '' '' @ (if fst c then ''ok'' else ''FAILED'') @ newline"

definition selftest_options :: synthetic_options where
  "selftest_options = synthetic_default\<lparr>sy_pod := ''pod-selftest'', sy_racks := 4, sy_power_domains := 2, sy_with_obligations := False\<rparr>"

definition digest_checks :: "(bool \<times> string) list" where
  "digest_checks =
     [(digest_to_hex (digest_of_string []) = ''e3b0c44298fc1c149afbf4c8996fb92427ae41e4649b934ca495991b7852b855'',
       ''sha256 of the empty message matches the reference vector''),
      (digest_to_hex (digest_of_string ''abc'') = ''ba7816bf8f01cfea414140de5dae2223b00361a396177a9cb410ff61f20015ad'',
       ''sha256 of abc matches the reference vector'')]"

definition composed_checks :: "pod_state \<Rightarrow> pod_state result \<Rightarrow> (bool \<times> string) list" where
  "composed_checks s again =
     [(ps_lifecycle s = Life_Active, ''a healthy pod reports active''),
      (case again of Inl _ \<Rightarrow> False | Inr t \<Rightarrow> ps_state_digest t = ps_state_digest s, ''composition is deterministic''),
      (case find_capacity s ''fabric.bandwidth'' of None \<Rightarrow> False | Some a \<Rightarrow> ca_total a = 400,
       ''aggregate capacity counts every rack exactly once'')]"

definition selftest_checks :: "pod_state result \<Rightarrow> (bool \<times> string) list" where
  "selftest_checks first =
     digest_checks @
     [(case first of Inl _ \<Rightarrow> False | Inr _ \<Rightarrow> True, ''a synthetic four-rack pod composes'')] @
     (case first of Inl _ \<Rightarrow> [] | Inr s \<Rightarrow> composed_checks s first)"

definition command_selftest :: "(nat, station) op" where
  "command_selftest =
     checked (id_parse ''pod-selftest'') (\<lambda>pod.
     checked (synthesize (selftest_options\<lparr>sy_pod := pod\<rparr>)) (\<lambda>s.
       case compose (request_of s (expecting s)) of
         Inl (Undefined u) \<Rightarrow> op_lift (Inl (Undefined u))
       | first \<Rightarrow>
           let checks = selftest_checks first; failures = length (filter (\<lambda>c. \<not> fst c) checks) in
           op_then (print_out (concat (map selftest_line checks) @ newline @ dec_string failures @ '' check(s) failed'' @ newline))
           (op_return (if failures = 0 then 0 else 1))))"

definition usage_lines :: "string list" where
  "usage_lines =
     [''podfabricctl <command> [options]'', '''', ''Commands:'',
      ''  compose      --snapshot <file> [--out <file>] [--expectations <file>]'',
      ''  synthesize   --out <file> [--pod <id>] [--racks <n>] [--domains <n>] [--seed <n>]'',
      ''               [--generation <n>] [--capacity <n>] [--reserved <n>] [--omit-every <n>]'',
      ''               [--ring] [--observed-at <n>] [--prefix <text>]'',
      ''  status       --endpoint <host:port>'',
      ''  describe     --endpoint <host:port>'',
      ''  apply        --endpoint <host:port> --snapshot <file>'',
      ''  drain        --endpoint <host:port> --rack <id> [--clear]'',
      ''  maintenance  --endpoint <host:port> --rack <id> [--clear]'',
      ''  retire       --endpoint <host:port>'',
      ''  mint         --endpoint <host:port> [--scope pod|member] [--rack <id>] [--lease-ms <n>]'',
      ''               [--out <file>]'',
      ''  revoke       --endpoint <host:port> --lease <id>'',
      ''  check        --endpoint <host:port> --token <file> [--scope pod|member] [--rack <id>]'',
      ''  shutdown     --endpoint <host:port>'',
      ''  selftest'', ''  version'', '''',
      ''Exit codes: 0 success, 1 operation refused or failed, 2 usage error.'']"

definition print_usage :: "(unit, station) op" where
  "print_usage = print_out (concat (map (\<lambda>l. l @ newline) usage_lines))"

definition print_version :: "(nat, station) op" where
  "print_version = op_then (print_out (''podfabricctl 1.0.0'' @ newline)) exit_ok"

definition ctl_value_flags :: "string list" where
  "ctl_value_flags =
     [''--snapshot'', ''--out'', ''--expectations'', ''--endpoint'', ''--rack'', ''--scope'', ''--lease-ms'', ''--lease'',
      ''--token'', ''--pod'', ''--prefix'', ''--racks'', ''--domains'', ''--seed'', ''--generation'', ''--capacity'',
      ''--reserved'', ''--omit-every'', ''--observed-at'']"

definition ctl_bool_flags :: "string list" where
  "ctl_bool_flags = [''--help'', ''--version'', ''--clear'', ''--ring'']"

definition dispatch_command :: "dial \<Rightarrow> cli_options \<Rightarrow> string \<Rightarrow> (nat, station) op" where
  "dispatch_command dial opts command =
     (if command = ''compose'' then command_compose opts
      else if command = ''synthesize'' then command_synthesize opts
      else if command = ''status'' then command_inspect dial opts False
      else if command = ''describe'' then command_inspect dial opts True
      else if command = ''apply'' then command_apply dial opts
      else if command = ''drain'' then command_admin dial opts Admin_Draining
      else if command = ''maintenance'' then command_admin dial opts Admin_Maintenance
      else if command = ''retire'' then command_retire dial opts
      else if command = ''mint'' then command_mint dial opts
      else if command = ''revoke'' then command_revoke dial opts
      else if command = ''check'' then command_check dial opts
      else if command = ''shutdown'' then command_shutdown dial opts
      else if command = ''selftest'' then command_selftest
      else if command = ''version'' then print_version
      else usage_error (''unrecognised command '' @ CHR 0x27 # command @ [CHR 0x27]))"

text \<open>\<open>main\<close>, from the arguments behind the name of the program.\<close>

definition ctl_main :: "dial \<Rightarrow> string list \<Rightarrow> (nat, station) op" where
  "ctl_main dial args =
     (if args \<noteq> [] \<and> hd args = ''--help'' then op_then print_usage exit_ok
      else if args \<noteq> [] \<and> hd args = ''--version'' then print_version
      else case cli_parse args ctl_value_flags ctl_bool_flags 1 of
          Inl e \<Rightarrow> usage_error (case e of Fail _ m \<Rightarrow> m | Undefined m \<Rightarrow> m)
        | Inr opts \<Rightarrow>
            case cli_positional opts of
              [] \<Rightarrow> op_then print_usage (op_return 2)
            | command # _ \<Rightarrow> dispatch_command dial opts command)"

section \<open>Files that one command writes and another reads\<close>

lemma st_call_quiet: "st_faults s = [] \<Longrightarrow> st_call k m f p s = (success, f s)" "st_faults s = [] \<Longrightarrow> st_query k m s = (success, s)"
  by (simp_all add: st_call_def st_query_def)

lemma put_content_simps [simp]:
  "st_faults (put_content path bs s) = st_faults s" "st_disk (put_content path bs s) path = Some bs"
  "content_of path (put_content path bs s) = bs" "put_content path bs (put_content path cs s) = put_content path bs s"
  by (simp_all add: put_content_def content_of_def)

lemma write_file_quiet: "st_faults s = [] \<Longrightarrow> write_file path bs s = (success, put_content path bs s)"
  by (simp add: write_file_def op_bind_def st_call_quiet op_when_def op_return_def)

lemma read_file_quiet:
  "st_faults s = [] \<Longrightarrow> st_disk s path = Some bs \<Longrightarrow> length bs \<le> n \<Longrightarrow> read_file path n s = (Inr bs, s)"
  by (simp add: read_file_def op_bind_def st_call_quiet op_when_def op_return_def op_guard_def content_of_def)

lemma load_snapshot_quiet:
  assumes "st_faults s = []" "st_disk s path = Some (bytes_of_string t)" "length t \<le> n"
  shows "load_snapshot path n s = (snapshot_from_text t, s)"
  using assms read_file_quiet[of s path "bytes_of_string t" n]
  by (simp add: load_snapshot_def read_text_file_def op_bind_def op_return_def op_lift_def)

lemma write_text_quiet: "st_faults s = [] \<Longrightarrow> write_text_file path t s = (Inr 0, put_content path (bytes_of_string t) s)"
  by (simp add: write_text_file_def checked_op_def write_file_quiet checked_def exit_ok_def op_return_def)

lemma token_file:
  assumes "token_ok t"
  obtains bs where "encode_token t = Inr bs" "length bs \<le> token_limit" "fst (get_token (reader_new bs default_limits)) = Inr t"
proof -
  obtain cs where cs: "emits (put_token t) cs" "length cs \<le> 12500" using writes_token[OF assms] by (auto simp: writes_def)
  then have e: "encode_token t = Inr cs"
    by (auto simp: emits_def encode_token_def encode_whole_def writer_ok_def writer_new_def default_limits_def
        dest!: spec[of _ "writer_new (16 * 1024 * 1024)"])
  then have "decode_whole get_token cs = Inr t" by (simp add: encode_token_def token_codec.whole(1)[OF assms])
  then have "fst (get_token (reader_new cs default_limits)) = Inr t"
    by (auto simp: decode_whole_def result_simps split: prod.splits sum.splits)
  then show thesis using that e cs(2) by (simp add: token_limit_def)
qed

lemma save_token_quiet:
  assumes "encode_token t = Inr bs" "st_faults s = []" "value_or opts ''--out'' [] \<noteq> []"
  shows "save_token opts t s = (Inr 0, put_content (value_or opts ''--out'' []) bs s)"
  using assms by (simp add: save_token_def checked_def checked_op_def write_file_quiet exit_ok_def op_return_def Let_def)

text \<open>
  The token that \<open>mint\<close> writes to a file is the token that \<open>check\<close> presents to the server, when no call of the
  operating system fails: every representable token, whatever the file held before, and with nothing else on the station changed.
\<close>

theorem minted_token_is_presented:
  assumes "token_ok t" "st_faults s = []" "value_or opts ''--out'' [] \<noteq> []"
  shows "\<exists>bs. let path = value_or opts ''--out'' []; s' = s\<lparr>st_disk := (st_disk s)(path \<mapsto> bs)\<rparr>
    in save_token opts t s = (Inr 0, s') \<and> load_token path s' = (Inr t, s')"
proof -
  obtain bs where bs: "encode_token t = Inr bs" "length bs \<le> token_limit" "fst (get_token (reader_new bs default_limits)) = Inr t"
    using token_file[OF assms(1)] .
  let ?s = "put_content (value_or opts ''--out'' []) bs s"
  have "read_file (value_or opts ''--out'' []) token_limit ?s = (Inr bs, ?s)"
    using bs(2) assms(2) by (intro read_file_quiet) simp_all
  then have "load_token (value_or opts ''--out'' []) ?s = (Inr t, ?s)"
    using bs(3) by (simp add: load_token_def op_bind_def op_lift_def)
  then show ?thesis using save_token_quiet[OF bs(1) assms(2,3)] by (auto simp: Let_def put_content_def)
qed

lemma signed_or_time: "signed_or opts name d = Inr v \<Longrightarrow> time_ok d \<Longrightarrow> time_ok v"
proof -
  have "time_ok (uint m) \<and> time_ok (- uint m)" if "\<not> m > (0x7FFFFFFFFFFFFFFF :: u64)" for m
  proof -
    have "0 \<le> uint m" "uint m \<le> 0x7FFFFFFFFFFFFFFF" using that by (simp_all add: word_less_def)
    then have "- 9223372036854775808 \<le> uint m" "uint m < 9223372036854775808" "- 9223372036854775808 \<le> - uint m" "- uint m < 9223372036854775808"
      by linarith+
    then show ?thesis by (simp only: time_ok_def) simp
  qed
  then show "signed_or opts name d = Inr v \<Longrightarrow> time_ok d \<Longrightarrow> time_ok v"
    by (auto simp: signed_or_def Let_def result_simps split: if_splits)
qed

lemma signed_or_bound: "signed_or opts name 0 = Inr v \<Longrightarrow> v < 9223372036854775808"
  using signed_or_time[of opts name 0 v] by (simp add: time_ok_def)

lemma planned_options: "synthesize_plan opts = Inr (path, y) \<Longrightarrow> plain_options y"
  by (auto simp: synthesize_plan_def plain_options_def synthetic_options_of_def synthetic_default_def numeric_options_def
      result_simps time_ok_def split: sum.splits if_splits) (drule signed_or_bound, simp)

text \<open>
  C21: \<open>synthesize\<close> writes what \<open>compose\<close> reads. When the options ask for counts within the limits of the default policy and no call
  of the operating system fails, \<open>synthesize\<close> ends with exit code 0, changes nothing but its file, and, if the text is
  within the 16 MiB that \<open>compose\<close> accepts, every \<open>compose\<close> on this file without expectations composes exactly the snapshot that was made up.
\<close>

theorem synthesized_file_is_composed:
  assumes "synthesize_plan opts = Inr (path, y)" "modest y" "st_faults s = []"
  shows "\<exists>snapshot. synthesize y = Inr snapshot \<and>
    (let t = s\<lparr>st_disk := (st_disk s)(path \<mapsto> bytes_of_string (snapshot_text snapshot))\<rparr>
     in command_synthesize opts s = (Inr 0, t) \<and>
       (length (snapshot_text snapshot) \<le> snapshot_limit \<longrightarrow>
        (\<forall>opts'. required opts' ''--snapshot'' = Inr path \<and> value_or opts' ''--expectations'' [] = [] \<longrightarrow>
          command_compose opts' t = compose_and_write opts' (request_of snapshot context_new) t)))"
proof -
  have "rack_count y \<noteq> - 1" using modest_bounds(5)[OF assms(2)] by (auto simp: unat_minus_1)
  then obtain snapshot where snap: "synthesize y = Inr snapshot" using synthesize_returns by blast
  let ?t = "put_content path (bytes_of_string (snapshot_text snapshot)) s"
  have run: "command_synthesize opts s = (Inr 0, ?t)"
    using snap write_text_quiet[OF assms(3)] by (simp add: command_synthesize_def assms(1) checked_def)
  have "text_snapshot_ok snapshot" by (rule synthesized_text_ok[OF snap assms(2) planned_options[OF assms(1)]])
  then have parsed: "snapshot_from_text (snapshot_text snapshot) = Inr snapshot" by (rule text_parses_back)
  have "command_compose opts' ?t = compose_and_write opts' (request_of snapshot context_new) ?t"
    if "length (snapshot_text snapshot) \<le> snapshot_limit" "required opts' ''--snapshot'' = Inr path"
      "value_or opts' ''--expectations'' [] = []" for opts'
  proof -
    have "load_snapshot path snapshot_limit ?t = (snapshot_from_text (snapshot_text snapshot), ?t)"
      using assms(3) that(1) by (intro load_snapshot_quiet) simp_all
    then show ?thesis using parsed that(2,3) by (simp add: command_compose_def checked_def checked_op_def Let_def)
  qed
  then show ?thesis using snap run by (auto simp: put_content_def Let_def)
qed

definition idle_station :: station where
  "idle_station = \<lparr>st_disk = (\<lambda>_. None), st_faults = [], st_out = [], st_err = []\<rparr>"

text \<open>\<open>synthesize --out f --racks 1 --domains 1\<close>, and \<open>compose --snapshot f\<close>.\<close>

definition demo_synthesis :: cli_options where
  "demo_synthesis = \<lparr>cli_positional = [''synthesize''],
     cli_values = [(''--domains'', [''1'']), (''--out'', [''f'']), (''--racks'', [''1''])], cli_flags = []\<rparr>"

definition demo_composition :: cli_options where
  "demo_composition = \<lparr>cli_positional = [''compose''], cli_values = [(''--snapshot'', [''f''])], cli_flags = []\<rparr>"

definition demo_single :: synthetic_options where
  "demo_single = synthetic_options_of demo_synthesis ''pod-demo'' 1 1 1 7 100 10 0 0"

lemma demo_plan: "synthesize_plan demo_synthesis = Inr (''f'', demo_single)"
proof -
  have n: "to_unsigned ''1'' what = Inr 1" for what by (simp add: to_unsigned_def)
  have v: "option_values demo_synthesis name = (if name = ''--domains'' then [''1''] else if name = ''--out'' then [''f'']
      else if name = ''--racks'' then [''1''] else [])" for name
    by (simp add: option_values_def demo_synthesis_def smap_get_def)
  have "is_canonical_id ''pod-demo''" by code_simp
  then show ?thesis
    by (simp add: synthesize_plan_def required_def value_or_def numeric_options_def unsigned_or_def signed_or_def v n id_parse_def
        demo_single_def)
qed

lemma demo_single_modest: "modest demo_single" "rack_count demo_single = 1" "domain_count demo_single = 1"
  by (simp_all add: demo_single_def synthetic_options_of_def synthetic_default_def modest_def rack_count_def domain_count_def)

lemma demo_short:
  assumes "synthesize demo_single = Inr snapshot"
  shows "length (snapshot_text snapshot) \<le> snapshot_limit"
proof -
  have "length (rack_ids demo_single) \<le> 1" using rack_ids_length[of demo_single] by (simp add: demo_single_modest)
  then have "pairs_below (length (rack_ids demo_single)) = []" by (cases "length (rack_ids demo_single)") (simp_all add: pairs_below_def)
  then have "sn_links snapshot = []" by (simp add: synthesize_fields[OF assms] synthetic_links_def)
  then have "length (snapshot_lines snapshot) \<le> 33"
    using synthesized_line_count[OF assms demo_single_modest(1) planned_options[OF demo_plan]] by (simp add: demo_single_modest)
  then show ?thesis
    using synthesized_text_length[OF assms demo_single_modest(1) planned_options[OF demo_plan]] by (simp add: snapshot_limit_def)
qed

theorem synthesized_file_is_composed_witness:
  "\<exists>snapshot. synthesize demo_single = Inr snapshot \<and>
    (let t = idle_station\<lparr>st_disk := (st_disk idle_station)(''f'' \<mapsto> bytes_of_string (snapshot_text snapshot))\<rparr>
     in command_synthesize demo_synthesis idle_station = (Inr 0, t) \<and>
       command_compose demo_composition t = compose_and_write demo_composition (request_of snapshot context_new) t)"
proof -
  have "st_faults idle_station = []" by (simp add: idle_station_def)
  moreover have "required demo_composition ''--snapshot'' = Inr ''f''" "value_or demo_composition ''--expectations'' [] = []"
    by (simp_all add: required_def value_or_def option_values_def demo_composition_def smap_get_def)
  ultimately show ?thesis
    using synthesized_file_is_composed[OF demo_plan demo_single_modest(1)] demo_short by (fastforce simp: Let_def)
qed

theorem minted_token_is_presented_witness:
  "\<exists>bs. let path = ''f''; s' = idle_station\<lparr>st_disk := (st_disk idle_station)(path \<mapsto> bs)\<rparr>
    in save_token demo_synthesis token_default idle_station = (Inr 0, s') \<and> load_token path s' = (Inr token_default, s')"
proof -
  have v: "value_or demo_synthesis ''--out'' [] = ''f''"
    by (simp add: value_or_def option_values_def demo_synthesis_def smap_get_def)
  have "token_ok token_default" "st_faults idle_station = []" "value_or demo_synthesis ''--out'' [] \<noteq> []"
    by (simp_all add: v idle_station_def token_ok_def token_default_def id_ok_def digest_ok_def time_ok_def uuid_nil_def uuid_ok_def digest_zero_def)
  from minted_token_is_presented[OF this] show ?thesis by (simp only: v)
qed

end
