(* ===== verification/Daemon.thy ===== *)
theory Daemon
  imports Tools
begin

text \<open>
  The start of the daemon \<open>apps/podfabd/main.cpp\<close>: its options, the opening of the controller, the evidence it may apply
  first, and the start of the server. What runs after that is in \<open>Server\<close> and \<open>Pool\<close>.
\<close>

section \<open>Options\<close>

record daemon_plan =
  dp_options :: controller_options
  dp_host :: string
  dp_port :: u16
  dp_server :: server_options
  dp_evidence :: string

definition daemon_value_flags :: "string list" where
  "daemon_value_flags =
     [''--pod'', ''--store'', ''--listen'', ''--workers'', ''--lease-ms'', ''--evidence'', ''--max-text-bytes'']"

definition daemon_bool_flags :: "string list" where
  "daemon_bool_flags = [''--require-token'', ''--help'', ''--version'']"

definition daemon_usage :: "string list" where
  "daemon_usage =
     [''podfabd --pod <id> [--store <dir>] [--listen <host:port>] [--workers <n>]'',
      ''        [--require-token] [--lease-ms <n>] [--evidence <file>]'',
      ''        [--warm-up] [--max-text-bytes <n>] [--help]'', '''',
      ''--store is optional; without it the daemon is memory-only and reports so.'',
      ''--listen defaults to 127.0.0.1:0, which asks the operating system for a free port.'',
      ''--evidence applies a synthetic snapshot at start-up, which makes the daemon'',
      ''  immediately useful for inspection and for the multiprocess proofs.'']"

text \<open>A message and an exit code.\<close>

definition daemon_stop :: "nat \<Rightarrow> string \<Rightarrow> (nat, station) op" where
  "daemon_stop n m = op_then (print_err (''podfabd: '' @ c_str m @ newline)) (op_return n)"

text \<open>The result of a step that may fail: it ends the daemon, or it goes on.\<close>

definition or_stop :: "nat \<Rightarrow> string \<Rightarrow> 'a result \<Rightarrow> ('a \<Rightarrow> (nat, station) op + 'b) \<Rightarrow> (nat, station) op + 'b" where
  "or_stop n before m f =
     (case m of
        Inl (Fail k t) \<Rightarrow> Inl (daemon_stop n (before @ status_to_string (Fail k t)))
      | Inl (Undefined u) \<Rightarrow> Inl (op_lift (Inl (Undefined u)))
      | Inr x \<Rightarrow> f x)"

definition plan_from :: "cli_options \<Rightarrow> (nat, station) op + daemon_plan" where
  "plan_from opts =
     or_stop 2 [] (required opts ''--pod'') (\<lambda>text.
     if \<not> is_canonical_id text then Inl (daemon_stop 2 ''--pod is not a canonical identifier'')
     else or_stop 2 [] (signed_or opts ''--lease-ms'' 120000) (\<lambda>lease_ms.
     or_stop 2 [] (lease_nanos lease_ms) (\<lambda>lease.
     or_stop 2 ''--listen '' (parse_endpoint (value_or opts ''--listen'' ''127.0.0.1:0'')) (\<lambda>(host, port).
       case unsigned_or opts ''--workers'' 4 of
         Inl _ \<Rightarrow> Inl (daemon_stop 2 ''invalid numeric option'')
       | Inr workers \<Rightarrow>
           case unsigned_or opts ''--max-text-bytes'' (512 * 1024) of
             Inl _ \<Rightarrow> Inl (daemon_stop 2 ''invalid numeric option'')
           | Inr max_text \<Rightarrow>
               Inr \<lparr>dp_options = \<lparr>co_pod = text, co_policy = policy_default, co_store_directory = value_or opts ''--store'' [],
                      co_require_authority_token = has_flag opts ''--require-token'', co_default_lease_duration = lease,
                      co_max_observers = 32\<rparr>,
                    dp_host = host, dp_port = port,
                    dp_server = \<lparr>vo_workers = unat workers, vo_max_pending_connections = 64, vo_max_text_bytes = unat max_text\<rparr>,
                    dp_evidence = value_or opts ''--evidence'' []\<rparr>))))"

definition plan_daemon :: "string list \<Rightarrow> (nat, station) op + daemon_plan" where
  "plan_daemon args =
     or_stop 2 [] (cli_parse args daemon_value_flags daemon_bool_flags 0) (\<lambda>opts.
       if has_flag opts ''--help''
       then Inl (op_then (print_out (concat (map (\<lambda>l. l @ newline) daemon_usage))) (op_return 0))
       else if has_flag opts ''--version'' then Inl (op_then (print_out (''podfabd 1.0.0'' @ newline)) (op_return 0))
       else plan_from opts)"

section \<open>Starting\<close>

text \<open>A daemon that serves, or the exit code it ended with.\<close>

type_synonym started = "nat + controller \<times> u16"

definition give_up :: "string \<Rightarrow> (started, station) op" where
  "give_up m = op_bind (daemon_stop 1 m) (\<lambda>n. op_return (Inl n))"

definition proceed :: "string \<Rightarrow> 'a result \<Rightarrow> ('a \<Rightarrow> (started, station) op) \<Rightarrow> (started, station) op" where
  "proceed before m f =
     (case m of
        Inl (Fail k t) \<Rightarrow> give_up (before @ status_to_string (Fail k t))
      | Inl (Undefined u) \<Rightarrow> op_lift (Inl (Undefined u))
      | Inr x \<Rightarrow> f x)"

definition proceed_op :: "string \<Rightarrow> ('a, station) op \<Rightarrow> ('a \<Rightarrow> (started, station) op) \<Rightarrow> (started, station) op" where
  "proceed_op before m f s = (case m s of (r, t) \<Rightarrow> proceed before r f t)"

text \<open>The evidence given on the command line, applied once.\<close>

definition first_evidence :: "environment \<Rightarrow> string \<Rightarrow> controller \<Rightarrow> (controller \<Rightarrow> (started, station) op) \<Rightarrow> (started, station) op" where
  "first_evidence env path c continue =
     (if path = [] then continue c
      else proceed_op [] (read_file path snapshot_limit) (\<lambda>bytes.
        proceed ''evidence is not a valid snapshot: '' (snapshot_from_text (string_of_bytes bytes)) (\<lambda>evidence.
          case apply_evidence env evidence c of
            (r, d) \<Rightarrow> proceed ''the initial snapshot was refused: '' r (\<lambda>rep.
              op_then (print_out (''podfabd initial-apply='' @ apply_outcome_to_string (ap_outcome rep) @
                '' lifecycle='' @ lifecycle_to_string (ps_lifecycle (ap_state rep)) @ newline))
              (continue d)))))"

definition banner :: "daemon_plan \<Rightarrow> controller \<Rightarrow> u16 \<Rightarrow> string" where
  "banner p c port =
     ''podfabd pod='' @ co_pod (dp_options p) @ '' endpoint='' @ c_str (format_endpoint (dp_host p) port) @
     '' recovery='' @ recovery_outcome_to_string (rr_outcome (ct_recovery c)) @ '' epoch='' @ dec_u64 (ct_epoch c) @
     '' incarnation='' @ uuid_to_string (ct_incarnation c) @ newline"

definition start_daemon ::
  "environment \<Rightarrow> (string \<Rightarrow> u16 \<Rightarrow> nat \<Rightarrow> u16 result) \<Rightarrow> files \<Rightarrow> daemon_plan \<Rightarrow> (started, station) op" where
  "start_daemon env listen fs p =
     (case controller_open env (controller_new (dp_options p) fs) of
        (r, c) \<Rightarrow> proceed ''open failed: '' r (\<lambda>_.
          first_evidence env (dp_evidence p) c (\<lambda>d.
          proceed ''listen failed: '' (server_start (listen (dp_host p) (dp_port p)) (dp_server p) False) (\<lambda>port.
          op_then (print_out (banner p d port)) (op_return (Inr (d, port)))))))"

section \<open>Where the daemon can be reached\<close>

lemma or_stop_Inr: "or_stop n before m f = Inr b \<longleftrightarrow> (\<exists>x. m = Inr x \<and> f x = Inr b)"
  by (auto simp: or_stop_def split: sum.splits fault.splits)

lemma case_stop_Inr: "(case m of Inl e \<Rightarrow> Inl (g e) | Inr x \<Rightarrow> f x) = Inr b \<longleftrightarrow> (\<exists>x. m = Inr x \<and> f x = Inr b)"
  by (cases m) auto

lemma planned_host: "plan_daemon args = Inr p \<Longrightarrow> dp_host p \<noteq> []"
  by (auto simp: plan_daemon_def plan_from_def or_stop_Inr case_stop_Inr parse_endpoint_def result_simps
      split: if_split_asm)

lemma lease_nanos_Inr: "lease_nanos n = Inr v \<longleftrightarrow> - 9223372036854 \<le> n \<and> n \<le> 9223372036854 \<and> v = n * 1000000"
  by (auto simp: lease_nanos_def i64_result_def in_signed_def smin_def smax_def)

lemma proceed_started: "proceed before m f s = (Inr (Inr x), t) \<Longrightarrow> \<exists>y. m = Inr y \<and> f y s = (Inr (Inr x), t)"
  by (auto simp: proceed_def give_up_def daemon_stop_def op_bind_def op_return_def op_lift_def print_err_def op_update_def
      split: sum.splits fault.splits)

lemma first_evidence_started:
  "first_evidence env path c continue s = (Inr (Inr x), t) \<Longrightarrow> \<exists>d u. continue d u = (Inr (Inr x), t)"
  by (auto simp: first_evidence_def proceed_op_def op_bind_def print_out_def op_update_def split: if_splits prod.splits
      dest!: proceed_started) blast+

text \<open>The endpoint that the daemon prints is one that a client can dial.\<close>

lemma started_endpoint:
  assumes "plan_daemon args = Inr p" "start_daemon env listen fs p s = (Inr (Inr (c, port)), t)"
  shows "client_connect dial (format_endpoint (dp_host p) port) =
      try_bind (dial (dp_host p) port) (\<lambda>k. Inr \<lparr>cl_socket = k, cl_max_payload = frame_max_payload, cl_correlation = 0\<rparr>) \<and>
    vo_workers (dp_server p) \<in> {1..64}"
proof -
  have "server_start (listen (dp_host p) (dp_port p)) (dp_server p) False = Inr port"
    using assms(2) by (auto simp: start_daemon_def op_bind_def op_return_def print_out_def op_update_def split: prod.splits
        dest!: proceed_started first_evidence_started)
  then have "port \<noteq> 0" "vo_workers (dp_server p) \<in> {1..64}"
    by (auto simp: server_start_def result_simps)
  then show ?thesis using endpoint_roundtrip[OF planned_host[OF assms(1)], of port] by (simp add: client_connect_def)
qed

end
