(* ===== verification/Spec2Isabelle.thy ===== *)
theory Spec2Isabelle
  imports Secure_Hash Capacity Mishaps Restart Pool Daemon
begin

text \<open>
  A model of Pod Fabric, a runtime that composes the evidence about the racks of a pod into one
  published state, keeps what it needs of that state on disk, hands out fencing tokens for it, and
  serves it over a socket. Everything below is translated from the C++ sources under \<open>src/\<close>
  (here \<open>x/y\<close> stands for \<open>src/src/x/y.cpp\<close> and \<open>src/include/podfabric/x/y.hpp\<close>); the properties are
  the theorems that follow a text of the form \<open>C<n>: ...\<close>, each in the theory of the component it is about.

  \<^bold>\<open>The parts and how they interact.\<close> The controller (\<open>control/controller\<close>) receives a snapshot of
  evidence, puts the operator's overrides into it, calls the composer (\<open>engine/composer\<close>), commits the
  outcome to its store (\<open>persist/store\<close>) and publishes a pod document. The composer validates the
  request, classifies racks, failure domains, links and routes, adds up capacity in the ledger
  (\<open>engine/ledger\<close>), evaluates obligations, and decides lifecycle, authority, epoch and fences; the
  decision index (\<open>engine/dependency\<close>) says which decisions a change touches. The store writes its
  state as binary documents (\<open>codec/codec\<close>, \<open>persist/durable_state\<close>) into a checkpoint file and a journal
  (\<open>persist/journal\<close>). The server (\<open>control/server\<close>) decodes requests (\<open>control/protocol\<close>) from
  frames (\<open>transport/frame\<close>) and calls the controller; the client does the converse. The text form
  (\<open>codec/text\<close>) is what snapshots are exchanged in and what the digest of a pod document is computed from.

  \<^bold>\<open>Conventions.\<close> A struct or class is a \<open>record\<close>, an enum a \<open>datatype\<close>, a 64-bit integer a \<open>64 word\<close>; a
  signed 64-bit time is an \<open>int\<close> with the operations of \<open>Checked\<close>, whose values outside the range are
  executions that C++ leaves undefined. \<open>Result\<close> and \<open>Status\<close> are sums: \<open>Inl\<close> a failure, with
  its code and message, or \<open>Undefined\<close>; \<open>Inr\<close> a value. So a theorem that a function returns \<open>Inr\<close>
  also says that the execution is defined. A stateful object is an operation \<open>('a, 's) op\<close>, which returns the
  outcome with the state it leaves, also when it fails. Strings are lists of 8-bit characters. The
  operating system, the clock, the entropy source and the scheduler are arguments: lists of outcomes that
  the operations consume, or an unconstrained choice of steps. A \<open>std::map\<close> or \<open>std::set\<close> is a sorted
  list (\<open>OrdMap\<close>).

  \<^bold>\<open>Core\<close> (\<open>core/\<close>). \<open>Prelude\<close> and \<open>OrdMap\<close> hold the machine types, sorting with removal of duplicates, decimal
  text and the ordered containers. \<open>Status\<close>: codes, severities, results and the early-return macros; the
  locale \<open>severity_order\<close> is the contract of every severity table and is interpreted on the four tables of the
  program. \<open>Checked\<close>: checked arithmetic, exact against the integers. \<open>Token\<close>: canonical identities
  and 128-bit values. \<open>Digest\<close>: SHA-256, digests and CRC-32C; \<open>Hashing\<close> proves that the streaming object
  pads and compresses however the input is cut, \<open>Secure_Hash\<close> states FIPS 180-4 on its own (on bits, its constants
  as roots of primes) and proves the two equal, \<open>Sample_Hash\<close> evaluates one hash, \<open>Checksum\<close> proves the table-driven checksum equal to the
  bit-serial one and that it sees every burst of four bytes. \<open>Bytes\<close>: the byte writer and reader
  and UTF-8; \<open>Wire\<close> states their contract.

  \<^bold>\<open>Model\<close> (\<open>model/\<close>). \<open>Primitives\<close>, \<open>Model\<close> (evidence and policy), \<open>Pod_State\<close> (the published
  document, the lifecycle machine, decision identities, canonical form) and \<open>Snapshot\<close> (the input, its validation and
  its canonical form). The orders of the C++ types are instances of \<open>linorder\<close>.

  \<^bold>\<open>Engine\<close> (\<open>engine/\<close>). \<open>Ledger\<close>, \<open>Authority\<close> and \<open>Dependency\<close> are the components of the same names. The
  composer is cut along its stages: \<open>Members\<close>, \<open>Domains\<close>, \<open>Connectivity\<close>, \<open>Obligations\<close>, \<open>Verdict\<close> and
  \<open>Composer\<close>, each stage a function from the \<open>composer\<close> record to its successor. \<open>Composition\<close> says
  what each stage keeps; \<open>Guarantees\<close> proves what a published document says about members, authority, lifecycle,
  epoch and fences, for every request; \<open>Counting\<close> and \<open>Capacity\<close> prove that the published totals count
  each physical unit once, at the smallest amount claimed for it. \<open>Sample\<close> is the request the theorems are
  instantiated on.

  \<^bold>\<open>Documents\<close> (\<open>codec/\<close>, \<open>persist/durable_state\<close>). The locale \<open>codec\<close> (a writer and a reader that round-trip on
  representable values, where the reader accepts nothing but what the writer would write) extends
  \<open>encodable\<close> (round trip only); \<open>Wire\<close> interprets it on every field type, \<open>Documents\<close> on snapshots, contexts, tokens and
  expectations, \<open>Durable\<close> on the durable state, \<open>Protocol\<close> on requests and responses. \<open>Text_Render\<close> and
  \<open>Text_Document\<close> are the renderings of pod documents and snapshots, \<open>Text_Parse\<close> the parser with all its
  faults; \<open>Text_Scan\<close>, \<open>Text_Records\<close> (the locale \<open>text_records\<close>, interpreted on the four kinds of
  record) and \<open>Text_Form\<close> lead to the round trip and to two defects of the parser.

  \<^bold>\<open>Durability\<close> (\<open>persist/\<close>, \<open>platform/file\<close>). \<open>Files\<close> is the directory of a store: the bytes of its files, how much of
  the journal has reached stable storage, and a plan that decides for each operating-system call whether it
  fails and after how many bytes. A crash keeps any prefix of the journal that contains what was synced.
  \<open>Journal\<close> frames and scans records: a cut journal yields the records that are complete, a damaged one no wrong
  record. \<open>Store\<close> is the store; \<open>Reopen\<close>, \<open>Recovery\<close> and \<open>Stores\<close> prove that a commit with arbitrary failures
  followed by a crash leaves the old state or the new one, and that sessions without failures implement a
  single cell. \<open>Mishaps\<close> holds what is not guaranteed: two executions in which an acknowledged commit is lost.

  \<^bold>\<open>Control\<close> (\<open>control/\<close>, \<open>transport/\<close>). \<open>Controller\<close> is the controller; \<open>Commands\<close> takes sequences of commands as a step
  relation and proves what never goes back and which tokens are accepted; the locale \<open>preorder_relation\<close>
  collects what an operation keeps and is interpreted on three relations. \<open>Restart\<close> relates memory to disk and
  a controller to its predecessor. \<open>Frames\<close> is framing and the socket as a stream that arrives and leaves in
  pieces of any size; \<open>Protocol\<close> the messages; \<open>Server\<close> the handler, the serving of a connection and
  the client; \<open>Pool\<close> the threads of the server as an \<open>inductive\<close> relation in which one step is
  one access to the shared state, with its invariant, the termination of a shutdown, and the reachable
  state in which a shutdown hangs.

  \<^bold>\<open>Programs\<close> (\<open>model/synthetic\<close>, \<open>src/apps\<close>). \<open>Synthetic\<close> makes up the snapshot of a pod from counts and a seed; what it makes
  up within the default limits is valid (if no descriptor has the digest zero), and its text reads back. \<open>Endpoints\<close> is how an endpoint is written and read, and the checks
  before a client connects and a server listens. \<open>Cli\<close> (\<open>apps/cli.cpp\<close>) is the parser of arguments, with the
  exact language it accepts. \<open>Tools\<close> (\<open>apps/podfabricctl/main.cpp\<close>) has every command as an operation on a \<open>station\<close>:
  files under paths, planned failures of system calls, and what was printed; what one command writes is
  proved to be what the next one reads. \<open>Daemon\<close> is the start of \<open>apps/podfabd/main.cpp\<close>: its options, the opening
  of the controller, the first evidence and the server.

  \<^bold>\<open>Bounds and termination.\<close> There is no fuel in the model: every loop is structural recursion, a fold, or
  a \<open>function\<close> with a measure, among them the decoding of UTF-8 (the bytes left), the blocks of the hash
  (the bytes left), the closure of the dependency index (decisions not yet marked), and the loops
  of the socket (the bytes missing: a call that moves no byte ends the loop). The padding loop of the hash
  is a \<open>while_option\<close>, and that it ends is part of the theorem about the hash. The limits of the program
  (16 MiB documents, \<open>2 ^ 20\<close> items, 8192 bytes a line, \<open>2 ^ 20\<close> lines) are those of the code. A limit that is too small is
  an outcome of the functions, and theorems about success either name the bound or admit that outcome.

  \<^bold>\<open>Not modelled.\<close> The clock and the entropy source (\<open>core/time\<close>, the body of \<open>Uuid::random\<close>): their readings
  are arguments. Of \<open>transport/socket\<close> the calls that create connections (address resolution, connect, bind,
  listen, accept, socket options), which only pass through to the operating system; of \<open>control/server\<close>
  restarting a stopped pool; of \<open>apps/podfabd\<close> the signals, the loop that waits for them and the closing lines; of \<open>platform/file\<close> text from \<open>errno\<close> and the Windows
  branches. Spurious wake-ups of a condition variable are left out (they are allowed and not
  promised). Examples, benchmarks and tests only call what is modelled. Allocation failure, destructors and moves have no counterpart in values.
\<close>

end
